(* ===== verification/Rust_Strings.thy ===== *)
theory Rust_Strings
  imports Prelude
begin

text \<open>
  Rust's \<open>str\<close> as its list of UTF-8 bytes, so that \<open>length\<close> is \<open>str::len\<close>.
  The operations are those of the standard library the modelled code calls: \<open>trim\<close>,
  \<open>split\<close>, \<open>replace\<close>, \<open>parse\<close>, \<open>to_string\<close>, the ASCII classes and the
  char boundaries of a byte index.
\<close>

section \<open>Bytes and code points\<close>

abbreviation byte :: "char \<Rightarrow> nat" where "byte c \<equiv> of_char c"

definition utf8_char :: "nat \<Rightarrow> string" where
  "utf8_char c =
     (if c < 128 then [char_of c]
      else if c < 2048 then [char_of (192 + c div 64), char_of (128 + c mod 64)]
      else if c < 65536
        then [char_of (224 + c div 4096), char_of (128 + c div 64 mod 64), char_of (128 + c mod 64)]
      else [char_of (240 + c div 262144), char_of (128 + c div 4096 mod 64),
            char_of (128 + c div 64 mod 64), char_of (128 + c mod 64)])"

definition utf8 :: "nat list \<Rightarrow> string" where
  "utf8 cs = concat (map utf8_char cs)"

definition is_ascii_digit :: "char \<Rightarrow> bool" where
  "is_ascii_digit c \<longleftrightarrow> 48 \<le> byte c \<and> byte c \<le> 57"

definition is_ascii_uppercase :: "char \<Rightarrow> bool" where
  "is_ascii_uppercase c \<longleftrightarrow> 65 \<le> byte c \<and> byte c \<le> 90"

definition is_ascii_lowercase :: "char \<Rightarrow> bool" where
  "is_ascii_lowercase c \<longleftrightarrow> 97 \<le> byte c \<and> byte c \<le> 122"

definition is_ascii_alphanumeric :: "char \<Rightarrow> bool" where
  "is_ascii_alphanumeric c \<longleftrightarrow> is_ascii_digit c \<or> is_ascii_uppercase c \<or> is_ascii_lowercase c"

definition is_ascii_graphic :: "char \<Rightarrow> bool" where
  "is_ascii_graphic c \<longleftrightarrow> 33 \<le> byte c \<and> byte c \<le> 126"

definition to_ascii_lowercase :: "string \<Rightarrow> string" where
  "to_ascii_lowercase s = map (\<lambda>c. if is_ascii_uppercase c then char_of (byte c + 32) else c) s"

lemmas ascii_class_defs = is_ascii_digit_def is_ascii_uppercase_def is_ascii_lowercase_def
  is_ascii_alphanumeric_def is_ascii_graphic_def

text \<open>A byte index is a char boundary when it is the end or not at a continuation byte.\<close>

definition is_char_boundary :: "string \<Rightarrow> nat \<Rightarrow> bool" where
  "is_char_boundary s i \<longleftrightarrow>
     i = 0 \<or> i = length s \<or> (i < length s \<and> \<not> (128 \<le> byte (s ! i) \<and> byte (s ! i) < 192))"

fun boundary_below :: "string \<Rightarrow> nat \<Rightarrow> nat" where
  "boundary_below s 0 = 0"
| "boundary_below s (Suc n) =
     (if is_char_boundary s (Suc n) then Suc n else boundary_below s n)"

lemma boundary_below_le: "boundary_below s n \<le> n"
  by (induction n) (auto intro: le_SucI)

lemma boundary_below_is_boundary: "is_char_boundary s (boundary_below s n)"
  by (induction n) (auto simp: is_char_boundary_def)

text \<open>Truncation to a byte budget at a char boundary, with an ellipsis (U+2026).\<close>

definition truncate_bytes :: "nat \<Rightarrow> string \<Rightarrow> string" where
  "truncate_bytes limit s =
     (if length s \<le> limit then s else take (boundary_below s limit) s @ utf8 [8230])"

lemma length_truncate_bytes: "length (truncate_bytes limit s) \<le> limit + 3"
proof -
  have "length (utf8 [8230]) = 3" by (simp add: utf8_def utf8_char_def)
  moreover have "boundary_below s limit \<le> limit" by (rule boundary_below_le)
  ultimately show ?thesis by (simp add: truncate_bytes_def)
qed

lemma truncate_bytes_id [simp]: "length s \<le> limit \<Longrightarrow> truncate_bytes limit s = s"
  by (simp add: truncate_bytes_def)

section \<open>Trimming\<close>

text \<open>The UTF-8 encodings of the code points with Unicode property \<open>White_Space\<close>.\<close>

definition whitespace_codes :: "string list" where
  "whitespace_codes = map utf8_char
     ([9, 10, 11, 12, 13, 32, 133, 160, 5760] @ [8192 ..< 8203] @ [8232, 8233, 8239, 8287, 12288])"

lemma whitespace_codes_nonempty: "[] \<notin> set whitespace_codes"
  by (auto simp: whitespace_codes_def utf8_char_def)

function strip_codes :: "string list \<Rightarrow> string \<Rightarrow> string" where
  "strip_codes ws s =
     (case find (\<lambda>w. w \<noteq> [] \<and> prefix w s) ws of
        None \<Rightarrow> s
      | Some w \<Rightarrow> strip_codes ws (drop (length w) s))"
  by pat_completeness auto
termination
  by (relation "measure (\<lambda>(ws, s). length s)")
    (auto simp: find_Some_iff prefix_def)

declare strip_codes.simps [simp del]

definition trim_start :: "string \<Rightarrow> string" where
  "trim_start s = strip_codes whitespace_codes s"

definition trim_end :: "string \<Rightarrow> string" where
  "trim_end s = rev (strip_codes (map rev whitespace_codes) (rev s))"

definition trim :: "string \<Rightarrow> string" where
  "trim s = trim_end (trim_start s)"

text \<open>Trimming leaves a text of visible ASCII characters alone.\<close>

lemma whitespace_codes_ends:
  "w \<in> set whitespace_codes \<Longrightarrow> w \<noteq> [] \<and> \<not> is_ascii_graphic (hd w) \<and> \<not> is_ascii_graphic (last w)"
proof -
  assume "w \<in> set whitespace_codes"
  then show ?thesis
    by (auto simp: whitespace_codes_def utf8_char_def is_ascii_graphic_def)
qed

lemma strip_codes_id:
  assumes "\<And>w. w \<in> set ws \<Longrightarrow> w \<noteq> [] \<Longrightarrow> s \<noteq> [] \<Longrightarrow> hd w \<noteq> hd s"
  shows "strip_codes ws s = s"
proof -
  have "find (\<lambda>w. w \<noteq> [] \<and> prefix w s) ws = None"
  proof (unfold find_None_iff, rule notI)
    assume "\<exists>w. w \<in> set ws \<and> w \<noteq> [] \<and> prefix w s"
    then obtain w where w: "w \<in> set ws" "w \<noteq> []" "prefix w s" by blast
    then have "s \<noteq> [] \<and> hd w = hd s" by (auto simp: prefix_def)
    with assms w show False by blast
  qed
  then show ?thesis by (subst strip_codes.simps) simp
qed

lemma trim_graphic:
  assumes "\<forall>c \<in> set s. is_ascii_graphic c"
  shows "trim s = s"
proof -
  have "trim_start s = s"
    unfolding trim_start_def using assms whitespace_codes_ends
    by (intro strip_codes_id) (metis list.set_sel(1))
  moreover have "strip_codes (map rev whitespace_codes) (rev s) = rev s"
  proof (rule strip_codes_id)
    fix w
    assume "w \<in> set (map rev whitespace_codes)" "rev s \<noteq> []"
    then obtain v where v: "v \<in> set whitespace_codes" "w = rev v" by auto
    with whitespace_codes_ends [OF v(1)] have "\<not> is_ascii_graphic (hd w)" by (simp add: hd_rev)
    moreover have "hd (rev s) \<in> set s" using \<open>rev s \<noteq> []\<close> by (metis list.set_sel(1) set_rev)
    ultimately show "hd w \<noteq> hd (rev s)" using assms by auto
  qed
  ultimately show ?thesis by (simp add: trim_def trim_end_def)
qed

lemma strip_codes_suffix: "suffix (strip_codes ws s) s"
proof (induction ws s rule: strip_codes.induct)
  case (1 ws s)
  show ?case
  proof (cases "find (\<lambda>w. w \<noteq> [] \<and> prefix w s) ws")
    case None
    then show ?thesis by (subst strip_codes.simps) simp
  next
    case (Some w)
    have "suffix (strip_codes ws (drop (length w) s)) (drop (length w) s)"
      using 1 Some by simp
    then have "suffix (strip_codes ws (drop (length w) s)) s"
      by (rule suffix_order.trans) (rule suffix_drop)
    with Some show ?thesis by (subst strip_codes.simps) simp
  qed
qed

lemma length_trim_start: "length (trim_start s) \<le> length s"
  unfolding trim_start_def by (rule suffix_length_le [OF strip_codes_suffix])

lemma length_trim: "length (trim s) \<le> length s"
proof -
  have "length (trim_end t) \<le> length t" for t
    unfolding trim_end_def
    using suffix_length_le [OF strip_codes_suffix, of _ "rev t"] by simp
  then show ?thesis
    using length_trim_start [of s] by (metis le_trans trim_def)
qed

lemma trim_Nil [simp]: "trim [] = []"
  using length_trim [of "[]"] by simp

lemma strip_codes_stuck: "\<forall>w \<in> set ws. w = [] \<or> \<not> prefix w (strip_codes ws s)"
proof (induction ws s rule: strip_codes.induct)
  case (1 ws s)
  show ?case
  proof (cases "find (\<lambda>w. w \<noteq> [] \<and> prefix w s) ws")
    case None
    then have "strip_codes ws s = s" by (subst strip_codes.simps) simp
    with None show ?thesis by (auto simp: find_None_iff)
  next
    case (Some w)
    with 1 show ?thesis by (subst strip_codes.simps) simp
  qed
qed

section \<open>Splitting, joining, replacing\<close>

fun split_on :: "char \<Rightarrow> string \<Rightarrow> string list" where
  "split_on d [] = [[]]"
| "split_on d (c # cs) =
     (if c = d then [] # split_on d cs
      else (case split_on d cs of [] \<Rightarrow> [[c]] | p # ps \<Rightarrow> (c # p) # ps))"

fun join_with :: "string \<Rightarrow> string list \<Rightarrow> string" where
  "join_with sep [] = []"
| "join_with sep [x] = x"
| "join_with sep (x # y # ys) = x @ sep @ join_with sep (y # ys)"

lemma split_on_nonempty [simp]: "split_on d s \<noteq> []"
  by (induction s) (auto split: list.splits)

lemma join_with_Cons_head: "join_with sep ((c # p) # ps) = c # join_with sep (p # ps)"
  by (cases ps) simp_all

lemma join_with_Nil_head: "ps \<noteq> [] \<Longrightarrow> join_with sep ([] # ps) = sep @ join_with sep ps"
  by (cases ps) simp_all

lemma join_split [simp]: "join_with [d] (split_on d s) = s"
proof (induction s)
  case Nil
  then show ?case by simp
next
  case (Cons c s)
  then show ?case
    by (cases "split_on d s") (auto simp: join_with_Cons_head join_with_Nil_head)
qed

lemma split_on_parts: "p \<in> set (split_on d s) \<Longrightarrow> d \<notin> set p"
proof (induction s arbitrary: p)
  case Nil
  then show ?case by simp
next
  case (Cons c s)
  then show ?case by (cases "split_on d s") (auto split: if_splits)
qed

text \<open>\<open>str::replace\<close> for a non-empty pattern: non-overlapping, from the left.\<close>

function replace_all :: "string \<Rightarrow> string \<Rightarrow> string \<Rightarrow> string" where
  "replace_all pat by [] = []"
| "replace_all pat by (c # cs) =
     (if pat \<noteq> [] \<and> prefix pat (c # cs)
      then by @ replace_all pat by (drop (length pat) (c # cs))
      else c # replace_all pat by cs)"
  by pat_completeness auto
termination
  by (relation "measure (\<lambda>(pat, by, s). length s)") (auto simp: prefix_def Cons_eq_append_conv)

definition str_contains :: "string \<Rightarrow> string \<Rightarrow> bool" where
  "str_contains s t \<longleftrightarrow> (\<exists>i \<in> set [0 ..< Suc (length s)]. prefix t (drop i s))"

lemma str_contains_iff: "str_contains s t \<longleftrightarrow> (\<exists>a b. s = a @ t @ b)"
proof
  assume "str_contains s t"
  then obtain i r where "drop i s = t @ r"
    by (auto simp: str_contains_def prefix_def)
  then have "s = take i s @ t @ r" by (metis append_take_drop_id)
  then show "\<exists>a b. s = a @ t @ b" by blast
next
  assume "\<exists>a b. s = a @ t @ b"
  then obtain a b where s: "s = a @ t @ b" by blast
  then have "length a \<in> set [0 ..< Suc (length s)]" by simp
  moreover from s have "prefix t (drop (length a) s)" by simp
  ultimately show "str_contains s t" unfolding str_contains_def by blast
qed

section \<open>Numbers as text\<close>

definition digit_char :: "nat \<Rightarrow> char" where
  "digit_char d = char_of (48 + d)"

fun show_nat :: "nat \<Rightarrow> string" where
  "show_nat n = (if n < 10 then [digit_char n] else show_nat (n div 10) @ [digit_char (n mod 10)])"

declare show_nat.simps [simp del]

definition show_int :: "int \<Rightarrow> string" where
  "show_int i = (if i < 0 then CHR ''-'' # show_nat (nat (- i)) else show_nat (nat i))"

fun digits_value :: "nat \<Rightarrow> string \<Rightarrow> nat option" where
  "digits_value acc [] = Some acc"
| "digits_value acc (c # cs) =
     (if is_ascii_digit c then digits_value (10 * acc + (byte c - 48)) cs else None)"

definition parse_nat :: "string \<Rightarrow> nat option" where
  "parse_nat s = (if s = [] then None else digits_value 0 s)"

text \<open>\<open>str::parse\<close> at an unsigned type with maximum \<open>m\<close>, and at \<open>i64\<close>.\<close>

definition parse_unsigned :: "nat \<Rightarrow> string \<Rightarrow> nat option" where
  "parse_unsigned m s =
     (let ds = (case s of c # cs \<Rightarrow> if c = CHR ''+'' then cs else s | [] \<Rightarrow> [])
      in case parse_nat ds of Some n \<Rightarrow> if n \<le> m then Some n else None | None \<Rightarrow> None)"

definition parse_i64 :: "string \<Rightarrow> int option" where
  "parse_i64 s =
     (case s of
        [] \<Rightarrow> None
      | c # cs \<Rightarrow>
          let v = (if c = CHR ''-'' then map_option (\<lambda>n. - int n) (parse_nat cs)
                   else if c = CHR ''+'' then map_option int (parse_nat cs)
                   else map_option int (parse_nat s))
          in case v of Some i \<Rightarrow> if is_i64 i then Some i else None | None \<Rightarrow> None)"

lemma byte_digit_char: "d < 10 \<Longrightarrow> byte (digit_char d) = 48 + d"
  by (simp add: digit_char_def)

lemma is_ascii_digit_digit_char: "d < 10 \<Longrightarrow> is_ascii_digit (digit_char d)"
  by (simp add: is_ascii_digit_def byte_digit_char)

lemma digits_value_append:
  "digits_value acc (s @ [digit_char d]) =
     (if d < 10 then map_option (\<lambda>v. 10 * v + d) (digits_value acc s)
      else digits_value acc (s @ [digit_char d]))"
  by (induction s arbitrary: acc) (auto simp: is_ascii_digit_digit_char byte_digit_char)

lemma show_nat_nonempty [simp]: "show_nat n \<noteq> []"
  by (subst show_nat.simps) simp

lemma digits_value_show_nat [simp]: "digits_value 0 (show_nat n) = Some n"
proof (induction n rule: show_nat.induct)
  case (1 n)
  show ?case
  proof (cases "n < 10")
    case True
    then show ?thesis
      by (subst show_nat.simps) (simp add: is_ascii_digit_digit_char byte_digit_char)
  next
    case False
    with 1 have "digits_value 0 (show_nat (n div 10)) = Some (n div 10)" by simp
    with False show ?thesis
      by (subst show_nat.simps) (simp add: digits_value_append)
  qed
qed

lemma show_nat_digits: "c \<in> set (show_nat n) \<Longrightarrow> is_ascii_digit c"
proof (induction n rule: show_nat.induct)
  case (1 n)
  then show ?case
    by (subst (asm) (2) show_nat.simps) (auto simp: is_ascii_digit_digit_char split: if_splits)
qed

lemma parse_nat_show_nat [simp]: "parse_nat (show_nat n) = Some n"
  by (simp add: parse_nat_def)

lemma show_nat_head: "show_nat n = c # cs \<Longrightarrow> c \<noteq> CHR ''-'' \<and> c \<noteq> CHR ''+''"
  using show_nat_digits [of c n] by (auto simp: is_ascii_digit_def)

lemma parse_i64_show_int: "is_i64 i \<Longrightarrow> parse_i64 (show_int i) = Some i"
proof -
  assume w: "is_i64 i"
  show "parse_i64 (show_int i) = Some i"
  proof (cases "i < 0")
    case True
    with w show ?thesis by (simp add: show_int_def parse_i64_def)
  next
    case False
    obtain c cs where eq: "show_nat (nat i) = c # cs"
      by (meson neq_Nil_conv show_nat_nonempty)
    moreover have "parse_nat (c # cs) = Some (nat i)"
      by (metis eq parse_nat_show_nat)
    ultimately show ?thesis
      using False w show_nat_head [OF eq] by (simp add: show_int_def parse_i64_def)
  qed
qed

lemma parse_i64_is_i64: "parse_i64 s = Some i \<Longrightarrow> is_i64 i"
  by (auto simp: parse_i64_def Let_def split: list.splits option.splits if_splits)

lemma show_nat_inj: "show_nat m = show_nat n \<longleftrightarrow> m = n"
  by (metis digits_value_show_nat option.inject)

lemma show_int_chars: "c \<in> set (show_int i) \<Longrightarrow> c = CHR ''-'' \<or> is_ascii_digit c"
  using show_nat_digits [of c] by (auto simp: show_int_def split: if_splits)

lemma show_int_inj [simp]: "show_int i = show_int j \<longleftrightarrow> i = j"
proof
  assume eq: "show_int i = show_int j"
  have "(i < 0) = (j < 0)"
    using eq show_nat_head [of "nat i"] show_nat_head [of "nat j"]
    by (auto simp: show_int_def split: if_splits dest!: sym [of _ "show_nat _"]; metis)
  with eq show "i = j" by (auto simp: show_int_def show_nat_inj split: if_splits)
qed simp

lemma colon_split:
  assumes "CHR '':'' \<notin> set x" "CHR '':'' \<notin> set x'"
  shows "x @ CHR '':'' # y = x' @ CHR '':'' # y' \<longleftrightarrow> x = x' \<and> y = y'"
  using assms
proof (induction x arbitrary: x')
  case Nil
  then show ?case by (cases x') auto
next
  case (Cons c x)
  then show ?case by (cases x') auto
qed

lemma colon_split_last:
  assumes "CHR '':'' \<notin> set y" "CHR '':'' \<notin> set y'"
  shows "x @ CHR '':'' # y = x' @ CHR '':'' # y' \<longleftrightarrow> x = x' \<and> y = y'"
proof -
  have "x @ CHR '':'' # y = x' @ CHR '':'' # y' \<longleftrightarrow> rev y @ CHR '':'' # rev x = rev y' @ CHR '':'' # rev x'"
    by (metis append.assoc append_Cons append_Nil rev.simps(2) rev_append rev_rev_ident)
  also have "\<dots> \<longleftrightarrow> rev y = rev y' \<and> rev x = rev x'" by (rule colon_split) (use assms in simp_all)
  finally show ?thesis by auto
qed

end
