(* ===== verification/Messages.thy ===== *)
theory Messages
  imports Rust_Strings
begin

text \<open>
  The message texts of the code that are not ASCII, as the UTF-8 bytes of their code points.
  Each definition is followed by an English gloss of the text; a text with a hole is split
  into the pieces around it.
\<close>

definition cat_validation :: string where \<comment> \<open>parameter validation failed\<close>
  "cat_validation = utf8
    [21442, 25968, 26657, 39564, 22833, 36133]"

definition cat_authentication :: string where \<comment> \<open>authentication failed\<close>
  "cat_authentication = utf8
    [35748, 35777, 22833, 36133]"

definition cat_authorization :: string where \<comment> \<open>insufficient permission\<close>
  "cat_authorization = utf8
    [26435, 38480, 19981, 36275]"

definition cat_not_found :: string where \<comment> \<open>resource not found\<close>
  "cat_not_found = utf8
    [36164, 28304, 19981, 23384, 22312]"

definition cat_conflict :: string where \<comment> \<open>data conflict\<close>
  "cat_conflict = utf8
    [25968, 25454, 20914, 31361]"

definition cat_retryable_conflict :: string where \<comment> \<open>resource temporarily occupied\<close>
  "cat_retryable_conflict = utf8
    [36164, 28304, 26242, 26102, 34987, 21344, 29992]"

definition cat_payload_too_large :: string where \<comment> \<open>request body too large\<close>
  "cat_payload_too_large = utf8
    [35831, 27714, 20307, 36807, 22823]"

definition cat_rate_limited :: string where \<comment> \<open>too many requests\<close>
  "cat_rate_limited = utf8
    [35831, 27714, 36807, 20110, 39057, 32321]"

definition cat_database :: string where \<comment> \<open>database error\<close>
  "cat_database = utf8
    [25968, 25454, 24211, 38169, 35823]"

definition cat_config :: string where \<comment> \<open>configuration error\<close>
  "cat_config = utf8
    [37197, 32622, 38169, 35823]"

definition cat_internal :: string where \<comment> \<open>internal error\<close>
  "cat_internal = utf8
    [20869, 37096, 38169, 35823]"

definition cat_service_unavailable :: string where \<comment> \<open>service temporarily unavailable\<close>
  "cat_service_unavailable = utf8
    [26381, 21153, 26242, 19981, 21487, 29992]"

definition cat_capability_unavailable :: string where \<comment> \<open>deployment capability unavailable\<close>
  "cat_capability_unavailable = utf8
    [37096, 32626, 33021, 21147, 19981, 21487, 29992]"

definition cat_tenant_capability_denied :: string where \<comment> \<open>capability not enabled for the tenant\<close>
  "cat_tenant_capability_denied = utf8
    [31199, 25143, 26410, 24320, 36890, 33021, 21147]"

definition cat_stale_runtime_epoch :: string where \<comment> \<open>tenant runtime version changed\<close>
  "cat_stale_runtime_epoch = utf8
    [31199, 25143, 36816, 34892, 29256, 26412, 24050, 21464, 21270]"

definition cat_stale_placement :: string where \<comment> \<open>tenant data placement changed\<close>
  "cat_stale_placement = utf8
    [31199, 25143, 25968, 25454, 25918, 32622, 24050, 21464, 21270]"

definition cat_tenant_operation_conflict :: string where \<comment> \<open>tenant operation conflict\<close>
  "cat_tenant_operation_conflict = utf8
    [31199, 25143, 25805, 20316, 20914, 31361]"

definition cat_tenant_maintenance :: string where \<comment> \<open>tenant business data under maintenance\<close>
  "cat_tenant_maintenance = utf8
    [31199, 25143, 19994, 21153, 25968, 25454, 32500, 25252, 20013]"

definition cat_tenant_target_unavailable :: string where \<comment> \<open>tenant business database unavailable\<close>
  "cat_tenant_target_unavailable = utf8
    [31199, 25143, 19994, 21153, 25968, 25454, 24211, 19981, 21487, 29992]"

definition cat_export_all :: string where \<comment> \<open>exporting all data needs confirmation\<close>
  "cat_export_all = utf8
    [23548, 20986, 20840, 37096, 25968, 25454, 38656, 35201, 30830, 35748]"

definition cat_export_no_rows :: string where \<comment> \<open>no matching data to export\<close>
  "cat_export_no_rows = utf8
    [27809, 26377, 21305, 37197, 30340, 23548, 20986, 25968, 25454]"

definition cat_export_row_limit :: string where \<comment> \<open>export exceeds the row limit\<close>
  "cat_export_row_limit = utf8
    [23548, 20986, 25968, 25454, 36229, 36807, 34892, 25968, 19978, 38480]"

definition msg_export_row_limit :: string where \<comment> \<open>matched rows exceed the allowed limit\<close>
  "msg_export_row_limit = utf8
    [23548, 20986, 21305, 37197, 34892, 25968, 36229, 36807, 20801, 35768, 19978,
     38480]"

definition msg_id_service :: string where \<comment> \<open>the ID service is temporarily unavailable, retry later\<close>
  "msg_id_service = utf8
    [73, 68, 32, 29983, 25104, 26381, 21153, 26242, 26102, 19981, 21487, 29992,
     65292, 35831, 31245, 21518, 37325, 35797]"

definition msg_sf_uninitialised :: string where \<comment> \<open>Snowflake not initialised at the process boundary\<close>
  "msg_sf_uninitialised = utf8
    [83, 110, 111, 119, 102, 108, 97, 107, 101, 32, 23578, 26410, 22312, 36827,
     31243, 21551, 21160, 36793, 30028, 21021, 22987, 21270]"

definition msg_sf_switch_1 :: string where \<comment> \<open>Snowflake already uses worker ID\<close>
  "msg_sf_switch_1 = utf8
    [83, 110, 111, 119, 102, 108, 97, 107, 101, 32, 24050, 20351, 29992, 32, 119,
     111, 114, 107, 101, 114, 32, 73, 68, 32]"

definition msg_sf_switch_2 :: string where \<comment> \<open>, cannot switch to\<close>
  "msg_sf_switch_2 = utf8
    [32, 21021, 22987, 21270, 65292, 19981, 33021, 20999, 25442, 20026, 32]"

definition msg_permission_required :: string where \<comment> \<open>insufficient permission, code required\<close>
  "msg_permission_required = utf8
    [26435, 38480, 19981, 36275, 65292, 38656, 35201, 26435, 38480, 30721, 58, 32]"

definition msg_device_limit :: string where \<comment> \<open>the number of login devices reached the safety limit\<close>
  "msg_device_limit = utf8
    [30331, 24405, 35774, 22791, 25968, 37327, 24050, 36798, 21040, 23433, 20840,
     19978, 38480]"

definition msg_bulk_revoke_1 :: string where \<comment> \<open>at most (n) ... may be revoked at once\<close>
  "msg_bulk_revoke_1 = utf8
    [19968, 27425, 26368, 22810, 25764, 38144, 32]"

definition msg_bulk_revoke_2 :: string where \<comment> \<open>login devices\<close>
  "msg_bulk_revoke_2 = utf8
    [32, 20010, 30331, 24405, 35774, 22791]"

definition msg_session_identity_empty :: string where \<comment> \<open>session identity must not be empty\<close>
  "msg_session_identity_empty = utf8
    [20250, 35805, 36523, 20221, 19981, 33021, 20026, 31354]"

definition msg_linked_conflict :: string where \<comment> \<open>the linked business state changed; refusing to overwrite it\<close>
  "msg_linked_conflict = utf8
    [20851, 32852, 19994, 21153, 20219, 21153, 29366, 24577, 24050, 21464, 21270,
     65292, 25298, 32477, 35206, 30422, 26435, 23041, 29366, 24577]"

definition msg_claim_sequence :: string where \<comment> \<open>claim sequence overflowed or is invalid\<close>
  "msg_claim_sequence = utf8
    [20219, 21153, 39046, 21462, 24207, 21495, 28322, 20986, 25110, 26080, 25928]"

definition msg_claim_state :: string where \<comment> \<open>claim state, time or sequence invalid\<close>
  "msg_claim_state = utf8
    [20219, 21153, 39046, 21462, 29366, 24577, 12289, 26102, 38388, 25110, 24207,
     21495, 26080, 25928]"

definition msg_attempt_missing :: string where \<comment> \<open>attempt row missing, closed, or time reversed\<close>
  "msg_attempt_missing = utf8
    [20219, 21153, 23581, 35797, 35760, 24405, 32570, 22833, 12289, 24050, 38381,
     21512, 25110, 26102, 38388, 36870, 24207]"

definition msg_lease_expired_dead :: string where \<comment> \<open>the job lease expired; outcome unknown\<close>
  "msg_lease_expired_dead = utf8
    [20219, 21153, 31199, 32422, 24050, 36807, 26399, 65292, 22788, 29702, 32467,
     26524, 26410, 30693]"

definition msg_max_runtime :: string where \<comment> \<open>the maximum run time of a scheduled job must be 1 to 86400 seconds\<close>
  "msg_max_runtime = utf8
    [35745, 21010, 20219, 21153, 26368, 22823, 36816, 34892, 26102, 38271, 24517,
     39035, 22312, 32, 49, 32, 21040, 32, 56, 54, 52, 48, 48, 32, 31186, 20043,
     38388]"

definition msg_cfg_export_safe :: string where \<comment> \<open>building the configuration package failed\<close>
  "msg_cfg_export_safe = utf8
    [37197, 32622, 21253, 29983, 25104, 22833, 36133, 65292, 35831, 31245, 21518,
     37325, 35797, 25110, 32852, 31995, 31649, 29702, 21592]"

definition msg_cfg_preview_safe :: string where \<comment> \<open>the configuration preview failed\<close>
  "msg_cfg_preview_safe = utf8
    [37197, 32622, 39044, 35272, 22833, 36133, 65292, 35831, 31245, 21518, 37325,
     35797, 25110, 32852, 31995, 31649, 29702, 21592]"

definition msg_cfg_apply_safe :: string where \<comment> \<open>applying the configuration failed\<close>
  "msg_cfg_apply_safe = utf8
    [37197, 32622, 24212, 29992, 22833, 36133, 65292, 35831, 31245, 21518, 37325,
     35797, 25110, 32852, 31995, 31649, 29702, 21592]"

definition msg_cfg_rollback_safe :: string where \<comment> \<open>rolling back the configuration failed\<close>
  "msg_cfg_rollback_safe = utf8
    [37197, 32622, 22238, 28378, 22833, 36133, 65292, 35831, 31245, 21518, 37325,
     35797, 25110, 32852, 31995, 31649, 29702, 21592]"

definition msg_outbox_dup_no_key :: string where \<comment> \<open>duplicate outbox write without an idempotency key\<close>
  "msg_outbox_dup_no_key = utf8
    [79, 117, 116, 98, 111, 120, 32, 37325, 22797, 20889, 20837, 26410, 25552,
     20379, 24130, 31561, 38190]"

definition msg_outbox_dup_unreadable :: string where \<comment> \<open>duplicate key reported but the row is unreadable\<close>
  "msg_outbox_dup_unreadable = utf8
    [79, 117, 116, 98, 111, 120, 32, 37325, 22797, 38190, 24050, 25253, 21578,
     20294, 35760, 24405, 19981, 21487, 35835]"

definition msg_outbox_attempts_overflow :: string where \<comment> \<open>outbox attempt counter overflow\<close>
  "msg_outbox_attempts_overflow = utf8
    [79, 117, 116, 98, 111, 120, 32, 20107, 20214, 23581, 35797, 27425, 25968,
     28322, 20986]"

definition msg_outbox_expired_dead :: string where \<comment> \<open>the outbox lease expired; delivery outcome unknown\<close>
  "msg_outbox_expired_dead = utf8
    [79, 117, 116, 98, 111, 120, 32, 20107, 20214, 31199, 32422, 24050, 36807,
     26399, 65292, 25237, 36882, 32467, 26524, 26410, 30693]"

definition msg_outbox_len_1 :: string where \<comment> \<open>(field) length must be between 1 and\<close>
  "msg_outbox_len_1 = utf8
    [32, 38271, 24230, 24517, 39035, 20171, 20110, 32, 49, 32, 21644, 32]"

definition msg_outbox_len_2 :: string where \<comment> \<open>(end of the range)\<close>
  "msg_outbox_len_2 = utf8
    [32, 20043, 38388]"

definition msg_outbox_max_attempts :: string where \<comment> \<open>max_attempts must be between 1 and 20\<close>
  "msg_outbox_max_attempts = utf8
    [109, 97, 120, 95, 97, 116, 116, 101, 109, 112, 116, 115, 32, 24517, 39035,
     20171, 20110, 32, 49, 32, 21644, 32, 50, 48, 32, 20043, 38388]"

definition msg_outbox_dedupe :: string where \<comment> \<open>dedupe_key length must be between 1 and 191\<close>
  "msg_outbox_dedupe = utf8
    [100, 101, 100, 117, 112, 101, 95, 107, 101, 121, 32, 38271, 24230, 24517,
     39035, 20171, 20110, 32, 49, 32, 21644, 32, 49, 57, 49, 32, 20043, 38388]"

definition msg_outbox_traceparent :: string where \<comment> \<open>traceparent must not exceed 255 bytes\<close>
  "msg_outbox_traceparent = utf8
    [79, 117, 116, 98, 111, 120, 32, 116, 114, 97, 99, 101, 112, 97, 114, 101, 110,
     116, 32, 19981, 33021, 36229, 36807, 32, 50, 53, 53, 32, 23383, 33410]"

definition msg_outbox_tracestate :: string where \<comment> \<open>tracestate must not exceed 512 bytes\<close>
  "msg_outbox_tracestate = utf8
    [79, 117, 116, 98, 111, 120, 32, 116, 114, 97, 99, 101, 115, 116, 97, 116, 101,
     32, 19981, 33021, 36229, 36807, 32, 53, 49, 50, 32, 23383, 33410]"

definition msg_outbox_worker :: string where \<comment> \<open>the worker identifier must have 1 to 128 bytes\<close>
  "msg_outbox_worker = utf8
    [79, 117, 116, 98, 111, 120, 32, 87, 111, 114, 107, 101, 114, 32, 26631, 35782,
     38271, 24230, 24517, 39035, 20171, 20110, 32, 49, 32, 21644, 32, 49, 50, 56,
     32, 20043, 38388]"

definition msg_outbox_lease :: string where \<comment> \<open>the lease must be positive\<close>
  "msg_outbox_lease = utf8
    [79, 117, 116, 98, 111, 120, 32, 31199, 32422, 24517, 39035, 22823, 20110,
     38646]"

definition msg_pw_range_1 :: string where \<comment> \<open>password length must be 1 to (n)\<close>
  "msg_pw_range_1 = utf8
    [23494, 30721, 38271, 24230, 24517, 39035, 22312, 32, 49, 45]"

definition msg_pw_range_2 :: string where \<comment> \<open>(end of the range)\<close>
  "msg_pw_range_2 = utf8
    [32, 20043, 38388]"

definition msg_pw_short_1 :: string where \<comment> \<open>password must not be shorter than\<close>
  "msg_pw_short_1 = utf8
    [23494, 30721, 38271, 24230, 19981, 33021, 23569, 20110, 32]"

definition msg_pw_long_1 :: string where \<comment> \<open>password must not be longer than\<close>
  "msg_pw_long_1 = utf8
    [23494, 30721, 38271, 24230, 19981, 33021, 36229, 36807, 32]"

definition msg_pw_chars :: string where \<comment> \<open>characters\<close>
  "msg_pw_chars = utf8
    [32, 20010, 23383, 31526]"

definition msg_pw_graphic :: string where \<comment> \<open>only visible ASCII characters without spaces\<close>
  "msg_pw_graphic = utf8
    [23494, 30721, 21482, 33021, 21253, 21547, 21487, 35265, 32, 65, 83, 67, 73, 73,
     32, 23383, 31526, 19988, 19981, 33021, 21253, 21547, 31354, 26684]"

definition msg_pw_upper :: string where \<comment> \<open>at least one upper case letter\<close>
  "msg_pw_upper = utf8
    [23494, 30721, 24517, 39035, 21253, 21547, 33267, 23569, 19968, 20010, 22823,
     20889, 23383, 27597]"

definition msg_pw_lower :: string where \<comment> \<open>at least one lower case letter\<close>
  "msg_pw_lower = utf8
    [23494, 30721, 24517, 39035, 21253, 21547, 33267, 23569, 19968, 20010, 23567,
     20889, 23383, 27597]"

definition msg_pw_digit :: string where \<comment> \<open>at least one digit\<close>
  "msg_pw_digit = utf8
    [23494, 30721, 24517, 39035, 21253, 21547, 33267, 23569, 19968, 20010, 25968,
     23383]"

definition msg_pw_special :: string where \<comment> \<open>at least one special character\<close>
  "msg_pw_special = utf8
    [23494, 30721, 24517, 39035, 21253, 21547, 33267, 23569, 19968, 20010, 29305,
     27530, 23383, 31526]"

definition msg_idem_completed_missing :: string where \<comment> \<open>the completed idempotent response is missing\<close>
  "msg_idem_completed_missing = utf8
    [24050, 23436, 25104, 30340, 24130, 31561, 21709, 24212, 19981, 23384, 22312]"

definition msg_idem_unknown :: string where \<comment> \<open>Redis returned an unknown idempotency state\<close>
  "msg_idem_unknown = utf8
    [82, 101, 100, 105, 115, 32, 36820, 22238, 26410, 30693, 24130, 31561, 29366,
     24577, 58, 32]"

definition msg_idem_begin_rejected :: string where \<comment> \<open>idempotent execution state rejected\<close>
  "msg_idem_begin_rejected = utf8
    [24130, 31561, 25191, 34892, 29366, 24577, 34987, 25298, 32477]"

definition msg_idem_complete_rejected :: string where \<comment> \<open>idempotent completion state rejected\<close>
  "msg_idem_complete_rejected = utf8
    [24130, 31561, 23436, 25104, 29366, 24577, 34987, 25298, 32477]"

definition msg_idem_mark_rejected :: string where \<comment> \<open>non-replayable mark rejected\<close>
  "msg_idem_mark_rejected = utf8
    [19981, 21487, 37325, 25918, 26631, 35760, 34987, 25298, 32477]"

definition msg_online_incomplete :: string where \<comment> \<open>cannot register an incomplete device session\<close>
  "msg_online_incomplete = utf8
    [26080, 27861, 30331, 35760, 19981, 23436, 25972, 30340, 30331, 24405, 35774,
     22791, 20250, 35805]"

definition msg_online_expired :: string where \<comment> \<open>the device session expired\<close>
  "msg_online_expired = utf8
    [30331, 24405, 35774, 22791, 20250, 35805, 24050, 36807, 26399]"

definition msg_online_invalid :: string where \<comment> \<open>the device session is no longer valid\<close>
  "msg_online_invalid = utf8
    [30331, 24405, 35774, 22791, 20250, 35805, 24050, 22833, 25928]"

definition msg_online_unavailable :: string where \<comment> \<open>device metadata temporarily unavailable\<close>
  "msg_online_unavailable = utf8
    [30331, 24405, 35774, 22791, 20803, 25968, 25454, 26242, 19981, 21487, 29992]"

definition msg_retention_creating :: string where \<comment> \<open>the retention run row is being created\<close>
  "msg_retention_creating = utf8
    [25968, 25454, 20445, 30041, 36816, 34892, 35760, 24405, 27491, 22312, 21019,
     24314]"

definition msg_tenant_context :: string where \<comment> \<open>the tenant of the request and of the use case differ\<close>
  "msg_tenant_context = utf8
    [35831, 27714, 31199, 25143, 19982, 19994, 21153, 31199, 25143, 19981, 19968,
     33268]"

definition msg_perm_denied :: string where \<comment> \<open>insufficient permission, required code (code)\<close>
  "msg_perm_denied = utf8
    [26435, 38480, 19981, 36275, 65292, 38656, 35201, 26435, 38480, 30721, 58, 32]"

definition msg_tenant_missing :: string where \<comment> \<open>the tenant does not exist\<close>
  "msg_tenant_missing = utf8
    [31199, 25143, 19981, 23384, 22312]"

definition msg_lease_lost :: string where \<comment> \<open>the tenant operation lease expired, was lost or taken over\<close>
  "msg_lease_lost = utf8
    [31199, 25143, 25805, 20316, 31199, 32422, 24050, 32463, 36807, 26399, 12289,
     20002, 22833, 25110, 34987, 20854, 20182, 25191, 34892, 32773, 25509, 31649]"

definition msg_lease_busy :: string where \<comment> \<open>the tenant is in another controlled operation\<close>
  "msg_lease_busy = utf8
    [31199, 25143, 27491, 22312, 25191, 34892, 20854, 20182, 21463, 25511, 25805,
     20316, 65292, 35831, 31245, 21518, 37325, 35797]"

definition msg_user_missing :: string where \<comment> \<open>the user does not exist\<close>
  "msg_user_missing = utf8
    [29992, 25143, 19981, 23384, 22312]"

definition msg_dept_missing :: string where \<comment> \<open>the department does not exist\<close>
  "msg_dept_missing = utf8
    [37096, 38376, 19981, 23384, 22312]"

definition msg_dept_self_parent :: string where \<comment> \<open>a department cannot be its own parent\<close>
  "msg_dept_self_parent = utf8
    [37096, 38376, 19981, 33021, 23558, 33258, 24049, 35774, 20026, 19978, 32423]"

definition msg_dept_cycle :: string where \<comment> \<open>a department cannot be moved below itself\<close>
  "msg_dept_cycle = utf8
    [19981, 33021, 23558, 37096, 38376, 31227, 21160, 21040, 33258, 24049, 30340,
     21518, 20195, 33410, 28857]"

definition msg_dept_parent_missing :: string where \<comment> \<open>the parent department does not exist\<close>
  "msg_dept_parent_missing = utf8
    [29238, 37096, 38376, 19981, 23384, 22312]"

definition msg_dept_has_child :: string where \<comment> \<open>it has children and cannot be deleted\<close>
  "msg_dept_has_child = utf8
    [23384, 22312, 23376, 37096, 38376, 65292, 26080, 27861, 21024, 38500]"

definition msg_dept_referenced :: string where \<comment> \<open>still referenced by users or role scopes\<close>
  "msg_dept_referenced = utf8
    [37096, 38376, 20173, 34987, 29992, 25143, 25110, 35282, 33394, 25968, 25454,
     26435, 38480, 24341, 29992, 65292, 26080, 27861, 21024, 38500]"

definition msg_dept_path :: string where \<comment> \<open>inconsistent ancestor path\<close>
  "msg_dept_path = utf8
    [37096, 38376, 31062, 32423, 36335, 24452, 19981, 19968, 33268, 65292, 26080,
     27861, 31227, 21160, 23376, 26641]"

definition msg_dept_tenant :: string where \<comment> \<open>department tenant mismatch\<close>
  "msg_dept_tenant = utf8
    [37096, 38376, 31199, 25143, 19981, 21305, 37197]"

definition msg_parent_of_1 :: string where \<comment> \<open>parent department (id)\<close>
  "msg_parent_of_1 = utf8
    [29238, 37096, 38376, 32]"

definition msg_parent_of_2 :: string where \<comment> \<open>(does not exist)\<close>
  "msg_parent_of_2 = utf8
    [32, 19981, 23384, 22312]"

definition msg_audit_field_len :: string where \<comment> \<open>(after the field) must have 1 to 36 bytes\<close>
  "msg_audit_field_len = utf8
    [32, 38271, 24230, 24517, 39035, 20171, 20110, 32, 49, 32, 21644, 32, 51, 54,
     32, 20043, 38388]"

definition msg_audit_worker_len_1 :: string where \<comment> \<open>audit field (name)\<close>
  "msg_audit_worker_len_1 = utf8
    [23457, 35745, 23383, 27573, 32]"

definition msg_audit_worker_len_2 :: string where \<comment> \<open>(after the name) must have 1 to 36 bytes\<close>
  "msg_audit_worker_len_2 = utf8
    [32, 30340, 38271, 24230, 24517, 39035, 20171, 20110, 32, 49, 32, 21644, 32, 51,
     54, 32, 20043, 38388]"

definition msg_audit_tenant :: string where \<comment> \<open>the tenant of the audit event and of its envelope differ\<close>
  "msg_audit_tenant = utf8
    [25805, 20316, 23457, 35745, 20107, 20214, 30340, 31199, 25143, 19982, 32, 79,
     117, 116, 98, 111, 120, 32, 20449, 23553, 19981, 19968, 33268]"

definition msg_audit_payload :: string where \<comment> \<open>invalid audit payload (the decoder's own text)\<close>
  "msg_audit_payload = utf8
    [25805, 20316, 23457, 35745, 20107, 20214, 36733, 33655, 26080, 25928, 58, 32]"

definition msg_mirror_payload :: string where \<comment> \<open>invalid mirror payload (the decoder's own text)\<close>
  "msg_mirror_payload = utf8
    [25480, 26435, 38236, 20687, 20107, 20214, 36127, 36733, 26080, 25928, 58, 32]"

definition msg_operlog_tenant :: string where \<comment> \<open>cannot add an operation log for another tenant\<close>
  "msg_operlog_tenant = utf8
    [19981, 33021, 26032, 22686, 20854, 20182, 31199, 25143, 30340, 25805, 20316,
     26085, 24535]"

definition msg_operlog_no_event :: string where \<comment> \<open>the audit event identifier must not be empty\<close>
  "msg_operlog_no_event = utf8
    [23457, 35745, 20107, 20214, 26631, 35782, 19981, 33021, 20026, 31354]"

definition msg_operlog_unreadable :: string where \<comment> \<open>no audit event readable after a duplicate key\<close>
  "msg_operlog_unreadable = utf8
    [25805, 20316, 26085, 24535, 21807, 19968, 38190, 20914, 31361, 21518, 26410,
     35835, 21462, 21040, 23457, 35745, 20107, 20214]"

definition msg_operlog_foreign :: string where \<comment> \<open>the audit event identifier belongs to another tenant\<close>
  "msg_operlog_foreign = utf8
    [23457, 35745, 20107, 20214, 26631, 35782, 24050, 32463, 23646, 20110, 20854,
     20182, 31199, 25143]"

definition msg_outbox_unregistered :: string where \<comment> \<open>no handler for the outbox event (type)\<close>
  "msg_outbox_unregistered = utf8
    [26410, 27880, 20876, 32, 79, 117, 116, 98, 111, 120, 32, 20107, 20214, 22788,
     29702, 22120, 58, 32]"

definition msg_job_unregistered :: string where \<comment> \<open>no handler for the job (type)\<close>
  "msg_job_unregistered = utf8
    [26410, 27880, 20876, 20219, 21153, 22788, 29702, 22120, 58, 32]"

definition msg_handler_duplicate :: string where \<comment> \<open>job handler registered twice (type)\<close>
  "msg_handler_duplicate = utf8
    [21518, 21488, 20219, 21153, 22788, 29702, 22120, 37325, 22797, 27880, 20876,
     58, 32]"

definition msg_runtime_negative :: string where \<comment> \<open>the maximal runtime is not a positive integer\<close>
  "msg_runtime_negative = utf8
    [35745, 21010, 20219, 21153, 26368, 22823, 36816, 34892, 26102, 38271, 19981,
     26159, 27491, 25972, 25968]"

definition msg_runtime_over_1 :: string where \<comment> \<open>the task ran longer than (seconds)\<close>
  "msg_runtime_over_1 = utf8
    [35745, 21010, 20219, 21153, 25191, 34892, 36229, 36807, 26368, 22823, 36816,
     34892, 26102, 38271, 32]"

definition msg_runtime_over_2 :: string where \<comment> \<open>seconds\<close>
  "msg_runtime_over_2 = utf8
    [32, 31186]"

definition msg_policy_lease :: string where \<comment> \<open>the lease is out of range\<close>
  "msg_policy_lease = utf8
    [20219, 21153, 31199, 32422, 26102, 38271, 36229, 20986, 25903, 25345, 33539,
     22260]"

definition msg_policy_invalid :: string where \<comment> \<open>invalid worker policy\<close>
  "msg_policy_invalid = utf8
    [21518, 21488, 20219, 21153, 36816, 34892, 31574, 30053, 26080, 25928]"

definition msg_retry_id :: string where \<comment> \<open>the job identifier must be positive\<close>
  "msg_retry_id = utf8
    [21518, 21488, 20219, 21153, 32, 73, 68, 32, 24517, 39035, 26159, 27491, 25972,
     25968]"

definition msg_retry_missing :: string where \<comment> \<open>the job does not exist or is not the tenant's\<close>
  "msg_retry_missing = utf8
    [21518, 21488, 20219, 21153, 19981, 23384, 22312, 25110, 19981, 23646, 20110,
     24403, 21069, 31199, 25143]"

definition msg_retry_not_dead :: string where \<comment> \<open>only dead jobs can be retried\<close>
  "msg_retry_not_dead = utf8
    [20165, 20801, 35768, 37325, 26032, 25237, 36882, 27515, 20449, 20219, 21153]"

definition msg_retry_permission :: string where \<comment> \<open>the retry needs the permission (code)\<close>
  "msg_retry_permission = utf8
    [37325, 26032, 25237, 36882, 35813, 19994, 21153, 20219, 21153, 36824, 38656,
     35201, 26435, 38480, 65306]"

definition msg_retry_done :: string where \<comment> \<open>the linked business row is finished\<close>
  "msg_retry_done = utf8
    [20851, 32852, 19994, 21153, 24050, 32463, 23436, 25104, 12289, 21462, 28040,
     25110, 36807, 26399, 65292, 21518, 21488, 20219, 21153, 24050, 21516, 27493,
     20026, 23436, 25104, 29366, 24577]"

definition msg_retry_dead :: string where \<comment> \<open>the linked business row failed for good\<close>
  "msg_retry_dead = utf8
    [20851, 32852, 19994, 21153, 24050, 32463, 22833, 36133, 19988, 19981, 33021,
     37325, 26032, 25237, 36882, 65292, 21518, 21488, 20219, 21153, 20445, 25345,
     27515, 20449, 29366, 24577]"

definition msg_retry_changed :: string where \<comment> \<open>the job changed in the meantime\<close>
  "msg_retry_changed = utf8
    [21518, 21488, 20219, 21153, 29366, 24577, 24050, 21464, 21270, 65292, 35831,
     21047, 26032, 21518, 37325, 35797]"

definition msg_retry_unreadable :: string where \<comment> \<open>the retried job cannot be read\<close>
  "msg_retry_unreadable = utf8
    [21518, 21488, 20219, 21153, 37325, 35797, 21518, 26080, 27861, 35835, 21462]"

definition msg_retry_cfg_missing :: string where \<comment> \<open>the linked configuration resource does not exist\<close>
  "msg_retry_cfg_missing = utf8
    [21518, 21488, 20219, 21153, 20851, 32852, 30340, 37197, 32622, 36164, 28304,
     19981, 23384, 22312]"

definition msg_retry_cfg_denied :: string where \<comment> \<open>the linked configuration resource is missing or not accessible\<close>
  "msg_retry_cfg_denied = utf8
    [21518, 21488, 20219, 21153, 20851, 32852, 30340, 37197, 32622, 36164, 28304,
     19981, 23384, 22312, 25110, 19981, 21487, 35775, 38382]"

definition msg_retry_cfg_owner :: string where \<comment> \<open>only the requester may retry this job\<close>
  "msg_retry_cfg_owner = utf8
    [20165, 20801, 35768, 21407, 37197, 32622, 20219, 21153, 30003, 35831, 20154,
     37325, 26032, 25237, 36882, 35813, 20219, 21153]"

definition msg_user_disabled :: string where \<comment> \<open>the account is disabled or locked\<close>
  "msg_user_disabled = utf8
    [36134, 21495, 24050, 20572, 29992, 25110, 38145, 23450]"

definition msg_user_changed :: string where \<comment> \<open>the permissions of the user changed\<close>
  "msg_user_changed = utf8
    [29992, 25143, 26435, 38480, 24050, 21464, 26356, 65292, 35831, 37325, 26032,
     30331, 24405]"

definition msg_session_changed :: string where \<comment> \<open>the tenant's sessions were ended\<close>
  "msg_session_changed = utf8
    [31199, 25143, 20250, 35805, 24050, 22833, 25928, 65292, 35831, 37325, 26032,
     30331, 24405]"

definition msg_token_user :: string where \<comment> \<open>invalid user id in the token\<close>
  "msg_token_user = utf8
    [20196, 29260, 20013, 30340, 29992, 25143, 73, 68, 26080, 25928]"

definition msg_tenant_disabled :: string where \<comment> \<open>the tenant is disabled\<close>
  "msg_tenant_disabled = utf8
    [31199, 25143, 24050, 20572, 29992]"

definition msg_tenant_expired :: string where \<comment> \<open>the tenant has expired\<close>
  "msg_tenant_expired = utf8
    [31199, 25143, 24050, 21040, 26399]"

definition msg_auth_updating :: string where \<comment> \<open>the authorisation is being updated\<close>
  "msg_auth_updating = utf8
    [25480, 26435, 29366, 24577, 27491, 22312, 26356, 26032, 65292, 35831, 37325,
     26032, 21457, 36215, 35831, 27714]"

definition msg_snapshot_identity :: string where \<comment> \<open>the snapshot is of another identity\<close>
  "msg_snapshot_identity = utf8
    [25480, 26435, 24555, 29031, 36523, 20221, 19981, 21305, 37197]"

definition msg_public_export :: string where \<comment> \<open>generating the package failed, try again or ask an administrator\<close>
  "msg_public_export = utf8
    [37197, 32622, 21253, 29983, 25104, 22833, 36133, 65292, 35831, 31245, 21518,
     37325, 35797, 25110, 32852, 31995, 31649, 29702, 21592]"

definition msg_public_preview :: string where \<comment> \<open>the preview failed, try again or ask an administrator\<close>
  "msg_public_preview = utf8
    [37197, 32622, 39044, 35272, 22833, 36133, 65292, 35831, 31245, 21518, 37325,
     35797, 25110, 32852, 31995, 31649, 29702, 21592]"

definition msg_public_apply :: string where \<comment> \<open>the application failed, try again or ask an administrator\<close>
  "msg_public_apply = utf8
    [37197, 32622, 24212, 29992, 22833, 36133, 65292, 35831, 31245, 21518, 37325,
     35797, 25110, 32852, 31995, 31649, 29702, 21592]"

definition msg_public_rollback :: string where \<comment> \<open>the rollback failed, try again or ask an administrator\<close>
  "msg_public_rollback = utf8
    [37197, 32622, 22238, 28378, 22833, 36133, 65292, 35831, 31245, 21518, 37325,
     35797, 25110, 32852, 31995, 31649, 29702, 21592]"

definition msg_filter_type :: string where \<comment> \<open>the job type must have 1 to 96 bytes\<close>
  "msg_filter_type = utf8
    [20219, 21153, 31867, 22411, 38271, 24230, 24517, 39035, 22312, 32, 49, 32,
     21040, 32, 57, 54, 32, 20010, 23383, 33410, 20043, 38388]"

definition msg_filter_schedule :: string where \<comment> \<open>the schedule identifier must be positive\<close>
  "msg_filter_schedule = utf8
    [26469, 28304, 35745, 21010, 32, 73, 68, 32, 24517, 39035, 26159, 27491, 25972,
     25968]"

definition msg_filter_status :: string where \<comment> \<open>the status is one of the four\<close>
  "msg_filter_status = utf8
    [20219, 21153, 29366, 24577, 21482, 33021, 26159, 32, 112, 101, 110, 100, 105,
     110, 103, 12289, 114, 117, 110, 110, 105, 110, 103, 12289, 115, 117, 99, 99,
     101, 101, 100, 101, 100, 32, 25110, 32, 100, 101, 97, 100]"

definition msg_cache_unavailable :: string where \<comment> \<open>the authorisation cache is unavailable\<close>
  "msg_cache_unavailable = utf8
    [25480, 26435, 32531, 23384, 26242, 19981, 21487, 29992, 65292, 24050, 25298,
     32477, 26412, 27425, 26435, 38480, 25935, 24863, 25805, 20316]"

definition msg_cache_version :: string where \<comment> \<open>the version is not an integer (the parser's own text)\<close>
  "msg_cache_version = utf8
    [25480, 26435, 29256, 26412, 19981, 26159, 26377, 25928, 25972, 25968, 58, 32]"

definition msg_cache_mismatch :: string where \<comment> \<open>the snapshot's versions differ from the mirror\<close>
  "msg_cache_mismatch = utf8
    [25480, 26435, 24555, 29031, 20869, 29256, 26412, 19982, 32, 82, 101, 100, 105,
     115, 32, 38236, 20687, 19981, 19968, 33268]"

definition msg_cache_json :: string where \<comment> \<open>invalid snapshot (the decoder's own text)\<close>
  "msg_cache_json = utf8
    [25480, 26435, 24555, 29031, 32, 74, 83, 79, 78, 32, 26080, 25928, 58, 32]"

definition msg_cache_decimal :: string where \<comment> \<open>the namespace version is not canonical\<close>
  "msg_cache_decimal = utf8
    [31199, 25143, 32531, 23384, 21629, 21517, 31354, 38388, 29256, 26412, 19981,
     26159, 35268, 33539, 21313, 36827, 21046, 23383, 31526, 20018]"

definition msg_cache_ns_parse :: string where \<comment> \<open>invalid namespace version (the parser's own text)\<close>
  "msg_cache_ns_parse = utf8
    [31199, 25143, 32531, 23384, 21629, 21517, 31354, 38388, 29256, 26412, 26080,
     25928, 58, 32]"

definition msg_cache_ns_negative :: string where \<comment> \<open>the namespace version must not be negative\<close>
  "msg_cache_ns_negative = utf8
    [32531, 23384, 21629, 21517, 31354, 38388, 29256, 26412, 19981, 33021, 20026,
     36127, 25968]"

definition msg_cache_namespace :: string where \<comment> \<open>invalid cache namespace\<close>
  "msg_cache_namespace = utf8
    [32531, 23384, 21629, 21517, 31354, 38388, 21482, 33021, 21253, 21547, 32, 49,
     32, 21040, 32, 54, 52, 32, 20010, 23567, 20889, 23383, 27597, 12289, 25968,
     23383, 12289, 28857, 12289, 19979, 21010, 32447, 25110, 36830, 23383, 31526]"

definition msg_repair_tenant :: string where \<comment> \<open>repairing the tenant's version failed (reason)\<close>
  "msg_repair_tenant = utf8
    [20462, 22797, 31199, 25143, 25480, 26435, 29256, 26412, 22833, 36133, 58, 32]"

definition msg_repair_user :: string where \<comment> \<open>repairing the user's version failed (reason)\<close>
  "msg_repair_user = utf8
    [20462, 22797, 29992, 25143, 25480, 26435, 29256, 26412, 22833, 36133, 58, 32]"

definition msg_repair_namespace :: string where \<comment> \<open>repairing the namespace version failed (reason)\<close>
  "msg_repair_namespace = utf8
    [20462, 22797, 31199, 25143, 32531, 23384, 21629, 21517, 31354, 38388, 29256,
     26412, 22833, 36133, 58, 32]"

end
