(* ===== verification/Kernel_Errors.thy ===== *)
theory Kernel_Errors
  imports Messages
begin

text \<open>
  \<open>crates/ryframe-kernel/src/error.rs\<close>: the stable error codes, the application error
  that every layer returns, and the projections the transport layer reads from it.
\<close>

section \<open>Error codes and errors\<close>

datatype ErrorCode =
    Code_Validation
  | Code_Authentication
  | Code_Authorization
  | Code_NotFound
  | Code_Conflict
  | Code_PayloadTooLarge
  | Code_RateLimited
  | Code_Database
  | Code_Config
  | Code_Internal
  | Code_ServiceUnavailable
  | Code_CapabilityUnavailable
  | Code_TenantCapabilityDenied
  | Code_PermissionDenied
  | Code_StaleRuntimeEpoch
  | Code_StalePlacementGeneration
  | Code_TenantOperationConflict
  | Code_TenantDataMaintenance
  | Code_TenantDataTargetUnavailable
  | Code_ExportAllConfirmationRequired
  | Code_ExportNoMatchingRows
  | Code_ExportRowLimitExceeded

fun as_str :: "ErrorCode \<Rightarrow> string" where
  "as_str Code_Validation = ''validation''"
| "as_str Code_Authentication = ''authentication''"
| "as_str Code_Authorization = ''authorization''"
| "as_str Code_NotFound = ''not_found''"
| "as_str Code_Conflict = ''conflict''"
| "as_str Code_PayloadTooLarge = ''payload_too_large''"
| "as_str Code_RateLimited = ''rate_limited''"
| "as_str Code_Database = ''database''"
| "as_str Code_Config = ''config''"
| "as_str Code_Internal = ''internal''"
| "as_str Code_ServiceUnavailable = ''service_unavailable''"
| "as_str Code_CapabilityUnavailable = ''capability_unavailable''"
| "as_str Code_TenantCapabilityDenied = ''tenant_capability_denied''"
| "as_str Code_PermissionDenied = ''permission_denied''"
| "as_str Code_StaleRuntimeEpoch = ''stale_runtime_epoch''"
| "as_str Code_StalePlacementGeneration = ''stale_placement_generation''"
| "as_str Code_TenantOperationConflict = ''tenant_operation_conflict''"
| "as_str Code_TenantDataMaintenance = ''tenant_data_maintenance''"
| "as_str Code_TenantDataTargetUnavailable = ''tenant_data_target_unavailable''"
| "as_str Code_ExportAllConfirmationRequired = ''EXPORT_ALL_CONFIRMATION_REQUIRED''"
| "as_str Code_ExportNoMatchingRows = ''EXPORT_NO_MATCHING_ROWS''"
| "as_str Code_ExportRowLimitExceeded = ''EXPORT_ROW_LIMIT_EXCEEDED''"

datatype app_error =
    Validation string
  | Authentication string
  | Authorization string
  | NotFound string
  | Conflict string
  | RetryableConflict string u64
  | PayloadTooLarge string
  | RateLimited string u64
  | Database string
  | Config string
  | Internal string
  | ServiceUnavailable string
  | CapabilityUnavailable string
  | TenantCapabilityDenied string
  | PermissionDenied string
  | StaleRuntimeEpoch string
  | StalePlacementGeneration string
  | TenantOperationConflict string
  | TenantDataMaintenance string u64
  | TenantDataTargetUnavailable string u64
  | ExportAllConfirmationRequired string
  | ExportNoMatchingRows string
  | ExportRowLimitExceeded u64 u64

fun error_code :: "app_error \<Rightarrow> ErrorCode" where
  "error_code (Validation _) = Code_Validation"
| "error_code (Authentication _) = Code_Authentication"
| "error_code (Authorization _) = Code_Authorization"
| "error_code (NotFound _) = Code_NotFound"
| "error_code (Conflict _) = Code_Conflict"
| "error_code (RetryableConflict _ _) = Code_Conflict"
| "error_code (PayloadTooLarge _) = Code_PayloadTooLarge"
| "error_code (RateLimited _ _) = Code_RateLimited"
| "error_code (Database _) = Code_Database"
| "error_code (Config _) = Code_Config"
| "error_code (Internal _) = Code_Internal"
| "error_code (ServiceUnavailable _) = Code_ServiceUnavailable"
| "error_code (CapabilityUnavailable _) = Code_CapabilityUnavailable"
| "error_code (TenantCapabilityDenied _) = Code_TenantCapabilityDenied"
| "error_code (PermissionDenied _) = Code_PermissionDenied"
| "error_code (StaleRuntimeEpoch _) = Code_StaleRuntimeEpoch"
| "error_code (StalePlacementGeneration _) = Code_StalePlacementGeneration"
| "error_code (TenantOperationConflict _) = Code_TenantOperationConflict"
| "error_code (TenantDataMaintenance _ _) = Code_TenantDataMaintenance"
| "error_code (TenantDataTargetUnavailable _ _) = Code_TenantDataTargetUnavailable"
| "error_code (ExportAllConfirmationRequired _) = Code_ExportAllConfirmationRequired"
| "error_code (ExportNoMatchingRows _) = Code_ExportNoMatchingRows"
| "error_code (ExportRowLimitExceeded _ _) = Code_ExportRowLimitExceeded"

fun message :: "app_error \<Rightarrow> string" where
  "message (Validation m) = m"
| "message (Authentication m) = m"
| "message (Authorization m) = m"
| "message (NotFound m) = m"
| "message (Conflict m) = m"
| "message (RetryableConflict m _) = m"
| "message (PayloadTooLarge m) = m"
| "message (RateLimited m _) = m"
| "message (Database m) = m"
| "message (Config m) = m"
| "message (Internal m) = m"
| "message (ServiceUnavailable m) = m"
| "message (CapabilityUnavailable m) = m"
| "message (TenantCapabilityDenied m) = m"
| "message (PermissionDenied m) = m"
| "message (StaleRuntimeEpoch m) = m"
| "message (StalePlacementGeneration m) = m"
| "message (TenantOperationConflict m) = m"
| "message (TenantDataMaintenance m _) = m"
| "message (TenantDataTargetUnavailable m _) = m"
| "message (ExportAllConfirmationRequired m) = m"
| "message (ExportNoMatchingRows m) = m"
| "message (ExportRowLimitExceeded _ _) = msg_export_row_limit"

fun retry_after_secs :: "app_error \<Rightarrow> u64 option" where
  "retry_after_secs (RetryableConflict _ n) = Some n"
| "retry_after_secs (RateLimited _ n) = Some n"
| "retry_after_secs (TenantDataMaintenance _ n) = Some n"
| "retry_after_secs (TenantDataTargetUnavailable _ n) = Some n"
| "retry_after_secs _ = None"

fun error_category :: "app_error \<Rightarrow> string" where
  "error_category (Validation _) = cat_validation"
| "error_category (Authentication _) = cat_authentication"
| "error_category (Authorization _) = cat_authorization"
| "error_category (NotFound _) = cat_not_found"
| "error_category (Conflict _) = cat_conflict"
| "error_category (RetryableConflict _ _) = cat_retryable_conflict"
| "error_category (PayloadTooLarge _) = cat_payload_too_large"
| "error_category (RateLimited _ _) = cat_rate_limited"
| "error_category (Database _) = cat_database"
| "error_category (Config _) = cat_config"
| "error_category (Internal _) = cat_internal"
| "error_category (ServiceUnavailable _) = cat_service_unavailable"
| "error_category (CapabilityUnavailable _) = cat_capability_unavailable"
| "error_category (TenantCapabilityDenied _) = cat_tenant_capability_denied"
| "error_category (PermissionDenied _) = cat_authorization"
| "error_category (StaleRuntimeEpoch _) = cat_stale_runtime_epoch"
| "error_category (StalePlacementGeneration _) = cat_stale_placement"
| "error_category (TenantOperationConflict _) = cat_tenant_operation_conflict"
| "error_category (TenantDataMaintenance _ _) = cat_tenant_maintenance"
| "error_category (TenantDataTargetUnavailable _ _) = cat_tenant_target_unavailable"
| "error_category (ExportAllConfirmationRequired _) = cat_export_all"
| "error_category (ExportNoMatchingRows _) = cat_export_no_rows"
| "error_category (ExportRowLimitExceeded _ _) = cat_export_row_limit"

definition display_error :: "app_error \<Rightarrow> string" where
  "display_error e = error_category e @ '': '' @ message e"

type_synonym 'a app_result = "app_error + 'a"

section \<open>Properties\<close>

lemma as_str_inj: "as_str c = as_str d \<longleftrightarrow> c = d"
  by (cases c; cases d) simp_all

lemma as_str_nonempty: "as_str c \<noteq> []"
  by (cases c) simp_all

lemma error_code_surj: "\<exists>e. error_code e = c"
  by (cases c) (auto intro: error_code.simps)

text \<open>
  The machine-readable error keys are stable identifiers: two codes with the same key are
  the same code, and every code is the code of some error, so no key is dead and none is shared.
\<close>

theorem error_keys_stable:
  "inj as_str \<and> surj error_code"
  using error_code_surj by (auto simp: surj_def as_str_inj intro: injI) metis

lemma retry_after_cases:
  "retry_after_secs e = Some n \<longleftrightarrow>
     (\<exists>m. e = RetryableConflict m n \<or> e = RateLimited m n \<or> e = TenantDataMaintenance m n
        \<or> e = TenantDataTargetUnavailable m n)"
  by (cases e) auto

lemma retryable_code:
  "retry_after_secs e \<noteq> None \<Longrightarrow>
     error_code e \<in> {Code_Conflict, Code_RateLimited, Code_TenantDataMaintenance,
                     Code_TenantDataTargetUnavailable}"
  by (cases e) auto

end
