(* ===== verification/Snowflake.thy ===== *)
theory Snowflake
  imports Kernel_Errors
begin

unbundle bit_operations_syntax

text \<open>
  \<open>crates/ryframe-kernel/src/snowflake.rs\<close> and \<open>snowflake_worker.rs\<close>: the generator of
  64-bit identifiers. The mutex-protected state is passed explicitly; a call of
  \<open>try_next_id\<close> reads the clock inside the lock, so a run of the generator is the sequence of
  the times it observed, in lock order. The interface \<open>id_generator\<close> is what the users of
  identifiers rely on.
\<close>

section \<open>Constants and state\<close>

definition MAX_SNOWFLAKE_WORKER_ID :: int where "MAX_SNOWFLAKE_WORKER_ID = 1023"
definition EPOCH :: int where "EPOCH = 1769660800000"
definition WORKER_ID_BITS :: nat where "WORKER_ID_BITS = 10"
definition SEQUENCE_BITS :: nat where "SEQUENCE_BITS = 12"
definition MAX_SEQUENCE :: int where "MAX_SEQUENCE = push_bit SEQUENCE_BITS 1 - 1"
definition MAX_TIMESTAMP :: int where "MAX_TIMESTAMP = EPOCH + (push_bit 41 1 - 1)"
definition TIMESTAMP_LEFT_SHIFT :: nat where "TIMESTAMP_LEFT_SHIFT = WORKER_ID_BITS + SEQUENCE_BITS"
definition WORKER_ID_LEFT_SHIFT :: nat where "WORKER_ID_LEFT_SHIFT = SEQUENCE_BITS"

lemmas snowflake_consts = MAX_SNOWFLAKE_WORKER_ID_def EPOCH_def WORKER_ID_BITS_def
  SEQUENCE_BITS_def MAX_SEQUENCE_def MAX_TIMESTAMP_def TIMESTAMP_LEFT_SHIFT_def
  WORKER_ID_LEFT_SHIFT_def

datatype SnowflakeError =
    InvalidWorkerId int
  | ClockMovedBackwards int int
  | TimestampOutOfRange int
  | SequenceExhausted int
  | Configuration string

record SnowflakeState =
  last_timestamp :: int
  sequence :: int

record Snowflake =
  worker_id :: int
  sf_state :: SnowflakeState

definition default_state :: SnowflakeState where
  "default_state = \<lparr>last_timestamp = 0, sequence = 0\<rparr>"

section \<open>Operations\<close>

definition SnowflakeWorkerId_new :: "int \<Rightarrow> int option" where
  "SnowflakeWorkerId_new value =
     (if 0 \<le> value \<and> value \<le> MAX_SNOWFLAKE_WORKER_ID then Some value else None)"

definition validate_worker_id :: "int \<Rightarrow> SnowflakeError + unit" where
  "validate_worker_id w =
     (if \<not> (0 \<le> w \<and> w \<le> MAX_SNOWFLAKE_WORKER_ID) then Inl (InvalidWorkerId w) else Inr ())"

definition Snowflake_new :: "int \<Rightarrow> SnowflakeError + Snowflake" where
  "Snowflake_new w =
     bind_result (validate_worker_id w)
       (\<lambda>_. Inr \<lparr>worker_id = w, sf_state = default_state\<rparr>)"

definition compose_id :: "int \<Rightarrow> int \<Rightarrow> int \<Rightarrow> int" where
  "compose_id ts w sq =
     push_bit TIMESTAMP_LEFT_SHIFT (ts - EPOCH) OR push_bit WORKER_ID_LEFT_SHIFT w OR sq"

text \<open>One call, at system time \<open>now\<close> (milliseconds since the Unix epoch).\<close>

definition try_next_id ::
  "int \<Rightarrow> Snowflake \<Rightarrow> (SnowflakeError + int) \<times> Snowflake" where
  "try_next_id now sf =
     (let st = sf_state sf;
          observed = max now EPOCH
      in if observed < last_timestamp st
           then (Inl (ClockMovedBackwards (last_timestamp st) observed), sf)
         else if observed > MAX_TIMESTAMP then (Inl (TimestampOutOfRange observed), sf)
         else if observed > last_timestamp st
           then let st' = \<lparr>last_timestamp = observed, sequence = 0\<rparr>
                in (Inr (compose_id observed (worker_id sf) 0), sf\<lparr>sf_state := st'\<rparr>)
         else if sequence st < MAX_SEQUENCE
           then let st' = st\<lparr>sequence := sequence st + 1\<rparr>
                in (Inr (compose_id (last_timestamp st) (worker_id sf) (sequence st')),
                    sf\<lparr>sf_state := st'\<rparr>)
         else (Inl (SequenceExhausted (last_timestamp st)), sf))"

definition extract_timestamp :: "int \<Rightarrow> int" where
  "extract_timestamp i = drop_bit TIMESTAMP_LEFT_SHIFT i + EPOCH"

definition extract_worker_id :: "int \<Rightarrow> int" where
  "extract_worker_id i = drop_bit WORKER_ID_LEFT_SHIFT i AND MAX_SNOWFLAKE_WORKER_ID"

text \<open>
  The process-wide instance is a \<open>OnceLock\<close>. \<open>initialize\<close> reads it (\<open>g\<close>) and, when it
  is empty, tries to set it; another thread may have set it in between, so the content met by
  \<open>set\<close> is a second argument (\<open>g'\<close>, equal to \<open>g\<close> when there is no race).
\<close>

definition switch_error :: "Snowflake \<Rightarrow> int \<Rightarrow> SnowflakeError" where
  "switch_error existing w =
     Configuration (msg_sf_switch_1 @ show_int (worker_id existing) @ msg_sf_switch_2 @ show_int w)"

definition initialize ::
  "int \<Rightarrow> Snowflake option \<Rightarrow> Snowflake option \<Rightarrow> (SnowflakeError + unit) \<times> Snowflake option" where
  "initialize w g g' =
     (case validate_worker_id w of
        Inl e \<Rightarrow> (Inl e, g)
      | Inr _ \<Rightarrow>
          (case g of
             Some existing \<Rightarrow>
               (if worker_id existing = w then Inr () else Inl (switch_error existing w), g)
           | None \<Rightarrow>
               (case Snowflake_new w of
                  Inl e \<Rightarrow> (Inl e, g')
                | Inr sf \<Rightarrow>
                    (case g' of
                       None \<Rightarrow> (Inr (), Some sf)
                     | Some existing \<Rightarrow>
                         (if worker_id existing = w then Inr ()
                          else Inl (switch_error existing w), g')))))"

definition try_next_snowflake_id ::
  "int \<Rightarrow> Snowflake option \<Rightarrow> (SnowflakeError + int) \<times> Snowflake option" where
  "try_next_snowflake_id now g =
     (case g of
        None \<Rightarrow> (Inl (Configuration msg_sf_uninitialised), None)
      | Some sf \<Rightarrow> (let (r, sf') = try_next_id now sf in (r, Some sf')))"

definition app_error_of_snowflake :: "SnowflakeError \<Rightarrow> app_error" where
  "app_error_of_snowflake e = ServiceUnavailable msg_id_service"

section \<open>The layout of an identifier\<close>

lemma shift_simps:
  "TIMESTAMP_LEFT_SHIFT = 22" "WORKER_ID_LEFT_SHIFT = 12" "MAX_SEQUENCE = 4095"
  "MAX_TIMESTAMP = EPOCH + (2 ^ 41 - 1)"
  by (simp_all add: snowflake_consts)

lemma or_disjoint_low:
  fixes a b :: int
  assumes "0 \<le> b" "b < 2 ^ n"
  shows "push_bit n a OR b = a * 2 ^ n + b"
proof -
  have "push_bit n a + b = push_bit n a OR b"
  proof (rule disjunctive_add)
    fix k
    have "take_bit n b = b" using assms by (simp add: take_bit_int_eq_self)
    then show "\<not> bit (push_bit n a) k \<or> \<not> bit b k"
      by (metis bit_push_bit_iff bit_take_bit_iff not_le)
  qed
  then show ?thesis by (simp add: push_bit_eq_mult)
qed

lemma compose_id_arith:
  assumes "0 \<le> w" "w \<le> 1023" "0 \<le> sq" "sq \<le> 4095"
  shows "compose_id ts w sq = (ts - EPOCH) * 2 ^ 22 + w * 2 ^ 12 + sq"
proof -
  have "push_bit 12 w OR sq = w * 2 ^ 12 + sq"
    using assms by (intro or_disjoint_low) auto
  moreover have "push_bit 22 (ts - EPOCH) OR (w * 2 ^ 12 + sq)
      = (ts - EPOCH) * 2 ^ 22 + (w * 2 ^ 12 + sq)"
    using assms by (intro or_disjoint_low) auto
  ultimately show ?thesis
    by (simp add: compose_id_def shift_simps or.assoc)
qed

lemma extract_timestamp_compose:
  assumes "0 \<le> w" "w \<le> 1023" "0 \<le> sq" "sq \<le> 4095"
  shows "extract_timestamp (compose_id ts w sq) = ts"
proof -
  let ?r = "w * 2 ^ 12 + sq"
  have "((ts - EPOCH) * 2 ^ 22 + ?r) div 2 ^ 22 = (ts - EPOCH) + ?r div 2 ^ 22"
    by simp
  moreover have "?r div 2 ^ 22 = 0" using assms by (intro div_pos_pos_trivial) auto
  ultimately show ?thesis
    by (simp add: extract_timestamp_def compose_id_arith [OF assms] shift_simps drop_bit_eq_div
        add.assoc)
qed

lemma extract_worker_compose:
  assumes "0 \<le> w" "w \<le> 1023" "0 \<le> sq" "sq \<le> 4095"
  shows "extract_worker_id (compose_id ts w sq) = w"
proof -
  have "(ts - EPOCH) * 2 ^ 22 + w * 2 ^ 12 + sq = ((ts - EPOCH) * 2 ^ 10 + w) * 2 ^ 12 + sq"
    by (simp add: algebra_simps)
  then have d: "drop_bit 12 (compose_id ts w sq) = (ts - EPOCH) * 2 ^ 10 + w"
    using assms by (simp add: compose_id_arith [OF assms] drop_bit_eq_div)
  have "((ts - EPOCH) * 2 ^ 10 + w) AND mask 10 = take_bit 10 ((ts - EPOCH) * 2 ^ 10 + w)"
    by (simp add: take_bit_eq_mask)
  also have "\<dots> = ((ts - EPOCH) * 2 ^ 10 + w) mod 2 ^ 10" by (rule take_bit_eq_mod)
  also have "\<dots> = w mod 2 ^ 10" by (rule mod_mult_self3)
  also have "\<dots> = w" using assms by (intro mod_pos_pos_trivial) auto
  finally show ?thesis
    by (simp add: extract_worker_id_def shift_simps d mask_eq_exp_minus_1
        MAX_SNOWFLAKE_WORKER_ID_def)
qed

section \<open>The interface of an identifier source\<close>

text \<open>
  What the users of identifiers rely on: a successful call returns an identifier above every
  earlier one (\<open>high_water\<close>) and a failing call changes nothing. \<open>gen_run\<close> calls the
  generator once per observed input and collects the identifiers it handed out.
\<close>

locale id_generator =
  fixes gen :: "'t \<Rightarrow> 's \<Rightarrow> ('e + int) \<times> 's"
    and ok :: "'s \<Rightarrow> bool"
    and high_water :: "'s \<Rightarrow> int"
  assumes gen_ok: "ok s \<Longrightarrow> ok (snd (gen t s))"
    and gen_error: "gen t s = (Inl e, s') \<Longrightarrow> s' = s"
    and gen_fresh: "ok s \<Longrightarrow> gen t s = (Inr i, s') \<Longrightarrow> high_water s < i \<and> high_water s' = i"
begin

fun gen_run :: "'t list \<Rightarrow> 's \<Rightarrow> int list \<times> 's" where
  "gen_run [] s = ([], s)"
| "gen_run (t # ts) s =
     (let (r, s') = gen t s; (is, s'') = gen_run ts s'
      in (case r of Inl _ \<Rightarrow> is | Inr i \<Rightarrow> i # is, s''))"

lemma gen_run_ok: "ok s \<Longrightarrow> ok (snd (gen_run ts s))"
proof (induction ts arbitrary: s)
  case Nil
  then show ?case by simp
next
  case (Cons t ts)
  then have "ok (snd (gen t s))" by (intro gen_ok)
  with Cons.IH [of "snd (gen t s)"] show ?case
    by (auto simp: Let_def case_prod_beta)
qed

lemma gen_run_above:
  "ok s \<Longrightarrow> sorted_wrt (<) (high_water s # fst (gen_run ts s))"
proof (induction ts arbitrary: s)
  case Nil
  then show ?case by simp
next
  case (Cons t ts)
  obtain r s' where g: "gen t s = (r, s')" by force
  have ok': "ok s'" using gen_ok [OF Cons.prems, of t] g by simp
  note IH = Cons.IH [OF ok']
  show ?case
  proof (cases r)
    case (Inl e)
    then have "s' = s" using g gen_error by blast
    with IH Inl g show ?thesis by (simp add: case_prod_beta Let_def)
  next
    case (Inr i)
    then have "high_water s < i" "high_water s' = i"
      using g gen_fresh [OF Cons.prems] by blast+
    with IH Inr g show ?thesis by (auto simp: case_prod_beta Let_def)
  qed
qed

lemma gen_run_strict: "ok s \<Longrightarrow> sorted_wrt (<) (fst (gen_run ts s))"
  using gen_run_above [of s ts] by simp

lemma gen_run_distinct: "ok s \<Longrightarrow> distinct (fst (gen_run ts s))"
  using gen_run_strict [of s ts] by (simp add: strict_sorted_iff)

end

section \<open>The generator implements the interface\<close>

definition sf_ok :: "Snowflake \<Rightarrow> bool" where
  "sf_ok sf \<longleftrightarrow>
     0 \<le> worker_id sf \<and> worker_id sf \<le> MAX_SNOWFLAKE_WORKER_ID \<and>
     (sf_state sf = default_state \<or>
      EPOCH \<le> last_timestamp (sf_state sf) \<and> last_timestamp (sf_state sf) \<le> MAX_TIMESTAMP) \<and>
     0 \<le> sequence (sf_state sf) \<and> sequence (sf_state sf) \<le> MAX_SEQUENCE"

definition sf_high_water :: "Snowflake \<Rightarrow> int" where
  "sf_high_water sf =
     compose_id (last_timestamp (sf_state sf)) (worker_id sf) (sequence (sf_state sf))"

lemma Snowflake_new_ok: "Snowflake_new w = Inr sf \<Longrightarrow> sf_ok sf \<and> worker_id sf = w"
  by (auto simp: Snowflake_new_def validate_worker_id_def sf_ok_def default_state_def
      shift_simps MAX_SNOWFLAKE_WORKER_ID_def split: if_splits)

lemma try_next_id_ok: "sf_ok sf \<Longrightarrow> sf_ok (snd (try_next_id now sf))"
  by (auto simp: try_next_id_def sf_ok_def default_state_def Let_def shift_simps EPOCH_def)

lemma try_next_id_error: "try_next_id now sf = (Inl e, sf') \<Longrightarrow> sf' = sf"
  by (auto simp: try_next_id_def Let_def split: if_splits)

lemma try_next_id_worker: "worker_id (snd (try_next_id now sf)) = worker_id sf"
  by (simp add: try_next_id_def Let_def)

lemma try_next_id_value:
  assumes "sf_ok sf" "try_next_id now sf = (Inr i, sf')"
  shows "\<exists>ts sq. i = compose_id ts (worker_id sf) sq \<and> EPOCH \<le> ts \<and> ts \<le> MAX_TIMESTAMP \<and>
    0 \<le> sq \<and> sq \<le> MAX_SEQUENCE \<and> ts = max now EPOCH \<and>
    sf_state sf' = \<lparr>last_timestamp = ts, sequence = sq\<rparr> \<and> worker_id sf' = worker_id sf \<and>
    (last_timestamp (sf_state sf), sequence (sf_state sf)) < (ts, sq)"
  using assms by (auto simp: try_next_id_def sf_ok_def Let_def shift_simps not_less not_le
      EPOCH_def default_state_def less_prod_def split: if_splits)

lemma compose_id_less:
  assumes "0 \<le> w" "w \<le> 1023" "0 \<le> sq" "sq \<le> 4095" "0 \<le> sq'" "sq' \<le> 4095"
    and "(ts, sq) < (ts', sq')"
  shows "compose_id ts w sq < compose_id ts' w sq'"
proof -
  from assms(7) consider "ts < ts'" | "ts = ts'" "sq < sq'"
    by (fastforce simp: less_prod_def)
  then have "(ts - EPOCH) * 2 ^ 22 + w * 2 ^ 12 + sq < (ts' - EPOCH) * 2 ^ 22 + w * 2 ^ 12 + sq'"
  proof cases
    case 1
    then have "(ts - EPOCH + 1) * 2 ^ 22 \<le> (ts' - EPOCH) * 2 ^ 22" by simp
    with assms show ?thesis by (simp add: algebra_simps)
  next
    case 2
    then show ?thesis by simp
  qed
  with assms show ?thesis by (simp add: compose_id_arith)
qed

lemma try_next_id_fresh:
  assumes "sf_ok sf" "try_next_id now sf = (Inr i, sf')"
  shows "sf_high_water sf < i \<and> sf_high_water sf' = i"
proof -
  from try_next_id_value [OF assms] obtain ts sq where
    v: "i = compose_id ts (worker_id sf) sq" "0 \<le> sq" "sq \<le> MAX_SEQUENCE"
      "sf_state sf' = \<lparr>last_timestamp = ts, sequence = sq\<rparr>" "worker_id sf' = worker_id sf"
      "(last_timestamp (sf_state sf), sequence (sf_state sf)) < (ts, sq)"
    by blast
  moreover have "0 \<le> worker_id sf" "worker_id sf \<le> 1023"
    "0 \<le> sequence (sf_state sf)" "sequence (sf_state sf) \<le> 4095"
    using assms(1) by (auto simp: sf_ok_def shift_simps MAX_SNOWFLAKE_WORKER_ID_def)
  ultimately show ?thesis
    by (auto simp: sf_high_water_def shift_simps intro: compose_id_less)
qed

interpretation sf: id_generator try_next_id sf_ok sf_high_water
  by unfold_locales (simp_all add: try_next_id_ok try_next_id_error try_next_id_fresh)

lemma sf_run_worker: "worker_id (snd (sf.gen_run nows sf)) = worker_id sf"
proof (induction nows arbitrary: sf)
  case Nil
  then show ?case by simp
next
  case (Cons t ts)
  then show ?case using try_next_id_worker [of t sf]
    by (simp add: Let_def case_prod_beta)
qed

lemma sf_run_values:
  "sf_ok sf \<Longrightarrow> i \<in> set (fst (sf.gen_run nows sf)) \<Longrightarrow>
     extract_worker_id i = worker_id sf \<and> 0 \<le> i \<and> i < 2 ^ 63 \<and>
     extract_timestamp i \<in> (\<lambda>now. max now EPOCH) ` set nows"
proof (induction nows arbitrary: sf)
  case Nil
  then show ?case by simp
next
  case (Cons t ts)
  obtain r sf' where g: "try_next_id t sf = (r, sf')" by force
  have w': "worker_id sf' = worker_id sf" using try_next_id_worker [of t sf] g by simp
  have ok': "sf_ok sf'" using try_next_id_ok [OF Cons.prems(1), of t] g by simp
  show ?case
  proof (cases "r = Inr i")
    case False
    then have "i \<in> set (fst (sf.gen_run ts sf'))"
      using Cons.prems(2) g by (auto simp: Let_def case_prod_beta split: sum.splits)
    with Cons.IH [OF ok'] w' show ?thesis by auto
  next
    case True
    from try_next_id_value [OF Cons.prems(1)] g True obtain sq where
      v: "i = compose_id (max t EPOCH) (worker_id sf) sq" "max t EPOCH \<le> MAX_TIMESTAMP"
        "0 \<le> sq" "sq \<le> MAX_SEQUENCE" by blast
    have b: "0 \<le> worker_id sf" "worker_id sf \<le> 1023" "0 \<le> sq" "sq \<le> 4095"
      using Cons.prems(1) v by (auto simp: sf_ok_def shift_simps MAX_SNOWFLAKE_WORKER_ID_def)
    have "0 \<le> i" "i < 2 ^ 63"
      using b v(2) unfolding v(1) compose_id_arith [OF b] by (auto simp: shift_simps)
    with v(1) show ?thesis
      by (auto simp: extract_timestamp_compose [OF b] extract_worker_compose [OF b])
  qed
qed

section \<open>Properties\<close>

text \<open>
  C38. Whatever sequence of clock readings one generator meets, including clock steps backwards
  and exhausted milliseconds, the identifiers it hands out are strictly increasing, fit in the
  non-negative range of an \<open>i64\<close>, and carry the worker they were made by.
\<close>

theorem snowflake_ids_strictly_increasing:
  assumes "Snowflake_new w = Inr sf"
  shows "sorted_wrt (<) (fst (sf.gen_run nows sf)) \<and>
    (\<forall>i \<in> set (fst (sf.gen_run nows sf)). 0 \<le> i \<and> i < 2 ^ 63 \<and> extract_worker_id i = w)"
  using Snowflake_new_ok [OF assms] sf.gen_run_strict [of sf nows] sf_run_values [of sf _ nows]
  by auto

theorem snowflake_ids_strictly_increasing_witness:
  "\<exists>sf. Snowflake_new 5 = Inr sf \<and> sorted_wrt (<) (fst (sf.gen_run [EPOCH, 3, EPOCH + 1] sf)) \<and>
    length (fst (sf.gen_run [EPOCH, 3, EPOCH + 1] sf)) = 3"
proof -
  let ?sf = "\<lparr>worker_id = 5, sf_state = default_state\<rparr>"
  have new: "Snowflake_new 5 = Inr ?sf"
    by (simp add: Snowflake_new_def validate_worker_id_def MAX_SNOWFLAKE_WORKER_ID_def)
  moreover have "length (fst (sf.gen_run [EPOCH, 3, EPOCH + 1] ?sf)) = 3"
    by (simp add: try_next_id_def Let_def default_state_def shift_simps EPOCH_def)
  ultimately show ?thesis
    using snowflake_ids_strictly_increasing [OF new, of "[EPOCH, 3, EPOCH + 1]"] by blast
qed

text \<open>
  Generators with different workers never produce the same identifier, at any times.
\<close>

theorem snowflake_workers_disjoint:
  assumes "Snowflake_new v = Inr sf" "Snowflake_new w = Inr sf2" "v \<noteq> w"
  shows "set (fst (sf.gen_run nows sf)) \<inter> set (fst (sf.gen_run nows2 sf2)) = {}"
proof -
  have "extract_worker_id i = v" if "i \<in> set (fst (sf.gen_run nows sf))" for i
    using sf_run_values [OF _ that] Snowflake_new_ok [OF assms(1)] by simp
  moreover have "extract_worker_id i = w" if "i \<in> set (fst (sf.gen_run nows2 sf2))" for i
    using sf_run_values [OF _ that] Snowflake_new_ok [OF assms(2)] by simp
  ultimately show ?thesis using assms(3) by blast
qed

theorem snowflake_workers_disjoint_witness:
  "\<exists>a b. Snowflake_new 1 = Inr a \<and> Snowflake_new 2 = Inr b \<and>
    set (fst (sf.gen_run [7] a)) \<inter> set (fst (sf.gen_run [7, 7] b)) = {}"
proof -
  have a: "Snowflake_new 1 = Inr \<lparr>worker_id = 1, sf_state = default_state\<rparr>"
    and b: "Snowflake_new 2 = Inr \<lparr>worker_id = 2, sf_state = default_state\<rparr>"
    by (simp_all add: Snowflake_new_def validate_worker_id_def MAX_SNOWFLAKE_WORKER_ID_def)
  show ?thesis
    using a b snowflake_workers_disjoint [OF a b, of "[7]" "[7, 7]"] by auto
qed

lemma sf_burst_tail:
  assumes "sf_state sf = \<lparr>last_timestamp = now, sequence = sq\<rparr>" "EPOCH \<le> now" "now \<le> MAX_TIMESTAMP"
    "0 \<le> sq" "sq \<le> MAX_SEQUENCE"
  shows "length (fst (sf.gen_run (replicate n now) sf)) = min n (nat (MAX_SEQUENCE - sq))"
  using assms
proof (induction n arbitrary: sf sq)
  case 0
  then show ?case by simp
next
  case (Suc n)
  show ?case
  proof (cases "sq < MAX_SEQUENCE")
    case True
    let ?sf' = "sf\<lparr>sf_state := \<lparr>last_timestamp = now, sequence = sq + 1\<rparr>\<rparr>"
    have "try_next_id now sf = (Inr (compose_id now (worker_id sf) (sq + 1)), ?sf')"
      using Suc.prems True by (simp add: try_next_id_def Let_def)
    moreover have "length (fst (sf.gen_run (replicate n now) ?sf')) = min n (nat (MAX_SEQUENCE - (sq + 1)))"
      using Suc.prems True by (intro Suc.IH) auto
    moreover have "Suc (nat (MAX_SEQUENCE - (sq + 1))) = nat (MAX_SEQUENCE - sq)"
      using True by simp
    then have "Suc (min n (nat (MAX_SEQUENCE - (sq + 1)))) = min (Suc n) (nat (MAX_SEQUENCE - sq))"
      by (metis min_Suc_Suc)
    ultimately show ?thesis by (simp add: case_prod_beta Let_def)
  next
    case False
    then have "try_next_id now sf = (Inl (SequenceExhausted now), sf)"
      using Suc.prems by (simp add: try_next_id_def Let_def)
    with Suc False show ?thesis by (simp add: case_prod_beta Let_def)
  qed
qed

text \<open>
  Within one millisecond of the encodable range a new generator hands out exactly 4096
  identifiers and refuses every further call, however often it is called.
\<close>

theorem snowflake_burst_exact:
  assumes "Snowflake_new w = Inr sf" "EPOCH \<le> now" "now \<le> MAX_TIMESTAMP"
  shows "length (fst (sf.gen_run (replicate n now) sf)) = min n 4096"
proof (cases n)
  case 0
  then show ?thesis by simp
next
  case (Suc k)
  let ?sf' = "sf\<lparr>sf_state := \<lparr>last_timestamp = now, sequence = 0\<rparr>\<rparr>"
  have st: "sf_state sf = default_state"
    using assms(1) by (auto simp: Snowflake_new_def validate_worker_id_def split: if_splits)
  have "try_next_id now sf = (Inr (compose_id now (worker_id sf) 0), ?sf')"
    using assms(2,3) by (simp add: try_next_id_def Let_def st default_state_def EPOCH_def)
  moreover have "length (fst (sf.gen_run (replicate k now) ?sf')) = min k (nat (MAX_SEQUENCE - 0))"
    using assms(2,3) by (intro sf_burst_tail) (auto simp: shift_simps)
  ultimately show ?thesis using Suc by (simp add: case_prod_beta Let_def shift_simps)
qed

theorem snowflake_burst_exact_witness:
  "\<exists>sf. Snowflake_new 0 = Inr sf \<and>
    length (fst (sf.gen_run (replicate 5000 (EPOCH + 10)) sf)) = 4096"
proof -
  have new: "Snowflake_new 0 = Inr \<lparr>worker_id = 0, sf_state = default_state\<rparr>"
    by (simp add: Snowflake_new_def validate_worker_id_def MAX_SNOWFLAKE_WORKER_ID_def)
  show ?thesis
    using new snowflake_burst_exact [OF new, of "EPOCH + 10" 5000] by (simp add: shift_simps)
qed

lemma initialize_success:
  assumes "initialize w g g' = (Inr (), h)" "g = None \<or> g' = g"
  shows "\<exists>sf. h = Some sf \<and> worker_id sf = w \<and> (g' \<noteq> None \<longrightarrow> h = g')"
  using assms
  by (auto simp: initialize_def Snowflake_new_def validate_worker_id_def
      split: option.splits if_splits)

lemma initialize_keeps:
  "g = None \<or> g' = g \<Longrightarrow> g' = Some sf \<Longrightarrow> snd (initialize w g g') \<in> {g, g'}"
  by (auto simp: initialize_def Snowflake_new_def validate_worker_id_def
      split: option.splits sum.splits if_splits)

lemma initialize_idempotent:
  assumes "initialize w g g' = (Inr (), h)" "g = None \<or> g' = g"
  shows "initialize w h h = (Inr (), h)"
proof -
  obtain sf where "h = Some sf" "worker_id sf = w"
    using initialize_success [OF assms] by blast
  moreover have "is_ok (validate_worker_id w)"
    using assms(1) by (auto simp: initialize_def split: sum.splits)
  ultimately show ?thesis by (auto simp: initialize_def is_ok_iff)
qed

end
