(* ===== verification/Stores.thy ===== *)
theory Stores
  imports Rust_Strings "HOL-Library.AList"
begin

text \<open>
  The in-memory stores of the code are concurrent hash maps behind a lock. \<open>keyed_store\<close> is
  what the code uses of them (lookup, insert or overwrite, remove, iteration over the entries);
  the provider of the model is an association list without duplicate keys, whose order stands
  for the unspecified iteration order.
\<close>

locale keyed_store =
  fixes get :: "'m \<Rightarrow> 'k \<Rightarrow> 'v option"
    and put :: "'k \<Rightarrow> 'v \<Rightarrow> 'm \<Rightarrow> 'm"
    and del :: "'k \<Rightarrow> 'm \<Rightarrow> 'm"
    and entries :: "'m \<Rightarrow> ('k \<times> 'v) list"
    and wf :: "'m \<Rightarrow> bool"
  assumes get_put: "get (put k v m) = (get m)(k \<mapsto> v)"
    and get_del: "get (del k m) = (get m)(k := None)"
    and wf_put: "wf m \<Longrightarrow> wf (put k v m)"
    and wf_del: "wf m \<Longrightarrow> wf (del k m)"
    and entries_get: "wf m \<Longrightarrow> (k, v) \<in> set (entries m) \<longleftrightarrow> get m k = Some v"
    and entries_distinct: "wf m \<Longrightarrow> distinct (map fst (entries m))"
begin

lemma get_put_same [simp]: "get (put k v m) k = Some v"
  by (simp add: get_put)

lemma get_put_other: "k \<noteq> j \<Longrightarrow> get (put k v m) j = get m j"
  by (simp add: get_put)

lemma get_del_same [simp]: "get (del k m) k = None"
  by (simp add: get_del)

lemma get_del_other: "k \<noteq> j \<Longrightarrow> get (del k m) j = get m j"
  by (simp add: get_del)

text \<open>Removing a list of keys, as the clean-up loops do.\<close>

definition del_all :: "'k list \<Rightarrow> 'm \<Rightarrow> 'm" where
  "del_all ks m = fold del ks m"

lemma get_del_all: "get (del_all ks m) j = (if j \<in> set ks then None else get m j)"
  unfolding del_all_def by (induction ks arbitrary: m) (auto simp: get_del)

lemma wf_del_all: "wf m \<Longrightarrow> wf (del_all ks m)"
  unfolding del_all_def by (induction ks arbitrary: m) (auto simp: wf_del)

lemma finite_entries: "wf m \<Longrightarrow> finite {k. get m k \<noteq> None}"
proof -
  assume wf: "wf m"
  have "{k. get m k \<noteq> None} \<subseteq> fst ` set (entries m)"
    using entries_get [OF wf] by force
  then show ?thesis by (rule finite_subset) simp
qed

text \<open>Counting the entries that satisfy a predicate is counting keys.\<close>

lemma count_entries:
  assumes "wf m"
  shows "length (filter (\<lambda>(k, v). P v) (entries m)) = card {k. \<exists>v. get m k = Some v \<and> P v}"
proof -
  let ?es = "filter (\<lambda>(k, v). P v) (entries m)"
  have d: "distinct (map fst ?es)"
    using entries_distinct [OF assms] by (rule distinct_map_filter)
  have "set (map fst ?es) = {k. \<exists>v. get m k = Some v \<and> P v}"
    using entries_get [OF assms] by force
  then show ?thesis using distinct_card [OF d] by simp
qed

lemma count_put:
  assumes "wf m"
  shows "card {j. \<exists>v'. get (put k v m) j = Some v' \<and> P v'} \<le>
     card {j. \<exists>v'. get m j = Some v' \<and> P v'} + (if P v \<and> \<not> (\<exists>v'. get m k = Some v' \<and> P v') then 1 else 0)"
proof -
  let ?A = "{j. \<exists>v'. get m j = Some v' \<and> P v'}"
  let ?B = "{j. \<exists>v'. get (put k v m) j = Some v' \<and> P v'}"
  have fin: "finite ?A"
    by (rule finite_subset [OF _ finite_entries [OF assms]]) auto
  have B: "?B = (if P v then insert k ?A else ?A - {k})"
    by (auto simp: get_put split: if_splits)
  show ?thesis
  proof (cases "P v")
    case True
    then show ?thesis using fin by (auto simp: B card_insert_if)
  next
    case False
    then show ?thesis using fin by (auto simp: B intro: card_mono)
  qed
qed

end

definition alist_wf :: "('k \<times> 'v) list \<Rightarrow> bool" where
  "alist_wf m \<longleftrightarrow> distinct (map fst m)"

interpretation alist: keyed_store map_of AList.update AList.delete "\<lambda>m. m" alist_wf
  by unfold_locales
    (auto simp: alist_wf_def AList.update_conv' AList.delete_conv' distinct_update distinct_delete)

lemma alist_del_all: "alist.del_all ks m = fold AList.delete ks m"
  by (rule alist.del_all_def)

lemma alist_del_all_fold [code_unfold]: "alist.del_all = fold AList.delete"
  by (intro ext) (rule alist_del_all)

end
