(* ===== verification/Refresh_Session.thy ===== *)
theory Refresh_Session
  imports Kernel_Errors Stores
begin

text \<open>
  \<open>crates/ryframe-adapters/src/refresh_session\<close>: the families of refresh tokens. A family is
  one login device; its current token is exchanged for a new one (\<open>rotate\<close>), and a token that
  was already exchanged revokes the whole family when it is presented again. Modelled are
  \<open>model.rs\<close>, the in-process store \<open>memory.rs\<close> and the argument checks of the facade
  \<open>mod.rs\<close>. The mutation lock serialises the operations, so a run is a sequence of them;
  a poisoned lock makes every operation fail.
\<close>

section \<open>Data\<close>

record RefreshFamily =
  fam_sid :: string
  fam_tenant_id :: string
  fam_user_id :: int
  current_jti :: string
  previous_jti :: "string option"
  last_attempt_id :: "string option"
  rotated_at :: int
  absolute_exp :: int
  revoked :: bool

record RefreshSessionIdentity =
  rsi_tenant_id :: string
  rsi_user_id :: int
  rsi_absolute_exp :: int

datatype RefreshSessionRevocation = Revoked | AlreadyRevoked | NotFoundOrForeign

datatype RefreshRotation =
    Rotated string int
  | Recovered string int
  | Concurrent
  | Replayed
  | MissingOrRevoked

definition CONCURRENT_GRACE_SECONDS :: int where "CONCURRENT_GRACE_SECONDS = 5"
definition MAX_BULK_SESSION_CANDIDATES :: nat where "MAX_BULK_SESSION_CANDIDATES = 256"

type_synonym families = "(string \<times> RefreshFamily) list"

record MemoryRefreshSessionStore =
  families :: families
  lock_poisoned :: bool

section \<open>Operations of the in-process store\<close>

definition lock_mutations ::
  "MemoryRefreshSessionStore \<Rightarrow> (families \<Rightarrow> app_error + ('a \<times> families)) \<Rightarrow>
     app_error + ('a \<times> MemoryRefreshSessionStore)" where
  "lock_mutations st body =
     (if lock_poisoned st then Inl (ServiceUnavailable ''session service unavailable'')
      else bind_result (body (families st)) (\<lambda>(r, fs). Inr (r, st\<lparr>families := fs\<rparr>)))"

definition active_for :: "string \<Rightarrow> int \<Rightarrow> int \<Rightarrow> RefreshFamily \<Rightarrow> bool" where
  "active_for tenant user now f \<longleftrightarrow>
     \<not> revoked f \<and> now < absolute_exp f \<and> fam_tenant_id f = tenant \<and> fam_user_id f = user"

definition mem_register ::
  "RefreshFamily \<Rightarrow> int \<Rightarrow> families \<Rightarrow> app_error + (unit \<times> families)" where
  "mem_register family now fs =
     (let mine = active_for (fam_tenant_id family) (fam_user_id family) now;
          already_active = (case map_of fs (fam_sid family) of None \<Rightarrow> False | Some f \<Rightarrow> mine f);
          active_count = length (take MAX_BULK_SESSION_CANDIDATES (filter (\<lambda>(k, f). mine f) fs))
      in if \<not> revoked family \<and> \<not> already_active \<and> MAX_BULK_SESSION_CANDIDATES \<le> active_count
         then Inl (Conflict msg_device_limit)
         else Inr ((), AList.update (fam_sid family) family fs))"

definition mem_rotate ::
  "string \<Rightarrow> string \<Rightarrow> string \<Rightarrow> int \<Rightarrow> string \<Rightarrow> families \<Rightarrow> RefreshRotation \<times> families" where
  "mem_rotate sid presented_jti new_jti now attempt_id fs =
     (case map_of fs sid of
        None \<Rightarrow> (MissingOrRevoked, fs)
      | Some f \<Rightarrow>
          if revoked f \<or> absolute_exp f \<le> now then (MissingOrRevoked, AList.delete sid fs)
          else if current_jti f = presented_jti
            then (Rotated new_jti now,
                  AList.update sid
                    (f\<lparr>previous_jti := Some (current_jti f), current_jti := new_jti,
                       rotated_at := now, last_attempt_id := Some attempt_id\<rparr>) fs)
          else if previous_jti f = Some presented_jti \<and> last_attempt_id f = Some attempt_id
            then (Recovered (current_jti f) (rotated_at f), fs)
          else if previous_jti f = Some presented_jti
                  \<and> now - rotated_at f \<le> CONCURRENT_GRACE_SECONDS
            then (Concurrent, fs)
          else (Replayed, AList.update sid (f\<lparr>revoked := True\<rparr>) fs))"

definition mem_revoke :: "string \<Rightarrow> int \<Rightarrow> families \<Rightarrow> bool \<times> families" where
  "mem_revoke sid now fs =
     (case map_of fs sid of
        None \<Rightarrow> (False, fs)
      | Some f \<Rightarrow>
          if absolute_exp f \<le> now then (False, AList.delete sid fs)
          else (True, AList.update sid (f\<lparr>revoked := True\<rparr>) fs))"

definition mem_revoke_for_tenant ::
  "string \<Rightarrow> string \<Rightarrow> int \<Rightarrow> families \<Rightarrow> bool \<times> families" where
  "mem_revoke_for_tenant tenant sid now fs =
     (case map_of fs sid of
        None \<Rightarrow> (False, fs)
      | Some f \<Rightarrow>
          if absolute_exp f \<le> now then (False, AList.delete sid fs)
          else if fam_tenant_id f \<noteq> tenant then (False, fs)
          else (True, AList.update sid (f\<lparr>revoked := True\<rparr>) fs))"

definition mem_revoke_for_user ::
  "string \<Rightarrow> int \<Rightarrow> string \<Rightarrow> int \<Rightarrow> families \<Rightarrow> RefreshSessionRevocation \<times> families" where
  "mem_revoke_for_user tenant user sid now fs =
     (case map_of fs sid of
        None \<Rightarrow> (NotFoundOrForeign, fs)
      | Some f \<Rightarrow>
          if absolute_exp f \<le> now then (NotFoundOrForeign, AList.delete sid fs)
          else if fam_tenant_id f \<noteq> tenant \<or> fam_user_id f \<noteq> user then (NotFoundOrForeign, fs)
          else if revoked f then (AlreadyRevoked, fs)
          else (Revoked, AList.update sid (f\<lparr>revoked := True\<rparr>) fs))"

fun revoke_others_loop ::
  "string \<Rightarrow> int \<Rightarrow> int \<Rightarrow> string list \<Rightarrow> nat \<times> string list \<times> families \<Rightarrow> nat \<times> string list \<times> families"
where
  "revoke_others_loop tenant user now [] acc = acc"
| "revoke_others_loop tenant user now (sid # sids) (n, expired, fs) =
     (case map_of fs sid of
        None \<Rightarrow> revoke_others_loop tenant user now sids (n, expired, fs)
      | Some f \<Rightarrow>
          if fam_tenant_id f \<noteq> tenant \<or> fam_user_id f \<noteq> user
            then revoke_others_loop tenant user now sids (n, expired, fs)
          else if absolute_exp f \<le> now
            then revoke_others_loop tenant user now sids (n, expired @ [sid], fs)
          else if \<not> revoked f
            then revoke_others_loop tenant user now sids
                   (Suc n, expired, AList.update sid (f\<lparr>revoked := True\<rparr>) fs)
          else revoke_others_loop tenant user now sids (n, expired, fs))"

definition bulk_limit_error :: app_error where
  "bulk_limit_error = Validation
     (msg_bulk_revoke_1 @ show_nat MAX_BULK_SESSION_CANDIDATES @ msg_bulk_revoke_2)"

definition mem_revoke_other_sessions_for_user ::
  "string \<Rightarrow> int \<Rightarrow> string \<Rightarrow> int \<Rightarrow> families \<Rightarrow> app_error + (nat \<times> families)" where
  "mem_revoke_other_sessions_for_user tenant user current_sid now fs =
     (let authoritative = map (\<lambda>(k, f). fam_sid f)
            (filter (\<lambda>(k, f). active_for tenant user now f \<and> fam_sid f \<noteq> current_sid) fs);
          sids = sort_dedup authoritative
      in if MAX_BULK_SESSION_CANDIDATES < length sids then Inl bulk_limit_error
         else (let (n, expired, fs') = revoke_others_loop tenant user now sids (0, [], fs)
               in Inr (n, alist.del_all expired fs')))"

definition mem_identity ::
  "string \<Rightarrow> int \<Rightarrow> families \<Rightarrow> RefreshSessionIdentity option \<times> families" where
  "mem_identity sid now fs =
     (case map_of fs sid of
        None \<Rightarrow> (None, fs)
      | Some f \<Rightarrow>
          if absolute_exp f \<le> now then (None, AList.delete sid fs)
          else if revoked f then (None, fs)
          else (Some \<lparr>rsi_tenant_id = fam_tenant_id f, rsi_user_id = fam_user_id f,
                      rsi_absolute_exp = absolute_exp f\<rparr>, fs))"

definition mem_is_active_for_identity ::
  "string \<Rightarrow> string \<Rightarrow> int \<Rightarrow> int \<Rightarrow> families \<Rightarrow> bool \<times> families" where
  "mem_is_active_for_identity sid tenant user now fs =
     (case map_of fs sid of
        None \<Rightarrow> (False, fs)
      | Some f \<Rightarrow>
          (active_for tenant user now f,
           if absolute_exp f \<le> now then AList.delete sid fs else fs))"

definition mem_session_sids ::
  "int \<Rightarrow> (RefreshFamily \<Rightarrow> bool) \<Rightarrow> families \<Rightarrow> string list \<times> families" where
  "mem_session_sids now predicate fs =
     (let expired = map fst (filter (\<lambda>(k, f). absolute_exp f \<le> now) fs);
          active = map fst (filter (\<lambda>(k, f). \<not> absolute_exp f \<le> now \<and> \<not> revoked f \<and> predicate f) fs)
      in (sort active, alist.del_all expired fs))"

definition mem_session_sids_for_user ::
  "string \<Rightarrow> int \<Rightarrow> int \<Rightarrow> families \<Rightarrow> string list \<times> families" where
  "mem_session_sids_for_user tenant user now fs =
     mem_session_sids now (\<lambda>f. fam_tenant_id f = tenant \<and> fam_user_id f = user) fs"

definition mem_session_sids_for_tenant ::
  "string \<Rightarrow> int \<Rightarrow> families \<Rightarrow> string list \<times> families" where
  "mem_session_sids_for_tenant tenant now fs =
     mem_session_sids now (\<lambda>f. fam_tenant_id f = tenant) fs"

section \<open>The facade in process-local mode\<close>

definition ensure_not_expired :: "int \<Rightarrow> int \<Rightarrow> unit app_result" where
  "ensure_not_expired exp now =
     (if exp \<le> now then Inl (Authentication ''refresh session expired'') else Inr ())"

type_synonym 'a store_result = "app_error + ('a \<times> MemoryRefreshSessionStore)"

text \<open>\<open>t_check\<close> is the clock at the expiry check of the facade, \<open>now\<close> the later reading.\<close>

definition store_register ::
  "RefreshFamily \<Rightarrow> int \<Rightarrow> int \<Rightarrow> MemoryRefreshSessionStore \<Rightarrow> unit store_result" where
  "store_register family t_check now st =
     bind_result (ensure_not_expired (absolute_exp family) t_check)
       (\<lambda>_. lock_mutations st (mem_register family now))"

definition store_rotate ::
  "string \<Rightarrow> string \<Rightarrow> string \<Rightarrow> int \<Rightarrow> string \<Rightarrow> MemoryRefreshSessionStore \<Rightarrow> RefreshRotation store_result"
where
  "store_rotate sid presented_jti new_jti now attempt_id st =
     (if attempt_id = [] then Inl (Authorization ''missing refresh rotation attempt id'')
      else lock_mutations st (\<lambda>fs. Inr (mem_rotate sid presented_jti new_jti now attempt_id fs)))"

definition store_revoke ::
  "string \<Rightarrow> int \<Rightarrow> MemoryRefreshSessionStore \<Rightarrow> bool store_result" where
  "store_revoke sid now st =
     (if sid = [] then Inr (False, st) else lock_mutations st (\<lambda>fs. Inr (mem_revoke sid now fs)))"

definition store_revoke_for_tenant ::
  "string \<Rightarrow> string \<Rightarrow> int \<Rightarrow> MemoryRefreshSessionStore \<Rightarrow> bool store_result" where
  "store_revoke_for_tenant tenant sid now st =
     (if tenant = [] \<or> sid = [] then Inr (False, st)
      else lock_mutations st (\<lambda>fs. Inr (mem_revoke_for_tenant tenant sid now fs)))"

definition store_revoke_for_user ::
  "string \<Rightarrow> int \<Rightarrow> string \<Rightarrow> int \<Rightarrow> MemoryRefreshSessionStore \<Rightarrow> RefreshSessionRevocation store_result"
where
  "store_revoke_for_user tenant user sid now st =
     (if tenant = [] \<or> sid = [] then Inr (NotFoundOrForeign, st)
      else lock_mutations st (\<lambda>fs. Inr (mem_revoke_for_user tenant user sid now fs)))"

definition store_revoke_other_sessions_for_user ::
  "string \<Rightarrow> int \<Rightarrow> string \<Rightarrow> string list \<Rightarrow> int \<Rightarrow> MemoryRefreshSessionStore \<Rightarrow> nat store_result"
where
  "store_revoke_other_sessions_for_user tenant user current_sid candidate_sids now st =
     (if tenant = [] \<or> current_sid = [] then Inl (Validation msg_session_identity_empty)
      else let candidates =
                 sort_dedup (filter (\<lambda>sid. sid \<noteq> [] \<and> sid \<noteq> current_sid) candidate_sids)
           in if MAX_BULK_SESSION_CANDIDATES < length candidates then Inl bulk_limit_error
              else lock_mutations st (mem_revoke_other_sessions_for_user tenant user current_sid now))"

definition store_identity ::
  "string \<Rightarrow> int \<Rightarrow> MemoryRefreshSessionStore \<Rightarrow> RefreshSessionIdentity option store_result" where
  "store_identity sid now st =
     (if sid = [] then Inr (None, st) else lock_mutations st (\<lambda>fs. Inr (mem_identity sid now fs)))"

definition store_is_active_for_identity ::
  "string \<Rightarrow> string \<Rightarrow> int \<Rightarrow> int \<Rightarrow> MemoryRefreshSessionStore \<Rightarrow> bool store_result" where
  "store_is_active_for_identity sid tenant user now st =
     (if sid = [] \<or> tenant = [] then Inr (False, st)
      else lock_mutations st (\<lambda>fs. Inr (mem_is_active_for_identity sid tenant user now fs)))"

definition store_session_sids_for_user ::
  "string \<Rightarrow> int \<Rightarrow> int \<Rightarrow> MemoryRefreshSessionStore \<Rightarrow> string list store_result" where
  "store_session_sids_for_user tenant user now st =
     (if tenant = [] then Inr ([], st)
      else lock_mutations st (\<lambda>fs. Inr (mem_session_sids_for_user tenant user now fs)))"

definition store_session_sids_for_tenant ::
  "string \<Rightarrow> int \<Rightarrow> MemoryRefreshSessionStore \<Rightarrow> string list store_result" where
  "store_session_sids_for_tenant tenant now st =
     (if tenant = [] then Inr ([], st)
      else lock_mutations st (\<lambda>fs. Inr (mem_session_sids_for_tenant tenant now fs)))"

definition store_is_active ::
  "string \<Rightarrow> int \<Rightarrow> MemoryRefreshSessionStore \<Rightarrow> bool store_result" where
  "store_is_active sid now st =
     bind_result (store_identity sid now st) (\<lambda>(i, st'). Inr (i \<noteq> None, st'))"

section \<open>The store as a machine\<close>

datatype session_op =
    OpRegister RefreshFamily int
  | OpRotate string string string int string
  | OpRevoke string int
  | OpRevokeTenant string string int
  | OpRevokeUser string int string int
  | OpRevokeOthers string int string int
  | OpIdentity string int
  | OpIsActive string string int int
  | OpSidsUser string int int
  | OpSidsTenant string int

fun op_effect :: "session_op \<Rightarrow> families \<Rightarrow> families" where
  "op_effect (OpRegister f now) fs = (case mem_register f now fs of Inl _ \<Rightarrow> fs | Inr (_, fs') \<Rightarrow> fs')"
| "op_effect (OpRotate sid p n now a) fs = snd (mem_rotate sid p n now a fs)"
| "op_effect (OpRevoke sid now) fs = snd (mem_revoke sid now fs)"
| "op_effect (OpRevokeTenant t sid now) fs = snd (mem_revoke_for_tenant t sid now fs)"
| "op_effect (OpRevokeUser t u sid now) fs = snd (mem_revoke_for_user t u sid now fs)"
| "op_effect (OpRevokeOthers t u cur now) fs =
     (case mem_revoke_other_sessions_for_user t u cur now fs of Inl _ \<Rightarrow> fs | Inr (_, fs') \<Rightarrow> fs')"
| "op_effect (OpIdentity sid now) fs = snd (mem_identity sid now fs)"
| "op_effect (OpIsActive sid t u now) fs = snd (mem_is_active_for_identity sid t u now fs)"
| "op_effect (OpSidsUser t u now) fs = snd (mem_session_sids_for_user t u now fs)"
| "op_effect (OpSidsTenant t now) fs = snd (mem_session_sids_for_tenant t now fs)"

fun op_time :: "session_op \<Rightarrow> int" where
  "op_time (OpRegister f now) = now"
| "op_time (OpRotate sid p n now a) = now"
| "op_time (OpRevoke sid now) = now"
| "op_time (OpRevokeTenant t sid now) = now"
| "op_time (OpRevokeUser t u sid now) = now"
| "op_time (OpRevokeOthers t u cur now) = now"
| "op_time (OpIdentity sid now) = now"
| "op_time (OpIsActive sid t u now) = now"
| "op_time (OpSidsUser t u now) = now"
| "op_time (OpSidsTenant t now) = now"

definition registers :: "string \<Rightarrow> session_op \<Rightarrow> bool" where
  "registers sid o' = (case o' of OpRegister f _ \<Rightarrow> fam_sid f = sid | _ \<Rightarrow> False)"

definition issues :: "string \<Rightarrow> string \<Rightarrow> session_op \<Rightarrow> bool" where
  "issues sid jti o' = (case o' of OpRotate k _ n _ _ \<Rightarrow> k = sid \<and> n = jti | _ \<Rightarrow> False)"

definition session_run :: "session_op list \<Rightarrow> families \<Rightarrow> families" where
  "session_run ops fs = fold op_effect ops fs"

text \<open>Every entry is stored under the session identifier of its family.\<close>

definition fam_wf :: "families \<Rightarrow> bool" where
  "fam_wf fs \<longleftrightarrow> alist_wf fs \<and> (\<forall>k f. map_of fs k = Some f \<longrightarrow> fam_sid f = k)"

section \<open>The bulk revocation loop\<close>

lemma revoke_others_loop_map:
  "revoke_others_loop t u now sids (n, ex, fs) = (n', ex', fs') \<Longrightarrow>
     map_of fs' k =
       (if k \<in> set sids
        then map_option (\<lambda>f. if active_for t u now f then f\<lparr>revoked := True\<rparr> else f) (map_of fs k)
        else map_of fs k)"
proof (induction sids arbitrary: n ex fs)
  case Nil
  then show ?case by simp
next
  case (Cons sid sids)
  show ?case
  proof (cases "map_of fs sid")
    case None
    then show ?thesis using Cons by auto
  next
    case (Some f)
    show ?thesis
    proof (cases "active_for t u now f")
      case True
      then have "revoke_others_loop t u now sids
          (Suc n, ex, AList.update sid (f\<lparr>revoked := True\<rparr>) fs) = (n', ex', fs')"
        using Cons.prems Some by (simp add: active_for_def)
      from Cons.IH [OF this] show ?thesis
        using Some True by (auto simp: AList.update_conv' active_for_def)
    next
      case False
      then obtain ex0 where "revoke_others_loop t u now sids (n, ex0, fs) = (n', ex', fs')"
        using Cons.prems Some by (auto simp: active_for_def not_le split: if_splits)
      from Cons.IH [OF this] show ?thesis using Some False by auto
    qed
  qed
qed

lemma revoke_others_loop_count:
  "distinct sids \<Longrightarrow> revoke_others_loop t u now sids (n, ex, fs) = (n', ex', fs') \<Longrightarrow>
     n' = n + length (filter (\<lambda>k. \<exists>f. map_of fs k = Some f \<and> active_for t u now f) sids)"
proof (induction sids arbitrary: n ex fs)
  case Nil
  then show ?case by simp
next
  case (Cons sid sids)
  show ?case
  proof (cases "\<exists>f. map_of fs sid = Some f \<and> active_for t u now f")
    case True
    then obtain f where f: "map_of fs sid = Some f" "active_for t u now f" by blast
    let ?fs = "AList.update sid (f\<lparr>revoked := True\<rparr>) fs"
    have "revoke_others_loop t u now sids (Suc n, ex, ?fs) = (n', ex', fs')"
      using Cons.prems f by (simp add: active_for_def)
    moreover have "filter (\<lambda>k. \<exists>f. map_of ?fs k = Some f \<and> active_for t u now f) sids
        = filter (\<lambda>k. \<exists>f. map_of fs k = Some f \<and> active_for t u now f) sids"
      using Cons.prems(1) by (intro filter_cong) (auto simp: AList.update_conv')
    ultimately show ?thesis using Cons.IH [of "Suc n" ex ?fs] Cons.prems(1) True by simp
  next
    case False
    then obtain ex0 where "revoke_others_loop t u now sids (n, ex0, fs) = (n', ex', fs')"
      using Cons.prems(2)
      by (cases "map_of fs sid") (auto simp: active_for_def not_le split: if_splits)
    with Cons.IH [of n ex0 fs] Cons.prems(1) False show ?thesis by simp
  qed
qed

lemma revoke_others_loop_expired:
  "revoke_others_loop t u now sids (n, ex, fs) = (n', ex', fs') \<Longrightarrow>
     (\<And>k. k \<in> set sids \<Longrightarrow> \<exists>f. map_of fs k = Some f \<and> now < absolute_exp f) \<Longrightarrow> ex' = ex"
proof (induction sids arbitrary: n ex fs)
  case Nil
  then show ?case by simp
next
  case (Cons sid sids)
  obtain f where f: "map_of fs sid = Some f" "now < absolute_exp f"
    using Cons.prems(2) [of sid] by auto
  let ?fs = "AList.update sid (f\<lparr>revoked := True\<rparr>) fs"
  have keep: "\<exists>g. map_of ?fs k = Some g \<and> now < absolute_exp g" if "k \<in> set sids" for k
    using Cons.prems(2) [of k] that f by (auto simp: AList.update_conv')
  show ?case
    using Cons.prems(1) f Cons.IH [of "Suc n" ex ?fs] Cons.IH [of n ex fs] keep Cons.prems(2)
    by (auto split: if_splits)
qed

definition revoke_others_sids :: "string \<Rightarrow> int \<Rightarrow> string \<Rightarrow> int \<Rightarrow> families \<Rightarrow> string set" where
  "revoke_others_sids t u cur now fs =
     {k. k \<noteq> cur \<and> (\<exists>f. map_of fs k = Some f \<and> active_for t u now f)}"

lemma mem_revoke_others_spec:
  assumes wf: "fam_wf fs"
    and ok: "mem_revoke_other_sessions_for_user t u cur now fs = Inr (n, fs')"
  shows "map_of fs' k =
      (if k \<in> revoke_others_sids t u cur now fs
       then map_option (\<lambda>f. f\<lparr>revoked := True\<rparr>) (map_of fs k) else map_of fs k)"
    and "n = card (revoke_others_sids t u cur now fs)"
proof -
  define sids where "sids = sort_dedup (map (\<lambda>(k, f). fam_sid f)
      (filter (\<lambda>(k, f). active_for t u now f \<and> fam_sid f \<noteq> cur) fs))"
  have sids_iff: "k \<in> set sids \<longleftrightarrow> k \<in> revoke_others_sids t u cur now fs" for k
    using wf alist.entries_get [of fs]
    by (force simp: sids_def revoke_others_sids_def fam_wf_def)
  obtain ex fs1 where loop: "revoke_others_loop t u now sids (0, [], fs) = (n, ex, fs1)"
    and fs': "fs' = alist.del_all ex fs1"
    using ok by (auto simp: mem_revoke_other_sessions_for_user_def Let_def simp flip: sids_def
        split: if_splits prod.splits)
  have "ex = []"
    using loop by (rule revoke_others_loop_expired)
      (auto simp: sids_iff revoke_others_sids_def active_for_def)
  then show "map_of fs' k =
      (if k \<in> revoke_others_sids t u cur now fs
       then map_option (\<lambda>f. f\<lparr>revoked := True\<rparr>) (map_of fs k) else map_of fs k)"
    using revoke_others_loop_map [OF loop, of k]
    by (auto simp: fs' alist.get_del_all sids_iff revoke_others_sids_def)
  have "filter (\<lambda>k. \<exists>f. map_of fs k = Some f \<and> active_for t u now f) sids = sids"
    using sids_iff by (auto simp: filter_id_conv revoke_others_sids_def)
  moreover have d: "distinct sids" by (simp add: sids_def)
  ultimately have "n = length sids"
    using revoke_others_loop_count [OF d loop] by simp
  moreover have "set sids = revoke_others_sids t u cur now fs" using sids_iff by blast
  ultimately show "n = card (revoke_others_sids t u cur now fs)"
    using distinct_card [OF d] by simp
qed

section \<open>What one operation can do to one family\<close>

lemmas mem_op_defs = mem_rotate_def mem_revoke_def mem_revoke_for_tenant_def mem_revoke_for_user_def
  mem_identity_def mem_is_active_for_identity_def mem_session_sids_for_user_def
  mem_session_sids_for_tenant_def mem_session_sids_def

lemmas family_store_simps = AList.update_conv' AList.delete_conv' alist.get_del_all

lemma mem_register_Inr:
  "mem_register f now fs = Inr (x, fs') \<Longrightarrow> fs' = AList.update (fam_sid f) f fs"
  by (auto simp: mem_register_def Let_def split: if_splits)

lemma op_effect_Register:
  "op_effect (OpRegister f now) fs \<in> {fs, AList.update (fam_sid f) f fs}"
  by (auto dest: mem_register_Inr split: sum.splits)

lemma op_effect_family:
  assumes wf: "fam_wf fs" and noreg: "\<not> registers k o'"
    and new: "map_of (op_effect o' fs) k = Some g"
  shows "\<exists>f. map_of fs k = Some f \<and>
    (g = f \<or> g = f\<lparr>revoked := True\<rparr> \<or>
     (\<exists>p n now a. o' = OpRotate k p n now a \<and> \<not> revoked f \<and> now < absolute_exp f \<and>
        current_jti f = p \<and> fst (mem_rotate k p n now a fs) = Rotated n now \<and>
        g = f\<lparr>previous_jti := Some (current_jti f), current_jti := n, rotated_at := now,
              last_attempt_id := Some a\<rparr>))"
proof (cases o')
  case (OpRegister f now)
  have "map_of (op_effect o' fs) k = map_of fs k"
    using op_effect_Register [of f now fs] noreg OpRegister
    by (auto simp: registers_def family_store_simps)
  with new show ?thesis by auto
next
  case (OpRotate sid p n now a)
  show ?thesis
  proof (cases "sid = k")
    case True
    with OpRotate new show ?thesis
      by (auto simp: mem_rotate_def family_store_simps split: option.splits if_splits)
  next
    case False
    with OpRotate new show ?thesis
      by (auto simp: mem_rotate_def family_store_simps split: option.splits if_splits)
  qed
next
  case (OpRevokeOthers t u cur now)
  show ?thesis
  proof (cases "mem_revoke_other_sessions_for_user t u cur now fs")
    case (Inl e)
    with OpRevokeOthers new show ?thesis by auto
  next
    case (Inr x)
    obtain n fs' where x: "x = (n, fs')" by force
    show ?thesis
      using new OpRevokeOthers mem_revoke_others_spec(1) [OF wf Inr [unfolded x], of k]
      by (auto simp: Inr x split: if_splits)
  qed
qed (use new in \<open>auto simp: mem_op_defs family_store_simps Let_def split: option.splits if_splits\<close>)

lemma revoke_others_loop_wf:
  "alist_wf fs \<Longrightarrow> revoke_others_loop t u now sids (n, ex, fs) = (n', ex', fs') \<Longrightarrow> alist_wf fs'"
  by (induction sids arbitrary: n ex fs)
    (auto intro: alist.wf_put split: option.splits if_splits)

lemma op_effect_alist_wf: "alist_wf fs \<Longrightarrow> alist_wf (op_effect o' fs)"
proof (cases o')
  case (OpRegister f now)
  assume "alist_wf fs"
  with OpRegister show ?thesis
    by (auto intro: alist.wf_put dest: mem_register_Inr split: sum.splits)
next
  case (OpRevokeOthers t u cur now)
  assume wf: "alist_wf fs"
  with OpRevokeOthers show ?thesis
    by (auto simp: mem_revoke_other_sessions_for_user_def Let_def
        intro: alist.wf_del_all dest: revoke_others_loop_wf [OF wf]
        split: sum.splits if_splits prod.splits)
qed (auto simp: mem_op_defs Let_def intro: alist.wf_put alist.wf_del alist.wf_del_all
    split: option.splits)

lemma op_effect_wf:
  assumes "fam_wf fs"
  shows "fam_wf (op_effect o' fs)"
  unfolding fam_wf_def
proof (intro conjI allI impI)
  show "alist_wf (op_effect o' fs)"
    using assms by (intro op_effect_alist_wf) (simp add: fam_wf_def)
  fix k g
  assume new: "map_of (op_effect o' fs) k = Some g"
  show "fam_sid g = k"
  proof (cases "registers k o'")
    case True
    then obtain f now where "o' = OpRegister f now" "fam_sid f = k"
      by (auto simp: registers_def split: session_op.splits)
    with new assms op_effect_Register [of f now fs] show ?thesis
      by (auto simp: fam_wf_def family_store_simps)
  next
    case False
    with op_effect_family [OF assms False new] assms show ?thesis
      by (auto simp: fam_wf_def)
  qed
qed

lemma session_run_wf: "fam_wf fs \<Longrightarrow> fam_wf (session_run ops fs)"
  unfolding session_run_def
  by (rule fold_invariant [where Q = "\<lambda>_. True"]) (auto intro: op_effect_wf)

lemma fam_wf_Nil [simp]: "fam_wf []"
  by (simp add: fam_wf_def alist_wf_def)

text \<open>A property of one family that no operation but a registration can break.\<close>

lemma session_run_family_inv:
  assumes wf: "fam_wf fs"
    and start: "\<And>f. map_of fs k = Some f \<Longrightarrow> P f"
    and step: "\<And>fs o' f g. fam_wf fs \<Longrightarrow> o' \<in> set ops \<Longrightarrow> map_of fs k = Some f \<Longrightarrow> P f \<Longrightarrow>
      map_of (op_effect o' fs) k = Some g \<Longrightarrow> P g"
    and noreg: "\<And>o'. o' \<in> set ops \<Longrightarrow> \<not> registers k o'"
  shows "map_of (session_run ops fs) k = Some f \<Longrightarrow> P f"
proof -
  let ?I = "\<lambda>fs. fam_wf fs \<and> (\<forall>f. map_of fs k = Some f \<longrightarrow> P f)"
  have "?I (fold op_effect ops fs)"
  proof (rule fold_invariant [where Q = "\<lambda>o'. o' \<in> set ops" and P = ?I])
    show "?I fs" using wf start by blast
  next
    fix o' fs
    assume "o' \<in> set ops" and I: "?I fs"
    then show "?I (op_effect o' fs)"
      using op_effect_wf [of fs o'] op_effect_family [of fs k o'] step [of fs o'] noreg [of o']
      by metis
  qed simp
  then show "map_of (session_run ops fs) k = Some f \<Longrightarrow> P f"
    by (simp add: session_run_def)
qed

section \<open>Properties\<close>

lemma revoked_stays:
  assumes "fam_wf fs" "\<forall>f. map_of fs sid = Some f \<longrightarrow> revoked f"
    "\<forall>o' \<in> set ops. \<not> registers sid o'"
  shows "\<forall>f. map_of (session_run ops fs) sid = Some f \<longrightarrow> revoked f"
proof (intro allI impI)
  fix f
  assume f: "map_of (session_run ops fs) sid = Some f"
  show "revoked f"
  proof (rule session_run_family_inv [OF assms(1) _ _ _ f])
    fix fs o' f g
    assume "fam_wf fs" "o' \<in> set ops" "map_of fs sid = Some f" "revoked f"
      "map_of (op_effect o' fs) sid = Some g"
    moreover have "\<not> registers sid o'" using assms(3) \<open>o' \<in> set ops\<close> by blast
    ultimately show "revoked g" using op_effect_family [of fs sid o' g] by auto
  qed (use assms in auto)
qed

lemma dead_family_rejected:
  assumes "\<forall>f. map_of fs sid = Some f \<longrightarrow> revoked f"
  shows "fst (mem_rotate sid p n now a fs) = MissingOrRevoked"
    and "fst (mem_identity sid now fs) = None"
    and "\<not> fst (mem_is_active_for_identity sid t u now fs)"
  using assms by (auto simp: mem_op_defs active_for_def split: option.splits)

text \<open>
  C28. Replay revokes for good: once a rotation answers \<open>Replayed\<close>, whatever operations follow
  (short of a new registration of that session), every later rotation of the session answers
  \<open>MissingOrRevoked\<close>, whichever token it presents, and the session has no identity.
\<close>

theorem replay_revokes_for_good:
  assumes "fam_wf fs" "fst (mem_rotate sid p n now a fs) = Replayed"
    "\<forall>o' \<in> set ops. \<not> registers sid o'"
  defines "fs' \<equiv> session_run ops (snd (mem_rotate sid p n now a fs))"
  shows "fst (mem_rotate sid p2 n2 now2 a2 fs') = MissingOrRevoked \<and>
    fst (mem_identity sid now2 fs') = None"
proof -
  have wf: "fam_wf (snd (mem_rotate sid p n now a fs))"
    using op_effect_wf [OF assms(1), of "OpRotate sid p n now a"] by simp
  have "\<forall>f. map_of (snd (mem_rotate sid p n now a fs)) sid = Some f \<longrightarrow> revoked f"
    using assms(2) by (auto simp: mem_rotate_def family_store_simps split: option.splits if_splits)
  from revoked_stays [OF wf this assms(3)] show ?thesis
    unfolding fs'_def by (simp add: dead_family_rejected)
qed

definition demo_family :: RefreshFamily where
  "demo_family = \<lparr>fam_sid = ''s'', fam_tenant_id = ''t1'', fam_user_id = 7, current_jti = ''j0'',
     previous_jti = None, last_attempt_id = None, rotated_at = 0, absolute_exp = 1000,
     revoked = False\<rparr>"

lemma demo_wf: "fam_wf [(''s'', demo_family)]"
  by (simp add: fam_wf_def alist_wf_def demo_family_def)

theorem replay_revokes_for_good_witness:
  "fst (mem_rotate ''s'' ''j1'' ''j2'' 20 ''a2''
     (session_run [OpIdentity ''s'' 15] (snd (mem_rotate ''s'' ''stolen'' ''x'' 10 ''a''
        [(''s'', demo_family)])))) = MissingOrRevoked"
proof -
  have "fst (mem_rotate ''s'' ''stolen'' ''x'' 10 ''a'' [(''s'', demo_family)]) = Replayed"
    by (simp add: mem_rotate_def demo_family_def)
  from replay_revokes_for_good [OF demo_wf this, of "[OpIdentity ''s'' 15]"] show ?thesis
    by (simp add: registers_def)
qed

text \<open>
  C30. A refresh token is exchanged at most once: after a rotation that accepted token \<open>p\<close>, no
  later rotation accepts \<open>p\<close> again, in any interleaving of operations that neither registers
  the session anew nor issues \<open>p\<close> as a new token.
\<close>

theorem token_exchanged_at_most_once:
  assumes "fam_wf fs" "fst (mem_rotate sid p n now a fs) = Rotated n now" "n \<noteq> p"
    "\<forall>o' \<in> set ops. \<not> registers sid o' \<and> \<not> issues sid p o'"
  defines "fs' \<equiv> session_run ops (snd (mem_rotate sid p n now a fs))"
  shows "\<forall>n2 now2. fst (mem_rotate sid p n2 now2 a2 fs') \<noteq> Rotated n2 now2"
proof (intro allI)
  fix n2 now2
  let ?fs1 = "snd (mem_rotate sid p n now a fs)"
  have wf: "fam_wf ?fs1" using op_effect_wf [OF assms(1), of "OpRotate sid p n now a"] by simp
  have "current_jti f \<noteq> p" if f: "map_of fs' sid = Some f" for f
  proof (rule session_run_family_inv [OF wf _ _ _ f [unfolded fs'_def]])
    show "current_jti f \<noteq> p" if "map_of ?fs1 sid = Some f" for f
      using that assms(2,3)
      by (auto simp: mem_rotate_def family_store_simps split: option.splits if_splits)
  next
    fix fs o' f g
    assume "fam_wf fs" "o' \<in> set ops" "map_of fs sid = Some f" "current_jti f \<noteq> p"
      "map_of (op_effect o' fs) sid = Some g"
    moreover have "\<not> registers sid o'" "\<not> issues sid p o'"
      using assms(4) \<open>o' \<in> set ops\<close> by blast+
    ultimately show "current_jti g \<noteq> p"
      using op_effect_family [of fs sid o' g] by (auto simp: issues_def)
  qed (use assms(4) in auto)
  then show "fst (mem_rotate sid p n2 now2 a2 fs') \<noteq> Rotated n2 now2"
    by (auto simp: mem_rotate_def split: option.splits)
qed

theorem token_exchanged_at_most_once_witness:
  "fst (mem_rotate ''s'' ''j0'' ''j9'' 30 ''b''
     (session_run [OpRotate ''s'' ''j1'' ''j2'' 20 ''a2'']
        (snd (mem_rotate ''s'' ''j0'' ''j1'' 10 ''a'' [(''s'', demo_family)])))) \<noteq> Rotated ''j9'' 30"
proof -
  have "fst (mem_rotate ''s'' ''j0'' ''j1'' 10 ''a'' [(''s'', demo_family)]) = Rotated ''j1'' 10"
    by (simp add: mem_rotate_def demo_family_def)
  from token_exchanged_at_most_once [OF demo_wf this, of "[OpRotate ''s'' ''j1'' ''j2'' 20 ''a2'']"]
  show ?thesis by (simp add: registers_def issues_def)
qed

text \<open>
  Signing out the other devices is exact: a successful bulk revocation revokes precisely the
  active sessions of that user other than the current one, reports how many they are, and leaves
  every other entry as it was.
\<close>

theorem revoke_others_exact:
  assumes "fam_wf fs" "mem_revoke_other_sessions_for_user t u cur now fs = Inr (n, fs')"
  shows "n = card (revoke_others_sids t u cur now fs) \<and>
    (\<forall>k. map_of fs' k =
       (if k \<in> revoke_others_sids t u cur now fs
        then map_option (\<lambda>f. f\<lparr>revoked := True\<rparr>) (map_of fs k) else map_of fs k)) \<and>
    revoke_others_sids t u cur now fs' = {}"
proof (intro conjI allI)
  note spec = mem_revoke_others_spec [OF assms]
  show "n = card (revoke_others_sids t u cur now fs)" by (rule spec(2))
  show "map_of fs' k =
       (if k \<in> revoke_others_sids t u cur now fs
        then map_option (\<lambda>f. f\<lparr>revoked := True\<rparr>) (map_of fs k) else map_of fs k)" for k
    by (rule spec(1))
  show "revoke_others_sids t u cur now fs' = {}"
    using spec(1) by (auto simp: revoke_others_sids_def active_for_def split: if_splits)
qed

theorem revoke_others_exact_witness:
  "\<exists>fs'. mem_revoke_other_sessions_for_user ''t1'' 7 ''s2'' 10 [(''s'', demo_family)] = Inr (1, fs')
     \<and> revoke_others_sids ''t1'' 7 ''s2'' 10 fs' = {}"
proof -
  let ?fs' = "AList.update ''s'' (demo_family\<lparr>revoked := True\<rparr>) [(''s'', demo_family)]"
  have ok: "mem_revoke_other_sessions_for_user ''t1'' 7 ''s2'' 10 [(''s'', demo_family)]
      = Inr (1, ?fs')"
    by (simp add: mem_revoke_other_sessions_for_user_def active_for_def demo_family_def
        sort_dedup_def MAX_BULK_SESSION_CANDIDATES_def alist.del_all_def)
  from revoke_others_exact [OF demo_wf ok] ok show ?thesis by blast
qed

section \<open>The device limit\<close>

definition active_sids :: "string \<Rightarrow> int \<Rightarrow> int \<Rightarrow> families \<Rightarrow> string set" where
  "active_sids t u now fs = {k. \<exists>f. map_of fs k = Some f \<and> active_for t u now f}"

definition capped :: "int \<Rightarrow> families \<Rightarrow> bool" where
  "capped now fs \<longleftrightarrow> (\<forall>t u. card (active_sids t u now fs) \<le> MAX_BULK_SESSION_CANDIDATES)"

lemma finite_active_sids: "alist_wf fs \<Longrightarrow> finite (active_sids t u now fs)"
  unfolding active_sids_def by (rule finite_subset [OF _ alist.finite_entries]) auto

lemma active_sids_mono:
  assumes "now \<le> now'"
  shows "active_sids t u now' fs \<subseteq> active_sids t u now fs"
  using assms by (auto simp: active_sids_def active_for_def)

lemma op_effect_active:
  assumes "fam_wf fs" "\<forall>f now. o' \<noteq> OpRegister f now"
  shows "active_sids t u now (op_effect o' fs) \<subseteq> active_sids t u now fs"
proof
  fix k
  assume "k \<in> active_sids t u now (op_effect o' fs)"
  then obtain g where g: "map_of (op_effect o' fs) k = Some g" "active_for t u now g"
    by (auto simp: active_sids_def)
  have "\<not> registers k o'" using assms(2) by (auto simp: registers_def split: session_op.splits)
  from op_effect_family [OF assms(1) this g(1)] g(2) show "k \<in> active_sids t u now fs"
    by (auto simp: active_sids_def active_for_def)
qed

lemma register_capped:
  assumes wf: "fam_wf fs" and cap: "capped now fs"
    and ok: "mem_register f now fs = Inr (x, fs')"
  shows "capped now fs'"
  unfolding capped_def
proof (intro allI)
  fix t u
  let ?P = "active_for t u now"
  have fs': "fs' = AList.update (fam_sid f) f fs" using ok by (rule mem_register_Inr)
  have wfa: "alist_wf fs" using wf by (simp add: fam_wf_def)
  have bound: "card (active_sids t u now fs') \<le> card (active_sids t u now fs)
      + (if ?P f \<and> \<not> (\<exists>v'. map_of fs (fam_sid f) = Some v' \<and> ?P v') then 1 else 0)"
    unfolding active_sids_def fs' by (rule alist.count_put [OF wfa])
  show "card (active_sids t u now fs') \<le> MAX_BULK_SESSION_CANDIDATES"
  proof (cases "?P f \<and> \<not> (\<exists>v'. map_of fs (fam_sid f) = Some v' \<and> ?P v')")
    case False
    with bound have "card (active_sids t u now fs') \<le> card (active_sids t u now fs)"
      by (simp only: if_False add_0_right)
    also have "\<dots> \<le> MAX_BULK_SESSION_CANDIDATES" using cap by (simp add: capped_def)
    finally show ?thesis .
  next
    case True
    then have tu: "t = fam_tenant_id f" "u = fam_user_id f" "\<not> revoked f"
      by (auto simp: active_for_def)
    then have "\<not> MAX_BULK_SESSION_CANDIDATES \<le>
        length (take MAX_BULK_SESSION_CANDIDATES (filter (\<lambda>(k, f). ?P f) fs))"
      using ok True by (auto simp: mem_register_def Let_def split: if_splits option.splits)
    then have "length (filter (\<lambda>(k, f). ?P f) fs) < MAX_BULK_SESSION_CANDIDATES" by simp
    then have "card (active_sids t u now fs) < MAX_BULK_SESSION_CANDIDATES"
      unfolding active_sids_def using alist.count_entries [OF wfa, of ?P] by simp
    with bound show ?thesis by (auto split: if_splits)
  qed
qed

lemma capped_subset:
  assumes "alist_wf fs" "capped now fs"
    "\<And>t u. active_sids t u now' fs' \<subseteq> active_sids t u now fs"
  shows "capped now' fs'"
  unfolding capped_def
proof (intro allI)
  fix t u
  have "card (active_sids t u now' fs') \<le> card (active_sids t u now fs)"
    using assms(3) by (rule card_mono [OF finite_active_sids [OF assms(1)]])
  also have "\<dots> \<le> MAX_BULK_SESSION_CANDIDATES" using assms(2) by (simp add: capped_def)
  finally show "card (active_sids t u now' fs') \<le> MAX_BULK_SESSION_CANDIDATES" .
qed

lemma fam_wf_alist: "fam_wf fs \<Longrightarrow> alist_wf fs"
  by (simp add: fam_wf_def)

lemma capped_later:
  assumes "fam_wf fs" "capped now fs" "now \<le> now'"
  shows "capped now' fs"
  using fam_wf_alist [OF assms(1)] assms(2) active_sids_mono [OF assms(3)]
  by (rule capped_subset)

lemma op_effect_capped:
  assumes "fam_wf fs" "capped (op_time o') fs"
  shows "capped (op_time o') (op_effect o' fs)"
proof (cases "\<exists>f now. o' = OpRegister f now")
  case True
  then obtain f now where o': "o' = OpRegister f now" by blast
  show ?thesis
  proof (cases "mem_register f now fs")
    case (Inl e)
    with assms(2) show ?thesis by (simp add: o')
  next
    case (Inr x)
    obtain fs' where "mem_register f now fs = Inr ((), fs')" using Inr by (cases x) auto
    with register_capped [OF assms(1) _ this] assms(2) show ?thesis by (simp add: o')
  qed
next
  case False
  then have "\<forall>f now. o' \<noteq> OpRegister f now" by blast
  from op_effect_active [OF assms(1) this] show ?thesis
    by (rule capped_subset [OF fam_wf_alist [OF assms(1)] assms(2)])
qed

lemma session_run_capped:
  "fam_wf fs \<Longrightarrow> capped t0 fs \<Longrightarrow> sorted (t0 # map op_time ops @ [t1]) \<Longrightarrow>
     capped t1 (session_run ops fs)"
proof (induction ops arbitrary: fs t0)
  case Nil
  then have "t0 \<le> t1" by simp
  from capped_later [OF Nil.prems(1,2) this] show ?case by (simp add: session_run_def)
next
  case (Cons o' ops)
  have "t0 \<le> op_time o'" and rest: "sorted (op_time o' # map op_time ops @ [t1])"
    using Cons.prems(3) by simp_all
  then have "capped (op_time o') fs"
    using Cons.prems by (blast intro: capped_later)
  then have "capped (op_time o') (op_effect o' fs)"
    using Cons.prems(1) by (blast intro: op_effect_capped)
  from Cons.IH [OF op_effect_wf [OF Cons.prems(1)] this rest] show ?case
    by (simp add: session_run_def)
qed

text \<open>
  C37. No user ever holds more than 256 active login devices: from the empty store, after any
  operations at non-decreasing times, at every later time the active sessions of every user are
  at most 256.
\<close>

theorem device_limit_invariant:
  assumes "sorted (map op_time ops @ [now])"
  shows "card (active_sids t u now (session_run ops [])) \<le> MAX_BULK_SESSION_CANDIDATES"
proof -
  have "capped (hd (map op_time ops @ [now])) []"
    by (simp add: capped_def active_sids_def)
  moreover have "sorted (hd (map op_time ops @ [now]) # map op_time ops @ [now])"
    using assms by (cases ops) auto
  ultimately have "capped now (session_run ops [])"
    by (intro session_run_capped) auto
  then show ?thesis by (simp add: capped_def)
qed

theorem device_limit_invariant_witness:
  "card (active_sids ''t1'' 7 12 (session_run [OpRegister demo_family 10, OpIdentity ''s'' 11] []))
     \<le> 256"
  using device_limit_invariant [of "[OpRegister demo_family 10, OpIdentity ''s'' 11]" 12 "''t1''" 7]
  by (simp add: MAX_BULK_SESSION_CANDIDATES_def)

section \<open>Agreement of the read operations, and tenant isolation\<close>

lemma sids_set:
  "alist_wf fs \<Longrightarrow> set (fst (mem_session_sids now P fs)) =
     {k. \<exists>f. map_of fs k = Some f \<and> now < absolute_exp f \<and> \<not> revoked f \<and> P f}"
  using alist.entries_get [of fs] by (force simp: mem_session_sids_def Let_def not_le)

text \<open>
  The read operations agree: the device list of a user holds exactly the sessions that
  \<open>is_active_for_identity\<close> accepts for that user, which are those whose \<open>identity\<close> is that
  user, and the list is sorted without duplicates.
\<close>

theorem session_views_agree:
  assumes "fam_wf fs"
  shows "sorted (fst (mem_session_sids_for_user t u now fs)) \<and>
    distinct (fst (mem_session_sids_for_user t u now fs)) \<and>
    (\<forall>sid. (sid \<in> set (fst (mem_session_sids_for_user t u now fs)) \<longleftrightarrow>
             fst (mem_is_active_for_identity sid t u now fs)) \<and>
           (fst (mem_is_active_for_identity sid t u now fs) \<longleftrightarrow>
             (\<exists>i. fst (mem_identity sid now fs) = Some i \<and> rsi_tenant_id i = t \<and> rsi_user_id i = u)))"
proof -
  have wf: "alist_wf fs" using assms by (simp add: fam_wf_def)
  have "distinct (fst (mem_session_sids now P fs))" for P
    using wf by (simp add: mem_session_sids_def Let_def alist_wf_def distinct_map_filter)
  moreover have "sorted (fst (mem_session_sids now P fs))" for P
    by (simp add: mem_session_sids_def Let_def)
  ultimately show ?thesis
    by (auto simp: mem_session_sids_for_user_def sids_set [OF wf] mem_is_active_for_identity_def
        mem_identity_def active_for_def split: option.splits)
qed

theorem session_views_agree_witness:
  "fst (mem_is_active_for_identity ''s'' ''t1'' 7 10 [(''s'', demo_family)]) \<and>
   ''s'' \<in> set (fst (mem_session_sids_for_user ''t1'' 7 10 [(''s'', demo_family)]))"
proof -
  have "fst (mem_is_active_for_identity ''s'' ''t1'' 7 10 [(''s'', demo_family)])"
    by (simp add: mem_is_active_for_identity_def active_for_def demo_family_def)
  with session_views_agree [OF demo_wf, of "''t1''" 7 10] show ?thesis by blast
qed

text \<open>
  Revocation respects ownership: neither the tenant-scoped nor the user-scoped revocation
  changes or discloses a live session of another owner. The answer for a foreign session is the
  answer for a missing one, and the store is left as it was.
\<close>

theorem revocation_isolated:
  assumes "map_of fs sid = Some f" "now < absolute_exp f"
    "fam_tenant_id f \<noteq> t \<or> fam_user_id f \<noteq> u"
  shows "mem_revoke_for_user t u sid now fs = (fst (mem_revoke_for_user t u sid now []), fs) \<and>
    (fam_tenant_id f \<noteq> t \<longrightarrow>
       mem_revoke_for_tenant t sid now fs = (fst (mem_revoke_for_tenant t sid now []), fs))"
  using assms by (auto simp: mem_revoke_for_user_def mem_revoke_for_tenant_def)

theorem revocation_isolated_witness:
  "mem_revoke_for_user ''t2'' 7 ''s'' 10 [(''s'', demo_family)]
     = (NotFoundOrForeign, [(''s'', demo_family)])"
  using revocation_isolated [of "[(''s'', demo_family)]" "''s''" demo_family 10 "''t2''" 7]
  by (simp add: demo_family_def mem_revoke_for_user_def)

end
