(* ===== verification/Redis_Sessions.thy ===== *)
theory Redis_Sessions
  imports Refresh_Session
begin

text \<open>
  The refresh sessions in Redis (\<open>ryframe-adapters/src/refresh_session/redis_store\<close>). A family is a
  hash, and two sets per tenant and per user index the sessions that may be active. Every operation
  is one optimistic transaction, repeated until no watched key changed, so it is a function of the
  keys; what it reads comes before the commands it queues. The order of the members of a set is the
  server's. The prefix of the installation is left out of the keys.
\<close>

section \<open>Keys and commands\<close>

definition family_key :: "string \<Rightarrow> string" where
  "family_key sid = ''ryframe:v0.5:refresh-family:'' @ sid"

definition tenant_index_key :: "string \<Rightarrow> string" where
  "tenant_index_key tenant_id = ''ryframe:v0.5:refresh-family-index:tenant:'' @ tenant_id"

definition tenant_user_index_key :: "string \<Rightarrow> int \<Rightarrow> string" where
  "tenant_user_index_key tenant_id user_id =
     ''ryframe:v0.5:refresh-family-index:tenant-user:'' @ tenant_id @ '':'' @ show_int user_id"

record redis_keys =
  rk_hashes :: "string \<Rightarrow> (string \<times> string) list"
  rk_sets :: "string \<Rightarrow> string list"
  rk_expire :: "string \<Rightarrow> int option"

definition redis_type :: "string \<Rightarrow> redis_keys \<Rightarrow> string" where
  "redis_type key s =
     (if rk_hashes s key \<noteq> [] then ''hash'' else if rk_sets s key \<noteq> [] then ''set'' else ''none'')"

definition r_del :: "string \<Rightarrow> redis_keys \<Rightarrow> redis_keys" where
  "r_del key s = s\<lparr>rk_hashes := (rk_hashes s)(key := []), rk_sets := (rk_sets s)(key := []),
                    rk_expire := (rk_expire s)(key := None)\<rparr>"

definition r_hset :: "string \<Rightarrow> (string \<times> string) list \<Rightarrow> redis_keys \<Rightarrow> redis_keys" where
  "r_hset key kvs s =
     s\<lparr>rk_hashes := (rk_hashes s)(key := fold (\<lambda>(f, v). AList.update f v) kvs (rk_hashes s key))\<rparr>"

definition r_expireat :: "string \<Rightarrow> int \<Rightarrow> redis_keys \<Rightarrow> redis_keys" where
  "r_expireat key t s =
     (if redis_type key s = ''none'' then s else s\<lparr>rk_expire := (rk_expire s)(key \<mapsto> t)\<rparr>)"

definition r_sadd :: "string \<Rightarrow> string \<Rightarrow> redis_keys \<Rightarrow> redis_keys" where
  "r_sadd key member s = s\<lparr>rk_sets := (rk_sets s)(key := List.insert member (rk_sets s key))\<rparr>"

text \<open>A set without members does not exist, and its expiry goes with it.\<close>

definition r_srem :: "string \<Rightarrow> string list \<Rightarrow> redis_keys \<Rightarrow> redis_keys" where
  "r_srem key members s =
     (let rest = filter (\<lambda>m. m \<notin> set members) (rk_sets s key)
      in s\<lparr>rk_sets := (rk_sets s)(key := rest),
           rk_expire := (if rest = [] \<and> rk_sets s key \<noteq> [] then (rk_expire s)(key := None) else rk_expire s)\<rparr>)"

section \<open>Helpers\<close>

definition redis_unavailable :: app_error where
  "redis_unavailable = ServiceUnavailable ''session service unavailable''"

definition ensure_types :: "redis_keys \<Rightarrow> (string \<times> string) list \<Rightarrow> unit app_result" where
  "ensure_types s keys =
     (if list_all (\<lambda>(key, expected). redis_type key s = ''none'' \<or> redis_type key s = expected) keys
      then Inr () else Inl redis_unavailable)"

definition required :: "(string \<times> string) list \<Rightarrow> string \<Rightarrow> string app_result" where
  "required kvs name = (case map_of kvs name of Some v \<Rightarrow> Inr v | None \<Rightarrow> Inl redis_unavailable)"

definition optional_field :: "(string \<times> string) list \<Rightarrow> string \<Rightarrow> string option" where
  "optional_field kvs name =
     (case map_of kvs name of Some v \<Rightarrow> if v = [] then None else Some v | None \<Rightarrow> None)"

definition parse_field :: "(string \<times> string) list \<Rightarrow> string \<Rightarrow> int app_result" where
  "parse_field kvs name =
     bind_result (required kvs name) (\<lambda>v.
       case parse_i64 v of Some i \<Rightarrow> Inr i | None \<Rightarrow> Inl redis_unavailable)"

definition load_family :: "redis_keys \<Rightarrow> string \<Rightarrow> RefreshFamily option app_result" where
  "load_family s key =
     (let kvs = rk_hashes s key
      in if kvs = [] then Inr None
         else bind_result (required kvs ''sid'') (\<lambda>sid.
              bind_result (required kvs ''tenant_id'') (\<lambda>tenant_id.
              bind_result (parse_field kvs ''user_id'') (\<lambda>user_id.
              bind_result (required kvs ''current_jti'') (\<lambda>jti.
              bind_result (parse_field kvs ''rotated_at'') (\<lambda>rotated.
              bind_result (parse_field kvs ''absolute_exp'') (\<lambda>exp.
              bind_result (required kvs ''revoked'') (\<lambda>flag.
              bind_result (if flag = ''0'' then Inr False else if flag = ''1'' then Inr True
                           else Inl redis_unavailable) (\<lambda>is_revoked.
                Inr (Some \<lparr>fam_sid = sid, fam_tenant_id = tenant_id, fam_user_id = user_id,
                  current_jti = jti, previous_jti = optional_field kvs ''previous_jti'',
                  last_attempt_id = optional_field kvs ''last_attempt_id'', rotated_at = rotated,
                  absolute_exp = exp, revoked = is_revoked\<rparr>))))))))))"

definition or_empty :: "string option \<Rightarrow> string" where
  "or_empty v = (case v of Some x \<Rightarrow> x | None \<Rightarrow> [])"

definition queue_family_write :: "string \<Rightarrow> RefreshFamily \<Rightarrow> redis_keys \<Rightarrow> redis_keys" where
  "queue_family_write key family s =
     r_expireat key (absolute_exp family)
       (r_hset key [(''sid'', fam_sid family), (''tenant_id'', fam_tenant_id family),
          (''user_id'', show_int (fam_user_id family)), (''current_jti'', current_jti family),
          (''previous_jti'', or_empty (previous_jti family)), (''rotated_at'', show_int (rotated_at family)),
          (''absolute_exp'', show_int (absolute_exp family)),
          (''revoked'', if revoked family then ''1'' else ''0''),
          (''last_attempt_id'', or_empty (last_attempt_id family))] s)"

text \<open>
  The old state \<open>s0\<close> is the one that was read. \<open>EXPIRETIME\<close> answers -1 for a key without expiry and -2
  for no key.
\<close>

definition expiretime :: "redis_keys \<Rightarrow> string \<Rightarrow> int" where
  "expiretime s key =
     (case rk_expire s key of Some t \<Rightarrow> t | None \<Rightarrow> if redis_type key s = ''none'' then - 2 else - 1)"

definition queue_expiry_extension :: "redis_keys \<Rightarrow> string \<Rightarrow> int \<Rightarrow> redis_keys \<Rightarrow> redis_keys" where
  "queue_expiry_extension s0 key exp s = (if expiretime s0 key < exp then r_expireat key exp s else s)"

definition queue_index_removals :: "redis_keys \<Rightarrow> string \<Rightarrow> string list \<Rightarrow> redis_keys \<Rightarrow> redis_keys" where
  "queue_index_removals s0 key sids s =
     (if sids = [] then s
      else if list_all (\<lambda>m. m \<in> set sids) (rk_sets s0 key) then r_del key s
      else r_srem key sids s)"

definition queue_index_removal :: "redis_keys \<Rightarrow> string \<Rightarrow> string \<Rightarrow> redis_keys \<Rightarrow> redis_keys" where
  "queue_index_removal s0 key sid = queue_index_removals s0 key [sid]"

definition mark_revoked :: "string \<Rightarrow> RefreshFamily \<Rightarrow> redis_keys \<Rightarrow> redis_keys" where
  "mark_revoked key family s = r_expireat key (absolute_exp family) (r_hset key [(''revoked'', ''1'')] s)"

section \<open>Operations\<close>

type_synonym 'a redis_result = "app_error + ('a \<times> redis_keys)"

text \<open>What the loop over the indexed sessions of a registration finds: stale ones, how many are active, and whether the new one is among them.\<close>

fun scan_indexed ::
  "redis_keys \<Rightarrow> RefreshFamily \<Rightarrow> string list \<Rightarrow> (string list \<times> nat \<times> bool) app_result" where
  "scan_indexed s family [] = Inr ([], 0, False)"
| "scan_indexed s family (sid # sids) =
     bind_result (ensure_types s [(family_key sid, ''hash'')]) (\<lambda>_.
     bind_result (load_family s (family_key sid)) (\<lambda>found.
     bind_result (scan_indexed s family sids) (\<lambda>(stale, active_count, new_sid_indexed).
       case found of
         None \<Rightarrow> Inr (sid # stale, active_count, new_sid_indexed)
       | Some i \<Rightarrow>
           if fam_tenant_id i = fam_tenant_id family \<and> fam_user_id i = fam_user_id family \<and>
              rotated_at family < absolute_exp i \<and> \<not> revoked i
           then Inr (stale, Suc active_count, fam_sid i = fam_sid family \<or> new_sid_indexed)
           else Inr (sid # stale, active_count, new_sid_indexed))))"

definition drop_old_index :: "string \<Rightarrow> RefreshFamily option \<Rightarrow> redis_keys \<Rightarrow> redis_keys" where
  "drop_old_index sid old s =
     (case old of
        None \<Rightarrow> s
      | Some o' \<Rightarrow> r_srem (tenant_user_index_key (fam_tenant_id o') (fam_user_id o')) [sid]
                    (r_srem (tenant_index_key (fam_tenant_id o')) [sid] s))"

definition drop_stale :: "string \<Rightarrow> string \<Rightarrow> string list \<Rightarrow> redis_keys \<Rightarrow> redis_keys" where
  "drop_stale tenant_key user_key stale s =
     fold (\<lambda>sid s. r_srem user_key [sid] (r_srem tenant_key [sid] s)) stale s"

definition redis_register :: "RefreshFamily \<Rightarrow> redis_keys \<Rightarrow> unit redis_result" where
  "redis_register family s =
     (let key = family_key (fam_sid family);
          tenant_key = tenant_index_key (fam_tenant_id family);
          user_key = tenant_user_index_key (fam_tenant_id family) (fam_user_id family)
      in bind_result (ensure_types s [(key, ''hash''), (tenant_key, ''set''), (user_key, ''set'')]) (\<lambda>_.
         if MAX_BULK_SESSION_CANDIDATES < length (rk_sets s user_key) then Inl (Conflict msg_device_limit)
         else
         bind_result (scan_indexed s family (rk_sets s user_key)) (\<lambda>(stale, active_count, new_sid_indexed).
         if \<not> revoked family \<and> \<not> new_sid_indexed \<and> MAX_BULK_SESSION_CANDIDATES \<le> active_count
         then Inl (Conflict msg_device_limit)
         else
         bind_result (load_family s key) (\<lambda>old.
         bind_result (case old of
             None \<Rightarrow> Inr ()
           | Some o' \<Rightarrow> ensure_types s [(tenant_index_key (fam_tenant_id o'), ''set''),
               (tenant_user_index_key (fam_tenant_id o') (fam_user_id o'), ''set'')]) (\<lambda>_.
           let s1 = drop_stale tenant_key user_key (sort_dedup stale) (drop_old_index (fam_sid family) old s);
               s2 = queue_family_write key family s1
           in Inr ((),
                if revoked family then s2
                else queue_expiry_extension s user_key (absolute_exp family)
                       (queue_expiry_extension s tenant_key (absolute_exp family)
                         (r_sadd user_key (fam_sid family) (r_sadd tenant_key (fam_sid family) s2)))))))))"

definition redis_rotate ::
  "string \<Rightarrow> string \<Rightarrow> string \<Rightarrow> int \<Rightarrow> string \<Rightarrow> redis_keys \<Rightarrow> RefreshRotation redis_result" where
  "redis_rotate sid presented_jti new_jti now attempt_id s =
     (let key = family_key sid
      in bind_result (ensure_types s [(key, ''hash'')]) (\<lambda>_.
         bind_result (load_family s key) (\<lambda>found.
         case found of
           None \<Rightarrow> Inr (MissingOrRevoked, s)
         | Some f \<Rightarrow>
             if revoked f then Inr (MissingOrRevoked, s)
             else
               let tenant_key = tenant_index_key (fam_tenant_id f);
                   user_key = tenant_user_index_key (fam_tenant_id f) (fam_user_id f)
               in bind_result (ensure_types s [(tenant_key, ''set''), (user_key, ''set'')]) (\<lambda>_.
                  if absolute_exp f \<le> now
                  then Inr (MissingOrRevoked,
                         queue_index_removal s user_key (fam_sid f)
                           (queue_index_removal s tenant_key (fam_sid f) (r_del key s)))
                  else if current_jti f = presented_jti
                  then Inr (Rotated new_jti now,
                         r_expireat key (absolute_exp f)
                           (r_hset key [(''previous_jti'', current_jti f), (''current_jti'', new_jti),
                              (''rotated_at'', show_int now), (''last_attempt_id'', attempt_id)] s))
                  else if previous_jti f = Some presented_jti \<and> last_attempt_id f = Some attempt_id
                  then Inr (Recovered (current_jti f) (rotated_at f), s)
                  else if previous_jti f = Some presented_jti \<and>
                          now - rotated_at f \<le> CONCURRENT_GRACE_SECONDS
                  then Inr (Concurrent, s)
                  else Inr (Replayed,
                         queue_index_removal s user_key (fam_sid f)
                           (queue_index_removal s tenant_key (fam_sid f) (mark_revoked key f s)))))))"

text \<open>The code answers 1 (revoked), 2 (already revoked) or 0 (missing or foreign).\<close>

definition redis_revoke_owned ::
  "string option \<Rightarrow> int option \<Rightarrow> string \<Rightarrow> int \<Rightarrow> redis_keys \<Rightarrow> int redis_result" where
  "redis_revoke_owned tenant_id user_id sid now s =
     (let key = family_key sid
      in bind_result (ensure_types s [(key, ''hash'')]) (\<lambda>_.
         bind_result (load_family s key) (\<lambda>found.
         case found of
           None \<Rightarrow> Inr (0, s)
         | Some f \<Rightarrow>
             if (case tenant_id of Some v \<Rightarrow> v \<noteq> fam_tenant_id f | None \<Rightarrow> False) \<or>
                (case user_id of Some v \<Rightarrow> v \<noteq> fam_user_id f | None \<Rightarrow> False)
             then Inr (0, s)
             else
               let tenant_key = tenant_index_key (fam_tenant_id f);
                   user_key = tenant_user_index_key (fam_tenant_id f) (fam_user_id f)
               in bind_result (ensure_types s [(tenant_key, ''set''), (user_key, ''set'')]) (\<lambda>_.
                  let (code, s1) =
                    (if absolute_exp f \<le> now then (0, r_del key s)
                     else if revoked f \<and> user_id \<noteq> None then (2, s)
                     else (1, mark_revoked key f s))
                  in Inr (code, queue_index_removal s user_key sid (queue_index_removal s tenant_key sid s1))))))"

definition redis_revoke :: "string \<Rightarrow> int \<Rightarrow> redis_keys \<Rightarrow> bool redis_result" where
  "redis_revoke sid now s =
     bind_result (redis_revoke_owned None None sid now s) (\<lambda>(c, s'). Inr (c = 1, s'))"

definition redis_revoke_for_tenant :: "string \<Rightarrow> string \<Rightarrow> int \<Rightarrow> redis_keys \<Rightarrow> bool redis_result" where
  "redis_revoke_for_tenant tenant_id sid now s =
     bind_result (redis_revoke_owned (Some tenant_id) None sid now s) (\<lambda>(c, s'). Inr (c = 1, s'))"

definition redis_revoke_for_user ::
  "string \<Rightarrow> int \<Rightarrow> string \<Rightarrow> int \<Rightarrow> redis_keys \<Rightarrow> RefreshSessionRevocation redis_result" where
  "redis_revoke_for_user tenant_id user_id sid now s =
     bind_result (redis_revoke_owned (Some tenant_id) (Some user_id) sid now s) (\<lambda>(c, s').
       Inr (if c = 1 then Revoked else if c = 2 then AlreadyRevoked else NotFoundOrForeign, s'))"

text \<open>The loop of the bulk revocation: how many were revoked, which are owned, and the queued commands.\<close>

fun redis_revoke_loop ::
  "redis_keys \<Rightarrow> string \<Rightarrow> int \<Rightarrow> int \<Rightarrow> string list \<Rightarrow> nat \<times> string list \<times> redis_keys \<Rightarrow>
   (nat \<times> string list \<times> redis_keys) app_result" where
  "redis_revoke_loop s0 tenant_id user_id now [] acc = Inr acc"
| "redis_revoke_loop s0 tenant_id user_id now (sid # sids) (n, owned, s) =
     bind_result (ensure_types s0 [(family_key sid, ''hash'')]) (\<lambda>_.
     bind_result (load_family s0 (family_key sid)) (\<lambda>found.
       case found of
         None \<Rightarrow> redis_revoke_loop s0 tenant_id user_id now sids (n, owned, s)
       | Some f \<Rightarrow>
           if fam_tenant_id f \<noteq> tenant_id \<or> fam_user_id f \<noteq> user_id
           then redis_revoke_loop s0 tenant_id user_id now sids (n, owned, s)
           else if absolute_exp f \<le> now
           then redis_revoke_loop s0 tenant_id user_id now sids (n, owned @ [sid], r_del (family_key sid) s)
           else if \<not> revoked f
           then redis_revoke_loop s0 tenant_id user_id now sids
                  (Suc n, owned @ [sid], mark_revoked (family_key sid) f s)
           else redis_revoke_loop s0 tenant_id user_id now sids (n, owned @ [sid], s)))"

definition redis_revoke_other_sessions_for_user ::
  "string \<Rightarrow> int \<Rightarrow> string \<Rightarrow> string list \<Rightarrow> int \<Rightarrow> redis_keys \<Rightarrow> nat redis_result" where
  "redis_revoke_other_sessions_for_user tenant_id user_id current_sid candidates now s =
     (let tenant_key = tenant_index_key tenant_id;
          user_key = tenant_user_index_key tenant_id user_id
      in bind_result (ensure_types s [(tenant_key, ''set''), (user_key, ''set'')]) (\<lambda>_.
         let all = filter (\<lambda>sid. sid \<noteq> current_sid) (sort_dedup (candidates @ rk_sets s user_key))
         in if MAX_BULK_SESSION_CANDIDATES < length all then Inl bulk_limit_error
            else
              bind_result (redis_revoke_loop s tenant_id user_id now all (0, [], s)) (\<lambda>(n, owned, s1).
                Inr (n, queue_index_removals s user_key owned (queue_index_removals s tenant_key owned s1)))))"

definition redis_identity :: "string \<Rightarrow> int \<Rightarrow> redis_keys \<Rightarrow> RefreshSessionIdentity option redis_result" where
  "redis_identity sid now s =
     (let key = family_key sid
      in bind_result (ensure_types s [(key, ''hash'')]) (\<lambda>_.
         bind_result (load_family s key) (\<lambda>found.
         case found of
           None \<Rightarrow> Inr (None, s)
         | Some f \<Rightarrow>
             if \<not> revoked f \<and> now < absolute_exp f
             then Inr (Some \<lparr>rsi_tenant_id = fam_tenant_id f, rsi_user_id = fam_user_id f,
                         rsi_absolute_exp = absolute_exp f\<rparr>, s)
             else
               let tenant_key = tenant_index_key (fam_tenant_id f);
                   user_key = tenant_user_index_key (fam_tenant_id f) (fam_user_id f)
               in bind_result (ensure_types s [(tenant_key, ''set''), (user_key, ''set'')]) (\<lambda>_.
                    Inr (None,
                      queue_index_removal s user_key (fam_sid f)
                        (queue_index_removal s tenant_key (fam_sid f)
                          (if absolute_exp f \<le> now then r_del key s else s)))))))"

definition redis_is_active_for_identity ::
  "string \<Rightarrow> string \<Rightarrow> int \<Rightarrow> int \<Rightarrow> redis_keys \<Rightarrow> bool redis_result" where
  "redis_is_active_for_identity sid tenant_id user_id now s =
     bind_result (redis_identity sid now s) (\<lambda>(i, s').
       Inr (case i of Some x \<Rightarrow> rsi_tenant_id x = tenant_id \<and> rsi_user_id x = user_id | None \<Rightarrow> False, s'))"

text \<open>The loop of the listings: active ones, stale ones, and the deletions of expired families.\<close>

fun list_loop ::
  "redis_keys \<Rightarrow> string \<Rightarrow> int option \<Rightarrow> int \<Rightarrow> string list \<Rightarrow> string list \<times> string list \<times> redis_keys \<Rightarrow>
   (string list \<times> string list \<times> redis_keys) app_result" where
  "list_loop s0 tenant_id user_id now [] acc = Inr acc"
| "list_loop s0 tenant_id user_id now (sid # sids) (active, stale, s) =
     bind_result (ensure_types s0 [(family_key sid, ''hash'')]) (\<lambda>_.
     bind_result (load_family s0 (family_key sid)) (\<lambda>found.
       if (case found of None \<Rightarrow> False | Some f \<Rightarrow>
             fam_tenant_id f = tenant_id \<and> (case user_id of None \<Rightarrow> True | Some v \<Rightarrow> fam_user_id f = v) \<and>
             \<not> revoked f \<and> now < absolute_exp f)
       then list_loop s0 tenant_id user_id now sids (active @ [sid], stale, s)
       else list_loop s0 tenant_id user_id now sids (active, stale @ [sid],
              if (case found of None \<Rightarrow> False | Some f \<Rightarrow> absolute_exp f \<le> now)
              then r_del (family_key sid) s else s)))"

definition redis_session_sids ::
  "string \<Rightarrow> int option \<Rightarrow> int \<Rightarrow> redis_keys \<Rightarrow> string list redis_result" where
  "redis_session_sids tenant_id user_id now s =
     (let tenant_key = tenant_index_key tenant_id;
          primary_key = (case user_id of Some u \<Rightarrow> tenant_user_index_key tenant_id u | None \<Rightarrow> tenant_key)
      in bind_result (ensure_types s [(primary_key, ''set''), (tenant_key, ''set'')]) (\<lambda>_.
         bind_result (list_loop s tenant_id user_id now (rk_sets s primary_key) ([], [], s)) (\<lambda>(active, stale, s1).
         if stale = [] then Inr (sort_dedup active, s)
         else
           let s2 = queue_index_removals s primary_key stale s1
           in Inr (sort_dedup active,
                if primary_key \<noteq> tenant_key then queue_index_removals s tenant_key stale s2 else s2))))"

end
