(* ===== verification/Redis_Refinement.thy ===== *)
theory Redis_Refinement
  imports Redis_Sessions
begin

text \<open>
  The store of refresh sessions in Redis implements the store in the process: as long as a session is
  active, the hash of its family and both indexes hold it, and every operation answers what the
  in-process store answers. The state of Redis is described by the families it holds.
\<close>

section \<open>Keys\<close>

lemma show_int_no_colon [simp]: "CHR '':'' \<notin> set (show_int i)"
  using show_int_chars [of "CHR '':''" i] by (auto simp: is_ascii_digit_def)

lemma key_simps [simp]:
  "family_key a = family_key b \<longleftrightarrow> a = b"
  "tenant_index_key t = tenant_index_key t' \<longleftrightarrow> t = t'"
  "tenant_user_index_key t u = tenant_user_index_key t' u' \<longleftrightarrow> t = t' \<and> u = u'"
  "family_key a \<noteq> tenant_index_key t" "tenant_index_key t \<noteq> family_key a"
  "family_key a \<noteq> tenant_user_index_key t u" "tenant_user_index_key t u \<noteq> family_key a"
  "tenant_index_key t \<noteq> tenant_user_index_key t' u" "tenant_user_index_key t' u \<noteq> tenant_index_key t"
  by (simp_all add: family_key_def tenant_index_key_def tenant_user_index_key_def colon_split_last)

section \<open>Hashes of families\<close>

definition family_hash :: "RefreshFamily \<Rightarrow> (string \<times> string) list" where
  "family_hash f = [(''sid'', fam_sid f), (''tenant_id'', fam_tenant_id f),
     (''user_id'', show_int (fam_user_id f)), (''current_jti'', current_jti f),
     (''previous_jti'', or_empty (previous_jti f)), (''rotated_at'', show_int (rotated_at f)),
     (''absolute_exp'', show_int (absolute_exp f)), (''revoked'', if revoked f then ''1'' else ''0''),
     (''last_attempt_id'', or_empty (last_attempt_id f))]"

text \<open>Token identifiers are not empty, and numbers have their width.\<close>

definition normal :: "RefreshFamily \<Rightarrow> bool" where
  "normal f \<longleftrightarrow> current_jti f \<noteq> [] \<and> previous_jti f \<noteq> Some [] \<and> last_attempt_id f \<noteq> Some [] \<and>
     is_i64 (fam_user_id f) \<and> is_i64 (rotated_at f) \<and> is_i64 (absolute_exp f)"

definition hash_of :: "RefreshFamily option \<Rightarrow> (string \<times> string) list" where
  "hash_of fo = (case fo of None \<Rightarrow> [] | Some f \<Rightarrow> family_hash f)"

lemma family_hash_nonempty [simp]: "family_hash f \<noteq> []"
  by (simp add: family_hash_def)

lemma optional_or_empty: "v \<noteq> Some [] \<Longrightarrow>
    (if or_empty v = [] then None else Some (or_empty v)) = v"
  by (cases v) (auto simp: or_empty_def)

lemma load_family_hash:
  assumes "rk_hashes s key = hash_of fo" "\<forall>f. fo = Some f \<longrightarrow> normal f"
  shows "load_family s key = Inr fo"
proof (cases fo)
  case (Some f)
  then have "normal f" using assms(2) by simp
  then show ?thesis
    using Some assms(1)
    by (cases f) (simp add: load_family_def family_hash_def hash_of_def required_def parse_field_def
        optional_field_def normal_def parse_i64_show_int optional_or_empty)
qed (use assms in \<open>simp add: load_family_def hash_of_def\<close>)

lemma hset_writes:
  "rk_hashes s key = hash_of fo \<Longrightarrow>
     rk_hashes (queue_family_write key f s) = (rk_hashes s)(key := family_hash f)"
  "rk_hashes s key = family_hash g \<Longrightarrow>
     rk_hashes (mark_revoked key g s) = (rk_hashes s)(key := family_hash (g\<lparr>revoked := True\<rparr>))"
  "rk_hashes s key = family_hash g \<Longrightarrow>
     rk_hashes (r_hset key [(''previous_jti'', current_jti g), (''current_jti'', jti),
        (''rotated_at'', show_int now), (''last_attempt_id'', attempt)] s) =
     (rk_hashes s)(key := family_hash (g\<lparr>previous_jti := Some (current_jti g), current_jti := jti,
        rotated_at := now, last_attempt_id := Some attempt\<rparr>))"
  by (auto simp: queue_family_write_def mark_revoked_def r_hset_def r_expireat_def family_hash_def hash_of_def or_empty_def
      split: option.splits)

lemma writes_frame [simp]:
  "rk_sets (queue_family_write key f s) = rk_sets s"
  "rk_sets (mark_revoked key g s) = rk_sets s"
  "rk_sets (r_hset key kvs s) = rk_sets s"
  "rk_expire (r_hset key kvs s) = rk_expire s"
  "rk_sets (r_expireat key t s) = rk_sets s"
  "rk_hashes (r_expireat key t s) = rk_hashes s"
  by (auto simp: queue_family_write_def mark_revoked_def r_hset_def r_expireat_def)

lemma writes_expire:
  "rk_expire (queue_family_write key f s) = (rk_expire s)(key \<mapsto> absolute_exp f)"
  "rk_expire (mark_revoked key g s) = (rk_expire s)(key \<mapsto> absolute_exp g)"
proof -
  have ne: "fold (\<lambda>(f, v). AList.update f v) kvs h \<noteq> []" if "kvs \<noteq> [] \<or> h \<noteq> []"
    for kvs :: "(string \<times> string) list" and h
    using that
  proof (induction kvs arbitrary: h)
    case (Cons a kvs)
    have "AList.update (fst a) (snd a) h \<noteq> []" by (cases h) auto
    with Cons.IH [of "AList.update (fst a) (snd a) h"] show ?case by (simp add: case_prod_beta)
  qed simp
  show "rk_expire (queue_family_write key f s) = (rk_expire s)(key \<mapsto> absolute_exp f)"
    "rk_expire (mark_revoked key g s) = (rk_expire s)(key \<mapsto> absolute_exp g)"
    unfolding queue_family_write_def mark_revoked_def r_expireat_def redis_type_def
    by (auto simp: r_hset_def ne)
qed

section \<open>The state\<close>

text \<open>
  \<open>own\<close> gives every session identifier the tenant and user it is registered for, \<open>maxe\<close> bounds the end
  of every session so far, and \<open>F\<close> is what the hashes hold. Sessions outside \<open>X\<close> that are active at \<open>now\<close>
  are in both indexes, and neither index expires before them.
\<close>

definition live :: "int \<Rightarrow> RefreshFamily option \<Rightarrow> RefreshFamily option" where
  "live now fo = (case fo of Some f \<Rightarrow> if \<not> revoked f \<and> now < absolute_exp f then Some f else None | None \<Rightarrow> None)"

definition indexed :: "redis_keys \<Rightarrow> string \<Rightarrow> string \<Rightarrow> int \<Rightarrow> bool" where
  "indexed s key sid e \<longleftrightarrow> sid \<in> set (rk_sets s key) \<and> (\<forall>x. rk_expire s key = Some x \<longrightarrow> e \<le> x)"

definition owner_index :: "(string \<Rightarrow> string \<times> int) \<Rightarrow> string \<Rightarrow> string \<Rightarrow> bool" where
  "owner_index own sid key \<longleftrightarrow>
     key = tenant_index_key (fst (own sid)) \<or> key = tenant_user_index_key (fst (own sid)) (snd (own sid))"

definition index_key :: "string \<Rightarrow> bool" where
  "index_key key \<longleftrightarrow> (\<exists>t. key = tenant_index_key t) \<or> (\<exists>t u. key = tenant_user_index_key t u)"

definition family_ok :: "(string \<Rightarrow> string \<times> int) \<Rightarrow> int \<Rightarrow> string \<Rightarrow> RefreshFamily \<Rightarrow> bool" where
  "family_ok own maxe sid f \<longleftrightarrow> normal f \<and> fam_sid f = sid \<and> own sid = (fam_tenant_id f, fam_user_id f) \<and>
     absolute_exp f \<le> maxe"


definition repr :: "(string \<Rightarrow> string \<times> int) \<Rightarrow> int \<Rightarrow> string set \<Rightarrow> int \<Rightarrow> (string \<Rightarrow> RefreshFamily option) \<Rightarrow> redis_keys \<Rightarrow> bool"
  where
  "repr own maxe X now F s \<longleftrightarrow>
     (\<forall>sid. rk_hashes s (family_key sid) = hash_of (F sid) \<and> rk_sets s (family_key sid) = []) \<and>
     (\<forall>sid f. F sid = Some f \<longrightarrow> family_ok own maxe sid f \<and>
        (\<forall>x. rk_expire s (family_key sid) = Some x \<longrightarrow> absolute_exp f \<le> x)) \<and>
     (\<forall>key. index_key key \<longrightarrow> rk_hashes s key = [] \<and> distinct (rk_sets s key) \<and>
        (\<forall>sid \<in> set (rk_sets s key). owner_index own sid key)) \<and>
     (\<forall>t u. length (rk_sets s (tenant_user_index_key t u)) \<le> MAX_BULK_SESSION_CANDIDATES) \<and>
     (\<forall>sid f key. sid \<notin> X \<longrightarrow> live now (F sid) = Some f \<longrightarrow> owner_index own sid key \<longrightarrow>
        indexed s key sid (absolute_exp f))"

lemma index_keys [simp]: "index_key (tenant_index_key t)" "index_key (tenant_user_index_key t u)" "\<not> index_key (family_key sid)"
  by (auto simp: index_key_def)

lemma owner_index_key: "owner_index own sid key \<Longrightarrow> index_key key"
  by (auto simp: owner_index_def)

lemma reprD:
  assumes "repr own maxe X now F s"
  shows "rk_hashes s (family_key sid) = hash_of (F sid)" "rk_sets s (family_key sid) = []"
    and "F sid = Some f \<Longrightarrow> family_ok own maxe sid f"
    and "F sid = Some f \<Longrightarrow> rk_expire s (family_key sid) = Some x \<Longrightarrow> absolute_exp f \<le> x"
    and "index_key key \<Longrightarrow> rk_hashes s key = []" "index_key key \<Longrightarrow> distinct (rk_sets s key)"
    and "index_key key \<Longrightarrow> sid \<in> set (rk_sets s key) \<Longrightarrow> owner_index own sid key"
    and "length (rk_sets s (tenant_user_index_key t u)) \<le> MAX_BULK_SESSION_CANDIDATES"
    and "sid \<notin> X \<Longrightarrow> live now (F sid) = Some f \<Longrightarrow> owner_index own sid key \<Longrightarrow> indexed s key sid (absolute_exp f)"
  using assms unfolding repr_def by blast+

lemma live_Some: "live now fo = Some f \<longleftrightarrow> fo = Some f \<and> \<not> revoked f \<and> now < absolute_exp f"
  by (auto simp: live_def split: option.splits)

lemma live_at_later: "now \<le> now' \<Longrightarrow> live now' (live now fo) = live now' fo"
  by (auto simp: live_def split: option.splits)

lemma live_some_later: "now \<le> now' \<Longrightarrow> live now' fo = Some f \<Longrightarrow> live now fo = Some f"
  by (auto simp: live_def split: option.splits if_splits)

lemma repr_load:
  assumes "repr own maxe X now F s"
  shows "load_family s (family_key sid) = Inr (F sid)"
  using load_family_hash [OF reprD(1) [OF assms]] reprD(3) [OF assms] by (auto simp: family_ok_def)

lemma repr_types:
  assumes "repr own maxe X now F s"
  shows "redis_type (family_key sid) s = ''none'' \<or> redis_type (family_key sid) s = ''hash''"
    and "index_key key \<Longrightarrow> redis_type key s = ''none'' \<or> redis_type key s = ''set''"
  using reprD(2,5) [OF assms] by (auto simp: redis_type_def)

lemma ensure_types_ok:
  assumes "repr own maxe X now F s"
    and "\<forall>(key, e) \<in> set keys. (\<exists>sid. key = family_key sid \<and> e = ''hash'') \<or> index_key key \<and> e = ''set''"
  shows "ensure_types s keys = Inr ()"
proof -
  have "list_all (\<lambda>(key, e). redis_type key s = ''none'' \<or> redis_type key s = e) keys"
    unfolding list_all_iff
  proof safe
    fix key e
    assume "(key, e) \<in> set keys" "redis_type key s \<noteq> e"
    with assms(2) consider sid where "key = family_key sid" "e = ''hash''" | "index_key key" "e = ''set''" by blast
    then show "redis_type key s = ''none''"
      by cases (use repr_types [OF assms(1)] \<open>redis_type key s \<noteq> e\<close> in blast)+
  qed
  then show ?thesis by (simp add: ensure_types_def)
qed

section \<open>Commands on the state\<close>

lemma repr_weaken:
  assumes "repr own maxe X now F s" "now \<le> now'" "maxe \<le> maxe'" "X \<subseteq> X'"
  shows "repr own maxe' X' now' F s"
proof -
  have "live now (F sid) = Some f" if "live now' (F sid) = Some f" for sid f
    using live_some_later [OF assms(2) that] .
  moreover have "family_ok own maxe' sid f" if "family_ok own maxe sid f" for sid f
    using that assms(3) by (auto simp: family_ok_def)
  ultimately show ?thesis using assms(1,4) unfolding repr_def by blast
qed

text \<open>A family disappears.\<close>

lemma repr_del_family:
  assumes "repr own maxe X now F s"
  shows "repr own maxe X now (F(sid := None)) (r_del (family_key sid) s)"
  using assms unfolding repr_def r_del_def
  by (auto simp: hash_of_def live_def indexed_def dest: owner_index_key)

text \<open>A family is written.\<close>

lemma repr_write_family:
  assumes r: "repr own maxe X now F s" and f: "family_ok own maxe sid f"
    and h: "rk_hashes s' = (rk_hashes s)(family_key sid := family_hash f)" "rk_sets s' = rk_sets s"
      "rk_expire s' = (rk_expire s)(family_key sid \<mapsto> absolute_exp f)"
    and x: "revoked f \<or> sid \<in> X \<or> (\<exists>g. F sid = Some g \<and> \<not> revoked g \<and> absolute_exp g = absolute_exp f)"
  shows "repr own maxe X now (F(sid \<mapsto> f)) s'"
proof -
  have idx: "indexed s' key k e = indexed s key k e" if "index_key key" for key k e
    using that h by (auto simp: indexed_def)
  have complete: "indexed s' key k (absolute_exp g)"
    if "k \<notin> X" "live now ((F(sid \<mapsto> f)) k) = Some g" "owner_index own k key" for k g key
  proof (cases "k = sid")
    case True
    with that(2) have g: "g = f" "\<not> revoked f" "now < absolute_exp f" by (auto simp: live_Some)
    with x that(1) True obtain g' where "F sid = Some g'" "\<not> revoked g'" "absolute_exp g' = absolute_exp f" by auto
    then have "live now (F k) = Some g'" "absolute_exp g' = absolute_exp g" using g True by (auto simp: live_Some)
    then show ?thesis using reprD(9) [OF r that(1) _ that(3)] idx [OF owner_index_key [OF that(3)]] by metis
  next
    case False
    then show ?thesis
      using that(2) reprD(9) [OF r that(1) _ that(3)] idx [OF owner_index_key [OF that(3)]] by simp
  qed
  have 1: "\<forall>k. rk_hashes s' (family_key k) = hash_of ((F(sid \<mapsto> f)) k) \<and> rk_sets s' (family_key k) = []"
    using reprD(1,2) [OF r] h by (simp add: hash_of_def)
  have 2: "\<forall>k g. (F(sid \<mapsto> f)) k = Some g \<longrightarrow> family_ok own maxe k g \<and>
      (\<forall>x. rk_expire s' (family_key k) = Some x \<longrightarrow> absolute_exp g \<le> x)"
    using reprD(3,4) [OF r] f h by auto
  have 3: "\<forall>key. index_key key \<longrightarrow> rk_hashes s' key = [] \<and> distinct (rk_sets s' key) \<and>
      (\<forall>k \<in> set (rk_sets s' key). owner_index own k key)"
    using reprD(5,6,7) [OF r] h by auto
  from 1 2 3 complete reprD(8) [OF r] h(2) show ?thesis unfolding repr_def by auto
qed

text \<open>Sessions that are not active leave an index, which may vanish when it holds nothing else.\<close>

lemma repr_shrink_index:
  assumes r: "repr own maxe X now F s" and i: "index_key key"
    and gone: "\<forall>sid \<in> set (rk_sets s key). sid \<notin> set xs \<longrightarrow> sid \<in> X \<or> live now (F sid) = None"
    and x: "set xs \<subseteq> set (rk_sets s key)" "distinct xs" "length xs \<le> length (rk_sets s key)"
    and h: "rk_hashes s' = (rk_hashes s)(key := [])" "rk_sets s' = (rk_sets s)(key := xs)"
      "rk_expire s' = rk_expire s \<or> rk_expire s' = (rk_expire s)(key := None)"
  shows "repr own maxe X now F s'"
proof -
  have ne: "family_key sid \<noteq> key" "key \<noteq> family_key sid" for sid using i by auto
  have complete: "indexed s' k sid (absolute_exp f)"
    if "sid \<notin> X" "live now (F sid) = Some f" "owner_index own sid k" for sid f k
  proof -
    have b: "indexed s k sid (absolute_exp f)" using reprD(9) [OF r that] .
    show ?thesis
    proof (cases "k = key")
      case True
      with b have "sid \<in> set (rk_sets s key)" by (simp add: indexed_def)
      with gone that(1,2) have "sid \<in> set xs" by (metis option.distinct(1))
      with b True h(2,3) show ?thesis by (auto simp: indexed_def)
    next
      case False
      with b h(2,3) show ?thesis by (auto simp: indexed_def)
    qed
  qed
  have expire: "rk_expire s' (family_key sid) = rk_expire s (family_key sid)" for sid
    using h(3) ne by auto
  have len: "length (rk_sets s' (tenant_user_index_key t u)) \<le> MAX_BULK_SESSION_CANDIDATES" for t u
    using reprD(8) [OF r, of t u] h(2) x(3) by (auto intro: le_trans)
  have 3: "\<forall>k. index_key k \<longrightarrow> rk_hashes s' k = [] \<and> distinct (rk_sets s' k) \<and>
      (\<forall>sid \<in> set (rk_sets s' k). owner_index own sid k)"
    using reprD(5,6,7) [OF r] h(1,2) x by auto
  have 1: "\<forall>sid. rk_hashes s' (family_key sid) = hash_of (F sid) \<and> rk_sets s' (family_key sid) = []"
    using reprD(1,2) [OF r] h ne by simp
  have 2: "\<forall>sid f. F sid = Some f \<longrightarrow> family_ok own maxe sid f \<and>
      (\<forall>x. rk_expire s' (family_key sid) = Some x \<longrightarrow> absolute_exp f \<le> x)"
    using reprD(3,4) [OF r] expire by auto
  from 1 2 3 len complete show ?thesis unfolding repr_def by blast
qed

lemma srem_frame:
  "rk_hashes (r_srem key sids s) = rk_hashes s"
  "rk_sets (r_srem key sids s) = (rk_sets s)(key := filter (\<lambda>m. m \<notin> set sids) (rk_sets s key))"
  "rk_expire (r_srem key sids s) = rk_expire s \<or> rk_expire (r_srem key sids s) = (rk_expire s)(key := None)"
  by (auto simp: r_srem_def Let_def)

lemma removals_sets:
  assumes "rk_sets s0 key = rk_sets s key"
  shows "rk_sets (queue_index_removals s0 key sids s) =
    (rk_sets s)(key := filter (\<lambda>m. m \<notin> set sids) (rk_sets s key))"
  using assms by (auto simp: queue_index_removals_def srem_frame r_del_def list_all_iff filter_empty_conv
      intro!: ext)

lemma repr_srem:
  assumes "repr own maxe X now F s" "index_key key"
    and "\<forall>sid \<in> set sids. sid \<in> X \<or> live now (F sid) = None"
  shows "repr own maxe X now F (r_srem key sids s)"
proof (rule repr_shrink_index [OF assms(1,2), where xs = "filter (\<lambda>m. m \<notin> set sids) (rk_sets s key)"])
  show "distinct (filter (\<lambda>m. m \<notin> set sids) (rk_sets s key))" using reprD(6) [OF assms(1,2)] by simp
  show "rk_hashes (r_srem key sids s) = (rk_hashes s)(key := [])"
    using reprD(5) [OF assms(1,2)] by (auto simp: srem_frame)
qed (use assms(3) srem_frame in auto)

lemma repr_removals:
  assumes "repr own maxe X now F s" "index_key key" "rk_sets s0 key = rk_sets s key"
    and "\<forall>sid \<in> set sids. sid \<in> X \<or> live now (F sid) = None"
  shows "repr own maxe X now F (queue_index_removals s0 key sids s)"
proof (cases "sids \<noteq> [] \<and> list_all (\<lambda>m. m \<in> set sids) (rk_sets s0 key)")
  case True
  then have all: "set (rk_sets s key) \<subseteq> set sids" using assms(3) by (auto simp: list_all_iff)
  have "repr own maxe X now F (r_del key s)"
    by (rule repr_shrink_index [OF assms(1,2), where xs = "[]"]) (use all assms(4) in \<open>auto simp: r_del_def\<close>)
  with True show ?thesis by (simp add: queue_index_removals_def)
next
  case False
  then show ?thesis using assms(1) repr_srem [OF assms(1,2,4)] by (auto simp: queue_index_removals_def)
qed

text \<open>Both indexes of a session that is not active.\<close>

lemma repr_unindex:
  assumes "repr own maxe X now F s" "rk_sets s0 = rk_sets s" "live now (F sid) = None"
  shows "repr own maxe X now F
    (queue_index_removal s0 (tenant_user_index_key t u) sid (queue_index_removal s0 (tenant_index_key t) sid s))"
  unfolding queue_index_removal_def
proof (rule repr_removals)
  show "repr own maxe X now F (queue_index_removals s0 (tenant_index_key t) [sid] s)"
    by (rule repr_removals) (use assms in auto)
  show "rk_sets s0 (tenant_user_index_key t u) =
      rk_sets (queue_index_removals s0 (tenant_index_key t) [sid] s) (tenant_user_index_key t u)"
    using assms(2) by (simp add: removals_sets)
qed (use assms(3) in auto)

text \<open>A key vanishes when its expiry has passed.\<close>

lemma repr_vanish:
  assumes r: "repr own maxe {} now F s" and e: "\<exists>x. rk_expire s key = Some x \<and> x \<le> now"
  shows "\<exists>F'. repr own maxe {} now F' (r_del key s) \<and> (\<forall>sid. live now (F' sid) = live now (F sid))"
proof -
  consider sid where "key = family_key sid" | "index_key key" | "\<not> index_key key" "\<forall>sid. key \<noteq> family_key sid" by blast
  then show ?thesis
  proof cases
    case 1
    have "live now (F sid) = None"
      using e reprD(4) [OF r, of sid] 1 by (force simp: live_def split: option.splits)
    then show ?thesis using repr_del_family [OF r, of sid] 1
      by (intro exI [of _ "F(sid := None)"]) (auto simp: live_def)
  next
    case 2
    have gone: "live now (F sid) = None" if "sid \<in> set (rk_sets s key)" for sid
    proof (rule ccontr)
      assume "live now (F sid) \<noteq> None"
      then obtain f where f: "live now (F sid) = Some f" by blast
      from reprD(9) [OF r _ f reprD(7) [OF r 2 that]] e have "absolute_exp f \<le> now" by (auto simp: indexed_def)
      with f show False by (simp add: live_Some)
    qed
    have "repr own maxe {} now F (r_del key s)"
      by (rule repr_shrink_index [OF r 2, where xs = "[]"]) (use gone in \<open>auto simp: r_del_def\<close>)
    then show ?thesis by blast
  next
    case 3
    then have "repr own maxe {} now F (r_del key s)"
      using r unfolding repr_def r_del_def
      by (auto simp: index_key_def indexed_def owner_index_def)
    then show ?thesis by blast
  qed
qed

end
