(* ===== verification/Redis_Equivalence.thy ===== *)
theory Redis_Equivalence
  imports Redis_Refinement
begin

text \<open>
  Every operation on Redis against the same operation of the in-process store: the answers are equal,
  and the active families stay the same on both sides.
\<close>

section \<open>Single operations\<close>

definition agree :: "int \<Rightarrow> (string \<Rightarrow> RefreshFamily option) \<Rightarrow> families \<Rightarrow> bool" where
  "agree now F fs \<longleftrightarrow> (\<forall>k. live now (F k) = live now (map_of fs k))"

lemma agreeD: "agree now F fs \<Longrightarrow> live now (map_of fs k) = live now (F k)"
  by (simp add: agree_def)

lemma agree_upd:
  assumes "agree now F fs" "map_of fs' = (map_of fs)(sid := y)" "live now x = live now y"
  shows "agree now (F(sid := x)) fs'"
  using assms by (simp add: agree_def)

lemma agree_later: "agree now F fs \<Longrightarrow> now \<le> now' \<Longrightarrow> agree now' F fs"
  unfolding agree_def by (metis live_at_later)

text \<open>The outcome of a call that Redis answers with \<open>a\<close> beside the families \<open>fs'\<close> of the process.\<close>

definition outcome ::
  "(string \<Rightarrow> string \<times> int) \<Rightarrow> int \<Rightarrow> int \<Rightarrow> 'a redis_result \<Rightarrow> 'a \<Rightarrow> families \<Rightarrow> bool" where
  "outcome own maxe now r a fs' \<longleftrightarrow>
     (\<exists>F' s'. r = Inr (a, s') \<and> repr own maxe {} now F' s' \<and> agree now F' fs')"

lemma outcomeI: "repr own maxe {} now F' s' \<Longrightarrow> agree now F' fs' \<Longrightarrow> outcome own maxe now (Inr (a, s')) a fs'"
  by (auto simp: outcome_def)

lemma del_family_sets:
  "repr own maxe X now F s \<Longrightarrow> rk_sets (r_del (family_key sid) s) = rk_sets s"
  using reprD(2) [of own maxe X now F s sid] by (auto simp: r_del_def)

lemma types_simps:
  assumes "repr own maxe X now F s"
  shows "ensure_types s [(family_key sid, ''hash'')] = Inr ()"
    and "ensure_types s [(tenant_index_key t, ''set''), (tenant_user_index_key t u, ''set'')] = Inr ()"
    and "ensure_types s [(tenant_user_index_key t u, ''set''), (tenant_index_key t, ''set'')] = Inr ()"
    and "ensure_types s [(tenant_index_key t, ''set''), (tenant_index_key t, ''set'')] = Inr ()"
    and "ensure_types s [(family_key sid, ''hash''), (tenant_index_key t, ''set''), (tenant_user_index_key t u, ''set'')] = Inr ()"
  by (rule ensure_types_ok [OF assms]; simp)+

text \<open>An expired family is deleted and leaves the indexes; a revoked one leaves the indexes.\<close>

lemma repr_drop:
  assumes r: "repr own maxe {} now F s" and d: "live now (F sid) = None"
  shows "repr own maxe {} now (F(sid := None))
    (queue_index_removal s (tenant_user_index_key t u) sid
      (queue_index_removal s (tenant_index_key t) sid (r_del (family_key sid) s)))"
  by (rule repr_unindex [OF repr_del_family [OF r]]) (simp_all add: del_family_sets [OF r] live_def)

lemma repr_revoke:
  assumes r: "repr own maxe {} now F s" and f: "F sid = Some f"
  shows "repr own maxe {} now (F(sid \<mapsto> f\<lparr>revoked := True\<rparr>))
    (queue_index_removal s (tenant_user_index_key t u) sid
      (queue_index_removal s (tenant_index_key t) sid (mark_revoked (family_key sid) f s)))"
proof -
  have h: "rk_hashes s (family_key sid) = family_hash f" using reprD(1) [OF r, of sid] f by (simp add: hash_of_def)
  have ok: "family_ok own maxe sid (f\<lparr>revoked := True\<rparr>)"
    using reprD(3) [OF r f] by (simp add: family_ok_def normal_def)
  have "repr own maxe {} now (F(sid \<mapsto> f\<lparr>revoked := True\<rparr>)) (mark_revoked (family_key sid) f s)"
    by (rule repr_write_family [OF r ok]) (simp_all add: hset_writes(2) [OF h] writes_expire)
  then show ?thesis by (rule repr_unindex) (simp_all add: live_def)
qed

lemma mem_rotate_dead:
  assumes "live now (map_of fs sid) = None"
  obtains y where "fst (mem_rotate sid p n now a fs) = MissingOrRevoked"
    "map_of (snd (mem_rotate sid p n now a fs)) = (map_of fs)(sid := y)" "live now y = None"
proof (cases "map_of fs sid")
  case None
  then show ?thesis using that [of None] by (simp add: mem_rotate_def live_def fun_upd_idem)
next
  case (Some f)
  with assms have "revoked f \<or> absolute_exp f \<le> now" by (auto simp: live_def not_le split: if_splits)
  with Some show ?thesis using that [of None] by (simp add: mem_rotate_def family_store_simps live_def)
qed

lemma rotate_equal:
  assumes r: "repr own maxe {} now F s" and g: "agree now F fs"
    and n: "n \<noteq> []" "a \<noteq> []" "is_i64 now"
  shows "outcome own maxe now (redis_rotate sid p n now a s) (fst (mem_rotate sid p n now a fs))
    (snd (mem_rotate sid p n now a fs))"
proof (cases "live now (F sid)")
  case None
  then have "live now (map_of fs sid) = None" using agreeD [OF g] by simp
  from mem_rotate_dead [OF this] obtain y where m: "fst (mem_rotate sid p n now a fs) = MissingOrRevoked"
    "map_of (snd (mem_rotate sid p n now a fs)) = (map_of fs)(sid := y)" "live now y = None" by metis
  have same: "agree now F (snd (mem_rotate sid p n now a fs))"
    using agree_upd [OF g m(2), of "F sid"] m(3) None by simp
  have gone: "agree now (F(sid := None)) (snd (mem_rotate sid p n now a fs))"
    using agree_upd [OF g m(2), of None] m(3) by (simp add: live_def)
  show ?thesis
  proof (cases "F sid")
    case None
    then show ?thesis unfolding m(1)
      using outcomeI [OF r same] by (simp add: redis_rotate_def types_simps [OF r] repr_load [OF r])
  next
    case (Some f)
    have sid: "fam_sid f = sid" using reprD(3) [OF r Some] by (simp add: family_ok_def)
    show ?thesis unfolding m(1)
      using outcomeI [OF r same] outcomeI [OF repr_drop [OF r None] gone] Some None
      by (auto simp: redis_rotate_def Let_def types_simps [OF r] repr_load [OF r] sid live_Some live_def)
  qed
next
  case (Some f)
  then have f: "F sid = Some f" "\<not> revoked f" "now < absolute_exp f" by (auto simp: live_Some)
  have mem: "map_of fs sid = Some f" using agreeD [OF g, of sid] Some by (simp add: live_Some)
  have ok: "family_ok own maxe sid f" by (rule reprD(3) [OF r f(1)])
  then have sid: "fam_sid f = sid" by (simp add: family_ok_def)
  have h: "rk_hashes s (family_key sid) = family_hash f" using reprD(1) [OF r, of sid] f by (simp add: hash_of_def)
  let ?f = "f\<lparr>previous_jti := Some (current_jti f), current_jti := n, rotated_at := now, last_attempt_id := Some a\<rparr>"
  let ?s = "r_expireat (family_key sid) (absolute_exp f) (r_hset (family_key sid)
      [(''previous_jti'', current_jti f), (''current_jti'', n), (''rotated_at'', show_int now), (''last_attempt_id'', a)] s)"
  have ok': "family_ok own maxe sid ?f" using ok n by (simp add: family_ok_def normal_def)
  have hash: "rk_hashes ?s = (rk_hashes s)(family_key sid := family_hash ?f)"
    using hset_writes(3) [OF h, of n now a] by simp
  have expire: "rk_expire ?s = (rk_expire s)(family_key sid \<mapsto> absolute_exp ?f)"
    using arg_cong [OF hset_writes(3) [OF h, of n now a], of "\<lambda>h. h (family_key sid)"]
    by (simp add: r_expireat_def redis_type_def)
  have rot: "repr own maxe {} now (F(sid \<mapsto> ?f)) ?s"
    by (rule repr_write_family [OF r ok' hash _ expire]) (use f in auto)
  note rev = repr_revoke [OF r f(1), of "fam_tenant_id f" "fam_user_id f"]
  have a1: "agree now (F(sid \<mapsto> ?f)) (AList.update sid ?f fs)"
    by (rule agree_upd [OF g]) (simp_all add: family_store_simps)
  have a2: "agree now (F(sid \<mapsto> f\<lparr>revoked := True\<rparr>)) (AList.update sid (f\<lparr>revoked := True\<rparr>) fs)"
    by (rule agree_upd [OF g]) (simp_all add: family_store_simps)
  show ?thesis
    using outcomeI [OF r g] outcomeI [OF rot a1] outcomeI [OF rev a2] f mem
    by (auto simp: redis_rotate_def mem_rotate_def Let_def types_simps [OF r] repr_load [OF r] sid)
qed

text \<open>Revocations of one session.\<close>

lemma owned_dead:
  assumes r: "repr own maxe {} now F s" and d: "live now (F sid) = None"
  shows "\<exists>c F' s'. redis_revoke_owned t u sid now s = Inr (c, s') \<and> repr own maxe {} now F' s' \<and>
    (\<forall>k. live now (F' k) = live now (F k))"
proof (cases "F sid")
  case None
  with r show ?thesis by (auto simp: redis_revoke_owned_def types_simps [OF r] repr_load [OF r])
next
  case (Some f)
  have l: "\<forall>k. live now ((F(sid := None)) k) = live now (F k)"
    "\<forall>k. live now ((F(sid \<mapsto> f\<lparr>revoked := True\<rparr>)) k) = live now (F k)"
    using d by (auto simp: live_def)
  note unindexed = repr_unindex [OF r refl d, of "fam_tenant_id f" "fam_user_id f"]
  note dropped = repr_drop [OF r d, of "fam_tenant_id f" "fam_user_id f"]
  note revoked = repr_revoke [OF r Some, of "fam_tenant_id f" "fam_user_id f"]
  show ?thesis
    using r unindexed dropped revoked l
    by (cases "absolute_exp f \<le> now"; cases "revoked f \<and> u \<noteq> None")
      (auto simp: redis_revoke_owned_def Let_def types_simps [OF r] repr_load [OF r] Some split: option.splits)
qed

lemma owned_live:
  assumes r: "repr own maxe {} now F s" and l: "live now (F sid) = Some f"
  shows "if (case t of Some v \<Rightarrow> v \<noteq> fam_tenant_id f | None \<Rightarrow> False) \<or> (case u of Some v \<Rightarrow> v \<noteq> fam_user_id f | None \<Rightarrow> False)
    then redis_revoke_owned t u sid now s = Inr (0, s)
    else \<exists>s'. redis_revoke_owned t u sid now s = Inr (1, s') \<and>
      repr own maxe {} now (F(sid \<mapsto> f\<lparr>revoked := True\<rparr>)) s'"
proof -
  have f: "F sid = Some f" "\<not> revoked f" "now < absolute_exp f" using l by (auto simp: live_Some)
  show ?thesis
    using repr_revoke [OF r f(1), of "fam_tenant_id f" "fam_user_id f"] f
    by (auto simp: redis_revoke_owned_def Let_def types_simps [OF r] repr_load [OF r])
qed

text \<open>The in-process store on a session that is not active, and on one that is.\<close>

lemma mem_revoke_dead:
  assumes "live now (map_of fs sid) = None"
  shows "\<exists>y. map_of (snd (mem_revoke sid now fs)) = (map_of fs)(sid := y) \<and> live now y = None"
    and "\<exists>y. map_of (snd (mem_revoke_for_tenant t sid now fs)) = (map_of fs)(sid := y) \<and> live now y = None"
    and "\<exists>y. map_of (snd (mem_revoke_for_user t u sid now fs)) = (map_of fs)(sid := y) \<and> live now y = None"
  using assms
  by (cases "map_of fs sid"; force simp: mem_revoke_def mem_revoke_for_tenant_def mem_revoke_for_user_def
      family_store_simps live_def fun_upd_idem)+

lemma agree_same:
  assumes "agree now F fs" "\<forall>k. live now (F' k) = live now (F k)"
    and "\<exists>y. map_of fs' = (map_of fs)(sid := y) \<and> live now y = None" "live now (F sid) = None"
  shows "agree now F' fs'"
  using assms by (auto simp: agree_def)

lemma revoked_agrees:
  "agree now F fs \<Longrightarrow> agree now (F(sid \<mapsto> f\<lparr>revoked := True\<rparr>)) (AList.update sid (f\<lparr>revoked := True\<rparr>) fs)"
  by (rule agree_upd) (simp_all add: family_store_simps)

lemma owned_dead_outcome:
  assumes r: "repr own maxe {} now F s" and g: "agree now F fs" and d: "live now (F sid) = None"
    and y: "\<exists>y. map_of fs' = (map_of fs)(sid := y) \<and> live now y = None"
  shows "\<exists>b. outcome own maxe now (bind_result (redis_revoke_owned t u sid now s) (\<lambda>(c, s'). Inr (h c, s'))) b fs'"
proof -
  from owned_dead [OF r d] obtain c F' s' where o: "redis_revoke_owned t u sid now s = Inr (c, s')"
    "repr own maxe {} now F' s'" "\<forall>k. live now (F' k) = live now (F k)" by blast
  from agree_same [OF g o(3) y d] o(1,2) show ?thesis by (auto intro: outcomeI)
qed

lemma revoke_equal:
  assumes r: "repr own maxe {} now F s" and g: "agree now F fs"
  shows "\<exists>b. outcome own maxe now (redis_revoke sid now s) b (snd (mem_revoke sid now fs)) \<and>
      (live now (map_of fs sid) \<noteq> None \<longrightarrow> b = fst (mem_revoke sid now fs))"
    and "\<exists>b. outcome own maxe now (redis_revoke_for_tenant t sid now s) b (snd (mem_revoke_for_tenant t sid now fs)) \<and>
      (live now (map_of fs sid) \<noteq> None \<longrightarrow> b = fst (mem_revoke_for_tenant t sid now fs))"
    and "\<exists>b. outcome own maxe now (redis_revoke_for_user t u sid now s) b (snd (mem_revoke_for_user t u sid now fs)) \<and>
      (live now (map_of fs sid) \<noteq> None \<longrightarrow> b = fst (mem_revoke_for_user t u sid now fs))"
proof -
  note defs = redis_revoke_def redis_revoke_for_tenant_def redis_revoke_for_user_def
  have "(\<exists>b. outcome own maxe now (redis_revoke sid now s) b (snd (mem_revoke sid now fs)) \<and>
        (live now (map_of fs sid) \<noteq> None \<longrightarrow> b = fst (mem_revoke sid now fs))) \<and>
      (\<exists>b. outcome own maxe now (redis_revoke_for_tenant t sid now s) b (snd (mem_revoke_for_tenant t sid now fs)) \<and>
        (live now (map_of fs sid) \<noteq> None \<longrightarrow> b = fst (mem_revoke_for_tenant t sid now fs))) \<and>
      (\<exists>b. outcome own maxe now (redis_revoke_for_user t u sid now s) b (snd (mem_revoke_for_user t u sid now fs)) \<and>
        (live now (map_of fs sid) \<noteq> None \<longrightarrow> b = fst (mem_revoke_for_user t u sid now fs)))"
  proof (cases "live now (F sid)")
    case None
    then have d: "live now (map_of fs sid) = None" using agreeD [OF g] by simp
    note o = owned_dead_outcome [OF r g None]
    have "\<exists>b. outcome own maxe now (redis_revoke sid now s) b (snd (mem_revoke sid now fs))"
      unfolding defs by (rule o [OF mem_revoke_dead(1) [OF d]])
    moreover have "\<exists>b. outcome own maxe now (redis_revoke_for_tenant t sid now s) b (snd (mem_revoke_for_tenant t sid now fs))"
      unfolding defs by (rule o [OF mem_revoke_dead(2) [OF d]])
    moreover have "\<exists>b. outcome own maxe now (redis_revoke_for_user t u sid now s) b (snd (mem_revoke_for_user t u sid now fs))"
      unfolding defs by (rule o [OF mem_revoke_dead(3) [OF d]])
    ultimately show ?thesis using d by simp
  next
    case (Some f)
    have mem: "map_of fs sid = Some f" "\<not> revoked f" "now < absolute_exp f"
      using agreeD [OF g, of sid] Some by (simp_all add: live_Some)
    show ?thesis
      using owned_live [OF r Some, of None None] owned_live [OF r Some, of "Some t" None]
        owned_live [OF r Some, of "Some t" "Some u"] mem r g revoked_agrees [OF g, of sid f]
      unfolding defs
      by (auto simp: mem_revoke_def mem_revoke_for_tenant_def mem_revoke_for_user_def outcome_def split: if_splits)
  qed
  then show "\<exists>b. outcome own maxe now (redis_revoke sid now s) b (snd (mem_revoke sid now fs)) \<and>
      (live now (map_of fs sid) \<noteq> None \<longrightarrow> b = fst (mem_revoke sid now fs))"
    "\<exists>b. outcome own maxe now (redis_revoke_for_tenant t sid now s) b (snd (mem_revoke_for_tenant t sid now fs)) \<and>
      (live now (map_of fs sid) \<noteq> None \<longrightarrow> b = fst (mem_revoke_for_tenant t sid now fs))"
    "\<exists>b. outcome own maxe now (redis_revoke_for_user t u sid now s) b (snd (mem_revoke_for_user t u sid now fs)) \<and>
      (live now (map_of fs sid) \<noteq> None \<longrightarrow> b = fst (mem_revoke_for_user t u sid now fs))" by blast+
qed

text \<open>The look-ups of one session.\<close>

lemma identity_equal:
  assumes r: "repr own maxe {} now F s" and g: "agree now F fs"
  shows "outcome own maxe now (redis_identity sid now s) (fst (mem_identity sid now fs)) (snd (mem_identity sid now fs))"
proof (cases "live now (F sid)")
  case None
  then have d: "live now (map_of fs sid) = None" using agreeD [OF g] by simp
  have m1: "fst (mem_identity sid now fs) = None"
    using d by (cases "map_of fs sid") (auto simp: mem_identity_def live_def split: if_splits)
  have m2: "\<exists>y. map_of (snd (mem_identity sid now fs)) = (map_of fs)(sid := y) \<and> live now y = None"
    using d by (cases "map_of fs sid"; force simp: mem_identity_def family_store_simps live_def fun_upd_idem)
  show ?thesis
  proof (cases "F sid")
    case F: None
    have "agree now F (snd (mem_identity sid now fs))" by (rule agree_same [OF g _ m2 None]) simp
    then show ?thesis
      using outcomeI [OF r] F by (simp add: redis_identity_def types_simps [OF r] repr_load [OF r] m1)
  next
    case (Some f)
    have sid: "fam_sid f = sid" using reprD(3) [OF r Some] by (simp add: family_ok_def)
    have a: "agree now F (snd (mem_identity sid now fs))" "agree now (F(sid := None)) (snd (mem_identity sid now fs))"
      by (rule agree_same [OF g _ m2 None]; use None in \<open>simp add: live_def\<close>)+
    show ?thesis
      using outcomeI [OF repr_unindex [OF r refl None] a(1)] outcomeI [OF repr_drop [OF r None] a(2)] None
      by (auto simp: redis_identity_def Let_def types_simps [OF r] repr_load [OF r] m1 Some sid live_def)
  qed
next
  case (Some f)
  then have f: "F sid = Some f" "\<not> revoked f" "now < absolute_exp f" by (auto simp: live_Some)
  have "map_of fs sid = Some f" using agreeD [OF g, of sid] Some by (simp add: live_Some)
  with f show ?thesis
    using outcomeI [OF r g] by (simp add: redis_identity_def mem_identity_def types_simps [OF r] repr_load [OF r])
qed

lemma is_active_equal:
  assumes r: "repr own maxe {} now F s" and g: "agree now F fs"
  shows "outcome own maxe now (redis_is_active_for_identity sid t u now s)
    (fst (mem_is_active_for_identity sid t u now fs)) (snd (mem_is_active_for_identity sid t u now fs))"
proof -
  have m: "snd (mem_is_active_for_identity sid t u now fs) = snd (mem_identity sid now fs)"
    "fst (mem_is_active_for_identity sid t u now fs) =
      (case fst (mem_identity sid now fs) of Some x \<Rightarrow> rsi_tenant_id x = t \<and> rsi_user_id x = u | None \<Rightarrow> False)"
    by (auto simp: mem_is_active_for_identity_def mem_identity_def active_for_def split: option.splits)
  from identity_equal [OF r g, of sid] show ?thesis
    unfolding outcome_def redis_is_active_for_identity_def m by auto
qed

section \<open>Listings\<close>

lemma repr_del_families:
  "repr own maxe X now F s \<Longrightarrow>
     repr own maxe X now (\<lambda>k. if k \<in> set sids then None else F k) (fold (\<lambda>sid. r_del (family_key sid)) sids s) \<and>
     rk_sets (fold (\<lambda>sid. r_del (family_key sid)) sids s) = rk_sets s"
proof (induction sids arbitrary: F s)
  case (Cons sid sids)
  have F: "(\<lambda>k. if k \<in> set sids then None else (F(sid := None)) k) = (\<lambda>k. if k \<in> set (sid # sids) then None else F k)"
    by auto
  from Cons.IH [OF repr_del_family [OF Cons.prems, of sid]] show ?case
    unfolding F by (simp add: del_family_sets [OF Cons.prems])
qed simp

definition listed :: "string \<Rightarrow> int option \<Rightarrow> RefreshFamily option \<Rightarrow> bool" where
  "listed t u fo = (case fo of None \<Rightarrow> False
     | Some f \<Rightarrow> fam_tenant_id f = t \<and> (case u of None \<Rightarrow> True | Some v \<Rightarrow> fam_user_id f = v))"

lemma listed_live:
  "listed t u (live now fo) \<longleftrightarrow>
     (\<exists>f. fo = Some f \<and> now < absolute_exp f \<and> \<not> revoked f \<and> listed t u (Some f))"
  by (cases fo) (auto simp: listed_def live_def)

definition lapsed :: "int \<Rightarrow> RefreshFamily option \<Rightarrow> bool" where
  "lapsed now fo = (case fo of None \<Rightarrow> False | Some f \<Rightarrow> absolute_exp f \<le> now)"

lemma list_loop_result:
  assumes r: "repr own maxe X now F s0"
  shows "list_loop s0 t u now sids (act, st, s) =
    Inr (act @ filter (\<lambda>k. listed t u (live now (F k))) sids,
         st @ filter (\<lambda>k. \<not> listed t u (live now (F k))) sids,
         fold (\<lambda>sid. r_del (family_key sid)) (filter (\<lambda>k. lapsed now (F k)) sids) s)"
proof (induction sids arbitrary: act st s)
  case (Cons sid sids)
  have a: "(case F sid of None \<Rightarrow> False | Some f \<Rightarrow>
        fam_tenant_id f = t \<and> (case u of None \<Rightarrow> True | Some v \<Rightarrow> fam_user_id f = v) \<and>
        \<not> revoked f \<and> now < absolute_exp f) = listed t u (live now (F sid))"
    by (cases "F sid") (auto simp: listed_def live_def)
  have b: "(case F sid of None \<Rightarrow> False | Some f \<Rightarrow> absolute_exp f \<le> now) = lapsed now (F sid)"
    by (simp add: lapsed_def)
  have c: "\<not> lapsed now (F sid)" if "listed t u (live now (F sid))"
    using that by (cases "F sid") (auto simp: listed_def lapsed_def live_def)
  show ?case
    using c by (cases "listed t u (live now (F sid))"; cases "lapsed now (F sid)")
      (simp_all add: types_simps [OF r] repr_load [OF r] a b Cons.IH)
qed simp

lemma owner_matches:
  assumes "repr own maxe X now F s" "F k = Some f"
  shows "owner_index own k (tenant_index_key t) \<longleftrightarrow> fam_tenant_id f = t"
    and "owner_index own k (tenant_user_index_key t u) \<longleftrightarrow> fam_tenant_id f = t \<and> fam_user_id f = u"
  using reprD(3) [OF assms] by (auto simp: owner_index_def family_ok_def)

definition primary_key :: "string \<Rightarrow> int option \<Rightarrow> string" where
  "primary_key t u = (case u of Some v \<Rightarrow> tenant_user_index_key t v | None \<Rightarrow> tenant_index_key t)"

lemma primary_index [simp]: "index_key (primary_key t u)"
  by (simp add: primary_key_def split: option.splits)

text \<open>An index holds exactly its active sessions beside inactive ones.\<close>

lemma index_members:
  assumes r: "repr own maxe {} now F s"
  shows "set (filter (\<lambda>k. listed t u (live now (F k))) (rk_sets s (primary_key t u))) = {k. listed t u (live now (F k))}"
    and "k \<in> set (rk_sets s (primary_key t u)) \<Longrightarrow> \<not> listed t u (live now (F k)) \<Longrightarrow> live now (F k) = None"
proof -
  have o: "owner_index own k (primary_key t u) \<longleftrightarrow> listed t u (Some f)" if "F k = Some f" for k f
    using owner_matches [OF r that] by (auto simp: primary_key_def listed_def split: option.splits)
  have "k \<in> set (rk_sets s (primary_key t u))" if "listed t u (live now (F k))" for k
  proof -
    note l = that
    obtain f where f: "live now (F k) = Some f" using l by (cases "live now (F k)") (auto simp: listed_def)
    have "listed t u (Some f)" using l unfolding f .
    moreover have "F k = Some f" using f by (simp add: live_Some)
    ultimately have "owner_index own k (primary_key t u)" using o by simp
    from reprD(9) [OF r _ f this] show ?thesis by (simp add: indexed_def)
  qed
  then show "set (filter (\<lambda>k. listed t u (live now (F k))) (rk_sets s (primary_key t u))) = {k. listed t u (live now (F k))}"
    by auto
  show "live now (F k) = None" if "k \<in> set (rk_sets s (primary_key t u))" "\<not> listed t u (live now (F k))"
  proof (cases "live now (F k)")
    case (Some f)
    then have "F k = Some f" by (simp add: live_Some)
    from o [OF this] reprD(7) [OF r _ that(1)] have "listed t u (Some f)" by simp
    with that(2) Some show ?thesis by simp
  qed
qed

lemma sort_dedup_unique: "distinct ys \<Longrightarrow> set xs = set ys \<Longrightarrow> sort_dedup xs = sort ys"
  by (rule sorted_distinct_set_unique) simp_all

lemma sids_equal:
  assumes r: "repr own maxe {} now F s" and g: "agree now F fs" and wf: "fam_wf fs"
    and P: "P = (\<lambda>f. listed t u (Some f))"
  shows "outcome own maxe now (redis_session_sids t u now s) (fst (mem_session_sids now P fs))
    (snd (mem_session_sids now P fs))"
proof -
  have awf: "alist_wf fs" using wf by (simp add: fam_wf_def)
  let ?key = "primary_key t u"
  define act where "act = filter (\<lambda>k. listed t u (live now (F k))) (rk_sets s ?key)"
  define st where "st = filter (\<lambda>k. \<not> listed t u (live now (F k))) (rk_sets s ?key)"
  define lap where "lap = filter (\<lambda>k. lapsed now (F k)) (rk_sets s ?key)"
  define s1 where "s1 = fold (\<lambda>sid. r_del (family_key sid)) lap s"
  define F1 where "F1 = (\<lambda>k. if k \<in> set lap then None else F k)"
  have loop: "list_loop s t u now (rk_sets s ?key) ([], [], s) = Inr (act, st, s1)"
    using list_loop_result [OF r, of t u "rk_sets s ?key" "[]" "[]" s]
    by (simp add: act_def st_def s1_def lap_def)
  have "distinct (map fst (filter (\<lambda>(k, f). \<not> absolute_exp f \<le> now \<and> \<not> revoked f \<and> P f) fs))"
    using awf by (simp add: alist_wf_def distinct_map_filter)
  moreover have "set act = {k. listed t u (live now (F k))}" unfolding act_def by (rule index_members(1) [OF r])
  then have "set act = set (fst (mem_session_sids now P fs))"
    unfolding sids_set [OF awf] P agreeD [OF g, symmetric] listed_live .
  ultimately have answer: "sort_dedup act = fst (mem_session_sids now P fs)"
    by (simp add: sort_dedup_unique mem_session_sids_def Let_def)
  have after: "agree now F (snd (mem_session_sids now P fs))"
  proof -
    have "live now (map_of (snd (mem_session_sids now P fs)) k) = live now (map_of fs k)" for k
      using alist.entries_get [OF awf, of k]
      by (auto simp: mem_session_sids_def Let_def alist.get_del_all live_def split: option.splits)
    with g show ?thesis by (simp add: agree_def)
  qed
  have r1: "repr own maxe {} now F1 s1" "rk_sets s1 = rk_sets s"
    using repr_del_families [OF r, of lap] by (simp_all add: F1_def s1_def)
  have live1: "live now (F1 k) = live now (F k)" for k
    by (auto simp: F1_def lap_def lapsed_def live_def split: option.splits)
  then have g1: "agree now F1 (snd (mem_session_sids now P fs))" using after by (simp add: agree_def)
  have dead: "\<forall>k \<in> set st. k \<in> {} \<or> live now (F1 k) = None"
    using index_members(2) [OF r] by (auto simp: st_def live1)
  have r2: "repr own maxe {} now F1 (queue_index_removals s ?key st s1)"
    by (rule repr_removals [OF r1(1) _ _ dead]) (simp_all add: r1(2))
  have r3: "repr own maxe {} now F1 (queue_index_removals s (tenant_index_key t) st (queue_index_removals s ?key st s1))"
    if "?key \<noteq> tenant_index_key t"
    by (rule repr_removals [OF r2 _ _ dead]) (use that r1(2) in \<open>simp_all add: removals_sets\<close>)
  have types: "ensure_types s [(?key, ''set''), (tenant_index_key t, ''set'')] = Inr ()"
    by (rule ensure_types_ok [OF r]) simp
  have key: "(case u of None \<Rightarrow> tenant_index_key t | Some v \<Rightarrow> tenant_user_index_key t v) = ?key"
    by (simp add: primary_key_def split: option.splits)
  have step: "redis_session_sids t u now s = (if st = [] then Inr (sort_dedup act, s) else Inr (sort_dedup act,
      if ?key \<noteq> tenant_index_key t
      then queue_index_removals s (tenant_index_key t) st (queue_index_removals s ?key st s1)
      else queue_index_removals s ?key st s1))"
    by (simp add: redis_session_sids_def Let_def key types loop)
  show ?thesis
    unfolding answer [symmetric] step
    using outcomeI [OF r after, of "sort_dedup act"] outcomeI [OF r2 g1, of "sort_dedup act"] outcomeI [OF r3 g1, of "sort_dedup act"]
    by (cases "?key = tenant_index_key t") simp_all
qed

section \<open>Bulk revocation\<close>

lemma repr_mark:
  assumes r: "repr own maxe {} now F s" and f: "F sid = Some f"
  shows "repr own maxe {} now (F(sid \<mapsto> f\<lparr>revoked := True\<rparr>)) (mark_revoked (family_key sid) f s)"
proof -
  have h: "rk_hashes s (family_key sid) = family_hash f" using reprD(1) [OF r, of sid] f by (simp add: hash_of_def)
  have ok: "family_ok own maxe sid (f\<lparr>revoked := True\<rparr>)"
    using reprD(3) [OF r f] by (simp add: family_ok_def normal_def)
  show ?thesis by (rule repr_write_family [OF r ok]) (simp_all add: hset_writes(2) [OF h] writes_expire)
qed

definition revoked_in :: "string \<Rightarrow> int \<Rightarrow> int \<Rightarrow> string list \<Rightarrow> (string \<Rightarrow> RefreshFamily option) \<Rightarrow>
    (string \<Rightarrow> RefreshFamily option) \<Rightarrow> (string \<Rightarrow> RefreshFamily option) \<Rightarrow> bool" where
  "revoked_in t u now sids F G G' \<longleftrightarrow>
     (\<forall>k. live now (G' k) = (if k \<in> set sids \<and> listed t (Some u) (F k) then None else live now (G k)))"

lemma revoked_in_Cons:
  assumes "revoked_in t u now sids F G1 G'"
    and "\<forall>k. k \<noteq> sid \<longrightarrow> G1 k = G k" "sid \<notin> set sids"
    and "live now (G1 sid) = (if listed t (Some u) (F sid) then None else live now (G sid))"
  shows "revoked_in t u now (sid # sids) F G G'"
  using assms unfolding revoked_in_def by (metis set_ConsD list.set_intros)

lemma redis_revoke_loop_result:
  assumes r0: "repr own maxe X now F s0"
  shows "repr own maxe {} now G s \<Longrightarrow> \<forall>k \<in> set sids. G k = F k \<Longrightarrow> distinct sids \<Longrightarrow>
    \<exists>G' s'. redis_revoke_loop s0 t u now sids (n, owned, s) =
        Inr (n + length (filter (\<lambda>k. listed t (Some u) (live now (F k))) sids),
             owned @ filter (\<lambda>k. listed t (Some u) (F k)) sids, s') \<and>
      repr own maxe {} now G' s' \<and> rk_sets s' = rk_sets s \<and> revoked_in t u now sids F G G'"
proof (induction sids arbitrary: G s n owned)
  case Nil
  then show ?case by (auto simp: revoked_in_def)
next
  case (Cons sid sids)
  have G: "G sid = F sid" and rest: "distinct sids" "sid \<notin> set sids" using Cons.prems by simp_all
  have keep: "\<forall>k \<in> set sids. G1 k = F k" if "\<forall>k. k \<noteq> sid \<longrightarrow> G1 k = G k" for G1
    using that Cons.prems(2) rest(2) by auto
  note step = types_simps(1) [OF r0] repr_load [OF r0]
  have use: ?case
    if s1: "repr own maxe {} now G1 s1" "rk_sets s1 = rk_sets s" "\<forall>k. k \<noteq> sid \<longrightarrow> G1 k = G k"
      and l: "live now (G1 sid) = (if listed t (Some u) (F sid) then None else live now (G sid))"
      and eq: "redis_revoke_loop s0 t u now (sid # sids) (n, owned, s) = redis_revoke_loop s0 t u now sids
        (n + (if listed t (Some u) (live now (F sid)) then 1 else 0), owned @ (if listed t (Some u) (F sid) then [sid] else []), s1)"
    for G1 s1
  proof -
    from Cons.IH [OF s1(1) keep [OF s1(3)] rest(1)] obtain G' s' where
      "redis_revoke_loop s0 t u now sids
        (n + (if listed t (Some u) (live now (F sid)) then 1 else 0), owned @ (if listed t (Some u) (F sid) then [sid] else []), s1) =
        Inr (n + (if listed t (Some u) (live now (F sid)) then 1 else 0) + length (filter (\<lambda>k. listed t (Some u) (live now (F k))) sids),
             (owned @ (if listed t (Some u) (F sid) then [sid] else [])) @ filter (\<lambda>k. listed t (Some u) (F k)) sids, s')"
      "repr own maxe {} now G' s'" "rk_sets s' = rk_sets s1" "revoked_in t u now sids F G1 G'" by blast
    with eq s1(2) revoked_in_Cons [OF this(4) s1(3) rest(2) l] show ?thesis
      by (intro exI [of _ G'] exI [of _ s']) auto
  qed
  show ?case
  proof (cases "F sid")
    case None
    show ?thesis by (rule use [OF Cons.prems(1)]) (use None G in \<open>simp_all add: step listed_def live_def\<close>)
  next
    case (Some f)
    consider "\<not> listed t (Some u) (Some f)" | "listed t (Some u) (Some f)" "absolute_exp f \<le> now"
      | "listed t (Some u) (Some f)" "now < absolute_exp f" "\<not> revoked f"
      | "listed t (Some u) (Some f)" "now < absolute_exp f" "revoked f" by linarith
    then show ?thesis
    proof cases
      case 1
      show ?thesis by (rule use [OF Cons.prems(1)]) (use 1 Some G in \<open>auto simp: step listed_def live_def\<close>)
    next
      case 2
      show ?thesis
        by (rule use [OF repr_del_family [OF Cons.prems(1), of sid]])
          (use 2 Some G del_family_sets [OF Cons.prems(1), of sid] in \<open>auto simp: step listed_def live_def\<close>)
    next
      case 3
      show ?thesis
        by (rule use [OF repr_mark [OF Cons.prems(1), of sid f]])
          (use 3 Some G in \<open>auto simp: step listed_def live_def\<close>)
    next
      case 4
      show ?thesis by (rule use [OF Cons.prems(1)]) (use 4 Some G in \<open>auto simp: step listed_def live_def\<close>)
    qed
  qed
qed

text \<open>The sessions a bulk revocation ends, seen from either side.\<close>

lemma revoke_others_sids_live:
  assumes "agree now F fs"
  shows "revoke_others_sids t u cur now fs = {k. k \<noteq> cur \<and> listed t (Some u) (live now (F k))}"
  unfolding revoke_others_sids_def agreeD [OF assms, symmetric] listed_live
  by (auto simp: active_for_def listed_def)

lemma mem_revoke_others_total:
  assumes wf: "fam_wf fs" and few: "card (revoke_others_sids t u cur now fs) \<le> MAX_BULK_SESSION_CANDIDATES"
  shows "\<exists>n fs'. mem_revoke_other_sessions_for_user t u cur now fs = Inr (n, fs')"
proof -
  let ?sids = "sort_dedup (map (\<lambda>(k, f). fam_sid f) (filter (\<lambda>(k, f). active_for t u now f \<and> fam_sid f \<noteq> cur) fs))"
  have "set ?sids = revoke_others_sids t u cur now fs"
    using wf alist.entries_get [of fs] by (force simp: revoke_others_sids_def fam_wf_def)
  then have "length ?sids \<le> MAX_BULK_SESSION_CANDIDATES" using few distinct_card [of ?sids] by simp
  then show ?thesis
    by (auto simp: mem_revoke_other_sessions_for_user_def Let_def split: prod.splits)
qed

lemma revoke_others_equal:
  assumes r: "repr own maxe {} now F s" and g: "agree now F fs" and wf: "fam_wf fs"
  shows "redis_revoke_other_sessions_for_user t u cur cands now s = Inl bulk_limit_error \<and> cands \<noteq> [] \<or>
    (\<exists>n fs'. mem_revoke_other_sessions_for_user t u cur now fs = Inr (n, fs') \<and>
       outcome own maxe now (redis_revoke_other_sessions_for_user t u cur cands now s) n fs')"
proof -
  let ?uk = "tenant_user_index_key t u" and ?tk = "tenant_index_key t"
  define everyone where "everyone = filter (\<lambda>sid. sid \<noteq> cur) (sort_dedup (cands @ rk_sets s ?uk))"
  let ?P = "\<lambda>k. listed t (Some u) (live now (F k))"
  have pk: "primary_key t (Some u) = ?uk" by (simp add: primary_key_def)
  have members: "set (filter ?P (rk_sets s ?uk)) = {k. ?P k}"
    using index_members(1) [OF r, of t "Some u"] unfolding pk .
  have target: "set (filter ?P everyone) = revoke_others_sids t u cur now fs"
    unfolding revoke_others_sids_live [OF g] everyone_def using members by auto
  have "revoke_others_sids t u cur now fs \<subseteq> set (rk_sets s ?uk)"
    unfolding revoke_others_sids_live [OF g] using members by auto
  then have "card (revoke_others_sids t u cur now fs) \<le> MAX_BULK_SESSION_CANDIDATES"
    using reprD(8) [OF r, of t u] card_mono [OF finite_set] card_length le_trans by meson
  from mem_revoke_others_total [OF wf this] obtain n fs' where
    m: "mem_revoke_other_sessions_for_user t u cur now fs = Inr (n, fs')" by blast
  note spec = mem_revoke_others_spec [OF wf m]
  have count: "length (filter ?P everyone) = n"
    unfolding spec(2) target [symmetric] by (rule distinct_card [symmetric]) (simp add: everyone_def)
  obtain F' s1 where loop: "redis_revoke_loop s t u now everyone (0, [], s) =
      Inr (n, filter (\<lambda>k. listed t (Some u) (F k)) everyone, s1)"
    and r1: "repr own maxe {} now F' s1" "rk_sets s1 = rk_sets s" "revoked_in t u now everyone F F F'"
    using redis_revoke_loop_result [OF r r, of everyone t u 0 "[]"] count by (auto simp: everyone_def)
  let ?owned = "filter (\<lambda>k. listed t (Some u) (F k)) everyone"
  have dead: "\<forall>k \<in> set ?owned. k \<in> {} \<or> live now (F' k) = None"
    using r1(3) by (auto simp: revoked_in_def)
  have r2: "repr own maxe {} now F' (queue_index_removals s ?tk ?owned s1)"
    by (rule repr_removals [OF r1(1) _ _ dead]) (simp_all add: r1(2))
  have r3: "repr own maxe {} now F' (queue_index_removals s ?uk ?owned (queue_index_removals s ?tk ?owned s1))"
    by (rule repr_removals [OF r2 _ _ dead]) (use r1(2) in \<open>simp_all add: removals_sets\<close>)
  have "live now (F' k) = live now (map_of fs' k)" for k
  proof -
    have k: "k \<in> revoke_others_sids t u cur now fs \<longleftrightarrow> k \<in> set everyone \<and> ?P k"
      unfolding target [symmetric] by auto
    have fk: "live now (F k) = None" if "k \<notin> revoke_others_sids t u cur now fs" "k \<in> set everyone" "listed t (Some u) (F k)"
      using that unfolding k by (cases "F k") (auto simp: listed_def live_def)
    have F': "live now (F' k) = (if k \<in> set everyone \<and> listed t (Some u) (F k) then None else live now (F k))"
      using r1(3) by (simp add: revoked_in_def)
    show ?thesis
    proof (cases "k \<in> revoke_others_sids t u cur now fs")
      case True
      then have "k \<in> set everyone" "listed t (Some u) (F k)"
        using k by (auto simp: listed_live)
      moreover have "live now (map_option (\<lambda>f. f\<lparr>revoked := True\<rparr>) (map_of fs k)) = None"
        by (simp add: live_def split: option.splits)
      ultimately show ?thesis using True F' spec(1) [of k] by simp
    next
      case False
      then show ?thesis using F' fk spec(1) [of k] agreeD [OF g, of k] by auto
    qed
  qed
  then have g': "agree now F' fs'" by (simp add: agree_def)
  have step: "redis_revoke_other_sessions_for_user t u cur cands now s =
      (if MAX_BULK_SESSION_CANDIDATES < length everyone then Inl bulk_limit_error
       else Inr (n, queue_index_removals s ?uk ?owned (queue_index_removals s ?tk ?owned s1)))"
    by (simp add: redis_revoke_other_sessions_for_user_def Let_def types_simps [OF r] loop everyone_def [symmetric])
  have "length everyone \<le> MAX_BULK_SESSION_CANDIDATES" if "cands = []"
  proof -
    have "length everyone = card (set everyone)"
      by (rule distinct_card [symmetric]) (simp add: everyone_def)
    also have "\<dots> \<le> card (set (rk_sets s ?uk))"
      by (rule card_mono) (auto simp: everyone_def that)
    also have "\<dots> \<le> MAX_BULK_SESSION_CANDIDATES"
      using reprD(8) [OF r, of t u] card_length le_trans by meson
    finally show ?thesis .
  qed
  then show ?thesis unfolding step using m outcomeI [OF r3 g', of n] by auto
qed

section \<open>Registration\<close>

lemma scan_indexed_result:
  assumes r: "repr own maxe X now F s" and n: "rotated_at family = now"
  shows "scan_indexed s family sids =
    (let P = \<lambda>k. listed (fam_tenant_id family) (Some (fam_user_id family)) (live now (F k))
     in Inr (filter (\<lambda>k. \<not> P k) sids, length (filter P sids), \<exists>k \<in> set sids. P k \<and> k = fam_sid family))"
proof (induction sids)
  case (Cons sid sids)
  let ?P = "\<lambda>k. listed (fam_tenant_id family) (Some (fam_user_id family)) (live now (F k))"
  show ?case
  proof (cases "F sid")
    case None
    then have "\<not> ?P sid" by (simp add: listed_def live_def)
    then show ?thesis using None by (auto simp: types_simps [OF r] repr_load [OF r] Cons.IH Let_def)
  next
    case (Some f)
    have c: "(fam_tenant_id f = fam_tenant_id family \<and> fam_user_id f = fam_user_id family \<and>
        rotated_at family < absolute_exp f \<and> \<not> revoked f) = ?P sid"
      using Some n by (auto simp: listed_def live_def)
    have "fam_sid f = sid" using reprD(3) [OF r Some] by (simp add: family_ok_def)
    then show ?thesis
      using Some by (cases "?P sid") (auto simp: types_simps [OF r] repr_load [OF r] Cons.IH Let_def c)
  qed
qed simp

text \<open>What unindexing leaves: subsets of the indexes, and expiries that are kept or gone.\<close>

definition shrunk :: "redis_keys \<Rightarrow> redis_keys \<Rightarrow> bool" where
  "shrunk s s' \<longleftrightarrow> (\<forall>key. set (rk_sets s' key) \<subseteq> set (rk_sets s key) \<and>
     (rk_expire s' key = rk_expire s key \<or> rk_expire s' key = None))"

lemma shrunk_refl [simp]: "shrunk s s"
  by (simp add: shrunk_def)

lemma shrunk_srem: "shrunk s s' \<Longrightarrow> shrunk s (r_srem key sids s')"
  unfolding shrunk_def by (auto simp: r_srem_def Let_def)

lemma repr_drop_old:
  assumes r: "repr own maxe {sid} now F s"
  shows "repr own maxe {sid} now F (drop_old_index sid old s)" "shrunk s (drop_old_index sid old s)"
proof -
  have "repr own maxe {sid} now F (r_srem (tenant_user_index_key t u) [sid] (r_srem (tenant_index_key t) [sid] s))" for t u
    by (rule repr_srem, rule repr_srem [OF r]) simp_all
  then show "repr own maxe {sid} now F (drop_old_index sid old s)"
    using r by (simp add: drop_old_index_def split: option.splits)
  show "shrunk s (drop_old_index sid old s)"
    by (auto simp: drop_old_index_def intro!: shrunk_srem split: option.splits)
qed

lemma repr_drop_stale:
  assumes "repr own maxe X now F s" "shrunk s0 s" "\<forall>k \<in> set stale. live now (F k) = None"
  shows "repr own maxe X now F (drop_stale (tenant_index_key t) (tenant_user_index_key t u) stale s) \<and>
    shrunk s0 (drop_stale (tenant_index_key t) (tenant_user_index_key t u) stale s) \<and>
    set (rk_sets (drop_stale (tenant_index_key t) (tenant_user_index_key t u) stale s) (tenant_user_index_key t u)) =
      set (rk_sets s (tenant_user_index_key t u)) - set stale"
  using assms
proof (induction stale arbitrary: s)
  case (Cons k stale)
  let ?s = "r_srem (tenant_user_index_key t u) [k] (r_srem (tenant_index_key t) [k] s)"
  have "repr own maxe X now F ?s"
    by (rule repr_srem, rule repr_srem [OF Cons.prems(1)]) (use Cons.prems(3) in auto)
  moreover have "shrunk s0 ?s" by (intro shrunk_srem Cons.prems(2))
  moreover have "set (rk_sets ?s (tenant_user_index_key t u)) = set (rk_sets s (tenant_user_index_key t u)) - {k}"
    by (auto simp: srem_frame)
  ultimately show ?case using Cons.IH [of ?s] Cons.prems(3) by (auto simp: drop_stale_def)
qed (simp add: drop_stale_def)

lemma repr_close:
  assumes "repr own maxe {sid} now F s"
    and "\<And>f key. live now (F sid) = Some f \<Longrightarrow> owner_index own sid key \<Longrightarrow> indexed s key sid (absolute_exp f)"
  shows "repr own maxe {} now F s"
proof -
  have "indexed s key k (absolute_exp f)" if "live now (F k) = Some f" "owner_index own k key" for k f key
    using that assms(2) reprD(9) [OF assms(1), of k] by (cases "k = sid") auto
  with assms(1) show ?thesis unfolding repr_def by blast
qed

lemma repr_add:
  assumes r: "repr own maxe {sid} now F s" and o: "own sid = (t, u)"
    and h: "rk_hashes s' = rk_hashes s"
      "rk_sets s' = (rk_sets s)(tenant_index_key t := List.insert sid (rk_sets s (tenant_index_key t)),
         tenant_user_index_key t u := List.insert sid (rk_sets s (tenant_user_index_key t u)))"
    and e: "\<And>key. key \<noteq> tenant_index_key t \<Longrightarrow> key \<noteq> tenant_user_index_key t u \<Longrightarrow> rk_expire s' key = rk_expire s key"
      "\<And>key x. key = tenant_index_key t \<or> key = tenant_user_index_key t u \<Longrightarrow> rk_expire s' key = Some x \<Longrightarrow> maxe \<le> x"
    and len: "length (rk_sets s' (tenant_user_index_key t u)) \<le> MAX_BULK_SESSION_CANDIDATES"
  shows "repr own maxe {} now F s'"
proof (rule repr_close)
  have idx: "indexed s' key k e'" if "indexed s key k e'" "e' \<le> maxe" for key k e'
  proof -
    have "k \<in> set (rk_sets s' key)" using that(1) h(2) by (auto simp: indexed_def)
    moreover have "e' \<le> x" if x: "rk_expire s' key = Some x" for x
    proof (cases "key = tenant_index_key t \<or> key = tenant_user_index_key t u")
      case True
      from e(2) [OF True x] \<open>e' \<le> maxe\<close> show ?thesis by simp
    next
      case False
      then show ?thesis using e(1) [of key] x \<open>indexed s key k e'\<close> by (simp add: indexed_def)
    qed
    ultimately show ?thesis by (simp add: indexed_def)
  qed
  have ok: "family_ok own maxe k f" if "F k = Some f" for k f by (rule reprD(3) [OF r that])
  show "repr own maxe {sid} now F s'"
    unfolding repr_def
  proof (intro conjI allI impI)
    fix k f key
    assume "k \<notin> {sid}" "live now (F k) = Some f" "owner_index own k key"
    with reprD(9) [OF r] ok show "indexed s' key k (absolute_exp f)"
      by (intro idx) (auto simp: live_Some family_ok_def)
  next
    fix t' u'
    show "length (rk_sets s' (tenant_user_index_key t' u')) \<le> MAX_BULK_SESSION_CANDIDATES"
      using len reprD(8) [OF r, of t' u'] h(2) by (cases "t' = t \<and> u' = u") auto
  next
    fix key
    assume i: "index_key key"
    then show "rk_hashes s' key = []" using reprD(5) [OF r] h(1) by simp
    show "distinct (rk_sets s' key)" using reprD(6) [OF r i] reprD(6) [OF r] h(2) by simp
    show "\<forall>k \<in> set (rk_sets s' key). owner_index own k key"
    proof
      fix k
      assume "k \<in> set (rk_sets s' key)"
      then consider "k \<in> set (rk_sets s key)" | "k = sid" "key = tenant_index_key t \<or> key = tenant_user_index_key t u"
        using h(2) by (auto split: if_splits)
      then show "owner_index own k key" by cases (use reprD(7) [OF r i] o in \<open>auto simp: owner_index_def\<close>)
    qed
  next
    fix k f
    assume "F k = Some f"
    then show "family_ok own maxe k f" by (rule ok)
  next
    fix k f x
    assume "F k = Some f" "rk_expire s' (family_key k) = Some x"
    then show "absolute_exp f \<le> x" using reprD(4) [OF r, of k f x] e(1) [of "family_key k"] by simp
  qed (use reprD(1,2) [OF r] h in simp_all)
  fix f key
  assume f: "live now (F sid) = Some f" "owner_index own sid key"
  then have key: "key = tenant_index_key t \<or> key = tenant_user_index_key t u" using o by (simp add: owner_index_def)
  then have "sid \<in> set (rk_sets s' key)" using h(2) by auto
  moreover have "absolute_exp f \<le> x" if "rk_expire s' key = Some x" for x
    using e(2) [OF key that] ok f(1) by (fastforce simp: live_Some family_ok_def)
  ultimately show "indexed s' key sid (absolute_exp f)" by (simp add: indexed_def)
qed

lemma list_insert_nonempty [simp]: "List.insert x xs \<noteq> []"
  by (auto simp: List.insert_def)

lemma expire_after:
  assumes s1: "shrunk s s1" and k: "rk_expire s2 key = rk_expire s1 key" and m: "rk_sets s3 key \<noteq> []"
    and e3: "rk_expire s3 key = rk_expire s2 key" and x: "rk_expire (queue_expiry_extension s key exp s3) key = Some x"
  shows "exp \<le> x"
proof (cases "expiretime s key < exp")
  case True
  then have "rk_expire (queue_expiry_extension s key exp s3) key = Some exp"
    using m by (simp add: queue_expiry_extension_def r_expireat_def redis_type_def)
  with x show ?thesis by simp
next
  case False
  then have "rk_expire s3 key = Some x" using x by (simp add: queue_expiry_extension_def)
  with e3 k s1 have "rk_expire s key = Some x" unfolding shrunk_def by (metis option.distinct(1))
  with False show ?thesis by (simp add: expiretime_def)
qed

lemma extension_frame [simp]:
  "rk_hashes (queue_expiry_extension s0 key e s) = rk_hashes s"
  "rk_sets (queue_expiry_extension s0 key e s) = rk_sets s"
  "k \<noteq> key \<Longrightarrow> rk_expire (queue_expiry_extension s0 key e s) k = rk_expire s k"
  by (auto simp: queue_expiry_extension_def r_expireat_def)

lemma sadd_frame [simp]:
  "rk_hashes (r_sadd key m s) = rk_hashes s"
  "rk_sets (r_sadd key m s) = (rk_sets s)(key := List.insert m (rk_sets s key))"
  "rk_expire (r_sadd key m s) = rk_expire s"
  by (simp_all add: r_sadd_def)

text \<open>A registration that is not refused.\<close>

lemma register_written:
  assumes r: "repr own maxe {} now F s" and f: "family_ok own (absolute_exp f) sid f" and top: "maxe \<le> absolute_exp f"
    and t: "t = fam_tenant_id f" and u: "u = fam_user_id f"
    and stale: "stale = filter (\<lambda>k. \<not> listed t (Some u) (live now (F k))) (rk_sets s (tenant_user_index_key t u))"
    and s1: "s1 = drop_stale (tenant_index_key t) (tenant_user_index_key t u) (sort_dedup stale) (drop_old_index sid (F sid) s)"
    and s2: "s2 = queue_family_write (family_key sid) f s1"
    and room: "\<not> revoked f \<Longrightarrow> listed t (Some u) (live now (F sid)) \<or>
      card {k. listed t (Some u) (live now (F k))} < MAX_BULK_SESSION_CANDIDATES"
  shows "repr own (absolute_exp f) {} now (F(sid \<mapsto> f))
    (if revoked f then s2
     else queue_expiry_extension s (tenant_user_index_key t u) (absolute_exp f)
            (queue_expiry_extension s (tenant_index_key t) (absolute_exp f)
              (r_sadd (tenant_user_index_key t u) sid (r_sadd (tenant_index_key t) sid s2))))"
proof -
  let ?tk = "tenant_index_key t" and ?uk = "tenant_user_index_key t u" and ?e = "absolute_exp f"
  let ?P = "\<lambda>k. listed t (Some u) (live now (F k))"
  have pk: "primary_key t (Some u) = ?uk" by (simp add: primary_key_def)
  have members: "set (filter ?P (rk_sets s ?uk)) = {k. ?P k}" using index_members(1) [OF r, of t "Some u"] unfolding pk .
  have dead: "\<forall>k \<in> set (sort_dedup stale). live now (F k) = None"
    using index_members(2) [OF r, of _ t "Some u"] unfolding pk by (auto simp: stale)
  have r0: "repr own ?e {sid} now F s" by (rule repr_weaken [OF r _ top]) auto
  note old = repr_drop_old [OF r0, of "F sid"]
  from repr_drop_stale [OF old dead, of t u]
  have r1: "repr own ?e {sid} now F s1" "shrunk s s1"
    "set (rk_sets s1 ?uk) = set (rk_sets (drop_old_index sid (F sid) s) ?uk) - set stale"
    unfolding s1 by simp_all
  have sub: "set (rk_sets s1 ?uk) \<subseteq> {k. ?P k}"
    using r1(3) old(2) members unfolding shrunk_def stale by auto
  have without: "sid \<notin> set (rk_sets s1 ?uk)" if "?P sid"
  proof -
    from that obtain g where "F sid = Some g" "fam_tenant_id g = t" "fam_user_id g = u"
      by (auto simp: listed_live) (auto simp: listed_def)
    then show ?thesis using r1(3) by (simp add: drop_old_index_def srem_frame)
  qed
  have fin: "finite {k. ?P k}" unfolding members [symmetric] by simp
  have few: "card {k. ?P k} \<le> MAX_BULK_SESSION_CANDIDATES"
    unfolding members [symmetric] using reprD(8) [OF r, of t u] card_length length_filter_le le_trans by meson
  have h1: "rk_hashes s1 (family_key sid) = hash_of (F sid)" by (rule reprD(1) [OF r1(1)])
  have r2: "repr own ?e {sid} now (F(sid \<mapsto> f)) s2"
    unfolding s2 by (rule repr_write_family [OF r1(1) f]) (simp_all add: hset_writes(1) [OF h1] writes_expire)
  show ?thesis
  proof (cases "revoked f")
    case True
    have "repr own ?e {} now (F(sid \<mapsto> f)) s2" by (rule repr_close [OF r2]) (simp add: live_def True)
    with True show ?thesis by simp
  next
    case False
    have len: "length (List.insert sid (rk_sets s1 ?uk)) \<le> MAX_BULK_SESSION_CANDIDATES"
    proof -
      have d: "distinct (rk_sets s1 ?uk)" using reprD(6) [OF r1(1)] by simp
      have "length (List.insert sid (rk_sets s1 ?uk)) = card (insert sid (set (rk_sets s1 ?uk)))"
        using distinct_card [of "List.insert sid (rk_sets s1 ?uk)"] d by simp
      moreover have "card (insert sid (set (rk_sets s1 ?uk))) \<le> MAX_BULK_SESSION_CANDIDATES"
      proof (cases "?P sid")
        case True
        with sub have "insert sid (set (rk_sets s1 ?uk)) \<subseteq> {k. ?P k}" by simp
        with few card_mono [OF fin] show ?thesis using le_trans by blast
      next
        case P: False
        have "card (set (rk_sets s1 ?uk)) \<le> card {k. ?P k}" by (rule card_mono [OF fin sub])
        with room [OF False] P have "card (set (rk_sets s1 ?uk)) < MAX_BULK_SESSION_CANDIDATES" by linarith
        then show ?thesis by (simp add: card_insert_if)
      qed
      ultimately show ?thesis by simp
    qed
    let ?s3 = "r_sadd ?uk sid (r_sadd ?tk sid s2)"
    let ?s4 = "queue_expiry_extension s ?tk ?e ?s3"
    let ?s5 = "queue_expiry_extension s ?uk ?e ?s4"
    have sets2: "rk_sets s2 = rk_sets s1" unfolding s2 by simp
    have exp2: "rk_expire s2 key = rk_expire s1 key" if "index_key key" for key
      using that unfolding s2 by (auto simp: writes_expire)
    have own: "own sid = (t, u)" using f t u by (simp add: family_ok_def)
    have "repr own ?e {} now (F(sid \<mapsto> f)) ?s5"
    proof (rule repr_add [OF r2 own])
      fix key x
      assume key: "key = ?tk \<or> key = ?uk" and x: "rk_expire ?s5 key = Some x"
      show "?e \<le> x"
      proof (cases "key = ?tk")
        case True
        then have x': "rk_expire ?s4 ?tk = Some x" using x by simp
        show ?thesis by (rule expire_after [OF r1(2) exp2 _ _ x']) auto
      next
        case False
        then have x': "rk_expire ?s5 ?uk = Some x" using key x by simp
        show ?thesis by (rule expire_after [OF r1(2) exp2 _ _ x']) auto
      qed
    qed (use len sets2 in simp_all)
    with False show ?thesis by simp
  qed
qed

lemma mem_register_decides:
  fixes f :: RefreshFamily
  assumes g: "agree now F fs" and wf: "fam_wf fs"
  defines "P \<equiv> \<lambda>k. listed (fam_tenant_id f) (Some (fam_user_id f)) (live now (F k))"
  shows "mem_register f now fs =
    (if \<not> revoked f \<and> \<not> P (fam_sid f) \<and> MAX_BULK_SESSION_CANDIDATES \<le> card {k. P k}
     then Inl (Conflict msg_device_limit) else Inr ((), AList.update (fam_sid f) f fs))"
proof -
  let ?mine = "active_for (fam_tenant_id f) (fam_user_id f) now"
  have awf: "alist_wf fs" using wf by (simp add: fam_wf_def)
  have P: "P k \<longleftrightarrow> (\<exists>g. map_of fs k = Some g \<and> ?mine g)" for k
    unfolding P_def agreeD [OF g, symmetric] listed_live by (auto simp: active_for_def listed_def)
  have "length (filter (\<lambda>(k, g). ?mine g) fs) = card {k. P k}"
    using alist.count_entries [OF awf, of ?mine] unfolding P by simp
  moreover have "(case map_of fs (fam_sid f) of None \<Rightarrow> False | Some g \<Rightarrow> ?mine g) = P (fam_sid f)"
    unfolding P by (auto split: option.splits)
  ultimately show ?thesis by (simp add: mem_register_def Let_def)
qed

lemma register_equal:
  assumes r: "repr own maxe {} now F s" and g: "agree now F fs" and wf: "fam_wf fs"
    and f: "normal f" "own (fam_sid f) = (fam_tenant_id f, fam_user_id f)" "maxe \<le> absolute_exp f" "rotated_at f = now"
  shows "case mem_register f now fs of
      Inl e \<Rightarrow> redis_register f s = Inl e
    | Inr (_, fs') \<Rightarrow> outcome own (absolute_exp f) now (redis_register f s) () fs'"
proof -
  let ?t = "fam_tenant_id f" and ?u = "fam_user_id f" and ?sid = "fam_sid f"
  let ?tk = "tenant_index_key ?t" and ?uk = "tenant_user_index_key ?t ?u"
  let ?P = "\<lambda>k. listed ?t (Some ?u) (live now (F k))"
  define stale where "stale = filter (\<lambda>k. \<not> ?P k) (rk_sets s ?uk)"
  define s1 where "s1 = drop_stale ?tk ?uk (sort_dedup stale) (drop_old_index ?sid (F ?sid) s)"
  define s2 where "s2 = queue_family_write (family_key ?sid) f s1"
  define s3 where "s3 = (if revoked f then s2
      else queue_expiry_extension s ?uk (absolute_exp f) (queue_expiry_extension s ?tk (absolute_exp f)
             (r_sadd ?uk ?sid (r_sadd ?tk ?sid s2))))"
  have ok: "family_ok own (absolute_exp f) ?sid f" using f by (simp add: family_ok_def)
  have pk: "primary_key ?t (Some ?u) = ?uk" by (simp add: primary_key_def)
  have members: "set (filter ?P (rk_sets s ?uk)) = {k. ?P k}" using index_members(1) [OF r, of ?t "Some ?u"] unfolding pk .
  have "distinct (filter ?P (rk_sets s ?uk))" using reprD(6) [OF r] by simp
  then have count: "length (filter ?P (rk_sets s ?uk)) = card {k. ?P k}"
    unfolding members [symmetric] by (rule distinct_card [symmetric])
  have new: "?P ?sid \<Longrightarrow> ?sid \<in> set (rk_sets s ?uk)" using members by auto
  have types: "(case F ?sid of None \<Rightarrow> Inr () | Some o' \<Rightarrow> ensure_types s [(tenant_index_key (fam_tenant_id o'), ''set''),
      (tenant_user_index_key (fam_tenant_id o') (fam_user_id o'), ''set'')]) = Inr ()"
    by (simp add: types_simps [OF r] split: option.splits)
  have step: "redis_register f s =
      (if \<not> revoked f \<and> \<not> ?P ?sid \<and> MAX_BULK_SESSION_CANDIDATES \<le> card {k. ?P k}
       then Inl (Conflict msg_device_limit) else Inr ((), s3))"
    using reprD(8) [OF r, of ?t ?u] new
    by (cases "?P ?sid")
      (simp_all add: redis_register_def Let_def types_simps [OF r] scan_indexed_result [OF r f(4)] count
        repr_load [OF r] types s3_def s2_def s1_def stale_def)
  show ?thesis
  proof (cases "\<not> revoked f \<and> \<not> ?P ?sid \<and> MAX_BULK_SESSION_CANDIDATES \<le> card {k. ?P k}")
    case True
    then show ?thesis unfolding step mem_register_decides [OF g wf] by simp
  next
    case False
    have "repr own (absolute_exp f) {} now (F(?sid \<mapsto> f)) s3"
      unfolding s3_def
      by (rule register_written [OF r ok f(3) refl refl stale_def s1_def s2_def]) (use False in auto)
    moreover have "agree now (F(?sid \<mapsto> f)) (AList.update ?sid f fs)"
      by (rule agree_upd [OF g]) (simp_all add: family_store_simps)
    ultimately show ?thesis
      unfolding step mem_register_decides [OF g wf] if_not_P [OF False] by (simp add: outcomeI)
  qed
qed

section \<open>Runs\<close>

datatype session_answer =
    AnsDone
  | AnsRotation RefreshRotation
  | AnsBool bool
  | AnsRevocation RefreshSessionRevocation
  | AnsCount nat
  | AnsIdentity "RefreshSessionIdentity option"
  | AnsSids "string list"
  | AnsError app_error

fun mem_answer :: "session_op \<Rightarrow> families \<Rightarrow> session_answer" where
  "mem_answer (OpRegister f now) fs = (case mem_register f now fs of Inl e \<Rightarrow> AnsError e | Inr _ \<Rightarrow> AnsDone)"
| "mem_answer (OpRotate sid p n now a) fs = AnsRotation (fst (mem_rotate sid p n now a fs))"
| "mem_answer (OpRevoke sid now) fs = AnsBool (fst (mem_revoke sid now fs))"
| "mem_answer (OpRevokeTenant t sid now) fs = AnsBool (fst (mem_revoke_for_tenant t sid now fs))"
| "mem_answer (OpRevokeUser t u sid now) fs = AnsRevocation (fst (mem_revoke_for_user t u sid now fs))"
| "mem_answer (OpRevokeOthers t u cur now) fs =
     (case mem_revoke_other_sessions_for_user t u cur now fs of Inl e \<Rightarrow> AnsError e | Inr (n, _) \<Rightarrow> AnsCount n)"
| "mem_answer (OpIdentity sid now) fs = AnsIdentity (fst (mem_identity sid now fs))"
| "mem_answer (OpIsActive sid t u now) fs = AnsBool (fst (mem_is_active_for_identity sid t u now fs))"
| "mem_answer (OpSidsUser t u now) fs = AnsSids (fst (mem_session_sids_for_user t u now fs))"
| "mem_answer (OpSidsTenant t now) fs = AnsSids (fst (mem_session_sids_for_tenant t now fs))"

definition settle :: "('a \<Rightarrow> session_answer) \<Rightarrow> 'a redis_result \<Rightarrow> redis_keys \<Rightarrow> session_answer \<times> redis_keys" where
  "settle w r s = (case r of Inl e \<Rightarrow> (AnsError e, s) | Inr (a, s') \<Rightarrow> (w a, s'))"

fun redis_answer :: "session_op \<Rightarrow> string list \<Rightarrow> redis_keys \<Rightarrow> session_answer \<times> redis_keys" where
  "redis_answer (OpRegister f now) cands s = settle (\<lambda>_. AnsDone) (redis_register f s) s"
| "redis_answer (OpRotate sid p n now a) cands s = settle AnsRotation (redis_rotate sid p n now a s) s"
| "redis_answer (OpRevoke sid now) cands s = settle AnsBool (redis_revoke sid now s) s"
| "redis_answer (OpRevokeTenant t sid now) cands s = settle AnsBool (redis_revoke_for_tenant t sid now s) s"
| "redis_answer (OpRevokeUser t u sid now) cands s = settle AnsRevocation (redis_revoke_for_user t u sid now s) s"
| "redis_answer (OpRevokeOthers t u cur now) cands s =
     settle AnsCount (redis_revoke_other_sessions_for_user t u cur cands now s) s"
| "redis_answer (OpIdentity sid now) cands s = settle AnsIdentity (redis_identity sid now s) s"
| "redis_answer (OpIsActive sid t u now) cands s = settle AnsBool (redis_is_active_for_identity sid t u now s) s"
| "redis_answer (OpSidsUser t u now) cands s = settle AnsSids (redis_session_sids t (Some u) now s) s"
| "redis_answer (OpSidsTenant t now) cands s = settle AnsSids (redis_session_sids t None now s) s"

text \<open>
  A revocation of a session that is not active may be answered differently: the process forgets a
  revoked family at the next rotation, Redis keeps it until it expires.
\<close>

definition same_answer :: "session_op \<Rightarrow> families \<Rightarrow> session_answer \<Rightarrow> session_answer \<Rightarrow> bool" where
  "same_answer o' fs a b =
     (case o' of
        OpRevoke sid now \<Rightarrow> live now (map_of fs sid) = None \<or> a = b
      | OpRevokeTenant t sid now \<Rightarrow> live now (map_of fs sid) = None \<or> a = b
      | OpRevokeUser t u sid now \<Rightarrow> live now (map_of fs sid) = None \<or> a = b
      | _ \<Rightarrow> a = b)"

text \<open>The server drops some of the keys whose expiry has passed.\<close>

definition server_expires :: "string list \<Rightarrow> int \<Rightarrow> redis_keys \<Rightarrow> redis_keys" where
  "server_expires keys now s =
     fold (\<lambda>key s. if (case rk_expire s key of Some x \<Rightarrow> x \<le> now | None \<Rightarrow> False) then r_del key s else s) keys s"

text \<open>
  A call has its operation, the candidates of a bulk revocation and the keys that vanish before it.
  Redis may refuse a bulk revocation that is handed candidates of its own for their number; it then
  does nothing, and the run goes on without it on both sides.
\<close>

type_synonym session_call = "session_op \<times> string list \<times> string list"

definition is_bulk_revocation :: "session_op \<Rightarrow> bool" where
  "is_bulk_revocation o' = (case o' of OpRevokeOthers _ _ _ _ \<Rightarrow> True | _ \<Rightarrow> False)"

fun runs_agree :: "session_call list \<Rightarrow> redis_keys \<Rightarrow> families \<Rightarrow> bool" where
  "runs_agree [] s fs = True"
| "runs_agree ((o', cands, gone) # calls) s fs =
     (case redis_answer o' cands (server_expires gone (op_time o') s) of
        (b, s') \<Rightarrow>
          is_bulk_revocation o' \<and> cands \<noteq> [] \<and> b = AnsError bulk_limit_error \<and> runs_agree calls s' fs \<or>
          same_answer o' fs (mem_answer o' fs) b \<and> runs_agree calls s' (op_effect o' fs))"

definition op_ok :: "(string \<Rightarrow> string \<times> int) \<Rightarrow> int \<Rightarrow> session_op \<Rightarrow> bool" where
  "op_ok own maxe o' =
     (case o' of
        OpRegister f now \<Rightarrow> normal f \<and> own (fam_sid f) = (fam_tenant_id f, fam_user_id f) \<and>
          maxe \<le> absolute_exp f \<and> rotated_at f = now
      | OpRotate sid p n now a \<Rightarrow> n \<noteq> [] \<and> a \<noteq> [] \<and> is_i64 now
      | _ \<Rightarrow> True)"

definition next_end :: "session_op \<Rightarrow> int \<Rightarrow> int" where
  "next_end o' maxe = (case o' of OpRegister f _ \<Rightarrow> absolute_exp f | _ \<Rightarrow> maxe)"

fun calls_ok :: "(string \<Rightarrow> string \<times> int) \<Rightarrow> int \<Rightarrow> int \<Rightarrow> session_call list \<Rightarrow> bool" where
  "calls_ok own maxe t0 [] = True"
| "calls_ok own maxe t0 ((o', cands, gone) # calls) \<longleftrightarrow>
     t0 \<le> op_time o' \<and> op_ok own maxe o' \<and> calls_ok own (next_end o' maxe) (op_time o') calls"

definition empty_keys :: redis_keys where
  "empty_keys = \<lparr>rk_hashes = (\<lambda>_. []), rk_sets = (\<lambda>_. []), rk_expire = Map.empty\<rparr>"

definition simulated ::
  "(string \<Rightarrow> string \<times> int) \<Rightarrow> int \<Rightarrow> session_op \<Rightarrow> string list \<Rightarrow> families \<Rightarrow> redis_keys \<Rightarrow>
   session_answer \<times> redis_keys \<Rightarrow> bool" where
  "simulated own maxe o' cands fs s r \<longleftrightarrow>
     is_bulk_revocation o' \<and> cands \<noteq> [] \<and> r = (AnsError bulk_limit_error, s) \<or>
     same_answer o' fs (mem_answer o' fs) (fst r) \<and>
     (\<exists>F'. repr own (next_end o' maxe) {} (op_time o') F' (snd r) \<and> agree (op_time o') F' (op_effect o' fs))"

lemma settle_outcome:
  assumes "outcome own maxe now r a fs'"
  shows "fst (settle w r s) = w a \<and> (\<exists>F'. repr own maxe {} now F' (snd (settle w r s)) \<and> agree now F' fs')"
  using assms by (auto simp: outcome_def settle_def)

lemma op_simulated:
  assumes r: "repr own maxe {} now F s" and g: "agree now F fs" and wf: "fam_wf fs"
    and ok: "op_ok own maxe o'" and t: "op_time o' = now"
  shows "simulated own maxe o' cands fs s (redis_answer o' cands s)"
proof (cases o')
  case (OpRegister f n)
  with ok t have f: "normal f" "own (fam_sid f) = (fam_tenant_id f, fam_user_id f)" "maxe \<le> absolute_exp f" "rotated_at f = now"
    and n: "n = now" by (simp_all add: op_ok_def)
  have keep: "repr own (absolute_exp f) {} now F s" by (rule repr_weaken [OF r _ f(3)]) auto
  show ?thesis
  proof (cases "mem_register f now fs")
    case (Inl e)
    with register_equal [OF r g wf f] keep g show ?thesis
      by (auto simp: OpRegister n simulated_def same_answer_def settle_def next_end_def)
  next
    case (Inr x)
    with register_equal [OF r g wf f] have "outcome own (absolute_exp f) now (redis_register f s) () (snd x)"
      by (simp add: case_prod_beta)
    from settle_outcome [OF this, where w = "\<lambda>_. AnsDone" and s = s] Inr show ?thesis
      by (auto simp: OpRegister n simulated_def same_answer_def next_end_def case_prod_beta)
  qed
next
  case (OpRotate sid p n k a)
  with ok t have c: "n \<noteq> []" "a \<noteq> []" "is_i64 now" "k = now" by (simp_all add: op_ok_def)
  from settle_outcome [OF rotate_equal [OF r g c(1-3)], where w = AnsRotation and s = s] show ?thesis
    by (simp add: OpRotate c(4) simulated_def same_answer_def next_end_def)
next
  case (OpRevoke sid k)
  then have k: "k = now" using t by simp
  from revoke_equal(1) [OF r g, of sid] obtain b where
    b: "outcome own maxe now (redis_revoke sid now s) b (snd (mem_revoke sid now fs))"
      "live now (map_of fs sid) \<noteq> None \<longrightarrow> b = fst (mem_revoke sid now fs)" by blast
  from settle_outcome [OF b(1), where w = AnsBool and s = s] b(2) show ?thesis
    by (auto simp: OpRevoke k simulated_def same_answer_def next_end_def)
next
  case (OpRevokeTenant te sid k)
  then have k: "k = now" using t by simp
  from revoke_equal(2) [OF r g, of te sid] obtain b where
    b: "outcome own maxe now (redis_revoke_for_tenant te sid now s) b (snd (mem_revoke_for_tenant te sid now fs))"
      "live now (map_of fs sid) \<noteq> None \<longrightarrow> b = fst (mem_revoke_for_tenant te sid now fs)" by blast
  from settle_outcome [OF b(1), where w = AnsBool and s = s] b(2) show ?thesis
    by (auto simp: OpRevokeTenant k simulated_def same_answer_def next_end_def)
next
  case (OpRevokeUser te u sid k)
  then have k: "k = now" using t by simp
  from revoke_equal(3) [OF r g, of te u sid] obtain b where
    b: "outcome own maxe now (redis_revoke_for_user te u sid now s) b (snd (mem_revoke_for_user te u sid now fs))"
      "live now (map_of fs sid) \<noteq> None \<longrightarrow> b = fst (mem_revoke_for_user te u sid now fs)" by blast
  from settle_outcome [OF b(1), where w = AnsRevocation and s = s] b(2) show ?thesis
    by (auto simp: OpRevokeUser k simulated_def same_answer_def next_end_def)
next
  case (OpRevokeOthers te u cur k)
  then have k: "k = now" using t by simp
  from revoke_others_equal [OF r g wf, of te u cur cands] show ?thesis
  proof
    assume "redis_revoke_other_sessions_for_user te u cur cands now s = Inl bulk_limit_error \<and> cands \<noteq> []"
    then show ?thesis by (simp add: OpRevokeOthers k simulated_def settle_def is_bulk_revocation_def)
  next
    assume "\<exists>n fs'. mem_revoke_other_sessions_for_user te u cur now fs = Inr (n, fs') \<and>
       outcome own maxe now (redis_revoke_other_sessions_for_user te u cur cands now s) n fs'"
    then obtain n fs' where n: "mem_revoke_other_sessions_for_user te u cur now fs = Inr (n, fs')"
      "outcome own maxe now (redis_revoke_other_sessions_for_user te u cur cands now s) n fs'" by blast
    from settle_outcome [OF n(2), where w = AnsCount and s = s] n(1) show ?thesis
      by (simp add: OpRevokeOthers k simulated_def same_answer_def next_end_def)
  qed
next
  case (OpIdentity sid k)
  then have k: "k = now" using t by simp
  from settle_outcome [OF identity_equal [OF r g], where w = AnsIdentity and s = s] show ?thesis
    by (simp add: OpIdentity k simulated_def same_answer_def next_end_def)
next
  case (OpIsActive sid te u k)
  then have k: "k = now" using t by simp
  from settle_outcome [OF is_active_equal [OF r g], where w = AnsBool and s = s] show ?thesis
    by (simp add: OpIsActive k simulated_def same_answer_def next_end_def)
next
  case (OpSidsUser te u k)
  then have k: "k = now" using t by simp
  have P: "(\<lambda>f. fam_tenant_id f = te \<and> fam_user_id f = u) = (\<lambda>f. listed te (Some u) (Some f))"
    by (simp add: listed_def)
  from settle_outcome [OF sids_equal [OF r g wf P], where w = AnsSids and s = s] show ?thesis
    by (simp add: OpSidsUser k simulated_def same_answer_def next_end_def mem_session_sids_for_user_def)
next
  case (OpSidsTenant te k)
  then have k: "k = now" using t by simp
  have P: "(\<lambda>f. fam_tenant_id f = te) = (\<lambda>f. listed te None (Some f))" by (simp add: listed_def)
  from settle_outcome [OF sids_equal [OF r g wf P], where w = AnsSids and s = s] show ?thesis
    by (simp add: OpSidsTenant k simulated_def same_answer_def next_end_def mem_session_sids_for_tenant_def)
qed

lemma server_expires_keeps:
  assumes "repr own maxe {} now F s"
  shows "\<exists>F'. repr own maxe {} now F' (server_expires keys now s) \<and> (\<forall>k. live now (F' k) = live now (F k))"
  using assms
proof (induction keys arbitrary: F s)
  case Nil
  then show ?case by (auto simp: server_expires_def)
next
  case (Cons key keys)
  let ?lapsed = "case rk_expire s key of Some x \<Rightarrow> x \<le> now | None \<Rightarrow> False"
  have step: "server_expires (key # keys) now s = server_expires keys now (if ?lapsed then r_del key s else s)"
    by (simp add: server_expires_def)
  show ?case
  proof (cases ?lapsed)
    case True
    then have "\<exists>x. rk_expire s key = Some x \<and> x \<le> now" by (auto split: option.splits)
    from repr_vanish [OF Cons.prems this] obtain F1 where
      1: "repr own maxe {} now F1 (r_del key s)" "\<forall>k. live now (F1 k) = live now (F k)" by blast
    from Cons.IH [OF 1(1)] 1(2) True show ?thesis unfolding step by auto
  next
    case False
    with Cons.IH [OF Cons.prems] show ?thesis unfolding step by simp
  qed
qed

lemma runs_simulated:
  assumes "repr own maxe {} t0 F s" "agree t0 F fs" "fam_wf fs" "calls_ok own maxe t0 calls"
  shows "runs_agree calls s fs"
  using assms
proof (induction calls arbitrary: maxe t0 F s fs)
  case (Cons call calls)
  obtain o' cands gone where call: "call = (o', cands, gone)" by (metis prod_cases3)
  let ?now = "op_time o'"
  have ok: "t0 \<le> ?now" "op_ok own maxe o'" "calls_ok own (next_end o' maxe) ?now calls"
    using Cons.prems(4) call by simp_all
  have r: "repr own maxe {} ?now F s" by (rule repr_weaken [OF Cons.prems(1) ok(1)]) auto
  from server_expires_keeps [OF r, of gone] obtain F1 where
    1: "repr own maxe {} ?now F1 (server_expires gone ?now s)" "\<forall>k. live ?now (F1 k) = live ?now (F k)" by blast
  have g: "agree ?now F1 fs" using agree_later [OF Cons.prems(2) ok(1)] 1(2) by (simp add: agree_def)
  let ?s = "server_expires gone ?now s"
  from op_simulated [OF 1(1) g Cons.prems(3) ok(2) refl, of cands] show ?case
    unfolding simulated_def
  proof (elim disjE conjE)
    assume b: "is_bulk_revocation o'" "cands \<noteq> []" "redis_answer o' cands ?s = (AnsError bulk_limit_error, ?s)"
    have "next_end o' maxe = maxe" using b(1) by (cases o') (simp_all add: is_bulk_revocation_def next_end_def)
    with Cons.IH [OF 1(1) g Cons.prems(3)] ok(3) b show ?thesis by (simp add: call)
  next
    assume "same_answer o' fs (mem_answer o' fs) (fst (redis_answer o' cands ?s))"
      "\<exists>F'. repr own (next_end o' maxe) {} ?now F' (snd (redis_answer o' cands ?s)) \<and> agree ?now F' (op_effect o' fs)"
    with Cons.IH [OF _ _ op_effect_wf [OF Cons.prems(3)] ok(3)] show ?thesis
      by (auto simp: call case_prod_beta)
  qed
qed simp

lemma repr_empty: "repr own maxe {} now (\<lambda>_. None) empty_keys"
  by (simp add: repr_def empty_keys_def hash_of_def live_def)

text \<open>
  C29. The sessions in Redis implement the sessions of the process, under the conditions of
  \<open>calls_ok\<close>: the calls come in the order of their clock readings, a session identifier always belongs
  to one user of one tenant, no registration ends before an earlier one (with shrinking lifetimes the
  indexes can lose a live session), and the arguments are well-formed (a family registered at the time
  of its call, tokens that are not empty). Then, for any sequence of calls from empty stores -
  registrations, rotations, revocations of every kind, look-ups and listings, with any set of keys that
  Redis drops between calls once their expiry has passed - Redis answers every call as the in-process
  store does, with two exceptions, which \<open>runs_agree\<close> names: a revocation of a session that is no
  longer active may be answered differently, and a bulk revocation that is handed candidates besides
  the index may be refused for their number, doing nothing; the run goes on after either.
\<close>

theorem redis_refines_memory:
  assumes "calls_ok own maxe t0 calls"
  shows "runs_agree calls empty_keys []"
  by (rule runs_simulated [OF repr_empty _ fam_wf_Nil assms]) (simp add: agree_def live_def)

text \<open>Two devices, one of them replaying an old token; the hash of the other is dropped when it has ended.\<close>

definition device :: "string \<Rightarrow> int \<Rightarrow> int \<Rightarrow> RefreshFamily" where
  "device sid now end =
     \<lparr>fam_sid = sid, fam_tenant_id = ''t1'', fam_user_id = 7, current_jti = ''j0'', previous_jti = None,
      last_attempt_id = None, rotated_at = now, absolute_exp = end, revoked = False\<rparr>"

definition device_calls :: "session_call list" where
  "device_calls =
     [(OpRegister (device ''a'' 10 100) 10, [], []),
      (OpRegister (device ''b'' 12 102) 12, [], []),
      (OpRotate ''a'' ''j0'' ''j1'' 20 ''x'', [], []),
      (OpRotate ''a'' ''j0'' ''j2'' 40 ''y'', [], []),
      (OpSidsUser ''t1'' 7 41, [], []),
      (OpIdentity ''b'' 110, [], [family_key ''b'', tenant_index_key ''t1''])]"

lemma redis_refines_memory_witness:
  "runs_agree device_calls empty_keys [] \<and>
   map_of (session_run (map fst device_calls) []) ''a'' = Some ((device ''a'' 10 100)
     \<lparr>current_jti := ''j1'', previous_jti := Some ''j0'', rotated_at := 20, last_attempt_id := Some ''x'', revoked := True\<rparr>)"
proof -
  have ok: "calls_ok (\<lambda>_. (''t1'', 7)) 0 0 device_calls" by code_simp
  have "map_of (session_run (map fst device_calls) []) ''a'' = Some ((device ''a'' 10 100)
     \<lparr>current_jti := ''j1'', previous_jti := Some ''j0'', rotated_at := 20, last_attempt_id := Some ''x'', revoked := True\<rparr>)"
    by code_simp
  with redis_refines_memory [OF ok] show ?thesis by blast
qed

end
