(* ===== verification/Resilience.thy ===== *)
theory Resilience
  imports Prelude
begin

text \<open>
  \<open>crates/ryframe-adapters/src/resilience.rs\<close>: bounded retries and the circuit breaker. The
  breaker's status and failure counter are only touched under the status lock, so one call is one
  step at one instant (nanoseconds). Counters are \<open>u32\<close> and wrap as the code's would; the
  invariant shows that they never reach the wrap. The back-off delays of the retry loop are
  floating-point values that only decide how long to sleep; they are not modelled.
\<close>

section \<open>Retries\<close>

record RetryConfig =
  max_retries :: u32
  initial_backoff_ms :: u64
  max_backoff_ms :: u64

definition RetryConfig_default :: RetryConfig where
  "RetryConfig_default = \<lparr>max_retries = 3, initial_backoff_ms = 100, max_backoff_ms = 5000\<rparr>"

definition RetryConfig_fast :: RetryConfig where
  "RetryConfig_fast = \<lparr>max_retries = 2, initial_backoff_ms = 10, max_backoff_ms = 100\<rparr>"

definition RetryConfig_persistent :: RetryConfig where
  "RetryConfig_persistent = \<lparr>max_retries = 5, initial_backoff_ms = 500, max_backoff_ms = 10000\<rparr>"

text \<open>
  \<open>f k\<close> is the outcome of call number \<open>k\<close>; \<open>grow\<close> is the floating-point step that
  multiplies a delay and caps it. The result carries the number of calls made and the delays slept.
\<close>

function retry_loop ::
  "(nat \<Rightarrow> 'e + 'a) \<Rightarrow> (u64 \<Rightarrow> u64) \<Rightarrow> nat \<Rightarrow> nat \<Rightarrow> u64 \<Rightarrow> ('e + 'a) \<times> nat \<times> u64 list" where
  "retry_loop f grow m attempt backoff_ms =
     (case f attempt of
        Inr v \<Rightarrow> (Inr v, Suc attempt, [])
      | Inl e \<Rightarrow>
          if Suc attempt > m then (Inl e, Suc attempt, [])
          else (let (r, n, ds) = retry_loop f grow m (Suc attempt) (grow backoff_ms)
                in (r, n, backoff_ms # ds)))"
  by pat_completeness auto
termination
  by (relation "measure (\<lambda>(f, grow, m, attempt, b). m - attempt)") auto

declare retry_loop.simps [simp del]

definition retry_with_backoff ::
  "(nat \<Rightarrow> 'e + 'a) \<Rightarrow> (u64 \<Rightarrow> u64) \<Rightarrow> RetryConfig \<Rightarrow> ('e + 'a) \<times> nat \<times> u64 list" where
  "retry_with_backoff f grow config =
     retry_loop f grow (unat (max_retries config)) 0 (initial_backoff_ms config)"

lemma retry_loop_spec:
  assumes "retry_loop f grow m k b = (r, n, ds)" "k \<le> m"
  shows "k < n \<and> n \<le> Suc m \<and> r = f (n - 1) \<and> (\<forall>i. k \<le> i \<and> i < n - 1 \<longrightarrow> \<not> is_ok (f i)) \<and>
    (is_ok r \<or> n = Suc m) \<and> ds = map (\<lambda>i. (grow ^^ i) b) [0..<n - Suc k]"
  using assms
proof (induction f grow m k b arbitrary: ds rule: retry_loop.induct)
  case (1 f grow m k b)
  show ?case
  proof (cases "f k")
    case (Inr v)
    with 1(2) have "n = Suc k" "r = Inr v" "ds = []" by (simp_all add: retry_loop.simps [of f grow m k])
    with Inr 1(3) show ?thesis by auto
  next
    case (Inl e)
    show ?thesis
    proof (cases "Suc k > m")
      case True
      with Inl 1(2) have "n = Suc k" "r = Inl e" "ds = []"
        by (simp_all add: retry_loop.simps [of f grow m k])
      with Inl True 1(3) show ?thesis by auto
    next
      case False
      with Inl 1(2) obtain ds' where rest: "retry_loop f grow m (Suc k) (grow b) = (r, n, ds')"
        and ds: "ds = b # ds'"
        by (auto simp: retry_loop.simps [of f grow m k] split: prod.splits)
      have IH: "Suc k < n \<and> n \<le> Suc m \<and> r = f (n - 1) \<and>
          (\<forall>i. Suc k \<le> i \<and> i < n - 1 \<longrightarrow> \<not> is_ok (f i)) \<and> (is_ok r \<or> n = Suc m) \<and>
          ds' = map (\<lambda>i. (grow ^^ i) (grow b)) [0..<n - Suc (Suc k)]"
        by (rule 1(1) [OF Inl False rest]) (use False in simp)
      then have "Suc k < n" by (rule conjunct1)
      then have "n - Suc k = Suc (n - Suc (Suc k))" by linarith
      then have "ds = map (\<lambda>i. (grow ^^ i) b) [0..<n - Suc k]"
        using IH ds by (simp add: upt_rec [of 0] map_Suc_upt [symmetric] funpow_swap1 comp_def del: upt_Suc)
      moreover have "\<not> is_ok (f i)" if "k \<le> i" "i < n - 1" for i
        using that IH Inl by (cases "i = k") auto
      ultimately show ?thesis using IH Suc_lessD by blast
    qed
  qed
qed

section \<open>The circuit breaker\<close>

datatype CircuitState = Closed | Open | HalfOpen

record CircuitStatus =
  cb_state :: CircuitState
  changed_at :: nat
  half_open_success :: u32
  half_open_in_flight :: u32

record CircuitBreaker =
  failure_threshold :: u32
  cb_timeout :: nat
  half_open_max :: u32
  failure_count :: u32
  cb_status :: CircuitStatus
  cb_poisoned :: bool

text \<open>\<open>None\<close> is the panic of the assertion.\<close>

definition CircuitBreaker_new :: "u32 \<Rightarrow> u64 \<Rightarrow> u32 \<Rightarrow> nat \<Rightarrow> CircuitBreaker option" where
  "CircuitBreaker_new threshold timeout_secs max_probes now =
     (if 0 < max_probes
      then Some \<lparr>failure_threshold = threshold, cb_timeout = unat timeout_secs * 10 ^ 9,
                half_open_max = max_probes, failure_count = 0,
                cb_status = \<lparr>cb_state = Closed, changed_at = now, half_open_success = 0,
                             half_open_in_flight = 0\<rparr>,
                cb_poisoned = False\<rparr>
      else None)"

definition default_config :: "nat \<Rightarrow> CircuitBreaker option" where
  "default_config now = CircuitBreaker_new 5 30 3 now"

definition status_guard :: "nat \<Rightarrow> CircuitBreaker \<Rightarrow> CircuitBreaker" where
  "status_guard now cb =
     (if cb_poisoned cb
      then cb\<lparr>cb_status := \<lparr>cb_state = Open, changed_at = now, half_open_success = 0,
                             half_open_in_flight = 0\<rparr>,
              failure_count := failure_threshold cb, cb_poisoned := False\<rparr>
      else cb)"

definition allow_request :: "nat \<Rightarrow> CircuitBreaker \<Rightarrow> bool \<times> CircuitBreaker" where
  "allow_request now cb0 =
     (let cb = status_guard now cb0; st = cb_status cb
      in case cb_state st of
           Closed \<Rightarrow> (True, cb)
         | HalfOpen \<Rightarrow>
             if half_open_max cb \<le> half_open_success st + half_open_in_flight st then (False, cb)
             else (True, cb\<lparr>cb_status := st\<lparr>half_open_in_flight := half_open_in_flight st + 1\<rparr>\<rparr>)
         | Open \<Rightarrow>
             if cb_timeout cb \<le> now - changed_at st
             then (True, cb\<lparr>cb_status := \<lparr>cb_state = HalfOpen, changed_at = now,
                                           half_open_success = 0, half_open_in_flight = 1\<rparr>\<rparr>)
             else (False, cb))"

definition record_success :: "nat \<Rightarrow> CircuitBreaker \<Rightarrow> CircuitBreaker" where
  "record_success now cb0 =
     (let cb = status_guard now cb0; st = cb_status cb
      in case cb_state st of
           Closed \<Rightarrow> cb\<lparr>failure_count := 0\<rparr>
         | HalfOpen \<Rightarrow>
             if half_open_in_flight st = 0 then cb
             else let st' = st\<lparr>half_open_in_flight := half_open_in_flight st - 1,
                               half_open_success := half_open_success st + 1\<rparr>
                  in if half_open_max cb \<le> half_open_success st'
                     then cb\<lparr>cb_status := \<lparr>cb_state = Closed, changed_at = now,
                              half_open_success = 0, half_open_in_flight = 0\<rparr>, failure_count := 0\<rparr>
                     else cb\<lparr>cb_status := st'\<rparr>
         | Open \<Rightarrow> cb\<lparr>failure_count := 0\<rparr>)"

definition record_failure :: "nat \<Rightarrow> CircuitBreaker \<Rightarrow> CircuitBreaker" where
  "record_failure now cb0 =
     (let cb = status_guard now cb0; st = cb_status cb
      in case cb_state st of
           Closed \<Rightarrow>
             (let count = failure_count cb + 1; cb' = cb\<lparr>failure_count := count\<rparr>
              in if failure_threshold cb \<le> count
                 then cb'\<lparr>cb_status := st\<lparr>cb_state := Open, changed_at := now\<rparr>\<rparr>
                 else cb')
         | HalfOpen \<Rightarrow>
             cb\<lparr>cb_status := \<lparr>cb_state = Open, changed_at = now, half_open_success = 0,
                              half_open_in_flight = 0\<rparr>\<rparr>
         | Open \<Rightarrow> cb\<lparr>failure_count := 0\<rparr>)"

definition current_state :: "nat \<Rightarrow> CircuitBreaker \<Rightarrow> CircuitState \<times> CircuitBreaker" where
  "current_state now cb0 = (let cb = status_guard now cb0 in (cb_state (cb_status cb), cb))"

text \<open>The calls a breaker can meet; \<open>Poison\<close> is a panic of another thread under the lock.\<close>

datatype cb_call = AllowRequest | RecordSuccess | RecordFailure | CurrentState | Poison

fun cb_step :: "nat \<times> cb_call \<Rightarrow> CircuitBreaker \<Rightarrow> CircuitBreaker" where
  "cb_step (now, AllowRequest) cb = snd (allow_request now cb)"
| "cb_step (now, RecordSuccess) cb = record_success now cb"
| "cb_step (now, RecordFailure) cb = record_failure now cb"
| "cb_step (now, CurrentState) cb = snd (current_state now cb)"
| "cb_step (now, Poison) cb = cb\<lparr>cb_poisoned := True\<rparr>"

lemmas cb_op_defs = allow_request_def record_success_def record_failure_def current_state_def
  status_guard_def Let_def

section \<open>The invariant\<close>

text \<open>
  Only a half-open breaker has probes; their number plus the successes so far is at most the
  quota, and below the quota the breaker would already have closed. A closed breaker is below
  its failure threshold.
\<close>

definition cb_inv :: "CircuitBreaker \<Rightarrow> bool" where
  "cb_inv cb \<longleftrightarrow>
     (let st = cb_status cb in
      0 < half_open_max cb \<and>
      (cb_state st \<noteq> HalfOpen \<longrightarrow> half_open_success st = 0 \<and> half_open_in_flight st = 0) \<and>
      unat (half_open_success st) + unat (half_open_in_flight st) \<le> unat (half_open_max cb) \<and>
      half_open_success st < half_open_max cb \<and>
      (cb_state st = Closed \<longrightarrow> failure_count cb = 0 \<or> failure_count cb < failure_threshold cb))"

lemma unat_add_bounded:
  "unat (a :: u32) + unat b \<le> unat (c :: u32) \<Longrightarrow> unat (a + b) = unat a + unat b"
proof -
  assume h: "unat a + unat b \<le> unat c"
  have "unat c < 2 ^ LENGTH(32)" by (rule unsigned_less)
  with h have "unat a + unat b < 2 ^ LENGTH(32)" by (rule le_less_trans)
  then show "unat (a + b) = unat a + unat b" by (simp only: unat_word_ariths mod_less)
qed

lemma unat_inc: "(a :: u32) < b \<Longrightarrow> unat (a + 1) = Suc (unat a)"
  using unat_add_bounded [of a 1 b] by (simp add: word_less_nat_alt)

lemma unat_dec: "(a :: u32) \<noteq> 0 \<Longrightarrow> unat (a - 1) = unat a - 1"
  by (simp add: unat_minus_one)

lemma cb_inv_new: "CircuitBreaker_new t s m now = Some cb \<Longrightarrow> cb_inv cb"
  by (auto simp: CircuitBreaker_new_def cb_inv_def Let_def split: if_splits)

lemma status_guard_inv: "cb_inv cb \<Longrightarrow> cb_inv (status_guard now cb)"
  by (auto simp: cb_inv_def status_guard_def Let_def)

lemma allow_request_inv:
  assumes "cb_inv cb0"
  shows "cb_inv (snd (allow_request now cb0))"
proof -
  define cb where "cb = status_guard now cb0"
  define st where "st = cb_status cb"
  have inv: "cb_inv cb" unfolding cb_def using assms by (rule status_guard_inv)
  then have bound: "unat (half_open_success st) + unat (half_open_in_flight st) \<le> unat (half_open_max cb)"
    by (simp add: cb_inv_def Let_def st_def)
  show ?thesis
  proof (cases "cb_state st")
    case HalfOpen
    show ?thesis
    proof (cases "half_open_max cb \<le> half_open_success st + half_open_in_flight st")
      case True
      with HalfOpen inv show ?thesis
        by (simp add: allow_request_def Let_def flip: cb_def st_def)
    next
      case False
      then have "half_open_success st + half_open_in_flight st < half_open_max cb" by simp
      then have lt: "unat (half_open_success st) + unat (half_open_in_flight st) < unat (half_open_max cb)"
        using unat_add_bounded [OF bound] by (simp add: word_less_nat_alt)
      then have "half_open_in_flight st < half_open_max cb" by (simp add: word_less_nat_alt)
      then have "unat (half_open_in_flight st + 1) = Suc (unat (half_open_in_flight st))"
        by (rule unat_inc)
      with lt HalfOpen False inv show ?thesis
        by (simp add: allow_request_def Let_def cb_inv_def flip: cb_def st_def)
    qed
  next
    case Open
    have "1 \<le> unat (half_open_max cb)"
      using inv by (simp add: cb_inv_def Let_def word_less_nat_alt)
    with Open inv show ?thesis
      by (simp add: allow_request_def Let_def cb_inv_def flip: cb_def st_def)
  next
    case Closed
    with inv show ?thesis by (simp add: allow_request_def Let_def flip: cb_def st_def)
  qed
qed

lemma record_success_inv:
  assumes "cb_inv cb0"
  shows "cb_inv (record_success now cb0)"
proof -
  define cb where "cb = status_guard now cb0"
  define st where "st = cb_status cb"
  have inv: "cb_inv cb" unfolding cb_def using assms by (rule status_guard_inv)
  show ?thesis
  proof (cases "cb_state st = HalfOpen \<and> half_open_in_flight st \<noteq> 0")
    case False
    with inv show ?thesis
      by (cases "cb_state st")
        (auto simp: record_success_def Let_def cb_inv_def simp flip: cb_def st_def)
  next
    case True
    then have ho: "cb_state st = HalfOpen" and nz: "half_open_in_flight st \<noteq> 0" by auto
    have inc: "unat (half_open_success st + 1) = Suc (unat (half_open_success st))"
      using inv unat_inc [of "half_open_success st" "half_open_max cb"]
      by (simp add: cb_inv_def Let_def st_def)
    have dec: "unat (half_open_in_flight st - 1) = unat (half_open_in_flight st) - 1"
      using nz by (rule unat_dec)
    have pos: "0 < unat (half_open_in_flight st)" using nz by (simp add: unat_gt_0)
    have "unat (half_open_success st + 1) + unat (half_open_in_flight st - 1)
        = unat (half_open_success st) + unat (half_open_in_flight st)"
      using inc dec pos by simp
    with ho nz inv show ?thesis
      by (auto simp: record_success_def Let_def cb_inv_def not_le simp flip: cb_def st_def)
  qed
qed

lemma record_failure_inv:
  assumes "cb_inv cb0"
  shows "cb_inv (record_failure now cb0)"
  using status_guard_inv [OF assms, of now]
  by (cases "cb_state (cb_status (status_guard now cb0))")
    (auto simp: record_failure_def Let_def cb_inv_def not_le)

lemma cb_step_inv: "cb_inv cb \<Longrightarrow> cb_inv (cb_step c cb)"
  by (induction c cb rule: cb_step.induct)
    (simp_all add: allow_request_inv record_success_inv record_failure_inv current_state_def
      status_guard_inv Let_def, simp add: cb_inv_def)

lemma cb_run_inv: "cb_inv cb \<Longrightarrow> cb_inv (fold cb_step calls cb)"
  by (rule fold_invariant [where Q = "\<lambda>_. True"]) (auto intro: cb_step_inv)

lemma cb_run_config:
  "half_open_max (fold cb_step calls cb) = half_open_max cb \<and>
   failure_threshold (fold cb_step calls cb) = failure_threshold cb \<and>
   cb_timeout (fold cb_step calls cb) = cb_timeout cb"
proof (induction calls arbitrary: cb)
  case (Cons c calls)
  have "half_open_max (cb_step c cb) = half_open_max cb \<and>
      failure_threshold (cb_step c cb) = failure_threshold cb \<and> cb_timeout (cb_step c cb) = cb_timeout cb"
    by (induction c cb rule: cb_step.induct) (auto simp: cb_op_defs split: CircuitState.splits)
  with Cons show ?case by simp
qed simp

section \<open>Properties\<close>

text \<open>Which calls of a run were requests that the breaker let through.\<close>

fun admitted :: "(nat \<times> cb_call) list \<Rightarrow> CircuitBreaker \<Rightarrow> nat" where
  "admitted [] cb = 0"
| "admitted ((now, c) # calls) cb =
     (if c = AllowRequest \<and> fst (allow_request now cb) then 1 else 0) + admitted calls (cb_step (now, c) cb)"

text \<open>The state is the given one after every prefix of the run.\<close>

fun stays :: "CircuitState \<Rightarrow> (nat \<times> cb_call) list \<Rightarrow> CircuitBreaker \<Rightarrow> bool" where
  "stays s [] cb \<longleftrightarrow> cb_state (cb_status cb) = s"
| "stays s (c # calls) cb \<longleftrightarrow> cb_state (cb_status cb) = s \<and> stays s calls (cb_step c cb)"

abbreviation probes :: "CircuitBreaker \<Rightarrow> nat" where
  "probes cb \<equiv> unat (half_open_success (cb_status cb)) + unat (half_open_in_flight (cb_status cb))"

lemma admitted_probes_step:
  assumes inv: "cb_inv cb" and ho: "cb_state (cb_status cb) = HalfOpen"
    and ho': "cb_state (cb_status (cb_step (now, c) cb)) = HalfOpen"
  shows "probes (cb_step (now, c) cb) = probes cb + admitted [(now, c)] cb \<or> cb_poisoned cb"
proof (cases "cb_poisoned cb")
  case False
  define st where "st = cb_status cb"
  have g: "status_guard now cb = cb" using False by (simp add: status_guard_def)
  have bound: "unat (half_open_success st) + unat (half_open_in_flight st) \<le> unat (half_open_max cb)"
    using inv by (simp add: cb_inv_def Let_def st_def)
  show ?thesis
  proof (cases c)
    case AllowRequest
    show ?thesis
    proof (cases "half_open_max cb \<le> half_open_success st + half_open_in_flight st")
      case True
      with AllowRequest ho show ?thesis by (simp add: allow_request_def g Let_def flip: st_def)
    next
      case False
      then have "half_open_success st + half_open_in_flight st < half_open_max cb" by simp
      then have "half_open_in_flight st < half_open_max cb"
        using unat_add_bounded [OF bound] by (simp add: word_less_nat_alt)
      then have "unat (half_open_in_flight st + 1) = Suc (unat (half_open_in_flight st))"
        by (rule unat_inc)
      with AllowRequest False ho show ?thesis
        by (simp add: allow_request_def g Let_def not_le flip: st_def)
    qed
  next
    case RecordSuccess
    have inc: "unat (half_open_success st + 1) = Suc (unat (half_open_success st))"
      using inv unat_inc [of "half_open_success st" "half_open_max cb"]
      by (simp add: cb_inv_def Let_def st_def)
    have "unat (half_open_in_flight st) = Suc (unat (half_open_in_flight st - 1))"
      if "half_open_in_flight st \<noteq> 0"
      using that unat_dec [OF that] unat_gt_0 [of "half_open_in_flight st"] by simp
    with RecordSuccess ho ho' inc show ?thesis
      by (auto simp: record_success_def g Let_def simp flip: st_def split: if_splits)
  next
    case RecordFailure
    with ho ho' show ?thesis by (simp add: record_failure_def g Let_def)
  next
    case CurrentState
    then show ?thesis by (simp add: current_state_def g Let_def)
  next
    case Poison
    then show ?thesis by simp
  qed
qed simp

lemma cb_step_unpoisoned:
  "c \<noteq> Poison \<Longrightarrow> \<not> cb_poisoned (cb_step (now, c) cb)"
  by (cases c) (auto simp: cb_op_defs split: CircuitState.splits)

lemma admitted_probes:
  assumes "cb_inv cb" "\<not> cb_poisoned cb" "stays HalfOpen calls cb" "Poison \<notin> snd ` set calls"
  shows "probes (fold cb_step calls cb) = probes cb + admitted calls cb"
  using assms
proof (induction calls arbitrary: cb)
  case (Cons c calls)
  obtain now k where c: "c = (now, k)" by (cases c)
  have ho: "cb_state (cb_status cb) = HalfOpen" and st: "stays HalfOpen calls (cb_step (now, k) cb)"
    using Cons.prems(3) c by auto
  have ho': "cb_state (cb_status (cb_step (now, k) cb)) = HalfOpen"
    using st by (cases calls) auto
  have "probes (cb_step (now, k) cb) = probes cb + admitted [(now, k)] cb"
    using admitted_probes_step [OF Cons.prems(1) ho ho'] Cons.prems(2) by blast
  moreover have "probes (fold cb_step calls (cb_step (now, k) cb))
      = probes (cb_step (now, k) cb) + admitted calls (cb_step (now, k) cb)"
    using Cons.prems c st cb_step_unpoisoned [of k now cb]
    by (intro Cons.IH) (auto intro: cb_step_inv)
  ultimately show ?case by (simp add: c)
qed simp

text \<open>
  Retries: the operation is called at least once and at most \<open>max_retries + 1\<close> times, every
  call but the last failed, the result is that of the last call, an error is only returned after
  the last permitted call, and between two calls the loop slept, each time for the next delay of
  the back-off sequence that starts at the configured initial delay.
\<close>

theorem retry_exact:
  assumes "retry_with_backoff f grow config = (r, n, delays)"
  shows "1 \<le> n \<and> n \<le> unat (max_retries config) + 1 \<and> r = f (n - 1) \<and>
    (\<forall>i < n - 1. \<not> is_ok (f i)) \<and> (is_ok r \<or> n = unat (max_retries config) + 1) \<and>
    delays = map (\<lambda>i. (grow ^^ i) (initial_backoff_ms config)) [0..<n - 1]"
  using retry_loop_spec [OF assms [unfolded retry_with_backoff_def]] by auto

theorem retry_exact_witness:
  "let f = (\<lambda>k. if k < 2 then Inl k else Inr ''done'') in
   retry_with_backoff f (\<lambda>b. 2 * b) RetryConfig_fast = (Inr ''done'', 3, [10, 20]) \<and>
   (\<forall>i < (2::nat). \<not> is_ok (f i))"
proof -
  let ?f = "\<lambda>k::nat. if k < 2 then Inl k else Inr ''done''"
  have run: "retry_with_backoff ?f (\<lambda>b. 2 * b) RetryConfig_fast = (Inr ''done'', 3, [10, 20])"
    by (simp add: retry_with_backoff_def RetryConfig_fast_def retry_loop.simps)
  from retry_exact [OF run] run show ?thesis by (simp add: Let_def)
qed

text \<open>
  Probe quota: after any history, once an open breaker has turned half-open it lets at most
  \<open>half_open_max\<close> requests through, the one that turned it included, for as long as it stays
  half-open, whatever calls arrive in whatever order and at whatever times.
\<close>

theorem half_open_quota:
  assumes new: "CircuitBreaker_new t s m start = Some cb0"
    and cb: "cb = fold cb_step history cb0"
    and turn: "cb_state (cb_status cb) = Open" "cb_state (cb_status (cb_step (now, AllowRequest) cb)) = HalfOpen"
    and stay: "stays HalfOpen calls (cb_step (now, AllowRequest) cb)" "Poison \<notin> snd ` set calls"
  shows "admitted ((now, AllowRequest) # calls) cb \<le> unat m"
proof -
  let ?cb1 = "cb_step (now, AllowRequest) cb"
  have inv: "cb_inv cb" unfolding cb by (rule cb_run_inv) (rule cb_inv_new [OF new])
  have inv1: "cb_inv ?cb1" using inv by (rule cb_step_inv)
  have one: "probes ?cb1 = 1" "admitted [(now, AllowRequest)] cb = 1"
    using turn by (auto simp: allow_request_def Let_def status_guard_def split: if_splits)
  have m: "half_open_max (fold cb_step calls ?cb1) = m"
    using new cb_run_config [of calls ?cb1] cb_run_config [of "[(now, AllowRequest)]" cb]
      cb_run_config [of history cb0]
    by (auto simp: cb CircuitBreaker_new_def split: if_splits)
  have "probes (fold cb_step calls ?cb1) = 1 + admitted calls ?cb1"
    using admitted_probes [OF inv1 _ stay] cb_step_unpoisoned [of AllowRequest now cb] one by simp
  moreover have "probes (fold cb_step calls ?cb1) \<le> unat m"
    using cb_run_inv [OF inv1, of calls] m by (simp add: cb_inv_def Let_def)
  ultimately show ?thesis using one by simp
qed

theorem half_open_quota_witness:
  "let cb0 = the (CircuitBreaker_new 1 30 2 0); cb = fold cb_step [(0, RecordFailure)] cb0;
     calls = [(31000000001, AllowRequest), (31000000002, AllowRequest), (31000000003, RecordSuccess)]
   in cb_state (cb_status cb) = Open \<and> admitted ((31000000000, AllowRequest) # calls) cb \<le> 2"
proof -
  obtain cb0 where new: "CircuitBreaker_new 1 30 2 0 = Some cb0"
    and cb0: "cb0 = the (CircuitBreaker_new 1 30 2 0)"
    by (simp add: CircuitBreaker_new_def)
  let ?cb = "fold cb_step [(0, RecordFailure)] cb0"
  let ?calls = "[(31000000001, AllowRequest), (31000000002, AllowRequest), (31000000003, RecordSuccess)]"
  have turn: "cb_state (cb_status ?cb) = Open"
    "cb_state (cb_status (cb_step (31000000000, AllowRequest) ?cb)) = HalfOpen"
    "stays HalfOpen ?calls (cb_step (31000000000, AllowRequest) ?cb)"
    by (simp_all add: cb0 CircuitBreaker_new_def cb_op_defs word_le_nat_alt)
  have "admitted ((31000000000, AllowRequest) # ?calls) ?cb \<le> unat (2 :: u32)"
    by (rule half_open_quota [OF new refl turn]) simp
  with turn(1) show ?thesis by (simp add: Let_def cb0)
qed

lemma failures_below_threshold:
  assumes "\<not> cb_poisoned cb" "cb_state (cb_status cb) = Closed"
    and "unat (failure_count cb) + length ts < unat (failure_threshold cb)"
  shows "fold cb_step (map (\<lambda>at. (at, RecordFailure)) ts) cb
    = cb\<lparr>failure_count := failure_count cb + of_nat (length ts)\<rparr>"
  using assms
proof (induction ts arbitrary: cb)
  case (Cons t ts)
  have "failure_count cb < failure_threshold cb"
    using Cons.prems(3) by (simp add: word_less_nat_alt)
  then have inc: "unat (failure_count cb + 1) = Suc (unat (failure_count cb))" by (rule unat_inc)
  with Cons.prems have step: "cb_step (t, RecordFailure) cb = cb\<lparr>failure_count := failure_count cb + 1\<rparr>"
    by (simp add: record_failure_def status_guard_def Let_def word_le_nat_alt)
  have "fold cb_step (map (\<lambda>at. (at, RecordFailure)) ts) (cb\<lparr>failure_count := failure_count cb + 1\<rparr>)
      = cb\<lparr>failure_count := failure_count cb + 1 + of_nat (length ts)\<rparr>"
    using Cons.IH [of "cb\<lparr>failure_count := failure_count cb + 1\<rparr>"] Cons.prems inc by simp
  with step show ?case by (simp add: add_ac)
qed simp

text \<open>
  Opening: from a closed breaker with no failures, a run of consecutive failures leaves it
  closed as long as it is shorter than the threshold and opens it, with the clock of the failure
  that reached the threshold, exactly when the threshold is reached.
\<close>

theorem breaker_opens_at_threshold:
  assumes "CircuitBreaker_new t s m start = Some cb" "0 < t"
  shows "(\<forall>ts. length ts < unat t \<longrightarrow>
      cb_state (cb_status (fold cb_step (map (\<lambda>at. (at, RecordFailure)) ts) cb)) = Closed) \<and>
    (\<forall>ts last. Suc (length ts) = unat t \<longrightarrow>
      (let cb' = fold cb_step (map (\<lambda>at. (at, RecordFailure)) (ts @ [last])) cb
       in cb_state (cb_status cb') = Open \<and> changed_at (cb_status cb') = last))"
proof -
  have cb: "\<not> cb_poisoned cb" "cb_state (cb_status cb) = Closed" "failure_count cb = 0"
      "failure_threshold cb = t"
    using assms(1) by (auto simp: CircuitBreaker_new_def split: if_splits)
  have below: "fold cb_step (map (\<lambda>at. (at, RecordFailure)) ts) cb
      = cb\<lparr>failure_count := of_nat (length ts)\<rparr>" if "length ts < unat t" for ts
    using failures_below_threshold [of cb ts] cb that by simp
  have "t \<le> of_nat (length ts) + 1" if "Suc (length ts) = unat t" for ts :: "nat list"
    using that by (metis Suc_eq_plus1 order_refl of_nat_1 of_nat_add of_nat_unat ucast_id)
  with below cb show ?thesis
    by (auto simp: Let_def record_failure_def status_guard_def)
qed

theorem breaker_opens_at_threshold_witness:
  "\<exists>cb. CircuitBreaker_new 3 30 2 0 = Some cb \<and>
     cb_state (cb_status (fold cb_step [(1, RecordFailure), (2, RecordFailure)] cb)) = Closed \<and>
     cb_state (cb_status (fold cb_step [(1, RecordFailure), (2, RecordFailure), (7, RecordFailure)] cb)) = Open"
proof -
  obtain cb where new: "CircuitBreaker_new 3 30 2 0 = Some cb" by (simp add: CircuitBreaker_new_def)
  note T = breaker_opens_at_threshold [OF new]
  have "cb_state (cb_status (fold cb_step (map (\<lambda>at. (at, RecordFailure)) [1, 2]) cb)) = Closed"
    using T by (simp del: fold.simps list.map)
  moreover have "cb_state (cb_status (fold cb_step (map (\<lambda>at. (at, RecordFailure)) ([1, 2] @ [7])) cb)) = Open"
    using conjunct2 [OF T] by (simp add: Let_def del: fold.simps list.map append.simps)
  ultimately show ?thesis using new by auto
qed

end
