(* ===== verification/Rate_Limit.thy ===== *)
theory Rate_Limit
  imports Rust_Strings
begin

text \<open>
  \<open>crates/ryframe-adapters/src/rate_limit.rs\<close>: the fixed-window rate limiter. The in-memory
  mode is modelled completely: the bucket table is a map, an \<open>Instant\<close> is a number of
  nanoseconds read once per call, the garbage collector's sweep is a step of its own. Of the
  Redis mode the body of the watched transaction (what it reads, what it queues, what it
  answers) and the reply parser are modelled; the server is not. \<open>u64\<close> windows are \<open>nat\<close>: the
  code only clamps them from below and adds them to a clock.
\<close>

section \<open>State and operations\<close>

definition RATE_LIMIT_KEY_PREFIX :: string where
  "RATE_LIMIT_KEY_PREFIX = ''ryframe:v0.5:rate-limit:''"

record WindowBucket =
  wb_count :: u32
  reset_at :: nat

record RateLimitDecision =
  allowed :: bool
  decision_retry_after :: nat

record RateLimitSnapshot =
  snap_key :: string
  snap_current :: nat
  snap_limit :: u32
  remaining_secs :: nat

record RateLimiterInner =
  buckets :: "string \<Rightarrow> WindowBucket option"
  default_capacity :: u32
  default_window_secs :: nat

definition nanos_per_sec :: nat where "nanos_per_sec = 10 ^ 9"

definition new_in_memory :: "u32 \<Rightarrow> nat \<Rightarrow> RateLimiterInner" where
  "new_in_memory capacity window_secs =
     \<lparr>buckets = \<lambda>_. None, default_capacity = max capacity 1, default_window_secs = max window_secs 1\<rparr>"

definition secs_until :: "nat \<Rightarrow> nat \<Rightarrow> nat" where
  "secs_until reset now = max ((reset - now) div nanos_per_sec) 1"

definition acquire ::
  "nat \<Rightarrow> string \<Rightarrow> nat \<Rightarrow> u32 \<Rightarrow> RateLimiterInner \<Rightarrow> RateLimitDecision \<times> RateLimiterInner" where
  "acquire now key window_secs0 limit0 rl =
     (let window_secs = max window_secs0 1; limit = max limit0 1;
          reset = now + window_secs * nanos_per_sec;
          bucket0 = (case buckets rl key of Some b \<Rightarrow> b | None \<Rightarrow> \<lparr>wb_count = 0, reset_at = reset\<rparr>);
          bucket1 = (if reset_at bucket0 \<le> now then \<lparr>wb_count = 0, reset_at = reset\<rparr> else bucket0);
          bucket = bucket1\<lparr>wb_count := saturating_add (wb_count bucket1) 1\<rparr>
      in (\<lparr>allowed = wb_count bucket \<le> limit,
           decision_retry_after = secs_until (reset_at bucket) now\<rparr>,
          rl\<lparr>buckets := (buckets rl)(key \<mapsto> bucket)\<rparr>))"

definition default_rule :: "RateLimiterInner \<Rightarrow> u32 \<times> nat" where
  "default_rule rl = (default_capacity rl, default_window_secs rl)"

definition try_acquire :: "nat \<Rightarrow> string \<Rightarrow> RateLimiterInner \<Rightarrow> bool \<times> RateLimiterInner" where
  "try_acquire now key rl =
     (let (capacity, window_secs) = default_rule rl; (d, rl') = acquire now key window_secs capacity rl
      in (allowed d, rl'))"

definition snapshot_many :: "nat \<Rightarrow> string list \<Rightarrow> u32 \<Rightarrow> RateLimiterInner \<Rightarrow> RateLimitSnapshot list" where
  "snapshot_many now keys limit rl =
     map (\<lambda>key.
       let (current, remaining) =
             (case buckets rl key of
                Some b \<Rightarrow> if now < reset_at b then (unat (wb_count b), secs_until (reset_at b) now) else (0, 0)
              | None \<Rightarrow> (0, 0))
       in \<lparr>snap_key = key, snap_current = current, snap_limit = limit, remaining_secs = remaining\<rparr>) keys"

definition gc_sweep :: "nat \<Rightarrow> RateLimiterInner \<Rightarrow> RateLimiterInner" where
  "gc_sweep now rl =
     rl\<lparr>buckets := \<lambda>key. case buckets rl key of
                           Some b \<Rightarrow> if now < reset_at b then Some b else None
                         | None \<Rightarrow> None\<rparr>"

section \<open>Keys\<close>

definition user_key :: "string \<Rightarrow> string" where
  "user_key user_id = ''user:'' @ user_id"

definition tenant_user_key :: "string \<Rightarrow> string \<Rightarrow> string" where
  "tenant_user_key tenant_id user_id = ''tenant_user:'' @ tenant_id @ '':'' @ user_id"

definition tenant_key :: "string \<Rightarrow> string" where
  "tenant_key tenant_id = ''tenant:'' @ tenant_id"

definition api_key :: "string \<Rightarrow> string" where
  "api_key path = ''api:'' @ path"

text \<open>The client address is given by its text.\<close>

definition api_client_key :: "string \<Rightarrow> string \<Rightarrow> string" where
  "api_client_key path client_ip = ''api:'' @ path @ '':ip:'' @ client_ip"

definition user_api_key :: "string \<Rightarrow> string \<Rightarrow> string" where
  "user_api_key user_id path = ''user_api:'' @ user_id @ '':'' @ path"

lemmas rate_key_defs = user_key_def tenant_user_key_def tenant_key_def api_key_def
  api_client_key_def user_api_key_def

section \<open>The Redis mode\<close>

definition redis_ttl_secs :: "nat \<Rightarrow> int" where
  "redis_ttl_secs ttl_secs = int (min ttl_secs (nat i64_max))"

datatype queued_command = Incr string | Expire string int

text \<open>
  The body of the watched transaction of \<open>acquire\<close>: from the counter and the time to live it read,
  the commands it queues and whether the request is within the limit (\<open>current\<close> is a \<open>u64\<close>).
\<close>

definition redis_acquire ::
  "string \<Rightarrow> nat option \<Rightarrow> int \<Rightarrow> nat \<Rightarrow> u32 \<Rightarrow> queued_command list \<times> RateLimitDecision" where
  "redis_acquire redis_key current ttl window_secs0 limit0 =
     (let window_secs = max window_secs0 1; limit = max limit0 1;
          count = min ((case current of None \<Rightarrow> 0 | Some c \<Rightarrow> c) + 1) (2 ^ 64 - 1)
      in (Incr redis_key #
            (if current = None \<or> ttl < 0 then [Expire redis_key (redis_ttl_secs window_secs)] else []),
          \<lparr>allowed = count \<le> unat limit, decision_retry_after = window_secs\<rparr>))"

text \<open>
  A reply of the server; \<open>OtherValue\<close> stands for the constructors the parser rejects. \<open>dbg\<close> is
  the client library's debug text of a value. Bytes that are not UTF-8 are not digits
  either, so the numeric parser refuses what the UTF-8 check would refuse.
\<close>

datatype redis_value = Nil | RInt int | BulkString string | OtherValue string

fun redis_snapshot_integer :: "(redis_value \<Rightarrow> string) \<Rightarrow> redis_value \<Rightarrow> string + nat" where
  "redis_snapshot_integer dbg Nil = Inr 0"
| "redis_snapshot_integer dbg (RInt i) = (if i < 0 then Inr 0 else Inr (nat i))"
| "redis_snapshot_integer dbg (BulkString bytes) =
     (case parse_unsigned (2 ^ 64 - 1) bytes of
        Some n \<Rightarrow> Inr n
      | None \<Rightarrow> Inl (''unexpected Redis rate-limit snapshot item: '' @ dbg (BulkString bytes)))"
| "redis_snapshot_integer dbg v = Inl (''unexpected Redis rate-limit snapshot item: '' @ dbg v)"

fun snapshots_of ::
  "(redis_value \<Rightarrow> string) \<Rightarrow> u32 \<Rightarrow> string list \<Rightarrow> redis_value list \<Rightarrow> string + RateLimitSnapshot list" where
  "snapshots_of dbg limit (key # keys) (v # t # values) =
     bind_result (redis_snapshot_integer dbg v) (\<lambda>current.
     bind_result (redis_snapshot_integer dbg t) (\<lambda>remaining.
     bind_result (snapshots_of dbg limit keys values) (\<lambda>rest.
     Inr (\<lparr>snap_key = key, snap_current = current, snap_limit = limit, remaining_secs = remaining\<rparr> # rest))))"
| "snapshots_of dbg limit _ _ = Inr []"

definition parse_redis_snapshots ::
  "(redis_value \<Rightarrow> string) \<Rightarrow> string list \<Rightarrow> u32 \<Rightarrow> redis_value list \<Rightarrow> string + RateLimitSnapshot list" where
  "parse_redis_snapshots dbg keys limit values =
     (if length values \<noteq> min (length keys * 2) (2 ^ 64 - 1)
      then Inl ''Redis rate-limit snapshot returned an invalid item count''
      else snapshots_of dbg limit keys values)"

section \<open>Runs\<close>

text \<open>The calls a limiter meets, each with the clock it reads; the answers are collected.\<close>

datatype rl_call =
  Acquire string nat u32 | TryAcquire string | SnapshotMany "string list" u32 | Gc

datatype rl_answer = Decision RateLimitDecision | Admitted bool | Snapshots "RateLimitSnapshot list" | Swept

fun rl_step :: "nat \<times> rl_call \<Rightarrow> RateLimiterInner \<Rightarrow> rl_answer \<times> RateLimiterInner" where
  "rl_step (now, Acquire key w l) rl = (let (d, rl') = acquire now key w l rl in (Decision d, rl'))"
| "rl_step (now, TryAcquire key) rl = (let (ok, rl') = try_acquire now key rl in (Admitted ok, rl'))"
| "rl_step (now, SnapshotMany keys l) rl = (Snapshots (snapshot_many now keys l rl), rl)"
| "rl_step (now, Gc) rl = (Swept, gc_sweep now rl)"

fun rl_run :: "(nat \<times> rl_call) list \<Rightarrow> RateLimiterInner \<Rightarrow> rl_answer list \<times> RateLimiterInner" where
  "rl_run [] rl = ([], rl)"
| "rl_run (c # cs) rl =
     (let (a, rl1) = rl_step c rl; (as, rl2) = rl_run cs rl1 in (a # as, rl2))"

text \<open>The decisions of a run that are about one key, in order.\<close>

fun key_decisions :: "string \<Rightarrow> (nat \<times> rl_call) list \<Rightarrow> rl_answer list \<Rightarrow> bool list" where
  "key_decisions k ((now, Acquire key w l) # cs) (Decision d # as) =
     (if key = k then allowed d # key_decisions k cs as else key_decisions k cs as)"
| "key_decisions k (c # cs) (a # as) = key_decisions k cs as"
| "key_decisions k _ _ = []"

text \<open>The abstract view: the live bucket of a key at an instant.\<close>

definition live :: "nat \<Rightarrow> RateLimiterInner \<Rightarrow> string \<Rightarrow> WindowBucket option" where
  "live now rl key =
     (case buckets rl key of Some b \<Rightarrow> if now < reset_at b then Some b else None | None \<Rightarrow> None)"

definition same_view :: "nat \<Rightarrow> RateLimiterInner \<Rightarrow> RateLimiterInner \<Rightarrow> bool" where
  "same_view now rl rl' \<longleftrightarrow>
     (\<forall>key. live now rl key = live now rl' key) \<and> default_rule rl = default_rule rl'"

lemma live_later: "now \<le> later \<Longrightarrow>
    live later rl key = (case live now rl key of Some b \<Rightarrow> if later < reset_at b then Some b else None | None \<Rightarrow> None)"
  by (auto simp: live_def split: option.splits)

lemma same_view_later: "same_view now rl rl' \<Longrightarrow> now \<le> later \<Longrightarrow> same_view later rl rl'"
  by (simp add: same_view_def live_later [of now later])

lemma live_gc: "live now (gc_sweep at rl) key
    = (case buckets rl key of Some b \<Rightarrow> if now < reset_at b \<and> at < reset_at b then Some b else None | None \<Rightarrow> None)"
  by (auto simp: live_def gc_sweep_def split: option.splits)

lemma same_view_gc: "at \<le> now \<Longrightarrow> same_view now (gc_sweep at rl) rl"
  by (auto simp: same_view_def live_gc default_rule_def gc_sweep_def)
    (auto simp: live_def split: option.splits)

text \<open>The bucket a request is counted in, as a function of the view.\<close>

definition counted :: "nat \<Rightarrow> nat \<Rightarrow> WindowBucket option \<Rightarrow> WindowBucket" where
  "counted now window v =
     (case v of
        Some b \<Rightarrow> b\<lparr>wb_count := saturating_add (wb_count b) 1\<rparr>
      | None \<Rightarrow> \<lparr>wb_count = saturating_add 0 1, reset_at = now + max window 1 * nanos_per_sec\<rparr>)"

lemma nanos_pos [simp]: "0 < nanos_per_sec"
  by (simp add: nanos_per_sec_def)

lemma acquire_view:
  "acquire now key w l rl =
     (let b = counted now w (live now rl key)
      in (\<lparr>allowed = wb_count b \<le> max l 1, decision_retry_after = secs_until (reset_at b) now\<rparr>,
          rl\<lparr>buckets := (buckets rl)(key \<mapsto> b)\<rparr>))"
  by (auto simp: acquire_def counted_def live_def Let_def split: option.splits)

lemma live_acquire:
  "live now (snd (acquire now key w l rl)) k =
     (if k = key then Some (counted now w (live now rl key)) else live now rl k)"
proof (cases "k = key")
  case True
  have "now < reset_at (counted now w (live now rl key))"
    by (auto simp: counted_def live_def split: option.splits)
  with True show ?thesis by (simp add: acquire_view Let_def live_def [of now "rl\<lparr>buckets := _\<rparr>"])
qed (simp add: acquire_view Let_def live_def)

lemma default_rule_acquire [simp]: "default_rule (snd (acquire now key w l rl)) = default_rule rl"
  by (simp add: acquire_view Let_def default_rule_def)

lemma same_view_step:
  assumes "same_view now rl rl'"
  shows "fst (rl_step (now, c) rl) = fst (rl_step (now, c) rl') \<and>
    same_view now (snd (rl_step (now, c) rl)) (snd (rl_step (now, c) rl'))"
proof -
  have v: "live now rl k = live now rl' k" for k using assms by (simp add: same_view_def)
  have r: "default_rule rl = default_rule rl'" using assms by (simp add: same_view_def)
  have acq: "fst (acquire now key w l rl) = fst (acquire now key w l rl') \<and>
      same_view now (snd (acquire now key w l rl)) (snd (acquire now key w l rl'))" for key w l
    by (simp add: same_view_def live_acquire v r) (simp add: acquire_view Let_def v)
  show ?thesis
  proof (cases c)
    case (Acquire key w l)
    with acq [of key w l] show ?thesis by (simp add: case_prod_beta)
  next
    case (TryAcquire key)
    with acq [of key] r show ?thesis by (simp add: case_prod_beta try_acquire_def Let_def)
  next
    case (SnapshotMany keys l)
    have "snapshot_many now keys l rl0 = map (\<lambda>key. case live now rl0 key of
        Some b \<Rightarrow> \<lparr>snap_key = key, snap_current = unat (wb_count b), snap_limit = l,
                  remaining_secs = secs_until (reset_at b) now\<rparr>
      | None \<Rightarrow> \<lparr>snap_key = key, snap_current = 0, snap_limit = l, remaining_secs = 0\<rparr>) keys" for rl0
      by (auto simp: snapshot_many_def live_def split: option.splits)
    with SnapshotMany v assms show ?thesis by simp
  next
    case Gc
    from same_view_gc [OF order_refl, of now rl] same_view_gc [OF order_refl, of now rl'] assms
    have "same_view now (gc_sweep now rl) (gc_sweep now rl')"
      by (simp add: same_view_def)
    with Gc show ?thesis by simp
  qed
qed

lemma same_view_run:
  assumes "same_view now rl rl'" "\<forall>c \<in> set calls. now \<le> fst c" "sorted (map fst calls)"
  shows "fst (rl_run calls rl) = fst (rl_run calls rl')"
  using assms
proof (induction calls arbitrary: now rl rl')
  case (Cons c calls)
  obtain at k where c: "c = (at, k)" by (cases c)
  have "same_view at rl rl'" using same_view_later [OF Cons.prems(1)] Cons.prems(2) c by simp
  from same_view_step [OF this, of k]
  have "fst (rl_step c rl) = fst (rl_step c rl')" "same_view at (snd (rl_step c rl)) (snd (rl_step c rl'))"
    by (simp_all add: c)
  with Cons.IH [of at] Cons.prems(3) c show ?case by (simp add: case_prod_beta)
qed simp

section \<open>Properties\<close>

lemma unat_minus_one_u32: "unat (- 1 :: u32) = 2 ^ 32 - 1"
  by (simp add: unsigned_minus_1_eq_mask mask_eq_exp_minus_1)

lemma rl_step_other_key:
  assumes "live now rl k = Some b"
    and "\<forall>w l. c \<noteq> Acquire k w l" "c \<noteq> TryAcquire k"
  shows "live now (snd (rl_step (now, c) rl)) k = Some b"
  using assms
  by (cases c)
    (auto simp: case_prod_beta try_acquire_def Let_def live_acquire live_gc split: option.splits if_splits,
      auto simp: live_def split: option.splits if_splits)

lemma live_Some_iff: "live now rl k = Some b \<longleftrightarrow> buckets rl k = Some b \<and> now < reset_at b"
  by (auto simp: live_def split: option.splits if_splits)

text \<open>A call inside the window \<open>[.., r)\<close> of key \<open>k\<close> whose requests for \<open>k\<close> all use limit \<open>l\<close>.\<close>

definition window_call :: "string \<Rightarrow> u32 \<Rightarrow> nat \<Rightarrow> nat \<Rightarrow> nat \<times> rl_call \<Rightarrow> bool" where
  "window_call k l t r c \<longleftrightarrow> t \<le> fst c \<and> fst c < r \<and> snd c \<noteq> TryAcquire k \<and>
     (case snd c of Acquire k' w l' \<Rightarrow> k' = k \<longrightarrow> l' = l | _ \<Rightarrow> True)"

lemma key_decisions_other:
  "\<forall>w l. c \<noteq> Acquire k w l \<Longrightarrow> key_decisions k ((t, c) # cs) (a # as) = key_decisions k cs as"
  by (cases c; cases a) auto

lemma bucket_decisions:
  assumes "buckets rl k = Some b" "\<forall>c \<in> set calls. window_call k l t (reset_at b) c"
  shows "\<exists>n. key_decisions k calls (fst (rl_run calls rl)) =
    map (\<lambda>i. min (unat (wb_count b) + Suc i) (2 ^ 32 - 1) \<le> unat (max l 1)) [0..<n]"
  using assms
proof (induction calls arbitrary: rl b)
  case Nil
  show ?case by (rule exI [of _ 0]) simp
next
  case (Cons c calls)
  obtain now op where c: "c = (now, op)" by (cases c)
  have w: "now < reset_at b" and op: "op \<noteq> TryAcquire k"
    using Cons.prems(2) c by (auto simp: window_call_def)
  have live: "live now rl k = Some b" using Cons.prems(1) w by (simp add: live_Some_iff)
  show ?case
  proof (cases "\<exists>w l'. op = Acquire k w l'")
    case True
    then obtain w where op: "op = Acquire k w l"
      using Cons.prems(2) c by (auto simp: window_call_def)
    define b' where "b' = b\<lparr>wb_count := saturating_add (wb_count b) 1\<rparr>"
    have step: "acquire now k w l rl = (\<lparr>allowed = wb_count b' \<le> max l 1,
          decision_retry_after = secs_until (reset_at b') now\<rparr>, rl\<lparr>buckets := (buckets rl)(k \<mapsto> b')\<rparr>)"
      by (simp add: acquire_view live counted_def b'_def Let_def)
    have cnt: "unat (wb_count b') = min (unat (wb_count b) + 1) (2 ^ 32 - 1)"
      by (simp add: b'_def unat_saturating_add)
    have "\<exists>n. key_decisions k calls (fst (rl_run calls (snd (rl_step c rl)))) =
        map (\<lambda>i. min (unat (wb_count b') + Suc i) (2 ^ 32 - 1) \<le> unat (max l 1)) [0..<n]"
      using Cons.prems(2) by (intro Cons.IH) (auto simp: c op step b'_def)
    then obtain n where "key_decisions k calls (fst (rl_run calls (snd (rl_step c rl)))) =
        map (\<lambda>i. min (unat (wb_count b') + Suc i) (2 ^ 32 - 1) \<le> unat (max l 1)) [0..<n]" ..
    moreover have "min (unat (wb_count b') + Suc i) (2 ^ 32 - 1)
        = min (unat (wb_count b) + Suc (Suc i)) (2 ^ 32 - 1)" for i
      unfolding cnt by (simp add: min_def)
    ultimately have "key_decisions k (c # calls) (fst (rl_run (c # calls) rl)) =
        map (\<lambda>i. min (unat (wb_count b) + Suc i) (2 ^ 32 - 1) \<le> unat (max l 1)) [0..<Suc n]"
      using cnt by (simp add: step c op case_prod_beta word_le_nat_alt upt_conv_Cons
          map_Suc_upt [symmetric] comp_def del: upt_Suc)
    then show ?thesis ..
  next
    case False
    have "buckets (snd (rl_step c rl)) k = Some b"
      using rl_step_other_key [OF live, of op] False op by (simp add: c live_Some_iff)
    then have "\<exists>n. key_decisions k calls (fst (rl_run calls (snd (rl_step c rl)))) =
        map (\<lambda>i. min (unat (wb_count b) + Suc i) (2 ^ 32 - 1) \<le> unat (max l 1)) [0..<n]"
      using Cons.prems(2) by (intro Cons.IH) auto
    with False show ?thesis
      by (auto simp: c case_prod_beta key_decisions_other)
  qed
qed

text \<open>
  Fixed window: from the request that opens a window of key \<open>k\<close> until the window ends, whatever
  requests for other keys, snapshots and sweeps happen in between, the first \<open>limit\<close> requests for
  \<open>k\<close> are let through and every later one is refused (a limit of \<open>0\<close> counts as \<open>1\<close>; with the
  largest 32-bit limit the saturating counter never exceeds it and nothing is refused).
\<close>

theorem fixed_window_exact:
  assumes fresh: "live t rl k = None"
    and inside: "\<forall>c \<in> set calls. window_call k l t (t + max w 1 * nanos_per_sec) c"
  shows "\<exists>n. key_decisions k ((t, Acquire k w l) # calls) (fst (rl_run ((t, Acquire k w l) # calls) rl))
    = map (\<lambda>i. i < unat (max l 1) \<or> max l 1 = - 1) [0..<Suc n]"
proof -
  define b where "b = counted t w (live t rl k)"
  have b: "unat (wb_count b) = 1" "reset_at b = t + max w 1 * nanos_per_sec"
    by (simp_all add: b_def fresh counted_def unat_saturating_add)
  have step: "acquire t k w l rl = (\<lparr>allowed = wb_count b \<le> max l 1,
      decision_retry_after = secs_until (reset_at b) t\<rparr>, rl\<lparr>buckets := (buckets rl)(k \<mapsto> b)\<rparr>)"
    by (simp add: acquire_view b_def Let_def)
  obtain n where n: "key_decisions k calls (fst (rl_run calls (rl\<lparr>buckets := (buckets rl)(k \<mapsto> b)\<rparr>)))
      = map (\<lambda>i. min (unat (wb_count b) + Suc i) (2 ^ 32 - 1) \<le> unat (max l 1)) [0..<n]"
    using bucket_decisions [of "rl\<lparr>buckets := (buckets rl)(k \<mapsto> b)\<rparr>" k b calls l t] inside b(2) by auto
  have top: "max l 1 = - 1 \<longleftrightarrow> unat (max l 1) = 2 ^ 32 - 1"
    using unat_minus_one_u32 by (metis word_eq_iff_unsigned)
  have "unat (max l 1) < 2 ^ LENGTH(32)" by (rule unsigned_less)
  then have le: "unat (max l 1) \<le> 2 ^ 32 - 1" by simp
  have eq: "min (Suc i) (2 ^ 32 - 1) \<le> unat (max l 1) \<longleftrightarrow> i < unat (max l 1) \<or> max l 1 = - 1" for i
    unfolding top using le by (auto simp: min_def)
  have "wb_count b \<le> max l 1 \<longleftrightarrow> (0 :: nat) < unat (max l 1) \<or> max l 1 = - 1"
    using eq [of 0] b(1) by (simp add: word_le_nat_alt)
  moreover have "min (unat (wb_count b) + Suc i) (2 ^ 32 - 1) \<le> unat (max l 1) \<longleftrightarrow>
      Suc i < unat (max l 1) \<or> max l 1 = - 1" for i
    using eq [of "Suc i"] b(1) by simp
  ultimately have "key_decisions k ((t, Acquire k w l) # calls) (fst (rl_run ((t, Acquire k w l) # calls) rl))
      = map (\<lambda>i. i < unat (max l 1) \<or> max l 1 = - 1) [0..<Suc n]"
    using n by (simp add: step case_prod_beta upt_conv_Cons map_Suc_upt [symmetric] comp_def del: upt_Suc)
  then show ?thesis ..
qed

theorem fixed_window_exact_witness:
  "let calls = [(5, Acquire ''b'' 10 1), (6, Acquire ''a'' 10 2), (7, Gc), (9, Acquire ''a'' 10 2)];
       run = (0, Acquire ''a'' 10 2) # calls
   in live 0 (new_in_memory 60 60) ''a'' = None \<and>
      key_decisions ''a'' run (fst (rl_run run (new_in_memory 60 60))) = [True, True, False]"
proof -
  let ?calls = "[(5, Acquire ''b'' 10 1), (6, Acquire ''a'' 10 2), (7, Gc), (9, Acquire ''a'' 10 2)]"
  let ?run = "(0, Acquire ''a'' 10 2) # ?calls"
  let ?rl = "new_in_memory 60 60"
  have fresh: "live 0 ?rl ''a'' = None" by (simp add: live_def new_in_memory_def)
  have "\<exists>n. key_decisions ''a'' ?run (fst (rl_run ?run ?rl))
      = map (\<lambda>i. i < unat (max 2 1 :: u32) \<or> max 2 1 = (- 1 :: u32)) [0..<Suc n]"
    by (rule fixed_window_exact [OF fresh]) (simp add: window_call_def nanos_per_sec_def)
  then obtain n where n: "key_decisions ''a'' ?run (fst (rl_run ?run ?rl)) = map (\<lambda>i. i < 2) [0..<Suc n]"
    by (auto simp: max_def word_le_nat_alt)
  have "length (key_decisions ''a'' ?run (fst (rl_run ?run ?rl))) = 3"
    by (simp add: case_prod_beta Let_def)
  with n have "n = 2" by simp
  with n fresh show ?thesis by (simp add: Let_def upt_rec)
qed

text \<open>
  The sweep is unobservable: running the garbage collector at any instant changes no later
  decision, answer or snapshot of any key.
\<close>

theorem gc_unobservable:
  assumes "\<forall>c \<in> set calls. now \<le> fst c" "sorted (map fst calls)"
  shows "fst (rl_run calls (gc_sweep now rl)) = fst (rl_run calls rl)"
  using same_view_run [OF same_view_gc [OF order_refl] assms] .

theorem gc_unobservable_witness:
  "let calls = [(20000000000, Acquire ''a'' 10 1), (20000000001, SnapshotMany [''a'', ''b''] 1)];
       rl = snd (acquire 0 ''a'' 10 1 (new_in_memory 60 60))
   in buckets (gc_sweep 20000000000 rl) ''a'' = None \<and>
      fst (rl_run calls (gc_sweep 20000000000 rl)) = fst (rl_run calls rl)"
  using gc_unobservable [of "[(20000000000, Acquire ''a'' 10 1), (20000000001, SnapshotMany [''a'', ''b''] 1)]"
      20000000000 "snd (acquire 0 ''a'' 10 1 (new_in_memory 60 60))"]
  by (simp add: Let_def del: rl_run.simps) (simp add: gc_sweep_def acquire_def new_in_memory_def nanos_per_sec_def)

text \<open>
  The counters of different subjects never share a bucket: the user, tenant, tenant-user and
  user-API keys are injective where the leading identifiers do not contain the separator, and keys
  of different kinds differ.
\<close>

theorem rate_keys_separate:
  assumes "\<forall>s \<in> {t, t', u, u'}. CHR '':'' \<notin> set s"
  shows "(user_key u = user_key u' \<longleftrightarrow> u = u') \<and> (tenant_key t = tenant_key t' \<longleftrightarrow> t = t') \<and>
   (tenant_user_key t v = tenant_user_key t' v' \<longleftrightarrow> t = t' \<and> v = v') \<and>
   (user_api_key u p = user_api_key u' p' \<longleftrightarrow> u = u' \<and> p = p') \<and>
   distinct [user_key v, tenant_key t, tenant_user_key t v, api_key p, user_api_key u p]"
  using assms colon_split [of t t' v v'] colon_split [of u u' p p'] by (simp add: rate_key_defs)

theorem rate_keys_separate_witness:
  "user_api_key ''7'' ''/a'' = user_api_key ''7'' ''/a'' \<and>
   tenant_user_key ''acme'' ''7'' \<noteq> tenant_user_key ''beta'' ''7'' \<and>
   distinct [user_key ''7'', tenant_key ''acme'', tenant_user_key ''acme'' ''7'', api_key ''/a'', user_api_key ''7'' ''/a'']"
  using rate_keys_separate [of "''acme''" "''beta''" "''7''" "''7''" "''7''" "''7''" "''/a''" "''/a''"] by simp

end
