(* ===== verification/Tables.thy ===== *)
theory Tables
  imports Prelude
begin

text \<open>
  Database tables as lists of rows, and the statements the repositories send: a filtered update
  (with the number of rows it matched, which is what the driver reports), a lookup of one row, an
  insertion. A statement acts on the rows it selects and leaves the others as they are. A
  transaction is one function from a database to a result; an error result stands for the
  rolled-back transaction, so the caller keeps the database it had.
\<close>

type_synonym timestamp = int \<comment> \<open>microseconds, the resolution of the columns\<close>
type_synonym duration = int

definition update_where :: "('r \<Rightarrow> bool) \<Rightarrow> ('r \<Rightarrow> 'r) \<Rightarrow> 'r list \<Rightarrow> 'r list" where
  "update_where P f rows = map (\<lambda>r. if P r then f r else r) rows"

definition rows_matched :: "('r \<Rightarrow> bool) \<Rightarrow> 'r list \<Rightarrow> nat" where
  "rows_matched P rows = length (filter P rows)"

lemma find_update_where:
  "(\<And>r. P r \<Longrightarrow> Q (f r) = Q r) \<Longrightarrow>
   find Q (update_where P f rows) = map_option (\<lambda>r. if P r then f r else r) (find Q rows)"
  unfolding update_where_def by (induction rows) auto

lemma set_update_where: "set (update_where P f rows) = (\<lambda>r. if P r then f r else r) ` set rows"
  by (simp add: update_where_def)

lemma map_update_where:
  "(\<And>r. P r \<Longrightarrow> k (f r) = k r) \<Longrightarrow> map k (update_where P f rows) = map k rows"
  by (simp add: update_where_def comp_def if_distrib cong: if_cong)

lemma update_where_cong_none: "(\<And>r. r \<in> set rows \<Longrightarrow> \<not> P r) \<Longrightarrow> update_where P f rows = rows"
  by (simp add: update_where_def map_idI)

lemma rows_matched_0: "rows_matched P rows = 0 \<longleftrightarrow> (\<forall>r \<in> set rows. \<not> P r)"
  by (simp add: rows_matched_def filter_empty_conv)

lemma filter_update_where_other:
  "(\<And>r. P r \<Longrightarrow> \<not> Q r \<and> \<not> Q (f r)) \<Longrightarrow> filter Q (update_where P f rows) = filter Q rows"
  unfolding update_where_def by (induction rows) auto

section \<open>Rows with a primary key\<close>

text \<open>Rows are found and replaced by their key; a key is unique in a table.\<close>

definition row_get :: "('r \<Rightarrow> 'k) \<Rightarrow> 'k \<Rightarrow> 'r list \<Rightarrow> 'r option" where
  "row_get key k rows = find (\<lambda>r. key r = k) rows"

definition row_put :: "('r \<Rightarrow> 'k) \<Rightarrow> 'r \<Rightarrow> 'r list \<Rightarrow> 'r list" where
  "row_put key r rows = update_where (\<lambda>r'. key r' = key r) (\<lambda>_. r) rows"

definition unique_key :: "('r \<Rightarrow> 'k) \<Rightarrow> 'r list \<Rightarrow> bool" where
  "unique_key key rows \<longleftrightarrow> distinct (map key rows)"

lemma row_get_SomeD: "row_get key k rows = Some r \<Longrightarrow> r \<in> set rows \<and> key r = k"
  by (auto simp: row_get_def find_Some_iff)

lemma row_get_None_iff: "row_get key k rows = None \<longleftrightarrow> k \<notin> key ` set rows"
  by (auto simp: row_get_def find_None_iff)

lemma unique_row_get:
  assumes "unique_key key rows" "r \<in> set rows"
  shows "row_get key (key r) rows = Some r"
proof -
  from assms(2) have "row_get key (key r) rows \<noteq> None" by (auto simp: row_get_None_iff)
  then obtain r' where r': "row_get key (key r) rows = Some r'" by auto
  from row_get_SomeD [OF r'] assms have "r' = r"
    by (auto simp: unique_key_def distinct_map dest: inj_onD)
  with r' show ?thesis by simp
qed

lemma unique_keyD: "unique_key key rows \<Longrightarrow> r \<in> set rows \<Longrightarrow> r' \<in> set rows \<Longrightarrow> key r = key r' \<Longrightarrow> r = r'"
  unfolding unique_key_def distinct_map by (blast dest: inj_onD)

lemma row_get_iff: "unique_key key rows \<Longrightarrow> row_get key k rows = Some r \<longleftrightarrow> r \<in> set rows \<and> key r = k"
  using row_get_SomeD unique_row_get by fastforce

lemma unique_row_put [simp, table_simps]: "unique_key key (row_put key r rows) \<longleftrightarrow> unique_key key rows"
  unfolding unique_key_def row_put_def by (subst map_update_where) auto

lemma row_get_row_put [table_simps]:
  "row_get key k (row_put key r rows) =
     (if k = key r then map_option (\<lambda>_. r) (row_get key k rows) else row_get key k rows)"
proof -
  have "row_get key k (row_put key r rows)
      = map_option (\<lambda>r'. if key r' = key r then r else r') (row_get key k rows)"
    unfolding row_get_def row_put_def by (subst find_update_where) auto
  then show ?thesis
    using row_get_SomeD [of key k rows] by (cases "row_get key k rows") auto
qed

lemma keys_row_put [simp, table_simps]: "key ` set (row_put key r rows) = key ` set rows"
proof -
  have "map key (row_put key r rows) = map key rows"
    unfolding row_put_def by (rule map_update_where) simp
  from arg_cong [OF this, of set] show ?thesis by simp
qed

lemma in_row_put: "r' \<in> set (row_put key r rows) \<Longrightarrow> r' = r \<or> r' \<in> set rows \<and> key r' \<noteq> key r"
  by (auto simp: row_put_def set_update_where split: if_splits)

lemma row_put_untouched: "r' \<in> set rows \<Longrightarrow> key r' \<noteq> key r \<Longrightarrow> r' \<in> set (row_put key r rows)"
  by (auto simp: row_put_def set_update_where image_iff)

lemma map_row_put: "row_get key (key r) rows = Some old \<Longrightarrow> k old = k r \<Longrightarrow> unique_key key rows \<Longrightarrow>
    map k (row_put key r rows) = map k rows"
  unfolding row_put_def
  by (auto simp: update_where_def row_get_iff unique_key_def distinct_map) (metis inj_onD)

lemma unique_key_Cons: "unique_key key (r # rows) \<longleftrightarrow> unique_key key rows \<and> row_get key (key r) rows = None"
  by (auto simp: unique_key_def row_get_None_iff)

lemma unique_key_filter: "unique_key key rows \<Longrightarrow> unique_key key (filter P rows)"
  by (simp add: unique_key_def distinct_map_filter)

text \<open>A filtered update whose filter fixes the key is an update of one row.\<close>

lemma update_where_key:
  assumes u: "unique_key key rows" and P: "\<And>r. P r \<Longrightarrow> key r = k" and f: "\<And>r. P r \<Longrightarrow> key (f r) = key r"
  shows "update_where P f rows =
    (case row_get key k rows of Some r \<Rightarrow> if P r then row_put key (f r) rows else rows | None \<Rightarrow> rows)"
proof (cases "row_get key k rows")
  case None
  then have "\<forall>r \<in> set rows. \<not> P r" using P by (auto simp: row_get_None_iff)
  with None show ?thesis by (simp add: update_where_cong_none)
next
  case (Some r)
  have only: "r' = r" if "r' \<in> set rows" "key r' = k" for r'
    using unique_row_get [OF u that(1)] that(2) Some by simp
  show ?thesis
  proof (cases "P r")
    case True
    have "(if P r' then f r' else r') = (if key r' = key (f r) then f r else r')" if "r' \<in> set rows" for r'
      using only [OF that] P [of r'] P [OF True] f [OF True] True by auto
    with Some True show ?thesis by (simp add: row_put_def update_where_def)
  next
    case False
    then have "\<forall>r \<in> set rows. \<not> P r" using P only by auto
    with Some False show ?thesis by (simp add: update_where_cong_none)
  qed
qed

lemma rows_matched_key:
  assumes u: "unique_key key rows" and P: "\<And>r. P r \<Longrightarrow> key r = k"
  shows "rows_matched P rows = (case row_get key k rows of Some r \<Rightarrow> if P r then 1 else 0 | None \<Rightarrow> 0)"
proof -
  have "distinct (map key (filter P rows))" using u by (simp add: unique_key_def distinct_map_filter)
  moreover have "set (map key (filter P rows)) \<subseteq> {k}" using P by auto
  ultimately have le: "rows_matched P rows \<le> 1"
    unfolding rows_matched_def
    by (metis card_mono distinct_card finite.emptyI finite.insertI is_singletonI is_singleton_altdef length_map)
  show ?thesis
  proof (cases "row_get key k rows")
    case None
    then have "\<forall>r \<in> set rows. \<not> P r" using P by (auto simp: row_get_None_iff)
    with None show ?thesis by (simp add: rows_matched_0)
  next
    case (Some r)
    have only: "r' = r" if "r' \<in> set rows" "key r' = k" for r'
      using unique_row_get [OF u that(1)] that(2) Some by simp
    have "rows_matched P rows = 0 \<longleftrightarrow> \<not> P r"
      using only P row_get_SomeD [OF Some] by (auto simp: rows_matched_0)
    with le Some show ?thesis by auto
  qed
qed

section \<open>JSON documents\<close>

text \<open>\<open>serde_json::Value\<close>; a number that is not an integer is kept as its text.\<close>

datatype json =
  JNull | JBool bool | JInt int | JFloat string | JString string | JArray "json list"
  | JObject "(string \<times> json) list"

definition json_get :: "string \<Rightarrow> json \<Rightarrow> json option" where
  "json_get k v = (case v of JObject fields \<Rightarrow> map_of fields k | _ \<Rightarrow> None)"

definition json_as_str :: "json \<Rightarrow> string option" where
  "json_as_str v = (case v of JString s \<Rightarrow> Some s | _ \<Rightarrow> None)"

definition json_as_i64 :: "json \<Rightarrow> int option" where
  "json_as_i64 v = (case v of JInt i \<Rightarrow> if is_i64 i then Some i else None | _ \<Rightarrow> None)"

end
