(* ===== verification/Job_Types.thy ===== *)
theory Job_Types
  imports Tables Kernel_Errors
begin

text \<open>
  The rows the durable job queue works on (\<open>crates/ryframe-db/src/entities\<close>): the job and attempt
  tables, the business tables whose rows are linked to a job, and the commands and results of
  \<open>crates/ryframe-db/src/repositories/background_job_repo/types.rs\<close>. A record has the columns of
  the entity, in order; 64- and 32-bit columns are \<open>int\<close>, with the width written out where the
  code computes on them.
\<close>

section \<open>Jobs and their attempts\<close>

record background_job =
  bj_id :: int
  bj_tenant_id :: "string option"
  bj_schedule_id :: "int option"
  bj_scheduled_for :: "timestamp option"
  bj_max_runtime_seconds :: "int option"
  bj_job_type :: string
  bj_payload :: json
  bj_status :: string
  bj_priority :: int
  bj_available_at :: timestamp
  bj_attempts :: int
  bj_claim_sequence :: int
  bj_max_attempts :: int
  bj_lease_owner :: "string option"
  bj_lease_until :: "timestamp option"
  bj_dedupe_key :: "string option"
  bj_traceparent :: "string option"
  bj_tracestate :: "string option"
  bj_last_error :: "string option"
  bj_created_at :: timestamp
  bj_updated_at :: timestamp
  bj_completed_at :: "timestamp option"

abbreviation bj_STATUS_PENDING :: string where "bj_STATUS_PENDING \<equiv> ''pending''"
abbreviation bj_STATUS_RUNNING :: string where "bj_STATUS_RUNNING \<equiv> ''running''"
abbreviation bj_STATUS_SUCCEEDED :: string where "bj_STATUS_SUCCEEDED \<equiv> ''succeeded''"
abbreviation bj_STATUS_DEAD :: string where "bj_STATUS_DEAD \<equiv> ''dead''"

record background_job_attempt =
  at_job_id :: int
  at_sequence :: int
  at_available_at :: timestamp
  at_started_at :: timestamp
  at_finished_at :: "timestamp option"
  at_closed_at :: "timestamp option"
  at_outcome :: string

section \<open>Linked business rows\<close>

record user_import_job =
  imp_id :: int
  imp_tenant_id :: string
  imp_requester_user_id :: int
  imp_background_job_id :: int
  imp_idempotency_key_hash :: string
  imp_source_file_id :: int
  imp_source_name_snapshot :: string
  imp_source_sha256 :: string
  imp_duplicate_policy :: string
  imp_status :: string
  imp_total_rows :: int
  imp_processed_rows :: int
  imp_success_count :: int
  imp_skipped_count :: int
  imp_failure_count :: int
  imp_cancel_requested :: bool
  imp_error_report_file_id :: "int option"
  imp_last_error :: "string option"
  imp_started_at :: "timestamp option"
  imp_completed_at :: "timestamp option"
  imp_created_at :: timestamp
  imp_updated_at :: timestamp

abbreviation imp_DUPLICATE_SKIP_EXISTING :: string where "imp_DUPLICATE_SKIP_EXISTING \<equiv> ''skip_existing''"
abbreviation imp_STATUS_PENDING :: string where "imp_STATUS_PENDING \<equiv> ''pending''"
abbreviation imp_STATUS_RUNNING :: string where "imp_STATUS_RUNNING \<equiv> ''running''"
abbreviation imp_STATUS_SUCCEEDED :: string where "imp_STATUS_SUCCEEDED \<equiv> ''succeeded''"
abbreviation imp_STATUS_PARTIAL :: string where "imp_STATUS_PARTIAL \<equiv> ''partial''"
abbreviation imp_STATUS_FAILED :: string where "imp_STATUS_FAILED \<equiv> ''failed''"
abbreviation imp_STATUS_CANCELLED :: string where "imp_STATUS_CANCELLED \<equiv> ''cancelled''"

record export_job =
  exp_id :: int
  exp_tenant_id :: string
  exp_requester_id :: int
  exp_resource :: string
  exp_background_job_id :: int
  exp_request_params :: json
  exp_request_version :: int
  exp_permission_code :: string
  exp_authorization_fingerprint :: string
  exp_request_fingerprint :: string
  exp_active_request_fingerprint :: "string option"
  exp_snapshot_at :: timestamp
  exp_upper_id :: int
  exp_matched_rows :: int
  exp_exported_rows :: int
  exp_status :: string
  exp_result_file_id :: "int option"
  exp_result_file_name :: "string option"
  exp_content_type :: "string option"
  exp_file_size :: "int option"
  exp_expires_at :: "timestamp option"
  exp_error_message :: "string option"
  exp_created_at :: timestamp
  exp_updated_at :: timestamp
  exp_completed_at :: "timestamp option"
  exp_notification_read_at :: "timestamp option"
  exp_delete_pending_at :: "timestamp option"

abbreviation exp_STATUS_QUEUED :: string where "exp_STATUS_QUEUED \<equiv> ''queued''"
abbreviation exp_STATUS_RUNNING :: string where "exp_STATUS_RUNNING \<equiv> ''running''"
abbreviation exp_STATUS_SUCCEEDED :: string where "exp_STATUS_SUCCEEDED \<equiv> ''succeeded''"
abbreviation exp_STATUS_FAILED :: string where "exp_STATUS_FAILED \<equiv> ''failed''"
abbreviation exp_STATUS_CANCELLED :: string where "exp_STATUS_CANCELLED \<equiv> ''cancelled''"
abbreviation exp_STATUS_EXPIRED :: string where "exp_STATUS_EXPIRED \<equiv> ''expired''"

record data_retention_run =
  ret_id :: int
  ret_background_job_id :: int
  ret_trigger_kind :: string
  ret_status :: string
  ret_policy_snapshot :: json
  ret_eligible_counts :: json
  ret_deleted_counts :: json
  ret_remaining_counts :: json
  ret_requested_by :: "int option"
  ret_error_summary :: "string option"
  ret_started_at :: "timestamp option"
  ret_completed_at :: "timestamp option"
  ret_created_at :: timestamp
  ret_updated_at :: timestamp

abbreviation ret_TRIGGER_SCHEDULED :: string where "ret_TRIGGER_SCHEDULED \<equiv> ''scheduled''"
abbreviation ret_TRIGGER_MANUAL :: string where "ret_TRIGGER_MANUAL \<equiv> ''manual''"
abbreviation ret_STATUS_PENDING :: string where "ret_STATUS_PENDING \<equiv> ''pending''"
abbreviation ret_STATUS_RUNNING :: string where "ret_STATUS_RUNNING \<equiv> ''running''"
abbreviation ret_STATUS_SUCCEEDED :: string where "ret_STATUS_SUCCEEDED \<equiv> ''succeeded''"
abbreviation ret_STATUS_PARTIAL :: string where "ret_STATUS_PARTIAL \<equiv> ''partial''"
abbreviation ret_STATUS_FAILED :: string where "ret_STATUS_FAILED \<equiv> ''failed''"

record config_bundle =
  cfb_id :: int
  cfb_tenant_id :: string
  cfb_origin :: string
  cfb_source_tenant_key :: string
  cfb_source_tenant_name_snapshot :: string
  cfb_package_schema_version :: string
  cfb_source_app_version :: string
  cfb_file_id :: "int option"
  cfb_sha256 :: "string option"
  cfb_resource_counts :: json
  cfb_item_count :: int
  cfb_status :: string
  cfb_background_job_id :: "int option"
  cfb_idempotency_key_hash :: "string option"
  cfb_created_by :: int
  cfb_error_summary :: "string option"
  cfb_expires_at :: "timestamp option"
  cfb_created_at :: timestamp
  cfb_updated_at :: timestamp

abbreviation cfb_ORIGIN_GENERATED :: string where "cfb_ORIGIN_GENERATED \<equiv> ''generated''"
abbreviation cfb_ORIGIN_UPLOADED :: string where "cfb_ORIGIN_UPLOADED \<equiv> ''uploaded''"
abbreviation cfb_STATUS_PENDING :: string where "cfb_STATUS_PENDING \<equiv> ''pending''"
abbreviation cfb_STATUS_RUNNING :: string where "cfb_STATUS_RUNNING \<equiv> ''running''"
abbreviation cfb_STATUS_SUCCEEDED :: string where "cfb_STATUS_SUCCEEDED \<equiv> ''succeeded''"
abbreviation cfb_STATUS_FAILED :: string where "cfb_STATUS_FAILED \<equiv> ''failed''"
abbreviation cfb_STATUS_EXPIRED :: string where "cfb_STATUS_EXPIRED \<equiv> ''expired''"

record config_transfer =
  ct_id :: int
  ct_tenant_id :: string
  ct_bundle_id :: int
  ct_idempotency_key_hash :: string
  ct_request_kind :: string
  ct_request_fingerprint :: string
  ct_status :: string
  ct_target_configuration_version :: int
  ct_target_authorization_epoch :: int
  ct_plan_hash :: "string option"
  ct_preview_calculated_at :: "timestamp option"
  ct_preview_background_job_id :: "int option"
  ct_apply_background_job_id :: "int option"
  ct_rollback_background_job_id :: "int option"
  ct_snapshot_file_id :: "int option"
  ct_applied_configuration_version :: "int option"
  ct_applied_authorization_epoch :: "int option"
  ct_change_counts :: json
  ct_error_summary :: "string option"
  ct_requested_by :: int
  ct_rollback_expires_at :: "timestamp option"
  ct_created_at :: timestamp
  ct_updated_at :: timestamp

abbreviation ct_STATUS_PREVIEW_READY :: string where "ct_STATUS_PREVIEW_READY \<equiv> ''preview_ready''"
abbreviation ct_STATUS_PREVIEW_PENDING :: string where "ct_STATUS_PREVIEW_PENDING \<equiv> ''preview_pending''"
abbreviation ct_STATUS_PREVIEWING :: string where "ct_STATUS_PREVIEWING \<equiv> ''previewing''"
abbreviation ct_STATUS_PREVIEWED :: string where "ct_STATUS_PREVIEWED \<equiv> ''previewed''"
abbreviation ct_STATUS_APPLY_PENDING :: string where "ct_STATUS_APPLY_PENDING \<equiv> ''apply_pending''"
abbreviation ct_STATUS_APPLYING :: string where "ct_STATUS_APPLYING \<equiv> ''applying''"
abbreviation ct_STATUS_APPLIED :: string where "ct_STATUS_APPLIED \<equiv> ''applied''"
abbreviation ct_STATUS_ROLLBACK_PENDING :: string where "ct_STATUS_ROLLBACK_PENDING \<equiv> ''rollback_pending''"
abbreviation ct_STATUS_ROLLING_BACK :: string where "ct_STATUS_ROLLING_BACK \<equiv> ''rolling_back''"
abbreviation ct_STATUS_ROLLED_BACK :: string where "ct_STATUS_ROLLED_BACK \<equiv> ''rolled_back''"
abbreviation ct_STATUS_FAILED :: string where "ct_STATUS_FAILED \<equiv> ''failed''"

text \<open>The part of the control database the queue touches.\<close>

record control_db =
  db_jobs :: "background_job list"
  db_attempts :: "background_job_attempt list"
  db_imports :: "user_import_job list"
  db_exports :: "export_job list"
  db_retention_runs :: "data_retention_run list"
  db_bundles :: "config_bundle list"
  db_transfers :: "config_transfer list"

definition bj_is_terminal :: "background_job \<Rightarrow> bool" where
  "bj_is_terminal job \<longleftrightarrow> bj_status job \<in> {bj_STATUS_SUCCEEDED, bj_STATUS_DEAD}"

definition imp_is_active :: "user_import_job \<Rightarrow> bool" where
  "imp_is_active r \<longleftrightarrow> imp_status r \<in> {imp_STATUS_PENDING, imp_STATUS_RUNNING}"

definition imp_is_terminal :: "user_import_job \<Rightarrow> bool" where
  "imp_is_terminal r \<longleftrightarrow>
     imp_status r \<in> {imp_STATUS_SUCCEEDED, imp_STATUS_PARTIAL, imp_STATUS_FAILED, imp_STATUS_CANCELLED}"

definition exp_is_terminal :: "export_job \<Rightarrow> bool" where
  "exp_is_terminal r \<longleftrightarrow>
     exp_status r \<in> {exp_STATUS_SUCCEEDED, exp_STATUS_FAILED, exp_STATUS_CANCELLED, exp_STATUS_EXPIRED}"

section \<open>Commands and results\<close>

record EnqueueBackgroundJob =
  eq_tenant_id :: "string option"
  eq_schedule_id :: "int option"
  eq_scheduled_for :: "timestamp option"
  eq_max_runtime_seconds :: "int option"
  eq_job_type :: string
  eq_payload :: json
  eq_priority :: int
  eq_available_at :: timestamp
  eq_max_attempts :: int
  eq_dedupe_key :: "string option"
  eq_traceparent :: "string option"
  eq_tracestate :: "string option"

record EnqueueBackgroundJobResult =
  er_job :: background_job
  er_inserted :: bool

record ExpiredLeaseRecovery =
  requeued :: nat
  dead :: nat
  completed :: nat

datatype JobFailureDisposition = Retried timestamp | Dead | Completed | LeaseLost

record FailBackgroundJob =
  fb_job_id :: int
  fb_claim_sequence :: int
  fb_worker_id :: string
  fb_retry_at :: timestamp
  fb_error_message :: string
  fb_force_dead :: bool
  fb_now :: timestamp

record DeferBackgroundJob =
  df_job_id :: int
  df_claim_sequence :: int
  df_worker_id :: string
  df_available_at :: timestamp
  df_error_message :: string
  df_now :: timestamp

section \<open>The tenant range of an executor\<close>

text \<open>\<open>crates/ryframe-db/src/repositories/execution_tenant_filter.rs\<close>\<close>

type_synonym ExecutionTenantFilter = "string option"

definition etf_all :: ExecutionTenantFilter where "etf_all = None"

definition tenant_and_platform :: "string \<Rightarrow> ExecutionTenantFilter" where
  "tenant_and_platform tenant_id = Some tenant_id"

definition etf_condition :: "ExecutionTenantFilter \<Rightarrow> string option \<Rightarrow> bool" where
  "etf_condition scope column =
     (case scope of None \<Rightarrow> True | Some tenant_id \<Rightarrow> column = Some tenant_id \<or> column = None)"

end
