(* ===== verification/Job_Linked.thy ===== *)
theory Job_Linked
  imports Job_Types
begin

text \<open>
  \<open>background_job_repo/transitions/{terminal,linked,config_transfer,retention,support}.rs\<close>: a job
  may be linked to a business row (an import, an export, a retention run, a configuration bundle
  or transfer). Each failure transition of the job writes the linked row in the same transaction;
  when the business row has already reached a final state of its own, that state is authoritative
  and the job is closed to match it.
\<close>

section \<open>Job types and payload links\<close>

definition USER_IMPORT_JOB_TYPE :: string where "USER_IMPORT_JOB_TYPE = ''system.user.import''"
definition EXPORT_JOB_TYPE :: string where "EXPORT_JOB_TYPE = ''system.export.execute''"
definition DATA_RETENTION_JOB_TYPE :: string where "DATA_RETENTION_JOB_TYPE = ''system.data_retention.cleanup''"
definition TENANT_CONFIG_EXPORT_JOB_TYPE :: string where
  "TENANT_CONFIG_EXPORT_JOB_TYPE = ''system.tenant_config.export''"
definition TENANT_CONFIG_PREVIEW_JOB_TYPE :: string where
  "TENANT_CONFIG_PREVIEW_JOB_TYPE = ''system.tenant_config.preview''"
definition TENANT_CONFIG_APPLY_JOB_TYPE :: string where
  "TENANT_CONFIG_APPLY_JOB_TYPE = ''system.tenant_config.apply''"
definition TENANT_CONFIG_ROLLBACK_JOB_TYPE :: string where
  "TENANT_CONFIG_ROLLBACK_JOB_TYPE = ''system.tenant_config.rollback''"

lemmas job_type_defs = USER_IMPORT_JOB_TYPE_def EXPORT_JOB_TYPE_def DATA_RETENTION_JOB_TYPE_def
  TENANT_CONFIG_EXPORT_JOB_TYPE_def TENANT_CONFIG_PREVIEW_JOB_TYPE_def
  TENANT_CONFIG_APPLY_JOB_TYPE_def TENANT_CONFIG_ROLLBACK_JOB_TYPE_def

definition is_tenant_config_job :: "string \<Rightarrow> bool" where
  "is_tenant_config_job job_type \<longleftrightarrow>
     job_type \<in> {TENANT_CONFIG_EXPORT_JOB_TYPE, TENANT_CONFIG_PREVIEW_JOB_TYPE,
                 TENANT_CONFIG_APPLY_JOB_TYPE, TENANT_CONFIG_ROLLBACK_JOB_TYPE}"

definition positive_id :: "int option \<Rightarrow> int option" where
  "positive_id i = (case i of Some n \<Rightarrow> if 0 < n then Some n else None | None \<Rightarrow> None)"

definition linked_resource_id :: "background_job \<Rightarrow> string \<Rightarrow> int option" where
  "linked_resource_id job k =
     (case json_get k (bj_payload job) of
        None \<Rightarrow> None
      | Some v \<Rightarrow>
          (case v of
             JString s \<Rightarrow> positive_id (parse_i64 s)
           | JInt i \<Rightarrow> positive_id (json_as_i64 (JInt i))
           | JFloat t \<Rightarrow> positive_id (json_as_i64 (JFloat t))
           | _ \<Rightarrow> None))"

definition truncate_error :: "string \<Rightarrow> string" where
  "truncate_error error = truncate_bytes (8 * 1024) error"

section \<open>Dispositions and results\<close>

datatype LinkedJobDisposition = LRetried | LDead | LManuallyRetried

datatype LinkedBusinessTerminal = BSucceeded | BCancelled | BExpired | BFailed

datatype LinkedJobSyncResult =
  NotLinked | Transitioned | Terminal LinkedBusinessTerminal | SyncConflict

fun terminal_disposition :: "LinkedJobSyncResult \<Rightarrow> JobFailureDisposition option app_result" where
  "terminal_disposition NotLinked = Inr None"
| "terminal_disposition Transitioned = Inr None"
| "terminal_disposition (Terminal BFailed) = Inr (Some Dead)"
| "terminal_disposition (Terminal _) = Inr (Some Completed)"
| "terminal_disposition SyncConflict = Inl (Conflict msg_linked_conflict)"

text \<open>The status of the linked row after an update that matched \<open>rows_affected\<close> rows.\<close>

definition classify_linked_update ::
  "nat \<Rightarrow> string option \<Rightarrow> string list \<Rightarrow> (string \<Rightarrow> LinkedBusinessTerminal option) \<Rightarrow> LinkedJobSyncResult" where
  "classify_linked_update rows_affected current_status eligible_statuses terminal =
     (if rows_affected = 1 then Transitioned
      else if rows_affected = 0
      then (case current_status of
              Some status \<Rightarrow>
                if status \<in> set eligible_statuses then Transitioned
                else (case terminal status of Some t \<Rightarrow> Terminal t | None \<Rightarrow> SyncConflict)
            | None \<Rightarrow> SyncConflict)
      else SyncConflict)"

definition import_terminal :: "string \<Rightarrow> LinkedBusinessTerminal option" where
  "import_terminal status =
     (if status = imp_STATUS_SUCCEEDED \<or> status = imp_STATUS_PARTIAL then Some BSucceeded
      else if status = imp_STATUS_CANCELLED then Some BCancelled
      else if status = imp_STATUS_FAILED then Some BFailed
      else None)"

definition export_terminal :: "string \<Rightarrow> LinkedBusinessTerminal option" where
  "export_terminal status =
     (if status = exp_STATUS_SUCCEEDED then Some BSucceeded
      else if status = exp_STATUS_CANCELLED then Some BCancelled
      else if status = exp_STATUS_EXPIRED then Some BExpired
      else if status = exp_STATUS_FAILED then Some BFailed
      else None)"

definition retention_terminal :: "string \<Rightarrow> LinkedBusinessTerminal option" where
  "retention_terminal status =
     (if status = ret_STATUS_SUCCEEDED \<or> status = ret_STATUS_PARTIAL then Some BSucceeded
      else if status = ret_STATUS_FAILED then Some BFailed
      else None)"

definition config_bundle_terminal :: "string \<Rightarrow> LinkedBusinessTerminal option" where
  "config_bundle_terminal status =
     (if status = cfb_STATUS_SUCCEEDED then Some BSucceeded
      else if status = cfb_STATUS_EXPIRED then Some BExpired
      else if status = cfb_STATUS_FAILED then Some BFailed
      else None)"

text \<open>
  The error column of a linked row: a supplied error is written, a manual retry clears it, and
  otherwise the column keeps its value.
\<close>

definition error_column :: "string option \<Rightarrow> LinkedJobDisposition \<Rightarrow> string option \<Rightarrow> string option" where
  "error_column error disposition old =
     (case error of
        Some e \<Rightarrow> Some e
      | None \<Rightarrow> if disposition = LManuallyRetried then None else old)"

text \<open>
  One linked update: the rows selected by \<open>link\<close> whose status is eligible are rewritten by \<open>f\<close>;
  unless exactly one row matched, the row's current status decides.
\<close>

definition linked_update ::
  "('r \<Rightarrow> bool) \<Rightarrow> ('r \<Rightarrow> string) \<Rightarrow> ('r \<Rightarrow> 'r) \<Rightarrow> string list \<Rightarrow>
   (string \<Rightarrow> LinkedBusinessTerminal option) \<Rightarrow> 'r list \<Rightarrow> LinkedJobSyncResult \<times> 'r list" where
  "linked_update link status_of f statuses terminal rows =
     (let P = (\<lambda>r. link r \<and> status_of r \<in> set statuses);
          affected = rows_matched P rows;
          rows' = update_where P f rows;
          current = (if affected = 1 then None else map_option status_of (find link rows'))
      in (classify_linked_update affected current statuses terminal, rows'))"

section \<open>The linked tables\<close>

definition sync_import_job ::
  "background_job \<Rightarrow> LinkedJobDisposition \<Rightarrow> string option \<Rightarrow> timestamp \<Rightarrow> control_db \<Rightarrow>
   LinkedJobSyncResult \<times> control_db" where
  "sync_import_job job disposition error now db =
     (let (status, completed_at, statuses) =
            (case disposition of
               LRetried \<Rightarrow> (imp_STATUS_PENDING, None, [imp_STATUS_PENDING, imp_STATUS_RUNNING])
             | LDead \<Rightarrow> (imp_STATUS_FAILED, Some now,
                          [imp_STATUS_PENDING, imp_STATUS_RUNNING, imp_STATUS_FAILED])
             | LManuallyRetried \<Rightarrow> (imp_STATUS_PENDING, None, [imp_STATUS_FAILED]));
          (result, rows) =
            linked_update (\<lambda>r. imp_background_job_id r = bj_id job) imp_status
              (\<lambda>r. r\<lparr>imp_status := status, imp_completed_at := completed_at, imp_updated_at := now,
                     imp_last_error := error_column error disposition (imp_last_error r)\<rparr>)
              statuses import_terminal (db_imports db)
      in (result, db\<lparr>db_imports := rows\<rparr>))"

definition sync_export_job ::
  "background_job \<Rightarrow> LinkedJobDisposition \<Rightarrow> string option \<Rightarrow> timestamp \<Rightarrow> control_db \<Rightarrow>
   LinkedJobSyncResult \<times> control_db" where
  "sync_export_job job disposition error now db =
     (let (status, completed_at, statuses) =
            (case disposition of
               LRetried \<Rightarrow> (exp_STATUS_QUEUED, None, [exp_STATUS_QUEUED, exp_STATUS_RUNNING])
             | LDead \<Rightarrow> (exp_STATUS_FAILED, Some now, [exp_STATUS_QUEUED, exp_STATUS_RUNNING])
             | LManuallyRetried \<Rightarrow> (exp_STATUS_QUEUED, None, [exp_STATUS_FAILED]));
          extra = (\<lambda>r. case disposition of
               LRetried \<Rightarrow> r\<lparr>exp_exported_rows := 0\<rparr>
             | LDead \<Rightarrow> r\<lparr>exp_active_request_fingerprint := None\<rparr>
             | LManuallyRetried \<Rightarrow> r\<lparr>exp_exported_rows := 0,
                 exp_active_request_fingerprint := Some (exp_request_fingerprint r)\<rparr>);
          (result, rows) =
            linked_update (\<lambda>r. exp_background_job_id r = bj_id job) exp_status
              (\<lambda>r. extra (r\<lparr>exp_status := status, exp_completed_at := completed_at, exp_updated_at := now,
                     exp_error_message := error_column error disposition (exp_error_message r)\<rparr>))
              statuses export_terminal (db_exports db)
      in (result, db\<lparr>db_exports := rows\<rparr>))"

text \<open>
  A retention job creates its run row when it is missing. The run's identifier comes from the
  payload, and falls back to the job's.
\<close>

definition insert_run_if_missing :: "data_retention_run \<Rightarrow> control_db \<Rightarrow> control_db app_result" where
  "insert_run_if_missing run db =
     (case find (\<lambda>r. ret_background_job_id r = ret_background_job_id run) (db_retention_runs db) of
        Some existing \<Rightarrow> Inr db
      | None \<Rightarrow>
          if ret_id run \<in> ret_id ` set (db_retention_runs db)
          then Inl (Conflict msg_retention_creating)
          else Inr (db\<lparr>db_retention_runs := run # db_retention_runs db\<rparr>))"

definition ensure_retention_run :: "background_job \<Rightarrow> timestamp \<Rightarrow> control_db \<Rightarrow> control_db app_result" where
  "ensure_retention_run job now db =
     (case find (\<lambda>r. ret_background_job_id r = bj_id job) (db_retention_runs db) of
        Some _ \<Rightarrow> Inr db
      | None \<Rightarrow>
          (let field = (\<lambda>k. Option.bind (json_get k (bj_payload job)) json_as_str);
               trigger_kind =
                 (case field ''trigger_kind'' of
                    Some v \<Rightarrow> if v \<in> {ret_TRIGGER_MANUAL, ret_TRIGGER_SCHEDULED} then v
                              else ret_TRIGGER_SCHEDULED
                  | None \<Rightarrow> ret_TRIGGER_SCHEDULED);
               requested_by = Option.bind (field ''requested_by'') parse_i64;
               run_id = (case Option.bind (field ''run_id'') parse_i64 of Some i \<Rightarrow> i | None \<Rightarrow> bj_id job)
           in insert_run_if_missing
                \<lparr>ret_id = run_id, ret_background_job_id = bj_id job, ret_trigger_kind = trigger_kind,
                 ret_status = ret_STATUS_PENDING, ret_policy_snapshot = JObject [],
                 ret_eligible_counts = JObject [], ret_deleted_counts = JObject [],
                 ret_remaining_counts = JObject [], ret_requested_by = requested_by,
                 ret_error_summary = None, ret_started_at = None, ret_completed_at = None,
                 ret_created_at = now, ret_updated_at = now\<rparr> db))"

definition sync_retention_job ::
  "background_job \<Rightarrow> LinkedJobDisposition \<Rightarrow> string option \<Rightarrow> timestamp \<Rightarrow> control_db \<Rightarrow>
   (LinkedJobSyncResult \<times> control_db) app_result" where
  "sync_retention_job job disposition error now db0 =
     bind_result (ensure_retention_run job now db0) (\<lambda>db.
     (let (status, completed_at, statuses) =
            (case disposition of
               LRetried \<Rightarrow> (ret_STATUS_PENDING, None,
                             [ret_STATUS_PENDING, ret_STATUS_RUNNING, ret_STATUS_FAILED])
             | LDead \<Rightarrow> (ret_STATUS_FAILED, Some now, [ret_STATUS_PENDING, ret_STATUS_RUNNING])
             | LManuallyRetried \<Rightarrow> (ret_STATUS_PENDING, None, [ret_STATUS_FAILED]));
          (result, rows) =
            linked_update (\<lambda>r. ret_background_job_id r = bj_id job) ret_status
              (\<lambda>r. r\<lparr>ret_status := status, ret_completed_at := completed_at, ret_updated_at := now,
                     ret_error_summary := error_column error disposition (ret_error_summary r)\<rparr>)
              statuses retention_terminal (db_retention_runs db)
      in Inr (result, db\<lparr>db_retention_runs := rows\<rparr>)))"

definition sync_config_bundle ::
  "background_job \<Rightarrow> LinkedJobDisposition \<Rightarrow> string option \<Rightarrow> timestamp \<Rightarrow> control_db \<Rightarrow>
   LinkedJobSyncResult \<times> control_db" where
  "sync_config_bundle job disposition error now db =
     (let (status, statuses) =
            (case disposition of
               LRetried \<Rightarrow> (cfb_STATUS_PENDING, [cfb_STATUS_PENDING, cfb_STATUS_RUNNING])
             | LDead \<Rightarrow> (cfb_STATUS_FAILED, [cfb_STATUS_PENDING, cfb_STATUS_RUNNING, cfb_STATUS_FAILED])
             | LManuallyRetried \<Rightarrow> (cfb_STATUS_PENDING, [cfb_STATUS_FAILED]));
          safe_error = (case error of Some _ \<Rightarrow> Some msg_cfg_export_safe | None \<Rightarrow> None);
          (result, rows) =
            linked_update (\<lambda>r. cfb_background_job_id r = Some (bj_id job)) cfb_status
              (\<lambda>r. r\<lparr>cfb_status := status, cfb_updated_at := now,
                     cfb_error_summary := error_column safe_error disposition (cfb_error_summary r)\<rparr>)
              statuses config_bundle_terminal (db_bundles db)
      in (result, db\<lparr>db_bundles := rows\<rparr>))"

section \<open>Configuration transfers\<close>

datatype ConfigTransferJobKind = Preview | Apply | Rollback

definition transfer_terminal :: "ConfigTransferJobKind \<Rightarrow> string \<Rightarrow> LinkedBusinessTerminal option" where
  "transfer_terminal kind status =
     (if status = ct_STATUS_FAILED then Some BFailed
      else if (case kind of
                 Preview \<Rightarrow> status \<in> {ct_STATUS_PREVIEWED, ct_STATUS_APPLY_PENDING, ct_STATUS_APPLYING,
                   ct_STATUS_APPLIED, ct_STATUS_ROLLBACK_PENDING, ct_STATUS_ROLLING_BACK,
                   ct_STATUS_ROLLED_BACK}
               | Apply \<Rightarrow> status \<in> {ct_STATUS_APPLIED, ct_STATUS_ROLLBACK_PENDING,
                   ct_STATUS_ROLLING_BACK, ct_STATUS_ROLLED_BACK}
               | Rollback \<Rightarrow> status = ct_STATUS_ROLLED_BACK)
      then Some BSucceeded else None)"

definition transfer_job_id :: "ConfigTransferJobKind \<Rightarrow> config_transfer \<Rightarrow> int option" where
  "transfer_job_id kind r =
     (case kind of
        Preview \<Rightarrow> ct_preview_background_job_id r
      | Apply \<Rightarrow> ct_apply_background_job_id r
      | Rollback \<Rightarrow> ct_rollback_background_job_id r)"

definition classify_transfer_update ::
  "nat \<Rightarrow> string option \<Rightarrow> string list \<Rightarrow> ConfigTransferJobKind \<Rightarrow> LinkedJobSyncResult" where
  "classify_transfer_update rows_affected current_status eligible_statuses kind =
     classify_linked_update rows_affected current_status eligible_statuses (transfer_terminal kind)"

definition transfer_target :: "ConfigTransferJobKind \<Rightarrow> LinkedJobDisposition \<Rightarrow> string \<times> string list" where
  "transfer_target kind disposition =
     (let (pending, active) =
            (case kind of
               Preview \<Rightarrow> (ct_STATUS_PREVIEW_PENDING, ct_STATUS_PREVIEWING)
             | Apply \<Rightarrow> (ct_STATUS_APPLY_PENDING, ct_STATUS_APPLYING)
             | Rollback \<Rightarrow> (ct_STATUS_ROLLBACK_PENDING, ct_STATUS_ROLLING_BACK))
      in case disposition of
           LRetried \<Rightarrow> (pending, [pending, active])
         | LDead \<Rightarrow> (ct_STATUS_FAILED, [pending, active, ct_STATUS_FAILED])
         | LManuallyRetried \<Rightarrow> (pending, [ct_STATUS_FAILED]))"

definition sync_config_transfer_state ::
  "background_job \<Rightarrow> LinkedJobDisposition \<Rightarrow> string option \<Rightarrow> timestamp \<Rightarrow> ConfigTransferJobKind \<Rightarrow>
   control_db \<Rightarrow> LinkedJobSyncResult \<times> control_db" where
  "sync_config_transfer_state job disposition error now kind db =
     (let (status, statuses) = transfer_target kind disposition
      in case (linked_resource_id job ''transfer_id'', bj_tenant_id job) of
           (Some transfer_id, Some tenant_id) \<Rightarrow>
             (let link = (\<lambda>r. ct_id r = transfer_id \<and> ct_tenant_id r = tenant_id \<and>
                              transfer_job_id kind r = Some (bj_id job));
                  safe_error =
                    (case error of
                       Some _ \<Rightarrow> Some (case kind of Preview \<Rightarrow> msg_cfg_preview_safe
                                                     | Apply \<Rightarrow> msg_cfg_apply_safe
                                                     | Rollback \<Rightarrow> msg_cfg_rollback_safe)
                     | None \<Rightarrow> None);
                  P = (\<lambda>r. link r \<and> ct_status r \<in> set statuses);
                  affected = rows_matched P (db_transfers db);
                  rows = update_where P
                    (\<lambda>r. r\<lparr>ct_status := status, ct_updated_at := now,
                           ct_error_summary := error_column safe_error disposition (ct_error_summary r)\<rparr>)
                    (db_transfers db);
                  current = (if affected = 1 then None else map_option ct_status (find link rows))
              in (classify_transfer_update affected current statuses kind, db\<lparr>db_transfers := rows\<rparr>))
         | _ \<Rightarrow> (SyncConflict, db))"

definition is_tenant_config_job_owner :: "control_db \<Rightarrow> background_job \<Rightarrow> string \<Rightarrow> int \<Rightarrow> bool" where
  "is_tenant_config_job_owner db job tenant_id retry_requested_by =
     (if bj_tenant_id job \<noteq> Some tenant_id then False
      else if bj_job_type job = TENANT_CONFIG_EXPORT_JOB_TYPE
      then (case linked_resource_id job ''bundle_id'' of
              None \<Rightarrow> False
            | Some bundle_id \<Rightarrow>
                (\<exists>r \<in> set (db_bundles db). cfb_id r = bundle_id \<and> cfb_tenant_id r = tenant_id \<and>
                   cfb_background_job_id r = Some (bj_id job) \<and> cfb_created_by r = retry_requested_by))
      else if bj_job_type job \<in> {TENANT_CONFIG_PREVIEW_JOB_TYPE, TENANT_CONFIG_APPLY_JOB_TYPE,
                                 TENANT_CONFIG_ROLLBACK_JOB_TYPE}
      then (case linked_resource_id job ''transfer_id'' of
              None \<Rightarrow> False
            | Some transfer_id \<Rightarrow>
                (\<exists>r \<in> set (db_transfers db). ct_id r = transfer_id \<and> ct_tenant_id r = tenant_id \<and>
                   ct_requested_by r = retry_requested_by \<and>
                   transfer_job_id
                     (if bj_job_type job = TENANT_CONFIG_PREVIEW_JOB_TYPE then Preview
                      else if bj_job_type job = TENANT_CONFIG_APPLY_JOB_TYPE then Apply else Rollback) r
                   = Some (bj_id job)))
      else True)"

section \<open>Dispatch and closing\<close>

definition sync_linked_job_state ::
  "background_job \<Rightarrow> LinkedJobDisposition \<Rightarrow> string option \<Rightarrow> timestamp \<Rightarrow> control_db \<Rightarrow>
   (LinkedJobSyncResult \<times> control_db) app_result" where
  "sync_linked_job_state job disposition error_message now db =
     (let error = map_option truncate_error error_message; t = bj_job_type job
      in if t = USER_IMPORT_JOB_TYPE then Inr (sync_import_job job disposition error now db)
         else if t = EXPORT_JOB_TYPE then Inr (sync_export_job job disposition error now db)
         else if t = DATA_RETENTION_JOB_TYPE then sync_retention_job job disposition error now db
         else if t = TENANT_CONFIG_EXPORT_JOB_TYPE
         then Inr (sync_config_bundle job disposition error now db)
         else if t = TENANT_CONFIG_PREVIEW_JOB_TYPE
         then Inr (sync_config_transfer_state job disposition error now Preview db)
         else if t = TENANT_CONFIG_APPLY_JOB_TYPE
         then Inr (sync_config_transfer_state job disposition error now Apply db)
         else if t = TENANT_CONFIG_ROLLBACK_JOB_TYPE
         then Inr (sync_config_transfer_state job disposition error now Rollback db)
         else Inr (NotLinked, db))"

text \<open>An update of a job by its primary key.\<close>

definition put_job :: "background_job \<Rightarrow> control_db \<Rightarrow> control_db" where
  "put_job job db = db\<lparr>db_jobs := row_put bj_id job (db_jobs db)\<rparr>"

definition finish_from_linked_terminal ::
  "background_job \<Rightarrow> LinkedJobSyncResult \<Rightarrow> string option \<Rightarrow> timestamp \<Rightarrow> control_db \<Rightarrow>
   (JobFailureDisposition option \<times> control_db) app_result" where
  "finish_from_linked_terminal job sync_result error_message now db =
     bind_result (terminal_disposition sync_result) (\<lambda>d.
     case d of
       None \<Rightarrow> Inr (None, db)
     | Some disposition \<Rightarrow>
         Inr (Some disposition,
              put_job (job\<lparr>bj_status := (if disposition = Completed then bj_STATUS_SUCCEEDED else bj_STATUS_DEAD),
                           bj_available_at := now, bj_lease_owner := None, bj_lease_until := None,
                           bj_last_error :=
                             (if disposition = Dead
                              then (case error_message of Some e \<Rightarrow> Some (truncate_error e) | None \<Rightarrow> bj_last_error job)
                              else bj_last_error job),
                           bj_updated_at := now, bj_completed_at := Some now\<rparr>) db))"

end
