(* ===== verification/Job_Queue.thy ===== *)
theory Job_Queue
  imports Job_Linked
begin

text \<open>
  \<open>background_job_repo/{enqueue,claim,attempts,types}.rs\<close>, \<open>transitions/mod.rs\<close> and the lease check
  of \<open>background_job_repo.rs\<close>: the durable job queue. Each repository call is one transaction under
  the row lock of its job, so it is one function of the database; a call that ends in an error has
  been rolled back. The rows that a concurrent transaction has locked, which \<open>SKIP LOCKED\<close> passes
  over, are an argument. Text columns are compared byte by byte (the collation also identifies
  letters that differ in case).
\<close>

section \<open>Checks\<close>

definition validate_lease :: "string \<Rightarrow> duration \<Rightarrow> unit app_result" where
  "validate_lease worker_id lease_duration =
     first_error
       [(trim worker_id = [] \<or> 128 < length worker_id,
         Validation ''background job worker_id must contain 1 to 128 bytes''),
        (lease_duration \<le> 0, Validation ''background job lease duration must be positive'')] ()"

definition opt_check :: "('a \<Rightarrow> bool) \<Rightarrow> 'a option \<Rightarrow> bool" where
  "opt_check bad v = (case v of Some x \<Rightarrow> bad x | None \<Rightarrow> False)"

definition validate_enqueue_command :: "EnqueueBackgroundJob \<Rightarrow> unit app_result" where
  "validate_enqueue_command c =
     first_error
       [(trim (eq_job_type c) = [] \<or> 96 < length (eq_job_type c),
         Validation ''background job type must contain 1 to 96 bytes''),
        (eq_max_attempts c \<le> 0,
         Validation ''background job max_attempts must be greater than zero''),
        (100 < eq_max_attempts c,
         Validation ''background job max_attempts must not exceed 100''),
        (opt_check (\<lambda>s. \<not> (1 \<le> s \<and> s \<le> 86400)) (eq_max_runtime_seconds c),
         Validation msg_max_runtime),
        (opt_check (\<lambda>k. k = [] \<or> 191 < length k) (eq_dedupe_key c),
         Validation ''background job dedupe_key must contain 1 to 191 bytes when supplied''),
        (opt_check (\<lambda>v. 255 < length v) (eq_traceparent c),
         Validation ''background job traceparent must not exceed 255 bytes''),
        (opt_check (\<lambda>v. 512 < length v) (eq_tracestate c),
         Validation ''background job tracestate must not exceed 512 bytes'')] ()"

section \<open>Enqueueing\<close>

definition find_by_id :: "int \<Rightarrow> control_db \<Rightarrow> background_job option" where
  "find_by_id job_id db = row_get bj_id job_id (db_jobs db)"

definition tenant_visible :: "string \<Rightarrow> bool \<Rightarrow> background_job \<Rightarrow> bool" where
  "tenant_visible tenant_id include_platform job \<longleftrightarrow>
     bj_tenant_id job = Some tenant_id \<or> (include_platform \<and> bj_tenant_id job = None)"

definition find_by_id_for_tenant :: "string \<Rightarrow> bool \<Rightarrow> int \<Rightarrow> control_db \<Rightarrow> background_job option" where
  "find_by_id_for_tenant tenant_id include_platform job_id db =
     (case find_by_id job_id db of
        Some job \<Rightarrow> if tenant_visible tenant_id include_platform job then Some job else None
      | None \<Rightarrow> None)"

definition find_by_dedupe_key :: "string \<Rightarrow> string \<Rightarrow> control_db \<Rightarrow> background_job option" where
  "find_by_dedupe_key job_type dedupe_key db =
     find (\<lambda>j. bj_job_type j = job_type \<and> bj_dedupe_key j = Some dedupe_key) (db_jobs db)"

definition new_job :: "int \<Rightarrow> EnqueueBackgroundJob \<Rightarrow> timestamp \<Rightarrow> background_job" where
  "new_job new_id c now =
     \<lparr>bj_id = new_id, bj_tenant_id = eq_tenant_id c, bj_schedule_id = eq_schedule_id c,
      bj_scheduled_for = eq_scheduled_for c, bj_max_runtime_seconds = eq_max_runtime_seconds c,
      bj_job_type = eq_job_type c, bj_payload = eq_payload c, bj_status = bj_STATUS_PENDING,
      bj_priority = eq_priority c, bj_available_at = eq_available_at c, bj_attempts = 0,
      bj_claim_sequence = 0, bj_max_attempts = eq_max_attempts c, bj_lease_owner = None,
      bj_lease_until = None, bj_dedupe_key = eq_dedupe_key c, bj_traceparent = eq_traceparent c,
      bj_tracestate = eq_tracestate c, bj_last_error = None, bj_created_at = now,
      bj_updated_at = now, bj_completed_at = None\<rparr>"

text \<open>The primary key and the unique index on type and dedupe key; a null key never collides.\<close>

definition insert_job :: "background_job \<Rightarrow> control_db \<Rightarrow> control_db option" where
  "insert_job job db =
     (if bj_id job \<in> bj_id ` set (db_jobs db) \<or>
         (\<exists>j \<in> set (db_jobs db). bj_job_type j = bj_job_type job \<and> bj_dedupe_key j \<noteq> None \<and>
            bj_dedupe_key j = bj_dedupe_key job)
      then None else Some (db\<lparr>db_jobs := job # db_jobs db\<rparr>))"

text \<open>
  \<open>enqueue_on\<close>. Between the precheck and the insertion other transactions may commit: \<open>db1\<close> is the
  database the precheck reads, \<open>db2\<close> the one the insertion meets. \<open>next_id\<close> is the identifier the
  generator hands out, or its error.
\<close>

definition enqueue_on ::
  "int app_result \<Rightarrow> EnqueueBackgroundJob \<Rightarrow> timestamp \<Rightarrow> control_db \<Rightarrow> control_db \<Rightarrow>
   (EnqueueBackgroundJobResult \<times> control_db) app_result" where
  "enqueue_on next_id c now db1 db2 =
     bind_result (validate_enqueue_command c) (\<lambda>_.
     case Option.bind (eq_dedupe_key c) (\<lambda>k. find_by_dedupe_key (eq_job_type c) k db1) of
       Some existing \<Rightarrow> Inr (\<lparr>er_job = existing, er_inserted = False\<rparr>, db2)
     | None \<Rightarrow>
         bind_result next_id (\<lambda>new_id.
         case insert_job (new_job new_id c now) db2 of
           Some db' \<Rightarrow> Inr (\<lparr>er_job = new_job new_id c now, er_inserted = True\<rparr>, db')
         | None \<Rightarrow>
             (case eq_dedupe_key c of
                None \<Rightarrow> Inl (Database ''duplicate background job insert without a dedupe key'')
              | Some k \<Rightarrow>
                  (case find_by_dedupe_key (eq_job_type c) k db2 of
                     None \<Rightarrow> Inl (Database ''duplicate background job key was reported but no row is readable'')
                   | Some existing \<Rightarrow> Inr (\<lparr>er_job = existing, er_inserted = False\<rparr>, db2)))))"

definition enqueue ::
  "int app_result \<Rightarrow> EnqueueBackgroundJob \<Rightarrow> timestamp \<Rightarrow> control_db \<Rightarrow>
   (EnqueueBackgroundJobResult \<times> control_db) app_result" where
  "enqueue next_id c now db = enqueue_on next_id c now db db"

section \<open>Attempts\<close>

definition next_sequence :: "int \<Rightarrow> int app_result" where
  "next_sequence sequence =
     (case checked_add_i64 sequence 1 of
        Some v \<Rightarrow> if 0 < v then Inr v else Inl (Database msg_claim_sequence)
      | None \<Rightarrow> Inl (Database msg_claim_sequence))"

text \<open>A repeated attempt key is refused by the primary key; the driver's own text is not modelled.\<close>

definition start_attempt :: "background_job \<Rightarrow> int \<Rightarrow> timestamp \<Rightarrow> control_db \<Rightarrow> control_db app_result" where
  "start_attempt job sequence now db =
     bind_result
       (if bj_status job \<noteq> bj_STATUS_PENDING \<or> bj_lease_owner job \<noteq> None \<or> bj_lease_until job \<noteq> None
        then Inr True
        else bind_result (next_sequence (bj_claim_sequence job)) (\<lambda>s.
             Inr (sequence \<noteq> s \<or> now < bj_available_at job)))
       (\<lambda>bad.
     if bad then Inl (Database msg_claim_state)
     else if \<exists>a \<in> set (db_attempts db). at_job_id a = bj_id job \<and> at_sequence a = sequence
     then Inl (Database ''duplicate attempt'')
     else Inr (db\<lparr>db_attempts :=
            \<lparr>at_job_id = bj_id job, at_sequence = sequence, at_available_at = bj_available_at job,
             at_started_at = now, at_finished_at = None, at_closed_at = None,
             at_outcome = ''running''\<rparr> # db_attempts db\<rparr>))"

datatype Outcome = OSucceeded | OFailed | ODead | ODeferred | OLeaseExpired

fun outcome_as_str :: "Outcome \<Rightarrow> string" where
  "outcome_as_str OSucceeded = ''succeeded''"
| "outcome_as_str OFailed = ''failed''"
| "outcome_as_str ODead = ''dead''"
| "outcome_as_str ODeferred = ''deferred''"
| "outcome_as_str OLeaseExpired = ''lease_expired''"

definition outcome_finished_at :: "Outcome \<Rightarrow> timestamp \<Rightarrow> timestamp option" where
  "outcome_finished_at outcome now = (if outcome \<noteq> OLeaseExpired then Some now else None)"

definition open_attempt :: "background_job \<Rightarrow> timestamp \<Rightarrow> background_job_attempt \<Rightarrow> bool" where
  "open_attempt job now a \<longleftrightarrow>
     at_job_id a = bj_id job \<and> at_sequence a = bj_claim_sequence job \<and> at_outcome a = ''running'' \<and>
     at_started_at a \<le> now \<and> at_closed_at a = None"

definition close_attempt :: "background_job \<Rightarrow> Outcome \<Rightarrow> timestamp \<Rightarrow> control_db \<Rightarrow> control_db app_result" where
  "close_attempt job outcome now db =
     (if rows_matched (open_attempt job now) (db_attempts db) \<noteq> 1
      then Inl (Database msg_attempt_missing)
      else Inr (db\<lparr>db_attempts :=
             update_where (open_attempt job now)
               (\<lambda>a. a\<lparr>at_outcome := outcome_as_str outcome,
                      at_finished_at := outcome_finished_at outcome now,
                      at_closed_at := Some now\<rparr>) (db_attempts db)\<rparr>))"

section \<open>Claiming\<close>

definition claimable :: "timestamp \<Rightarrow> ExecutionTenantFilter \<Rightarrow> background_job \<Rightarrow> bool" where
  "claimable now scope job \<longleftrightarrow>
     bj_status job = bj_STATUS_PENDING \<and> bj_available_at job \<le> now \<and>
     bj_attempts job < bj_max_attempts job \<and> etf_condition scope (bj_tenant_id job)"

text \<open>\<open>ORDER BY priority DESC, available_at, id\<close>\<close>

definition claim_order :: "background_job \<Rightarrow> int \<times> timestamp \<times> int" where
  "claim_order job = (- bj_priority job, bj_available_at job, bj_id job)"

definition claimable_query ::
  "timestamp \<Rightarrow> ExecutionTenantFilter \<Rightarrow> (int \<Rightarrow> bool) \<Rightarrow> control_db \<Rightarrow> background_job list" where
  "claimable_query now scope locked db =
     sort_key claim_order
       (filter (\<lambda>j. claimable now scope j \<and> \<not> locked (bj_id j)) (db_jobs db))"

definition claim_next ::
  "string \<Rightarrow> duration \<Rightarrow> timestamp \<Rightarrow> ExecutionTenantFilter \<Rightarrow> (int \<Rightarrow> bool) \<Rightarrow> control_db \<Rightarrow>
   (background_job option \<times> control_db) app_result" where
  "claim_next worker_id lease_duration now scope locked db =
     bind_result (validate_lease worker_id lease_duration) (\<lambda>_.
     case claimable_query now scope locked db of
       [] \<Rightarrow> Inr (None, db)
     | job # _ \<Rightarrow>
         (case checked_add_i32 (bj_attempts job) 1 of
            None \<Rightarrow> Inl (Database ''background job attempts overflowed'')
          | Some attempts \<Rightarrow>
              bind_result (next_sequence (bj_claim_sequence job)) (\<lambda>sequence.
              bind_result (start_attempt job sequence now db) (\<lambda>db1.
              let claimed = job\<lparr>bj_status := bj_STATUS_RUNNING, bj_attempts := attempts,
                                bj_claim_sequence := sequence, bj_lease_owner := Some worker_id,
                                bj_lease_until := Some (now + lease_duration), bj_updated_at := now,
                                bj_completed_at := None\<rparr>
              in Inr (Some claimed, put_job claimed db1)))))"

section \<open>Transitions of a claimed job\<close>

definition owned_running_query :: "int \<Rightarrow> int \<Rightarrow> string \<Rightarrow> control_db \<Rightarrow> background_job option" where
  "owned_running_query job_id claim_sequence worker_id db =
     (case find_by_id job_id db of
        Some j \<Rightarrow>
          if bj_status j = bj_STATUS_RUNNING \<and> bj_claim_sequence j = claim_sequence \<and>
             bj_lease_owner j = Some worker_id
          then Some j else None
      | None \<Rightarrow> None)"

definition lease_over :: "timestamp \<Rightarrow> background_job \<Rightarrow> bool" where
  "lease_over now job = (case bj_lease_until job of None \<Rightarrow> True | Some t \<Rightarrow> t \<le> now)"

text \<open>The job a worker may still act on: it owns the lease of this claim and the lease has not run out.\<close>

definition held_job :: "int \<Rightarrow> int \<Rightarrow> string \<Rightarrow> timestamp \<Rightarrow> control_db \<Rightarrow> background_job option" where
  "held_job job_id claim_sequence worker_id now db =
     (case owned_running_query job_id claim_sequence worker_id db of
        Some j \<Rightarrow> if lease_over now j then None else Some j
      | None \<Rightarrow> None)"

definition job_complete ::
  "int \<Rightarrow> int \<Rightarrow> string \<Rightarrow> timestamp \<Rightarrow> control_db \<Rightarrow> (bool \<times> control_db) app_result" where
  "job_complete job_id claim_sequence worker_id now db =
     (case held_job job_id claim_sequence worker_id now db of
        None \<Rightarrow> Inr (False, db)
      | Some job \<Rightarrow>
          bind_result (close_attempt job OSucceeded now db) (\<lambda>db1.
          Inr (True,
               put_job (job\<lparr>bj_status := bj_STATUS_SUCCEEDED, bj_lease_owner := None,
                            bj_lease_until := None, bj_updated_at := now,
                            bj_completed_at := Some now\<rparr>) db1)))"

definition renew_lease ::
  "int \<Rightarrow> int \<Rightarrow> string \<Rightarrow> duration \<Rightarrow> timestamp \<Rightarrow> control_db \<Rightarrow> (bool \<times> control_db) app_result" where
  "renew_lease job_id claim_sequence worker_id lease_duration now db =
     bind_result (validate_lease worker_id lease_duration) (\<lambda>_.
     let P = (\<lambda>j. bj_id j = job_id \<and> bj_status j = bj_STATUS_RUNNING \<and>
                   bj_claim_sequence j = claim_sequence \<and> bj_lease_owner j = Some worker_id \<and>
                   \<not> lease_over now j)
     in Inr (rows_matched P (db_jobs db) = 1,
             db\<lparr>db_jobs := update_where P
                  (\<lambda>j. j\<lparr>bj_lease_until := Some (now + lease_duration), bj_updated_at := now\<rparr>)
                  (db_jobs db)\<rparr>))"

definition fail_job :: "FailBackgroundJob \<Rightarrow> control_db \<Rightarrow> (JobFailureDisposition \<times> control_db) app_result" where
  "fail_job c db =
     (let now = fb_now c; error_message = fb_error_message c
      in case held_job (fb_job_id c) (fb_claim_sequence c) (fb_worker_id c) now db of
           None \<Rightarrow> Inr (LeaseLost, db)
         | Some job \<Rightarrow>
             (let is_dead = fb_force_dead c \<or> bj_max_attempts job \<le> bj_attempts job
              in bind_result (close_attempt job (if is_dead then ODead else OFailed) now db) (\<lambda>db1.
                 bind_result (sync_linked_job_state job (if is_dead then LDead else LRetried)
                                (Some error_message) now db1) (\<lambda>(sync_result, db2).
                 bind_result (finish_from_linked_terminal job sync_result (Some error_message) now db2)
                   (\<lambda>(disposition, db3).
                 case disposition of
                   Some d \<Rightarrow> Inr (d, db3)
                 | None \<Rightarrow>
                     Inr (if is_dead then Dead else Retried (fb_retry_at c),
                          put_job (job\<lparr>bj_status := (if is_dead then bj_STATUS_DEAD else bj_STATUS_PENDING),
                                       bj_available_at := (if is_dead then now else fb_retry_at c),
                                       bj_lease_owner := None, bj_lease_until := None,
                                       bj_last_error := Some (truncate_error error_message),
                                       bj_updated_at := now,
                                       bj_completed_at := (if is_dead then Some now else None)\<rparr>) db3))))))"

definition defer_retryable_conflict ::
  "DeferBackgroundJob \<Rightarrow> control_db \<Rightarrow> (JobFailureDisposition \<times> control_db) app_result" where
  "defer_retryable_conflict c db =
     (let now = df_now c; error_message = df_error_message c
      in case held_job (df_job_id c) (df_claim_sequence c) (df_worker_id c) now db of
           None \<Rightarrow> Inr (LeaseLost, db)
         | Some job \<Rightarrow>
             bind_result (close_attempt job ODeferred now db) (\<lambda>db1.
             bind_result (sync_linked_job_state job LRetried (Some error_message) now db1)
               (\<lambda>(sync_result, db2).
             bind_result (finish_from_linked_terminal job sync_result (Some error_message) now db2)
               (\<lambda>(disposition, db3).
             case disposition of
               Some d \<Rightarrow> Inr (d, db3)
             | None \<Rightarrow>
                 Inr (Retried (df_available_at c),
                      put_job (job\<lparr>bj_status := bj_STATUS_PENDING,
                                   bj_attempts := saturating_sub_i32 (bj_attempts job) 1,
                                   bj_available_at := df_available_at c,
                                   bj_lease_owner := None, bj_lease_until := None,
                                   bj_last_error := Some (truncate_error error_message),
                                   bj_updated_at := now, bj_completed_at := None\<rparr>) db3)))))"

definition dead_letter ::
  "int \<Rightarrow> int \<Rightarrow> string \<Rightarrow> string \<Rightarrow> timestamp \<Rightarrow> control_db \<Rightarrow>
   (JobFailureDisposition \<times> control_db) app_result" where
  "dead_letter job_id claim_sequence worker_id error_message now db =
     (case held_job job_id claim_sequence worker_id now db of
        None \<Rightarrow> Inr (LeaseLost, db)
      | Some job \<Rightarrow>
          bind_result (close_attempt job ODead now db) (\<lambda>db1.
          bind_result (sync_linked_job_state job LDead (Some error_message) now db1) (\<lambda>(sync_result, db2).
          bind_result (finish_from_linked_terminal job sync_result (Some error_message) now db2)
            (\<lambda>(disposition, db3).
          case disposition of
            Some d \<Rightarrow> Inr (d, db3)
          | None \<Rightarrow>
              Inr (Dead,
                   put_job (job\<lparr>bj_status := bj_STATUS_DEAD, bj_lease_owner := None,
                                bj_lease_until := None,
                                bj_last_error := Some (truncate_error error_message),
                                bj_updated_at := now, bj_completed_at := Some now\<rparr>) db3)))))"

section \<open>Recovery and manual retry\<close>

definition EXPIRED_LEASE_DEAD_ERROR :: string where
  "EXPIRED_LEASE_DEAD_ERROR = msg_lease_expired_dead"

definition lease_expired :: "timestamp \<Rightarrow> ExecutionTenantFilter \<Rightarrow> background_job \<Rightarrow> bool" where
  "lease_expired now scope job \<longleftrightarrow>
     bj_status job = bj_STATUS_RUNNING \<and> opt_check (\<lambda>t. t \<le> now) (bj_lease_until job) \<and>
     etf_condition scope (bj_tenant_id job)"

definition expired_query ::
  "timestamp \<Rightarrow> ExecutionTenantFilter \<Rightarrow> (int \<Rightarrow> bool) \<Rightarrow> control_db \<Rightarrow> background_job list" where
  "expired_query now scope locked db =
     take 500 (sort_key (\<lambda>j. (the (bj_lease_until j), bj_id j))
       (filter (\<lambda>j. lease_expired now scope j \<and> \<not> locked (bj_id j)) (db_jobs db)))"

definition recover_one ::
  "timestamp \<Rightarrow> background_job \<Rightarrow> ExpiredLeaseRecovery \<times> control_db \<Rightarrow>
   (ExpiredLeaseRecovery \<times> control_db) app_result" where
  "recover_one now job acc =
     (case acc of (recovery, db) \<Rightarrow>
       let is_dead = bj_max_attempts job \<le> bj_attempts job;
           error = Some EXPIRED_LEASE_DEAD_ERROR
       in bind_result (close_attempt job OLeaseExpired now db) (\<lambda>db1.
          bind_result (sync_linked_job_state job (if is_dead then LDead else LRetried) error now db1)
            (\<lambda>(sync_result, db2).
          bind_result (finish_from_linked_terminal job sync_result error now db2) (\<lambda>(disposition, db3).
          case disposition of
            Some d \<Rightarrow>
              Inr (if d = Completed then recovery\<lparr>completed := completed recovery + 1\<rparr>
                   else recovery\<lparr>dead := dead recovery + 1\<rparr>, db3)
          | None \<Rightarrow>
              Inr (if is_dead then recovery\<lparr>dead := dead recovery + 1\<rparr>
                   else recovery\<lparr>requeued := requeued recovery + 1\<rparr>,
                   put_job (job\<lparr>bj_status := (if is_dead then bj_STATUS_DEAD else bj_STATUS_PENDING),
                                bj_available_at := now, bj_lease_owner := None, bj_lease_until := None,
                                bj_last_error := (if is_dead then error else None),
                                bj_updated_at := now,
                                bj_completed_at := (if is_dead then Some now else None)\<rparr>) db3)))))"

fun recover_loop ::
  "timestamp \<Rightarrow> background_job list \<Rightarrow> ExpiredLeaseRecovery \<times> control_db \<Rightarrow>
   (ExpiredLeaseRecovery \<times> control_db) app_result" where
  "recover_loop now [] acc = Inr acc"
| "recover_loop now (job # jobs) acc = bind_result (recover_one now job acc) (recover_loop now jobs)"

definition recover_expired_leases ::
  "timestamp \<Rightarrow> ExecutionTenantFilter \<Rightarrow> (int \<Rightarrow> bool) \<Rightarrow> control_db \<Rightarrow>
   (ExpiredLeaseRecovery \<times> control_db) app_result" where
  "recover_expired_leases now scope locked db =
     recover_loop now (expired_query now scope locked db)
       (\<lparr>requeued = 0, dead = 0, completed = 0\<rparr>, db)"

definition retry_dead ::
  "string \<Rightarrow> bool \<Rightarrow> int \<Rightarrow> int \<Rightarrow> timestamp \<Rightarrow> control_db \<Rightarrow>
   (JobFailureDisposition \<times> control_db) app_result" where
  "retry_dead tenant_id include_platform job_id retry_requested_by now db =
     (case find_by_id job_id db of
        None \<Rightarrow> Inr (LeaseLost, db)
      | Some job \<Rightarrow>
          if bj_status job \<noteq> bj_STATUS_DEAD \<or> \<not> tenant_visible tenant_id include_platform job
          then Inr (LeaseLost, db)
          else if is_tenant_config_job (bj_job_type job) \<and>
                  \<not> is_tenant_config_job_owner db job tenant_id retry_requested_by
          then Inr (LeaseLost, db)
          else bind_result (sync_linked_job_state job LManuallyRetried None now db) (\<lambda>(sync_result, db1).
               bind_result (finish_from_linked_terminal job sync_result None now db1)
                 (\<lambda>(disposition, db2).
               case disposition of
                 Some d \<Rightarrow> Inr (d, db2)
               | None \<Rightarrow>
                   Inr (Retried now,
                        put_job (job\<lparr>bj_status := bj_STATUS_PENDING, bj_attempts := 0,
                                     bj_available_at := now, bj_lease_owner := None,
                                     bj_lease_until := None, bj_updated_at := now,
                                     bj_completed_at := None\<rparr>) db2))))"

definition reactivate_linked_in_txn ::
  "int \<Rightarrow> string \<Rightarrow> string \<Rightarrow> int \<Rightarrow> timestamp \<Rightarrow> control_db \<Rightarrow> (bool \<times> control_db) app_result" where
  "reactivate_linked_in_txn job_id expected_job_type payload_key expected_resource_id now db =
     (case find_by_id job_id db of
        None \<Rightarrow> Inr (False, db)
      | Some job \<Rightarrow>
          if bj_job_type job \<noteq> expected_job_type \<or>
             linked_resource_id job payload_key \<noteq> Some expected_resource_id
          then Inr (False, db)
          else if bj_status job = bj_STATUS_PENDING \<or>
                  (bj_status job = bj_STATUS_RUNNING \<and> opt_check (\<lambda>t. now < t) (bj_lease_until job))
          then Inr (True, db)
          else bind_result
                 (if bj_status job = bj_STATUS_RUNNING then close_attempt job OLeaseExpired now db
                  else Inr db) (\<lambda>db1.
               Inr (True,
                    put_job (job\<lparr>bj_status := bj_STATUS_PENDING, bj_attempts := 0,
                                 bj_available_at := now, bj_lease_owner := None,
                                 bj_lease_until := None, bj_updated_at := now,
                                 bj_completed_at := None\<rparr>) db1)))"

end
