(* ===== verification/Job_Invariants.thy ===== *)
theory Job_Invariants
  imports Job_Queue
begin

text \<open>
  The invariant of the job and attempt tables and its preservation by every operation of the
  queue: the check constraints of the schema, the shape of a job in each state, and the attempt
  history, which has exactly one row per claim and at most one of them open.
\<close>

section \<open>The invariant\<close>

text \<open>\<open>ck_bg_job_attempt_budget\<close>\<close>

definition ck_bg_job_attempt_budget :: "background_job \<Rightarrow> bool" where
  "ck_bg_job_attempt_budget j \<longleftrightarrow>
     0 \<le> bj_attempts j \<and> 1 \<le> bj_max_attempts j \<and> bj_max_attempts j \<le> 100 \<and>
     bj_attempts j \<le> bj_claim_sequence j"

text \<open>\<open>ck_bg_attempt_sequence\<close>, \<open>ck_bg_attempt_times\<close> and \<open>ck_bg_attempt_outcome\<close>\<close>

definition ck_bg_attempt :: "background_job_attempt \<Rightarrow> bool" where
  "ck_bg_attempt a \<longleftrightarrow>
     0 < at_sequence a \<and> at_available_at a \<le> at_started_at a \<and>
     (\<forall>t. at_finished_at a = Some t \<longrightarrow> at_started_at a \<le> t) \<and>
     (\<forall>t. at_closed_at a = Some t \<longrightarrow> at_started_at a \<le> t) \<and>
     (at_outcome a = ''running'' \<and> at_finished_at a = None \<and> at_closed_at a = None \<or>
      at_outcome a = ''lease_expired'' \<and> at_finished_at a = None \<and> at_closed_at a \<noteq> None \<or>
      at_outcome a \<in> {''succeeded'', ''failed'', ''dead'', ''deferred''} \<and>
        at_finished_at a \<noteq> None \<and> at_closed_at a = at_finished_at a)"

definition job_ok :: "background_job \<Rightarrow> bool" where
  "job_ok j \<longleftrightarrow>
     ck_bg_job_attempt_budget j \<and> bj_attempts j \<le> bj_max_attempts j \<and> bj_claim_sequence j \<le> i64_max \<and>
     bj_status j \<in> {bj_STATUS_PENDING, bj_STATUS_RUNNING, bj_STATUS_SUCCEEDED, bj_STATUS_DEAD} \<and>
     (bj_status j = bj_STATUS_PENDING \<longrightarrow> bj_attempts j < bj_max_attempts j) \<and>
     (bj_status j = bj_STATUS_RUNNING \<longrightarrow> 1 \<le> bj_attempts j) \<and>
     (bj_lease_owner j \<noteq> None \<longleftrightarrow> bj_status j = bj_STATUS_RUNNING) \<and>
     (bj_lease_until j \<noteq> None \<longleftrightarrow> bj_status j = bj_STATUS_RUNNING) \<and>
     (bj_completed_at j \<noteq> None \<longleftrightarrow> bj_is_terminal j)"

abbreviation attempt_key :: "background_job_attempt \<Rightarrow> int \<times> int" where
  "attempt_key a \<equiv> (at_job_id a, at_sequence a)"

text \<open>The attempts of one job: sequences \<open>1\<close> to the claim sequence, the open one being the current claim.\<close>

definition history_ok :: "background_job_attempt list \<Rightarrow> background_job \<Rightarrow> bool" where
  "history_ok attempts j \<longleftrightarrow>
     (\<forall>s. (\<exists>a \<in> set attempts. attempt_key a = (bj_id j, s)) \<longleftrightarrow> 1 \<le> s \<and> s \<le> bj_claim_sequence j) \<and>
     (\<forall>a \<in> set attempts. at_job_id a = bj_id j \<longrightarrow>
        (at_outcome a = ''running'' \<longleftrightarrow>
           bj_status j = bj_STATUS_RUNNING \<and> at_sequence a = bj_claim_sequence j))"

definition dedupe_unique :: "background_job list \<Rightarrow> bool" where
  "dedupe_unique jobs \<longleftrightarrow>
     (\<forall>i \<in> set jobs. \<forall>j \<in> set jobs.
        bj_dedupe_key i \<noteq> None \<and> bj_dedupe_key i = bj_dedupe_key j \<and> bj_job_type i = bj_job_type j \<longrightarrow> i = j)"

definition core_ok :: "background_job list \<Rightarrow> background_job_attempt list \<Rightarrow> bool" where
  "core_ok jobs attempts \<longleftrightarrow>
     unique_key bj_id jobs \<and> dedupe_unique jobs \<and> unique_key attempt_key attempts \<and>
     (\<forall>j \<in> set jobs. job_ok j \<and> history_ok attempts j) \<and>
     (\<forall>a \<in> set attempts. ck_bg_attempt a \<and> at_job_id a \<in> bj_id ` set jobs)"

definition db_ok :: "control_db \<Rightarrow> bool" where
  "db_ok db \<longleftrightarrow> core_ok (db_jobs db) (db_attempts db)"

lemma db_okD:
  assumes "db_ok db" "find_by_id i db = Some j"
  shows "j \<in> set (db_jobs db)" "bj_id j = i" "job_ok j" "history_ok (db_attempts db) j"
  using assms row_get_SomeD [of bj_id i "db_jobs db" j]
  by (auto simp: db_ok_def core_ok_def find_by_id_def)

section \<open>Frames of the linked updates\<close>

lemma bind_resultE:
  assumes "bind_result r f = Inr y"
  obtains x where "r = Inr x" "f x = Inr y"
  using assms by (cases r) auto

lemma bind_result_pairE:
  assumes "bind_result r (\<lambda>(a, b). f a b) = Inr y"
  obtains a b where "r = Inr (a, b)" "f a b = Inr y"
  using assms by (cases r) auto

lemma linked_update_terminal:
  assumes "linked_update link st f statuses terminal rows = (Terminal t, rows')"
  shows "rows' = rows"
proof -
  let ?P = "\<lambda>r. link r \<and> st r \<in> set statuses"
  from assms have "rows_matched ?P rows = 0"
    by (auto simp: linked_update_def Let_def classify_linked_update_def split: if_splits)
  then have "update_where ?P f rows = rows"
    by (intro update_where_cong_none) (simp add: rows_matched_0)
  with assms show ?thesis by (simp add: linked_update_def Let_def)
qed

lemma insert_run_frame:
  "insert_run_if_missing run db = Inr db' \<Longrightarrow> db_jobs db' = db_jobs db \<and> db_attempts db' = db_attempts db"
  by (auto simp: insert_run_if_missing_def split: option.splits if_splits)

lemma ensure_run_frame:
  "ensure_retention_run job now db = Inr db' \<Longrightarrow> db_jobs db' = db_jobs db \<and> db_attempts db' = db_attempts db"
  by (auto simp: ensure_retention_run_def Let_def split: option.splits dest: insert_run_frame)

lemma sync_frame:
  assumes "sync_linked_job_state job d e now db = Inr (r, db')"
  shows "db_jobs db' = db_jobs db \<and> db_attempts db' = db_attempts db"
  using assms
  by (auto simp: sync_linked_job_state_def Let_def sync_import_job_def sync_export_job_def
      sync_retention_job_def sync_config_bundle_def sync_config_transfer_state_def case_prod_beta
      split: if_splits option.splits elim!: bind_resultE dest!: ensure_run_frame)

lemma finish_cases:
  assumes "finish_from_linked_terminal job r e now db = Inr (d, db')"
  shows "d = None \<and> db' = db \<and> (r = NotLinked \<or> r = Transitioned) \<or>
    (\<exists>t job'. r = Terminal t \<and> d = Some (if t = BFailed then Dead else Completed) \<and>
       db' = put_job job' db \<and>
       job' = job\<lparr>bj_status := (if t = BFailed then bj_STATUS_DEAD else bj_STATUS_SUCCEEDED),
         bj_available_at := now, bj_lease_owner := None, bj_lease_until := None,
         bj_last_error :=
           (if t = BFailed then (case e of Some x \<Rightarrow> Some (truncate_error x) | None \<Rightarrow> bj_last_error job)
            else bj_last_error job),
         bj_updated_at := now, bj_completed_at := Some now\<rparr>)"
proof (cases r)
  case (Terminal t)
  with assms show ?thesis
    by (cases t) (auto simp: finish_from_linked_terminal_def split: option.splits)
qed (use assms in \<open>auto simp: finish_from_linked_terminal_def\<close>)

section \<open>Preservation on the two tables\<close>

text \<open>Rewriting a job that keeps its identity, its claims and whether it runs.\<close>

lemma dedupe_unique_put:
  assumes "dedupe_unique jobs" "unique_key bj_id jobs" "job \<in> set jobs" "bj_id job' = bj_id job"
    and "bj_job_type job' = bj_job_type job" "bj_dedupe_key job' = bj_dedupe_key job"
  shows "dedupe_unique (row_put bj_id job' jobs)"
  unfolding dedupe_unique_def
proof (intro ballI impI)
  fix i j
  assume i: "i \<in> set (row_put bj_id job' jobs)" and j: "j \<in> set (row_put bj_id job' jobs)"
    and same: "bj_dedupe_key i \<noteq> None \<and> bj_dedupe_key i = bj_dedupe_key j \<and> bj_job_type i = bj_job_type j"
  have D: "x = y" if "x \<in> set jobs" "y \<in> set jobs" "bj_dedupe_key x \<noteq> None"
    "bj_dedupe_key x = bj_dedupe_key y" "bj_job_type x = bj_job_type y" for x y
    using assms(1) that unfolding dedupe_unique_def by blast
  have K: "y = job" if "y \<in> set jobs" "bj_dedupe_key y \<noteq> None" "bj_dedupe_key y = bj_dedupe_key job'"
    "bj_job_type y = bj_job_type job'" for y
    using D [OF that(1) assms(3) that(2)] that assms(5,6) by simp
  from in_row_put [OF i] in_row_put [OF j] show "i = j"
  proof (elim disjE conjE)
    assume "i = job'" "j \<in> set jobs" "bj_id j \<noteq> bj_id job'"
    moreover from this have "j = job" using same by (intro K) auto
    ultimately show ?thesis using assms(4) by simp
  next
    assume "j = job'" "i \<in> set jobs" "bj_id i \<noteq> bj_id job'"
    moreover from this have "i = job" using same by (intro K) auto
    ultimately show ?thesis using assms(4) by simp
  next
    assume "i \<in> set jobs" "j \<in> set jobs"
    with same show ?thesis by (intro D) auto
  qed simp
qed

lemma core_ok_put:
  assumes ok: "core_ok jobs attempts" and job: "job \<in> set jobs"
    and same: "bj_id job' = bj_id job" "bj_job_type job' = bj_job_type job"
      "bj_dedupe_key job' = bj_dedupe_key job" "bj_claim_sequence job' = bj_claim_sequence job"
      "bj_status job' = bj_STATUS_RUNNING \<longleftrightarrow> bj_status job = bj_STATUS_RUNNING"
    and ok': "job_ok job'"
  shows "core_ok (row_put bj_id job' jobs) attempts"
proof -
  have hist: "history_ok attempts job'"
    using ok job same unfolding core_ok_def history_ok_def by auto
  have "job_ok j \<and> history_ok attempts j" if "j \<in> set (row_put bj_id job' jobs)" for j
    using in_row_put [OF that] ok ok' hist unfolding core_ok_def by auto
  moreover have "dedupe_unique (row_put bj_id job' jobs)"
    using ok job same by (intro dedupe_unique_put) (auto simp: core_ok_def)
  ultimately show ?thesis using ok unfolding core_ok_def by simp
qed

text \<open>Closing the open attempt of a running job while the job leaves the running state.\<close>

lemma open_attempt_key: "open_attempt job now a \<Longrightarrow> attempt_key a = (bj_id job, bj_claim_sequence job)"
  by (simp add: open_attempt_def)

lemma close_keys:
  "map attempt_key (update_where (open_attempt job now)
     (\<lambda>a. a\<lparr>at_outcome := o1, at_finished_at := f1, at_closed_at := c1\<rparr>) rows) = map attempt_key rows"
  by (rule map_update_where) simp

lemma close_ck:
  assumes "ck_bg_attempt a" "open_attempt job now a"
  shows "ck_bg_attempt (a\<lparr>at_outcome := outcome_as_str out,
    at_finished_at := outcome_finished_at out now, at_closed_at := Some now\<rparr>)"
  using assms by (cases out) (auto simp: ck_bg_attempt_def open_attempt_def outcome_finished_at_def)

lemma core_ok_close:
  assumes ok: "core_ok jobs attempts" and job: "job \<in> set jobs" and run: "bj_status job = bj_STATUS_RUNNING"
    and same: "bj_id job' = bj_id job" "bj_job_type job' = bj_job_type job"
      "bj_dedupe_key job' = bj_dedupe_key job" "bj_claim_sequence job' = bj_claim_sequence job"
    and ok': "job_ok job'" "bj_status job' \<noteq> bj_STATUS_RUNNING"
    and one: "rows_matched (open_attempt job now) attempts = 1"
  shows "core_ok (row_put bj_id job' jobs)
    (update_where (open_attempt job now)
       (\<lambda>a. a\<lparr>at_outcome := outcome_as_str out, at_finished_at := outcome_finished_at out now,
              at_closed_at := Some now\<rparr>) attempts)"
    (is "core_ok _ ?attempts")
proof -
  let ?f = "\<lambda>a. a\<lparr>at_outcome := outcome_as_str out, at_finished_at := outcome_finished_at out now,
              at_closed_at := Some now\<rparr>"
  have keys: "attempt_key ` set ?attempts = attempt_key ` set attempts"
    using arg_cong [OF close_keys [of job now _ _ _ attempts], of set] by (simp only: list.set_map)
  have uni: "unique_key attempt_key ?attempts"
    using ok unfolding core_ok_def unique_key_def by (simp only: close_keys)
  have mem: "\<exists>b \<in> set attempts. attempt_key a = attempt_key b \<and>
      a = (if open_attempt job now b then ?f b else b)" if "a \<in> set ?attempts" for a
    using that by (auto simp: set_update_where)
  have out_ne: "outcome_as_str out \<noteq> ''running''" by (cases out) auto
  have hist_job: "history_ok attempts job" using ok job by (auto simp: core_ok_def)
  have ex: "(\<exists>a \<in> set ?attempts. attempt_key a = k) \<longleftrightarrow> (\<exists>a \<in> set attempts. attempt_key a = k)" for k
  proof -
    have E: "(\<exists>a \<in> set xs. attempt_key a = k) \<longleftrightarrow> k \<in> attempt_key ` set xs" for xs by force
    show ?thesis unfolding E keys ..
  qed
  have hist': "history_ok ?attempts job'"
    unfolding history_ok_def
  proof (intro conjI allI ballI impI)
    fix s
    show "(\<exists>a \<in> set ?attempts. attempt_key a = (bj_id job', s)) \<longleftrightarrow> 1 \<le> s \<and> s \<le> bj_claim_sequence job'"
      using hist_job same unfolding ex history_ok_def by simp
  next
    fix a
    assume a: "a \<in> set ?attempts" "at_job_id a = bj_id job'"
    from mem [OF a(1)] obtain b where b: "b \<in> set attempts" "attempt_key a = attempt_key b"
      "a = (if open_attempt job now b then ?f b else b)" by blast
    have "at_outcome a \<noteq> ''running''"
    proof (cases "open_attempt job now b")
      case True
      with b(3) out_ne show ?thesis by simp
    next
      case False
      show ?thesis
      proof
        assume r: "at_outcome a = ''running''"
        with False b have br: "at_outcome b = ''running''" "at_job_id b = bj_id job"
          using a(2) same(1) by auto
        with hist_job b(1) have seq: "at_sequence b = bj_claim_sequence job"
          unfolding history_ok_def by blast
        from one obtain c where c: "c \<in> set attempts" "open_attempt job now c"
          unfolding rows_matched_def by (metis filter_empty_conv length_0_conv zero_neq_one)
        have "attempt_key b = attempt_key c" using open_attempt_key [OF c(2)] seq br by simp
        with c b(1) ok have "b = c"
          unfolding core_ok_def unique_key_def distinct_map by (auto dest: inj_onD)
        with c False show False by simp
      qed
    qed
    with ok' show "at_outcome a = ''running'' \<longleftrightarrow>
        bj_status job' = bj_STATUS_RUNNING \<and> at_sequence a = bj_claim_sequence job'" by simp
  qed
  have hist_other: "history_ok ?attempts j" if "j \<in> set jobs" "bj_id j \<noteq> bj_id job" for j
  proof -
    have "history_ok attempts j" using ok that by (auto simp: core_ok_def)
    moreover have "a \<in> set attempts" if "a \<in> set ?attempts" "at_job_id a = bj_id j" for a
      using mem [OF that(1)] that(2) \<open>bj_id j \<noteq> bj_id job\<close> by (auto simp: open_attempt_def split: if_splits)
    ultimately show ?thesis unfolding history_ok_def ex by blast
  qed
  have jobs_ok: "job_ok j \<and> history_ok ?attempts j" if "j \<in> set (row_put bj_id job' jobs)" for j
    using in_row_put [OF that] ok ok' hist' hist_other same(1) unfolding core_ok_def by auto
  have atts_ok: "ck_bg_attempt a \<and> at_job_id a \<in> bj_id ` set jobs" if "a \<in> set ?attempts" for a
  proof -
    from mem [OF that] obtain b where "b \<in> set attempts" "attempt_key a = attempt_key b"
      "a = (if open_attempt job now b then ?f b else b)" by blast
    with ok close_ck [of b job now out] show ?thesis by (auto simp: core_ok_def split: if_splits)
  qed
  have "dedupe_unique (row_put bj_id job' jobs)"
    using ok job same by (intro dedupe_unique_put) (auto simp: core_ok_def)
  with uni jobs_ok atts_ok ok show ?thesis unfolding core_ok_def by simp
qed

text \<open>Starting an attempt while the job enters the running state.\<close>

lemma core_ok_start:
  assumes ok: "core_ok jobs attempts" and job: "job \<in> set jobs" and run: "bj_status job \<noteq> bj_STATUS_RUNNING"
    and same: "bj_id job' = bj_id job" "bj_job_type job' = bj_job_type job"
      "bj_dedupe_key job' = bj_dedupe_key job"
    and claim: "bj_claim_sequence job' = bj_claim_sequence job + 1" "bj_status job' = bj_STATUS_RUNNING"
    and ok': "job_ok job'" and att: "ck_bg_attempt att" "at_outcome att = ''running''"
      "attempt_key att = (bj_id job, bj_claim_sequence job + 1)"
  shows "core_ok (row_put bj_id job' jobs) (att # attempts)"
proof -
  have hist_job: "history_ok attempts job" and ck: "ck_bg_job_attempt_budget job"
    using ok job by (auto simp: core_ok_def job_ok_def)
  have pos: "0 \<le> bj_claim_sequence job" using ck by (simp add: ck_bg_job_attempt_budget_def)
  have fresh: "attempt_key att \<notin> attempt_key ` set attempts"
  proof
    assume "attempt_key att \<in> attempt_key ` set attempts"
    then obtain a where "a \<in> set attempts" "attempt_key a = (bj_id job, bj_claim_sequence job + 1)"
      using att(3) by force
    with hist_job have "bj_claim_sequence job + 1 \<le> bj_claim_sequence job" unfolding history_ok_def by blast
    then show False by simp
  qed
  have closed: "at_outcome a \<noteq> ''running'' \<and> at_sequence a \<le> bj_claim_sequence job"
    if "a \<in> set attempts" "at_job_id a = bj_id job" for a
  proof -
    have "attempt_key a = (bj_id job, at_sequence a)" using that by simp
    with hist_job that run show ?thesis unfolding history_ok_def by blast
  qed
  have "history_ok (att # attempts) job'"
    unfolding history_ok_def
  proof (intro conjI allI ballI impI)
    fix s
    have "(\<exists>a \<in> set (att # attempts). attempt_key a = (bj_id job', s)) \<longleftrightarrow>
        s = bj_claim_sequence job + 1 \<or> (\<exists>a \<in> set attempts. attempt_key a = (bj_id job, s))"
      using att(3) same(1) by auto
    also have "\<dots> \<longleftrightarrow> s = bj_claim_sequence job + 1 \<or> 1 \<le> s \<and> s \<le> bj_claim_sequence job"
      using hist_job unfolding history_ok_def by simp
    also have "\<dots> \<longleftrightarrow> 1 \<le> s \<and> s \<le> bj_claim_sequence job'" using pos claim(1) by auto
    finally show "(\<exists>a \<in> set (att # attempts). attempt_key a = (bj_id job', s)) \<longleftrightarrow>
      1 \<le> s \<and> s \<le> bj_claim_sequence job'" .
  next
    fix a
    assume "a \<in> set (att # attempts)" "at_job_id a = bj_id job'"
    then show "at_outcome a = ''running'' \<longleftrightarrow>
        bj_status job' = bj_STATUS_RUNNING \<and> at_sequence a = bj_claim_sequence job'"
      using closed [of a] att claim same(1) by auto
  qed
  moreover have "history_ok (att # attempts) j" if "j \<in> set jobs" "bj_id j \<noteq> bj_id job" for j
  proof -
    have "history_ok attempts j" using ok that by (auto simp: core_ok_def)
    with that att(3) show ?thesis by (auto simp: history_ok_def)
  qed
  ultimately have "job_ok j \<and> history_ok (att # attempts) j" if "j \<in> set (row_put bj_id job' jobs)" for j
    using in_row_put [OF that] ok ok' same(1) unfolding core_ok_def by auto
  moreover have "dedupe_unique (row_put bj_id job' jobs)"
    using ok job same by (intro dedupe_unique_put) (auto simp: core_ok_def)
  moreover have "unique_key attempt_key (att # attempts)"
    using ok fresh by (auto simp: core_ok_def unique_key_def)
  moreover have "at_job_id att \<in> bj_id ` set jobs" using att(3) job by auto
  ultimately show ?thesis using ok att(1) unfolding core_ok_def by simp
qed

text \<open>A new job has no attempts.\<close>

lemma core_ok_insert:
  assumes ok: "core_ok jobs attempts" and new: "bj_id job \<notin> bj_id ` set jobs"
    and dedupe: "\<forall>j \<in> set jobs. bj_job_type j = bj_job_type job \<and> bj_dedupe_key j \<noteq> None \<longrightarrow>
      bj_dedupe_key j \<noteq> bj_dedupe_key job"
    and job: "job_ok job" "bj_claim_sequence job = 0"
  shows "core_ok (job # jobs) attempts"
proof -
  have none: "at_job_id a \<noteq> bj_id job" if "a \<in> set attempts" for a
  proof -
    from ok that have "at_job_id a \<in> bj_id ` set jobs" by (simp add: core_ok_def)
    with new show ?thesis by metis
  qed
  have "history_ok attempts job"
    using none job(2) by (auto simp: history_ok_def)
  moreover have "dedupe_unique (job # jobs)"
    unfolding dedupe_unique_def
  proof (intro ballI impI)
    fix i j
    assume i: "i \<in> set (job # jobs)" and j: "j \<in> set (job # jobs)"
      and same: "bj_dedupe_key i \<noteq> None \<and> bj_dedupe_key i = bj_dedupe_key j \<and> bj_job_type i = bj_job_type j"
    have "i = j" if "i \<in> set jobs" "j \<in> set jobs"
      using ok that same unfolding core_ok_def dedupe_unique_def by blast
    moreover have False if "i = job" "j \<in> set jobs" using dedupe that same by auto
    moreover have False if "j = job" "i \<in> set jobs" using dedupe that same by auto
    ultimately show "i = j" using i j by auto
  qed
  ultimately show ?thesis using ok new job(1) by (auto simp: core_ok_def unique_key_def)
qed

text \<open>Deleting jobs together with their attempts (the foreign key cascades).\<close>

lemma core_ok_filter:
  assumes "core_ok jobs attempts"
  shows "core_ok (filter P jobs) (filter (\<lambda>a. at_job_id a \<in> bj_id ` set (filter P jobs)) attempts)"
proof -
  have "history_ok (filter (\<lambda>a. at_job_id a \<in> bj_id ` set (filter P jobs)) attempts) j"
    if "j \<in> set (filter P jobs)" for j
  proof -
    have "history_ok attempts j" using assms that by (auto simp: core_ok_def)
    moreover have "bj_id j \<in> bj_id ` set (filter P jobs)" using that by simp
    ultimately show ?thesis unfolding history_ok_def by (simp add: conj_commute) metis
  qed
  with assms show ?thesis
    by (auto simp: core_ok_def unique_key_filter dedupe_unique_def)
qed

section \<open>Preservation by the operations\<close>

lemma put_job_tables [simp]:
  "db_jobs (put_job job db) = row_put bj_id job (db_jobs db)" "db_attempts (put_job job db) = db_attempts db"
  by (simp_all add: put_job_def)

lemma close_attempt_Inr:
  "close_attempt job out now db = Inr db' \<longleftrightarrow>
     rows_matched (open_attempt job now) (db_attempts db) = 1 \<and>
     db' = db\<lparr>db_attempts := update_where (open_attempt job now)
       (\<lambda>a. a\<lparr>at_outcome := outcome_as_str out, at_finished_at := outcome_finished_at out now,
              at_closed_at := Some now\<rparr>) (db_attempts db)\<rparr>"
  by (auto simp: close_attempt_def)

text \<open>A job that is rewritten without touching its identity or its claims, and is then not running.\<close>

definition settles :: "background_job \<Rightarrow> background_job \<Rightarrow> bool" where
  "settles job job' \<longleftrightarrow>
     bj_id job' = bj_id job \<and> bj_job_type job' = bj_job_type job \<and>
     bj_dedupe_key job' = bj_dedupe_key job \<and> bj_claim_sequence job' = bj_claim_sequence job \<and>
     bj_status job' \<noteq> bj_STATUS_RUNNING \<and> job_ok job'"

text \<open>The three ways an operation changes a job: settle it, extend its lease, or claim it.\<close>

definition renews :: "background_job \<Rightarrow> background_job \<Rightarrow> bool" where
  "renews job job' \<longleftrightarrow> bj_status job = bj_STATUS_RUNNING \<and> job_ok job' \<and>
     (\<exists>t u. job' = job\<lparr>bj_lease_until := Some t, bj_updated_at := u\<rparr>)"

definition claims :: "background_job \<Rightarrow> background_job \<Rightarrow> bool" where
  "claims job job' \<longleftrightarrow> bj_status job = bj_STATUS_PENDING \<and> job_ok job' \<and>
     (\<exists>w t u. job' = job\<lparr>bj_status := bj_STATUS_RUNNING, bj_attempts := bj_attempts job + 1,
       bj_claim_sequence := bj_claim_sequence job + 1, bj_lease_owner := Some w,
       bj_lease_until := Some t, bj_updated_at := u, bj_completed_at := None\<rparr>)"

definition moves :: "background_job \<Rightarrow> background_job \<Rightarrow> bool" where
  "moves job job' \<longleftrightarrow>
     bj_status job \<noteq> bj_STATUS_PENDING \<and> settles job job' \<or> renews job job' \<or> claims job job'"

definition job_rel :: "int \<Rightarrow> control_db \<Rightarrow> control_db \<Rightarrow> bool" where
  "job_rel i db db' \<longleftrightarrow>
     find_by_id i db' = find_by_id i db \<or>
     (\<exists>job job'. find_by_id i db = Some job \<and> find_by_id i db' = Some job' \<and> moves job job')"

text \<open>An operation is good when it keeps the invariant and changes every job in one of these ways.\<close>

definition good :: "control_db \<Rightarrow> control_db \<Rightarrow> bool" where
  "good db db' \<longleftrightarrow> db_ok db' \<and> (\<forall>i. job_rel i db db')"

lemma good_refl: "db_ok db \<Longrightarrow> good db db"
  by (simp add: good_def job_rel_def)

lemma moves_id: "moves job job' \<Longrightarrow> bj_id job' = bj_id job"
  by (auto simp: moves_def settles_def renews_def claims_def)

lemma good_put:
  assumes "db_ok db2" "find_by_id i db = Some job" "moves job job'"
    and "db_jobs db2 = row_put bj_id job' (db_jobs db)"
  shows "good db db2"
  unfolding good_def job_rel_def
proof (intro conjI allI)
  fix k
  have "bj_id job = i" using assms(2) row_get_SomeD [of bj_id i "db_jobs db" job] by (simp add: find_by_id_def)
  with assms show "find_by_id k db2 = find_by_id k db \<or>
      (\<exists>job job'. find_by_id k db = Some job \<and> find_by_id k db2 = Some job' \<and> moves job job')"
    by (auto simp: find_by_id_def row_get_row_put moves_id)
qed (rule assms(1))

lemma good_close:
  assumes ok: "db_ok db" and job: "find_by_id i db = Some job" "bj_status job = bj_STATUS_RUNNING"
    and cl: "close_attempt job out now db = Inr db1" and s: "settles job job'"
    and fr: "db_jobs db2 = row_put bj_id job' (db_jobs db1)" "db_attempts db2 = db_attempts db1"
  shows "good db db2"
proof -
  have "job \<in> set (db_jobs db)" using db_okD [OF ok job(1)] by simp
  with ok job(2) cl s fr have "db_ok db2"
    unfolding db_ok_def close_attempt_Inr settles_def
    by (auto intro!: core_ok_close)
  moreover have "db_jobs db2 = row_put bj_id job' (db_jobs db)"
    using fr cl by (auto simp: close_attempt_Inr)
  ultimately show ?thesis using job s by (intro good_put [OF _ job(1)]) (auto simp: moves_def)
qed

lemma good_settle:
  assumes ok: "db_ok db" and job: "find_by_id i db = Some job" "bj_is_terminal job"
    and s: "settles job job'"
    and fr: "db_jobs db2 = row_put bj_id job' (db_jobs db)" "db_attempts db2 = db_attempts db"
  shows "good db db2"
proof -
  have "job \<in> set (db_jobs db)" using db_okD [OF ok job(1)] by simp
  with ok job(2) s fr have "db_ok db2"
    unfolding db_ok_def settles_def bj_is_terminal_def by (auto intro!: core_ok_put)
  with job s fr(1) show ?thesis by (intro good_put [OF _ job(1)]) (auto simp: moves_def bj_is_terminal_def)
qed

text \<open>What a linked final state makes of a job.\<close>

definition finished_job :: "background_job \<Rightarrow> LinkedBusinessTerminal \<Rightarrow> string option \<Rightarrow> timestamp \<Rightarrow> background_job" where
  "finished_job job t e now =
     job\<lparr>bj_status := (if t = BFailed then bj_STATUS_DEAD else bj_STATUS_SUCCEEDED),
         bj_available_at := now, bj_lease_owner := None, bj_lease_until := None,
         bj_last_error :=
           (if t = BFailed then (case e of Some x \<Rightarrow> Some (truncate_error x) | None \<Rightarrow> bj_last_error job)
            else bj_last_error job),
         bj_updated_at := now, bj_completed_at := Some now\<rparr>"

lemma settles_finished: "job_ok job \<Longrightarrow> settles job (finished_job job t e now)"
  by (auto simp: settles_def finished_job_def job_ok_def ck_bg_job_attempt_budget_def bj_is_terminal_def)

lemma finishE:
  assumes "finish_from_linked_terminal job r e now db = Inr (d, db')"
  obtains (none) "d = None" "db' = db" "r = NotLinked \<or> r = Transitioned"
  | (some) t where "r = Terminal t" "d = Some (if t = BFailed then Dead else Completed)"
      "db' = put_job (finished_job job t e now) db"
  using finish_cases [OF assms] unfolding finished_job_def by blast

lemmas held_job_unfold = held_job_def owned_running_query_def lease_over_def

lemma held_jobD:
  assumes "held_job i s w now db = Some job"
  shows "find_by_id i db = Some job" "bj_status job = bj_STATUS_RUNNING" "bj_claim_sequence job = s"
    "bj_lease_owner job = Some w" "\<not> lease_over now job"
  using assms by (auto simp: held_job_def owned_running_query_def split: option.splits if_splits)

text \<open>
  The common tail of a failure: close the attempt, write the linked row, and either follow the
  linked final state or settle the job as given.
\<close>

lemma good_failure:
  assumes ok: "db_ok db" and job: "find_by_id i db = Some job" "bj_status job = bj_STATUS_RUNNING"
    and cl: "close_attempt job out now db = Inr db1"
    and sy: "sync_linked_job_state job disp e now db1 = Inr (r, db2)"
    and fi: "finish_from_linked_terminal job r e' now db2 = Inr (d, db3)"
    and s: "settles job job'"
  shows "good db (if d = None then put_job job' db3 else db3)"
  using fi
proof (cases rule: finishE)
  case none
  with sync_frame [OF sy] show ?thesis
    by (intro good_close [OF ok job cl s]) simp_all
next
  case (some t)
  with sync_frame [OF sy] show ?thesis
    by (intro good_close [OF ok job cl settles_finished [OF db_okD(3) [OF ok job(1)]]]) simp_all
qed

text \<open>The jobs the operations write.\<close>

lemma settles_defs:
  assumes "job_ok job" "bj_status job = bj_STATUS_RUNNING"
  shows "settles job (job\<lparr>bj_status := bj_STATUS_SUCCEEDED, bj_lease_owner := None, bj_lease_until := None,
      bj_updated_at := u, bj_completed_at := Some c\<rparr>)"
    and "settles job (job\<lparr>bj_status := bj_STATUS_DEAD, bj_lease_owner := None, bj_lease_until := None,
      bj_last_error := e, bj_updated_at := u, bj_completed_at := Some c\<rparr>)"
    and "settles job (job\<lparr>bj_status := bj_STATUS_DEAD, bj_available_at := v, bj_lease_owner := None,
      bj_lease_until := None, bj_last_error := e, bj_updated_at := u, bj_completed_at := Some c\<rparr>)"
    and "bj_attempts job < bj_max_attempts job \<Longrightarrow>
      settles job (job\<lparr>bj_status := bj_STATUS_PENDING, bj_available_at := v, bj_lease_owner := None,
      bj_lease_until := None, bj_last_error := e, bj_updated_at := u, bj_completed_at := None\<rparr>)"
    and "settles job (job\<lparr>bj_status := bj_STATUS_PENDING, bj_attempts := saturating_sub_i32 (bj_attempts job) 1,
      bj_available_at := v, bj_lease_owner := None, bj_lease_until := None, bj_last_error := e,
      bj_updated_at := u, bj_completed_at := None\<rparr>)"
  using assms
  by (auto simp: settles_def job_ok_def ck_bg_job_attempt_budget_def bj_is_terminal_def
      saturating_sub_i32_def width_defs)

lemma settles_reset:
  assumes "job_ok job"
  shows "settles job (job\<lparr>bj_status := bj_STATUS_PENDING, bj_attempts := 0, bj_available_at := v,
    bj_lease_owner := None, bj_lease_until := None, bj_updated_at := u, bj_completed_at := None\<rparr>)"
  using assms
  by (auto simp: settles_def job_ok_def ck_bg_job_attempt_budget_def bj_is_terminal_def)

lemma job_complete_ok:
  assumes "db_ok db" "job_complete i s w now db = Inr (b, db')"
  shows "good db db'"
proof (cases "held_job i s w now db")
  case None
  with assms show ?thesis by (simp add: good_refl job_complete_def)
next
  case (Some job)
  note h = held_jobD [OF Some]
  from assms(2) Some obtain db1 where cl: "close_attempt job OSucceeded now db = Inr db1"
    and db': "db' = put_job (job\<lparr>bj_status := bj_STATUS_SUCCEEDED, bj_lease_owner := None,
        bj_lease_until := None, bj_updated_at := now, bj_completed_at := Some now\<rparr>) db1"
    by (auto simp: job_complete_def elim: bind_resultE)
  show ?thesis
    by (rule good_close [OF assms(1) h(1,2) cl settles_defs(1) [OF db_okD(3) [OF assms(1) h(1)] h(2)]])
      (simp_all add: db')
qed

lemma fail_job_ok:
  assumes ok: "db_ok db" and f: "fail_job c db = Inr (d, db')"
  shows "good db db'"
proof (cases "held_job (fb_job_id c) (fb_claim_sequence c) (fb_worker_id c) (fb_now c) db")
  case None
  with assms show ?thesis by (simp add: good_refl fail_job_def Let_def)
next
  case (Some job)
  note h = held_jobD [OF Some]
  define is_dead where "is_dead = (fb_force_dead c \<or> bj_max_attempts job \<le> bj_attempts job)"
  define job' where "job' = job\<lparr>bj_status := (if is_dead then bj_STATUS_DEAD else bj_STATUS_PENDING),
      bj_available_at := (if is_dead then fb_now c else fb_retry_at c), bj_lease_owner := None,
      bj_lease_until := None, bj_last_error := Some (truncate_error (fb_error_message c)),
      bj_updated_at := fb_now c, bj_completed_at := (if is_dead then Some (fb_now c) else None)\<rparr>"
  have jok: "job_ok job" using db_okD(3) [OF ok h(1)] .
  have s: "settles job job'"
    using settles_defs(3,4) [OF jok h(2)] by (cases is_dead) (auto simp: job'_def is_dead_def)
  from f Some obtain db1 r db2 d2 db3
    where cl: "close_attempt job (if is_dead then ODead else OFailed) (fb_now c) db = Inr db1"
      and sy: "sync_linked_job_state job (if is_dead then LDead else LRetried)
        (Some (fb_error_message c)) (fb_now c) db1 = Inr (r, db2)"
      and fi: "finish_from_linked_terminal job r (Some (fb_error_message c)) (fb_now c) db2 = Inr (d2, db3)"
      and db': "db' = (if d2 = None then put_job job' db3 else db3)"
    by (auto simp: fail_job_def Let_def job'_def is_dead_def elim!: bind_resultE split: option.splits)
  show ?thesis unfolding db' by (rule good_failure [OF ok h(1,2) cl sy fi s])
qed

lemma defer_ok:
  assumes ok: "db_ok db" and f: "defer_retryable_conflict c db = Inr (d, db')"
  shows "good db db'"
proof (cases "held_job (df_job_id c) (df_claim_sequence c) (df_worker_id c) (df_now c) db")
  case None
  with assms show ?thesis by (simp add: good_refl defer_retryable_conflict_def Let_def)
next
  case (Some job)
  note h = held_jobD [OF Some]
  have jok: "job_ok job" using db_okD(3) [OF ok h(1)] .
  from f Some obtain db1 r db2 d2 db3
    where cl: "close_attempt job ODeferred (df_now c) db = Inr db1"
      and sy: "sync_linked_job_state job LRetried (Some (df_error_message c)) (df_now c) db1 = Inr (r, db2)"
      and fi: "finish_from_linked_terminal job r (Some (df_error_message c)) (df_now c) db2 = Inr (d2, db3)"
      and db': "db' = (if d2 = None
        then put_job (job\<lparr>bj_status := bj_STATUS_PENDING, bj_attempts := saturating_sub_i32 (bj_attempts job) 1,
               bj_available_at := df_available_at c, bj_lease_owner := None, bj_lease_until := None,
               bj_last_error := Some (truncate_error (df_error_message c)), bj_updated_at := df_now c,
               bj_completed_at := None\<rparr>) db3
        else db3)"
    by (auto simp: defer_retryable_conflict_def Let_def elim!: bind_resultE split: option.splits)
  show ?thesis unfolding db' by (rule good_failure [OF ok h(1,2) cl sy fi settles_defs(5) [OF jok h(2)]])
qed

lemma dead_letter_ok:
  assumes ok: "db_ok db" and f: "dead_letter i s w e now db = Inr (d, db')"
  shows "good db db'"
proof (cases "held_job i s w now db")
  case None
  with assms show ?thesis by (simp add: good_refl dead_letter_def)
next
  case (Some job)
  note h = held_jobD [OF Some]
  have jok: "job_ok job" using db_okD(3) [OF ok h(1)] .
  from f Some obtain db1 r db2 d2 db3
    where cl: "close_attempt job ODead now db = Inr db1"
      and sy: "sync_linked_job_state job LDead (Some e) now db1 = Inr (r, db2)"
      and fi: "finish_from_linked_terminal job r (Some e) now db2 = Inr (d2, db3)"
      and db': "db' = (if d2 = None
        then put_job (job\<lparr>bj_status := bj_STATUS_DEAD, bj_lease_owner := None, bj_lease_until := None,
               bj_last_error := Some (truncate_error e), bj_updated_at := now, bj_completed_at := Some now\<rparr>) db3
        else db3)"
    by (auto simp: dead_letter_def elim!: bind_resultE split: option.splits)
  show ?thesis unfolding db' by (rule good_failure [OF ok h(1,2) cl sy fi settles_defs(2) [OF jok h(2)]])
qed

lemma renew_lease_eq:
  assumes ok: "db_ok db" and v: "validate_lease w d = Inr ()"
  shows "renew_lease i s w d now db =
    (case held_job i s w now db of
       None \<Rightarrow> Inr (False, db)
     | Some job \<Rightarrow> Inr (True, put_job (job\<lparr>bj_lease_until := Some (now + d), bj_updated_at := now\<rparr>) db))"
proof -
  define P where "P = (\<lambda>j. bj_id j = i \<and> bj_status j = bj_STATUS_RUNNING \<and> bj_claim_sequence j = s \<and>
    bj_lease_owner j = Some w \<and> \<not> lease_over now j)"
  define f :: "background_job \<Rightarrow> background_job"
    where "f = (\<lambda>j. j\<lparr>bj_lease_until := Some (now + d), bj_updated_at := now\<rparr>)"
  have u: "unique_key bj_id (db_jobs db)" using ok by (simp add: db_ok_def core_ok_def)
  have m: "rows_matched P (db_jobs db) =
      (case row_get bj_id i (db_jobs db) of Some r \<Rightarrow> if P r then 1 else 0 | None \<Rightarrow> 0)"
    by (rule rows_matched_key [OF u]) (simp add: P_def)
  have w: "update_where P f (db_jobs db) = (case row_get bj_id i (db_jobs db) of
      Some r \<Rightarrow> if P r then row_put bj_id (f r) (db_jobs db) else db_jobs db | None \<Rightarrow> db_jobs db)"
    by (rule update_where_key [OF u]) (simp_all add: P_def f_def)
  have "renew_lease i s w d now db =
      Inr (rows_matched P (db_jobs db) = 1, db\<lparr>db_jobs := update_where P f (db_jobs db)\<rparr>)"
    by (simp add: renew_lease_def v P_def f_def Let_def)
  also have "\<dots> = (case held_job i s w now db of
       None \<Rightarrow> Inr (False, db) | Some job \<Rightarrow> Inr (True, put_job (f job) db))"
    unfolding m w held_job_def owned_running_query_def find_by_id_def
    using row_get_SomeD [of bj_id i "db_jobs db"]
    by (auto simp: P_def put_job_def split: option.splits)
  finally show ?thesis unfolding f_def .
qed

lemma renew_lease_ok:
  assumes ok: "db_ok db" and r: "renew_lease i s w d now db = Inr (b, db')"
  shows "good db db'"
proof -
  from r have v: "validate_lease w d = Inr ()" by (auto simp: renew_lease_def elim: bind_resultE)
  show ?thesis
  proof (cases "held_job i s w now db")
    case None
    with r ok show ?thesis by (simp add: renew_lease_eq [OF ok v] good_refl)
  next
    case (Some job)
    note h = held_jobD [OF Some]
    let ?job = "job\<lparr>bj_lease_until := Some (now + d), bj_updated_at := now\<rparr>"
    have jok: "job_ok ?job" using db_okD(3) [OF ok h(1)] h(2)
      by (auto simp: job_ok_def ck_bg_job_attempt_budget_def bj_is_terminal_def)
    moreover have "job \<in> set (db_jobs db)" using db_okD(1) [OF ok h(1)] .
    ultimately have "core_ok (row_put bj_id ?job (db_jobs db)) (db_attempts db)"
      using ok unfolding db_ok_def by (intro core_ok_put) auto
    with r Some have "db_ok db'" "db' = put_job ?job db" by (auto simp: renew_lease_eq [OF ok v] db_ok_def)
    with h(2) jok show ?thesis by (intro good_put [OF _ h(1)]) (auto simp: moves_def renews_def)
  qed
qed

section \<open>Enqueueing and claiming\<close>

lemma validate_enqueue_budget:
  "validate_enqueue_command c = Inr u \<Longrightarrow> 1 \<le> eq_max_attempts c \<and> eq_max_attempts c \<le> 100"
  by (auto simp: validate_enqueue_command_def split: if_splits)

lemma job_ok_new: "validate_enqueue_command c = Inr u \<Longrightarrow> job_ok (new_job i c now)"
  using validate_enqueue_budget [of c u]
  by (simp add: job_ok_def new_job_def ck_bg_job_attempt_budget_def bj_is_terminal_def width_defs)

lemma insert_job_Some:
  "insert_job job db = Some db' \<longleftrightarrow>
     bj_id job \<notin> bj_id ` set (db_jobs db) \<and>
     (\<forall>j \<in> set (db_jobs db). bj_job_type j = bj_job_type job \<and> bj_dedupe_key j \<noteq> None \<longrightarrow>
        bj_dedupe_key j \<noteq> bj_dedupe_key job) \<and>
     db' = db\<lparr>db_jobs := job # db_jobs db\<rparr>"
  by (auto simp: insert_job_def)

lemma enqueue_on_cases:
  assumes "enqueue_on nid c now db1 db2 = Inr (r, db')"
  obtains (found) k where "eq_dedupe_key c = Some k" "\<not> er_inserted r" "db' = db2"
      "find_by_dedupe_key (eq_job_type c) k db1 = Some (er_job r) \<or>
       find_by_dedupe_key (eq_job_type c) k db2 = Some (er_job r)"
  | (inserted) i where "nid = Inr i" "er_inserted r" "er_job r = new_job i c now"
      "insert_job (new_job i c now) db2 = Some db'" "validate_enqueue_command c = Inr ()"
proof (cases "Option.bind (eq_dedupe_key c) (\<lambda>k. find_by_dedupe_key (eq_job_type c) k db1)")
  case (Some j)
  with assms have "r = \<lparr>er_job = j, er_inserted = False\<rparr>" "db' = db2"
    by (auto simp: enqueue_on_def elim!: bind_resultE)
  with Some found show thesis by (auto simp: bind_eq_Some_conv)
next
  case None
  with assms obtain i where nid: "nid = Inr i" and v: "validate_enqueue_command c = Inr ()"
    and rest: "(case insert_job (new_job i c now) db2 of
           Some db' \<Rightarrow> Inr (\<lparr>er_job = new_job i c now, er_inserted = True\<rparr>, db')
         | None \<Rightarrow>
             (case eq_dedupe_key c of
                None \<Rightarrow> Inl (Database ''duplicate background job insert without a dedupe key'')
              | Some k \<Rightarrow>
                  (case find_by_dedupe_key (eq_job_type c) k db2 of
                     None \<Rightarrow> Inl (Database ''duplicate background job key was reported but no row is readable'')
                   | Some existing \<Rightarrow> Inr (\<lparr>er_job = existing, er_inserted = False\<rparr>, db2)))) = Inr (r, db')"
    by (auto simp: enqueue_on_def elim!: bind_resultE)
  show thesis
  proof (cases "insert_job (new_job i c now) db2")
    case (Some db3)
    with rest nid v inserted show thesis by auto
  next
    case None
    with rest found show thesis by (auto split: option.splits)
  qed
qed

lemma enqueue_on_ok:
  assumes ok: "db_ok db2" and e: "enqueue_on nid c now db1 db2 = Inr (r, db')"
  shows "db_ok db'"
  using e
proof (cases rule: enqueue_on_cases)
  case (inserted i)
  then show ?thesis
    using ok job_ok_new [of c "()" i now]
    by (auto simp: db_ok_def insert_job_Some new_job_def intro!: core_ok_insert)
qed (use ok in simp)

lemma next_sequence_Inr: "next_sequence s = Inr v \<Longrightarrow> v = s + 1 \<and> 0 < v \<and> v \<le> i64_max"
  by (auto simp: next_sequence_def checked_add_i64_def is_i64_def split: option.splits if_splits)

lemma start_attempt_Inr:
  assumes "start_attempt job q now db = Inr db'"
  shows "bj_status job = bj_STATUS_PENDING" "q = bj_claim_sequence job + 1" "bj_available_at job \<le> now"
    "db' = db\<lparr>db_attempts := \<lparr>at_job_id = bj_id job, at_sequence = q, at_available_at = bj_available_at job,
       at_started_at = now, at_finished_at = None, at_closed_at = None, at_outcome = ''running''\<rparr>
       # db_attempts db\<rparr>"
  using assms
  by (auto simp: start_attempt_def elim!: bind_resultE split: if_splits dest: next_sequence_Inr)

lemma claimable_query_set:
  "set (claimable_query now scope locked db) = {j \<in> set (db_jobs db). claimable now scope j \<and> \<not> locked (bj_id j)}"
  by (auto simp: claimable_query_def)

text \<open>What a successful claim did.\<close>

lemma claim_nextE:
  assumes "claim_next w d now scope locked db = Inr (Some c, db')"
  obtains job rest att where "claimable_query now scope locked db = job # rest" "validate_lease w d = Inr ()"
    "c = job\<lparr>bj_status := bj_STATUS_RUNNING, bj_attempts := bj_attempts job + 1,
       bj_claim_sequence := bj_claim_sequence job + 1, bj_lease_owner := Some w,
       bj_lease_until := Some (now + d), bj_updated_at := now, bj_completed_at := None\<rparr>"
    "att = \<lparr>at_job_id = bj_id job, at_sequence = bj_claim_sequence job + 1,
       at_available_at = bj_available_at job, at_started_at = now, at_finished_at = None,
       at_closed_at = None, at_outcome = ''running''\<rparr>"
    "db' = put_job c (db\<lparr>db_attempts := att # db_attempts db\<rparr>)"
    "bj_claim_sequence job + 1 \<le> i64_max"
proof (cases "claimable_query now scope locked db")
  case Nil
  with assms show thesis by (auto simp: claim_next_def elim: bind_resultE)
next
  case (Cons job rest)
  with assms obtain at q db1 where v: "validate_lease w d = Inr ()"
    and at: "checked_add_i32 (bj_attempts job) 1 = Some at"
    and q: "next_sequence (bj_claim_sequence job) = Inr q" and st: "start_attempt job q now db = Inr db1"
    and c: "c = job\<lparr>bj_status := bj_STATUS_RUNNING, bj_attempts := at, bj_claim_sequence := q,
       bj_lease_owner := Some w, bj_lease_until := Some (now + d), bj_updated_at := now,
       bj_completed_at := None\<rparr>"
    and db': "db' = put_job c db1"
    by (auto simp: claim_next_def Let_def elim!: bind_resultE split: option.splits)
  have "at = bj_attempts job + 1" using at by (auto simp: checked_add_i32_def split: if_splits)
  with that [OF Cons v _ refl] c db' next_sequence_Inr [OF q] start_attempt_Inr [OF st] show thesis by simp
qed

lemma claim_next_ok:
  assumes ok: "db_ok db" and c: "claim_next w d now scope locked db = Inr (c, db')"
  shows "good db db'"
proof (cases c)
  case None
  have "db' = db"
    using c None by (auto simp: claim_next_def Let_def elim!: bind_resultE split: list.splits option.splits)
  with ok show ?thesis by (simp add: good_refl)
next
  case (Some cl)
  from c [unfolded Some] show ?thesis
  proof (cases rule: claim_nextE)
    case (1 job rest att)
    have mem: "job \<in> set (db_jobs db)" "claimable now scope job"
      using 1(1) claimable_query_set [of now scope locked db] by auto
    then have jok: "job_ok job" and pend: "bj_status job = bj_STATUS_PENDING" "bj_available_at job \<le> now"
      "bj_attempts job < bj_max_attempts job"
      using ok by (auto simp: db_ok_def core_ok_def claimable_def)
    have cok: "job_ok cl"
      using jok pend 1(3,6) by (auto simp: job_ok_def ck_bg_job_attempt_budget_def bj_is_terminal_def)
    moreover have "ck_bg_attempt att"
      using jok pend 1(4) by (auto simp: ck_bg_attempt_def job_ok_def ck_bg_job_attempt_budget_def)
    ultimately have "core_ok (row_put bj_id cl (db_jobs db)) (att # db_attempts db)"
      using ok mem(1) pend(1) 1(3,4) unfolding db_ok_def by (intro core_ok_start) auto
    then have "db_ok db'" by (simp add: db_ok_def 1(5))
    moreover have "find_by_id (bj_id job) db = Some job"
      using ok mem(1) unique_row_get [of bj_id "db_jobs db" job] by (auto simp: db_ok_def core_ok_def find_by_id_def)
    moreover have "moves job cl"
      using cok pend(1) 1(3) unfolding moves_def claims_def by blast
    ultimately show ?thesis by (intro good_put) (auto simp: 1(5))
  qed
qed

section \<open>Recovery, manual retry and reactivation\<close>

lemma find_put_job:
  "find_by_id i (put_job job db) =
     (if i = bj_id job then map_option (\<lambda>_. job) (find_by_id i db) else find_by_id i db)"
  by (simp add: find_by_id_def row_get_row_put)

text \<open>The job that \<open>recover_one\<close> writes, and the counter it moves.\<close>

definition recovered_job :: "timestamp \<Rightarrow> background_job \<Rightarrow> background_job" where
  "recovered_job now job =
     (let is_dead = bj_max_attempts job \<le> bj_attempts job
      in job\<lparr>bj_status := (if is_dead then bj_STATUS_DEAD else bj_STATUS_PENDING), bj_available_at := now,
             bj_lease_owner := None, bj_lease_until := None,
             bj_last_error := (if is_dead then Some EXPIRED_LEASE_DEAD_ERROR else None),
             bj_updated_at := now, bj_completed_at := (if is_dead then Some now else None)\<rparr>)"

lemma settles_recovered:
  "job_ok job \<Longrightarrow> bj_status job = bj_STATUS_RUNNING \<Longrightarrow> settles job (recovered_job now job)"
  using settles_defs(3,4) [of job] by (simp add: recovered_job_def Let_def)

definition total :: "ExpiredLeaseRecovery \<Rightarrow> nat" where
  "total r = requeued r + dead r + completed r"

lemma recover_one_step:
  assumes ok: "db_ok db" and job: "find_by_id (bj_id job) db = Some job" "bj_status job = bj_STATUS_RUNNING"
    and r: "recover_one now job (rec, db) = Inr (rec', db')"
  shows "db_ok db' \<and> total rec' = Suc (total rec) \<and>
    (\<exists>job'. settles job job' \<and> db_jobs db' = row_put bj_id job' (db_jobs db) \<and>
       (job' = recovered_job now job \<or> bj_is_terminal job'))"
proof -
  define is_dead where "is_dead = (bj_max_attempts job \<le> bj_attempts job)"
  have jok: "job_ok job" using db_okD(3) [OF ok job(1)] .
  from r obtain db1 q db2 d db3
    where cl: "close_attempt job OLeaseExpired now db = Inr db1"
      and sy: "sync_linked_job_state job (if is_dead then LDead else LRetried)
        (Some EXPIRED_LEASE_DEAD_ERROR) now db1 = Inr (q, db2)"
      and fi: "finish_from_linked_terminal job q (Some EXPIRED_LEASE_DEAD_ERROR) now db2 = Inr (d, db3)"
      and db': "db' = (if d = None then put_job (recovered_job now job) db3 else db3)"
      and rec': "total rec' = Suc (total rec)"
    by (auto simp: recover_one_def Let_def recovered_job_def is_dead_def total_def
        elim!: bind_resultE split: option.splits if_splits)
  have "db_ok db'"
    using good_failure [OF ok job cl sy fi settles_recovered [OF jok job(2)]] unfolding db' good_def by simp
  moreover have jobs2: "db_jobs db2 = db_jobs db"
    using sync_frame [OF sy] cl by (auto simp: close_attempt_Inr)
  from fi have "\<exists>job'. settles job job' \<and> db_jobs db' = row_put bj_id job' (db_jobs db) \<and>
      (job' = recovered_job now job \<or> bj_is_terminal job')"
  proof (cases rule: finishE)
    case none
    with db' jobs2 settles_recovered [OF jok job(2)] show ?thesis by auto
  next
    case (some t)
    have "bj_is_terminal (finished_job job t (Some EXPIRED_LEASE_DEAD_ERROR) now)"
      by (simp add: bj_is_terminal_def finished_job_def)
    with some db' jobs2 settles_finished [OF jok] show ?thesis by auto
  qed
  ultimately show ?thesis using rec' by simp
qed

lemma recover_loop_ok:
  assumes "db_ok db" "\<forall>j \<in> set jobs. find_by_id (bj_id j) db = Some j \<and> bj_status j = bj_STATUS_RUNNING"
    and "distinct (map bj_id jobs)" "recover_loop now jobs (rec, db) = Inr (rec', db')"
  shows "db_ok db' \<and> total rec' = total rec + length jobs \<and>
    (\<forall>i. i \<notin> bj_id ` set jobs \<longrightarrow> find_by_id i db' = find_by_id i db) \<and>
    (\<forall>j \<in> set jobs. \<exists>j'. find_by_id (bj_id j) db' = Some j' \<and> settles j j' \<and>
       (j' = recovered_job now j \<or> bj_is_terminal j'))"
  using assms
proof (induction jobs arbitrary: rec db)
  case (Cons job jobs)
  from Cons.prems(4) obtain rec1 db1 where one: "recover_one now job (rec, db) = Inr (rec1, db1)"
    and rest: "recover_loop now jobs (rec1, db1) = Inr (rec', db')"
    by (auto elim!: bind_resultE)
  have job: "find_by_id (bj_id job) db = Some job" "bj_status job = bj_STATUS_RUNNING"
    using Cons.prems(2) by auto
  obtain job' where step: "db_ok db1" "total rec1 = Suc (total rec)" "settles job job'"
    "db_jobs db1 = row_put bj_id job' (db_jobs db)" "job' = recovered_job now job \<or> bj_is_terminal job'"
    using recover_one_step [OF Cons.prems(1) job one] by blast
  have fr: "find_by_id i db1 = (if i = bj_id job then Some job' else find_by_id i db)" for i
    using step(3,4) job(1) row_get_row_put [of bj_id i job' "db_jobs db"]
    by (auto simp: find_by_id_def settles_def)
  have other: "bj_id j \<noteq> bj_id job" if "j \<in> set jobs" for j
    using Cons.prems(3) that by (metis distinct.simps(2) imageI list.set_map list.simps(9))
  have IH: "db_ok db' \<and> total rec' = total rec1 + length jobs \<and>
    (\<forall>i. i \<notin> bj_id ` set jobs \<longrightarrow> find_by_id i db' = find_by_id i db1) \<and>
    (\<forall>j \<in> set jobs. \<exists>j'. find_by_id (bj_id j) db' = Some j' \<and> settles j j' \<and>
       (j' = recovered_job now j \<or> bj_is_terminal j'))"
    using Cons.prems(2,3) other fr by (intro Cons.IH [OF step(1) _ _ rest]) auto
  have "bj_id job \<notin> bj_id ` set jobs" using Cons.prems(3) by simp
  with IH fr have "find_by_id (bj_id job) db' = Some job'" by simp
  with IH step fr show ?case by auto
qed simp

lemma expired_query_jobs:
  assumes ok: "db_ok db" and j: "j \<in> set (expired_query now scope locked db)"
  shows "find_by_id (bj_id j) db = Some j \<and> lease_expired now scope j \<and> \<not> locked (bj_id j)"
proof -
  from j have "j \<in> set (db_jobs db)" "lease_expired now scope j" "\<not> locked (bj_id j)"
    by (auto simp: expired_query_def dest: in_set_takeD)
  with ok unique_row_get [of bj_id "db_jobs db" j] show ?thesis
    by (auto simp: db_ok_def core_ok_def find_by_id_def)
qed

lemma expired_query_distinct:
  assumes "db_ok db"
  shows "distinct (map bj_id (expired_query now scope locked db))"
proof -
  have "distinct (map bj_id (filter P (db_jobs db)))" for P
    using assms by (auto simp: db_ok_def core_ok_def unique_key_def distinct_map_filter)
  then show ?thesis
    unfolding expired_query_def take_map [symmetric] by (intro distinct_take) (simp add: distinct_map)
qed

lemma recover_ok:
  assumes ok: "db_ok db" and r: "recover_expired_leases now scope locked db = Inr (rec, db')"
  shows "db_ok db' \<and> total rec = length (expired_query now scope locked db) \<and>
    (\<forall>i. i \<notin> bj_id ` set (expired_query now scope locked db) \<longrightarrow> find_by_id i db' = find_by_id i db) \<and>
    (\<forall>j \<in> set (expired_query now scope locked db). \<exists>j'. find_by_id (bj_id j) db' = Some j' \<and> settles j j' \<and>
       (j' = recovered_job now j \<or> bj_is_terminal j'))"
proof -
  have "\<forall>j \<in> set (expired_query now scope locked db).
      find_by_id (bj_id j) db = Some j \<and> bj_status j = bj_STATUS_RUNNING"
    using expired_query_jobs [OF ok] by (auto simp: lease_expired_def)
  from recover_loop_ok [OF ok this expired_query_distinct [OF ok] r [unfolded recover_expired_leases_def]]
  show ?thesis by (simp add: total_def)
qed

lemma retry_deadE:
  assumes "retry_dead tn pl i u now db = Inr (d, db')"
  obtains (lost) "d = LeaseLost" "db' = db"
  | (retried) job r db1 d2 db2 where "find_by_id i db = Some job" "bj_status job = bj_STATUS_DEAD"
      "tenant_visible tn pl job"
      "is_tenant_config_job (bj_job_type job) \<Longrightarrow> is_tenant_config_job_owner db job tn u"
      "sync_linked_job_state job LManuallyRetried None now db = Inr (r, db1)"
      "finish_from_linked_terminal job r None now db1 = Inr (d2, db2)"
      "db' = (if d2 = None
         then put_job (job\<lparr>bj_status := bj_STATUS_PENDING, bj_attempts := 0, bj_available_at := now,
                bj_lease_owner := None, bj_lease_until := None, bj_updated_at := now,
                bj_completed_at := None\<rparr>) db2
         else db2)"
      "d = (case d2 of None \<Rightarrow> Retried now | Some x \<Rightarrow> x)"
proof (cases "find_by_id i db")
  case None
  with assms lost show thesis by (simp add: retry_dead_def)
next
  case (Some job)
  let ?job' = "job\<lparr>bj_status := bj_STATUS_PENDING, bj_attempts := 0, bj_available_at := now,
    bj_lease_owner := None, bj_lease_until := None, bj_updated_at := now, bj_completed_at := None\<rparr>"
  show thesis
  proof (cases "bj_status job = bj_STATUS_DEAD \<and> tenant_visible tn pl job \<and>
      (is_tenant_config_job (bj_job_type job) \<longrightarrow> is_tenant_config_job_owner db job tn u)")
    case False
    with Some assms lost show thesis by (simp add: retry_dead_def split: if_splits)
  next
    case True
    with Some assms have "bind_result (sync_linked_job_state job LManuallyRetried None now db)
        (\<lambda>(sync_result, db1).
         bind_result (finish_from_linked_terminal job sync_result None now db1) (\<lambda>(disposition, db2).
         case disposition of
           Some d \<Rightarrow> Inr (d, db2)
         | None \<Rightarrow> Inr (Retried now, put_job ?job' db2))) = Inr (d, db')"
      by (simp add: retry_dead_def split: if_splits)
    then obtain r db1 where sy: "sync_linked_job_state job LManuallyRetried None now db = Inr (r, db1)"
      and rest: "bind_result (finish_from_linked_terminal job r None now db1) (\<lambda>(disposition, db2).
         case disposition of
           Some d \<Rightarrow> Inr (d, db2)
         | None \<Rightarrow> Inr (Retried now, put_job ?job' db2)) = Inr (d, db')"
      by (rule bind_result_pairE)
    from rest obtain d2 db2 where fi: "finish_from_linked_terminal job r None now db1 = Inr (d2, db2)"
      and last: "(case d2 of Some d \<Rightarrow> Inr (d, db2) | None \<Rightarrow> Inr (Retried now, put_job ?job' db2))
        = (Inr (d, db') :: (JobFailureDisposition \<times> control_db) app_result)"
      by (rule bind_result_pairE)
    from last have "db' = (if d2 = None then put_job ?job' db2 else db2)"
      "d = (case d2 of None \<Rightarrow> Retried now | Some x \<Rightarrow> x)"
      by (auto split: option.splits)
    with retried [OF Some _ _ _ sy fi] True show thesis by blast
  qed
qed

lemma retry_dead_ok:
  assumes ok: "db_ok db" and r: "retry_dead tn pl i u now db = Inr (d, db')"
  shows "good db db'"
  using r
proof (cases rule: retry_deadE)
  case (retried job q db1 d2 db2)
  have jok: "job_ok job" using db_okD(3) [OF ok retried(1)] .
  have nr: "bj_is_terminal job" using retried(2) by (simp add: bj_is_terminal_def)
  note fr = sync_frame [OF retried(5)]
  from retried(6) show ?thesis
  proof (cases rule: finishE)
    case none
    with fr retried(7) show ?thesis
      by (intro good_settle [OF ok retried(1) nr settles_reset [OF jok]]) simp_all
  next
    case (some t)
    with fr retried(7) show ?thesis
      by (intro good_settle [OF ok retried(1) nr settles_finished [OF jok]]) simp_all
  qed
qed (simp add: good_refl ok)

lemma reactivateE:
  assumes "reactivate_linked_in_txn i ty k rid now db = Inr (b, db')"
  obtains (same) "db' = db"
  | (reset) job db1 where "find_by_id i db = Some job" "b" "bj_status job \<noteq> bj_STATUS_PENDING"
      "bj_status job = bj_STATUS_RUNNING \<Longrightarrow> lease_over now job"
      "(if bj_status job = bj_STATUS_RUNNING then close_attempt job OLeaseExpired now db else Inr db) = Inr db1"
      "db' = put_job (job\<lparr>bj_status := bj_STATUS_PENDING, bj_attempts := 0, bj_available_at := now,
                bj_lease_owner := None, bj_lease_until := None, bj_updated_at := now,
                bj_completed_at := None\<rparr>) db1"
proof (cases "find_by_id i db")
  case None
  with assms same show thesis by (simp add: reactivate_linked_in_txn_def)
next
  case (Some job)
  let ?run = "bj_status job = bj_STATUS_RUNNING"
  show thesis
  proof (cases "bj_job_type job \<noteq> ty \<or> linked_resource_id job k \<noteq> Some rid \<or>
      bj_status job = bj_STATUS_PENDING \<or> ?run \<and> opt_check (\<lambda>t. now < t) (bj_lease_until job)")
    case True
    with Some assms same show thesis
      by (auto simp: reactivate_linked_in_txn_def split: if_splits)
  next
    case False
    with Some assms have "bind_result (if ?run then close_attempt job OLeaseExpired now db else Inr db) (\<lambda>db1.
        Inr (True, put_job (job\<lparr>bj_status := bj_STATUS_PENDING, bj_attempts := 0, bj_available_at := now,
                bj_lease_owner := None, bj_lease_until := None, bj_updated_at := now,
                bj_completed_at := None\<rparr>) db1)) = Inr (b, db')"
      by (simp add: reactivate_linked_in_txn_def split: if_splits)
    then obtain db1
      where "(if ?run then close_attempt job OLeaseExpired now db else Inr db) = Inr db1" "b"
        "db' = put_job (job\<lparr>bj_status := bj_STATUS_PENDING, bj_attempts := 0, bj_available_at := now,
                bj_lease_owner := None, bj_lease_until := None, bj_updated_at := now,
                bj_completed_at := None\<rparr>) db1"
      by (rule bind_resultE) simp
    moreover have "lease_over now job" if ?run
      using False that by (auto simp: lease_over_def opt_check_def split: option.splits)
    ultimately show thesis using reset [OF Some] False by blast
  qed
qed

lemma reactivate_ok:
  assumes ok: "db_ok db" and r: "reactivate_linked_in_txn i ty k rid now db = Inr (b, db')"
  shows "good db db'"
  using r
proof (cases rule: reactivateE)
  case (reset job db1)
  have jok: "job_ok job" using db_okD(3) [OF ok reset(1)] .
  show ?thesis
  proof (cases "bj_status job = bj_STATUS_RUNNING")
    case True
    with reset(5) have cl: "close_attempt job OLeaseExpired now db = Inr db1" by simp
    show ?thesis by (rule good_close [OF ok reset(1) True cl settles_reset [OF jok]]) (simp_all add: reset(6))
  next
    case False
    with reset(5) have "db1 = db" by simp
    moreover have "bj_is_terminal job"
      using jok False reset(3) by (auto simp: job_ok_def bj_is_terminal_def)
    ultimately show ?thesis
      by (intro good_settle [OF ok reset(1) _ settles_reset [OF jok]]) (simp_all add: reset(6))
  qed
qed (simp add: good_refl ok)

lemma recover_good:
  assumes ok: "db_ok db" and r: "recover_expired_leases now scope locked db = Inr (rec, db')"
  shows "good db db'"
  unfolding good_def
proof (intro conjI allI)
  note R = recover_ok [OF ok r]
  show "db_ok db'" using R by blast
  fix i
  show "job_rel i db db'"
  proof (cases "i \<in> bj_id ` set (expired_query now scope locked db)")
    case True
    then obtain j where j: "j \<in> set (expired_query now scope locked db)" "i = bj_id j" by blast
    then obtain j' where "find_by_id i db' = Some j'" "settles j j'" using R by blast
    moreover have "find_by_id i db = Some j" "bj_status j \<noteq> bj_STATUS_PENDING"
      using expired_query_jobs [OF ok j(1)] j(2) by (auto simp: lease_expired_def)
    ultimately show ?thesis by (auto simp: job_rel_def moves_def)
  next
    case False
    with R show ?thesis by (simp add: job_rel_def)
  qed
qed

end
