(* ===== verification/Leases.thy ===== *)
theory Leases
  imports Prelude
begin

text \<open>
  The abstract contract of a leased work item: it waits, is held under a numbered claim by a
  worker until an instant, and is done; a finished item may be reopened or purged. A queue that
  moves its items only along these steps never honours a claim number again once a later claim
  has been handed out.
\<close>

datatype lease_state =
    Fresh
  | Waiting int
  | Held int string int
  | Done int
  | Gone

inductive lease_step :: "lease_state \<Rightarrow> lease_state \<Rightarrow> bool" where
  create: "lease_step Fresh (Waiting 0)"
| claim: "lease_step (Waiting s) (Held (s + 1) w u)"
| renew: "lease_step (Held s w u) (Held s w u')"
| release: "lease_step (Held s w u) (Waiting s)"
| finish: "lease_step (Held s w u) (Done s)"
| reopen: "lease_step (Done s) (Waiting s)"
| purge: "lease_step (Done s) Gone"

inductive_cases lease_stepE [elim!]: "lease_step (Held s w u) x" "lease_step Gone x"
inductive_simps lease_step_simps [simp]: "lease_step Gone x" "lease_step x Fresh"

text \<open>How far an item has come: its claim number, and whether it is past that claim.\<close>

fun lease_rank :: "lease_state \<Rightarrow> int option" where
  "lease_rank Fresh = Some 0"
| "lease_rank (Waiting s) = Some s"
| "lease_rank (Held s w u) = Some s"
| "lease_rank (Done s) = Some s"
| "lease_rank Gone = None"

definition rank_le :: "lease_state \<Rightarrow> lease_state \<Rightarrow> bool" where
  "rank_le x y \<longleftrightarrow> (\<forall>s. lease_rank y = Some s \<longrightarrow> (\<exists>r. lease_rank x = Some r \<and> r \<le> s))"

lemma rank_le_refl [simp]: "rank_le x x"
  by (auto simp: rank_le_def)

lemma rank_le_trans: "rank_le x y \<Longrightarrow> rank_le y z \<Longrightarrow> rank_le x z"
  unfolding rank_le_def by (meson order_trans)

lemma lease_step_rank: "lease_step x y \<Longrightarrow> rank_le x y"
  by (induction rule: lease_step.induct) (auto simp: rank_le_def)

locale leased_items =
  fixes lease :: "'db \<Rightarrow> 'k \<Rightarrow> lease_state"
    and step :: "'db \<Rightarrow> 'db \<Rightarrow> bool"
    and inv :: "'db \<Rightarrow> bool"
  assumes step_inv: "inv db \<Longrightarrow> step db db' \<Longrightarrow> inv db'"
    and step_lease: "inv db \<Longrightarrow> step db db' \<Longrightarrow> lease db k = lease db' k \<or> lease_step (lease db k) (lease db' k)"
begin

lemma steps_inv: "step\<^sup>*\<^sup>* db db' \<Longrightarrow> inv db \<Longrightarrow> inv db'"
  by (induction rule: rtranclp_induct) (auto intro: step_inv)

lemma steps_lease: "step\<^sup>*\<^sup>* db db' \<Longrightarrow> inv db \<Longrightarrow> lease_step\<^sup>*\<^sup>* (lease db k) (lease db' k)"
proof (induction rule: rtranclp_induct)
  case (step y z)
  then have "inv y" using steps_inv by blast
  with step step_lease [of y z k] show ?case by (metis rtranclp.rtrancl_into_rtrancl)
qed simp

lemma steps_rank: "step\<^sup>*\<^sup>* db db' \<Longrightarrow> inv db \<Longrightarrow> rank_le (lease db k) (lease db' k)"
proof (induction rule: rtranclp_induct)
  case (step y z)
  then have "inv y" using steps_inv by blast
  with step step_lease [of y z k] show ?case by (metis lease_step_rank rank_le_trans)
qed simp

text \<open>Once a later claim has been handed out, the earlier one is never held again.\<close>

lemma fenced:
  assumes "inv db" "lease db k = Held s w u" "step\<^sup>*\<^sup>* db db'"
    and "lease db' k = Held s' w' u'" "s' \<noteq> s" "step\<^sup>*\<^sup>* db' db''"
  shows "lease db'' k \<noteq> Held s w'' u''"
proof -
  have "s \<le> s'" using steps_rank [OF assms(3,1), of k] assms(2,4) by (simp add: rank_le_def)
  moreover have "rank_le (lease db' k) (lease db'' k)"
    using steps_rank [OF assms(6)] steps_inv [OF assms(3,1)] by blast
  ultimately show ?thesis using assms(4,5) by (auto simp: rank_le_def)
qed

text \<open>A claim that is no longer held stays so: only a new claim makes the item held again.\<close>

lemma released_for_good:
  assumes "inv db" "lease db k = Waiting s \<or> lease db k = Done s" "step\<^sup>*\<^sup>* db db'"
  shows "lease db' k \<noteq> Held s w u"
proof -
  have "\<forall>s'. (\<exists>w u. lease db' k = Held s' w u) \<longrightarrow> s < s'"
    if "step\<^sup>*\<^sup>* db db'" for db'
    using that
  proof (induction rule: rtranclp_induct)
    case (step y z)
    have "inv y" using steps_inv [OF step.hyps(1) assms(1)] .
    from step_lease [OF this step.hyps(2), of k] show ?case
    proof
      assume "lease_step (lease y k) (lease z k)"
      then show ?thesis
      proof cases
        case (claim t w u)
        have "rank_le (lease db k) (lease y k)" by (rule steps_rank [OF step.hyps(1) assms(1)])
        with claim assms(2) show ?thesis by (auto simp: rank_le_def)
      qed (use step.IH in auto)
    qed (use step.IH in simp)
  qed (use assms(2) in auto)
  from this [OF assms(3)] show ?thesis by auto
qed

end

end
