(* ===== verification/Job_Properties.thy ===== *)
theory Job_Properties
  imports Job_Invariants Leases
begin

text \<open>
  The job queue as a transition system. A step is one committed transaction: an operation of the
  queue, a write of other code that leaves the job and attempt tables alone, or the retention
  purge of succeeded jobs. A transaction that ends in an error is rolled back and is no step. The
  state carries, beside the database, the identifiers handed out so far; the identifier generator
  never repeats one, and the database starts empty.
\<close>

section \<open>Steps\<close>

type_synonym queue_state = "control_db \<times> int set"

definition delete_jobs :: "(background_job \<Rightarrow> bool) \<Rightarrow> control_db \<Rightarrow> control_db" where
  "delete_jobs P db =
     (let jobs = filter (\<lambda>j. \<not> P j) (db_jobs db)
      in db\<lparr>db_jobs := jobs,
            db_attempts := filter (\<lambda>a. at_job_id a \<in> bj_id ` set jobs) (db_attempts db)\<rparr>)"

inductive queue_step :: "queue_state \<Rightarrow> queue_state \<Rightarrow> bool" where
  s_enqueue: "enqueue_on nid c now db1 db = Inr (r, db') \<Longrightarrow>
     (er_inserted r \<Longrightarrow> bj_id (er_job r) \<notin> U) \<Longrightarrow> queue_step (db, U) (db', if er_inserted r then insert (bj_id (er_job r)) U else U)"
| s_claim: "claim_next w d now scope locked db = Inr (c, db') \<Longrightarrow> queue_step (db, U) (db', U)"
| s_renew: "renew_lease i s w d now db = Inr (b, db') \<Longrightarrow> queue_step (db, U) (db', U)"
| s_complete: "job_complete i s w now db = Inr (b, db') \<Longrightarrow> queue_step (db, U) (db', U)"
| s_fail: "fail_job f db = Inr (dis, db') \<Longrightarrow> queue_step (db, U) (db', U)"
| s_defer: "defer_retryable_conflict g db = Inr (dis, db') \<Longrightarrow> queue_step (db, U) (db', U)"
| s_dead_letter: "dead_letter i s w e now db = Inr (dis, db') \<Longrightarrow> queue_step (db, U) (db', U)"
| s_recover: "recover_expired_leases now scope locked db = Inr (rec, db') \<Longrightarrow> queue_step (db, U) (db', U)"
| s_retry: "retry_dead tn pl i u now db = Inr (dis, db') \<Longrightarrow> queue_step (db, U) (db', U)"
| s_reactivate: "reactivate_linked_in_txn i ty k rid now db = Inr (b, db') \<Longrightarrow> queue_step (db, U) (db', U)"
| s_business: "db_jobs db' = db_jobs db \<Longrightarrow> db_attempts db' = db_attempts db \<Longrightarrow> queue_step (db, U) (db', U)"
| s_purge: "(\<And>j. j \<in> set (db_jobs db) \<Longrightarrow> P j \<Longrightarrow> bj_status j = bj_STATUS_SUCCEEDED) \<Longrightarrow>
     queue_step (db, U) (delete_jobs P db, U)"

definition empty_db :: control_db where
  "empty_db = \<lparr>db_jobs = [], db_attempts = [], db_imports = [], db_exports = [],
     db_retention_runs = [], db_bundles = [], db_transfers = []\<rparr>"

definition reachable :: "queue_state \<Rightarrow> bool" where
  "reachable s \<longleftrightarrow> (\<exists>db0. db_jobs db0 = [] \<and> db_attempts db0 = [] \<and> queue_step\<^sup>*\<^sup>* (db0, {}) s)"

definition queue_inv :: "queue_state \<Rightarrow> bool" where
  "queue_inv s \<longleftrightarrow> db_ok (fst s) \<and> bj_id ` set (db_jobs (fst s)) \<subseteq> snd s"

definition lease_of :: "queue_state \<Rightarrow> int \<Rightarrow> lease_state" where
  "lease_of s i =
     (case find_by_id i (fst s) of
        None \<Rightarrow> if i \<in> snd s then Gone else Fresh
      | Some j \<Rightarrow>
          if bj_status j = bj_STATUS_RUNNING
          then Held (bj_claim_sequence j) (the (bj_lease_owner j)) (the (bj_lease_until j))
          else if bj_status j = bj_STATUS_PENDING then Waiting (bj_claim_sequence j)
          else Done (bj_claim_sequence j))"

section \<open>The steps keep the invariant and follow the lease contract\<close>

lemma moves_lease:
  assumes "moves job job'" "job_ok job"
  shows "\<exists>x y. x = (if bj_status job = bj_STATUS_RUNNING
        then Held (bj_claim_sequence job) (the (bj_lease_owner job)) (the (bj_lease_until job))
        else if bj_status job = bj_STATUS_PENDING then Waiting (bj_claim_sequence job)
        else Done (bj_claim_sequence job)) \<and>
      y = (if bj_status job' = bj_STATUS_RUNNING
        then Held (bj_claim_sequence job') (the (bj_lease_owner job')) (the (bj_lease_until job'))
        else if bj_status job' = bj_STATUS_PENDING then Waiting (bj_claim_sequence job')
        else Done (bj_claim_sequence job')) \<and> (x = y \<or> lease_step x y)"
proof -
  consider (settle) "bj_status job \<noteq> bj_STATUS_PENDING" "settles job job'"
    | (renew) "renews job job'" | (claim) "claims job job'"
    using assms(1) unfolding moves_def by blast
  then show ?thesis
  proof cases
    case settle
    then show ?thesis by (auto simp: settles_def intro: lease_step.intros)
  next
    case renew
    then show ?thesis by (auto simp: renews_def intro: lease_step.intros)
  next
    case claim
    then show ?thesis by (auto simp: claims_def intro: lease_step.intros)
  qed
qed

lemma job_rel_lease:
  assumes "job_rel i db db'" "db_ok db"
  shows "lease_of (db, U) i = lease_of (db', U) i \<or> lease_step (lease_of (db, U) i) (lease_of (db', U) i)"
  using assms(1) unfolding job_rel_def
proof (elim disjE exE conjE)
  fix job job'
  assume "find_by_id i db = Some job" "find_by_id i db' = Some job'" "moves job job'"
  with moves_lease [of job job'] db_okD(3) [OF assms(2)] show ?thesis by (auto simp: lease_of_def)
qed (simp add: lease_of_def)

lemma job_rel_ids: "(\<forall>i. job_rel i db db') \<Longrightarrow> bj_id ` set (db_jobs db') = bj_id ` set (db_jobs db)"
proof -
  assume rel: "\<forall>i. job_rel i db db'"
  have "find_by_id i db = None \<longleftrightarrow> find_by_id i db' = None" for i
    using rel [THEN spec, of i] by (auto simp: job_rel_def)
  then show ?thesis by (auto simp: find_by_id_def row_get_None_iff)
qed

lemma db_ok_tables:
  "db_jobs db' = db_jobs db \<Longrightarrow> db_attempts db' = db_attempts db \<Longrightarrow> db_ok db \<Longrightarrow> good db db'"
  by (simp add: good_def db_ok_def job_rel_def find_by_id_def)

lemma delete_jobs_ok: "db_ok db \<Longrightarrow> db_ok (delete_jobs P db)"
  unfolding db_ok_def delete_jobs_def Let_def by (auto dest: core_ok_filter)

lemma find_delete_jobs:
  assumes "db_ok db"
  shows "find_by_id i (delete_jobs P db) =
    (case find_by_id i db of Some j \<Rightarrow> if P j then None else Some j | None \<Rightarrow> None)"
proof -
  have u: "unique_key bj_id (db_jobs db)" using assms by (simp add: db_ok_def core_ok_def)
  have f: "row_get bj_id i (filter (\<lambda>j. \<not> P j) (db_jobs db)) = Some j \<longleftrightarrow>
      row_get bj_id i (db_jobs db) = Some j \<and> \<not> P j" for j
    using u by (auto simp: row_get_iff unique_key_filter)
  show ?thesis
  proof (cases "row_get bj_id i (filter (\<lambda>j. \<not> P j) (db_jobs db))")
    case None
    then show ?thesis using f by (auto simp: find_by_id_def delete_jobs_def Let_def split: option.splits)
  next
    case (Some j)
    with f [of j] show ?thesis by (simp add: find_by_id_def delete_jobs_def Let_def)
  qed
qed

lemma enqueue_lease:
  assumes ok: "db_ok db" and e: "enqueue_on nid c now db1 db = Inr (r, db')"
    and new: "er_inserted r \<Longrightarrow> bj_id (er_job r) \<notin> U" and ids: "bj_id ` set (db_jobs db) \<subseteq> U"
  shows "lease_of (db, U) i = lease_of (db', if er_inserted r then insert (bj_id (er_job r)) U else U) i \<or>
    lease_step (lease_of (db, U) i) (lease_of (db', if er_inserted r then insert (bj_id (er_job r)) U else U) i)"
  using e
proof (cases rule: enqueue_on_cases)
  case (inserted k)
  have "db_jobs db' = er_job r # db_jobs db" using inserted by (simp add: insert_job_Some)
  moreover have "find_by_id (bj_id (er_job r)) db = None"
    using new [OF inserted(2)] ids by (auto simp: find_by_id_def row_get_None_iff)
  ultimately show ?thesis using new [OF inserted(2)] inserted(2,3)
    by (auto simp: lease_of_def find_by_id_def row_get_def new_job_def intro: lease_step.create)
qed simp

text \<open>A job keeps its type and its dedupe key, and an identifier in use names no other job later.\<close>

definition keeps_identity :: "int \<Rightarrow> queue_state \<Rightarrow> queue_state \<Rightarrow> bool" where
  "keeps_identity i s s' \<longleftrightarrow> snd s \<subseteq> snd s' \<and>
     (\<forall>j'. i \<in> snd s \<and> find_by_id i (fst s') = Some j' \<longrightarrow>
        (\<exists>j. find_by_id i (fst s) = Some j \<and> bj_job_type j = bj_job_type j' \<and>
           bj_dedupe_key j = bj_dedupe_key j'))"

lemma job_rel_identity: "job_rel i db db' \<Longrightarrow> keeps_identity i (db, U) (db', U)"
  by (auto simp: job_rel_def keeps_identity_def moves_def settles_def renews_def claims_def)

lemma queue_step_props:
  assumes "queue_step s s'" "queue_inv s"
  shows "queue_inv s' \<and> (lease_of s i = lease_of s' i \<or> lease_step (lease_of s i) (lease_of s' i)) \<and>
    keeps_identity i s s'"
proof -
  have D: "db_ok db" if "s = (db, U)" for db U
    using assms(2) that by (simp add: queue_inv_def)
  have G: ?thesis if "s = (db, U)" "s' = (db', U)" "good db db'" for db db' U
    using that assms(2) job_rel_ids [of db db'] job_rel_lease [of i db db' U] job_rel_identity [of i db db' U]
    by (auto simp: good_def queue_inv_def)
  show ?thesis
    using assms
  proof (cases rule: queue_step.cases)
    case (s_enqueue nid c now db1 db r db' U)
    have ok: "db_ok db" "bj_id ` set (db_jobs db) \<subseteq> U" using assms(2) s_enqueue(1) by (auto simp: queue_inv_def)
    have "queue_inv s'"
      using s_enqueue(3)
    proof (cases rule: enqueue_on_cases)
      case (inserted k)
      with ok s_enqueue(2) enqueue_on_ok [OF ok(1) s_enqueue(3)] show ?thesis
        by (auto simp: queue_inv_def insert_job_Some)
    qed (use ok s_enqueue(2) in \<open>simp add: queue_inv_def\<close>)
    moreover have "keeps_identity i s s'"
      using s_enqueue(3)
    proof (cases rule: enqueue_on_cases)
      case (inserted k)
      with s_enqueue(1,2,4) show ?thesis
        by (auto simp: keeps_identity_def insert_job_Some find_by_id_def row_get_def split: if_splits)
    qed (simp add: s_enqueue(1,2) keeps_identity_def)
    ultimately show ?thesis
      using enqueue_lease [OF ok(1) s_enqueue(3) _ ok(2)] s_enqueue(1,2,4) by blast
  next
    case (s_purge db P U)
    have ok: "db_ok db" using assms(2) s_purge(1) by (simp add: queue_inv_def)
    have "queue_inv s'"
      using assms(2) s_purge(1,2) delete_jobs_ok [of db P]
      by (auto simp: queue_inv_def delete_jobs_def Let_def)
    moreover have "lease_of s i = lease_of s' i \<or> lease_step (lease_of s i) (lease_of s' i)"
    proof (cases "find_by_id i db")
      case None
      then show ?thesis by (simp add: s_purge(1,2) lease_of_def find_delete_jobs [OF ok])
    next
      case (Some j)
      have "i \<in> U" using assms(2) s_purge(1) db_okD(1,2) [OF ok Some] by (auto simp: queue_inv_def)
      with Some s_purge(3) [of j] db_okD(1) [OF ok Some] show ?thesis
        by (auto simp: s_purge(1,2) lease_of_def find_delete_jobs [OF ok] intro: lease_step.purge)
    qed
    moreover have "keeps_identity i s s'"
      by (auto simp: s_purge(1,2) keeps_identity_def find_delete_jobs [OF ok] split: option.splits if_splits)
    ultimately show ?thesis by blast
  next
    case s_claim
    show ?thesis by (rule G [OF s_claim(1,2) claim_next_ok [OF _ s_claim(3)]]) (rule D [OF s_claim(1)])
  next
    case s_renew
    show ?thesis by (rule G [OF s_renew(1,2) renew_lease_ok [OF _ s_renew(3)]]) (rule D [OF s_renew(1)])
  next
    case s_complete
    show ?thesis by (rule G [OF s_complete(1,2) job_complete_ok [OF _ s_complete(3)]]) (rule D [OF s_complete(1)])
  next
    case s_fail
    show ?thesis by (rule G [OF s_fail(1,2) fail_job_ok [OF _ s_fail(3)]]) (rule D [OF s_fail(1)])
  next
    case s_defer
    show ?thesis by (rule G [OF s_defer(1,2) defer_ok [OF _ s_defer(3)]]) (rule D [OF s_defer(1)])
  next
    case s_dead_letter
    show ?thesis by (rule G [OF s_dead_letter(1,2) dead_letter_ok [OF _ s_dead_letter(3)]]) (rule D [OF s_dead_letter(1)])
  next
    case s_recover
    show ?thesis by (rule G [OF s_recover(1,2) recover_good [OF _ s_recover(3)]]) (rule D [OF s_recover(1)])
  next
    case s_retry
    show ?thesis by (rule G [OF s_retry(1,2) retry_dead_ok [OF _ s_retry(3)]]) (rule D [OF s_retry(1)])
  next
    case s_reactivate
    show ?thesis by (rule G [OF s_reactivate(1,2) reactivate_ok [OF _ s_reactivate(3)]]) (rule D [OF s_reactivate(1)])
  next
    case s_business
    show ?thesis by (rule G [OF s_business(1,2) db_ok_tables [OF s_business(3,4)]]) (rule D [OF s_business(1)])
  qed
qed

interpretation jobs: leased_items lease_of queue_step queue_inv
  by unfold_locales (use queue_step_props in blast)+

lemma steps_identity:
  "queue_step\<^sup>*\<^sup>* s s' \<Longrightarrow> queue_inv s \<Longrightarrow> keeps_identity i s s'"
proof (induction rule: rtranclp_induct)
  case (step y z)
  have "queue_inv y" by (rule jobs.steps_inv [OF step.hyps(1) step.prems])
  with queue_step_props [OF step.hyps(2), of i] step.IH [OF step.prems] show ?case
    unfolding keeps_identity_def by (metis subset_iff)
qed (simp add: keeps_identity_def)

lemma reachable_inv: "reachable s \<Longrightarrow> queue_inv s"
proof -
  assume "reachable s"
  then obtain db0 where db0: "db_jobs db0 = []" "db_attempts db0 = []" "queue_step\<^sup>*\<^sup>* (db0, {}) s"
    unfolding reachable_def by blast
  have "queue_inv (db0, {})"
    using db0(1,2) by (simp add: queue_inv_def db_ok_def core_ok_def unique_key_def dedupe_unique_def)
  with db0(3) show ?thesis by (rule jobs.steps_inv)
qed

section \<open>Facts for the properties\<close>

lemma attempts_count:
  assumes ok: "db_ok db" and j: "j \<in> set (db_jobs db)"
  shows "length (filter (\<lambda>a. at_job_id a = bj_id j) (db_attempts db)) = nat (bj_claim_sequence j)"
    and "length (filter (\<lambda>a. at_job_id a = bj_id j \<and> at_outcome a = ''running'') (db_attempts db))
      = (if bj_status j = bj_STATUS_RUNNING then 1 else 0)"
proof -
  let ?as = "db_attempts db"
  have u: "unique_key attempt_key ?as" and h: "history_ok ?as j" and jok: "job_ok j"
    using ok j by (auto simp: db_ok_def core_ok_def)
  have card: "length (filter P ?as) = card (at_sequence ` set (filter P ?as))"
    if "\<And>a. P a \<Longrightarrow> at_job_id a = bj_id j" for P
  proof -
    have "distinct (map at_sequence (filter P ?as))"
      using u that by (auto simp: unique_key_def distinct_map inj_on_def)
    then show ?thesis by (metis distinct_card length_map set_map)
  qed
  have seqs: "at_sequence ` set (filter (\<lambda>a. at_job_id a = bj_id j) ?as) = {1..bj_claim_sequence j}"
  proof (intro set_eqI iffI)
    fix s
    assume "s \<in> at_sequence ` set (filter (\<lambda>a. at_job_id a = bj_id j) ?as)"
    then have "\<exists>a \<in> set ?as. attempt_key a = (bj_id j, s)" by auto
    with h show "s \<in> {1..bj_claim_sequence j}" unfolding history_ok_def by auto
  next
    fix s
    assume "s \<in> {1..bj_claim_sequence j}"
    with h have "\<exists>a \<in> set ?as. attempt_key a = (bj_id j, s)" unfolding history_ok_def by auto
    then show "s \<in> at_sequence ` set (filter (\<lambda>a. at_job_id a = bj_id j) ?as)" by force
  qed
  show "length (filter (\<lambda>a. at_job_id a = bj_id j) ?as) = nat (bj_claim_sequence j)"
    using card [of "\<lambda>a. at_job_id a = bj_id j"] seqs by simp
  have open1: "at_outcome a = ''running'' \<longleftrightarrow> bj_status j = bj_STATUS_RUNNING \<and> at_sequence a = bj_claim_sequence j"
    if "a \<in> set ?as" "at_job_id a = bj_id j" for a
    using h that unfolding history_ok_def by blast
  have "at_sequence ` set (filter (\<lambda>a. at_job_id a = bj_id j \<and> at_outcome a = ''running'') ?as) =
      (if bj_status j = bj_STATUS_RUNNING then {bj_claim_sequence j} else {})"
  proof (cases "bj_status j = bj_STATUS_RUNNING")
    case True
    with jok have "1 \<le> bj_claim_sequence j" by (auto simp: job_ok_def ck_bg_job_attempt_budget_def)
    then have "bj_claim_sequence j \<in> at_sequence ` set (filter (\<lambda>a. at_job_id a = bj_id j) ?as)"
      unfolding seqs by simp
    with open1 True show ?thesis by auto
  qed (use open1 in auto)
  then show "length (filter (\<lambda>a. at_job_id a = bj_id j \<and> at_outcome a = ''running'') ?as)
      = (if bj_status j = bj_STATUS_RUNNING then 1 else 0)"
    using card [of "\<lambda>a. at_job_id a = bj_id j \<and> at_outcome a = ''running''"] by simp
qed

lemma lost_token:
  assumes "held_job i s w now db = None"
  shows "job_complete i s w now db = Inr (False, db)"
    "fail_job \<lparr>fb_job_id = i, fb_claim_sequence = s, fb_worker_id = w, fb_retry_at = t,
       fb_error_message = e, fb_force_dead = f, fb_now = now\<rparr> db = Inr (LeaseLost, db)"
    "defer_retryable_conflict \<lparr>df_job_id = i, df_claim_sequence = s, df_worker_id = w,
       df_available_at = t, df_error_message = e, df_now = now\<rparr> db = Inr (LeaseLost, db)"
    "dead_letter i s w e now db = Inr (LeaseLost, db)"
  using assms
  by (simp_all add: job_complete_def fail_job_def defer_retryable_conflict_def dead_letter_def Let_def)

lemma held_job_lease:
  "db_ok db \<Longrightarrow> held_job i s w now db = Some job \<Longrightarrow> \<exists>u. lease_of (db, U) i = Held s w u \<and> now < u"
  using held_jobD [of i s w now db job] db_okD(3) [of db i job]
  by (auto simp: lease_of_def lease_over_def split: option.splits)

text \<open>A successful claim makes the item held under the next claim number.\<close>

lemma claimed_lease:
  assumes ok: "db_ok db" and c: "claim_next w d now scope locked db = Inr (Some c, db')"
  shows "lease_of (db', U) (bj_id c) = Held (bj_claim_sequence c) w (now + d)"
  using c
proof (cases rule: claim_nextE)
  case (1 job rest att)
  have "job \<in> set (db_jobs db)" using 1(1) claimable_query_set [of now scope locked db] by auto
  then have "find_by_id (bj_id job) db = Some job"
    using ok unique_row_get [of bj_id "db_jobs db" job] by (auto simp: db_ok_def core_ok_def find_by_id_def)
  then have "find_by_id (bj_id c) db' = Some c"
    using 1(3,5) by (simp add: find_by_id_def row_get_row_put)
  with 1(3) show ?thesis by (simp add: lease_of_def)
qed

section \<open>Properties\<close>

text \<open>A concrete command and state for the witnesses.\<close>

definition sample_command :: EnqueueBackgroundJob where
  "sample_command = \<lparr>eq_tenant_id = Some ''acme'', eq_schedule_id = None, eq_scheduled_for = None,
     eq_max_runtime_seconds = None, eq_job_type = ''mail.send'', eq_payload = JNull, eq_priority = 0,
     eq_available_at = 100, eq_max_attempts = 2, eq_dedupe_key = Some ''k1'', eq_traceparent = None,
     eq_tracestate = None\<rparr>"

definition sample_db :: control_db where
  "sample_db = empty_db\<lparr>db_jobs := [new_job 7 sample_command 50]\<rparr>"

lemma sample_enqueue:
  "enqueue_on (Inr 7) sample_command 50 empty_db empty_db =
     Inr (\<lparr>er_job = new_job 7 sample_command 50, er_inserted = True\<rparr>, sample_db)"
proof -
  have "trim ''mail.send'' = ''mail.send''" by (rule trim_graphic) (simp add: is_ascii_graphic_def)
  then show ?thesis
    by (simp add: enqueue_on_def validate_enqueue_command_def sample_command_def opt_check_def
        find_by_dedupe_key_def empty_db_def insert_job_def sample_db_def)
qed

lemma sample_reachable: "reachable (sample_db, {7})"
proof -
  have "queue_step (empty_db, {}) (sample_db, {7})"
    using s_enqueue [OF sample_enqueue, of "{}"] by (simp add: new_job_def)
  then show ?thesis unfolding reachable_def by (intro exI [of _ empty_db]) (auto simp: empty_db_def)
qed

definition sample_claimed :: background_job where
  "sample_claimed = (new_job 7 sample_command 50)\<lparr>bj_status := bj_STATUS_RUNNING, bj_attempts := 1,
     bj_claim_sequence := 1, bj_lease_owner := Some ''w1'', bj_lease_until := Some 220,
     bj_updated_at := 120\<rparr>"

definition sample_claimed_db :: control_db where
  "sample_claimed_db = sample_db\<lparr>db_jobs := [sample_claimed], db_attempts :=
     [\<lparr>at_job_id = 7, at_sequence = 1, at_available_at = 100, at_started_at = 120,
       at_finished_at = None, at_closed_at = None, at_outcome = ''running''\<rparr>]\<rparr>"

lemma sample_lease_valid: "validate_lease ''w1'' 100 = Inr ()" "validate_lease ''w2'' 100 = Inr ()"
  using trim_graphic [of "''w1''"] trim_graphic [of "''w2''"]
  by (simp_all add: validate_lease_def is_ascii_graphic_def)

lemma sample_claim:
  "claim_next ''w1'' 100 120 None (\<lambda>_. False) sample_db = Inr (Some sample_claimed, sample_claimed_db)"
  by (simp add: claim_next_def sample_lease_valid claimable_query_def sample_db_def claimable_def
      new_job_def sample_command_def etf_condition_def checked_add_i32_def width_defs next_sequence_def
      checked_add_i64_def start_attempt_def empty_db_def sample_claimed_def sample_claimed_db_def
      put_job_def row_put_def update_where_def Let_def)

lemma sample_claimed_reachable: "reachable (sample_claimed_db, {7})"
  using sample_reachable s_claim [OF sample_claim, of "{7}"]
  unfolding reachable_def by (meson rtranclp.rtrancl_into_rtrancl)

definition sample_requeued_db :: control_db where
  "sample_requeued_db = sample_db\<lparr>
     db_jobs := [sample_claimed\<lparr>bj_status := bj_STATUS_PENDING, bj_available_at := 300,
       bj_lease_owner := None, bj_lease_until := None, bj_updated_at := 300\<rparr>],
     db_attempts := [\<lparr>at_job_id = 7, at_sequence = 1, at_available_at = 100, at_started_at = 120,
       at_finished_at = None, at_closed_at = Some 300, at_outcome = ''lease_expired''\<rparr>]\<rparr>"

lemmas sample_defs = sample_db_def sample_claimed_def sample_claimed_db_def sample_requeued_db_def
  new_job_def sample_command_def empty_db_def

lemma sample_recover:
  "recover_expired_leases 300 None (\<lambda>_. False) sample_claimed_db =
     Inr (\<lparr>requeued = 1, dead = 0, completed = 0\<rparr>, sample_requeued_db)"
  by (simp add: recover_expired_leases_def expired_query_def lease_expired_def opt_check_def
      etf_condition_def sample_defs recover_one_def Let_def close_attempt_def rows_matched_def
      open_attempt_def update_where_def sync_linked_job_state_def job_type_defs
      finish_from_linked_terminal_def put_job_def row_put_def outcome_finished_at_def)

lemma sample_second_claim:
  "\<exists>c db. claim_next ''w2'' 100 310 None (\<lambda>_. False) sample_requeued_db = Inr (Some c, db) \<and> bj_id c = 7"
  by (simp add: claim_next_def sample_lease_valid claimable_query_def claimable_def
      sample_defs etf_condition_def checked_add_i32_def width_defs next_sequence_def
      checked_add_i64_def start_attempt_def put_job_def row_put_def update_where_def Let_def)

text \<open>
  C4. In every database the queue can reach, whatever the interleaving of workers, recovery,
  manual retries, business writes and purges: no check constraint of the two tables is violated,
  identifiers and dedupe keys are unique, a job has a lease exactly while it is running and its
  attempts stay within its budget, it has exactly one attempt row per claim, and exactly one of
  them is open if it is running and none otherwise.
\<close>

theorem queue_tables_invariant:
  assumes "reachable (db, U)"
  shows "unique_key bj_id (db_jobs db) \<and> dedupe_unique (db_jobs db) \<and>
    (\<forall>a \<in> set (db_attempts db). ck_bg_attempt a) \<and>
    (\<forall>j \<in> set (db_jobs db).
       ck_bg_job_attempt_budget j \<and> bj_attempts j \<le> bj_max_attempts j \<and>
       (bj_lease_owner j \<noteq> None \<longleftrightarrow> bj_status j = bj_STATUS_RUNNING) \<and>
       (bj_lease_until j \<noteq> None \<longleftrightarrow> bj_status j = bj_STATUS_RUNNING) \<and>
       length (filter (\<lambda>a. at_job_id a = bj_id j) (db_attempts db)) = nat (bj_claim_sequence j) \<and>
       length (filter (\<lambda>a. at_job_id a = bj_id j \<and> at_outcome a = ''running'') (db_attempts db))
         = (if bj_status j = bj_STATUS_RUNNING then 1 else 0))"
proof -
  have ok: "db_ok db" using reachable_inv [OF assms] by (simp add: queue_inv_def)
  then have "job_ok j" if "j \<in> set (db_jobs db)" for j using that by (simp add: db_ok_def core_ok_def)
  with ok attempts_count [OF ok] show ?thesis
    by (auto simp: db_ok_def core_ok_def job_ok_def)
qed

theorem queue_tables_invariant_witness:
  "sample_claimed \<in> set (db_jobs sample_claimed_db) \<and> bj_attempts sample_claimed \<le> bj_max_attempts sample_claimed \<and>
   length (filter (\<lambda>a. at_job_id a = bj_id sample_claimed \<and> at_outcome a = ''running'')
     (db_attempts sample_claimed_db)) = (1 :: nat)"
proof -
  have "sample_claimed \<in> set (db_jobs sample_claimed_db)" by (simp add: sample_claimed_db_def)
  moreover have "bj_status sample_claimed = bj_STATUS_RUNNING" by (simp add: sample_claimed_def)
  ultimately show ?thesis using queue_tables_invariant [OF sample_claimed_reachable] by simp
qed

text \<open>
  C20. The queue refines the lease contract: every committed step leaves each job where it is or
  takes it along one arc of the contract (created, claimed under the next claim number, renewed,
  released, finished, reopened after it was finished, purged).
\<close>

theorem queue_refines_lease:
  assumes "reachable s" "queue_step s s'"
  shows "lease_of s i = lease_of s' i \<or> lease_step (lease_of s i) (lease_of s' i)"
  using queue_step_props [OF assms(2) reachable_inv [OF assms(1)]] by blast

theorem queue_refines_lease_witness:
  "lease_of (sample_db, {7}) 7 = Waiting 0 \<and> lease_of (sample_claimed_db, {7}) 7 = Held 1 ''w1'' 220 \<and>
   lease_step (Waiting 0) (Held 1 ''w1'' 220)"
proof -
  have l: "lease_of (sample_db, {7}) 7 = Waiting 0" "lease_of (sample_claimed_db, {7}) 7 = Held 1 ''w1'' 220"
    by (simp_all add: lease_of_def find_by_id_def row_get_def sample_db_def sample_claimed_db_def
        sample_claimed_def new_job_def)
  with queue_refines_lease [OF sample_reachable s_claim [OF sample_claim], of 7] show ?thesis by auto
qed

text \<open>
  C17. Fencing: once a job has been claimed again, the worker of an earlier claim can never again
  complete, fail, defer or bury it or extend its lease; each of its calls is answered with a lost
  lease and changes nothing, at any later time and whatever happened in between.
\<close>

theorem stale_claim_fenced:
  assumes "reachable (db0, U0)"
    and "claim_next w d t scope locked db0 = Inr (Some c, db1)"
    and "queue_step\<^sup>*\<^sup>* (db1, U0) (db2, U2)"
    and "claim_next w' d' t' scope' locked' db2 = Inr (Some c', db3)" "bj_id c' = bj_id c"
    and "queue_step\<^sup>*\<^sup>* (db3, U2) (db4, U4)"
  shows "bj_claim_sequence c < bj_claim_sequence c' \<and>
    (\<forall>w0 now e at f.
      job_complete (bj_id c) (bj_claim_sequence c) w0 now db4 = Inr (False, db4) \<and>
      fail_job \<lparr>fb_job_id = bj_id c, fb_claim_sequence = bj_claim_sequence c, fb_worker_id = w0,
        fb_retry_at = at, fb_error_message = e, fb_force_dead = f, fb_now = now\<rparr> db4 = Inr (LeaseLost, db4) \<and>
      defer_retryable_conflict \<lparr>df_job_id = bj_id c, df_claim_sequence = bj_claim_sequence c,
        df_worker_id = w0, df_available_at = at, df_error_message = e, df_now = now\<rparr> db4
        = Inr (LeaseLost, db4) \<and>
      dead_letter (bj_id c) (bj_claim_sequence c) w0 e now db4 = Inr (LeaseLost, db4) \<and>
      (validate_lease w0 at = Inr () \<longrightarrow>
         renew_lease (bj_id c) (bj_claim_sequence c) w0 at now db4 = Inr (False, db4)))"
proof -
  have i0: "queue_inv (db0, U0)" by (rule reachable_inv [OF assms(1)])
  have st1: "queue_step (db0, U0) (db1, U0)" using assms(2) by (rule s_claim)
  have st2: "queue_step (db2, U2) (db3, U2)" using assms(4) by (rule s_claim)
  have i1: "queue_inv (db1, U0)" using jobs.step_inv [OF i0 st1] .
  have i2: "queue_inv (db2, U2)" using jobs.steps_inv [OF assms(3) i1] .
  have i3: "queue_inv (db3, U2)" using jobs.step_inv [OF i2 st2] .
  have i4: "queue_inv (db4, U4)" using jobs.steps_inv [OF assms(6) i3] .
  note ok = i0 [unfolded queue_inv_def fst_conv, THEN conjunct1] i2 [unfolded queue_inv_def fst_conv, THEN conjunct1]
    i4 [unfolded queue_inv_def fst_conv, THEN conjunct1]
  have l1: "lease_of (db1, U0) (bj_id c) = Held (bj_claim_sequence c) w (t + d)"
    by (rule claimed_lease [OF ok(1) assms(2)])
  have l3: "lease_of (db3, U2) (bj_id c) = Held (bj_claim_sequence c') w' (t' + d')"
    using claimed_lease [OF ok(2) assms(4), of U2] assms(5) by simp
  have l2: "lease_of (db2, U2) (bj_id c) = Waiting (bj_claim_sequence c' - 1)"
    using assms(4)
  proof (cases rule: claim_nextE)
    case (1 job rest att)
    have j: "job \<in> set (db_jobs db2)" "claimable t' scope' job"
      using 1(1) claimable_query_set [of t' scope' locked' db2] by auto
    then have "find_by_id (bj_id job) db2 = Some job"
      using ok(2) unique_row_get [of bj_id "db_jobs db2" job] by (auto simp: db_ok_def core_ok_def find_by_id_def)
    with j 1(3) assms(5) show ?thesis by (simp add: lease_of_def claimable_def)
  qed
  have lt: "bj_claim_sequence c < bj_claim_sequence c'"
    using jobs.steps_rank [OF assms(3) i1, of "bj_id c"] l1 l2 by (simp add: rank_le_def)
  have st13: "queue_step\<^sup>*\<^sup>* (db1, U0) (db3, U2)" using assms(3) st2 by simp
  have "held_job (bj_id c) (bj_claim_sequence c) w0 now db4 = None" for w0 now
  proof (rule ccontr)
    assume "held_job (bj_id c) (bj_claim_sequence c) w0 now db4 \<noteq> None"
    then obtain u where "lease_of (db4, U4) (bj_id c) = Held (bj_claim_sequence c) w0 u"
      using held_job_lease [OF ok(3)] by blast
    moreover have "bj_claim_sequence c' \<noteq> bj_claim_sequence c" using lt by simp
    ultimately show False using jobs.fenced [OF i1 l1 st13 l3 _ assms(6)] by blast
  qed
  with lt lost_token show ?thesis by (simp add: renew_lease_eq [OF ok(3)])
qed

theorem stale_claim_fenced_witness:
  "\<exists>c db. claim_next ''w2'' 100 310 None (\<lambda>_. False) sample_requeued_db = Inr (Some c, db) \<and>
     job_complete 7 1 ''w1'' 150 db = Inr (False, db)"
proof -
  obtain c db where c: "claim_next ''w2'' 100 310 None (\<lambda>_. False) sample_requeued_db = Inr (Some c, db)" "bj_id c = 7"
    using sample_second_claim by blast
  have "queue_step\<^sup>*\<^sup>* (sample_claimed_db, {7}) (sample_requeued_db, {7})"
    using s_recover [OF sample_recover, of "{7}"] by simp
  moreover have "bj_id c = bj_id sample_claimed" "bj_id sample_claimed = 7" "bj_claim_sequence sample_claimed = 1"
    using c(2) by (simp_all add: sample_claimed_def new_job_def)
  ultimately show ?thesis
    using stale_claim_fenced [OF sample_reachable sample_claim _ c(1), of "{7}" db "{7}"] c(1) by auto
qed

lemma claim_next_spec:
  assumes ok: "db_ok db" and v: "validate_lease w d = Inr ()"
    and room: "\<forall>j \<in> set (db_jobs db). bj_claim_sequence j < i64_max"
    and S: "S = {j \<in> set (db_jobs db). claimable now scope j \<and> \<not> locked (bj_id j)}"
  shows "(S = {} \<longrightarrow> claim_next w d now scope locked db = Inr (None, db)) \<and>
    (S \<noteq> {} \<longrightarrow> (\<exists>j \<in> S. (\<forall>k \<in> S. claim_order j \<le> claim_order k) \<and>
       (let c = j\<lparr>bj_status := bj_STATUS_RUNNING, bj_attempts := bj_attempts j + 1,
                  bj_claim_sequence := bj_claim_sequence j + 1, bj_lease_owner := Some w,
                  bj_lease_until := Some (now + d), bj_updated_at := now, bj_completed_at := None\<rparr>;
            a = \<lparr>at_job_id = bj_id j, at_sequence = bj_claim_sequence j + 1,
                 at_available_at = bj_available_at j, at_started_at = now, at_finished_at = None,
                 at_closed_at = None, at_outcome = ''running''\<rparr>
        in claim_next w d now scope locked db =
           Inr (Some c, db\<lparr>db_jobs := row_put bj_id c (db_jobs db), db_attempts := a # db_attempts db\<rparr>))))"
proof -
  note set_q = claimable_query_set [of now scope locked db, folded S]
  show ?thesis
  proof (cases "claimable_query now scope locked db")
    case Nil
    with set_q have "S = {}" by simp
    with Nil v show ?thesis by (simp add: claim_next_def)
  next
    case (Cons j rest)
    have jS: "j \<in> S" using set_q Cons by auto
    then have j: "j \<in> set (db_jobs db)" "claimable now scope j" using S by auto
    have jok: "job_ok j" "history_ok (db_attempts db) j" using ok j(1) by (auto simp: db_ok_def core_ok_def)
    have "sorted (map claim_order (j # rest))"
      unfolding Cons [symmetric] claimable_query_def by simp
    moreover have "S = set (j # rest)" using set_q Cons by simp
    ultimately have least: "\<forall>k \<in> S. claim_order j \<le> claim_order k" by auto
    have q: "next_sequence (bj_claim_sequence j) = Inr (bj_claim_sequence j + 1)"
      using jok(1) room j(1)
      by (auto simp: next_sequence_def checked_add_i64_def job_ok_def ck_bg_job_attempt_budget_def width_defs)
    have at: "checked_add_i32 (bj_attempts j) 1 = Some (bj_attempts j + 1)"
      using jok(1) by (auto simp: checked_add_i32_def job_ok_def ck_bg_job_attempt_budget_def width_defs)
    have fresh: "\<not> (\<exists>a \<in> set (db_attempts db). at_job_id a = bj_id j \<and> at_sequence a = bj_claim_sequence j + 1)"
    proof
      assume "\<exists>a \<in> set (db_attempts db). at_job_id a = bj_id j \<and> at_sequence a = bj_claim_sequence j + 1"
      then have "\<exists>a \<in> set (db_attempts db). attempt_key a = (bj_id j, bj_claim_sequence j + 1)" by simp
      with jok(2) have "bj_claim_sequence j + 1 \<le> bj_claim_sequence j" unfolding history_ok_def by blast
      then show False by simp
    qed
    have st: "start_attempt j (bj_claim_sequence j + 1) now db = Inr (db\<lparr>db_attempts :=
        \<lparr>at_job_id = bj_id j, at_sequence = bj_claim_sequence j + 1, at_available_at = bj_available_at j,
         at_started_at = now, at_finished_at = None, at_closed_at = None,
         at_outcome = ''running''\<rparr> # db_attempts db\<rparr>)"
      using j(2) jok(1) q fresh by (auto simp: start_attempt_def claimable_def job_ok_def)
    have "S \<noteq> {}" using jS by blast
    moreover have "claim_next w d now scope locked db = Inr (Some (j\<lparr>bj_status := bj_STATUS_RUNNING,
          bj_attempts := bj_attempts j + 1, bj_claim_sequence := bj_claim_sequence j + 1,
          bj_lease_owner := Some w, bj_lease_until := Some (now + d), bj_updated_at := now,
          bj_completed_at := None\<rparr>),
        db\<lparr>db_jobs := row_put bj_id (j\<lparr>bj_status := bj_STATUS_RUNNING,
          bj_attempts := bj_attempts j + 1, bj_claim_sequence := bj_claim_sequence j + 1,
          bj_lease_owner := Some w, bj_lease_until := Some (now + d), bj_updated_at := now,
          bj_completed_at := None\<rparr>) (db_jobs db),
          db_attempts := \<lparr>at_job_id = bj_id j, at_sequence = bj_claim_sequence j + 1,
            at_available_at = bj_available_at j, at_started_at = now, at_finished_at = None,
            at_closed_at = None, at_outcome = ''running''\<rparr> # db_attempts db\<rparr>)"
      by (simp add: claim_next_def v Cons at q st Let_def put_job_def)
    ultimately show ?thesis using jS least by (auto simp: Let_def)
  qed
qed

lemma claim_order_le:
  "claim_order j \<le> claim_order k \<longleftrightarrow>
     bj_priority k < bj_priority j \<or>
     bj_priority k = bj_priority j \<and>
       (bj_available_at j < bj_available_at k \<or>
        bj_available_at j = bj_available_at k \<and> bj_id j \<le> bj_id k)"
  by (auto simp: claim_order_def less_eq_prod_def)

text \<open>
  C21. Claiming picks exactly the right job: if no unlocked job in the executor's range is due and
  within its budget, nothing is claimed and nothing changes; otherwise the claimed job is the one
  of highest priority, then earliest availability, then smallest identifier, it is returned
  running under its next claim number with one attempt more and a lease of the given length, its
  attempt row is opened, and no other row changes.
\<close>

theorem claim_next_exact:
  assumes "reachable (db, U)" and v: "validate_lease w d = Inr ()"
    and room: "\<forall>j \<in> set (db_jobs db). bj_claim_sequence j < i64_max"
    and S: "S = {j \<in> set (db_jobs db). claimable now scope j \<and> \<not> locked (bj_id j)}"
  shows "(S = {} \<longrightarrow> claim_next w d now scope locked db = Inr (None, db)) \<and>
    (S \<noteq> {} \<longrightarrow> (\<exists>j \<in> S.
       (\<forall>k \<in> S. bj_priority k < bj_priority j \<or>
          bj_priority k = bj_priority j \<and>
            (bj_available_at j < bj_available_at k \<or>
             bj_available_at j = bj_available_at k \<and> bj_id j \<le> bj_id k)) \<and>
       (let c = j\<lparr>bj_status := bj_STATUS_RUNNING, bj_attempts := bj_attempts j + 1,
                  bj_claim_sequence := bj_claim_sequence j + 1, bj_lease_owner := Some w,
                  bj_lease_until := Some (now + d), bj_updated_at := now, bj_completed_at := None\<rparr>;
            a = \<lparr>at_job_id = bj_id j, at_sequence = bj_claim_sequence j + 1,
                 at_available_at = bj_available_at j, at_started_at = now, at_finished_at = None,
                 at_closed_at = None, at_outcome = ''running''\<rparr>
        in claim_next w d now scope locked db =
           Inr (Some c, db\<lparr>db_jobs := row_put bj_id c (db_jobs db), db_attempts := a # db_attempts db\<rparr>))))"
  unfolding claim_order_le [symmetric]
  by (rule claim_next_spec [OF _ v room S]) (use reachable_inv [OF assms(1)] in \<open>simp add: queue_inv_def\<close>)

theorem claim_next_exact_witness:
  "claim_next ''w1'' 100 120 None (\<lambda>_. False) sample_db = Inr (Some sample_claimed, sample_claimed_db) \<and>
   claim_next ''w1'' 100 99 None (\<lambda>_. False) sample_db = Inr (None, sample_db)"
proof -
  have room: "\<forall>j \<in> set (db_jobs sample_db). bj_claim_sequence j < i64_max"
    by (simp add: sample_db_def new_job_def width_defs)
  have "{j \<in> set (db_jobs sample_db). claimable 99 None j \<and> \<not> False} = {}"
    by (auto simp: sample_db_def claimable_def new_job_def sample_command_def)
  with claim_next_exact [OF sample_reachable sample_lease_valid(1) room refl, of 99 None "\<lambda>_. False"]
  show ?thesis using sample_claim by simp
qed

end
