(* ===== verification/Job_Guarantees.thy ===== *)
theory Job_Guarantees
  imports Job_Properties
begin

text \<open>
  What the queue guarantees to its callers: recovery handles exactly the expired leases and
  succeeds on jobs without a linked row, a dedupe key names one job, the final state of a linked row is never overwritten, and a
  manual retry is confined to the caller's tenant.
\<close>

section \<open>Recovery\<close>

text \<open>
  C26. A recovery that commits handled exactly the expired leases it saw, at most 500 of them: the
  counters add up, no other job changes, and unless the batch was full every expired job has left
  the running state and, when it was requeued, is available at once and still has budget.
\<close>

theorem recover_exact:
  assumes "reachable (db, U)" and r: "recover_expired_leases now scope locked db = Inr (rec, db')"
    and E: "E = {j \<in> set (db_jobs db). lease_expired now scope j \<and> \<not> locked (bj_id j)}"
  shows "total rec = min 500 (card E) \<and>
    (\<forall>i. i \<notin> bj_id ` E \<longrightarrow> find_by_id i db' = find_by_id i db) \<and>
    (card E \<le> 500 \<longrightarrow> (\<forall>j \<in> E. \<exists>j'. find_by_id (bj_id j) db' = Some j' \<and>
       bj_status j' \<noteq> bj_STATUS_RUNNING \<and>
       (bj_status j' = bj_STATUS_PENDING \<longrightarrow> bj_attempts j < bj_max_attempts j \<and> bj_available_at j' = now)))"
proof -
  have ok: "db_ok db" using reachable_inv [OF assms(1)] by (simp add: queue_inv_def)
  let ?L = "filter (\<lambda>j. lease_expired now scope j \<and> \<not> locked (bj_id j)) (db_jobs db)"
  have "distinct (db_jobs db)" using ok by (auto simp: db_ok_def core_ok_def unique_key_def distinct_map)
  then have card: "card E = length ?L"
    unfolding E by (metis distinct_card distinct_filter set_filter)
  have len: "length (expired_query now scope locked db) = min 500 (card E)"
    by (simp add: expired_query_def card)
  have sub: "set (expired_query now scope locked db) \<subseteq> E"
    unfolding E expired_query_def by (auto dest: in_set_takeD)
  have all: "set (expired_query now scope locked db) = E" if "card E \<le> 500"
    using that unfolding E expired_query_def card [unfolded E] by simp
  note R = recover_ok [OF ok r]
  have "bj_status j' \<noteq> bj_STATUS_RUNNING \<and>
      (bj_status j' = bj_STATUS_PENDING \<longrightarrow> bj_attempts j < bj_max_attempts j \<and> bj_available_at j' = now)"
    if "settles j j'" "j' = recovered_job now j \<or> bj_is_terminal j'" for j j'
    using that by (auto simp: settles_def recovered_job_def Let_def bj_is_terminal_def not_le split: if_splits)
  note left_running = this
  show ?thesis
  proof (intro conjI allI impI ballI)
    show "total rec = min 500 (card E)" using R len by simp
    fix i
    assume "i \<notin> bj_id ` E"
    with sub have "i \<notin> bj_id ` set (expired_query now scope locked db)" by blast
    with R show "find_by_id i db' = find_by_id i db" by blast
  next
    fix j
    assume "card E \<le> 500" "j \<in> E"
    with all have "j \<in> set (expired_query now scope locked db)" by simp
    with R obtain j' where "find_by_id (bj_id j) db' = Some j'" "settles j j'"
      "j' = recovered_job now j \<or> bj_is_terminal j'" by blast
    with left_running show "\<exists>j'. find_by_id (bj_id j) db' = Some j' \<and> bj_status j' \<noteq> bj_STATUS_RUNNING \<and>
       (bj_status j' = bj_STATUS_PENDING \<longrightarrow> bj_attempts j < bj_max_attempts j \<and> bj_available_at j' = now)"
      by blast
  qed
qed

theorem recover_exact_witness:
  "total \<lparr>requeued = 1, dead = 0, completed = 0\<rparr> = min 500 (card {j \<in> set (db_jobs sample_claimed_db).
     lease_expired 300 None j \<and> \<not> False})"
  using recover_exact [OF sample_claimed_reachable sample_recover refl] by blast

definition linked_job_types :: "string set" where
  "linked_job_types = {USER_IMPORT_JOB_TYPE, EXPORT_JOB_TYPE, DATA_RETENTION_JOB_TYPE,
     TENANT_CONFIG_EXPORT_JOB_TYPE, TENANT_CONFIG_PREVIEW_JOB_TYPE, TENANT_CONFIG_APPLY_JOB_TYPE,
     TENANT_CONFIG_ROLLBACK_JOB_TYPE}"

lemma sync_unlinked:
  "bj_job_type job \<notin> linked_job_types \<Longrightarrow> sync_linked_job_state job d e now db = Inr (NotLinked, db)"
  by (simp add: linked_job_types_def sync_linked_job_state_def Let_def)

lemma finish_unlinked: "finish_from_linked_terminal job NotLinked e now db = Inr (None, db)"
  by (simp add: finish_from_linked_terminal_def)

definition started_by :: "timestamp \<Rightarrow> control_db \<Rightarrow> bool" where
  "started_by now db \<longleftrightarrow> (\<forall>a \<in> set (db_attempts db). at_started_at a \<le> now)"

lemma closable:
  assumes ok: "db_ok db" and j: "j \<in> set (db_jobs db)" "bj_status j = bj_STATUS_RUNNING"
    and st: "started_by now db"
  shows "rows_matched (open_attempt j now) (db_attempts db) = 1"
proof -
  have "open_attempt j now a \<longleftrightarrow> at_job_id a = bj_id j \<and> at_outcome a = ''running''"
    if "a \<in> set (db_attempts db)" for a
  proof -
    have "history_ok (db_attempts db) j" "ck_bg_attempt a"
      using ok j that by (auto simp: db_ok_def core_ok_def)
    with that j(2) st show ?thesis
      by (auto simp: history_ok_def open_attempt_def started_by_def ck_bg_attempt_def)
  qed
  then have "filter (open_attempt j now) (db_attempts db)
      = filter (\<lambda>a. at_job_id a = bj_id j \<and> at_outcome a = ''running'') (db_attempts db)"
    by (intro filter_cong) auto
  with attempts_count(2) [OF ok j(1)] j(2) show ?thesis by (simp add: rows_matched_def)
qed

lemma recover_loop_total:
  assumes "\<forall>j \<in> set jobs. bj_job_type j \<notin> linked_job_types \<and>
      rows_matched (open_attempt j now) (db_attempts db) = 1"
    and "distinct (map bj_id jobs)"
  shows "\<exists>acc. recover_loop now jobs (rec, db) = Inr acc"
  using assms
proof (induction jobs arbitrary: rec db)
  case (Cons j jobs)
  let ?f = "\<lambda>a. a\<lparr>at_outcome := outcome_as_str OLeaseExpired,
    at_finished_at := outcome_finished_at OLeaseExpired now, at_closed_at := Some now\<rparr>"
  obtain rec1 db1 where one: "recover_one now j (rec, db) = Inr (rec1, db1)"
    and at: "db_attempts db1 = update_where (open_attempt j now) ?f (db_attempts db)"
    using Cons.prems(1)
    by (simp add: recover_one_def close_attempt_def sync_unlinked finish_unlinked Let_def)
  have "rows_matched (open_attempt k now) (db_attempts db1) = 1" if "k \<in> set jobs" for k
  proof -
    have "bj_id k \<noteq> bj_id j" using Cons.prems(2) that by (metis distinct.simps(2) imageI list.set_map list.simps(9))
    then have "filter (open_attempt k now) (db_attempts db1) = filter (open_attempt k now) (db_attempts db)"
      unfolding at by (intro filter_update_where_other) (auto simp: open_attempt_def)
    with Cons.prems(1) that show ?thesis by (simp add: rows_matched_def)
  qed
  with Cons.prems have "\<exists>acc. recover_loop now jobs (rec1, db1) = Inr acc"
    by (intro Cons.IH) auto
  with one show ?case by simp
qed simp

lemma recovery_total:
  assumes ok: "db_ok db" and "started_by now db"
    and "\<forall>j \<in> set (db_jobs db). lease_expired now scope j \<longrightarrow> bj_job_type j \<notin> linked_job_types"
  shows "\<exists>rec db'. recover_expired_leases now scope locked db = Inr (rec, db')"
proof -
  have "bj_job_type j \<notin> linked_job_types \<and> rows_matched (open_attempt j now) (db_attempts db) = 1"
    if "j \<in> set (expired_query now scope locked db)" for j
  proof -
    note e = expired_query_jobs [OF ok that]
    have "j \<in> set (db_jobs db)" using e db_okD(1) [OF ok] by blast
    with e closable [OF ok _ _ assms(2)] assms(3) show ?thesis by (auto simp: lease_expired_def)
  qed
  then have "\<exists>acc. recover_loop now (expired_query now scope locked db)
      (\<lparr>requeued = 0, dead = 0, completed = 0\<rparr>, db) = Inr acc"
    by (intro recover_loop_total expired_query_distinct [OF ok]) blast
  then show ?thesis unfolding recover_expired_leases_def by auto
qed

text \<open>A recovery starts no attempt.\<close>

lemma recover_one_started:
  assumes "recover_one now job (rec, db) = Inr (rec', db')" "started_by t db"
  shows "started_by t db'"
proof -
  define is_dead where "is_dead = (bj_max_attempts job \<le> bj_attempts job)"
  from assms(1) obtain db1 q db2 d db3
    where cl: "close_attempt job OLeaseExpired now db = Inr db1"
      and sy: "sync_linked_job_state job (if is_dead then LDead else LRetried) (Some EXPIRED_LEASE_DEAD_ERROR) now db1
        = Inr (q, db2)"
      and fi: "finish_from_linked_terminal job q (Some EXPIRED_LEASE_DEAD_ERROR) now db2 = Inr (d, db3)"
      and db': "db_attempts db' = db_attempts db3"
    by (auto simp: recover_one_def Let_def is_dead_def put_job_def
        elim!: bind_resultE split: option.splits if_splits)
  have "started_by t db1" using cl assms(2) by (auto simp: close_attempt_Inr started_by_def set_update_where)
  moreover have "db_attempts db3 = db_attempts db1"
    using fi sync_frame [OF sy] by (cases rule: finishE) (simp_all add: put_job_def)
  ultimately show ?thesis by (simp add: started_by_def db')
qed

lemma recover_started:
  assumes "recover_expired_leases now scope locked db = Inr (rec, db')" "started_by t db"
  shows "started_by t db'"
proof -
  have "started_by t db2" if "recover_loop now jobs (r1, db1) = Inr (r2, db2)" "started_by t db1" for jobs r1 db1 r2 db2
    using that
  proof (induction jobs arbitrary: r1 db1)
    case (Cons j jobs)
    from Cons.prems(1) obtain r3 db3 where "recover_one now j (r1, db1) = Inr (r3, db3)"
        "recover_loop now jobs (r3, db3) = Inr (r2, db2)"
      by (auto elim!: bind_resultE)
    with Cons.IH recover_one_started [OF _ Cons.prems(2)] show ?case by blast
  qed simp
  with assms show ?thesis unfolding recover_expired_leases_def by blast
qed

text \<open>
  Recovery makes progress: when the expired jobs have no linked business row and no attempt
  was started in the future of the recovering process's clock, the recovery commits, so (with the
  previous property) a crashed worker's job is handed out again or buried.
\<close>

theorem recovery_commits:
  assumes "reachable (db, U)" "started_by now db"
    and "\<forall>j \<in> set (db_jobs db). lease_expired now scope j \<longrightarrow> bj_job_type j \<notin> linked_job_types"
  shows "\<exists>rec db'. recover_expired_leases now scope locked db = Inr (rec, db')"
  using recovery_total [OF _ assms(2,3)] reachable_inv [OF assms(1)] by (simp add: queue_inv_def)

theorem recovery_commits_witness:
  "\<exists>rec db'. recover_expired_leases 300 None (\<lambda>_. False) sample_claimed_db = Inr (rec, db')"
  by (rule recovery_commits [OF sample_claimed_reachable])
    (auto simp: started_by_def sample_claimed_db_def sample_claimed_def new_job_def sample_command_def
      linked_job_types_def job_type_defs)

section \<open>One job per dedupe key\<close>

lemma find_dedupe_unique:
  assumes "dedupe_unique jobs" "j \<in> set jobs" "bj_job_type j = ty" "bj_dedupe_key j = Some k"
  shows "find (\<lambda>j. bj_job_type j = ty \<and> bj_dedupe_key j = Some k) jobs = Some j"
proof (cases "find (\<lambda>j. bj_job_type j = ty \<and> bj_dedupe_key j = Some k) jobs")
  case None
  with assms(2-4) show ?thesis by (auto simp: find_None_iff)
next
  case (Some j')
  then have "j' \<in> set jobs" "bj_job_type j' = ty" "bj_dedupe_key j' = Some k"
    by (auto simp: find_Some_iff)
  with assms Some show ?thesis unfolding dedupe_unique_def by auto
qed

text \<open>
  C27. Idempotent enqueueing: after a command with a dedupe key inserted a job, every later command
  with the same type and key is answered with that very job and inserts nothing, as long as the
  job exists and whatever else happened, even if the later command did its precheck before the
  first one had inserted.
\<close>

theorem enqueue_idempotent:
  assumes "reachable (db0, U0)" and e: "enqueue_on nid c now dbp0 db0 = Inr (r, db1)" "er_inserted r"
      "bj_id (er_job r) \<notin> U0"
    and later: "queue_step\<^sup>*\<^sup>* (db1, insert (bj_id (er_job r)) U0) (db2, U2)"
      "find_by_id (bj_id (er_job r)) db2 = Some j"
    and c': "eq_dedupe_key c = Some k" "eq_dedupe_key c' = Some k" "eq_job_type c' = eq_job_type c"
      "validate_enqueue_command c' = Inr ()"
    and pre: "\<forall>j0. find_by_dedupe_key (eq_job_type c) k dbp = Some j0 \<longrightarrow> bj_id j0 = bj_id (er_job r)"
  shows "\<exists>r'. enqueue_on (Inr new_id) c' now' dbp db2 = Inr (r', db2) \<and> \<not> er_inserted r' \<and>
    bj_id (er_job r') = bj_id (er_job r)"
proof -
  let ?i = "bj_id (er_job r)"
  have i0: "queue_inv (db0, U0)" by (rule reachable_inv [OF assms(1)])
  have st: "queue_step (db0, U0) (db1, insert ?i U0)" using s_enqueue [OF e(1,3)] e(2) by simp
  have i1: "queue_inv (db1, insert ?i U0)" by (rule jobs.step_inv [OF i0 st])
  have i2: "queue_inv (db2, U2)" by (rule jobs.steps_inv [OF later(1) i1])
  have j: "j \<in> set (db_jobs db2)" "bj_id j = ?i" using db_okD(1,2) [OF _ later(2)] i2 by (auto simp: queue_inv_def)
  from e(1) have new: "find_by_id ?i db1 = Some (er_job r) \<and> bj_job_type (er_job r) = eq_job_type c \<and>
    bj_dedupe_key (er_job r) = Some k"
  proof (cases rule: enqueue_on_cases)
    case (inserted m)
    then show ?thesis
      using c'(1) by (auto simp: insert_job_Some find_by_id_def row_get_def new_job_def)
  qed (use e(2) in auto)
  have same: "bj_job_type j = eq_job_type c" "bj_dedupe_key j = Some k"
    using steps_identity [OF later(1) i1, of ?i] later(2) new by (auto simp: keeps_identity_def)
  have found: "find_by_dedupe_key (eq_job_type c) k db2 = Some j"
    unfolding find_by_dedupe_key_def
    using i2 j(1) same by (intro find_dedupe_unique) (auto simp: queue_inv_def db_ok_def core_ok_def)
  have clash: "insert_job (new_job new_id c' now') db2 = None"
    using j(1) same c' by (auto simp: insert_job_def new_job_def)
  show ?thesis
  proof (cases "find_by_dedupe_key (eq_job_type c) k dbp")
    case None
    with c' found clash j(2) show ?thesis by (simp add: enqueue_on_def)
  next
    case (Some j0)
    with c' pre show ?thesis by (simp add: enqueue_on_def)
  qed
qed

theorem enqueue_idempotent_witness:
  "\<exists>r'. enqueue_on (Inr 8) sample_command 60 empty_db sample_claimed_db = Inr (r', sample_claimed_db) \<and>
     \<not> er_inserted r' \<and> bj_id (er_job r') = 7"
proof -
  have r: "reachable (empty_db, {})" unfolding reachable_def by (intro exI [of _ empty_db]) (simp add: empty_db_def)
  have steps: "queue_step\<^sup>*\<^sup>* (sample_db, {7}) (sample_claimed_db, {7})"
    using s_claim [OF sample_claim, of "{7}"] by simp
  have v: "validate_enqueue_command sample_command = Inr ()"
    using sample_enqueue by (cases "validate_enqueue_command sample_command") (auto simp: enqueue_on_def)
  have f: "find_by_id 7 sample_claimed_db = Some sample_claimed"
    by (simp add: find_by_id_def row_get_def sample_claimed_db_def sample_claimed_def new_job_def)
  have "bj_id (new_job 7 sample_command 50) = 7" by (simp add: new_job_def)
  with enqueue_idempotent [OF r sample_enqueue, of sample_claimed_db "{7}" sample_claimed "''k1''" sample_command empty_db 8 60]
    steps f v
  show ?thesis by (simp add: sample_command_def find_by_dedupe_key_def empty_db_def)
qed

section \<open>Linked rows\<close>

lemma linked_update_final:
  assumes r: "r \<in> set rows" "link r" and only: "\<forall>r' \<in> set rows. link r' \<longrightarrow> r' = r"
    and st: "status_of r \<notin> set statuses" "terminal (status_of r) = Some t"
  shows "linked_update link status_of f statuses terminal rows = (Terminal t, rows)"
proof -
  have none: "\<forall>r' \<in> set rows. \<not> (link r' \<and> status_of r' \<in> set statuses)" using only st(1) by auto
  have "find link rows = Some r"
  proof (cases "find link rows")
    case None
    with r show ?thesis by (auto simp: find_None_iff)
  next
    case (Some r')
    with only have "r' = r" by (auto simp: find_Some_iff)
    with Some show ?thesis by simp
  qed
  moreover have "rows_matched (\<lambda>r. link r \<and> status_of r \<in> set statuses) rows = 0"
    using none by (simp add: rows_matched_0)
  moreover have "update_where (\<lambda>r. link r \<and> status_of r \<in> set statuses) f rows = rows"
    using none by (intro update_where_cong_none) auto
  ultimately show ?thesis using st by (simp add: linked_update_def classify_linked_update_def Let_def)
qed

lemma import_terminal_values:
  "import_terminal imp_STATUS_SUCCEEDED = Some BSucceeded"
  "import_terminal imp_STATUS_PARTIAL = Some BSucceeded"
  "import_terminal imp_STATUS_CANCELLED = Some BCancelled"
  by (simp_all add: import_terminal_def)

lemma import_terminal_final:
  "s \<in> {imp_STATUS_SUCCEEDED, imp_STATUS_PARTIAL, imp_STATUS_CANCELLED} \<Longrightarrow>
   \<exists>t. import_terminal s = Some t \<and> t \<noteq> BFailed"
  using import_terminal_values by (metis LinkedBusinessTerminal.distinct(5,9) empty_iff insert_iff)

lemma import_final:
  assumes ty: "bj_job_type job = USER_IMPORT_JOB_TYPE"
    and r: "r \<in> set (db_imports db)" "imp_background_job_id r = bj_id job"
      "\<forall>r' \<in> set (db_imports db). imp_background_job_id r' = bj_id job \<longrightarrow> r' = r"
    and st: "imp_status r \<in> {imp_STATUS_SUCCEEDED, imp_STATUS_PARTIAL, imp_STATUS_CANCELLED}"
    and disp: "disp \<noteq> LManuallyRetried"
  shows "\<exists>t. t \<noteq> BFailed \<and> sync_linked_job_state job disp e now db = Inr (Terminal t, db)"
proof -
  from import_terminal_final [OF st] obtain t where t: "import_terminal (imp_status r) = Some t" "t \<noteq> BFailed" by blast
  have L: "linked_update (\<lambda>r. imp_background_job_id r = bj_id job) imp_status f sts import_terminal (db_imports db)
      = (Terminal t, db_imports db)" if "imp_status r \<notin> set sts" for f sts
    by (rule linked_update_final [where link = "\<lambda>r. imp_background_job_id r = bj_id job" and
        status_of = imp_status and terminal = import_terminal, OF r that t(1)])
  have out: "imp_status r \<notin> set [imp_STATUS_PENDING, imp_STATUS_RUNNING]"
    "imp_status r \<notin> set [imp_STATUS_PENDING, imp_STATUS_RUNNING, imp_STATUS_FAILED]"
    using st by auto
  have "sync_import_job job disp err now db = (Terminal t, db)" for err
    using disp L [OF out(1)] L [OF out(2)] by (cases disp) (simp_all add: sync_import_job_def)
  with ty t(2) show ?thesis by (simp add: sync_linked_job_state_def Let_def)
qed

text \<open>
  The business state is authoritative: when the worker of an import job reports a failure but
  the import has already succeeded, been completed in part or been cancelled, the job is closed as
  completed, whatever budget is left, and no business row of any kind changes.
\<close>

theorem finished_import_closes_job:
  assumes "reachable (db, U)" "started_by (fb_now c) db"
    and held: "held_job (fb_job_id c) (fb_claim_sequence c) (fb_worker_id c) (fb_now c) db = Some job"
    and ty: "bj_job_type job = USER_IMPORT_JOB_TYPE"
    and r: "r \<in> set (db_imports db)" "imp_background_job_id r = bj_id job"
      "\<forall>r' \<in> set (db_imports db). imp_background_job_id r' = bj_id job \<longrightarrow> r' = r"
      "imp_status r \<in> {imp_STATUS_SUCCEEDED, imp_STATUS_PARTIAL, imp_STATUS_CANCELLED}"
  shows "\<exists>db' job'. fail_job c db = Inr (Completed, db') \<and>
    find_by_id (bj_id job) db' = Some job' \<and> bj_status job' = bj_STATUS_SUCCEEDED \<and>
    bj_lease_owner job' = None \<and> bj_last_error job' = bj_last_error job \<and>
    db_imports db' = db_imports db \<and> db_exports db' = db_exports db \<and>
    db_retention_runs db' = db_retention_runs db \<and> db_bundles db' = db_bundles db \<and>
    db_transfers db' = db_transfers db"
proof -
  have ok: "db_ok db" using reachable_inv [OF assms(1)] by (simp add: queue_inv_def)
  note h = held_jobD [OF held]
  define is_dead where "is_dead = (fb_force_dead c \<or> bj_max_attempts job \<le> bj_attempts job)"
  obtain db1 where cl: "close_attempt job (if is_dead then ODead else OFailed) (fb_now c) db = Inr db1"
    and db1: "db_jobs db1 = db_jobs db" "db_imports db1 = db_imports db" "db_exports db1 = db_exports db"
      "db_retention_runs db1 = db_retention_runs db" "db_bundles db1 = db_bundles db"
      "db_transfers db1 = db_transfers db"
    using closable [OF ok db_okD(1) [OF ok h(1)] h(2) assms(2)] by (simp add: close_attempt_def)
  have disp: "(if is_dead then LDead else LRetried) \<noteq> LManuallyRetried" by simp
  obtain t where t: "t \<noteq> BFailed" and sy: "sync_linked_job_state job (if is_dead then LDead else LRetried)
      (Some (fb_error_message c)) (fb_now c) db1 = Inr (Terminal t, db1)"
    using import_final [OF ty, of r db1, unfolded db1(2), OF r disp] by blast
  define job' where "job' = job\<lparr>bj_status := bj_STATUS_SUCCEEDED, bj_available_at := fb_now c,
    bj_lease_owner := None, bj_lease_until := None, bj_last_error := bj_last_error job,
    bj_updated_at := fb_now c, bj_completed_at := Some (fb_now c)\<rparr>"
  have fi: "finish_from_linked_terminal job (Terminal t) (Some (fb_error_message c)) (fb_now c) db1
      = Inr (Some Completed, put_job job' db1)"
    using t by (cases t) (simp_all add: finish_from_linked_terminal_def job'_def)
  have "fail_job c db = Inr (Completed, put_job job' db1)"
    using held cl sy fi by (simp add: fail_job_def Let_def is_dead_def)
  moreover have "find_by_id (bj_id job) (put_job job' db1) = Some job'"
    using h(1) db_okD(2) [OF ok h(1)] db1(1) by (simp add: find_by_id_def row_get_row_put job'_def)
  ultimately show ?thesis using db1 by (auto simp: job'_def put_job_def)
qed

text \<open>A reachable state for the witnesses: a claimed import job whose import was cancelled.\<close>

definition import_command :: EnqueueBackgroundJob where
  "import_command = sample_command\<lparr>eq_job_type := USER_IMPORT_JOB_TYPE\<rparr>"

definition import_row :: user_import_job where
  "import_row = \<lparr>imp_id = 3, imp_tenant_id = ''acme'', imp_requester_user_id = 1, imp_background_job_id = 7,
     imp_idempotency_key_hash = ''h'', imp_source_file_id = 4, imp_source_name_snapshot = ''a.csv'',
     imp_source_sha256 = ''s'', imp_duplicate_policy = imp_DUPLICATE_SKIP_EXISTING,
     imp_status = imp_STATUS_CANCELLED, imp_total_rows = 2, imp_processed_rows = 1,
     imp_success_count = 1, imp_skipped_count = 0, imp_failure_count = 0, imp_cancel_requested = True,
     imp_error_report_file_id = None, imp_last_error = None, imp_started_at = Some 100,
     imp_completed_at = Some 130, imp_created_at = 50, imp_updated_at = 130\<rparr>"

definition import_job :: background_job where
  "import_job = sample_claimed\<lparr>bj_job_type := USER_IMPORT_JOB_TYPE\<rparr>"

definition import_db :: "user_import_job list \<Rightarrow> control_db" where
  "import_db rows = sample_claimed_db\<lparr>db_jobs := [import_job], db_imports := rows\<rparr>"

lemma import_reachable: "reachable (import_db rows, {7})"
proof -
  let ?db0 = "empty_db\<lparr>db_jobs := [new_job 7 import_command 50]\<rparr>"
  have "trim USER_IMPORT_JOB_TYPE = USER_IMPORT_JOB_TYPE"
    by (rule trim_graphic) (simp add: USER_IMPORT_JOB_TYPE_def is_ascii_graphic_def)
  then have e: "enqueue_on (Inr 7) import_command 50 empty_db empty_db =
      Inr (\<lparr>er_job = new_job 7 import_command 50, er_inserted = True\<rparr>, ?db0)"
    by (simp add: enqueue_on_def validate_enqueue_command_def import_command_def sample_command_def opt_check_def
        find_by_dedupe_key_def empty_db_def insert_job_def USER_IMPORT_JOB_TYPE_def)
  have c: "claim_next ''w1'' 100 120 None (\<lambda>_. False) ?db0 = Inr (Some import_job, import_db [])"
    by (simp add: claim_next_def sample_lease_valid claimable_query_def claimable_def sample_defs
        import_command_def import_job_def import_db_def etf_condition_def checked_add_i32_def width_defs
        next_sequence_def checked_add_i64_def start_attempt_def put_job_def row_put_def update_where_def Let_def)
  have "queue_step (empty_db, {}) (?db0, {7})" using s_enqueue [OF e, of "{}"] by (simp add: new_job_def)
  moreover have "queue_step (?db0, {7}) (import_db [], {7})" using c by (rule s_claim)
  moreover have "queue_step (import_db [], {7}) (import_db rows, {7})"
    by (rule s_business) (simp_all add: import_db_def)
  ultimately have "queue_step\<^sup>*\<^sup>* (empty_db, {}) (import_db rows, {7})"
    by (meson rtranclp.rtrancl_into_rtrancl rtranclp.rtrancl_refl)
  then show ?thesis unfolding reachable_def by (intro exI [of _ empty_db]) (simp add: empty_db_def)
qed

lemma import_db_facts:
  "db_jobs (import_db rows) = [import_job]" "db_imports (import_db rows) = rows"
  "db_attempts (import_db rows) = db_attempts sample_claimed_db"
  "bj_id import_job = 7" "bj_job_type import_job = USER_IMPORT_JOB_TYPE"
  "bj_status import_job = bj_STATUS_RUNNING" "bj_claim_sequence import_job = 1"
  "bj_lease_owner import_job = Some ''w1''" "bj_lease_until import_job = Some 220"
  by (simp_all add: import_db_def import_job_def sample_claimed_def new_job_def)

definition import_failure :: FailBackgroundJob where
  "import_failure = \<lparr>fb_job_id = 7, fb_claim_sequence = 1, fb_worker_id = ''w1'', fb_retry_at = 500,
     fb_error_message = ''io'', fb_force_dead = False, fb_now = 150\<rparr>"

theorem finished_import_closes_job_witness:
  "\<exists>db' job'. fail_job import_failure (import_db [import_row]) = Inr (Completed, db') \<and>
     find_by_id 7 db' = Some job' \<and> bj_status job' = bj_STATUS_SUCCEEDED \<and>
     db_imports db' = [import_row]"
proof -
  have "held_job (fb_job_id import_failure) (fb_claim_sequence import_failure) (fb_worker_id import_failure)
      (fb_now import_failure) (import_db [import_row]) = Some import_job"
    by (simp add: held_job_def owned_running_query_def find_by_id_def row_get_def lease_over_def
        import_failure_def import_db_facts)
  moreover have "started_by (fb_now import_failure) (import_db [import_row])"
    by (simp add: started_by_def import_db_facts sample_claimed_db_def import_failure_def)
  ultimately have "\<exists>db' job'. fail_job import_failure (import_db [import_row]) = Inr (Completed, db') \<and>
    find_by_id (bj_id import_job) db' = Some job' \<and> bj_status job' = bj_STATUS_SUCCEEDED \<and>
    bj_lease_owner job' = None \<and> bj_last_error job' = bj_last_error import_job \<and>
    db_imports db' = db_imports (import_db [import_row]) \<and> db_exports db' = db_exports (import_db [import_row]) \<and>
    db_retention_runs db' = db_retention_runs (import_db [import_row]) \<and>
    db_bundles db' = db_bundles (import_db [import_row]) \<and>
    db_transfers db' = db_transfers (import_db [import_row])"
    by (intro finished_import_closes_job [OF import_reachable, where r = import_row])
      (simp_all add: import_db_facts import_row_def)
  then show ?thesis by (auto simp: import_db_facts)
qed

lemma imports_links_sync:
  assumes "sync_linked_job_state job d e now db = Inr (q, db')"
  shows "map imp_background_job_id (db_imports db') = map imp_background_job_id (db_imports db)"
proof (cases "bj_job_type job = USER_IMPORT_JOB_TYPE")
  case True
  with assms show ?thesis
    by (auto simp: sync_linked_job_state_def Let_def sync_import_job_def linked_update_def case_prod_beta
        intro!: map_update_where)
next
  case False
  have "db_imports db2 = db_imports db1" if "ensure_retention_run job now db1 = Inr db2" for db1 db2
    using that by (auto simp: ensure_retention_run_def insert_run_if_missing_def Let_def
        split: option.splits if_splits)
  with assms False show ?thesis
    by (auto simp: sync_linked_job_state_def Let_def sync_export_job_def sync_retention_job_def
        sync_config_bundle_def sync_config_transfer_state_def case_prod_beta
        split: if_splits option.splits elim!: bind_resultE)
qed

lemma imports_links_recover:
  assumes "recover_one now job (rec, db) = Inr (rec', db')"
  shows "map imp_background_job_id (db_imports db') = map imp_background_job_id (db_imports db)"
proof -
  define is_dead where "is_dead = (bj_max_attempts job \<le> bj_attempts job)"
  from assms obtain db1 q db2 d db3
    where cl: "close_attempt job OLeaseExpired now db = Inr db1"
      and sy: "sync_linked_job_state job (if is_dead then LDead else LRetried)
        (Some EXPIRED_LEASE_DEAD_ERROR) now db1 = Inr (q, db2)"
      and fi: "finish_from_linked_terminal job q (Some EXPIRED_LEASE_DEAD_ERROR) now db2 = Inr (d, db3)"
      and db': "db_imports db' = db_imports db3"
    by (auto simp: recover_one_def Let_def is_dead_def put_job_def
        elim!: bind_resultE split: option.splits if_splits)
  have "db_imports db1 = db_imports db" using cl by (auto simp: close_attempt_Inr)
  moreover have "db_imports db3 = db_imports db2"
    using fi by (cases rule: finishE) (simp_all add: put_job_def)
  ultimately show ?thesis using imports_links_sync [OF sy] db' by simp
qed

lemma recover_orphan:
  assumes "j \<in> set jobs" "bj_job_type j = USER_IMPORT_JOB_TYPE"
    and "bj_id j \<notin> set (map imp_background_job_id (db_imports db))"
  shows "\<exists>e. recover_loop now jobs (rec, db) = Inl e"
  using assms
proof (induction jobs arbitrary: rec db)
  case (Cons k jobs)
  show ?case
  proof (cases "recover_one now k (rec, db)")
    case (Inr acc)
    obtain rec1 db1 where acc: "acc = (rec1, db1)" by (cases acc)
    note links = imports_links_recover [OF Inr [unfolded acc]]
    have "k \<noteq> j"
    proof
      assume "k = j"
      have none: "\<forall>r \<in> set (db_imports db). imp_background_job_id r \<noteq> bj_id j"
        using Cons.prems(3) by (metis imageI list.set_map)
      have sync: "\<exists>db2. sync_linked_job_state j d e now db' = Inr (SyncConflict, db2)"
        if "db_imports db' = db_imports db" for d e db'
      proof -
        have "linked_update (\<lambda>r. imp_background_job_id r = bj_id j) imp_status f sts import_terminal (db_imports db')
            = (SyncConflict, db_imports db')" for f sts
          using none unfolding that
          by (auto simp: linked_update_def Let_def rows_matched_def filter_empty_conv
              classify_linked_update_def find_None_iff intro!: update_where_cong_none split: option.splits)
            (metis (mono_tags, lifting) find_None_iff option.distinct(1) update_where_cong_none)+
        with Cons.prems(2) show ?thesis
          by (auto simp: sync_linked_job_state_def Let_def sync_import_job_def case_prod_beta)
      qed
      have "\<exists>e. recover_one now j (rec, db) = Inl e"
      proof (cases "close_attempt j OLeaseExpired now db")
        case (Inr db1)
        then have "db_imports db1 = db_imports db" by (auto simp: close_attempt_Inr)
        from sync [OF this] obtain db2
          where "sync_linked_job_state j (if bj_max_attempts j \<le> bj_attempts j then LDead else LRetried)
            (Some EXPIRED_LEASE_DEAD_ERROR) now db1 = Inr (SyncConflict, db2)" by blast
        with Inr show ?thesis by (simp add: recover_one_def Let_def finish_from_linked_terminal_def)
      qed (simp add: recover_one_def Let_def)
      with Inr \<open>k = j\<close> show False by simp
    qed
    with Cons.prems(1) have "j \<in> set jobs" by simp
    with Cons.IH [OF this Cons.prems(2), of db1 rec1] links Cons.prems(3) Inr acc show ?thesis by simp
  qed simp
qed simp

text \<open>
  One orphan stops recovery: if an expired import job in the batch has lost its import row,
  the whole recovery ends in an error and every lease in the batch stays as it is, however often
  the recovery is repeated while the orphan is in the batch.
\<close>

theorem orphan_blocks_recovery:
  assumes "j \<in> set (expired_query now scope locked db)" "bj_job_type j = USER_IMPORT_JOB_TYPE"
    and "\<forall>r \<in> set (db_imports db). imp_background_job_id r \<noteq> bj_id j"
  shows "\<exists>e. recover_expired_leases now scope locked db = Inl e"
  unfolding recover_expired_leases_def using assms by (intro recover_orphan) auto

theorem orphan_blocks_recovery_witness:
  "reachable (import_db [], {7}) \<and> (\<exists>e. recover_expired_leases 300 None (\<lambda>_. False) (import_db []) = Inl e)"
proof -
  have "import_job \<in> set (expired_query 300 None (\<lambda>_. False) (import_db []))"
    by (simp add: expired_query_def import_db_facts lease_expired_def opt_check_def etf_condition_def)
  from orphan_blocks_recovery [OF this] show ?thesis
    using import_reachable by (simp add: import_db_facts)
qed

section \<open>Manual retry\<close>

text \<open>
  A manual retry that changes anything was for a dead job that belongs to the caller's tenant
  (or to the platform, when the caller may see it), and for a configuration job the caller is the
  user who requested that bundle or transfer; a granted retry leaves the job pending and due with
  a fresh attempt budget and the same claim number.
\<close>

theorem retry_dead_confined:
  assumes "reachable (db, U)" "retry_dead tn pl i u now db = Inr (d, db')" "db' \<noteq> db"
  shows "\<exists>job. find_by_id i db = Some job \<and> bj_status job = bj_STATUS_DEAD \<and>
    (bj_tenant_id job = Some tn \<or> pl \<and> bj_tenant_id job = None) \<and>
    (is_tenant_config_job (bj_job_type job) \<longrightarrow> is_tenant_config_job_owner db job tn u) \<and>
    (d = Retried now \<longrightarrow> (\<exists>job'. find_by_id i db' = Some job' \<and> bj_status job' = bj_STATUS_PENDING \<and>
       bj_attempts job' = 0 \<and> bj_available_at job' = now \<and>
       bj_claim_sequence job' = bj_claim_sequence job))"
  using assms(2)
proof (cases rule: retry_deadE)
  case (retried job r db1 d2 db2)
  have ok: "db_ok db" using reachable_inv [OF assms(1)] by (simp add: queue_inv_def)
  have "bj_id job = i" using db_okD(2) [OF ok retried(1)] .
  moreover have "db_jobs db2 = db_jobs db" if "d2 = None"
    using retried(6) that sync_frame [OF retried(5)] by (auto elim: finishE)
  ultimately have "\<exists>job'. find_by_id i db' = Some job' \<and> bj_status job' = bj_STATUS_PENDING \<and>
       bj_attempts job' = 0 \<and> bj_available_at job' = now \<and>
       bj_claim_sequence job' = bj_claim_sequence job" if "d = Retried now"
  proof -
    have "d2 = None" using retried(6,8) that by (auto elim!: finishE split: if_splits)
    with \<open>d2 = None \<Longrightarrow> db_jobs db2 = db_jobs db\<close> retried(1,7) \<open>bj_id job = i\<close> show ?thesis
      by (simp add: find_by_id_def row_get_row_put)
  qed
  with retried show ?thesis by (auto simp: tenant_visible_def)
qed (use assms(3) in simp)

theorem retry_dead_confined_witness:
  "\<exists>db1 db2. dead_letter 7 1 ''w1'' ''no handler'' 150 sample_claimed_db = Inr (Dead, db1) \<and>
     retry_dead ''acme'' False 7 1 200 db1 = Inr (Retried 200, db2) \<and>
     (\<exists>job'. find_by_id 7 db2 = Some job' \<and> bj_attempts job' = 0) \<and>
     retry_dead ''other'' False 7 1 200 db1 = Inr (LeaseLost, db1)"
proof -
  have tr: "truncate_error ''no handler'' = ''no handler''" by (simp add: truncate_error_def)
  obtain db1 where d: "dead_letter 7 1 ''w1'' ''no handler'' 150 sample_claimed_db = Inr (Dead, db1)"
    and db1: "db1 = sample_claimed_db\<lparr>
      db_jobs := [sample_claimed\<lparr>bj_status := bj_STATUS_DEAD, bj_lease_owner := None, bj_lease_until := None,
        bj_last_error := Some ''no handler'', bj_updated_at := 150, bj_completed_at := Some 150\<rparr>],
      db_attempts := [\<lparr>at_job_id = 7, at_sequence = 1, at_available_at = 100, at_started_at = 120,
        at_finished_at = Some 150, at_closed_at = Some 150, at_outcome = ''dead''\<rparr>]\<rparr>"
    by (simp add: dead_letter_def held_job_def owned_running_query_def find_by_id_def row_get_def
        lease_over_def sample_defs close_attempt_def rows_matched_def open_attempt_def update_where_def
        sync_linked_job_state_def job_type_defs Let_def finish_from_linked_terminal_def put_job_def
        row_put_def outcome_finished_at_def tr)
  have re: "reachable (db1, {7})"
    using sample_claimed_reachable s_dead_letter [OF d, of "{7}"]
    unfolding reachable_def by (meson rtranclp.rtrancl_into_rtrancl)
  obtain db2 where r: "retry_dead ''acme'' False 7 1 200 db1 = Inr (Retried 200, db2)" and ne: "db2 \<noteq> db1"
    by (simp add: retry_dead_def db1 find_by_id_def row_get_def sample_defs tenant_visible_def
        is_tenant_config_job_def job_type_defs sync_linked_job_state_def Let_def
        finish_from_linked_terminal_def put_job_def row_put_def update_where_def)
  have "retry_dead ''other'' False 7 1 200 db1 = Inr (LeaseLost, db1)"
    by (simp add: retry_dead_def db1 find_by_id_def row_get_def sample_defs tenant_visible_def)
  with retry_dead_confined [OF re r ne] d r show ?thesis by auto
qed

end
