(* ===== verification/Workers.thy ===== *)
theory Workers
  imports Job_Properties
begin

text \<open>
  The worker of the job queue (\<open>ryframe-application/src/jobs/worker\<close>, \<open>jobs/backoff.rs\<close>,
  \<open>runtime_policy.rs\<close>): its delays and policy, the lease heartbeat around a running handler, and one
  round of claiming, running and settling a job. Other processes change the database while a worker
  runs; what they do before each call of the worker is a function of the database.
\<close>

section \<open>Delays\<close>

text \<open>Database times are in microseconds, local waits in nanoseconds.\<close>

definition retry_delay :: "int \<Rightarrow> duration" where
  "retry_delay attempts =
     (let exponent = nat (max 0 (min 6 (saturating_sub_i32 attempts 1)))
      in min (5 * 2 ^ exponent) 300 * 1000000)"

definition DURATION_MAX :: nat where "DURATION_MAX = (2 ^ 64 - 1) * 10 ^ 9 + 999999999"

definition duration_saturating_mul :: "nat \<Rightarrow> nat \<Rightarrow> nat" where
  "duration_saturating_mul d k = min (d * k) DURATION_MAX"

definition infrastructure_retry_delay :: "nat \<Rightarrow> nat \<Rightarrow> nat" where
  "infrastructure_retry_delay poll_interval consecutive_failures =
     (let exponent = min (consecutive_failures - 1) 30
      in min (duration_saturating_mul poll_interval (2 ^ exponent)) (30 * 10 ^ 9))"

definition next_idle_wait :: "nat \<Rightarrow> nat \<Rightarrow> nat \<Rightarrow> nat" where
  "next_idle_wait current min_interval max_interval =
     (if max_interval \<le> current then max_interval
      else min max_interval (max min_interval (duration_saturating_mul current 2)))"

text \<open>\<open>as i64\<close> of a \<open>u128\<close> wraps; integer division truncates.\<close>

definition wrap_i64 :: "nat \<Rightarrow> int" where
  "wrap_i64 n = (let m = int n mod 2 ^ 64 in if m < 2 ^ 63 then m else m - 2 ^ 64)"

definition div_trunc :: "int \<Rightarrow> int \<Rightarrow> int" where
  "div_trunc a b = (if a < 0 then - ((- a) div b) else a div b)"

definition jittered_delay :: "nat \<Rightarrow> nat \<Rightarrow> nat" where
  "jittered_delay subsec_nanos base =
     (let base_ms = wrap_i64 (max (base div 10 ^ 6) 1);
          jitter = div_trunc base_ms 5
      in if jitter = 0 then base
         else
           let offset = int subsec_nanos mod \<bar>2 * jitter + 1\<bar> - jitter;
               actual = max (max i64_min (min i64_max (base_ms + offset))) 1
           in nat actual * 10 ^ 6)"

section \<open>Policy and worker\<close>

record JobWorkerPolicy =
  jp_worker_prefix :: "string option"
  jp_lease_duration :: duration
  jp_heartbeat_interval :: nat
  jp_poll_interval :: nat
  jp_max_idle_poll_interval :: nat
  jp_lease_recovery_interval :: nat
  jp_concurrency :: nat

text \<open>\<open>chrono::Duration::seconds\<close> panics above \<open>i64::MAX / 1000\<close>; the outcome is then \<open>None\<close>.\<close>

definition CHRONO_MAX_SECONDS :: nat where "CHRONO_MAX_SECONDS = 9223372036854775"

definition JobWorkerPolicy_new ::
  "string option \<Rightarrow> nat \<Rightarrow> nat \<Rightarrow> nat \<Rightarrow> nat \<Rightarrow> nat \<Rightarrow> nat \<Rightarrow> JobWorkerPolicy app_result option" where
  "JobWorkerPolicy_new worker_prefix lease_seconds heartbeat_seconds poll_interval_ms
       max_idle_poll_interval_ms lease_recovery_interval_seconds concurrency =
     (if 2 ^ 63 - 1 < lease_seconds then Some (Inl (Config msg_policy_lease))
      else if lease_seconds \<le> 0 \<or> heartbeat_seconds = 0 \<or> lease_seconds \<le> heartbeat_seconds \<or>
              poll_interval_ms = 0 \<or> max_idle_poll_interval_ms < poll_interval_ms \<or>
              lease_recovery_interval_seconds = 0 \<or> concurrency = 0
      then Some (Inl (Config msg_policy_invalid))
      else if CHRONO_MAX_SECONDS < lease_seconds then None
      else Some (Inr
        \<lparr>jp_worker_prefix =
           (case worker_prefix of None \<Rightarrow> None | Some v \<Rightarrow> if trim v = [] then None else Some (trim v)),
         jp_lease_duration = int lease_seconds * 1000000,
         jp_heartbeat_interval = heartbeat_seconds * 10 ^ 9,
         jp_poll_interval = poll_interval_ms * 10 ^ 6,
         jp_max_idle_poll_interval = max_idle_poll_interval_ms * 10 ^ 6,
         jp_lease_recovery_interval = lease_recovery_interval_seconds * 10 ^ 9,
         jp_concurrency = concurrency\<rparr>))"

definition worker_prefix :: "JobWorkerPolicy \<Rightarrow> string \<Rightarrow> string" where
  "worker_prefix policy fallback = (case jp_worker_prefix policy of Some p \<Rightarrow> p | None \<Rightarrow> fallback)"

text \<open>A handler decides which errors no retry can cure.\<close>

type_synonym handler = "app_error \<Rightarrow> bool"

record JobWorker =
  jw_scope :: ExecutionTenantFilter
  jw_handlers :: "(string \<times> handler) list"
  jw_policy :: JobWorkerPolicy

definition JobWorker_new :: "JobWorkerPolicy \<Rightarrow> ExecutionTenantFilter \<Rightarrow> JobWorker" where
  "JobWorker_new policy scope = \<lparr>jw_scope = scope, jw_handlers = [], jw_policy = policy\<rparr>"

definition with_handler :: "string \<Rightarrow> handler \<Rightarrow> JobWorker \<Rightarrow> JobWorker app_result" where
  "with_handler job_type h w =
     (if map_of (jw_handlers w) job_type \<noteq> None then Inl (Config (msg_handler_duplicate @ job_type))
      else Inr (w\<lparr>jw_handlers := (job_type, h) # jw_handlers w\<rparr>))"

fun with_handlers :: "(string \<times> handler) list \<Rightarrow> JobWorker \<Rightarrow> JobWorker app_result" where
  "with_handlers [] w = Inr w"
| "with_handlers ((ty, h) # hs) w = bind_result (with_handler ty h w) (with_handlers hs)"

section \<open>Calls of a running worker\<close>

record moment =
  mo_others :: "control_db \<Rightarrow> control_db"
  mo_now :: "timestamp app_result"

text \<open>Read the database clock, then make one call; an error leaves what the others left.\<close>

definition at_moment ::
  "moment \<Rightarrow> (timestamp \<Rightarrow> control_db \<Rightarrow> ('a \<times> control_db) app_result) \<Rightarrow> control_db \<Rightarrow>
   'a app_result \<times> control_db" where
  "at_moment m call db =
     (let db1 = mo_others m db
      in case bind_result (mo_now m) (\<lambda>now. call now db1) of
           Inl e \<Rightarrow> (Inl e, db1)
         | Inr (x, db2) \<Rightarrow> (Inr x, db2))"

datatype 'a LeaseHeartbeatOutcome = HCompleted 'a | HLeaseLost | HRenewalFailed app_error

definition after_renewal :: "bool app_result \<times> control_db \<Rightarrow> 'a LeaseHeartbeatOutcome option \<times> control_db" where
  "after_renewal r =
     (case r of
        (Inl e, db) \<Rightarrow> (Some (HRenewalFailed e), db)
      | (Inr renewed, db) \<Rightarrow> (if renewed then None else Some HLeaseLost, db))"

fun heartbeats ::
  "(timestamp \<Rightarrow> control_db \<Rightarrow> (bool \<times> control_db) app_result) \<Rightarrow> moment list \<Rightarrow> control_db \<Rightarrow>
   'a LeaseHeartbeatOutcome option \<times> control_db" where
  "heartbeats renew [] db = (None, db)"
| "heartbeats renew (m # ms) db =
     (case after_renewal (at_moment m renew db) of
        (Some out, db1) \<Rightarrow> (Some out, db1)
      | (None, db1) \<Rightarrow> heartbeats renew ms db1)"

text \<open>
  \<open>ticks\<close> are the heartbeats that fire before the operation ends, \<open>finish\<close> is when it ends; an
  operation that never ends has no result, and then no outcome after the given ticks.
\<close>

definition run_with_lease_heartbeat ::
  "(timestamp \<Rightarrow> control_db \<Rightarrow> (bool \<times> control_db) app_result) \<Rightarrow> moment list \<Rightarrow> moment \<Rightarrow> 'a option \<Rightarrow>
   control_db \<Rightarrow> ('a LeaseHeartbeatOutcome \<times> control_db) option" where
  "run_with_lease_heartbeat renew ticks finish result db =
     (case heartbeats renew ticks db of
        (Some out, db1) \<Rightarrow> Some (out, db1)
      | (None, db1) \<Rightarrow>
          (case result of
             None \<Rightarrow> None
           | Some r \<Rightarrow>
               (case after_renewal (at_moment finish renew db1) of
                  (Some out, db2) \<Rightarrow> Some (out, db2)
                | (None, db2) \<Rightarrow> Some (HCompleted r, db2))))"

section \<open>One round\<close>

datatype JobRunResult = JIdle | JSucceeded | JRetried | JDead | JLeaseLost

definition job_run_result_for_failure :: "JobFailureDisposition \<Rightarrow> JobRunResult" where
  "job_run_result_for_failure d =
     (case d of Retried _ \<Rightarrow> JRetried | Dead \<Rightarrow> JDead | Completed \<Rightarrow> JSucceeded | LeaseLost \<Rightarrow> JLeaseLost)"

text \<open>A handler takes some time (in nanoseconds, or never ends) and returns a result.\<close>

type_synonym handling = "nat option \<times> unit app_result"

definition run_job_handler :: "handling \<Rightarrow> int option \<Rightarrow> unit app_result option" where
  "run_job_handler h max_runtime_seconds =
     (case max_runtime_seconds of
        None \<Rightarrow> (case fst h of None \<Rightarrow> None | Some _ \<Rightarrow> Some (snd h))
      | Some seconds \<Rightarrow>
          if seconds < 0 then Some (Inl (Internal msg_runtime_negative))
          else
            (let over = Some (Inl (ServiceUnavailable (msg_runtime_over_1 @ show_int seconds @ msg_runtime_over_2)))
             in case fst h of
                  None \<Rightarrow> over
                | Some t \<Rightarrow> if t \<le> nat seconds * 10 ^ 9 then Some (snd h) else over))"

definition reject_unregistered_job ::
  "string \<Rightarrow> background_job \<Rightarrow> timestamp \<Rightarrow> control_db \<Rightarrow> (JobRunResult \<times> control_db) app_result" where
  "reject_unregistered_job worker_id job now db =
     bind_result (dead_letter (bj_id job) (bj_claim_sequence job) worker_id
                    (msg_job_unregistered @ bj_job_type job) now db)
       (\<lambda>(outcome, db'). Inr (job_run_result_for_failure outcome, db'))"

definition finish_failed_job ::
  "string \<Rightarrow> background_job \<Rightarrow> handler \<Rightarrow> app_error \<Rightarrow> timestamp \<Rightarrow> control_db \<Rightarrow>
   (JobRunResult \<times> control_db) app_result" where
  "finish_failed_job worker_id job h error now db =
     bind_result
       (case error of
          RetryableConflict msg retry_after_seconds \<Rightarrow>
            defer_retryable_conflict
              \<lparr>df_job_id = bj_id job, df_claim_sequence = bj_claim_sequence job, df_worker_id = worker_id,
               df_available_at = now + int (max 1 (min 86400 (unat retry_after_seconds))) * 1000000,
               df_error_message = msg, df_now = now\<rparr> db
        | _ \<Rightarrow>
            fail_job
              \<lparr>fb_job_id = bj_id job, fb_claim_sequence = bj_claim_sequence job, fb_worker_id = worker_id,
               fb_retry_at = now + retry_delay (bj_attempts job),
               fb_error_message = display_error error, fb_force_dead = h error, fb_now = now\<rparr> db)
       (\<lambda>(outcome, db'). Inr (job_run_result_for_failure outcome, db'))"

definition complete_job ::
  "string \<Rightarrow> background_job \<Rightarrow> timestamp \<Rightarrow> control_db \<Rightarrow> (JobRunResult \<times> control_db) app_result" where
  "complete_job worker_id job now db =
     bind_result (job_complete (bj_id job) (bj_claim_sequence job) worker_id now db)
       (\<lambda>(done, db'). Inr (if done then JSucceeded else JLeaseLost, db'))"

text \<open>What happens around one claimed job: the heartbeats, the handler and its end, the last call.\<close>

record job_run =
  jr_ticks :: "moment list"
  jr_handling :: handling
  jr_finish :: moment
  jr_last :: moment

definition run_claimed_job ::
  "JobWorker \<Rightarrow> string \<Rightarrow> job_run \<Rightarrow> background_job \<Rightarrow> control_db \<Rightarrow>
   (JobRunResult app_result \<times> control_db) option" where
  "run_claimed_job w worker_id run job db =
     (case map_of (jw_handlers w) (bj_job_type job) of
        None \<Rightarrow> Some (at_moment (jr_last run) (reject_unregistered_job worker_id job) db)
      | Some h \<Rightarrow>
          (case run_with_lease_heartbeat
                  (\<lambda>now. renew_lease (bj_id job) (bj_claim_sequence job) worker_id
                           (jp_lease_duration (jw_policy w)) now)
                  (jr_ticks run) (jr_finish run)
                  (run_job_handler (jr_handling run) (bj_max_runtime_seconds job)) db of
             None \<Rightarrow> None
           | Some (HLeaseLost, db1) \<Rightarrow> Some (Inr JLeaseLost, db1)
           | Some (HRenewalFailed e, db1) \<Rightarrow> Some (Inr JLeaseLost, db1)
           | Some (HCompleted (Inr u), db1) \<Rightarrow> Some (at_moment (jr_last run) (complete_job worker_id job) db1)
           | Some (HCompleted (Inl e), db1) \<Rightarrow>
               Some (at_moment (jr_last run) (finish_failed_job worker_id job h e) db1)))"

definition run_once ::
  "JobWorker \<Rightarrow> string \<Rightarrow> moment \<Rightarrow> (int \<Rightarrow> bool) \<Rightarrow> job_run \<Rightarrow> control_db \<Rightarrow>
   (JobRunResult app_result \<times> control_db) option" where
  "run_once w worker_id claim locked run db =
     (case at_moment claim
             (\<lambda>now. claim_next worker_id (jp_lease_duration (jw_policy w)) now (jw_scope w) locked) db of
        (Inl e, db1) \<Rightarrow> Some (Inl e, db1)
      | (Inr None, db1) \<Rightarrow> Some (Inr JIdle, db1)
      | (Inr (Some job), db1) \<Rightarrow> run_claimed_job w worker_id run job db1)"

end
