(* ===== verification/Worker_Properties.thy ===== *)
theory Worker_Properties
  imports Workers Job_Guarantees
begin

text \<open>
  What the worker guarantees: a round is a run of the queue's own steps, what it reports about a job
  is what the table says, and its delays are bounded.
\<close>

section \<open>The calls that settle a job\<close>

definition settled_as ::
  "int \<Rightarrow> int \<Rightarrow> string \<Rightarrow> string \<Rightarrow> control_db \<Rightarrow> control_db \<Rightarrow> bool" where
  "settled_as i s w status db db' \<longleftrightarrow>
     (\<exists>now j j'. held_job i s w now db = Some j \<and> find_by_id i db' = Some j' \<and>
        bj_status j' = status \<and> bj_lease_owner j' = None \<and> bj_claim_sequence j' = s \<and>
        (\<forall>k. k \<noteq> i \<longrightarrow> find_by_id k db' = find_by_id k db))"

definition result_status :: "JobRunResult \<Rightarrow> string" where
  "result_status r =
     (case r of JSucceeded \<Rightarrow> bj_STATUS_SUCCEEDED | JRetried \<Rightarrow> bj_STATUS_PENDING
      | JDead \<Rightarrow> bj_STATUS_DEAD | _ \<Rightarrow> [])"

text \<open>A call either finds the lease lost and changes nothing, or settles the job as it reports.\<close>

definition call_settles :: "int \<Rightarrow> int \<Rightarrow> string \<Rightarrow> JobRunResult \<Rightarrow> control_db \<Rightarrow> control_db \<Rightarrow> bool" where
  "call_settles i s w r db db' \<longleftrightarrow>
     r = JLeaseLost \<and> db' = db \<or>
     r \<in> {JSucceeded, JRetried, JDead} \<and> settled_as i s w (result_status r) db db'"

lemma settled_asI:
  assumes h: "held_job i s w now db = Some job"
    and db': "db_jobs db' = row_put bj_id job' (db_jobs db)"
    and job': "bj_id job' = bj_id job" "bj_status job' = status" "bj_lease_owner job' = None"
      "bj_claim_sequence job' = bj_claim_sequence job"
  shows "settled_as i s w status db db'"
proof -
  note d = held_jobD [OF h]
  have i: "bj_id job' = i" using d(1) row_get_SomeD [of bj_id i "db_jobs db" job] job'(1)
    by (simp add: find_by_id_def)
  have "find_by_id i db' = Some job'"
    using d(1) i by (simp add: find_by_id_def db' row_get_row_put)
  moreover have "find_by_id k db' = find_by_id k db" if "k \<noteq> i" for k
    using that i by (simp add: find_by_id_def db' row_get_row_put)
  ultimately show ?thesis using h job' d(3) unfolding settled_as_def by blast
qed

lemma failure_settles:
  assumes h: "held_job i s w now db = Some job"
    and cl: "close_attempt job out now db = Inr db1"
    and sy: "sync_linked_job_state job disp e now db1 = Inr (r, db2)"
    and fi: "finish_from_linked_terminal job r e now db2 = Inr (d, db3)"
    and job': "bj_id job' = bj_id job" "bj_lease_owner job' = None"
      "bj_claim_sequence job' = bj_claim_sequence job"
    and status: "bj_status job' = result_status (job_run_result_for_failure d')"
    and d': "d' = Dead \<or> (\<exists>t. d' = Retried t)"
    and res: "dis = (case d of Some x \<Rightarrow> x | None \<Rightarrow> d')"
      "db' = (if d = None then put_job job' db3 else db3)"
  shows "call_settles i s w (job_run_result_for_failure dis) db db'"
proof -
  have jobs2: "db_jobs db2 = db_jobs db"
    using sync_frame [OF sy] cl by (simp add: close_attempt_Inr)
  from fi show ?thesis
  proof (cases rule: finishE)
    case none
    with h jobs2 job' status res have "settled_as i s w (result_status (job_run_result_for_failure d')) db db'"
      by (intro settled_asI [OF h, where job' = job']) simp_all
    with none d' res show ?thesis by (auto simp: call_settles_def job_run_result_for_failure_def)
  next
    case (some t)
    have "settled_as i s w (if t = BFailed then bj_STATUS_DEAD else bj_STATUS_SUCCEEDED) db db'"
      using jobs2 some res
      by (intro settled_asI [OF h, where job' = "finished_job job t e now"]) (simp_all add: finished_job_def)
    with some res show ?thesis
      by (auto simp: call_settles_def job_run_result_for_failure_def result_status_def)
  qed
qed

lemma complete_settles:
  assumes "complete_job w job now db = Inr (r, db')"
  shows "call_settles (bj_id job) (bj_claim_sequence job) w r db db'"
proof (cases "held_job (bj_id job) (bj_claim_sequence job) w now db")
  case None
  with assms show ?thesis by (simp add: complete_job_def job_complete_def call_settles_def)
next
  case (Some j)
  with assms obtain db1 where cl: "close_attempt j OSucceeded now db = Inr db1" and r: "r = JSucceeded"
    and db': "db' = put_job (j\<lparr>bj_status := bj_STATUS_SUCCEEDED, bj_lease_owner := None,
      bj_lease_until := None, bj_updated_at := now, bj_completed_at := Some now\<rparr>) db1"
    by (auto simp: complete_job_def job_complete_def elim!: bind_resultE)
  have "settled_as (bj_id job) (bj_claim_sequence job) w bj_STATUS_SUCCEEDED db db'"
    by (rule settled_asI [OF Some, where job' = "j\<lparr>bj_status := bj_STATUS_SUCCEEDED,
        bj_lease_owner := None, bj_lease_until := None, bj_updated_at := now, bj_completed_at := Some now\<rparr>"])
      (use cl in \<open>simp_all add: db' close_attempt_Inr\<close>)
  then show ?thesis by (simp add: r call_settles_def result_status_def)
qed

lemma fail_settles:
  assumes f: "fail_job c db = Inr (d, db')"
  shows "call_settles (fb_job_id c) (fb_claim_sequence c) (fb_worker_id c) (job_run_result_for_failure d) db db'"
proof (cases "held_job (fb_job_id c) (fb_claim_sequence c) (fb_worker_id c) (fb_now c) db")
  case None
  with f show ?thesis
    by (simp add: fail_job_def Let_def call_settles_def job_run_result_for_failure_def)
next
  case (Some job)
  define is_dead where "is_dead = (fb_force_dead c \<or> bj_max_attempts job \<le> bj_attempts job)"
  define job' where "job' = job\<lparr>bj_status := (if is_dead then bj_STATUS_DEAD else bj_STATUS_PENDING),
      bj_available_at := (if is_dead then fb_now c else fb_retry_at c), bj_lease_owner := None,
      bj_lease_until := None, bj_last_error := Some (truncate_error (fb_error_message c)),
      bj_updated_at := fb_now c, bj_completed_at := (if is_dead then Some (fb_now c) else None)\<rparr>"
  define d' where "d' = (if is_dead then Dead else Retried (fb_retry_at c))"
  from f Some obtain db1 r db2 d2 db3
    where cl: "close_attempt job (if is_dead then ODead else OFailed) (fb_now c) db = Inr db1"
      and sy: "sync_linked_job_state job (if is_dead then LDead else LRetried)
        (Some (fb_error_message c)) (fb_now c) db1 = Inr (r, db2)"
      and fi: "finish_from_linked_terminal job r (Some (fb_error_message c)) (fb_now c) db2 = Inr (d2, db3)"
      and res: "d = (case d2 of Some x \<Rightarrow> x | None \<Rightarrow> d')" "db' = (if d2 = None then put_job job' db3 else db3)"
    by (auto simp: fail_job_def Let_def job'_def is_dead_def d'_def elim!: bind_resultE split: option.splits)
  show ?thesis
    by (rule failure_settles [OF Some cl sy fi, of job' d'])
      (use res in \<open>auto simp: job'_def d'_def job_run_result_for_failure_def result_status_def\<close>)
qed

lemma defer_settles:
  assumes f: "defer_retryable_conflict c db = Inr (d, db')"
  shows "call_settles (df_job_id c) (df_claim_sequence c) (df_worker_id c) (job_run_result_for_failure d) db db'"
proof (cases "held_job (df_job_id c) (df_claim_sequence c) (df_worker_id c) (df_now c) db")
  case None
  with f show ?thesis
    by (simp add: defer_retryable_conflict_def Let_def call_settles_def job_run_result_for_failure_def)
next
  case (Some job)
  define job' where "job' = job\<lparr>bj_status := bj_STATUS_PENDING,
      bj_attempts := saturating_sub_i32 (bj_attempts job) 1, bj_available_at := df_available_at c,
      bj_lease_owner := None, bj_lease_until := None,
      bj_last_error := Some (truncate_error (df_error_message c)),
      bj_updated_at := df_now c, bj_completed_at := None\<rparr>"
  from f Some obtain db1 r db2 d2 db3
    where cl: "close_attempt job ODeferred (df_now c) db = Inr db1"
      and sy: "sync_linked_job_state job LRetried (Some (df_error_message c)) (df_now c) db1 = Inr (r, db2)"
      and fi: "finish_from_linked_terminal job r (Some (df_error_message c)) (df_now c) db2 = Inr (d2, db3)"
      and res: "d = (case d2 of Some x \<Rightarrow> x | None \<Rightarrow> Retried (df_available_at c))"
        "db' = (if d2 = None then put_job job' db3 else db3)"
    by (auto simp: defer_retryable_conflict_def Let_def job'_def elim!: bind_resultE split: option.splits)
  show ?thesis
    by (rule failure_settles [OF Some cl sy fi, of job' "Retried (df_available_at c)"])
      (use res in \<open>auto simp: job'_def job_run_result_for_failure_def result_status_def\<close>)
qed

lemma dead_letter_settles:
  assumes f: "dead_letter i s w e now db = Inr (d, db')"
  shows "call_settles i s w (job_run_result_for_failure d) db db'"
proof (cases "held_job i s w now db")
  case None
  with f show ?thesis by (simp add: dead_letter_def call_settles_def job_run_result_for_failure_def)
next
  case (Some job)
  define job' where "job' = job\<lparr>bj_status := bj_STATUS_DEAD, bj_lease_owner := None,
      bj_lease_until := None, bj_last_error := Some (truncate_error e), bj_updated_at := now,
      bj_completed_at := Some now\<rparr>"
  from f Some obtain db1 r db2 d2 db3
    where cl: "close_attempt job ODead now db = Inr db1"
      and sy: "sync_linked_job_state job LDead (Some e) now db1 = Inr (r, db2)"
      and fi: "finish_from_linked_terminal job r (Some e) now db2 = Inr (d2, db3)"
      and res: "d = (case d2 of Some x \<Rightarrow> x | None \<Rightarrow> Dead)" "db' = (if d2 = None then put_job job' db3 else db3)"
    by (auto simp: dead_letter_def job'_def elim!: bind_resultE split: option.splits)
  show ?thesis
    by (rule failure_settles [OF Some cl sy fi, of job' Dead])
      (use res in \<open>auto simp: job'_def job_run_result_for_failure_def result_status_def\<close>)
qed

lemma finish_failed_settles:
  assumes "finish_failed_job w job h e now db = Inr (r, db')"
  shows "call_settles (bj_id job) (bj_claim_sequence job) w r db db'"
proof (cases "\<exists>msg ra. e = RetryableConflict msg ra")
  case True
  with assms show ?thesis
    by (auto simp: finish_failed_job_def elim!: bind_resultE dest!: defer_settles)
next
  case False
  with assms show ?thesis
    by (cases e) (auto simp: finish_failed_job_def elim!: bind_resultE dest!: fail_settles)
qed

lemma reject_settles:
  "reject_unregistered_job w job now db = Inr (r, db') \<Longrightarrow>
     call_settles (bj_id job) (bj_claim_sequence job) w r db db'"
  by (auto simp: reject_unregistered_job_def elim!: bind_resultE dest: dead_letter_settles)

section \<open>A round\<close>

lemma at_momentE:
  assumes "at_moment m call db = (r, db')"
  obtains (failed) e where "r = Inl e" "db' = mo_others m db"
  | (called) now x where "mo_now m = Inr now" "call now (mo_others m db) = Inr (x, db')" "r = Inr x"
  using assms by (auto simp: at_moment_def Let_def bind_result_def split: sum.splits)

text \<open>What may happen to the database without the worker settling its job.\<close>

inductive quiet_step :: "JobWorker \<Rightarrow> string \<Rightarrow> background_job \<Rightarrow> moment set \<Rightarrow> control_db \<Rightarrow> control_db \<Rightarrow> bool"
  for w :: JobWorker and worker_id :: string and job :: background_job and ms :: "moment set" where
  qs_others: "m \<in> ms \<Longrightarrow> quiet_step w worker_id job ms db (mo_others m db)"
| qs_renew: "m \<in> ms \<Longrightarrow> mo_now m = Inr now \<Longrightarrow>
     renew_lease (bj_id job) (bj_claim_sequence job) worker_id (jp_lease_duration (jw_policy w)) now db =
       Inr (b, db') \<Longrightarrow> quiet_step w worker_id job ms db db'"

definition run_moments :: "job_run \<Rightarrow> moment set" where
  "run_moments run = set (jr_ticks run) \<union> {jr_finish run, jr_last run}"

abbreviation renewal :: "JobWorker \<Rightarrow> string \<Rightarrow> background_job \<Rightarrow> timestamp \<Rightarrow> control_db \<Rightarrow> (bool \<times> control_db) app_result" where
  "renewal w worker_id job \<equiv> \<lambda>now. renew_lease (bj_id job) (bj_claim_sequence job) worker_id
     (jp_lease_duration (jw_policy w)) now"

lemma renewal_quiet:
  assumes "m \<in> ms" "at_moment m (renewal w i job) db = (r, db')"
  shows "(quiet_step w i job ms)\<^sup>*\<^sup>* db db'"
  using assms(2)
proof (cases rule: at_momentE)
  case (failed e)
  with qs_others [OF assms(1), of w i job db] show ?thesis by blast
next
  case (called now x)
  with qs_others [OF assms(1), of w i job db] qs_renew [OF assms(1) called(1,2)] show ?thesis by simp
qed

lemma after_renewal_db: "snd (after_renewal (r, db)) = db"
  by (cases r) (auto simp: after_renewal_def)

lemma heartbeats_quiet:
  assumes "set ticks \<subseteq> ms" "heartbeats (renewal w i job) ticks db = (out, db')"
  shows "(quiet_step w i job ms)\<^sup>*\<^sup>* db db'"
  using assms
proof (induction ticks arbitrary: db)
  case (Cons m ticks)
  obtain r db1 where a: "at_moment m (renewal w i job) db = (r, db1)" by fastforce
  have q: "(quiet_step w i job ms)\<^sup>*\<^sup>* db db1"
    using Cons.prems(1) by (intro renewal_quiet [OF _ a]) simp
  obtain out1 where r: "after_renewal (r, db1) = (out1 :: 'a LeaseHeartbeatOutcome option, db1)"
    using after_renewal_db [of r db1] by (metis prod.collapse)
  show ?case
  proof (cases out1)
    case None
    with Cons.prems a r have "heartbeats (renewal w i job) ticks db1 = (out, db')" by simp
    with Cons.IH [of db1] Cons.prems(1) q show ?thesis by (simp add: rtranclp_trans [of _ db db1])
  next
    case (Some x)
    with Cons.prems a r q show ?thesis by simp
  qed
qed simp

lemma heartbeat_quiet:
  assumes "set ticks \<subseteq> ms" "finish \<in> ms"
    and r: "run_with_lease_heartbeat (renewal w i job) ticks finish result db = Some (out, db')"
  shows "(quiet_step w i job ms)\<^sup>*\<^sup>* db db'"
proof -
  obtain out1 db1 where h: "heartbeats (renewal w i job) ticks db = (out1 :: 'a LeaseHeartbeatOutcome option, db1)"
    by fastforce
  have q: "(quiet_step w i job ms)\<^sup>*\<^sup>* db db1" by (rule heartbeats_quiet [OF assms(1) h])
  obtain r2 db2 where a: "at_moment finish (renewal w i job) db1 = (r2, db2)" by fastforce
  have q2: "(quiet_step w i job ms)\<^sup>*\<^sup>* db1 db2" by (rule renewal_quiet [OF assms(2) a])
  have s: "snd (after_renewal (r2, db2) :: 'a LeaseHeartbeatOutcome option \<times> control_db) = db2"
    by (rule after_renewal_db)
  have "db' = db1 \<or> db' = db2"
    using r h a s by (auto simp: run_with_lease_heartbeat_def split: option.splits prod.splits)
  with q q2 show ?thesis using rtranclp_trans [of _ db db1 db2] by auto
qed

lemma heartbeats_end: "heartbeats renew ticks db \<noteq> (Some (HCompleted x), db')"
  by (induction renew ticks db rule: heartbeats.induct)
    (auto simp: after_renewal_def split: prod.splits sum.splits if_splits option.splits)

lemma completed_result:
  "run_with_lease_heartbeat renew ticks finish result db = Some (HCompleted x, db') \<Longrightarrow> result = Some x"
  by (auto simp: run_with_lease_heartbeat_def after_renewal_def heartbeats_end
      split: option.splits prod.splits sum.splits if_splits)

text \<open>The last call of a run.\<close>

lemma last_call:
  assumes call: "\<And>now db r db'. call now db = Inr (r, db') \<Longrightarrow> call_settles (bj_id job) (bj_claim_sequence job) i r db db'"
    and m: "m \<in> ms" and a: "at_moment m call db = (r, db')"
  shows "\<exists>dbm. (quiet_step w i job ms)\<^sup>*\<^sup>* db dbm \<and>
    (case r of Inl _ \<Rightarrow> db' = dbm | Inr x \<Rightarrow> call_settles (bj_id job) (bj_claim_sequence job) i x dbm db')"
proof (intro exI conjI)
  show "(quiet_step w i job ms)\<^sup>*\<^sup>* db (mo_others m db)" using qs_others [OF m, of w i job db] by blast
  show "case r of Inl _ \<Rightarrow> db' = mo_others m db
      | Inr x \<Rightarrow> call_settles (bj_id job) (bj_claim_sequence job) i x (mo_others m db) db'"
    using a by (cases rule: at_momentE) (auto dest: call)
qed

text \<open>A sample worker: it handles mail and leases a job for a hundred ticks of the clock.\<close>

definition sample_policy :: JobWorkerPolicy where
  "sample_policy = \<lparr>jp_worker_prefix = None, jp_lease_duration = 100, jp_heartbeat_interval = 10,
     jp_poll_interval = 1, jp_max_idle_poll_interval = 8, jp_lease_recovery_interval = 50,
     jp_concurrency = 1\<rparr>"

definition mail_worker :: JobWorker where
  "mail_worker = \<lparr>jw_scope = None, jw_handlers = [(''mail.send'', \<lambda>_. False)], jw_policy = sample_policy\<rparr>"

definition alone :: "timestamp \<Rightarrow> moment" where
  "alone t = \<lparr>mo_others = id, mo_now = Inr t\<rparr>"

definition sample_run :: job_run where
  "sample_run = \<lparr>jr_ticks = [alone 150], jr_handling = (Some 40, Inr ()), jr_finish = alone 190,
     jr_last = alone 200\<rparr>"

lemma sample_round:
  "case run_once mail_worker ''w1'' (alone 120) (\<lambda>_. False) sample_run sample_db of
     Some (Inr JSucceeded, db') \<Rightarrow> map bj_status (db_jobs db') = [bj_STATUS_SUCCEEDED] \<and>
       map at_outcome (db_attempts db') = [''succeeded'']
   | _ \<Rightarrow> False"
  by code_simp

section \<open>Steps of the queue\<close>

text \<open>A step of the queue between two databases, for some set of identifiers handed out so far.\<close>

definition db_step :: "control_db \<Rightarrow> control_db \<Rightarrow> bool" where
  "db_step db db' \<longleftrightarrow>
     (\<exists>U U'. bj_id ` set (db_jobs db) \<subseteq> U \<and> queue_step (db, U) (db', U'))"

lemma db_stepI: "(\<And>U. queue_step (db, U) (db', U)) \<Longrightarrow> db_step db db'"
  unfolding db_step_def by blast

lemma db_step_ok: "db_step db db' \<Longrightarrow> db_ok db \<Longrightarrow> db_ok db'"
  unfolding db_step_def
proof (elim exE conjE)
  fix U U'
  assume s: "bj_id ` set (db_jobs db) \<subseteq> U" "queue_step (db, U) (db', U')" and ok: "db_ok db"
  then have "queue_inv (db, U)" by (simp add: queue_inv_def)
  with s(2) have "queue_inv (db', U')" using jobs.steps_inv r_into_rtranclp [of queue_step] by metis
  then show "db_ok db'" by (simp add: queue_inv_def)
qed

lemma db_steps_ok: "db_step\<^sup>*\<^sup>* db db' \<Longrightarrow> db_ok db \<Longrightarrow> db_ok db'"
  by (induction rule: rtranclp_induct) (auto dest: db_step_ok)

definition queue_moment :: "moment \<Rightarrow> bool" where
  "queue_moment m \<longleftrightarrow> (\<forall>db. db_step\<^sup>*\<^sup>* db (mo_others m db))"

lemma quiet_steps:
  assumes "(quiet_step w i job ms)\<^sup>*\<^sup>* db db'" "\<forall>m \<in> ms. queue_moment m"
  shows "db_step\<^sup>*\<^sup>* db db'"
  using assms(1)
proof (induction rule: rtranclp_induct)
  case (step y z)
  have "db_step\<^sup>*\<^sup>* y z"
    using step.hyps(2)
  proof cases
    case (qs_others m)
    with assms(2) show ?thesis by (simp add: queue_moment_def)
  next
    case (qs_renew m now b)
    with db_stepI [OF s_renew [OF qs_renew(3)]] show ?thesis by blast
  qed
  with step.IH show ?case by (rule rtranclp_trans)
qed simp

lemma settling_calls:
  "complete_job i job now db = Inr (r, db') \<Longrightarrow> db_step db db'"
  "finish_failed_job i job h e now db = Inr (r, db') \<Longrightarrow> db_step db db'"
  "reject_unregistered_job i job now db = Inr (r, db') \<Longrightarrow> db_step db db'"
  by (auto simp: complete_job_def finish_failed_job_def reject_unregistered_job_def elim!: bind_resultE
      intro: db_stepI s_complete s_dead_letter) (cases e; auto intro: db_stepI s_fail s_defer)

lemma moment_steps:
  assumes call: "\<And>now db r db'. call now db = Inr (r, db') \<Longrightarrow> db_step db db'"
    and m: "queue_moment m" and a: "at_moment m call db = (r, db')"
  shows "db_step\<^sup>*\<^sup>* db db'"
  using a
proof (cases rule: at_momentE)
  case (failed e)
  with m show ?thesis by (simp add: queue_moment_def)
next
  case (called now x)
  have "db_step\<^sup>*\<^sup>* db (mo_others m db)" using m by (simp add: queue_moment_def)
  then show ?thesis using call [OF called(2)] by (rule rtranclp.rtrancl_into_rtrancl)
qed

lemma claimed_run_steps:
  assumes ms: "\<forall>m \<in> run_moments run. queue_moment m"
    and r: "run_claimed_job w worker_id run job db = Some (r, db')"
  shows "db_step\<^sup>*\<^sup>* db db'"
proof -
  have m: "queue_moment (jr_last run)" "jr_finish run \<in> run_moments run" "set (jr_ticks run) \<subseteq> run_moments run"
    using ms by (auto simp: run_moments_def)
  show ?thesis
  proof (cases "map_of (jw_handlers w) (bj_job_type job)")
    case None
    with r have "at_moment (jr_last run) (reject_unregistered_job worker_id job) db = (r, db')"
      by (simp add: run_claimed_job_def)
    from moment_steps [OF settling_calls(3) m(1) this] show ?thesis .
  next
    case (Some h)
    with r obtain out db1 where rw: "run_with_lease_heartbeat (renewal w worker_id job) (jr_ticks run)
        (jr_finish run) (run_job_handler (jr_handling run) (bj_max_runtime_seconds job)) db = Some (out, db1)"
      by (auto simp: run_claimed_job_def split: option.splits)
    have "db_step\<^sup>*\<^sup>* db db1" by (rule quiet_steps [OF heartbeat_quiet [OF m(3,2) rw] ms])
    moreover have "db_step\<^sup>*\<^sup>* db1 db'"
    proof (cases "\<exists>res. out = HCompleted res")
      case True
      then obtain res where res: "out = HCompleted res" by blast
      show ?thesis
      proof (cases res)
        case (Inl e)
        with r Some rw res have "at_moment (jr_last run) (finish_failed_job worker_id job h e) db1 = (r, db')"
          by (simp add: run_claimed_job_def)
        from moment_steps [OF settling_calls(2) m(1) this] show ?thesis .
      next
        case (Inr u)
        with r Some rw res have "at_moment (jr_last run) (complete_job worker_id job) db1 = (r, db')"
          by (simp add: run_claimed_job_def)
        from moment_steps [OF settling_calls(1) m(1) this] show ?thesis .
      qed
    next
      case False
      with r Some rw show ?thesis
        by (cases out) (auto simp: run_claimed_job_def)
    qed
    ultimately show ?thesis by (rule rtranclp_trans)
  qed
qed

section \<open>What a failure costs\<close>

text \<open>
  What a failed handling makes of the row of a job: a retryable conflict gives the attempt back and
  names its own delay, an error the handler calls permanent or the last attempt ends the job, and any
  other error leaves it to be tried again. A linked business row that is already final decides alone.
\<close>

definition conflict_delay :: "64 word \<Rightarrow> duration" where
  "conflict_delay retry_after_seconds = int (max 1 (min 86400 (unat retry_after_seconds))) * 1000000"

definition failure_as :: "bool \<Rightarrow> app_error \<Rightarrow> int \<Rightarrow> timestamp \<Rightarrow> background_job \<Rightarrow> background_job \<Rightarrow> JobRunResult \<Rightarrow> bool" where
  "failure_as permanent e claimed_attempts now j j' res \<longleftrightarrow>
     (case e of
        RetryableConflict msg retry_after_seconds \<Rightarrow>
          res = JRetried \<and> bj_status j' = bj_STATUS_PENDING \<and>
          bj_attempts j' = saturating_sub_i32 (bj_attempts j) 1 \<and>
          bj_available_at j' = now + conflict_delay retry_after_seconds \<and>
          bj_last_error j' = Some (truncate_error msg)
      | _ \<Rightarrow>
          bj_attempts j' = bj_attempts j \<and> bj_last_error j' = Some (truncate_error (display_error e)) \<and>
          (if permanent \<or> bj_max_attempts j \<le> bj_attempts j
           then res = JDead \<and> bj_status j' = bj_STATUS_DEAD
           else res = JRetried \<and> bj_status j' = bj_STATUS_PENDING \<and>
             bj_available_at j' = now + retry_delay claimed_attempts))"

definition decided_by_row :: "timestamp \<Rightarrow> background_job \<Rightarrow> background_job \<Rightarrow> JobRunResult \<Rightarrow> bool" where
  "decided_by_row now j j' res \<longleftrightarrow>
     bj_job_type j \<in> linked_job_types \<and>
     (\<exists>t e. j' = finished_job j t e now \<and> res = (if t = BFailed then JDead else JSucceeded))"

lemma put_found:
  assumes "find_by_id i db = Some j" "bj_id j' = bj_id j"
    and "db_jobs db2 = row_put bj_id j' (db_jobs db)"
  shows "find_by_id i db2 = Some j' \<and> (\<forall>k. k \<noteq> i \<longrightarrow> find_by_id k db2 = find_by_id k db)"
proof -
  have "bj_id j' = i" using assms(1,2) row_get_SomeD [of bj_id i "db_jobs db" j] by (simp add: find_by_id_def)
  with assms(1,3) show ?thesis by (simp add: find_by_id_def row_get_row_put)
qed

lemma failure_row:
  assumes h: "held_job i s w now db = Some job"
    and cl: "close_attempt job out now db = Inr db1"
    and sy: "sync_linked_job_state job disp e now db1 = Inr (r, db2)"
    and fi: "finish_from_linked_terminal job r e now db2 = Inr (d, db3)"
    and res: "res = job_run_result_for_failure (case d of Some x \<Rightarrow> x | None \<Rightarrow> d')"
      "db' = (if d = None then put_job job' db3 else db3)" "bj_id job' = bj_id job"
  shows "\<exists>j'. find_by_id i db' = Some j' \<and> (\<forall>k. k \<noteq> i \<longrightarrow> find_by_id k db' = find_by_id k db) \<and>
    (decided_by_row now job j' res \<or> j' = job' \<and> res = job_run_result_for_failure d')"
proof -
  have jobs2: "db_jobs db2 = db_jobs db"
    using sync_frame [OF sy] cl by (simp add: close_attempt_Inr)
  from fi show ?thesis
  proof (cases rule: finishE)
    case none
    with put_found [OF held_jobD(1) [OF h] res(3), of db'] jobs2 res(1,2) show ?thesis by simp
  next
    case (some t)
    have "bj_job_type job \<in> linked_job_types" using sync_unlinked [of job disp e now db1] sy some(1) by auto
    with some res(1) have "decided_by_row now job (finished_job job t e now) res"
      by (auto simp: decided_by_row_def job_run_result_for_failure_def)
    with put_found [OF held_jobD(1) [OF h], of "finished_job job t e now" db'] jobs2 some res(2)
    show ?thesis by (auto simp: finished_job_def)
  qed
qed

lemma finish_failed_exact:
  assumes f: "finish_failed_job w job h e now db = Inr (res, db')"
  shows "res = JLeaseLost \<and> db' = db \<or>
    (\<exists>j j'. held_job (bj_id job) (bj_claim_sequence job) w now db = Some j \<and>
       find_by_id (bj_id job) db' = Some j' \<and> (\<forall>k. k \<noteq> bj_id job \<longrightarrow> find_by_id k db' = find_by_id k db) \<and>
       (decided_by_row now j j' res \<or> failure_as (h e) e (bj_attempts job) now j j' res))"
proof (cases "held_job (bj_id job) (bj_claim_sequence job) w now db")
  case None
  with f show ?thesis
    by (auto simp: finish_failed_job_def defer_retryable_conflict_def fail_job_def Let_def
        job_run_result_for_failure_def elim!: bind_resultE split: app_error.splits)
next
  case (Some j)
  show ?thesis
  proof (cases "\<exists>msg ra. e = RetryableConflict msg ra")
    case True
    then obtain msg ra where e: "e = RetryableConflict msg ra" by blast
    let ?t = "now + conflict_delay ra"
    let ?j' = "j\<lparr>bj_status := bj_STATUS_PENDING,
      bj_attempts := saturating_sub_i32 (bj_attempts j) 1, bj_available_at := ?t,
      bj_lease_owner := None, bj_lease_until := None,
      bj_last_error := Some (truncate_error msg), bj_updated_at := now, bj_completed_at := None\<rparr>"
    from f Some obtain db1 r db2 d2 db3
      where cl: "close_attempt j ODeferred now db = Inr db1"
        and sy: "sync_linked_job_state j LRetried (Some msg) now db1 = Inr (r, db2)"
        and fi: "finish_from_linked_terminal j r (Some msg) now db2 = Inr (d2, db3)"
        and res: "res = job_run_result_for_failure (case d2 of Some x \<Rightarrow> x | None \<Rightarrow> Retried ?t)"
          "db' = (if d2 = None then put_job ?j' db3 else db3)"
      by (auto simp: e finish_failed_job_def defer_retryable_conflict_def Let_def conflict_delay_def
          elim!: bind_resultE split: option.splits)
    from failure_row [OF Some cl sy fi res] Some show ?thesis
      by (auto simp: e failure_as_def job_run_result_for_failure_def)
  next
    case False
    define is_dead where "is_dead = (h e \<or> bj_max_attempts j \<le> bj_attempts j)"
    let ?t = "now + retry_delay (bj_attempts job)"
    let ?j' = "j\<lparr>bj_status := (if is_dead then bj_STATUS_DEAD else bj_STATUS_PENDING),
      bj_available_at := (if is_dead then now else ?t), bj_lease_owner := None,
      bj_lease_until := None, bj_last_error := Some (truncate_error (display_error e)),
      bj_updated_at := now, bj_completed_at := (if is_dead then Some now else None)\<rparr>"
    from False have "finish_failed_job w job h e now db =
      bind_result (fail_job \<lparr>fb_job_id = bj_id job, fb_claim_sequence = bj_claim_sequence job, fb_worker_id = w,
          fb_retry_at = ?t, fb_error_message = display_error e, fb_force_dead = h e, fb_now = now\<rparr> db)
        (\<lambda>(outcome, db'). Inr (job_run_result_for_failure outcome, db'))"
      by (cases e) (simp_all add: finish_failed_job_def)
    with f Some obtain db1 r db2 d2 db3
      where cl: "close_attempt j (if is_dead then ODead else OFailed) now db = Inr db1"
        and sy: "sync_linked_job_state j (if is_dead then LDead else LRetried)
          (Some (display_error e)) now db1 = Inr (r, db2)"
        and fi: "finish_from_linked_terminal j r (Some (display_error e)) now db2 = Inr (d2, db3)"
        and res: "res = job_run_result_for_failure (case d2 of Some x \<Rightarrow> x | None \<Rightarrow> if is_dead then Dead else Retried ?t)"
          "db' = (if d2 = None then put_job ?j' db3 else db3)"
      by (auto simp: fail_job_def Let_def is_dead_def elim!: bind_resultE split: option.splits)
    from failure_row [OF Some cl sy fi res] obtain k where k: "find_by_id (bj_id job) db' = Some k"
        "\<forall>i. i \<noteq> bj_id job \<longrightarrow> find_by_id i db' = find_by_id i db"
        "decided_by_row now j k res \<or> k = ?j' \<and>
          res = job_run_result_for_failure (if is_dead then Dead else Retried ?t)" by auto
    have "failure_as (h e) e (bj_attempts job) now j ?j' (job_run_result_for_failure (if is_dead then Dead else Retried ?t))"
      using False by (cases e) (auto simp: failure_as_def job_run_result_for_failure_def is_dead_def)
    with k Some show ?thesis by blast
  qed
qed

section \<open>Jitter\<close>

lemma wrap_i64_small: "n < 2 ^ 63 \<Longrightarrow> wrap_i64 n = int n"
  by (simp add: wrap_i64_def Let_def)

lemma jittered_bounds:
  assumes "base div 10 ^ 6 < 2 ^ 62"
  shows "4 * (base div 10 ^ 6) * 10 ^ 6 \<le> 5 * jittered_delay s base" "5 * jittered_delay s base \<le> 6 * base"
proof -
  define n where "n = max (base div 10 ^ 6) 1"
  define b where "b = int n"
  define j where "j = b div 5"
  have b: "wrap_i64 n = b" "1 \<le> b" "b < 2 ^ 62"
    using assms by (simp_all add: n_def b_def wrap_i64_small)
  have dj: "div_trunc b 5 = j" using b(2) by (simp add: div_trunc_def j_def)
  have jb: "0 \<le> j" "5 * j \<le> b" "j \<noteq> 0 \<Longrightarrow> 5 \<le> b" using b(2) by (auto simp: j_def)
  have base: "(base div 10 ^ 6) * 10 ^ 6 \<le> base" by simp
  have D: "jittered_delay s base = (if j = 0 then base
      else nat (max (max i64_min (min i64_max (b + (int s mod \<bar>2 * j + 1\<bar> - j)))) 1) * 10 ^ 6)"
    unfolding jittered_delay_def Let_def n_def [symmetric] b(1) dj ..
  have "4 * (base div 10 ^ 6) * 10 ^ 6 \<le> 5 * jittered_delay s base \<and> 5 * jittered_delay s base \<le> 6 * base"
  proof (cases "j = 0")
    case True
    then have "jittered_delay s base = base" by (simp add: D)
    with base show ?thesis by linarith
  next
    case False
    define x where "x = b + (int s mod \<bar>2 * j + 1\<bar> - j)"
    have m: "0 \<le> int s mod \<bar>2 * j + 1\<bar>" "int s mod \<bar>2 * j + 1\<bar> < 2 * j + 1"
      using jb(1) pos_mod_bound [of "\<bar>2 * j + 1\<bar>" "int s"] by simp_all
    then have x: "b - j \<le> x" "x \<le> b + j" by (simp_all add: x_def)
    have x1: "1 \<le> x" "x \<le> i64_max" "i64_min \<le> x" using x jb False b(3) by (simp_all add: width_defs)
    have J: "jittered_delay s base = nat x * 10 ^ 6"
      using False x1 unfolding D x_def [symmetric] by (simp add: min_absorb2 max_absorb1 max_absorb2)
    have n: "n = base div 10 ^ 6" using jb(3) [OF False] by (simp add: n_def b_def)
    define y where "y = nat x"
    have y: "int y = x" using x1(1) by (simp add: y_def)
    have "4 * n \<le> 5 * y" "5 * y \<le> 6 * n" using x jb(2) y unfolding b_def by linarith+
    then have "4 * n * 10 ^ 6 \<le> 5 * (y * 10 ^ 6)" "5 * (y * 10 ^ 6) \<le> 6 * (n * 10 ^ 6)" by simp_all
    with base show ?thesis unfolding J y_def [symmetric] n by linarith
  qed
  then show "4 * (base div 10 ^ 6) * 10 ^ 6 \<le> 5 * jittered_delay s base" "5 * jittered_delay s base \<le> 6 * base"
    by simp_all
qed

section \<open>Properties\<close>

text \<open>
  C19. What the worker reports about a claimed job is what it wrote: whatever other processes commit
  meanwhile, an error or a lost lease means that it did nothing but extend the lease of its own
  claim, and any other result means that, while it still held the lease of this claim, one call
  gave the job exactly the reported state, freed the lease and left every other job alone.
\<close>

theorem worker_outcome_exact:
  assumes "run_claimed_job w worker_id run job db = Some (r, db')"
  shows "\<exists>dbm. (quiet_step w worker_id job (run_moments run))\<^sup>*\<^sup>* db dbm \<and>
    (case r of
       Inl _ \<Rightarrow> db' = dbm
     | Inr res \<Rightarrow> call_settles (bj_id job) (bj_claim_sequence job) worker_id res dbm db')"
proof -
  let ?ms = "run_moments run" and ?q = "(quiet_step w worker_id job (run_moments run))\<^sup>*\<^sup>*"
  let ?s = "\<lambda>dbm. case r of Inl _ \<Rightarrow> db' = dbm
     | Inr res \<Rightarrow> call_settles (bj_id job) (bj_claim_sequence job) worker_id res dbm db'"
  have m: "jr_last run \<in> ?ms" "jr_finish run \<in> ?ms" "set (jr_ticks run) \<subseteq> ?ms"
    by (auto simp: run_moments_def)
  show ?thesis
  proof (cases "map_of (jw_handlers w) (bj_job_type job)")
    case None
    with assms have "at_moment (jr_last run) (reject_unregistered_job worker_id job) db = (r, db')"
      by (simp add: run_claimed_job_def)
    from last_call [OF reject_settles m(1) this] show ?thesis .
  next
    case (Some h)
    with assms obtain out db1 where rw: "run_with_lease_heartbeat (renewal w worker_id job) (jr_ticks run)
        (jr_finish run) (run_job_handler (jr_handling run) (bj_max_runtime_seconds job)) db = Some (out, db1)"
      by (auto simp: run_claimed_job_def split: option.splits)
    have q: "?q db db1" by (rule heartbeat_quiet [OF m(3,2) rw])
    have "\<exists>dbm. ?q db1 dbm \<and> ?s dbm"
    proof (cases out)
      case (HCompleted res)
      show ?thesis
      proof (cases res)
        case (Inl e)
        with assms Some rw HCompleted
        have "at_moment (jr_last run) (finish_failed_job worker_id job h e) db1 = (r, db')"
          by (simp add: run_claimed_job_def)
        from last_call [OF finish_failed_settles m(1) this] show ?thesis .
      next
        case (Inr u)
        with assms Some rw HCompleted
        have "at_moment (jr_last run) (complete_job worker_id job) db1 = (r, db')"
          by (simp add: run_claimed_job_def)
        from last_call [OF complete_settles m(1) this] show ?thesis .
      qed
    next
      case HLeaseLost
      with assms Some rw show ?thesis by (auto simp: run_claimed_job_def call_settles_def)
    next
      case (HRenewalFailed e)
      with assms Some rw show ?thesis by (auto simp: run_claimed_job_def call_settles_def)
    qed
    then obtain dbm where "?q db1 dbm" "?s dbm" by blast
    with q show ?thesis using rtranclp_trans [of _ db db1 dbm] by blast
  qed
qed

theorem worker_outcome_exact_witness:
  "\<exists>dbm db'. settled_as 7 1 ''w1'' bj_STATUS_SUCCEEDED dbm db'"
proof -
  have "case run_claimed_job mail_worker ''w1'' sample_run sample_claimed sample_claimed_db of
     Some (Inr JSucceeded, db') \<Rightarrow> True | _ \<Rightarrow> False"
    by code_simp
  then obtain db' where "run_claimed_job mail_worker ''w1'' sample_run sample_claimed sample_claimed_db =
      Some (Inr JSucceeded, db')"
    by (auto split: option.splits prod.splits sum.splits JobRunResult.splits)
  from worker_outcome_exact [OF this] show ?thesis
    by (auto simp: call_settles_def result_status_def sample_claimed_def new_job_def)
qed

text \<open>
  C34. A round of the worker, whatever its handler does and however its calls are interleaved with
  the steps of other processes, is a run of the job queue's own steps; so every guarantee of the
  queue holds for its workers, the invariant of its tables first of all.
\<close>

theorem worker_refines_queue:
  assumes "run_once w worker_id claim locked run db = Some (r, db')"
    and "\<forall>m \<in> insert claim (run_moments run). queue_moment m"
    and "db_ok db"
  shows "db_step\<^sup>*\<^sup>* db db' \<and> db_ok db'"
proof -
  let ?call = "\<lambda>now. claim_next worker_id (jp_lease_duration (jw_policy w)) now (jw_scope w) locked"
  obtain c db1 where c: "at_moment claim ?call db = (c, db1)" by fastforce
  have "db_step x y" if "?call now x = Inr (a, y)" for now x a y
    using db_stepI [OF s_claim [OF that]] .
  from moment_steps [OF this _ c] have s1: "db_step\<^sup>*\<^sup>* db db1" using assms(2) by simp
  have "db_step\<^sup>*\<^sup>* db1 db'"
  proof (cases "\<exists>job. c = Inr (Some job)")
    case True
    then obtain job where "c = Inr (Some job)" by blast
    with assms(1) c have "run_claimed_job w worker_id run job db1 = Some (r, db')"
      by (simp add: run_once_def)
    from claimed_run_steps [OF _ this] assms(2) show ?thesis by simp
  next
    case False
    with assms(1) c have "db' = db1" by (auto simp: run_once_def split: sum.splits option.splits)
    then show ?thesis by simp
  qed
  with s1 have "db_step\<^sup>*\<^sup>* db db'" by (rule rtranclp_trans)
  with db_steps_ok [OF this assms(3)] show ?thesis by simp
qed

theorem worker_refines_queue_witness:
  "\<exists>db'. run_once mail_worker ''w1'' (alone 120) (\<lambda>_. False) sample_run sample_db = Some (Inr JSucceeded, db') \<and>
     db_step\<^sup>*\<^sup>* sample_db db' \<and> db_ok db'"
proof -
  obtain db' where r: "run_once mail_worker ''w1'' (alone 120) (\<lambda>_. False) sample_run sample_db =
      Some (Inr JSucceeded, db')"
    using sample_round by (auto split: option.splits prod.splits sum.splits JobRunResult.splits)
  have "\<forall>m \<in> insert (alone 120) (run_moments sample_run). queue_moment m"
    by (auto simp: run_moments_def sample_run_def alone_def queue_moment_def)
  moreover have "db_ok sample_db" using reachable_inv [OF sample_reachable] by (simp add: queue_inv_def)
  ultimately show ?thesis using worker_refines_queue [OF r] r by blast
qed

text \<open>
  C23. What a failed handling costs a job. Whatever heartbeats fired and other processes did meanwhile,
  the worker either reports the lease lost, having done nothing but extend the lease of its own claim,
  or one call at a time when it still held the claim settles the job and leaves the others alone: a
  retryable conflict puts it back with the attempt returned, at the delay it asks for (one second to a
  day); an error the handler calls permanent, or one on the last attempt, buries it; any other error
  puts it back at the delay of the attempts used, with its attempts unchanged. Only when the linked
  business row of an import, export, retention or configuration job is final already does that row
  decide. An error of the last call itself leaves the job as it was.
\<close>

theorem failed_run_exact:
  assumes "run_claimed_job w worker_id run job db = Some (r, db')"
    and "map_of (jw_handlers w) (bj_job_type job) = Some h"
    and "run_job_handler (jr_handling run) (bj_max_runtime_seconds job) = Some (Inl e)"
  shows "\<exists>dbm. (quiet_step w worker_id job (run_moments run))\<^sup>*\<^sup>* db dbm \<and>
    (case r of
       Inl _ \<Rightarrow> db' = dbm
     | Inr res \<Rightarrow> res = JLeaseLost \<and> db' = dbm \<or>
        (\<exists>now j j'. mo_now (jr_last run) = Inr now \<and>
           held_job (bj_id job) (bj_claim_sequence job) worker_id now dbm = Some j \<and>
           find_by_id (bj_id job) db' = Some j' \<and>
           (\<forall>k. k \<noteq> bj_id job \<longrightarrow> find_by_id k db' = find_by_id k dbm) \<and>
           (decided_by_row now j j' res \<or> failure_as (h e) e (bj_attempts job) now j j' res)))"
proof -
  let ?ms = "run_moments run"
  have m: "jr_last run \<in> ?ms" "jr_finish run \<in> ?ms" "set (jr_ticks run) \<subseteq> ?ms"
    by (auto simp: run_moments_def)
  from assms(1,2) obtain out db1 where rw: "run_with_lease_heartbeat (renewal w worker_id job) (jr_ticks run)
      (jr_finish run) (run_job_handler (jr_handling run) (bj_max_runtime_seconds job)) db = Some (out, db1)"
    by (auto simp: run_claimed_job_def split: option.splits)
  have q: "(quiet_step w worker_id job ?ms)\<^sup>*\<^sup>* db db1" by (rule heartbeat_quiet [OF m(3,2) rw])
  show ?thesis
  proof (cases "\<exists>res. out = HCompleted res")
    case True
    then have "out = HCompleted (Inl e)"
      using completed_result [of "renewal w worker_id job"] rw assms(3) by fastforce
    with assms(1,2) rw have "at_moment (jr_last run) (finish_failed_job worker_id job h e) db1 = (r, db')"
      by (simp add: run_claimed_job_def)
    then show ?thesis
    proof (cases rule: at_momentE)
      case (failed err)
      have "(quiet_step w worker_id job ?ms)\<^sup>*\<^sup>* db db'"
        using q qs_others [OF m(1), of w worker_id job db1] failed(2) by (simp add: rtranclp.rtrancl_into_rtrancl)
      with failed(1) show ?thesis by auto
    next
      case (called now x)
      have "(quiet_step w worker_id job ?ms)\<^sup>*\<^sup>* db (mo_others (jr_last run) db1)"
        using q qs_others [OF m(1), of w worker_id job db1] by (rule rtranclp.rtrancl_into_rtrancl)
      with finish_failed_exact [OF called(2)] called(1,3) show ?thesis by auto
    qed
  next
    case False
    with assms(1,2) rw have "r = Inr JLeaseLost \<and> db' = db1"
      by (cases out) (auto simp: run_claimed_job_def)
    with q show ?thesis by auto
  qed
qed

definition failing_run :: "app_error \<Rightarrow> job_run" where
  "failing_run e = \<lparr>jr_ticks = [alone 150], jr_handling = (Some 40, Inl e), jr_finish = alone 190, jr_last = alone 200\<rparr>"

theorem failed_run_exact_witness:
  "\<exists>dbm db' j j'. run_claimed_job mail_worker ''w1'' (failing_run (RetryableConflict ''busy'' 5)) sample_claimed sample_claimed_db =
       Some (Inr JRetried, db') \<and>
     held_job 7 1 ''w1'' 200 dbm = Some j \<and> find_by_id 7 db' = Some j' \<and>
     bj_attempts j' = saturating_sub_i32 (bj_attempts j) 1 \<and> bj_available_at j' = 200 + 5 * 1000000"
proof -
  let ?run = "failing_run (RetryableConflict ''busy'' 5)"
  have "case run_claimed_job mail_worker ''w1'' ?run sample_claimed sample_claimed_db of
     Some (Inr JRetried, db') \<Rightarrow> True | _ \<Rightarrow> False"
    by code_simp
  then obtain db' where r: "run_claimed_job mail_worker ''w1'' ?run sample_claimed sample_claimed_db = Some (Inr JRetried, db')"
    by (auto split: option.splits prod.splits sum.splits JobRunResult.splits)
  have i: "bj_id sample_claimed = 7" "bj_claim_sequence sample_claimed = 1" "bj_job_type sample_claimed = ''mail.send''"
      "bj_max_runtime_seconds sample_claimed = None"
    by (simp_all add: sample_claimed_def new_job_def sample_command_def)
  have unlinked: "\<not> decided_by_row now j j' JRetried" for now j j'
    by (simp add: decided_by_row_def)
  have "map_of (jw_handlers mail_worker) (bj_job_type sample_claimed) = Some (\<lambda>_. False)"
    by (simp add: mail_worker_def i)
  moreover have "run_job_handler (jr_handling ?run) (bj_max_runtime_seconds sample_claimed) =
      Some (Inl (RetryableConflict ''busy'' 5))"
    by (simp add: failing_run_def run_job_handler_def i)
  moreover have "mo_now (jr_last ?run) = Inr 200" by (simp add: failing_run_def alone_def)
  ultimately obtain dbm j j' where "held_job 7 1 ''w1'' 200 dbm = Some j" "find_by_id 7 db' = Some j'"
      "failure_as False (RetryableConflict ''busy'' 5) (bj_attempts sample_claimed) 200 j j' JRetried"
    using failed_run_exact [OF r, of "\<lambda>_. False" "RetryableConflict ''busy'' 5"] unlinked by (auto simp: i)
  with r show ?thesis by (auto simp: failure_as_def conflict_delay_def)
qed

text \<open>
  The worker's delays stay within their bounds: a failed job is retried after at least five
  seconds and at most five minutes, later attempts never sooner than earlier ones; after an
  infrastructure error the worker waits at most thirty seconds; an idle wait lies between the
  configured poll intervals; and jitter moves a wait by at most a fifth.
\<close>

theorem worker_delays_bounded:
  assumes "min_interval \<le> max_interval" "attempts \<le> attempts'" "base div 10 ^ 6 < 2 ^ 62"
  shows "5 * 1000000 \<le> retry_delay attempts \<and> retry_delay attempts \<le> retry_delay attempts' \<and>
    retry_delay attempts' \<le> 300 * 1000000 \<and>
    infrastructure_retry_delay poll_interval consecutive_failures \<le> 30 * 10 ^ 9 \<and>
    min_interval \<le> next_idle_wait current min_interval max_interval \<and>
    next_idle_wait current min_interval max_interval \<le> max_interval \<and>
    4 * (base div 10 ^ 6) * 10 ^ 6 \<le> 5 * jittered_delay subsec_nanos base \<and>
    5 * jittered_delay subsec_nanos base \<le> 6 * base"
proof -
  define E where "E a = nat (max 0 (min 6 (saturating_sub_i32 a 1)))" for a
  have R: "retry_delay a = min (5 * 2 ^ E a) 300 * 1000000" for a
    by (simp add: retry_delay_def E_def)
  have E: "E attempts \<le> E attempts'"
    using assms(2) unfolding E_def saturating_sub_i32_def by (intro nat_mono max.mono min.mono) simp_all
  have pow: "(2 :: int) ^ E attempts \<le> 2 ^ E attempts'" "(1 :: int) \<le> 2 ^ E attempts"
    using E by (simp_all add: power_increasing)
  have r1: "5 * 1000000 \<le> retry_delay attempts" using pow(2) by (simp add: R min_def)
  have r2: "retry_delay attempts \<le> retry_delay attempts'" using pow(1) unfolding R by (intro mult_right_mono min.mono) simp_all
  have r3: "retry_delay attempts' \<le> 300 * 1000000" by (simp add: R)
  have inf: "infrastructure_retry_delay poll_interval consecutive_failures \<le> 30 * 10 ^ 9"
    by (simp add: infrastructure_retry_delay_def Let_def)
  have idle: "min_interval \<le> next_idle_wait current min_interval max_interval"
    "next_idle_wait current min_interval max_interval \<le> max_interval"
    using assms(1) by (auto simp: next_idle_wait_def)
  have j: "4 * (base div 10 ^ 6) * 10 ^ 6 \<le> 5 * jittered_delay subsec_nanos base"
      "5 * jittered_delay subsec_nanos base \<le> 6 * base"
    using jittered_bounds [OF assms(3)] by simp_all
  from r1 r2 r3 inf idle j show ?thesis by blast
qed

theorem worker_delays_bounded_witness:
  "retry_delay 1 = 5000000 \<and> retry_delay 9 = 300000000 \<and> next_idle_wait 3 2 8 = 6 \<and>
   jittered_delay 7 (10 ^ 9) = 807 * 10 ^ 6 \<and> 5 * jittered_delay 7 (10 ^ 9) \<le> 6 * 10 ^ 9"
proof -
  have "retry_delay 1 = 5000000 \<and> retry_delay 9 = 300000000 \<and> next_idle_wait 3 2 8 = 6 \<and>
   jittered_delay 7 (10 ^ 9) = 807 * 10 ^ 6" by code_simp
  with worker_delays_bounded [of 2 8 1 9 "10 ^ 9" 1 1 3 7] show ?thesis by simp
qed

end
