(* ===== verification/Access_Control.thy ===== *)
theory Access_Control
  imports Kernel_Errors
begin

text \<open>
  Tenant identifiers (\<open>ryframe-kernel/src/tenant_id.rs\<close>), the tenant of the current request
  (\<open>ryframe-application/src/request_tenant_context.rs\<close>) and permission codes with wildcards
  (\<open>ryframe-auth/src/rbac.rs\<close>, \<open>permission.rs\<close>).
\<close>

section \<open>Tenant identifiers\<close>

definition tenant_byte :: "char \<Rightarrow> bool" where
  "tenant_byte c \<longleftrightarrow> is_ascii_alphanumeric c \<or> c = CHR ''-'' \<or> c = CHR ''_''"

definition TenantId_parse :: "string \<Rightarrow> string app_result" where
  "TenantId_parse value =
     (if \<not> (2 \<le> length value \<and> length value \<le> 64) \<or>
         \<not> (value \<noteq> [] \<and> is_ascii_alphanumeric (hd value)) \<or>
         \<not> (value \<noteq> [] \<and> is_ascii_alphanumeric (last value)) \<or>
         \<not> list_all tenant_byte value
      then Inl (Validation ''tenant ID must be 2-64 ASCII letters, digits, hyphens, or underscores and start/end with a letter or digit'')
      else Inr value)"

lemma TenantId_parse_Inr:
  "TenantId_parse v = Inr t \<Longrightarrow> t = v \<and> 2 \<le> length v \<and> length v \<le> 64 \<and> list_all tenant_byte v"
  by (auto simp: TenantId_parse_def split: if_splits)

text \<open>The tenant of a request, when the code runs inside one; a background job has none.\<close>

definition enforce_tenant_context :: "string option \<Rightarrow> string \<Rightarrow> unit app_result" where
  "enforce_tenant_context context tenant_id =
     (case context of
        Some t \<Rightarrow> if t = tenant_id then Inr () else Inl (Authorization msg_tenant_context)
      | None \<Rightarrow> Inr ())"

definition enforce_tenant_scope :: "string option \<Rightarrow> string \<Rightarrow> unit app_result" where
  "enforce_tenant_scope context tenant_id =
     bind_result (TenantId_parse tenant_id) (enforce_tenant_context context)"

definition validated_tenant_id :: "string option \<Rightarrow> string \<Rightarrow> string app_result" where
  "validated_tenant_id context actor_tenant =
     bind_result (enforce_tenant_scope context actor_tenant) (\<lambda>_. Inr actor_tenant)"

lemma validated_tenant_id_Inr:
  "validated_tenant_id ctx a = Inr t \<Longrightarrow>
     t = a \<and> length t \<le> 64 \<and> list_all tenant_byte t \<and> (ctx = None \<or> ctx = Some t)"
  unfolding validated_tenant_id_def enforce_tenant_scope_def enforce_tenant_context_def bind_result_eq_Inr
  by (cases ctx) (auto dest!: TenantId_parse_Inr split: if_splits)

section \<open>Permission codes\<close>

definition ANY_PERMISSION :: string where "ANY_PERMISSION = ''*:*:*''"

definition wildcard_match :: "string \<Rightarrow> string \<Rightarrow> bool" where
  "wildcard_match pattern required \<longleftrightarrow>
     pattern = ANY_PERMISSION \<or>
     (let pattern_parts = split_on CHR '':'' pattern; required_parts = split_on CHR '':'' required
      in length pattern_parts = length required_parts \<and>
         list_all (\<lambda>(p, r). p = ''*'' \<or> p = r) (zip pattern_parts required_parts))"

definition has_permission :: "string list \<Rightarrow> string \<Rightarrow> bool" where
  "has_permission user_perms required \<longleftrightarrow>
     trim required \<noteq> [] \<and>
     list_ex (\<lambda>p. p = required \<or> p = ANY_PERMISSION \<or> wildcard_match p required) user_perms"

definition has_role :: "string list \<Rightarrow> string \<Rightarrow> bool" where
  "has_role user_roles required \<longleftrightarrow> trim required \<noteq> [] \<and> list_ex (\<lambda>r. r = required) user_roles"

definition check_permission :: "bool \<Rightarrow> string list \<Rightarrow> string \<Rightarrow> unit app_result" where
  "check_permission is_super_admin permissions required =
     (if trim required = [] then Inl (Config ''protected route is missing its permission code'')
      else if is_super_admin \<or> has_permission permissions required then Inr ()
      else Inl (PermissionDenied (msg_perm_denied @ required)))"

lemma wildcard_match_refl: "wildcard_match p p"
proof -
  have "list_all (\<lambda>(p, r). p = ''*'' \<or> p = r) (zip xs xs)" for xs :: "string list"
    by (induction xs) auto
  then show ?thesis by (simp add: wildcard_match_def Let_def)
qed

lemma has_permission_iff:
  "has_permission perms required \<longleftrightarrow>
     trim required \<noteq> [] \<and> (\<exists>p \<in> set perms. wildcard_match p required)"
proof -
  have "p = required \<or> p = ANY_PERMISSION \<or> wildcard_match p required \<longleftrightarrow> wildcard_match p required" for p
    using wildcard_match_refl [of p] by (auto simp: wildcard_match_def)
  then show ?thesis by (auto simp: has_permission_def list_ex_iff)
qed

lemma has_permission_any: "trim required \<noteq> [] \<Longrightarrow> has_permission [ANY_PERMISSION] required"
  by (simp add: has_permission_def)

end
