(* ===== verification/Job_Service.thy ===== *)
theory Job_Service
  imports Workers Job_Guarantees Access_Control
begin

text \<open>
  The application's side of the job queue (\<open>ryframe-application/src/jobs/queue.rs\<close>, \<open>queue/filters.rs\<close>,
  \<open>queue/model.rs\<close>): the view of a job and its filters, the manual retry with its checks of tenant,
  permission and ownership, and the loop that drains the expired leases.
\<close>

section \<open>Views and filters\<close>

definition manual_retry_permission :: "string \<Rightarrow> string option" where
  "manual_retry_permission job_type =
     (if job_type = ''system.tenant_config.export'' then Some ''platform:config-package:export''
      else if job_type = ''system.tenant_config.preview'' then Some ''platform:config-transfer:preview''
      else if job_type = ''system.tenant_config.apply'' then Some ''platform:config-transfer:apply''
      else if job_type = ''system.tenant_config.rollback'' then Some ''platform:config-transfer:rollback''
      else None)"

definition public_job_error :: "string \<Rightarrow> string option \<Rightarrow> string option" where
  "public_job_error job_type error =
     map_option (\<lambda>e.
       if job_type = ''system.tenant_config.export'' then msg_public_export
       else if job_type = ''system.tenant_config.preview'' then msg_public_preview
       else if job_type = ''system.tenant_config.apply'' then msg_public_apply
       else if job_type = ''system.tenant_config.rollback'' then msg_public_rollback
       else e) error"

definition normalize_job_type_filter :: "string option \<Rightarrow> string option app_result" where
  "normalize_job_type_filter value =
     (case value of
        None \<Rightarrow> Inr None
      | Some v \<Rightarrow>
          if trim v = [] \<or> 96 < length (trim v) then Inl (Validation msg_filter_type)
          else Inr (Some (trim v)))"

definition normalize_schedule_id_filter :: "string option \<Rightarrow> int option app_result" where
  "normalize_schedule_id_filter value =
     (case value of
        None \<Rightarrow> Inr None
      | Some v \<Rightarrow>
          (case parse_i64 (trim v) of
             Some i \<Rightarrow> if 0 < i then Inr (Some i) else Inl (Validation msg_filter_schedule)
           | None \<Rightarrow> Inl (Validation msg_filter_schedule)))"

definition normalize_job_status_filter :: "string option \<Rightarrow> string option app_result" where
  "normalize_job_status_filter value =
     (case value of
        None \<Rightarrow> Inr None
      | Some v \<Rightarrow>
          if trim v \<in> {bj_STATUS_PENDING, bj_STATUS_RUNNING, bj_STATUS_SUCCEEDED, bj_STATUS_DEAD}
          then Inr (Some (trim v)) else Inl (Validation msg_filter_status))"

record BackgroundJobVo =
  bv_id :: string
  bv_schedule_id :: "string option"
  bv_scheduled_for :: "timestamp option"
  bv_max_runtime_seconds :: "int option"
  bv_job_type :: string
  bv_status :: string
  bv_priority :: int
  bv_available_at :: timestamp
  bv_attempts :: int
  bv_max_attempts :: int
  bv_lease_owner :: "string option"
  bv_lease_until :: "timestamp option"
  bv_dedupe_key :: "string option"
  bv_last_error :: "string option"
  bv_created_at :: timestamp
  bv_updated_at :: timestamp
  bv_completed_at :: "timestamp option"

definition job_vo :: "background_job \<Rightarrow> BackgroundJobVo" where
  "job_vo j =
     \<lparr>bv_id = show_int (bj_id j), bv_schedule_id = map_option show_int (bj_schedule_id j),
      bv_scheduled_for = bj_scheduled_for j, bv_max_runtime_seconds = bj_max_runtime_seconds j,
      bv_job_type = bj_job_type j, bv_status = bj_status j, bv_priority = bj_priority j,
      bv_available_at = bj_available_at j, bv_attempts = bj_attempts j,
      bv_max_attempts = bj_max_attempts j, bv_lease_owner = bj_lease_owner j,
      bv_lease_until = bj_lease_until j, bv_dedupe_key = bj_dedupe_key j,
      bv_last_error = public_job_error (bj_job_type j) (bj_last_error j),
      bv_created_at = bj_created_at j, bv_updated_at = bj_updated_at j,
      bv_completed_at = bj_completed_at j\<rparr>"

section \<open>Manual retry\<close>

text \<open>The caller as far as the retry reads it.\<close>

record retry_principal =
  rq_tenant_id :: string
  rq_user_id :: int
  rq_is_super_admin :: bool
  rq_permissions :: "string list"

definition config_job_kind :: "string \<Rightarrow> ConfigTransferJobKind option option" where
  "config_job_kind job_type =
     (if job_type = ''system.tenant_config.export'' then Some None
      else if job_type = ''system.tenant_config.preview'' then Some (Some Preview)
      else if job_type = ''system.tenant_config.apply'' then Some (Some Apply)
      else if job_type = ''system.tenant_config.rollback'' then Some (Some Rollback)
      else None)"

definition transfer_job_owner ::
  "string \<Rightarrow> int \<Rightarrow> ConfigTransferJobKind \<Rightarrow> control_db \<Rightarrow> int option" where
  "transfer_job_owner tenant_id job_id kind db =
     map_option ct_requested_by
       (find (\<lambda>r. ct_tenant_id r = tenant_id \<and> transfer_job_id kind r = Some job_id) (db_transfers db))"

definition tenant_config_job_owner ::
  "string \<Rightarrow> int \<Rightarrow> ConfigTransferJobKind option \<Rightarrow> control_db \<Rightarrow> int option" where
  "tenant_config_job_owner tenant_id job_id kind db =
     (case kind of
        None \<Rightarrow> map_option cfb_created_by
          (find (\<lambda>r. cfb_tenant_id r = tenant_id \<and> cfb_background_job_id r = Some job_id) (db_bundles db))
      | Some k \<Rightarrow> transfer_job_owner tenant_id job_id k db)"

definition ensure_tenant_config_retry_owner ::
  "string option \<Rightarrow> retry_principal \<Rightarrow> background_job \<Rightarrow> control_db \<Rightarrow> unit app_result" where
  "ensure_tenant_config_retry_owner ctx p job db =
     bind_result (validated_tenant_id ctx (rq_tenant_id p)) (\<lambda>tenant_id.
       if manual_retry_permission (bj_job_type job) \<noteq> None \<and> bj_tenant_id job \<noteq> Some tenant_id
       then Inl (NotFound msg_retry_cfg_denied)
       else
         (case config_job_kind (bj_job_type job) of
            None \<Rightarrow> Inr ()
          | Some kind \<Rightarrow>
              (case tenant_config_job_owner tenant_id (bj_id job) kind db of
                 None \<Rightarrow> Inl (NotFound msg_retry_cfg_missing)
               | Some owner_id \<Rightarrow>
                   if owner_id \<noteq> rq_user_id p then Inl (Authorization msg_retry_cfg_owner) else Inr ())))"

text \<open>
  The checks read the job and its owner before the transition, which checks again under the row
  lock: \<open>seen\<close> and \<open>seen_owner\<close> are the databases of the two reads, \<open>db\<close> the one the transition
  meets and \<open>later\<close> what others commit before the job is read back.
\<close>

definition retry_checks ::
  "string option \<Rightarrow> retry_principal \<Rightarrow> int \<Rightarrow> control_db \<Rightarrow> control_db \<Rightarrow> string app_result" where
  "retry_checks ctx p job_id seen seen_owner =
     (if job_id \<le> 0 then Inl (Validation msg_retry_id)
      else bind_result (validated_tenant_id ctx (rq_tenant_id p)) (\<lambda>tenant_id.
        case find_by_id_for_tenant tenant_id (tenant_id = ''system'') job_id seen of
          None \<Rightarrow> Inl (NotFound msg_retry_missing)
        | Some existing \<Rightarrow>
            if bj_status existing \<noteq> bj_STATUS_DEAD then Inl (Conflict msg_retry_not_dead)
            else bind_result
              (case manual_retry_permission (bj_job_type existing) of
                 Some required \<Rightarrow>
                   if \<not> rq_is_super_admin p \<and> \<not> has_permission (rq_permissions p) required
                   then Inl (Authorization (msg_retry_permission @ required)) else Inr ()
               | None \<Rightarrow> Inr ()) (\<lambda>_.
              bind_result (ensure_tenant_config_retry_owner ctx p existing seen_owner) (\<lambda>_. Inr tenant_id))))"

definition retry_dead_for_tenant ::
  "string option \<Rightarrow> retry_principal \<Rightarrow> int \<Rightarrow> control_db \<Rightarrow> control_db \<Rightarrow> timestamp app_result \<Rightarrow>
   (control_db \<Rightarrow> control_db) \<Rightarrow> control_db \<Rightarrow> BackgroundJobVo app_result \<times> control_db" where
  "retry_dead_for_tenant ctx p job_id seen seen_owner clock later db =
     (case bind_result (retry_checks ctx p job_id seen seen_owner) (\<lambda>tenant_id.
           bind_result clock (\<lambda>now.
           bind_result (retry_dead tenant_id (tenant_id = ''system'') job_id (rq_user_id p) now db)
             (\<lambda>(outcome, db1). Inr (tenant_id, outcome, db1)))) of
        Inl e \<Rightarrow> (Inl e, db)
      | Inr (tenant_id, outcome, db1) \<Rightarrow>
          (case outcome of
             Retried _ \<Rightarrow>
               (case find_by_id_for_tenant tenant_id (tenant_id = ''system'') job_id (later db1) of
                  Some j \<Rightarrow> (Inr (job_vo j), db1)
                | None \<Rightarrow> (Inl (Internal msg_retry_unreadable), db1))
           | Completed \<Rightarrow> (Inl (Conflict msg_retry_done), db1)
           | Dead \<Rightarrow> (Inl (Conflict msg_retry_dead), db1)
           | LeaseLost \<Rightarrow> (Inl (Conflict msg_retry_changed), db1)))"

section \<open>Draining the expired leases\<close>

text \<open>The sum saturates at the maximum of \<open>u64\<close>, far above the batch size.\<close>

definition recovered_batch_is_full :: "ExpiredLeaseRecovery \<Rightarrow> bool" where
  "recovered_batch_is_full recovered \<longleftrightarrow>
     500 \<le> min (2 ^ 64 - 1) (min (2 ^ 64 - 1) (requeued recovered + dead recovered) + completed recovered)"

text \<open>
  One moment and the rows locked at it per batch; \<open>None\<close> when the loop has not ended after the given
  batches.
\<close>

fun recover_until_drained ::
  "ExecutionTenantFilter \<Rightarrow> (moment \<times> (int \<Rightarrow> bool)) list \<Rightarrow> control_db \<Rightarrow>
   (unit app_result \<times> control_db) option" where
  "recover_until_drained scope [] db = None"
| "recover_until_drained scope ((m, locked) # ms) db =
     (case at_moment m (\<lambda>now. recover_expired_leases now scope locked) db of
        (Inl e, db1) \<Rightarrow> Some (Inl e, db1)
      | (Inr recovered, db1) \<Rightarrow>
          if recovered_batch_is_full recovered then recover_until_drained scope ms db1
          else Some (Inr (), db1))"

section \<open>Facts for the properties\<close>

lemma batch_full_iff: "recovered_batch_is_full rec \<longleftrightarrow> 500 \<le> total rec"
  by (auto simp: recovered_batch_is_full_def total_def min_def)

definition running_ids :: "control_db \<Rightarrow> int set" where
  "running_ids db = {i. \<exists>j. find_by_id i db = Some j \<and> bj_status j = bj_STATUS_RUNNING}"

lemma running_ids_eq:
  assumes "db_ok db"
  shows "running_ids db = bj_id ` {j \<in> set (db_jobs db). bj_status j = bj_STATUS_RUNNING}"
  using assms db_okD(1,2) [OF assms] unique_row_get [of bj_id "db_jobs db"]
  by (force simp: running_ids_def db_ok_def core_ok_def find_by_id_def)

lemma finite_running [simp]: "db_ok db \<Longrightarrow> finite (running_ids db)"
  by (simp add: running_ids_eq)

lemma batch_running:
  assumes ok: "db_ok db" and r: "recover_expired_leases now scope locked db = Inr (rec, db')"
  shows "db_ok db'" "card (running_ids db') + total rec = card (running_ids db)"
    "total rec < 500 \<Longrightarrow> \<forall>j \<in> set (db_jobs db'). lease_expired now scope j \<longrightarrow> locked (bj_id j)"
proof -
  note R = recover_ok [OF ok r]
  let ?q = "expired_query now scope locked db"
  let ?ids = "bj_id ` set ?q"
  show ok': "db_ok db'" using R by blast
  have left: "i \<in> ?ids \<Longrightarrow> i \<notin> running_ids db'" for i
    using R by (force simp: running_ids_def settles_def)
  have kept: "i \<notin> ?ids \<Longrightarrow> i \<in> running_ids db' \<longleftrightarrow> i \<in> running_ids db" for i
    using R by (simp add: running_ids_def)
  have sub: "?ids \<subseteq> running_ids db"
    using expired_query_jobs [OF ok] by (force simp: running_ids_def lease_expired_def)
  have "running_ids db' = running_ids db - ?ids" using left kept by blast
  moreover have "card ?ids = total rec"
    using R distinct_card [OF expired_query_distinct [OF ok, of now scope locked]] by simp
  ultimately show "card (running_ids db') + total rec = card (running_ids db)"
    using card_Diff_subset [OF _ sub] card_mono [OF finite_running [OF ok] sub] by simp
  assume t: "total rec < 500"
  show "\<forall>j \<in> set (db_jobs db'). lease_expired now scope j \<longrightarrow> locked (bj_id j)"
  proof (intro ballI impI)
    fix j assume j: "j \<in> set (db_jobs db')" "lease_expired now scope j"
    have f: "find_by_id (bj_id j) db' = Some j"
      using ok' j(1) unique_row_get [of bj_id "db_jobs db'" j] by (simp add: db_ok_def core_ok_def find_by_id_def)
    with j(2) have "bj_id j \<in> running_ids db'" by (auto simp: running_ids_def lease_expired_def)
    then have out: "bj_id j \<notin> ?ids" using left by blast
    with f R have "find_by_id (bj_id j) db = Some j" by simp
    then have "j \<in> set (db_jobs db)" by (rule db_okD(1) [OF ok])
    moreover have "set ?q = {j \<in> set (db_jobs db). lease_expired now scope j \<and> \<not> locked (bj_id j)}"
      using R t unfolding expired_query_def by simp
    ultimately show "locked (bj_id j)" using out j(2) by blast
  qed
qed

lemma retry_changes:
  assumes "retry_dead_for_tenant ctx p job_id seen seen_owner clock later db = (r, db')" "db' \<noteq> db"
  obtains existing now outcome where
    "find_by_id_for_tenant (rq_tenant_id p) (rq_tenant_id p = ''system'') job_id seen = Some existing"
    "validated_tenant_id ctx (rq_tenant_id p) = Inr (rq_tenant_id p)"
    "case manual_retry_permission (bj_job_type existing) of None \<Rightarrow> True
       | Some required \<Rightarrow> rq_is_super_admin p \<or> has_permission (rq_permissions p) required"
    "ensure_tenant_config_retry_owner ctx p existing seen_owner = Inr ()"
    "retry_dead (rq_tenant_id p) (rq_tenant_id p = ''system'') job_id (rq_user_id p) now db = Inr (outcome, db')"
proof -
  let ?q = "bind_result (retry_checks ctx p job_id seen seen_owner) (\<lambda>tenant_id.
           bind_result clock (\<lambda>now.
           bind_result (retry_dead tenant_id (tenant_id = ''system'') job_id (rq_user_id p) now db)
             (\<lambda>(outcome, db1). Inr (tenant_id, outcome, db1))))"
  obtain tn outcome db1 where q: "?q = Inr (tn, outcome, db1)"
  proof (cases ?q)
    case (Inl e)
    with assms show thesis by (simp add: retry_dead_for_tenant_def)
  next
    case (Inr y)
    with that show thesis by (cases y) auto
  qed
  with assms(1) have db1: "db1 = db'"
    by (cases outcome) (auto simp: retry_dead_for_tenant_def split: option.splits)
  from q obtain now where c: "retry_checks ctx p job_id seen seen_owner = Inr tn"
    and r: "retry_dead tn (tn = ''system'') job_id (rq_user_id p) now db = Inr (outcome, db1)"
    by (auto elim!: bind_resultE)
  from c have v: "validated_tenant_id ctx (rq_tenant_id p) = Inr tn"
    by (auto simp: retry_checks_def bind_result_eq_Inr split: if_splits option.splits)
  then have tn: "tn = rq_tenant_id p" using validated_tenant_id_Inr [OF v] by simp
  from c v obtain existing where e: "find_by_id_for_tenant tn (tn = ''system'') job_id seen = Some existing"
    by (auto simp: retry_checks_def split: if_splits option.splits)
  with c v have "case manual_retry_permission (bj_job_type existing) of None \<Rightarrow> True
       | Some required \<Rightarrow> rq_is_super_admin p \<or> has_permission (rq_permissions p) required"
    "ensure_tenant_config_retry_owner ctx p existing seen_owner = Inr ()"
    by (auto simp: retry_checks_def bind_result_eq_Inr split: if_splits option.splits)
  with that [of existing now outcome] e v r tn db1 show thesis by simp
qed

section \<open>Properties\<close>

text \<open>
  A manual retry needs authority: when it changes anything, the job was dead and is one of the
  caller's tenant (or of the platform, for the system tenant), the request's tenant context agrees,
  and for a configuration job the caller holds the permission of its kind, or is a super
  administrator, and is the user who requested that bundle or transfer, whatever changed between
  the checks and the transition.
\<close>

theorem retry_authorized:
  assumes "retry_dead_for_tenant ctx p job_id seen seen_owner clock later db = (r, db')" "db' \<noteq> db"
    and "\<forall>j j'. find_by_id job_id seen = Some j \<and> find_by_id job_id db = Some j' \<longrightarrow> bj_job_type j = bj_job_type j'"
  shows "\<exists>job. find_by_id job_id db = Some job \<and> bj_status job = bj_STATUS_DEAD \<and>
    (bj_tenant_id job = Some (rq_tenant_id p) \<or> rq_tenant_id p = ''system'' \<and> bj_tenant_id job = None) \<and>
    (ctx = None \<or> ctx = Some (rq_tenant_id p)) \<and>
    (case manual_retry_permission (bj_job_type job) of
       None \<Rightarrow> True
     | Some required \<Rightarrow>
         (rq_is_super_admin p \<or> has_permission (rq_permissions p) required) \<and>
         is_tenant_config_job_owner db job (rq_tenant_id p) (rq_user_id p))"
proof -
  obtain existing now outcome where
    e: "find_by_id_for_tenant (rq_tenant_id p) (rq_tenant_id p = ''system'') job_id seen = Some existing"
      "validated_tenant_id ctx (rq_tenant_id p) = Inr (rq_tenant_id p)"
      "case manual_retry_permission (bj_job_type existing) of None \<Rightarrow> True
         | Some required \<Rightarrow> rq_is_super_admin p \<or> has_permission (rq_permissions p) required"
    and r: "retry_dead (rq_tenant_id p) (rq_tenant_id p = ''system'') job_id (rq_user_id p) now db = Inr (outcome, db')"
    using retry_changes [OF assms(1,2)] by blast
  have ctx: "ctx = None \<or> ctx = Some (rq_tenant_id p)" using validated_tenant_id_Inr [OF e(2)] by simp
  from r show ?thesis
  proof (cases rule: retry_deadE)
    case lost
    with assms(2) show ?thesis by simp
  next
    case (retried job res db1 d2 db2)
    have "find_by_id job_id seen = Some existing"
      using e(1) by (auto simp: find_by_id_for_tenant_def split: option.splits if_splits)
    with assms(3) retried(1) have ty: "bj_job_type existing = bj_job_type job" by blast
    have own: "is_tenant_config_job_owner db job (rq_tenant_id p) (rq_user_id p)"
      if "manual_retry_permission (bj_job_type job) = Some required" for required
    proof -
      have "is_tenant_config_job (bj_job_type job)"
        using that by (simp add: manual_retry_permission_def is_tenant_config_job_def job_type_defs split: if_splits)
      then show ?thesis by (rule retried(4))
    qed
    have "bj_tenant_id job = Some (rq_tenant_id p) \<or> rq_tenant_id p = ''system'' \<and> bj_tenant_id job = None"
      using retried(3) by (auto simp: tenant_visible_def)
    with retried(1,2) ctx e(3) own show ?thesis unfolding ty by (auto split: option.splits)
  qed
qed

definition export_job_7 :: background_job where
  "export_job_7 = (new_job 7 sample_command 50)\<lparr>bj_job_type := TENANT_CONFIG_EXPORT_JOB_TYPE,
     bj_payload := JObject [(''bundle_id'', JString ''31'')], bj_status := bj_STATUS_DEAD,
     bj_attempts := 1, bj_claim_sequence := 1, bj_completed_at := Some 90\<rparr>"

definition export_db :: control_db where
  "export_db = empty_db\<lparr>db_jobs := [export_job_7], db_bundles :=
     [\<lparr>cfb_id = 31, cfb_tenant_id = ''acme'', cfb_origin = cfb_ORIGIN_GENERATED,
       cfb_source_tenant_key = ''acme'', cfb_source_tenant_name_snapshot = ''Acme'',
       cfb_package_schema_version = ''1'', cfb_source_app_version = ''1'', cfb_file_id = None,
       cfb_sha256 = None, cfb_resource_counts = JNull, cfb_item_count = 0,
       cfb_status = ''failed'', cfb_background_job_id = Some 7, cfb_idempotency_key_hash = None,
       cfb_created_by = 5, cfb_error_summary = None, cfb_expires_at = None, cfb_created_at = 50,
       cfb_updated_at = 60\<rparr>]\<rparr>"

definition export_principal :: "int \<Rightarrow> string list \<Rightarrow> retry_principal" where
  "export_principal user permissions = \<lparr>rq_tenant_id = ''acme'', rq_user_id = user,
     rq_is_super_admin = False, rq_permissions = permissions\<rparr>"

theorem retry_authorized_witness:
  "is_tenant_config_job_owner export_db export_job_7 ''acme'' 5 \<and>
   has_permission [''platform:config-package:*''] ''platform:config-package:export'' \<and>
   isl (fst (retry_dead_for_tenant None (export_principal 6 [''*:*:*'']) 7 export_db export_db (Inr 100) id export_db)) \<and>
   isl (fst (retry_dead_for_tenant None (export_principal 5 []) 7 export_db export_db (Inr 100) id export_db))"
proof -
  let ?p = "export_principal 5 [''platform:config-package:*'']"
  let ?out = "retry_dead_for_tenant None ?p 7 export_db export_db (Inr 100) id export_db"
  have "map bj_status (db_jobs (snd ?out)) \<noteq> map bj_status (db_jobs export_db)" by code_simp
  then have ne: "snd ?out \<noteq> export_db" by auto
  have f: "find_by_id 7 export_db = Some export_job_7"
    by (simp add: find_by_id_def row_get_def export_db_def export_job_7_def new_job_def)
  from retry_authorized [OF prod.collapse [symmetric] ne] f
  have "is_tenant_config_job_owner export_db export_job_7 ''acme'' 5 \<and>
      has_permission [''platform:config-package:*''] ''platform:config-package:export''"
    by (auto simp: export_job_7_def manual_retry_permission_def job_type_defs export_principal_def)
  moreover have "isl (fst (retry_dead_for_tenant None (export_principal 6 [''*:*:*'']) 7 export_db export_db (Inr 100) id export_db))"
    by code_simp
  moreover have "isl (fst (retry_dead_for_tenant None (export_principal 5 []) 7 export_db export_db (Inr 100) id export_db))"
    by code_simp
  ultimately show ?thesis by blast
qed


text \<open>
  Meanwhile other processes may do anything that keeps the tables valid and claims no job: finish,
  fail or renew running jobs, enqueue, change linked rows, start and end attempts of their own.
\<close>

definition no_new_claims :: "moment \<Rightarrow> bool" where
  "no_new_claims m \<longleftrightarrow>
     (\<forall>db. db_ok db \<longrightarrow> db_ok (mo_others m db) \<and> running_ids (mo_others m db) \<subseteq> running_ids db)"

text \<open>Undisturbed, every batch commits when no running job has a linked row.\<close>

definition commits_undisturbed :: "(moment \<times> (int \<Rightarrow> bool)) list \<Rightarrow> control_db \<Rightarrow> bool" where
  "commits_undisturbed ms db \<longleftrightarrow>
     (\<forall>x \<in> set ms. mo_others (fst x) = id \<and> (\<exists>now. mo_now (fst x) = Inr now \<and> started_by now db)) \<and>
     (\<forall>j \<in> set (db_jobs db). bj_status j = bj_STATUS_RUNNING \<longrightarrow> bj_job_type j \<notin> linked_job_types)"

lemma undisturbed_batch:
  assumes ok: "db_ok db" and u: "commits_undisturbed (x # ms) db"
    and r: "recover_expired_leases now scope locked db = Inr (rec, db')"
  shows "commits_undisturbed ms db'"
proof -
  note R = recover_ok [OF ok r]
  have "bj_job_type j \<notin> linked_job_types" if j: "j \<in> set (db_jobs db')" "bj_status j = bj_STATUS_RUNNING" for j
  proof -
    have f: "find_by_id (bj_id j) db' = Some j"
      using R j(1) unique_row_get [of bj_id "db_jobs db'" j] by (simp add: db_ok_def core_ok_def find_by_id_def)
    have "bj_id j \<notin> bj_id ` set (expired_query now scope locked db)"
      using R f j(2) by (force simp: settles_def)
    with R f have "find_by_id (bj_id j) db = Some j" by simp
    with u j(2) db_okD(1) [OF ok] show ?thesis unfolding commits_undisturbed_def by blast
  qed
  moreover have "started_by t db'" if "started_by t db" for t
    by (rule recover_started [OF r that])
  ultimately show ?thesis using u unfolding commits_undisturbed_def by (metis list.set_intros(2))
qed

lemma undisturbed_commits:
  assumes "db_ok db" "commits_undisturbed ((m, locked) # ms) db"
  shows "\<exists>now rec db'. mo_now m = Inr now \<and> mo_others m db = db \<and>
    recover_expired_leases now scope locked db = Inr (rec, db')"
proof -
  from assms(2) obtain now where n: "mo_others m = id" "mo_now m = Inr now" "started_by now db"
    by (auto simp: commits_undisturbed_def)
  have "\<forall>j \<in> set (db_jobs db). lease_expired now scope j \<longrightarrow> bj_job_type j \<notin> linked_job_types"
    using assms(2) by (auto simp: commits_undisturbed_def lease_expired_def)
  from recovery_total [OF assms(1) n(3) this] n show ?thesis by auto
qed

text \<open>
  C35. The recovery loop ends. Every full batch frees at least five hundred running jobs; so while
  other processes claim no job, the loop returns after at most one batch more than a five-hundredth
  of the running jobs. When it returns without an error, no lease is left that had expired by the
  clock of its last batch and whose job was not locked by others then. It does return without an
  error when it is undisturbed, the clock is not behind the starts of the attempts and no running
  job has a linked business row; a job whose linked row is missing makes it return the error of its
  batch, with that batch undone and its expired leases left as they were.
\<close>

theorem recovery_drains:
  assumes "db_ok db" "\<forall>x \<in> set ms. no_new_claims (fst x)" "card (running_ids db) < 500 * length ms"
  shows "\<exists>r db'. recover_until_drained scope ms db = Some (r, db') \<and>
    (r = Inr () \<longrightarrow> (\<exists>x \<in> set ms. \<exists>now. mo_now (fst x) = Inr now \<and>
       (\<forall>j \<in> set (db_jobs db'). lease_expired now scope j \<longrightarrow> snd x (bj_id j)))) \<and>
    (commits_undisturbed ms db \<longrightarrow> r = Inr ())"
  using assms
proof (induction ms arbitrary: db)
  case (Cons x ms)
  obtain m locked where x: "x = (m, locked)" by (cases x)
  let ?db = "mo_others m db"
  have ok: "db_ok ?db" and sub: "running_ids ?db \<subseteq> running_ids db"
    using Cons.prems(1,2) x by (auto simp: no_new_claims_def)
  have fewer: "card (running_ids ?db) \<le> card (running_ids db)"
    using card_mono [OF finite_running [OF Cons.prems(1)] sub] .
  show ?case
  proof (cases "bind_result (mo_now m) (\<lambda>now. recover_expired_leases now scope locked ?db)")
    case (Inl e)
    have "\<not> commits_undisturbed (x # ms) db"
      using undisturbed_commits [OF Cons.prems(1), of m locked ms scope] Inl x by auto
    with Inl show ?thesis by (simp add: x at_moment_def)
  next
    case (Inr y)
    obtain rec db1 where y: "y = (rec, db1)" by (cases y)
    with Inr obtain now where now: "mo_now m = Inr now" "recover_expired_leases now scope locked ?db = Inr (rec, db1)"
      by (auto simp: bind_result_eq_Inr)
    note B = batch_running [OF ok now(2)]
    have step: "recover_until_drained scope (x # ms) db =
        (if recovered_batch_is_full rec then recover_until_drained scope ms db1 else Some (Inr (), db1))"
      using now by (simp add: x at_moment_def Let_def)
    show ?thesis
    proof (cases "500 \<le> total rec")
      case True
      with B(2) Cons.prems(3) fewer have "card (running_ids db1) < 500 * length ms" by simp
      with Cons.IH [OF B(1)] Cons.prems(2) obtain r db' where
        i: "recover_until_drained scope ms db1 = Some (r, db')"
          "r = Inr () \<longrightarrow> (\<exists>x \<in> set ms. \<exists>now. mo_now (fst x) = Inr now \<and>
             (\<forall>j \<in> set (db_jobs db'). lease_expired now scope j \<longrightarrow> snd x (bj_id j)))"
          "commits_undisturbed ms db1 \<longrightarrow> r = Inr ()" by auto
      have "recover_until_drained scope (x # ms) db = Some (r, db')"
        using step i(1) True by (simp add: batch_full_iff)
      moreover have "r = Inr ()" if "commits_undisturbed (x # ms) db"
      proof -
        have "?db = db" using that x by (simp add: commits_undisturbed_def)
        with undisturbed_batch [OF Cons.prems(1) that] now(2) i(3) show ?thesis by simp
      qed
      ultimately show ?thesis using i(2) by (meson list.set_intros(2))
    next
      case False
      with B(3) now(1) step show ?thesis by (auto simp: batch_full_iff x)
    qed
  qed
qed simp

theorem recovery_drains_witness:
  "\<exists>db'. recover_until_drained None [(\<lparr>mo_others = id, mo_now = Inr 300\<rparr>, \<lambda>_. False)] sample_claimed_db =
     Some (Inr (), db') \<and> (\<forall>j \<in> set (db_jobs db'). \<not> lease_expired 300 None j)"
proof -
  let ?ms = "[(\<lparr>mo_others = id, mo_now = Inr 300\<rparr> :: moment, \<lambda>_ :: int. False)]"
  have ok: "db_ok sample_claimed_db" using reachable_inv [OF sample_claimed_reachable] by (simp add: queue_inv_def)
  have "running_ids sample_claimed_db \<subseteq> {7}"
    unfolding running_ids_eq [OF ok] by (auto simp: sample_claimed_db_def sample_claimed_def new_job_def)
  then have "card (running_ids sample_claimed_db) \<le> 1" using card_mono [of "{7 :: int}"] by simp
  moreover have "commits_undisturbed ?ms sample_claimed_db"
    by (auto simp: commits_undisturbed_def started_by_def sample_claimed_db_def sample_claimed_def new_job_def
        sample_command_def linked_job_types_def job_type_defs)
  ultimately show ?thesis
    using recovery_drains [OF ok, of ?ms None] by (auto simp: no_new_claims_def)
qed

end
