(* ===== verification/Outbox.thy ===== *)
theory Outbox
  imports Tables Kernel_Errors Job_Types Leases
begin

text \<open>
  \<open>crates/ryframe-db/src/repositories/outbox_event_repo.rs\<close>: the transactional outbox. The table
  is a list of rows; a call is one transaction, except that an event is recorded and marked as
  published inside the caller's transaction, which then commits or is rolled back as a whole.
\<close>

section \<open>Rows and checks\<close>

record outbox_event =
  ob_id :: int
  ob_tenant_id :: "string option"
  ob_event_type :: string
  ob_aggregate_type :: string
  ob_aggregate_id :: string
  ob_payload :: json
  ob_status :: string
  ob_available_at :: timestamp
  ob_attempts :: int
  ob_max_attempts :: int
  ob_lease_owner :: "string option"
  ob_lease_until :: "timestamp option"
  ob_dedupe_key :: "string option"
  ob_traceparent :: "string option"
  ob_tracestate :: "string option"
  ob_last_error :: "string option"
  ob_published_at :: "timestamp option"
  ob_created_at :: timestamp
  ob_updated_at :: timestamp

abbreviation ob_STATUS_PENDING :: string where "ob_STATUS_PENDING \<equiv> ''pending''"
abbreviation ob_STATUS_RUNNING :: string where "ob_STATUS_RUNNING \<equiv> ''running''"
abbreviation ob_STATUS_PUBLISHED :: string where "ob_STATUS_PUBLISHED \<equiv> ''published''"
abbreviation ob_STATUS_DEAD :: string where "ob_STATUS_DEAD \<equiv> ''dead''"

type_synonym outbox = "outbox_event list"

record RecordOutboxEvent =
  rec_tenant_id :: "string option"
  rec_event_type :: string
  rec_aggregate_type :: string
  rec_aggregate_id :: string
  rec_payload :: json
  rec_available_at :: timestamp
  rec_max_attempts :: int
  rec_dedupe_key :: "string option"
  rec_traceparent :: "string option"
  rec_tracestate :: "string option"

datatype OutboxFailureDisposition = OB_Retried timestamp | OB_Dead | OB_LeaseLost

definition ob_bad :: "('a \<Rightarrow> bool) \<Rightarrow> 'a option \<Rightarrow> bool" where
  "ob_bad bad v = (case v of Some x \<Rightarrow> bad x | None \<Rightarrow> False)"

definition ob_length_error :: "string \<Rightarrow> nat \<Rightarrow> app_error" where
  "ob_length_error field maximum =
     Validation (field @ msg_outbox_len_1 @ show_nat maximum @ msg_outbox_len_2)"

definition validate_event :: "RecordOutboxEvent \<Rightarrow> unit app_result" where
  "validate_event e =
     first_error
       [(rec_event_type e = [] \<or> 96 < length (rec_event_type e), ob_length_error ''event_type'' 96),
        (rec_aggregate_type e = [] \<or> 64 < length (rec_aggregate_type e), ob_length_error ''aggregate_type'' 64),
        (rec_aggregate_id e = [] \<or> 128 < length (rec_aggregate_id e), ob_length_error ''aggregate_id'' 128),
        (\<not> (1 \<le> rec_max_attempts e \<and> rec_max_attempts e \<le> 20), Validation msg_outbox_max_attempts),
        (ob_bad (\<lambda>k. k = [] \<or> 191 < length k) (rec_dedupe_key e), Validation msg_outbox_dedupe),
        (ob_bad (\<lambda>v. 255 < length v) (rec_traceparent e), Validation msg_outbox_traceparent),
        (ob_bad (\<lambda>v. 512 < length v) (rec_tracestate e), Validation msg_outbox_tracestate)] ()"

definition ob_validate_lease :: "string \<Rightarrow> duration \<Rightarrow> unit app_result" where
  "ob_validate_lease worker_id lease_duration =
     first_error
       [(worker_id = [] \<or> 128 < length worker_id, Validation msg_outbox_worker),
        (lease_duration \<le> 0, Validation msg_outbox_lease)] ()"

definition ob_truncate_error :: "string \<Rightarrow> string" where
  "ob_truncate_error error = truncate_bytes 4000 error"

section \<open>Recording\<close>

definition ob_find :: "int \<Rightarrow> outbox \<Rightarrow> outbox_event option" where
  "ob_find event_id t = row_get ob_id event_id t"

definition ob_find_by_dedupe_key :: "string \<Rightarrow> string \<Rightarrow> outbox \<Rightarrow> outbox_event option" where
  "ob_find_by_dedupe_key event_type dedupe_key t =
     find (\<lambda>e. ob_event_type e = event_type \<and> ob_dedupe_key e = Some dedupe_key) t"

definition new_event :: "int \<Rightarrow> RecordOutboxEvent \<Rightarrow> timestamp \<Rightarrow> outbox_event" where
  "new_event new_id e now =
     \<lparr>ob_id = new_id, ob_tenant_id = rec_tenant_id e, ob_event_type = rec_event_type e,
      ob_aggregate_type = rec_aggregate_type e, ob_aggregate_id = rec_aggregate_id e,
      ob_payload = rec_payload e, ob_status = ob_STATUS_PENDING, ob_available_at = rec_available_at e,
      ob_attempts = 0, ob_max_attempts = rec_max_attempts e, ob_lease_owner = None,
      ob_lease_until = None, ob_dedupe_key = rec_dedupe_key e, ob_traceparent = rec_traceparent e,
      ob_tracestate = rec_tracestate e, ob_last_error = None, ob_published_at = None,
      ob_created_at = now, ob_updated_at = now\<rparr>"

definition insert_event :: "outbox_event \<Rightarrow> outbox \<Rightarrow> outbox option" where
  "insert_event e t =
     (if ob_id e \<in> ob_id ` set t \<or>
         (\<exists>x \<in> set t. ob_event_type x = ob_event_type e \<and> ob_dedupe_key x \<noteq> None \<and>
            ob_dedupe_key x = ob_dedupe_key e)
      then None else Some (e # t))"

text \<open>As for jobs, \<open>t1\<close> is the table the precheck reads and \<open>t2\<close> the one the insertion meets.\<close>

definition record_in_transaction ::
  "int app_result \<Rightarrow> RecordOutboxEvent \<Rightarrow> timestamp \<Rightarrow> outbox \<Rightarrow> outbox \<Rightarrow>
   (outbox_event \<times> outbox) app_result" where
  "record_in_transaction next_id e now t1 t2 =
     bind_result (validate_event e) (\<lambda>_.
     case Option.bind (rec_dedupe_key e) (\<lambda>k. ob_find_by_dedupe_key (rec_event_type e) k t1) of
       Some existing \<Rightarrow> Inr (existing, t2)
     | None \<Rightarrow>
         bind_result next_id (\<lambda>new_id.
         case insert_event (new_event new_id e now) t2 of
           Some t' \<Rightarrow> Inr (new_event new_id e now, t')
         | None \<Rightarrow>
             (case rec_dedupe_key e of
                None \<Rightarrow> Inl (Database msg_outbox_dup_no_key)
              | Some k \<Rightarrow>
                  (case ob_find_by_dedupe_key (rec_event_type e) k t2 of
                     None \<Rightarrow> Inl (Database msg_outbox_dup_unreadable)
                   | Some existing \<Rightarrow> Inr (existing, t2)))))"

section \<open>Claiming and publishing\<close>

definition ob_claimable :: "timestamp \<Rightarrow> ExecutionTenantFilter \<Rightarrow> outbox_event \<Rightarrow> bool" where
  "ob_claimable now scope e \<longleftrightarrow>
     ob_status e = ob_STATUS_PENDING \<and> ob_available_at e \<le> now \<and>
     ob_attempts e < ob_max_attempts e \<and> etf_condition scope (ob_tenant_id e)"

definition ob_claimable_query ::
  "timestamp \<Rightarrow> ExecutionTenantFilter \<Rightarrow> (int \<Rightarrow> bool) \<Rightarrow> outbox \<Rightarrow> outbox_event list" where
  "ob_claimable_query now scope locked t =
     sort_key (\<lambda>e. (ob_available_at e, ob_id e))
       (filter (\<lambda>e. ob_claimable now scope e \<and> \<not> locked (ob_id e)) t)"

definition ob_claim_next ::
  "string \<Rightarrow> duration \<Rightarrow> timestamp \<Rightarrow> ExecutionTenantFilter \<Rightarrow> (int \<Rightarrow> bool) \<Rightarrow> outbox \<Rightarrow>
   (outbox_event option \<times> outbox) app_result" where
  "ob_claim_next worker_id lease_duration now scope locked t =
     bind_result (ob_validate_lease worker_id lease_duration) (\<lambda>_.
     case ob_claimable_query now scope locked t of
       [] \<Rightarrow> Inr (None, t)
     | e # _ \<Rightarrow>
         (case checked_add_i32 (ob_attempts e) 1 of
            None \<Rightarrow> Inl (Database msg_outbox_attempts_overflow)
          | Some attempts \<Rightarrow>
              (let claimed = e\<lparr>ob_status := ob_STATUS_RUNNING, ob_attempts := attempts,
                               ob_lease_owner := Some worker_id,
                               ob_lease_until := Some (now + lease_duration), ob_updated_at := now\<rparr>
               in Inr (Some claimed, row_put ob_id claimed t))))"

definition ob_lease_live :: "timestamp \<Rightarrow> outbox_event \<Rightarrow> bool" where
  "ob_lease_live now e = (case ob_lease_until e of Some u \<Rightarrow> now < u | None \<Rightarrow> False)"

definition mark_published_in_transaction :: "int \<Rightarrow> string \<Rightarrow> timestamp \<Rightarrow> outbox \<Rightarrow> bool \<times> outbox" where
  "mark_published_in_transaction event_id worker_id now t =
     (let P = (\<lambda>e. ob_id e = event_id \<and> ob_status e = ob_STATUS_RUNNING \<and>
                   ob_lease_owner e = Some worker_id \<and> ob_lease_live now e)
      in (rows_matched P t = 1,
          update_where P
            (\<lambda>e. e\<lparr>ob_status := ob_STATUS_PUBLISHED, ob_lease_owner := None, ob_lease_until := None,
                   ob_published_at := Some now, ob_updated_at := now\<rparr>) t))"

definition ob_owned_running_query :: "int \<Rightarrow> string \<Rightarrow> outbox \<Rightarrow> outbox_event option" where
  "ob_owned_running_query event_id worker_id t =
     (case ob_find event_id t of
        Some e \<Rightarrow> if ob_status e = ob_STATUS_RUNNING \<and> ob_lease_owner e = Some worker_id then Some e else None
      | None \<Rightarrow> None)"

definition ob_fail ::
  "int \<Rightarrow> string \<Rightarrow> timestamp \<Rightarrow> string \<Rightarrow> timestamp \<Rightarrow> outbox \<Rightarrow> OutboxFailureDisposition \<times> outbox" where
  "ob_fail event_id worker_id retry_at error_message now t =
     (case ob_owned_running_query event_id worker_id t of
        None \<Rightarrow> (OB_LeaseLost, t)
      | Some e \<Rightarrow>
          if \<not> ob_lease_live now e then (OB_LeaseLost, t)
          else (let is_dead = ob_max_attempts e \<le> ob_attempts e
                in (if is_dead then OB_Dead else OB_Retried retry_at,
                    row_put ob_id
                      (e\<lparr>ob_status := (if is_dead then ob_STATUS_DEAD else ob_STATUS_PENDING),
                         ob_available_at := (if is_dead then now else retry_at),
                         ob_lease_owner := None, ob_lease_until := None,
                         ob_last_error := Some (ob_truncate_error error_message),
                         ob_updated_at := now\<rparr>) t)))"

section \<open>Recovery\<close>

definition OB_EXPIRED_LEASE_DEAD_ERROR :: string where
  "OB_EXPIRED_LEASE_DEAD_ERROR = msg_outbox_expired_dead"

definition ob_expired :: "timestamp \<Rightarrow> ExecutionTenantFilter \<Rightarrow> outbox_event \<Rightarrow> bool" where
  "ob_expired now scope e \<longleftrightarrow>
     ob_status e = ob_STATUS_RUNNING \<and>
     (case ob_lease_until e of Some u \<Rightarrow> u \<le> now | None \<Rightarrow> False) \<and>
     etf_condition scope (ob_tenant_id e)"

text \<open>Two statements outside a transaction: first the exhausted events, then the others.\<close>

definition ob_recover_exhausted :: "timestamp \<Rightarrow> ExecutionTenantFilter \<Rightarrow> outbox \<Rightarrow> outbox" where
  "ob_recover_exhausted now scope t =
     update_where (\<lambda>e. ob_expired now scope e \<and> ob_max_attempts e \<le> ob_attempts e)
       (\<lambda>e. e\<lparr>ob_status := ob_STATUS_DEAD, ob_lease_owner := None, ob_lease_until := None,
              ob_last_error := Some OB_EXPIRED_LEASE_DEAD_ERROR, ob_updated_at := now\<rparr>) t"

definition ob_recover_retryable :: "timestamp \<Rightarrow> ExecutionTenantFilter \<Rightarrow> outbox \<Rightarrow> outbox" where
  "ob_recover_retryable now scope t =
     update_where (\<lambda>e. ob_expired now scope e \<and> ob_attempts e < ob_max_attempts e)
       (\<lambda>e. e\<lparr>ob_status := ob_STATUS_PENDING, ob_lease_owner := None, ob_lease_until := None,
              ob_available_at := now, ob_updated_at := now\<rparr>) t"

definition ob_recover_expired_leases :: "timestamp \<Rightarrow> ExecutionTenantFilter \<Rightarrow> outbox \<Rightarrow> outbox" where
  "ob_recover_expired_leases now scope t =
     ob_recover_retryable now scope (ob_recover_exhausted now scope t)"

section \<open>The outbox as a transition system\<close>

text \<open>
  A step is one committed statement sequence; the two recovery statements are steps of their own,
  since other transactions may commit between them. The purge deletes published events.
\<close>

type_synonym outbox_state = "outbox \<times> int set"

inductive ob_step :: "outbox_state \<Rightarrow> outbox_state \<Rightarrow> bool" where
  o_record: "record_in_transaction nid e now t1 t = Inr (ev, t') \<Longrightarrow>
     (t' \<noteq> t \<Longrightarrow> ob_id ev \<notin> U) \<Longrightarrow> ob_step (t, U) (t', if t' = t then U else insert (ob_id ev) U)"
| o_claim: "ob_claim_next w d now scope locked t = Inr (c, t') \<Longrightarrow> ob_step (t, U) (t', U)"
| o_publish: "mark_published_in_transaction i w now t = (b, t') \<Longrightarrow> ob_step (t, U) (t', U)"
| o_fail: "ob_fail i w r e now t = (d, t') \<Longrightarrow> ob_step (t, U) (t', U)"
| o_exhausted: "ob_step (t, U) (ob_recover_exhausted now scope t, U)"
| o_retryable: "ob_step (t, U) (ob_recover_retryable now scope t, U)"
| o_purge: "(\<And>e. e \<in> set t \<Longrightarrow> P e \<Longrightarrow> ob_status e = ob_STATUS_PUBLISHED) \<Longrightarrow>
     ob_step (t, U) (filter (\<lambda>e. \<not> P e) t, U)"

definition event_ok :: "outbox_event \<Rightarrow> bool" where
  "event_ok e \<longleftrightarrow>
     0 \<le> ob_attempts e \<and> ob_attempts e \<le> ob_max_attempts e \<and>
     1 \<le> ob_max_attempts e \<and> ob_max_attempts e \<le> 20 \<and>
     ob_status e \<in> {ob_STATUS_PENDING, ob_STATUS_RUNNING, ob_STATUS_PUBLISHED, ob_STATUS_DEAD} \<and>
     (ob_status e = ob_STATUS_PENDING \<longrightarrow> ob_attempts e < ob_max_attempts e) \<and>
     (ob_status e = ob_STATUS_DEAD \<longrightarrow> ob_attempts e = ob_max_attempts e) \<and>
     (ob_lease_owner e \<noteq> None \<longleftrightarrow> ob_status e = ob_STATUS_RUNNING) \<and>
     (ob_lease_until e \<noteq> None \<longleftrightarrow> ob_status e = ob_STATUS_RUNNING) \<and>
     (ob_published_at e \<noteq> None \<longleftrightarrow> ob_status e = ob_STATUS_PUBLISHED)"

definition ob_inv :: "outbox_state \<Rightarrow> bool" where
  "ob_inv s \<longleftrightarrow> unique_key ob_id (fst s) \<and> (\<forall>e \<in> set (fst s). event_ok e) \<and> ob_id ` set (fst s) \<subseteq> snd s"

text \<open>The number of attempts, which is never reset, numbers the claims of an event.\<close>

definition ob_lease_of :: "outbox_state \<Rightarrow> int \<Rightarrow> lease_state" where
  "ob_lease_of s i =
     (case ob_find i (fst s) of
        None \<Rightarrow> if i \<in> snd s then Gone else Fresh
      | Some e \<Rightarrow>
          if ob_status e = ob_STATUS_RUNNING
          then Held (ob_attempts e) (the (ob_lease_owner e)) (the (ob_lease_until e))
          else if ob_status e = ob_STATUS_PENDING then Waiting (ob_attempts e)
          else Done (ob_attempts e))"

text \<open>How one row may change.\<close>

definition ob_moves :: "outbox_event \<Rightarrow> outbox_event \<Rightarrow> bool" where
  "ob_moves e e' \<longleftrightarrow> ob_id e' = ob_id e \<and> event_ok e' \<and>
     (e' = e \<or>
      ob_status e = ob_STATUS_PENDING \<and> ob_status e' = ob_STATUS_RUNNING \<and> ob_attempts e' = ob_attempts e + 1 \<or>
      ob_status e = ob_STATUS_RUNNING \<and> ob_status e' \<noteq> ob_STATUS_RUNNING \<and> ob_attempts e' = ob_attempts e)"

lemma ob_rows:
  assumes inv: "ob_inv (t, U)" and ids: "map ob_id t' = map ob_id t"
    and rows: "\<And>i e e'. ob_find i t = Some e \<Longrightarrow> ob_find i t' = Some e' \<Longrightarrow> ob_moves e e'"
  shows "ob_inv (t', U) \<and> (\<forall>i. ob_lease_of (t, U) i = ob_lease_of (t', U) i \<or>
      lease_step (ob_lease_of (t, U) i) (ob_lease_of (t', U) i)) \<and>
    (\<forall>i e. ob_find i t = Some e \<longrightarrow> (\<exists>e'. ob_find i t' = Some e' \<and> ob_moves e e'))"
proof -
  have set_ids: "ob_id ` set t' = ob_id ` set t" using arg_cong [OF ids, of set] by simp
  have u: "unique_key ob_id t" "unique_key ob_id t'" using inv ids by (auto simp: ob_inv_def unique_key_def)
  have both: "\<exists>e'. ob_find i t' = Some e' \<and> ob_moves e e'" if "ob_find i t = Some e" for i e
  proof -
    from that have "i \<in> ob_id ` set t" by (auto simp: ob_find_def dest: row_get_SomeD)
    with set_ids have "ob_find i t' \<noteq> None" by (simp add: ob_find_def row_get_None_iff)
    with rows [OF that] show ?thesis by auto
  qed
  have none: "ob_find i t = None \<longleftrightarrow> ob_find i t' = None" for i
    using set_ids by (simp add: ob_find_def row_get_None_iff)
  have "event_ok e'" if "e' \<in> set t'" for e'
  proof -
    have f': "ob_find (ob_id e') t' = Some e'" using unique_row_get [OF u(2) that] by (simp add: ob_find_def)
    then obtain e where "ob_find (ob_id e') t = Some e" using none [of "ob_id e'"] by auto
    from rows [OF this f'] show ?thesis by (simp add: ob_moves_def)
  qed
  then have "ob_inv (t', U)" using inv u(2) set_ids by (simp add: ob_inv_def)
  moreover have "ob_lease_of (t, U) i = ob_lease_of (t', U) i \<or>
      lease_step (ob_lease_of (t, U) i) (ob_lease_of (t', U) i)" for i
  proof (cases "ob_find i t")
    case None
    with none [of i] show ?thesis by (simp add: ob_lease_of_def)
  next
    case (Some e)
    from both [OF this] obtain e' where "ob_find i t' = Some e'" "ob_moves e e'" by blast
    with Some show ?thesis
      by (auto simp: ob_lease_of_def ob_moves_def event_ok_def intro: lease_step.intros)
  qed
  ultimately show ?thesis using both by blast
qed

text \<open>The operations change rows only that way.\<close>

abbreviation ob_keeps :: "outbox \<Rightarrow> outbox \<Rightarrow> bool" where
  "ob_keeps t t' \<equiv> map ob_id t' = map ob_id t \<and>
     (\<forall>i e e'. ob_find i t = Some e \<longrightarrow> ob_find i t' = Some e' \<longrightarrow> ob_moves e e')"

lemma ob_find_ok: "ob_inv (t, U) \<Longrightarrow> ob_find i t = Some e \<Longrightarrow> ob_id e = i \<and> e \<in> set t \<and> event_ok e"
  unfolding ob_inv_def ob_find_def using row_get_SomeD [of ob_id i t e] by simp

lemma ob_inv_ok: "ob_inv (t, U) \<Longrightarrow> e \<in> set t \<Longrightarrow> event_ok e"
  by (simp add: ob_inv_def)

lemma ob_moves_refl: "event_ok e \<Longrightarrow> ob_moves e e"
  by (simp add: ob_moves_def)

lemma ob_keeps_refl: "ob_inv (t, U) \<Longrightarrow> ob_keeps t t"
proof (intro conjI allI impI)
  fix i e e'
  assume inv: "ob_inv (t, U)" and e: "ob_find i t = Some e" "ob_find i t = Some e'"
  from e have "e' = e" by simp
  moreover have "event_ok e" using ob_find_ok [OF inv e(1)] by blast
  ultimately show "ob_moves e e'" using ob_moves_refl by blast
qed simp

lemma ob_keeps_put:
  assumes inv: "ob_inv (t, U)" and e: "ob_find (ob_id e') t = Some e" and m: "ob_moves e e'"
  shows "ob_keeps t (row_put ob_id e' t)"
proof (intro conjI allI impI)
  have u: "unique_key ob_id t" using inv by (simp add: ob_inv_def)
  show "map ob_id (row_put ob_id e' t) = map ob_id t"
  proof (rule map_row_put [OF _ _ u])
    show "row_get ob_id (ob_id e') t = Some e" using e by (simp only: ob_find_def)
    show "ob_id e = ob_id e'" using m by (simp only: ob_moves_def)
  qed
next
  fix i x x'
  assume x: "ob_find i t = Some x" and x': "ob_find i (row_put ob_id e' t) = Some x'"
  show "ob_moves x x'"
  proof (cases "i = ob_id e'")
    case True
    with x x' e m show ?thesis by (simp add: ob_find_def row_get_row_put)
  next
    case False
    with x x' have "x' = x" by (simp add: ob_find_def row_get_row_put)
    with ob_find_ok [OF inv x] show ?thesis by (simp add: ob_moves_refl)
  qed
qed

lemma ob_keeps_update:
  assumes inv: "ob_inv (t, U)" and m: "\<And>e. event_ok e \<Longrightarrow> P e \<Longrightarrow> ob_moves e (f e)"
    and f: "\<And>e. ob_id (f e) = ob_id e"
  shows "ob_keeps t (update_where P f t)"
proof (intro conjI allI impI)
  show "map ob_id (update_where P f t) = map ob_id t" by (rule map_update_where) (simp add: f)
next
  fix i x x'
  assume x: "ob_find i t = Some x" and x': "ob_find i (update_where P f t) = Some x'"
  have "ob_find i (update_where P f t) = map_option (\<lambda>e. if P e then f e else e) (ob_find i t)"
    unfolding ob_find_def row_get_def by (rule find_update_where) (simp add: f)
  with x x' have "x' = (if P x then f x else x)" by simp
  with m [of x] ob_find_ok [OF inv x] show "ob_moves x x'" by (simp add: ob_moves_refl)
qed

lemma ob_claim_cases:
  assumes "ob_claim_next w d now scope locked t = Inr (c, t')"
  obtains "c = None" "t' = t" "ob_claimable_query now scope locked t = []"
  | e es where "ob_claimable_query now scope locked t = e # es"
      "c = Some (e\<lparr>ob_status := ob_STATUS_RUNNING, ob_attempts := ob_attempts e + 1,
        ob_lease_owner := Some w, ob_lease_until := Some (now + d), ob_updated_at := now\<rparr>)"
      "t' = row_put ob_id (the c) t" "0 < d" "w \<noteq> []"
  using assms unfolding ob_claim_next_def ob_validate_lease_def
  by (auto simp: bind_result_eq_Inr first_error_Inr checked_add_i32_def Let_def
      split: list.splits option.splits if_splits)

lemma ob_claimable_query_set:
  "set (ob_claimable_query now scope locked t) =
     {e \<in> set t. ob_claimable now scope e \<and> \<not> locked (ob_id e)}"
  by (simp add: ob_claimable_query_def)

lemma ob_in_find: "ob_inv (t, U) \<Longrightarrow> e \<in> set t \<Longrightarrow> ob_find (ob_id e) t = Some e"
  by (simp add: ob_inv_def ob_find_def unique_row_get)

lemma ob_claim_keeps:
  assumes inv: "ob_inv (t, U)" and c: "ob_claim_next w d now scope locked t = Inr (c, t')"
  shows "ob_keeps t t'"
  using c
proof (cases rule: ob_claim_cases)
  case 1
  with ob_keeps_refl [OF inv] show ?thesis by simp
next
  case (2 e es)
  have e: "e \<in> set t" "ob_claimable now scope e"
    using ob_claimable_query_set [of now scope locked t] 2(1) by auto
  have "ob_moves e (the c)"
    using ob_find_ok [OF inv ob_in_find [OF inv e(1)]] e(2) 2(2)
    by (auto simp: ob_moves_def event_ok_def ob_claimable_def)
  from ob_keeps_put [OF inv _ this] ob_in_find [OF inv e(1)] 2(2,3) show ?thesis by simp
qed

lemma ob_publish_keeps:
  assumes inv: "ob_inv (t, U)" and "mark_published_in_transaction i w now t = (b, t')"
  shows "ob_keeps t t'"
proof -
  have "ob_keeps t (update_where (\<lambda>e. ob_id e = i \<and> ob_status e = ob_STATUS_RUNNING \<and>
        ob_lease_owner e = Some w \<and> ob_lease_live now e)
      (\<lambda>e. e\<lparr>ob_status := ob_STATUS_PUBLISHED, ob_lease_owner := None, ob_lease_until := None,
             ob_published_at := Some now, ob_updated_at := now\<rparr>) t)"
    by (rule ob_keeps_update [OF inv]) (simp_all add: ob_moves_def event_ok_def)
  with assms(2) show ?thesis by (simp add: mark_published_in_transaction_def Let_def)
qed

lemma ob_fail_cases:
  assumes "ob_fail i w r m now t = (d, t')"
  obtains "d = OB_LeaseLost" "t' = t"
  | e where "ob_find i t = Some e" "ob_status e = ob_STATUS_RUNNING" "ob_lease_owner e = Some w"
      "ob_lease_live now e" "ob_max_attempts e \<le> ob_attempts e" "d = OB_Dead"
      "t' = row_put ob_id (e\<lparr>ob_status := ob_STATUS_DEAD, ob_available_at := now,
         ob_lease_owner := None, ob_lease_until := None,
         ob_last_error := Some (ob_truncate_error m), ob_updated_at := now\<rparr>) t"
  | e where "ob_find i t = Some e" "ob_status e = ob_STATUS_RUNNING" "ob_lease_owner e = Some w"
      "ob_lease_live now e" "ob_attempts e < ob_max_attempts e" "d = OB_Retried r"
      "t' = row_put ob_id (e\<lparr>ob_status := ob_STATUS_PENDING, ob_available_at := r,
         ob_lease_owner := None, ob_lease_until := None,
         ob_last_error := Some (ob_truncate_error m), ob_updated_at := now\<rparr>) t"
proof (cases "ob_owned_running_query i w t")
  case None
  with assms that(1) show ?thesis by (simp add: ob_fail_def)
next
  case (Some e)
  then have e: "ob_find i t = Some e" "ob_status e = ob_STATUS_RUNNING" "ob_lease_owner e = Some w"
    by (simp_all add: ob_owned_running_query_def split: option.splits if_splits)
  consider "\<not> ob_lease_live now e" | "ob_lease_live now e" "ob_max_attempts e \<le> ob_attempts e"
    | "ob_lease_live now e" "ob_attempts e < ob_max_attempts e" by linarith
  then show ?thesis
  proof cases
    case 1
    with assms Some that(1) show ?thesis by (simp add: ob_fail_def)
  next
    case 2
    with assms Some e that(2) show ?thesis by (simp add: ob_fail_def Let_def)
  next
    case 3
    with assms Some e that(3) show ?thesis by (simp add: ob_fail_def Let_def)
  qed
qed

lemma ob_fail_keeps:
  assumes inv: "ob_inv (t, U)" and f: "ob_fail i w r m now t = (d, t')"
  shows "ob_keeps t t'"
  using f
proof (cases rule: ob_fail_cases)
  case 1
  with ob_keeps_refl [OF inv] show ?thesis by simp
next
  case (2 e)
  note ok = ob_find_ok [OF inv 2(1)]
  show ?thesis unfolding 2(7)
    by (rule ob_keeps_put [OF inv, where e = e]) (use ok 2 in \<open>auto simp: ob_moves_def event_ok_def\<close>)
next
  case (3 e)
  note ok = ob_find_ok [OF inv 3(1)]
  show ?thesis unfolding 3(7)
    by (rule ob_keeps_put [OF inv, where e = e]) (use ok 3 in \<open>auto simp: ob_moves_def event_ok_def\<close>)
qed

lemma ob_recovery_keeps:
  assumes inv: "ob_inv (t, U)"
  shows "ob_keeps t (ob_recover_exhausted now scope t)" "ob_keeps t (ob_recover_retryable now scope t)"
  unfolding ob_recover_exhausted_def ob_recover_retryable_def
  by (rule ob_keeps_update [OF inv]; simp add: ob_moves_def event_ok_def ob_expired_def)+


lemma record_cases:
  assumes "record_in_transaction nid e now t1 t = Inr (ev, t')"
  obtains "t' = t"
  | k where "nid = Inr k" "ev = new_event k e now" "t' = ev # t" "k \<notin> ob_id ` set t"
      "1 \<le> rec_max_attempts e" "rec_max_attempts e \<le> 20"
proof -
  have v: "1 \<le> rec_max_attempts e" "rec_max_attempts e \<le> 20"
    using assms unfolding record_in_transaction_def bind_result_eq_Inr validate_event_def first_error_Inr
    by auto
  show ?thesis
  proof (cases "t' = t")
    case True
    with that(1) show ?thesis .
  next
    case False
    obtain k where k: "nid = Inr k" "insert_event (new_event k e now) t = Some t'" "ev = new_event k e now"
      using assms False unfolding record_in_transaction_def bind_result_eq_Inr
      by (cases nid) (auto split: option.splits)
    then have "t' = ev # t" "ob_id ev \<notin> ob_id ` set t"
      by (auto simp: insert_event_def split: if_splits)
    with k v that(2) [of k] show ?thesis by (simp add: new_event_def)
  qed
qed

lemma new_event_ok: "1 \<le> rec_max_attempts e \<Longrightarrow> rec_max_attempts e \<le> 20 \<Longrightarrow> event_ok (new_event k e now)"
  by (simp add: event_ok_def new_event_def)

text \<open>An event in use stays the same event; one that is published or dead stays so until it is purged.\<close>

definition ob_keeps_settled :: "int \<Rightarrow> outbox_state \<Rightarrow> outbox_state \<Rightarrow> bool" where
  "ob_keeps_settled i s s' \<longleftrightarrow> snd s \<subseteq> snd s' \<and>
     (\<forall>e'. i \<in> snd s \<and> ob_find i (fst s') = Some e' \<longrightarrow>
        (\<exists>e. ob_find i (fst s) = Some e \<and>
           (ob_status e \<in> {ob_STATUS_PUBLISHED, ob_STATUS_DEAD} \<longrightarrow> e' = e)))"

lemma ob_find_filter:
  assumes "unique_key ob_id t"
  shows "ob_find i (filter (\<lambda>e. \<not> P e) t) =
    (case ob_find i t of Some e \<Rightarrow> if P e then None else Some e | None \<Rightarrow> None)"
proof -
  have f: "row_get ob_id i (filter (\<lambda>e. \<not> P e) t) = Some e \<longleftrightarrow> row_get ob_id i t = Some e \<and> \<not> P e" for e
    using assms by (auto simp: row_get_iff unique_key_filter)
  show ?thesis
  proof (cases "row_get ob_id i (filter (\<lambda>e. \<not> P e) t)")
    case None
    then show ?thesis using f by (auto simp: ob_find_def split: option.splits)
  next
    case (Some e)
    with f [of e] show ?thesis by (simp add: ob_find_def)
  qed
qed

lemma ob_step_props:
  assumes "ob_step s s'" "ob_inv s"
  shows "ob_inv s' \<and> (ob_lease_of s i = ob_lease_of s' i \<or> lease_step (ob_lease_of s i) (ob_lease_of s' i)) \<and>
    ob_keeps_settled i s s'"
proof -
  have G: ?thesis if s: "s = (t, U)" "s' = (t', U)" and k: "ob_inv (t, U) \<Longrightarrow> ob_keeps t t'" for t t' U
  proof -
    have inv: "ob_inv (t, U)" using assms(2) s(1) by simp
    have set_ids: "ob_id ` set t' = ob_id ` set t"
      using k [OF inv] by (metis set_map)
    have "ob_inv (t', U) \<and> (\<forall>i. ob_lease_of (t, U) i = ob_lease_of (t', U) i \<or>
        lease_step (ob_lease_of (t, U) i) (ob_lease_of (t', U) i)) \<and>
      (\<forall>i e. ob_find i t = Some e \<longrightarrow> (\<exists>e'. ob_find i t' = Some e' \<and> ob_moves e e'))"
      by (rule ob_rows [OF inv]) (use k [OF inv] in blast)+
    moreover from this have "ob_keeps_settled i (t, U) (t', U)"
      unfolding ob_keeps_settled_def
    proof (intro conjI allI impI)
      fix e'
      assume all: "ob_inv (t', U) \<and> (\<forall>i. ob_lease_of (t, U) i = ob_lease_of (t', U) i \<or>
          lease_step (ob_lease_of (t, U) i) (ob_lease_of (t', U) i)) \<and>
        (\<forall>i e. ob_find i t = Some e \<longrightarrow> (\<exists>e'. ob_find i t' = Some e' \<and> ob_moves e e'))"
        and e': "i \<in> snd (t, U) \<and> ob_find i (fst (t', U)) = Some e'"
      then have "i \<in> ob_id ` set t'" using row_get_SomeD [of ob_id i t' e'] by (auto simp: ob_find_def)
      then have "ob_find i t \<noteq> None" unfolding set_ids by (simp add: ob_find_def row_get_None_iff)
      then obtain e where e: "ob_find i t = Some e" by blast
      with all e' have "ob_moves e e'" by force
      with e show "\<exists>e. ob_find i (fst (t, U)) = Some e \<and>
          (ob_status e \<in> {ob_STATUS_PUBLISHED, ob_STATUS_DEAD} \<longrightarrow> e' = e)"
        by (auto simp: ob_moves_def)
    qed simp
    ultimately show ?thesis using s by blast
  qed
  show ?thesis
    using assms(1)
  proof (cases rule: ob_step.cases)
    case (o_record nid e now t1 t ev t' U)
    have inv: "ob_inv (t, U)" using assms(2) o_record(1) by simp
    show ?thesis
      using o_record(3)
    proof (cases rule: record_cases)
      case 1
      with o_record(1,2) inv show ?thesis by (auto simp: ob_keeps_settled_def)
    next
      case (2 k)
      have new: "ob_id ev \<notin> U" using o_record(4) 2(3) by simp
      have "ob_id ev \<notin> ob_id ` set t" using 2(2,4) by (simp add: new_event_def)
      moreover have "event_ok ev" using new_event_ok 2 by simp
      moreover have "ob_find i t' = (if i = ob_id ev then Some ev else ob_find i t)" for i
        using 2(3) by (simp add: ob_find_def row_get_def)
      moreover have "ob_find (ob_id ev) t = None"
        using calculation(1) by (simp add: ob_find_def row_get_None_iff)
      moreover have "ob_lease_of s' (ob_id ev) = Waiting 0"
        using 2(2,3) o_record(2) by (simp add: ob_lease_of_def ob_find_def row_get_def new_event_def)
      ultimately show ?thesis
        using inv new o_record(1,2) 2(3)
        by (auto simp: ob_inv_def unique_key_Cons ob_find_def ob_lease_of_def ob_keeps_settled_def
            intro: lease_step.create)
    qed
  next
    case (o_claim w d now scope locked t c t' U)
    show ?thesis by (rule G [OF o_claim(1,2)]) (rule ob_claim_keeps [OF _ o_claim(3)])
  next
    case (o_publish i w now t b t' U)
    show ?thesis by (rule G [OF o_publish(1,2)]) (rule ob_publish_keeps [OF _ o_publish(3)])
  next
    case (o_fail i w r e now t d t' U)
    show ?thesis by (rule G [OF o_fail(1,2)]) (rule ob_fail_keeps [OF _ o_fail(3)])
  next
    case (o_exhausted t U now scope)
    show ?thesis by (rule G [OF o_exhausted]) (rule ob_recovery_keeps)
  next
    case (o_retryable t U now scope)
    show ?thesis by (rule G [OF o_retryable]) (rule ob_recovery_keeps)
  next
    case (o_purge t P U)
    have inv: "ob_inv (t, U)" using assms(2) o_purge(1) by simp
    then have u: "unique_key ob_id t" by (simp add: ob_inv_def)
    have "ob_inv s'" using inv o_purge(2) by (auto simp: ob_inv_def unique_key_filter)
    moreover have "ob_lease_of s i = ob_lease_of s' i \<or> lease_step (ob_lease_of s i) (ob_lease_of s' i)"
    proof (cases "ob_find i t")
      case None
      then show ?thesis by (simp add: o_purge(1,2) ob_lease_of_def ob_find_filter [OF u])
    next
      case (Some e)
      have "i \<in> U" using inv ob_find_ok [OF inv Some] by (auto simp: ob_inv_def)
      with Some o_purge(3) [of e] ob_find_ok [OF inv Some] show ?thesis
        by (auto simp: o_purge(1,2) ob_lease_of_def ob_find_filter [OF u] intro: lease_step.purge)
    qed
    moreover have "ob_keeps_settled i s s'"
      by (auto simp: o_purge(1,2) ob_keeps_settled_def ob_find_filter [OF u] split: option.splits if_splits)
    ultimately show ?thesis by blast
  qed
qed

interpretation outbox: leased_items ob_lease_of ob_step ob_inv
  by unfold_locales (use ob_step_props in blast)+


section \<open>Properties\<close>

definition ob_reachable :: "outbox_state \<Rightarrow> bool" where
  "ob_reachable s \<longleftrightarrow> ob_step\<^sup>*\<^sup>* ([], {}) s"

lemma ob_reachable_inv: "ob_reachable s \<Longrightarrow> ob_inv s"
  unfolding ob_reachable_def by (erule outbox.steps_inv) (simp add: ob_inv_def unique_key_def)

lemma ob_keeps_settled_trans:
  assumes "ob_keeps_settled i x y" "ob_keeps_settled i y z"
  shows "ob_keeps_settled i x z"
  unfolding ob_keeps_settled_def
proof (intro conjI allI impI)
  show "snd x \<subseteq> snd z" using assms by (auto simp: ob_keeps_settled_def)
next
  fix c
  assume c: "i \<in> snd x \<and> ob_find i (fst z) = Some c"
  then have "i \<in> snd y" using assms(1) by (auto simp: ob_keeps_settled_def)
  with c assms(2) obtain b where b: "ob_find i (fst y) = Some b"
      "ob_status b \<in> {ob_STATUS_PUBLISHED, ob_STATUS_DEAD} \<longrightarrow> c = b"
    unfolding ob_keeps_settled_def by blast
  with c assms(1) obtain a where a: "ob_find i (fst x) = Some a"
      "ob_status a \<in> {ob_STATUS_PUBLISHED, ob_STATUS_DEAD} \<longrightarrow> b = a"
    unfolding ob_keeps_settled_def by blast
  from a b show "\<exists>a. ob_find i (fst x) = Some a \<and>
      (ob_status a \<in> {ob_STATUS_PUBLISHED, ob_STATUS_DEAD} \<longrightarrow> c = a)" by blast
qed

lemma ob_steps_settled:
  "ob_step\<^sup>*\<^sup>* s s' \<Longrightarrow> ob_inv s \<Longrightarrow> ob_keeps_settled i s s'"
proof (induction rule: rtranclp_induct)
  case (step y z)
  have "ob_keeps_settled i y z"
    using ob_step_props [OF step.hyps(2) outbox.steps_inv [OF step.hyps(1) step.prems], of i] by (elim conjE)
  with step.IH [OF step.prems] show ?case by (rule ob_keeps_settled_trans)
qed (simp add: ob_keeps_settled_def)

lemma mark_published_iff:
  assumes "unique_key ob_id t"
  shows "fst (mark_published_in_transaction i w now t) \<longleftrightarrow>
    (\<exists>e. ob_find i t = Some e \<and> ob_status e = ob_STATUS_RUNNING \<and> ob_lease_owner e = Some w \<and> ob_lease_live now e)"
proof -
  let ?P = "\<lambda>e. ob_id e = i \<and> ob_status e = ob_STATUS_RUNNING \<and>
    ob_lease_owner e = Some w \<and> ob_lease_live now e"
  have m: "rows_matched ?P t = (case row_get ob_id i t of Some e \<Rightarrow> if ?P e then 1 else 0 | None \<Rightarrow> 0)"
    by (rule rows_matched_key [OF assms]) (erule conjunct1)
  show ?thesis
  proof (cases "row_get ob_id i t")
    case None
    then show ?thesis by (simp add: mark_published_in_transaction_def Let_def m ob_find_def)
  next
    case (Some e)
    then have "ob_id e = i" by (blast dest: row_get_SomeD)
    with Some show ?thesis by (simp add: mark_published_in_transaction_def Let_def m ob_find_def)
  qed
qed

lemma mark_published_find:
  assumes "unique_key ob_id t" "mark_published_in_transaction i w now t = (True, t')"
  obtains e where "ob_find i t' = Some e" "ob_status e = ob_STATUS_PUBLISHED"
proof -
  from mark_published_iff [OF assms(1), of i w now] assms(2)
  obtain e where e: "ob_find i t = Some e" "ob_status e = ob_STATUS_RUNNING" "ob_lease_owner e = Some w"
      "ob_lease_live now e" by auto
  have "ob_id e = i" using row_get_SomeD [of ob_id i t e] e(1) by (simp add: ob_find_def)
  moreover have "t' = update_where (\<lambda>e. ob_id e = i \<and> ob_status e = ob_STATUS_RUNNING \<and>
        ob_lease_owner e = Some w \<and> ob_lease_live now e)
      (\<lambda>e. e\<lparr>ob_status := ob_STATUS_PUBLISHED, ob_lease_owner := None, ob_lease_until := None,
             ob_published_at := Some now, ob_updated_at := now\<rparr>) t"
    using assms(2) by (simp add: mark_published_in_transaction_def Let_def)
  moreover have "row_get ob_id i (update_where P f t) = map_option (\<lambda>e. if P e then f e else e) (row_get ob_id i t)"
    if "\<And>e. ob_id (f e) = ob_id e" for P f
    unfolding row_get_def by (rule find_update_where) (simp add: that)
  ultimately show ?thesis using e that by (simp add: ob_find_def)
qed

lemma ob_claimed_row:
  assumes "ob_claim_next w d now scope locked t = Inr (Some c, t')" "ob_inv (t, U)"
  obtains e where "ob_find (ob_id c) t = Some e" "ob_claimable now scope e" "\<not> locked (ob_id e)"
    "ob_attempts c = ob_attempts e + 1"
  using assms(1)
proof (cases rule: ob_claim_cases)
  case (2 e es)
  then have "e \<in> set t" "ob_claimable now scope e" "\<not> locked (ob_id e)"
    using ob_claimable_query_set [of now scope locked t] by auto
  with ob_in_find [OF assms(2)] 2(2) that show ?thesis by simp
qed simp

text \<open>A concrete event.\<close>

definition sample_record :: RecordOutboxEvent where
  "sample_record = \<lparr>rec_tenant_id = None, rec_event_type = ''user.created'', rec_aggregate_type = ''user'',
     rec_aggregate_id = ''42'', rec_payload = JNull, rec_available_at = 100, rec_max_attempts = 2,
     rec_dedupe_key = Some ''k'', rec_traceparent = None, rec_tracestate = None\<rparr>"

definition sample_event :: outbox_event where
  "sample_event = new_event 5 sample_record 50"

definition sample_running :: outbox_event where
  "sample_running = sample_event\<lparr>ob_status := ob_STATUS_RUNNING, ob_attempts := 1,
     ob_lease_owner := Some ''w1'', ob_lease_until := Some 220, ob_updated_at := 120\<rparr>"

lemmas sample_event_defs = sample_event_def sample_running_def sample_record_def new_event_def

lemma sample_recorded: "ob_reachable ([sample_event], {5})"
proof -
  have "record_in_transaction (Inr 5) sample_record 50 [] [] = Inr (sample_event, [sample_event])"
    by (simp add: record_in_transaction_def validate_event_def sample_event_defs ob_bad_def
        ob_find_by_dedupe_key_def insert_event_def)
  from o_record [OF this, of "{}"] show ?thesis
    unfolding ob_reachable_def by (auto simp: sample_event_defs)
qed

lemma sample_claimed_event:
  "ob_claim_next ''w1'' 100 120 None (\<lambda>_. False) [sample_event] = Inr (Some sample_running, [sample_running])"
  by (simp add: ob_claim_next_def ob_validate_lease_def ob_claimable_query_def ob_claimable_def
      etf_condition_def checked_add_i32_def width_defs row_put_def update_where_def Let_def sample_event_defs)

lemma sample_running_reachable: "ob_reachable ([sample_running], {5})"
  using sample_recorded o_claim [OF sample_claimed_event, of "{5}"]
  unfolding ob_reachable_def by (rule rtranclp.rtrancl_into_rtrancl)

text \<open>C25. Every outbox state reached from the empty table by recording, claiming, publishing,
  failing, either recovery statement and purging keeps its rows well formed: identifiers are
  unique, an event is handed out at most \<open>max_attempts\<close> times, a lease is present exactly while the
  event runs, and a publication time exactly once it is published. Each event follows the contract
  of leased work items from its creation.\<close>

theorem outbox_refines_lease:
  assumes "ob_reachable (t, U)"
  shows "distinct (map ob_id t) \<and> (\<forall>e \<in> set t. event_ok e) \<and>
    lease_step\<^sup>*\<^sup>* Fresh (ob_lease_of (t, U) i)"
proof -
  have inv: "ob_inv (t, U)" by (rule ob_reachable_inv [OF assms])
  have "ob_inv ([], {})" by (simp add: ob_inv_def unique_key_def)
  from outbox.steps_lease [OF _ this] assms
  have "lease_step\<^sup>*\<^sup>* (ob_lease_of ([], {}) i) (ob_lease_of (t, U) i)" by (simp add: ob_reachable_def)
  then show ?thesis using inv by (simp add: ob_inv_def unique_key_def ob_lease_of_def ob_find_def row_get_def)
qed

theorem outbox_refines_lease_witness:
  "lease_step\<^sup>*\<^sup>* Fresh (ob_lease_of ([sample_running], {5}) 5) \<and>
   ob_lease_of ([sample_running], {5}) 5 = Held 1 ''w1'' 220"
  using outbox_refines_lease [OF sample_running_reachable, of 5]
  by (simp add: ob_lease_of_def ob_find_def row_get_def sample_event_defs)

text \<open>C24. Once a worker has confirmed an event in its transaction and that transaction has
  committed, no worker confirms, fails or claims that event again, whatever else happens to the
  outbox in between: the side effects committed together with the confirmation happen once.\<close>

theorem published_once:
  assumes "ob_reachable (t, U)" and "mark_published_in_transaction i w now t = (True, t1)"
    and "ob_step\<^sup>*\<^sup>* (t1, U) (t2, U2)"
  shows "\<not> fst (mark_published_in_transaction i w' now' t2) \<and>
    ob_fail i w' r e now' t2 = (OB_LeaseLost, t2) \<and>
    (\<forall>c t3. ob_claim_next w' d now' scope locked t2 = Inr (Some c, t3) \<longrightarrow> ob_id c \<noteq> i)"
proof -
  have inv: "ob_inv (t, U)" by (rule ob_reachable_inv [OF assms(1)])
  then have u: "unique_key ob_id t" by (simp add: ob_inv_def)
  have inv1: "ob_inv (t1, U)" using outbox.step_inv [OF inv o_publish [OF assms(2)]] .
  have inv2: "ob_inv (t2, U2)" by (rule outbox.steps_inv [OF assms(3) inv1])
  obtain x where x: "ob_find i t1 = Some x" "ob_status x = ob_STATUS_PUBLISHED"
    using mark_published_find [OF u assms(2)] .
  have "i \<in> U" using inv1 ob_find_ok [OF inv1 x(1)] by (auto simp: ob_inv_def)
  with ob_steps_settled [OF assms(3) inv1, of i] x
  have same: "ob_find i t2 = None \<or> ob_find i t2 = Some x"
    by (cases "ob_find i t2") (auto simp: ob_keeps_settled_def)
  have "unique_key ob_id t2" using inv2 by (simp add: ob_inv_def)
  note iff = mark_published_iff [OF this, of i w' now']
  have "\<not> fst (mark_published_in_transaction i w' now' t2)"
    unfolding iff using same x(2) by (elim disjE) simp_all
  moreover have "ob_fail i w' r e now' t2 = (OB_LeaseLost, t2)"
    using same x(2) by (elim disjE) (simp_all add: ob_fail_def ob_owned_running_query_def)
  moreover have "ob_id c \<noteq> i" if c: "ob_claim_next w' d now' scope locked t2 = Inr (Some c, t3)" for c t3
  proof
    assume i: "ob_id c = i"
    obtain e where "ob_find (ob_id c) t2 = Some e" "ob_claimable now' scope e"
      using ob_claimed_row [OF c inv2] .
    with i same x(2) show False by (elim disjE) (simp_all add: ob_claimable_def)
  qed
  ultimately show ?thesis by blast
qed

theorem published_once_witness:
  "\<exists>t1. mark_published_in_transaction 5 ''w1'' 150 [sample_running] = (True, t1) \<and>
    \<not> fst (mark_published_in_transaction 5 ''w1'' 160 t1)"
proof -
  have m: "mark_published_in_transaction 5 ''w1'' 150 [sample_running] =
      (True, [sample_running\<lparr>ob_status := ob_STATUS_PUBLISHED, ob_lease_owner := None,
         ob_lease_until := None, ob_published_at := Some 150, ob_updated_at := 150\<rparr>])"
    by (simp add: mark_published_in_transaction_def Let_def rows_matched_def update_where_def
        ob_lease_live_def sample_event_defs)
  from published_once [OF sample_running_reachable m rtranclp.rtrancl_refl] m show ?thesis by blast
qed

text \<open>Running the two recovery statements one after the other moves every expired lease in
  scope exactly once: an event whose attempts are spent becomes dead with the expiry message, any
  other returns to the queue due at once with its error text kept, every event outside the scope or
  with a live lease is untouched, and no expired lease in scope is left.\<close>

theorem outbox_recovery_exact:
  "ob_recover_expired_leases now scope t =
     map (\<lambda>e.
       if ob_status e = ob_STATUS_RUNNING \<and> (\<exists>u. ob_lease_until e = Some u \<and> u \<le> now) \<and>
          etf_condition scope (ob_tenant_id e)
       then if ob_attempts e < ob_max_attempts e
            then e\<lparr>ob_status := ob_STATUS_PENDING, ob_available_at := now, ob_lease_owner := None,
                   ob_lease_until := None, ob_updated_at := now\<rparr>
            else e\<lparr>ob_status := ob_STATUS_DEAD, ob_lease_owner := None, ob_lease_until := None,
                   ob_last_error := Some OB_EXPIRED_LEASE_DEAD_ERROR, ob_updated_at := now\<rparr>
       else e) t \<and>
   filter (ob_expired now scope) (ob_recover_expired_leases now scope t) = []"
proof -
  have *: "(\<exists>u. ob_lease_until e = Some u \<and> u \<le> now) \<longleftrightarrow>
      (case ob_lease_until e of Some u \<Rightarrow> u \<le> now | None \<Rightarrow> False)" for e
    by (cases "ob_lease_until e") auto
  let ?g = "\<lambda>e. if ob_status e = ob_STATUS_RUNNING \<and> (\<exists>u. ob_lease_until e = Some u \<and> u \<le> now) \<and>
          etf_condition scope (ob_tenant_id e)
       then if ob_attempts e < ob_max_attempts e
            then e\<lparr>ob_status := ob_STATUS_PENDING, ob_available_at := now, ob_lease_owner := None,
                   ob_lease_until := None, ob_updated_at := now\<rparr>
            else e\<lparr>ob_status := ob_STATUS_DEAD, ob_lease_owner := None, ob_lease_until := None,
                   ob_last_error := Some OB_EXPIRED_LEASE_DEAD_ERROR, ob_updated_at := now\<rparr>
       else e"
  have eq: "ob_recover_expired_leases now scope t = map ?g t"
    unfolding ob_recover_expired_leases_def ob_recover_exhausted_def ob_recover_retryable_def
      update_where_def map_map
  proof (rule map_cong [OF refl])
    fix e
    show "((\<lambda>r. if ob_expired now scope r \<and> ob_attempts r < ob_max_attempts r
          then r\<lparr>ob_status := ob_STATUS_PENDING, ob_lease_owner := None, ob_lease_until := None,
                 ob_available_at := now, ob_updated_at := now\<rparr> else r) \<circ>
        (\<lambda>r. if ob_expired now scope r \<and> ob_max_attempts r \<le> ob_attempts r
          then r\<lparr>ob_status := ob_STATUS_DEAD, ob_lease_owner := None, ob_lease_until := None,
                 ob_last_error := Some OB_EXPIRED_LEASE_DEAD_ERROR, ob_updated_at := now\<rparr> else r)) e = ?g e"
      unfolding ob_expired_def * comp_def by (cases e) simp
  qed
  moreover have "\<not> ob_expired now scope (?g e)" for e
    unfolding ob_expired_def * by simp
  then have "filter (ob_expired now scope) (map ?g t) = []"
    unfolding filter_empty_conv set_map by (intro ballI) (elim imageE, simp only: not_False_eq_True)
  ultimately show ?thesis by (simp only: eq)
qed

end
