(* ===== verification/Org_Types.thy ===== *)
theory Org_Types
  imports Tables Kernel_Errors Outbox
begin

text \<open>
  The rows of the organisation of a tenant (\<open>crates/ryframe-db/src/entities\<close>): the tenant with its
  version counters, its operation lease, departments, users, roles, permissions and the relations
  between them, with every column the entities declare, and the part of the control database that
  holds them beside the outbox.
\<close>

section \<open>Rows\<close>

record tenant =
  tn_id :: int
  tn_tenant_id :: string
  tn_name :: string
  tn_domain :: "string option"
  tn_status :: string
  tn_expire_at :: "timestamp option"
  tn_max_users :: int
  tn_max_roles :: int
  tn_max_storage_mb :: int
  tn_max_requests_per_min :: int
  tn_session_version :: int
  tn_authorization_epoch :: int
  tn_runtime_epoch :: int
  tn_configuration_version :: int
  tn_created_at :: timestamp
  tn_updated_at :: timestamp

abbreviation tn_STATUS_PROVISIONING :: string where "tn_STATUS_PROVISIONING \<equiv> ''provisioning''"
abbreviation tn_STATUS_ENABLED :: string where "tn_STATUS_ENABLED \<equiv> ''enabled''"
abbreviation tn_STATUS_PROVISIONING_FAILED :: string where "tn_STATUS_PROVISIONING_FAILED \<equiv> ''provisioning_failed''"
abbreviation tn_STATUS_DISABLED :: string where "tn_STATUS_DISABLED \<equiv> ''disabled''"

record operation_lease =
  ol_tenant_id :: string
  ol_owner_token :: string
  ol_operation :: string
  ol_resource_type :: string
  ol_resource_id :: string
  ol_expires_at :: timestamp
  ol_created_at :: timestamp
  ol_updated_at :: timestamp


record dept =
  dp_id :: int
  dp_tenant_id :: string
  dp_name :: string
  dp_parent_id :: "int option"
  dp_ancestors :: string
  dp_sort :: int
  dp_status :: string
  dp_remark :: "string option"
  dp_del_flag :: string
  dp_created_at :: timestamp
  dp_updated_at :: timestamp

abbreviation dp_STATUS_DISABLED :: string where "dp_STATUS_DISABLED \<equiv> ''0''"
abbreviation dp_STATUS_NORMAL :: string where "dp_STATUS_NORMAL \<equiv> ''1''"
abbreviation dp_DEL_FLAG_NORMAL :: string where "dp_DEL_FLAG_NORMAL \<equiv> ''0''"
abbreviation dp_DEL_FLAG_DELETED :: string where "dp_DEL_FLAG_DELETED \<equiv> ''2''"

record user =
  us_id :: int
  us_tenant_id :: string
  us_username :: string
  us_password_hash :: string
  us_nickname :: string
  us_email :: string
  us_phone :: string
  us_avatar :: "string option"
  us_avatar_file_id :: "int option"
  us_preferred_locale :: "string option"
  us_status :: string
  us_authorization_version :: int
  us_dept_id :: "int option"
  us_remark :: "string option"
  us_login_ip :: "string option"
  us_login_date :: "timestamp option"
  us_del_flag :: string
  us_created_at :: timestamp
  us_updated_at :: timestamp

abbreviation us_STATUS_DISABLED :: string where "us_STATUS_DISABLED \<equiv> ''0''"
abbreviation us_STATUS_NORMAL :: string where "us_STATUS_NORMAL \<equiv> ''1''"
abbreviation us_STATUS_LOCKED :: string where "us_STATUS_LOCKED \<equiv> ''2''"
abbreviation us_STATUS_PENDING_ACTIVATION :: string where "us_STATUS_PENDING_ACTIVATION \<equiv> ''pending_activation''"
abbreviation us_STATUS_MUST_RESET_PASSWORD :: string where "us_STATUS_MUST_RESET_PASSWORD \<equiv> ''must_reset_password''"
abbreviation us_DEL_FLAG_NORMAL :: string where "us_DEL_FLAG_NORMAL \<equiv> ''0''"
abbreviation us_DEL_FLAG_DELETED :: string where "us_DEL_FLAG_DELETED \<equiv> ''2''"

record role =
  ro_id :: int
  ro_tenant_id :: string
  ro_name :: string
  ro_code :: string
  ro_is_super :: int
  ro_data_scope :: string
  ro_status :: string
  ro_sort :: int
  ro_remark :: "string option"
  ro_del_flag :: string
  ro_created_at :: timestamp
  ro_updated_at :: timestamp

abbreviation ro_STATUS_DISABLED :: string where "ro_STATUS_DISABLED \<equiv> ''0''"
abbreviation ro_STATUS_NORMAL :: string where "ro_STATUS_NORMAL \<equiv> ''1''"
abbreviation ro_DATA_SCOPE_ALL :: string where "ro_DATA_SCOPE_ALL \<equiv> ''1''"
abbreviation ro_DATA_SCOPE_CUSTOM :: string where "ro_DATA_SCOPE_CUSTOM \<equiv> ''2''"
abbreviation ro_DATA_SCOPE_DEPT :: string where "ro_DATA_SCOPE_DEPT \<equiv> ''3''"
abbreviation ro_DATA_SCOPE_DEPT_AND_CHILD :: string where "ro_DATA_SCOPE_DEPT_AND_CHILD \<equiv> ''4''"
abbreviation ro_DATA_SCOPE_SELF :: string where "ro_DATA_SCOPE_SELF \<equiv> ''5''"
abbreviation ro_DEL_FLAG_NORMAL :: string where "ro_DEL_FLAG_NORMAL \<equiv> ''0''"
abbreviation ro_DEL_FLAG_DELETED :: string where "ro_DEL_FLAG_DELETED \<equiv> ''2''"

record role_dept =
  rd_tenant_id :: string
  rd_role_id :: int
  rd_dept_id :: int


record user_role =
  ur_tenant_id :: string
  ur_user_id :: int
  ur_role_id :: int


record permission =
  pm_id :: int
  pm_tenant_id :: string
  pm_name :: string
  pm_code :: string
  pm_parent_id :: "int option"
  pm_perm_type :: string
  pm_icon :: "string option"
  pm_sort :: int
  pm_status :: string
  pm_created_at :: timestamp
  pm_updated_at :: timestamp


record role_permission =
  rp_tenant_id :: string
  rp_role_id :: int
  rp_perm_id :: int


section \<open>Tables\<close>

record org_db =
  org_tenants :: "tenant list"
  org_leases :: "operation_lease list"
  org_depts :: "dept list"
  org_users :: "user list"
  org_roles :: "role list"
  org_role_depts :: "role_dept list"
  org_user_roles :: "user_role list"
  org_permissions :: "permission list"
  org_role_permissions :: "role_permission list"
  org_outbox :: outbox

end
