(* ===== verification/Operation_Audit.thy ===== *)
theory Operation_Audit
  imports Outbox Access_Control
begin

text \<open>
  The operation audit (\<open>ryframe-application/src/audit.rs\<close>, \<open>system/oper_log.rs\<close>,
  \<open>ryframe-db/src/application_ports/audit.rs\<close>, \<open>repositories/oper_log_repo.rs\<close>). A write request
  carries an audit event; committing a transaction of the request first records the event in the
  outbox, in the same transaction. A worker later writes it to the log, once per event identifier.
  Column widths of the log are not modelled.
\<close>

section \<open>Events\<close>

datatype OperLogStatus = LogSuccess | LogFailure

definition oper_status_as_str :: "OperLogStatus \<Rightarrow> string" where
  "oper_status_as_str s = (case s of LogSuccess \<Rightarrow> ''1'' | LogFailure \<Rightarrow> ''0'')"

record RecordOperLogCommand =
  rl_title :: string
  rl_business_type :: string
  rl_method :: string
  rl_request_method :: string
  rl_oper_name :: string
  rl_oper_url :: string
  rl_oper_ip :: string
  rl_oper_param :: "string option"
  rl_json_result :: "string option"
  rl_status :: OperLogStatus
  rl_error_msg :: "string option"
  rl_cost_time :: int

record AuditOperationEvent =
  au_event_id :: string
  au_request_id :: string
  au_tenant_id :: string
  au_command :: RecordOperLogCommand

text \<open>The context of one request; the elapsed time is in milliseconds.\<close>

record AuditRequestContext =
  ac_event_id :: string
  ac_request_id :: string
  ac_tenant_id :: string
  ac_base_command :: RecordOperLogCommand

definition elapsed_millis :: "nat \<Rightarrow> int" where
  "elapsed_millis elapsed = min (int elapsed) i64_max"

definition audit_event :: "nat \<Rightarrow> OperLogStatus \<Rightarrow> string option \<Rightarrow> AuditRequestContext \<Rightarrow> AuditOperationEvent" where
  "audit_event elapsed status error_msg c =
     \<lparr>au_event_id = ac_event_id c, au_request_id = ac_request_id c, au_tenant_id = ac_tenant_id c,
      au_command = (ac_base_command c)\<lparr>rl_status := status, rl_error_msg := error_msg,
                      rl_cost_time := elapsed_millis elapsed\<rparr>\<rparr>"

definition validate_identifier :: "string \<Rightarrow> string \<Rightarrow> unit app_result" where
  "validate_identifier name value =
     (if value = [] \<or> 36 < length value then Inl (Validation (name @ msg_audit_field_len)) else Inr ())"

definition validate_audit_event :: "string option \<Rightarrow> AuditOperationEvent \<Rightarrow> unit app_result" where
  "validate_audit_event ctx e =
     bind_result (validate_identifier ''event_id'' (au_event_id e)) (\<lambda>_.
     bind_result (validate_identifier ''request_id'' (au_request_id e)) (\<lambda>_.
     enforce_tenant_scope ctx (au_tenant_id e)))"

section \<open>The stored document\<close>

definition opt_json :: "string option \<Rightarrow> json" where
  "opt_json v = (case v of Some s \<Rightarrow> JString s | None \<Rightarrow> JNull)"

definition audit_to_value :: "AuditOperationEvent \<Rightarrow> json" where
  "audit_to_value e =
     (let c = au_command e
      in JObject [(''event_id'', JString (au_event_id e)), (''request_id'', JString (au_request_id e)),
           (''tenant_id'', JString (au_tenant_id e)),
           (''command'', JObject
             [(''title'', JString (rl_title c)), (''business_type'', JString (rl_business_type c)),
              (''method'', JString (rl_method c)), (''request_method'', JString (rl_request_method c)),
              (''oper_name'', JString (rl_oper_name c)), (''oper_url'', JString (rl_oper_url c)),
              (''oper_ip'', JString (rl_oper_ip c)), (''oper_param'', opt_json (rl_oper_param c)),
              (''json_result'', opt_json (rl_json_result c)),
              (''status'', JString (case rl_status c of LogSuccess \<Rightarrow> ''success'' | LogFailure \<Rightarrow> ''failure'')),
              (''error_msg'', opt_json (rl_error_msg c)), (''cost_time'', JInt (rl_cost_time c))])])"

definition need_str :: "string \<Rightarrow> json \<Rightarrow> string option" where
  "need_str k v = Option.bind (json_get k v) json_as_str"

text \<open>An optional text may be missing or null; any other value is an error.\<close>

definition maybe_str :: "string \<Rightarrow> json \<Rightarrow> string option option" where
  "maybe_str k v =
     (case json_get k v of
        None \<Rightarrow> Some None
      | Some JNull \<Rightarrow> Some None
      | Some (JString s) \<Rightarrow> Some (Some s)
      | Some _ \<Rightarrow> None)"

definition need_status :: "string \<Rightarrow> json \<Rightarrow> OperLogStatus option" where
  "need_status k v =
     Option.bind (need_str k v) (\<lambda>s.
       if s = ''success'' then Some LogSuccess else if s = ''failure'' then Some LogFailure else None)"

definition command_from_value :: "json \<Rightarrow> RecordOperLogCommand option" where
  "command_from_value v =
     Option.bind (need_str ''title'' v) (\<lambda>title.
     Option.bind (need_str ''business_type'' v) (\<lambda>business_type.
     Option.bind (need_str ''method'' v) (\<lambda>meth.
     Option.bind (need_str ''request_method'' v) (\<lambda>request_method.
     Option.bind (need_str ''oper_name'' v) (\<lambda>oper_name.
     Option.bind (need_str ''oper_url'' v) (\<lambda>oper_url.
     Option.bind (need_str ''oper_ip'' v) (\<lambda>oper_ip.
     Option.bind (maybe_str ''oper_param'' v) (\<lambda>oper_param.
     Option.bind (maybe_str ''json_result'' v) (\<lambda>json_result.
     Option.bind (need_status ''status'' v) (\<lambda>status.
     Option.bind (maybe_str ''error_msg'' v) (\<lambda>error_msg.
     Option.bind (Option.bind (json_get ''cost_time'' v) json_as_i64) (\<lambda>cost_time.
       Some \<lparr>rl_title = title, rl_business_type = business_type, rl_method = meth,
             rl_request_method = request_method, rl_oper_name = oper_name, rl_oper_url = oper_url,
             rl_oper_ip = oper_ip, rl_oper_param = oper_param, rl_json_result = json_result,
             rl_status = status, rl_error_msg = error_msg, rl_cost_time = cost_time\<rparr>))))))))))))"

definition audit_from_value :: "json \<Rightarrow> AuditOperationEvent option" where
  "audit_from_value v =
     Option.bind (need_str ''event_id'' v) (\<lambda>event_id.
     Option.bind (need_str ''request_id'' v) (\<lambda>request_id.
     Option.bind (need_str ''tenant_id'' v) (\<lambda>tenant_id.
     Option.bind (Option.bind (json_get ''command'' v) command_from_value) (\<lambda>c.
       Some \<lparr>au_event_id = event_id, au_request_id = request_id, au_tenant_id = tenant_id,
             au_command = c\<rparr>))))"

lemma maybe_str_opt_json:
  "json_get k (JObject fs) = Some (opt_json v) \<Longrightarrow> maybe_str k (JObject fs) = Some v"
  by (cases v) (simp_all add: maybe_str_def opt_json_def)

lemma audit_from_to:
  "audit_from_value (audit_to_value e) = (if is_i64 (rl_cost_time (au_command e)) then Some e else None)"
proof -
  obtain c where c: "au_command e = c" by blast
  have s: "need_status ''status'' (JObject fs) = Some (rl_status c)"
    if "json_get ''status'' (JObject fs) =
      Some (JString (case rl_status c of LogSuccess \<Rightarrow> ''success'' | LogFailure \<Rightarrow> ''failure''))" for fs
    using that by (cases "rl_status c") (simp_all add: need_status_def need_str_def json_as_str_def)
  show ?thesis
    unfolding audit_from_value_def audit_to_value_def command_from_value_def Let_def c
    by (simp add: need_str_def json_as_str_def json_as_i64_def json_get_def
        s [unfolded json_get_def] maybe_str_opt_json [unfolded json_get_def] c [symmetric])
qed

lemma elapsed_is_i64 [simp]: "is_i64 (elapsed_millis n)"
  by (auto simp: elapsed_millis_def width_defs min_def)

section \<open>Recording\<close>

definition AUDIT_OPERATION_OUTBOX_EVENT_TYPE :: string where
  "AUDIT_OPERATION_OUTBOX_EVENT_TYPE = ''audit.operation''"

definition AUDIT_AGGREGATE_TYPE :: string where "AUDIT_AGGREGATE_TYPE = ''operation_audit''"

definition OUTBOX_MAX_ATTEMPTS :: int where "OUTBOX_MAX_ATTEMPTS = 20"

text \<open>What the surroundings supply to a recording: the tenant of the request, the next identifier,
  the time of the database and the trace.\<close>

record record_env =
  re_context :: "string option"
  re_next_id :: "int app_result"
  re_now :: timestamp
  re_traceparent :: "string option"
  re_tracestate :: "string option"

definition audit_record :: "record_env \<Rightarrow> AuditOperationEvent \<Rightarrow> int \<Rightarrow> RecordOutboxEvent" where
  "audit_record env e max_attempts =
     \<lparr>rec_tenant_id = Some (au_tenant_id e), rec_event_type = AUDIT_OPERATION_OUTBOX_EVENT_TYPE,
      rec_aggregate_type = AUDIT_AGGREGATE_TYPE, rec_aggregate_id = au_event_id e,
      rec_payload = audit_to_value e, rec_available_at = re_now env, rec_max_attempts = max_attempts,
      rec_dedupe_key = Some (au_event_id e), rec_traceparent = re_traceparent env,
      rec_tracestate = re_tracestate env\<rparr>"

definition record_event_in_transaction ::
  "record_env \<Rightarrow> AuditOperationEvent \<Rightarrow> int \<Rightarrow> outbox \<Rightarrow> outbox app_result" where
  "record_event_in_transaction env e max_attempts t =
     bind_result (validate_audit_event (re_context env) e) (\<lambda>_.
     bind_result (record_in_transaction (re_next_id env) (audit_record env e max_attempts) (re_now env) t t)
       (\<lambda>(_, t'). Inr t'))"

text \<open>The event of the current request, if there is one, goes into the caller's transaction.\<close>

definition record_current_audit_in_transaction ::
  "record_env \<Rightarrow> AuditOperationEvent option \<Rightarrow> outbox \<Rightarrow> outbox app_result" where
  "record_current_audit_in_transaction env current t =
     (case current of
        None \<Rightarrow> Inr t
      | Some e \<Rightarrow> record_event_in_transaction env e OUTBOX_MAX_ATTEMPTS t)"

text \<open>The separate short transaction the boundary uses, and its number of attempts.\<close>

definition audit_outbox_attempts :: "int \<Rightarrow> int" where
  "audit_outbox_attempts default_max_attempts = max 1 (min OUTBOX_MAX_ATTEMPTS default_max_attempts)"

definition audit_outbox_record ::
  "record_env \<Rightarrow> AuditOperationEvent \<Rightarrow> int \<Rightarrow> unit app_result \<Rightarrow> outbox \<Rightarrow> unit app_result \<times> outbox" where
  "audit_outbox_record env e default_max_attempts commit t =
     (case bind_result (validate_audit_event (re_context env) e) (\<lambda>_.
           bind_result (record_event_in_transaction env e (audit_outbox_attempts default_max_attempts) t)
             (\<lambda>t'. bind_result commit (\<lambda>_. Inr t'))) of
        Inl err \<Rightarrow> (Inl err, t)
      | Inr t' \<Rightarrow> (Inr (), t'))"

lemma audit_recorded:
  assumes "record_event_in_transaction env e m t = Inr t'"
  shows "\<exists>x. ob_find_by_dedupe_key AUDIT_OPERATION_OUTBOX_EVENT_TYPE (au_event_id e) t' = Some x \<and>
    (t' = t \<or> t' = x # t \<and> ob_payload x = audit_to_value e \<and> ob_tenant_id x = Some (au_tenant_id e) \<and>
       ob_event_type x = AUDIT_OPERATION_OUTBOX_EVENT_TYPE)"
  using assms
  by (auto simp: record_event_in_transaction_def record_in_transaction_def bind_result_eq_Inr new_event_def
      insert_event_def audit_record_def ob_find_by_dedupe_key_def split: option.splits if_splits)

section \<open>The operation log\<close>

record oper_log =
  og_id :: int
  og_tenant_id :: string
  og_event_id :: "string option"
  og_request_id :: "string option"
  og_title :: string
  og_business_type :: string
  og_method :: string
  og_request_method :: string
  og_oper_name :: string
  og_oper_url :: string
  og_oper_ip :: string
  og_oper_location :: "string option"
  og_oper_param :: "string option"
  og_json_result :: "string option"
  og_status :: string
  og_error_msg :: "string option"
  og_oper_time :: timestamp
  og_cost_time :: int

text \<open>\<open>into_record\<close> and \<open>to_entity\<close>: the row of an event.\<close>

definition log_of_event :: "int app_result \<Rightarrow> timestamp \<Rightarrow> AuditOperationEvent \<Rightarrow> oper_log app_result" where
  "log_of_event next_id clock e =
     bind_result next_id (\<lambda>i.
       let c = au_command e
       in Inr \<lparr>og_id = i, og_tenant_id = au_tenant_id e, og_event_id = Some (au_event_id e),
               og_request_id = Some (au_request_id e), og_title = rl_title c,
               og_business_type = rl_business_type c, og_method = rl_method c,
               og_request_method = rl_request_method c, og_oper_name = rl_oper_name c,
               og_oper_url = rl_oper_url c, og_oper_ip = rl_oper_ip c, og_oper_location = None,
               og_oper_param = rl_oper_param c, og_json_result = rl_json_result c,
               og_status = oper_status_as_str (rl_status c), og_error_msg = rl_error_msg c,
               og_oper_time = clock, og_cost_time = rl_cost_time c\<rparr>)"

definition insert_event_in_transaction ::
  "string \<Rightarrow> oper_log \<Rightarrow> oper_log list \<Rightarrow> (bool \<times> oper_log list) app_result" where
  "insert_event_in_transaction tenant_id row logs =
     bind_result (TenantId_parse tenant_id) (\<lambda>_.
       if og_tenant_id row \<noteq> tenant_id then Inl (Authorization msg_operlog_tenant)
       else if og_event_id row = None \<or> og_event_id row = Some [] then Inl (Validation msg_operlog_no_event)
       else if og_id row \<in> og_id ` set logs \<or> (\<exists>x \<in> set logs. og_event_id x = og_event_id row) then
         (case find (\<lambda>x. og_event_id x = og_event_id row) logs of
            None \<Rightarrow> Inl (Database msg_operlog_unreadable)
          | Some existing \<Rightarrow>
              if og_tenant_id existing \<noteq> tenant_id then Inl (Authorization msg_operlog_foreign)
              else Inr (False, logs))
       else Inr (True, row # logs))"

end
