(* ===== verification/Tenant_Mutations.thy ===== *)
theory Tenant_Mutations
  imports Org_Types Operation_Audit
begin

text \<open>
  What every change of a tenant's organisation shares: the tenant row with its operation lease is
  locked (\<open>tenant_operation_lease_repo.rs\<close>), the change is made, the authorisation epoch and the
  configuration version advance in the same transaction, the new epoch is recorded in the outbox
  for the cache mirror (\<open>authorization_cache/mirror.rs\<close>), the audit event of the request is recorded
  beside it, and only then does the transaction commit.
  The mirror is also updated directly after the commit; a failure there is reported although the
  change is committed.
\<close>

section \<open>The tenant row and its lease\<close>

definition lock_tenant_in_txn :: "string \<Rightarrow> org_db \<Rightarrow> tenant app_result" where
  "lock_tenant_in_txn tenant_id db =
     (case row_get tn_tenant_id tenant_id (org_tenants db) of
        Some t \<Rightarrow> Inr t
      | None \<Rightarrow> Inl (NotFound msg_tenant_missing))"

definition delete_lease :: "string \<Rightarrow> org_db \<Rightarrow> org_db" where
  "delete_lease tenant_id db = db\<lparr>org_leases := filter (\<lambda>l. ol_tenant_id l \<noteq> tenant_id) (org_leases db)\<rparr>"

definition lock_tenant_and_validate_in_txn ::
  "string \<Rightarrow> string option \<Rightarrow> timestamp \<Rightarrow> org_db \<Rightarrow> (tenant \<times> org_db) app_result" where
  "lock_tenant_and_validate_in_txn tenant_id owner_token now db =
     bind_result (lock_tenant_in_txn tenant_id db) (\<lambda>tenant.
       case (owner_token, row_get ol_tenant_id tenant_id (org_leases db)) of
         (Some token, Some lease) \<Rightarrow>
           if now < ol_expires_at lease \<and> ol_owner_token lease = token then Inr (tenant, db)
           else Inl (TenantOperationConflict msg_lease_lost)
       | (Some _, None) \<Rightarrow> Inl (TenantOperationConflict msg_lease_lost)
       | (None, Some lease) \<Rightarrow>
           if ol_expires_at lease \<le> now then Inr (tenant, delete_lease tenant_id db)
           else Inl (TenantOperationConflict msg_lease_busy)
       | (None, None) \<Rightarrow> Inr (tenant, db))"

text \<open>A counter that leaves the width of its column is an error of the database.\<close>

definition out_of_range :: app_error where
  "out_of_range = Database ''Out of range value''"

definition put_tenant :: "tenant \<Rightarrow> org_db \<Rightarrow> org_db" where
  "put_tenant t db = db\<lparr>org_tenants := row_put tn_tenant_id t (org_tenants db)\<rparr>"

definition increment_authorization_epoch_in_txn ::
  "string \<Rightarrow> timestamp \<Rightarrow> org_db \<Rightarrow> (int \<times> org_db) app_result" where
  "increment_authorization_epoch_in_txn tenant_id clock db =
     bind_result (lock_tenant_in_txn tenant_id db) (\<lambda>t.
       case checked_add_i32 (tn_authorization_epoch t) 1 of
         None \<Rightarrow> Inl out_of_range
       | Some epoch \<Rightarrow>
           Inr (epoch, put_tenant (t\<lparr>tn_authorization_epoch := epoch, tn_updated_at := clock\<rparr>) db))"

definition increment_configuration_version_in_txn ::
  "string \<Rightarrow> timestamp \<Rightarrow> org_db \<Rightarrow> (int \<times> org_db) app_result" where
  "increment_configuration_version_in_txn tenant_id now db =
     (case row_get tn_tenant_id tenant_id (org_tenants db) of
        None \<Rightarrow> Inl (NotFound msg_tenant_missing)
      | Some t \<Rightarrow>
          (case checked_add_i64 (tn_configuration_version t) 1 of
             None \<Rightarrow> Inl out_of_range
           | Some v \<Rightarrow> Inr (v, put_tenant (t\<lparr>tn_configuration_version := v, tn_updated_at := now\<rparr>) db)))"

section \<open>Mirror events\<close>

datatype AuthorizationMirrorUpdate =
    TenantUpdate string int
  | UserUpdate string int int
  | TenantCacheNamespaceUpdate string string int

text \<open>The serde representation: internally tagged by \<open>scope\<close>, names in snake case.\<close>

definition mirror_to_value :: "AuthorizationMirrorUpdate \<Rightarrow> json" where
  "mirror_to_value u =
     (case u of
        TenantUpdate t e \<Rightarrow>
          JObject [(''scope'', JString ''tenant''), (''tenant_id'', JString t),
                   (''authorization_epoch'', JInt e)]
      | UserUpdate t i v \<Rightarrow>
          JObject [(''scope'', JString ''user''), (''tenant_id'', JString t), (''user_id'', JInt i),
                   (''authorization_version'', JInt v)]
      | TenantCacheNamespaceUpdate t n v \<Rightarrow>
          JObject [(''scope'', JString ''tenant_cache_namespace''), (''tenant_id'', JString t),
                   (''namespace'', JString n), (''namespace_version'', JInt v)])"

definition field_str :: "string \<Rightarrow> json \<Rightarrow> string option" where
  "field_str k v = Option.bind (json_get k v) json_as_str"

definition field_int :: "(int \<Rightarrow> bool) \<Rightarrow> string \<Rightarrow> json \<Rightarrow> int option" where
  "field_int ok k v =
     (case json_get k v of Some (JInt i) \<Rightarrow> if ok i then Some i else None | _ \<Rightarrow> None)"

definition mirror_from_value :: "json \<Rightarrow> AuthorizationMirrorUpdate option" where
  "mirror_from_value v =
     Option.bind (field_str ''scope'' v) (\<lambda>scope.
     Option.bind (field_str ''tenant_id'' v) (\<lambda>t.
       if scope = ''tenant'' then
         map_option (TenantUpdate t) (field_int is_i32 ''authorization_epoch'' v)
       else if scope = ''user'' then
         Option.bind (field_int is_i64 ''user_id'' v) (\<lambda>i.
           map_option (UserUpdate t i) (field_int is_i32 ''authorization_version'' v))
       else if scope = ''tenant_cache_namespace'' then
         Option.bind (field_str ''namespace'' v) (\<lambda>n.
           map_option (TenantCacheNamespaceUpdate t n) (field_int is_i64 ''namespace_version'' v))
       else None))"

text \<open>What the surroundings of a mutation supply: clocks, the identifier of the event, tracing, the
  configuration of the cache, the audit event of the request with what its recording reads, and how
  the driver's commit and the direct mirror update end.\<close>

record mutation_env =
  me_now :: timestamp
  me_clock :: timestamp
  me_cache_enabled :: bool
  me_event_id :: "int app_result"
  me_traceparent :: "string option"
  me_tracestate :: "string option"
  me_audit :: "AuditOperationEvent option"
  me_audit_env :: record_env
  me_commit :: "unit app_result"
  me_sync :: "unit app_result"

definition AUTHORIZATION_MIRROR_OUTBOX_EVENT_TYPE :: string where
  "AUTHORIZATION_MIRROR_OUTBOX_EVENT_TYPE = ''security.authorization.mirror-updated''"

definition mirror_dedupe_key :: "string \<Rightarrow> string \<Rightarrow> string \<Rightarrow> int \<Rightarrow> string" where
  "mirror_dedupe_key tenant_id aggregate_type aggregate_id version =
     ''authorization-mirror:'' @ tenant_id @ '':'' @ aggregate_type @ '':'' @ aggregate_id @ '':'' @
     show_int version"

definition mirror_event ::
  "mutation_env \<Rightarrow> string \<Rightarrow> string \<Rightarrow> string \<Rightarrow> int \<Rightarrow> AuthorizationMirrorUpdate \<Rightarrow> RecordOutboxEvent" where
  "mirror_event env tenant_id aggregate_type aggregate_id version payload =
     \<lparr>rec_tenant_id = Some tenant_id, rec_event_type = AUTHORIZATION_MIRROR_OUTBOX_EVENT_TYPE,
      rec_aggregate_type = aggregate_type, rec_aggregate_id = aggregate_id,
      rec_payload = mirror_to_value payload, rec_available_at = me_now env, rec_max_attempts = 20,
      rec_dedupe_key = Some (mirror_dedupe_key tenant_id aggregate_type aggregate_id version),
      rec_traceparent = me_traceparent env, rec_tracestate = me_tracestate env\<rparr>"

definition record_mirror_event :: "mutation_env \<Rightarrow> RecordOutboxEvent \<Rightarrow> org_db \<Rightarrow> org_db app_result" where
  "record_mirror_event env e db =
     bind_result (record_in_transaction (me_event_id env) e (me_now env) (org_outbox db) (org_outbox db))
       (\<lambda>(_, t). Inr (db\<lparr>org_outbox := t\<rparr>))"

definition increment_tenant_epoch_in_transaction ::
  "mutation_env \<Rightarrow> string \<Rightarrow> org_db \<Rightarrow> (int \<times> org_db) app_result" where
  "increment_tenant_epoch_in_transaction env tenant_id db =
     bind_result (increment_authorization_epoch_in_txn tenant_id (me_clock env) db) (\<lambda>(epoch, db1).
       if me_cache_enabled env then
         bind_result
           (record_mirror_event env
              (mirror_event env tenant_id ''tenant'' tenant_id epoch (TenantUpdate tenant_id epoch)) db1)
           (\<lambda>db2. Inr (epoch, db2))
       else Inr (epoch, db1))"

section \<open>Completing a mutation\<close>

text \<open>\<open>commit_audited\<close>: the audit event of the request is part of the transaction.\<close>

definition commit_audited :: "mutation_env \<Rightarrow> org_db \<Rightarrow> org_db app_result" where
  "commit_audited env db =
     bind_result (record_current_audit_in_transaction (me_audit_env env) (me_audit env) (org_outbox db)) (\<lambda>t.
     bind_result (me_commit env) (\<lambda>_. Inr (db\<lparr>org_outbox := t\<rparr>)))"

definition complete_mutation ::
  "mutation_env \<Rightarrow> string \<Rightarrow> ('a \<times> org_db) app_result \<Rightarrow> org_db \<Rightarrow> 'a app_result \<times> org_db" where
  "complete_mutation env tenant_id operation db =
     (case bind_result operation (\<lambda>(v, db1).
             bind_result (increment_tenant_epoch_in_transaction env tenant_id db1) (\<lambda>(epoch, db2).
             bind_result (increment_configuration_version_in_txn tenant_id (me_now env) db2) (\<lambda>(_, db3).
             bind_result (commit_audited env db3) (\<lambda>db4. Inr (v, db4))))) of
        Inl e \<Rightarrow> (Inl e, db)
      | Inr (v, db4) \<Rightarrow> (case me_sync env of Inl e \<Rightarrow> (Inl e, db4) | Inr _ \<Rightarrow> (Inr v, db4)))"

section \<open>Properties\<close>

text \<open>The outbox \<open>t'\<close> holds the event of a type and key; if \<open>t\<close> did not, its document is \<open>payload\<close>.\<close>

definition outbox_holds :: "string \<Rightarrow> string \<Rightarrow> json \<Rightarrow> outbox \<Rightarrow> outbox \<Rightarrow> bool" where
  "outbox_holds ty key payload t t' \<longleftrightarrow>
     (case ob_find_by_dedupe_key ty key t' of
        None \<Rightarrow> False
      | Some x \<Rightarrow> ob_find_by_dedupe_key ty key t \<noteq> None \<or> ob_payload x = payload)"

lemma record_holds:
  assumes "record_in_transaction next_id e now t t = Inr (x, t')" "rec_dedupe_key e = Some k"
  shows "outbox_holds (rec_event_type e) k (rec_payload e) t t'"
    and "t' = t \<or> t' = x # t \<and> ob_event_type x = rec_event_type e"
  using assms
  by (auto simp: record_in_transaction_def bind_result_eq_Inr new_event_def insert_event_def outbox_holds_def
      ob_find_by_dedupe_key_def split: option.splits if_splits)

text \<open>An event of another type in front changes nothing.\<close>

lemma find_other_type:
  "t' = t \<or> t' = x # t \<and> ob_event_type x \<noteq> ty \<Longrightarrow> ob_find_by_dedupe_key ty k t' = ob_find_by_dedupe_key ty k t"
  by (auto simp: ob_find_by_dedupe_key_def)

lemma event_types_differ: "AUDIT_OPERATION_OUTBOX_EVENT_TYPE \<noteq> AUTHORIZATION_MIRROR_OUTBOX_EVENT_TYPE"
  by (simp add: AUDIT_OPERATION_OUTBOX_EVENT_TYPE_def AUTHORIZATION_MIRROR_OUTBOX_EVENT_TYPE_def)

lemma checked_i32: "checked_add_i32 a b = Some c \<Longrightarrow> c = a + b \<and> is_i32 c"
  by (auto simp: checked_add_i32_def split: if_splits)

lemma checked_i64: "checked_add_i64 a b = Some c \<Longrightarrow> c = a + b \<and> is_i64 c"
  by (auto simp: checked_add_i64_def split: if_splits)

lemma tenant_put_get:
  "row_get tn_tenant_id t (org_tenants db) = Some row \<Longrightarrow> tn_tenant_id row' = t \<Longrightarrow>
     row_get tn_tenant_id t (org_tenants (put_tenant row' db)) = Some row'"
  by (simp add: put_tenant_def row_get_row_put)

lemma epoch_advances:
  assumes "increment_authorization_epoch_in_txn t clk db = Inr (e, db')"
  shows "\<exists>row. row_get tn_tenant_id t (org_tenants db) = Some row \<and> e = tn_authorization_epoch row + 1 \<and> is_i32 e \<and>
    db' = put_tenant (row\<lparr>tn_authorization_epoch := e, tn_updated_at := clk\<rparr>) db"
  using assms
  by (auto simp: increment_authorization_epoch_in_txn_def lock_tenant_in_txn_def bind_result_eq_Inr
      dest!: checked_i32 split: option.splits)

lemma version_advances:
  assumes "increment_configuration_version_in_txn t now db = Inr (v, db')"
  shows "\<exists>row. row_get tn_tenant_id t (org_tenants db) = Some row \<and> v = tn_configuration_version row + 1 \<and>
    db' = put_tenant (row\<lparr>tn_configuration_version := v, tn_updated_at := now\<rparr>) db"
  using assms by (auto simp: increment_configuration_version_in_txn_def dest!: checked_i64 split: option.splits)

definition tenant_mirror_dedupe :: "string \<Rightarrow> int \<Rightarrow> string" where
  "tenant_mirror_dedupe tenant_id epoch = mirror_dedupe_key tenant_id ''tenant'' tenant_id epoch"

lemma tenant_epoch_advances:
  assumes "increment_tenant_epoch_in_transaction env t db = Inr (e, db')"
  obtains row ob where "row_get tn_tenant_id t (org_tenants db) = Some row" "e = tn_authorization_epoch row + 1"
    "db' = db\<lparr>org_tenants := row_put tn_tenant_id (row\<lparr>tn_authorization_epoch := e, tn_updated_at := me_clock env\<rparr>) (org_tenants db),
              org_outbox := ob\<rparr>"
    "\<not> me_cache_enabled env \<or> outbox_holds AUTHORIZATION_MIRROR_OUTBOX_EVENT_TYPE (tenant_mirror_dedupe t e)
       (mirror_to_value (TenantUpdate t e)) (org_outbox db) ob"
    "ob = org_outbox db \<or> (\<exists>x. ob = x # org_outbox db \<and> ob_event_type x = AUTHORIZATION_MIRROR_OUTBOX_EVENT_TYPE)"
proof -
  from assms obtain db1 where inc: "increment_authorization_epoch_in_txn t (me_clock env) db = Inr (e, db1)"
    and rest: "(if me_cache_enabled env then
         bind_result (record_mirror_event env (mirror_event env t ''tenant'' t e (TenantUpdate t e)) db1)
           (\<lambda>db2. Inr (e, db2)) else Inr (e, db1)) = Inr (e, db')"
    unfolding increment_tenant_epoch_in_transaction_def bind_result_eq_Inr
    by (auto simp: bind_result_eq_Inr split: if_splits)
  from epoch_advances [OF inc] obtain row where row: "row_get tn_tenant_id t (org_tenants db) = Some row"
    "e = tn_authorization_epoch row + 1"
    and db1: "db1 = put_tenant (row\<lparr>tn_authorization_epoch := e, tn_updated_at := me_clock env\<rparr>) db" by blast
  show thesis
  proof (cases "me_cache_enabled env")
    case False
    have "db1 = db\<lparr>org_tenants := row_put tn_tenant_id (row\<lparr>tn_authorization_epoch := e, tn_updated_at := me_clock env\<rparr>) (org_tenants db),
              org_outbox := org_outbox db\<rparr>" by (simp add: db1 put_tenant_def)
    moreover have "db' = db1" using rest False by simp
    ultimately have "db' = db\<lparr>org_tenants := row_put tn_tenant_id (row\<lparr>tn_authorization_epoch := e, tn_updated_at := me_clock env\<rparr>) (org_tenants db),
              org_outbox := org_outbox db\<rparr>" by (rule trans [rotated])
    from that [OF row this disjI1 [OF False] disjI1 [OF refl]] show thesis .
  next
    case True
    let ?m = "mirror_event env t ''tenant'' t e (TenantUpdate t e)"
    have out: "org_outbox db1 = org_outbox db" by (simp add: db1 put_tenant_def)
    from rest True obtain x ob where rec: "record_in_transaction (me_event_id env) ?m (me_now env) (org_outbox db) (org_outbox db) = Inr (x, ob)"
      and db': "db' = db1\<lparr>org_outbox := ob\<rparr>"
      by (auto simp: record_mirror_event_def bind_result_eq_Inr out)
    have key: "rec_dedupe_key ?m = Some (tenant_mirror_dedupe t e)"
      "rec_event_type ?m = AUTHORIZATION_MIRROR_OUTBOX_EVENT_TYPE" "rec_payload ?m = mirror_to_value (TenantUpdate t e)"
      by (simp_all add: mirror_event_def tenant_mirror_dedupe_def)
    have d: "db' = db\<lparr>org_tenants := row_put tn_tenant_id (row\<lparr>tn_authorization_epoch := e, tn_updated_at := me_clock env\<rparr>) (org_tenants db),
              org_outbox := ob\<rparr>" by (simp add: db' db1 put_tenant_def)
    note holds = record_holds [OF rec key(1), unfolded key(2,3)]
    show thesis by (rule that [OF row d disjI2 [OF holds(1)]]) (use holds(2) in blast)
  qed
qed

lemma commit_audited_Inr:
  assumes "commit_audited env db = Inr db'"
  obtains ob where "db' = db\<lparr>org_outbox := ob\<rparr>"
    "ob = org_outbox db \<or> (\<exists>x. ob = x # org_outbox db \<and> ob_event_type x = AUDIT_OPERATION_OUTBOX_EVENT_TYPE)"
    "\<forall>a. me_audit env = Some a \<longrightarrow> outbox_holds AUDIT_OPERATION_OUTBOX_EVENT_TYPE (au_event_id a) (audit_to_value a) (org_outbox db) ob"
proof -
  from assms obtain ob where r: "record_current_audit_in_transaction (me_audit_env env) (me_audit env) (org_outbox db) = Inr ob"
    and db': "db' = db\<lparr>org_outbox := ob\<rparr>" by (auto simp: commit_audited_def bind_result_eq_Inr)
  show thesis
  proof (cases "me_audit env")
    case None
    with r have "ob = org_outbox db" by (simp add: record_current_audit_in_transaction_def)
    with that [OF db'] None show thesis by simp
  next
    case (Some a)
    with r have "record_event_in_transaction (me_audit_env env) a OUTBOX_MAX_ATTEMPTS (org_outbox db) = Inr ob"
      by (simp add: record_current_audit_in_transaction_def)
    then obtain x where rec: "record_in_transaction (re_next_id (me_audit_env env)) (audit_record (me_audit_env env) a OUTBOX_MAX_ATTEMPTS)
        (re_now (me_audit_env env)) (org_outbox db) (org_outbox db) = Inr (x, ob)"
      by (auto simp: record_event_in_transaction_def bind_result_eq_Inr)
    have key: "rec_dedupe_key (audit_record (me_audit_env env) a OUTBOX_MAX_ATTEMPTS) = Some (au_event_id a)"
      "rec_event_type (audit_record (me_audit_env env) a OUTBOX_MAX_ATTEMPTS) = AUDIT_OPERATION_OUTBOX_EVENT_TYPE"
      "rec_payload (audit_record (me_audit_env env) a OUTBOX_MAX_ATTEMPTS) = audit_to_value a"
      by (simp_all add: audit_record_def)
    note holds = record_holds [OF rec key(1), unfolded key(2,3)]
    show thesis by (rule that [OF db']) (use holds Some in auto)
  qed
qed

lemma complete_mutationE:
  assumes "complete_mutation env t op db = (r, db')"
  obtains (refused) "isl r" "db' = db"
  | (committed) v db1 e db2 w db3 where "op = Inr (v, db1)"
      "increment_tenant_epoch_in_transaction env t db1 = Inr (e, db2)"
      "increment_configuration_version_in_txn t (me_now env) db2 = Inr (w, db3)"
      "commit_audited env db3 = Inr db'" "r = (case me_sync env of Inl e \<Rightarrow> Inl e | Inr _ \<Rightarrow> Inr v)"
proof -
  define body where "body = bind_result op (\<lambda>(v, db1).
      bind_result (increment_tenant_epoch_in_transaction env t db1) (\<lambda>(epoch, db2).
      bind_result (increment_configuration_version_in_txn t (me_now env) db2) (\<lambda>(_, db3).
      bind_result (commit_audited env db3) (\<lambda>db4. Inr (v, db4)))))"
  show thesis
  proof (cases body)
    case (Inl e)
    with assms refused show thesis by (auto simp: complete_mutation_def body_def)
  next
    case (Inr b)
    then obtain v db1 e db2 w db3 db4 where "op = Inr (v, db1)"
      "increment_tenant_epoch_in_transaction env t db1 = Inr (e, db2)"
      "increment_configuration_version_in_txn t (me_now env) db2 = Inr (w, db3)"
      "commit_audited env db3 = Inr db4" "b = (v, db4)"
      unfolding body_def by (auto simp: bind_result_eq_Inr)
    with assms Inr committed show thesis by (auto simp: complete_mutation_def body_def split: sum.splits)
  qed
qed

text \<open>
  C33. A change of a tenant's organisation never commits without its authorisation epoch and its audit.
  Completing a mutation either changes nothing and reports an error, or commits the operation's own
  change of the other tables together with an authorisation epoch and a configuration version that
  are each one higher, with the outbox event of the audited request, and, when the cache is enabled,
  with the outbox event that carries exactly the new epoch. The caller sees an error after such a
  commit only when the direct update of the mirror failed.
\<close>

theorem authorization_change_published:
  assumes "complete_mutation env t op db = (r, db')"
  shows "(isl r \<and> db' = db) \<or>
    (\<exists>v db1 row row'. op = Inr (v, db1) \<and>
       r = (case me_sync env of Inl e \<Rightarrow> Inl e | Inr _ \<Rightarrow> Inr v) \<and>
       (\<exists>ts ob. db' = db1\<lparr>org_tenants := ts, org_outbox := ob\<rparr>) \<and>
       row_get tn_tenant_id t (org_tenants db1) = Some row \<and>
       row_get tn_tenant_id t (org_tenants db') = Some row' \<and>
       tn_authorization_epoch row' = tn_authorization_epoch row + 1 \<and>
       tn_configuration_version row' = tn_configuration_version row + 1 \<and>
       (case me_audit env of None \<Rightarrow> True
        | Some a \<Rightarrow> outbox_holds AUDIT_OPERATION_OUTBOX_EVENT_TYPE (au_event_id a) (audit_to_value a)
                     (org_outbox db1) (org_outbox db')) \<and>
       (\<not> me_cache_enabled env \<or>
          outbox_holds AUTHORIZATION_MIRROR_OUTBOX_EVENT_TYPE (tenant_mirror_dedupe t (tn_authorization_epoch row'))
            (mirror_to_value (TenantUpdate t (tn_authorization_epoch row'))) (org_outbox db1) (org_outbox db')))"
  using assms
proof (cases rule: complete_mutationE)
  case refused
  then show ?thesis by blast
next
  case (committed v db1 e db2 w db3)
  from tenant_epoch_advances [OF committed(2)] obtain row ob where row: "row_get tn_tenant_id t (org_tenants db1) = Some row"
    and e: "e = tn_authorization_epoch row + 1"
    and db2: "db2 = db1\<lparr>org_tenants := row_put tn_tenant_id (row\<lparr>tn_authorization_epoch := e, tn_updated_at := me_clock env\<rparr>) (org_tenants db1),
                org_outbox := ob\<rparr>"
    and mirror: "\<not> me_cache_enabled env \<or> outbox_holds AUTHORIZATION_MIRROR_OUTBOX_EVENT_TYPE (tenant_mirror_dedupe t e)
       (mirror_to_value (TenantUpdate t e)) (org_outbox db1) ob"
    and ob: "ob = org_outbox db1 \<or> (\<exists>x. ob = x # org_outbox db1 \<and> ob_event_type x = AUTHORIZATION_MIRROR_OUTBOX_EVENT_TYPE)" .
  have key: "tn_tenant_id row = t" using row_get_SomeD [OF row] by simp
  have get2: "row_get tn_tenant_id t (org_tenants db2) = Some (row\<lparr>tn_authorization_epoch := e, tn_updated_at := me_clock env\<rparr>)"
    using row key by (simp add: db2 row_get_row_put)
  from version_advances [OF committed(3)] get2 key obtain row' where
    row': "row_get tn_tenant_id t (org_tenants db3) = Some row'" "tn_authorization_epoch row' = e"
      "tn_configuration_version row' = tn_configuration_version row + 1"
    and db3: "\<exists>ts. db3 = db2\<lparr>org_tenants := ts\<rparr>"
    by (auto simp: put_tenant_def row_get_row_put)
  from commit_audited_Inr [OF committed(4)] obtain ob' where db': "db' = db3\<lparr>org_outbox := ob'\<rparr>"
    and ob': "ob' = org_outbox db3 \<or> (\<exists>x. ob' = x # org_outbox db3 \<and> ob_event_type x = AUDIT_OPERATION_OUTBOX_EVENT_TYPE)"
    and audit: "\<forall>a. me_audit env = Some a \<longrightarrow> outbox_holds AUDIT_OPERATION_OUTBOX_EVENT_TYPE (au_event_id a) (audit_to_value a) (org_outbox db3) ob'" .
  have o3: "org_outbox db3 = ob" using db3 db2 by auto
  from db3 obtain ts where "db3 = db2\<lparr>org_tenants := ts\<rparr>" by blast
  then have "db' = db1\<lparr>org_tenants := ts, org_outbox := ob'\<rparr>" unfolding db' db2 by simp
  then have frame: "\<exists>ts ob. db' = db1\<lparr>org_tenants := ts, org_outbox := ob\<rparr>" by blast
  have o4: "org_outbox db' = ob'" by (simp add: db')
  have m: "ob_find_by_dedupe_key AUTHORIZATION_MIRROR_OUTBOX_EVENT_TYPE k ob' = ob_find_by_dedupe_key AUTHORIZATION_MIRROR_OUTBOX_EVENT_TYPE k ob" for k
    using ob' event_types_differ find_other_type [of ob' ob] unfolding o3 by metis
  have a: "ob_find_by_dedupe_key AUDIT_OPERATION_OUTBOX_EVENT_TYPE k ob = ob_find_by_dedupe_key AUDIT_OPERATION_OUTBOX_EVENT_TYPE k (org_outbox db1)" for k
    using ob event_types_differ find_other_type [of ob "org_outbox db1"] by metis
  have mirror': "\<not> me_cache_enabled env \<or>
      outbox_holds AUTHORIZATION_MIRROR_OUTBOX_EVENT_TYPE (tenant_mirror_dedupe t (tn_authorization_epoch row'))
        (mirror_to_value (TenantUpdate t (tn_authorization_epoch row'))) (org_outbox db1) (org_outbox db')"
    using mirror by (simp add: outbox_holds_def m row'(2) o4)
  have audit': "(case me_audit env of None \<Rightarrow> True
      | Some a \<Rightarrow> outbox_holds AUDIT_OPERATION_OUTBOX_EVENT_TYPE (au_event_id a) (audit_to_value a)
                   (org_outbox db1) (org_outbox db'))"
    using audit unfolding outbox_holds_def o3 a o4 by (cases "me_audit env") simp_all
  have g1: "row_get tn_tenant_id t (org_tenants db') = Some row'"
    and g2: "tn_authorization_epoch row' = tn_authorization_epoch row + 1"
    using row' e by (simp_all add: db')
  show ?thesis
    by (rule disjI2, rule exI [of _ v], rule exI [of _ db1], rule exI [of _ row], rule exI [of _ row'],
        intro conjI committed(1) committed(5) frame row g1 g2 row'(3) audit' mirror')
qed

text \<open>A tenant with the cache enabled, and an audited request.\<close>

definition sample_request :: AuditRequestContext where
  "sample_request = \<lparr>ac_event_id = ''e1'', ac_request_id = ''r1'', ac_tenant_id = ''system'',
     ac_base_command = \<lparr>rl_title = ''dept'', rl_business_type = ''UPDATE'', rl_method = ''update'',
       rl_request_method = ''PUT'', rl_oper_name = ''admin'', rl_oper_url = ''/depts'', rl_oper_ip = ''::1'',
       rl_oper_param = None, rl_json_result = None, rl_status = LogFailure, rl_error_msg = None,
       rl_cost_time = 0\<rparr>\<rparr>"

definition sample_record_env :: record_env where
  "sample_record_env = \<lparr>re_context = Some ''system'', re_next_id = Inr 78, re_now = 10,
     re_traceparent = None, re_tracestate = None\<rparr>"

definition sample_env :: mutation_env where
  "sample_env = \<lparr>me_now = 10, me_clock = 11, me_cache_enabled = True, me_event_id = Inr 77,
     me_traceparent = None, me_tracestate = None,
     me_audit = Some (audit_event 12 LogSuccess None sample_request), me_audit_env = sample_record_env,
     me_commit = Inr (), me_sync = Inr ()\<rparr>"

definition sample_tenant :: tenant where
  "sample_tenant = \<lparr>tn_id = 1, tn_tenant_id = ''system'', tn_name = ''System'', tn_domain = None,
     tn_status = tn_STATUS_ENABLED, tn_expire_at = None, tn_max_users = 100, tn_max_roles = 50,
     tn_max_storage_mb = 1024, tn_max_requests_per_min = 600, tn_session_version = 0,
     tn_authorization_epoch = 5, tn_runtime_epoch = 0, tn_configuration_version = 8,
     tn_created_at = 0, tn_updated_at = 0\<rparr>"

definition sample_org :: org_db where
  "sample_org = \<lparr>org_tenants = [sample_tenant], org_leases = [], org_depts = [], org_users = [],
     org_roles = [], org_role_depts = [], org_user_roles = [], org_permissions = [],
     org_role_permissions = [], org_outbox = []\<rparr>"

lemma sample_change_commits:
  "\<not> isl (fst (complete_mutation sample_env ''system'' (Inr ((), sample_org)) sample_org))"
  by code_simp

lemma authorization_change_published_witness:
  "\<exists>row'. row_get tn_tenant_id ''system''
        (org_tenants (snd (complete_mutation sample_env ''system'' (Inr ((), sample_org)) sample_org))) = Some row' \<and>
      tn_authorization_epoch row' = 6 \<and>
      outbox_holds AUTHORIZATION_MIRROR_OUTBOX_EVENT_TYPE (tenant_mirror_dedupe ''system'' 6)
        (mirror_to_value (TenantUpdate ''system'' 6)) []
        (org_outbox (snd (complete_mutation sample_env ''system'' (Inr ((), sample_org)) sample_org)))"
  using authorization_change_published [of sample_env "''system''" "Inr ((), sample_org)" sample_org, OF prod.collapse [symmetric]]
    sample_change_commits
  by (auto simp: sample_org_def sample_tenant_def sample_env_def row_get_def)

end
