(* ===== verification/Delivery.thy ===== *)
theory Delivery
  imports Workers Tenant_Mutations
begin

text \<open>
  The outbox worker (\<open>ryframe-application/src/jobs/outbox.rs\<close>) and its port
  (\<open>ryframe-db/src/application_ports/jobs/outbox.rs\<close>): a claimed event is turned into a background
  job, a row of the operation log or a repair of the authorisation mirror, in the transaction that
  marks the event as published. The repair itself writes to Redis and is a parameter, and so is the
  text of a decoding error.
\<close>

section \<open>State and port\<close>

record delivery_db =
  dl_control :: control_db
  dl_outbox :: outbox
  dl_oper_logs :: "oper_log list"

record ClaimedOutboxEvent =
  ce_id :: int
  ce_tenant_id :: "string option"
  ce_event_type :: string
  ce_payload :: json
  ce_attempts :: int
  ce_max_attempts :: int
  ce_dedupe_key :: "string option"
  ce_traceparent :: "string option"
  ce_tracestate :: "string option"

definition to_claimed_event :: "outbox_event \<Rightarrow> ClaimedOutboxEvent" where
  "to_claimed_event e =
     \<lparr>ce_id = ob_id e, ce_tenant_id = ob_tenant_id e, ce_event_type = ob_event_type e,
      ce_payload = ob_payload e, ce_attempts = ob_attempts e, ce_max_attempts = ob_max_attempts e,
      ce_dedupe_key = ob_dedupe_key e, ce_traceparent = ob_traceparent e, ce_tracestate = ob_tracestate e\<rparr>"

text \<open>
  A commit may succeed, fail with nothing written, or fail after it has been written, when only the
  answer of the server is lost.
\<close>

datatype commit_outcome = Committed | CommitRefused app_error | CommitUnknown app_error

definition finish_transaction ::
  "commit_outcome \<Rightarrow> 'd \<Rightarrow> (bool \<times> 'd) app_result \<Rightarrow> bool app_result \<times> 'd" where
  "finish_transaction commit db result =
     (case result of
        Inr (True, db') \<Rightarrow>
          (case commit of
             Committed \<Rightarrow> (Inr True, db')
           | CommitRefused e \<Rightarrow> (Inl e, db)
           | CommitUnknown e \<Rightarrow> (Inl e, db'))
      | Inr (False, _) \<Rightarrow> (Inr False, db)
      | Inl e \<Rightarrow> (Inl e, db))"

text \<open>What one call of the port meets: the start of its transaction, identifiers, clock and commit.\<close>

record port_env =
  po_begin :: "unit app_result"
  po_next_id :: "int app_result"
  po_clock :: timestamp
  po_jobs_seen :: control_db
  po_commit :: commit_outcome

definition in_transaction ::
  "port_env \<Rightarrow> (delivery_db \<Rightarrow> (bool \<times> delivery_db) app_result) \<Rightarrow> delivery_db \<Rightarrow>
   bool app_result \<times> delivery_db" where
  "in_transaction env body db =
     (case po_begin env of
        Inl e \<Rightarrow> (Inl e, db)
      | Inr _ \<Rightarrow> finish_transaction (po_commit env) db (body db))"

definition mark_event :: "int \<Rightarrow> string \<Rightarrow> timestamp \<Rightarrow> delivery_db \<Rightarrow> bool \<times> delivery_db" where
  "mark_event event_id worker_id now db =
     (case mark_published_in_transaction event_id worker_id now (dl_outbox db) of
        (marked, t) \<Rightarrow> (marked, db\<lparr>dl_outbox := t\<rparr>))"

text \<open>
  Other transactions may insert a job between the precheck of the enqueueing and its insertion; the
  jobs the precheck sees are part of the surroundings.
\<close>

definition publish_background_job ::
  "port_env \<Rightarrow> int \<Rightarrow> string \<Rightarrow> EnqueueBackgroundJob \<Rightarrow> timestamp \<Rightarrow> delivery_db \<Rightarrow>
   bool app_result \<times> delivery_db" where
  "publish_background_job env event_id worker_id c now =
     in_transaction env (\<lambda>db.
       bind_result (enqueue_on (po_next_id env) c now (po_jobs_seen env) (dl_control db)) (\<lambda>(_, jobs).
       Inr (mark_event event_id worker_id now (db\<lparr>dl_control := jobs\<rparr>))))"

definition publish_audit ::
  "port_env \<Rightarrow> int \<Rightarrow> string \<Rightarrow> string \<Rightarrow> oper_log \<Rightarrow> timestamp \<Rightarrow> delivery_db \<Rightarrow>
   bool app_result \<times> delivery_db" where
  "publish_audit env event_id worker_id tenant_id row now =
     in_transaction env (\<lambda>db.
       bind_result (insert_event_in_transaction tenant_id row (dl_oper_logs db)) (\<lambda>(_, logs).
       Inr (mark_event event_id worker_id now (db\<lparr>dl_oper_logs := logs\<rparr>))))"

definition mark_published ::
  "port_env \<Rightarrow> int \<Rightarrow> string \<Rightarrow> timestamp \<Rightarrow> delivery_db \<Rightarrow> bool app_result \<times> delivery_db" where
  "mark_published env event_id worker_id now =
     in_transaction env (\<lambda>db. Inr (mark_event event_id worker_id now db))"

section \<open>Publishing\<close>

definition MESSAGE_PUBLISHED_OUTBOX_EVENT_TYPE :: string where
  "MESSAGE_PUBLISHED_OUTBOX_EVENT_TYPE = ''system.message.published''"

definition MESSAGE_DISPATCH_JOB_TYPE :: string where
  "MESSAGE_DISPATCH_JOB_TYPE = ''system.message.dispatch''"

text \<open>What the worker is configured with: the tenant of its own context and the repair of the mirror.\<close>

record OutboxWorker =
  ow_scope :: ExecutionTenantFilter
  ow_lease_duration :: duration
  ow_context :: "string option"
  ow_repair :: "AuthorizationMirrorUpdate \<Rightarrow> unit app_result"
  ow_decode_error :: "json \<Rightarrow> string"

definition validate_audit_identifier :: "string \<Rightarrow> string \<Rightarrow> unit app_result" where
  "validate_audit_identifier field value =
     (if value = [] \<or> 36 < length value
      then Inl (Validation (msg_audit_worker_len_1 @ field @ msg_audit_worker_len_2)) else Inr ())"

definition publish_audit_event ::
  "OutboxWorker \<Rightarrow> port_env \<Rightarrow> ClaimedOutboxEvent \<Rightarrow> string \<Rightarrow> timestamp \<Rightarrow> delivery_db \<Rightarrow>
   bool app_result \<times> delivery_db" where
  "publish_audit_event w env ev worker_id now db =
     (case audit_from_value (ce_payload ev) of
        None \<Rightarrow> (Inl (Validation (msg_audit_payload @ ow_decode_error w (ce_payload ev))), db)
      | Some payload \<Rightarrow>
          if ce_tenant_id ev \<noteq> Some (au_tenant_id payload) then (Inl (Authorization msg_audit_tenant), db)
          else
            (case bind_result (enforce_tenant_scope (ow_context w) (au_tenant_id payload)) (\<lambda>_.
                  bind_result (validate_audit_identifier ''event_id'' (au_event_id payload)) (\<lambda>_.
                  bind_result (validate_audit_identifier ''request_id'' (au_request_id payload)) (\<lambda>_.
                  log_of_event (po_next_id env) (po_clock env) payload))) of
               Inl e \<Rightarrow> (Inl e, db)
             | Inr row \<Rightarrow> publish_audit env (ce_id ev) worker_id (au_tenant_id payload) row now db))"

definition repair_authorization_mirror ::
  "OutboxWorker \<Rightarrow> port_env \<Rightarrow> ClaimedOutboxEvent \<Rightarrow> string \<Rightarrow> timestamp \<Rightarrow> delivery_db \<Rightarrow>
   bool app_result \<times> delivery_db" where
  "repair_authorization_mirror w env ev worker_id now db =
     (case mirror_from_value (ce_payload ev) of
        None \<Rightarrow> (Inl (Validation (msg_mirror_payload @ ow_decode_error w (ce_payload ev))), db)
      | Some update \<Rightarrow>
          (case ow_repair w update of
             Inl e \<Rightarrow> (Inl e, db)
           | Inr _ \<Rightarrow> mark_published env (ce_id ev) worker_id now db))"

definition job_of_event :: "ClaimedOutboxEvent \<Rightarrow> timestamp \<Rightarrow> EnqueueBackgroundJob" where
  "job_of_event ev now =
     \<lparr>eq_tenant_id = ce_tenant_id ev, eq_schedule_id = None, eq_scheduled_for = Some now,
      eq_max_runtime_seconds = None, eq_job_type = MESSAGE_DISPATCH_JOB_TYPE,
      eq_payload = ce_payload ev, eq_priority = 10, eq_available_at = now,
      eq_max_attempts = ce_max_attempts ev, eq_dedupe_key = ce_dedupe_key ev,
      eq_traceparent = ce_traceparent ev, eq_tracestate = ce_tracestate ev\<rparr>"

definition publish_event_as_job ::
  "OutboxWorker \<Rightarrow> port_env \<Rightarrow> ClaimedOutboxEvent \<Rightarrow> string \<Rightarrow> timestamp \<Rightarrow> delivery_db \<Rightarrow>
   bool app_result \<times> delivery_db" where
  "publish_event_as_job w env ev worker_id now db =
     (if ce_event_type ev = AUTHORIZATION_MIRROR_OUTBOX_EVENT_TYPE
      then repair_authorization_mirror w env ev worker_id now db
      else if ce_event_type ev = AUDIT_OPERATION_OUTBOX_EVENT_TYPE
      then publish_audit_event w env ev worker_id now db
      else if ce_event_type ev = MESSAGE_PUBLISHED_OUTBOX_EVENT_TYPE
      then publish_background_job env (ce_id ev) worker_id (job_of_event ev now) now db
      else (Inl (Validation (msg_outbox_unregistered @ ce_event_type ev)), db))"

section \<open>A round of the outbox worker\<close>

datatype OutboxRunResult = RunIdle | RunPublished | RunRetried | RunDead | RunLeaseLost

text \<open>What happens before each call of a round, and the database clock the call reads.\<close>

record delivery_moment =
  dm_others :: "delivery_db \<Rightarrow> delivery_db"
  dm_now :: "timestamp app_result"

record delivery_run =
  dr_claim :: delivery_moment
  dr_locked :: "int \<Rightarrow> bool"
  dr_publish :: delivery_moment
  dr_env :: port_env
  dr_fail :: delivery_moment

definition run_claimed_event ::
  "OutboxWorker \<Rightarrow> string \<Rightarrow> delivery_run \<Rightarrow> ClaimedOutboxEvent \<Rightarrow> delivery_db \<Rightarrow>
   OutboxRunResult app_result \<times> delivery_db" where
  "run_claimed_event w worker_id run ev db0 =
     (let db = dm_others (dr_publish run) db0
      in case dm_now (dr_publish run) of
           Inl e \<Rightarrow> (Inl e, db)
         | Inr now \<Rightarrow>
             (case publish_event_as_job w (dr_env run) ev worker_id now db of
                (Inr True, db1) \<Rightarrow> (Inr RunPublished, db1)
              | (Inr False, db1) \<Rightarrow> (Inr RunLeaseLost, db1)
              | (Inl error, db1) \<Rightarrow>
                  (let db2 = dm_others (dr_fail run) db1
                   in case dm_now (dr_fail run) of
                        Inl e \<Rightarrow> (Inl e, db2)
                      | Inr now' \<Rightarrow>
                          (case ob_fail (ce_id ev) worker_id (now' + retry_delay (ce_attempts ev))
                                  (display_error error) now' (dl_outbox db2) of
                             (d, t) \<Rightarrow>
                               (Inr (case d of OB_Retried _ \<Rightarrow> RunRetried | OB_Dead \<Rightarrow> RunDead
                                     | OB_LeaseLost \<Rightarrow> RunLeaseLost),
                                db2\<lparr>dl_outbox := t\<rparr>)))))"

definition outbox_run_once ::
  "OutboxWorker \<Rightarrow> string \<Rightarrow> delivery_run \<Rightarrow> delivery_db \<Rightarrow> OutboxRunResult app_result \<times> delivery_db" where
  "outbox_run_once w worker_id run db0 =
     (let db = dm_others (dr_claim run) db0
      in case bind_result (dm_now (dr_claim run)) (\<lambda>now.
              ob_claim_next worker_id (ow_lease_duration w) now (ow_scope w) (dr_locked run) (dl_outbox db)) of
           Inl e \<Rightarrow> (Inl e, db)
         | Inr (None, t) \<Rightarrow> (Inr RunIdle, db)
         | Inr (Some e, t) \<Rightarrow>
             run_claimed_event w worker_id run (to_claimed_event e) (db\<lparr>dl_outbox := t\<rparr>))"

end
