(* ===== verification/Log_Cleaning.thy ===== *)
theory Log_Cleaning
  imports Delivery
begin

text \<open>
  The two operations that delete rows of the operation log: the cleaning an administrator asks for
  (\<open>OperLogService::clean\<close> in \<open>ryframe-application/src/system/oper_log.rs\<close> and
  \<open>clean_all_in_transaction\<close> in \<open>ryframe-db/src/repositories/oper_log_repo.rs\<close>) and the clean-up by
  age of the data retention (\<open>cleanup_resource\<close> of \<open>ryframe-db/src/repositories/data_retention_repo.rs\<close>
  for the resource \<open>OperationLogs\<close>).
\<close>

section \<open>Cleaning on request\<close>

definition clean_all_in_transaction :: "string \<Rightarrow> oper_log list \<Rightarrow> nat \<times> oper_log list" where
  "clean_all_in_transaction tenant_id logs =
     (length (filter (\<lambda>r. og_tenant_id r = tenant_id) logs),
      filter (\<lambda>r. og_tenant_id r \<noteq> tenant_id) logs)"

text \<open>The transaction also records the audit event of the request, when there is one.\<close>

record clean_env =
  cn_context :: "string option"
  cn_begin :: "unit app_result"
  cn_record :: record_env
  cn_current :: "AuditOperationEvent option"
  cn_commit :: commit_outcome

definition clean :: "clean_env \<Rightarrow> string \<Rightarrow> delivery_db \<Rightarrow> nat app_result \<times> delivery_db" where
  "clean env actor_tenant db =
     (case bind_result (validated_tenant_id (cn_context env) actor_tenant) (\<lambda>tenant_id.
           bind_result (cn_begin env) (\<lambda>_.
           (case clean_all_in_transaction tenant_id (dl_oper_logs db) of
              (affected, logs) \<Rightarrow>
                bind_result (record_current_audit_in_transaction (cn_record env) (cn_current env) (dl_outbox db)) (\<lambda>t.
                Inr (affected, db\<lparr>dl_oper_logs := logs, dl_outbox := t\<rparr>))))) of
        Inl e \<Rightarrow> (Inl e, db)
      | Inr (affected, db') \<Rightarrow>
          (case cn_commit env of
             Committed \<Rightarrow> (Inr affected, db')
           | CommitRefused e \<Rightarrow> (Inl e, db)
           | CommitUnknown e \<Rightarrow> (Inl e, db')))"

lemma cleanE:
  assumes "clean env actor_tenant db = (r, db')"
  obtains (nothing) "db' = db"
  | (cleaned) t where "record_current_audit_in_transaction (cn_record env) (cn_current env) (dl_outbox db) = Inr t"
      "db' = db\<lparr>dl_oper_logs := filter (\<lambda>r. og_tenant_id r \<noteq> actor_tenant) (dl_oper_logs db), dl_outbox := t\<rparr>"
proof (cases "db' = db")
  case False
  from assms [unfolded clean_def] False obtain t tenant where "validated_tenant_id (cn_context env) actor_tenant = Inr tenant"
      "record_current_audit_in_transaction (cn_record env) (cn_current env) (dl_outbox db) = Inr t"
      "db' = db\<lparr>dl_oper_logs := filter (\<lambda>r. og_tenant_id r \<noteq> tenant) (dl_oper_logs db), dl_outbox := t\<rparr>"
    by (auto simp: clean_all_in_transaction_def bind_result_eq_Inr split: sum.splits prod.splits commit_outcome.splits)
  with cleaned show thesis by (auto dest: validated_tenant_id_Inr)
qed (rule nothing)

section \<open>Clean-up by age\<close>

text \<open>
  One round of the loop selects the rows that are older than the cutoff in the order of their keys,
  without those other transactions have locked, and deletes them in the same transaction.
\<close>

definition eligible_row :: "timestamp \<Rightarrow> oper_log \<Rightarrow> bool" where
  "eligible_row before r \<longleftrightarrow> og_oper_time r < before"

definition count_eligible :: "timestamp \<Rightarrow> oper_log list \<Rightarrow> nat" where
  "count_eligible before logs = length (filter (eligible_row before) logs)"

definition expired_ids :: "timestamp \<Rightarrow> (int \<Rightarrow> bool) \<Rightarrow> oper_log list \<Rightarrow> int list" where
  "expired_ids before locked logs =
     sort (map og_id (filter (\<lambda>r. eligible_row before r \<and> \<not> locked (og_id r)) logs))"

definition retention_batch ::
  "timestamp \<Rightarrow> nat \<Rightarrow> (int \<Rightarrow> bool) \<Rightarrow> oper_log list \<Rightarrow> int list \<times> oper_log list" where
  "retention_batch before limit locked logs =
     (let ids = take limit (expired_ids before locked logs)
      in (ids, filter (\<lambda>r. og_id r \<notin> set ids) logs))"

text \<open>What a round meets: other transactions before it, the rows they have locked, its commit.\<close>

record retention_moment =
  rm_others :: "oper_log list \<Rightarrow> oper_log list"
  rm_locked :: "int \<Rightarrow> bool"
  rm_commit :: commit_outcome

function cleanup_rounds ::
  "(nat \<Rightarrow> retention_moment) \<Rightarrow> timestamp \<Rightarrow> nat \<Rightarrow> nat \<Rightarrow> nat \<Rightarrow> nat \<Rightarrow> oper_log list \<Rightarrow>
   nat app_result \<times> oper_log list" where
  "cleanup_rounds env before batch_size maximum i deleted logs0 =
     (if deleted < maximum then
        (let limit = min batch_size (maximum - deleted);
             logs = rm_others (env i) logs0
         in case retention_batch before limit (rm_locked (env i)) logs of
              (ids, logs') \<Rightarrow>
                (case rm_commit (env i) of
                   CommitRefused e \<Rightarrow> (Inl e, logs)
                 | CommitUnknown e \<Rightarrow> (Inl e, logs')
                 | Committed \<Rightarrow>
                     if ids = [] then (Inr deleted, logs')
                     else if length ids < limit then (Inr (deleted + length ids), logs')
                     else cleanup_rounds env before batch_size maximum (Suc i) (deleted + length ids) logs'))
      else (Inr deleted, logs0))"
  by pat_completeness auto

termination
  by (relation "measure (\<lambda>(env, before, batch_size, maximum, i, deleted, logs). maximum - deleted)")
    (auto simp: retention_batch_def Let_def)

declare cleanup_rounds.simps [simp del]

record RetentionCleanupResult =
  rc_deleted :: nat
  rc_remaining :: nat

definition cleanup_operation_logs ::
  "(nat \<Rightarrow> retention_moment) \<Rightarrow> timestamp \<Rightarrow> nat \<Rightarrow> nat \<Rightarrow> oper_log list \<Rightarrow>
   RetentionCleanupResult app_result \<times> oper_log list" where
  "cleanup_operation_logs env before batch_size maximum logs =
     (case cleanup_rounds env before batch_size maximum 0 0 logs of
        (Inl e, logs') \<Rightarrow> (Inl e, logs')
      | (Inr deleted, logs') \<Rightarrow>
          (Inr \<lparr>rc_deleted = deleted, rc_remaining = count_eligible before logs'\<rparr>, logs'))"

section \<open>The rounds together\<close>

text \<open>
  Between the rounds other transactions may write rows, as the deliveries do, which are younger than
  the cutoff; no row is locked and every commit is answered.
\<close>

definition only_fresh_rows :: "timestamp \<Rightarrow> retention_moment \<Rightarrow> bool" where
  "only_fresh_rows before m \<longleftrightarrow> rm_locked m = (\<lambda>_. False) \<and> rm_commit m = Committed \<and>
     (\<forall>logs. distinct (map og_id logs) \<longrightarrow>
        (\<exists>fresh. rm_others m logs = fresh @ logs \<and> distinct (map og_id (fresh @ logs)) \<and>
           (\<forall>r \<in> set fresh. \<not> eligible_row before r)))"

abbreviation expired_keys :: "timestamp \<Rightarrow> oper_log list \<Rightarrow> int list" where
  "expired_keys before logs \<equiv> expired_ids before (\<lambda>_. False) logs"

lemma sort_filter_drop:
  fixes xs :: "int list"
  assumes "distinct xs"
  shows "sort (filter (\<lambda>x. x \<notin> set (take n (sort xs))) xs) = drop n (sort xs)"
proof -
  have d: "distinct (take n (sort xs) @ drop n (sort xs))" using assms by simp
  have s: "filter (\<lambda>x. x \<notin> set (take n (sort xs))) (sort xs) = drop n (sort xs)"
  proof -
    have "filter (\<lambda>x. x \<notin> set (take n (sort xs))) (take n (sort xs) @ drop n (sort xs)) = drop n (sort xs)"
      using d by (simp only: filter_append distinct_append) (auto simp: filter_empty_conv filter_id_conv)
    then show ?thesis by simp
  qed
  then show ?thesis by (simp only: filter_sort)
qed

lemma expired_ids_batch:
  assumes "distinct (map og_id logs)"
  shows "expired_keys before (filter (\<lambda>r. og_id r \<notin> set (take n (expired_keys before logs))) logs) =
    drop n (expired_keys before logs)"
proof -
  let ?E = "map og_id (filter (eligible_row before) logs)"
  have "map og_id (filter (eligible_row before) (filter (\<lambda>r. og_id r \<notin> set (take n (sort ?E))) logs)) =
      filter (\<lambda>i. i \<notin> set (take n (sort ?E))) ?E"
    by (simp add: filter_map comp_def conj_commute)
  moreover have "distinct ?E" using assms by (simp add: distinct_map_filter)
  ultimately show ?thesis using sort_filter_drop [of ?E n] by (simp add: expired_ids_def)
qed

lemma length_expired: "length (expired_keys before logs) = count_eligible before logs"
  by (simp add: expired_ids_def count_eligible_def)

text \<open>What the rounds make of the log: the rows with the given keys are gone, the young ones are kept.\<close>

definition cleaned :: "timestamp \<Rightarrow> int list \<Rightarrow> oper_log list \<Rightarrow> oper_log list \<Rightarrow> bool" where
  "cleaned before ids logs logs' \<longleftrightarrow>
     filter (eligible_row before) logs' = filter (\<lambda>r. og_id r \<notin> set ids) (filter (eligible_row before) logs) \<and>
     (\<forall>r \<in> set logs. \<not> eligible_row before r \<longrightarrow> r \<in> set logs') \<and> distinct (map og_id logs')"

lemma expired_ids_append:
  assumes "\<forall>r \<in> set fresh. \<not> eligible_row before r"
  shows "expired_keys before (fresh @ logs) = expired_keys before logs"
  using assms by (simp add: expired_ids_def filter_empty_conv)

lemma cleaned_batch:
  assumes "logs1 = fresh @ logs" "distinct (map og_id logs1)" "\<forall>r \<in> set fresh. \<not> eligible_row before r"
    and "set A \<subseteq> set (expired_keys before logs)"
  shows "cleaned before A logs (filter (\<lambda>r. og_id r \<notin> set A) logs1)"
proof -
  have "filter (eligible_row before) fresh = []" using assms(3) by (simp add: filter_empty_conv)
  then have "filter (eligible_row before) (filter (\<lambda>r. og_id r \<notin> set A) logs1) =
      filter (\<lambda>r. og_id r \<notin> set A) (filter (eligible_row before) logs)"
    by (simp add: assms(1) conj_commute filter_empty_conv)
  moreover have "og_id r \<notin> set A" if r: "r \<in> set logs" "\<not> eligible_row before r" for r
  proof
    assume "og_id r \<in> set A"
    then obtain q where "q \<in> set logs" "eligible_row before q" "og_id q = og_id r"
      using assms(4) by (auto simp: expired_ids_def)
    with r assms(1,2) show False by (metis distinct_map inj_onD Un_iff set_append)
  qed
  moreover have "distinct (map og_id (filter (\<lambda>r. og_id r \<notin> set A) logs1))"
    using assms(2) by (rule distinct_map_filter)
  ultimately show ?thesis using assms(1) by (auto simp: cleaned_def)
qed

lemma cleaned_trans:
  assumes "cleaned before A logs logs1" "cleaned before B logs1 logs2"
  shows "cleaned before (A @ B) logs logs2"
  using assms by (auto simp: cleaned_def conj_ac)

lemma fresh_rounds:
  assumes "0 < batch_size" "distinct (map og_id logs)" "deleted \<le> maximum" "\<And>i. only_fresh_rows before (env i)"
  shows "\<exists>logs'. cleanup_rounds env before batch_size maximum i deleted logs =
      (Inr (deleted + length (take (maximum - deleted) (expired_keys before logs))), logs') \<and>
    cleaned before (take (maximum - deleted) (expired_keys before logs)) logs logs'"
  using assms(1-3)
proof (induction "maximum - deleted" arbitrary: i deleted logs rule: less_induct)
  case less
  let ?S = "expired_keys before logs" and ?l = "min batch_size (maximum - deleted)"
  show ?case
  proof (cases "deleted < maximum")
    case False
    then have "cleanup_rounds env before batch_size maximum i deleted logs = (Inr deleted, logs)"
      by (subst cleanup_rounds.simps) simp
    with False less.prems(2) show ?thesis by (simp add: cleaned_def)
  next
    case True
    obtain fresh where f: "rm_others (env i) logs = fresh @ logs" "distinct (map og_id (fresh @ logs))"
        "\<forall>r \<in> set fresh. \<not> eligible_row before r"
      and q: "rm_locked (env i) = (\<lambda>_. False)" "rm_commit (env i) = Committed"
      using assms(4) [of i] less.prems(2) unfolding only_fresh_rows_def by blast
    let ?logs' = "filter (\<lambda>r. og_id r \<notin> set (take ?l ?S)) (fresh @ logs)"
    have S: "expired_keys before (fresh @ logs) = ?S" by (rule expired_ids_append [OF f(3)])
    have batch: "retention_batch before ?l (rm_locked (env i)) (rm_others (env i) logs) = (take ?l ?S, ?logs')"
      by (simp only: retention_batch_def Let_def f(1) q(1) S)
    have round: "cleanup_rounds env before batch_size maximum i deleted logs =
        (if take ?l ?S = [] then (Inr deleted, ?logs')
         else if length (take ?l ?S) < ?l then (Inr (deleted + length (take ?l ?S)), ?logs')
         else cleanup_rounds env before batch_size maximum (Suc i) (deleted + length (take ?l ?S)) ?logs')"
      by (subst cleanup_rounds.simps) (simp only: True if_True Let_def batch prod.case q(2) commit_outcome.case)
    have C: "cleaned before (take ?l ?S) logs ?logs'"
      by (rule cleaned_batch [OF refl f(2,3)]) (rule set_take_subset)
    show ?thesis
    proof (cases "length ?S < ?l")
      case short: True
      then have t: "take ?l ?S = ?S" "take (maximum - deleted) ?S = ?S" by simp_all
      from C short show ?thesis unfolding round t by (cases "?S = []") simp_all
    next
      case False
      have pos: "0 < ?l" using True less.prems(1) by simp
      have len: "length (take ?l ?S) = ?l" using False by (simp only: length_take not_less min_absorb2)
      with pos have ne: "take ?l ?S \<noteq> []" by (metis length_greater_0_conv)
      let ?X = "take (maximum - (deleted + ?l)) (drop ?l ?S)"
      have keys: "expired_keys before ?logs' = drop ?l ?S"
        using expired_ids_batch [OF f(2), of before ?l] unfolding S .
      have d': "distinct (map og_id ?logs')" using f(2) by (rule distinct_map_filter)
      have "\<exists>logs'. cleanup_rounds env before batch_size maximum (Suc i) (deleted + ?l) ?logs' =
          (Inr (deleted + ?l + length (take (maximum - (deleted + ?l)) (expired_keys before ?logs'))), logs') \<and>
          cleaned before (take (maximum - (deleted + ?l)) (expired_keys before ?logs')) ?logs' logs'"
        by (rule less.hyps) (use True pos assms(1) d' in simp_all)
      then obtain logs' where IH:
        "cleanup_rounds env before batch_size maximum (Suc i) (deleted + ?l) ?logs' = (Inr (deleted + ?l + length ?X), logs')"
        "cleaned before ?X ?logs' logs'" unfolding keys by blast
      have sum: "maximum - deleted = ?l + (maximum - (deleted + ?l))" by simp
      have split: "take (maximum - deleted) ?S = take ?l ?S @ ?X"
        by (subst sum) (simp only: take_add)
      have "cleanup_rounds env before batch_size maximum i deleted logs =
          (Inr (deleted + length (take (maximum - deleted) ?S)), logs')"
        using ne len by (simp only: round IH(1) split if_False length_append) (simp only: order.irrefl if_False add.assoc)
      with cleaned_trans [OF C IH(2)] show ?thesis unfolding split by blast
    qed
  qed
qed

section \<open>Property\<close>

text \<open>
  C40. The clean-up by age is exact. While other transactions only add rows that are younger than the
  cutoff, no row is locked and every commit is answered, the rounds together delete what one
  statement would: of the rows older than the cutoff those with the lowest keys, up to the maximum of
  a run, whatever the size of a batch; every younger row is kept, and the two counts reported are the
  rows deleted and the rows of that age still there, so a run that reports none left has left none.
  The key of the table is taken to be unique.
\<close>

theorem retention_exact:
  assumes "distinct (map og_id logs)" "0 < batch_size" "\<And>i. only_fresh_rows before (env i)"
  shows "\<exists>logs'. cleanup_operation_logs env before batch_size maximum logs =
      (Inr \<lparr>rc_deleted = min maximum (count_eligible before logs),
            rc_remaining = count_eligible before logs - maximum\<rparr>, logs') \<and>
    filter (eligible_row before) logs' =
      filter (\<lambda>r. og_id r \<notin> set (take maximum (expired_keys before logs))) (filter (eligible_row before) logs) \<and>
    (\<forall>r \<in> set logs. \<not> eligible_row before r \<longrightarrow> r \<in> set logs')"
proof -
  let ?ids = "take maximum (expired_keys before logs)"
  have "\<exists>logs'. cleanup_rounds env before batch_size maximum 0 0 logs =
      (Inr (0 + length (take (maximum - 0) (expired_keys before logs))), logs') \<and>
    cleaned before (take (maximum - 0) (expired_keys before logs)) logs logs'"
    by (rule fresh_rounds [OF assms(2,1) le0]) (rule assms(3))
  then obtain logs' where r: "cleanup_rounds env before batch_size maximum 0 0 logs = (Inr (length ?ids), logs')"
    and c: "cleaned before ?ids logs logs'"
    by (simp only: add_0 minus_nat.diff_0) blast
  have "count_eligible before logs' =
      count_eligible before (filter (\<lambda>r. og_id r \<notin> set ?ids) logs)"
    using c by (simp add: cleaned_def count_eligible_def conj_commute)
  also have "\<dots> = count_eligible before logs - maximum"
    using expired_ids_batch [OF assms(1), of before maximum] length_expired by (metis length_drop)
  finally show ?thesis
    using r c by (simp add: cleanup_operation_logs_def length_expired min.commute cleaned_def)
qed

definition sample_log :: "int \<Rightarrow> timestamp \<Rightarrow> oper_log" where
  "sample_log i t = \<lparr>og_id = i, og_tenant_id = ''system'', og_event_id = None, og_request_id = None, og_title = [],
     og_business_type = [], og_method = [], og_request_method = [], og_oper_name = [], og_oper_url = [],
     og_oper_ip = [], og_oper_location = None, og_oper_param = None, og_json_result = None, og_status = ''1'',
     og_error_msg = None, og_oper_time = t, og_cost_time = 0\<rparr>"

text \<open>A row is delivered before the second round.\<close>

definition busy_retention :: "nat \<Rightarrow> retention_moment" where
  "busy_retention i = \<lparr>rm_others = (\<lambda>logs. if i = 1 \<and> 9 \<notin> og_id ` set logs then sample_log 9 600 # logs else logs),
     rm_locked = \<lambda>_. False, rm_commit = Committed\<rparr>"

theorem retention_exact_witness:
  "\<exists>logs'. cleanup_operation_logs busy_retention 100 2 3
     [sample_log 5 10, sample_log 1 20, sample_log 4 500, sample_log 3 30, sample_log 2 40] =
     (Inr \<lparr>rc_deleted = 3, rc_remaining = 1\<rparr>, logs') \<and>
   filter (eligible_row 100) logs' = [sample_log 5 10] \<and> sample_log 4 500 \<in> set logs'"
proof -
  let ?l = "[sample_log 5 10, sample_log 1 20, sample_log 4 500, sample_log 3 30, sample_log 2 40]"
  have "count_eligible 100 ?l = 4 \<and> expired_keys 100 ?l = [1, 2, 3, 5]" by code_simp
  moreover have "only_fresh_rows 100 (busy_retention i)" for i
    unfolding only_fresh_rows_def busy_retention_def
    by (auto simp: sample_log_def eligible_row_def intro: exI [of _ "[sample_log 9 600]"] exI [of _ "[]"])
  ultimately show ?thesis
    using retention_exact [of ?l 2 100 busy_retention 3]
    by (auto simp: sample_log_def eligible_row_def numeral_3_eq_3)
qed

end
