(* ===== verification/Delivery_Properties.thy ===== *)
theory Delivery_Properties
  imports Log_Cleaning "HOL-Library.Multiset"
begin

text \<open>
  The guarantees of event delivery: an event is marked as published exactly when its effect is
  written, and for every audited operation exactly one row of the operation log is ever written,
  however often its event is delivered and whenever rows are deleted.
\<close>

section \<open>Transactions\<close>

lemma in_transactionE:
  assumes "in_transaction env body db = (r, db')"
  obtains (nothing) "db' = db" "r \<noteq> Inr True"
  | (written) "body db = Inr (True, db')" "r = Inr True \<or> (\<exists>e. r = Inl e \<and> po_commit env = CommitUnknown e)"
  using assms
  by (auto simp: in_transaction_def finish_transaction_def split: sum.splits prod.splits bool.splits
      commit_outcome.splits)

lemma mark_eventE:
  assumes "mark_event i w now db = (True, db')"
  obtains t where "mark_published_in_transaction i w now (dl_outbox db) = (True, t)" "db' = db\<lparr>dl_outbox := t\<rparr>"
  using assms by (auto simp: mark_event_def split: prod.splits)

text \<open>What one delivery writes, by the type of its event.\<close>

datatype delivered = DJob EnqueueBackgroundJobResult | DLog AuditOperationEvent oper_log | DRepair AuthorizationMirrorUpdate

definition writes ::
  "OutboxWorker \<Rightarrow> port_env \<Rightarrow> ClaimedOutboxEvent \<Rightarrow> timestamp \<Rightarrow> delivered \<Rightarrow> delivery_db \<Rightarrow> delivery_db \<Rightarrow> bool" where
  "writes w env ev now d db db' \<longleftrightarrow>
     (case d of
        DJob res \<Rightarrow>
          ce_event_type ev = MESSAGE_PUBLISHED_OUTBOX_EVENT_TYPE \<and>
          enqueue_on (po_next_id env) (job_of_event ev now) now (po_jobs_seen env) (dl_control db) =
            Inr (res, dl_control db') \<and>
          dl_oper_logs db' = dl_oper_logs db
      | DLog e row \<Rightarrow>
          ce_event_type ev = AUDIT_OPERATION_OUTBOX_EVENT_TYPE \<and> audit_from_value (ce_payload ev) = Some e \<and>
          ce_tenant_id ev = Some (au_tenant_id e) \<and>
          log_of_event (po_next_id env) (po_clock env) e = Inr row \<and>
          (\<exists>inserted. insert_event_in_transaction (au_tenant_id e) row (dl_oper_logs db) =
             Inr (inserted, dl_oper_logs db')) \<and>
          dl_control db' = dl_control db
      | DRepair u \<Rightarrow>
          ce_event_type ev = AUTHORIZATION_MIRROR_OUTBOX_EVENT_TYPE \<and> mirror_from_value (ce_payload ev) = Some u \<and>
          ow_repair w u = Inr () \<and> dl_control db' = dl_control db \<and> dl_oper_logs db' = dl_oper_logs db)"

lemma publish_cases:
  assumes p: "publish_event_as_job w env ev i now db = (r, db')"
  obtains (nothing) "db' = db" "r \<noteq> Inr True"
  | (written) d where "writes w env ev now d db db'"
      "mark_published_in_transaction (ce_id ev) i now (dl_outbox db) = (True, dl_outbox db')"
      "r = Inr True \<or> (\<exists>e. r = Inl e \<and> po_commit env = CommitUnknown e)"
proof -
  consider (mirror) "ce_event_type ev = AUTHORIZATION_MIRROR_OUTBOX_EVENT_TYPE"
    | (audit) "ce_event_type ev \<noteq> AUTHORIZATION_MIRROR_OUTBOX_EVENT_TYPE"
        "ce_event_type ev = AUDIT_OPERATION_OUTBOX_EVENT_TYPE"
    | (message) "ce_event_type ev \<noteq> AUTHORIZATION_MIRROR_OUTBOX_EVENT_TYPE"
        "ce_event_type ev \<noteq> AUDIT_OPERATION_OUTBOX_EVENT_TYPE"
        "ce_event_type ev = MESSAGE_PUBLISHED_OUTBOX_EVENT_TYPE"
    | (unknown) "ce_event_type ev \<notin> {AUTHORIZATION_MIRROR_OUTBOX_EVENT_TYPE,
        AUDIT_OPERATION_OUTBOX_EVENT_TYPE, MESSAGE_PUBLISHED_OUTBOX_EVENT_TYPE}"
    by blast
  then show thesis
  proof cases
    case mirror
    with p have m: "repair_authorization_mirror w env ev i now db = (r, db')"
      by (simp add: publish_event_as_job_def)
    show thesis
    proof (cases "\<exists>u. mirror_from_value (ce_payload ev) = Some u \<and> ow_repair w u = Inr ()")
      case True
      then obtain u where u: "mirror_from_value (ce_payload ev) = Some u" "ow_repair w u = Inr ()" by blast
      with m have "mark_published env (ce_id ev) i now db = (r, db')"
        by (simp add: repair_authorization_mirror_def)
      then show thesis
        unfolding mark_published_def
      proof (cases rule: in_transactionE)
        case nothing
        then show thesis by (rule that(1))
      next
        case written
        from written(1) have "mark_event (ce_id ev) i now db = (True, db')" by simp
        then obtain t where "mark_published_in_transaction (ce_id ev) i now (dl_outbox db) = (True, t)"
            "db' = db\<lparr>dl_outbox := t\<rparr>" by (rule mark_eventE)
        with that(2) [of "DRepair u"] u mirror written(2) show thesis by (simp add: writes_def)
      qed
    next
      case False
      with m that(1) show thesis
        by (auto simp: repair_authorization_mirror_def split: option.splits sum.splits)
    qed
  next
    case audit
    with p have m: "publish_audit_event w env ev i now db = (r, db')"
      by (simp add: publish_event_as_job_def)
    show thesis
    proof (cases "\<exists>e row. audit_from_value (ce_payload ev) = Some e \<and> ce_tenant_id ev = Some (au_tenant_id e) \<and>
        log_of_event (po_next_id env) (po_clock env) e = Inr row \<and>
        publish_audit env (ce_id ev) i (au_tenant_id e) row now db = (r, db')")
      case True
      then obtain e row where e: "audit_from_value (ce_payload ev) = Some e" "ce_tenant_id ev = Some (au_tenant_id e)"
          "log_of_event (po_next_id env) (po_clock env) e = Inr row"
          "publish_audit env (ce_id ev) i (au_tenant_id e) row now db = (r, db')" by blast
      from e(4) show thesis
        unfolding publish_audit_def
      proof (cases rule: in_transactionE)
        case nothing
        then show thesis by (rule that(1))
      next
        case written
        from written(1) obtain b logs where
          l: "insert_event_in_transaction (au_tenant_id e) row (dl_oper_logs db) = Inr (b, logs)"
          and "mark_event (ce_id ev) i now (db\<lparr>dl_oper_logs := logs\<rparr>) = (True, db')"
          by (auto elim!: bind_resultE)
        then obtain t where "mark_published_in_transaction (ce_id ev) i now (dl_outbox db) = (True, t)"
            "db' = db\<lparr>dl_oper_logs := logs, dl_outbox := t\<rparr>" by (auto elim: mark_eventE)
        with that(2) [of "DLog e row"] e l audit written(2) show thesis by (simp add: writes_def)
      qed
    next
      case False
      with m have "db' = db \<and> r \<noteq> Inr True"
        by (auto simp: publish_audit_event_def bind_result_eq_Inr split: option.splits sum.splits if_splits)
      with that(1) show thesis by blast
    qed
  next
    case message
    with p have "publish_background_job env (ce_id ev) i (job_of_event ev now) now db = (r, db')"
      by (simp add: publish_event_as_job_def)
    then show thesis
      unfolding publish_background_job_def
    proof (cases rule: in_transactionE)
      case nothing
      then show thesis by (rule that(1))
    next
      case written
      from written(1) obtain res jobs where
        j: "enqueue_on (po_next_id env) (job_of_event ev now) now (po_jobs_seen env) (dl_control db) = Inr (res, jobs)"
        and "mark_event (ce_id ev) i now (db\<lparr>dl_control := jobs\<rparr>) = (True, db')"
        by (auto elim!: bind_resultE)
      then obtain t where "mark_published_in_transaction (ce_id ev) i now (dl_outbox db) = (True, t)"
          "db' = db\<lparr>dl_control := jobs, dl_outbox := t\<rparr>" by (auto elim: mark_eventE)
      with that(2) [of "DJob res"] j message written(2) show thesis by (simp add: writes_def)
    qed
  next
    case unknown
    with p that(1) show thesis by (auto simp: publish_event_as_job_def)
  qed
qed

section \<open>The steps of the delivery\<close>

text \<open>
  A step is a committed transaction or statement: the recording of an audited operation (whose
  event identifier has no log row yet, present or deleted, unless its event is still in the outbox)
  or of another event, the steps of the outbox, a delivery of an event as it was claimed, a log row
  that belongs to no event, any change of the job tables, and the two deletions of log rows: the
  cleaning of a tenant on request and a round of the retention. Beside the database a step carries
  the log rows that have been deleted so far, which no operation reads.
\<close>

definition claimed_as :: "ClaimedOutboxEvent \<Rightarrow> outbox \<Rightarrow> bool" where
  "claimed_as ev t \<longleftrightarrow>
     (\<forall>x \<in> set t. ob_id x = ce_id ev \<longrightarrow>
        ce_event_type ev = ob_event_type x \<and> ce_payload ev = ob_payload x \<and>
        ce_tenant_id ev = ob_tenant_id x \<and> ce_dedupe_key ev = ob_dedupe_key x)"

type_synonym delivery_history = "delivery_db \<times> oper_log list"

definition unlogged :: "AuditOperationEvent \<Rightarrow> oper_log list \<Rightarrow> bool" where
  "unlogged e rows \<longleftrightarrow> Some (au_event_id e) \<notin> og_event_id ` set rows"

definition deleted_rows :: "delivery_db \<Rightarrow> delivery_db \<Rightarrow> oper_log list" where
  "deleted_rows db db' = filter (\<lambda>r. r \<notin> set (dl_oper_logs db')) (dl_oper_logs db)"

inductive delivery_step :: "delivery_history \<Rightarrow> delivery_history \<Rightarrow> bool" where
  v_audit: "record_event_in_transaction renv e m (dl_outbox db) = Inr t \<Longrightarrow>
     is_i64 (rl_cost_time (au_command e)) \<Longrightarrow>
     (t \<noteq> dl_outbox db \<Longrightarrow> unlogged e (dl_oper_logs db @ gone)) \<Longrightarrow>
     delivery_step (db, gone) (db\<lparr>dl_outbox := t\<rparr>, gone)"
| v_record: "record_in_transaction nid rec now t1 (dl_outbox db) = Inr (x, t) \<Longrightarrow>
     rec_event_type rec \<noteq> AUDIT_OPERATION_OUTBOX_EVENT_TYPE \<Longrightarrow>
     delivery_step (db, gone) (db\<lparr>dl_outbox := t\<rparr>, gone)"
| v_claim: "ob_claim_next i d now scope locked (dl_outbox db) = Inr (c, t) \<Longrightarrow>
     delivery_step (db, gone) (db\<lparr>dl_outbox := t\<rparr>, gone)"
| v_fail: "ob_fail k i r e now (dl_outbox db) = (disp, t) \<Longrightarrow>
     delivery_step (db, gone) (db\<lparr>dl_outbox := t\<rparr>, gone)"
| v_exhausted: "delivery_step (db, gone) (db\<lparr>dl_outbox := ob_recover_exhausted now scope (dl_outbox db)\<rparr>, gone)"
| v_retryable: "delivery_step (db, gone) (db\<lparr>dl_outbox := ob_recover_retryable now scope (dl_outbox db)\<rparr>, gone)"
| v_purge: "(\<And>x. x \<in> set (dl_outbox db) \<Longrightarrow> P x \<Longrightarrow> ob_status x = ob_STATUS_PUBLISHED) \<Longrightarrow>
     delivery_step (db, gone) (db\<lparr>dl_outbox := filter (\<lambda>x. \<not> P x) (dl_outbox db)\<rparr>, gone)"
| v_publish: "publish_event_as_job w env ev i now db = (r, db') \<Longrightarrow> claimed_as ev (dl_outbox db) \<Longrightarrow>
     delivery_step (db, gone) (db', gone)"
| v_log: "og_event_id row = None \<Longrightarrow>
     delivery_step (db, gone) (db\<lparr>dl_oper_logs := row # dl_oper_logs db\<rparr>, gone)"
| v_jobs: "delivery_step (db, gone) (db\<lparr>dl_control := jobs\<rparr>, gone)"
| v_clean: "clean cenv tenant db = (res, db') \<Longrightarrow>
     (\<And>e. cn_current cenv = Some e \<Longrightarrow> is_i64 (rl_cost_time (au_command e))) \<Longrightarrow>
     (\<And>e t. cn_current cenv = Some e \<Longrightarrow>
        record_event_in_transaction (cn_record cenv) e OUTBOX_MAX_ATTEMPTS (dl_outbox db) = Inr t \<Longrightarrow>
        t \<noteq> dl_outbox db \<Longrightarrow> unlogged e (dl_oper_logs db @ gone)) \<Longrightarrow>
     delivery_step (db, gone) (db', deleted_rows db db' @ gone)"
| v_retention: "retention_batch before limit locked (dl_oper_logs db) = (ids, logs) \<Longrightarrow>
     db' = db\<lparr>dl_oper_logs := logs\<rparr> \<Longrightarrow>
     delivery_step (db, gone) (db', deleted_rows db db' @ gone)"

text \<open>What deliveries see of an event: its key and content, and whether it is published.\<close>

type_synonym essence = "int \<times> string \<times> json \<times> string option \<times> string option \<times> bool"

definition essence :: "outbox_event \<Rightarrow> essence" where
  "essence x = (ob_id x, ob_event_type x, ob_payload x, ob_dedupe_key x, ob_tenant_id x,
     ob_status x = ob_STATUS_PUBLISHED)"

abbreviation logs_of :: "string \<Rightarrow> oper_log list \<Rightarrow> oper_log list" where
  "logs_of k logs \<equiv> filter (\<lambda>r. og_event_id r = Some k) logs"

definition logged :: "AuditOperationEvent \<Rightarrow> oper_log list \<Rightarrow> bool" where
  "logged e logs \<longleftrightarrow> (\<exists>r i t. logs_of (au_event_id e) logs = [r] \<and> log_of_event (Inr i) t e = Inr r)"

definition audit_ok :: "oper_log list \<Rightarrow> essence \<Rightarrow> bool" where
  "audit_ok logs x \<longleftrightarrow>
     (case x of (i, ty, payload, key, tenant, published) \<Rightarrow>
        ty = AUDIT_OPERATION_OUTBOX_EVENT_TYPE \<longrightarrow>
        (\<exists>e. payload = audit_to_value e \<and> key = Some (au_event_id e) \<and> tenant = Some (au_tenant_id e) \<and>
           is_i64 (rl_cost_time (au_command e)) \<and>
           (if published then logged e logs else logs_of (au_event_id e) logs = [])))"

definition audit_key :: "essence \<Rightarrow> (string \<times> string option)" where
  "audit_key x = (fst (snd x), fst (snd (snd (snd x))))"

definition delivery_core :: "essence list \<Rightarrow> oper_log list \<Rightarrow> bool" where
  "delivery_core xs logs \<longleftrightarrow>
     distinct (map fst xs) \<and> (\<forall>x \<in> set xs. audit_ok logs x) \<and>
     (\<forall>x \<in> set xs. \<forall>y \<in> set xs. audit_key x = audit_key y \<and>
        fst (audit_key x) = AUDIT_OPERATION_OUTBOX_EVENT_TYPE \<longrightarrow> x = y)"

text \<open>All the rows that were ever written for an event: those in the log and those deleted.\<close>

abbreviation written_logs :: "string \<Rightarrow> delivery_history \<Rightarrow> oper_log list" where
  "written_logs k s \<equiv> logs_of k (dl_oper_logs (fst s) @ snd s)"

definition delivery_inv :: "delivery_history \<Rightarrow> bool" where
  "delivery_inv s \<longleftrightarrow> delivery_core (map essence (dl_outbox (fst s))) (dl_oper_logs (fst s) @ snd s)"

section \<open>Steps of the outbox keep the essence\<close>

lemma unique_essence: "distinct (map fst (map essence t)) \<longleftrightarrow> unique_key ob_id t"
  by (simp add: unique_key_def essence_def comp_def)

lemma essence_put:
  assumes u: "unique_key ob_id t" and x: "x \<in> set t" "essence x' = essence x"
  shows "map essence (row_put ob_id x' t) = map essence t"
proof -
  have "ob_id x' = ob_id x" using x(2) by (simp add: essence_def)
  then have "essence x' = essence r" if "r \<in> set t" "ob_id r = ob_id x'" for r
    using unique_keyD [OF u that(1) x(1)] that(2) x(2) by simp
  then show ?thesis by (simp add: row_put_def update_where_def)
qed

lemma essence_update: "(\<And>x. P x \<Longrightarrow> essence (f x) = essence x) \<Longrightarrow> map essence (update_where P f t) = map essence t"
  by (rule map_update_where)

lemma claim_essence:
  assumes "unique_key ob_id t" "ob_claim_next i d now scope locked t = Inr (c, t')"
  shows "map essence t' = map essence t"
  using assms(2)
proof (cases rule: ob_claim_cases)
  case (2 e es)
  have "e \<in> set (ob_claimable_query now scope locked t)" unfolding 2(1) by simp
  then have e: "e \<in> set t" "ob_status e = ob_STATUS_PENDING"
    by (simp_all add: ob_claimable_query_set ob_claimable_def)
  then have "essence (the c) = essence e" unfolding 2(2) by (simp add: essence_def)
  then show ?thesis unfolding 2(3) by (rule essence_put [OF assms(1) e(1)])
qed simp

lemma fail_essence:
  assumes u: "unique_key ob_id t" and "ob_fail k i r m now t = (d, t')"
  shows "map essence t' = map essence t"
  using assms(2)
proof (cases rule: ob_fail_cases)
  case 1
  then show ?thesis by simp
next
  case (2 e)
  have "e \<in> set t" using row_get_SomeD [OF 2(1) [unfolded ob_find_def]] by blast
  with 2(2) show ?thesis unfolding 2(7) by (intro essence_put [OF u, of e]) (simp_all add: essence_def)
next
  case (3 e)
  have "e \<in> set t" using row_get_SomeD [OF 3(1) [unfolded ob_find_def]] by blast
  with 3(2) show ?thesis unfolding 3(7) by (intro essence_put [OF u, of e]) (simp_all add: essence_def)
qed

lemma recover_essence:
  "map essence (ob_recover_exhausted now scope t) = map essence t"
  "map essence (ob_recover_retryable now scope t) = map essence t"
  unfolding ob_recover_exhausted_def ob_recover_retryable_def
  by (rule essence_update, simp add: essence_def ob_expired_def)+

definition publish_essence :: "int \<Rightarrow> essence \<Rightarrow> essence" where
  "publish_essence i x = (case x of (k, ty, payload, key, tenant, published) \<Rightarrow>
     (k, ty, payload, key, tenant, published \<or> k = i))"

lemma mark_essence:
  assumes u: "unique_key ob_id t" and m: "mark_published_in_transaction i w now t = (True, t')"
  obtains x where "x \<in> set t" "ob_id x = i" "ob_status x = ob_STATUS_RUNNING"
    "map essence t' = map (publish_essence i) (map essence t)"
proof -
  from mark_published_iff [OF u, of i w now] m
  obtain x where x: "ob_find i t = Some x" "ob_status x = ob_STATUS_RUNNING" "ob_lease_owner x = Some w"
      "ob_lease_live now x" by auto
  have xi: "x \<in> set t" "ob_id x = i" using row_get_SomeD [of ob_id i t x] x(1) by (simp_all add: ob_find_def)
  have t': "t' = update_where (\<lambda>e. ob_id e = i \<and> ob_status e = ob_STATUS_RUNNING \<and>
        ob_lease_owner e = Some w \<and> ob_lease_live now e)
      (\<lambda>e. e\<lparr>ob_status := ob_STATUS_PUBLISHED, ob_lease_owner := None, ob_lease_until := None,
             ob_published_at := Some now, ob_updated_at := now\<rparr>) t"
    using m by (simp add: mark_published_in_transaction_def Let_def)
  have "r = x" if "r \<in> set t" "ob_id r = i" for r
    using unique_keyD [OF u that(1) xi(1)] that(2) xi(2) by simp
  then have "map essence t' = map (publish_essence i) (map essence t)"
    using x by (auto simp: t' update_where_def essence_def publish_essence_def)
  with that xi x(2) show thesis by blast
qed

lemma record_essence:
  assumes "record_in_transaction nid rec now t1 t = Inr (x, t')"
  obtains (same) "t' = t"
  | (new) k where "t' = x # t" "k \<notin> ob_id ` set t"
      "essence x = (k, rec_event_type rec, rec_payload rec, rec_dedupe_key rec, rec_tenant_id rec, False)"
      "\<forall>y \<in> set t. ob_event_type y = rec_event_type rec \<and> rec_dedupe_key rec \<noteq> None \<longrightarrow>
         ob_dedupe_key y \<noteq> rec_dedupe_key rec"
proof (cases "t' = t")
  case False
  obtain k where k: "insert_event (new_event k rec now) t = Some t'" "x = new_event k rec now"
    using assms False unfolding record_in_transaction_def bind_result_eq_Inr
    by (cases nid) (auto split: option.splits)
  then have "t' = x # t" "k \<notin> ob_id ` set t"
    "\<forall>y \<in> set t. ob_event_type y = rec_event_type rec \<and> rec_dedupe_key rec \<noteq> None \<longrightarrow>
       ob_dedupe_key y \<noteq> rec_dedupe_key rec"
    by (auto simp: insert_event_def new_event_def split: if_splits)
  with new k(2) show thesis by (simp add: essence_def new_event_def)
qed (rule same)

section \<open>The invariant\<close>

lemma delivery_coreD:
  assumes "delivery_core xs logs"
  shows "distinct (map fst xs)" "x \<in> set xs \<Longrightarrow> audit_ok logs x"
    "x \<in> set xs \<Longrightarrow> y \<in> set xs \<Longrightarrow> audit_key x = audit_key y \<Longrightarrow>
       fst (audit_key x) = AUDIT_OPERATION_OUTBOX_EVENT_TYPE \<Longrightarrow> x = y"
  using assms unfolding delivery_core_def by blast+

lemma delivery_core_new:
  assumes ok: "delivery_core xs logs" and x: "x = (k, ty, payload, key, tenant, False)" "k \<notin> fst ` set xs"
    and key: "ty = AUDIT_OPERATION_OUTBOX_EVENT_TYPE \<Longrightarrow> \<forall>y \<in> set xs. audit_key y \<noteq> (ty, key)"
    and audit: "audit_ok logs x"
  shows "delivery_core (x # xs) logs"
  unfolding delivery_core_def
proof (intro conjI ballI impI)
  show "distinct (map fst (x # xs))" using delivery_coreD(1) [OF ok] x by simp
next
  fix y assume "y \<in> set (x # xs)"
  then show "audit_ok logs y" using delivery_coreD(2) [OF ok, of y] audit by auto
next
  fix y z
  assume y: "y \<in> set (x # xs)" and z: "z \<in> set (x # xs)"
    and same: "audit_key y = audit_key z \<and> fst (audit_key y) = AUDIT_OPERATION_OUTBOX_EVENT_TYPE"
  have kx: "audit_key x = (ty, key)" using x(1) by (simp add: audit_key_def)
  show "y = z"
  proof (cases "y = x \<or> z = x")
    case True
    then have "audit_key y = (ty, key)" "audit_key z = (ty, key)" using kx same by auto
    moreover from this same have "ty = AUDIT_OPERATION_OUTBOX_EVENT_TYPE" by (metis fst_conv)
    ultimately show ?thesis using key y z by auto
  next
    case False
    with y z have m: "y \<in> set xs" "z \<in> set xs" by auto
    show ?thesis by (rule delivery_coreD(3) [OF ok m]) (use same in blast)+
  qed
qed

lemma delivery_core_filter:
  assumes "delivery_core xs logs" "set ys \<subseteq> set xs" "distinct (map fst ys)"
  shows "delivery_core ys logs"
  using assms unfolding delivery_core_def by blast

text \<open>A published event gains its log row, and no other audited event shares its identifier.\<close>

lemma publish_essence_fst [simp]: "fst (publish_essence i x) = fst x"
  by (auto simp: publish_essence_def split: prod.splits)

lemma publish_essence_key [simp]: "audit_key (publish_essence i x) = audit_key x"
  by (auto simp: publish_essence_def audit_key_def split: prod.splits)

lemma delivery_core_publish:
  assumes ok: "delivery_core xs logs"
    and audit: "\<And>x. x \<in> set xs \<Longrightarrow> audit_ok logs' (publish_essence i x)"
  shows "delivery_core (map (publish_essence i) xs) logs'"
proof -
  have "distinct (map fst (map (publish_essence i) xs))"
    using delivery_coreD(1) [OF ok] by (simp add: comp_def)
  moreover have "audit_ok logs' z" if "z \<in> set (map (publish_essence i) xs)" for z
    using that audit by (metis (no_types) imageE set_map)
  moreover have "z = z'" if z: "z \<in> set (map (publish_essence i) xs)" "z' \<in> set (map (publish_essence i) xs)"
    "audit_key z = audit_key z'" "fst (audit_key z) = AUDIT_OPERATION_OUTBOX_EVENT_TYPE" for z z'
  proof -
    from z(1,2) obtain x y where "x \<in> set xs" "z = publish_essence i x" "y \<in> set xs" "z' = publish_essence i y"
      unfolding set_map by (elim imageE)
    with delivery_coreD(3) [OF ok, of x y] z(3,4) show ?thesis by simp
  qed
  ultimately show ?thesis unfolding delivery_core_def by blast
qed

lemma inserted_cases:
  assumes "insert_event_in_transaction tenant row logs = Inr (b, logs')"
  obtains (known) r where "r \<in> set logs" "og_event_id r = og_event_id row" "logs' = logs"
  | (new) "\<forall>r \<in> set logs. og_event_id r \<noteq> og_event_id row" "logs' = row # logs"
proof (cases "og_id row \<in> og_id ` set logs \<or> (\<exists>x \<in> set logs. og_event_id x = og_event_id row)")
  case True
  with assms obtain r where "find (\<lambda>x. og_event_id x = og_event_id row) logs = Some r" "logs' = logs"
    by (auto simp: insert_event_in_transaction_def bind_result_eq_Inr split: option.splits if_splits)
  then show thesis using known [of r] by (auto simp: find_Some_iff)
next
  case False
  with assms have "logs' = row # logs"
    by (auto simp: insert_event_in_transaction_def bind_result_eq_Inr split: if_splits)
  with False new show thesis by blast
qed

lemma log_row_event: "log_of_event (Inr i) t e = Inr row \<Longrightarrow> og_event_id row = Some (au_event_id e)"
  by (auto simp: log_of_event_def Let_def)

text \<open>An event identifier that has a log row belongs to a published event, if to any.\<close>

lemma delivery_publish_inv:
  assumes inv: "delivery_inv (db, gone)" and p: "publish_event_as_job w env ev i now db = (r, db')"
    and ev: "claimed_as ev (dl_outbox db)"
  shows "delivery_inv (db', gone) \<and> (\<forall>k. written_logs k (db, gone) \<noteq> [] \<longrightarrow>
    written_logs k (db', gone) = written_logs k (db, gone))"
  using p
proof (cases rule: publish_cases)
  case nothing
  with inv show ?thesis by simp
next
  case (written d)
  let ?xs = "map essence (dl_outbox db)" and ?i = "ce_id ev"
  let ?W = "dl_oper_logs db @ gone" and ?W' = "dl_oper_logs db' @ gone"
  have core: "delivery_core ?xs ?W" using inv by (simp add: delivery_inv_def)
  have u: "unique_key ob_id (dl_outbox db)" using delivery_coreD(1) [OF core] unique_essence by blast
  obtain x where x: "x \<in> set (dl_outbox db)" "ob_id x = ?i" "ob_status x = ob_STATUS_RUNNING"
    and xs': "map essence (dl_outbox db') = map (publish_essence ?i) ?xs"
    using mark_essence [OF u written(2)] by blast
  have evx: "ce_event_type ev = ob_event_type x" "ce_payload ev = ob_payload x"
      "ce_tenant_id ev = ob_tenant_id x" "ce_dedupe_key ev = ob_dedupe_key x"
    using ev x(1,2) by (simp_all add: claimed_as_def)
  have ex: "essence x \<in> set ?xs" using x(1) by simp
  have ex2: "essence x = (?i, ob_event_type x, ob_payload x, ob_dedupe_key x, ob_tenant_id x, False)"
    using x(2,3) by (simp add: essence_def)
  have only: "y = essence x" if "y \<in> set ?xs" "fst y = ?i" for y
  proof -
    from that(1) obtain z where z: "z \<in> set (dl_outbox db)" "y = essence z" by auto
    with that(2) x(2) have "ob_id z = ob_id x" by (simp add: essence_def)
    with unique_keyD [OF u z(1) x(1)] z(2) show ?thesis by simp
  qed
  show ?thesis
  proof (cases "\<exists>e row. d = DLog e row")
    case False
    have logs: "dl_oper_logs db' = dl_oper_logs db"
      and ty: "ob_event_type x \<noteq> AUDIT_OPERATION_OUTBOX_EVENT_TYPE"
      using written(1) False evx(1)
      by (cases d; simp add: writes_def MESSAGE_PUBLISHED_OUTBOX_EVENT_TYPE_def
          AUTHORIZATION_MIRROR_OUTBOX_EVENT_TYPE_def AUDIT_OPERATION_OUTBOX_EVENT_TYPE_def)+
    have "audit_ok ?W (publish_essence ?i y)" if "y \<in> set ?xs" for y
    proof (cases "fst y = ?i")
      case True
      from only [OF that this] ex2 ty show ?thesis by (simp add: audit_ok_def publish_essence_def)
    next
      case False
      with delivery_coreD(2) [OF core that] show ?thesis
        by (cases y) (simp add: publish_essence_def)
    qed
    from delivery_core_publish [OF core this] xs' logs show ?thesis by (simp add: delivery_inv_def)
  next
    case True
    then obtain e row where d: "d = DLog e row" by blast
    obtain n where w: "ce_event_type ev = AUDIT_OPERATION_OUTBOX_EVENT_TYPE" "audit_from_value (ce_payload ev) = Some e"
        "log_of_event (Inr n) (po_clock env) e = Inr row"
      and ins: "\<exists>b. insert_event_in_transaction (au_tenant_id e) row (dl_oper_logs db) = Inr (b, dl_oper_logs db')"
      using written(1) d unfolding writes_def
      by (cases "po_next_id env") (auto simp: log_of_event_def)
    from delivery_coreD(2) [OF core ex] ex2 w(1) evx obtain e' where e':
        "ob_payload x = audit_to_value e'" "ob_dedupe_key x = Some (au_event_id e')"
        "is_i64 (rl_cost_time (au_command e'))" "logs_of (au_event_id e') ?W = []"
        "ob_tenant_id x = Some (au_tenant_id e')"
      by (auto simp: audit_ok_def)
    have "e' = e" using w(2) evx(2) e'(1,3) by (simp add: audit_from_to)
    with e' have e: "ob_payload x = audit_to_value e" "ob_dedupe_key x = Some (au_event_id e)"
      "is_i64 (rl_cost_time (au_command e))" "logs_of (au_event_id e) ?W = []"
      "ob_tenant_id x = Some (au_tenant_id e)" by simp_all
    have row: "og_event_id row = Some (au_event_id e)" by (rule log_row_event [OF w(3)])
    have logs: "dl_oper_logs db' = row # dl_oper_logs db"
    proof -
      obtain b where "insert_event_in_transaction (au_tenant_id e) row (dl_oper_logs db) = Inr (b, dl_oper_logs db')"
        using ins by blast
      then show ?thesis
      proof (cases rule: inserted_cases)
        case (known r)
        with row have "r \<in> set (logs_of (au_event_id e) ?W)" by simp
        with e(4) show ?thesis by simp
      qed simp
    qed
    have other: "logs_of k ?W' = logs_of k ?W" if "k \<noteq> au_event_id e" for k
      using that row logs by simp
    have "audit_ok ?W' (publish_essence ?i y)" if y: "y \<in> set ?xs" for y
    proof (cases "fst y = ?i")
      case True
      have "logged e ?W'" using logs row e(4) w(3) by (auto simp: logged_def)
      with only [OF y True] ex2 e show ?thesis by (auto simp: audit_ok_def publish_essence_def)
    next
      case False
      obtain k ty payload key tenant pub where yy: "y = (k, ty, payload, key, tenant, pub)" by (cases y)
      show ?thesis
      proof (cases "ty = AUDIT_OPERATION_OUTBOX_EVENT_TYPE")
        case True
        with delivery_coreD(2) [OF core y] yy obtain f where f: "payload = audit_to_value f"
            "key = Some (au_event_id f)" "tenant = Some (au_tenant_id f)" "is_i64 (rl_cost_time (au_command f))"
            "if pub then logged f ?W else logs_of (au_event_id f) ?W = []"
          by (auto simp: audit_ok_def)
        have "au_event_id f \<noteq> au_event_id e"
        proof
          assume "au_event_id f = au_event_id e"
          then have "audit_key y = audit_key (essence x)"
            using yy ex2 True f(2) e(2) w(1) evx(1) by (simp add: audit_key_def)
          with delivery_coreD(3) [OF core y ex] True yy have "y = essence x" by (simp add: audit_key_def)
          with False ex2 show False by simp
        qed
        with f other [of "au_event_id f"] False yy show ?thesis
          by (auto simp: audit_ok_def publish_essence_def logged_def)
      next
        case False
        with yy show ?thesis by (simp add: audit_ok_def publish_essence_def)
      qed
    qed
    from delivery_core_publish [OF core this] xs' have "delivery_inv (db', gone)" by (simp add: delivery_inv_def)
    moreover have "logs_of k ?W' = logs_of k ?W"
      if "logs_of k ?W \<noteq> []" for k
      using other [of k] that e(4) by (cases "k = au_event_id e") auto
    ultimately show ?thesis by simp
  qed
qed

lemma delivery_same:
  assumes "delivery_inv (db, gone)" "map essence (dl_outbox db') = map essence (dl_outbox db)"
    "dl_oper_logs db' = dl_oper_logs db"
  shows "delivery_inv (db', gone)"
  using assms by (simp only: delivery_inv_def fst_conv snd_conv)

text \<open>Recording an audited operation and deleting rows keep the invariant.\<close>

lemma delivery_audit_inv:
  assumes inv: "delivery_inv (db, gone)" and rec: "record_event_in_transaction renv e m (dl_outbox db) = Inr t"
    and cost: "is_i64 (rl_cost_time (au_command e))"
    and fresh: "t \<noteq> dl_outbox db \<Longrightarrow> unlogged e (dl_oper_logs db @ gone)"
  shows "delivery_inv (db\<lparr>dl_outbox := t\<rparr>, gone)"
proof -
  let ?xs = "map essence (dl_outbox db)" and ?W = "dl_oper_logs db @ gone"
  have core: "delivery_core ?xs ?W" using inv by (simp add: delivery_inv_def)
  from rec obtain x where
    r: "record_in_transaction (re_next_id renv) (audit_record renv e m) (re_now renv) (dl_outbox db) (dl_outbox db) = Inr (x, t)"
    by (auto simp: record_event_in_transaction_def elim!: bind_resultE)
  then show ?thesis
  proof (cases rule: record_essence)
    case same
    with inv show ?thesis by simp
  next
    case (new k)
    then have "unlogged e ?W" using fresh by auto
    then have none: "logs_of (au_event_id e) ?W = []" by (force simp: unlogged_def filter_empty_conv)
    have x: "essence x = (k, AUDIT_OPERATION_OUTBOX_EVENT_TYPE, audit_to_value e, Some (au_event_id e),
        Some (au_tenant_id e), False)" using new(3) by (simp add: audit_record_def)
    have "delivery_core (essence x # ?xs) ?W"
    proof (rule delivery_core_new [OF core x])
      show "k \<notin> fst ` set ?xs"
        using new(2) by (auto simp: essence_def)
      show "\<forall>y \<in> set ?xs. audit_key y \<noteq> (AUDIT_OPERATION_OUTBOX_EVENT_TYPE, Some (au_event_id e))"
        using new(4) by (auto simp: essence_def audit_key_def audit_record_def)
      show "audit_ok ?W (essence x)"
        using none cost by (auto simp: x audit_ok_def)
    qed
    with new(1) show ?thesis by (simp add: delivery_inv_def)
  qed
qed

lemma delivery_core_logs:
  assumes "delivery_core xs logs" "\<And>k. mset (logs_of k logs') = mset (logs_of k logs)"
  shows "delivery_core xs logs'"
proof -
  have "logs_of k logs' = [r] \<longleftrightarrow> logs_of k logs = [r]" "logs_of k logs' = [] \<longleftrightarrow> logs_of k logs = []" for k r
    using assms(2) [of k] by (metis mset_single_iff, metis mset_zero_iff)
  then have same: "audit_ok logs' = audit_ok logs"
    by (intro ext) (simp add: audit_ok_def logged_def)
  show ?thesis using assms(1) unfolding delivery_core_def same .
qed

lemma deleted_filter:
  assumes "dl_oper_logs db' = filter Q (dl_oper_logs db)"
  shows "deleted_rows db db' = filter (\<lambda>r. \<not> Q r) (dl_oper_logs db)"
  unfolding deleted_rows_def assms by (rule filter_cong) auto

lemma written_deleted:
  assumes "dl_oper_logs db' = filter Q (dl_oper_logs db)"
  shows "mset (written_logs k (db', deleted_rows db db' @ gone)) = mset (written_logs k (db, gone))"
proof -
  have split: "filter_mset P (filter_mset Q M) + filter_mset P (filter_mset (\<lambda>r. \<not> Q r) M) = filter_mset P M"
    for P and M :: "oper_log multiset"
    by (simp only: filter_union_mset [symmetric] multiset_partition [symmetric])
  show ?thesis
    by (simp only: fst_conv snd_conv assms deleted_filter [OF assms] filter_append mset_append mset_filter
        add.assoc [symmetric] split)
qed

lemma delivery_delete_inv:
  assumes "delivery_inv (db, gone)" "dl_oper_logs db' = filter Q (dl_oper_logs db)" "dl_outbox db' = dl_outbox db"
  shows "delivery_inv (db', deleted_rows db db' @ gone)"
  using delivery_core_logs [of "map essence (dl_outbox db)" "dl_oper_logs db @ gone"
      "dl_oper_logs db' @ deleted_rows db db' @ gone"]
    written_deleted [OF assms(2), of _ gone] assms(1,3)
  by (simp add: delivery_inv_def)

lemma delivery_clean_inv:
  assumes inv: "delivery_inv (db, gone)" and c: "clean cenv tenant db = (res, db')"
    and cost: "\<And>e. cn_current cenv = Some e \<Longrightarrow> is_i64 (rl_cost_time (au_command e))"
    and fresh: "\<And>e t. cn_current cenv = Some e \<Longrightarrow>
      record_event_in_transaction (cn_record cenv) e OUTBOX_MAX_ATTEMPTS (dl_outbox db) = Inr t \<Longrightarrow>
      t \<noteq> dl_outbox db \<Longrightarrow> unlogged e (dl_oper_logs db @ gone)"
  shows "delivery_inv (db', deleted_rows db db' @ gone) \<and>
    mset (written_logs k (db', deleted_rows db db' @ gone)) = mset (written_logs k (db, gone))"
  using c
proof (cases rule: cleanE)
  case nothing
  then show ?thesis using inv by (simp add: deleted_rows_def)
next
  case (cleaned t)
  let ?d = "db\<lparr>dl_outbox := t\<rparr>"
  have logs: "dl_oper_logs db' = filter (\<lambda>r. og_tenant_id r \<noteq> tenant) (dl_oper_logs db)"
    using cleaned(2) by simp
  have "delivery_inv (?d, gone)"
  proof (cases "cn_current cenv")
    case None
    with cleaned(1) have "?d = db" by (simp add: record_current_audit_in_transaction_def)
    with inv show ?thesis by (simp only:)
  next
    case (Some e)
    with cleaned(1) have r: "record_event_in_transaction (cn_record cenv) e OUTBOX_MAX_ATTEMPTS (dl_outbox db) = Inr t"
      by (simp add: record_current_audit_in_transaction_def)
    show ?thesis by (rule delivery_audit_inv [OF inv r cost [OF Some] fresh [OF Some r]])
  qed
  then have "delivery_inv (db', deleted_rows ?d db' @ gone)"
    by (rule delivery_delete_inv) (simp_all add: cleaned(2))
  then show ?thesis using written_deleted [OF logs] by (simp add: deleted_rows_def)
qed

text \<open>Every step keeps the invariant, and the rows once written for an event.\<close>

lemma delivery_step_inv:
  assumes "delivery_step (db, gone) (db', gone')" "delivery_inv (db, gone)"
  shows "delivery_inv (db', gone') \<and> (\<forall>k. written_logs k (db, gone) \<noteq> [] \<longrightarrow>
    mset (written_logs k (db', gone')) = mset (written_logs k (db, gone)))"
proof -
  let ?W = "dl_oper_logs db @ gone"
  have core: "delivery_core (map essence (dl_outbox db)) ?W"
    using assms(2) by (simp add: delivery_inv_def)
  have u: "unique_key ob_id (dl_outbox db)" using delivery_coreD(1) [OF core] unique_essence by blast
  from assms(1) show ?thesis
  proof cases
    case (v_audit renv e m t)
    with delivery_audit_inv [OF assms(2) v_audit(3,4,5)] show ?thesis by simp
  next
    case (v_record nid rec now t1 x t)
    have "delivery_inv (db\<lparr>dl_outbox := t\<rparr>, gone)"
      using v_record(3)
    proof (cases rule: record_essence)
      case same
      with assms(2) show ?thesis by simp
    next
      case (new k)
      have "delivery_core (essence x # map essence (dl_outbox db)) ?W"
      proof (rule delivery_core_new [OF core new(3)])
        show "k \<notin> fst ` set (map essence (dl_outbox db))"
          using new(2) by (auto simp: essence_def)
        show "audit_ok ?W (essence x)"
          using v_record(4) by (simp add: new(3) audit_ok_def)
      qed (use v_record(4) in simp)
      with new(1) show ?thesis by (simp add: delivery_inv_def)
    qed
    with v_record(1,2) show ?thesis by simp
  next
    case (v_claim i d now scope locked c t)
    with delivery_same [OF assms(2), of db'] claim_essence [OF u v_claim(3)] show ?thesis by simp
  next
    case (v_fail k i r e now disp t)
    with delivery_same [OF assms(2), of db'] fail_essence [OF u v_fail(3)] show ?thesis by simp
  next
    case (v_exhausted now scope)
    with delivery_same [OF assms(2), of db'] show ?thesis by (simp add: recover_essence)
  next
    case (v_retryable now scope)
    with delivery_same [OF assms(2), of db'] show ?thesis by (simp add: recover_essence)
  next
    case (v_purge P)
    have "delivery_core (map essence (filter (\<lambda>x. \<not> P x) (dl_outbox db))) ?W"
      using unique_key_filter [OF u, of "\<lambda>x. \<not> P x"]
      by (intro delivery_core_filter [OF core]) (auto simp only: unique_essence set_map set_filter)
    with v_purge(1,2) show ?thesis by (simp add: delivery_inv_def)
  next
    case (v_publish w env ev i now r)
    with delivery_publish_inv [OF assms(2)] show ?thesis by metis
  next
    case (v_log row)
    then have l: "logs_of k (dl_oper_logs db' @ gone') = logs_of k ?W" for k by simp
    have "delivery_core (map essence (dl_outbox db)) (dl_oper_logs db' @ gone')"
      by (rule delivery_core_logs [OF core]) (simp only: l)
    with v_log(1) have "delivery_inv (db', gone')" by (simp add: delivery_inv_def)
    with l show ?thesis by simp
  next
    case (v_jobs jobs)
    with delivery_same [OF assms(2), of db'] show ?thesis by simp
  next
    case (v_clean cenv tenant res)
    have "delivery_inv (db', deleted_rows db db' @ gone) \<and>
        mset (written_logs k (db', deleted_rows db db' @ gone)) = mset (written_logs k (db, gone))" for k
      by (rule delivery_clean_inv [OF assms(2) v_clean(2)]) (erule v_clean(3), erule (2) v_clean(4))
    with v_clean(1) show ?thesis by simp
  next
    case (v_retention before limit locked ids logs)
    then have l: "dl_oper_logs db' = filter (\<lambda>r. og_id r \<notin> set ids) (dl_oper_logs db)" "dl_outbox db' = dl_outbox db"
      by (auto simp: retention_batch_def Let_def)
    show ?thesis
      using delivery_delete_inv [OF assms(2) l] written_deleted [OF l(1), of _ gone] v_retention(1) by simp
  qed
qed

lemma delivery_steps_inv:
  "delivery_step\<^sup>*\<^sup>* s s' \<Longrightarrow> delivery_inv s \<Longrightarrow>
     delivery_inv s' \<and> (\<forall>k. written_logs k s \<noteq> [] \<longrightarrow>
       mset (written_logs k s') = mset (written_logs k s))"
proof (induction rule: rtranclp_induct)
  case (step y z)
  with delivery_step_inv [of "fst y" "snd y" "fst z" "snd z"] show ?case
    by (metis prod.collapse mset_zero_iff)
qed simp

text \<open>An audited change of the sample tenant, claimed and delivered.\<close>

definition sample_audit :: AuditOperationEvent where
  "sample_audit = audit_event 12 LogSuccess None sample_request"

definition sample_worker :: OutboxWorker where
  "sample_worker = \<lparr>ow_scope = None, ow_lease_duration = 100, ow_context = None, ow_repair = \<lambda>_. Inr (),
     ow_decode_error = \<lambda>_. []\<rparr>"

definition sample_port :: port_env where
  "sample_port = \<lparr>po_begin = Inr (), po_next_id = Inr 900, po_clock = 40, po_jobs_seen = empty_db,
     po_commit = Committed\<rparr>"

definition delivery_db1 :: delivery_db where
  "delivery_db1 = \<lparr>dl_control = empty_db, dl_outbox =
     (case record_event_in_transaction sample_record_env sample_audit 20 [] of Inr t \<Rightarrow> t | Inl _ \<Rightarrow> []),
     dl_oper_logs = []\<rparr>"

definition delivery_db2 :: delivery_db where
  "delivery_db2 = delivery_db1\<lparr>dl_outbox :=
     (case ob_claim_next ''w1'' 100 20 None (\<lambda>_. False) (dl_outbox delivery_db1) of Inr (_, t) \<Rightarrow> t | Inl _ \<Rightarrow> [])\<rparr>"

definition sample_delivery :: "bool app_result \<times> delivery_db" where
  "sample_delivery = publish_event_as_job sample_worker sample_port
     (to_claimed_event (hd (dl_outbox delivery_db2))) ''w1'' 30 delivery_db2"

lemma sample_delivery_steps:
  "record_event_in_transaction sample_record_env sample_audit 20 [] = Inr (dl_outbox delivery_db1)"
  "\<exists>c. ob_claim_next ''w1'' 100 20 None (\<lambda>_. False) (dl_outbox delivery_db1) = Inr (c, dl_outbox delivery_db2)"
  "map essence (dl_outbox (snd sample_delivery)) =
     [(78, ''audit.operation'', audit_to_value sample_audit, Some ''e1'', Some ''system'', True)]"
  "length (dl_outbox delivery_db2) = 1"
proof -
  show "record_event_in_transaction sample_record_env sample_audit 20 [] = Inr (dl_outbox delivery_db1)"
    by code_simp
  have "case ob_claim_next ''w1'' 100 20 None (\<lambda>_. False) (dl_outbox delivery_db1) of
      Inr (_, t) \<Rightarrow> t = dl_outbox delivery_db2 | Inl _ \<Rightarrow> False"
    by code_simp
  then show "\<exists>c. ob_claim_next ''w1'' 100 20 None (\<lambda>_. False) (dl_outbox delivery_db1) = Inr (c, dl_outbox delivery_db2)"
    by (auto split: sum.splits prod.splits)
  show "map essence (dl_outbox (snd sample_delivery)) =
      [(78, ''audit.operation'', audit_to_value sample_audit, Some ''e1'', Some ''system'', True)]"
    by code_simp
  show "length (dl_outbox delivery_db2) = 1" by code_simp
qed

lemma sample_delivery_reachable:
  "delivery_step\<^sup>*\<^sup>* (delivery_db1\<lparr>dl_outbox := []\<rparr>, []) (snd sample_delivery, [])"
proof -
  let ?d0 = "delivery_db1\<lparr>dl_outbox := []\<rparr>"
  have "delivery_step (?d0, []) (?d0\<lparr>dl_outbox := dl_outbox delivery_db1\<rparr>, [])"
    by (rule v_audit [of sample_record_env sample_audit 20])
      (simp_all add: sample_delivery_steps(1), simp_all add: sample_audit_def audit_event_def delivery_db1_def unlogged_def)
  moreover have "?d0\<lparr>dl_outbox := dl_outbox delivery_db1\<rparr> = delivery_db1" by simp
  moreover have "delivery_step (delivery_db1, []) (delivery_db2, [])"
  proof -
    obtain c where "ob_claim_next ''w1'' 100 20 None (\<lambda>_. False) (dl_outbox delivery_db1) = Inr (c, dl_outbox delivery_db2)"
      using sample_delivery_steps(2) by blast
    from v_claim [OF this] show ?thesis by (simp add: delivery_db2_def)
  qed
  moreover have "delivery_step (delivery_db2, []) (snd sample_delivery, [])"
  proof (rule v_publish)
    show "publish_event_as_job sample_worker sample_port (to_claimed_event (hd (dl_outbox delivery_db2))) ''w1'' 30
        delivery_db2 = (fst sample_delivery, snd sample_delivery)"
      by (simp add: sample_delivery_def)
    obtain y where "dl_outbox delivery_db2 = [y]" using sample_delivery_steps(4) by (auto simp: length_Suc_conv)
    then show "claimed_as (to_claimed_event (hd (dl_outbox delivery_db2))) (dl_outbox delivery_db2)"
      by (simp add: claimed_as_def to_claimed_event_def)
  qed
  ultimately show ?thesis by (metis converse_rtranclp_into_rtranclp r_into_rtranclp)
qed

section \<open>Properties\<close>

text \<open>
  C22. A delivery is all or nothing: either it leaves the database as it was and does not report
  success, or the event is marked as published, by the worker that holds its lease, in the same
  commit as its effect: the dispatch job, the row of the operation log, or nothing but a mirror that
  has been repaired before. Only a commit whose answer is lost is reported as a failure although
  both are written.
\<close>

theorem delivery_atomic:
  assumes "publish_event_as_job w env ev worker_id now db = (r, db')"
  shows "db' = db \<and> r \<noteq> Inr True \<or>
    (r = Inr True \<or> (\<exists>e. r = Inl e \<and> po_commit env = CommitUnknown e)) \<and>
    mark_published_in_transaction (ce_id ev) worker_id now (dl_outbox db) = (True, dl_outbox db') \<and>
    (\<exists>d. writes w env ev now d db db')"
  using assms
proof (cases rule: publish_cases)
  case nothing
  then show ?thesis by simp
next
  case (written d)
  then show ?thesis by blast
qed

theorem delivery_atomic_witness:
  "fst sample_delivery = Inr True \<and> (\<exists>d. writes sample_worker sample_port
     (to_claimed_event (hd (dl_outbox delivery_db2))) 30 d delivery_db2 (snd sample_delivery))"
proof -
  have "case fst sample_delivery of Inr b \<Rightarrow> b | Inl _ \<Rightarrow> False" by code_simp
  then have "fst sample_delivery = Inr True" by (auto split: sum.splits)
  with delivery_atomic [of sample_worker sample_port "to_claimed_event (hd (dl_outbox delivery_db2))" "''w1''" 30
      delivery_db2 "fst sample_delivery" "snd sample_delivery"]
  show ?thesis by (simp add: sample_delivery_def)
qed

text \<open>
  C18. For every audited operation exactly one log row is ever written. Whatever the order of
  recordings, claims, failures, recoveries and repeated deliveries, lost commit answers included,
  and whatever log rows the cleaning of a tenant and the retention delete in between: while its
  event is not published no row has been written for it; from the moment it is published one row
  has, which carries what was recorded, and no other ever is, also after the event is purged. The
  row is in the log until a deletion takes it away: it is in the log or among the rows deleted,
  never in both. A recording is taken to bring an event identifier for which no row was written
  before, unless its event is in the outbox.
\<close>

theorem audit_exactly_once:
  assumes "delivery_step\<^sup>*\<^sup>* (db0, []) (db, gone)" "dl_outbox db0 = []"
    and "x \<in> set (dl_outbox db)" "ob_event_type x = AUDIT_OPERATION_OUTBOX_EVENT_TYPE"
  shows "\<exists>e. ob_payload x = audit_to_value e \<and> ob_dedupe_key x = Some (au_event_id e) \<and>
    (if ob_status x = ob_STATUS_PUBLISHED
     then \<exists>r i t. log_of_event (Inr i) t e = Inr r \<and>
       logs_of (au_event_id e) (dl_oper_logs db @ gone) = [r] \<and>
       (\<forall>db' gone'. delivery_step\<^sup>*\<^sup>* (db, gone) (db', gone') \<longrightarrow>
          logs_of (au_event_id e) (dl_oper_logs db' @ gone') = [r])
     else logs_of (au_event_id e) (dl_oper_logs db @ gone) = [])"
proof -
  let ?W = "dl_oper_logs db @ gone"
  have "delivery_inv (db0, [])" by (simp add: delivery_inv_def delivery_core_def assms(2))
  with delivery_steps_inv [OF assms(1)] have inv: "delivery_inv (db, gone)" by blast
  have "essence x \<in> set (map essence (dl_outbox db))" using assms(3) by simp
  with inv have "audit_ok ?W (essence x)"
    unfolding delivery_inv_def fst_conv snd_conv by (blast dest: delivery_coreD(2))
  then obtain e where e: "ob_payload x = audit_to_value e" "ob_dedupe_key x = Some (au_event_id e)"
    "if ob_status x = ob_STATUS_PUBLISHED then logged e ?W else logs_of (au_event_id e) ?W = []"
    using assms(4) by (auto simp: audit_ok_def essence_def)
  have stays: "logs_of k (dl_oper_logs db' @ gone') = [r]"
    if "logs_of k ?W = [r]" "delivery_step\<^sup>*\<^sup>* (db, gone) (db', gone')" for k r db' gone'
  proof -
    from delivery_steps_inv [OF that(2) inv] that(1)
    have "mset (written_logs k (db', gone')) = {#r#}" by (metis fst_conv snd_conv list.distinct(1) mset_single_iff)
    then show ?thesis by (metis fst_conv snd_conv mset_single_iff)
  qed
  show ?thesis
  proof (cases "ob_status x = ob_STATUS_PUBLISHED")
    case True
    with e(3) obtain r i t where "logs_of (au_event_id e) ?W = [r]" "log_of_event (Inr i) t e = Inr r"
      unfolding logged_def by auto
    with stays have "\<exists>r i t. log_of_event (Inr i) t e = Inr r \<and> logs_of (au_event_id e) ?W = [r] \<and>
        (\<forall>db' gone'. delivery_step\<^sup>*\<^sup>* (db, gone) (db', gone') \<longrightarrow>
           logs_of (au_event_id e) (dl_oper_logs db' @ gone') = [r])" by blast
    with e(1,2) True show ?thesis by (intro exI [of _ e]) (simp only: if_True simp_thms)
  next
    case False
    with e show ?thesis by (intro exI [of _ e]) simp
  qed
qed

theorem audit_exactly_once_witness:
  "\<exists>x r. x \<in> set (dl_outbox (snd sample_delivery)) \<and> ob_status x = ob_STATUS_PUBLISHED \<and>
     logs_of ''e1'' (dl_oper_logs (snd sample_delivery)) = [r]"
proof -
  have E: "map essence (dl_outbox (snd sample_delivery)) =
      [(78, ''audit.operation'', audit_to_value sample_audit, Some ''e1'', Some ''system'', True)]"
    by (rule sample_delivery_steps(3))
  then obtain x where x: "dl_outbox (snd sample_delivery) = [x]" by (auto simp: map_eq_Cons_conv)
  with E have p: "ob_event_type x = AUDIT_OPERATION_OUTBOX_EVENT_TYPE" "ob_status x = ob_STATUS_PUBLISHED"
      "ob_dedupe_key x = Some ''e1''"
    by (simp_all add: essence_def AUDIT_OPERATION_OUTBOX_EVENT_TYPE_def)
  from x have m: "x \<in> set (dl_outbox (snd sample_delivery))" by simp
  have "dl_outbox (delivery_db1\<lparr>dl_outbox := []\<rparr>) = []" by simp
  from audit_exactly_once [OF sample_delivery_reachable this m p(1)] p(2,3) m show ?thesis by auto
qed

text \<open>What a step does to the log, by its kind.\<close>

lemma delivery_keeps_logs:
  assumes "publish_event_as_job w env ev i now db = (r, db')"
  shows "set (dl_oper_logs db) \<subseteq> set (dl_oper_logs db')"
  using assms
proof (cases rule: publish_cases)
  case (written d)
  then show ?thesis
    by (cases d) (auto simp: writes_def elim: inserted_cases)
qed simp

lemma retention_batch_deletes:
  assumes "retention_batch before limit locked logs = (ids, logs')" "r \<in> set logs" "r \<notin> set logs'"
    and "distinct (map og_id logs)"
  shows "og_oper_time r < before \<and> \<not> locked (og_id r)"
proof -
  from assms(1-3) have "og_id r \<in> set ids" "set ids \<subseteq> set (expired_ids before locked logs)"
    by (auto simp: retention_batch_def Let_def dest: in_set_takeD)
  then obtain q where "q \<in> set logs" "og_id q = og_id r" "eligible_row before q" "\<not> locked (og_id q)"
    by (auto simp: expired_ids_def)
  with assms(2,4) show ?thesis by (metis eligible_row_def eq_key_imp_eq_value inj_onD distinct_map)
qed

definition sample_clean :: clean_env where
  "sample_clean = \<lparr>cn_context = Some ''system'', cn_begin = Inr (), cn_record = sample_record_env,
     cn_current = None, cn_commit = Committed\<rparr>"

text \<open>
  C39. A row leaves the operation log only by a deletion meant for it: by a cleaning of its own tenant,
  or by a round of the retention whose cutoff is later than the row and which did not find it locked.
  Recordings, deliveries, failures, recoveries and the purge of events keep every row. The key of the
  table is taken to be unique.
\<close>

theorem log_rows_kept:
  assumes "delivery_step (db, gone) (db', gone')" "distinct (map og_id (dl_oper_logs db))"
    and "r \<in> set (dl_oper_logs db)" "r \<notin> set (dl_oper_logs db')"
  shows "(\<exists>cenv res. clean cenv (og_tenant_id r) db = (res, db')) \<or>
    (\<exists>before limit locked ids. retention_batch before limit locked (dl_oper_logs db) = (ids, dl_oper_logs db') \<and>
       dl_outbox db' = dl_outbox db \<and> og_oper_time r < before \<and> \<not> locked (og_id r))"
  using assms(1)
proof cases
  case (v_publish w env ev i now res)
  with delivery_keeps_logs [OF v_publish(2)] assms(3,4) show ?thesis by blast
next
  case (v_clean cenv tenant res)
  from v_clean(2) have "og_tenant_id r = tenant"
    by (cases rule: cleanE) (use assms(3,4) in auto)
  with v_clean(2) show ?thesis by blast
next
  case (v_retention before limit locked ids logs)
  then have b: "retention_batch before limit locked (dl_oper_logs db) = (ids, dl_oper_logs db')"
      "dl_outbox db' = dl_outbox db" by simp_all
  with retention_batch_deletes [OF b(1) assms(3,4,2)] show ?thesis by blast
qed (use assms(3,4) in simp_all)

theorem log_rows_kept_witness:
  "\<exists>r. dl_oper_logs (snd sample_delivery) = [r] \<and>
     dl_oper_logs (snd (clean sample_clean ''system'' (snd sample_delivery))) = [] \<and>
     ((\<exists>cenv res. clean cenv (og_tenant_id r) (snd sample_delivery) =
         (res, snd (clean sample_clean ''system'' (snd sample_delivery)))) \<or>
      (\<exists>before limit locked ids. retention_batch before limit locked (dl_oper_logs (snd sample_delivery)) =
         (ids, dl_oper_logs (snd (clean sample_clean ''system'' (snd sample_delivery)))) \<and>
       dl_outbox (snd (clean sample_clean ''system'' (snd sample_delivery))) = dl_outbox (snd sample_delivery) \<and>
       og_oper_time r < before \<and> \<not> locked (og_id r)))"
proof -
  let ?db = "snd sample_delivery" and ?db' = "snd (clean sample_clean ''system'' (snd sample_delivery))"
  have "length (dl_oper_logs ?db) = 1 \<and> dl_oper_logs ?db' = []" by code_simp
  then obtain r where r: "dl_oper_logs ?db = [r]" and none: "dl_oper_logs ?db' = []"
    by (auto simp: length_Suc_conv)
  have "delivery_step (?db, []) (?db', deleted_rows ?db ?db' @ [])"
    by (rule v_clean [of sample_clean "''system''" _ "fst (clean sample_clean ''system'' ?db)"])
      (simp_all add: sample_clean_def)
  from log_rows_kept [OF this, of r] r none show ?thesis by simp
qed

end
