(* ===== verification/Departments.thy ===== *)
theory Departments
  imports Tenant_Mutations
begin

text \<open>
  The department tree of a tenant. Each row stores its parent and, redundantly, the path of its
  ancestors as a text \<open>0,1,5\<close>; the subtree queries match on that text
  (\<open>ryframe-db/src/repositories/dept_repo.rs\<close>, \<open>application_ports/system/dept.rs\<close>), and creating,
  moving and deleting a department keep it up to date (\<open>ryframe-application/src/system/dept/commands.rs\<close>).
\<close>

section \<open>Queries\<close>

text \<open>SQL \<open>LIKE\<close>: \<open>%\<close> matches any text, \<open>_\<close> any character, a backslash escapes.\<close>

fun like_match :: "string \<Rightarrow> string \<Rightarrow> bool" where
  "like_match [] s \<longleftrightarrow> s = []"
| "like_match (c # p) s \<longleftrightarrow>
     (if c = CHR ''%'' then list_ex (\<lambda>k. like_match p (drop k s)) [0 ..< Suc (length s)]
      else if c = CHR ''_'' then (case s of [] \<Rightarrow> False | _ # t \<Rightarrow> like_match p t)
      else if c = CHR 0x5C \<and> p \<noteq> [] then
        (case s of [] \<Rightarrow> False | d # t \<Rightarrow> d = hd p \<and> like_match (tl p) t)
      else (case s of [] \<Rightarrow> False | d # t \<Rightarrow> d = c \<and> like_match p t))"

definition dept_live :: "string \<Rightarrow> dept \<Rightarrow> bool" where
  "dept_live tenant_id d \<longleftrightarrow> dp_tenant_id d = tenant_id \<and> dp_del_flag d = dp_DEL_FLAG_NORMAL"

definition dept_find_by_id :: "string \<Rightarrow> int \<Rightarrow> dept list \<Rightarrow> dept option" where
  "dept_find_by_id tenant_id i ds =
     (case row_get dp_id i ds of
        Some d \<Rightarrow> if dept_live tenant_id d then Some d else None
      | None \<Rightarrow> None)"

definition in_subtree :: "string \<Rightarrow> dept \<Rightarrow> bool" where
  "in_subtree prefix_text d \<longleftrightarrow>
     dp_ancestors d = prefix_text \<or> like_match (prefix_text @ '',%'') (dp_ancestors d)"

definition find_child_dept_ids :: "string \<Rightarrow> int \<Rightarrow> dept list \<Rightarrow> int list app_result" where
  "find_child_dept_ids tenant_id dept_id ds =
     (case dept_find_by_id tenant_id dept_id ds of
        None \<Rightarrow> Inl (NotFound msg_dept_missing)
      | Some d \<Rightarrow>
          Inr (dept_id # map dp_id
            (filter (\<lambda>c. in_subtree (dp_ancestors d @ '','' @ show_int dept_id) c \<and> dept_live tenant_id c) ds)))"

definition find_descendants_for_update :: "string \<Rightarrow> string \<Rightarrow> dept list \<Rightarrow> dept list" where
  "find_descendants_for_update tenant_id old_prefix ds =
     sort_key dp_id (filter (\<lambda>c. dept_live tenant_id c \<and> in_subtree old_prefix c) ds)"

definition has_child_for_update :: "string \<Rightarrow> int \<Rightarrow> dept list \<Rightarrow> bool" where
  "has_child_for_update tenant_id i ds = list_ex (\<lambda>c. dept_live tenant_id c \<and> dp_parent_id c = Some i) ds"

definition has_reference_for_update :: "string \<Rightarrow> int \<Rightarrow> org_db \<Rightarrow> bool" where
  "has_reference_for_update tenant_id i db \<longleftrightarrow>
     list_ex (\<lambda>u. us_tenant_id u = tenant_id \<and> us_del_flag u = us_DEL_FLAG_NORMAL \<and> us_dept_id u = Some i)
       (org_users db) \<or>
     list_ex (\<lambda>r. rd_tenant_id r = tenant_id \<and> rd_dept_id r = i) (org_role_depts db)"

section \<open>Commands\<close>

record CreateDeptCommand =
  cd_name :: string
  cd_parent_id :: "int option"
  cd_sort :: int

record UpdateDeptCommand =
  ud_id :: int
  ud_name :: string
  ud_parent_id :: "int option"
  ud_sort :: int
  ud_status :: string

definition parent_ancestors :: "string \<Rightarrow> int option \<Rightarrow> dept list \<Rightarrow> string app_result" where
  "parent_ancestors tenant_id parent ds =
     (case parent of
        None \<Rightarrow> Inr ''0''
      | Some p \<Rightarrow>
          (case dept_find_by_id tenant_id p ds of
             Some d \<Rightarrow> Inr (dp_ancestors d @ '','' @ show_int p)
           | None \<Rightarrow> Inl (NotFound msg_dept_parent_missing)))"

definition strip_prefix :: "string \<Rightarrow> string \<Rightarrow> string option" where
  "strip_prefix p s = (if prefix p s then Some (drop (length p) s) else None)"

definition rewrite_descendant_ancestors :: "string \<Rightarrow> string \<Rightarrow> string \<Rightarrow> string app_result" where
  "rewrite_descendant_ancestors ancestors old_prefix new_prefix =
     (case strip_prefix old_prefix ancestors of
        Some suffix_text \<Rightarrow> Inr (new_prefix @ suffix_text)
      | None \<Rightarrow> Inl (Internal msg_dept_path))"

text \<open>\<open>ActiveModel::update\<close> writes the row of that identifier; the entity is rebuilt from the record
  with the tenant of the call, the normal flag and a new update time.\<close>

definition dept_update :: "string \<Rightarrow> timestamp \<Rightarrow> dept \<Rightarrow> dept list \<Rightarrow> dept \<times> dept list" where
  "dept_update tenant_id clock d ds =
     (let d' = d\<lparr>dp_tenant_id := tenant_id, dp_del_flag := dp_DEL_FLAG_NORMAL, dp_updated_at := clock\<rparr>
      in (d', row_put dp_id d' ds))"

definition dept_insert :: "string \<Rightarrow> int app_result \<Rightarrow> timestamp \<Rightarrow> dept \<Rightarrow> dept list \<Rightarrow>
    (dept \<times> dept list) app_result" where
  "dept_insert tenant_id next_id clock d ds =
     bind_result next_id (\<lambda>i.
       let d' = d\<lparr>dp_id := i, dp_tenant_id := tenant_id, dp_del_flag := dp_DEL_FLAG_NORMAL,
                  dp_created_at := clock, dp_updated_at := clock\<rparr>
       in if i \<in> dp_id ` set ds then Inl (Database ''Duplicate entry'') else Inr (d', d' # ds))"

definition dept_create ::
  "mutation_env \<Rightarrow> string option \<Rightarrow> string \<Rightarrow> int app_result \<Rightarrow> int app_result \<Rightarrow> CreateDeptCommand \<Rightarrow>
   org_db \<Rightarrow> dept app_result \<times> org_db" where
  "dept_create env ctx actor_tenant next_id fill_id c db =
     (case validated_tenant_id ctx actor_tenant of
        Inl e \<Rightarrow> (Inl e, db)
      | Inr tenant_id \<Rightarrow>
          complete_mutation env tenant_id
            (bind_result (lock_tenant_and_validate_in_txn tenant_id None (me_now env) db) (\<lambda>(_, db1).
             bind_result (parent_ancestors tenant_id (cd_parent_id c) (org_depts db1)) (\<lambda>ancestors.
             bind_result next_id (\<lambda>i.
             bind_result
               (dept_insert tenant_id fill_id (me_clock env)
                  \<lparr>dp_id = i, dp_tenant_id = tenant_id, dp_name = cd_name c, dp_parent_id = cd_parent_id c,
                   dp_ancestors = ancestors, dp_sort = cd_sort c, dp_status = dp_STATUS_NORMAL,
                   dp_remark = None, dp_del_flag = dp_DEL_FLAG_NORMAL, dp_created_at = 0,
                   dp_updated_at = 0\<rparr> (org_depts db1))
               (\<lambda>(d, ds). Inr (d, db1\<lparr>org_depts := ds\<rparr>)))))) db)"

fun rewrite_children ::
  "string \<Rightarrow> timestamp \<Rightarrow> string \<Rightarrow> string \<Rightarrow> dept list \<Rightarrow> dept list \<Rightarrow> dept list app_result" where
  "rewrite_children tenant_id clock old_prefix new_prefix [] ds = Inr ds"
| "rewrite_children tenant_id clock old_prefix new_prefix (c # cs) ds =
     bind_result (rewrite_descendant_ancestors (dp_ancestors c) old_prefix new_prefix) (\<lambda>a.
       rewrite_children tenant_id clock old_prefix new_prefix cs
         (snd (dept_update tenant_id clock (c\<lparr>dp_ancestors := a\<rparr>) ds)))"

definition dept_update_operation ::
  "mutation_env \<Rightarrow> string \<Rightarrow> UpdateDeptCommand \<Rightarrow> dept list \<Rightarrow> (dept \<times> dept list) app_result" where
  "dept_update_operation env tenant_id c ds =
     (case dept_find_by_id tenant_id (ud_id c) ds of
        None \<Rightarrow> Inl (NotFound msg_dept_missing)
      | Some current \<Rightarrow>
          let changed = (\<lambda>a. current\<lparr>dp_ancestors := a, dp_name := ud_name c, dp_parent_id := ud_parent_id c,
                                     dp_sort := ud_sort c, dp_status := ud_status c\<rparr>)
          in if dp_parent_id current \<noteq> ud_parent_id c then
               let old_prefix = dp_ancestors current @ '','' @ show_int (ud_id c);
                   descendants = find_descendants_for_update tenant_id old_prefix ds
               in if (case ud_parent_id c of None \<Rightarrow> False
                      | Some p \<Rightarrow> list_ex (\<lambda>d. dp_id d = p) descendants)
                  then Inl (Validation msg_dept_cycle)
                  else bind_result (parent_ancestors tenant_id (ud_parent_id c) ds) (\<lambda>ancestors.
                    let new_prefix = ancestors @ '','' @ show_int (ud_id c);
                        saved = dept_update tenant_id (me_clock env) (changed ancestors) ds
                    in bind_result
                         (rewrite_children tenant_id (me_clock env) old_prefix new_prefix descendants (snd saved))
                         (\<lambda>ds'. Inr (fst saved, ds')))
             else Inr (dept_update tenant_id (me_clock env) (changed (dp_ancestors current)) ds))"

definition dept_update_command ::
  "mutation_env \<Rightarrow> string option \<Rightarrow> string \<Rightarrow> UpdateDeptCommand \<Rightarrow> org_db \<Rightarrow> dept app_result \<times> org_db" where
  "dept_update_command env ctx actor_tenant c db =
     (case validated_tenant_id ctx actor_tenant of
        Inl e \<Rightarrow> (Inl e, db)
      | Inr tenant_id \<Rightarrow>
          if ud_parent_id c = Some (ud_id c) then (Inl (Validation msg_dept_self_parent), db)
          else complete_mutation env tenant_id
            (bind_result (lock_tenant_and_validate_in_txn tenant_id None (me_now env) db) (\<lambda>(_, db1).
             bind_result (dept_update_operation env tenant_id c (org_depts db1))
               (\<lambda>(d, ds). Inr (d, db1\<lparr>org_depts := ds\<rparr>)))) db)"

definition dept_delete_row :: "string \<Rightarrow> timestamp \<Rightarrow> int \<Rightarrow> dept list \<Rightarrow> dept list app_result" where
  "dept_delete_row tenant_id clock i ds =
     (let P = (\<lambda>d. dp_id d = i \<and> dept_live tenant_id d)
      in if rows_matched P ds \<noteq> 1 then Inl (NotFound msg_dept_missing)
         else Inr (update_where P (\<lambda>d. d\<lparr>dp_del_flag := dp_DEL_FLAG_DELETED, dp_updated_at := clock\<rparr>) ds))"

definition dept_delete ::
  "mutation_env \<Rightarrow> string option \<Rightarrow> string \<Rightarrow> int \<Rightarrow> org_db \<Rightarrow> unit app_result \<times> org_db" where
  "dept_delete env ctx actor_tenant i db =
     (case validated_tenant_id ctx actor_tenant of
        Inl e \<Rightarrow> (Inl e, db)
      | Inr tenant_id \<Rightarrow>
          complete_mutation env tenant_id
            (bind_result (lock_tenant_and_validate_in_txn tenant_id None (me_now env) db) (\<lambda>(_, db1).
               if dept_find_by_id tenant_id i (org_depts db1) = None then Inl (NotFound msg_dept_missing)
               else if has_child_for_update tenant_id i (org_depts db1) then Inl (Validation msg_dept_has_child)
               else if has_reference_for_update tenant_id i db1 then Inl (Conflict msg_dept_referenced)
               else bind_result (dept_delete_row tenant_id (me_clock env) i (org_depts db1))
                 (\<lambda>ds. Inr ((), db1\<lparr>org_depts := ds\<rparr>)))) db)"

end
