(* ===== verification/Department_Trees.thy ===== *)
theory Department_Trees
  imports Departments
begin

text \<open>
  The ancestor paths of the departments always describe the parent relation: every command keeps
  them consistent, a department is never its own ancestor, and the text match of the subtree query
  finds exactly the departments below the given one.
\<close>

section \<open>Ancestor paths\<close>

definition path_char :: "char \<Rightarrow> bool" where
  "path_char c \<longleftrightarrow> c = CHR '','' \<or> c = CHR ''-'' \<or> is_ascii_digit c"

lemma show_int_path: "list_all path_char (show_int i)"
  using show_int_chars by (auto simp: list_all_iff path_char_def)

lemma show_int_comma [simp]: "CHR '','' \<notin> set (show_int i)"
  using show_int_chars [of "CHR '',''" i] by (auto simp: is_ascii_digit_def)

lemma like_match_any: "like_match ''%'' s"
  by (auto simp: list_ex_iff)

lemma like_match_literal:
  "list_all path_char p \<Longrightarrow> like_match (p @ ''%'') s \<longleftrightarrow> prefix p s"
proof (induction p arbitrary: s)
  case (Cons c p)
  have "c \<noteq> CHR ''%''" "c \<noteq> CHR ''_''" "c \<noteq> CHR 0x5C"
    using Cons.prems by (auto simp: path_char_def is_ascii_digit_def)
  with Cons show ?case by (cases s) auto
qed (simp add: like_match_any del: like_match.simps(2))

lemma last_segment:
  assumes "d \<notin> set x" "d \<notin> set y"
  shows "xs @ d # x = ys @ d # y \<longleftrightarrow> xs = ys \<and> x = y"
proof
  assume eq: "xs @ d # x = ys @ d # y"
  have t: "takeWhile (\<lambda>c. c \<noteq> d) (rev (zs @ d # z)) = rev z" if "d \<notin> set z" for zs z
    using that by (simp add: takeWhile_append)
  from t [OF assms(1), of xs] t [OF assms(2), of ys] eq have "x = y" by simp
  with eq show "xs = ys \<and> x = y" by simp
qed simp

lemma prefix_segment:
  assumes "d \<notin> set x"
  shows "prefix (q @ [d]) (xs @ d # x) \<longleftrightarrow> q = xs \<or> prefix (q @ [d]) xs"
proof
  assume "prefix (q @ [d]) (xs @ d # x)"
  then obtain r where r: "xs @ d # x = q @ d # r" by (auto simp: prefix_def)
  show "q = xs \<or> prefix (q @ [d]) xs"
  proof (cases "d \<in> set r")
    case False
    with r assms last_segment [of d x r xs q] show ?thesis by simp
  next
    case True
    then obtain r1 r2 where r2: "r = r1 @ d # r2" "d \<notin> set r2" by (meson split_list_last)
    then have "xs @ d # x = (q @ d # r1) @ d # r2" using r by simp
    then have "xs = q @ d # r1" using last_segment [OF assms r2(2)] by blast
    then show ?thesis by (simp add: prefix_def)
  qed
next
  assume "q = xs \<or> prefix (q @ [d]) xs"
  then show "prefix (q @ [d]) (xs @ d # x)" by (auto simp: prefix_def)
qed

section \<open>Well-formed trees\<close>

definition path_ok :: "string \<Rightarrow> dept list \<Rightarrow> dept \<Rightarrow> bool" where
  "path_ok tenant_id ds d \<longleftrightarrow>
     (case dp_parent_id d of
        None \<Rightarrow> dp_ancestors d = ''0''
      | Some p \<Rightarrow> (\<exists>e. dept_find_by_id tenant_id p ds = Some e \<and>
                     dp_ancestors d = dp_ancestors e @ '','' @ show_int p))"

definition tree_ok :: "dept list \<Rightarrow> bool" where
  "tree_ok ds \<longleftrightarrow> unique_key dp_id ds \<and>
     (\<forall>t i d. dept_find_by_id t i ds = Some d \<longrightarrow> path_ok t ds d)"

definition parent_step :: "string \<Rightarrow> dept list \<Rightarrow> int \<Rightarrow> int \<Rightarrow> bool" where
  "parent_step tenant_id ds c p \<longleftrightarrow>
     (\<exists>d. dept_find_by_id tenant_id c ds = Some d \<and> dp_parent_id d = Some p)"

definition dept_below :: "string \<Rightarrow> dept list \<Rightarrow> int \<Rightarrow> int \<Rightarrow> bool" where
  "dept_below tenant_id ds = (parent_step tenant_id ds)\<^sup>+\<^sup>+"

lemma tree_okD:
  assumes "tree_ok ds" "dept_find_by_id t i ds = Some d"
  shows "dp_parent_id d = None \<Longrightarrow> dp_ancestors d = ''0''"
    and "dp_parent_id d = Some p \<Longrightarrow> \<exists>e. dept_find_by_id t p ds = Some e \<and>
      dp_ancestors d = dp_ancestors e @ '','' @ show_int p"
proof -
  have "path_ok t ds d" using assms unfolding tree_ok_def by blast
  then show "dp_parent_id d = None \<Longrightarrow> dp_ancestors d = ''0''"
    and "dp_parent_id d = Some p \<Longrightarrow> \<exists>e. dept_find_by_id t p ds = Some e \<and>
      dp_ancestors d = dp_ancestors e @ '','' @ show_int p"
    by (simp_all only: path_ok_def option.case)
qed

lemma find_dept:
  "dept_find_by_id t i ds = Some d \<Longrightarrow> d \<in> set ds \<and> dp_id d = i \<and> dept_live t d"
  by (auto simp: dept_find_by_id_def dest: row_get_SomeD split: option.splits if_splits)

lemma find_dept_iff:
  "unique_key dp_id ds \<Longrightarrow> dept_find_by_id t i ds = Some d \<longleftrightarrow> d \<in> set ds \<and> dp_id d = i \<and> dept_live t d"
  by (rule iffI, erule find_dept) (auto simp: dept_find_by_id_def unique_row_get)

lemma path_chars:
  assumes ok: "tree_ok ds"
  shows "dept_find_by_id t i ds = Some d \<Longrightarrow> list_all path_char (dp_ancestors d)"
proof (induction "length (dp_ancestors d)" arbitrary: i d rule: less_induct)
  case less
  show ?case
  proof (cases "dp_parent_id d")
    case None
    with tree_okD(1) [OF ok less.prems] show ?thesis by (simp add: path_char_def is_ascii_digit_def)
  next
    case (Some p)
    with tree_okD(2) [OF ok less.prems] obtain e where e: "dept_find_by_id t p ds = Some e"
      "dp_ancestors d = dp_ancestors e @ '','' @ show_int p" by blast
    have "list_all path_char (dp_ancestors e)" using less.hyps [OF _ e(1)] e(2) by simp
    with e(2) show ?thesis by (simp add: show_int_path path_char_def)
  qed
qed

lemma in_subtree_iff:
  assumes "list_all path_char q"
  shows "in_subtree q d \<longleftrightarrow> dp_ancestors d = q \<or> prefix (q @ '','') (dp_ancestors d)"
proof -
  have "list_all path_char (q @ '','')" using assms by (simp add: path_char_def)
  from like_match_literal [OF this] show ?thesis by (simp add: in_subtree_def)
qed

lemma dept_path_chars:
  assumes "tree_ok ds" "dept_find_by_id t a ds = Some d"
  shows "list_all path_char (dp_ancestors d @ '','' @ show_int a)"
  using path_chars [OF assms] by (simp add: show_int_path path_char_def)

theorem subtree_below:
  assumes ok: "tree_ok ds" and d: "dept_find_by_id t a ds = Some d" and e: "dept_find_by_id t c ds = Some e"
  shows "in_subtree (dp_ancestors d @ '','' @ show_int a) e \<longleftrightarrow> dept_below t ds c a"
proof -
  let ?q = "dp_ancestors d @ '','' @ show_int a"
  note iff = in_subtree_iff [OF dept_path_chars [OF ok d]]
  show ?thesis
  proof
    show "in_subtree ?q e \<Longrightarrow> dept_below t ds c a"
      using e
    proof (induction "length (dp_ancestors e)" arbitrary: c e rule: less_induct)
      case less
      have q: "dp_ancestors e = ?q \<or> prefix (?q @ '','') (dp_ancestors e)" using less.prems(1) iff by simp
      then have "CHR '','' \<in> set (dp_ancestors e)" by (auto simp: prefix_def)
      then obtain p where p: "dp_parent_id e = Some p"
        using tree_okD(1) [OF ok less.prems(2)] by (cases "dp_parent_id e") auto
      with tree_okD(2) [OF ok less.prems(2)] obtain ep where ep: "dept_find_by_id t p ds = Some ep"
        "dp_ancestors e = dp_ancestors ep @ '','' @ show_int p" by blast
      have step: "parent_step t ds c p" using less.prems(2) p by (simp add: parent_step_def)
      from q show ?case
      proof
        assume "dp_ancestors e = ?q"
        with ep(2) have "p = a" using last_segment [of "CHR '',''" "show_int p" "show_int a" "dp_ancestors ep" "dp_ancestors d"] by auto
        with step show ?thesis by (auto simp: dept_below_def)
      next
        assume "prefix (?q @ '','') (dp_ancestors e)"
        then have "?q = dp_ancestors ep \<or> prefix (?q @ '','') (dp_ancestors ep)"
          using prefix_segment [of "CHR '',''" "show_int p" ?q "dp_ancestors ep"] ep(2) by simp
        then have sub: "in_subtree ?q ep" unfolding iff by (elim disjE) simp_all
        have "length (dp_ancestors ep) < length (dp_ancestors e)" unfolding ep(2) by simp
        from less.hyps [OF this sub ep(1)] have "dept_below t ds p a" .
        with step show ?thesis unfolding dept_below_def by (rule tranclp_into_tranclp2)
      qed
    qed
  next
    assume "dept_below t ds c a"
    then show "in_subtree ?q e"
      using e unfolding dept_below_def
    proof (induction arbitrary: e rule: converse_tranclp_induct)
      case (base c)
      then have "dp_parent_id e = Some a" by (simp add: parent_step_def)
      from tree_okD(2) [OF ok base.prems this] d have "dp_ancestors e = ?q" by auto
      then show ?case unfolding iff by (rule disjI1)
    next
      case (step c p)
      then have p: "dp_parent_id e = Some p" by (simp add: parent_step_def)
      with tree_okD(2) [OF ok step.prems] obtain ep where ep: "dept_find_by_id t p ds = Some ep"
        "dp_ancestors e = dp_ancestors ep @ '','' @ show_int p" by blast
      from step.IH [OF ep(1)] have "dp_ancestors ep = ?q \<or> prefix (?q @ '','') (dp_ancestors ep)"
        using iff by simp
      with ep(2) have "prefix (?q @ '','') (dp_ancestors e)" by (auto simp: prefix_def)
      then show ?case unfolding iff by (rule disjI2)
    qed
  qed
qed

lemma below_find: "dept_below t ds c a \<Longrightarrow> \<exists>e. dept_find_by_id t c ds = Some e"
  unfolding dept_below_def by (erule converse_tranclpE) (auto simp: parent_step_def)

lemma below_longer:
  assumes ok: "tree_ok ds" and "dept_below t ds c a" "dept_find_by_id t c ds = Some e"
    "dept_find_by_id t a ds = Some d"
  shows "length (dp_ancestors d) < length (dp_ancestors e)"
  using subtree_below [OF ok assms(4,3)] assms(2) in_subtree_iff [OF dept_path_chars [OF ok assms(4)]]
  by (auto simp: prefix_def)

lemma below_irrefl: "tree_ok ds \<Longrightarrow> \<not> dept_below t ds a a"
  using below_longer below_find by blast

lemma find_child_dept_ids_exact:
  assumes ok: "tree_ok ds" and r: "find_child_dept_ids t a ds = Inr ids"
  shows "set ids = {a} \<union> {c. dept_below t ds c a}"
proof -
  obtain d where d: "dept_find_by_id t a ds = Some d" using r by (auto simp: find_child_dept_ids_def split: option.splits)
  have u: "unique_key dp_id ds" using ok by (simp add: tree_ok_def)
  let ?q = "dp_ancestors d @ '','' @ show_int a"
  have ids: "set ids = insert a (dp_id ` {c \<in> set ds. in_subtree ?q c \<and> dept_live t c})"
    using r d by (auto simp: find_child_dept_ids_def)
  have "dp_id ` {c \<in> set ds. in_subtree ?q c \<and> dept_live t c} = {c. dept_below t ds c a}"
  proof (intro set_eqI iffI)
    fix i
    assume "i \<in> dp_id ` {c \<in> set ds. in_subtree ?q c \<and> dept_live t c}"
    then obtain c where "c \<in> set ds" "in_subtree ?q c" "dept_live t c" "i = dp_id c" by blast
    then show "i \<in> {c. dept_below t ds c a}"
      using subtree_below [OF ok d, of "dp_id c" c] find_dept_iff [OF u, of t "dp_id c" c] by simp
  next
    fix i
    assume "i \<in> {c. dept_below t ds c a}"
    then have b: "dept_below t ds i a" by simp
    then obtain e where e: "dept_find_by_id t i ds = Some e" using below_find by blast
    with b subtree_below [OF ok d e] find_dept [OF e]
    show "i \<in> dp_id ` {c \<in> set ds. in_subtree ?q c \<and> dept_live t c}" by blast
  qed
  with ids show ?thesis by simp
qed

section \<open>Moving a subtree\<close>

lemma rewrite_children_get:
  assumes "rewrite_children t clk op np cs ds = Inr ds'" "unique_key dp_id ds" "distinct (map dp_id cs)"
    and "dp_id ` set cs \<subseteq> dp_id ` set ds"
  shows "unique_key dp_id ds' \<and> dp_id ` set ds' = dp_id ` set ds \<and> (\<forall>c \<in> set cs. prefix op (dp_ancestors c)) \<and>
    (\<forall>i. row_get dp_id i ds' =
      (case find (\<lambda>c. dp_id c = i) cs of
         Some c \<Rightarrow> Some (c\<lparr>dp_ancestors := np @ drop (length op) (dp_ancestors c), dp_tenant_id := t,
                         dp_del_flag := dp_DEL_FLAG_NORMAL, dp_updated_at := clk\<rparr>)
       | None \<Rightarrow> row_get dp_id i ds))"
  using assms
proof (induction cs arbitrary: ds)
  case (Cons c cs)
  from Cons.prems(1) have pre: "prefix op (dp_ancestors c)"
    and rest: "rewrite_children t clk op np cs
        (snd (dept_update t clk (c\<lparr>dp_ancestors := np @ drop (length op) (dp_ancestors c)\<rparr>) ds)) = Inr ds'"
    by (auto simp: rewrite_descendant_ancestors_def strip_prefix_def split: if_splits)
  let ?c = "c\<lparr>dp_ancestors := np @ drop (length op) (dp_ancestors c), dp_tenant_id := t,
      dp_del_flag := dp_DEL_FLAG_NORMAL, dp_updated_at := clk\<rparr>"
  have put: "snd (dept_update t clk (c\<lparr>dp_ancestors := np @ drop (length op) (dp_ancestors c)\<rparr>) ds) = row_put dp_id ?c ds"
    by (simp add: dept_update_def Let_def)
  have u: "unique_key dp_id (row_put dp_id ?c ds)" using Cons.prems(2) by simp
  have keys: "dp_id ` set (row_put dp_id ?c ds) = dp_id ` set ds" by simp
  have IH: "unique_key dp_id ds' \<and> dp_id ` set ds' = dp_id ` set (row_put dp_id ?c ds) \<and>
    (\<forall>c \<in> set cs. prefix op (dp_ancestors c)) \<and>
    (\<forall>i. row_get dp_id i ds' =
      (case find (\<lambda>c. dp_id c = i) cs of
         Some c \<Rightarrow> Some (c\<lparr>dp_ancestors := np @ drop (length op) (dp_ancestors c), dp_tenant_id := t,
                         dp_del_flag := dp_DEL_FLAG_NORMAL, dp_updated_at := clk\<rparr>)
       | None \<Rightarrow> row_get dp_id i (row_put dp_id ?c ds)))"
    by (rule Cons.IH [OF rest [unfolded put] u]) (use Cons.prems(3,4) keys in auto)
  have "dp_id x \<noteq> dp_id c" if "x \<in> set cs" for x
    using Cons.prems(3) that by (metis distinct.simps(2) imageI list.map(2) set_map)
  then have fresh: "find (\<lambda>x. dp_id x = dp_id c) cs = None"
    by (simp add: find_None_iff)
  have "dp_id c \<in> dp_id ` set ds" using Cons.prems(4) by auto
  then obtain old where old: "row_get dp_id (dp_id c) ds = Some old"
    using row_get_None_iff [of dp_id "dp_id c" ds] by (cases "row_get dp_id (dp_id c) ds") auto
  have get: "row_get dp_id i (row_put dp_id ?c ds) = (if i = dp_id c then Some ?c else row_get dp_id i ds)" for i
    using old by (simp add: row_get_row_put)
  show ?case
  proof (intro conjI allI)
    fix i
    show "row_get dp_id i ds' =
      (case find (\<lambda>c. dp_id c = i) (c # cs) of
         Some c \<Rightarrow> Some (c\<lparr>dp_ancestors := np @ drop (length op) (dp_ancestors c), dp_tenant_id := t,
                         dp_del_flag := dp_DEL_FLAG_NORMAL, dp_updated_at := clk\<rparr>)
       | None \<Rightarrow> row_get dp_id i ds)"
    proof (cases "i = dp_id c")
      case True
      with IH fresh get [of i] show ?thesis by simp
    next
      case False
      with IH get [of i] show ?thesis by (simp split: option.split)
    qed
  qed (use IH pre keys in simp_all)
qed simp

lemma tree_ok_same:
  assumes ok: "tree_ok ds" and u: "unique_key dp_id ds'"
    and same: "\<And>t i. map_option (\<lambda>d. (dp_parent_id d, dp_ancestors d)) (dept_find_by_id t i ds') =
      map_option (\<lambda>d. (dp_parent_id d, dp_ancestors d)) (dept_find_by_id t i ds)"
  shows "tree_ok ds'"
  unfolding tree_ok_def
proof (intro conjI allI impI u)
  fix t i d'
  assume d': "dept_find_by_id t i ds' = Some d'"
  with same [of t i] obtain d where d: "dept_find_by_id t i ds = Some d"
    "dp_parent_id d = dp_parent_id d'" "dp_ancestors d = dp_ancestors d'"
    by (cases "dept_find_by_id t i ds") auto
  show "path_ok t ds' d'"
  proof (cases "dp_parent_id d'")
    case None
    with d tree_okD(1) [OF ok d(1)] show ?thesis by (simp add: path_ok_def)
  next
    case (Some p)
    with d tree_okD(2) [OF ok d(1)] obtain e where e: "dept_find_by_id t p ds = Some e"
      "dp_ancestors d' = dp_ancestors e @ '','' @ show_int p" by auto
    with same [of t p] obtain e' where "dept_find_by_id t p ds' = Some e'" "dp_ancestors e' = dp_ancestors e"
      by (cases "dept_find_by_id t p ds'") auto
    with e Some show ?thesis by (simp add: path_ok_def)
  qed
qed

lemma below_step: "dept_below t ds c a \<Longrightarrow> \<exists>p. parent_step t ds c p \<and> (p = a \<or> dept_below t ds p a)"
  unfolding dept_below_def by (erule converse_tranclpE) blast+

lemma below_intro: "parent_step t ds c p \<Longrightarrow> p = a \<or> dept_below t ds p a \<Longrightarrow> dept_below t ds c a"
  unfolding dept_below_def by (blast intro: tranclp_into_tranclp2)

definition rewritten :: "string \<Rightarrow> timestamp \<Rightarrow> string \<Rightarrow> string \<Rightarrow> dept \<Rightarrow> dept" where
  "rewritten t clk old_prefix new_prefix e =
     e\<lparr>dp_ancestors := new_prefix @ drop (length old_prefix) (dp_ancestors e), dp_tenant_id := t,
       dp_del_flag := dp_DEL_FLAG_NORMAL, dp_updated_at := clk\<rparr>"

lemma find_row: "dept_find_by_id t i ds = Some d \<Longrightarrow> row_get dp_id i ds = Some d"
  by (simp add: dept_find_by_id_def split: option.splits if_splits)

lemma descendants_iff:
  assumes ok: "tree_ok ds" and cur: "dept_find_by_id t a ds = Some cur"
  shows "e \<in> set (find_descendants_for_update t (dp_ancestors cur @ '','' @ show_int a) ds) \<longleftrightarrow>
    dept_find_by_id t (dp_id e) ds = Some e \<and> dept_below t ds (dp_id e) a"
  using subtree_below [OF ok cur, of "dp_id e" e] find_dept_iff [of ds t "dp_id e" e] ok
  by (auto simp: find_descendants_for_update_def tree_ok_def)

lemma distinct_descendants:
  "unique_key dp_id ds \<Longrightarrow> distinct (map dp_id (find_descendants_for_update t q ds))"
proof (rule card_distinct)
  assume "unique_key dp_id ds"
  then have "card (dp_id ` set (find_descendants_for_update t q ds)) =
      length (filter (\<lambda>c. dept_live t c \<and> in_subtree q c) ds)"
    using distinct_card [of "map dp_id (filter (\<lambda>c. dept_live t c \<and> in_subtree q c) ds)"]
    by (simp add: find_descendants_for_update_def unique_key_def distinct_map_filter)
  then show "card (set (map dp_id (find_descendants_for_update t q ds))) =
      length (map dp_id (find_descendants_for_update t q ds))"
    by (simp add: find_descendants_for_update_def)
qed

lemma find_descendant:
  assumes ok: "tree_ok ds" and cur: "dept_find_by_id t a ds = Some cur"
  shows "find (\<lambda>c. dp_id c = i) (find_descendants_for_update t (dp_ancestors cur @ '','' @ show_int a) ds) =
    (if dept_below t ds i a then dept_find_by_id t i ds else None)"
    (is "find _ ?desc = _")
proof (cases "find (\<lambda>c. dp_id c = i) ?desc")
  case None
  then have none: "\<And>c. c \<in> set ?desc \<Longrightarrow> dp_id c \<noteq> i" by (simp add: find_None_iff)
  have "\<not> dept_below t ds i a"
  proof
    assume b: "dept_below t ds i a"
    then obtain e where e: "dept_find_by_id t i ds = Some e" using below_find by blast
    with b descendants_iff [OF ok cur, of e] find_dept [OF e] none [of e] show False by simp
  qed
  with None show ?thesis by simp
next
  case (Some e)
  then have "e \<in> set ?desc" "dp_id e = i" by (auto simp: find_Some_iff)
  with descendants_iff [OF ok cur, of e] Some show ?thesis by simp
qed

lemma move_lookup:
  assumes ok: "tree_ok ds" and cur: "dept_find_by_id t a ds = Some cur"
    and new: "dp_id new = a" "dept_live t new"
    and op: "old_prefix = dp_ancestors cur @ '','' @ show_int a"
    and rew: "rewrite_children t clk old_prefix np (find_descendants_for_update t old_prefix ds)
      (row_put dp_id new ds) = Inr ds'"
  shows "unique_key dp_id ds'" and "dept_find_by_id t' i ds' =
    (if t' = t \<and> dept_below t ds i a then map_option (rewritten t clk old_prefix np) (dept_find_by_id t i ds)
     else if t' = t \<and> i = a then Some new else dept_find_by_id t' i ds)"
proof -
  have u: "unique_key dp_id (row_put dp_id new ds)" using ok by (simp add: tree_ok_def)
  have sub: "dp_id ` set (find_descendants_for_update t old_prefix ds) \<subseteq> dp_id ` set (row_put dp_id new ds)"
    by (auto simp: find_descendants_for_update_def)
  note R = rewrite_children_get [OF rew u distinct_descendants sub]
  show "unique_key dp_id ds'" using R ok by (simp add: tree_ok_def)
  have put: "row_get dp_id i (row_put dp_id new ds) = (if i = a then Some new else row_get dp_id i ds)"
    using find_row [OF cur] new(1) by (simp add: row_get_row_put)
  have get: "row_get dp_id i ds' =
      (if dept_below t ds i a then map_option (rewritten t clk old_prefix np) (dept_find_by_id t i ds)
       else if i = a then Some new else row_get dp_id i ds)"
  proof (cases "dept_below t ds i a")
    case True
    then obtain e where e: "dept_find_by_id t i ds = Some e" using below_find by blast
    with True have "find (\<lambda>c. dp_id c = i) (find_descendants_for_update t old_prefix ds) = Some e"
      unfolding op find_descendant [OF ok cur] by simp
    with R ok True e show ?thesis by (simp add: tree_ok_def rewritten_def)
  next
    case False
    then have "find (\<lambda>c. dp_id c = i) (find_descendants_for_update t old_prefix ds) = None"
      unfolding op find_descendant [OF ok cur] by simp
    with R ok False put show ?thesis by (simp add: tree_ok_def)
  qed
  show "dept_find_by_id t' i ds' =
    (if t' = t \<and> dept_below t ds i a then map_option (rewritten t clk old_prefix np) (dept_find_by_id t i ds)
     else if t' = t \<and> i = a then Some new else dept_find_by_id t' i ds)"
  proof (cases "dept_below t ds i a")
    case True
    then obtain e where e: "dept_find_by_id t i ds = Some e" using below_find by blast
    with True find_dept [OF e] find_row [OF e] show ?thesis
      by (auto simp: dept_find_by_id_def get rewritten_def dept_live_def)
  next
    case False
    with new find_dept [OF cur] find_row [OF cur] show ?thesis
      by (auto simp: dept_find_by_id_def get dept_live_def)
  qed
qed

lemma move_keeps:
  assumes ok: "tree_ok ds" and cur: "dept_find_by_id t a ds = Some cur"
    and op: "old_prefix = dp_ancestors cur @ '','' @ show_int a"
    and np: "np = dp_ancestors new @ '','' @ show_int a"
    and u': "unique_key dp_id ds'"
    and after: "\<And>t' i. dept_find_by_id t' i ds' =
      (if t' = t \<and> dept_below t ds i a then map_option (rewritten t clk old_prefix np) (dept_find_by_id t i ds)
       else if t' = t \<and> i = a then Some new else dept_find_by_id t' i ds)"
    and new: "path_ok t ds new" "\<And>p. dp_parent_id new = Some p \<Longrightarrow> p \<noteq> a \<and> \<not> dept_below t ds p a"
  shows "tree_ok ds'"
  unfolding tree_ok_def
proof (intro conjI allI impI u')
  fix t' i d
  assume d: "dept_find_by_id t' i ds' = Some d"
  have same: "path_ok t' ds' d" if "path_ok t' ds d"
    "\<And>p. dp_parent_id d = Some p \<Longrightarrow> t' \<noteq> t \<or> p \<noteq> a \<and> \<not> dept_below t ds p a"
    using that by (auto simp: path_ok_def after split: option.splits)
  consider (desc) "t' = t" "dept_below t ds i a" | (moved) "t' = t" "i = a" "\<not> dept_below t ds i a"
    | (rest) "t' \<noteq> t \<or> i \<noteq> a \<and> \<not> dept_below t ds i a" by blast
  then show "path_ok t' ds' d"
  proof cases
    case desc
    from below_step [OF desc(2)]
    obtain p where step: "parent_step t ds i p" and p: "p = a \<or> dept_below t ds p a" by blast
    from step obtain e where e: "dept_find_by_id t i ds = Some e" "dp_parent_id e = Some p"
      by (auto simp: parent_step_def)
    from tree_okD(2) [OF ok e] obtain ep where ep: "dept_find_by_id t p ds = Some ep"
      "dp_ancestors e = dp_ancestors ep @ '','' @ show_int p" by blast
    have d': "d = rewritten t clk old_prefix np e" using d desc e(1) by (simp add: after)
    have "\<exists>x. dept_find_by_id t p ds' = Some x \<and> dp_ancestors d = dp_ancestors x @ '','' @ show_int p"
    proof (cases "dept_below t ds p a")
      case True
      then have "prefix old_prefix (dp_ancestors ep)"
        using subtree_below [OF ok cur ep(1)] in_subtree_iff [OF dept_path_chars [OF ok cur]]
        unfolding op by (auto simp: prefix_def)
      then have "dp_ancestors d = dp_ancestors (rewritten t clk old_prefix np ep) @ '','' @ show_int p"
        by (auto simp: d' rewritten_def ep(2) prefix_def)
      with True ep(1) show ?thesis by (simp add: after)
    next
      case False
      with p have "p = a" by blast
      with ep cur have "dp_ancestors e = old_prefix" by (simp add: op)
      then have "dp_ancestors d = np" by (simp add: d' rewritten_def)
      with False \<open>p = a\<close> show ?thesis by (simp add: after np)
    qed
    then show ?thesis using e(2) desc by (simp add: path_ok_def d' rewritten_def)
  next
    case moved
    then have "d = new" using d by (simp add: after)
    with new moved same show ?thesis by simp
  next
    case rest
    then have d0: "dept_find_by_id t' i ds = Some d" using d by (auto simp: after split: if_splits)
    have "path_ok t' ds d" using ok d0 unfolding tree_ok_def by blast
    moreover have "t' \<noteq> t \<or> p \<noteq> a \<and> \<not> dept_below t ds p a" if "dp_parent_id d = Some p" for p
    proof (cases "t' = t")
      case True
      then have "parent_step t ds i p" using d0 that by (simp add: parent_step_def)
      from below_intro [OF this, of a] rest True show ?thesis by blast
    qed simp
    ultimately show ?thesis by (rule same)
  qed
qed

lemma parent_path:
  assumes "parent_ancestors t parent ds = Inr anc" "dp_parent_id d = parent" "dp_ancestors d = anc"
  shows "path_ok t ds d"
  using assms by (cases parent) (auto simp: parent_ancestors_def path_ok_def split: option.splits)

lemma dept_update_operation_ok:
  assumes ok: "tree_ok ds" and self: "ud_parent_id c \<noteq> Some (ud_id c)"
    and r: "dept_update_operation env t c ds = Inr (d', ds')"
  shows "tree_ok ds'"
proof -
  let ?i = "ud_id c" and ?clk = "me_clock env"
  obtain cur where cur: "dept_find_by_id t ?i ds = Some cur"
    using r by (cases "dept_find_by_id t ?i ds") (auto simp: dept_update_operation_def)
  define new where "new anc = cur\<lparr>dp_ancestors := anc, dp_name := ud_name c, dp_parent_id := ud_parent_id c,
    dp_sort := ud_sort c, dp_status := ud_status c, dp_tenant_id := t, dp_del_flag := dp_DEL_FLAG_NORMAL,
    dp_updated_at := ?clk\<rparr>" for anc :: string
  have new: "dp_id (new anc) = ?i" "dept_live t (new anc)" "dp_parent_id (new anc) = ud_parent_id c"
    "dp_ancestors (new anc) = anc" for anc
    using find_dept [OF cur] by (simp_all add: new_def dept_live_def)
  show ?thesis
  proof (cases "dp_parent_id cur = ud_parent_id c")
    case True
    have ds': "ds' = row_put dp_id (new (dp_ancestors cur)) ds"
      using r cur True by (auto simp: dept_update_operation_def dept_update_def Let_def new_def)
    show ?thesis
    proof (rule tree_ok_same [OF ok])
      show "unique_key dp_id ds'" using ok by (simp add: ds' tree_ok_def)
      fix t' i
      show "map_option (\<lambda>d. (dp_parent_id d, dp_ancestors d)) (dept_find_by_id t' i ds') =
        map_option (\<lambda>d. (dp_parent_id d, dp_ancestors d)) (dept_find_by_id t' i ds)"
        using find_dept [OF cur] find_row [OF cur] True new [of "dp_ancestors cur"]
        by (auto simp: dept_find_by_id_def ds' row_get_row_put dept_live_def)
    qed
  next
    case False
    let ?op = "dp_ancestors cur @ '','' @ show_int ?i"
    from r cur False obtain anc where
      nocycle: "\<And>p. ud_parent_id c = Some p \<Longrightarrow> p \<notin> dp_id ` set (find_descendants_for_update t ?op ds)"
      and anc: "parent_ancestors t (ud_parent_id c) ds = Inr anc"
      and rew: "rewrite_children t ?clk ?op (anc @ '','' @ show_int ?i) (find_descendants_for_update t ?op ds)
        (row_put dp_id (new anc) ds) = Inr ds'"
      unfolding dept_update_operation_def dept_update_def Let_def new_def
      by (auto simp: bind_result_eq_Inr list_ex_iff split: if_splits option.splits)
    show ?thesis
    proof (rule move_keeps [OF ok cur refl _ move_lookup [OF ok cur new(1,2) refl rew]])
      show "anc @ '','' @ show_int ?i = dp_ancestors (new anc) @ '','' @ show_int ?i" by (simp add: new(4))
      show "path_ok t ds (new anc)" by (rule parent_path [OF anc new(3,4)])
      fix p
      assume "dp_parent_id (new anc) = Some p"
      then have p: "ud_parent_id c = Some p" by (simp add: new(3))
      with anc obtain ep where ep: "dept_find_by_id t p ds = Some ep"
        by (auto simp: parent_ancestors_def split: option.splits)
      have "ep \<notin> set (find_descendants_for_update t ?op ds)"
        using nocycle [OF p] find_dept [OF ep] by blast
      then show "p \<noteq> ?i \<and> \<not> dept_below t ds p ?i"
        using descendants_iff [OF ok cur, of ep] find_dept [OF ep] ep self p by simp
    qed
  qed
qed

section \<open>Every command keeps the tree\<close>

lemma lock_frame: "lock_tenant_and_validate_in_txn t ow n db = Inr (x, db1) \<Longrightarrow> org_depts db1 = org_depts db"
  unfolding lock_tenant_and_validate_in_txn_def bind_result_eq_Inr
  by (auto simp: delete_lease_def split: option.splits if_splits)

lemma epoch_frame: "increment_tenant_epoch_in_transaction env t db = Inr (x, db1) \<Longrightarrow> org_depts db1 = org_depts db"
  unfolding increment_tenant_epoch_in_transaction_def bind_result_eq_Inr
    increment_authorization_epoch_in_txn_def record_mirror_event_def
  by (auto simp: put_tenant_def bind_result_eq_Inr split: option.splits if_splits)

lemma version_frame: "increment_configuration_version_in_txn t n db = Inr (x, db1) \<Longrightarrow> org_depts db1 = org_depts db"
  by (auto simp: increment_configuration_version_in_txn_def put_tenant_def split: option.splits)

lemma complete_depts:
  assumes "complete_mutation env t op db = (r, db')"
  shows "db' = db \<or> (\<exists>v db1. op = Inr (v, db1) \<and> org_depts db' = org_depts db1)"
  using assms
proof (cases rule: complete_mutationE)
  case refused
  then show ?thesis by blast
next
  case (committed v db1 e db2 w db3)
  from commit_audited_Inr [OF committed(4)] obtain ob where "db' = db3\<lparr>org_outbox := ob\<rparr>" .
  then have "org_depts db' = org_depts db3" by simp
  with committed epoch_frame [OF committed(2)] version_frame [OF committed(3)] show ?thesis by simp
qed

lemma insert_keeps:
  assumes ok: "tree_ok ds" and i: "dp_id d \<notin> dp_id ` set ds" and p: "dept_live t d \<Longrightarrow> path_ok t ds d"
    and t: "\<And>t'. dept_live t' d \<Longrightarrow> t' = t"
  shows "tree_ok (d # ds)"
proof -
  have find: "dept_find_by_id t' i' (d # ds) =
      (if i' = dp_id d then if dept_live t' d then Some d else None else dept_find_by_id t' i' ds)" for t' i'
    by (simp add: dept_find_by_id_def row_get_def)
  have none: "dept_find_by_id t' (dp_id d) ds = None" for t'
    using i by (simp add: dept_find_by_id_def row_get_None_iff [THEN iffD2])
  have keep: "path_ok t' (d # ds) x" if "path_ok t' ds x" for t' x
    using that none by (auto simp: path_ok_def find split: option.splits)
  show ?thesis
    unfolding tree_ok_def
  proof (intro conjI allI impI)
    show "unique_key dp_id (d # ds)"
      using ok i by (simp add: tree_ok_def unique_key_Cons row_get_None_iff)
    fix t' i' x
    assume x: "dept_find_by_id t' i' (d # ds) = Some x"
    show "path_ok t' (d # ds) x"
    proof (cases "i' = dp_id d")
      case True
      with x have "x = d" "dept_live t' d" by (auto simp: find split: if_splits)
      with t p keep show ?thesis by blast
    next
      case False
      with x have "dept_find_by_id t' i' ds = Some x" by (simp add: find)
      with ok have "path_ok t' ds x" unfolding tree_ok_def by blast
      then show ?thesis by (rule keep)
    qed
  qed
qed

lemma delete_keeps:
  assumes ok: "tree_ok ds" and leaf: "\<not> has_child_for_update t i ds" and r: "dept_delete_row t clk i ds = Inr ds'"
  shows "tree_ok ds'"
proof -
  let ?f = "\<lambda>d. d\<lparr>dp_del_flag := dp_DEL_FLAG_DELETED, dp_updated_at := clk\<rparr>"
  let ?P = "\<lambda>d. dp_id d = i \<and> dept_live t d"
  have ds': "ds' = update_where ?P ?f ds" using r by (simp add: dept_delete_row_def Let_def split: if_splits)
  have u': "unique_key dp_id ds'" using ok by (simp add: ds' tree_ok_def unique_key_def map_update_where)
  have get: "row_get dp_id j ds' = map_option (\<lambda>d. if ?P d then ?f d else d) (row_get dp_id j ds)" for j
    unfolding ds' row_get_def by (rule find_update_where) simp
  have find: "dept_find_by_id t' j ds' = (if t' = t \<and> j = i then None else dept_find_by_id t' j ds)" for t' j
    using row_get_SomeD [of dp_id j ds]
    by (cases "row_get dp_id j ds") (auto simp: dept_find_by_id_def get dept_live_def)
  show ?thesis
    unfolding tree_ok_def
  proof (intro conjI allI impI u')
    fix t' j d
    assume "dept_find_by_id t' j ds' = Some d"
    then have d: "dept_find_by_id t' j ds = Some d" "\<not> (t' = t \<and> j = i)" by (auto simp: find split: if_splits)
    have "path_ok t' ds d" using ok d(1) unfolding tree_ok_def by blast
    moreover have "\<not> (t' = t \<and> dp_parent_id d = Some i)"
      using leaf find_dept [OF d(1)] by (auto simp: has_child_for_update_def list_ex_iff)
    ultimately show "path_ok t' ds' d" by (auto simp: path_ok_def find split: option.splits)
  qed
qed

inductive dept_step :: "org_db \<Rightarrow> org_db \<Rightarrow> bool" where
  d_create: "dept_create env ctx actor next_id fill_id c db = (r, db') \<Longrightarrow> dept_step db db'"
| d_update: "dept_update_command env ctx actor c db = (r, db') \<Longrightarrow> dept_step db db'"
| d_delete: "dept_delete env ctx actor i db = (r, db') \<Longrightarrow> dept_step db db'"
| d_other: "org_depts db' = org_depts db \<Longrightarrow> dept_step db db'"

lemma dept_create_ok:
  assumes ok: "tree_ok (org_depts db)" and r: "dept_create env ctx actor next_id fill_id c db = (r, db')"
  shows "tree_ok (org_depts db')"
proof (cases "validated_tenant_id ctx actor")
  case (Inl e)
  with r ok show ?thesis by (simp add: dept_create_def)
next
  case (Inr t)
  from complete_depts [OF r [unfolded dept_create_def Inr sum.case]] show ?thesis
  proof
    assume "\<exists>v db1. bind_result (lock_tenant_and_validate_in_txn t None (me_now env) db) (\<lambda>(_, db1).
             bind_result (parent_ancestors t (cd_parent_id c) (org_depts db1)) (\<lambda>ancestors.
             bind_result next_id (\<lambda>i.
             bind_result
               (dept_insert t fill_id (me_clock env)
                  \<lparr>dp_id = i, dp_tenant_id = t, dp_name = cd_name c, dp_parent_id = cd_parent_id c,
                   dp_ancestors = ancestors, dp_sort = cd_sort c, dp_status = dp_STATUS_NORMAL,
                   dp_remark = None, dp_del_flag = dp_DEL_FLAG_NORMAL, dp_created_at = 0,
                   dp_updated_at = 0\<rparr> (org_depts db1))
               (\<lambda>(d, ds). Inr (d, db1\<lparr>org_depts := ds\<rparr>))))) = Inr (v, db1) \<and> org_depts db' = org_depts db1"
    then obtain x db1 anc i d ds where
      lock: "lock_tenant_and_validate_in_txn t None (me_now env) db = Inr (x, db1)"
      and anc: "parent_ancestors t (cd_parent_id c) (org_depts db1) = Inr anc"
      and ins: "dept_insert t fill_id (me_clock env)
                  \<lparr>dp_id = i, dp_tenant_id = t, dp_name = cd_name c, dp_parent_id = cd_parent_id c,
                   dp_ancestors = anc, dp_sort = cd_sort c, dp_status = dp_STATUS_NORMAL,
                   dp_remark = None, dp_del_flag = dp_DEL_FLAG_NORMAL, dp_created_at = 0,
                   dp_updated_at = 0\<rparr> (org_depts db1) = Inr (d, ds)"
      and db': "org_depts db' = ds"
      unfolding bind_result_eq_Inr by (auto simp: bind_result_eq_Inr)
    have ds: "ds = d # org_depts db1" "dp_id d \<notin> dp_id ` set (org_depts db1)"
        "dp_parent_id d = cd_parent_id c" "dp_ancestors d = anc" "dp_tenant_id d = t"
      using ins by (auto simp: dept_insert_def bind_result_eq_Inr Let_def split: if_splits)
    have "tree_ok (org_depts db1)" using ok lock_frame [OF lock] by simp
    then show ?thesis
      unfolding db' ds(1) by (rule insert_keeps [where t = t])
        (use ds parent_path [OF anc ds(3,4)] in \<open>auto simp: dept_live_def\<close>)
  qed (use ok in simp)
qed

lemma dept_update_command_ok:
  assumes ok: "tree_ok (org_depts db)" and r: "dept_update_command env ctx actor c db = (r, db')"
  shows "tree_ok (org_depts db')"
proof (cases "validated_tenant_id ctx actor")
  case (Inl e)
  with r ok show ?thesis by (simp add: dept_update_command_def)
next
  case (Inr t)
  show ?thesis
  proof (cases "ud_parent_id c = Some (ud_id c)")
    case True
    with r ok Inr show ?thesis by (simp add: dept_update_command_def)
  next
    case False
    note body = r [unfolded dept_update_command_def Inr sum.case if_not_P [OF False]]
    from complete_depts [OF body] show ?thesis
    proof
      assume "\<exists>v db1. bind_result (lock_tenant_and_validate_in_txn t None (me_now env) db) (\<lambda>(_, db1).
             bind_result (dept_update_operation env t c (org_depts db1))
               (\<lambda>(d, ds). Inr (d, db1\<lparr>org_depts := ds\<rparr>))) = Inr (v, db1) \<and> org_depts db' = org_depts db1"
      then obtain x db1 d ds where
        lock: "lock_tenant_and_validate_in_txn t None (me_now env) db = Inr (x, db1)"
        and op: "dept_update_operation env t c (org_depts db1) = Inr (d, ds)" and db': "org_depts db' = ds"
        unfolding bind_result_eq_Inr by (auto simp: bind_result_eq_Inr)
      have "tree_ok (org_depts db1)" using ok lock_frame [OF lock] by simp
      from dept_update_operation_ok [OF this False op] db' show ?thesis by simp
    qed (use ok in simp)
  qed
qed

lemma dept_delete_ok:
  assumes ok: "tree_ok (org_depts db)" and r: "dept_delete env ctx actor i db = (r, db')"
  shows "tree_ok (org_depts db')"
proof (cases "validated_tenant_id ctx actor")
  case (Inl e)
  with r ok show ?thesis by (simp add: dept_delete_def)
next
  case (Inr t)
  from complete_depts [OF r [unfolded dept_delete_def Inr sum.case]] show ?thesis
  proof (elim disjE exE conjE)
    fix v db1'
    assume body: "bind_result (lock_tenant_and_validate_in_txn t None (me_now env) db) (\<lambda>(_, db1).
               if dept_find_by_id t i (org_depts db1) = None then Inl (NotFound msg_dept_missing)
               else if has_child_for_update t i (org_depts db1) then Inl (Validation msg_dept_has_child)
               else if has_reference_for_update t i db1 then Inl (Conflict msg_dept_referenced)
               else bind_result (dept_delete_row t (me_clock env) i (org_depts db1))
                 (\<lambda>ds. Inr ((), db1\<lparr>org_depts := ds\<rparr>))) = Inr (v, db1')"
      and db': "org_depts db' = org_depts db1'"
    then obtain x db1 ds where
      lock: "lock_tenant_and_validate_in_txn t None (me_now env) db = Inr (x, db1)"
      and leaf: "\<not> has_child_for_update t i (org_depts db1)"
      and del: "dept_delete_row t (me_clock env) i (org_depts db1) = Inr ds" and "org_depts db1' = ds"
      unfolding bind_result_eq_Inr by (auto simp: bind_result_eq_Inr split: if_splits)
    moreover have "tree_ok (org_depts db1)" using ok lock_frame [OF lock] by simp
    ultimately show ?thesis using delete_keeps [OF _ leaf del] db' by simp
  qed (use ok in simp)
qed

lemma dept_step_ok: "dept_step db db' \<Longrightarrow> tree_ok (org_depts db) \<Longrightarrow> tree_ok (org_depts db')"
  by (induction rule: dept_step.induct) (auto dest: dept_create_ok dept_update_command_ok dept_delete_ok)

lemma dept_steps_ok: "dept_step\<^sup>*\<^sup>* db db' \<Longrightarrow> tree_ok (org_depts db) \<Longrightarrow> tree_ok (org_depts db')"
  by (induction rule: rtranclp_induct) (auto intro: dept_step_ok)
section \<open>Properties\<close>

text \<open>The departments of the baseline migration.\<close>

definition seed_dept :: "timestamp \<Rightarrow> int \<Rightarrow> string \<Rightarrow> int option \<Rightarrow> string \<Rightarrow> int \<Rightarrow> dept" where
  "seed_dept now i name parent ancestors position =
     \<lparr>dp_id = i, dp_tenant_id = ''system'', dp_name = name, dp_parent_id = parent, dp_ancestors = ancestors,
      dp_sort = position, dp_status = dp_STATUS_NORMAL, dp_remark = None, dp_del_flag = dp_DEL_FLAG_NORMAL,
      dp_created_at = now, dp_updated_at = now\<rparr>"

definition seed_depts :: "timestamp \<Rightarrow> dept list" where
  "seed_depts now =
     [seed_dept now 1 (utf8 [82, 121, 70, 114, 97, 109, 101, 32, 31185, 25216]) None ''0'' 1,
      seed_dept now 2 (utf8 [30740, 21457, 37096]) (Some 1) ''0,1'' 1,
      seed_dept now 3 (utf8 [20135, 21697, 37096]) (Some 1) ''0,1'' 2,
      seed_dept now 4 (utf8 [36816, 32500, 37096]) (Some 1) ''0,1'' 3,
      seed_dept now 5 (utf8 [21518, 31471, 32452]) (Some 2) ''0,1,2'' 1,
      seed_dept now 6 (utf8 [21069, 31471, 32452]) (Some 2) ''0,1,2'' 2]"

lemma seed_ids: "unique_key dp_id (seed_depts now)"
  by (simp add: seed_depts_def seed_dept_def unique_key_def)

lemma seed_tree: "tree_ok (seed_depts now)"
  unfolding tree_ok_def
proof (intro conjI allI impI seed_ids)
  fix t i d
  assume d: "dept_find_by_id t i (seed_depts now) = Some d"
  then have "dept_live t d" "d \<in> set (seed_depts now)" by (auto dest: find_dept)
  then have t: "t = ''system''" and d_in: "d \<in> set (seed_depts now)" by (auto simp: seed_depts_def seed_dept_def dept_live_def)
  have ids: "dept_find_by_id ''system'' 1 (seed_depts now) = Some (seed_dept now 1 (utf8 [82, 121, 70, 114, 97, 109, 101, 32, 31185, 25216]) None ''0'' 1)"
    "dept_find_by_id ''system'' 2 (seed_depts now) = Some (seed_dept now 2 (utf8 [30740, 21457, 37096]) (Some 1) ''0,1'' 1)"
    by (simp_all add: dept_find_by_id_def row_get_def seed_depts_def seed_dept_def dept_live_def)
  have "show_int 1 = ''1''" by code_simp
  moreover have "show_int 2 = ''2''" by code_simp
  ultimately show "path_ok t (seed_depts now) d"
    using d_in ids unfolding t by (simp add: seed_depts_def) (elim disjE; simp add: seed_dept_def path_ok_def)
qed

text \<open>The seeded tenant, and the seeded department 2 moved under department 3.\<close>

definition seed_org :: org_db where
  "seed_org = sample_org\<lparr>org_depts := seed_depts 0\<rparr>"

definition sample_move :: UpdateDeptCommand where
  "sample_move = \<lparr>ud_id = 2, ud_name = ''rd'', ud_parent_id = Some 3, ud_sort = 1, ud_status = ''1''\<rparr>"

definition moved_org :: org_db where
  "moved_org = snd (dept_update_command sample_env None ''system'' sample_move seed_org)"

lemma moved_step: "dept_step\<^sup>*\<^sup>* seed_org moved_org"
proof -
  have "dept_step seed_org moved_org"
    unfolding moved_org_def by (rule d_update [OF prod.collapse [symmetric]])
  then show ?thesis by blast
qed

lemma seed_org_tree: "tree_ok (org_depts seed_org)"
  by (simp add: seed_org_def seed_tree)

text \<open>
  C15. The departments of every tenant stay a forest with exact paths. From any database in which every
  live department's stored path is its parent's path followed by its parent, no sequence of department
  commands (creating, renaming, moving a whole subtree, deleting, refused or failing ones included)
  leaves that state: identifiers stay unique, every path describes the chain of live parents, and no
  department is below itself.
\<close>

theorem departments_stay_trees:
  assumes "tree_ok (org_depts db0)" and "dept_step\<^sup>*\<^sup>* db0 db"
  shows "tree_ok (org_depts db) \<and> \<not> dept_below t (org_depts db) i i"
  using dept_steps_ok [OF assms(2,1)] below_irrefl by blast

lemma departments_stay_trees_witness:
  "tree_ok (org_depts moved_org) \<and> \<not> dept_below ''system'' (org_depts moved_org) 2 2 \<and>
   map (\<lambda>d. (dp_id d, dp_ancestors d)) (org_depts moved_org) =
     [(1, ''0''), (2, ''0,1,3''), (3, ''0,1''), (4, ''0,1''), (5, ''0,1,3,2''), (6, ''0,1,3,2'')]"
proof -
  have "map (\<lambda>d. (dp_id d, dp_ancestors d)) (org_depts moved_org) =
     [(1, ''0''), (2, ''0,1,3''), (3, ''0,1''), (4, ''0,1''), (5, ''0,1,3,2''), (6, ''0,1,3,2'')]"
    by code_simp
  with departments_stay_trees [OF seed_org_tree moved_step, of "''system''" 2] show ?thesis by blast
qed

text \<open>
  C31. The text search for a subtree is exact. In every database that department commands reach from a
  consistent one, \<open>find_child_dept_ids\<close>, which compares ancestor paths as text with \<open>LIKE\<close>, returns
  the department itself and precisely the live departments of the tenant whose chain of parents
  reaches it: no department with a similar number, none of another tenant, none deleted.
\<close>

theorem subtree_exact:
  assumes "tree_ok (org_depts db0)" and "dept_step\<^sup>*\<^sup>* db0 db"
    and "find_child_dept_ids t a (org_depts db) = Inr ids"
  shows "set ids = {a} \<union> {c. dept_below t (org_depts db) c a}"
  using dept_steps_ok [OF assms(2,1)] assms(3) by (rule find_child_dept_ids_exact)

lemma subtree_exact_witness: "{3, 2, 5, 6} = {3} \<union> {c. dept_below ''system'' (org_depts moved_org) c 3}"
proof -
  have "find_child_dept_ids ''system'' 3 (org_depts moved_org) = Inr [3, 2, 5, 6]" by code_simp
  from subtree_exact [OF seed_org_tree moved_step this] show ?thesis by simp
qed

end
