(* ===== verification/Data_Scope.thy ===== *)
theory Data_Scope
  imports Department_Trees
begin

text \<open>
  Row-level visibility. A role has one of five scopes; the scopes of a user's roles are resolved
  against the departments and merged into one context
  (\<open>ryframe-kernel/src/data_scope.rs\<close>, \<open>ryframe-application/src/authorization_resolver.rs\<close>), and
  every query over users or over rows owned by users turns the context into a filter
  (\<open>user_repo.rs\<close>, \<open>ryframe-db/src/data_scope.rs\<close>, \<open>system/dept/queries.rs\<close>). A filter is a
  predicate on the rows of a database; the reads of one resolution see one database.
\<close>

section \<open>Scopes\<close>

datatype DataScope = DS_All | DS_Custom | DS_Dept | DS_DeptAndChildren | DS_SelfOnly

definition from_db_value :: "string \<Rightarrow> DataScope" where
  "from_db_value value =
     (if value = ''1'' then DS_All else if value = ''2'' then DS_Custom
      else if value = ''3'' then DS_Dept else if value = ''4'' then DS_DeptAndChildren
      else DS_SelfOnly)"

definition to_db_value :: "DataScope \<Rightarrow> string" where
  "to_db_value s =
     (case s of DS_All \<Rightarrow> ''1'' | DS_Custom \<Rightarrow> ''2'' | DS_Dept \<Rightarrow> ''3'' | DS_DeptAndChildren \<Rightarrow> ''4''
      | DS_SelfOnly \<Rightarrow> ''5'')"

lemma from_to_db_value [simp]: "from_db_value (to_db_value s) = s"
  by (cases s) (simp_all add: from_db_value_def to_db_value_def)

record DataScopeContext =
  sc_scope :: DataScope
  sc_user_id :: int
  sc_dept_id :: "int option"
  sc_ancestors :: "string option"
  sc_custom_dept_ids :: "int list"
  sc_include_self :: bool

definition super_admin :: "int \<Rightarrow> DataScopeContext" where
  "super_admin user_id =
     \<lparr>sc_scope = DS_All, sc_user_id = user_id, sc_dept_id = None, sc_ancestors = None,
      sc_custom_dept_ids = [], sc_include_self = False\<rparr>"

definition build_sql_condition :: "string \<Rightarrow> string \<Rightarrow> DataScopeContext \<Rightarrow> string option" where
  "build_sql_condition dept_alias user_id_col c =
     (let nothing = ''1 = 0'';
          self = user_id_col @ '' = '' @ show_int (sc_user_id c)
      in case sc_scope c of
           DS_All \<Rightarrow> None
         | DS_SelfOnly \<Rightarrow> Some self
         | DS_Dept \<Rightarrow>
             (case sc_dept_id c of Some d \<Rightarrow> Some (dept_alias @ '' = '' @ show_int d) | None \<Rightarrow> Some nothing)
         | DS_DeptAndChildren \<Rightarrow>
             (case sc_dept_id c of
                Some d \<Rightarrow>
                  Some (dept_alias @ '' IN (SELECT id FROM sys_dept WHERE id = '' @ show_int d @
                    '' OR ancestors LIKE CONCAT((SELECT ancestors FROM sys_dept WHERE id = '' @ show_int d @
                    ''), '' @ [CHR 0x27] @ '','' @ show_int d @ ''%'' @ [CHR 0x27] @ ''))'')
              | None \<Rightarrow> Some nothing)
         | DS_Custom \<Rightarrow>
             if sc_custom_dept_ids c = [] \<and> \<not> sc_include_self c then Some nothing
             else
               let ids = map show_int (sc_custom_dept_ids c);
                   depts = dept_alias @ '' IN ('' @ join_with '','' ids @ '')''
               in if ids \<noteq> [] \<and> sc_include_self c then Some (''('' @ depts @ '' OR '' @ self @ '')'')
                  else if ids \<noteq> [] then Some depts
                  else Some self)"

definition scope_dept_ids :: "DataScopeContext \<Rightarrow> int list" where
  "scope_dept_ids c =
     (case sc_scope c of
        DS_Custom \<Rightarrow> sc_custom_dept_ids c
      | DS_DeptAndChildren \<Rightarrow> sc_custom_dept_ids c
      | DS_Dept \<Rightarrow> (case sc_dept_id c of Some d \<Rightarrow> [d] | None \<Rightarrow> [])
      | DS_All \<Rightarrow> [] | DS_SelfOnly \<Rightarrow> [])"

definition merge :: "DataScopeContext list \<Rightarrow> DataScopeContext" where
  "merge scopes =
     (case scopes of
        [] \<Rightarrow> \<lparr>sc_scope = DS_SelfOnly, sc_user_id = 0, sc_dept_id = None, sc_ancestors = None,
               sc_custom_dept_ids = [], sc_include_self = True\<rparr>
      | first # _ \<Rightarrow>
          if list_ex (\<lambda>c. sc_scope c = DS_All) scopes then super_admin (sc_user_id first)
          else
            let ids = sort_dedup (concat (map scope_dept_ids scopes))
            in \<lparr>sc_scope = (if ids = [] then DS_SelfOnly else DS_Custom), sc_user_id = sc_user_id first,
                sc_dept_id = sc_dept_id first, sc_ancestors = sc_ancestors first,
                sc_custom_dept_ids = ids,
                sc_include_self = list_ex (\<lambda>c. sc_scope c = DS_SelfOnly) scopes\<rparr>)"

section \<open>Resolving the roles of a user\<close>

record IdentityUserRecord =
  iu_id :: int
  iu_tenant_id :: string
  iu_username :: string
  iu_password_hash :: string
  iu_nickname :: string
  iu_email :: string
  iu_phone :: string
  iu_avatar :: "string option"
  iu_preferred_locale :: "string option"
  iu_status :: string
  iu_authorization_version :: int
  iu_dept_id :: "int option"

record IdentityRoleRecord =
  ir_id :: int
  ir_code :: string
  ir_is_super :: bool
  ir_data_scope :: string

definition to_user :: "user \<Rightarrow> IdentityUserRecord" where
  "to_user u =
     \<lparr>iu_id = us_id u, iu_tenant_id = us_tenant_id u, iu_username = us_username u,
      iu_password_hash = us_password_hash u, iu_nickname = us_nickname u, iu_email = us_email u,
      iu_phone = us_phone u, iu_avatar = us_avatar u, iu_preferred_locale = us_preferred_locale u,
      iu_status = us_status u, iu_authorization_version = us_authorization_version u,
      iu_dept_id = us_dept_id u\<rparr>"

definition user_role_ids :: "string \<Rightarrow> int \<Rightarrow> org_db \<Rightarrow> int list" where
  "user_role_ids tenant_id user_id db =
     map ur_role_id (filter (\<lambda>r. ur_user_id r = user_id \<and> ur_tenant_id r = tenant_id) (org_user_roles db))"

definition find_user_roles :: "string \<Rightarrow> int \<Rightarrow> org_db \<Rightarrow> role list" where
  "find_user_roles tenant_id user_id db =
     (let ids = user_role_ids tenant_id user_id db
      in if ids = [] then []
         else filter (\<lambda>r. ro_id r \<in> set ids \<and> ro_del_flag r = ro_DEL_FLAG_NORMAL \<and>
                ro_tenant_id r = tenant_id \<and> ro_status r = ro_STATUS_NORMAL) (org_roles db))"

definition identity_roles :: "string \<Rightarrow> int \<Rightarrow> org_db \<Rightarrow> IdentityRoleRecord list" where
  "identity_roles tenant_id user_id db =
     map (\<lambda>r. \<lparr>ir_id = ro_id r, ir_code = ro_code r, ir_is_super = (ro_is_super r = 1),
               ir_data_scope = ro_data_scope r\<rparr>) (find_user_roles tenant_id user_id db)"

definition find_roles_dept_ids :: "string \<Rightarrow> int list \<Rightarrow> org_db \<Rightarrow> int list" where
  "find_roles_dept_ids tenant_id role_ids db =
     (if role_ids = [] then []
      else sort_dedup (map rd_dept_id
        (filter (\<lambda>x. rd_role_id x \<in> set role_ids \<and> rd_tenant_id x = tenant_id) (org_role_depts db))))"

definition has_super_admin_role :: "IdentityRoleRecord list \<Rightarrow> bool" where
  "has_super_admin_role roles = list_ex ir_is_super roles"

fun role_contexts ::
  "string \<Rightarrow> IdentityUserRecord \<Rightarrow> string option \<Rightarrow> int list \<Rightarrow> org_db \<Rightarrow> IdentityRoleRecord list \<Rightarrow>
   DataScopeContext list app_result" where
  "role_contexts tenant_id user ancestors custom_ids db [] = Inr []"
| "role_contexts tenant_id user ancestors custom_ids db (role # roles) =
     (let scope = from_db_value (ir_data_scope role)
      in bind_result
           (case scope of
              DS_Custom \<Rightarrow> Inr custom_ids
            | DS_Dept \<Rightarrow> Inr (case iu_dept_id user of Some d \<Rightarrow> [d] | None \<Rightarrow> [])
            | DS_DeptAndChildren \<Rightarrow>
                (case iu_dept_id user of
                   Some d \<Rightarrow> find_child_dept_ids tenant_id d (org_depts db)
                 | None \<Rightarrow> Inr [])
            | DS_All \<Rightarrow> Inr [] | DS_SelfOnly \<Rightarrow> Inr [])
           (\<lambda>ids. bind_result (role_contexts tenant_id user ancestors custom_ids db roles) (\<lambda>cs.
              Inr (\<lparr>sc_scope = scope, sc_user_id = iu_id user, sc_dept_id = iu_dept_id user,
                    sc_ancestors = ancestors, sc_custom_dept_ids = ids, sc_include_self = False\<rparr> # cs))))"

definition resolve_data_scope ::
  "string \<Rightarrow> IdentityUserRecord \<Rightarrow> IdentityRoleRecord list \<Rightarrow> org_db \<Rightarrow> DataScopeContext app_result" where
  "resolve_data_scope tenant_id user roles db =
     (if list_ex ir_is_super roles then Inr (super_admin (iu_id user))
      else
        let ancestors = Option.bind (iu_dept_id user) (\<lambda>d.
              map_option dp_ancestors (dept_find_by_id tenant_id d (org_depts db)));
            custom_role_ids = map ir_id
              (filter (\<lambda>r. from_db_value (ir_data_scope r) = DS_Custom) roles);
            custom_ids = find_roles_dept_ids tenant_id custom_role_ids db
        in bind_result (role_contexts tenant_id user ancestors custom_ids db roles) (\<lambda>scopes.
             if scopes = [] then
               Inr \<lparr>sc_scope = DS_SelfOnly, sc_user_id = iu_id user, sc_dept_id = iu_dept_id user,
                    sc_ancestors = ancestors, sc_custom_dept_ids = [], sc_include_self = True\<rparr>
             else Inr (merge scopes)))"

section \<open>Filters\<close>

text \<open>The users of a tenant, and the filters of the user list. No query is sent for \<open>None\<close>.\<close>

definition base_select :: "string \<Rightarrow> user \<Rightarrow> bool" where
  "base_select tenant_id u \<longleftrightarrow> us_del_flag u = us_DEL_FLAG_NORMAL \<and> us_tenant_id u = tenant_id"

definition ancestors_mention :: "int \<Rightarrow> dept \<Rightarrow> bool" where
  "ancestors_mention i e \<longleftrightarrow>
     dp_ancestors e = show_int i \<or>
     like_match (show_int i @ '',%'') (dp_ancestors e) \<or>
     like_match (''%,'' @ show_int i @ '',%'') (dp_ancestors e) \<or>
     like_match (''%,'' @ show_int i) (dp_ancestors e)"

definition apply_data_scope :: "string \<Rightarrow> DataScopeContext \<Rightarrow> org_db \<Rightarrow> (user \<Rightarrow> bool) option" where
  "apply_data_scope tenant_id c db =
     (case sc_scope c of
        DS_All \<Rightarrow> Some (\<lambda>u. True)
      | DS_SelfOnly \<Rightarrow> Some (\<lambda>u. us_id u = sc_user_id c)
      | DS_Dept \<Rightarrow> map_option (\<lambda>d u. us_dept_id u = Some d) (sc_dept_id c)
      | DS_DeptAndChildren \<Rightarrow>
          map_option (\<lambda>d u. us_dept_id u = Some d \<or>
            list_ex (\<lambda>e. us_dept_id u = Some (dp_id e) \<and> dept_live tenant_id e \<and> ancestors_mention d e)
              (org_depts db)) (sc_dept_id c)
      | DS_Custom \<Rightarrow>
          if sc_custom_dept_ids c = [] \<and> \<not> sc_include_self c then None
          else Some (\<lambda>u.
            (sc_custom_dept_ids c \<noteq> [] \<and> us_dept_id u \<in> Some ` set (sc_custom_dept_ids c)) \<or>
            (sc_include_self c \<and> us_id u = sc_user_id c)))"

definition scoped_users :: "string \<Rightarrow> DataScopeContext \<Rightarrow> org_db \<Rightarrow> user list" where
  "scoped_users tenant_id c db =
     (case apply_data_scope tenant_id c db of
        None \<Rightarrow> []
      | Some P \<Rightarrow> filter P (filter (base_select tenant_id) (org_users db)))"

text \<open>Rows owned by a user identifier. A condition \<open>None\<close> does not restrict the query.\<close>

definition base_user_ids :: "string \<Rightarrow> (user \<Rightarrow> bool) \<Rightarrow> org_db \<Rightarrow> int list" where
  "base_user_ids tenant_id P db =
     map us_id (filter (\<lambda>u. us_tenant_id u = tenant_id \<and> us_del_flag u = us_DEL_FLAG_NORMAL \<and> P u) (org_users db))"

definition owner_in_departments ::
  "string \<Rightarrow> int list \<Rightarrow> bool \<Rightarrow> DataScopeContext \<Rightarrow> org_db \<Rightarrow> int \<Rightarrow> bool" where
  "owner_in_departments tenant_id dept_ids include_self c db owner \<longleftrightarrow>
     (dept_ids \<noteq> [] \<and> owner \<in> set (base_user_ids tenant_id (\<lambda>u. us_dept_id u \<in> Some ` set dept_ids) db)) \<or>
     (include_self \<and> owner = sc_user_id c)"

definition owner_id_condition :: "string \<Rightarrow> DataScopeContext \<Rightarrow> org_db \<Rightarrow> (int \<Rightarrow> bool) option" where
  "owner_id_condition tenant_id c db =
     (case sc_scope c of
        DS_All \<Rightarrow> None
      | DS_SelfOnly \<Rightarrow> Some (\<lambda>owner. owner = sc_user_id c)
      | DS_Dept \<Rightarrow>
          Some (case sc_dept_id c of
                  Some d \<Rightarrow> owner_in_departments tenant_id [d] False c db
                | None \<Rightarrow> (\<lambda>_. False))
      | DS_DeptAndChildren \<Rightarrow>
          Some (case sc_dept_id c of
                  Some d \<Rightarrow> (\<lambda>owner. owner \<in> set (base_user_ids tenant_id (\<lambda>u.
                    list_ex (\<lambda>e. us_dept_id u = Some (dp_id e) \<and> dept_live tenant_id e \<and>
                      (dp_id e = d \<or> ancestors_mention d e)) (org_depts db)) db))
                | None \<Rightarrow> (\<lambda>_. False))
      | DS_Custom \<Rightarrow> Some (owner_in_departments tenant_id (sc_custom_dept_ids c) (sc_include_self c) c db))"

text \<open>Rows that record the user name; the departments of this subquery include deleted ones.\<close>

definition base_user_names :: "string \<Rightarrow> (user \<Rightarrow> bool) \<Rightarrow> org_db \<Rightarrow> string list" where
  "base_user_names tenant_id P db =
     map us_username (filter (\<lambda>u. us_tenant_id u = tenant_id \<and> us_del_flag u = us_DEL_FLAG_NORMAL \<and> P u) (org_users db))"

definition owner_username_condition :: "string \<Rightarrow> DataScopeContext \<Rightarrow> org_db \<Rightarrow> (string \<Rightarrow> bool) option" where
  "owner_username_condition tenant_id c db =
     (let names = (\<lambda>P. Some (\<lambda>owner. owner \<in> set (base_user_names tenant_id P db)));
          nothing = Some (\<lambda>_. False)
      in case sc_scope c of
           DS_All \<Rightarrow> None
         | DS_SelfOnly \<Rightarrow> names (\<lambda>u. us_id u = sc_user_id c)
         | DS_Dept \<Rightarrow>
             (case sc_dept_id c of Some d \<Rightarrow> names (\<lambda>u. us_dept_id u = Some d) | None \<Rightarrow> nothing)
         | DS_DeptAndChildren \<Rightarrow>
             (case sc_dept_id c of
                Some d \<Rightarrow> names (\<lambda>u. list_ex (\<lambda>e. us_dept_id u = Some (dp_id e) \<and> dp_tenant_id e = tenant_id \<and>
                  (dp_id e = d \<or> ancestors_mention d e)) (org_depts db))
              | None \<Rightarrow> nothing)
         | DS_Custom \<Rightarrow>
             if sc_custom_dept_ids c = [] \<and> \<not> sc_include_self c then nothing
             else names (\<lambda>u. (sc_custom_dept_ids c \<noteq> [] \<and> us_dept_id u \<in> Some ` set (sc_custom_dept_ids c)) \<or>
                             (sc_include_self c \<and> us_id u = sc_user_id c)))"

text \<open>The departments a user may see in the department views; \<open>None\<close> is all of them.\<close>

definition visible_dept_ids :: "string \<Rightarrow> DataScopeContext \<Rightarrow> dept list \<Rightarrow> int list option app_result" where
  "visible_dept_ids tenant_id c ds =
     (let own = (case sc_dept_id c of Some d \<Rightarrow> [d] | None \<Rightarrow> [])
      in case sc_scope c of
           DS_All \<Rightarrow> Inr None
         | DS_Custom \<Rightarrow> Inr (Some (sc_custom_dept_ids c))
         | DS_Dept \<Rightarrow> Inr (Some own)
         | DS_SelfOnly \<Rightarrow> Inr (Some own)
         | DS_DeptAndChildren \<Rightarrow>
             (case sc_dept_id c of
                Some d \<Rightarrow> bind_result (find_child_dept_ids tenant_id d ds) (\<lambda>ids. Inr (Some ids))
              | None \<Rightarrow> Inr (Some [])))"

end
