(* ===== verification/Effective_Scope.thy ===== *)
theory Effective_Scope
  imports Data_Scope
begin

text \<open>
  What the scope filters select: the text match on ancestor paths is the parent relation, the merged
  scope of a user shows exactly what the roles grant, and the three filters of the repositories agree.
\<close>

section \<open>Paths as lists of segments\<close>

lemma split_on_append: "split_on d (u @ d # v) = split_on d u @ split_on d v"
proof (induction u)
  case (Cons c u)
  then show ?case by (cases "split_on d u") simp_all
qed simp

lemma split_on_single: "d \<notin> set x \<Longrightarrow> split_on d x = [x]"
  by (induction x) auto

lemma join_with_append: "ps \<noteq> [] \<Longrightarrow> qs \<noteq> [] \<Longrightarrow> join_with sep (ps @ qs) = join_with sep ps @ sep @ join_with sep qs"
proof (induction ps)
  case (Cons p ps)
  then show ?case by (cases ps; cases qs) simp_all
qed simp

lemma segment_iff:
  assumes "d \<notin> set x"
  shows "x \<in> set (split_on d a) \<longleftrightarrow> a = x \<or> (\<exists>v. a = x @ d # v) \<or> (\<exists>u v. a = u @ d # x @ d # v) \<or> (\<exists>u. a = u @ d # x)"
proof
  assume "x \<in> set (split_on d a)"
  then obtain ps qs where s: "split_on d a = ps @ x # qs" by (meson split_list)
  have j: "a = join_with [d] (ps @ x # qs)" using join_split [of d a] s by simp
  have "join_with [d] (x # qs) = (if qs = [] then x else x @ d # join_with [d] qs)" by (cases qs) simp_all
  moreover have "a = (if ps = [] then join_with [d] (x # qs) else join_with [d] ps @ d # join_with [d] (x # qs))"
    using j join_with_append [of ps "x # qs" "[d]"] by simp
  ultimately show "a = x \<or> (\<exists>v. a = x @ d # v) \<or> (\<exists>u v. a = u @ d # x @ d # v) \<or> (\<exists>u. a = u @ d # x)"
    by (cases "ps = []"; cases "qs = []") auto
next
  assume "a = x \<or> (\<exists>v. a = x @ d # v) \<or> (\<exists>u v. a = u @ d # x @ d # v) \<or> (\<exists>u. a = u @ d # x)"
  then show "x \<in> set (split_on d a)"
    using split_on_single [OF assms] by (auto simp: split_on_append)
qed

lemma like_match_exact: "list_all path_char p \<Longrightarrow> like_match p s \<longleftrightarrow> s = p"
proof (induction p arbitrary: s)
  case (Cons c p)
  have "c \<noteq> CHR ''%''" "c \<noteq> CHR ''_''" "c \<noteq> CHR 0x5C"
    using Cons.prems by (auto simp: path_char_def is_ascii_digit_def)
  with Cons show ?case by (cases s) auto
qed simp

lemma like_match_percent: "like_match (CHR ''%'' # p) s \<longleftrightarrow> (\<exists>u v. s = u @ v \<and> like_match p v)"
proof
  assume "like_match (CHR ''%'' # p) s"
  then have "\<exists>k \<in> set [0 ..< Suc (length s)]. like_match p (drop k s)"
    by (simp add: list_ex_iff del: upt_Suc set_upt)
  then obtain k where "like_match p (drop k s)" by blast
  then show "\<exists>u v. s = u @ v \<and> like_match p v" by (metis append_take_drop_id)
next
  assume "\<exists>u v. s = u @ v \<and> like_match p v"
  then obtain u v where s: "s = u @ v" and m: "like_match p v" by blast
  then have "length u \<in> set [0 ..< Suc (length s)]" "like_match p (drop (length u) s)" by auto
  then show "like_match (CHR ''%'' # p) s" by (auto simp: list_ex_iff simp del: set_upt)
qed

lemma ancestors_mention_iff:
  "ancestors_mention i e \<longleftrightarrow> show_int i \<in> set (split_on CHR '','' (dp_ancestors e))"
proof -
  let ?x = "show_int i" and ?a = "dp_ancestors e"
  have c: "list_all path_char (?x @ '','')" "list_all path_char (CHR '','' # ?x @ '','')" "list_all path_char (CHR '','' # ?x)"
    by (simp_all add: show_int_path path_char_def)
  have 1: "like_match (?x @ '',%'') ?a \<longleftrightarrow> (\<exists>v. ?a = ?x @ CHR '','' # v)"
    using like_match_literal [OF c(1), of ?a] by (auto simp: prefix_def)
  have 2: "like_match (''%,'' @ ?x @ '',%'') ?a \<longleftrightarrow> (\<exists>u v. ?a = u @ CHR '','' # ?x @ CHR '','' # v)"
    using like_match_percent [of "(CHR '','' # ?x @ '','') @ ''%''" ?a] like_match_literal [OF c(2)]
    by (auto simp: prefix_def)
  have 3: "like_match (''%,'' @ ?x) ?a \<longleftrightarrow> (\<exists>u. ?a = u @ CHR '','' # ?x)"
    using like_match_percent [of "CHR '','' # ?x" ?a] like_match_exact [OF c(3)] by auto
  show ?thesis
    unfolding ancestors_mention_def 1 2 3 using segment_iff [OF show_int_comma, of i ?a] by simp
qed

lemma split_ancestors:
  assumes ok: "tree_ok ds" and e: "dept_find_by_id t c ds = Some e"
  shows "dp_parent_id e = None \<Longrightarrow> split_on CHR '','' (dp_ancestors e) = [''0'']"
    and "dp_parent_id e = Some p \<Longrightarrow> dept_find_by_id t p ds = Some ep \<Longrightarrow>
      split_on CHR '','' (dp_ancestors e) = split_on CHR '','' (dp_ancestors ep) @ [show_int p]"
  using tree_okD [OF ok e] by (auto simp: split_on_append split_on_single)

lemma segment_below:
  assumes ok: "tree_ok ds" and e: "dept_find_by_id t c ds = Some e"
  shows "show_int d \<in> set (split_on CHR '','' (dp_ancestors e)) \<longleftrightarrow> d = 0 \<or> dept_below t ds c d"
  using e
proof (induction "length (dp_ancestors e)" arbitrary: c e rule: less_induct)
  case less
  have z: "show_int 0 = ''0''" by code_simp
  show ?case
  proof (cases "dp_parent_id e")
    case None
    have "\<not> dept_below t ds c d"
      using below_step [of t ds c d] less.prems None by (auto simp: parent_step_def)
    with split_ancestors(1) [OF ok less.prems None] show ?thesis by (simp flip: z)
  next
    case (Some p)
    with tree_okD(2) [OF ok less.prems] obtain ep where ep: "dept_find_by_id t p ds = Some ep"
      "dp_ancestors e = dp_ancestors ep @ '','' @ show_int p" by blast
    have "length (dp_ancestors ep) < length (dp_ancestors e)" unfolding ep(2) by simp
    note IH = less.hyps [OF this ep(1)]
    have step: "parent_step t ds c p" using less.prems Some by (simp add: parent_step_def)
    have only: "q = p" if "parent_step t ds c q" for q using that less.prems Some by (simp add: parent_step_def)
    have "dept_below t ds c d \<longleftrightarrow> p = d \<or> dept_below t ds p d"
      using below_step [of t ds c d] below_intro [OF step, of d] only by blast
    then show ?thesis
      unfolding split_ancestors(2) [OF ok less.prems Some ep(1)] using IH by auto
  qed
qed

lemma mention_below:
  assumes "tree_ok ds" "dept_find_by_id t c ds = Some e" "d \<noteq> 0"
  shows "ancestors_mention d e \<longleftrightarrow> dept_below t ds c d"
  using segment_below [OF assms(1,2)] assms(3) by (simp add: ancestors_mention_iff)


section \<open>What the roles of a user grant\<close>

definition role_departments :: "string \<Rightarrow> org_db \<Rightarrow> IdentityUserRecord \<Rightarrow> IdentityRoleRecord \<Rightarrow> int set" where
  "role_departments t db user r =
     (case from_db_value (ir_data_scope r) of
        DS_Custom \<Rightarrow> rd_dept_id ` {x \<in> set (org_role_depts db). rd_role_id x = ir_id r \<and> rd_tenant_id x = t}
      | DS_Dept \<Rightarrow> set_option (iu_dept_id user)
      | DS_DeptAndChildren \<Rightarrow>
          {e. \<exists>d. iu_dept_id user = Some d \<and> (e = d \<or> dept_below t (org_depts db) e d)}
      | DS_All \<Rightarrow> {} | DS_SelfOnly \<Rightarrow> {})"

definition role_grants :: "string \<Rightarrow> org_db \<Rightarrow> IdentityUserRecord \<Rightarrow> IdentityRoleRecord \<Rightarrow> user \<Rightarrow> bool" where
  "role_grants t db user r u \<longleftrightarrow>
     ir_is_super r \<or> from_db_value (ir_data_scope r) = DS_All \<or>
     (from_db_value (ir_data_scope r) = DS_SelfOnly \<and> us_id u = iu_id user) \<or>
     us_dept_id u \<in> Some ` role_departments t db user r"

definition context_of :: "string \<Rightarrow> org_db \<Rightarrow> IdentityUserRecord \<Rightarrow> int list \<Rightarrow> IdentityRoleRecord \<Rightarrow> DataScopeContext \<Rightarrow> bool" where
  "context_of t db user custom_ids r c \<longleftrightarrow>
     sc_scope c = from_db_value (ir_data_scope r) \<and> sc_user_id c = iu_id user \<and>
     set (scope_dept_ids c) =
       (if sc_scope c = DS_Custom then set custom_ids else role_departments t db user r)"

lemma role_contexts_of:
  assumes ok: "tree_ok (org_depts db)"
  shows "role_contexts t user anc custom_ids db roles = Inr cs \<Longrightarrow> list_all2 (context_of t db user custom_ids) roles cs"
proof (induction roles arbitrary: cs)
  case (Cons r roles)
  let ?s = "from_db_value (ir_data_scope r)"
  from Cons.prems obtain ids cs' where
    ids: "(case ?s of DS_Custom \<Rightarrow> Inr custom_ids
            | DS_Dept \<Rightarrow> Inr (case iu_dept_id user of Some d \<Rightarrow> [d] | None \<Rightarrow> [])
            | DS_DeptAndChildren \<Rightarrow>
                (case iu_dept_id user of Some d \<Rightarrow> find_child_dept_ids t d (org_depts db) | None \<Rightarrow> Inr [])
            | DS_All \<Rightarrow> Inr [] | DS_SelfOnly \<Rightarrow> Inr []) = Inr ids"
    and rest: "role_contexts t user anc custom_ids db roles = Inr cs'"
    and cs: "cs = \<lparr>sc_scope = ?s, sc_user_id = iu_id user, sc_dept_id = iu_dept_id user,
                    sc_ancestors = anc, sc_custom_dept_ids = ids, sc_include_self = False\<rparr> # cs'"
    by (auto simp: Let_def bind_result_eq_Inr)
  have "context_of t db user custom_ids r (hd cs)"
    using ids find_child_dept_ids_exact [OF ok, of t]
    by (cases ?s) (auto simp: cs context_of_def scope_dept_ids_def role_departments_def split: option.splits)
  with Cons.IH [OF rest] cs show ?case by simp
qed simp

lemma custom_departments:
  "set (find_roles_dept_ids t (map ir_id (filter (\<lambda>r. from_db_value (ir_data_scope r) = DS_Custom) roles)) db) =
     (\<Union>r \<in> {r \<in> set roles. from_db_value (ir_data_scope r) = DS_Custom}. role_departments t db user r)"
  by (auto simp: find_roles_dept_ids_def role_departments_def filter_empty_conv)

lemma merged_departments:
  assumes "list_all2 (context_of t db user custom_ids) roles cs"
    and "set custom_ids = (\<Union>r \<in> {r \<in> set roles. from_db_value (ir_data_scope r) = DS_Custom}. role_departments t db user r)"
  shows "set (concat (map scope_dept_ids cs)) = (\<Union>r \<in> set roles. role_departments t db user r)"
proof -
  have 1: "set (concat (map scope_dept_ids cs)) =
      (\<Union>r \<in> set roles. if from_db_value (ir_data_scope r) = DS_Custom then set custom_ids else role_departments t db user r)"
    using assms(1) by (induction rule: list_all2_induct) (auto simp: context_of_def)
  show ?thesis unfolding 1 assms(2) by auto
qed

lemma contexts_scopes:
  assumes "list_all2 (context_of t db user custom_ids) roles cs"
  shows "list_ex (\<lambda>c. sc_scope c = s) cs \<longleftrightarrow> (\<exists>r \<in> set roles. from_db_value (ir_data_scope r) = s)"
    and "cs \<noteq> [] \<Longrightarrow> sc_user_id (hd cs) = iu_id user" and "cs = [] \<longleftrightarrow> roles = []"
  using assms by (induction rule: list_all2_induct) (auto simp: context_of_def)

lemma scoped_users_iff:
  "u \<in> set (scoped_users t c db) \<longleftrightarrow>
     u \<in> set (org_users db) \<and> base_select t u \<and> (\<exists>P. apply_data_scope t c db = Some P \<and> P u)"
  by (cases "apply_data_scope t c db") (auto simp: scoped_users_def)

definition merged_shows :: "DataScopeContext \<Rightarrow> user \<Rightarrow> bool" where
  "merged_shows c u \<longleftrightarrow> sc_scope c = DS_All \<or>
     (sc_scope c = DS_SelfOnly \<and> us_id u = sc_user_id c) \<or>
     (sc_scope c = DS_Custom \<and>
       (us_dept_id u \<in> Some ` set (sc_custom_dept_ids c) \<or> sc_include_self c \<and> us_id u = sc_user_id c))"

lemma merge_shows:
  assumes "cs \<noteq> []" and "\<And>c. c \<in> set cs \<Longrightarrow> sc_user_id c = i"
  shows "merged_shows (merge cs) u \<longleftrightarrow> list_ex (\<lambda>c. sc_scope c = DS_All) cs \<or>
     us_dept_id u \<in> Some ` set (concat (map scope_dept_ids cs)) \<or>
     ((list_ex (\<lambda>c. sc_scope c = DS_SelfOnly) cs \<or> set (concat (map scope_dept_ids cs)) = {}) \<and> us_id u = i)"
proof -
  obtain c cs' where cs: "cs = c # cs'" using assms(1) by (cases cs) auto
  have i: "sc_user_id c = i" using assms(2) cs by simp
  let ?ids = "concat (map scope_dept_ids cs)"
  have m: "merge cs = (if list_ex (\<lambda>c. sc_scope c = DS_All) cs then super_admin (sc_user_id c) else
     \<lparr>sc_scope = (if sort_dedup ?ids = [] then DS_SelfOnly else DS_Custom), sc_user_id = sc_user_id c,
      sc_dept_id = sc_dept_id c, sc_ancestors = sc_ancestors c, sc_custom_dept_ids = sort_dedup ?ids,
      sc_include_self = list_ex (\<lambda>c. sc_scope c = DS_SelfOnly) cs\<rparr>)"
    by (simp only: merge_def cs list.case Let_def)
  show ?thesis
  proof (cases "list_ex (\<lambda>c. sc_scope c = DS_All) cs")
    case True
    then show ?thesis by (simp add: m merged_shows_def super_admin_def)
  next
    case False
    then have f: "list_ex (\<lambda>c. sc_scope c = DS_All) cs = False" by simp
    show ?thesis
    proof (cases "?ids = []")
      case True
      then show ?thesis unfolding m f merged_shows_def by (simp add: i)
    next
      case False
      then have "set ?ids \<noteq> {}" by (simp only: set_empty) simp
      with False show ?thesis
        unfolding m f merged_shows_def by (simp add: i) blast
    qed
  qed
qed

lemma shown_is_merged:
  "sc_scope c \<in> {DS_All, DS_SelfOnly, DS_Custom} \<Longrightarrow>
     u \<in> set (scoped_users t c db) \<longleftrightarrow> u \<in> set (org_users db) \<and> base_select t u \<and> merged_shows c u"
  by (auto simp: scoped_users_iff apply_data_scope_def merged_shows_def)

lemma resolved_kind:
  "resolve_data_scope t user roles db = Inr c \<Longrightarrow> sc_scope c \<in> {DS_All, DS_SelfOnly, DS_Custom}"
  by (auto simp: resolve_data_scope_def bind_result_eq_Inr super_admin_def merge_def Let_def split: if_splits list.splits)


section \<open>Properties\<close>

text \<open>
  C16. A user sees exactly what the roles grant. When the scope of a user with the given roles is
  resolved against consistent departments, the rows the user list shows are those of live users of
  the tenant that some role grants: a super or all-data role every row, a custom role the departments
  recorded for that role, a department role the user's department, a department-and-below role the
  user's department and all departments whose chain of parents reaches it, a self role the user's own
  row. The one addition is the user's own row when no role yields any department.
\<close>

theorem effective_scope_exact:
  assumes ok: "tree_ok (org_depts db)" and r: "resolve_data_scope t user roles db = Inr c"
  shows "u \<in> set (scoped_users t c db) \<longleftrightarrow>
    u \<in> set (org_users db) \<and> base_select t u \<and>
    ((\<exists>r \<in> set roles. role_grants t db user r u) \<or>
     ((\<Union>r \<in> set roles. role_departments t db user r) = {} \<and> us_id u = iu_id user))"
proof -
  have shown: "merged_shows c u \<longleftrightarrow> (\<exists>r \<in> set roles. role_grants t db user r u) \<or>
     ((\<Union>r \<in> set roles. role_departments t db user r) = {} \<and> us_id u = iu_id user)"
  proof (cases "list_ex ir_is_super roles")
    case True
    then have "\<exists>r \<in> set roles. role_grants t db user r u" by (auto simp: list_ex_iff role_grants_def)
    moreover have "c = super_admin (iu_id user)" using r True by (simp add: resolve_data_scope_def)
    ultimately show ?thesis by (simp add: merged_shows_def super_admin_def)
  next
    case False
    let ?ids = "find_roles_dept_ids t (map ir_id (filter (\<lambda>r. from_db_value (ir_data_scope r) = DS_Custom) roles)) db"
    from r False obtain anc cs where cs: "role_contexts t user anc ?ids db roles = Inr cs"
      and c: "c = (if cs = [] then \<lparr>sc_scope = DS_SelfOnly, sc_user_id = iu_id user, sc_dept_id = iu_dept_id user,
                    sc_ancestors = anc, sc_custom_dept_ids = [], sc_include_self = True\<rparr> else merge cs)"
      by (auto simp: resolve_data_scope_def Let_def bind_result_eq_Inr split: if_splits)
    note of_roles = role_contexts_of [OF ok cs]
    have users: "sc_user_id x = iu_id user" if "x \<in> set cs" for x
      using of_roles that by (induction rule: list_all2_induct) (auto simp: context_of_def)
    show ?thesis
    proof (cases "cs = []")
      case True
      with contexts_scopes(3) [OF of_roles] c show ?thesis by (simp add: merged_shows_def)
    next
      case nonempty: False
      have deps: "set (concat (map scope_dept_ids cs)) = (\<Union>r \<in> set roles. role_departments t db user r)"
        by (rule merged_departments [OF of_roles custom_departments])
      have "merged_shows c u \<longleftrightarrow> (\<exists>r \<in> set roles. from_db_value (ir_data_scope r) = DS_All) \<or>
         us_dept_id u \<in> Some ` (\<Union>r \<in> set roles. role_departments t db user r) \<or>
         (((\<exists>r \<in> set roles. from_db_value (ir_data_scope r) = DS_SelfOnly) \<or>
           (\<Union>r \<in> set roles. role_departments t db user r) = {}) \<and> us_id u = iu_id user)"
        using merge_shows [OF nonempty users, of u] c nonempty
        unfolding deps contexts_scopes(1) [OF of_roles] by simp
      also have "\<dots> \<longleftrightarrow> (\<exists>r \<in> set roles. role_grants t db user r u) \<or>
         ((\<Union>r \<in> set roles. role_departments t db user r) = {} \<and> us_id u = iu_id user)"
        using False unfolding role_grants_def list_ex_iff by blast
      finally show ?thesis .
    qed
  qed
  then show ?thesis by (simp only: shown_is_merged [OF resolved_kind [OF r]])
qed

text \<open>The seeded departments with an administrator in department 5 and a developer in department 2.\<close>

definition sample_user :: "int \<Rightarrow> string \<Rightarrow> int option \<Rightarrow> user" where
  "sample_user i name d =
     \<lparr>us_id = i, us_tenant_id = ''system'', us_username = name, us_password_hash = [], us_nickname = name,
      us_email = [], us_phone = [], us_avatar = None, us_avatar_file_id = None,
      us_preferred_locale = None, us_status = us_STATUS_NORMAL, us_authorization_version = 0,
      us_dept_id = d, us_remark = None, us_login_ip = None, us_login_date = None,
      us_del_flag = us_DEL_FLAG_NORMAL, us_created_at = 0, us_updated_at = 0\<rparr>"

definition staff_org :: org_db where
  "staff_org = seed_org\<lparr>org_users := [sample_user 1 ''admin'' (Some 5), sample_user 2 ''dev'' (Some 2), sample_user 3 ''ops'' (Some 4)],
     org_role_depts := [\<lparr>rd_tenant_id = ''system'', rd_role_id = 9, rd_dept_id = 4\<rparr>]\<rparr>"

definition staff_roles :: "IdentityRoleRecord list" where
  "staff_roles = [\<lparr>ir_id = 8, ir_code = ''lead'', ir_is_super = False, ir_data_scope = ''4''\<rparr>,
                  \<lparr>ir_id = 9, ir_code = ''audit'', ir_is_super = False, ir_data_scope = ''2''\<rparr>]"

definition staff_scope :: DataScopeContext where
  "staff_scope = \<lparr>sc_scope = DS_Custom, sc_user_id = 2, sc_dept_id = Some 2, sc_ancestors = Some ''0,1'',
     sc_custom_dept_ids = [2, 4, 5, 6], sc_include_self = False\<rparr>"

lemma staff_tree: "tree_ok (org_depts staff_org)"
  by (simp add: staff_org_def seed_org_tree)

lemma staff_resolved:
  "resolve_data_scope ''system'' (to_user (sample_user 2 ''dev'' (Some 2))) staff_roles staff_org = Inr staff_scope"
  by code_simp

lemma effective_scope_exact_witness:
  "map us_id (scoped_users ''system'' staff_scope staff_org) = [1, 2, 3] \<and>
   (\<exists>r \<in> set staff_roles. role_grants ''system'' staff_org (to_user (sample_user 2 ''dev'' (Some 2))) r (sample_user 1 ''admin'' (Some 5)))"
proof -
  have all: "map us_id (scoped_users ''system'' staff_scope staff_org) = [1, 2, 3]" by code_simp
  have "sample_user 1 ''admin'' (Some 5) \<in> set (scoped_users ''system'' staff_scope staff_org)" by code_simp
  with effective_scope_exact [OF staff_tree staff_resolved, of "sample_user 1 ''admin'' (Some 5)"]
  have "(\<exists>r \<in> set staff_roles. role_grants ''system'' staff_org (to_user (sample_user 2 ''dev'' (Some 2))) r (sample_user 1 ''admin'' (Some 5)))"
    by (simp add: to_user_def sample_user_def)
  with all show ?thesis by blast
qed


definition owner_allowed :: "('a \<Rightarrow> bool) option \<Rightarrow> 'a \<Rightarrow> bool" where
  "owner_allowed c owner = (case c of None \<Rightarrow> True | Some P \<Rightarrow> P owner)"

definition staff_ok :: "string \<Rightarrow> org_db \<Rightarrow> bool" where
  "staff_ok t db \<longleftrightarrow> unique_key us_id (org_users db) \<and>
     unique_key (\<lambda>u. (us_tenant_id u, us_username u)) (org_users db) \<and>
     list_all (\<lambda>u. base_select t u \<longrightarrow>
       (case us_dept_id u of None \<Rightarrow> True | Some d \<Rightarrow> dept_find_by_id t d (org_depts db) \<noteq> None)) (org_users db)"

lemma same_user_id:
  assumes "staff_ok t db" "u \<in> set (org_users db)" "base_select t u"
  shows "us_id u \<in> set (base_user_ids t P db) \<longleftrightarrow> P u"
    and "us_username u \<in> set (base_user_names t P db) \<longleftrightarrow> P u"
proof -
  have b: "us_id u \<in> set (base_user_ids t P db) \<longleftrightarrow> (\<exists>v \<in> set (org_users db). us_id v = us_id u \<and> base_select t v \<and> P v)"
    "us_username u \<in> set (base_user_names t P db) \<longleftrightarrow>
      (\<exists>v \<in> set (org_users db). us_username v = us_username u \<and> base_select t v \<and> P v)"
    unfolding base_user_ids_def base_user_names_def base_select_def set_map set_filter image_iff by fastforce+
  have keys: "unique_key us_id (org_users db)" "unique_key (\<lambda>u. (us_tenant_id u, us_username u)) (org_users db)"
    using assms(1) unfolding staff_ok_def by blast+
  have "v = u" if "v \<in> set (org_users db)" "us_id v = us_id u" for v
    using unique_keyD [OF keys(1) that(1) assms(2) that(2)] .
  then show "us_id u \<in> set (base_user_ids t P db) \<longleftrightarrow> P u" unfolding b using assms(2,3) by blast
  have "v = u" if "v \<in> set (org_users db)" "us_username v = us_username u" "base_select t v" for v
    using unique_keyD [OF keys(2) that(1) assms(2)] that(2,3) assms(3) by (simp add: base_select_def)
  then show "us_username u \<in> set (base_user_names t P db) \<longleftrightarrow> P u" unfolding b using assms(2,3) by blast
qed

lemma own_department:
  assumes "tree_ok (org_depts db)" "staff_ok t db" "u \<in> set (org_users db)" "base_select t u" "us_dept_id u = Some d"
  obtains e where "dept_find_by_id t d (org_depts db) = Some e"
    and "\<And>x. x \<in> set (org_depts db) \<Longrightarrow> dp_id x = d \<Longrightarrow> x = e"
    and "e \<in> set (org_depts db)" "dp_id e = d" "dept_live t e"
proof -
  have "dept_find_by_id t d (org_depts db) \<noteq> None"
    using assms(2-5) by (auto simp: staff_ok_def list_all_iff)
  then obtain e where e: "dept_find_by_id t d (org_depts db) = Some e" by blast
  have "x = e" if "x \<in> set (org_depts db)" "dp_id x = d" for x
    using assms(1) find_dept [OF e] that unique_keyD [of dp_id "org_depts db" x e] by (simp add: tree_ok_def)
  with that [OF e] find_dept [OF e] show thesis by blast
qed

lemma department_matches:
  assumes ok: "tree_ok (org_depts db)" "staff_ok t db" "u \<in> set (org_users db)" "base_select t u"
  shows "list_ex (\<lambda>e. us_dept_id u = Some (dp_id e) \<and> dept_live t e \<and> Q e) (org_depts db) \<longleftrightarrow>
      (\<exists>d e. us_dept_id u = Some d \<and> dept_find_by_id t d (org_depts db) = Some e \<and> Q e)"
    and "list_ex (\<lambda>e. us_dept_id u = Some (dp_id e) \<and> dp_tenant_id e = t \<and> Q e) (org_depts db) \<longleftrightarrow>
      (\<exists>d e. us_dept_id u = Some d \<and> dept_find_by_id t d (org_depts db) = Some e \<and> Q e)"
proof -
  have "(list_ex (\<lambda>e. us_dept_id u = Some (dp_id e) \<and> dept_live t e \<and> Q e) (org_depts db) \<longleftrightarrow>
      (\<exists>d e. us_dept_id u = Some d \<and> dept_find_by_id t d (org_depts db) = Some e \<and> Q e)) \<and>
    (list_ex (\<lambda>e. us_dept_id u = Some (dp_id e) \<and> dp_tenant_id e = t \<and> Q e) (org_depts db) \<longleftrightarrow>
      (\<exists>d e. us_dept_id u = Some d \<and> dept_find_by_id t d (org_depts db) = Some e \<and> Q e))"
  proof (cases "us_dept_id u")
    case (Some d)
    from own_department [OF ok Some] obtain e where e: "dept_find_by_id t d (org_depts db) = Some e"
      "\<And>x. x \<in> set (org_depts db) \<Longrightarrow> dp_id x = d \<Longrightarrow> x = e"
      "e \<in> set (org_depts db)" "dp_id e = d" "dept_live t e" by blast
    have "(\<exists>x \<in> set (org_depts db). d = dp_id x \<and> R x) \<longleftrightarrow> R e" for R using e(2-4) by blast
    moreover have "dp_tenant_id e = t" using e(5) by (simp add: dept_live_def)
    ultimately show ?thesis using e(1,5) Some by (simp add: list_ex_iff)
  qed (simp add: list_ex_iff)
  then show "list_ex (\<lambda>e. us_dept_id u = Some (dp_id e) \<and> dept_live t e \<and> Q e) (org_depts db) \<longleftrightarrow>
      (\<exists>d e. us_dept_id u = Some d \<and> dept_find_by_id t d (org_depts db) = Some e \<and> Q e)"
    and "list_ex (\<lambda>e. us_dept_id u = Some (dp_id e) \<and> dp_tenant_id e = t \<and> Q e) (org_depts db) \<longleftrightarrow>
      (\<exists>d e. us_dept_id u = Some d \<and> dept_find_by_id t d (org_depts db) = Some e \<and> Q e)" by blast+
qed

text \<open>
  C32. The three filters of the repositories agree. Whatever the scope of the caller, a live user of the
  tenant is in the user list exactly when rows owned by that user's identifier are visible and when
  rows that carry that user's name are visible, provided user identifiers and names are unique and
  users belong to live departments. For a department-and-below scope all three are the users of the
  department and of the departments whose chain of parents reaches it, although each query matches
  the ancestor paths as text in its own way.
\<close>

theorem scope_filters_agree:
  assumes ok: "tree_ok (org_depts db)" "staff_ok t db" "u \<in> set (org_users db)" "base_select t u"
  shows "(u \<in> set (scoped_users t c db) \<longleftrightarrow> owner_allowed (owner_id_condition t c db) (us_id u)) \<and>
    (u \<in> set (scoped_users t c db) \<longleftrightarrow> owner_allowed (owner_username_condition t c db) (us_username u)) \<and>
    (sc_scope c = DS_DeptAndChildren \<and> sc_dept_id c = Some d \<and> d \<noteq> 0 \<longrightarrow>
      (u \<in> set (scoped_users t c db) \<longleftrightarrow>
        (\<exists>e. us_dept_id u = Some e \<and> (e = d \<or> dept_below t (org_depts db) e d))))"
proof -
  note names = same_user_id [OF ok(2-4)]
  note depts = department_matches [OF ok]
  note defs = scoped_users_iff apply_data_scope_def owner_allowed_def owner_id_condition_def
    owner_username_condition_def owner_in_departments_def Let_def names depts
  have live: "\<exists>e. dept_find_by_id t x (org_depts db) = Some e \<and> dp_id e = x" if "us_dept_id u = Some x" for x
    using own_department [OF ok that] by blast
  have sub: "u \<in> set (scoped_users t c db) \<longleftrightarrow> (\<exists>x. us_dept_id u = Some x \<and> (x = d \<or>
      (\<exists>e. dept_find_by_id t x (org_depts db) = Some e \<and> ancestors_mention d e)))"
    if "sc_scope c = DS_DeptAndChildren" "sc_dept_id c = Some d" for d
    using ok(3,4) that by (auto simp: defs)
  have sub2: "(\<exists>x e. us_dept_id u = Some x \<and> dept_find_by_id t x (org_depts db) = Some e \<and> (dp_id e = d \<or> ancestors_mention d e)) \<longleftrightarrow>
     (\<exists>x. us_dept_id u = Some x \<and> (x = d \<or> (\<exists>e. dept_find_by_id t x (org_depts db) = Some e \<and> ancestors_mention d e)))" for d
    using live find_dept by blast
  have own: "owner_allowed (owner_id_condition t c db) (us_id u) \<longleftrightarrow>
      (\<exists>x e. us_dept_id u = Some x \<and> dept_find_by_id t x (org_depts db) = Some e \<and> (dp_id e = d \<or> ancestors_mention d e))"
    "owner_allowed (owner_username_condition t c db) (us_username u) \<longleftrightarrow>
      (\<exists>x e. us_dept_id u = Some x \<and> dept_find_by_id t x (org_depts db) = Some e \<and> (dp_id e = d \<or> ancestors_mention d e))"
    if "sc_scope c = DS_DeptAndChildren" "sc_dept_id c = Some d" for d
    by (simp_all add: defs that)
  have 12: "(u \<in> set (scoped_users t c db) \<longleftrightarrow> owner_allowed (owner_id_condition t c db) (us_id u)) \<and>
    (u \<in> set (scoped_users t c db) \<longleftrightarrow> owner_allowed (owner_username_condition t c db) (us_username u))"
  proof (cases "sc_scope c = DS_DeptAndChildren \<and> (\<exists>d. sc_dept_id c = Some d)")
    case True
    then obtain d where d: "sc_scope c = DS_DeptAndChildren" "sc_dept_id c = Some d" by blast
    show ?thesis by (simp only: sub [OF d] own [OF d] sub2)
  next
    case False
    with ok(3,4) show ?thesis by (cases "sc_scope c"; cases "sc_dept_id c") (auto simp: defs)
  qed
  have 3: "u \<in> set (scoped_users t c db) \<longleftrightarrow> (\<exists>e. us_dept_id u = Some e \<and> (e = d \<or> dept_below t (org_depts db) e d))"
    if "sc_scope c = DS_DeptAndChildren" "sc_dept_id c = Some d" "d \<noteq> 0"
    unfolding sub [OF that(1,2)] using mention_below [OF ok(1) _ that(3)] below_find live by blast
  from 12 3 show ?thesis by blast
qed

lemma scope_filters_agree_witness:
  "owner_allowed (owner_username_condition ''system'' (staff_scope\<lparr>sc_scope := DS_DeptAndChildren\<rparr>) staff_org) ''admin'' \<and>
   dept_below ''system'' (org_depts staff_org) 5 2"
proof -
  have s: "staff_ok ''system'' staff_org" by code_simp
  have u: "sample_user 1 ''admin'' (Some 5) \<in> set (org_users staff_org)" "base_select ''system'' (sample_user 1 ''admin'' (Some 5))"
    by code_simp+
  have v: "sample_user 1 ''admin'' (Some 5) \<in> set (scoped_users ''system'' (staff_scope\<lparr>sc_scope := DS_DeptAndChildren\<rparr>) staff_org)"
    by code_simp
  note agree = scope_filters_agree [OF staff_tree s u, of "staff_scope\<lparr>sc_scope := DS_DeptAndChildren\<rparr>" 2]
  have name: "us_username (sample_user 1 ''admin'' (Some 5)) = ''admin''" by (simp add: sample_user_def)
  from agree [THEN conjunct2, THEN conjunct1] v
  have "owner_allowed (owner_username_condition ''system'' (staff_scope\<lparr>sc_scope := DS_DeptAndChildren\<rparr>) staff_org) ''admin''"
    unfolding name by blast
  moreover from agree [THEN conjunct2, THEN conjunct2] v have "dept_below ''system'' (org_depts staff_org) 5 2"
    by (simp add: staff_scope_def sample_user_def)
  ultimately show ?thesis ..
qed

text \<open>
  The condition text built for a department-and-below scope has a pattern without the separator after
  the identifier: below department 2, a department under department 20 matches as well.
\<close>

lemma child_pattern_too_wide:
  "like_match (''0,1'' @ '',2%'') ''0,1,20'' \<and> \<not> like_match (''0,1'' @ '',2,%'') ''0,1,20''"
  by code_simp

end
