(* ===== verification/Principals.thy ===== *)
theory Principals
  imports Data_Scope
begin

text \<open>
  The identity of a request (\<open>ryframe-application/src/auth/identity.rs\<close>, \<open>authorization_resolver.rs\<close>,
  \<open>auth/principal_resolution.rs\<close>): a token is checked against tenant and user, the roles are turned
  into permission codes and a data scope, and the result becomes the snapshot of a principal. Every
  query reads the database at a moment of its own.
\<close>

section \<open>Claims and records\<close>

record Claims =
  cl_sub :: string
  cl_tenant_id :: string
  cl_tenant_session_version :: int
  cl_user_authorization_version :: int
  cl_username :: string
  cl_token_type :: string
  cl_sid :: string
  cl_jti :: string
  cl_iat :: nat
  cl_exp :: nat

record IdentityTenantRecord =
  it_tenant_id :: string
  it_name :: string
  it_status :: string
  it_expire_at :: "timestamp option"
  it_max_requests_per_min :: int
  it_session_version :: int
  it_authorization_epoch :: int

definition identity_tenant :: "string \<Rightarrow> org_db \<Rightarrow> IdentityTenantRecord option" where
  "identity_tenant tenant_id db =
     map_option (\<lambda>t.
       \<lparr>it_tenant_id = tn_tenant_id t, it_name = tn_name t, it_status = tn_status t,
        it_expire_at = tn_expire_at t, it_max_requests_per_min = tn_max_requests_per_min t,
        it_session_version = tn_session_version t, it_authorization_epoch = tn_authorization_epoch t\<rparr>)
       (row_get tn_tenant_id tenant_id (org_tenants db))"

definition user_by_id :: "string \<Rightarrow> int \<Rightarrow> org_db \<Rightarrow> IdentityUserRecord option" where
  "user_by_id tenant_id user_id db =
     map_option to_user
       (find (\<lambda>u. us_del_flag u = us_DEL_FLAG_NORMAL \<and> us_tenant_id u = tenant_id \<and> us_id u = user_id)
          (org_users db))"

definition user_is_enabled :: "IdentityUserRecord \<Rightarrow> bool" where
  "user_is_enabled u \<longleftrightarrow> iu_status u = ''1''"

definition available_tenant :: "string \<Rightarrow> timestamp \<Rightarrow> org_db \<Rightarrow> IdentityTenantRecord app_result" where
  "available_tenant tenant_id clock db =
     (case identity_tenant tenant_id db of
        None \<Rightarrow> Inl (Authentication msg_tenant_missing)
      | Some t \<Rightarrow>
          if it_status t \<noteq> ''enabled'' then Inl (Authentication msg_tenant_disabled)
          else if (case it_expire_at t of Some e \<Rightarrow> e \<le> clock | None \<Rightarrow> False)
          then Inl (Authentication msg_tenant_expired)
          else Inr t)"

section \<open>Reads\<close>

text \<open>
  The databases the queries of one rebuild meet, in their order (a failing connection is an error),
  and the clock the expiry is compared with. The queries of the data scope read one database.
\<close>

record identity_reads =
  id_tenant :: "org_db app_result"
  id_clock :: timestamp
  id_user :: "org_db app_result"
  id_roles :: "org_db app_result"
  id_permissions :: "org_db app_result"
  id_scope :: "org_db app_result"

definition validate_token_identity ::
  "string option \<Rightarrow> Claims \<Rightarrow> identity_reads \<Rightarrow> (IdentityTenantRecord \<times> IdentityUserRecord) app_result" where
  "validate_token_identity ctx claims reads =
     bind_result (enforce_tenant_scope ctx (cl_tenant_id claims)) (\<lambda>_.
     bind_result (id_tenant reads) (\<lambda>db.
     bind_result (available_tenant (cl_tenant_id claims) (id_clock reads) db) (\<lambda>tenant.
     if cl_tenant_session_version claims \<noteq> it_session_version tenant
     then Inl (Authentication msg_session_changed)
     else case parse_i64 (cl_sub claims) of
       None \<Rightarrow> Inl (Authentication msg_token_user)
     | Some user_id \<Rightarrow>
         bind_result (id_user reads) (\<lambda>db2.
         case user_by_id (cl_tenant_id claims) user_id db2 of
           None \<Rightarrow> Inl (Authentication msg_user_missing)
         | Some user \<Rightarrow>
             if \<not> user_is_enabled user then Inl (Authentication msg_user_disabled)
             else if cl_user_authorization_version claims \<noteq> iu_authorization_version user
             then Inl (Authentication msg_user_changed)
             else Inr (tenant, user)))))"

section \<open>Resolving\<close>

definition find_role_perms :: "string \<Rightarrow> int list \<Rightarrow> org_db \<Rightarrow> permission list" where
  "find_role_perms tenant_id role_ids db =
     (if role_ids = [] then []
      else let perm_ids = map rp_perm_id
             (filter (\<lambda>r. rp_role_id r \<in> set role_ids \<and> rp_tenant_id r = tenant_id) (org_role_permissions db))
           in if perm_ids = [] then []
              else filter (\<lambda>p. pm_tenant_id p = tenant_id \<and> pm_id p \<in> set perm_ids \<and> pm_status p = ''1'')
                     (org_permissions db))"

record ResolvedAuthorization =
  ra_roles :: "IdentityRoleRecord list"
  ra_permission_codes :: "string list"
  ra_data_scope :: DataScopeContext

text \<open>Role identifiers are unique, so sorting by them has one result.\<close>

definition authorization_resolve ::
  "string \<Rightarrow> IdentityUserRecord \<Rightarrow> identity_reads \<Rightarrow> ResolvedAuthorization app_result" where
  "authorization_resolve tenant_id user reads =
     bind_result (id_roles reads) (\<lambda>db.
     let roles = sort_key ir_id (identity_roles tenant_id (iu_id user) db)
     in bind_result
          (if has_super_admin_role roles then Inr [''*:*:*'']
           else bind_result (id_permissions reads) (\<lambda>db2.
             Inr (sort_dedup (map pm_code (find_role_perms tenant_id (map ir_id roles) db2))))) (\<lambda>codes.
        bind_result (id_scope reads) (\<lambda>db3.
        bind_result (resolve_data_scope tenant_id user roles db3) (\<lambda>scope.
          Inr \<lparr>ra_roles = roles, ra_permission_codes = codes, ra_data_scope = scope\<rparr>))))"

section \<open>Principals and snapshots\<close>

record ActorContext =
  ax_user_id :: int
  ax_tenant_id :: string
  ax_username :: string
  ax_dept_id :: "int option"
  ax_dept_path :: "string option"
  ax_data_scope :: DataScope
  ax_custom_dept_ids :: "int list"
  ax_include_self :: bool
  ax_is_super_admin :: bool

record RequestPrincipal =
  pr_actor :: ActorContext
  pr_tenant_authorization_epoch :: int
  pr_preferred_locale :: "string option"
  pr_roles :: "string list"
  pr_role_ids :: "int list"
  pr_permissions :: "string list"
  pr_tenant_request_limit_per_minute :: nat

record AuthorizationSnapshot =
  sn_tenant_authorization_epoch :: int
  sn_user_authorization_version :: int
  sn_tenant_session_version :: int
  sn_principal :: RequestPrincipal

definition build_authorization_snapshot ::
  "IdentityTenantRecord \<Rightarrow> IdentityUserRecord \<Rightarrow> ResolvedAuthorization \<Rightarrow> AuthorizationSnapshot" where
  "build_authorization_snapshot tenant user a =
     \<lparr>sn_tenant_authorization_epoch = it_authorization_epoch tenant,
      sn_user_authorization_version = iu_authorization_version user,
      sn_tenant_session_version = it_session_version tenant,
      sn_principal =
        \<lparr>pr_actor =
           \<lparr>ax_user_id = iu_id user, ax_tenant_id = iu_tenant_id user, ax_username = iu_username user,
            ax_dept_id = iu_dept_id user, ax_dept_path = sc_ancestors (ra_data_scope a),
            ax_data_scope = sc_scope (ra_data_scope a),
            ax_custom_dept_ids = sc_custom_dept_ids (ra_data_scope a),
            ax_include_self = sc_include_self (ra_data_scope a),
            ax_is_super_admin = has_super_admin_role (ra_roles a)\<rparr>,
         pr_tenant_authorization_epoch = it_authorization_epoch tenant,
         pr_preferred_locale = iu_preferred_locale user,
         pr_roles = map ir_code (ra_roles a), pr_role_ids = map ir_id (ra_roles a),
         pr_permissions = ra_permission_codes a,
         pr_tenant_request_limit_per_minute =
           (if it_max_requests_per_min tenant < 0 then 1 else nat (it_max_requests_per_min tenant))\<rparr>\<rparr>"

definition rebuild_authorization_snapshot ::
  "string option \<Rightarrow> Claims \<Rightarrow> identity_reads \<Rightarrow> AuthorizationSnapshot app_result" where
  "rebuild_authorization_snapshot ctx claims reads =
     bind_result (validate_token_identity ctx claims reads) (\<lambda>(tenant, user).
     bind_result (authorization_resolve (iu_tenant_id user) user reads) (\<lambda>a.
       Inr (build_authorization_snapshot tenant user a)))"

definition principal_from_snapshot :: "Claims \<Rightarrow> int \<Rightarrow> AuthorizationSnapshot \<Rightarrow> RequestPrincipal app_result" where
  "principal_from_snapshot claims expected_user_id snapshot =
     (if ax_tenant_id (pr_actor (sn_principal snapshot)) \<noteq> cl_tenant_id claims \<or>
         ax_user_id (pr_actor (sn_principal snapshot)) \<noteq> expected_user_id \<or>
         sn_user_authorization_version snapshot \<noteq> cl_user_authorization_version claims
      then Inl (Authentication msg_snapshot_identity)
      else if sn_tenant_session_version snapshot \<noteq> cl_tenant_session_version claims
      then Inl (Authentication msg_session_changed)
      else Inr ((sn_principal snapshot)
                  \<lparr>pr_tenant_authorization_epoch := sn_tenant_authorization_epoch snapshot\<rparr>))"

definition validate_mirrored_user_version :: "Claims \<Rightarrow> int option \<Rightarrow> unit app_result" where
  "validate_mirrored_user_version claims version =
     (if (case version of Some v \<Rightarrow> v \<noteq> cl_user_authorization_version claims | None \<Rightarrow> False)
      then Inl (Authentication msg_user_changed) else Inr ())"

end
