(* ===== verification/Redis_Link.thy ===== *)
theory Redis_Link
  imports Prelude
begin

text \<open>Calls to Redis whose answer can fail, shared by the caches built on it.\<close>

text \<open>A call may not reach the server, or its answer may be lost after it has been carried out.\<close>

datatype redis_link = RedisUp | RedisDown string | RedisLost string

definition redis_call ::
  "redis_link \<Rightarrow> ('s \<Rightarrow> (string + 'a) \<times> 's) \<Rightarrow> 's \<Rightarrow> (string + 'a) \<times> 's" where
  "redis_call link f rd =
     (case link of
        RedisUp \<Rightarrow> f rd
      | RedisDown e \<Rightarrow> (Inl e, rd)
      | RedisLost e \<Rightarrow> (Inl e, snd (f rd)))"

end
