(* ===== verification/Authorization_Mirror.thy ===== *)
theory Authorization_Mirror
  imports Principals Redis_Link
begin

text \<open>
  The cache of authorisation snapshots and the mirror of the version counters in Redis
  (\<open>ryframe/src/boot/authorization_cache.rs\<close>, \<open>authorization_cache_keyspace.rs\<close>), and the policy
  around it (\<open>ryframe-application/src/authorization_cache/backend.rs\<close>). A Redis transaction watches its
  keys and is retried until nothing interfered, so it is one function of the store. The text of a
  stored snapshot is not modelled: a snapshot that was stored is read back as it was, and a field
  that holds no readable snapshot is \<open>None\<close>. The error texts of the number and JSON parsers and the
  key prefix of the installation are left out.
\<close>

section \<open>Keys\<close>

definition tenant_hash_tag :: "string \<Rightarrow> string" where
  "tenant_hash_tag tenant_id = ''{'' @ tenant_id @ ''}''"

definition tenant_epoch_key :: "string \<Rightarrow> string" where
  "tenant_epoch_key tenant_id = ''ryframe:authorization:'' @ tenant_hash_tag tenant_id @ '':epoch''"

definition user_version_key :: "string \<Rightarrow> int \<Rightarrow> string" where
  "user_version_key tenant_id user_id =
     ''ryframe:authorization:'' @ tenant_hash_tag tenant_id @ '':user:'' @ show_int user_id @ '':version''"

definition snapshot_hash_key :: "string \<Rightarrow> int \<Rightarrow> string" where
  "snapshot_hash_key tenant_id user_id =
     ''ryframe:authorization:'' @ tenant_hash_tag tenant_id @ '':user:'' @ show_int user_id @ '':snapshots''"

definition tenant_value_hash_key :: "string \<Rightarrow> string \<Rightarrow> string" where
  "tenant_value_hash_key tenant_id namespace =
     ''ryframe:tenant-cache:'' @ tenant_hash_tag tenant_id @ '':'' @ namespace"

definition namespace_version_key :: "string \<Rightarrow> string \<Rightarrow> string" where
  "namespace_version_key tenant_id namespace =
     ''ryframe:tenant-cache:'' @ tenant_hash_tag tenant_id @ '':'' @ namespace @ '':version''"

definition namespace_values_hash_key :: "string \<Rightarrow> string \<Rightarrow> string" where
  "namespace_values_hash_key tenant_id namespace =
     ''ryframe:tenant-cache:'' @ tenant_hash_tag tenant_id @ '':'' @ namespace @ '':values''"

section \<open>The store\<close>

record redis_db =
  rd_strings :: "string \<Rightarrow> string option"
  rd_snapshots :: "string \<Rightarrow> string \<Rightarrow> AuthorizationSnapshot option option"
  rd_values :: "string \<Rightarrow> string \<Rightarrow> string option"

definition version_is_newer :: "string option \<Rightarrow> string \<Rightarrow> string + bool" where
  "version_is_newer current incoming =
     (case current of
        None \<Rightarrow> Inr False
      | Some c \<Rightarrow>
          (case parse_i64 c of
             None \<Rightarrow> Inl msg_cache_version
           | Some cv \<Rightarrow>
               (case parse_i64 incoming of None \<Rightarrow> Inl msg_cache_version | Some iv \<Rightarrow> Inr (iv < cv))))"

definition parse_optional_version :: "string option \<Rightarrow> string + int option" where
  "parse_optional_version value =
     (case value of
        None \<Rightarrow> Inr None
      | Some v \<Rightarrow>
          (case parse_i64 v of
             Some i \<Rightarrow> if is_i32 i then Inr (Some i) else Inl msg_cache_version
           | None \<Rightarrow> Inl msg_cache_version))"

definition validate_canonical_decimal :: "string \<Rightarrow> string + unit" where
  "validate_canonical_decimal value =
     (if value = ''0'' \<or>
         value \<noteq> [] \<and> hd value \<noteq> CHR ''0'' \<and> list_all is_ascii_digit value
      then Inr () else Inl msg_cache_decimal)"

text \<open>\<open>compare_decimal(left, right).is_le()\<close>\<close>

definition decimal_le :: "string \<Rightarrow> string \<Rightarrow> bool" where
  "decimal_le l r \<longleftrightarrow> length l < length r \<or> length l = length r \<and> l \<le> r"

section \<open>Snapshots and versions\<close>

record AuthorizationCacheLookup =
  lk_tenant_authorization_epoch :: "int option"
  lk_user_authorization_version :: "int option"
  lk_snapshot :: "AuthorizationSnapshot option"

definition lookup_miss :: AuthorizationCacheLookup where
  "lookup_miss = \<lparr>lk_tenant_authorization_epoch = None, lk_user_authorization_version = None, lk_snapshot = None\<rparr>"

definition snapshot_field :: "string \<Rightarrow> string \<Rightarrow> string" where
  "snapshot_field epoch version = epoch @ '':'' @ version"

definition redis_lookup_snapshot ::
  "string \<Rightarrow> int \<Rightarrow> redis_db \<Rightarrow> (string + AuthorizationCacheLookup) \<times> redis_db" where
  "redis_lookup_snapshot tenant_id user_id rd =
     (let epoch = rd_strings rd (tenant_epoch_key tenant_id);
          version = rd_strings rd (user_version_key tenant_id user_id);
          field = (case (epoch, version) of
                     (Some e, Some v) \<Rightarrow> snapshot_field e v
                   | _ \<Rightarrow> ''__ryframe_missing_snapshot__'')
      in (bind_result (parse_optional_version epoch) (\<lambda>e.
          bind_result (parse_optional_version version) (\<lambda>v.
          case rd_snapshots rd (snapshot_hash_key tenant_id user_id) field of
            None \<Rightarrow> Inr \<lparr>lk_tenant_authorization_epoch = e, lk_user_authorization_version = v, lk_snapshot = None\<rparr>
          | Some None \<Rightarrow> Inl msg_cache_json
          | Some (Some s) \<Rightarrow>
              if Some (sn_tenant_authorization_epoch s) \<noteq> e \<or> Some (sn_user_authorization_version s) \<noteq> v
              then Inl msg_cache_mismatch
              else Inr \<lparr>lk_tenant_authorization_epoch = e, lk_user_authorization_version = v,
                        lk_snapshot = Some s\<rparr>)), rd))"

definition redis_store_snapshot :: "AuthorizationSnapshot \<Rightarrow> redis_db \<Rightarrow> (string + bool) \<times> redis_db" where
  "redis_store_snapshot s rd =
     (let tenant_id = ax_tenant_id (pr_actor (sn_principal s));
          user_id = ax_user_id (pr_actor (sn_principal s));
          epoch_key = tenant_epoch_key tenant_id;
          version_key = user_version_key tenant_id user_id;
          hash_key = snapshot_hash_key tenant_id user_id;
          epoch = show_int (sn_tenant_authorization_epoch s);
          version = show_int (sn_user_authorization_version s)
      in case bind_result (version_is_newer (rd_strings rd epoch_key) epoch) (\<lambda>tenant_newer.
              if tenant_newer then Inr True
              else version_is_newer (rd_strings rd version_key) version) of
           Inl e \<Rightarrow> (Inl e, rd)
         | Inr True \<Rightarrow> (Inr False, rd)
         | Inr False \<Rightarrow>
             (Inr True,
              rd\<lparr>rd_strings := (rd_strings rd)(epoch_key \<mapsto> epoch, version_key \<mapsto> version),
                 rd_snapshots := (rd_snapshots rd)
                   (hash_key := Map.empty(snapshot_field epoch version \<mapsto> Some s))\<rparr>))"

definition update_mirror :: "string \<Rightarrow> int \<Rightarrow> redis_db \<Rightarrow> (string + unit) \<times> redis_db" where
  "update_mirror key version rd =
     (case version_is_newer (rd_strings rd key) (show_int version) of
        Inl e \<Rightarrow> (Inl e, rd)
      | Inr True \<Rightarrow> (Inr (), rd)
      | Inr False \<Rightarrow> (Inr (), rd\<lparr>rd_strings := (rd_strings rd)(key \<mapsto> show_int version)\<rparr>))"

definition redis_update_tenant_epoch :: "string \<Rightarrow> int \<Rightarrow> redis_db \<Rightarrow> (string + unit) \<times> redis_db" where
  "redis_update_tenant_epoch tenant_id epoch = update_mirror (tenant_epoch_key tenant_id) epoch"

definition redis_update_user_version :: "string \<Rightarrow> int \<Rightarrow> int \<Rightarrow> redis_db \<Rightarrow> (string + unit) \<times> redis_db" where
  "redis_update_user_version tenant_id user_id version = update_mirror (user_version_key tenant_id user_id) version"

section \<open>Versioned values\<close>

definition redis_read_tenant_value ::
  "string \<Rightarrow> string \<Rightarrow> redis_db \<Rightarrow> (string + (int \<times> string option) option) \<times> redis_db" where
  "redis_read_tenant_value tenant_id namespace rd =
     (let epoch = rd_strings rd (tenant_epoch_key tenant_id);
          field = (case epoch of Some e \<Rightarrow> e | None \<Rightarrow> ''__ryframe_missing_tenant_epoch__'')
      in (bind_result (parse_optional_version epoch) (\<lambda>e.
            Inr (map_option (\<lambda>v. (v, rd_values rd (tenant_value_hash_key tenant_id namespace) field)) e)), rd))"

definition redis_store_tenant_value ::
  "string \<Rightarrow> string \<Rightarrow> int \<Rightarrow> string \<Rightarrow> redis_db \<Rightarrow> (string + bool) \<times> redis_db" where
  "redis_store_tenant_value tenant_id namespace epoch value rd =
     (if rd_strings rd (tenant_epoch_key tenant_id) \<noteq> Some (show_int epoch) then (Inr False, rd)
      else (Inr True, rd\<lparr>rd_values := (rd_values rd)
              (tenant_value_hash_key tenant_id namespace := Map.empty(show_int epoch \<mapsto> value))\<rparr>))"

definition redis_update_namespace_version ::
  "string \<Rightarrow> string \<Rightarrow> int \<Rightarrow> redis_db \<Rightarrow> (string + unit) \<times> redis_db" where
  "redis_update_namespace_version tenant_id namespace version rd =
     (let version_key = namespace_version_key tenant_id namespace;
          incoming = show_int version;
          write_it = (Inr (), rd\<lparr>rd_strings := (rd_strings rd)(version_key \<mapsto> incoming),
                          rd_values := (rd_values rd)
                            (namespace_values_hash_key tenant_id namespace := Map.empty)\<rparr>)
      in case validate_canonical_decimal incoming of
           Inl e \<Rightarrow> (Inl e, rd)
         | Inr _ \<Rightarrow>
             (case rd_strings rd version_key of
                None \<Rightarrow> write_it
              | Some current \<Rightarrow>
                  (case validate_canonical_decimal current of
                     Inl e \<Rightarrow> (Inl e, rd)
                   | Inr _ \<Rightarrow> if decimal_le incoming current then (Inr (), rd) else write_it)))"

definition redis_read_namespace_value ::
  "string \<Rightarrow> string \<Rightarrow> string \<Rightarrow> redis_db \<Rightarrow> (string + (int \<times> string option) option) \<times> redis_db" where
  "redis_read_namespace_value tenant_id namespace item rd =
     (case rd_strings rd (namespace_version_key tenant_id namespace) of
        None \<Rightarrow> (Inr None, rd)
      | Some raw \<Rightarrow>
          (bind_result (validate_canonical_decimal raw) (\<lambda>_.
             case parse_i64 raw of
               None \<Rightarrow> Inl msg_cache_ns_parse
             | Some v \<Rightarrow> Inr (Some (v, rd_values rd (namespace_values_hash_key tenant_id namespace) item))), rd))"

definition redis_store_namespace_value ::
  "string \<Rightarrow> string \<Rightarrow> string \<Rightarrow> int \<Rightarrow> string \<Rightarrow> redis_db \<Rightarrow> (string + bool) \<times> redis_db" where
  "redis_store_namespace_value tenant_id namespace item version value rd =
     (let values_key = namespace_values_hash_key tenant_id namespace
      in if rd_strings rd (namespace_version_key tenant_id namespace) \<noteq> Some (show_int version) then (Inr False, rd)
         else (Inr True, rd\<lparr>rd_values := (rd_values rd)
                 (values_key := (rd_values rd values_key)(item \<mapsto> value))\<rparr>))"

section \<open>The cache and its policy\<close>

record AuthorizationCache =
  ac_enabled :: bool
  ac_required :: bool

definition cache_unavailable :: app_error where
  "cache_unavailable = ServiceUnavailable msg_cache_unavailable"

definition validate_cache_namespace :: "string \<Rightarrow> unit app_result" where
  "validate_cache_namespace namespace =
     (if namespace = [] \<or> 64 < length namespace \<or>
         \<not> list_all (\<lambda>c. is_ascii_lowercase c \<or> is_ascii_digit c \<or> c \<in> {CHR ''.'', CHR ''_'', CHR ''-''}) namespace
      then Inl (Validation msg_cache_namespace) else Inr ())"

definition validate_namespace_version :: "int \<Rightarrow> unit app_result" where
  "validate_namespace_version version =
     (if version < 0 then Inl (Database msg_cache_ns_negative) else Inr ())"

definition cache_lookup_snapshot ::
  "AuthorizationCache \<Rightarrow> redis_link \<Rightarrow> string \<Rightarrow> int \<Rightarrow> redis_db \<Rightarrow>
   AuthorizationCacheLookup app_result \<times> redis_db" where
  "cache_lookup_snapshot ac link tenant_id user_id rd =
     (if \<not> ac_enabled ac then (if ac_required ac then Inl cache_unavailable else Inr lookup_miss, rd)
      else
        (case redis_call link (redis_lookup_snapshot tenant_id user_id) rd of
           (Inr l, rd') \<Rightarrow> (Inr l, rd')
         | (Inl e, rd') \<Rightarrow> (if ac_required ac then Inl cache_unavailable else Inr lookup_miss, rd')))"

definition cache_store_snapshot ::
  "AuthorizationCache \<Rightarrow> redis_link \<Rightarrow> AuthorizationSnapshot \<Rightarrow> redis_db \<Rightarrow> bool app_result \<times> redis_db" where
  "cache_store_snapshot ac link s rd =
     (if \<not> ac_enabled ac then (if ac_required ac then Inl cache_unavailable else Inr False, rd)
      else
        (case redis_call link (redis_store_snapshot s) rd of
           (Inr stored, rd') \<Rightarrow> (Inr stored, rd')
         | (Inl e, rd') \<Rightarrow> (if ac_required ac then Inl cache_unavailable else Inr True, rd')))"

definition handle_mirror_result :: "AuthorizationCache \<Rightarrow> string + unit \<Rightarrow> unit app_result" where
  "handle_mirror_result ac result =
     (case result of Inr _ \<Rightarrow> Inr () | Inl e \<Rightarrow> if ac_required ac then Inl cache_unavailable else Inr ())"

definition sync_tenant_epoch ::
  "AuthorizationCache \<Rightarrow> redis_link \<Rightarrow> string \<Rightarrow> int \<Rightarrow> redis_db \<Rightarrow> unit app_result \<times> redis_db" where
  "sync_tenant_epoch ac link tenant_id epoch rd =
     (if \<not> ac_enabled ac then (if ac_required ac then Inl cache_unavailable else Inr (), rd)
      else
        (case redis_call link (redis_update_tenant_epoch tenant_id epoch) rd of
           (r, rd') \<Rightarrow> (handle_mirror_result ac r, rd')))"

text \<open>One call per user; the first error ends the loop when the cache is required.\<close>

fun sync_user_versions ::
  "AuthorizationCache \<Rightarrow> (int \<Rightarrow> redis_link) \<Rightarrow> string \<Rightarrow> (int \<times> int) list \<Rightarrow> redis_db \<Rightarrow>
   unit app_result \<times> redis_db" where
  "sync_user_versions ac link tenant_id versions rd =
     (if \<not> ac_enabled ac then (if ac_required ac then Inl cache_unavailable else Inr (), rd)
      else
        (case versions of
           [] \<Rightarrow> (Inr (), rd)
         | (user_id, version) # rest \<Rightarrow>
             (case redis_call (link user_id) (redis_update_user_version tenant_id user_id version) rd of
                (r, rd') \<Rightarrow>
                  (case handle_mirror_result ac r of
                     Inl e \<Rightarrow> (Inl e, rd')
                   | Inr _ \<Rightarrow> sync_user_versions ac link tenant_id rest rd'))))"

definition sync_namespace_version ::
  "AuthorizationCache \<Rightarrow> redis_link \<Rightarrow> string \<Rightarrow> string \<Rightarrow> int \<Rightarrow> redis_db \<Rightarrow> unit app_result \<times> redis_db" where
  "sync_namespace_version ac link tenant_id namespace version rd =
     (case bind_result (validate_cache_namespace namespace) (\<lambda>_. validate_namespace_version version) of
        Inl e \<Rightarrow> (Inl e, rd)
      | Inr _ \<Rightarrow>
          if \<not> ac_enabled ac then (if ac_required ac then Inl cache_unavailable else Inr (), rd)
          else
            (case redis_call link (redis_update_namespace_version tenant_id namespace version) rd of
               (r, rd') \<Rightarrow> (handle_mirror_result ac r, rd')))"

section \<open>Repairs\<close>

definition strict_result :: "string \<Rightarrow> string + unit \<Rightarrow> unit app_result" where
  "strict_result text result =
     (case result of Inr _ \<Rightarrow> Inr () | Inl e \<Rightarrow> Inl (ServiceUnavailable (text @ e)))"

definition repair_tenant_epoch ::
  "AuthorizationCache \<Rightarrow> redis_link \<Rightarrow> string \<Rightarrow> int \<Rightarrow> redis_db \<Rightarrow> unit app_result \<times> redis_db" where
  "repair_tenant_epoch ac link tenant_id epoch rd =
     (if \<not> ac_enabled ac then (Inl cache_unavailable, rd)
      else (case redis_call link (redis_update_tenant_epoch tenant_id epoch) rd of
              (r, rd') \<Rightarrow> (strict_result msg_repair_tenant r, rd')))"

definition repair_user_version ::
  "AuthorizationCache \<Rightarrow> redis_link \<Rightarrow> string \<Rightarrow> int \<Rightarrow> int \<Rightarrow> redis_db \<Rightarrow> unit app_result \<times> redis_db" where
  "repair_user_version ac link tenant_id user_id version rd =
     (if \<not> ac_enabled ac then (Inl cache_unavailable, rd)
      else (case redis_call link (redis_update_user_version tenant_id user_id version) rd of
              (r, rd') \<Rightarrow> (strict_result msg_repair_user r, rd')))"

definition repair_namespace_version ::
  "AuthorizationCache \<Rightarrow> redis_link \<Rightarrow> string \<Rightarrow> string \<Rightarrow> int \<Rightarrow> redis_db \<Rightarrow> unit app_result \<times> redis_db" where
  "repair_namespace_version ac link tenant_id namespace version rd =
     (case bind_result (validate_cache_namespace namespace) (\<lambda>_. validate_namespace_version version) of
        Inl e \<Rightarrow> (Inl e, rd)
      | Inr _ \<Rightarrow>
          if \<not> ac_enabled ac then (if ac_required ac then Inl cache_unavailable else Inr (), rd)
          else (case redis_call link (redis_update_namespace_version tenant_id namespace version) rd of
                  (r, rd') \<Rightarrow> (strict_result msg_repair_namespace r, rd')))"

section \<open>Cached values\<close>

definition inspect_snapshot ::
  "AuthorizationCache \<Rightarrow> redis_link \<Rightarrow> string \<Rightarrow> int \<Rightarrow> redis_db \<Rightarrow>
   (string + AuthorizationCacheLookup option) \<times> redis_db" where
  "inspect_snapshot ac link tenant_id user_id rd =
     (if \<not> ac_enabled ac then (Inr None, rd)
      else
        (case redis_call link (redis_lookup_snapshot tenant_id user_id) rd of
           (r, rd') \<Rightarrow> (bind_result r (\<lambda>l. Inr (Some l)), rd')))"

definition cache_read_tenant_value ::
  "AuthorizationCache \<Rightarrow> redis_link \<Rightarrow> string \<Rightarrow> string \<Rightarrow> redis_db \<Rightarrow>
   (int \<times> string option) option app_result \<times> redis_db" where
  "cache_read_tenant_value ac link tenant_id namespace rd =
     (if \<not> ac_enabled ac then (if ac_required ac then Inl cache_unavailable else Inr None, rd)
      else
        (case redis_call link (redis_read_tenant_value tenant_id namespace) rd of
           (Inr value, rd') \<Rightarrow> (Inr value, rd')
         | (Inl e, rd') \<Rightarrow> (if ac_required ac then Inl cache_unavailable else Inr None, rd')))"

definition cache_store_tenant_value ::
  "AuthorizationCache \<Rightarrow> redis_link \<Rightarrow> string \<Rightarrow> string \<Rightarrow> int \<Rightarrow> string \<Rightarrow> redis_db \<Rightarrow>
   bool app_result \<times> redis_db" where
  "cache_store_tenant_value ac link tenant_id namespace epoch value rd =
     (if \<not> ac_enabled ac then (if ac_required ac then Inl cache_unavailable else Inr False, rd)
      else
        (case redis_call link (redis_store_tenant_value tenant_id namespace epoch value) rd of
           (Inr stored, rd') \<Rightarrow> (Inr stored, rd')
         | (Inl e, rd') \<Rightarrow> (if ac_required ac then Inl cache_unavailable else Inr False, rd')))"

definition cache_read_namespace_value ::
  "AuthorizationCache \<Rightarrow> redis_link \<Rightarrow> string \<Rightarrow> string \<Rightarrow> string \<Rightarrow> redis_db \<Rightarrow>
   (int \<times> string option) option app_result \<times> redis_db" where
  "cache_read_namespace_value ac link tenant_id namespace item rd =
     (case validate_cache_namespace namespace of
        Inl e \<Rightarrow> (Inl e, rd)
      | Inr _ \<Rightarrow>
          if \<not> ac_enabled ac then (if ac_required ac then Inl cache_unavailable else Inr None, rd)
          else
            (case redis_call link (redis_read_namespace_value tenant_id namespace item) rd of
               (Inr value, rd') \<Rightarrow> (Inr value, rd')
             | (Inl e, rd') \<Rightarrow> (if ac_required ac then Inl cache_unavailable else Inr None, rd')))"

definition cache_store_namespace_value ::
  "AuthorizationCache \<Rightarrow> redis_link \<Rightarrow> string \<Rightarrow> string \<Rightarrow> string \<Rightarrow> int \<Rightarrow> string \<Rightarrow> redis_db \<Rightarrow>
   bool app_result \<times> redis_db" where
  "cache_store_namespace_value ac link tenant_id namespace item version value rd =
     (case bind_result (validate_cache_namespace namespace) (\<lambda>_. validate_namespace_version version) of
        Inl e \<Rightarrow> (Inl e, rd)
      | Inr _ \<Rightarrow>
          if \<not> ac_enabled ac then (if ac_required ac then Inl cache_unavailable else Inr False, rd)
          else
            (case redis_call link (redis_store_namespace_value tenant_id namespace item version value) rd of
               (Inr stored, rd') \<Rightarrow> (Inr stored, rd')
             | (Inl e, rd') \<Rightarrow> (if ac_required ac then Inl cache_unavailable else Inr False, rd')))"

end
