(* ===== verification/Principal_Freshness.thy ===== *)
theory Principal_Freshness
  imports Authorization_Mirror Effective_Scope
begin

text \<open>
  The principal of a request (\<open>ryframe-application/src/auth/principal_resolution.rs\<close>): the snapshot
  of the cache when it has one, otherwise one built from the database and offered to the cache. A
  snapshot carries the version counters its first read saw, and the cache hands out only a snapshot
  whose counters are those of the mirror, so once a change has been mirrored no principal rests on a
  read older than it.
\<close>

section \<open>Resolution\<close>

text \<open>Before each call to Redis the other instances have acted; \<open>others\<close> is what they did.\<close>

record cache_moment =
  cm_others :: "redis_db \<Rightarrow> redis_db"
  cm_link :: redis_link

record resolve_round =
  rn_reads :: identity_reads
  rn_store :: cache_moment
  rn_lookup :: cache_moment

definition look_up_at ::
  "AuthorizationCache \<Rightarrow> Claims \<Rightarrow> int \<Rightarrow> cache_moment \<Rightarrow> redis_db \<Rightarrow>
   AuthorizationCacheLookup app_result \<times> redis_db" where
  "look_up_at ac claims user_id m rd =
     (case cache_lookup_snapshot ac (cm_link m) (cl_tenant_id claims) user_id (cm_others m rd) of
        (r, rd') \<Rightarrow>
          (bind_result r (\<lambda>l. bind_result
             (validate_mirrored_user_version claims (lk_user_authorization_version l)) (\<lambda>_. Inr l)), rd'))"

fun resolve_rounds ::
  "string option \<Rightarrow> Claims \<Rightarrow> AuthorizationCache \<Rightarrow> int \<Rightarrow> resolve_round list \<Rightarrow> redis_db \<Rightarrow>
   RequestPrincipal app_result \<times> redis_db" where
  "resolve_rounds ctx claims ac user_id [] rd = (Inl (Authentication msg_auth_updating), rd)"
| "resolve_rounds ctx claims ac user_id (n # rest) rd =
     (case rebuild_authorization_snapshot ctx claims (rn_reads n) of
        Inl e \<Rightarrow> (Inl e, rd)
      | Inr s \<Rightarrow>
          if \<not> ac_enabled ac then (Inr (sn_principal s), rd)
          else
            (case cache_store_snapshot ac (cm_link (rn_store n)) s (cm_others (rn_store n) rd) of
               (Inl e, rd1) \<Rightarrow> (Inl e, rd1)
             | (Inr True, rd1) \<Rightarrow> (Inr (sn_principal s), rd1)
             | (Inr False, rd1) \<Rightarrow>
                 (case look_up_at ac claims user_id (rn_lookup n) rd1 of
                    (Inl e, rd2) \<Rightarrow> (Inl e, rd2)
                  | (Inr l, rd2) \<Rightarrow>
                      (case lk_snapshot l of
                         Some s2 \<Rightarrow> (principal_from_snapshot claims user_id s2, rd2)
                       | None \<Rightarrow> resolve_rounds ctx claims ac user_id rest rd2))))"

definition resolve_principal ::
  "string option \<Rightarrow> Claims \<Rightarrow> AuthorizationCache \<Rightarrow> cache_moment \<Rightarrow> resolve_round \<Rightarrow> resolve_round \<Rightarrow>
   redis_db \<Rightarrow> RequestPrincipal app_result \<times> redis_db" where
  "resolve_principal ctx claims ac m n1 n2 rd =
     (case enforce_tenant_scope ctx (cl_tenant_id claims) of
        Inl e \<Rightarrow> (Inl e, rd)
      | Inr _ \<Rightarrow>
          (case parse_i64 (cl_sub claims) of
             None \<Rightarrow> (Inl (Authentication msg_token_user), rd)
           | Some user_id \<Rightarrow>
               (case look_up_at ac claims user_id m rd of
                  (Inl e, rd1) \<Rightarrow> (Inl e, rd1)
                | (Inr l, rd1) \<Rightarrow>
                    (case lk_snapshot l of
                       Some s \<Rightarrow> (principal_from_snapshot claims user_id s, rd1)
                     | None \<Rightarrow> resolve_rounds ctx claims ac user_id [n1, n2] rd1))))"

section \<open>What the instances do to the cache\<close>

text \<open>
  \<open>H t\<close> is the database at time \<open>t\<close>. A snapshot comes from a rebuild whose queries read the history
  in order, from \<open>lo\<close> on.
\<close>

definition read_at :: "(nat \<Rightarrow> org_db) \<Rightarrow> nat \<Rightarrow> org_db app_result \<Rightarrow> bool" where
  "read_at H t r \<longleftrightarrow> r = Inr (H t) \<or> \<not> is_ok r"

definition reads_from :: "(nat \<Rightarrow> org_db) \<Rightarrow> nat \<Rightarrow> identity_reads \<Rightarrow> bool" where
  "reads_from H lo reads \<longleftrightarrow>
     (\<exists>a b c d e. lo \<le> a \<and> a \<le> b \<and> b \<le> c \<and> c \<le> d \<and> d \<le> e \<and> read_at H a (id_tenant reads) \<and>
        read_at H b (id_user reads) \<and> read_at H c (id_roles reads) \<and> read_at H d (id_permissions reads) \<and>
        read_at H e (id_scope reads))"

definition snapshot_since :: "(nat \<Rightarrow> org_db) \<Rightarrow> nat \<Rightarrow> AuthorizationSnapshot \<Rightarrow> bool" where
  "snapshot_since H lo s \<longleftrightarrow>
     (\<exists>ctx claims reads. reads_from H lo reads \<and> rebuild_authorization_snapshot ctx claims reads = Inr s)"

text \<open>
  One action of some instance: a snapshot built from the history is offered, a counter is mirrored, a
  cached value is written, or a hash expires or is evicted. Version keys carry no time to live.
\<close>

inductive cache_step :: "(nat \<Rightarrow> org_db) \<Rightarrow> redis_db \<Rightarrow> redis_db \<Rightarrow> bool" for H where
  cs_store: "snapshot_since H 0 s \<Longrightarrow> cache_step H rd (snd (redis_store_snapshot s rd))"
| cs_epoch: "cache_step H rd (snd (redis_update_tenant_epoch tid v rd))"
| cs_user: "cache_step H rd (snd (redis_update_user_version tid uid v rd))"
| cs_value: "cache_step H rd (snd (redis_store_tenant_value tid ns epoch val rd))"
| cs_namespace: "cache_step H rd (snd (redis_update_namespace_version tid ns v rd))"
| cs_namespace_value: "cache_step H rd (snd (redis_store_namespace_value tid ns item v val rd))"
| cs_expire: "cache_step H rd (rd\<lparr>rd_snapshots := (rd_snapshots rd)(k := Map.empty)\<rparr>)"
| cs_expire_values: "cache_step H rd (rd\<lparr>rd_values := (rd_values rd)(k := Map.empty)\<rparr>)"

definition others_ok :: "(nat \<Rightarrow> org_db) \<Rightarrow> cache_moment \<Rightarrow> bool" where
  "others_ok H m \<longleftrightarrow> (\<forall>rd. (cache_step H)\<^sup>*\<^sup>* rd (cm_others m rd))"

definition round_ok :: "(nat \<Rightarrow> org_db) \<Rightarrow> nat \<Rightarrow> resolve_round \<Rightarrow> bool" where
  "round_ok H lo n \<longleftrightarrow> reads_from H lo (rn_reads n) \<and> others_ok H (rn_store n) \<and> others_ok H (rn_lookup n)"

section \<open>The invariant of the mirror\<close>

definition at_least :: "int \<Rightarrow> string \<Rightarrow> redis_db \<Rightarrow> bool" where
  "at_least v key rd \<longleftrightarrow> (case rd_strings rd key of
     None \<Rightarrow> False | Some w \<Rightarrow> (case parse_i64 w of None \<Rightarrow> False | Some x \<Rightarrow> v \<le> x))"

definition holds_built :: "(nat \<Rightarrow> org_db) \<Rightarrow> redis_db \<Rightarrow> bool" where
  "holds_built H rd \<longleftrightarrow>
     (\<forall>k f s. rd_snapshots rd k f = Some (Some s) \<longrightarrow> snapshot_since H 0 s)"

text \<open>Keys of counters that follow the rule of the mirror.\<close>

definition mirror_key :: "string \<Rightarrow> bool" where
  "mirror_key key \<longleftrightarrow> take 22 key = ''ryframe:authorization:''"

lemma mirror_keys [simp]:
  "mirror_key (tenant_epoch_key tid)" "mirror_key (user_version_key tid uid)"
  "\<not> mirror_key (namespace_version_key tid ns)"
  by (simp_all add: mirror_key_def tenant_epoch_key_def user_version_key_def namespace_version_key_def)

lemma user_key_not_epoch [simp]:
  "user_version_key tid uid \<noteq> tenant_epoch_key tid'" "tenant_epoch_key tid' \<noteq> user_version_key tid uid"
proof -
  have "last (user_version_key tid uid) \<noteq> last (tenant_epoch_key tid')"
    by (simp add: user_version_key_def tenant_epoch_key_def)
  then show "user_version_key tid uid \<noteq> tenant_epoch_key tid'" "tenant_epoch_key tid' \<noteq> user_version_key tid uid"
    by metis+
qed

lemma not_newer_ge:
  assumes "version_is_newer (rd_strings rd key) w = Inr False" "at_least v key rd"
  shows "\<exists>x. parse_i64 w = Some x \<and> v \<le> x"
  using assms by (auto simp: version_is_newer_def at_least_def split: option.splits if_splits)

lemma update_mirror_at_least:
  "at_least v key rd \<Longrightarrow> at_least v key (snd (update_mirror key' n rd))"
proof -
  assume a: "at_least v key rd"
  show ?thesis
  proof (cases "version_is_newer (rd_strings rd key') (show_int n)")
    case (Inr newer)
    then show ?thesis
      using a not_newer_ge [of rd key' "show_int n" v]
      by (cases newer; cases "key = key'") (auto simp: update_mirror_def at_least_def)
  qed (use a in \<open>simp add: update_mirror_def\<close>)
qed

lemma store_snapshot_cases:
  obtains "snd (redis_store_snapshot s rd) = rd"
  | ek vk hk e v where "ek = tenant_epoch_key (ax_tenant_id (pr_actor (sn_principal s)))"
      "vk = user_version_key (ax_tenant_id (pr_actor (sn_principal s))) (ax_user_id (pr_actor (sn_principal s)))"
      "version_is_newer (rd_strings rd ek) e = Inr False" "version_is_newer (rd_strings rd vk) v = Inr False"
      "snd (redis_store_snapshot s rd) = rd\<lparr>rd_strings := (rd_strings rd)(ek \<mapsto> e, vk \<mapsto> v),
         rd_snapshots := (rd_snapshots rd)(hk := Map.empty(snapshot_field e v \<mapsto> Some s))\<rparr>"
proof -
  let ?ek = "tenant_epoch_key (ax_tenant_id (pr_actor (sn_principal s)))"
  let ?vk = "user_version_key (ax_tenant_id (pr_actor (sn_principal s))) (ax_user_id (pr_actor (sn_principal s)))"
  let ?e = "show_int (sn_tenant_authorization_epoch s)"
  let ?v = "show_int (sn_user_authorization_version s)"
  show ?thesis
  proof (cases "version_is_newer (rd_strings rd ?ek) ?e = Inr False \<and> version_is_newer (rd_strings rd ?vk) ?v = Inr False")
    case True
    then show ?thesis
      using that(2) [OF refl refl, of ?e ?v] by (simp add: redis_store_snapshot_def Let_def)
  next
    case False
    then show ?thesis
      using that(1) by (auto simp: redis_store_snapshot_def Let_def bind_result_def split: sum.splits bool.splits if_splits)
  qed
qed

lemma store_snapshot_at_least:
  assumes "at_least v key rd"
  shows "at_least v key (snd (redis_store_snapshot s rd))"
proof (rule store_snapshot_cases [of s rd])
  fix ek vk hk e w
  assume n: "version_is_newer (rd_strings rd ek) e = Inr False" "version_is_newer (rd_strings rd vk) w = Inr False"
    and r: "snd (redis_store_snapshot s rd) = rd\<lparr>rd_strings := (rd_strings rd)(ek \<mapsto> e, vk \<mapsto> w),
         rd_snapshots := (rd_snapshots rd)(hk := Map.empty(snapshot_field e w \<mapsto> Some s))\<rparr>"
  show ?thesis
    unfolding r using assms not_newer_ge [OF n(1), of v] not_newer_ge [OF n(2), of v]
    by (cases "key = vk"; cases "key = ek") (auto simp: at_least_def)
qed (use assms in simp)

lemma frames:
  "rd_strings rd' = rd_strings rd \<Longrightarrow> at_least v key rd' = at_least v key rd"
  "rd_snapshots rd' = rd_snapshots rd \<Longrightarrow> holds_built H rd' = holds_built H rd"
  by (simp_all add: at_least_def holds_built_def)

lemma update_mirror_snapshots [simp]: "rd_snapshots (snd (update_mirror key n rd)) = rd_snapshots rd"
  by (auto simp: update_mirror_def split: sum.splits bool.splits)

lemma value_writes [simp]:
  "rd_snapshots (snd (redis_store_tenant_value tid ns ep val rd)) = rd_snapshots rd"
  "rd_strings (snd (redis_store_tenant_value tid ns ep val rd)) = rd_strings rd"
  "rd_snapshots (snd (redis_store_namespace_value tid ns item n val rd)) = rd_snapshots rd"
  "rd_strings (snd (redis_store_namespace_value tid ns item n val rd)) = rd_strings rd"
  "rd_snapshots (snd (redis_update_namespace_version tid ns n rd)) = rd_snapshots rd"
  by (auto simp: redis_store_tenant_value_def redis_store_namespace_value_def redis_update_namespace_version_def
        Let_def split: sum.splits option.splits)

lemma namespace_version_at_least:
  "mirror_key key \<Longrightarrow> at_least v key rd \<Longrightarrow> at_least v key (snd (redis_update_namespace_version tid ns n rd))"
  by (cases "key = namespace_version_key tid ns")
    (auto simp: redis_update_namespace_version_def at_least_def Let_def split: sum.splits option.splits)

lemma cache_step_at_least:
  assumes "cache_step H rd rd'" "mirror_key key" "at_least v key rd"
  shows "at_least v key rd'"
  using assms(1)
proof cases
  case cs_store
  with assms(3) show ?thesis by (simp add: store_snapshot_at_least)
next
  case cs_namespace
  with assms(2,3) show ?thesis by (simp add: namespace_version_at_least)
qed (use assms(3) frames(1) [of rd' rd v key] in \<open>simp_all add: redis_update_tenant_epoch_def redis_update_user_version_def
       update_mirror_at_least\<close>)

lemma store_snapshot_holds:
  assumes "holds_built H rd" "snapshot_since H 0 s"
  shows "holds_built H (snd (redis_store_snapshot s rd))"
  by (rule store_snapshot_cases [of s rd]) (use assms in \<open>auto simp: holds_built_def\<close>)

lemma cache_step_holds:
  assumes "cache_step H rd rd'" "holds_built H rd"
  shows "holds_built H rd'"
  using assms(1)
proof cases
  case cs_store
  with assms(2) show ?thesis by (simp add: store_snapshot_holds)
next
  case (cs_expire k)
  with assms(2) show ?thesis by (simp add: holds_built_def)
qed (use assms(2) frames(2) [of rd' rd H] in \<open>simp_all add: redis_update_tenant_epoch_def redis_update_user_version_def\<close>)

lemma cache_steps_keep:
  assumes "(cache_step H)\<^sup>*\<^sup>* rd rd'"
  shows "mirror_key key \<Longrightarrow> at_least v key rd \<Longrightarrow> at_least v key rd'" "holds_built H rd \<Longrightarrow> holds_built H rd'"
  using assms by (induction rule: rtranclp_induct) (auto intro: cache_step_at_least cache_step_holds)

section \<open>What a snapshot is built from\<close>

lemma available_tenant_Inr:
  "available_tenant tid clock db = Inr t \<Longrightarrow> identity_tenant tid db = Some t"
  by (auto simp: available_tenant_def split: option.splits if_splits)

lemma identity_tenant_Some:
  "identity_tenant tid db = Some t \<Longrightarrow>
   \<exists>r \<in> set (org_tenants db). tn_tenant_id r = tid \<and> it_authorization_epoch t = tn_authorization_epoch r"
  by (auto simp: identity_tenant_def row_get_def find_Some_iff)

lemma user_by_id_Some:
  "user_by_id tid uid db = Some u \<Longrightarrow> iu_id u = uid \<and> iu_tenant_id u = tid"
  by (auto simp: user_by_id_def to_user_def find_Some_iff)

lemma validate_token_identity_Inr:
  assumes "validate_token_identity ctx claims reads = Inr (t, u)"
  shows "\<exists>db uid db2. id_tenant reads = Inr db \<and> available_tenant (cl_tenant_id claims) (id_clock reads) db = Inr t \<and>
    parse_i64 (cl_sub claims) = Some uid \<and> id_user reads = Inr db2 \<and>
    user_by_id (cl_tenant_id claims) uid db2 = Some u \<and>
    iu_authorization_version u = cl_user_authorization_version claims"
  using assms by (auto simp: validate_token_identity_def bind_result_eq_Inr split: if_splits option.splits)

lemma rebuild_facts:
  assumes "rebuild_authorization_snapshot ctx claims reads = Inr s"
  shows "\<exists>db r. id_tenant reads = Inr db \<and> r \<in> set (org_tenants db) \<and> tn_tenant_id r = cl_tenant_id claims \<and>
      sn_tenant_authorization_epoch s = tn_authorization_epoch r"
    and "ax_tenant_id (pr_actor (sn_principal s)) = cl_tenant_id claims"
    and "parse_i64 (cl_sub claims) = Some (ax_user_id (pr_actor (sn_principal s)))"
    and "pr_tenant_authorization_epoch (sn_principal s) = sn_tenant_authorization_epoch s"
    and "sn_user_authorization_version s = cl_user_authorization_version claims"
proof -
  from assms obtain t u a where v: "validate_token_identity ctx claims reads = Inr (t, u)"
    and s: "s = build_authorization_snapshot t u a"
    by (auto simp: rebuild_authorization_snapshot_def bind_result_eq_Inr)
  from validate_token_identity_Inr [OF v] obtain db uid db2 where
    i: "id_tenant reads = Inr db" "available_tenant (cl_tenant_id claims) (id_clock reads) db = Inr t"
      "parse_i64 (cl_sub claims) = Some uid" "user_by_id (cl_tenant_id claims) uid db2 = Some u"
      "iu_authorization_version u = cl_user_authorization_version claims" by blast
  note t = identity_tenant_Some [OF available_tenant_Inr [OF i(2)]]
  note u = user_by_id_Some [OF i(4)]
  show "\<exists>db r. id_tenant reads = Inr db \<and> r \<in> set (org_tenants db) \<and> tn_tenant_id r = cl_tenant_id claims \<and>
      sn_tenant_authorization_epoch s = tn_authorization_epoch r"
    using t i(1) by (auto simp: s build_authorization_snapshot_def)
  show "ax_tenant_id (pr_actor (sn_principal s)) = cl_tenant_id claims"
    "parse_i64 (cl_sub claims) = Some (ax_user_id (pr_actor (sn_principal s)))"
    "pr_tenant_authorization_epoch (sn_principal s) = sn_tenant_authorization_epoch s"
    "sn_user_authorization_version s = cl_user_authorization_version claims"
    using u i(3,5) by (simp_all add: s build_authorization_snapshot_def)
qed

text \<open>Before time \<open>lo\<close> the tenant's epoch was below \<open>e\<close>.\<close>

definition epoch_below :: "(nat \<Rightarrow> org_db) \<Rightarrow> nat \<Rightarrow> string \<Rightarrow> int \<Rightarrow> bool" where
  "epoch_below H lo tenant_id e \<longleftrightarrow>
     (\<forall>t < lo. \<forall>r \<in> set (org_tenants (H t)). tn_tenant_id r = tenant_id \<longrightarrow> tn_authorization_epoch r < e)"

lemma epoch_makes_fresh:
  assumes "snapshot_since H 0 s" "e \<le> sn_tenant_authorization_epoch s"
    and "epoch_below H lo (ax_tenant_id (pr_actor (sn_principal s))) e"
  shows "snapshot_since H lo s"
proof -
  from assms(1) obtain ctx claims reads where r: "reads_from H 0 reads"
    "rebuild_authorization_snapshot ctx claims reads = Inr s" by (auto simp: snapshot_since_def)
  from r(1) obtain a b c d f where t: "a \<le> b" "b \<le> c" "c \<le> d" "d \<le> f" "read_at H a (id_tenant reads)"
      "read_at H b (id_user reads)" "read_at H c (id_roles reads)" "read_at H d (id_permissions reads)"
      "read_at H f (id_scope reads)" by (auto simp: reads_from_def)
  from rebuild_facts(1) [OF r(2)] obtain row db where db: "id_tenant reads = Inr db" "row \<in> set (org_tenants db)"
    "tn_tenant_id row = cl_tenant_id claims" "sn_tenant_authorization_epoch s = tn_authorization_epoch row" by blast
  have "db = H a" using t(5) db(1) by (simp add: read_at_def)
  then have "\<not> a < lo" using assms(2,3) db(2-4) rebuild_facts(2) [OF r(2)] by (fastforce simp: epoch_below_def)
  with t have "reads_from H lo reads" unfolding reads_from_def by (meson not_less)
  with r(2) show ?thesis by (auto simp: snapshot_since_def)
qed

section \<open>Calls of one resolution\<close>

lemma lookup_state:
  "look_up_at ac claims uid m rd = (r, rd') \<Longrightarrow> rd' = cm_others m rd"
  by (auto simp: look_up_at_def cache_lookup_snapshot_def redis_call_def redis_lookup_snapshot_def Let_def
      split: prod.splits sum.splits redis_link.splits if_splits)

lemma redis_lookup_found:
  assumes "redis_lookup_snapshot tid uid rd = (Inr l, rd')" "lk_snapshot l = Some s"
    and "at_least e (tenant_epoch_key tid) rd"
  shows "e \<le> sn_tenant_authorization_epoch s \<and> (\<exists>k f. rd_snapshots rd k f = Some (Some s))"
proof -
  define F where "F = (case (rd_strings rd (tenant_epoch_key tid), rd_strings rd (user_version_key tid uid)) of
     (Some e, Some v) \<Rightarrow> snapshot_field e v | _ \<Rightarrow> ''__ryframe_missing_snapshot__'')"
  define S where "S = rd_snapshots rd (snapshot_hash_key tid uid) F"
  from assms(1) obtain ep v where p: "parse_optional_version (rd_strings rd (tenant_epoch_key tid)) = Inr ep"
    and c: "(case S of
            None \<Rightarrow> Inr \<lparr>lk_tenant_authorization_epoch = ep, lk_user_authorization_version = v, lk_snapshot = None\<rparr>
          | Some None \<Rightarrow> Inl msg_cache_json
          | Some (Some s) \<Rightarrow>
              if Some (sn_tenant_authorization_epoch s) \<noteq> ep \<or> Some (sn_user_authorization_version s) \<noteq> v
              then Inl msg_cache_mismatch
              else Inr \<lparr>lk_tenant_authorization_epoch = ep, lk_user_authorization_version = v,
                        lk_snapshot = Some s\<rparr>) = Inr l"
    unfolding redis_lookup_snapshot_def Let_def F_def [symmetric] S_def [symmetric] prod.inject bind_result_eq_Inr by blast
  from c assms(2) have S: "S = Some (Some s)" "ep = Some (sn_tenant_authorization_epoch s)"
    by (auto split: option.splits if_splits)
  with p assms(3) have "e \<le> sn_tenant_authorization_epoch s"
    by (auto simp: parse_optional_version_def at_least_def split: option.splits if_splits)
  with S(1) show ?thesis unfolding S_def by blast
qed

lemma lookup_found:
  assumes "look_up_at ac claims uid m rd = (Inr l, rd')" "lk_snapshot l = Some s"
    and "at_least e (tenant_epoch_key (cl_tenant_id claims)) (cm_others m rd)"
  shows "e \<le> sn_tenant_authorization_epoch s \<and> (\<exists>k f. rd_snapshots (cm_others m rd) k f = Some (Some s))"
proof -
  from assms(1,2) obtain rd2 where "redis_lookup_snapshot (cl_tenant_id claims) uid (cm_others m rd) = (Inr l, rd2)"
    by (auto simp: look_up_at_def cache_lookup_snapshot_def redis_call_def lookup_miss_def bind_result_eq_Inr
        split: prod.splits sum.splits redis_link.splits if_splits)
  from redis_lookup_found [OF this assms(2,3)] show ?thesis .
qed

lemma store_state:
  "cache_store_snapshot ac link s rd = (r, rd') \<Longrightarrow> rd' = rd \<or> rd' = snd (redis_store_snapshot s rd)"
  by (auto simp: cache_store_snapshot_def redis_call_def split: prod.splits sum.splits redis_link.splits if_splits)

text \<open>The principal of a request: a snapshot of this tenant and user read since \<open>lo\<close>.\<close>

definition principal_since :: "(nat \<Rightarrow> org_db) \<Rightarrow> nat \<Rightarrow> Claims \<Rightarrow> RequestPrincipal \<Rightarrow> bool" where
  "principal_since H lo claims p \<longleftrightarrow>
     (\<exists>s. snapshot_since H lo s \<and> p = sn_principal s) \<and> ax_tenant_id (pr_actor p) = cl_tenant_id claims \<and>
     parse_i64 (cl_sub claims) = Some (ax_user_id (pr_actor p))"

lemma principal_from_snapshot_since:
  assumes "principal_from_snapshot claims uid s = Inr p" "snapshot_since H lo s"
    and "parse_i64 (cl_sub claims) = Some uid"
  shows "principal_since H lo claims p"
proof -
  have p: "ax_tenant_id (pr_actor (sn_principal s)) = cl_tenant_id claims" "ax_user_id (pr_actor (sn_principal s)) = uid"
    "p = (sn_principal s)\<lparr>pr_tenant_authorization_epoch := sn_tenant_authorization_epoch s\<rparr>"
    using assms(1) by (auto simp: principal_from_snapshot_def split: if_splits)
  have "pr_tenant_authorization_epoch (sn_principal s) = sn_tenant_authorization_epoch s"
    using assms(2) rebuild_facts(4) by (auto simp: snapshot_since_def)
  then have "p = sn_principal s" using p(3) by (cases "sn_principal s") simp
  with p(1,2) assms(2,3) show ?thesis by (auto simp: principal_since_def)
qed

section \<open>Freshness\<close>

definition mirror_ok :: "(nat \<Rightarrow> org_db) \<Rightarrow> int \<Rightarrow> string \<Rightarrow> redis_db \<Rightarrow> bool" where
  "mirror_ok H e tenant_id rd \<longleftrightarrow> at_least e (tenant_epoch_key tenant_id) rd \<and> holds_built H rd"

lemma others_keep: "others_ok H m \<Longrightarrow> mirror_ok H e tid rd \<Longrightarrow> mirror_ok H e tid (cm_others m rd)"
  unfolding others_ok_def mirror_ok_def using cache_steps_keep mirror_keys(1) by blast

lemma snapshot_since_0: "snapshot_since H lo s \<Longrightarrow> snapshot_since H 0 s"
  unfolding snapshot_since_def reads_from_def by blast

lemma store_keeps:
  assumes "cache_store_snapshot ac link s rd = (r, rd')" "snapshot_since H lo s" "mirror_ok H e tid rd"
  shows "mirror_ok H e tid rd'"
  using store_state [OF assms(1)] assms(3) store_snapshot_at_least
    store_snapshot_holds [OF _ snapshot_since_0 [OF assms(2)]]
  unfolding mirror_ok_def by blast

lemma rebuilt_since:
  assumes "rebuild_authorization_snapshot ctx claims reads = Inr s" "reads_from H lo reads"
  shows "snapshot_since H lo s" "principal_since H lo claims (sn_principal s)"
  using assms rebuild_facts(2,3) [OF assms(1)] by (auto simp: snapshot_since_def principal_since_def)

lemma cached_since:
  assumes "look_up_at ac claims uid m rd = (Inr l, rd')" "lk_snapshot l = Some s"
    and "principal_from_snapshot claims uid s = Inr p" "parse_i64 (cl_sub claims) = Some uid"
    and "others_ok H m" "mirror_ok H e (cl_tenant_id claims) rd" "epoch_below H lo (cl_tenant_id claims) e"
  shows "principal_since H lo claims p"
proof -
  have m: "mirror_ok H e (cl_tenant_id claims) (cm_others m rd)" by (rule others_keep [OF assms(5,6)])
  then have "e \<le> sn_tenant_authorization_epoch s" "snapshot_since H 0 s"
    using lookup_found [OF assms(1,2)] by (auto simp: mirror_ok_def holds_built_def)
  moreover have "ax_tenant_id (pr_actor (sn_principal s)) = cl_tenant_id claims"
    using assms(3) by (auto simp: principal_from_snapshot_def split: if_splits)
  ultimately have "snapshot_since H lo s" using epoch_makes_fresh assms(7) by metis
  from principal_from_snapshot_since [OF assms(3) this assms(4)] show ?thesis .
qed

lemma rounds_since:
  assumes "resolve_rounds ctx claims ac uid ns rd = (Inr p, rd')" "\<forall>n \<in> set ns. round_ok H lo n"
    and "parse_i64 (cl_sub claims) = Some uid"
    and "mirror_ok H e (cl_tenant_id claims) rd" "epoch_below H lo (cl_tenant_id claims) e"
  shows "principal_since H lo claims p"
  using assms(1,2,4)
proof (induction ns arbitrary: rd)
  case (Cons n ns)
  have n: "reads_from H lo (rn_reads n)" "others_ok H (rn_store n)" "others_ok H (rn_lookup n)"
    using Cons.prems(2) by (simp_all add: round_ok_def)
  obtain s where s: "rebuild_authorization_snapshot ctx claims (rn_reads n) = Inr s"
    using Cons.prems(1) by (auto split: sum.splits)
  note r = rebuilt_since [OF s n(1)]
  show ?case
  proof (cases "p = sn_principal s")
    case True
    with r(2) show ?thesis by simp
  next
    case False
    obtain x rd1 where st: "cache_store_snapshot ac (cm_link (rn_store n)) s (cm_others (rn_store n) rd) = (x, rd1)"
      by (metis surj_pair)
    obtain y rd2 where lu: "look_up_at ac claims uid (rn_lookup n) rd1 = (y, rd2)" by (metis surj_pair)
    have x: "x = Inr False" using Cons.prems(1) False s st by (auto split: if_splits sum.splits bool.splits)
    have step: "(case y of Inl e \<Rightarrow> (Inl e, rd2) | Inr l \<Rightarrow>
        (case lk_snapshot l of Some s2 \<Rightarrow> (principal_from_snapshot claims uid s2, rd2)
         | None \<Rightarrow> resolve_rounds ctx claims ac uid ns rd2)) = (Inr p, rd')"
      using Cons.prems(1) False s st lu x by (auto split: if_splits sum.splits)
    have m1: "mirror_ok H e (cl_tenant_id claims) rd1"
      by (rule store_keeps [OF st r(1) others_keep [OF n(2) Cons.prems(3)]])
    have m2: "mirror_ok H e (cl_tenant_id claims) rd2"
      using lookup_state [OF lu] others_keep [OF n(3) m1] by simp
    obtain l where l: "y = Inr l" using step by (cases y) auto
    show ?thesis
    proof (cases "lk_snapshot l")
      case None
      with step l have "resolve_rounds ctx claims ac uid ns rd2 = (Inr p, rd')" by simp
      from Cons.IH [OF this _ m2] Cons.prems(2) show ?thesis by simp
    next
      case (Some s2)
      with step l have "principal_from_snapshot claims uid s2 = Inr p" by simp
      from cached_since [OF lu [unfolded l] Some this assms(3) n(3) m1 assms(5)] show ?thesis .
    qed
  qed
qed simp

text \<open>
  C5. A change of authorisation takes effect at once. Suppose a change committed at time \<open>lo\<close> and
  every earlier epoch of the tenant was below \<open>e\<close>, the mirror holds an epoch of at least \<open>e\<close>, the
  cached snapshots were built from the history by any instances at any times, and all instances keep
  offering snapshots, mirroring counters in any order and expiring entries between the calls. Then a
  request that reads the database after the change is given, whatever fails in Redis on the way, either
  an error or a principal of the token's tenant and user built only from reads made at \<open>lo\<close> or later.
\<close>

theorem revocation_effective:
  assumes "epoch_below H lo (cl_tenant_id claims) e"
    and "mirror_ok H e (cl_tenant_id claims) rd"
    and "others_ok H m" "round_ok H lo n1" "round_ok H lo n2"
    and "resolve_principal ctx claims ac m n1 n2 rd = (Inr p, rd')"
  shows "principal_since H lo claims p"
proof -
  from assms(6) obtain uid where u: "parse_i64 (cl_sub claims) = Some uid"
    by (auto simp: resolve_principal_def split: sum.splits option.splits)
  obtain y rd1 where lu: "look_up_at ac claims uid m rd = (y, rd1)" by (metis surj_pair)
  have step: "(case y of Inl e \<Rightarrow> (Inl e, rd1) | Inr l \<Rightarrow>
      (case lk_snapshot l of Some s \<Rightarrow> (principal_from_snapshot claims uid s, rd1)
       | None \<Rightarrow> resolve_rounds ctx claims ac uid [n1, n2] rd1)) = (Inr p, rd')"
    using assms(6) u lu by (auto simp: resolve_principal_def simp del: resolve_rounds.simps split: sum.splits)
  obtain l where l: "y = Inr l" using step by (cases y) auto
  have m1: "mirror_ok H e (cl_tenant_id claims) rd1"
    using lookup_state [OF lu] others_keep [OF assms(3,2)] by simp
  show ?thesis
  proof (cases "lk_snapshot l")
    case None
    with step l have "resolve_rounds ctx claims ac uid [n1, n2] rd1 = (Inr p, rd')" by simp
    from rounds_since [OF this _ u m1 assms(1)] assms(4,5) show ?thesis by simp
  next
    case (Some s)
    with step l have "principal_from_snapshot claims uid s = Inr p" by simp
    from cached_since [OF lu [unfolded l] Some this u assms(3,2,1)] show ?thesis .
  qed
qed

section \<open>A revoked permission\<close>

text \<open>
  A developer may read users through a role. At time 5 the grant is removed and the change committed,
  which raises the epoch from 5 to 6; a snapshot from before is in the cache and offered once more by
  another instance before the request.
\<close>

definition granting_org :: org_db where
  "granting_org = staff_org\<lparr>
     org_roles := [\<lparr>ro_id = 8, ro_tenant_id = ''system'', ro_name = ''lead'', ro_code = ''lead'', ro_is_super = 0,
       ro_data_scope = ''4'', ro_status = ro_STATUS_NORMAL, ro_sort = 0, ro_remark = None,
       ro_del_flag = ro_DEL_FLAG_NORMAL, ro_created_at = 0, ro_updated_at = 0\<rparr>],
     org_user_roles := [\<lparr>ur_tenant_id = ''system'', ur_user_id = 2, ur_role_id = 8\<rparr>],
     org_permissions := [\<lparr>pm_id = 3, pm_tenant_id = ''system'', pm_name = ''users'', pm_code = ''system:user:list'',
       pm_parent_id = None, pm_perm_type = ''api'', pm_icon = None, pm_sort = 0, pm_status = ''1'',
       pm_created_at = 0, pm_updated_at = 0\<rparr>],
     org_role_permissions := [\<lparr>rp_tenant_id = ''system'', rp_role_id = 8, rp_perm_id = 3\<rparr>]\<rparr>"

definition revoked_org :: org_db where
  "revoked_org = snd (complete_mutation sample_env ''system''
     (Inr ((), granting_org\<lparr>org_role_permissions := []\<rparr>)) granting_org)"

definition sample_history :: "nat \<Rightarrow> org_db" where
  "sample_history t = (if t < 5 then granting_org else revoked_org)"

definition sample_reads :: "org_db \<Rightarrow> identity_reads" where
  "sample_reads db = \<lparr>id_tenant = Inr db, id_clock = 0, id_user = Inr db, id_roles = Inr db,
     id_permissions = Inr db, id_scope = Inr db\<rparr>"

definition sample_claims :: Claims where
  "sample_claims = \<lparr>cl_sub = ''2'', cl_tenant_id = ''system'',
     cl_tenant_session_version = tn_session_version sample_tenant, cl_user_authorization_version = 0,
     cl_username = ''dev'', cl_token_type = ''access'', cl_sid = ''s'', cl_jti = ''j'', cl_iat = 0, cl_exp = 9\<rparr>"

definition stale_snapshot :: AuthorizationSnapshot where
  "stale_snapshot = (case rebuild_authorization_snapshot None sample_claims (sample_reads granting_org) of Inr s \<Rightarrow> s)"

definition empty_redis :: redis_db where
  "empty_redis = \<lparr>rd_strings = Map.empty, rd_snapshots = (\<lambda>_. Map.empty), rd_values = (\<lambda>_. Map.empty)\<rparr>"

definition mirrored_redis :: redis_db where
  "mirrored_redis = snd (redis_update_tenant_epoch ''system'' 6 (snd (redis_store_snapshot stale_snapshot empty_redis)))"

definition sample_cache :: AuthorizationCache where
  "sample_cache = \<lparr>ac_enabled = True, ac_required = True\<rparr>"

definition quiet_call :: cache_moment where
  "quiet_call = \<lparr>cm_others = id, cm_link = RedisUp\<rparr>"

definition offering_call :: cache_moment where
  "offering_call = \<lparr>cm_others = (\<lambda>rd. snd (redis_store_snapshot stale_snapshot rd)), cm_link = RedisUp\<rparr>"

definition sample_round :: resolve_round where
  "sample_round = \<lparr>rn_reads = sample_reads revoked_org, rn_store = quiet_call, rn_lookup = quiet_call\<rparr>"

lemma stale_built: "rebuild_authorization_snapshot None sample_claims (sample_reads granting_org) = Inr stale_snapshot"
proof -
  have "is_ok (rebuild_authorization_snapshot None sample_claims (sample_reads granting_org))" by code_simp
  then show ?thesis by (auto simp: is_ok_iff stale_snapshot_def)
qed

lemma sample_reads_from: "reads_from sample_history t (sample_reads (sample_history t))"
  unfolding reads_from_def sample_reads_def read_at_def by (intro exI [of _ t]) simp

lemma stale_since: "snapshot_since sample_history 0 stale_snapshot"
  using stale_built sample_reads_from [of 0] by (auto simp: snapshot_since_def sample_history_def)

lemma revocation_effective_witness:
  "\<exists>p. fst (resolve_principal None sample_claims sample_cache offering_call sample_round sample_round mirrored_redis) = Inr p \<and>
     principal_since sample_history 5 sample_claims p \<and> pr_permissions p = [] \<and>
     pr_permissions (sn_principal stale_snapshot) = [''system:user:list'']"
proof -
  let ?r = "resolve_principal None sample_claims sample_cache offering_call sample_round sample_round mirrored_redis"
  have "is_ok (fst ?r)" "(case fst ?r of Inr p \<Rightarrow> pr_permissions p = [])"
    "pr_permissions (sn_principal stale_snapshot) = [''system:user:list'']" by code_simp+
  then obtain p where p: "fst ?r = Inr p" "pr_permissions p = []"
      "pr_permissions (sn_principal stale_snapshot) = [''system:user:list'']"
    by (auto simp: is_ok_iff)
  have "list_all (\<lambda>r. tn_authorization_epoch r < 6) (org_tenants granting_org)" by code_simp
  then have below: "epoch_below sample_history 5 (cl_tenant_id sample_claims) 6"
    by (auto simp: epoch_below_def sample_history_def list_all_iff)
  have tid: "cl_tenant_id sample_claims = ''system''" by code_simp
  have "at_least 6 (tenant_epoch_key (cl_tenant_id sample_claims)) mirrored_redis" by code_simp
  moreover have "holds_built sample_history mirrored_redis"
    using store_snapshot_holds [OF _ stale_since, of empty_redis]
    by (simp add: mirrored_redis_def redis_update_tenant_epoch_def frames(2) holds_built_def empty_redis_def)
  ultimately have m: "mirror_ok sample_history 6 (cl_tenant_id sample_claims) mirrored_redis"
    by (simp add: mirror_ok_def)
  have q: "others_ok sample_history quiet_call" by (simp add: others_ok_def quiet_call_def)
  have o: "others_ok sample_history offering_call"
    unfolding others_ok_def offering_call_def using cs_store [OF stale_since] by auto
  have r: "round_ok sample_history 5 sample_round"
    using q sample_reads_from [of 5] by (simp add: round_ok_def sample_round_def sample_history_def)
  from revocation_effective [OF below m o r r, of None sample_cache p "snd ?r"] p(1)
  have "principal_since sample_history 5 sample_claims p" by (simp add: prod_eq_iff)
  with p show ?thesis by blast
qed

end
