(* ===== verification/Idempotency.thy ===== *)
theory Idempotency
  imports Rust_Strings Redis_Link
begin

text \<open>
  Idempotent write requests (\<open>ryframe-api/src/middleware/idempotency.rs\<close> with its \<open>response.rs\<close>, and
  the store in Redis, \<open>ryframe-adapters/src/idempotency.rs\<close>). A request with an idempotency key
  reserves the key, runs its handler once, and later requests with the key are answered from the
  stored response. Other requests and other instances act between any two calls. Times are seconds;
  an entry is gone once its end has been reached. SHA-256 is a parameter, and the text of a stored
  response is not modelled: a stored response is read back as it was.
\<close>

section \<open>Requests\<close>

record http_request =
  hq_method :: string
  hq_content_type :: "string option"
  hq_idempotency_key :: "string option"
  hq_principal :: "(string \<times> int) option"
  hq_path :: string
  hq_query :: "string option"
  hq_body :: string

record CachedResponse =
  cr_status :: nat
  cr_body :: string
  cr_headers :: "(string \<times> string) list"

definition MAX_REQUEST_BYTES :: nat where "MAX_REQUEST_BYTES = 10 * 1024 * 1024"
definition MAX_CACHED_RESPONSE_BYTES :: nat where "MAX_CACHED_RESPONSE_BYTES = 1024 * 1024"
definition DEFAULT_PROCESSING_TTL_SECS :: nat where "DEFAULT_PROCESSING_TTL_SECS = 30"

definition is_mutating :: "string \<Rightarrow> bool" where
  "is_mutating m \<longleftrightarrow> m \<in> {''POST'', ''PUT'', ''PATCH'', ''DELETE''}"

definition is_ascii_hexdigit :: "char \<Rightarrow> bool" where
  "is_ascii_hexdigit c \<longleftrightarrow> is_ascii_digit c \<or> (65 \<le> byte c \<and> byte c \<le> 70) \<or> (97 \<le> byte c \<and> byte c \<le> 102)"

definition upper_hex :: "char \<Rightarrow> char" where
  "upper_hex c = (if 97 \<le> byte c \<and> byte c \<le> 122 then char_of (byte c - 32) else c)"

fun normalize_percent_escape_casing :: "string \<Rightarrow> string" where
  "normalize_percent_escape_casing (p # a # b # s) =
     (if p = CHR ''%'' \<and> is_ascii_hexdigit a \<and> is_ascii_hexdigit b
      then p # upper_hex a # upper_hex b # normalize_percent_escape_casing s
      else p # normalize_percent_escape_casing (a # b # s))"
| "normalize_percent_escape_casing s = s"

definition normalize_request_path :: "string \<Rightarrow> string" where
  "normalize_request_path path = (if path = [] then ''/'' else normalize_percent_escape_casing path)"

definition normalize_query :: "string \<Rightarrow> string" where
  "normalize_query query =
     join_with ''&'' (sort (map normalize_percent_escape_casing (split_on CHR ''&'' query)))"

definition normalized_request_target :: "string \<Rightarrow> string option \<Rightarrow> string" where
  "normalized_request_target path query =
     (case query of
        Some q \<Rightarrow> if q \<noteq> [] then normalize_request_path path @ ''?'' @ normalize_query q
                  else normalize_request_path path
      | None \<Rightarrow> normalize_request_path path)"

abbreviation newline :: string where "newline \<equiv> [CHR 0x0A]"

definition storage_key :: "(string \<Rightarrow> string) \<Rightarrow> string \<Rightarrow> int \<Rightarrow> string \<Rightarrow> string" where
  "storage_key sha tenant_id user_id raw_key =
     sha (tenant_id @ newline @ show_int user_id @ newline @ raw_key)"

definition request_fingerprint ::
  "(string \<Rightarrow> string) \<Rightarrow> string \<Rightarrow> int \<Rightarrow> string \<Rightarrow> string \<Rightarrow> string \<Rightarrow> string" where
  "request_fingerprint sha tenant_id user_id method_name target body =
     sha (tenant_id @ newline @ show_int user_id @ newline @ method_name @ newline @ target @ newline @ sha body)"

text \<open>What becomes of a request before the store is asked.\<close>

datatype admission =
    PassThrough
  | Refuse nat string
  | Keyed string string

definition ascii_lower :: "char \<Rightarrow> char" where
  "ascii_lower c = (if is_ascii_uppercase c then char_of (byte c + 32) else c)"

definition is_multipart :: "string \<Rightarrow> bool" where
  "is_multipart value \<longleftrightarrow> map ascii_lower (trim (hd (split_on CHR '';'' value))) = ''multipart/form-data''"

text \<open>\<open>HeaderValue::to_str\<close>\<close>

definition header_to_str :: "string \<Rightarrow> string option" where
  "header_to_str v =
     (if list_all (\<lambda>c. c = CHR 0x09 \<or> 32 \<le> byte c \<and> byte c < 127) v then Some v else None)"

definition header_text :: "string option \<Rightarrow> string option" where
  "header_text h = (case h of Some v \<Rightarrow> header_to_str v | None \<Rightarrow> None)"

definition admit :: "(string \<Rightarrow> string) \<Rightarrow> http_request \<Rightarrow> admission" where
  "admit sha r =
     (if \<not> is_mutating (hq_method r) then PassThrough
      else if (case header_text (hq_content_type r) of Some v \<Rightarrow> is_multipart v | None \<Rightarrow> False) then PassThrough
      else case header_text (hq_idempotency_key r) of
        None \<Rightarrow> PassThrough
      | Some raw_key \<Rightarrow>
          if raw_key = [] then PassThrough
          else if 128 < length raw_key \<or> list_ex (\<lambda>c. \<not> (0x21 \<le> byte c \<and> byte c \<le> 0x7e)) raw_key
          then Refuse 400 ''invalid Idempotency-Key''
          else case hq_principal r of
            None \<Rightarrow> Refuse 401 ''authentication required''
          | Some (tenant_id, user_id) \<Rightarrow>
              if MAX_REQUEST_BYTES < length (hq_body r) then Refuse 413 ''request body is too large''
              else Keyed (storage_key sha tenant_id user_id raw_key)
                     (request_fingerprint sha tenant_id user_id (hq_method r)
                        (normalized_request_target (hq_path r) (hq_query r)) (hq_body r)))"

section \<open>Responses\<close>

definition is_replayable_response_header :: "string \<Rightarrow> bool" where
  "is_replayable_response_header name \<longleftrightarrow> name \<in> {''content-type'', ''location'', ''etag''}"

definition cacheable_response_headers :: "(string \<times> string) list \<Rightarrow> (string \<times> string) list" where
  "cacheable_response_headers headers =
     concat (map (\<lambda>name. filter (\<lambda>h. fst h = name) headers) [''content-type'', ''location'', ''etag''])"

definition rebuild_response :: "CachedResponse \<Rightarrow> CachedResponse" where
  "rebuild_response c =
     \<lparr>cr_status = (if 100 \<le> cr_status c \<and> cr_status c < 1000 then cr_status c else 200),
      cr_body = cr_body c,
      cr_headers = filter (\<lambda>h. is_replayable_response_header (fst h)) (cr_headers c) @
        [(''x-idempotency-replay'', ''true'')]\<rparr>"

definition plain_response :: "nat \<Rightarrow> string \<Rightarrow> CachedResponse" where
  "plain_response status text =
     \<lparr>cr_status = status, cr_body = text, cr_headers = [(''content-type'', ''text/plain; charset=utf-8'')]\<rparr>"

definition conflict_response :: "string \<Rightarrow> nat \<Rightarrow> CachedResponse" where
  "conflict_response text retry_after =
     (plain_response 409 text)\<lparr>cr_headers := [(''content-type'', ''text/plain; charset=utf-8''),
        (''retry-after'', show_nat retry_after)]\<rparr>"

definition unavailable_response :: CachedResponse where
  "unavailable_response = plain_response 503 ''idempotency service unavailable''"

section \<open>The store in Redis\<close>

definition idempotency_meta_key :: "string \<Rightarrow> string" where
  "idempotency_meta_key key = ''ryframe:v0.7:idempotency:'' @ key @ '':meta''"

definition idempotency_response_key :: "string \<Rightarrow> string" where
  "idempotency_response_key key = ''ryframe:v0.7:idempotency:'' @ key @ '':response''"

definition idempotency_guard_key :: "string \<Rightarrow> string" where
  "idempotency_guard_key key = ''ryframe:v0.7:idempotency:'' @ key @ '':guard''"

record idem_meta =
  im_state :: string
  im_fingerprint :: string
  im_until :: nat

record idem_db =
  id_meta :: "string \<Rightarrow> idem_meta option"
  id_response :: "string \<Rightarrow> (CachedResponse \<times> nat) option"
  id_guard :: "string \<Rightarrow> (string \<times> nat) option"

definition meta_at :: "nat \<Rightarrow> string \<Rightarrow> idem_db \<Rightarrow> idem_meta option" where
  "meta_at now key db =
     (case id_meta db (idempotency_meta_key key) of
        Some m \<Rightarrow> if now < im_until m then Some m else None
      | None \<Rightarrow> None)"

definition guard_at :: "nat \<Rightarrow> string \<Rightarrow> idem_db \<Rightarrow> string option" where
  "guard_at now key db =
     (case id_guard db (idempotency_guard_key key) of
        Some (g, t) \<Rightarrow> if now < t then Some g else None
      | None \<Rightarrow> None)"

definition response_at :: "nat \<Rightarrow> string \<Rightarrow> idem_db \<Rightarrow> CachedResponse option" where
  "response_at now key db =
     (case id_response db (idempotency_response_key key) of
        Some (r, t) \<Rightarrow> if now < t then Some r else None
      | None \<Rightarrow> None)"

definition put_meta :: "string \<Rightarrow> idem_meta option \<Rightarrow> idem_db \<Rightarrow> idem_db" where
  "put_meta key m db = db\<lparr>id_meta := (id_meta db)(idempotency_meta_key key := m)\<rparr>"

definition put_guard :: "string \<Rightarrow> (string \<times> nat) option \<Rightarrow> idem_db \<Rightarrow> idem_db" where
  "put_guard key g db = db\<lparr>id_guard := (id_guard db)(idempotency_guard_key key := g)\<rparr>"

definition put_response :: "string \<Rightarrow> (CachedResponse \<times> nat) option \<Rightarrow> idem_db \<Rightarrow> idem_db" where
  "put_response key r db = db\<lparr>id_response := (id_response db)(idempotency_response_key key := r)\<rparr>"

text \<open>
  The transaction of a reservation and the code it answers with: 1 acquired, 2 conflict, 3 processing,
  4 not replayable, 5 completed, 6 unknown. The response of a completed key is read by a call of its own.
\<close>

definition reserve_transaction ::
  "string \<Rightarrow> string \<Rightarrow> nat \<Rightarrow> nat \<Rightarrow> idem_db \<Rightarrow> (string + nat) \<times> idem_db" where
  "reserve_transaction key fingerprint processing_ttl now db =
     (case meta_at now key db of
        Some m \<Rightarrow>
          (Inr (if im_fingerprint m \<noteq> fingerprint then 2
                else if im_state m = ''processing'' then 3
                else if im_state m = ''non_replayable'' then 4
                else if im_state m = ''completed'' then 5 else 6), db)
      | None \<Rightarrow>
          (case guard_at now key db of
             Some g \<Rightarrow> (Inr (if g = fingerprint then 4 else 2), db)
           | None \<Rightarrow>
               (Inr 1, put_meta key (Some \<lparr>im_state = ''processing'', im_fingerprint = fingerprint,
                          im_until = now + processing_ttl\<rparr>) db)))"

definition begin_transaction ::
  "string \<Rightarrow> string \<Rightarrow> nat \<Rightarrow> nat \<Rightarrow> idem_db \<Rightarrow> (string + unit) \<times> idem_db" where
  "begin_transaction key fingerprint completed_ttl now db =
     (case meta_at now key db of
        Some m \<Rightarrow>
          if im_fingerprint m \<noteq> fingerprint \<or> im_state m \<noteq> ''processing''
          then (Inl ''rejected'', db)
          else (Inr (), put_guard key (Some (fingerprint, now + completed_ttl)) db)
      | None \<Rightarrow> (Inl ''rejected'', db))"

definition complete_transaction ::
  "string \<Rightarrow> string \<Rightarrow> CachedResponse \<Rightarrow> nat \<Rightarrow> nat \<Rightarrow> idem_db \<Rightarrow> (string + unit) \<times> idem_db" where
  "complete_transaction key fingerprint response completed_ttl now db =
     (case meta_at now key db of
        Some m \<Rightarrow>
          if im_fingerprint m \<noteq> fingerprint then (Inl ''rejected'', db)
          else (Inr (), put_guard key None
                  (put_meta key (Some (m\<lparr>im_state := ''completed'', im_until := now + completed_ttl\<rparr>))
                    (put_response key (Some (response, now + completed_ttl)) db)))
      | None \<Rightarrow> (Inl ''rejected'', db))"

definition non_replayable_transaction ::
  "string \<Rightarrow> string \<Rightarrow> nat \<Rightarrow> nat \<Rightarrow> idem_db \<Rightarrow> (string + unit) \<times> idem_db" where
  "non_replayable_transaction key fingerprint completed_ttl now db =
     (case meta_at now key db of
        Some m \<Rightarrow>
          if im_fingerprint m \<noteq> fingerprint then (Inl ''rejected'', db)
          else (Inr (), put_meta key (Some (m\<lparr>im_state := ''non_replayable'', im_until := now + completed_ttl\<rparr>)) db)
      | None \<Rightarrow> (Inl ''rejected'', db))"

section \<open>The state of an instance\<close>

datatype LocalState = LProcessing | LCompleted CachedResponse | LNonReplayable

record LocalRecord =
  lr_fingerprint :: string
  lr_state :: LocalState
  lr_expires_at :: nat

type_synonym local_map = "string \<Rightarrow> LocalRecord option"

datatype Reservation = RAcquired | RProcessing | RConflict | RCompleted CachedResponse | RNonReplayable

record IdempotencyState =
  is_distributed :: bool
  completed_ttl_secs :: nat
  processing_ttl_secs :: nat

definition IdempotencyState_new :: "bool \<Rightarrow> nat \<Rightarrow> IdempotencyState" where
  "IdempotencyState_new distributed ttl =
     \<lparr>is_distributed = distributed, completed_ttl_secs = max ttl 1, processing_ttl_secs = DEFAULT_PROCESSING_TTL_SECS\<rparr>"

definition with_processing_ttl :: "nat \<Rightarrow> IdempotencyState \<Rightarrow> IdempotencyState" where
  "with_processing_ttl ttl st = st\<lparr>processing_ttl_secs := max ttl 1\<rparr>"

definition local_terminal :: "string \<Rightarrow> string \<Rightarrow> nat \<Rightarrow> local_map \<Rightarrow> Reservation option \<times> local_map" where
  "local_terminal key fingerprint now m =
     (case m key of
        None \<Rightarrow> (None, m)
      | Some r \<Rightarrow>
          if lr_expires_at r \<le> now then (None, m(key := None))
          else if lr_fingerprint r \<noteq> fingerprint then (Some RConflict, m)
          else (case lr_state r of
                  LCompleted response \<Rightarrow> Some (RCompleted response)
                | LNonReplayable \<Rightarrow> Some RNonReplayable
                | LProcessing \<Rightarrow> None, m))"

definition reserve_local :: "IdempotencyState \<Rightarrow> string \<Rightarrow> string \<Rightarrow> nat \<Rightarrow> local_map \<Rightarrow> Reservation \<times> local_map" where
  "reserve_local st key fingerprint now m =
     (let fresh = \<lparr>lr_fingerprint = fingerprint, lr_state = LProcessing, lr_expires_at = now + processing_ttl_secs st\<rparr>
      in case m key of
           None \<Rightarrow> (RAcquired, m(key \<mapsto> fresh))
         | Some r \<Rightarrow>
             if lr_expires_at r \<le> now then (RAcquired, m(key \<mapsto> fresh))
             else if lr_fingerprint r \<noteq> fingerprint then (RConflict, m)
             else (case lr_state r of
                     LProcessing \<Rightarrow> RProcessing
                   | LCompleted response \<Rightarrow> RCompleted response
                   | LNonReplayable \<Rightarrow> RNonReplayable, m))"

definition store_local_terminal ::
  "IdempotencyState \<Rightarrow> string \<Rightarrow> string \<Rightarrow> LocalState \<Rightarrow> nat \<Rightarrow> local_map \<Rightarrow> local_map" where
  "store_local_terminal st key fingerprint state now m =
     m(key \<mapsto> \<lparr>lr_fingerprint = fingerprint, lr_state = state, lr_expires_at = now + completed_ttl_secs st\<rparr>)"

definition local_gc :: "nat \<Rightarrow> local_map \<Rightarrow> local_map" where
  "local_gc now m = (\<lambda>k. case m k of Some r \<Rightarrow> if now < lr_expires_at r then Some r else None | None \<Rightarrow> None)"

section \<open>One request\<close>

datatype handler_outcome = HFailed CachedResponse | HUnreadable | HOk CachedResponse

text \<open>
  Where a request with a key stands: before the reservation; between the answer that the key is
  completed and reading the response (with the end of that record); between the reservation and the
  guard (with the end of the reservation); with its handler running since \<open>s\<close>; releasing, marking or
  storing after the handler has returned; or answered.
\<close>

datatype request_phase =
    PNew
  | PReading nat
  | PReserved nat
  | PExecuting nat
  | PReleasing nat nat CachedResponse
  | PMarking nat CachedResponse
  | PStoring nat CachedResponse
  | PCompleted nat CachedResponse
  | PReplayed CachedResponse
  | PAnswered CachedResponse

record keyed_request =
  kr_key :: string
  kr_fingerprint :: string
  kr_instance :: nat

definition reservation_phase :: "Reservation \<Rightarrow> nat \<Rightarrow> request_phase" where
  "reservation_phase r end_of_reservation =
     (case r of
        RAcquired \<Rightarrow> PReserved end_of_reservation
      | RProcessing \<Rightarrow> PAnswered (conflict_response ''an identical request is still processing'' 1)
      | RConflict \<Rightarrow> PAnswered (plain_response 409 ''Idempotency-Key was reused with a different request'')
      | RNonReplayable \<Rightarrow> PAnswered (plain_response 409 ''the original result cannot be replayed'')
      | RCompleted c \<Rightarrow> PReplayed c)"

definition cached_of :: "CachedResponse \<Rightarrow> CachedResponse" where
  "cached_of response = response\<lparr>cr_headers := cacheable_response_headers (cr_headers response)\<rparr>"

definition reserve_call ::
  "IdempotencyState \<Rightarrow> keyed_request \<Rightarrow> redis_link \<Rightarrow> nat \<Rightarrow> idem_db \<Rightarrow> local_map \<Rightarrow>
   request_phase \<times> idem_db \<times> local_map" where
  "reserve_call st rq link now db m =
     (if \<not> is_distributed st
      then (case reserve_local st (kr_key rq) (kr_fingerprint rq) now m of
              (r, m') \<Rightarrow> (reservation_phase r (now + processing_ttl_secs st), db, m'))
      else
        (case local_terminal (kr_key rq) (kr_fingerprint rq) now m of
           (Some r, m') \<Rightarrow> (reservation_phase r 0, db, m')
         | (None, m') \<Rightarrow>
             (case redis_call link
                (reserve_transaction (kr_key rq) (kr_fingerprint rq) (processing_ttl_secs st) now) db of
                (Inl e, db') \<Rightarrow> (PAnswered unavailable_response, db', m')
              | (Inr code, db') \<Rightarrow>
                  (if code = 1 then PReserved (now + processing_ttl_secs st)
                   else if code = 2 then reservation_phase RConflict 0
                   else if code = 3 then reservation_phase RProcessing 0
                   else if code = 4 then reservation_phase RNonReplayable 0
                   else if code = 5
                   then PReading (case meta_at now (kr_key rq) db of Some r \<Rightarrow> im_until r | None \<Rightarrow> 0)
                   else PAnswered unavailable_response, db', m'))))"

definition read_call ::
  "keyed_request \<Rightarrow> redis_link \<Rightarrow> nat \<Rightarrow> idem_db \<Rightarrow> request_phase" where
  "read_call rq link now db =
     (case redis_call link (\<lambda>db. (Inr (response_at now (kr_key rq) db), db)) db of
        (Inr (Some c), _) \<Rightarrow> PReplayed c
      | _ \<Rightarrow> PAnswered unavailable_response)"

definition begin_call ::
  "IdempotencyState \<Rightarrow> keyed_request \<Rightarrow> redis_link \<Rightarrow> nat \<Rightarrow> idem_db \<Rightarrow> request_phase \<times> idem_db" where
  "begin_call st rq link now db =
     (if \<not> is_distributed st then (PExecuting now, db)
      else
        (case redis_call link (begin_transaction (kr_key rq) (kr_fingerprint rq) (completed_ttl_secs st) now) db of
           (Inr _, db') \<Rightarrow> (PExecuting now, db')
         | (Inl e, db') \<Rightarrow> (PAnswered unavailable_response, db')))"

text \<open>The three deletions of a release are calls of their own; their errors are ignored.\<close>

definition release_call ::
  "IdempotencyState \<Rightarrow> keyed_request \<Rightarrow> redis_link \<Rightarrow> nat \<Rightarrow> nat \<Rightarrow> CachedResponse \<Rightarrow> idem_db \<Rightarrow> local_map \<Rightarrow>
   request_phase \<times> idem_db \<times> local_map" where
  "release_call st rq link s left response db m =
     (if \<not> is_distributed st then (PAnswered response, db, m(kr_key rq := None))
      else
        let deletion = (if left = 0 then put_guard (kr_key rq) None
                        else if left = 1 then put_response (kr_key rq) None
                        else put_meta (kr_key rq) None)
        in (if left = 0 then PAnswered response else PReleasing s (left - 1) response,
            snd (redis_call link (\<lambda>db. (Inr (), deletion db)) db), m))"

definition mark_call ::
  "IdempotencyState \<Rightarrow> keyed_request \<Rightarrow> redis_link \<Rightarrow> nat \<Rightarrow> idem_db \<Rightarrow> local_map \<Rightarrow> idem_db \<times> local_map" where
  "mark_call st rq link now db m =
     (if \<not> is_distributed st
      then (db, store_local_terminal st (kr_key rq) (kr_fingerprint rq) LNonReplayable now m)
      else
        (case redis_call link
           (non_replayable_transaction (kr_key rq) (kr_fingerprint rq) (completed_ttl_secs st) now) db of
           (Inr _, db') \<Rightarrow> (db', m)
         | (Inl e, db') \<Rightarrow>
             (db', store_local_terminal st (kr_key rq) (kr_fingerprint rq) LNonReplayable now m)))"

definition complete_call ::
  "IdempotencyState \<Rightarrow> keyed_request \<Rightarrow> redis_link \<Rightarrow> CachedResponse \<Rightarrow> nat \<Rightarrow> idem_db \<Rightarrow> local_map \<Rightarrow>
   idem_db \<times> local_map" where
  "complete_call st rq link c now db m =
     (if \<not> is_distributed st
      then (db, store_local_terminal st (kr_key rq) (kr_fingerprint rq) (LCompleted c) now m)
      else
        (case redis_call link
           (complete_transaction (kr_key rq) (kr_fingerprint rq) c (completed_ttl_secs st) now) db of
           (Inr _, db') \<Rightarrow> (db', m)
         | (Inl e, db') \<Rightarrow>
             (db', store_local_terminal st (kr_key rq) (kr_fingerprint rq) (LCompleted c) now m)))"

definition call_step ::
  "IdempotencyState \<Rightarrow> keyed_request \<Rightarrow> redis_link \<Rightarrow> nat \<Rightarrow> request_phase \<Rightarrow> idem_db \<Rightarrow> local_map \<Rightarrow>
   request_phase \<times> idem_db \<times> local_map" where
  "call_step st rq link now phase db m =
     (case phase of
        PNew \<Rightarrow> reserve_call st rq link now db m
      | PReading u \<Rightarrow> (read_call rq link now db, db, m)
      | PReserved u \<Rightarrow> (case begin_call st rq link now db of (p, db') \<Rightarrow> (p, db', m))
      | PReleasing s left response \<Rightarrow> release_call st rq link s left response db m
      | PMarking s response \<Rightarrow> (PCompleted s response, mark_call st rq link now db m)
      | PStoring s response \<Rightarrow> (PCompleted s response, complete_call st rq link (cached_of response) now db m)
      | _ \<Rightarrow> (phase, db, m))"

definition return_step :: "handler_outcome \<Rightarrow> request_phase \<Rightarrow> request_phase" where
  "return_step h phase =
     (case phase of
        PExecuting s \<Rightarrow>
          (case h of
             HFailed response \<Rightarrow> PReleasing s 2 response
           | HUnreadable \<Rightarrow> PMarking s (plain_response 500 ''failed to read response body'')
           | HOk response \<Rightarrow>
               if MAX_CACHED_RESPONSE_BYTES < length (cr_body response) then PMarking s response
               else PStoring s response)
      | _ \<Rightarrow> phase)"

text \<open>The response the client gets.\<close>

definition client_response :: "request_phase \<Rightarrow> CachedResponse option" where
  "client_response phase =
     (case phase of
        PCompleted s response \<Rightarrow> Some response
      | PReplayed c \<Rightarrow> Some (rebuild_response c)
      | PAnswered response \<Rightarrow> Some response
      | _ \<Rightarrow> None)"

section \<open>Many requests\<close>

record idem_system =
  sy_db :: idem_db
  sy_local :: "nat \<Rightarrow> local_map"
  sy_phase :: "nat \<Rightarrow> request_phase"

datatype idem_action = ACall redis_link | AReturn handler_outcome | AGc

text \<open>An action of a request \<open>i\<close>, or the collection of garbage on an instance \<open>i\<close>, at a time.\<close>

type_synonym idem_event = "nat \<times> nat \<times> idem_action"

fun idem_step :: "IdempotencyState \<Rightarrow> (nat \<Rightarrow> keyed_request) \<Rightarrow> idem_event \<Rightarrow> idem_system \<Rightarrow> idem_system" where
  "idem_step st req (now, i, ACall link) sy =
     (let n = kr_instance (req i)
      in case call_step st (req i) link now (sy_phase sy i) (sy_db sy) (sy_local sy n) of
           (p, db, m) \<Rightarrow> sy\<lparr>sy_db := db, sy_local := (sy_local sy)(n := m), sy_phase := (sy_phase sy)(i := p)\<rparr>)"
| "idem_step st req (now, i, AReturn h) sy =
     sy\<lparr>sy_phase := (sy_phase sy)(i := return_step h (sy_phase sy i))\<rparr>"
| "idem_step st req (now, i, AGc) sy =
     sy\<lparr>sy_local := (sy_local sy)(i := local_gc now (sy_local sy i))\<rparr>"

definition idem_init :: idem_system where
  "idem_init = \<lparr>sy_db = \<lparr>id_meta = Map.empty, id_response = Map.empty, id_guard = Map.empty\<rparr>,
     sy_local = (\<lambda>_. Map.empty), sy_phase = (\<lambda>_. PNew)\<rparr>"

end
