(* ===== verification/Idempotency_Properties.thy ===== *)
theory Idempotency_Properties
  imports Idempotency
begin

text \<open>
  What idempotent requests can rely on, for every interleaving of requests on any number of instances
  that share one Redis, with calls that fail or whose answer is lost. The two properties are about
  the mode with Redis and about timely runs (\<open>timely_run\<close>): the clock does not go back, a request
  begins its handler before its reservation ends, settles its result before its guard ends, and reads
  a stored response before the record it was told of ends. The code does not enforce these bounds;
  \<open>late_begin_runs_twice\<close>, \<open>late_read_replays_other\<close> and \<open>slow_local_handler_runs_twice\<close> show what
  happens outside them.
\<close>

section \<open>Runs\<close>

definition idem_run :: "IdempotencyState \<Rightarrow> (nat \<Rightarrow> keyed_request) \<Rightarrow> idem_event list \<Rightarrow> idem_system" where
  "idem_run st req evs = fold (idem_step st req) evs idem_init"

text \<open>When a request started its handler, as long as the handler has not failed and been released.\<close>

fun running_since :: "request_phase \<Rightarrow> nat option" where
  "running_since (PExecuting s) = Some s"
| "running_since (PReleasing s n r) = Some s"
| "running_since (PMarking s r) = Some s"
| "running_since (PStoring s r) = Some s"
| "running_since _ = None"

fun started_at :: "request_phase \<Rightarrow> nat option" where
  "started_at (PCompleted s r) = Some s"
| "started_at p = running_since p"

fun timely_phase :: "IdempotencyState \<Rightarrow> nat \<Rightarrow> request_phase \<Rightarrow> bool" where
  "timely_phase st now (PReading u) \<longleftrightarrow> now < u"
| "timely_phase st now (PReserved u) \<longleftrightarrow> now < u"
| "timely_phase st now (PReleasing s n r) \<longleftrightarrow> now < s + completed_ttl_secs st"
| "timely_phase st now (PMarking s r) \<longleftrightarrow> now < s + completed_ttl_secs st"
| "timely_phase st now (PStoring s r) \<longleftrightarrow> now < s + completed_ttl_secs st"
| "timely_phase st now _ \<longleftrightarrow> True"

fun timely_event :: "IdempotencyState \<Rightarrow> idem_event \<Rightarrow> idem_system \<Rightarrow> bool" where
  "timely_event st (now, i, ACall link) sy \<longleftrightarrow> timely_phase st now (sy_phase sy i)"
| "timely_event st _ sy \<longleftrightarrow> True"

text \<open>The clock does not go back, and every call on Redis is made in time.\<close>

fun timely_from :: "IdempotencyState \<Rightarrow> (nat \<Rightarrow> keyed_request) \<Rightarrow> nat \<Rightarrow> idem_system \<Rightarrow> idem_event list \<Rightarrow> bool" where
  "timely_from st req t sy [] \<longleftrightarrow> True"
| "timely_from st req t sy (e # es) \<longleftrightarrow>
     t \<le> fst e \<and> timely_event st e sy \<and> timely_from st req (fst e) (idem_step st req e sy) es"

definition timely_run :: "IdempotencyState \<Rightarrow> (nat \<Rightarrow> keyed_request) \<Rightarrow> idem_event list \<Rightarrow> bool" where
  "timely_run st req evs = timely_from st req 0 idem_init evs"

lemma started_of_running: "running_since p = Some s \<Longrightarrow> started_at p = Some s"
  by (cases p) auto

lemma started_cases: "started_at p = Some s \<Longrightarrow> running_since p = Some s \<or> (\<exists>r. p = PCompleted s r)"
  by (cases p) auto

section \<open>One key\<close>

text \<open>
  The invariant of one key over its record, its guard and the phases of its requests: those that have
  started are a whole lifetime apart, one that is inside its lifetime is covered by a guard or a
  record, and a live reservation is alone.
\<close>

definition covered :: "nat \<Rightarrow> idem_meta option \<Rightarrow> (string \<times> nat) option \<Rightarrow> bool" where
  "covered t mt gd \<longleftrightarrow> (\<exists>g u. gd = Some (g, u) \<and> t \<le> u) \<or> (\<exists>m. mt = Some m \<and> t \<le> im_until m)"

definition guarded :: "nat \<Rightarrow> (string \<times> nat) option \<Rightarrow> bool" where
  "guarded t gd \<longleftrightarrow> (\<exists>g u. gd = Some (g, u) \<and> t \<le> u)"

definition key_inv ::
  "nat \<Rightarrow> nat \<Rightarrow> idem_meta option \<Rightarrow> (string \<times> nat) option \<Rightarrow> (nat \<Rightarrow> request_phase) \<Rightarrow> bool" where
  "key_inv C now mt gd ph \<longleftrightarrow>
     (\<forall>i s. started_at (ph i) = Some s \<longrightarrow> s \<le> now) \<and>
     (\<forall>i j s s'. i \<noteq> j \<longrightarrow> started_at (ph i) = Some s \<longrightarrow> started_at (ph j) = Some s' \<longrightarrow> s \<le> s' \<longrightarrow> s + C \<le> s') \<and>
     (\<forall>i s. running_since (ph i) = Some s \<longrightarrow> now < s + C \<longrightarrow> guarded (s + C) gd) \<and>
     (\<forall>i s r. ph i = PCompleted s r \<longrightarrow> now < s + C \<longrightarrow> covered (s + C) mt gd) \<and>
     (\<forall>i u. ph i = PReserved u \<longrightarrow> now < u \<longrightarrow>
        (\<exists>m. mt = Some m \<and> im_state m = ''processing'' \<and> u \<le> im_until m) \<and>
        (\<forall>j u'. j \<noteq> i \<longrightarrow> ph j = PReserved u' \<longrightarrow> u' \<le> now) \<and>
        (\<forall>j s. started_at (ph j) = Some s \<longrightarrow> s + C \<le> now)) \<and>
     (\<forall>m i s. mt = Some m \<longrightarrow> now < im_until m \<longrightarrow> im_state m \<noteq> ''processing'' \<longrightarrow>
        running_since (ph i) = Some s \<longrightarrow> s + C \<le> now)"

lemma key_invI:
  assumes "\<And>i s. started_at (ph i) = Some s \<Longrightarrow> s \<le> now"
    and "\<And>i j s s'. \<lbrakk>i \<noteq> j; started_at (ph i) = Some s; started_at (ph j) = Some s'; s \<le> s'\<rbrakk> \<Longrightarrow> s + C \<le> s'"
    and "\<And>i s. \<lbrakk>running_since (ph i) = Some s; now < s + C\<rbrakk> \<Longrightarrow> guarded (s + C) gd"
    and "\<And>i s r. \<lbrakk>ph i = PCompleted s r; now < s + C\<rbrakk> \<Longrightarrow> covered (s + C) mt gd"
    and "\<And>i u. \<lbrakk>ph i = PReserved u; now < u\<rbrakk> \<Longrightarrow> \<exists>m. mt = Some m \<and> im_state m = ''processing'' \<and> u \<le> im_until m"
    and "\<And>i u j u'. \<lbrakk>ph i = PReserved u; now < u; j \<noteq> i; ph j = PReserved u'\<rbrakk> \<Longrightarrow> u' \<le> now"
    and "\<And>i u j s. \<lbrakk>ph i = PReserved u; now < u; started_at (ph j) = Some s\<rbrakk> \<Longrightarrow> s + C \<le> now"
    and "\<And>m i s. \<lbrakk>mt = Some m; now < im_until m; im_state m \<noteq> ''processing''; running_since (ph i) = Some s\<rbrakk>
          \<Longrightarrow> s + C \<le> now"
  shows "key_inv C now mt gd ph"
  unfolding key_inv_def
  by (intro conjI allI impI; (rule assms; assumption))

lemma key_invD:
  assumes "key_inv C now mt gd ph"
  shows "started_at (ph i) = Some s \<Longrightarrow> s \<le> now"
    and "\<lbrakk>i \<noteq> j; started_at (ph i) = Some s; started_at (ph j) = Some s'; s \<le> s'\<rbrakk> \<Longrightarrow> s + C \<le> s'"
    and "\<lbrakk>running_since (ph i) = Some s; now < s + C\<rbrakk> \<Longrightarrow> guarded (s + C) gd"
    and "\<lbrakk>ph i = PCompleted s r; now < s + C\<rbrakk> \<Longrightarrow> covered (s + C) mt gd"
    and "\<lbrakk>ph i = PReserved u; now < u\<rbrakk> \<Longrightarrow> \<exists>m. mt = Some m \<and> im_state m = ''processing'' \<and> u \<le> im_until m"
    and "\<lbrakk>ph i = PReserved u; now < u; j \<noteq> i; ph j = PReserved u'\<rbrakk> \<Longrightarrow> u' \<le> now"
    and "\<lbrakk>ph i = PReserved u; now < u; started_at (ph j) = Some s\<rbrakk> \<Longrightarrow> s + C \<le> now"
    and "\<lbrakk>mt = Some m; now < im_until m; im_state m \<noteq> ''processing''; running_since (ph i) = Some s\<rbrakk>
          \<Longrightarrow> s + C \<le> now"
proof -
  note c = assms [unfolded key_inv_def]
  note c2 = c [THEN conjunct2]
  note c3 = c2 [THEN conjunct2]
  note c4 = c3 [THEN conjunct2]
  note c5 = c4 [THEN conjunct2]
  note r = c5 [THEN conjunct1, rule_format]
  show "started_at (ph i) = Some s \<Longrightarrow> s \<le> now" by (rule c [THEN conjunct1, rule_format])
  show "\<lbrakk>i \<noteq> j; started_at (ph i) = Some s; started_at (ph j) = Some s'; s \<le> s'\<rbrakk> \<Longrightarrow> s + C \<le> s'"
    by (rule c2 [THEN conjunct1, rule_format])
  show "\<lbrakk>running_since (ph i) = Some s; now < s + C\<rbrakk> \<Longrightarrow> guarded (s + C) gd"
    by (rule c3 [THEN conjunct1, rule_format])
  show "\<lbrakk>ph i = PCompleted s r; now < s + C\<rbrakk> \<Longrightarrow> covered (s + C) mt gd"
    by (rule c4 [THEN conjunct1, rule_format])
  show "\<lbrakk>ph i = PReserved u; now < u\<rbrakk> \<Longrightarrow> \<exists>m. mt = Some m \<and> im_state m = ''processing'' \<and> u \<le> im_until m"
    by (drule (1) r) (rule conjunct1)
  show "\<lbrakk>ph i = PReserved u; now < u; j \<noteq> i; ph j = PReserved u'\<rbrakk> \<Longrightarrow> u' \<le> now"
    by (drule (1) r) blast
  show "\<lbrakk>ph i = PReserved u; now < u; started_at (ph j) = Some s\<rbrakk> \<Longrightarrow> s + C \<le> now"
    by (drule (1) r) blast
  show "\<lbrakk>mt = Some m; now < im_until m; im_state m \<noteq> ''processing''; running_since (ph i) = Some s\<rbrakk> \<Longrightarrow> s + C \<le> now"
    by (rule c5 [THEN conjunct2, rule_format])
qed

lemma key_inv_later: "key_inv C now mt gd ph \<Longrightarrow> now \<le> t \<Longrightarrow> key_inv C t mt gd ph"
proof (rule key_invI)
  assume inv: "key_inv C now mt gd ph" and t: "now \<le> t"
  note d = key_invD [OF inv]
  show "s \<le> t" if "started_at (ph i) = Some s" for i s using d(1) [OF that] t by simp
  show "s + C \<le> s'" if "i \<noteq> j" "started_at (ph i) = Some s" "started_at (ph j) = Some s'" "s \<le> s'" for i j s s'
    by (rule d(2) [OF that])
  show "guarded (s + C) gd" if "running_since (ph i) = Some s" "t < s + C" for i s
    using d(3) [OF that(1)] that(2) t by simp
  show "covered (s + C) mt gd" if "ph i = PCompleted s r" "t < s + C" for i s r
    using d(4) [OF that(1)] that(2) t by simp
  show "\<exists>m. mt = Some m \<and> im_state m = ''processing'' \<and> u \<le> im_until m" if "ph i = PReserved u" "t < u" for i u
    using d(5) [OF that(1)] that(2) t by simp
  show "u' \<le> t" if "ph i = PReserved u" "t < u" "j \<noteq> i" "ph j = PReserved u'" for i u j u'
    using d(6) [OF that(1) _ that(3,4)] that(2) t by simp
  show "s + C \<le> t" if "ph i = PReserved u" "t < u" "started_at (ph j) = Some s" for i u j s
    using d(7) [OF that(1) _ that(3)] that(2) t by simp
  show "s + C \<le> t" if "mt = Some m" "t < im_until m" "im_state m \<noteq> ''processing''" "running_since (ph i) = Some s" for m i s
    using d(8) [OF that(1) _ that(3,4)] that(2) t by simp
qed

text \<open>A phase that holds nothing replaces any other.\<close>

lemma key_inv_quiet:
  assumes "key_inv C now mt gd ph" "started_at p = None" "\<And>u. p \<noteq> PReserved u"
  shows "key_inv C now mt gd (ph(i := p))"
proof -
  note d = key_invD [OF assms(1)]
  have run: "running_since ((ph(i := p)) j) = Some s \<Longrightarrow> running_since (ph j) = Some s" for j s
    using assms(2) started_of_running [of p s] by (auto split: if_splits)
  have start: "started_at ((ph(i := p)) j) = Some s \<Longrightarrow> started_at (ph j) = Some s" for j s
    using assms(2) by (auto split: if_splits)
  have compl: "(ph(i := p)) j = PCompleted s r \<Longrightarrow> ph j = PCompleted s r" for j s r
    using assms(2) by (auto split: if_splits)
  have res: "(ph(i := p)) j = PReserved u \<Longrightarrow> ph j = PReserved u" for j u
    using assms(3) by (auto split: if_splits)
  show ?thesis
  proof (rule key_invI)
    fix j s assume "started_at ((ph(i := p)) j) = Some s"
    then show "s \<le> now" by (rule d(1) [OF start])
  next
    fix j l s s' assume "j \<noteq> l" "started_at ((ph(i := p)) j) = Some s" "started_at ((ph(i := p)) l) = Some s'" "s \<le> s'"
    then show "s + C \<le> s'" using d(2) start by blast
  next
    fix j s assume "running_since ((ph(i := p)) j) = Some s" "now < s + C"
    then show "guarded (s + C) gd" by (rule d(3) [OF run])
  next
    fix j s r assume "(ph(i := p)) j = PCompleted s r" "now < s + C"
    then show "covered (s + C) mt gd" by (rule d(4) [OF compl])
  next
    fix j u assume "(ph(i := p)) j = PReserved u" "now < u"
    then show "\<exists>m. mt = Some m \<and> im_state m = ''processing'' \<and> u \<le> im_until m" by (rule d(5) [OF res])
  next
    fix j u l u' assume "(ph(i := p)) j = PReserved u" "now < u" "l \<noteq> j" "(ph(i := p)) l = PReserved u'"
    then show "u' \<le> now" by (rule d(6) [OF res _ _ res])
  next
    fix j u l s assume "(ph(i := p)) j = PReserved u" "now < u" "started_at ((ph(i := p)) l) = Some s"
    then show "s + C \<le> now" by (rule d(7) [OF res _ start])
  next
    fix m j s assume "mt = Some m" "now < im_until m" "im_state m \<noteq> ''processing''" "running_since ((ph(i := p)) j) = Some s"
    then show "s + C \<le> now" by (rule d(8) [OF _ _ _ run])
  qed
qed

text \<open>So does a phase in which the request still runs.\<close>

lemma key_inv_same:
  assumes "key_inv C now mt gd ph" "running_since (ph i) = Some s" "running_since p = Some s"
  shows "key_inv C now mt gd (ph(i := p))"
proof -
  note d = key_invD [OF assms(1)]
  have run: "running_since ((ph(i := p)) j) = running_since (ph j)" for j using assms(2,3) by auto
  have start: "started_at ((ph(i := p)) j) = started_at (ph j)" for j
    using assms(2,3) started_of_running by auto
  have compl: "(ph(i := p)) j = PCompleted s' r \<Longrightarrow> ph j = PCompleted s' r" for j s' r
    using assms(3) by (auto split: if_splits)
  have res: "(ph(i := p)) j = PReserved u \<Longrightarrow> ph j = PReserved u" for j u
    using assms(3) by (auto split: if_splits)
  show ?thesis
  proof (rule key_invI, unfold run start)
    show "\<And>i j s s'. \<lbrakk>i \<noteq> j; started_at (ph i) = Some s; started_at (ph j) = Some s'; s \<le> s'\<rbrakk> \<Longrightarrow> s + C \<le> s'"
      by (rule d(2))
    fix j u l u' assume "(ph(i := p)) j = PReserved u" "now < u" "l \<noteq> j" "(ph(i := p)) l = PReserved u'"
    then show "u' \<le> now" by (rule d(6) [OF res _ _ res])
  next
    fix j s r assume "(ph(i := p)) j = PCompleted s r" "now < s + C"
    then show "covered (s + C) mt gd" by (rule d(4) [OF compl])
  next
    fix j u assume "(ph(i := p)) j = PReserved u" "now < u"
    then show "\<exists>m. mt = Some m \<and> im_state m = ''processing'' \<and> u \<le> im_until m" by (rule d(5) [OF res])
  next
    fix j u l s assume "(ph(i := p)) j = PReserved u" "now < u" "started_at (ph l) = Some s"
    then show "s + C \<le> now" by (rule d(7) [OF res])
  qed (fact d(1) d(3) d(8))+
qed

text \<open>Inside its lifetime a started request is alone.\<close>

lemma started_alone:
  assumes "key_inv C now mt gd ph" "started_at (ph i) = Some s" "now < s + C"
  shows "j \<noteq> i \<Longrightarrow> started_at (ph j) = Some s' \<Longrightarrow> s' + C \<le> now"
    and "ph j = PReserved u \<Longrightarrow> u \<le> now"
proof -
  show "s' + C \<le> now" if "j \<noteq> i" "started_at (ph j) = Some s'"
  proof (cases "s' \<le> s")
    case True
    then show ?thesis using key_invD(2) [OF assms(1) that(1,2) assms(2)] key_invD(1) [OF assms(1,2)] by simp
  next
    case False
    then have "s + C \<le> s'" using key_invD(2) [OF assms(1) _ assms(2) that(2)] that(1) by simp
    then show ?thesis using key_invD(1) [OF assms(1) that(2)] assms(3) by simp
  qed
  show "u \<le> now" if "ph j = PReserved u"
    using key_invD(7) [OF assms(1) that _ assms(2)] assms(3) by (meson not_le)
qed

lemma key_inv_reserved:
  assumes inv: "key_inv C now mt gd ph"
    and free: "\<And>m. mt = Some m \<Longrightarrow> im_until m \<le> now" "\<And>g t. gd = Some (g, t) \<Longrightarrow> t \<le> now"
    and m: "im_state m' = ''processing''" "u \<le> im_until m'"
  shows "key_inv C now (Some m') gd (ph(i := PReserved u))"
proof -
  have idle: "s + C \<le> now" if "started_at (ph j) = Some s" for j s
  proof (rule ccontr)
    assume "\<not> s + C \<le> now"
    then have "covered (s + C) mt gd"
      using key_invD(3) [OF inv, of j s] key_invD(4) [OF inv, of j s] started_cases [OF that]
      by (auto simp: covered_def guarded_def)
    then show False using free \<open>\<not> s + C \<le> now\<close> by (fastforce simp: covered_def)
  qed
  have unreserved: "u' \<le> now" if r: "ph j = PReserved u'" for j u'
  proof (rule ccontr)
    assume "\<not> u' \<le> now"
    then obtain m where "mt = Some m" "u' \<le> im_until m" using key_invD(5) [OF inv r] by (auto simp: not_le)
    then show False using free(1) \<open>\<not> u' \<le> now\<close> by force
  qed
  show ?thesis
  proof (rule key_invI)
    show "s + C \<le> now" if "started_at ((ph(i := PReserved u)) j) = Some s" for j s
      using that by (auto split: if_splits intro: idle)
    show "guarded (s + C) gd" if "running_since ((ph(i := PReserved u)) j) = Some s" "now < s + C" for j s
      using that idle [of j s] started_of_running by (fastforce split: if_splits)
    show "covered (s + C) (Some m') gd" if "(ph(i := PReserved u)) j = PCompleted s r" "now < s + C" for j s r
      using that idle [of j s] by (fastforce split: if_splits)
    show "\<exists>m. Some m' = Some m \<and> im_state m = ''processing'' \<and> v \<le> im_until m"
      if "(ph(i := PReserved u)) j = PReserved v" "now < v" for j v
      using that m unreserved [of j v] by (auto split: if_splits)
    show "u' \<le> now" if "(ph(i := PReserved u)) j = PReserved v" "now < v" "l \<noteq> j"
        "(ph(i := PReserved u)) l = PReserved u'" for j v l u'
      using that unreserved by (force split: if_splits)
    show "s + C \<le> now" if "Some m' = Some m" "im_state m \<noteq> ''processing''" for m s
      using that m by simp
  qed (use key_invD(1,2) [OF inv] in \<open>auto split: if_splits\<close>)
qed

lemma key_inv_begun:
  assumes inv: "key_inv C now mt gd ph" and i: "ph i = PReserved u" "now < u"
  shows "key_inv C now mt (Some (f, now + C)) (ph(i := PExecuting now))"
proof -
  have idle: "s + C \<le> now" if "started_at (ph j) = Some s" for j s
    by (rule key_invD(7) [OF inv i that])
  have unreserved: "u' \<le> now" if "ph j = PReserved u'" "j \<noteq> i" for j u'
    by (rule key_invD(6) [OF inv i that(2,1)])
  obtain m where m: "mt = Some m" "im_state m = ''processing''" using key_invD(5) [OF inv i] by auto
  show ?thesis
  proof (rule key_invI)
    show "s \<le> now" if "started_at ((ph(i := PExecuting now)) j) = Some s" for j s
      using that key_invD(1) [OF inv] by (auto split: if_splits)
    show "s + C \<le> s'" if "j \<noteq> l" "started_at ((ph(i := PExecuting now)) j) = Some s"
        "started_at ((ph(i := PExecuting now)) l) = Some s'" "s \<le> s'" for j l s s'
    proof (cases "j = i")
      case True
      then have "started_at (ph l) = Some s'" "s = now" using that by auto
      then show ?thesis using idle [of l s'] that(4) by simp
    next
      case False
      then have j: "started_at (ph j) = Some s" using that(2) by simp
      show ?thesis
        using that idle [OF j] key_invD(2) [OF inv that(1) j] by (cases "l = i") auto
    qed
    show "guarded (s + C) (Some (f, now + C))"
      if "running_since ((ph(i := PExecuting now)) j) = Some s" "now < s + C" for j s
      using that idle [of j s] started_of_running by (fastforce simp: guarded_def split: if_splits)
    show "covered (s + C) mt (Some (f, now + C))"
      if "(ph(i := PExecuting now)) j = PCompleted s r" "now < s + C" for j s r
      using that idle [of j s] by (fastforce split: if_splits)
  qed (use m unreserved in \<open>fastforce split: if_splits\<close>)+
qed

text \<open>
  A request that runs inside its lifetime may rewrite the record and the guard, as long as it stays
  covered.
\<close>

lemma key_inv_settle:
  assumes inv: "key_inv C now mt gd ph" and i: "running_since (ph i) = Some s" "now < s + C"
    and p: "started_at p = None \<or> started_at p = Some s" "\<And>u. p \<noteq> PReserved u"
    and run: "running_since p = Some s \<Longrightarrow> guarded (s + C) gd' \<and> (mt' = mt \<or> mt' = None)"
    and compl: "started_at p = Some s \<Longrightarrow> covered (s + C) mt' gd'"
  shows "key_inv C now mt' gd' (ph(i := p))"
proof -
  note alone = started_alone [OF inv started_of_running [OF i(1)] i(2)]
  have run': "running_since p = Some s' \<Longrightarrow> s' = s" for s'
    using p(1) started_of_running [of p s'] by auto
  have st: "started_at ((ph(i := p)) j) = Some s' \<Longrightarrow> started_at (ph j) = Some s'" for j s'
    using p(1) started_of_running [OF i(1)] by (auto split: if_splits)
  show ?thesis
  proof (rule key_invI)
    show "guarded (s' + C) gd'" if "running_since ((ph(i := p)) j) = Some s'" "now < s' + C" for j s'
    proof (cases "j = i")
      case True
      then show ?thesis using that run run' by auto
    next
      case False
      then have "started_at (ph j) = Some s'" using that(1) started_of_running by auto
      from alone(1) [OF False this] that(2) show ?thesis by simp
    qed
    show "covered (s' + C) mt' gd'" if "(ph(i := p)) j = PCompleted s' r" "now < s' + C" for j s' r
    proof (cases "j = i")
      case True
      then have "started_at p = Some s'" using that by simp
      then show ?thesis using p(1) compl by auto
    next
      case False
      then have "started_at (ph j) = Some s'" using that(1) by simp
      from alone(1) [OF False this] that(2) show ?thesis by simp
    qed
    show "s' + C \<le> now" if "mt' = Some m" "now < im_until m" "im_state m \<noteq> ''processing''"
        "running_since ((ph(i := p)) j) = Some s'" for m j s'
    proof (cases "j = i")
      case True
      then have "running_since p = Some s'" using that by simp
      with run run' that(1) have "mt = Some m" by auto
      from key_invD(8) [OF inv this that(2,3) i(1)] i(2) show ?thesis by simp
    next
      case False
      then have "started_at (ph j) = Some s'" using that(4) started_of_running by auto
      from alone(1) [OF False this] show ?thesis .
    qed
    show "\<exists>m. mt' = Some m \<and> im_state m = ''processing'' \<and> u \<le> im_until m"
      if "(ph(i := p)) j = PReserved u" "now < u" for j u
      using that p(2) alone(2) [of j u] by (auto split: if_splits)
    show "u' \<le> now" if "(ph(i := p)) j = PReserved u" "now < u" for j u u'
      using that p(2) alone(2) [of j u] by (auto split: if_splits)
    show "s' + C \<le> now" if "(ph(i := p)) j = PReserved u" "now < u" for j u s'
      using that p(2) alone(2) [of j u] by (auto split: if_splits)
  qed (use st key_invD(1,2) [OF inv] in blast)+
qed

section \<open>Every call keeps the invariant of its key\<close>

abbreviation raw_meta :: "string \<Rightarrow> idem_db \<Rightarrow> idem_meta option" where
  "raw_meta k db \<equiv> id_meta db (idempotency_meta_key k)"

abbreviation raw_guard :: "string \<Rightarrow> idem_db \<Rightarrow> (string \<times> nat) option" where
  "raw_guard k db \<equiv> id_guard db (idempotency_guard_key k)"

abbreviation raw_response :: "string \<Rightarrow> idem_db \<Rightarrow> (CachedResponse \<times> nat) option" where
  "raw_response k db \<equiv> id_response db (idempotency_response_key k)"

lemma redis_keys_inj [simp]:
  "idempotency_meta_key k = idempotency_meta_key k' \<longleftrightarrow> k = k'"
  "idempotency_guard_key k = idempotency_guard_key k' \<longleftrightarrow> k = k'"
  "idempotency_response_key k = idempotency_response_key k' \<longleftrightarrow> k = k'"
  by (simp_all add: idempotency_meta_key_def idempotency_guard_key_def idempotency_response_key_def)

lemma raw_put [simp]:
  "raw_meta k (put_meta k' m db) = (if k = k' then m else raw_meta k db)"
  "raw_guard k (put_meta k' m db) = raw_guard k db"
  "raw_response k (put_meta k' m db) = raw_response k db"
  "raw_meta k (put_guard k' g db) = raw_meta k db"
  "raw_guard k (put_guard k' g db) = (if k = k' then g else raw_guard k db)"
  "raw_response k (put_guard k' g db) = raw_response k db"
  "raw_meta k (put_response k' r db) = raw_meta k db"
  "raw_guard k (put_response k' r db) = raw_guard k db"
  "raw_response k (put_response k' r db) = (if k = k' then r else raw_response k db)"
  by (simp_all add: put_meta_def put_guard_def put_response_def)

lemma meta_at_Some: "meta_at now k db = Some m \<longleftrightarrow> raw_meta k db = Some m \<and> now < im_until m"
  by (auto simp: meta_at_def split: option.splits)

lemma meta_at_None: "meta_at now k db = None \<longleftrightarrow> (\<forall>m. raw_meta k db = Some m \<longrightarrow> im_until m \<le> now)"
  by (auto simp: meta_at_def split: option.splits)

lemma guard_at_None: "guard_at now k db = None \<longleftrightarrow> (\<forall>g t. raw_guard k db = Some (g, t) \<longrightarrow> t \<le> now)"
  by (auto simp: guard_at_def split: option.splits)

lemma response_at_Some: "response_at now k db = Some r \<longleftrightarrow> (\<exists>t. raw_response k db = Some (r, t) \<and> now < t)"
  by (auto simp: response_at_def split: option.splits)

text \<open>What a transaction may leave in the store, whether its answer arrives or not.\<close>

lemma redis_call_db:
  "redis_call link f db = (r, db') \<Longrightarrow> db' = db \<or> db' = snd (f db)"
  by (auto simp: redis_call_def split: redis_link.splits)

lemma redis_call_Inr: "redis_call link f db = (Inr x, db') \<Longrightarrow> f db = (Inr x, db')"
  by (auto simp: redis_call_def split: redis_link.splits)

lemma reserve_transaction_db:
  "snd (reserve_transaction k f ttl now db) = db \<or>
   meta_at now k db = None \<and> guard_at now k db = None \<and>
   snd (reserve_transaction k f ttl now db) =
     put_meta k (Some \<lparr>im_state = ''processing'', im_fingerprint = f, im_until = now + ttl\<rparr>) db"
  by (auto simp: reserve_transaction_def split: option.splits)

lemma reserve_transaction_1:
  "reserve_transaction k f ttl now db = (Inr (Suc 0), db') \<Longrightarrow>
   meta_at now k db = None \<and> guard_at now k db = None \<and>
   db' = put_meta k (Some \<lparr>im_state = ''processing'', im_fingerprint = f, im_until = now + ttl\<rparr>) db"
  by (auto simp: reserve_transaction_def split: option.splits if_splits)

lemma begin_transaction_db:
  "snd (begin_transaction k f ttl now db) = db \<or>
   snd (begin_transaction k f ttl now db) = put_guard k (Some (f, now + ttl)) db"
  by (auto simp: begin_transaction_def split: option.splits)

lemma begin_transaction_Inr:
  "begin_transaction k f ttl now db = (Inr x, db') \<Longrightarrow> db' = put_guard k (Some (f, now + ttl)) db"
  by (auto simp: begin_transaction_def split: option.splits if_splits)

definition view :: "(nat \<Rightarrow> keyed_request) \<Rightarrow> string \<Rightarrow> (nat \<Rightarrow> request_phase) \<Rightarrow> nat \<Rightarrow> request_phase" where
  "view req k ph = (\<lambda>i. if kr_key (req i) = k then ph i else PNew)"

lemma view_here [simp]: "view req (kr_key (req i)) ph i = ph i"
  by (simp add: view_def)

lemma view_upd:
  "view req k (ph(i := p)) = (if kr_key (req i) = k then (view req k ph)(i := p) else view req k ph)"
  by (auto simp: view_def)

abbreviation db_inv :: "nat \<Rightarrow> nat \<Rightarrow> string \<Rightarrow> idem_db \<Rightarrow> (nat \<Rightarrow> request_phase) \<Rightarrow> bool" where
  "db_inv C now k db ph \<equiv> key_inv C now (raw_meta k db) (raw_guard k db) ph"

lemma reserve_transaction_inv:
  assumes "db_inv C now k db ph"
  shows "db_inv C now k (snd (reserve_transaction k f ttl now db)) (ph(i := PAnswered a))"
proof -
  have q: "db_inv C now k db (ph(i := PAnswered a))" using assms by (rule key_inv_quiet) simp_all
  show ?thesis
  proof (rule disjE [OF reserve_transaction_db [of k f ttl now db]], goal_cases)
    case 1
    then show ?case using q by simp
  next
    case 2
    have "key_inv C now (Some \<lparr>im_state = ''processing'', im_fingerprint = f, im_until = now + ttl\<rparr>) (raw_guard k db)
            (ph(i := PReserved (now + ttl)))"
      using 2 by (intro key_inv_reserved [OF assms]) (auto simp: meta_at_None guard_at_None)
    then have "key_inv C now (Some \<lparr>im_state = ''processing'', im_fingerprint = f, im_until = now + ttl\<rparr>) (raw_guard k db)
            ((ph(i := PReserved (now + ttl)))(i := PAnswered a))"
      by (rule key_inv_quiet) simp_all
    then show ?case using 2 by simp
  qed
qed

lemma reservation_phase_cases:
  "(r = RAcquired \<and> reservation_phase r u = PReserved u) \<or> (\<exists>c. r = RCompleted c \<and> reservation_phase r u = PReplayed c) \<or>
   (\<exists>a. reservation_phase r u = PAnswered a)"
  by (cases r) (auto simp: reservation_phase_def)

lemma local_terminal_not_acquired: "local_terminal k f now m = (Some r, m') \<Longrightarrow> r \<noteq> RAcquired"
  by (auto simp: local_terminal_def split: option.splits if_splits LocalState.splits)

text \<open>The answers of a reservation: acquired, or answered, or to be read.\<close>

lemma reserve_call_cases:
  assumes "reserve_call st rq link now db m = (p, db', m')" "is_distributed st"
  obtains
    (terminal) r where "local_terminal (kr_key rq) (kr_fingerprint rq) now m = (Some r, m')" "p = reservation_phase r 0" "db' = db"
  | (acquired) "meta_at now (kr_key rq) db = None" "guard_at now (kr_key rq) db = None"
      "db' = put_meta (kr_key rq) (Some \<lparr>im_state = ''processing'', im_fingerprint = kr_fingerprint rq,
                im_until = now + processing_ttl_secs st\<rparr>) db" "p = PReserved (now + processing_ttl_secs st)"
      "m' = snd (local_terminal (kr_key rq) (kr_fingerprint rq) now m)"
  | (reading) r where "meta_at now (kr_key rq) db = Some r" "im_fingerprint r = kr_fingerprint rq"
      "im_state r = ''completed''" "p = PReading (im_until r)" "db' = db"
      "m' = snd (local_terminal (kr_key rq) (kr_fingerprint rq) now m)"
  | (answered) a where "p = PAnswered a"
      "db' = db \<or> db' = snd (reserve_transaction (kr_key rq) (kr_fingerprint rq) (processing_ttl_secs st) now db)"
      "m' = snd (local_terminal (kr_key rq) (kr_fingerprint rq) now m)"
proof (cases "local_terminal (kr_key rq) (kr_fingerprint rq) now m")
  case (Pair o' m1)
  show thesis
  proof (cases o')
    case (Some r)
    then show thesis using assms Pair terminal [of r] by (simp add: reserve_call_def)
  next
    case None
    obtain x db1 where x: "redis_call link
        (reserve_transaction (kr_key rq) (kr_fingerprint rq) (processing_ttl_secs st) now) db = (x, db1)"
      by (cases "redis_call link
        (reserve_transaction (kr_key rq) (kr_fingerprint rq) (processing_ttl_secs st) now) db")
    have m1: "m' = m1" "db' = db1" using assms x None Pair by (auto simp: reserve_call_def split: sum.splits)
    show thesis
    proof (cases x)
      case (Inl e)
      then have "p = PAnswered unavailable_response" using assms x None Pair by (simp add: reserve_call_def)
      then show thesis using answered redis_call_db [OF x] m1 Pair by simp
    next
      case (Inr code)
      note t = redis_call_Inr [OF x [unfolded Inr]]
      have p: "p = (if code = 1 then PReserved (now + processing_ttl_secs st)
                   else if code = 2 then reservation_phase RConflict 0
                   else if code = 3 then reservation_phase RProcessing 0
                   else if code = 4 then reservation_phase RNonReplayable 0
                   else if code = 5
                   then PReading (case meta_at now (kr_key rq) db of Some r \<Rightarrow> im_until r | None \<Rightarrow> 0)
                   else PAnswered unavailable_response)"
        using assms x None Pair Inr by (simp add: reserve_call_def)
      consider "code = 1" | "code = 5" | "code \<noteq> 1" "code \<noteq> 5" by blast
      then show thesis
      proof cases
        case 1
        then show thesis using acquired p m1 Pair reserve_transaction_1 t by simp
      next
        case 2
        then obtain r where "meta_at now (kr_key rq) db = Some r" "im_fingerprint r = kr_fingerprint rq"
          "im_state r = ''completed''" "db1 = db"
          using t by (auto simp: reserve_transaction_def split: option.splits if_splits)
        then show thesis using reading [of r] p 2 m1 Pair by simp
      next
        case 3
        have "\<exists>a. p = PAnswered a" using 3 by (simp add: p reservation_phase_def)
        then obtain a where "p = PAnswered a" ..
        then show thesis using answered redis_call_db [OF x] m1 Pair by simp
      qed
    qed
  qed
qed

lemma reserve_call_inv:
  assumes "reserve_call st rq link now db m = (p, db', m')" "is_distributed st" "db_inv C now (kr_key rq) db ph"
  shows "db_inv C now (kr_key rq) db' (ph(i := p))"
  using assms(1,2)
proof (cases rule: reserve_call_cases)
  case (terminal r)
  then show ?thesis
    using local_terminal_not_acquired [OF terminal(1)] reservation_phase_cases [of r 0]
    by (auto intro: key_inv_quiet [OF assms(3)])
next
  case acquired
  then show ?thesis
    using key_inv_reserved [OF assms(3)] by (simp add: meta_at_None guard_at_None)
next
  case (reading r)
  then show ?thesis using key_inv_quiet [OF assms(3)] by simp
next
  case (answered a)
  then show ?thesis using key_inv_quiet [OF assms(3)] reserve_transaction_inv [OF assms(3)] by auto
qed

lemma begin_call_inv:
  assumes "begin_call st rq link now db = (p, db')" "is_distributed st"
    and inv: "db_inv (completed_ttl_secs st) now (kr_key rq) db ph" and i: "ph i = PReserved u" "now < u"
  shows "db_inv (completed_ttl_secs st) now (kr_key rq) db' (ph(i := p))"
proof -
  let ?C = "completed_ttl_secs st"
  note b = key_inv_begun [OF inv i, of "kr_fingerprint rq"]
  have b': "key_inv ?C now (raw_meta (kr_key rq) db) (Some (kr_fingerprint rq, now + ?C)) (ph(i := PAnswered a))" for a
    using key_inv_quiet [OF b, of "PAnswered a" i] by simp
  obtain x db1 where x: "redis_call link (begin_transaction (kr_key rq) (kr_fingerprint rq) ?C now) db = (x, db1)"
    by (cases "redis_call link (begin_transaction (kr_key rq) (kr_fingerprint rq) ?C now) db")
  show ?thesis
  proof (cases x)
    case (Inl e)
    then have "p = PAnswered unavailable_response" "db' = db1" using assms(1,2) x by (simp_all add: begin_call_def)
    then show ?thesis
      using redis_call_db [OF x] begin_transaction_db [of "kr_key rq" "kr_fingerprint rq" ?C now db]
        key_inv_quiet [OF inv, of "PAnswered unavailable_response" i] b' by auto
  next
    case (Inr y)
    then have "p = PExecuting now" "db' = db1" using assms(1,2) x by (simp_all add: begin_call_def)
    then show ?thesis using begin_transaction_Inr [OF redis_call_Inr [OF x [unfolded Inr]]] b by simp
  qed
qed

lemma complete_transaction_cases:
  "complete_transaction k f c ttl now db = (Inl ''rejected'', db) \<or>
   (\<exists>m. meta_at now k db = Some m \<and> im_fingerprint m = f \<and>
     complete_transaction k f c ttl now db =
       (Inr (), put_guard k None (put_meta k (Some (m\<lparr>im_state := ''completed'', im_until := now + ttl\<rparr>))
          (put_response k (Some (c, now + ttl)) db))))"
  by (auto simp: complete_transaction_def split: option.splits)

lemma non_replayable_transaction_cases:
  "non_replayable_transaction k f ttl now db = (Inl ''rejected'', db) \<or>
   (\<exists>m. meta_at now k db = Some m \<and> im_fingerprint m = f \<and>
     non_replayable_transaction k f ttl now db =
       (Inr (), put_meta k (Some (m\<lparr>im_state := ''non_replayable'', im_until := now + ttl\<rparr>)) db))"
  by (auto simp: non_replayable_transaction_def split: option.splits)

text \<open>Whatever the network does, a call leaves the store as it was or as the transaction makes it.\<close>

lemma complete_call_cases:
  assumes "complete_call st rq link c now db m = (db', m')" "is_distributed st"
  shows "(db' = db \<or> db' = snd (complete_transaction (kr_key rq) (kr_fingerprint rq) c (completed_ttl_secs st) now db)) \<and>
    (m' = m \<or> m' = store_local_terminal st (kr_key rq) (kr_fingerprint rq) (LCompleted c) now m)"
  using assms redis_call_db [of link "complete_transaction (kr_key rq) (kr_fingerprint rq) c (completed_ttl_secs st) now" db]
  by (cases "redis_call link (complete_transaction (kr_key rq) (kr_fingerprint rq) c (completed_ttl_secs st) now) db")
    (auto simp: complete_call_def split: sum.splits)

lemma mark_call_cases:
  assumes "mark_call st rq link now db m = (db', m')" "is_distributed st"
  shows "(db' = db \<or> db' = snd (non_replayable_transaction (kr_key rq) (kr_fingerprint rq) (completed_ttl_secs st) now db)) \<and>
    (m' = m \<or> m' = store_local_terminal st (kr_key rq) (kr_fingerprint rq) LNonReplayable now m)"
  using assms redis_call_db [of link "non_replayable_transaction (kr_key rq) (kr_fingerprint rq) (completed_ttl_secs st) now" db]
  by (cases "redis_call link (non_replayable_transaction (kr_key rq) (kr_fingerprint rq) (completed_ttl_secs st) now) db")
    (auto simp: mark_call_def split: sum.splits)

lemma release_call_cases:
  assumes "release_call st rq link s left r db m = (p, db', m')" "is_distributed st"
  shows "m' = m \<and> (left = 0 \<and> p = PAnswered r \<and> db' \<in> {db, put_guard (kr_key rq) None db} \<or>
    p = PReleasing s (left - 1) r \<and> db' \<in> {db, put_response (kr_key rq) None db, put_meta (kr_key rq) None db})"
proof (cases link)
  case RedisUp
  then show ?thesis using assms by (cases "left = 0"; cases "left = 1") (auto simp: release_call_def redis_call_def Let_def)
next
  case (RedisDown e)
  then show ?thesis using assms by (auto simp: release_call_def redis_call_def Let_def split: if_splits)
next
  case (RedisLost e)
  then show ?thesis using assms by (cases "left = 0"; cases "left = 1") (auto simp: release_call_def redis_call_def Let_def)
qed

lemma settle_call_inv:
  assumes inv: "db_inv C now k db ph" and i: "running_since (ph i) = Some s" "now < s + C" "0 < C"
  shows "db' = db \<or> db' = snd (complete_transaction k f c C now db) \<Longrightarrow>
      db_inv C now k db' (ph(i := PCompleted s r))"
    and "db' = db \<or> db' = snd (non_replayable_transaction k f C now db) \<Longrightarrow>
      db_inv C now k db' (ph(i := PCompleted s r))"
    and "db' \<in> {db, put_response k None db, put_meta k None db} \<Longrightarrow> db_inv C now k db' (ph(i := PReleasing s n r))"
    and "db' \<in> {db, put_guard k None db} \<Longrightarrow> db_inv C now k db' (ph(i := PAnswered r))"
proof -
  have g: "guarded (s + C) (raw_guard k db)" by (rule key_invD(3) [OF inv i(1,2)])
  have s: "s \<le> now" by (rule key_invD(1) [OF inv started_of_running [OF i(1)]])
  have cov: "covered (s + C) mt (raw_guard k db)" for mt using g by (auto simp: covered_def guarded_def)
  have cov_now: "covered (s + C) (Some (m\<lparr>im_state := x, im_until := now + C\<rparr>)) gd" for m x gd
    using s by (simp add: covered_def)
  note settle = key_inv_settle [OF inv i(1,2)]
  show "db_inv C now k db' (ph(i := PCompleted s r))"
    if "db' = db \<or> db' = snd (complete_transaction k f c C now db)"
    using that complete_transaction_cases [of k f c C now db] cov_now by (auto intro!: settle cov)
  show "db_inv C now k db' (ph(i := PCompleted s r))"
    if "db' = db \<or> db' = snd (non_replayable_transaction k f C now db)"
    using that non_replayable_transaction_cases [of k f C now db]
    by (auto intro!: settle cov)
  show "db_inv C now k db' (ph(i := PReleasing s n r))"
    if "db' \<in> {db, put_response k None db, put_meta k None db}"
    using that g by (auto intro!: settle cov)
  show "db_inv C now k db' (ph(i := PAnswered r))" if "db' \<in> {db, put_guard k None db}"
    using that by (auto intro!: settle)
qed

lemma call_step_inv:
  assumes c: "call_step st rq link now (ph i) db m = (p, db', m')"
    and st: "is_distributed st" "0 < completed_ttl_secs st"
    and timely: "timely_phase st now (ph i)"
    and inv: "db_inv (completed_ttl_secs st) now (kr_key rq) db ph"
  shows "db_inv (completed_ttl_secs st) now (kr_key rq) db' (ph(i := p))"
proof (cases "ph i")
  case PNew
  then show ?thesis using c reserve_call_inv [OF _ st(1) inv] by (simp add: call_step_def)
next
  case (PReading u)
  then have "db' = db" "started_at p = None" "\<And>u. p \<noteq> PReserved u"
    using c by (auto simp: call_step_def read_call_def split: prod.splits sum.splits option.splits)
  then show ?thesis using key_inv_quiet [OF inv] by simp
next
  case (PReserved u)
  then show ?thesis using c timely begin_call_inv [OF _ st(1) inv PReserved]
    by (auto simp: call_step_def split: prod.splits)
next
  case (PReleasing s n r)
  then have "release_call st rq link s n r db m = (p, db', m')" using c by (simp add: call_step_def)
  from release_call_cases [OF this st(1)] settle_call_inv(3,4) [OF inv _ _ st(2), of i s] PReleasing timely
  show ?thesis by fastforce
next
  case (PMarking s r)
  then have "mark_call st rq link now db m = (db', m')" "p = PCompleted s r" using c by (simp_all add: call_step_def)
  then show ?thesis
    using settle_call_inv(2) [OF inv _ _ st(2), of i s] PMarking timely mark_call_cases [OF _ st(1)] by fastforce
next
  case (PStoring s r)
  then have "complete_call st rq link (cached_of r) now db m = (db', m')" "p = PCompleted s r"
    using c by (simp_all add: call_step_def)
  then show ?thesis
    using settle_call_inv(1) [OF inv _ _ st(2), of i s] PStoring timely complete_call_cases [OF _ st(1)] by fastforce
qed (use c inv in \<open>simp_all add: call_step_def fun_upd_idem\<close>)

lemma return_step_inv:
  assumes "key_inv C now mt gd ph"
  shows "key_inv C now mt gd (ph(i := return_step h (ph i)))"
proof (cases "ph i")
  case (PExecuting s)
  have "running_since (return_step h (ph i)) = Some s" using PExecuting by (auto simp: return_step_def split: handler_outcome.splits)
  with PExecuting show ?thesis by (auto intro: key_inv_same [OF assms])
qed (simp_all add: return_step_def fun_upd_idem assms)

text \<open>A call touches the store and the local records at the key of its request only.\<close>

definition same_at :: "string \<Rightarrow> idem_db \<Rightarrow> idem_db \<Rightarrow> bool" where
  "same_at k db db' \<longleftrightarrow>
     raw_meta k db' = raw_meta k db \<and> raw_guard k db' = raw_guard k db \<and> raw_response k db' = raw_response k db"

lemma same_at_put [simp]:
  "same_at k db db"
  "k \<noteq> k' \<Longrightarrow> same_at k db (put_meta k' mt db)"
  "k \<noteq> k' \<Longrightarrow> same_at k db (put_guard k' g db)"
  "k \<noteq> k' \<Longrightarrow> same_at k db (put_response k' r db)"
  "k \<noteq> k' \<Longrightarrow> same_at k db (snd (reserve_transaction k' f ttl now db))"
  "k \<noteq> k' \<Longrightarrow> same_at k db (snd (begin_transaction k' f ttl now db))"
  "k \<noteq> k' \<Longrightarrow> same_at k db (snd (complete_transaction k' f c ttl now db))"
  "k \<noteq> k' \<Longrightarrow> same_at k db (snd (non_replayable_transaction k' f ttl now db))"
  using reserve_transaction_db [of k' f ttl now db] begin_transaction_db [of k' f ttl now db]
    complete_transaction_cases [of k' f c ttl now db] non_replayable_transaction_cases [of k' f ttl now db]
  by (auto simp: same_at_def)

lemma local_terminal_frame: "k \<noteq> k' \<Longrightarrow> snd (local_terminal k' f now m) k = m k"
  by (auto simp: local_terminal_def split: option.splits)

lemma begin_call_frame:
  assumes "begin_call st rq link now db = (p, db')" "k \<noteq> kr_key rq"
  shows "same_at k db db'"
  using assms redis_call_db [of link "begin_transaction (kr_key rq) (kr_fingerprint rq) (completed_ttl_secs st) now" db]
  by (cases "redis_call link (begin_transaction (kr_key rq) (kr_fingerprint rq) (completed_ttl_secs st) now) db")
    (auto simp: begin_call_def split: if_splits sum.splits)

lemma call_step_frame:
  assumes c: "call_step st rq link now q db m = (p, db', m')" and st: "is_distributed st" and k: "k \<noteq> kr_key rq"
  shows "same_at k db db' \<and> m' k = m k"
proof (cases q)
  case PNew
  then have "reserve_call st rq link now db m = (p, db', m')" using c by (simp add: call_step_def)
  from this st show ?thesis
    by (cases rule: reserve_call_cases)
      (use k local_terminal_frame [OF k, of "kr_fingerprint rq" now m] in auto)
next
  case (PReserved u)
  then show ?thesis using c k begin_call_frame by (auto simp: call_step_def split: prod.splits)
next
  case (PReleasing s n r)
  then have "release_call st rq link s n r db m = (p, db', m')" using c by (simp add: call_step_def)
  from release_call_cases [OF this st] k show ?thesis by auto
next
  case (PMarking s r)
  then have "mark_call st rq link now db m = (db', m')" using c by (simp add: call_step_def)
  from mark_call_cases [OF this st] k show ?thesis by (auto simp: store_local_terminal_def)
next
  case (PStoring s r)
  then have "complete_call st rq link (cached_of r) now db m = (db', m')" using c by (simp add: call_step_def)
  from complete_call_cases [OF this st] k show ?thesis by (auto simp: store_local_terminal_def)
qed (use c in \<open>simp_all add: call_step_def\<close>)

section \<open>Every event keeps the invariant of every key\<close>

definition runs_inv :: "IdempotencyState \<Rightarrow> (nat \<Rightarrow> keyed_request) \<Rightarrow> nat \<Rightarrow> idem_system \<Rightarrow> bool" where
  "runs_inv st req now sy \<longleftrightarrow> (\<forall>k. db_inv (completed_ttl_secs st) now k (sy_db sy) (view req k (sy_phase sy)))"

lemma runs_inv_init: "runs_inv st req now idem_init"
  by (auto simp: runs_inv_def key_inv_def idem_init_def view_def)

lemma runs_inv_step:
  assumes inv: "runs_inv st req t sy" and t: "t \<le> fst e" and st: "is_distributed st" "0 < completed_ttl_secs st"
    and timely: "timely_event st e sy"
  shows "runs_inv st req (fst e) (idem_step st req e sy)"
proof -
  obtain now i a where e: "e = (now, i, a)" by (cases e)
  let ?C = "completed_ttl_secs st"
  have inv': "db_inv ?C now k (sy_db sy) (view req k (sy_phase sy))" for k
    using inv key_inv_later t e unfolding runs_inv_def by fastforce
  show ?thesis
  proof (cases a)
    case (ACall link)
    obtain p db m where c: "call_step st (req i) link now (sy_phase sy i) (sy_db sy) (sy_local sy (kr_instance (req i))) = (p, db, m)"
      by (metis prod_cases3)
    have "db_inv ?C now k db (view req k ((sy_phase sy)(i := p)))" for k
    proof (cases "k = kr_key (req i)")
      case True
      have "timely_phase st now (view req k (sy_phase sy) i)" using timely e ACall True by simp
      with call_step_inv [OF _ st, of "req i" link now "view req k (sy_phase sy)" i "sy_db sy" _ p db m] c inv' [of k] True
      show ?thesis by (simp add: view_upd)
    next
      case False
      then show ?thesis using call_step_frame [OF c st(1) False] inv' [of k] by (simp add: view_upd same_at_def)
    qed
    then show ?thesis using e ACall c by (simp add: runs_inv_def Let_def)
  next
    case (AReturn h)
    have "db_inv ?C now k (sy_db sy) (view req k ((sy_phase sy)(i := return_step h (sy_phase sy i))))" for k
      using return_step_inv [OF inv', of k i h] inv' [of k] by (auto simp: view_upd)
    then show ?thesis using e AReturn by (simp add: runs_inv_def)
  next
    case AGc
    then show ?thesis using e inv' by (simp add: runs_inv_def)
  qed
qed

lemma timely_from_induct:
  assumes "timely_from st req t sy evs" "Q t sy"
    and "\<And>t sy e. Q t sy \<Longrightarrow> t \<le> fst e \<Longrightarrow> timely_event st e sy \<Longrightarrow> Q (fst e) (idem_step st req e sy)"
  shows "\<exists>now. Q now (fold (idem_step st req) evs sy)"
  using assms(1,2)
proof (induction evs arbitrary: t sy)
  case Nil
  then show ?case by auto
next
  case (Cons e es)
  then have "Q (fst e) (idem_step st req e sy)" "timely_from st req (fst e) (idem_step st req e sy) es"
    using assms(3) by auto
  from Cons.IH [OF this(2,1)] show ?case by simp
qed



section \<open>Replays\<close>

text \<open>A request that has completed, whose cached response is \<open>c\<close>.\<close>

definition source :: "(nat \<Rightarrow> keyed_request) \<Rightarrow> (nat \<Rightarrow> request_phase) \<Rightarrow> string \<Rightarrow> string \<Rightarrow> CachedResponse \<Rightarrow> bool" where
  "source req ph k f c \<longleftrightarrow>
     (\<exists>j s r. ph j = PCompleted s r \<and> kr_key (req j) = k \<and> kr_fingerprint (req j) = f \<and> c = cached_of r)"

lemma source_upd: "source req ph k f c \<Longrightarrow> (\<And>s r. ph i = PCompleted s r \<Longrightarrow> p = PCompleted s r) \<Longrightarrow> source req (ph(i := p)) k f c"
  by (fastforce simp: source_def)

lemma source_now: "source req (ph(i := PCompleted s r)) (kr_key (req i)) (kr_fingerprint (req i)) (cached_of r)"
  by (auto simp: source_def)

definition replay_inv :: "(nat \<Rightarrow> keyed_request) \<Rightarrow> nat \<Rightarrow> idem_system \<Rightarrow> bool" where
  "replay_inv req now sy \<longleftrightarrow>
     (\<forall>n k r c. sy_local sy n k = Some r \<longrightarrow> lr_state r = LCompleted c \<longrightarrow> source req (sy_phase sy) k (lr_fingerprint r) c) \<and>
     (\<forall>k m c t. raw_meta k (sy_db sy) = Some m \<longrightarrow> im_state m = ''completed'' \<longrightarrow>
        raw_response k (sy_db sy) = Some (c, t) \<longrightarrow> source req (sy_phase sy) k (im_fingerprint m) c) \<and>
     (\<forall>i u. sy_phase sy i = PReading u \<longrightarrow> now < u \<longrightarrow>
        (\<exists>m. raw_meta (kr_key (req i)) (sy_db sy) = Some m \<and> im_state m = ''completed'' \<and>
             im_fingerprint m = kr_fingerprint (req i) \<and> u \<le> im_until m)) \<and>
     (\<forall>i c. sy_phase sy i = PReplayed c \<longrightarrow> source req (sy_phase sy) (kr_key (req i)) (kr_fingerprint (req i)) c)"

lemma replay_invI:
  assumes "\<And>n k r c. \<lbrakk>sy_local sy n k = Some r; lr_state r = LCompleted c\<rbrakk> \<Longrightarrow> source req (sy_phase sy) k (lr_fingerprint r) c"
    and "\<And>k m c t. \<lbrakk>raw_meta k (sy_db sy) = Some m; im_state m = ''completed''; raw_response k (sy_db sy) = Some (c, t)\<rbrakk>
          \<Longrightarrow> source req (sy_phase sy) k (im_fingerprint m) c"
    and "\<And>i u. \<lbrakk>sy_phase sy i = PReading u; now < u\<rbrakk> \<Longrightarrow>
          \<exists>m. raw_meta (kr_key (req i)) (sy_db sy) = Some m \<and> im_state m = ''completed'' \<and>
             im_fingerprint m = kr_fingerprint (req i) \<and> u \<le> im_until m"
    and "\<And>i c. sy_phase sy i = PReplayed c \<Longrightarrow> source req (sy_phase sy) (kr_key (req i)) (kr_fingerprint (req i)) c"
  shows "replay_inv req now sy"
  unfolding replay_inv_def by (intro conjI allI impI; (rule assms; assumption))

lemma replay_invD:
  assumes "replay_inv req now sy"
  shows "\<lbrakk>sy_local sy n k = Some r; lr_state r = LCompleted c\<rbrakk> \<Longrightarrow> source req (sy_phase sy) k (lr_fingerprint r) c"
    and "\<lbrakk>raw_meta k (sy_db sy) = Some m; im_state m = ''completed''; raw_response k (sy_db sy) = Some (c, t)\<rbrakk>
          \<Longrightarrow> source req (sy_phase sy) k (im_fingerprint m) c"
    and "\<lbrakk>sy_phase sy i = PReading u; now < u\<rbrakk> \<Longrightarrow>
          \<exists>m. raw_meta (kr_key (req i)) (sy_db sy) = Some m \<and> im_state m = ''completed'' \<and>
             im_fingerprint m = kr_fingerprint (req i) \<and> u \<le> im_until m"
    and "sy_phase sy i = PReplayed c \<Longrightarrow> source req (sy_phase sy) (kr_key (req i)) (kr_fingerprint (req i)) c"
  using assms unfolding replay_inv_def by blast+

lemma local_terminal_completed:
  assumes "local_terminal k f now m = (Some (RCompleted c), m')"
  shows "\<exists>r. m k = Some r \<and> lr_fingerprint r = f \<and> lr_state r = LCompleted c"
  using assms by (auto simp: local_terminal_def split: option.splits if_splits LocalState.splits)

lemma local_terminal_map: "snd (local_terminal k f now m) k' = Some r \<Longrightarrow> m k' = Some r"
  by (auto simp: local_terminal_def split: option.splits if_splits)

lemma reservation_phase_inv [simp]:
  "reservation_phase r u = PReplayed c \<longleftrightarrow> r = RCompleted c"
  "reservation_phase r u \<noteq> PReading v"
  by (cases r; simp add: reservation_phase_def)+

text \<open>Where a replay comes from, and what a reading has seen.\<close>

lemma call_step_replayed:
  assumes c: "call_step st rq link now q db m = (PReplayed c, db', m')" and st: "is_distributed st"
  shows "q = PReplayed c \<or> (\<exists>r. m (kr_key rq) = Some r \<and> lr_fingerprint r = kr_fingerprint rq \<and> lr_state r = LCompleted c) \<or>
    (\<exists>u t. q = PReading u \<and> raw_response (kr_key rq) db = Some (c, t)) \<and> db' = db"
proof (cases q)
  case PNew
  then have "reserve_call st rq link now db m = (PReplayed c, db', m')" using c by (simp add: call_step_def)
  from this st show ?thesis
  proof (cases rule: reserve_call_cases)
    case (terminal r)
    then have "r = RCompleted c" by (metis reservation_phase_inv(1))
    with terminal show ?thesis using local_terminal_completed by fast
  qed (simp_all)
next
  case (PReading u)
  then have d: "read_call rq link now db = PReplayed c \<and> db = db'" using c by (auto simp: call_step_def)
  from d [THEN conjunct1] have "response_at now (kr_key rq) db = Some c"
    by (auto simp: read_call_def redis_call_def split: redis_link.splits sum.splits option.splits prod.splits)
  then obtain t where "raw_response (kr_key rq) db = Some (c, t)" by (auto simp: response_at_Some)
  then show ?thesis using PReading d by blast
next
  case (PReserved u)
  then show ?thesis using c by (auto simp: call_step_def begin_call_def split: prod.splits sum.splits if_splits)
next
  case (PReleasing s n r)
  then show ?thesis using c st by (auto simp: call_step_def dest: release_call_cases)
qed (use c in \<open>simp_all add: call_step_def\<close>)

lemma call_step_reading:
  assumes c: "call_step st rq link now q db m = (PReading u, db', m')" and st: "is_distributed st"
  shows "\<exists>r. raw_meta (kr_key rq) db' = Some r \<and> im_fingerprint r = kr_fingerprint rq \<and>
    im_state r = ''completed'' \<and> u = im_until r"
proof (cases q)
  case PNew
  then have "reserve_call st rq link now db m = (PReading u, db', m')" using c by (simp add: call_step_def)
  from this st show ?thesis
  proof (cases rule: reserve_call_cases)
    case (terminal r)
    then show ?thesis by (metis reservation_phase_inv(2))
  next
    case (reading r)
    then show ?thesis by (simp add: meta_at_Some)
  qed simp_all
next
  case (PReading u)
  then show ?thesis using c by (auto simp: call_step_def read_call_def split: prod.splits sum.splits option.splits)
next
  case (PReserved u)
  then show ?thesis using c by (auto simp: call_step_def begin_call_def split: prod.splits sum.splits if_splits)
next
  case (PReleasing s n r)
  then show ?thesis using c st by (auto simp: call_step_def dest: release_call_cases)
qed (use c in \<open>simp_all add: call_step_def\<close>)

text \<open>A completed record stays as it is until its end.\<close>

lemma completed_meta_kept:
  assumes c: "call_step st rq link now (ph i) db m = (p, db', m')"
    and st: "is_distributed st" and timely: "timely_phase st now (ph i)"
    and inv: "db_inv (completed_ttl_secs st) now (kr_key rq) db ph"
    and r: "raw_meta (kr_key rq) db = Some r" "now < im_until r" "im_state r = ''completed''"
  shows "raw_meta (kr_key rq) db' = Some r"
proof -
  have alive: "meta_at now (kr_key rq) db = Some r" using r by (simp add: meta_at_Some)
  have idle: "running_since (ph i) = Some s \<Longrightarrow> s + completed_ttl_secs st \<le> now" for s
    by (rule key_invD(8) [OF inv r(1,2)]) (simp_all add: r(3))
  show ?thesis
  proof (cases "ph i")
    case PNew
    then have "reserve_call st rq link now db m = (p, db', m')" using c by (simp add: call_step_def)
    from this st show ?thesis
    proof (cases rule: reserve_call_cases)
      case (answered a)
      then show ?thesis using reserve_transaction_db [of "kr_key rq" "kr_fingerprint rq" "processing_ttl_secs st" now db] alive r
        by auto
    qed (use r alive in auto)
  next
    case (PReserved u)
    then have "begin_call st rq link now db = (p, db')" using c by (auto simp: call_step_def split: prod.splits)
    then show ?thesis
      using r st redis_call_db [of link "begin_transaction (kr_key rq) (kr_fingerprint rq) (completed_ttl_secs st) now" db]
        begin_transaction_db [of "kr_key rq" "kr_fingerprint rq" "completed_ttl_secs st" now db]
      by (cases "redis_call link (begin_transaction (kr_key rq) (kr_fingerprint rq) (completed_ttl_secs st) now) db")
        (auto simp: begin_call_def split: sum.splits)
  qed (use c r idle timely in \<open>simp_all add: call_step_def\<close>)
qed

text \<open>A response in the store belongs to the record it stands beside.\<close>

lemma call_step_response:
  assumes c: "call_step st rq link now q db m = (p, db', m')" and st: "is_distributed st"
    and r: "raw_meta (kr_key rq) db' = Some r" "im_state r = ''completed''" "raw_response (kr_key rq) db' = Some (x, t)"
  shows "raw_meta (kr_key rq) db = Some r \<and> raw_response (kr_key rq) db = Some (x, t) \<or>
    (\<exists>s y. p = PCompleted s y \<and> x = cached_of y \<and> im_fingerprint r = kr_fingerprint rq)"
proof (cases q)
  case PNew
  then have "reserve_call st rq link now db m = (p, db', m')" using c by (simp add: call_step_def)
  from this st show ?thesis
  proof (cases rule: reserve_call_cases)
    case (answered a)
    then show ?thesis using reserve_transaction_db [of "kr_key rq" "kr_fingerprint rq" "processing_ttl_secs st" now db] r
      by auto
  qed (use r in auto)
next
  case (PReserved u)
  then have "begin_call st rq link now db = (p, db')" using c by (auto simp: call_step_def split: prod.splits)
  then show ?thesis
    using r st redis_call_db [of link "begin_transaction (kr_key rq) (kr_fingerprint rq) (completed_ttl_secs st) now" db]
      begin_transaction_db [of "kr_key rq" "kr_fingerprint rq" "completed_ttl_secs st" now db]
    by (cases "redis_call link (begin_transaction (kr_key rq) (kr_fingerprint rq) (completed_ttl_secs st) now) db")
      (auto simp: begin_call_def split: sum.splits)
next
  case (PReleasing s n y)
  then have "release_call st rq link s n y db m = (p, db', m')" using c by (simp add: call_step_def)
  from release_call_cases [OF this st] r show ?thesis by auto
next
  case (PMarking s y)
  then have "mark_call st rq link now db m = (db', m')" using c by (simp add: call_step_def)
  from mark_call_cases [OF this st] r
    non_replayable_transaction_cases [of "kr_key rq" "kr_fingerprint rq" "completed_ttl_secs st" now db]
  show ?thesis by auto
next
  case (PStoring s y)
  then have "complete_call st rq link (cached_of y) now db m = (db', m')" "p = PCompleted s y"
    using c by (simp_all add: call_step_def)
  from complete_call_cases [OF this(1) st] this(2) r
    complete_transaction_cases [of "kr_key rq" "kr_fingerprint rq" "cached_of y" "completed_ttl_secs st" now db]
  show ?thesis by auto
qed (use c r in \<open>simp_all add: call_step_def\<close>)

lemma call_step_local:
  assumes c: "call_step st rq link now q db m = (p, db', m')" and st: "is_distributed st"
    and r: "m' k = Some r" "lr_state r = LCompleted x"
  shows "m k = Some r \<or> k = kr_key rq \<and> lr_fingerprint r = kr_fingerprint rq \<and> (\<exists>s y. p = PCompleted s y \<and> x = cached_of y)"
proof (cases q)
  case PNew
  then have "reserve_call st rq link now db m = (p, db', m')" using c by (simp add: call_step_def)
  from this st show ?thesis
    by (cases rule: reserve_call_cases)
      (use r local_terminal_map [of "kr_key rq" "kr_fingerprint rq" now m k] in auto)
next
  case (PReleasing s n y)
  then have "release_call st rq link s n y db m = (p, db', m')" using c by (simp add: call_step_def)
  from release_call_cases [OF this st] r show ?thesis by auto
next
  case (PMarking s y)
  then have "mark_call st rq link now db m = (db', m')" using c by (simp add: call_step_def)
  from mark_call_cases [OF this st] r show ?thesis by (auto simp: store_local_terminal_def split: if_splits)
next
  case (PStoring s y)
  then have "complete_call st rq link (cached_of y) now db m = (db', m')" "p = PCompleted s y"
    using c by (simp_all add: call_step_def)
  from complete_call_cases [OF this(1) st] this(2) r show ?thesis by (auto simp: store_local_terminal_def split: if_splits)
qed (use c r in \<open>auto simp: call_step_def split: prod.splits\<close>)

lemma call_step_completed:
  "ph i = PCompleted s r \<Longrightarrow> call_step st rq link now (ph i) db m = (p, db', m') \<Longrightarrow> p = PCompleted s r"
  by (simp add: call_step_def)

lemma replay_inv_call:
  assumes rep: "replay_inv req t sy" and t: "t \<le> now" and run: "runs_inv st req now sy"
    and st: "is_distributed st" and timely: "timely_phase st now (sy_phase sy i)"
  shows "replay_inv req now (idem_step st req (now, i, ACall link) sy)"
proof -
  let ?n = "kr_instance (req i)" and ?k = "kr_key (req i)"
  obtain p db m where c: "call_step st (req i) link now (sy_phase sy i) (sy_db sy) (sy_local sy ?n) = (p, db, m)"
    by (metis prod_cases3)
  have sy': "idem_step st req (now, i, ACall link) sy =
      sy\<lparr>sy_db := db, sy_local := (sy_local sy)(?n := m), sy_phase := (sy_phase sy)(i := p)\<rparr>" (is "_ = ?sy")
    using c by (simp add: Let_def)
  note d = replay_invD [OF rep]
  have src: "source req (sy_phase sy) k f x \<Longrightarrow> source req ((sy_phase sy)(i := p)) k f x" for k f x
    using c by (auto intro: source_upd dest: call_step_completed)
  have frame: "k \<noteq> ?k \<Longrightarrow> same_at k (sy_db sy) db \<and> m k = sy_local sy ?n k" for k
    using call_step_frame [OF c st] .
  have view: "call_step st (req i) link now (view req ?k (sy_phase sy) i) (sy_db sy) (sy_local sy ?n) = (p, db, m)"
    using c by simp
  have inv: "db_inv (completed_ttl_secs st) now ?k (sy_db sy) (view req ?k (sy_phase sy))"
    using run by (simp add: runs_inv_def)
  show ?thesis
    unfolding sy'
  proof (rule replay_invI)
    fix n k r x
    assume "sy_local ?sy n k = Some r"
      and x: "lr_state r = LCompleted x"
    then consider "sy_local sy n k = Some r" | "m k = Some r" by (auto split: if_splits)
    then show "source req (sy_phase ?sy)
        k (lr_fingerprint r) x"
    proof cases
      case 1
      then show ?thesis using src d(1) [OF _ x] by simp
    next
      case 2
      from call_step_local [OF c st 2 x] show ?thesis
        using src d(1) [OF _ x] source_now by auto
    qed
  next
    fix k r x u
    assume "raw_meta k (sy_db ?sy) = Some r"
      and x: "im_state r = ''completed''"
      and "raw_response k (sy_db ?sy) = Some (x, u)"
    then have r: "raw_meta k db = Some r" "raw_response k db = Some (x, u)" by simp_all
    show "source req (sy_phase ?sy)
        k (im_fingerprint r) x"
    proof (cases "k = ?k")
      case True
      from call_step_response [OF c st r(1) [unfolded True] x r(2) [unfolded True]] show ?thesis
        using src d(2) [OF _ x] source_now True by auto
    next
      case False
      then have "raw_meta k (sy_db sy) = Some r" "raw_response k (sy_db sy) = Some (x, u)"
        using frame [OF False] r by (simp_all add: same_at_def)
      from d(2) [OF this(1) x this(2)] show ?thesis using src by simp
    qed
  next
    fix j u
    assume "sy_phase ?sy j = PReading u"
      and u: "now < u"
    then have j: "((sy_phase sy)(i := p)) j = PReading u" by simp
    have "\<exists>r. raw_meta (kr_key (req j)) db = Some r \<and> im_state r = ''completed'' \<and>
             im_fingerprint r = kr_fingerprint (req j) \<and> u \<le> im_until r"
    proof (cases "j = i")
      case True
      then show ?thesis using j c call_step_reading [OF _ st] by fastforce
    next
      case False
      then have "sy_phase sy j = PReading u" "t < u" using j u t by simp_all
      then obtain r where r: "raw_meta (kr_key (req j)) (sy_db sy) = Some r" "im_state r = ''completed''"
        "im_fingerprint r = kr_fingerprint (req j)" "u \<le> im_until r" using d(3) by blast
      have "raw_meta (kr_key (req j)) db = Some r"
      proof (cases "kr_key (req j) = ?k")
        case True
        then show ?thesis
          using completed_meta_kept [OF view st _ inv, of r] timely r u by simp
      next
        case False
        then show ?thesis using frame [OF False] r by (simp add: same_at_def)
      qed
      with r show ?thesis by blast
    qed
    then show "\<exists>r. raw_meta (kr_key (req j)) (sy_db ?sy) = Some r \<and>
        im_state r = ''completed'' \<and> im_fingerprint r = kr_fingerprint (req j) \<and> u \<le> im_until r"
      by simp
  next
    fix j x
    assume "sy_phase ?sy j = PReplayed x"
    then have j: "((sy_phase sy)(i := p)) j = PReplayed x" by simp
    have "source req ((sy_phase sy)(i := p)) (kr_key (req j)) (kr_fingerprint (req j)) x"
    proof (cases "j = i")
      case False
      then show ?thesis using j d(4) src by simp
    next
      case True
      then have p: "p = PReplayed x" using j by simp
      from call_step_replayed [OF c [unfolded p] st]
      consider "sy_phase sy i = PReplayed x"
        | r where "sy_local sy ?n ?k = Some r" "lr_fingerprint r = kr_fingerprint (req i)" "lr_state r = LCompleted x"
        | u v where "sy_phase sy i = PReading u" "raw_response ?k (sy_db sy) = Some (x, v)" by blast
      then show ?thesis
      proof cases
        case 1
        then show ?thesis using d(4) src True by simp
      next
        case (2 r)
        then show ?thesis using d(1) [of ?n ?k r x] src True by simp
      next
        case (3 u v)
        then have "t < u" using timely t by simp
        then show ?thesis using d(3) [OF 3(1)] d(2) [OF _ _ 3(2)] src True by auto
      qed
    qed
    then show "source req (sy_phase ?sy)
        (kr_key (req j)) (kr_fingerprint (req j)) x" by simp
  qed
qed

lemma replay_inv_step:
  assumes inv: "runs_inv st req t sy \<and> replay_inv req t sy" and e: "t \<le> fst e" "timely_event st e sy"
    and st: "is_distributed st" "0 < completed_ttl_secs st"
  shows "runs_inv st req (fst e) (idem_step st req e sy) \<and> replay_inv req (fst e) (idem_step st req e sy)"
proof
  show "runs_inv st req (fst e) (idem_step st req e sy)"
    using inv e st by (auto intro: runs_inv_step)
  obtain now i a where ev: "e = (now, i, a)" by (cases e)
  have now: "runs_inv st req now sy"
    using inv e(1) ev key_inv_later by (fastforce simp: runs_inv_def)
  note d = replay_invD [OF inv [THEN conjunct2]]
  show "replay_inv req (fst e) (idem_step st req e sy)"
  proof (cases a)
    case (ACall link)
    then show ?thesis using replay_inv_call [OF inv [THEN conjunct2] _ now st(1)] e ev by simp
  next
    case (AReturn h)
    have keep: "source req ((sy_phase sy)(i := return_step h (sy_phase sy i))) k f x"
      if "source req (sy_phase sy) k f x" for k f x
      using that by (rule source_upd) (simp add: return_step_def)
    have phase: "((sy_phase sy)(i := return_step h (sy_phase sy i))) j = q \<longleftrightarrow> sy_phase sy j = q"
      if "\<exists>u. q = PReading u \<or> (\<exists>c. q = PReplayed c)" for j q
      using that by (auto simp: return_step_def split: request_phase.splits handler_outcome.splits)
    show ?thesis
      unfolding ev AReturn idem_step.simps
      by (rule replay_invI; simp add: phase del: fun_upd_apply)
        (use e ev d keep in \<open>auto simp del: fun_upd_apply\<close>)
  next
    case AGc
    have gc: "local_gc now m k = Some r \<Longrightarrow> m k = Some r" for m k r
      by (auto simp: local_gc_def split: option.splits if_splits)
    show ?thesis
      unfolding ev AGc idem_step.simps
      by (intro replay_invI) (use e ev d in \<open>auto split: if_splits dest: gc\<close>)
  qed
qed

text \<open>
  C7. In the mode with Redis and in a timely run, a replay is the original answer. Timely means as
  before, and also that a request which was told of a completed record reads the stored response
  before that record has ended; a later read, which the code permits, can meet the response of
  another request under the key (\<open>late_read_replays_other\<close>). When a request is answered from a stored response, some request with
  the same key and the same fingerprint has run its handler, its client has received that response,
  and the replay repeats it with its content type, location and entity tag.
\<close>

theorem replays_original:
  assumes "is_distributed st" "0 < completed_ttl_secs st" "timely_run st req evs"
    and "sy_phase (idem_run st req evs) i = PReplayed c"
  shows "\<exists>j s response. sy_phase (idem_run st req evs) j = PCompleted s response \<and>
    kr_key (req j) = kr_key (req i) \<and> kr_fingerprint (req j) = kr_fingerprint (req i) \<and>
    client_response (sy_phase (idem_run st req evs) j) = Some response \<and>
    client_response (sy_phase (idem_run st req evs) i) = Some (rebuild_response (cached_of response))"
proof -
  have init: "runs_inv st req 0 idem_init \<and> replay_inv req 0 idem_init"
    by (simp add: runs_inv_init) (simp add: replay_inv_def idem_init_def)
  have "\<exists>now. runs_inv st req now (idem_run st req evs) \<and> replay_inv req now (idem_run st req evs)"
    unfolding idem_run_def
    by (rule timely_from_induct [where Q = "\<lambda>t sy. runs_inv st req t sy \<and> replay_inv req t sy",
          OF assms(3) [unfolded timely_run_def] init])
      (rule replay_inv_step [OF _ _ _ assms(1,2)])
  then show ?thesis
    using replay_invD(4) assms(4) by (fastforce simp: source_def client_response_def)
qed

section \<open>Two runs\<close>

text \<open>Two identical requests on two instances, and a run in which the second comes after the lifetime.\<close>

definition demo_state :: IdempotencyState where
  "demo_state = with_processing_ttl 5 (IdempotencyState_new True 10)"

definition demo_request :: "nat \<Rightarrow> keyed_request" where
  "demo_request i = \<lparr>kr_key = ''k'', kr_fingerprint = ''f'', kr_instance = i\<rparr>"

definition demo_response :: CachedResponse where
  "demo_response = \<lparr>cr_status = 201, cr_body = ''ok'', cr_headers = [(''etag'', ''1''), (''vary'', ''x'')]\<rparr>"

definition demo_first :: "idem_event list" where
  "demo_first = [(0, 0, ACall RedisUp), (1, 0, ACall RedisUp), (2, 0, AReturn (HOk demo_response)), (3, 0, ACall RedisUp)]"

definition demo_replay :: "idem_event list" where
  "demo_replay = demo_first @ [(4, 1, ACall RedisUp), (5, 1, ACall RedisUp)]"


lemma demo_replay_run:
  "timely_run demo_state demo_request demo_replay"
  "sy_phase (idem_run demo_state demo_request demo_replay) 1 = PReplayed (cached_of demo_response)"
  by code_simp+


lemma demo_state_facts: "is_distributed demo_state" "0 < completed_ttl_secs demo_state"
  by code_simp+


lemma replays_original_witness:
  "\<exists>j s response. sy_phase (idem_run demo_state demo_request demo_replay) j = PCompleted s response \<and>
    kr_key (demo_request j) = kr_key (demo_request 1) \<and>
    kr_fingerprint (demo_request j) = kr_fingerprint (demo_request 1) \<and>
    client_response (sy_phase (idem_run demo_state demo_request demo_replay) j) = Some response \<and>
    client_response (sy_phase (idem_run demo_state demo_request demo_replay) 1) =
      Some (rebuild_response (cached_of response))"
  by (rule replays_original [OF demo_state_facts demo_replay_run])

text \<open>
  The bounds on time are needed. A request that begins after its reservation has ended finds the
  reservation of the next one, which has the same fingerprint, and both handlers run. A request that
  was told of a completed record and reads the response after that record has ended gets the answer to
  another request of the user under the same key. Without Redis the record of a running request ends
  with the reservation, so a handler that takes longer runs twice.
\<close>

definition demo_late :: "idem_event list" where
  "demo_late = [(0, 0, ACall RedisUp), (6, 1, ACall RedisUp), (7, 1, ACall RedisUp), (8, 0, ACall RedisUp)]"

lemma late_begin_runs_twice:
  "sy_phase (idem_run demo_state demo_request demo_late) 0 = PExecuting 8"
  "sy_phase (idem_run demo_state demo_request demo_late) 1 = PExecuting 7"
  by code_simp+

definition other_request :: "nat \<Rightarrow> keyed_request" where
  "other_request i = (demo_request i)\<lparr>kr_fingerprint := if i = 2 then ''g'' else ''f''\<rparr>"

definition other_response :: CachedResponse where
  "other_response = \<lparr>cr_status = 200, cr_body = ''other'', cr_headers = []\<rparr>"

definition demo_late_read :: "idem_event list" where
  "demo_late_read = demo_first @ [(12, 1, ACall RedisUp), (14, 2, ACall RedisUp), (15, 2, ACall RedisUp),
     (15, 2, AReturn (HOk other_response)), (16, 2, ACall RedisUp), (17, 1, ACall RedisUp)]"

lemma late_read_replays_other:
  "sy_phase (idem_run demo_state other_request demo_late_read) 1 = PReplayed (cached_of other_response)"
  "kr_fingerprint (other_request 1) = ''f''" "kr_fingerprint (other_request 2) = ''g''"
  by code_simp+

definition demo_local :: "idem_event list" where
  "demo_local = [(0, 0, ACall RedisUp), (0, 0, ACall RedisUp), (6, 1, ACall RedisUp), (6, 1, ACall RedisUp)]"

lemma slow_local_handler_runs_twice:
  "sy_phase (idem_run (demo_state\<lparr>is_distributed := False\<rparr>) (\<lambda>i. (demo_request i)\<lparr>kr_instance := 0\<rparr>) demo_local) 0 = PExecuting 0"
  "sy_phase (idem_run (demo_state\<lparr>is_distributed := False\<rparr>) (\<lambda>i. (demo_request i)\<lparr>kr_instance := 0\<rparr>) demo_local) 1 = PExecuting 6"
  by code_simp+

section \<open>What a fingerprint binds\<close>

text \<open>
  With a hash that does not collide, two requests that share key and fingerprint are the same
  mutation: one tenant, one user, one method, one normalised target and one body. No tenant, method
  or target contains a line break.
\<close>

lemma line_split:
  "CHR 0x0A \<notin> set a \<Longrightarrow> CHR 0x0A \<notin> set b \<Longrightarrow> a @ CHR 0x0A # x = b @ CHR 0x0A # y \<Longrightarrow> a = b \<and> x = y"
  by (induction a arbitrary: b) (auto simp: Cons_eq_append_conv)

lemma fingerprint_binds:
  assumes "inj sha"
    and "request_fingerprint sha t u mth target body = request_fingerprint sha t' u' mth' target' body'"
    and "CHR 0x0A \<notin> set t" "CHR 0x0A \<notin> set t'" "CHR 0x0A \<notin> set mth" "CHR 0x0A \<notin> set mth'"
    and "CHR 0x0A \<notin> set target" "CHR 0x0A \<notin> set target'"
  shows "t = t' \<and> u = u' \<and> mth = mth' \<and> target = target' \<and> body = body'"
proof -
  have "CHR 0x0A \<noteq> CHR ''-''" "\<not> is_ascii_digit (CHR 0x0A)" by code_simp+
  then have "CHR 0x0A \<notin> set (show_int v)" for v using show_int_chars [of _ v] by blast
  note nl = this
  have eq: "sha x = sha y \<Longrightarrow> x = y" for x y using assms(1) by (rule injD)
  have "t @ CHR 0x0A # show_int u @ CHR 0x0A # mth @ CHR 0x0A # target @ CHR 0x0A # sha body =
      t' @ CHR 0x0A # show_int u' @ CHR 0x0A # mth' @ CHR 0x0A # target' @ CHR 0x0A # sha body'"
    using eq [OF assms(2) [unfolded request_fingerprint_def]] by simp
  from line_split [OF assms(3,4) this] have 1: "t = t'"
    and "show_int u @ CHR 0x0A # mth @ CHR 0x0A # target @ CHR 0x0A # sha body =
      show_int u' @ CHR 0x0A # mth' @ CHR 0x0A # target' @ CHR 0x0A # sha body'" by simp_all
  from line_split [OF nl nl this(2)] have 2: "show_int u = show_int u'"
    and "mth @ CHR 0x0A # target @ CHR 0x0A # sha body = mth' @ CHR 0x0A # target' @ CHR 0x0A # sha body'" by simp_all
  from line_split [OF assms(5,6) this(2)] have 3: "mth = mth'"
    and "target @ CHR 0x0A # sha body = target' @ CHR 0x0A # sha body'" by simp_all
  from line_split [OF assms(7,8) this(2)] have "target = target'" "sha body = sha body'" by simp_all
  then show ?thesis using 1 2 3 eq by simp
qed

end
