(* ===== verification/Org_Messages.thy ===== *)
theory Org_Messages
  imports Rust_Strings
begin

text \<open>
  The message texts of the code that are not ASCII, as the UTF-8 bytes of their code points.
  Each definition is followed by an English gloss of the text; a text with a hole is split
  into the pieces around it.
\<close>

definition msg_cap_unknown :: string where \<comment> \<open>the database names a capability that is not compiled in (code)\<close>
  "msg_cap_unknown = utf8
    [25968, 25454, 24211, 24341, 29992, 20102, 26410, 32534, 35793, 30340, 33021,
     21147, 20195, 30721, 32]"

definition msg_cap :: string where \<comment> \<open>capability (code)\<close>
  "msg_cap = utf8
    [33021, 21147, 32]"

definition msg_cap_variant :: string where \<comment> \<open>does not support the variant (variant)\<close>
  "msg_cap_variant = utf8
    [32, 19981, 25903, 25345, 21464, 20307, 32]"

definition msg_cap_schema :: string where \<comment> \<open>with schema version (number)\<close>
  "msg_cap_schema = utf8
    [32, 30340, 32, 115, 99, 104, 101, 109, 97, 32, 118]"

definition msg_cap_config :: string where \<comment> \<open>the configuration of the capability must be an empty object\<close>
  "msg_cap_config = utf8
    [33021, 21147, 37197, 32622, 24517, 39035, 26159, 31354, 23545, 35937]"

definition msg_plan_draft_bound :: string where \<comment> \<open>a tenant cannot be bound to a draft version\<close>
  "msg_plan_draft_bound = utf8
    [31199, 25143, 19981, 33021, 32465, 23450, 23578, 26410, 21457, 24067, 30340,
     20135, 21697, 22871, 39184, 29256, 26412]"

definition msg_plan_dup :: string where \<comment> \<open>the version defines the capability twice (code)\<close>
  "msg_plan_dup = utf8
    [20135, 21697, 22871, 39184, 29256, 26412, 37325, 22797, 23450, 20041, 33021,
     21147, 32]"

definition msg_cap_dependency :: string where \<comment> \<open>lacks the dependency (code)\<close>
  "msg_cap_dependency = utf8
    [32, 32570, 23569, 20381, 36182, 32]"

definition msg_cap_and :: string where \<comment> \<open>and (code)\<close>
  "msg_cap_and = utf8
    [32, 19982, 32]"

definition msg_cap_conflict :: string where \<comment> \<open>conflict\<close>
  "msg_cap_conflict = utf8
    [32, 20914, 31361]"

definition msg_override_dup :: string where \<comment> \<open>the tenant overrides the capability twice (code)\<close>
  "msg_override_dup = utf8
    [31199, 25143, 37325, 22797, 35206, 30422, 33021, 21147, 32]"

definition msg_cap_not_compiled :: string where \<comment> \<open>is not compiled into this deployment\<close>
  "msg_cap_not_compiled = utf8
    [32, 26410, 32534, 35793, 36827, 24403, 21069, 37096, 32626]"

definition msg_cap_not_compiled_any :: string where \<comment> \<open>the capability is not compiled into this deployment\<close>
  "msg_cap_not_compiled_any = utf8
    [33021, 21147, 26410, 32534, 35793, 36827, 24403, 21069, 37096, 32626]"

definition msg_deploy_pre :: string where \<comment> \<open>the deployment does not meet the needs of capability (code)\<close>
  "msg_deploy_pre = utf8
    [24403, 21069, 37096, 32626, 19981, 28385, 36275, 33021, 21147, 32]"

definition msg_deploy_post :: string where \<comment> \<open>its infrastructure\<close>
  "msg_deploy_post = utf8
    [32, 30340, 22522, 30784, 35774, 26045, 20381, 36182]"

definition msg_deploy_deps :: string where \<comment> \<open>its dependencies (list)\<close>
  "msg_deploy_deps = utf8
    [32, 30340, 20381, 36182, 58, 32]"

definition msg_tenant_no_cap :: string where \<comment> \<open>the tenant is not entitled to the capability (code)\<close>
  "msg_tenant_no_cap = utf8
    [24403, 21069, 31199, 25143, 26410, 24320, 36890, 33021, 21147, 32]"

definition msg_tenant_no_grant :: string where \<comment> \<open>so its permissions cannot be granted\<close>
  "msg_tenant_no_grant = utf8
    [65292, 19981, 33021, 25480, 20104, 20854, 26435, 38480]"

definition msg_target_pre :: string where \<comment> \<open>in the resulting set (code)\<close>
  "msg_target_pre = utf8
    [26368, 32456, 33021, 21147, 38598, 21512, 20013, 32]"

definition msg_plan_disabled :: string where \<comment> \<open>the plan is disabled\<close>
  "msg_plan_disabled = utf8
    [30446, 26631, 20135, 21697, 22871, 39184, 24050, 20572, 29992]"

definition msg_version_not_assignable :: string where \<comment> \<open>the version can no longer be assigned\<close>
  "msg_version_not_assignable = utf8
    [30446, 26631, 20135, 21697, 22871, 39184, 29256, 26412, 24050, 19981, 20877,
     21487, 20998, 37197]"

definition msg_version_draft :: string where \<comment> \<open>a draft cannot be assigned\<close>
  "msg_version_draft = utf8
    [33609, 31295, 20135, 21697, 22871, 39184, 29256, 26412, 19981, 21487, 20998,
     37197]"

definition msg_version_retired :: string where \<comment> \<open>a retired version cannot be assigned\<close>
  "msg_version_retired = utf8
    [24050, 36864, 24441, 20135, 21697, 22871, 39184, 29256, 26412, 19981, 21487,
     26032, 20998, 37197]"

definition msg_version_status :: string where \<comment> \<open>invalid version status\<close>
  "msg_version_status = utf8
    [20135, 21697, 22871, 39184, 29256, 26412, 29366, 24577, 26080, 25928]"

definition msg_version_missing :: string where \<comment> \<open>the version does not exist\<close>
  "msg_version_missing = utf8
    [30446, 26631, 20135, 21697, 22871, 39184, 29256, 26412, 19981, 23384, 22312]"

definition msg_role_missing :: string where \<comment> \<open>the role does not exist\<close>
  "msg_role_missing = utf8
    [35282, 33394, 19981, 23384, 22312]"

definition msg_role_scope :: string where \<comment> \<open>invalid data scope\<close>
  "msg_role_scope = utf8
    [26080, 25928, 30340, 25968, 25454, 33539, 22260, 20540]"

definition msg_role_status :: string where \<comment> \<open>invalid role status\<close>
  "msg_role_status = utf8
    [26080, 25928, 30340, 35282, 33394, 29366, 24577]"

definition msg_role_super_remains :: string where \<comment> \<open>at least one available super role must remain\<close>
  "msg_role_super_remains = utf8
    [31995, 32479, 24517, 39035, 20445, 30041, 33267, 23569, 19968, 20010, 21487,
     29992, 30340, 36229, 32423, 31649, 29702, 21592, 35282, 33394]"

definition msg_role_select :: string where \<comment> \<open>select the roles to delete\<close>
  "msg_role_select = utf8
    [35831, 36873, 25321, 35201, 21024, 38500, 30340, 35282, 33394]"

definition msg_role_code :: string where \<comment> \<open>the role code exists\<close>
  "msg_role_code = utf8
    [35282, 33394, 32534, 30721, 24050, 23384, 22312]"

definition msg_perm_missing :: string where \<comment> \<open>the permission does not exist (id)\<close>
  "msg_perm_missing = utf8
    [26435, 38480, 19981, 23384, 22312, 58, 32]"

definition msg_scope_needs_dept :: string where \<comment> \<open>a custom scope needs a department\<close>
  "msg_scope_needs_dept = utf8
    [33258, 23450, 20041, 25968, 25454, 26435, 38480, 33267, 23569, 38656, 35201,
     19968, 20010, 37096, 38376]"

definition msg_scope_no_dept :: string where \<comment> \<open>only a custom scope has departments\<close>
  "msg_scope_no_dept = utf8
    [38750, 33258, 23450, 20041, 25968, 25454, 26435, 38480, 19981, 33021, 25658,
     24102, 37096, 38376]"

definition msg_scope_dept_missing :: string where \<comment> \<open>the custom scope names a missing or foreign department (id)\<close>
  "msg_scope_dept_missing = utf8
    [33258, 23450, 20041, 25968, 25454, 26435, 38480, 21253, 21547, 19981, 23384,
     22312, 25110, 36328, 31199, 25143, 30340, 37096, 38376, 58, 32]"

definition msg_role_quota :: string where \<comment> \<open>the tenant's role quota is used up\<close>
  "msg_role_quota = utf8
    [24050, 36798, 21040, 31199, 25143, 26368, 22823, 35282, 33394, 25968]"

definition msg_user_quota :: string where \<comment> \<open>the tenant's user quota is used up\<close>
  "msg_user_quota = utf8
    [24050, 36798, 21040, 31199, 25143, 26368, 22823, 29992, 25143, 25968]"

definition msg_assign_dept :: string where \<comment> \<open>the department is missing or not the tenant's\<close>
  "msg_assign_dept = utf8
    [37096, 38376, 19981, 23384, 22312, 25110, 19981, 23646, 20110, 24403, 21069,
     31199, 25143]"

definition msg_assign_role :: string where \<comment> \<open>a role is missing or not the tenant's\<close>
  "msg_assign_role = utf8
    [35282, 33394, 19981, 23384, 22312, 25110, 19981, 23646, 20110, 24403, 21069,
     31199, 25143]"

definition msg_assign_disabled :: string where \<comment> \<open>a disabled role cannot be assigned\<close>
  "msg_assign_disabled = utf8
    [19981, 33021, 20998, 37197, 24050, 20572, 29992, 30340, 35282, 33394]"

definition msg_assign_super :: string where \<comment> \<open>only a super administrator may assign a super role\<close>
  "msg_assign_super = utf8
    [26080, 26435, 38480, 20998, 37197, 36229, 32423, 31649, 29702, 21592, 35282,
     33394]"

definition msg_username_taken :: string where \<comment> \<open>the user name exists\<close>
  "msg_username_taken = utf8
    [29992, 25143, 21517, 24050, 23384, 22312]"

definition msg_disable_self :: string where \<comment> \<open>users cannot disable themselves\<close>
  "msg_disable_self = utf8
    [31105, 27490, 20572, 29992, 33258, 24049]"

definition msg_user_select :: string where \<comment> \<open>select the users to delete\<close>
  "msg_user_select = utf8
    [35831, 36873, 25321, 35201, 21024, 38500, 30340, 29992, 25143]"

definition msg_delete_self :: string where \<comment> \<open>users cannot delete themselves\<close>
  "msg_delete_self = utf8
    [31105, 27490, 21024, 38500, 33258, 24049]"

definition msg_user_invisible :: string where \<comment> \<open>the user is outside the data scope\<close>
  "msg_user_invisible = utf8
    [26080, 26435, 35775, 38382, 35813, 29992, 25143, 25968, 25454]"

definition msg_super_untouchable :: string where \<comment> \<open>super administrators cannot be operated on\<close>
  "msg_super_untouchable = utf8
    [31105, 27490, 25805, 20316, 36229, 32423, 31649, 29702, 21592]"

definition msg_user_status :: string where \<comment> \<open>invalid user status\<close>
  "msg_user_status = utf8
    [26080, 25928, 30340, 29992, 25143, 29366, 24577]"

definition msg_user_limit :: string where \<comment> \<open>the user quota cannot be below the users (number)\<close>
  "msg_user_limit = utf8
    [29992, 25143, 39069, 24230, 19981, 33021, 20302, 20110, 24403, 21069, 29992,
     25143, 25968, 32]"

definition msg_role_limit :: string where \<comment> \<open>the role quota cannot be below the roles (number)\<close>
  "msg_role_limit = utf8
    [35282, 33394, 39069, 24230, 19981, 33021, 20302, 20110, 24403, 21069, 35282,
     33394, 25968, 32]"

definition msg_storage_limit :: string where \<comment> \<open>the storage quota cannot be below the bytes in use (number)\<close>
  "msg_storage_limit = utf8
    [23384, 20648, 39069, 24230, 19981, 33021, 20302, 20110, 24403, 21069, 24050,
     29992, 23383, 33410, 25968, 32]"

definition msg_storage_quota :: string where \<comment> \<open>the tenant's storage quota is used up\<close>
  "msg_storage_quota = utf8
    [24050, 36798, 21040, 31199, 25143, 26368, 22823, 23384, 20648, 23481, 37327]"

definition msg_saga_no_request :: string where \<comment> \<open>the tenant has no record of its creation and cannot be resumed\<close>
  "msg_saga_no_request = utf8
    [29616, 26377, 31199, 25143, 27809, 26377, 21019, 24314, 32, 83, 97, 103, 97,
     32, 24130, 31561, 35760, 24405, 65292, 19981, 33021, 20316, 20026, 21019,
     24314, 35831, 27714, 32493, 36305]"

definition msg_saga_other_request :: string where \<comment> \<open>the key was used for another creation\<close>
  "msg_saga_other_request = utf8
    [73, 100, 101, 109, 112, 111, 116, 101, 110, 99, 121, 45, 75, 101, 121, 32,
     24050, 29992, 20110, 19981, 21516, 30340, 31199, 25143, 21019, 24314, 35831,
     27714]"

definition msg_saga_params :: string where \<comment> \<open>the retry differs from the persisted request\<close>
  "msg_saga_params = utf8
    [31199, 25143, 21019, 24314, 37325, 35797, 21442, 25968, 19982, 24050, 25345,
     20037, 21270, 32, 112, 114, 111, 118, 105, 115, 105, 111, 110, 105, 110, 103,
     32, 35831, 27714, 19981, 19968, 33268]"

definition msg_saga_status :: string where \<comment> \<open>the status does not allow to resume the creation\<close>
  "msg_saga_status = utf8
    [29616, 26377, 31199, 25143, 29366, 24577, 19981, 20801, 35768, 24674, 22797,
     21019, 24314, 32, 83, 97, 103, 97]"

definition msg_saga_no_plan :: string where \<comment> \<open>the tenant has no plan\<close>
  "msg_saga_no_plan = utf8
    [29616, 26377, 31199, 25143, 32570, 23569, 32, 112, 114, 111, 118, 105, 115,
     105, 111, 110, 105, 110, 103, 32, 22871, 39184, 24555, 29031]"

definition msg_saga_plan :: string where \<comment> \<open>the retry names another plan version\<close>
  "msg_saga_plan = utf8
    [31199, 25143, 21019, 24314, 37325, 35797, 30340, 32, 112, 108, 97, 110, 95,
     118, 101, 114, 115, 105, 111, 110, 95, 105, 100, 32, 19982, 24050, 25345,
     20037, 21270, 35831, 27714, 19981, 19968, 33268]"

definition msg_saga_admin :: string where \<comment> \<open>the retry names another administrator\<close>
  "msg_saga_admin = utf8
    [31199, 25143, 21019, 24314, 37325, 35797, 30340, 31649, 29702, 21592, 36134,
     21495, 19981, 21305, 37197]"

definition msg_saga_password :: string where \<comment> \<open>the retry carries another password\<close>
  "msg_saga_password = utf8
    [31199, 25143, 21019, 24314, 37325, 35797, 30340, 31649, 29702, 21592, 20973,
     25454, 19982, 24050, 25345, 20037, 21270, 35831, 27714, 19981, 19968, 33268]"

definition msg_saga_not_provisioning :: string where \<comment> \<open>the tenant is no longer provisioning\<close>
  "msg_saga_not_provisioning = utf8
    [31199, 25143, 24050, 19981, 22788, 20110, 32, 112, 114, 111, 118, 105, 115,
     105, 111, 110, 105, 110, 103, 65292, 19981, 33021, 21516, 27493, 21021, 22987,
     21270, 33021, 21147, 36164, 28304]"

definition msg_saga_changed :: string where \<comment> \<open>the provisioning state changed\<close>
  "msg_saga_changed = utf8
    [31199, 25143, 32, 112, 114, 111, 118, 105, 115, 105, 111, 110, 105, 110, 103,
     32, 29366, 24577, 24050, 21464, 21270, 65292, 26080, 27861, 23436, 25104,
     21551, 29992]"

end
