(* ===== verification/Capabilities.thy ===== *)
theory Capabilities
  imports Org_Types Org_Messages
begin

text \<open>
  The capabilities of the product (\<open>ryframe-application/src/system/product_capability_catalog.rs\<close>,
  \<open>system/product\<close>): the compiled catalogue, the effective capabilities of a tenant out of its plan
  version, its overrides and the deployment, and the guards that rest on them. The loading of the
  snapshot from the database is an argument.
\<close>

section \<open>The catalogue\<close>

record CapabilityDescriptor =
  cy_code :: string
  cy_name :: string
  cy_dependencies :: "string list"
  cy_conflicts :: "string list"
  cy_route_keys :: "string list"
  cy_permission_codes :: "string list"
  cy_default_admin_permissions :: "string list"
  cy_deployment_dependencies :: "string list"
  cy_client_config_fields :: "string list"
  cy_variants :: "(string \<times> int) list"

definition standard_capability ::
  "string \<Rightarrow> string \<Rightarrow> string list \<Rightarrow> string list \<Rightarrow> string list \<Rightarrow> CapabilityDescriptor" where
  "standard_capability code nm routes permissions deployment_dependencies =
     \<lparr>cy_code = code, cy_name = nm, cy_dependencies = [], cy_conflicts = [], cy_route_keys = routes,
      cy_permission_codes = permissions, cy_default_admin_permissions = permissions,
      cy_deployment_dependencies = deployment_dependencies, cy_client_config_fields = [],
      cy_variants = [(''standard'', 1)]\<rparr>"

definition CAPABILITY_CATALOG :: "CapabilityDescriptor list" where
  "CAPABILITY_CATALOG =
     [standard_capability ''system.post'' (utf8 [23703, 20301, 31649, 29702]) [''system.post'']
        [''system:post:add'', ''system:post:edit'', ''system:post:export'',
         ''system:post:list'', ''system:post:remove''] [],
      standard_capability ''system.user'' (utf8 [29992, 25143, 31649, 29702]) [''system.user'']
        [''system:user-import:add'', ''system:user-import:cancel'', ''system:user-import:list'',
         ''system:user:add'', ''system:user:edit'', ''system:user:export'',
         ''system:user:list'', ''system:user:remove''] [],
      standard_capability ''system.role'' (utf8 [35282, 33394, 31649, 29702]) [''system.role'']
        [''system:role:add'', ''system:role:edit'', ''system:role:export'',
         ''system:role:list'', ''system:role:remove''] [],
      standard_capability ''system.menu'' (utf8 [33756, 21333, 31649, 29702]) [''system.menu'']
        [''system:menu:add'', ''system:menu:edit'', ''system:menu:list'',
         ''system:menu:remove''] [],
      standard_capability ''system.dept'' (utf8 [37096, 38376, 31649, 29702]) [''system.dept'']
        [''system:dept:add'', ''system:dept:edit'', ''system:dept:list'',
         ''system:dept:remove''] [],
      standard_capability ''system.dict'' (utf8 [23383, 20856, 31649, 29702]) [''system.dict'']
        [''system:dict:add'', ''system:dict:edit'', ''system:dict:export'',
         ''system:dict:list'', ''system:dict:remove''] [],
      standard_capability ''system.config'' (utf8 [21442, 25968, 35774, 32622]) [''system.config'']
        [''system:config:add'', ''system:config:edit'', ''system:config:export'',
         ''system:config:list'', ''system:config:remove''] [],
      standard_capability ''system.perm'' (utf8 [26435, 38480, 31649, 29702]) [''system.perm'']
        [''system:perm:add'', ''system:perm:edit'', ''system:perm:list'',
         ''system:perm:remove'', ''system:perm:sync''] [],
      standard_capability ''system.authorization-diagnostics'' (utf8 [26435, 38480, 35786, 26029]) [''system.authorization-diagnostics'']
        [''system:authorization-diagnostic:list''] [],
      standard_capability ''system.operlog'' (utf8 [25805, 20316, 26085, 24535]) [''system.operlog'']
        [''system:operlog:export'', ''system:operlog:list''] [],
      standard_capability ''system.logininfor'' (utf8 [30331, 24405, 26085, 24535]) [''system.logininfor'']
        [''system:logininfor:export'', ''system:logininfor:list''] [],
      standard_capability ''system.message'' (utf8 [28040, 24687, 21457, 24067]) []
        [''system:message:publish''] [''messaging''],
      standard_capability ''monitor.online'' (utf8 [22312, 32447, 20250, 35805]) [''monitor.online'']
        [''monitor:online:force-logout'', ''monitor:online:list''] [''redis''],
      standard_capability ''monitor.jobs'' (utf8 [21518, 21488, 20219, 21153]) [''monitor.jobs'']
        [''monitor:job:list'', ''monitor:job:retry''] [],
      standard_capability ''monitor.schedules'' (utf8 [23450, 26102, 20219, 21153]) [''monitor.schedules'']
        [''monitor:schedule:add'', ''monitor:schedule:edit'', ''monitor:schedule:list'',
         ''monitor:schedule:remove'', ''monitor:schedule:run''] [''scheduler''],
      standard_capability ''system.notice'' (utf8 [36890, 30693, 20844, 21578]) [''system.notice'']
        [''system:notice:add'', ''system:notice:edit'', ''system:notice:list'',
         ''system:notice:remove''] []]"

text \<open>The lookups are functions of a catalogue, and the code uses them with its own.\<close>

type_synonym catalog = "CapabilityDescriptor list"

definition capability_descriptor :: "catalog \<Rightarrow> string \<Rightarrow> CapabilityDescriptor app_result" where
  "capability_descriptor catalog code =
     (case find (\<lambda>d. cy_code d = code) catalog of
        Some d \<Rightarrow> Inr d
      | None \<Rightarrow> Inl (Config (msg_cap_unknown @ code)))"

definition validate_empty_config :: "json \<Rightarrow> unit app_result" where
  "validate_empty_config config =
     (case config of JObject [] \<Rightarrow> Inr () | _ \<Rightarrow> Inl (Validation msg_cap_config))"

definition validate_capability_snapshot ::
  "catalog \<Rightarrow> string \<Rightarrow> string \<Rightarrow> int \<Rightarrow> json \<Rightarrow> CapabilityDescriptor app_result" where
  "validate_capability_snapshot catalog code variant_code schema_version config =
     bind_result (capability_descriptor catalog code) (\<lambda>d.
       if (variant_code, schema_version) \<notin> set (cy_variants d)
       then Inl (Validation (msg_cap @ code @ msg_cap_variant @ variant_code @ msg_cap_schema @ show_int schema_version))
       else bind_result (validate_empty_config config) (\<lambda>_. Inr d))"

definition project_client_config :: "CapabilityDescriptor \<Rightarrow> json \<Rightarrow> json" where
  "project_client_config d config =
     (case config of
        JObject fs \<Rightarrow>
          JObject (List.map_filter (\<lambda>f. map_option (Pair f) (map_of fs f)) (cy_client_config_fields d))
      | _ \<Rightarrow> JObject [])"

section \<open>The effective capabilities of a tenant\<close>

record ProductCapabilityRecord =
  pk_code :: string
  pk_variant :: string
  pk_schema_version :: int
  pk_config :: json

record ProductVersionSnapshot =
  pv_plan_key :: string
  pv_plan_name :: string
  pv_plan_status :: string
  pv_version_id :: int
  pv_version :: int
  pv_version_status :: string
  pv_capabilities :: "ProductCapabilityRecord list"

record TenantCapabilityOverrideRecord =
  co_code :: string
  co_enabled :: bool
  co_variant :: string
  co_schema_version :: int
  co_config :: json
  co_reason :: "string option"
  co_changed_by :: "int option"

record TenantProductSnapshot =
  ts_tenant_id :: string
  ts_authorization_epoch :: int
  ts_runtime_epoch :: int
  ts_version :: ProductVersionSnapshot
  ts_overrides :: "TenantCapabilityOverrideRecord list"

record ProductDeployment =
  de_redis :: bool
  de_messaging :: bool
  de_scheduler :: bool

record EffectiveCapabilityVo =
  ec_capability_code :: string
  ec_name :: string
  ec_enabled :: bool
  ec_entitled :: bool
  ec_deployment_enabled :: bool
  ec_source :: string
  ec_variant_code :: "string option"
  ec_schema_version :: "int option"
  ec_config :: "json option"

record ProductContextVo =
  px_tenant_id :: string
  px_runtime_epoch :: string
  px_plan_key :: string
  px_plan_name :: string
  px_plan_version_id :: string
  px_plan_version :: int
  px_capabilities :: "EffectiveCapabilityVo list"
  px_overrides :: "TenantCapabilityOverrideRecord list"

abbreviation SYSTEM_TENANT_ID :: string where "SYSTEM_TENANT_ID \<equiv> ''system''"
abbreviation PLAN_STATUS_ENABLED :: string where "PLAN_STATUS_ENABLED \<equiv> ''1''"
abbreviation VERSION_DRAFT :: string where "VERSION_DRAFT \<equiv> ''draft''"
abbreviation VERSION_PUBLISHED :: string where "VERSION_PUBLISHED \<equiv> ''published''"
abbreviation VERSION_RETIRED :: string where "VERSION_RETIRED \<equiv> ''retired''"

definition dependency_met :: "ProductDeployment \<Rightarrow> string \<Rightarrow> bool" where
  "dependency_met de dependency =
     (if dependency = ''redis'' then de_redis de
      else if dependency = ''messaging'' then de_messaging de
      else if dependency = ''scheduler'' then de_scheduler de
      else False)"

definition deployment_enabled :: "catalog \<Rightarrow> ProductDeployment \<Rightarrow> string \<Rightarrow> bool" where
  "deployment_enabled catalog de code =
     (case find (\<lambda>d. cy_code d = code) catalog of
        Some d \<Rightarrow> list_all (dependency_met de) (cy_deployment_dependencies d)
      | None \<Rightarrow> False)"

text \<open>The two passes of the validation: every record against the catalogue, then the relations.\<close>

fun validate_records :: "catalog \<Rightarrow> ProductCapabilityRecord list \<Rightarrow> string list \<Rightarrow> unit app_result" where
  "validate_records catalog [] seen = Inr ()"
| "validate_records catalog (c # cs) seen =
     (if pk_code c \<in> set seen then Inl (Config (msg_plan_dup @ pk_code c))
      else bind_result (validate_capability_snapshot catalog (pk_code c) (pk_variant c) (pk_schema_version c) (pk_config c))
             (\<lambda>_. validate_records catalog cs (pk_code c # seen)))"

fun validate_relations :: "catalog \<Rightarrow> string list \<Rightarrow> ProductCapabilityRecord list \<Rightarrow> unit app_result" where
  "validate_relations catalog enabled [] = Inr ()"
| "validate_relations catalog enabled (c # cs) =
     bind_result (capability_descriptor catalog (pk_code c)) (\<lambda>d.
       case find (\<lambda>x. x \<notin> set enabled) (cy_dependencies d) of
         Some x \<Rightarrow> Inl (Validation (msg_cap @ cy_code d @ msg_cap_dependency @ x))
       | None \<Rightarrow>
           (case find (\<lambda>x. x \<in> set enabled) (cy_conflicts d) of
              Some x \<Rightarrow> Inl (Validation (msg_cap @ cy_code d @ msg_cap_and @ x @ msg_cap_conflict))
            | None \<Rightarrow> validate_relations catalog enabled cs))"

definition validate_capability_record_relationships ::
  "catalog \<Rightarrow> ProductCapabilityRecord list \<Rightarrow> unit app_result" where
  "validate_capability_record_relationships catalog cs =
     bind_result (validate_records catalog cs []) (\<lambda>_. validate_relations catalog (map pk_code cs) cs)"

fun check_deployment :: "catalog \<Rightarrow> ProductDeployment \<Rightarrow> ProductCapabilityRecord list \<Rightarrow> unit app_result" where
  "check_deployment catalog de [] = Inr ()"
| "check_deployment catalog de (c # cs) =
     bind_result (capability_descriptor catalog (pk_code c)) (\<lambda>d.
       if \<not> deployment_enabled catalog de (cy_code d)
       then Inl (CapabilityUnavailable (msg_deploy_pre @ cy_code d @ msg_deploy_deps @
              join_with '', '' (cy_deployment_dependencies d)))
       else check_deployment catalog de cs)"

definition validate_publishable_capability_records ::
  "catalog \<Rightarrow> ProductDeployment \<Rightarrow> ProductCapabilityRecord list \<Rightarrow> unit app_result" where
  "validate_publishable_capability_records catalog de cs =
     bind_result (validate_capability_record_relationships catalog cs) (\<lambda>_. check_deployment catalog de cs)"

fun collect_overrides ::
  "catalog \<Rightarrow> TenantCapabilityOverrideRecord list \<Rightarrow> (string \<times> TenantCapabilityOverrideRecord) list \<Rightarrow>
   (string \<times> TenantCapabilityOverrideRecord) list app_result" where
  "collect_overrides catalog [] acc = Inr acc"
| "collect_overrides catalog (v # vs) acc =
     bind_result (validate_capability_snapshot catalog (co_code v) (co_variant v) (co_schema_version v) (co_config v))
       (\<lambda>_. if map_of acc (co_code v) \<noteq> None then Inl (Config (msg_override_dup @ co_code v))
             else collect_overrides catalog vs ((co_code v, v) # acc))"

definition effective_capability ::
  "catalog \<Rightarrow> ProductDeployment \<Rightarrow> string \<Rightarrow> (string \<Rightarrow> ProductCapabilityRecord option) \<Rightarrow>
   (string \<Rightarrow> TenantCapabilityOverrideRecord option) \<Rightarrow> CapabilityDescriptor \<Rightarrow> EffectiveCapabilityVo" where
  "effective_capability catalog de tenant_id plan ovr d =
     (case (if tenant_id = SYSTEM_TENANT_ID
            then (True, ''platform'', Some ''standard'', Some 1, Some (JObject []))
            else case ovr (cy_code d) of
              Some v \<Rightarrow> (co_enabled v, ''override'', Some (co_variant v), Some (co_schema_version v),
                          Some (project_client_config d (co_config v)))
            | None \<Rightarrow>
                (case plan (cy_code d) of
                   Some v \<Rightarrow> (True, ''plan'', Some (pk_variant v), Some (pk_schema_version v),
                               Some (project_client_config d (pk_config v)))
                 | None \<Rightarrow> (False, ''none'', None, None, None))) of
        (entitled, source, variant_code, schema_version, config) \<Rightarrow>
          \<lparr>ec_capability_code = cy_code d, ec_name = cy_name d,
           ec_enabled = (entitled \<and> deployment_enabled catalog de (cy_code d)), ec_entitled = entitled,
           ec_deployment_enabled = deployment_enabled catalog de (cy_code d), ec_source = source,
           ec_variant_code = variant_code, ec_schema_version = schema_version, ec_config = config\<rparr>)"

definition product_context_of ::
  "catalog \<Rightarrow> ProductDeployment \<Rightarrow> string \<Rightarrow> int \<Rightarrow> ProductVersionSnapshot \<Rightarrow>
   TenantCapabilityOverrideRecord list \<Rightarrow> ProductContextVo app_result" where
  "product_context_of catalog de tenant_id runtime_epoch target overrides =
     bind_result (validate_capability_record_relationships catalog (pv_capabilities target)) (\<lambda>_.
     bind_result (collect_overrides catalog overrides []) (\<lambda>ovr.
       Inr \<lparr>px_tenant_id = tenant_id, px_runtime_epoch = show_int runtime_epoch,
            px_plan_key = pv_plan_key target, px_plan_name = pv_plan_name target,
            px_plan_version_id = show_int (pv_version_id target), px_plan_version = pv_version target,
            px_capabilities = map (effective_capability catalog de tenant_id
                (map_of (rev (map (\<lambda>c. (pk_code c, c)) (pv_capabilities target)))) (map_of ovr)) catalog,
            px_overrides = overrides\<rparr>))"

definition context_from_snapshot ::
  "catalog \<Rightarrow> ProductDeployment \<Rightarrow> TenantProductSnapshot \<Rightarrow> ProductContextVo app_result" where
  "context_from_snapshot catalog de snapshot =
     (if pv_version_status (ts_version snapshot) = VERSION_DRAFT then Inl (Config msg_plan_draft_bound)
      else product_context_of catalog de (ts_tenant_id snapshot) (ts_runtime_epoch snapshot)
             (ts_version snapshot) (ts_overrides snapshot))"

section \<open>Guards\<close>

definition ensure_available_capability :: "ProductContextVo \<Rightarrow> string \<Rightarrow> EffectiveCapabilityVo app_result" where
  "ensure_available_capability context code =
     (case find (\<lambda>c. ec_capability_code c = code) (px_capabilities context) of
        None \<Rightarrow> Inl (CapabilityUnavailable msg_cap_not_compiled_any)
      | Some c \<Rightarrow>
          if \<not> ec_deployment_enabled c
          then Inl (CapabilityUnavailable (msg_deploy_pre @ code @ msg_deploy_post))
          else if \<not> ec_entitled c then Inl (TenantCapabilityDenied (msg_tenant_no_cap @ code))
          else Inr c)"

definition require_capability_snapshot ::
  "catalog \<Rightarrow> ProductDeployment \<Rightarrow> TenantProductSnapshot \<Rightarrow> string \<Rightarrow> EffectiveCapabilityVo app_result" where
  "require_capability_snapshot catalog de snapshot code =
     bind_result (context_from_snapshot catalog de snapshot) (\<lambda>context. ensure_available_capability context code)"

fun check_guarded :: "ProductContextVo \<Rightarrow> CapabilityDescriptor list \<Rightarrow> unit app_result" where
  "check_guarded context [] = Inr ()"
| "check_guarded context (d # ds) =
     (case find (\<lambda>c. ec_capability_code c = cy_code d) (px_capabilities context) of
        None \<Rightarrow> Inl (CapabilityUnavailable (msg_cap @ cy_code d @ msg_cap_not_compiled))
      | Some c \<Rightarrow>
          if \<not> ec_deployment_enabled c
          then Inl (CapabilityUnavailable (msg_deploy_pre @ cy_code d @ msg_deploy_post))
          else if \<not> ec_entitled c
          then Inl (TenantCapabilityDenied (msg_tenant_no_cap @ cy_code d @ msg_tenant_no_grant))
          else check_guarded context ds)"

definition guards :: "string list \<Rightarrow> CapabilityDescriptor \<Rightarrow> bool" where
  "guards codes d \<longleftrightarrow> list_ex (\<lambda>code. code \<in> set codes) (cy_permission_codes d)"

definition ensure_permission_codes_enabled ::
  "catalog \<Rightarrow> ProductDeployment \<Rightarrow> TenantProductSnapshot \<Rightarrow> string list \<Rightarrow> unit app_result" where
  "ensure_permission_codes_enabled catalog de snapshot codes =
     (let guarded = filter (guards codes) catalog
      in if guarded = [] then Inr ()
         else bind_result (context_from_snapshot catalog de snapshot) (\<lambda>context. check_guarded context guarded))"

definition filter_syncable_permission_codes ::
  "catalog \<Rightarrow> ProductDeployment \<Rightarrow> TenantProductSnapshot \<Rightarrow> string list \<Rightarrow> string list app_result" where
  "filter_syncable_permission_codes catalog de snapshot codes =
     bind_result (context_from_snapshot catalog de snapshot) (\<lambda>context.
       let enabled = map ec_capability_code (filter ec_enabled (px_capabilities context))
       in Inr (filter (\<lambda>code. list_all (\<lambda>d. code \<notin> set (cy_permission_codes d) \<or> cy_code d \<in> set enabled) catalog) codes))"

definition disabled_session_permission_codes :: "catalog \<Rightarrow> ProductContextVo \<Rightarrow> string list" where
  "disabled_session_permission_codes catalog context =
     (let enabled = map ec_capability_code (filter ec_enabled (px_capabilities context))
      in sort_dedup (concat (map cy_permission_codes (filter (\<lambda>d. cy_code d \<notin> set enabled) catalog))))"

definition disabled_session_route_keys :: "catalog \<Rightarrow> ProductContextVo \<Rightarrow> string list" where
  "disabled_session_route_keys catalog context =
     (let enabled = map ec_capability_code (filter ec_enabled (px_capabilities context))
      in concat (map cy_route_keys (filter (\<lambda>d. cy_code d \<notin> set enabled) catalog)))"

section \<open>Resources of a plan version\<close>

record ProvisioningCapabilityResources =
  pc_enabled_route_keys :: "string list"
  pc_enabled_permission_codes :: "string list"
  pc_managed_route_keys :: "string list"
  pc_managed_permission_codes :: "string list"
  pc_default_admin_permissions :: "string list"

definition resources_for_enabled_codes :: "catalog \<Rightarrow> string list \<Rightarrow> ProvisioningCapabilityResources" where
  "resources_for_enabled_codes catalog enabled_codes =
     (let enabled = filter (\<lambda>d. cy_code d \<in> set enabled_codes) catalog
      in \<lparr>pc_enabled_route_keys = concat (map cy_route_keys enabled),
          pc_enabled_permission_codes = concat (map cy_permission_codes enabled),
          pc_managed_route_keys = concat (map cy_route_keys catalog),
          pc_managed_permission_codes = concat (map cy_permission_codes catalog),
          pc_default_admin_permissions = concat (map cy_default_admin_permissions enabled)\<rparr>)"

definition resources_for_change ::
  "catalog \<Rightarrow> ProductContextVo \<Rightarrow> ProductContextVo \<Rightarrow> ProvisioningCapabilityResources" where
  "resources_for_change catalog current target =
     (let enabled_codes = map ec_capability_code (filter ec_entitled (px_capabilities target));
          previously = map ec_capability_code (filter ec_entitled (px_capabilities current))
      in (resources_for_enabled_codes catalog enabled_codes)\<lparr>pc_default_admin_permissions :=
            concat (map cy_default_admin_permissions
              (filter (\<lambda>d. cy_code d \<in> set enabled_codes \<and> cy_code d \<notin> set previously) catalog))\<rparr>)"

definition provisioning_resources ::
  "catalog \<Rightarrow> ProductDeployment \<Rightarrow> ProductVersionSnapshot \<Rightarrow> ProvisioningCapabilityResources app_result" where
  "provisioning_resources catalog de version =
     (if pv_plan_status version \<noteq> PLAN_STATUS_ENABLED then Inl (Conflict msg_plan_disabled)
      else if pv_version_status version \<noteq> VERSION_PUBLISHED then Inl (Conflict msg_version_not_assignable)
      else bind_result (validate_publishable_capability_records catalog de (pv_capabilities version)) (\<lambda>_.
        Inr (resources_for_enabled_codes catalog (map pk_code (pv_capabilities version)))))"

section \<open>What the guard of a grant decides\<close>

lemma find_code_map:
  "distinct (map cy_code ds) \<Longrightarrow> (\<And>d. ec_capability_code (f d) = cy_code d) \<Longrightarrow> d \<in> set ds \<Longrightarrow>
   find (\<lambda>c. ec_capability_code c = cy_code d) (map f ds) = Some (f d)"
  by (induction ds) auto

lemma effective_code [simp]: "ec_capability_code (effective_capability catalog de t plan ovr d) = cy_code d"
  by (simp add: effective_capability_def split: prod.splits)

lemma check_guarded_iff:
  "check_guarded context ds = Inr () \<longleftrightarrow>
   (\<forall>d \<in> set ds. \<exists>c. find (\<lambda>c. ec_capability_code c = cy_code d) (px_capabilities context) = Some c \<and>
      ec_deployment_enabled c \<and> ec_entitled c)"
  by (induction ds) (auto split: option.splits)

text \<open>What a tenant is entitled to, read off its plan version and its overrides.\<close>

definition entitled_to :: "TenantProductSnapshot \<Rightarrow> string \<Rightarrow> bool" where
  "entitled_to snapshot code \<longleftrightarrow>
     ts_tenant_id snapshot = SYSTEM_TENANT_ID \<or>
     (\<exists>v \<in> set (ts_overrides snapshot). co_code v = code \<and> co_enabled v) \<or>
     (\<forall>v \<in> set (ts_overrides snapshot). co_code v \<noteq> code) \<and>
     (\<exists>c \<in> set (pv_capabilities (ts_version snapshot)). pk_code c = code)"

lemma collect_overrides_map:
  assumes "collect_overrides catalog ovs acc = Inr acc'"
  shows "map_of acc' k = (case find (\<lambda>v. co_code v = k) ovs of Some v \<Rightarrow> Some v | None \<Rightarrow> map_of acc k) \<and>
    distinct (map co_code ovs) \<and> (\<forall>v \<in> set ovs. map_of acc (co_code v) = None)"
  using assms
proof (induction catalog ovs acc rule: collect_overrides.induct)
  case (2 catalog v ovs acc)
  from 2(2) have no: "map_of acc (co_code v) = None"
    and rest: "collect_overrides catalog ovs ((co_code v, v) # acc) = Inr acc'"
    by (auto simp: bind_result_eq_Inr split: if_splits)
  obtain d where "validate_capability_snapshot catalog (co_code v) (co_variant v) (co_schema_version v) (co_config v) = Inr d"
    using 2(2) by (auto simp: bind_result_eq_Inr)
  from 2(1) [OF _ rest] no this
  have ih: "map_of acc' k = (case find (\<lambda>v. co_code v = k) ovs of Some v \<Rightarrow> Some v | None \<Rightarrow> map_of ((co_code v, v) # acc) k)"
    "distinct (map co_code ovs)" "\<forall>x \<in> set ovs. map_of ((co_code v, v) # acc) (co_code x) = None"
    by auto
  have fresh: "\<forall>x \<in> set ovs. co_code x \<noteq> co_code v \<and> map_of acc (co_code x) = None"
    using ih(3) by (auto split: if_splits)
  show ?case
  proof (cases "co_code v = k")
    case True
    then have "find (\<lambda>x. co_code x = k) ovs = None" using fresh by (auto simp: find_None_iff)
    with True show ?thesis using ih fresh no by auto
  next
    case False
    then show ?thesis using ih fresh no by (cases "find (\<lambda>v. co_code v = k) ovs") auto
  qed
qed (simp split: option.splits)

lemma validate_records_distinct:
  "validate_records catalog cs seen = Inr () \<Longrightarrow> distinct (map pk_code cs) \<and> set (map pk_code cs) \<inter> set seen = {}"
  by (induction catalog cs seen rule: validate_records.induct) (auto simp: bind_result_eq_Inr split: if_splits)

lemma entitled_iff:
  assumes "product_context_of catalog de (ts_tenant_id s) e (ts_version s) (ts_overrides s) = Inr cx"
  shows "\<exists>plan ovr. px_capabilities cx = map (effective_capability catalog de (ts_tenant_id s) plan ovr) catalog \<and>
    (\<forall>d. ec_entitled (effective_capability catalog de (ts_tenant_id s) plan ovr d) \<longleftrightarrow> entitled_to s (cy_code d))"
proof -
  define plan where "plan = map_of (rev (map (\<lambda>c. (pk_code c, c)) (pv_capabilities (ts_version s))))"
  from assms obtain acc where acc: "collect_overrides catalog (ts_overrides s) [] = Inr acc"
    and cx: "px_capabilities cx = map (effective_capability catalog de (ts_tenant_id s) plan (map_of acc)) catalog"
    by (auto simp: product_context_of_def bind_result_eq_Inr plan_def)
  note ov = collect_overrides_map [OF acc]
  have plan: "plan k \<noteq> None \<longleftrightarrow> (\<exists>c \<in> set (pv_capabilities (ts_version s)). pk_code c = k)" for k
    by (force simp: plan_def map_of_eq_None_iff)
  have "ec_entitled (effective_capability catalog de (ts_tenant_id s) plan (map_of acc) d) \<longleftrightarrow> entitled_to s (cy_code d)" for d
  proof (cases "find (\<lambda>v. co_code v = cy_code d) (ts_overrides s)")
    case None
    then have "map_of acc (cy_code d) = None" "\<forall>v \<in> set (ts_overrides s). co_code v \<noteq> cy_code d"
      using ov [of "cy_code d"] None by (simp_all add: find_None_iff)
    then show ?thesis
      using plan [of "cy_code d"] by (auto simp: effective_capability_def entitled_to_def split: option.splits)
  next
    case (Some v)
    then have v: "v \<in> set (ts_overrides s)" "co_code v = cy_code d" by (auto simp: find_Some_iff)
    have only: "w = v" if "w \<in> set (ts_overrides s)" "co_code w = cy_code d" for w
      using inj_onD [of co_code "set (ts_overrides s)" w v] ov [of "cy_code d"] that v by (simp add: distinct_map)
    have "map_of acc (cy_code d) = Some v" using ov [of "cy_code d"] Some by simp
    moreover have "(\<exists>w \<in> set (ts_overrides s). co_code w = cy_code d \<and> co_enabled w) \<longleftrightarrow> co_enabled v"
      "\<not> (\<forall>w \<in> set (ts_overrides s). co_code w \<noteq> cy_code d)"
      using only v by blast+
    ultimately show ?thesis by (simp add: effective_capability_def entitled_to_def) blast
  qed
  with cx show ?thesis by blast
qed

lemma catalog_distinct: "distinct (map cy_code CAPABILITY_CATALOG)"
  by code_simp

text \<open>
  A permission is granted to a role only with its capability. For a tenant whose product snapshot
  can be evaluated, the guard of a grant accepts a list of permission codes exactly when every
  capability of the catalogue that protects one of the codes is deployed and the tenant is entitled to
  it: as the platform's own tenant, by an override that enables it, or by its plan without an override.
\<close>

theorem grant_guard_exact:
  assumes "context_from_snapshot CAPABILITY_CATALOG de s = Inr cx"
  shows "ensure_permission_codes_enabled CAPABILITY_CATALOG de s codes = Inr () \<longleftrightarrow>
    (\<forall>d \<in> set CAPABILITY_CATALOG. guards codes d \<longrightarrow>
       deployment_enabled CAPABILITY_CATALOG de (cy_code d) \<and> entitled_to s (cy_code d))"
proof -
  have "product_context_of CAPABILITY_CATALOG de (ts_tenant_id s) (ts_runtime_epoch s) (ts_version s) (ts_overrides s) = Inr cx"
    using assms by (simp add: context_from_snapshot_def split: if_splits)
  from entitled_iff [OF this] obtain plan ovr
    where cx: "px_capabilities cx = map (effective_capability CAPABILITY_CATALOG de (ts_tenant_id s) plan ovr) CAPABILITY_CATALOG"
    and ent: "\<And>d. ec_entitled (effective_capability CAPABILITY_CATALOG de (ts_tenant_id s) plan ovr d) \<longleftrightarrow> entitled_to s (cy_code d)"
    by blast
  have dep: "ec_deployment_enabled (effective_capability CAPABILITY_CATALOG de (ts_tenant_id s) plan ovr d) \<longleftrightarrow>
      deployment_enabled CAPABILITY_CATALOG de (cy_code d)" for d
    by (simp add: effective_capability_def split: prod.splits)
  have found: "find (\<lambda>c. ec_capability_code c = cy_code d) (px_capabilities cx) =
      Some (effective_capability CAPABILITY_CATALOG de (ts_tenant_id s) plan ovr d)" if "d \<in> set CAPABILITY_CATALOG" for d
    unfolding cx using that by (intro find_code_map [OF catalog_distinct]) simp_all
  show ?thesis
    using found by (auto simp: ensure_permission_codes_enabled_def assms check_guarded_iff ent dep filter_empty_conv)
qed

text \<open>A tenant on a plan with the users, with the roles overridden away.\<close>

definition sample_snapshot :: TenantProductSnapshot where
  "sample_snapshot = \<lparr>ts_tenant_id = ''acme'', ts_authorization_epoch = 1, ts_runtime_epoch = 1,
     ts_version = \<lparr>pv_plan_key = ''basic'', pv_plan_name = ''Basic'', pv_plan_status = ''1'', pv_version_id = 1,
       pv_version = 1, pv_version_status = ''published'',
       pv_capabilities = [\<lparr>pk_code = ''system.user'', pk_variant = ''standard'', pk_schema_version = 1, pk_config = JObject []\<rparr>,
         \<lparr>pk_code = ''system.role'', pk_variant = ''standard'', pk_schema_version = 1, pk_config = JObject []\<rparr>]\<rparr>,
     ts_overrides = [\<lparr>co_code = ''system.role'', co_enabled = False, co_variant = ''standard'', co_schema_version = 1,
       co_config = JObject [], co_reason = None, co_changed_by = None\<rparr>]\<rparr>"

definition bare_deployment :: ProductDeployment where
  "bare_deployment = \<lparr>de_redis = False, de_messaging = False, de_scheduler = False\<rparr>"

lemma sample_context: "is_ok (context_from_snapshot CAPABILITY_CATALOG bare_deployment sample_snapshot)"
  by code_simp

lemma grant_guard_exact_witness:
  "ensure_permission_codes_enabled CAPABILITY_CATALOG bare_deployment sample_snapshot [''system:user:list''] = Inr () \<longleftrightarrow>
    (\<forall>d \<in> set CAPABILITY_CATALOG. guards [''system:user:list''] d \<longrightarrow>
       deployment_enabled CAPABILITY_CATALOG bare_deployment (cy_code d) \<and> entitled_to sample_snapshot (cy_code d))"
  using sample_context grant_guard_exact [of bare_deployment sample_snapshot] by (auto simp: is_ok_iff)

lemma sample_grants:
  "ensure_permission_codes_enabled CAPABILITY_CATALOG bare_deployment sample_snapshot [''system:user:list''] = Inr ()"
  "\<not> is_ok (ensure_permission_codes_enabled CAPABILITY_CATALOG bare_deployment sample_snapshot [''system:role:list''])"
  by code_simp+

end
