(* ===== verification/Roles.thy ===== *)
theory Roles
  imports Capabilities Tenant_Mutations Principals
begin

text \<open>
  The role service (\<open>ryframe-application/src/system/role.rs\<close>) with its port
  (\<open>ryframe-db/src/application_ports/system/role_write.rs\<close>) and repository (\<open>role_repo.rs\<close>,
  \<open>role_repo/catalog.rs\<close>): creating, changing and deleting roles, granting permissions and replacing
  data scopes, each in one transaction that is completed like every change of a tenant.
\<close>

section \<open>Queries\<close>

definition role_live :: "string \<Rightarrow> role \<Rightarrow> bool" where
  "role_live tenant_id r \<longleftrightarrow> ro_tenant_id r = tenant_id \<and> ro_del_flag r = ro_DEL_FLAG_NORMAL"

definition available_super :: "string \<Rightarrow> role \<Rightarrow> bool" where
  "available_super tenant_id r \<longleftrightarrow> role_live tenant_id r \<and> ro_is_super r = 1 \<and> ro_status r = ro_STATUS_NORMAL"

definition role_find_by_id_for_update :: "string \<Rightarrow> int \<Rightarrow> role list \<Rightarrow> role option" where
  "role_find_by_id_for_update tenant_id i rs =
     (case row_get ro_id i rs of
        Some r \<Rightarrow> if role_live tenant_id r then Some r else None
      | None \<Rightarrow> None)"

definition find_by_code_for_update :: "string \<Rightarrow> string \<Rightarrow> role list \<Rightarrow> role option" where
  "find_by_code_for_update tenant_id code rs = find (\<lambda>r. role_live tenant_id r \<and> ro_code r = code) rs"

definition count_available_super_roles :: "string \<Rightarrow> role list \<Rightarrow> nat" where
  "count_available_super_roles tenant_id rs = length (filter (available_super tenant_id) rs)"

text \<open>\<open>u64::try_from(limit).unwrap_or_default()\<close>; a limit of zero does not restrict.\<close>

definition quota_limit :: "int \<Rightarrow> nat" where
  "quota_limit limit = (if limit < 0 then 0 else nat limit)"

definition ensure_role_quota_in_txn :: "string \<Rightarrow> org_db \<Rightarrow> unit app_result" where
  "ensure_role_quota_in_txn tenant_id db =
     bind_result (lock_tenant_in_txn tenant_id db) (\<lambda>tenant.
       let limit = quota_limit (tn_max_roles tenant)
       in if 0 < limit \<and> limit \<le> length (filter (role_live tenant_id) (org_roles db))
          then Inl (Validation msg_role_quota) else Inr ())"

definition find_permissions_for_update :: "string \<Rightarrow> int list \<Rightarrow> permission list \<Rightarrow> permission list" where
  "find_permissions_for_update tenant_id ids ps =
     sort_key pm_id (filter (\<lambda>p. pm_tenant_id p = tenant_id \<and> pm_id p \<in> set ids) ps)"

definition find_departments_for_update :: "string \<Rightarrow> int list \<Rightarrow> dept list \<Rightarrow> int list" where
  "find_departments_for_update tenant_id ids ds =
     map dp_id (sort_key dp_id (filter (\<lambda>d. dp_tenant_id d = tenant_id \<and> dp_del_flag d = dp_DEL_FLAG_NORMAL \<and>
       dp_id d \<in> set ids) ds))"

section \<open>Statements\<close>

text \<open>The table has the unique keys of the identifier and of tenant and code, deleted rows included.\<close>

definition duplicate_entry :: app_error where
  "duplicate_entry = Database ''Duplicate entry''"

definition role_insert :: "string \<Rightarrow> role \<Rightarrow> role list \<Rightarrow> (role \<times> role list) app_result" where
  "role_insert tenant_id r rs =
     (let r' = r\<lparr>ro_tenant_id := tenant_id, ro_del_flag := ro_DEL_FLAG_NORMAL\<rparr>
      in if ro_id r' \<in> ro_id ` set rs \<or> (\<exists>x \<in> set rs. ro_tenant_id x = tenant_id \<and> ro_code x = ro_code r')
         then Inl duplicate_entry else Inr (r', r' # rs))"

definition role_update_row :: "string \<Rightarrow> role \<Rightarrow> role list \<Rightarrow> role \<times> role list" where
  "role_update_row tenant_id r rs =
     (let r' = r\<lparr>ro_tenant_id := tenant_id, ro_del_flag := ro_DEL_FLAG_NORMAL\<rparr> in (r', row_put ro_id r' rs))"

definition role_delete_rows :: "string \<Rightarrow> timestamp \<Rightarrow> int list \<Rightarrow> role list \<Rightarrow> nat \<times> role list" where
  "role_delete_rows tenant_id clock ids rs =
     (if ids = [] then (0, rs)
      else let P = (\<lambda>r. ro_id r \<in> set ids \<and> role_live tenant_id r)
           in (rows_matched P rs,
               update_where P (\<lambda>r. r\<lparr>ro_del_flag := ro_DEL_FLAG_DELETED, ro_updated_at := clock\<rparr>) rs))"

definition assign_perms :: "string \<Rightarrow> int \<Rightarrow> int list \<Rightarrow> role_permission list \<Rightarrow> role_permission list" where
  "assign_perms tenant_id role_id perm_ids rps =
     map (\<lambda>p. \<lparr>rp_tenant_id = tenant_id, rp_role_id = role_id, rp_perm_id = p\<rparr>) perm_ids @
     filter (\<lambda>x. \<not> (rp_role_id x = role_id \<and> rp_tenant_id x = tenant_id)) rps"

definition replace_data_scope_rows ::
  "string \<Rightarrow> timestamp \<Rightarrow> int \<Rightarrow> string \<Rightarrow> int list \<Rightarrow> org_db \<Rightarrow> org_db app_result" where
  "replace_data_scope_rows tenant_id clock role_id data_scope dept_ids db =
     (let P = (\<lambda>r. ro_id r = role_id \<and> role_live tenant_id r)
      in if rows_matched P (org_roles db) \<noteq> 1 then Inl (NotFound msg_role_missing)
         else Inr (db\<lparr>
           org_roles := update_where P (\<lambda>r. r\<lparr>ro_data_scope := data_scope, ro_updated_at := clock\<rparr>) (org_roles db),
           org_role_depts :=
             map (\<lambda>d. \<lparr>rd_tenant_id = tenant_id, rd_role_id = role_id, rd_dept_id = d\<rparr>) dept_ids @
             filter (\<lambda>x. \<not> (rd_role_id x = role_id \<and> rd_tenant_id x = tenant_id)) (org_role_depts db)\<rparr>))"

section \<open>Commands\<close>

definition validate_data_scope :: "string \<Rightarrow> unit app_result" where
  "validate_data_scope s =
     (if s \<in> {''1'', ''2'', ''3'', ''4'', ''5''} then Inr () else Inl (Validation msg_role_scope))"

definition validate_role_status :: "string \<Rightarrow> unit app_result" where
  "validate_role_status s = (if s \<in> {''1'', ''0''} then Inr () else Inl (Validation msg_role_status))"

definition ensure_super_role_remains :: "nat \<Rightarrow> nat \<Rightarrow> unit app_result" where
  "ensure_super_role_remains available becoming_unavailable =
     (if 0 < becoming_unavailable \<and> available \<le> becoming_unavailable
      then Inl (Conflict msg_role_super_remains) else Inr ())"

definition first_missing_id :: "int list \<Rightarrow> int list \<Rightarrow> int option" where
  "first_missing_id requested existing = find (\<lambda>i. i \<notin> set existing) requested"

text \<open>A command of the service is the operation of its transaction, completed; checks come first.\<close>

definition role_command ::
  "mutation_env \<Rightarrow> string \<Rightarrow> (org_db \<Rightarrow> ('a \<times> org_db) app_result) \<Rightarrow> org_db \<Rightarrow> 'a app_result \<times> org_db" where
  "role_command env tenant_id operation db =
     complete_mutation env tenant_id
       (bind_result (lock_tenant_and_validate_in_txn tenant_id None (me_now env) db) (\<lambda>(_, db1). operation db1)) db"

definition role_create_operation :: "string \<Rightarrow> role \<Rightarrow> org_db \<Rightarrow> (role \<times> org_db) app_result" where
  "role_create_operation tenant_id r db =
     (if find_by_code_for_update tenant_id (ro_code r) (org_roles db) \<noteq> None then Inl (Conflict msg_role_code)
      else bind_result (ensure_role_quota_in_txn tenant_id db) (\<lambda>_.
        bind_result (role_insert tenant_id r (org_roles db)) (\<lambda>(saved, rs). Inr (saved, db\<lparr>org_roles := rs\<rparr>))))"

definition role_create ::
  "mutation_env \<Rightarrow> string option \<Rightarrow> string \<Rightarrow> int app_result \<Rightarrow> string \<Rightarrow> string \<Rightarrow> int \<Rightarrow> string option \<Rightarrow>
   org_db \<Rightarrow> role app_result \<times> org_db" where
  "role_create env ctx actor_tenant next_id nm code sort_no data_scope db =
     (case bind_result (validated_tenant_id ctx actor_tenant) (\<lambda>t.
             let scope = (case data_scope of Some s \<Rightarrow> s | None \<Rightarrow> ''1'')
             in bind_result (validate_data_scope scope) (\<lambda>_. bind_result next_id (\<lambda>i. Inr (t, scope, i)))) of
        Inl e \<Rightarrow> (Inl e, db)
      | Inr (t, scope, i) \<Rightarrow>
          role_command env t (role_create_operation t
            \<lparr>ro_id = i, ro_tenant_id = t, ro_name = nm, ro_code = code, ro_is_super = 0, ro_data_scope = scope,
             ro_status = ''1'', ro_sort = sort_no, ro_remark = None, ro_del_flag = ro_DEL_FLAG_NORMAL,
             ro_created_at = me_clock env, ro_updated_at = me_clock env\<rparr>) db)"

definition role_update_operation ::
  "string \<Rightarrow> timestamp \<Rightarrow> int \<Rightarrow> string \<Rightarrow> int \<Rightarrow> string \<Rightarrow> string option \<Rightarrow> org_db \<Rightarrow> (role \<times> org_db) app_result" where
  "role_update_operation tenant_id clock i nm sort_no status data_scope db =
     (case role_find_by_id_for_update tenant_id i (org_roles db) of
        None \<Rightarrow> Inl (NotFound msg_role_missing)
      | Some r \<Rightarrow>
          bind_result
            (if ro_is_super r = 1 \<and> ro_status r = ''1'' \<and> status \<noteq> ''1''
             then ensure_super_role_remains (count_available_super_roles tenant_id (org_roles db)) 1 else Inr ())
            (\<lambda>_. case role_update_row tenant_id
                   (r\<lparr>ro_name := nm, ro_sort := sort_no, ro_status := status,
                      ro_data_scope := (case data_scope of Some s \<Rightarrow> s | None \<Rightarrow> ro_data_scope r),
                      ro_updated_at := clock\<rparr>) (org_roles db) of
                 (saved, rs) \<Rightarrow> Inr (saved, db\<lparr>org_roles := rs\<rparr>)))"

definition role_update ::
  "mutation_env \<Rightarrow> string option \<Rightarrow> string \<Rightarrow> int \<Rightarrow> string \<Rightarrow> int \<Rightarrow> string \<Rightarrow> string option \<Rightarrow>
   org_db \<Rightarrow> role app_result \<times> org_db" where
  "role_update env ctx actor_tenant i nm sort_no status data_scope db =
     (case bind_result (validated_tenant_id ctx actor_tenant) (\<lambda>t.
             bind_result (validate_role_status status) (\<lambda>_.
             bind_result (case data_scope of Some s \<Rightarrow> validate_data_scope s | None \<Rightarrow> Inr ()) (\<lambda>_. Inr t))) of
        Inl e \<Rightarrow> (Inl e, db)
      | Inr t \<Rightarrow> role_command env t (role_update_operation t (me_clock env) i nm sort_no status data_scope) db)"

fun collect_roles :: "string \<Rightarrow> role list \<Rightarrow> int list \<Rightarrow> role list app_result" where
  "collect_roles tenant_id rs [] = Inr []"
| "collect_roles tenant_id rs (i # is) =
     (case role_find_by_id_for_update tenant_id i rs of
        None \<Rightarrow> Inl (NotFound msg_role_missing)
      | Some r \<Rightarrow> bind_result (collect_roles tenant_id rs is) (\<lambda>xs. Inr (r # xs)))"

definition role_delete_operation :: "string \<Rightarrow> timestamp \<Rightarrow> int list \<Rightarrow> org_db \<Rightarrow> (nat \<times> org_db) app_result" where
  "role_delete_operation tenant_id clock ids db =
     bind_result (collect_roles tenant_id (org_roles db) ids) (\<lambda>roles.
       let active = length (filter (\<lambda>r. ro_is_super r = 1 \<and> ro_status r = ''1'') roles)
       in bind_result
            (if 0 < active
             then ensure_super_role_remains (count_available_super_roles tenant_id (org_roles db)) active else Inr ())
            (\<lambda>_. case role_delete_rows tenant_id clock ids (org_roles db) of
               (affected, rs) \<Rightarrow>
                 if affected \<noteq> length ids then Inl (NotFound msg_role_missing)
                 else Inr (affected, db\<lparr>org_roles := rs\<rparr>)))"

definition role_delete_many ::
  "mutation_env \<Rightarrow> string option \<Rightarrow> string \<Rightarrow> int list \<Rightarrow> org_db \<Rightarrow> nat app_result \<times> org_db" where
  "role_delete_many env ctx actor_tenant ids db =
     (case bind_result (validated_tenant_id ctx actor_tenant) (\<lambda>t.
             if ids = [] then Inl (Validation msg_role_select) else Inr t) of
        Inl e \<Rightarrow> (Inl e, db)
      | Inr t \<Rightarrow> role_command env t (role_delete_operation t (me_clock env) (sort_dedup ids)) db)"

text \<open>
  The product of the tenant is read in the transaction: \<open>None\<close> when the tenant is missing. The
  deployment belongs to the product service.
\<close>

definition assign_permissions_operation ::
  "ProductDeployment \<Rightarrow> TenantProductSnapshot option app_result \<Rightarrow> string \<Rightarrow> int \<Rightarrow> int list \<Rightarrow> org_db \<Rightarrow>
   (unit \<times> org_db) app_result" where
  "assign_permissions_operation de product tenant_id role_id perm_ids db =
     (if role_find_by_id_for_update tenant_id role_id (org_roles db) = None then Inl (NotFound msg_role_missing)
      else let ps = find_permissions_for_update tenant_id perm_ids (org_permissions db)
           in (case first_missing_id perm_ids (map pm_id ps) of
                 Some p \<Rightarrow> Inl (NotFound (msg_perm_missing @ show_int p))
               | None \<Rightarrow>
                   bind_result product (\<lambda>s.
                   bind_result (case s of None \<Rightarrow> Inl (NotFound msg_tenant_missing) | Some x \<Rightarrow> Inr x) (\<lambda>snapshot.
                   bind_result (ensure_permission_codes_enabled CAPABILITY_CATALOG de snapshot (map pm_code ps)) (\<lambda>_.
                     Inr ((), db\<lparr>org_role_permissions :=
                       assign_perms tenant_id role_id perm_ids (org_role_permissions db)\<rparr>))))))"

definition assign_permissions ::
  "mutation_env \<Rightarrow> ProductDeployment \<Rightarrow> TenantProductSnapshot option app_result \<Rightarrow> string option \<Rightarrow> string \<Rightarrow>
   int \<Rightarrow> int list \<Rightarrow> org_db \<Rightarrow> unit app_result \<times> org_db" where
  "assign_permissions env de product ctx actor_tenant role_id perm_ids db =
     (case validated_tenant_id ctx actor_tenant of
        Inl e \<Rightarrow> (Inl e, db)
      | Inr t \<Rightarrow> role_command env t (assign_permissions_operation de product t role_id (sort_dedup perm_ids)) db)"

definition replace_data_scope_operation ::
  "string \<Rightarrow> timestamp \<Rightarrow> int \<Rightarrow> string \<Rightarrow> int list \<Rightarrow> org_db \<Rightarrow> (unit \<times> org_db) app_result" where
  "replace_data_scope_operation tenant_id clock role_id data_scope dept_ids db =
     (if role_find_by_id_for_update tenant_id role_id (org_roles db) = None then Inl (NotFound msg_role_missing)
      else case (if data_scope = ''2''
                 then first_missing_id dept_ids (find_departments_for_update tenant_id dept_ids (org_depts db))
                 else None) of
             Some d \<Rightarrow> Inl (Validation (msg_scope_dept_missing @ show_int d))
           | None \<Rightarrow>
               bind_result (replace_data_scope_rows tenant_id clock role_id data_scope dept_ids db) (\<lambda>db'. Inr ((), db')))"

definition scope_departments :: "string \<Rightarrow> int list \<Rightarrow> int list app_result" where
  "scope_departments data_scope dept_ids =
     (if data_scope = ''2''
      then (if sort_dedup dept_ids = [] then Inl (Validation msg_scope_needs_dept) else Inr (sort_dedup dept_ids))
      else if dept_ids \<noteq> [] then Inl (Validation msg_scope_no_dept) else Inr [])"

definition replace_data_scope ::
  "mutation_env \<Rightarrow> string option \<Rightarrow> string \<Rightarrow> int \<Rightarrow> string \<Rightarrow> int list \<Rightarrow> org_db \<Rightarrow> unit app_result \<times> org_db" where
  "replace_data_scope env ctx actor_tenant role_id data_scope dept_ids db =
     (case bind_result (validated_tenant_id ctx actor_tenant) (\<lambda>t.
             bind_result (validate_data_scope data_scope) (\<lambda>_.
             bind_result (scope_departments data_scope dept_ids) (\<lambda>ds. Inr (t, ds)))) of
        Inl e \<Rightarrow> (Inl e, db)
      | Inr (t, ds) \<Rightarrow> role_command env t (replace_data_scope_operation t (me_clock env) role_id data_scope ds) db)"

end
