(* ===== verification/Users.thy ===== *)
theory Users
  imports Roles
begin

text \<open>
  The user service (\<open>ryframe-application/src/system/user/commands.rs\<close>, \<open>roles.rs\<close>) with its port
  (\<open>ryframe-db/src/application_ports/users/write.rs\<close>) and repository (\<open>user_repo/mutations.rs\<close>,
  \<open>role_repo.rs\<close>): creating, changing, disabling and deleting users and replacing their roles. The
  reads before a transaction may see an earlier state of the database, which is an argument.
\<close>

definition data_scope_context :: "ActorContext \<Rightarrow> DataScopeContext" where
  "data_scope_context a =
     \<lparr>sc_scope = ax_data_scope a, sc_user_id = ax_user_id a, sc_dept_id = ax_dept_id a,
      sc_ancestors = ax_dept_path a, sc_custom_dept_ids = ax_custom_dept_ids a,
      sc_include_self = ax_include_self a\<rparr>"

section \<open>Assignments\<close>

record UserAssignmentRole =
  ar_status_normal :: bool
  ar_is_super :: bool

record UserAssignmentState =
  as_department_exists :: bool
  as_roles :: "UserAssignmentRole list"

definition assignment_state :: "string \<Rightarrow> int option \<Rightarrow> int list \<Rightarrow> org_db \<Rightarrow> UserAssignmentState" where
  "assignment_state tenant_id dept_id role_ids db =
     \<lparr>as_department_exists =
        (case dept_id of Some d \<Rightarrow> dept_find_by_id tenant_id d (org_depts db) \<noteq> None | None \<Rightarrow> True),
      as_roles = map (\<lambda>r. \<lparr>ar_status_normal = (ro_status r = ro_STATUS_NORMAL), ar_is_super = (ro_is_super r = 1)\<rparr>)
        (filter (\<lambda>r. role_live tenant_id r \<and> ro_id r \<in> set role_ids) (org_roles db))\<rparr>"

definition validate_assignment_state ::
  "UserAssignmentState \<Rightarrow> int option \<Rightarrow> int list option \<Rightarrow> bool \<Rightarrow> unit app_result" where
  "validate_assignment_state state dept_id role_ids actor_is_super =
     (if dept_id \<noteq> None \<and> \<not> as_department_exists state then Inl (Validation msg_assign_dept)
      else case role_ids of
        None \<Rightarrow> Inr ()
      | Some ids \<Rightarrow>
          if length (as_roles state) \<noteq> length ids then Inl (Validation msg_assign_role)
          else if list_ex (\<lambda>r. \<not> ar_status_normal r) (as_roles state) then Inl (Validation msg_assign_disabled)
          else if \<not> actor_is_super \<and> list_ex ar_is_super (as_roles state) then Inl (Authorization msg_assign_super)
          else Inr ())"

definition validate_assignments ::
  "ActorContext \<Rightarrow> string \<Rightarrow> int option \<Rightarrow> int list option \<Rightarrow> org_db \<Rightarrow> unit app_result" where
  "validate_assignments a tenant_id dept_id role_ids db =
     validate_assignment_state
       (assignment_state tenant_id dept_id (case role_ids of Some ids \<Rightarrow> ids | None \<Rightarrow> []) db)
       dept_id role_ids (ax_is_super_admin a)"

section \<open>Statements\<close>

definition user_has_super_role_in_txn :: "string \<Rightarrow> int \<Rightarrow> org_db \<Rightarrow> bool" where
  "user_has_super_role_in_txn tenant_id user_id db \<longleftrightarrow>
     list_ex (\<lambda>x. ur_tenant_id x = tenant_id \<and> ur_user_id x = user_id \<and>
        list_ex (\<lambda>r. role_live tenant_id r \<and> ro_is_super r = 1 \<and> ro_id r = ur_role_id x) (org_roles db))
       (org_user_roles db)"

definition find_by_id_with_data_scope_for_update ::
  "string \<Rightarrow> int \<Rightarrow> DataScopeContext \<Rightarrow> org_db \<Rightarrow> user option" where
  "find_by_id_with_data_scope_for_update tenant_id i scope db =
     (case apply_data_scope tenant_id scope db of
        None \<Rightarrow> None
      | Some P \<Rightarrow> find (\<lambda>u. base_select tenant_id u \<and> us_id u = i \<and> P u) (org_users db))"

definition user_find_by_id_for_update :: "string \<Rightarrow> int \<Rightarrow> org_db \<Rightarrow> user option" where
  "user_find_by_id_for_update tenant_id i db = find (\<lambda>u. base_select tenant_id u \<and> us_id u = i) (org_users db)"

definition find_by_username :: "string \<Rightarrow> string \<Rightarrow> org_db \<Rightarrow> user option" where
  "find_by_username tenant_id username db =
     find (\<lambda>u. base_select tenant_id u \<and> us_username u = username) (org_users db)"

definition ensure_user_quota_in_txn :: "string \<Rightarrow> org_db \<Rightarrow> unit app_result" where
  "ensure_user_quota_in_txn tenant_id db =
     bind_result (lock_tenant_in_txn tenant_id db) (\<lambda>tenant.
       let limit = quota_limit (tn_max_users tenant)
       in if 0 < limit \<and> limit \<le> length (filter (base_select tenant_id) (org_users db))
          then Inl (Validation msg_user_quota) else Inr ())"

definition user_insert :: "user \<Rightarrow> user list \<Rightarrow> user list app_result" where
  "user_insert u us =
     (if us_id u \<in> us_id ` set us \<or> (\<exists>x \<in> set us. us_tenant_id x = us_tenant_id u \<and> us_username x = us_username u)
      then Inl duplicate_entry else Inr (u # us))"

definition replace_roles_in_txn :: "string \<Rightarrow> int \<Rightarrow> int list \<Rightarrow> org_db \<Rightarrow> org_db app_result" where
  "replace_roles_in_txn tenant_id user_id role_ids db =
     (if user_find_by_id_for_update tenant_id user_id db = None then Inl (NotFound msg_user_missing)
      else Inr (db\<lparr>org_user_roles :=
             map (\<lambda>r. \<lparr>ur_tenant_id = tenant_id, ur_user_id = user_id, ur_role_id = r\<rparr>) role_ids @
             filter (\<lambda>x. \<not> (ur_user_id x = user_id \<and> ur_tenant_id x = tenant_id)) (org_user_roles db)\<rparr>))"

definition user_update_status :: "string \<Rightarrow> timestamp \<Rightarrow> int \<Rightarrow> string \<Rightarrow> org_db \<Rightarrow> org_db app_result" where
  "user_update_status tenant_id clock i status db =
     (let P = (\<lambda>u. us_id u = i \<and> us_tenant_id u = tenant_id)
      in if rows_matched P (org_users db) = 0 then Inl (NotFound msg_user_missing)
         else Inr (db\<lparr>org_users := update_where P (\<lambda>u. u\<lparr>us_status := status, us_updated_at := clock\<rparr>) (org_users db)\<rparr>))"

definition user_delete_rows :: "string \<Rightarrow> timestamp \<Rightarrow> int list \<Rightarrow> org_db \<Rightarrow> nat \<times> org_db" where
  "user_delete_rows tenant_id clock ids db =
     (if ids = [] then (0, db)
      else let P = (\<lambda>u. us_id u \<in> set ids \<and> us_tenant_id u = tenant_id)
           in (rows_matched P (org_users db),
               db\<lparr>org_users := update_where P (\<lambda>u. u\<lparr>us_del_flag := us_DEL_FLAG_DELETED, us_updated_at := clock\<rparr>)
                    (org_users db)\<rparr>))"

section \<open>Authorisation versions\<close>

definition increment_authorization_versions :: "string \<Rightarrow> int list \<Rightarrow> org_db \<Rightarrow> (nat \<times> org_db) app_result" where
  "increment_authorization_versions tenant_id ids db =
     (let P = (\<lambda>u. us_id u \<in> set ids \<and> us_tenant_id u = tenant_id)
      in if ids = [] then Inr (0, db)
         else if list_ex (\<lambda>u. P u \<and> checked_add_i32 (us_authorization_version u) 1 = None) (org_users db)
         then Inl out_of_range
         else Inr (rows_matched P (org_users db),
                db\<lparr>org_users := update_where P (\<lambda>u. u\<lparr>us_authorization_version := us_authorization_version u + 1\<rparr>)
                     (org_users db)\<rparr>))"

definition find_authorization_versions :: "string \<Rightarrow> int list \<Rightarrow> org_db \<Rightarrow> (int \<times> int) list" where
  "find_authorization_versions tenant_id ids db =
     (if ids = [] then []
      else sort_key fst (map (\<lambda>u. (us_id u, us_authorization_version u))
             (filter (\<lambda>u. us_tenant_id u = tenant_id \<and> us_id u \<in> set ids) (org_users db))))"

text \<open>Each event takes the next of the identifiers it is handed.\<close>

fun record_user_events :: "mutation_env \<Rightarrow> (nat \<Rightarrow> int app_result) \<Rightarrow> nat \<Rightarrow> string \<Rightarrow> (int \<times> int) list \<Rightarrow>
    org_db \<Rightarrow> org_db app_result" where
  "record_user_events env ids k tenant_id [] db = Inr db"
| "record_user_events env ids k tenant_id ((user_id, version) # vs) db =
     bind_result
       (record_mirror_event (env\<lparr>me_event_id := ids k\<rparr>)
          (mirror_event env tenant_id ''user'' (show_int user_id) version (UserUpdate tenant_id user_id version)) db)
       (record_user_events env ids (Suc k) tenant_id vs)"

definition increment_user_versions_in_transaction ::
  "mutation_env \<Rightarrow> (nat \<Rightarrow> int app_result) \<Rightarrow> string \<Rightarrow> int list \<Rightarrow> org_db \<Rightarrow> org_db app_result" where
  "increment_user_versions_in_transaction env event_ids tenant_id user_ids db =
     (let ids = sort_dedup user_ids
      in if ids = [] then Inr db
         else bind_result (increment_authorization_versions tenant_id ids db) (\<lambda>(affected, db1).
           if affected \<noteq> length ids then Inl (NotFound msg_user_missing)
           else let versions = find_authorization_versions tenant_id ids db1
                in if length versions \<noteq> length ids then Inl (NotFound msg_user_missing)
                   else if \<not> me_cache_enabled env then Inr db1
                   else record_user_events env event_ids 0 tenant_id versions db1))"

section \<open>Commands\<close>

definition lock_manageable_user_in_txn :: "ActorContext \<Rightarrow> string \<Rightarrow> int \<Rightarrow> org_db \<Rightarrow> user app_result" where
  "lock_manageable_user_in_txn a tenant_id i db =
     (case find_by_id_with_data_scope_for_update tenant_id i (data_scope_context a) db of
        None \<Rightarrow> Inl (Authorization msg_user_invisible)
      | Some u \<Rightarrow>
          if user_has_super_role_in_txn tenant_id i db then Inl (Authorization msg_super_untouchable) else Inr u)"

text \<open>Committing, and updating the mirror where the command does.\<close>

definition commit_user_change ::
  "mutation_env \<Rightarrow> bool \<Rightarrow> ('a \<times> org_db) app_result \<Rightarrow> org_db \<Rightarrow> 'a app_result \<times> org_db" where
  "commit_user_change env sync operation db =
     (case bind_result operation (\<lambda>(v, db1). bind_result (commit_audited env db1) (\<lambda>db2. Inr (v, db2))) of
        Inl e \<Rightarrow> (Inl e, db)
      | Inr (v, db2) \<Rightarrow>
          if sync then (case me_sync env of Inl e \<Rightarrow> (Inl e, db2) | Inr _ \<Rightarrow> (Inr v, db2)) else (Inr v, db2))"

record CreateUserParams =
  cu_username :: string
  cu_nickname :: string
  cu_email :: string
  cu_phone :: string
  cu_dept_id :: "int option"
  cu_role_ids :: "int list"

definition new_user :: "timestamp \<Rightarrow> string \<Rightarrow> int \<Rightarrow> string \<Rightarrow> CreateUserParams \<Rightarrow> user" where
  "new_user clock tenant_id i password_hash p =
     \<lparr>us_id = i, us_tenant_id = tenant_id, us_username = cu_username p, us_password_hash = password_hash,
      us_nickname = cu_nickname p, us_email = cu_email p, us_phone = cu_phone p, us_avatar = None,
      us_avatar_file_id = None, us_preferred_locale = None, us_status = us_STATUS_PENDING_ACTIVATION,
      us_authorization_version = 1, us_dept_id = cu_dept_id p, us_remark = None, us_login_ip = None,
      us_login_date = None, us_del_flag = us_DEL_FLAG_NORMAL, us_created_at = clock, us_updated_at = clock\<rparr>"

definition user_create_operation ::
  "mutation_env \<Rightarrow> ActorContext \<Rightarrow> string \<Rightarrow> int app_result \<Rightarrow> string app_result \<Rightarrow> int app_result \<Rightarrow>
   CreateUserParams \<Rightarrow> int list \<Rightarrow> org_db \<Rightarrow> (user \<times> org_db) app_result" where
  "user_create_operation env a tenant_id next_id password_hash fill_id p role_ids db0 =
     bind_result (lock_tenant_and_validate_in_txn tenant_id None (me_now env) db0) (\<lambda>(_, db).
     bind_result (validate_assignments a tenant_id (cu_dept_id p) (Some role_ids) db) (\<lambda>_.
     bind_result (ensure_user_quota_in_txn tenant_id db) (\<lambda>_.
     bind_result next_id (\<lambda>_.
     bind_result password_hash (\<lambda>h.
     bind_result fill_id (\<lambda>i.
     bind_result (user_insert (new_user (me_clock env) tenant_id i h p) (org_users db)) (\<lambda>us.
     let db1 = db\<lparr>org_users := us\<rparr>; saved = new_user (me_clock env) tenant_id i h p
     in if role_ids = [] then Inr (saved, db1)
        else bind_result (replace_roles_in_txn tenant_id i role_ids db1) (\<lambda>db2. Inr (saved, db2)))))))))"

definition user_create ::
  "mutation_env \<Rightarrow> string option \<Rightarrow> ActorContext \<Rightarrow> int app_result \<Rightarrow> string app_result \<Rightarrow> int app_result \<Rightarrow>
   CreateUserParams \<Rightarrow> org_db \<Rightarrow> org_db \<Rightarrow> user app_result \<times> org_db" where
  "user_create env ctx a next_id password_hash fill_id p earlier db =
     (let role_ids = sort_dedup (cu_role_ids p)
      in case bind_result (validated_tenant_id ctx (ax_tenant_id a)) (\<lambda>t.
             bind_result (validate_assignments a t (cu_dept_id p) (Some role_ids) earlier) (\<lambda>_.
             if find_by_username t (cu_username p) earlier \<noteq> None then Inl (Conflict msg_username_taken) else Inr t)) of
        Inl e \<Rightarrow> (Inl e, db)
      | Inr t \<Rightarrow>
          commit_user_change env False
            (user_create_operation env a t next_id password_hash fill_id p role_ids db) db)"

record UpdateUserParams =
  uu_id :: int
  uu_nickname :: string
  uu_email :: string
  uu_phone :: string
  uu_dept_id :: "int option"

definition update_user_row :: "timestamp \<Rightarrow> string \<Rightarrow> UpdateUserParams \<Rightarrow> org_db \<Rightarrow> (user \<times> org_db) app_result" where
  "update_user_row clock tenant_id p db =
     (case user_find_by_id_for_update tenant_id (uu_id p) db of
        None \<Rightarrow> Inl (NotFound msg_user_missing)
      | Some u \<Rightarrow>
          let u' = u\<lparr>us_nickname := uu_nickname p, us_email := uu_email p, us_phone := uu_phone p,
                     us_dept_id := uu_dept_id p, us_updated_at := clock\<rparr>
          in Inr (u', db\<lparr>org_users := row_put us_id u' (org_users db)\<rparr>))"

definition user_update_operation ::
  "mutation_env \<Rightarrow> (nat \<Rightarrow> int app_result) \<Rightarrow> ActorContext \<Rightarrow> string \<Rightarrow> UpdateUserParams \<Rightarrow> org_db \<Rightarrow>
   (user \<times> org_db) app_result" where
  "user_update_operation env event_ids a tenant_id p db0 =
     bind_result (lock_tenant_and_validate_in_txn tenant_id None (me_now env) db0) (\<lambda>(_, db).
     bind_result (validate_assignments a tenant_id (uu_dept_id p) None db) (\<lambda>_.
     bind_result (lock_manageable_user_in_txn a tenant_id (uu_id p) db) (\<lambda>_.
     bind_result (update_user_row (me_clock env) tenant_id p db) (\<lambda>(saved, db1).
     bind_result (increment_user_versions_in_transaction env event_ids tenant_id [us_id saved] db1) (\<lambda>db2.
       Inr (saved, db2))))))"

definition user_update ::
  "mutation_env \<Rightarrow> (nat \<Rightarrow> int app_result) \<Rightarrow> string option \<Rightarrow> ActorContext \<Rightarrow> UpdateUserParams \<Rightarrow> org_db \<Rightarrow>
   org_db \<Rightarrow> user app_result \<times> org_db" where
  "user_update env event_ids ctx a p earlier db =
     (case bind_result (validated_tenant_id ctx (ax_tenant_id a)) (\<lambda>t.
             bind_result (validate_assignments a t (uu_dept_id p) None earlier) (\<lambda>_. Inr t)) of
        Inl e \<Rightarrow> (Inl e, db)
      | Inr t \<Rightarrow> commit_user_change env True (user_update_operation env event_ids a t p db) db)"

definition validate_manageable_status :: "string \<Rightarrow> unit app_result" where
  "validate_manageable_status s =
     (if s \<in> {us_STATUS_NORMAL, us_STATUS_DISABLED} then Inr () else Inl (Validation msg_user_status))"

definition user_status_operation ::
  "mutation_env \<Rightarrow> (nat \<Rightarrow> int app_result) \<Rightarrow> ActorContext \<Rightarrow> string \<Rightarrow> int \<Rightarrow> string \<Rightarrow> org_db \<Rightarrow>
   (unit \<times> org_db) app_result" where
  "user_status_operation env event_ids a tenant_id i status db =
     bind_result (lock_tenant_in_txn tenant_id db) (\<lambda>_.
     bind_result (lock_manageable_user_in_txn a tenant_id i db) (\<lambda>_.
     bind_result (user_update_status tenant_id (me_clock env) i status db) (\<lambda>db1.
     bind_result (increment_user_versions_in_transaction env event_ids tenant_id [i] db1) (\<lambda>db2. Inr ((), db2)))))"

definition user_update_status_command ::
  "mutation_env \<Rightarrow> (nat \<Rightarrow> int app_result) \<Rightarrow> string option \<Rightarrow> ActorContext \<Rightarrow> int \<Rightarrow> string \<Rightarrow> org_db \<Rightarrow>
   unit app_result \<times> org_db" where
  "user_update_status_command env event_ids ctx a i status db =
     (case bind_result (validated_tenant_id ctx (ax_tenant_id a)) (\<lambda>t.
             bind_result (validate_manageable_status status) (\<lambda>_.
             if i = ax_user_id a \<and> status \<noteq> us_STATUS_NORMAL then Inl (Authorization msg_disable_self) else Inr t)) of
        Inl e \<Rightarrow> (Inl e, db)
      | Inr t \<Rightarrow> commit_user_change env True (user_status_operation env event_ids a t i status db) db)"

fun lock_all :: "ActorContext \<Rightarrow> string \<Rightarrow> int list \<Rightarrow> org_db \<Rightarrow> unit app_result" where
  "lock_all a tenant_id [] db = Inr ()"
| "lock_all a tenant_id (i # is) db =
     bind_result (lock_manageable_user_in_txn a tenant_id i db) (\<lambda>_. lock_all a tenant_id is db)"

definition user_delete_operation ::
  "mutation_env \<Rightarrow> (nat \<Rightarrow> int app_result) \<Rightarrow> ActorContext \<Rightarrow> string \<Rightarrow> int list \<Rightarrow> org_db \<Rightarrow> (nat \<times> org_db) app_result" where
  "user_delete_operation env event_ids a tenant_id ids db =
     bind_result (lock_tenant_in_txn tenant_id db) (\<lambda>_.
     bind_result (lock_all a tenant_id ids db) (\<lambda>_.
     bind_result (increment_user_versions_in_transaction env event_ids tenant_id ids db) (\<lambda>db1.
       case user_delete_rows tenant_id (me_clock env) ids db1 of
         (affected, db2) \<Rightarrow>
           if affected \<noteq> length ids then Inl (NotFound msg_user_missing) else Inr (affected, db2))))"

definition user_delete_many ::
  "mutation_env \<Rightarrow> (nat \<Rightarrow> int app_result) \<Rightarrow> string option \<Rightarrow> ActorContext \<Rightarrow> int list \<Rightarrow> org_db \<Rightarrow>
   nat app_result \<times> org_db" where
  "user_delete_many env event_ids ctx a ids db =
     (case bind_result (validated_tenant_id ctx (ax_tenant_id a)) (\<lambda>t.
             if ids = [] then Inl (Validation msg_user_select)
             else if ax_user_id a \<in> set (sort_dedup ids) then Inl (Authorization msg_delete_self) else Inr t) of
        Inl e \<Rightarrow> (Inl e, db)
      | Inr t \<Rightarrow> commit_user_change env True (user_delete_operation env event_ids a t (sort_dedup ids) db) db)"

definition user_roles_operation ::
  "mutation_env \<Rightarrow> (nat \<Rightarrow> int app_result) \<Rightarrow> ActorContext \<Rightarrow> string \<Rightarrow> int \<Rightarrow> int list \<Rightarrow> org_db \<Rightarrow>
   (unit \<times> org_db) app_result" where
  "user_roles_operation env event_ids a tenant_id user_id role_ids db0 =
     bind_result (lock_tenant_and_validate_in_txn tenant_id None (me_now env) db0) (\<lambda>(_, db).
     bind_result (validate_assignments a tenant_id None (Some role_ids) db) (\<lambda>_.
     bind_result (lock_manageable_user_in_txn a tenant_id user_id db) (\<lambda>_.
     bind_result (replace_roles_in_txn tenant_id user_id role_ids db) (\<lambda>db1.
     bind_result (increment_user_versions_in_transaction env event_ids tenant_id [user_id] db1) (\<lambda>db2.
       Inr ((), db2))))))"

definition user_replace_roles ::
  "mutation_env \<Rightarrow> (nat \<Rightarrow> int app_result) \<Rightarrow> string option \<Rightarrow> ActorContext \<Rightarrow> int \<Rightarrow> int list \<Rightarrow> org_db \<Rightarrow> org_db \<Rightarrow>
   unit app_result \<times> org_db" where
  "user_replace_roles env event_ids ctx a user_id role_ids earlier db =
     (case bind_result (validated_tenant_id ctx (ax_tenant_id a)) (\<lambda>t.
             bind_result (validate_assignments a t None (Some (sort_dedup role_ids)) earlier) (\<lambda>_. Inr t)) of
        Inl e \<Rightarrow> (Inl e, db)
      | Inr t \<Rightarrow>
          commit_user_change env True (user_roles_operation env event_ids a t user_id (sort_dedup role_ids) db) db)"

end
