(* ===== verification/Org_Changes.thy ===== *)
theory Org_Changes
  imports Users
begin

text \<open>
  How the commands of the role and user services change their tables: two relations, one on the roles
  and one on users and assignments, that name what a command may touch, with a lemma for each statement
  the commands are made of.
\<close>

section \<open>Changes of the roles\<close>

definition only_super :: "string \<Rightarrow> int \<Rightarrow> role list \<Rightarrow> bool" where
  "only_super t i rs \<longleftrightarrow>
     (\<exists>r. row_get ro_id i rs = Some r \<and> available_super t r) \<and>
     (\<forall>r \<in> set rs. role_live t r \<longrightarrow> ro_is_super r = 1 \<longrightarrow> ro_id r = i)"

definition within :: "nat \<Rightarrow> nat \<Rightarrow> nat \<Rightarrow> bool" where
  "within limit before after \<longleftrightarrow> after \<le> before \<or> limit = 0 \<or> after \<le> limit"

definition live_roles :: "string \<Rightarrow> role list \<Rightarrow> nat" where
  "live_roles t rs = length (filter (role_live t) rs)"

definition role_change :: "string \<Rightarrow> nat \<Rightarrow> role list \<Rightarrow> role list \<Rightarrow> bool" where
  "role_change t limit rs rs' \<longleftrightarrow>
     unique_key ro_id rs' \<and>
     (\<forall>t'. t' \<noteq> t \<longrightarrow> filter (\<lambda>r. ro_tenant_id r = t') rs' = filter (\<lambda>r. ro_tenant_id r = t') rs) \<and>
     (\<forall>r' \<in> set rs'. role_live t r' \<longrightarrow> ro_is_super r' = 1 \<longrightarrow>
        (\<exists>r \<in> set rs. ro_id r = ro_id r' \<and> role_live t r \<and> ro_is_super r = 1)) \<and>
     (\<forall>i. only_super t i rs \<longrightarrow> only_super t i rs') \<and>
     within limit (live_roles t rs) (live_roles t rs')"

lemma role_change_refl: "unique_key ro_id rs \<Longrightarrow> role_change t limit rs rs"
  by (auto simp: role_change_def within_def)

lemma only_super_count:
  assumes "unique_key ro_id rs" "only_super t i rs"
  shows "count_available_super_roles t rs \<le> 1"
proof -
  have "set (map ro_id (filter (available_super t) rs)) \<subseteq> {i}"
    using assms(2) by (auto simp: only_super_def available_super_def)
  moreover have "distinct (map ro_id (filter (available_super t) rs))"
    using unique_key_filter [OF assms(1)] by (simp add: unique_key_def)
  ultimately have "card (set (map ro_id (filter (available_super t) rs))) \<le> 1"
    by (metis card_mono card.empty card_insert_disjoint finite.emptyI finite.insertI empty_iff One_nat_def)
  then show ?thesis
    using distinct_card [OF \<open>distinct (map ro_id (filter (available_super t) rs))\<close>]
    by (simp add: count_available_super_roles_def)
qed

text \<open>An update that keeps keys, tenants and super flags, revives no row, and keeps the super role available.\<close>

lemma role_change_update:
  assumes u: "unique_key ro_id rs"
    and P: "\<And>r. r \<in> set rs \<Longrightarrow> P r \<Longrightarrow> ro_tenant_id r = t \<and> role_live t r"
    and f: "\<And>r. ro_id (f r) = ro_id r \<and> ro_tenant_id (f r) = ro_tenant_id r \<and> ro_is_super (f r) = ro_is_super r"
    and keep: "\<And>i r. only_super t i rs \<Longrightarrow> r \<in> set rs \<Longrightarrow> P r \<Longrightarrow> ro_id r = i \<Longrightarrow> available_super t (f r)"
  shows "role_change t limit rs (update_where P f rs)"
proof -
  have u': "unique_key ro_id (update_where P f rs)"
    using u f by (simp add: unique_key_def map_update_where)
  have other: "filter (\<lambda>r. ro_tenant_id r = t') (update_where P f rs) = filter (\<lambda>r. ro_tenant_id r = t') rs" if "t' \<noteq> t" for t'
    using P f that unfolding update_where_def by (induction rs) auto
  have live: "live_roles t (update_where P f rs) \<le> live_roles t rs"
    using P unfolding live_roles_def update_where_def by (induction rs) auto
  have super: "\<exists>r \<in> set rs. ro_id r = ro_id r' \<and> role_live t r \<and> ro_is_super r = 1"
    if "r' \<in> set (update_where P f rs)" "role_live t r'" "ro_is_super r' = 1" for r'
    using that P f by (auto simp: set_update_where split: if_splits)
  have only: "only_super t i (update_where P f rs)" if i: "only_super t i rs" for i
  proof -
    obtain r where r: "row_get ro_id i rs = Some r" "available_super t r" using i by (auto simp: only_super_def)
    have "row_get ro_id i (update_where P f rs) = Some (if P r then f r else r)"
      using r f unfolding row_get_def by (subst find_update_where) auto
    moreover have "available_super t (if P r then f r else r)"
      using r keep [OF i, of r] row_get_SomeD [OF r(1)] by simp
    moreover have "\<forall>r' \<in> set (update_where P f rs). role_live t r' \<longrightarrow> ro_is_super r' = 1 \<longrightarrow> ro_id r' = i"
      using super i unfolding only_super_def by metis
    ultimately show ?thesis by (auto simp: only_super_def)
  qed
  show ?thesis using u' other live super only by (simp add: role_change_def within_def)
qed

lemma role_change_insert:
  assumes u: "unique_key ro_id rs" and i: "role_insert t r rs = Inr (r', rs')" and s: "ro_is_super r = 0"
    and q: "limit = 0 \<or> live_roles t rs < limit"
  shows "role_change t limit rs rs'"
proof -
  have r': "r' = r\<lparr>ro_tenant_id := t, ro_del_flag := ro_DEL_FLAG_NORMAL\<rparr>" "rs' = r' # rs" "ro_id r' \<notin> ro_id ` set rs"
    using i by (auto simp: role_insert_def Let_def split: if_splits)
  have new: "role_live t r'" "ro_tenant_id r' = t" "ro_is_super r' \<noteq> 1" using r'(1) s by (simp_all add: role_live_def)
  have "unique_key ro_id rs'" using u r' by (simp add: unique_key_Cons row_get_None_iff)
  moreover have "only_super t j rs'" if o: "only_super t j rs" for j
  proof -
    obtain x where x: "row_get ro_id j rs = Some x" "available_super t x" using o by (auto simp: only_super_def)
    from row_get_SomeD [OF x(1)] r'(3) have "ro_id r' \<noteq> j" by auto
    then show ?thesis using x o new by (auto simp: only_super_def r'(2) row_get_def)
  qed
  moreover have "live_roles t rs' = Suc (live_roles t rs)" using new by (simp add: live_roles_def r'(2))
  ultimately show ?thesis using q new by (auto simp: role_change_def r'(2) within_def)
qed

lemma role_find_Some:
  "role_find_by_id_for_update t i rs = Some r \<longleftrightarrow> row_get ro_id i rs = Some r \<and> role_live t r"
  by (auto simp: role_find_by_id_for_update_def split: option.splits)

lemma role_update_change:
  assumes u: "unique_key ro_id (org_roles db)"
    and op: "role_update_operation t clk i nm s st sc db = Inr (v, db')"
  shows "role_change t limit (org_roles db) (org_roles db') \<and> (\<exists>rs. db' = db\<lparr>org_roles := rs\<rparr>)"
proof -
  obtain r where fr: "role_find_by_id_for_update t i (org_roles db) = Some r"
    using op by (auto simp: role_update_operation_def split: option.splits)
  then have r: "row_get ro_id i (org_roles db) = Some r" "role_live t r" by (simp_all add: role_find_Some)
  define w where "w = r\<lparr>ro_name := nm, ro_sort := s, ro_status := st,
      ro_data_scope := (case sc of Some x \<Rightarrow> x | None \<Rightarrow> ro_data_scope r), ro_updated_at := clk,
      ro_tenant_id := t, ro_del_flag := ro_DEL_FLAG_NORMAL\<rparr>"
  from op have guard: "ro_is_super r = 1 \<and> ro_status r = ''1'' \<and> st \<noteq> ''1'' \<Longrightarrow>
        ensure_super_role_remains (count_available_super_roles t (org_roles db)) 1 = Inr ()"
    by (auto simp: role_update_operation_def fr bind_result_eq_Inr)
  from op have e': "w = v \<and> db\<lparr>org_roles := row_put ro_id w (org_roles db)\<rparr> = db'"
    unfolding w_def by (auto simp: role_update_operation_def fr bind_result_eq_Inr role_update_row_def Let_def)
  have wv: "ro_id w = ro_id r" "ro_tenant_id w = t" "ro_is_super w = ro_is_super r" "ro_status w = st"
      "ro_del_flag w = ro_DEL_FLAG_NORMAL" by (simp_all add: w_def)
  note e = conjunct1 [OF e'] conjunct2 [OF e']
  from wv e have v: "ro_id v = ro_id r" "ro_tenant_id v = t" "ro_is_super v = ro_is_super r" "ro_status v = st"
      "ro_del_flag v = ro_DEL_FLAG_NORMAL"
    and db': "db' = db\<lparr>org_roles := row_put ro_id v (org_roles db)\<rparr>" by simp_all
  note rD = row_get_SomeD [OF r(1)]
  have vid: "ro_id v = i" "ro_tenant_id r = t" using v rD r(2) by (simp_all add: role_live_def)
  define f where "f = (\<lambda>x. if ro_id x = i \<and> ro_tenant_id x = t \<and> ro_is_super x = ro_is_super v then v else x)"
  have put: "row_put ro_id v (org_roles db) = update_where (\<lambda>x. ro_id x = i) f (org_roles db)"
  proof -
    have "(if ro_id x = ro_id v then v else x) = (if ro_id x = i then f x else x)" if "x \<in> set (org_roles db)" for x
      using unique_keyD [OF u that, of r] rD vid v by (auto simp: f_def)
    then show ?thesis by (simp add: row_put_def update_where_def)
  qed
  have "role_change t limit (org_roles db) (update_where (\<lambda>x. ro_id x = i) f (org_roles db))"
  proof (rule role_change_update [OF u])
    show "ro_tenant_id x = t \<and> role_live t x" if "x \<in> set (org_roles db)" "ro_id x = i" for x
      using unique_keyD [OF u that(1), of r] rD that r(2) vid by auto
    show "ro_id (f x) = ro_id x \<and> ro_tenant_id (f x) = ro_tenant_id x \<and> ro_is_super (f x) = ro_is_super x" for x
      using vid v by (simp add: f_def)
    show "available_super t (f x)" if o: "only_super t j (org_roles db)" "x \<in> set (org_roles db)" "ro_id x = i" "ro_id x = j" for j x
    proof -
      have x: "x = r" using unique_keyD [OF u o(2), of r] rD o(3) by auto
      have av: "available_super t r" using o r(1) by (auto simp: only_super_def)
      have "st = ''1''"
      proof (rule ccontr)
        assume "st \<noteq> ''1''"
        then have "ensure_super_role_remains (count_available_super_roles t (org_roles db)) 1 = Inr ()"
          using guard av by (auto simp: available_super_def)
        then show False using only_super_count [OF u o(1)] by (simp add: ensure_super_role_remains_def split: if_splits)
      qed
      then show ?thesis using av v by (simp add: x f_def available_super_def role_live_def)
    qed
  qed
  then show ?thesis using db' put by auto
qed

lemma collect_roles_Inr:
  "collect_roles t rs ids = Inr xs \<Longrightarrow>
     map ro_id xs = ids \<and> (\<forall>x \<in> set xs. row_get ro_id (ro_id x) rs = Some x \<and> role_live t x)"
proof (induction ids arbitrary: xs)
  case Nil
  then show ?case by simp
next
  case (Cons i ks)
  from Cons.prems obtain r ys where r: "role_find_by_id_for_update t i rs = Some r"
    and ys: "collect_roles t rs ks = Inr ys" "xs = r # ys"
    by (auto simp: bind_result_eq_Inr split: option.splits)
  from r have "row_get ro_id i rs = Some r" "role_live t r" by (simp_all add: role_find_Some)
  moreover from this(1) have "ro_id r = i" using row_get_SomeD by metis
  ultimately show ?case using Cons.IH [OF ys(1)] ys(2) by auto
qed

lemma role_delete_change:
  assumes u: "unique_key ro_id (org_roles db)" and op: "role_delete_operation t clk ids db = Inr (n, db')"
  shows "role_change t limit (org_roles db) (org_roles db') \<and> (\<exists>rs. db' = db\<lparr>org_roles := rs\<rparr>)"
proof -
  define P where "P = (\<lambda>r. ro_id r \<in> set ids \<and> role_live t r)"
  define f where "f = (\<lambda>r::role. r\<lparr>ro_del_flag := ro_DEL_FLAG_DELETED, ro_updated_at := clk\<rparr>)"
  obtain xs where xs: "collect_roles t (org_roles db) ids = Inr xs"
    using op by (auto simp: role_delete_operation_def bind_result_eq_Inr)
  define active where "active = length (filter (\<lambda>r. ro_is_super r = 1 \<and> ro_status r = ''1'') xs)"
  from op have guard: "0 < active \<Longrightarrow>
      ensure_super_role_remains (count_available_super_roles t (org_roles db)) active = Inr ()"
    by (auto simp: role_delete_operation_def bind_result_eq_Inr xs active_def Let_def split: if_splits)
  have rows: "db' = db\<lparr>org_roles := snd (role_delete_rows t clk ids (org_roles db))\<rparr>"
    using op by (auto simp: role_delete_operation_def bind_result_eq_Inr Let_def split: prod.splits if_splits)
  have upd: "snd (role_delete_rows t clk ids (org_roles db)) = update_where P f (org_roles db)"
    by (simp add: role_delete_rows_def Let_def P_def f_def update_where_def)
  have "role_change t limit (org_roles db) (update_where P f (org_roles db))"
  proof (rule role_change_update [OF u])
    show "ro_tenant_id r = t \<and> role_live t r" if "P r" for r using that by (simp add: P_def role_live_def)
    show "ro_id (f r) = ro_id r \<and> ro_tenant_id (f r) = ro_tenant_id r \<and> ro_is_super (f r) = ro_is_super r" for r
      by (simp add: f_def)
    show "available_super t (f r)" if o: "only_super t i (org_roles db)" "r \<in> set (org_roles db)" "P r" "ro_id r = i" for i r
    proof -
      have g: "row_get ro_id i (org_roles db) = Some r" using unique_row_get [OF u o(2)] o(4) by simp
      then have av: "available_super t r" using o(1) by (simp add: only_super_def)
      have "ro_id r \<in> ro_id ` set xs" using collect_roles_Inr [OF xs] o(3) by (auto simp: P_def)
      then obtain x where x: "x \<in> set xs" "ro_id x = ro_id r" by (metis imageE)
      have "row_get ro_id (ro_id r) (org_roles db) = Some x" using collect_roles_Inr [OF xs] x by metis
      then have "r \<in> set xs" using g o(4) x(1) by simp
      then have "0 < active" using av by (auto simp: active_def available_super_def filter_empty_conv)
      from guard [OF this] only_super_count [OF u o(1)] this show ?thesis
        by (simp add: ensure_super_role_remains_def split: if_splits)
    qed
  qed
  then show ?thesis using rows upd by auto
qed

lemma role_scope_change:
  assumes u: "unique_key ro_id (org_roles db)" and op: "replace_data_scope_operation t clk i sc ds db = Inr (v, db')"
  shows "role_change t limit (org_roles db) (org_roles db') \<and>
    (\<exists>rs ns. db' = db\<lparr>org_roles := rs,
       org_role_depts := map (\<lambda>d. \<lparr>rd_tenant_id = t, rd_role_id = i, rd_dept_id = d\<rparr>) ns @
         filter (\<lambda>x. \<not> (rd_role_id x = i \<and> rd_tenant_id x = t)) (org_role_depts db)\<rparr>)"
proof -
  define P where "P = (\<lambda>r. ro_id r = i \<and> role_live t r)"
  define f where "f = (\<lambda>r::role. r\<lparr>ro_data_scope := sc, ro_updated_at := clk\<rparr>)"
  from op have "replace_data_scope_rows t clk i sc ds db = Inr db'"
    by (auto simp: replace_data_scope_operation_def bind_result_eq_Inr split: if_splits option.splits)
  then have db': "db' = db\<lparr>org_roles := update_where P f (org_roles db),
       org_role_depts := map (\<lambda>d. \<lparr>rd_tenant_id = t, rd_role_id = i, rd_dept_id = d\<rparr>) ds @
         filter (\<lambda>x. \<not> (rd_role_id x = i \<and> rd_tenant_id x = t)) (org_role_depts db)\<rparr>"
    by (auto simp: replace_data_scope_rows_def Let_def P_def f_def split: if_splits)
  have "role_change t limit (org_roles db) (update_where P f (org_roles db))"
  proof (rule role_change_update [OF u])
    show "ro_tenant_id r = t \<and> role_live t r" if "P r" for r using that by (simp add: P_def role_live_def)
    show "ro_id (f r) = ro_id r \<and> ro_tenant_id (f r) = ro_tenant_id r \<and> ro_is_super (f r) = ro_is_super r" for r
      by (simp add: f_def)
    show "available_super t (f r)" if o: "only_super t j (org_roles db)" "r \<in> set (org_roles db)" "P r" "ro_id r = j" for j r
    proof -
      have "row_get ro_id j (org_roles db) = Some r" using unique_row_get [OF u o(2)] o(4) by simp
      then have "available_super t r" using o(1) by (simp add: only_super_def)
      then show ?thesis by (simp add: available_super_def role_live_def f_def)
    qed
  qed
  then show ?thesis using db' by auto
qed

section \<open>Changes of users and assignments\<close>

definition super_role :: "string \<Rightarrow> role list \<Rightarrow> int \<Rightarrow> bool" where
  "super_role t rs i \<longleftrightarrow> (\<exists>r \<in> set rs. role_live t r \<and> ro_is_super r = 1 \<and> ro_id r = i)"

lemma holder_iff:
  "user_has_super_role_in_txn t i db \<longleftrightarrow>
     (\<exists>x \<in> set (org_user_roles db). ur_tenant_id x = t \<and> ur_user_id x = i \<and> super_role t (org_roles db) (ur_role_id x))"
  by (auto simp: user_has_super_role_in_txn_def super_role_def list_ex_iff)

definition live_users :: "string \<Rightarrow> user list \<Rightarrow> nat" where
  "live_users t us = length (filter (base_select t) us)"

text \<open>A change that touches the users \<open>M\<close> of the tenant \<open>t\<close> and their assignments, and nothing else.\<close>

definition touches :: "string \<Rightarrow> int set \<Rightarrow> user \<Rightarrow> bool" where
  "touches t M u \<longleftrightarrow> us_tenant_id u = t \<and> us_id u \<in> M"

definition assigns :: "string \<Rightarrow> int set \<Rightarrow> user_role \<Rightarrow> bool" where
  "assigns t M x \<longleftrightarrow> ur_tenant_id x = t \<and> ur_user_id x \<in> M"

definition user_touch :: "string \<Rightarrow> int set \<Rightarrow> bool \<Rightarrow> nat \<Rightarrow> org_db \<Rightarrow> org_db \<Rightarrow> bool" where
  "user_touch t M priv limit db db' \<longleftrightarrow>
     (\<exists>us' ur' ls' ob'. db' = db\<lparr>org_users := us', org_user_roles := ur', org_leases := ls', org_outbox := ob'\<rparr> \<and>
       unique_key us_id us' \<and>
       filter (\<lambda>u. \<not> touches t M u) us' = filter (\<lambda>u. \<not> touches t M u) (org_users db) \<and>
       filter (\<lambda>x. \<not> assigns t M x) ur' = filter (\<lambda>x. \<not> assigns t M x) (org_user_roles db) \<and>
       filter (\<lambda>l. ol_tenant_id l \<noteq> t) ls' = filter (\<lambda>l. ol_tenant_id l \<noteq> t) (org_leases db) \<and>
       (priv \<or> (\<forall>x \<in> set ur'. x \<in> set (org_user_roles db) \<or> \<not> super_role t (org_roles db) (ur_role_id x))) \<and>
       within limit (live_users t (org_users db)) (live_users t us'))"

lemma user_touchI:
  assumes "unique_key us_id us'"
    and "filter (\<lambda>u. \<not> touches t M u) us' = filter (\<lambda>u. \<not> touches t M u) (org_users db)"
    and "filter (\<lambda>x. \<not> assigns t M x) ur' = filter (\<lambda>x. \<not> assigns t M x) (org_user_roles db)"
    and "filter (\<lambda>l. ol_tenant_id l \<noteq> t) ls' = filter (\<lambda>l. ol_tenant_id l \<noteq> t) (org_leases db)"
    and "priv \<or> (\<forall>x \<in> set ur'. x \<in> set (org_user_roles db) \<or> \<not> super_role t (org_roles db) (ur_role_id x))"
    and "within limit (live_users t (org_users db)) (live_users t us')"
  shows "user_touch t M priv limit db (db\<lparr>org_users := us', org_user_roles := ur', org_leases := ls', org_outbox := ob'\<rparr>)"
  unfolding user_touch_def using assms by blast

lemma within_trans: "within l a b \<Longrightarrow> within l b c \<Longrightarrow> within l a c"
  by (auto simp: within_def)

lemma within_le: "b \<le> a \<Longrightarrow> within l a b"
  by (simp add: within_def)

lemma user_touch_trans:
  assumes "user_touch t M priv limit db db1" "user_touch t M priv limit db1 db2"
  shows "user_touch t M priv limit db db2"
proof -
  obtain us ur ls ob where a: "db1 = db\<lparr>org_users := us, org_user_roles := ur, org_leases := ls, org_outbox := ob\<rparr>"
      "unique_key us_id us" "filter (\<lambda>u. \<not> touches t M u) us = filter (\<lambda>u. \<not> touches t M u) (org_users db)"
      "filter (\<lambda>x. \<not> assigns t M x) ur = filter (\<lambda>x. \<not> assigns t M x) (org_user_roles db)"
      "filter (\<lambda>l. ol_tenant_id l \<noteq> t) ls = filter (\<lambda>l. ol_tenant_id l \<noteq> t) (org_leases db)"
      "priv \<or> (\<forall>x \<in> set ur. x \<in> set (org_user_roles db) \<or> \<not> super_role t (org_roles db) (ur_role_id x))"
      "within limit (live_users t (org_users db)) (live_users t us)"
    using assms(1) unfolding user_touch_def by blast
  obtain us' ur' ls' ob' where b: "db2 = db1\<lparr>org_users := us', org_user_roles := ur', org_leases := ls', org_outbox := ob'\<rparr>"
      "unique_key us_id us'" "filter (\<lambda>u. \<not> touches t M u) us' = filter (\<lambda>u. \<not> touches t M u) (org_users db1)"
      "filter (\<lambda>x. \<not> assigns t M x) ur' = filter (\<lambda>x. \<not> assigns t M x) (org_user_roles db1)"
      "filter (\<lambda>l. ol_tenant_id l \<noteq> t) ls' = filter (\<lambda>l. ol_tenant_id l \<noteq> t) (org_leases db1)"
      "priv \<or> (\<forall>x \<in> set ur'. x \<in> set (org_user_roles db1) \<or> \<not> super_role t (org_roles db1) (ur_role_id x))"
      "within limit (live_users t (org_users db1)) (live_users t us')"
    using assms(2) unfolding user_touch_def by blast
  have f: "org_users db1 = us" "org_user_roles db1 = ur" "org_leases db1 = ls" "org_roles db1 = org_roles db"
    by (simp_all add: a(1))
  have d: "db2 = db\<lparr>org_users := us', org_user_roles := ur', org_leases := ls', org_outbox := ob'\<rparr>"
    by (simp add: b(1) a(1))
  show ?thesis unfolding d
    by (rule user_touchI [OF b(2)])
      (use a(3-7) b(3-7) f in \<open>auto intro: within_trans\<close>)
qed

lemma user_touch_users:
  assumes "unique_key us_id us'" "filter (\<lambda>u. \<not> touches t M u) us' = filter (\<lambda>u. \<not> touches t M u) (org_users db)"
    and "within limit (live_users t (org_users db)) (live_users t us')"
  shows "user_touch t M priv limit db (db\<lparr>org_users := us'\<rparr>)"
  using user_touchI [OF assms(1,2) refl refl _ assms(3), of priv "org_outbox db"] by simp

lemma user_touch_outbox: "unique_key us_id (org_users db) \<Longrightarrow> user_touch t M priv limit db (db\<lparr>org_outbox := ob\<rparr>)"
  using user_touchI [of "org_users db" t M db "org_user_roles db" "org_leases db" priv limit ob] by (simp add: within_le)

lemma user_touch_refl: "unique_key us_id (org_users db) \<Longrightarrow> user_touch t M priv limit db db"
  using user_touch_outbox [of db t M priv limit "org_outbox db"] by simp

lemma user_touch_unique: "user_touch t M priv limit db db' \<Longrightarrow> unique_key us_id (org_users db')"
  by (auto simp: user_touch_def)

lemma user_touch_update:
  assumes u: "unique_key us_id (org_users db)"
    and P: "\<And>x. x \<in> set (org_users db) \<Longrightarrow> P x \<Longrightarrow> touches t M x \<and> us_id (f x) = us_id x \<and> us_tenant_id (f x) = us_tenant_id x \<and>
              (us_del_flag (f x) = us_DEL_FLAG_NORMAL \<longrightarrow> us_del_flag x = us_DEL_FLAG_NORMAL)"
  shows "user_touch t M priv limit db (db\<lparr>org_users := update_where P f (org_users db)\<rparr>)"
proof (rule user_touch_users)
  have "map us_id (update_where P f (org_users db)) = map us_id (org_users db)"
    using P by (auto simp: update_where_def)
  then show "unique_key us_id (update_where P f (org_users db))" using u by (simp add: unique_key_def)
  have "filter (\<lambda>u. \<not> touches t M u) (update_where P f us) = filter (\<lambda>u. \<not> touches t M u) us"
    if "set us \<subseteq> set (org_users db)" for us
    using that P by (induction us) (auto simp: update_where_def touches_def)
  then show "filter (\<lambda>u. \<not> touches t M u) (update_where P f (org_users db)) = filter (\<lambda>u. \<not> touches t M u) (org_users db)"
    by blast
  have "live_users t (update_where P f us) \<le> live_users t us" if "set us \<subseteq> set (org_users db)" for us
    using that P by (induction us) (auto simp: update_where_def live_users_def base_select_def)
  then show "within limit (live_users t (org_users db)) (live_users t (update_where P f (org_users db)))"
    by (simp add: within_le)
qed

lemma user_touch_lock:
  assumes "unique_key us_id (org_users db)" "lock_tenant_and_validate_in_txn t ow n db = Inr (x, db1)"
  shows "user_touch t M priv limit db db1 \<and> (\<exists>ls. db1 = db\<lparr>org_leases := ls\<rparr>)"
proof -
  obtain ls where "db1 = db\<lparr>org_leases := ls\<rparr>" "ls = org_leases db \<or> ls = filter (\<lambda>l. ol_tenant_id l \<noteq> t) (org_leases db)"
    using assms(2) that [of "org_leases db"] that [of "filter (\<lambda>l. ol_tenant_id l \<noteq> t) (org_leases db)"]
    by (auto simp: lock_tenant_and_validate_in_txn_def bind_result_eq_Inr delete_lease_def split: option.splits if_splits)
  then show ?thesis
    using user_touchI [OF assms(1) refl refl, where t = t and M = M and ls' = ls and priv = priv and limit = limit
        and ob' = "org_outbox db"] by (auto simp: within_le)
qed

lemma user_touch_insert:
  assumes u: "unique_key us_id (org_users db)" and i: "user_insert x (org_users db) = Inr us"
    and x: "us_tenant_id x = t" "us_id x \<in> M" and q: "limit = 0 \<or> live_users t (org_users db) < limit"
  shows "user_touch t M priv limit db (db\<lparr>org_users := us\<rparr>)"
proof (rule user_touch_users)
  have us: "us = x # org_users db" "us_id x \<notin> us_id ` set (org_users db)"
    using i by (auto simp: user_insert_def split: if_splits)
  then show "unique_key us_id us" using u by (simp add: unique_key_Cons row_get_None_iff)
  show "filter (\<lambda>u. \<not> touches t M u) us = filter (\<lambda>u. \<not> touches t M u) (org_users db)"
    using x us by (simp add: touches_def)
  have "live_users t us \<le> Suc (live_users t (org_users db))" by (simp add: live_users_def us(1))
  then show "within limit (live_users t (org_users db)) (live_users t us)" using q by (auto simp: within_def)
qed

lemma user_touch_roles:
  assumes u: "unique_key us_id (org_users db)" and r: "replace_roles_in_txn t i ids db = Inr db'" and i: "i \<in> M"
    and s: "priv \<or> (\<forall>k \<in> set ids. \<not> super_role t (org_roles db) k)"
  shows "user_touch t M priv limit db db'"
proof -
  have db': "db' = db\<lparr>org_user_roles := map (\<lambda>r. \<lparr>ur_tenant_id = t, ur_user_id = i, ur_role_id = r\<rparr>) ids @
             filter (\<lambda>x. \<not> (ur_user_id x = i \<and> ur_tenant_id x = t)) (org_user_roles db)\<rparr>" (is "_ = db\<lparr>org_user_roles := ?ur\<rparr>")
    using r by (auto simp: replace_roles_in_txn_def split: if_splits)
  have keep: "filter (\<lambda>x. \<not> assigns t M x) (filter (\<lambda>x. \<not> (ur_user_id x = i \<and> ur_tenant_id x = t)) xs) =
      filter (\<lambda>x. \<not> assigns t M x) xs" for xs
    using i by (induction xs) (auto simp: assigns_def)
  then have "filter (\<lambda>x. \<not> assigns t M x) ?ur = filter (\<lambda>x. \<not> assigns t M x) (org_user_roles db)"
    using i keep [of "org_user_roles db"] by (simp add: assigns_def filter_empty_conv)
  moreover have "priv \<or> (\<forall>x \<in> set ?ur. x \<in> set (org_user_roles db) \<or> \<not> super_role t (org_roles db) (ur_role_id x))"
    using s by auto
  ultimately have "user_touch t M priv limit db (db\<lparr>org_users := org_users db, org_user_roles := ?ur,
      org_leases := org_leases db, org_outbox := org_outbox db\<rparr>)"
    by (intro user_touchI u refl) (simp_all add: within_le)
  then show ?thesis by (simp add: db')
qed

lemma record_user_events_frame:
  "record_user_events env ids k t vs db = Inr db' \<Longrightarrow> \<exists>ob. db' = db\<lparr>org_outbox := ob\<rparr>"
proof (induction vs arbitrary: k db)
  case Nil
  then have "db' = db\<lparr>org_outbox := org_outbox db\<rparr>" by simp
  then show ?case by blast
next
  case (Cons v vs)
  obtain i w where v: "v = (i, w)" by force
  from Cons.prems obtain db1 where
    r: "record_mirror_event (env\<lparr>me_event_id := ids k\<rparr>)
        (mirror_event env t ''user'' (show_int i) w (UserUpdate t i w)) db = Inr db1"
    and rest: "record_user_events env ids (Suc k) t vs db1 = Inr db'" by (auto simp: v bind_result_eq_Inr)
  from r obtain ob where "db1 = db\<lparr>org_outbox := ob\<rparr>" by (auto simp: record_mirror_event_def bind_result_eq_Inr)
  with Cons.IH [OF rest] show ?case by auto
qed

lemma user_touch_versions:
  assumes u: "unique_key us_id (org_users db)"
    and r: "increment_user_versions_in_transaction env eids t ids db = Inr db'" and M: "set ids \<subseteq> M"
  shows "user_touch t M priv limit db db'"
proof (cases "ids = []")
  case True
  then show ?thesis using r u user_touch_refl by (simp add: increment_user_versions_in_transaction_def)
next
  case False
  then obtain n db1 where inc: "increment_authorization_versions t (sort_dedup ids) db = Inr (n, db1)"
    and rest: "db' = db1 \<or> record_user_events env eids 0 t (find_authorization_versions t (sort_dedup ids) db1) db1 = Inr db'"
    using r by (auto simp: increment_user_versions_in_transaction_def Let_def bind_result_eq_Inr split: if_splits)
  define P where "P = (\<lambda>u::user. us_id u \<in> set ids \<and> us_tenant_id u = t)"
  have db1: "db1 = db\<lparr>org_users := update_where P (\<lambda>u. u\<lparr>us_authorization_version := us_authorization_version u + 1\<rparr>) (org_users db)\<rparr>"
    using inc False by (auto simp: increment_authorization_versions_def Let_def P_def split: if_splits)
  have "user_touch t M priv limit db db1"
    unfolding db1 by (rule user_touch_update [OF u]) (use M in \<open>auto simp: P_def touches_def\<close>)
  moreover have "user_touch t M priv limit db1 db'"
    using rest user_touch_unique [OF calculation] record_user_events_frame user_touch_outbox user_touch_refl by metis
  ultimately show ?thesis by (rule user_touch_trans)
qed

section \<open>The user commands\<close>

lemma manageable:
  "lock_manageable_user_in_txn a t i db = Inr u \<Longrightarrow> \<not> user_has_super_role_in_txn t i db"
  by (auto simp: lock_manageable_user_in_txn_def split: option.splits if_splits)

lemma lock_all_manageable:
  "lock_all a t ids db = Inr () \<Longrightarrow> i \<in> set ids \<Longrightarrow> \<not> user_has_super_role_in_txn t i db"
  by (induction ids) (auto simp: bind_result_eq_Inr dest: manageable)

lemma assignments_not_super:
  assumes "validate_assignments a t d (Some ids) db = Inr ()" "\<not> ax_is_super_admin a" "k \<in> set ids"
  shows "\<not> super_role t (org_roles db) k"
proof
  assume "super_role t (org_roles db) k"
  then obtain r where r: "r \<in> set (org_roles db)" "role_live t r" "ro_is_super r = 1" "ro_id r = k"
    by (auto simp: super_role_def)
  from assms have "\<not> list_ex ar_is_super (as_roles (assignment_state t d ids db))"
    by (auto simp: validate_assignments_def validate_assignment_state_def split: if_splits)
  then show False using r assms(3) by (auto simp: assignment_state_def list_ex_iff)
qed

definition user_effect :: "string \<Rightarrow> bool \<Rightarrow> nat \<Rightarrow> org_db \<Rightarrow> org_db \<Rightarrow> bool" where
  "user_effect t priv limit db db' \<longleftrightarrow>
     (\<exists>M. user_touch t M priv limit db db' \<and>
        (\<forall>i \<in> M. i \<in> us_id ` set (org_users db) \<longrightarrow> \<not> user_has_super_role_in_txn t i db))"

lemma user_update_effect:
  assumes u: "unique_key us_id (org_users db0)"
    and op: "user_update_operation env eids a t p db0 = Inr (v, db')"
  shows "user_effect t priv limit db0 db'"
proof -
  from op obtain x db w db1 where l: "lock_tenant_and_validate_in_txn t None (me_now env) db0 = Inr (x, db)"
    and m: "lock_manageable_user_in_txn a t (uu_id p) db = Inr w"
    and up: "update_user_row (me_clock env) t p db = Inr (v, db1)"
    and inc: "increment_user_versions_in_transaction env eids t [us_id v] db1 = Inr db'"
    by (auto simp: user_update_operation_def bind_result_eq_Inr)
  define M where "M = {uu_id p}"
  note lock = user_touch_lock [OF u l, of M priv limit]
  note u1 = user_touch_unique [OF conjunct1 [OF lock]]
  from up obtain y where fy: "user_find_by_id_for_update t (uu_id p) db = Some y"
    by (auto simp: update_user_row_def split: option.splits)
  then have y: "y \<in> set (org_users db)" "base_select t y" "us_id y = uu_id p"
    by (auto simp: user_find_by_id_for_update_def find_Some_iff)
  define f where "f = (\<lambda>z::user. z\<lparr>us_nickname := uu_nickname p, us_email := uu_email p, us_phone := uu_phone p,
                     us_dept_id := uu_dept_id p, us_updated_at := me_clock env\<rparr>)"
  have v: "v = f y" and put: "db1 = db\<lparr>org_users := row_put us_id (f y) (org_users db)\<rparr>"
    using up by (auto simp: update_user_row_def fy Let_def f_def)
  have vid: "us_id v = uu_id p" using v y by (simp add: f_def)
  have "row_put us_id (f y) (org_users db) = update_where (\<lambda>z. us_id z = us_id y) f (org_users db)"
    using unique_keyD [OF u1 _ y(1)] by (auto simp: row_put_def update_where_def f_def)
  then have db1: "db1 = db\<lparr>org_users := update_where (\<lambda>z. us_id z = us_id y) f (org_users db)\<rparr>" using put by simp
  have t1: "user_touch t M priv limit db db1"
    unfolding db1
  proof (rule user_touch_update [OF u1])
    fix z assume "z \<in> set (org_users db)" "us_id z = us_id y"
    then have "z = y" using unique_keyD [OF u1 _ y(1)] by blast
    then show "touches t M z \<and> us_id (f z) = us_id z \<and> us_tenant_id (f z) = us_tenant_id z \<and>
        (us_del_flag (f z) = us_DEL_FLAG_NORMAL \<longrightarrow> us_del_flag z = us_DEL_FLAG_NORMAL)"
      using y by (simp add: touches_def M_def f_def base_select_def)
  qed
  have t2: "user_touch t M priv limit db1 db'"
    by (rule user_touch_versions [OF user_touch_unique [OF t1] inc]) (simp add: M_def vid)
  from lock manageable [OF m] have "\<not> user_has_super_role_in_txn t (uu_id p) db0" by (auto simp: holder_iff)
  then show ?thesis
    using user_touch_trans [OF user_touch_trans [OF conjunct1 [OF lock] t1] t2] by (auto simp: user_effect_def M_def)
qed

lemma user_status_effect:
  assumes u: "unique_key us_id (org_users db)"
    and op: "user_status_operation env eids a t i st db = Inr (v, db')"
  shows "user_effect t priv limit db db'"
proof -
  from op obtain w db1 where m: "lock_manageable_user_in_txn a t i db = Inr w"
    and up: "user_update_status t (me_clock env) i st db = Inr db1"
    and inc: "increment_user_versions_in_transaction env eids t [i] db1 = Inr db'"
    by (auto simp: user_status_operation_def bind_result_eq_Inr)
  have db1: "db1 = db\<lparr>org_users := update_where (\<lambda>u. us_id u = i \<and> us_tenant_id u = t)
      (\<lambda>u. u\<lparr>us_status := st, us_updated_at := me_clock env\<rparr>) (org_users db)\<rparr>"
    using up by (auto simp: user_update_status_def Let_def split: if_splits)
  have t1: "user_touch t {i} priv limit db db1"
    unfolding db1 by (rule user_touch_update [OF u]) (auto simp: touches_def)
  have "user_touch t {i} priv limit db1 db'"
    by (rule user_touch_versions [OF user_touch_unique [OF t1] inc]) simp
  from user_touch_trans [OF t1 this] manageable [OF m] show ?thesis by (auto simp: user_effect_def)
qed

lemma user_delete_effect:
  assumes u: "unique_key us_id (org_users db)"
    and op: "user_delete_operation env eids a t ids db = Inr (v, db')"
  shows "user_effect t priv limit db db'"
proof -
  from op obtain db1 where m: "lock_all a t ids db = Inr ()"
    and inc: "increment_user_versions_in_transaction env eids t ids db = Inr db1"
    and del: "db' = snd (user_delete_rows t (me_clock env) ids db1)"
    by (auto simp: user_delete_operation_def bind_result_eq_Inr split_beta split: if_splits)
  have t1: "user_touch t (set ids) priv limit db db1" by (rule user_touch_versions [OF u inc]) simp
  have db': "db' = db1\<lparr>org_users := update_where (\<lambda>u. us_id u \<in> set ids \<and> us_tenant_id u = t)
      (\<lambda>u. u\<lparr>us_del_flag := us_DEL_FLAG_DELETED, us_updated_at := me_clock env\<rparr>) (org_users db1)\<rparr>"
    using del by (auto simp: user_delete_rows_def Let_def update_where_def)
  have "user_touch t (set ids) priv limit db1 db'"
    unfolding db' by (rule user_touch_update [OF user_touch_unique [OF t1]]) (auto simp: touches_def)
  from user_touch_trans [OF t1 this] lock_all_manageable [OF m] show ?thesis by (auto simp: user_effect_def)
qed

lemma user_roles_effect:
  assumes u: "unique_key us_id (org_users db0)"
    and op: "user_roles_operation env eids a t i ids db0 = Inr (v, db')"
  shows "user_effect t (ax_is_super_admin a) limit db0 db'"
proof -
  from op obtain x db w db1 where l: "lock_tenant_and_validate_in_txn t None (me_now env) db0 = Inr (x, db)"
    and va: "validate_assignments a t None (Some ids) db = Inr ()"
    and m: "lock_manageable_user_in_txn a t i db = Inr w"
    and r: "replace_roles_in_txn t i ids db = Inr db1"
    and inc: "increment_user_versions_in_transaction env eids t [i] db1 = Inr db'"
    by (auto simp: user_roles_operation_def bind_result_eq_Inr)
  note lock = user_touch_lock [OF u l, of "{i}" "ax_is_super_admin a" limit]
  have t1: "user_touch t {i} (ax_is_super_admin a) limit db db1"
    by (rule user_touch_roles [OF user_touch_unique [OF conjunct1 [OF lock]] r]) (use assignments_not_super [OF va] in auto)
  have t2: "user_touch t {i} (ax_is_super_admin a) limit db1 db'"
    by (rule user_touch_versions [OF user_touch_unique [OF t1] inc]) simp
  from lock manageable [OF m] have "\<not> user_has_super_role_in_txn t i db0" by (auto simp: holder_iff)
  with user_touch_trans [OF user_touch_trans [OF conjunct1 [OF lock] t1] t2] show ?thesis
    by (auto simp: user_effect_def)
qed

text \<open>The limits of a tenant, zero when it has none.\<close>

definition user_limit :: "string \<Rightarrow> org_db \<Rightarrow> nat" where
  "user_limit t db = (case row_get tn_tenant_id t (org_tenants db) of Some x \<Rightarrow> quota_limit (tn_max_users x) | None \<Rightarrow> 0)"

definition role_limit :: "string \<Rightarrow> org_db \<Rightarrow> nat" where
  "role_limit t db = (case row_get tn_tenant_id t (org_tenants db) of Some x \<Rightarrow> quota_limit (tn_max_roles x) | None \<Rightarrow> 0)"

lemma user_quota_holds:
  "ensure_user_quota_in_txn t db = Inr () \<Longrightarrow> user_limit t db = 0 \<or> live_users t (org_users db) < user_limit t db"
  by (auto simp: ensure_user_quota_in_txn_def bind_result_eq_Inr lock_tenant_in_txn_def Let_def user_limit_def
      live_users_def split: option.splits if_splits)

lemma role_quota_holds:
  "ensure_role_quota_in_txn t db = Inr () \<Longrightarrow> role_limit t db = 0 \<or> live_roles t (org_roles db) < role_limit t db"
  by (auto simp: ensure_role_quota_in_txn_def bind_result_eq_Inr lock_tenant_in_txn_def Let_def role_limit_def
      live_roles_def split: option.splits if_splits)

lemma user_create_effect:
  assumes u: "unique_key us_id (org_users db0)"
    and op: "user_create_operation env a t nid h fid p ids db0 = Inr (v, db')"
  shows "user_effect t (ax_is_super_admin a) (user_limit t db0) db0 db'"
proof -
  from op obtain x db hh i us where l: "lock_tenant_and_validate_in_txn t None (me_now env) db0 = Inr (x, db)"
    and va: "validate_assignments a t (cu_dept_id p) (Some ids) db = Inr ()"
    and q: "ensure_user_quota_in_txn t db = Inr ()"
    and ins: "user_insert (new_user (me_clock env) t i hh p) (org_users db) = Inr us"
    and rest: "db' = db\<lparr>org_users := us\<rparr> \<or> replace_roles_in_txn t i ids (db\<lparr>org_users := us\<rparr>) = Inr db'"
    by (auto simp: user_create_operation_def bind_result_eq_Inr Let_def split: if_splits)
  define pr where "pr = ax_is_super_admin a"
  note lock = user_touch_lock [OF u l, of "{i}" pr "user_limit t db0"]
  note u1 = user_touch_unique [OF conjunct1 [OF lock]]
  have lim: "user_limit t db = user_limit t db0" and roles: "org_roles db = org_roles db0" and us0: "org_users db = org_users db0"
    using lock by (auto simp: user_limit_def)
  have t1: "user_touch t {i} pr (user_limit t db0) db (db\<lparr>org_users := us\<rparr>)"
    by (rule user_touch_insert [OF u1 ins]) (use user_quota_holds [OF q] lim in \<open>auto simp: new_user_def\<close>)
  note u2 = user_touch_unique [OF t1]
  have t2: "user_touch t {i} pr (user_limit t db0) (db\<lparr>org_users := us\<rparr>) db'"
    using rest
  proof
    assume "db' = db\<lparr>org_users := us\<rparr>"
    then show ?thesis using user_touch_refl [OF u2] by simp
  next
    assume r: "replace_roles_in_txn t i ids (db\<lparr>org_users := us\<rparr>) = Inr db'"
    show ?thesis
      by (rule user_touch_roles [OF u2 r]) (use assignments_not_super [OF va] in \<open>auto simp: pr_def\<close>)
  qed
  have "i \<notin> us_id ` set (org_users db0)" using ins us0 by (auto simp: user_insert_def new_user_def split: if_splits)
  with user_touch_trans [OF user_touch_trans [OF conjunct1 [OF lock] t1] t2] show ?thesis
    by (auto simp: user_effect_def pr_def)
qed

end
