(* ===== verification/Org_Effects.thy ===== *)
theory Org_Effects
  imports Org_Changes Departments
begin

text \<open>
  The effect of a command of the role, user and department services on the database of all tenants:
  every command, refused and failed ones included, is reduced to one relation that says what it keeps
  of its own tenant and that it leaves the others alone. A run is a sequence of commands.
\<close>

section \<open>The effect of a command\<close>

definition org_keys :: "org_db \<Rightarrow> bool" where
  "org_keys db \<longleftrightarrow> unique_key ro_id (org_roles db) \<and> unique_key us_id (org_users db) \<and> unique_key dp_id (org_depts db)"

definition limits_of :: "string \<Rightarrow> org_db \<Rightarrow> (int \<times> int) option" where
  "limits_of t db = map_option (\<lambda>x. (tn_max_users x, tn_max_roles x)) (row_get tn_tenant_id t (org_tenants db))"

text \<open>Everything the tables hold of a tenant.\<close>

record tenant_view =
  tv_tenant :: "tenant option"
  tv_leases :: "operation_lease list"
  tv_depts :: "dept list"
  tv_users :: "user list"
  tv_roles :: "role list"
  tv_role_depts :: "role_dept list"
  tv_user_roles :: "user_role list"
  tv_permissions :: "permission list"
  tv_role_permissions :: "role_permission list"

definition tenant_view_of :: "string \<Rightarrow> org_db \<Rightarrow> tenant_view" where
  "tenant_view_of t db =
     \<lparr>tv_tenant = row_get tn_tenant_id t (org_tenants db),
      tv_leases = filter (\<lambda>x. ol_tenant_id x = t) (org_leases db),
      tv_depts = filter (\<lambda>x. dp_tenant_id x = t) (org_depts db),
      tv_users = filter (\<lambda>x. us_tenant_id x = t) (org_users db),
      tv_roles = filter (\<lambda>x. ro_tenant_id x = t) (org_roles db),
      tv_role_depts = filter (\<lambda>x. rd_tenant_id x = t) (org_role_depts db),
      tv_user_roles = filter (\<lambda>x. ur_tenant_id x = t) (org_user_roles db),
      tv_permissions = filter (\<lambda>x. pm_tenant_id x = t) (org_permissions db),
      tv_role_permissions = filter (\<lambda>x. rp_tenant_id x = t) (org_role_permissions db)\<rparr>"

abbreviation holder :: "string \<Rightarrow> org_db \<Rightarrow> int \<Rightarrow> bool" where
  "holder t db i \<equiv> user_has_super_role_in_txn t i db"

definition org_effect :: "string \<Rightarrow> bool \<Rightarrow> org_db \<Rightarrow> org_db \<Rightarrow> bool" where
  "org_effect t priv db db' \<longleftrightarrow>
     org_keys db' \<and> (\<forall>t'. limits_of t' db' = limits_of t' db) \<and>
     (\<forall>t'. t' \<noteq> t \<longrightarrow> tenant_view_of t' db' = tenant_view_of t' db) \<and>
     role_change t (role_limit t db) (org_roles db) (org_roles db') \<and>
     (\<forall>u \<in> set (org_users db). us_tenant_id u = t \<and> holder t db (us_id u) \<longrightarrow> u \<in> set (org_users db')) \<and>
     (\<forall>x \<in> set (org_user_roles db). ur_tenant_id x = t \<and> holder t db (ur_user_id x) \<and>
        ur_user_id x \<in> us_id ` set (org_users db) \<longrightarrow> x \<in> set (org_user_roles db')) \<and>
     (priv \<or> (\<forall>i. holder t db' i \<longrightarrow> holder t db i)) \<and>
     within (user_limit t db) (live_users t (org_users db)) (live_users t (org_users db'))"

lemma filter_filter_eq:
  assumes "filter P xs = filter P ys" "\<And>x. Q x \<Longrightarrow> P x"
  shows "filter Q xs = filter Q ys"
proof -
  have "filter Q zs = filter Q (filter P zs)" for zs using assms(2) by (induction zs) auto
  then show ?thesis using assms(1) by metis
qed

text \<open>The end of a transaction only touches the counters of the tenant and the outbox.\<close>

definition completed :: "string \<Rightarrow> org_db \<Rightarrow> org_db \<Rightarrow> bool" where
  "completed t db db' \<longleftrightarrow>
     org_leases db' = org_leases db \<and> org_depts db' = org_depts db \<and> org_users db' = org_users db \<and>
     org_roles db' = org_roles db \<and> org_role_depts db' = org_role_depts db \<and> org_user_roles db' = org_user_roles db \<and>
     org_permissions db' = org_permissions db \<and> org_role_permissions db' = org_role_permissions db \<and>
     (\<forall>t'. limits_of t' db' = limits_of t' db) \<and>
     (\<forall>t'. t' \<noteq> t \<longrightarrow> row_get tn_tenant_id t' (org_tenants db') = row_get tn_tenant_id t' (org_tenants db))"

lemma completed_trans: "completed t a b \<Longrightarrow> completed t b c \<Longrightarrow> completed t a c"
  by (simp add: completed_def)

lemma completed_outbox: "completed t db (db\<lparr>org_outbox := ob\<rparr>)"
  by (simp add: completed_def limits_of_def)

lemma completed_put:
  assumes "row_get tn_tenant_id t (org_tenants db) = Some row" "tn_tenant_id row' = t"
    "tn_max_users row' = tn_max_users row" "tn_max_roles row' = tn_max_roles row"
  shows "completed t db (put_tenant row' db)"
  using assms by (auto simp: completed_def limits_of_def put_tenant_def row_get_row_put)

lemma complete_completed:
  assumes "complete_mutation env t op db = (r, db')"
  shows "db' = db \<or> (\<exists>v db1. op = Inr (v, db1) \<and> completed t db1 db')"
  using assms
proof (cases rule: complete_mutationE)
  case refused
  then show ?thesis by simp
next
  case (committed v db1 e db2 w db3)
  from committed(2) obtain dba ob where a: "increment_authorization_epoch_in_txn t (me_clock env) db1 = Inr (e, dba)"
    and b: "db2 = dba\<lparr>org_outbox := ob\<rparr>"
    using that [of db2 "org_outbox db2"]
    unfolding increment_tenant_epoch_in_transaction_def record_mirror_event_def
    by (auto simp: bind_result_eq_Inr split: if_splits)
  from epoch_advances [OF a] row_get_SomeD have "completed t db1 dba" by (fastforce intro: completed_put)
  then have "completed t db1 db2" unfolding b by (rule completed_trans [OF _ completed_outbox])
  moreover from version_advances [OF committed(3)] row_get_SomeD have "completed t db2 db3" by (fastforce intro: completed_put)
  moreover have "completed t db3 db'" using commit_audited_Inr [OF committed(4)] completed_outbox by metis
  ultimately have "completed t db1 db'" using completed_trans by blast
  then show ?thesis using committed(1) by blast
qed

lemma commit_completed:
  assumes "commit_user_change env sy op db = (r, db')"
  shows "db' = db \<or> (\<exists>v db1. op = Inr (v, db1) \<and> completed t db1 db')"
proof (cases "bind_result op (\<lambda>(v, db1). bind_result (commit_audited env db1) (\<lambda>db2. Inr (v, db2)))")
  case (Inl e)
  then show ?thesis using assms by (simp add: commit_user_change_def)
next
  case (Inr b)
  then obtain v db1 db2 where "op = Inr (v, db1)" "commit_audited env db1 = Inr db2" "b = (v, db2)"
    by (auto simp: bind_result_eq_Inr)
  moreover from this(2) have "completed t db1 db2" using commit_audited_Inr completed_outbox by metis
  moreover have "db' = db2" using assms Inr calculation(3) by (auto simp: commit_user_change_def split: if_splits sum.splits)
  ultimately show ?thesis by blast
qed

lemma effect_completed:
  assumes "org_effect t priv db db1" "completed t db1 db'"
  shows "org_effect t priv db db'"
proof -
  from assms(2) have e: "org_leases db' = org_leases db1" "org_depts db' = org_depts db1" "org_users db' = org_users db1"
    "org_roles db' = org_roles db1" "org_role_depts db' = org_role_depts db1" "org_user_roles db' = org_user_roles db1"
    "org_permissions db' = org_permissions db1" "org_role_permissions db' = org_role_permissions db1"
    "\<forall>t'. limits_of t' db' = limits_of t' db1"
    "\<forall>t'. t' \<noteq> t \<longrightarrow> row_get tn_tenant_id t' (org_tenants db') = row_get tn_tenant_id t' (org_tenants db1)"
    by (simp_all add: completed_def)
  have "tenant_view_of t' db' = tenant_view_of t' db1" if "t' \<noteq> t" for t'
    using e that by (simp add: tenant_view_of_def)
  moreover have "holder t db' i \<longleftrightarrow> holder t db1 i" for i using e by (simp add: holder_iff)
  ultimately show ?thesis using assms(1) e unfolding org_effect_def org_keys_def by simp
qed

section \<open>Changes of the structure\<close>

definition others_same :: "string \<Rightarrow> ('r \<Rightarrow> string) \<Rightarrow> 'r list \<Rightarrow> 'r list \<Rightarrow> bool" where
  "others_same t k xs ys \<longleftrightarrow> (\<forall>t'. t' \<noteq> t \<longrightarrow> filter (\<lambda>x. k x = t') ys = filter (\<lambda>x. k x = t') xs)"

lemma others_same_refl: "others_same t k xs xs"
  by (simp add: others_same_def)

lemma others_same_trans: "others_same t k xs ys \<Longrightarrow> others_same t k ys zs \<Longrightarrow> others_same t k xs zs"
  by (simp add: others_same_def)

definition structure_change :: "string \<Rightarrow> org_db \<Rightarrow> org_db \<Rightarrow> bool" where
  "structure_change t db db' \<longleftrightarrow>
     org_tenants db' = org_tenants db \<and> org_users db' = org_users db \<and> org_user_roles db' = org_user_roles db \<and>
     org_permissions db' = org_permissions db \<and>
     role_change t (role_limit t db) (org_roles db) (org_roles db') \<and> unique_key dp_id (org_depts db') \<and>
     others_same t ol_tenant_id (org_leases db) (org_leases db') \<and>
     others_same t dp_tenant_id (org_depts db) (org_depts db') \<and>
     others_same t rd_tenant_id (org_role_depts db) (org_role_depts db') \<and>
     others_same t rp_tenant_id (org_role_permissions db) (org_role_permissions db')"

lemma role_change_super:
  assumes "role_change t limit rs rs'" "super_role t rs' i"
  shows "super_role t rs i"
  using assms by (fastforce simp: role_change_def super_role_def)

lemma structure_effect:
  assumes k: "org_keys db" and c: "structure_change t db db'"
  shows "org_effect t priv db db'"
proof -
  from c have s: "org_tenants db' = org_tenants db" "org_users db' = org_users db" "org_user_roles db' = org_user_roles db"
    "org_permissions db' = org_permissions db" "role_change t (role_limit t db) (org_roles db) (org_roles db')"
    "unique_key dp_id (org_depts db')" by (simp_all add: structure_change_def)
  have "org_keys db'" using k s by (simp add: org_keys_def role_change_def)
  moreover have "tenant_view_of t' db' = tenant_view_of t' db" if "t' \<noteq> t" for t'
    using c that by (simp add: tenant_view_of_def structure_change_def others_same_def role_change_def)
  moreover have "holder t db i" if "holder t db' i" for i
    using that role_change_super [OF s(5)] s by (auto simp: holder_iff)
  ultimately show ?thesis using s by (simp add: org_effect_def limits_of_def within_le)
qed

text \<open>The lock only removes the expired lease of its tenant.\<close>

lemma lock_structure:
  assumes "lock_tenant_and_validate_in_txn t ow n db = Inr (x, db1)"
  obtains ls where "db1 = db\<lparr>org_leases := ls\<rparr>" "others_same t ol_tenant_id (org_leases db) ls"
proof -
  have "others_same t ol_tenant_id xs (filter (\<lambda>l. ol_tenant_id l \<noteq> t) xs)" for xs
    unfolding others_same_def by (auto intro!: filter_cong)
  then show thesis
    using assms that [of "org_leases db"] that [of "filter (\<lambda>l. ol_tenant_id l \<noteq> t) (org_leases db)"] others_same_refl
    by (auto simp: lock_tenant_and_validate_in_txn_def bind_result_eq_Inr delete_lease_def split: option.splits if_splits)
qed

lemma structure_after_lock:
  assumes "others_same t ol_tenant_id (org_leases db) ls" "structure_change t (db\<lparr>org_leases := ls\<rparr>) db'"
  shows "structure_change t db db'"
  using assms by (auto simp: structure_change_def role_limit_def intro: others_same_trans)

lemma role_command_effect:
  assumes k: "org_keys db" and op: "\<And>db v db'. org_keys db \<Longrightarrow> operation db = Inr (v, db') \<Longrightarrow> structure_change t db db'"
    and r: "role_command env t operation db = (r, db')"
  shows "db' = db \<or> org_effect t priv db db'"
proof -
  from complete_completed [OF r [unfolded role_command_def]] show ?thesis
  proof (elim disjE exE conjE)
    assume "db' = db" then show ?thesis by simp
  next
    fix v db2
    assume o: "bind_result (lock_tenant_and_validate_in_txn t None (me_now env) db) (\<lambda>(_, db1). operation db1) = Inr (v, db2)"
      and c: "completed t db2 db'"
    from o obtain x db1 where l: "lock_tenant_and_validate_in_txn t None (me_now env) db = Inr (x, db1)"
      and o1: "operation db1 = Inr (v, db2)" by (auto simp: bind_result_eq_Inr)
    obtain ls where ls: "db1 = db\<lparr>org_leases := ls\<rparr>" "others_same t ol_tenant_id (org_leases db) ls" using lock_structure [OF l] .
    have "org_keys db1" using k ls by (simp add: org_keys_def)
    from structure_after_lock [OF ls(2) op [OF this o1, unfolded ls(1)]] structure_effect [OF k] effect_completed [OF _ c]
    show ?thesis by blast
  qed
qed

lemma structure_roles:
  assumes "org_keys db" "role_change t (role_limit t db) (org_roles db) rs"
  shows "structure_change t db (db\<lparr>org_roles := rs\<rparr>)"
  using assms by (simp add: structure_change_def others_same_refl org_keys_def)

lemma others_replaced:
  assumes "\<And>x. x \<in> set new \<Longrightarrow> k x = t" "\<And>x. \<not> P x \<Longrightarrow> k x = t"
  shows "others_same t k xs (new @ filter P xs)"
proof -
  have "filter (\<lambda>x. k x = t') new = []" if "t' \<noteq> t" for t' using assms(1) that by (auto simp: filter_empty_conv)
  moreover have "filter (\<lambda>x. k x = t') (filter P xs) = filter (\<lambda>x. k x = t') xs" if "t' \<noteq> t" for t'
    using assms(2) that by (auto intro!: filter_cong)
  ultimately show ?thesis by (simp add: others_same_def del: filter_filter)
qed

lemma role_create_structure:
  assumes k: "org_keys db" and s: "ro_is_super r = 0" and op: "role_create_operation t r db = Inr (v, db')"
  shows "structure_change t db db'"
proof -
  from op obtain rs where q: "ensure_role_quota_in_txn t db = Inr ()" and i: "role_insert t r (org_roles db) = Inr (v, rs)"
    and db': "db' = db\<lparr>org_roles := rs\<rparr>" by (auto simp: role_create_operation_def bind_result_eq_Inr split: if_splits)
  show ?thesis unfolding db'
    by (rule structure_roles [OF k role_change_insert [OF _ i s role_quota_holds [OF q]]]) (use k in \<open>simp add: org_keys_def\<close>)
qed

lemma role_update_structure:
  assumes k: "org_keys db" and op: "role_update_operation t clk i nm s st sc db = Inr (v, db')"
  shows "structure_change t db db'"
  using role_update_change [OF _ op, of "role_limit t db"] structure_roles [OF k] k by (auto simp: org_keys_def)

lemma role_delete_structure:
  assumes k: "org_keys db" and op: "role_delete_operation t clk ids db = Inr (v, db')"
  shows "structure_change t db db'"
  using role_delete_change [OF _ op, of "role_limit t db"] structure_roles [OF k] k by (auto simp: org_keys_def)

lemma replace_scope_structure:
  assumes k: "org_keys db" and op: "replace_data_scope_operation t clk i sc ds db = Inr (v, db')"
  shows "structure_change t db db'"
proof -
  from k have u: "unique_key ro_id (org_roles db)" by (simp add: org_keys_def)
  have "others_same t rd_tenant_id (org_role_depts db)
      (map (\<lambda>d. \<lparr>rd_tenant_id = t, rd_role_id = i, rd_dept_id = d\<rparr>) ns @
         filter (\<lambda>x. \<not> (rd_role_id x = i \<and> rd_tenant_id x = t)) (org_role_depts db))" for ns
    by (rule others_replaced) auto
  with role_scope_change [OF u op, of "role_limit t db"] k show ?thesis
    by (auto simp: structure_change_def others_same_refl org_keys_def)
qed

lemma grant_structure:
  assumes k: "org_keys db" and op: "assign_permissions_operation de pr t i ps db = Inr (v, db')"
  shows "structure_change t db db'"
proof -
  have db': "db' = db\<lparr>org_role_permissions := assign_perms t i ps (org_role_permissions db)\<rparr>"
    using op by (auto simp: assign_permissions_operation_def Let_def bind_result_eq_Inr split: if_splits option.splits)
  have "others_same t rp_tenant_id (org_role_permissions db) (assign_perms t i ps (org_role_permissions db))"
    unfolding assign_perms_def by (rule others_replaced) auto
  then show ?thesis using k by (simp add: db' structure_change_def others_same_refl org_keys_def role_change_refl)
qed

section \<open>Departments\<close>

definition only_tenant :: "string \<Rightarrow> int \<Rightarrow> dept list \<Rightarrow> bool" where
  "only_tenant t i ds \<longleftrightarrow> (\<forall>x \<in> set ds. dp_id x = i \<longrightarrow> dp_tenant_id x = t)"

definition dept_change :: "string \<Rightarrow> dept list \<Rightarrow> dept list \<Rightarrow> bool" where
  "dept_change t ds ds' \<longleftrightarrow>
     unique_key dp_id ds' \<and> others_same t dp_tenant_id ds ds' \<and> (\<forall>i. only_tenant t i ds \<longrightarrow> only_tenant t i ds')"

lemma dept_change_refl: "unique_key dp_id ds \<Longrightarrow> dept_change t ds ds"
  by (simp add: dept_change_def others_same_refl)

lemma dept_change_trans: "dept_change t a b \<Longrightarrow> dept_change t b c \<Longrightarrow> dept_change t a c"
  by (auto simp: dept_change_def intro: others_same_trans)

lemma dept_change_put:
  assumes u: "unique_key dp_id ds" and o: "only_tenant t (dp_id d) ds"
  shows "dept_change t ds (snd (dept_update t clk d ds))"
proof -
  obtain d' where d': "snd (dept_update t clk d ds) = row_put dp_id d' ds" "dp_id d' = dp_id d" "dp_tenant_id d' = t"
    by (auto simp: dept_update_def Let_def)
  have "filter (\<lambda>x. dp_tenant_id x = t') (row_put dp_id d' xs) = filter (\<lambda>x. dp_tenant_id x = t') xs"
    if "t' \<noteq> t" "set xs \<subseteq> set ds" for t' xs
    using that o d' by (induction xs) (auto simp: row_put_def update_where_def only_tenant_def)
  moreover have "only_tenant t i (row_put dp_id d' ds)" if "only_tenant t i ds" for i
    using that d'(3) by (auto simp: only_tenant_def dest!: in_row_put)
  ultimately show ?thesis using u by (simp add: dept_change_def others_same_def d'(1))
qed

lemma rewrite_children_change:
  "rewrite_children t clk op np cs ds = Inr ds' \<Longrightarrow> unique_key dp_id ds \<Longrightarrow> (\<forall>c \<in> set cs. only_tenant t (dp_id c) ds) \<Longrightarrow>
     dept_change t ds ds'"
proof (induction cs arbitrary: ds)
  case Nil
  then show ?case by (simp add: dept_change_refl)
next
  case (Cons c cs)
  from Cons.prems(1) obtain a where
    r: "rewrite_children t clk op np cs (snd (dept_update t clk (c\<lparr>dp_ancestors := a\<rparr>) ds)) = Inr ds'"
    by (auto simp: bind_result_eq_Inr)
  have c: "dept_change t ds (snd (dept_update t clk (c\<lparr>dp_ancestors := a\<rparr>) ds))"
    by (rule dept_change_put) (use Cons.prems in auto)
  have "dept_change t (snd (dept_update t clk (c\<lparr>dp_ancestors := a\<rparr>) ds)) ds'"
    by (rule Cons.IH [OF r]) (use c Cons.prems(3) in \<open>auto simp: dept_change_def\<close>)
  with c show ?case by (rule dept_change_trans)
qed

lemma only_tenant_row:
  assumes "unique_key dp_id ds" "d \<in> set ds" "dp_tenant_id d = t"
  shows "only_tenant t (dp_id d) ds"
  using assms unique_keyD [OF assms(1) _ assms(2)] by (auto simp: only_tenant_def)

lemma dept_update_operation_change:
  assumes u: "unique_key dp_id ds" and op: "dept_update_operation env t c ds = Inr (d, ds')"
  shows "dept_change t ds ds'"
proof -
  obtain cur where cur: "dept_find_by_id t (ud_id c) ds = Some cur"
    using op by (auto simp: dept_update_operation_def split: option.splits)
  then have row: "row_get dp_id (ud_id c) ds = Some cur" "dept_live t cur"
    by (auto simp: dept_find_by_id_def split: option.splits if_splits)
  have only: "only_tenant t (dp_id cur) ds"
    using only_tenant_row [OF u, of cur t] row_get_SomeD [OF row(1)] row(2) by (simp add: dept_live_def)
  have put: "dept_change t ds (snd (dept_update t clk x ds))" if "dp_id x = dp_id cur" for x clk
    by (rule dept_change_put [OF u]) (use only that in simp)
  show ?thesis
  proof (cases "dp_parent_id cur = ud_parent_id c")
    case True
    then have "ds' = snd (dept_update t (me_clock env) (cur\<lparr>dp_ancestors := dp_ancestors cur, dp_name := ud_name c,
        dp_parent_id := ud_parent_id c, dp_sort := ud_sort c, dp_status := ud_status c\<rparr>) ds)"
      using op by (simp add: dept_update_operation_def cur Let_def prod_eq_iff)
    then show ?thesis using put by simp
  next
    case False
    define old where "old = dp_ancestors cur @ '','' @ show_int (ud_id c)"
    from op False obtain anc np where
      r: "rewrite_children t (me_clock env) old np (find_descendants_for_update t old ds)
            (snd (dept_update t (me_clock env) (cur\<lparr>dp_ancestors := anc, dp_name := ud_name c,
               dp_parent_id := ud_parent_id c, dp_sort := ud_sort c, dp_status := ud_status c\<rparr>) ds)) = Inr ds'"
      by (auto simp: dept_update_operation_def cur Let_def bind_result_eq_Inr old_def split: if_splits)
    define x where "x = cur\<lparr>dp_ancestors := anc, dp_name := ud_name c,
               dp_parent_id := ud_parent_id c, dp_sort := ud_sort c, dp_status := ud_status c\<rparr>"
    note r = r [folded x_def]
    have x: "dp_id x = dp_id cur" by (simp add: x_def)
    note p = put [OF x]
    have "dept_change t (snd (dept_update t (me_clock env) x ds)) ds'"
    proof (rule rewrite_children_change [OF r])
      show "unique_key dp_id (snd (dept_update t (me_clock env) x ds))" using p by (simp add: dept_change_def)
      have "only_tenant t (dp_id y) ds" if "y \<in> set (find_descendants_for_update t old ds)" for y
        using that only_tenant_row [OF u] by (auto simp: find_descendants_for_update_def dept_live_def)
      then show "\<forall>y \<in> set (find_descendants_for_update t old ds). only_tenant t (dp_id y) (snd (dept_update t (me_clock env) x ds))"
        using p by (simp add: dept_change_def)
    qed
    with p show ?thesis by (rule dept_change_trans)
  qed
qed

lemma dept_insert_change:
  assumes u: "unique_key dp_id ds" and i: "dept_insert t fid clk d ds = Inr (d', ds')"
  shows "dept_change t ds ds'"
proof -
  have "ds' = d' # ds" "dp_tenant_id d' = t" "dp_id d' \<notin> dp_id ` set ds"
    using i by (auto simp: dept_insert_def bind_result_eq_Inr Let_def split: if_splits)
  with u show ?thesis
    by (auto simp: dept_change_def others_same_def only_tenant_def unique_key_Cons row_get_None_iff)
qed

lemma dept_delete_change:
  assumes u: "unique_key dp_id ds" and r: "dept_delete_row t clk i ds = Inr ds'"
  shows "dept_change t ds ds'"
proof -
  define P where "P = (\<lambda>d. dp_id d = i \<and> dept_live t d)"
  have ds': "ds' = update_where P (\<lambda>d. d\<lparr>dp_del_flag := dp_DEL_FLAG_DELETED, dp_updated_at := clk\<rparr>) ds"
    using r by (auto simp: dept_delete_row_def Let_def P_def split: if_splits)
  have "unique_key dp_id ds'" using u unfolding ds' unique_key_def by (subst map_update_where) auto
  moreover have "others_same t dp_tenant_id ds ds'"
    unfolding others_same_def ds' by (auto intro!: filter_update_where_other simp: P_def dept_live_def)
  moreover have "only_tenant t j ds'" if "only_tenant t j ds" for j
    using that by (auto simp: only_tenant_def ds' set_update_where split: if_splits)
  ultimately show ?thesis by (simp add: dept_change_def)
qed

lemma structure_depts:
  assumes "org_keys db" "dept_change t (org_depts db) ds" "others_same t ol_tenant_id (org_leases db0) (org_leases db)"
    "db = db0\<lparr>org_leases := ls\<rparr>"
  shows "structure_change t db0 (db\<lparr>org_depts := ds\<rparr>)"
  using assms by (auto simp: structure_change_def others_same_refl org_keys_def role_change_refl dept_change_def)

text \<open>Every department command locks, changes the departments and completes.\<close>

lemma dept_command_effect:
  assumes k: "org_keys db"
    and op: "\<And>db1 v ds. org_keys db1 \<Longrightarrow> operation db1 = Inr (v, ds) \<Longrightarrow> dept_change t (org_depts db1) ds"
    and r: "complete_mutation env t (bind_result (lock_tenant_and_validate_in_txn t None n db) (\<lambda>(_, db1).
              bind_result (operation db1) (\<lambda>(v, ds). Inr (v, db1\<lparr>org_depts := ds\<rparr>)))) db = (r, db')"
  shows "db' = db \<or> org_effect t priv db db'"
  using complete_completed [OF r]
proof (elim disjE exE conjE)
  assume "db' = db" then show ?thesis by simp
next
  fix v db2
  assume o: "bind_result (lock_tenant_and_validate_in_txn t None n db) (\<lambda>(_, db1).
      bind_result (operation db1) (\<lambda>(v, ds). Inr (v, db1\<lparr>org_depts := ds\<rparr>))) = Inr (v, db2)"
    and c: "completed t db2 db'"
  from o obtain x db1 ds where l: "lock_tenant_and_validate_in_txn t None n db = Inr (x, db1)"
    and o1: "operation db1 = Inr (v, ds)" and db2: "db2 = db1\<lparr>org_depts := ds\<rparr>" by (auto simp: bind_result_eq_Inr)
  obtain ls where ls: "db1 = db\<lparr>org_leases := ls\<rparr>" "others_same t ol_tenant_id (org_leases db) ls" using lock_structure [OF l] .
  have k1: "org_keys db1" using k ls by (simp add: org_keys_def)
  have "others_same t ol_tenant_id (org_leases db) (org_leases db1)" using ls by simp
  from structure_depts [OF k1 op [OF k1 o1] this ls(1)] structure_effect [OF k] effect_completed [OF _ c]
  show ?thesis unfolding db2 by blast
qed

lemma dept_create_effect:
  assumes k: "org_keys db" and t: "validated_tenant_id ctx actor = Inr t"
    and r: "dept_create env ctx actor nid fid c db = (r, db')"
  shows "db' = db \<or> org_effect t priv db db'"
proof (rule dept_command_effect [OF k, where n = "me_now env" and env = env and r = r])
  let ?op = "\<lambda>db1. bind_result (parent_ancestors t (cd_parent_id c) (org_depts db1)) (\<lambda>ancestors.
     bind_result nid (\<lambda>i. dept_insert t fid (me_clock env)
                  \<lparr>dp_id = i, dp_tenant_id = t, dp_name = cd_name c, dp_parent_id = cd_parent_id c,
                   dp_ancestors = ancestors, dp_sort = cd_sort c, dp_status = dp_STATUS_NORMAL,
                   dp_remark = None, dp_del_flag = dp_DEL_FLAG_NORMAL, dp_created_at = 0,
                   dp_updated_at = 0\<rparr> (org_depts db1)))"
  have assoc: "bind_result (bind_result a f) g = bind_result a (\<lambda>x. bind_result (f x) g)" for a f g
    by (cases a) simp_all
  show "complete_mutation env t (bind_result (lock_tenant_and_validate_in_txn t None (me_now env) db) (\<lambda>(_, db1).
              bind_result (?op db1) (\<lambda>(v, ds). Inr (v, db1\<lparr>org_depts := ds\<rparr>)))) db = (r, db')"
    using r by (simp add: dept_create_def t assoc)
  show "dept_change t (org_depts db1) ds" if "org_keys db1" "?op db1 = Inr (v, ds)" for db1 v ds
    using that by (auto simp: bind_result_eq_Inr org_keys_def intro: dept_insert_change)
qed

lemma dept_update_effect:
  assumes k: "org_keys db" and t: "validated_tenant_id ctx actor = Inr t"
    and r: "dept_update_command env ctx actor c db = (r, db')"
  shows "db' = db \<or> org_effect t priv db db'"
proof (cases "ud_parent_id c = Some (ud_id c)")
  case True
  then show ?thesis using r by (simp add: dept_update_command_def t)
next
  case False
  show ?thesis
    by (rule dept_command_effect [OF k, where n = "me_now env" and env = env and r = r
          and operation = "\<lambda>db1. dept_update_operation env t c (org_depts db1)"])
      (use r t False in \<open>auto simp: dept_update_command_def org_keys_def intro: dept_update_operation_change\<close>)
qed

lemma dept_delete_effect:
  assumes k: "org_keys db" and t: "validated_tenant_id ctx actor = Inr t"
    and r: "dept_delete env ctx actor i db = (r, db')"
  shows "db' = db \<or> org_effect t priv db db'"
proof (rule dept_command_effect [OF k, where n = "me_now env" and env = env and r = r])
  let ?op = "\<lambda>db1. if dept_find_by_id t i (org_depts db1) = None then Inl (NotFound msg_dept_missing)
               else if has_child_for_update t i (org_depts db1) then Inl (Validation msg_dept_has_child)
               else if has_reference_for_update t i db1 then Inl (Conflict msg_dept_referenced)
               else bind_result (dept_delete_row t (me_clock env) i (org_depts db1)) (\<lambda>ds. Inr ((), ds))"
  have step: "bind_result (?op db1) (\<lambda>(v, ds). Inr (v, db1\<lparr>org_depts := ds\<rparr>)) =
      (if dept_find_by_id t i (org_depts db1) = None then Inl (NotFound msg_dept_missing)
               else if has_child_for_update t i (org_depts db1) then Inl (Validation msg_dept_has_child)
               else if has_reference_for_update t i db1 then Inl (Conflict msg_dept_referenced)
               else bind_result (dept_delete_row t (me_clock env) i (org_depts db1))
                 (\<lambda>ds. Inr ((), db1\<lparr>org_depts := ds\<rparr>)))" for db1
    by (cases "dept_delete_row t (me_clock env) i (org_depts db1)") simp_all
  show "complete_mutation env t (bind_result (lock_tenant_and_validate_in_txn t None (me_now env) db) (\<lambda>(_, db1).
              bind_result (?op db1) (\<lambda>(v, ds). Inr (v, db1\<lparr>org_depts := ds\<rparr>)))) db = (r, db')"
    unfolding step using r by (simp add: dept_delete_def t)
  show "dept_change t (org_depts db1) ds" if "org_keys db1" "?op db1 = Inr (v, ds)" for db1 v ds
    using that by (auto simp: bind_result_eq_Inr org_keys_def intro: dept_delete_change split: if_splits)
qed

section \<open>Users\<close>

lemma user_structure_effect:
  assumes k: "org_keys db" and c: "user_effect t priv (user_limit t db) db db'"
  shows "org_effect t priv db db'"
proof -
  obtain M where M: "user_touch t M priv (user_limit t db) db db'"
    "\<forall>i \<in> M. i \<in> us_id ` set (org_users db) \<longrightarrow> \<not> holder t db i" using c by (auto simp: user_effect_def)
  obtain us ur ls ob where d: "db' = db\<lparr>org_users := us, org_user_roles := ur, org_leases := ls, org_outbox := ob\<rparr>"
      and uq: "unique_key us_id us"
      and fu: "filter (\<lambda>u. \<not> touches t M u) us = filter (\<lambda>u. \<not> touches t M u) (org_users db)"
      and fr: "filter (\<lambda>x. \<not> assigns t M x) ur = filter (\<lambda>x. \<not> assigns t M x) (org_user_roles db)"
      and fl: "filter (\<lambda>l. ol_tenant_id l \<noteq> t) ls = filter (\<lambda>l. ol_tenant_id l \<noteq> t) (org_leases db)"
      and sp: "priv \<or> (\<forall>x \<in> set ur. x \<in> set (org_user_roles db) \<or> \<not> super_role t (org_roles db) (ur_role_id x))"
      and w: "within (user_limit t db) (live_users t (org_users db)) (live_users t us)"
    using M(1) unfolding user_touch_def by blast
  have keys: "org_keys db'" using k uq by (simp add: org_keys_def d)
  have view: "tenant_view_of t' db' = tenant_view_of t' db" if "t' \<noteq> t" for t'
    using that filter_filter_eq [OF fu, of "\<lambda>x. us_tenant_id x = t'"] filter_filter_eq [OF fr, of "\<lambda>x. ur_tenant_id x = t'"]
      filter_filter_eq [OF fl, of "\<lambda>x. ol_tenant_id x = t'"]
    by (simp add: tenant_view_of_def d touches_def assigns_def)
  have users: "u \<in> set us" if "u \<in> set (org_users db)" "us_tenant_id u = t" "holder t db (us_id u)" for u
    using that M(2) arg_cong [OF fu, of set] by (auto simp: touches_def)
  have assigned: "x \<in> set ur"
    if "x \<in> set (org_user_roles db)" "ur_tenant_id x = t" "holder t db (ur_user_id x)" "ur_user_id x \<in> us_id ` set (org_users db)" for x
  proof -
    have "\<not> assigns t M x" using that M(2) by (auto simp: assigns_def)
    then show ?thesis using that(1) arg_cong [OF fr, of set] by auto
  qed
  have esc: "holder t db i" if "\<not> priv" "holder t db' i" for i
    using that sp by (auto simp: holder_iff d)
  have "role_change t (role_limit t db) (org_roles db) (org_roles db')"
    using k by (simp add: d org_keys_def role_change_refl)
  then show ?thesis
    using keys view users assigned esc w unfolding org_effect_def by (auto simp: d limits_of_def)
qed

lemma user_command_effect:
  assumes k: "org_keys db"
    and op: "\<And>v db'. operation = Inr (v, db') \<Longrightarrow> user_effect t priv (user_limit t db) db db'"
    and r: "commit_user_change env sy operation db = (r, db')"
  shows "db' = db \<or> org_effect t priv db db'"
  using commit_completed [OF r, of t] user_structure_effect [OF k op] effect_completed by blast

section \<open>Commands and runs\<close>

datatype org_command =
    CmdRoleCreate "int app_result" string string int "string option"
  | CmdRoleUpdate int string int string "string option"
  | CmdRoleDelete "int list"
  | CmdRoleGrant ProductDeployment "TenantProductSnapshot option app_result" int "int list"
  | CmdRoleScope int string "int list"
  | CmdUserCreate "int app_result" "string app_result" "int app_result" CreateUserParams org_db
  | CmdUserUpdate "nat \<Rightarrow> int app_result" UpdateUserParams org_db
  | CmdUserStatus "nat \<Rightarrow> int app_result" int string
  | CmdUserDelete "nat \<Rightarrow> int app_result" "int list"
  | CmdUserRoles "nat \<Rightarrow> int app_result" int "int list" org_db
  | CmdDeptCreate "int app_result" "int app_result" CreateDeptCommand
  | CmdDeptUpdate UpdateDeptCommand
  | CmdDeptDelete int

text \<open>One request: what surrounds it, the tenant of its context, its actor and the command.\<close>

record org_call =
  oc_env :: mutation_env
  oc_context :: "string option"
  oc_actor :: ActorContext
  oc_command :: org_command

definition run_call :: "org_call \<Rightarrow> org_db \<Rightarrow> org_db" where
  "run_call c db =
     (let env = oc_env c; ctx = oc_context c; a = oc_actor c; t = ax_tenant_id a
      in case oc_command c of
           CmdRoleCreate nid nm code s sc \<Rightarrow> snd (role_create env ctx t nid nm code s sc db)
         | CmdRoleUpdate i nm s st sc \<Rightarrow> snd (role_update env ctx t i nm s st sc db)
         | CmdRoleDelete ids \<Rightarrow> snd (role_delete_many env ctx t ids db)
         | CmdRoleGrant de pr i ps \<Rightarrow> snd (assign_permissions env de pr ctx t i ps db)
         | CmdRoleScope i sc ds \<Rightarrow> snd (replace_data_scope env ctx t i sc ds db)
         | CmdUserCreate nid h fid p earlier \<Rightarrow> snd (user_create env ctx a nid h fid p earlier db)
         | CmdUserUpdate eids p earlier \<Rightarrow> snd (user_update env eids ctx a p earlier db)
         | CmdUserStatus eids i st \<Rightarrow> snd (user_update_status_command env eids ctx a i st db)
         | CmdUserDelete eids ids \<Rightarrow> snd (user_delete_many env eids ctx a ids db)
         | CmdUserRoles eids i ids earlier \<Rightarrow> snd (user_replace_roles env eids ctx a i ids earlier db)
         | CmdDeptCreate nid fid p \<Rightarrow> snd (dept_create env ctx t nid fid p db)
         | CmdDeptUpdate p \<Rightarrow> snd (dept_update_command env ctx t p db)
         | CmdDeptDelete i \<Rightarrow> snd (dept_delete env ctx t i db))"

definition run_calls :: "org_call list \<Rightarrow> org_db \<Rightarrow> org_db" where
  "run_calls cs db = fold run_call cs db"

lemma validated_self: "validated_tenant_id ctx a = Inr t \<Longrightarrow> t = a"
  by (simp add: validated_tenant_id_Inr)

lemma role_call_effect:
  assumes k: "org_keys db"
    and r: "r = (case x of Inl e \<Rightarrow> (Inl e, db) | Inr y \<Rightarrow> role_command env (tn y) (operation y) db)"
    and op: "\<And>y db v db'. x = Inr y \<Longrightarrow> org_keys db \<Longrightarrow> operation y db = Inr (v, db') \<Longrightarrow> structure_change (tn y) db db'"
    and t: "\<And>y. x = Inr y \<Longrightarrow> tn y = t"
  shows "snd r = db \<or> org_effect t priv db (snd r)"
proof (cases x)
  case (Inl e)
  then show ?thesis using r by simp
next
  case (Inr y)
  then have "role_command env t (operation y) db = (fst r, snd r)" using r t by simp
  from role_command_effect [OF k _ this] op [OF Inr] t [OF Inr] show ?thesis by blast
qed

lemma user_call_effect:
  assumes k: "org_keys db"
    and r: "r = (case x of Inl e \<Rightarrow> (Inl e, db) | Inr y \<Rightarrow> commit_user_change env sy (operation y) db)"
    and op: "\<And>y v db'. x = Inr y \<Longrightarrow> operation y = Inr (v, db') \<Longrightarrow> user_effect y priv (user_limit y db) db db'"
    and t: "\<And>y. x = Inr y \<Longrightarrow> y = t"
  shows "snd r = db \<or> org_effect t priv db (snd r)"
proof (cases x)
  case (Inl e)
  then show ?thesis using r by simp
next
  case (Inr y)
  then have c: "commit_user_change env sy (operation t) db = (fst r, snd r)" using r t by simp
  show ?thesis by (rule user_command_effect [OF k _ c]) (use op t Inr in blast)
qed

lemma role_create_effect:
  assumes k: "org_keys db"
  shows "snd (role_create env ctx t nid nm code s sc db) = db \<or>
    org_effect t priv db (snd (role_create env ctx t nid nm code s sc db))"
proof (rule role_call_effect [OF k, where tn = fst and env = env])
  show "role_create env ctx t nid nm code s sc db =
    (case bind_result (validated_tenant_id ctx t) (\<lambda>t.
             let scope = (case sc of Some s \<Rightarrow> s | None \<Rightarrow> ''1'')
             in bind_result (validate_data_scope scope) (\<lambda>_. bind_result nid (\<lambda>i. Inr (t, scope, i)))) of
        Inl e \<Rightarrow> (Inl e, db)
      | Inr y \<Rightarrow>
          role_command env (fst y) (role_create_operation (fst y)
            \<lparr>ro_id = snd (snd y), ro_tenant_id = fst y, ro_name = nm, ro_code = code, ro_is_super = 0, ro_data_scope = fst (snd y),
             ro_status = ''1'', ro_sort = s, ro_remark = None, ro_del_flag = ro_DEL_FLAG_NORMAL,
             ro_created_at = me_clock env, ro_updated_at = me_clock env\<rparr>) db)"
    by (simp add: role_create_def split: sum.split prod.split)
qed (auto simp: bind_result_eq_Inr Let_def dest: validated_self,
    rule role_create_structure [rotated 2], assumption, assumption, simp)

lemma role_update_effect:
  assumes k: "org_keys db"
  shows "snd (role_update env ctx t i nm s st sc db) = db \<or> org_effect t priv db (snd (role_update env ctx t i nm s st sc db))"
  by (rule role_call_effect [OF k role_update_def])
    (auto simp: bind_result_eq_Inr dest: validated_self intro: role_update_structure)

lemma role_delete_effect:
  assumes k: "org_keys db"
  shows "snd (role_delete_many env ctx t ids db) = db \<or> org_effect t priv db (snd (role_delete_many env ctx t ids db))"
  by (rule role_call_effect [OF k role_delete_many_def])
    (auto simp: bind_result_eq_Inr dest: validated_self intro: role_delete_structure split: if_splits)

lemma grant_effect:
  assumes k: "org_keys db"
  shows "snd (assign_permissions env de pr ctx t i ps db) = db \<or>
    org_effect t priv db (snd (assign_permissions env de pr ctx t i ps db))"
  by (rule role_call_effect [OF k assign_permissions_def])
    (auto dest: validated_self intro: grant_structure)

lemma scope_effect:
  assumes k: "org_keys db"
  shows "snd (replace_data_scope env ctx t i sc ds db) = db \<or> org_effect t priv db (snd (replace_data_scope env ctx t i sc ds db))"
proof (rule role_call_effect [OF k, where tn = fst and env = env])
  show "replace_data_scope env ctx t i sc ds db =
    (case bind_result (validated_tenant_id ctx t) (\<lambda>t.
             bind_result (validate_data_scope sc) (\<lambda>_.
             bind_result (scope_departments sc ds) (\<lambda>ds. Inr (t, ds)))) of
        Inl e \<Rightarrow> (Inl e, db)
      | Inr y \<Rightarrow> role_command env (fst y) (replace_data_scope_operation (fst y) (me_clock env) i sc (snd y)) db)"
    by (simp add: replace_data_scope_def split: sum.split prod.split)
qed (auto simp: bind_result_eq_Inr dest: validated_self intro: replace_scope_structure)

lemma user_create_call_effect:
  assumes k: "org_keys db"
  shows "snd (user_create env ctx a nid h fid p earlier db) = db \<or>
    org_effect (ax_tenant_id a) (ax_is_super_admin a) db (snd (user_create env ctx a nid h fid p earlier db))"
  by (rule user_call_effect [OF k user_create_def [unfolded Let_def]])
    (use k in \<open>auto simp: bind_result_eq_Inr org_keys_def dest: validated_self intro: user_create_effect split: if_splits\<close>)

lemma user_update_call_effect:
  assumes k: "org_keys db"
  shows "snd (user_update env eids ctx a p earlier db) = db \<or>
    org_effect (ax_tenant_id a) (ax_is_super_admin a) db (snd (user_update env eids ctx a p earlier db))"
  by (rule user_call_effect [OF k user_update_def])
    (use k in \<open>auto simp: bind_result_eq_Inr org_keys_def dest: validated_self intro: user_update_effect\<close>)

lemma user_status_call_effect:
  assumes k: "org_keys db"
  shows "snd (user_update_status_command env eids ctx a i st db) = db \<or>
    org_effect (ax_tenant_id a) (ax_is_super_admin a) db (snd (user_update_status_command env eids ctx a i st db))"
  by (rule user_call_effect [OF k user_update_status_command_def])
    (use k in \<open>auto simp: bind_result_eq_Inr org_keys_def dest: validated_self intro: user_status_effect split: if_splits\<close>)

lemma user_delete_call_effect:
  assumes k: "org_keys db"
  shows "snd (user_delete_many env eids ctx a ids db) = db \<or>
    org_effect (ax_tenant_id a) (ax_is_super_admin a) db (snd (user_delete_many env eids ctx a ids db))"
  by (rule user_call_effect [OF k user_delete_many_def])
    (use k in \<open>auto simp: bind_result_eq_Inr org_keys_def dest: validated_self intro: user_delete_effect split: if_splits\<close>)

lemma user_roles_call_effect:
  assumes k: "org_keys db"
  shows "snd (user_replace_roles env eids ctx a i ids earlier db) = db \<or>
    org_effect (ax_tenant_id a) (ax_is_super_admin a) db (snd (user_replace_roles env eids ctx a i ids earlier db))"
  by (rule user_call_effect [OF k user_replace_roles_def])
    (use k in \<open>auto simp: bind_result_eq_Inr org_keys_def dest: validated_self intro: user_roles_effect\<close>)

lemma dept_call_effect:
  assumes k: "org_keys db"
  shows "snd (dept_create env ctx t nid fid p db) = db \<or> org_effect t priv db (snd (dept_create env ctx t nid fid p db))"
    and "snd (dept_update_command env ctx t q db) = db \<or> org_effect t priv db (snd (dept_update_command env ctx t q db))"
    and "snd (dept_delete env ctx t i db) = db \<or> org_effect t priv db (snd (dept_delete env ctx t i db))"
  using dept_create_effect [OF k _ prod.collapse [symmetric], of ctx t] dept_update_effect [OF k _ prod.collapse [symmetric], of ctx t]
    dept_delete_effect [OF k _ prod.collapse [symmetric], of ctx t] validated_self [of ctx t]
  by (cases "validated_tenant_id ctx t"; simp add: dept_create_def dept_update_command_def dept_delete_def; fail)+

lemma call_effect:
  assumes k: "org_keys db"
  shows "run_call c db = db \<or> org_effect (ax_tenant_id (oc_actor c)) (ax_is_super_admin (oc_actor c)) db (run_call c db)"
  using role_create_effect [OF k] role_update_effect [OF k] role_delete_effect [OF k] grant_effect [OF k] scope_effect [OF k]
    user_create_call_effect [OF k] user_update_call_effect [OF k] user_status_call_effect [OF k] user_delete_call_effect [OF k]
    user_roles_call_effect [OF k] dept_call_effect [OF k]
  by (cases "oc_command c") (simp_all add: run_call_def Let_def)

end
