(* ===== verification/Administrators.thy ===== *)
theory Administrators
  imports Org_Effects
begin

text \<open>
  What the role, user and department services together keep of a tenant: it cannot lock itself out,
  nobody but a super administrator makes super administrators, the quotas hold, and no command of one
  tenant touches another.
\<close>

section \<open>What every run keeps\<close>

lemma run_keys: "org_keys db \<Longrightarrow> org_keys (run_call c db)"
  using call_effect [of db c] by (auto simp: org_effect_def)

lemma run_calls_keys: "org_keys db \<Longrightarrow> org_keys (run_calls cs db)"
  unfolding run_calls_def by (induction cs arbitrary: db) (simp_all add: run_keys)

text \<open>An invariant of the calls is one of the runs.\<close>

lemma run_calls_induct:
  assumes "org_keys db" "I db" "\<And>c db. c \<in> set cs \<Longrightarrow> org_keys db \<Longrightarrow> I db \<Longrightarrow> I (run_call c db)"
  shows "I (run_calls cs db)"
  using assms unfolding run_calls_def
  by (induction cs arbitrary: db) (simp_all add: run_keys)

text \<open>The tenant has exactly one role of the super kind, it is available, and an enabled user holds it.\<close>

definition administered :: "string \<Rightarrow> org_db \<Rightarrow> bool" where
  "administered t db \<longleftrightarrow>
     (\<exists>i. only_super t i (org_roles db) \<and>
       (\<exists>u \<in> set (org_users db). base_select t u \<and> us_status u = us_STATUS_NORMAL \<and>
          \<lparr>ur_tenant_id = t, ur_user_id = us_id u, ur_role_id = i\<rparr> \<in> set (org_user_roles db)))"

lemma only_super_role: "only_super t i rs \<Longrightarrow> super_role t rs i"
  using row_get_SomeD by (fastforce simp: only_super_def super_role_def available_super_def)

lemma view_roles:
  assumes "tenant_view_of t db' = tenant_view_of t db"
  shows "filter (\<lambda>r. ro_tenant_id r = t) (org_roles db') = filter (\<lambda>r. ro_tenant_id r = t) (org_roles db)"
    and "filter (\<lambda>u. us_tenant_id u = t) (org_users db') = filter (\<lambda>u. us_tenant_id u = t) (org_users db)"
    and "filter (\<lambda>x. ur_tenant_id x = t) (org_user_roles db') = filter (\<lambda>x. ur_tenant_id x = t) (org_user_roles db)"
    and "row_get tn_tenant_id t (org_tenants db') = row_get tn_tenant_id t (org_tenants db)"
  using assms by (simp_all add: tenant_view_of_def)

lemma same_members:
  "filter P xs = filter P ys \<Longrightarrow> P x \<Longrightarrow> x \<in> set xs \<longleftrightarrow> x \<in> set ys"
  by (metis (no_types, lifting) mem_Collect_eq set_filter)

lemma only_super_same:
  assumes u: "unique_key ro_id rs" "unique_key ro_id rs'"
    and f: "filter (\<lambda>r. ro_tenant_id r = t) rs' = filter (\<lambda>r. ro_tenant_id r = t) rs" and o: "only_super t i rs"
  shows "only_super t i rs'"
proof -
  have m: "x \<in> set rs' \<longleftrightarrow> x \<in> set rs" if "ro_tenant_id x = t" for x using same_members [OF f] that by blast
  obtain r where r: "row_get ro_id i rs = Some r" "available_super t r" using o by (auto simp: only_super_def)
  then have "row_get ro_id i rs' = Some r"
    using m [of r] by (simp add: row_get_iff u available_super_def role_live_def)
  then show ?thesis using o r m by (auto simp: only_super_def role_live_def)
qed

lemma administered_step:
  assumes k: "org_keys db" and e: "org_effect t priv db db'" and ad: "administered s db"
  shows "administered s db'"
proof -
  from ad obtain i u where i: "only_super s i (org_roles db)"
    and u: "u \<in> set (org_users db)" "base_select s u" "us_status u = us_STATUS_NORMAL"
    and x: "\<lparr>ur_tenant_id = s, ur_user_id = us_id u, ur_role_id = i\<rparr> \<in> set (org_user_roles db)"
    by (auto simp: administered_def)
  have k': "org_keys db'" using e by (simp add: org_effect_def)
  show ?thesis
  proof (cases "s = t")
    case True
    have h: "holder t db (us_id u)" using x only_super_role [OF i] True by (force simp: holder_iff)
    have "only_super t i (org_roles db')" using e i True by (simp add: org_effect_def role_change_def)
    moreover have "u \<in> set (org_users db')" using e u h True by (simp add: org_effect_def base_select_def)
    moreover have "\<lparr>ur_tenant_id = t, ur_user_id = us_id u, ur_role_id = i\<rparr> \<in> set (org_user_roles db')"
      using e x h u(1) True by (simp add: org_effect_def)
    ultimately show ?thesis using u True unfolding administered_def by blast
  next
    case False
    then have v: "tenant_view_of s db' = tenant_view_of s db" using e by (simp add: org_effect_def)
    have "only_super s i (org_roles db')"
      using only_super_same [OF _ _ view_roles(1) [OF v] i] k k' by (simp add: org_keys_def)
    moreover have "u \<in> set (org_users db')"
      using same_members [OF view_roles(2) [OF v], of u] u by (simp add: base_select_def)
    moreover have "\<lparr>ur_tenant_id = s, ur_user_id = us_id u, ur_role_id = i\<rparr> \<in> set (org_user_roles db')"
      using same_members [OF view_roles(3) [OF v]] x by simp
    ultimately show ?thesis using u unfolding administered_def by blast
  qed
qed

lemma escalation_step:
  assumes e: "org_effect t priv db db'" and h: "holder s db' i" and p: "s = t \<Longrightarrow> \<not> priv"
  shows "holder s db i"
proof (cases "s = t")
  case True
  then show ?thesis using e h p by (auto simp: org_effect_def)
next
  case False
  then have v: "tenant_view_of s db' = tenant_view_of s db" using e by (simp add: org_effect_def)
  from h obtain x where x: "x \<in> set (org_user_roles db')" "ur_tenant_id x = s" "ur_user_id x = i"
    "super_role s (org_roles db') (ur_role_id x)" by (auto simp: holder_iff)
  then obtain r where r: "r \<in> set (org_roles db')" "role_live s r" "ro_is_super r = 1" "ro_id r = ur_role_id x"
    by (auto simp: super_role_def)
  have "x \<in> set (org_user_roles db)" using same_members [OF view_roles(3) [OF v], of x] x by simp
  moreover have "r \<in> set (org_roles db)" using same_members [OF view_roles(1) [OF v], of r] r by (simp add: role_live_def)
  ultimately show ?thesis using x r by (auto simp: holder_iff super_role_def)
qed

lemma limits_user_role:
  "limits_of t db' = limits_of t db \<Longrightarrow> user_limit t db' = user_limit t db \<and> role_limit t db' = role_limit t db"
  by (auto simp: limits_of_def user_limit_def role_limit_def split: option.splits)

definition within_quota :: "string \<Rightarrow> org_db \<Rightarrow> bool" where
  "within_quota t db \<longleftrightarrow>
     (user_limit t db = 0 \<or> live_users t (org_users db) \<le> user_limit t db) \<and>
     (role_limit t db = 0 \<or> live_roles t (org_roles db) \<le> role_limit t db)"

lemma quota_step:
  assumes e: "org_effect t priv db db'" and q: "within_quota s db"
  shows "within_quota s db'"
proof (cases "s = t")
  case True
  have l: "user_limit t db' = user_limit t db" "role_limit t db' = role_limit t db"
    using e limits_user_role [of t db' db] by (simp_all add: org_effect_def)
  have "within (user_limit t db) (live_users t (org_users db)) (live_users t (org_users db'))"
    "within (role_limit t db) (live_roles t (org_roles db)) (live_roles t (org_roles db'))"
    using e by (simp_all add: org_effect_def role_change_def)
  then show ?thesis using q True l by (auto simp: within_quota_def within_def)
next
  case False
  then have v: "tenant_view_of s db' = tenant_view_of s db" using e by (simp add: org_effect_def)
  have "filter (base_select s) (org_users db') = filter (base_select s) (org_users db)"
    by (rule filter_filter_eq [OF view_roles(2) [OF v]]) (simp add: base_select_def)
  moreover have "filter (role_live s) (org_roles db') = filter (role_live s) (org_roles db)"
    by (rule filter_filter_eq [OF view_roles(1) [OF v]]) (simp add: role_live_def)
  moreover have "limits_of s db' = limits_of s db" using e by (simp add: org_effect_def)
  ultimately show ?thesis using q limits_user_role [of s db' db]
    by (simp add: within_quota_def live_users_def live_roles_def)
qed

section \<open>A small organisation\<close>

definition demo_role :: "int \<Rightarrow> string \<Rightarrow> int \<Rightarrow> role" where
  "demo_role i code super =
     \<lparr>ro_id = i, ro_tenant_id = ''system'', ro_name = code, ro_code = code, ro_is_super = super, ro_data_scope = ''1'',
      ro_status = ''1'', ro_sort = 1, ro_remark = None, ro_del_flag = ''0'', ro_created_at = 0, ro_updated_at = 0\<rparr>"

definition demo_user :: "int \<Rightarrow> string \<Rightarrow> user" where
  "demo_user i nm =
     \<lparr>us_id = i, us_tenant_id = ''system'', us_username = nm, us_password_hash = ''h'', us_nickname = nm, us_email = '''',
      us_phone = '''', us_avatar = None, us_avatar_file_id = None, us_preferred_locale = None, us_status = us_STATUS_NORMAL,
      us_authorization_version = 1, us_dept_id = None, us_remark = None, us_login_ip = None, us_login_date = None,
      us_del_flag = us_DEL_FLAG_NORMAL, us_created_at = 0, us_updated_at = 0\<rparr>"

definition demo_org :: org_db where
  "demo_org = sample_org\<lparr>
     org_tenants := [sample_tenant\<lparr>tn_max_roles := 3, tn_max_users := 3\<rparr>],
     org_users := [demo_user 1 ''admin'', demo_user 2 ''ann''],
     org_roles := [demo_role 1 ''admin'' 1, demo_role 2 ''clerk'' 0],
     org_user_roles := [\<lparr>ur_tenant_id = ''system'', ur_user_id = 1, ur_role_id = 1\<rparr>]\<rparr>"

definition demo_actor :: "int \<Rightarrow> bool \<Rightarrow> ActorContext" where
  "demo_actor i super = \<lparr>ax_user_id = i, ax_tenant_id = ''system'', ax_username = ''x'', ax_dept_id = None,
     ax_dept_path = None, ax_data_scope = DS_All, ax_custom_dept_ids = [], ax_include_self = False,
     ax_is_super_admin = super\<rparr>"

definition demo_call :: "int \<Rightarrow> bool \<Rightarrow> org_command \<Rightarrow> org_call" where
  "demo_call k super c = \<lparr>oc_env = sample_env\<lparr>me_event_id := Inr (100 + k), me_audit := None\<rparr>,
     oc_context = None, oc_actor = demo_actor (if super then 1 else 2) super, oc_command = c\<rparr>"

text \<open>
  The administrator adds a role, which fills the quota, and tries to disable and to delete the super
  role; ann gives herself the plain role and tries to take the super role, to disable the administrator
  and to create a fourth role.
\<close>

definition demo_calls :: "org_call list" where
  "demo_calls =
    [demo_call 1 True (CmdRoleCreate (Inr 3) ''editor'' ''editor'' 3 None),
     demo_call 2 True (CmdRoleUpdate 1 ''admin'' 1 ''0'' None),
     demo_call 3 True (CmdRoleDelete [1]),
     demo_call 4 False (CmdUserRoles (\<lambda>k. Inr (200 + int k)) 2 [2] demo_org),
     demo_call 5 False (CmdUserRoles (\<lambda>k. Inr (300 + int k)) 2 [1] demo_org),
     demo_call 6 False (CmdUserStatus (\<lambda>k. Inr (400 + int k)) 1 ''0''),
     demo_call 7 False (CmdRoleCreate (Inr 4) ''extra'' ''extra'' 4 None)]"

lemma demo_run:
  "map ro_id (org_roles (run_calls demo_calls demo_org)) = [3, 1, 2] \<and>
   map (\<lambda>x. (ur_user_id x, ur_role_id x)) (org_user_roles (run_calls demo_calls demo_org)) = [(2, 2), (1, 1)]"
  by code_simp

lemma demo_keys: "org_keys demo_org"
  by (simp add: org_keys_def unique_key_def demo_org_def demo_role_def demo_user_def sample_org_def)

lemma demo_administered: "administered ''system'' demo_org"
  by (auto simp: administered_def only_super_def demo_org_def demo_role_def demo_user_def available_super_def role_live_def
      row_get_def base_select_def intro!: exI [of _ 1])

section \<open>Deleted codes\<close>

text \<open>
  The check of a new code only sees live roles, the unique key of the table sees all: the code of a
  deleted role is refused as a database error and not as a conflict. The same holds of user names.
\<close>

lemma deleted_role_code_refused:
  assumes "find_by_code_for_update t (ro_code r) (org_roles db) = None" "ensure_role_quota_in_txn t db = Inr ()"
    and "x \<in> set (org_roles db)" "ro_tenant_id x = t" "ro_code x = ro_code r"
  shows "role_create_operation t r db = Inl duplicate_entry"
  using assms by (auto simp: role_create_operation_def role_insert_def Let_def)

section \<open>Properties\<close>

text \<open>
  C8. A tenant cannot lock itself out through its organisation. While a tenant has a single role of the
  super kind that is available and held by an enabled user, every sequence of role, user and department
  commands, of any actors and tenants, failing ones included, leaves it with that: the role is not
  disabled or deleted, its holder is not disabled, deleted or deprived of it.
\<close>

theorem administrator_remains:
  assumes "org_keys db" "administered t db"
  shows "administered t (run_calls cs db)"
proof (rule run_calls_induct [OF assms(1), of "administered t"])
  show "administered t db" by (rule assms(2))
  show "administered t (run_call c db')" if "org_keys db'" "administered t db'" for c db'
    using call_effect [OF that(1), of c] administered_step [OF that(1) _ that(2)] that(2) by metis
qed

lemma administrator_remains_witness:
  "administered ''system'' (run_calls demo_calls demo_org) \<and>
   map ro_id (org_roles (run_calls demo_calls demo_org)) = [3, 1, 2]"
  using administrator_remains [OF demo_keys demo_administered, of demo_calls] demo_run by blast

text \<open>
  C9. Only super administrators make super administrators. If no actor of the tenant in a sequence of
  role, user and department commands is a super administrator, whoever holds a live super role of the
  tenant at its end held one at its start.
\<close>

theorem no_super_escalation:
  assumes "org_keys db" "\<forall>c \<in> set cs. ax_tenant_id (oc_actor c) = t \<longrightarrow> \<not> ax_is_super_admin (oc_actor c)"
    and "user_has_super_role_in_txn t i (run_calls cs db)"
  shows "user_has_super_role_in_txn t i db"
proof -
  have "holder t (run_calls cs db) i \<longrightarrow> holder t db i"
  proof (rule run_calls_induct [OF assms(1), of "\<lambda>d. holder t d i \<longrightarrow> holder t db i"])
    show "holder t (run_call c d) i \<longrightarrow> holder t db i"
      if c: "c \<in> set cs" and d: "org_keys d" "holder t d i \<longrightarrow> holder t db i" for c d
      using call_effect [OF d(1), of c] escalation_step [of "ax_tenant_id (oc_actor c)" _ d "run_call c d" t i] d(2)
        assms(2) c by metis
  qed simp
  then show ?thesis using assms(3) by blast
qed

lemma no_super_escalation_witness:
  "user_has_super_role_in_txn ''system'' 1 demo_org \<and>
   map (\<lambda>x. (ur_user_id x, ur_role_id x)) (org_user_roles (run_calls (drop 3 demo_calls) demo_org)) = [(2, 2), (1, 1)]"
proof
  have non: "\<forall>c \<in> set (drop 3 demo_calls). ax_tenant_id (oc_actor c) = ''system'' \<longrightarrow> \<not> ax_is_super_admin (oc_actor c)"
    by (simp add: demo_calls_def demo_call_def demo_actor_def)
  have h: "user_has_super_role_in_txn ''system'' 1 (run_calls (drop 3 demo_calls) demo_org)" by code_simp
  show "user_has_super_role_in_txn ''system'' 1 demo_org"
    by (rule no_super_escalation [OF demo_keys non h])
  show "map (\<lambda>x. (ur_user_id x, ur_role_id x)) (org_user_roles (run_calls (drop 3 demo_calls) demo_org)) = [(2, 2), (1, 1)]"
    by code_simp
qed

text \<open>
  C36. The quotas of a tenant hold. A tenant whose numbers of live users and live roles are within its
  limits, where a limit of zero or below restricts nothing, stays within them under every sequence of
  role, user and department commands, and the limits themselves do not change.
\<close>

theorem quotas_hold:
  assumes "org_keys db" "within_quota t db"
  shows "within_quota t (run_calls cs db)"
proof (rule run_calls_induct [OF assms(1), of "within_quota t"])
  show "within_quota t db" by (rule assms(2))
  show "within_quota t (run_call c db')" if "org_keys db'" "within_quota t db'" for c db'
    using call_effect [OF that(1), of c] quota_step [OF _ that(2)] that(2) by metis
qed

lemma quotas_hold_witness:
  "within_quota ''system'' (run_calls demo_calls demo_org) \<and> role_limit ''system'' demo_org = 3 \<and>
   live_roles ''system'' (org_roles (run_calls demo_calls demo_org)) = 3"
proof -
  have "within_quota ''system'' demo_org" by code_simp
  note quotas_hold [OF demo_keys this, of demo_calls]
  moreover have "role_limit ''system'' demo_org = 3 \<and> live_roles ''system'' (org_roles (run_calls demo_calls demo_org)) = 3"
    by code_simp
  ultimately show ?thesis by blast
qed

text \<open>
  C14. Tenants are isolated. A sequence of role, user and department commands whose actors all belong to
  other tenants leaves the tenant's own row, its lease and all its departments, users, roles, permissions
  and assignments exactly as they were, whatever identifiers the commands name.
\<close>

theorem other_tenants_untouched:
  assumes "org_keys db" "\<forall>c \<in> set cs. ax_tenant_id (oc_actor c) \<noteq> t"
  shows "tenant_view_of t (run_calls cs db) = tenant_view_of t db"
proof (rule run_calls_induct [OF assms(1), of "\<lambda>d. tenant_view_of t d = tenant_view_of t db"])
  show "tenant_view_of t (run_call c d) = tenant_view_of t db"
    if c: "c \<in> set cs" and d: "org_keys d" "tenant_view_of t d = tenant_view_of t db" for c d
    using call_effect [OF d(1), of c] assms(2) c d(2) unfolding org_effect_def by metis
qed simp

text \<open>Another tenant, \<open>acme\<close>, whose role 9 the commands of the first tenant name.\<close>

definition shared_org :: org_db where
  "shared_org = demo_org\<lparr>org_roles := demo_role 9 ''guest'' 0\<lparr>ro_tenant_id := ''acme''\<rparr> # org_roles demo_org\<rparr>"

lemma other_tenants_untouched_witness:
  "tenant_view_of ''acme'' (run_calls (demo_call 8 True (CmdRoleDelete [9]) # demo_calls) shared_org) =
     tenant_view_of ''acme'' shared_org \<and>
   map ro_id (tv_roles (tenant_view_of ''acme'' shared_org)) = [9]"
proof
  have keys: "org_keys shared_org"
    by (simp add: org_keys_def unique_key_def shared_org_def demo_org_def demo_role_def demo_user_def sample_org_def)
  have "\<forall>c \<in> set (demo_call 8 True (CmdRoleDelete [9]) # demo_calls). ax_tenant_id (oc_actor c) \<noteq> ''acme''"
    by (simp add: demo_calls_def demo_call_def demo_actor_def)
  from other_tenants_untouched [OF keys this]
  show "tenant_view_of ''acme'' (run_calls (demo_call 8 True (CmdRoleDelete [9]) # demo_calls) shared_org) =
     tenant_view_of ''acme'' shared_org" .
  show "map ro_id (tv_roles (tenant_view_of ''acme'' shared_org)) = [9]"
    by (simp add: tenant_view_of_def shared_org_def demo_org_def demo_role_def sample_org_def)
qed

end
