(* ===== verification/Data_Messages.thy ===== *)
theory Data_Messages
  imports Rust_Strings
begin

text \<open>
  The message texts of the code that are not ASCII, as the UTF-8 bytes of their code points.
  Each definition is followed by an English gloss of the text; a text with a hole is split
  into the pieces around it.
\<close>

definition msg_td_provision :: string where \<comment> \<open>target, generation or switch token invalid\<close>
  "msg_td_provision = utf8
    [116, 97, 114, 103, 101, 116, 12289, 103, 101, 110, 101, 114, 97, 116, 105, 111,
     110, 32, 25110, 32, 115, 119, 105, 116, 99, 104, 95, 116, 111, 107, 101, 110,
     32, 26080, 25928]"

definition msg_td_fence_missing :: string where \<comment> \<open>the fence does not exist\<close>
  "msg_td_fence_missing = utf8
    [102, 101, 110, 99, 101, 32, 19981, 23384, 22312]"

definition msg_td_fence_state :: string where \<comment> \<open>the fence state does not allow this transition\<close>
  "msg_td_fence_state = utf8
    [102, 101, 110, 99, 101, 32, 29366, 24577, 19981, 20801, 35768, 24403, 21069,
     36716, 25442]"

definition msg_td_fence_owned :: string where \<comment> \<open>only a frozen fence owned by the migration may be cleaned\<close>
  "msg_td_fence_owned = utf8
    [20165, 20801, 35768, 28165, 29702, 32, 109, 105, 103, 114, 97, 116, 105, 111,
     110, 45, 111, 119, 110, 101, 100, 32, 102, 114, 111, 122, 101, 110, 32, 102,
     101, 110, 99, 101]"

definition msg_td_fence_frozen :: string where \<comment> \<open>only a frozen fence may be cleaned\<close>
  "msg_td_fence_frozen = utf8
    [21482, 20801, 35768, 28165, 29702, 32, 102, 114, 111, 122, 101, 110, 32, 102,
     101, 110, 99, 101]"

definition msg_td_no_owner :: string where \<comment> \<open>no frozen fence of the migration, catalog rows are not deleted\<close>
  "msg_td_no_owner = utf8
    [32570, 23569, 32, 109, 105, 103, 114, 97, 116, 105, 111, 110, 45, 111, 119,
     110, 101, 100, 32, 102, 114, 111, 122, 101, 110, 32, 102, 101, 110, 99, 101,
     65292, 25298, 32477, 21024, 38500, 32, 99, 97, 116, 97, 108, 111, 103, 32,
     25968, 25454]"

definition msg_td_not_empty :: string where \<comment> \<open>the catalog rows are not gone yet\<close>
  "msg_td_not_empty = utf8
    [99, 97, 116, 97, 108, 111, 103, 32, 25968, 25454, 23578, 26410, 28165, 31354]"

definition msg_td_foreign_rows :: string where \<comment> \<open>the target holds rows this migration does not own\<close>
  "msg_td_foreign_rows = utf8
    [30446, 26631, 23384, 22312, 26080, 26412, 36801, 31227, 25152, 26377, 26435,
     30340, 31199, 25143, 25968, 25454]"

definition msg_td_batch_cleanup :: string where \<comment> \<open>batch size of a cleanup out of range\<close>
  "msg_td_batch_cleanup = utf8
    [116, 101, 110, 97, 110, 116, 45, 100, 97, 116, 97, 32, 99, 108, 101, 97, 110,
     117, 112, 32, 98, 97, 116, 99, 104, 95, 115, 105, 122, 101, 32, 24517, 39035,
     20026, 32, 49, 46, 46, 61, 49, 48, 48, 48, 48]"

definition msg_td_occupied :: string where \<comment> \<open>dedicated target occupied (key)\<close>
  "msg_td_occupied = utf8
    [19987, 23646, 31199, 25143, 25968, 25454, 30446, 26631, 24050, 34987, 21344,
     29992, 58, 32]"

definition msg_td_unavailable :: string where \<comment> \<open>target not available (key)\<close>
  "msg_td_unavailable = utf8
    [31199, 25143, 25968, 25454, 30446, 26631, 19981, 21487, 29992, 58, 32]"

definition msg_td_placement_unavailable :: string where \<comment> \<open>placement not available (tenant)\<close>
  "msg_td_placement_unavailable = utf8
    [31199, 25143, 25968, 25454, 25918, 32622, 19981, 21487, 29992, 58, 32]"

definition msg_td_pool :: string where \<comment> \<open>connection pool exhausted\<close>
  "msg_td_pool = utf8
    [31199, 25143, 25968, 25454, 36830, 25509, 27744, 23481, 37327, 19981, 36275]"

definition msg_td_copy_fence_missing :: string where \<comment> \<open>the fence of the migration target does not exist\<close>
  "msg_td_copy_fence_missing = utf8
    [36801, 31227, 30446, 26631, 32, 102, 101, 110, 99, 101, 32, 19981, 23384,
     22312]"

definition msg_td_copy_fence_changed :: string where \<comment> \<open>the fence of the migration target changed\<close>
  "msg_td_copy_fence_changed = utf8
    [36801, 31227, 30446, 26631, 32, 102, 101, 110, 99, 101, 32, 24050, 21464,
     21270]"

definition msg_td_copy_slot_missing :: string where \<comment> \<open>the slot of the dedicated target does not exist\<close>
  "msg_td_copy_slot_missing = utf8
    [19987, 23646, 30446, 26631, 27133, 19981, 23384, 22312]"

definition msg_td_copy_slot_changed :: string where \<comment> \<open>the slot of the dedicated target changed\<close>
  "msg_td_copy_slot_changed = utf8
    [19987, 23646, 30446, 26631, 27133, 24050, 21464, 21270]"

definition msg_td_batch_size :: string where \<comment> \<open>batch size out of range\<close>
  "msg_td_batch_size = utf8
    [31199, 25143, 25968, 25454, 25209, 27425, 22823, 23567, 24517, 39035, 20026,
     32, 49, 46, 46, 61, 49, 48, 48, 48, 48]"

definition msg_td_unknown_table :: string where \<comment> \<open>unknown table (name)\<close>
  "msg_td_unknown_table = utf8
    [26410, 30693, 31199, 25143, 25968, 25454, 34920, 58, 32]"

definition msg_td_cursor :: string where \<comment> \<open>cursor does not fit the catalog\<close>
  "msg_td_cursor = utf8
    [36801, 31227, 32, 99, 117, 114, 115, 111, 114, 32, 19982, 32, 99, 97, 116, 97,
     108, 111, 103, 32, 19981, 20860, 23481]"

definition msg_td_empty_batch :: string where \<comment> \<open>an empty batch has no cursor\<close>
  "msg_td_empty_batch = utf8
    [31354, 31199, 25143, 25968, 25454, 25209, 27425, 27809, 26377, 32, 99, 117,
     114, 115, 111, 114]"

definition msg_td_cursor_column :: string where \<comment> \<open>cursor column not among the checksum columns\<close>
  "msg_td_cursor_column = utf8
    [20027, 38190, 32, 99, 117, 114, 115, 111, 114, 32, 19981, 22312, 32, 99, 104,
     101, 99, 107, 115, 117, 109, 32, 21015, 20013]"

definition msg_td_cursor_null :: string where \<comment> \<open>cursor column is null\<close>
  "msg_td_cursor_null = utf8
    [20027, 38190, 32, 99, 117, 114, 115, 111, 114, 32, 19981, 33021, 20026, 32, 78,
     85, 76, 76]"

definition msg_td_fk_tenant :: string where \<comment> \<open>foreign key without tenant column\<close>
  "msg_td_fk_tenant = utf8
    [99, 97, 116, 97, 108, 111, 103, 32, 22806, 38190, 32570, 23569, 32, 116, 101,
     110, 97, 110, 116, 95, 105, 100]"

definition msg_td_fk_failed :: string where \<comment> \<open>foreign key check failed (table.key)\<close>
  "msg_td_fk_failed = utf8
    [31199, 25143, 25968, 25454, 22806, 38190, 26657, 39564, 22833, 36133, 58, 32]"

definition msg_td_placement_missing :: string where \<comment> \<open>placement does not exist\<close>
  "msg_td_placement_missing = utf8
    [31199, 25143, 25968, 25454, 32, 112, 108, 97, 99, 101, 109, 101, 110, 116, 32,
     19981, 23384, 22312]"

definition msg_td_migration_missing :: string where \<comment> \<open>migration does not exist\<close>
  "msg_td_migration_missing = utf8
    [31199, 25143, 25968, 25454, 36801, 31227, 19981, 23384, 22312]"

definition msg_td_item_missing :: string where \<comment> \<open>checkpoint of the table does not exist\<close>
  "msg_td_item_missing = utf8
    [36801, 31227, 34920, 32423, 26816, 26597, 28857, 19981, 23384, 22312]"

definition msg_td_lease_migration :: string where \<comment> \<open>the tenant has an unfinished migration\<close>
  "msg_td_lease_migration = utf8
    [31199, 25143, 23384, 22312, 26410, 32456, 24577, 25968, 25454, 36801, 31227,
     65292, 19981, 33021, 34987, 36807, 26399, 32, 108, 101, 97, 115, 101, 32,
     32469, 36807]"

definition msg_td_lease_config :: string where \<comment> \<open>the tenant has an unfinished configuration operation\<close>
  "msg_td_lease_config = utf8
    [31199, 25143, 23384, 22312, 26410, 32456, 24577, 37197, 32622, 25805, 20316,
     65292, 19981, 33021, 34987, 36807, 26399, 32, 108, 101, 97, 115, 101, 32,
     32469, 36807]"

definition msg_td_lease_write :: string where \<comment> \<open>writing the lease failed\<close>
  "msg_td_lease_write = utf8
    [31199, 25143, 25805, 20316, 31199, 32422, 20889, 20837, 22833, 36133]"

definition msg_td_generation :: string where \<comment> \<open>(field) generation invalid\<close>
  "msg_td_generation = utf8
    [32, 103, 101, 110, 101, 114, 97, 116, 105, 111, 110, 32, 26080, 25928]"

definition msg_td_source :: string where \<comment> \<open>source\<close>
  "msg_td_source = utf8
    [28304]"

definition msg_td_target :: string where \<comment> \<open>target\<close>
  "msg_td_target = utf8
    [30446, 26631]"

definition msg_td_clean :: string where \<comment> \<open>cleaning\<close>
  "msg_td_clean = utf8
    [28165, 29702]"

definition msg_td_lease_own :: string where \<comment> \<open>the lease of the migration is lost\<close>
  "msg_td_lease_own = utf8
    [31199, 25143, 25968, 25454, 36801, 31227, 31199, 32422, 24050, 32463, 20002,
     22833]"

definition msg_td_cancelling :: string where \<comment> \<open>cancellation under way, no further transition\<close>
  "msg_td_cancelling = utf8
    [31199, 25143, 25968, 25454, 36801, 31227, 27491, 22312, 21462, 28040, 65292,
     87, 111, 114, 107, 101, 114, 32, 19981, 24471, 32487, 32493, 29366, 24577,
     36291, 36801]"

definition msg_td_compensating :: string where \<comment> \<open>compensation under way, no further transition\<close>
  "msg_td_compensating = utf8
    [31199, 25143, 25968, 25454, 36801, 31227, 27491, 22312, 25191, 34892, 22833,
     36133, 34917, 20607, 65292, 87, 111, 114, 107, 101, 114, 32, 19981, 24471,
     32487, 32493, 29366, 24577, 36291, 36801]"

definition msg_td_intent :: string where \<comment> \<open>recovery intent does not fit the state\<close>
  "msg_td_intent = utf8
    [116, 101, 110, 97, 110, 116, 45, 100, 97, 116, 97, 32, 114, 101, 99, 111, 118,
     101, 114, 121, 32, 105, 110, 116, 101, 110, 116, 32, 19982, 26435, 23041,
     36801, 31227, 29366, 24577, 19981, 19968, 33268]"

definition msg_td_state_changed :: string where \<comment> \<open>migration state changed (expected)\<close>
  "msg_td_state_changed = utf8
    [36801, 31227, 29366, 24577, 24050, 21464, 21270, 58, 32, 101, 120, 112, 101,
     99, 116, 101, 100, 61]"

definition msg_td_state_actual :: string where \<comment> \<open>actual state\<close>
  "msg_td_state_actual = utf8
    [44, 32, 97, 99, 116, 117, 97, 108, 61]"

definition msg_td_fence_foreign :: string where \<comment> \<open>the target of the assertion is not of this migration\<close>
  "msg_td_fence_foreign = utf8
    [102, 101, 110, 99, 101, 32, 26029, 35328, 30446, 26631, 19981, 23646, 20110,
     24403, 21069, 36801, 31227]"

definition msg_td_contract :: string where \<comment> \<open>fingerprints differ from the plan\<close>
  "msg_td_contract = utf8
    [36801, 31227, 32534, 35793, 26399, 32, 99, 97, 116, 97, 108, 111, 103, 47, 115,
     99, 104, 101, 109, 97, 32, 25351, 32441, 19982, 25345, 20037, 21270, 35745,
     21010, 19981, 19968, 33268]"

definition msg_td_drift :: string where \<comment> \<open>mode or kind of a target drifted\<close>
  "msg_td_drift = utf8
    [36801, 31227, 26399, 38388, 30446, 26631, 32, 109, 111, 100, 101, 47, 107, 105,
     110, 100, 32, 37197, 32622, 21457, 29983, 28418, 31227, 65292, 24050, 32, 102,
     97, 105, 108, 45, 99, 108, 111, 115, 101, 100]"

definition msg_td_source_unregistered :: string where \<comment> \<open>source target not registered\<close>
  "msg_td_source_unregistered = utf8
    [28304, 30446, 26631, 26410, 27880, 20876]"

definition msg_td_target_unregistered :: string where \<comment> \<open>target not registered\<close>
  "msg_td_target_unregistered = utf8
    [30446, 26631, 26410, 27880, 20876]"

definition msg_td_no_quiesce :: string where \<comment> \<open>state does not allow quiescing\<close>
  "msg_td_no_quiesce = utf8
    [36801, 31227, 29366, 24577, 19981, 20801, 35768, 36827, 20837, 32, 113, 117,
     105, 101, 115, 99, 105, 110, 103]"

definition msg_td_plan_placement :: string where \<comment> \<open>placement differs from the plan\<close>
  "msg_td_plan_placement = utf8
    [28304, 32, 112, 108, 97, 99, 101, 109, 101, 110, 116, 32, 19982, 36801, 31227,
     35745, 21010, 19981, 19968, 33268]"

definition msg_td_no_maintenance :: string where \<comment> \<open>placement state does not allow maintenance\<close>
  "msg_td_no_maintenance = utf8
    [112, 108, 97, 99, 101, 109, 101, 110, 116, 32, 29366, 24577, 19981, 20801,
     35768, 36827, 20837, 32500, 25252]"

definition msg_td_no_cutover :: string where \<comment> \<open>state does not allow the cut-over\<close>
  "msg_td_no_cutover = utf8
    [36801, 31227, 29366, 24577, 19981, 20801, 35768, 25191, 34892, 32, 99, 117,
     116, 111, 118, 101, 114]"

definition msg_td_cutover_placement :: string where \<comment> \<open>placement changed before the cut-over\<close>
  "msg_td_cutover_placement = utf8
    [99, 117, 116, 111, 118, 101, 114, 32, 21069, 32, 112, 108, 97, 99, 101, 109,
     101, 110, 116, 32, 24050, 21464, 21270]"

definition msg_td_no_activate :: string where \<comment> \<open>state does not allow activation\<close>
  "msg_td_no_activate = utf8
    [36801, 31227, 29366, 24577, 19981, 20801, 35768, 28608, 27963, 32, 112, 108,
     97, 99, 101, 109, 101, 110, 116]"

definition msg_td_activate_placement :: string where \<comment> \<open>placement changed before activation\<close>
  "msg_td_activate_placement = utf8
    [28608, 27963, 21069, 32, 112, 108, 97, 99, 101, 109, 101, 110, 116, 32, 24050,
     21464, 21270]"

definition msg_td_no_retention :: string where \<comment> \<open>state does not allow retention\<close>
  "msg_td_no_retention = utf8
    [36801, 31227, 29366, 24577, 19981, 20801, 35768, 36827, 20837, 32, 114, 101,
     116, 101, 110, 116, 105, 111, 110, 95, 112, 101, 110, 100, 105, 110, 103]"

definition msg_td_unhandled :: string where \<comment> \<open>state not handled by the worker (state)\<close>
  "msg_td_unhandled = utf8
    [31199, 25143, 25968, 25454, 36801, 31227, 29366, 24577, 26410, 34987, 32, 87,
     111, 114, 107, 101, 114, 32, 22788, 29702, 58, 32]"

definition msg_td_checkpoint_missing :: string where \<comment> \<open>checkpoint of a table missing\<close>
  "msg_td_checkpoint_missing = utf8
    [36801, 31227, 34920, 32423, 26816, 26597, 28857, 32570, 22833]"

definition msg_td_verify_failed :: string where \<comment> \<open>verification of a table failed (name)\<close>
  "msg_td_verify_failed = utf8
    [31199, 25143, 25968, 25454, 34920, 26657, 39564, 22833, 36133, 58, 32]"

definition msg_td_copy_order :: string where \<comment> \<open>copy order out of range\<close>
  "msg_td_copy_order = utf8
    [99, 97, 116, 97, 108, 111, 103, 32, 99, 111, 112, 121, 95, 111, 114, 100, 101,
     114, 32, 36229, 20986, 33539, 22260]"

definition msg_td_cursor_digest :: string where \<comment> \<open>cursor without rolling digest\<close>
  "msg_td_cursor_digest = utf8
    [36801, 31227, 26816, 26597, 28857, 26377, 32, 99, 117, 114, 115, 111, 114, 32,
     20294, 32570, 23569, 28378, 21160, 25688, 35201]"

definition msg_td_batch_rows :: string where \<comment> \<open>row count of a batch overflows\<close>
  "msg_td_batch_rows = utf8
    [31199, 25143, 25968, 25454, 25209, 27425, 34892, 25968, 28322, 20986]"

definition msg_td_rows :: string where \<comment> \<open>row count overflows\<close>
  "msg_td_rows = utf8
    [31199, 25143, 25968, 25454, 34892, 25968, 28322, 20986]"

definition msg_td_copy_state :: string where \<comment> \<open>state changed while a batch was copied\<close>
  "msg_td_copy_state = utf8
    [22797, 21046, 25209, 27425, 25552, 20132, 26102, 36801, 31227, 29366, 24577,
     24050, 21464, 21270]"

definition msg_td_verify_rows :: string where \<comment> \<open>row count of the check overflows\<close>
  "msg_td_verify_rows = utf8
    [31199, 25143, 25968, 25454, 26657, 39564, 34892, 25968, 28322, 20986]"

definition msg_td_digest_format :: string where \<comment> \<open>rolling digest is not hexadecimal\<close>
  "msg_td_digest_format = utf8
    [36801, 31227, 28378, 21160, 25688, 35201, 26684, 24335, 26080, 25928]"

definition msg_td_digest_length :: string where \<comment> \<open>rolling digest has a wrong length\<close>
  "msg_td_digest_length = utf8
    [36801, 31227, 28378, 21160, 25688, 35201, 38271, 24230, 26080, 25928]"

definition msg_td_restore_placement :: string where \<comment> \<open>placement changed while the source is restored\<close>
  "msg_td_restore_placement = utf8
    [24674, 22797, 28304, 25968, 25454, 26102, 32, 112, 108, 97, 99, 101, 109, 101,
     110, 116, 32, 24050, 21464, 21270]"

definition msg_td_cancel_placement :: string where \<comment> \<open>placement changed when the cancellation closes\<close>
  "msg_td_cancel_placement = utf8
    [21462, 28040, 25910, 21475, 26102, 28304, 32, 112, 108, 97, 99, 101, 109, 101,
     110, 116, 32, 24050, 21464, 21270]"

definition msg_td_finalize_placement :: string where \<comment> \<open>placement changed when the finalization closes\<close>
  "msg_td_finalize_placement = utf8
    [102, 105, 110, 97, 108, 105, 122, 101, 32, 25910, 21475, 26102, 24403, 21069,
     32, 112, 108, 97, 99, 101, 109, 101, 110, 116, 32, 24050, 21464, 21270]"

definition msg_td_fail_placement :: string where \<comment> \<open>placement changed when the compensation closes\<close>
  "msg_td_fail_placement = utf8
    [22833, 36133, 34917, 20607, 25910, 21475, 26102, 28304, 32, 112, 108, 97, 99,
     101, 109, 101, 110, 116, 32, 24050, 21464, 21270]"

definition msg_td_retention_left :: string where \<comment> \<open>the retention period has not ended\<close>
  "msg_td_retention_left = utf8
    [28304, 25968, 25454, 20445, 30041, 26399, 23578, 26410, 32467, 26463]"

definition msg_td_activation_missing :: string where \<comment> \<open>activation time missing\<close>
  "msg_td_activation_missing = utf8
    [36801, 31227, 32570, 23569, 28608, 27963, 26102, 38388]"

definition msg_td_backup_gone :: string where \<comment> \<open>the validated backup no longer qualifies\<close>
  "msg_td_backup_gone = utf8
    [118, 97, 108, 105, 100, 97, 116, 101, 100, 32, 98, 97, 99, 107, 117, 112, 32,
     19981, 20877, 28385, 36275, 32, 102, 105, 110, 97, 108, 105, 122, 101, 32,
     26465, 20214]"

definition msg_td_backup_missing :: string where \<comment> \<open>no validated backup qualifies\<close>
  "msg_td_backup_missing = utf8
    [24403, 21069, 30446, 26631, 32570, 23569, 28385, 36275, 33539, 22260, 12289,
     20195, 38469, 12289, 25351, 32441, 21644, 20445, 30041, 26399, 35201, 27714,
     30340, 32, 118, 97, 108, 105, 100, 97, 116, 101, 100, 32, 98, 97, 99, 107, 117,
     112]"

definition msg_td_not_owned :: string where \<comment> \<open>fence or slot is not of this migration\<close>
  "msg_td_not_owned = utf8
    [99, 108, 101, 97, 110, 117, 112, 32, 102, 101, 110, 99, 101, 47, 115, 108, 111,
     116, 32, 19981, 23646, 20110, 24403, 21069, 32, 109, 105, 103, 114, 97, 116,
     105, 111, 110]"

definition msg_td_user_cancel :: string where \<comment> \<open>the cancellation has precedence\<close>
  "msg_td_user_cancel = utf8
    [29992, 25143, 21462, 28040, 24050, 32463, 21462, 24471, 36801, 31227, 20210,
     35009, 26435]"

definition msg_td_failure_first :: string where \<comment> \<open>the compensation has precedence\<close>
  "msg_td_failure_first = utf8
    [36801, 31227, 24050, 30001, 22833, 36133, 34917, 20607, 21462, 24471, 20210,
     35009, 26435]"

definition msg_td_cancelled :: string where \<comment> \<open>already cancelled\<close>
  "msg_td_cancelled = utf8
    [36801, 31227, 24050, 32463, 21462, 28040]"

definition msg_td_past_cancel :: string where \<comment> \<open>too late to cancel\<close>
  "msg_td_past_cancel = utf8
    [36801, 31227, 24050, 36827, 20837, 32, 99, 117, 116, 116, 105, 110, 103, 95,
     111, 118, 101, 114, 32, 25110, 26356, 26202, 38454, 27573, 65292, 19981, 33021,
     21462, 28040]"

definition msg_td_cancel_boundary :: string where \<comment> \<open>past the boundary of cancellation\<close>
  "msg_td_cancel_boundary = utf8
    [36801, 31227, 24050, 36234, 36807, 21462, 28040, 36793, 30028]"

definition msg_td_cancel_other :: string where \<comment> \<open>another cancellation was requested\<close>
  "msg_td_cancel_other = utf8
    [36801, 31227, 24050, 26377, 20854, 20182, 21462, 28040, 35831, 27714]"

definition msg_td_no_job :: string where \<comment> \<open>the migration has no job\<close>
  "msg_td_no_job = utf8
    [36801, 31227, 32570, 23569, 26435, 23041, 21518, 21488, 20219, 21153]"

definition msg_td_job_link :: string where \<comment> \<open>the job of the migration is not linked to it\<close>
  "msg_td_job_link = utf8
    [36801, 31227, 26435, 23041, 21518, 21488, 20219, 21153, 20851, 32852, 26080,
     25928]"

definition msg_td_finalized :: string where \<comment> \<open>already finalized\<close>
  "msg_td_finalized = utf8
    [36801, 31227, 24050, 32463, 23436, 25104, 20445, 30041, 26399, 28165, 29702]"

definition msg_td_not_retained :: string where \<comment> \<open>not in the retention phase\<close>
  "msg_td_not_retained = utf8
    [36801, 31227, 23578, 26410, 36827, 20837, 20445, 30041, 26399, 28165, 29702,
     38454, 27573]"

definition msg_td_no_finalize :: string where \<comment> \<open>state does not allow finalization\<close>
  "msg_td_no_finalize = utf8
    [36801, 31227, 29366, 24577, 19981, 20801, 35768, 32, 102, 105, 110, 97, 108,
     105, 122, 101]"

definition msg_td_finalize_other :: string where \<comment> \<open>another finalization was requested\<close>
  "msg_td_finalize_other = utf8
    [36801, 31227, 24050, 26377, 20854, 20182, 32, 102, 105, 110, 97, 108, 105, 122,
     101, 32, 35831, 27714]"

definition msg_td_cancel_state :: string where \<comment> \<open>cancellation does not fit the state\<close>
  "msg_td_cancel_state = utf8
    [21462, 28040, 32, 105, 110, 116, 101, 110, 116, 32, 19982, 36801, 31227, 29366,
     24577, 19981, 19968, 33268]"

definition msg_td_finalize_state :: string where \<comment> \<open>finalization does not fit the state\<close>
  "msg_td_finalize_state = utf8
    [102, 105, 110, 97, 108, 105, 122, 101, 32, 105, 110, 116, 101, 110, 116, 32,
     19982, 36801, 31227, 29366, 24577, 19981, 19968, 33268]"

definition msg_td_platform :: string where \<comment> \<open>only the system tenant may use this\<close>
  "msg_td_platform = utf8
    [25968, 25454, 25918, 32622, 24179, 21488, 20165, 20801, 35768, 32, 115, 121,
     115, 116, 101, 109, 32, 31199, 25143, 35775, 38382]"

definition msg_td_system :: string where \<comment> \<open>the data of the system tenant are not migrated\<close>
  "msg_td_system = utf8
    [115, 121, 115, 116, 101, 109, 32, 31199, 25143, 31105, 27490, 36801, 31227,
     19994, 21153, 25968, 25454]"

definition msg_td_key :: string where \<comment> \<open>idempotency key must have 1-128 printable characters\<close>
  "msg_td_key = utf8
    [73, 100, 101, 109, 112, 111, 116, 101, 110, 99, 121, 45, 75, 101, 121, 32,
     24517, 39035, 20026, 32, 49, 8211, 49, 50, 56, 32, 20301, 21487, 25171, 21360,
     23383, 31526]"

definition msg_td_key_reused :: string where \<comment> \<open>idempotency key used for another request\<close>
  "msg_td_key_reused = utf8
    [73, 100, 101, 109, 112, 111, 116, 101, 110, 99, 121, 45, 75, 101, 121, 32,
     24050, 29992, 20110, 19981, 21516, 30340, 25968, 25454, 36801, 31227, 35831,
     27714]"

definition msg_td_generation_changed :: string where \<comment> \<open>placement generation changed\<close>
  "msg_td_generation_changed = utf8
    [31199, 25143, 25968, 25454, 32, 112, 108, 97, 99, 101, 109, 101, 110, 116, 32,
     103, 101, 110, 101, 114, 97, 116, 105, 111, 110, 32, 24050, 21464, 21270]"

definition msg_td_generation_limit :: string where \<comment> \<open>placement generation at its limit\<close>
  "msg_td_generation_limit = utf8
    [112, 108, 97, 99, 101, 109, 101, 110, 116, 32, 103, 101, 110, 101, 114, 97,
     116, 105, 111, 110, 32, 24050, 36798, 19978, 38480]"

definition msg_td_maintenance :: string where \<comment> \<open>the data cannot be migrated now\<close>
  "msg_td_maintenance = utf8
    [31199, 25143, 19994, 21153, 25968, 25454, 24403, 21069, 19981, 21487, 36801,
     31227]"

definition msg_td_busy :: string where \<comment> \<open>tenant or dedicated target busy\<close>
  "msg_td_busy = utf8
    [31199, 25143, 25110, 19987, 23646, 30446, 26631, 27491, 22312, 25191, 34892,
     20854, 20182, 25805, 20316]"

definition msg_td_target_down :: string where \<comment> \<open>target not available now\<close>
  "msg_td_target_down = utf8
    [31199, 25143, 25968, 25454, 30446, 26631, 24403, 21069, 19981, 21487, 29992]"

definition msg_td_blocked :: string where \<comment> \<open>migration not possible (blockers)\<close>
  "msg_td_blocked = utf8
    [31199, 25143, 25968, 25454, 36801, 31227, 19981, 21487, 25191, 34892, 58, 32]"

definition msg_td_plan_changed :: string where \<comment> \<open>plan hash no longer valid\<close>
  "msg_td_plan_changed = utf8
    [36801, 31227, 39044, 35272, 32, 112, 108, 97, 110, 95, 104, 97, 115, 104, 32,
     24050, 22833, 25928]"

definition msg_td_active_migration :: string where \<comment> \<open>the tenant has an unfinished migration already\<close>
  "msg_td_active_migration = utf8
    [31199, 25143, 24050, 26377, 26410, 23436, 25104, 30340, 25968, 25454, 36801,
     31227]"

definition msg_td_placement_changed :: string where \<comment> \<open>placement changed\<close>
  "msg_td_placement_changed = utf8
    [31199, 25143, 25968, 25454, 32, 112, 108, 97, 99, 101, 109, 101, 110, 116, 32,
     24050, 21464, 21270]"

definition msg_td_payload :: string where \<comment> \<open>payload of the job invalid\<close>
  "msg_td_payload = utf8
    [116, 101, 110, 97, 110, 116, 95, 100, 97, 116, 97, 95, 109, 105, 103, 114, 97,
     116, 105, 111, 110, 32, 20219, 21153, 36733, 33655, 26080, 25928]"

definition msg_td_id :: string where \<comment> \<open>identifier in the payload invalid\<close>
  "msg_td_id = utf8
    [116, 101, 110, 97, 110, 116, 95, 100, 97, 116, 97, 95, 109, 105, 103, 114, 97,
     116, 105, 111, 110, 32, 105, 100, 32, 26080, 25928]"

definition msg_td_copy_order_i32 :: string where \<comment> \<open>(table) copy order must be a positive i32\<close>
  "msg_td_copy_order_i32 = utf8
    [32, 30340, 22797, 21046, 39034, 24207, 24517, 39035, 26159, 27491, 30340, 32,
     105, 51, 50, 32, 25972, 25968]"

definition msg_td_cell_length :: string where \<comment> \<open>length of a cell overflows\<close>
  "msg_td_cell_length = utf8
    [21333, 20803, 26684, 38271, 24230, 28322, 20986]"

end
