(* ===== verification/Data_Catalog.thy ===== *)
theory Data_Catalog
  imports Tables Kernel_Errors Access_Control Data_Messages
begin

text \<open>
  The tables that hold the business data of tenants: \<open>ryframe-tenant-db/src/migration/catalog.rs\<close>.
  A catalog lists the tables with the columns that are copied, the columns of the primary key, by
  which a table is read in pages, and the foreign keys between the tables. The catalog itself is
  generated with the business modules, so it is a parameter here; what every catalog has to fulfil
  is checked when the program starts and is modelled with its errors.
\<close>

section \<open>Descriptors\<close>

record TenantDataForeignKeyDescriptor =
  fk_name :: string
  fk_columns :: "string list"
  fk_referenced_table :: string
  fk_referenced_columns :: "string list"

record TenantDataTableDescriptor =
  de_table :: string
  de_copy_order :: nat
  de_tenant_column :: string
  de_primary_key_cursor_columns :: "string list"
  de_checksum_columns :: "string list"
  de_column_types :: "string list"
  de_has_generated_columns :: bool
  de_foreign_key_dependencies :: "string list"
  de_foreign_keys :: "TenantDataForeignKeyDescriptor list"
  de_schema_canonical :: string

type_synonym catalog = "TenantDataTableDescriptor list"

section \<open>What a catalog has to fulfil\<close>

definition safe_identifier :: "string \<Rightarrow> bool" where
  "safe_identifier v \<longleftrightarrow> v \<noteq> [] \<and> list_all (\<lambda>c. is_ascii_alphanumeric c \<or> c = CHR ''_'') v"

definition starts_with :: "string \<Rightarrow> string \<Rightarrow> bool" where
  "starts_with p v \<longleftrightarrow> take (length p) v = p"

definition validate_table_columns :: "TenantDataTableDescriptor \<Rightarrow> (string + unit)" where
  "validate_table_columns t =
     first_error
       [(\<not> starts_with ''biz_'' (de_table t) \<or> \<not> safe_identifier (de_table t) \<or>
           de_table t \<in> {''biz_tenant_fence'', ''biz_tenant_target_slot''},
         ''invalid tenant-data table: '' @ de_table t),
        (de_tenant_column t \<noteq> ''tenant_id'' \<or> \<not> safe_identifier (de_tenant_column t),
         de_table t @ '' must use tenant_id''),
        (length (de_primary_key_cursor_columns t) < 2,
         de_table t @ '' primary-key cursor must include tenant_id and a business key''),
        (\<not> list_all safe_identifier (de_primary_key_cursor_columns t) \<or>
           \<not> list_all safe_identifier (de_checksum_columns t),
         de_table t @ '' contains an unsafe column identifier''),
        (de_primary_key_cursor_columns t = [] \<or> hd (de_primary_key_cursor_columns t) \<noteq> ''tenant_id'',
         de_table t @ '' primary-key cursor must start with tenant_id''),
        (\<not> list_all (\<lambda>c. c \<in> set (de_checksum_columns t)) (de_primary_key_cursor_columns t),
         de_table t @ '' checksum columns must include the complete primary-key cursor'')] ()"

definition validate_table_metadata :: "TenantDataTableDescriptor \<Rightarrow> (string + unit)" where
  "validate_table_metadata t =
     first_error
       [(de_copy_order t = 0 \<or> \<not> is_i32 (int (de_copy_order t)), de_table t @ msg_td_copy_order_i32),
        (trim (de_schema_canonical t) = [], de_table t @ '' has no canonical schema''),
        (de_has_generated_columns t, de_table t @ '' contains an unsupported generated column''),
        (length (de_column_types t) \<noteq> length (de_checksum_columns t),
         de_table t @ '' column_types must align with checksum columns''),
        (list_ex (\<lambda>c. to_ascii_lowercase c = ''timestamp'') (de_column_types t),
         de_table t @ '' contains unsupported TIMESTAMP; use DATETIME(6)''),
        (''tenant_id'' \<notin> set (de_checksum_columns t), de_table t @ '' checksum omits tenant_id'')] ()"

text \<open>\<open>position\<close>: the index of the first match.\<close>

fun position_of :: "'a \<Rightarrow> 'a list \<Rightarrow> nat option" where
  "position_of x [] = None"
| "position_of x (y # ys) = (if y = x then Some 0 else map_option Suc (position_of x ys))"

lemma position_of_Some: "position_of x xs = Some i \<Longrightarrow> i < length xs \<and> xs ! i = x"
  by (induction xs arbitrary: i) (auto split: if_splits)

lemma position_of_None: "position_of x xs = None \<longleftrightarrow> x \<notin> set xs"
  by (induction xs) auto

fun validate_foreign_keys :: "TenantDataTableDescriptor \<Rightarrow> TenantDataForeignKeyDescriptor list \<Rightarrow> string list \<Rightarrow> (string + unit)"
where
  "validate_foreign_keys t [] names = Inr ()"
| "validate_foreign_keys t (k # ks) names =
     bind_result
       (first_error
         [(fk_name k = [] \<or> \<not> safe_identifier (fk_name k) \<or> fk_name k \<in> set names \<or>
             fk_columns k = [] \<or> length (fk_columns k) \<noteq> length (fk_referenced_columns k) \<or>
             fk_referenced_table k \<notin> set (de_foreign_key_dependencies t) \<or>
             \<not> list_all safe_identifier (fk_columns k) \<or> \<not> list_all safe_identifier (fk_referenced_columns k),
           de_table t @ '' has an invalid foreign-key descriptor''),
          (position_of ''tenant_id'' (fk_columns k) = None \<or>
             position_of ''tenant_id'' (fk_columns k) \<noteq> position_of ''tenant_id'' (fk_referenced_columns k),
           de_table t @ '' foreign key '' @ fk_name k @ '' must contain aligned tenant_id columns'')] ())
       (\<lambda>_. validate_foreign_keys t ks (fk_name k # names))"

text \<open>The first loop of \<open>validate_structure\<close>: every table by itself, orders ascending, names unique.\<close>

fun validate_tables :: "catalog \<Rightarrow> nat list \<Rightarrow> nat option \<Rightarrow> string list \<Rightarrow> (string + unit)" where
  "validate_tables [] orders previous names = Inr ()"
| "validate_tables (t # ts) orders previous names =
     bind_result (validate_table_columns t) (\<lambda>_.
     bind_result
       (first_error
         [(de_copy_order t \<in> set orders, ''duplicate copy_order: '' @ show_nat (de_copy_order t)),
          (case previous of Some p \<Rightarrow> de_copy_order t \<le> p | None \<Rightarrow> False,
           ''tenant-data catalog slice must be ordered by copy_order'')] ()) (\<lambda>_.
     bind_result (validate_table_metadata t) (\<lambda>_.
     bind_result
       (first_error [(de_table t \<in> set names, ''duplicate tenant-data table: '' @ de_table t)] ()) (\<lambda>_.
     validate_tables ts (de_copy_order t # orders) (Some (de_copy_order t)) (de_table t # names)))))"

text \<open>The dependencies of one table.\<close>

fun validate_dependencies ::
  "catalog \<Rightarrow> TenantDataTableDescriptor \<Rightarrow> string list \<Rightarrow> string list \<Rightarrow> (string + unit)" where
  "validate_dependencies c t [] seen = Inr ()"
| "validate_dependencies c t (d # ds) seen =
     bind_result
       (first_error
         [(\<not> safe_identifier d, de_table t @ '' contains an unsafe dependency identifier''),
          (d \<in> set seen, de_table t @ '' contains duplicate dependency '' @ d),
          (row_get de_table d c = None, de_table t @ '' depends on unknown table '' @ d),
          (case row_get de_table d c of Some p \<Rightarrow> de_copy_order t \<le> de_copy_order p | None \<Rightarrow> False,
           de_table t @ '' dependency '' @ d @ '' must have a smaller copy_order'')] ())
       (\<lambda>_. validate_dependencies c t ds (d # seen))"

fun validate_relations_of :: "catalog \<Rightarrow> catalog \<Rightarrow> (string + unit)" where
  "validate_relations_of c [] = Inr ()"
| "validate_relations_of c (t # ts) =
     bind_result (validate_dependencies c t (de_foreign_key_dependencies t) []) (\<lambda>_.
     bind_result (validate_foreign_keys t (de_foreign_keys t) []) (\<lambda>_.
     validate_relations_of c ts))"

text \<open>
  \<open>validate_structure\<close> without its last check: a traversal that looks for a cycle, which the
  ascending orders of the dependencies rule out already.
\<close>

definition validate_structure :: "catalog \<Rightarrow> (string + unit)" where
  "validate_structure c =
     bind_result (validate_tables c [] None []) (\<lambda>_. validate_relations_of c c)"

section \<open>What an accepted catalog guarantees\<close>

definition table_wf :: "TenantDataTableDescriptor \<Rightarrow> bool" where
  "table_wf t \<longleftrightarrow>
     de_tenant_column t = ''tenant_id'' \<and> ''tenant_id'' \<in> set (de_checksum_columns t) \<and>
     de_primary_key_cursor_columns t \<noteq> [] \<and> hd (de_primary_key_cursor_columns t) = ''tenant_id'' \<and>
     set (de_primary_key_cursor_columns t) \<subseteq> set (de_checksum_columns t) \<and>
     0 < de_copy_order t \<and> is_i32 (int (de_copy_order t))"

lemma table_wfI:
  assumes "validate_table_columns t = Inr ()" "validate_table_metadata t = Inr ()"
  shows "table_wf t"
  using assms unfolding validate_table_columns_def validate_table_metadata_def first_error_Inr table_wf_def
  by (auto simp: list_all_iff)

lemma validate_tables_sound:
  assumes "validate_tables c orders previous names = Inr ()"
  shows "(\<forall>t \<in> set c. table_wf t) \<and> distinct (map de_table c) \<and> set (map de_table c) \<inter> set names = {} \<and>
    sorted_wrt (<) (map de_copy_order c) \<and>
    (\<forall>p. previous = Some p \<longrightarrow> (\<forall>t \<in> set c. p < de_copy_order t))"
  using assms
proof (induction c orders previous names rule: validate_tables.induct)
  case (2 t ts orders previous names)
  then have wf: "table_wf t" and names: "de_table t \<notin> set names"
    and order: "\<And>p. previous = Some p \<Longrightarrow> p < de_copy_order t"
    and rest: "validate_tables ts (de_copy_order t # orders) (Some (de_copy_order t)) (de_table t # names) = Inr ()"
    by (auto simp: bind_result_eq_Inr first_error_Inr not_le simp del: first_error.simps intro: table_wfI split: option.splits)
  have IH: "(\<forall>t \<in> set ts. table_wf t) \<and> distinct (map de_table ts) \<and>
      set (map de_table ts) \<inter> set (de_table t # names) = {} \<and> sorted_wrt (<) (map de_copy_order ts) \<and>
      (\<forall>p. Some (de_copy_order t) = Some p \<longrightarrow> (\<forall>t' \<in> set ts. p < de_copy_order t'))"
    using 2 rest by (auto simp: bind_result_eq_Inr first_error_Inr simp del: first_error.simps)
  then show ?case using wf names order by (auto dest: order.strict_trans)
qed simp

lemma validate_dependencies_sound:
  "validate_dependencies c t ds seen = Inr () \<Longrightarrow> d \<in> set ds \<Longrightarrow>
    \<exists>p. row_get de_table d c = Some p \<and> de_copy_order p < de_copy_order t"
  by (induction c t ds seen rule: validate_dependencies.induct)
     (auto simp: bind_result_eq_Inr first_error_Inr not_le simp del: first_error.simps split: option.splits)

lemma validate_relations_sound:
  "validate_relations_of c ts = Inr () \<Longrightarrow> t \<in> set ts \<Longrightarrow>
    validate_dependencies c t (de_foreign_key_dependencies t) [] = Inr ()"
  by (induction ts) (auto simp: bind_result_eq_Inr)

definition catalog_wf :: "catalog \<Rightarrow> bool" where
  "catalog_wf c \<longleftrightarrow> (\<forall>t \<in> set c. table_wf t) \<and> distinct (map de_table c) \<and>
     sorted_wrt (<) (map de_copy_order c) \<and>
     (\<forall>t \<in> set c. \<forall>d \<in> set (de_foreign_key_dependencies t).
        \<exists>p \<in> set c. de_table p = d \<and> de_copy_order p < de_copy_order t)"

lemma validate_structure_wf: "validate_structure c = Inr () \<Longrightarrow> catalog_wf c"
  unfolding validate_structure_def catalog_wf_def
  using validate_tables_sound [of c "[]" None "[]"]
  by (auto simp: bind_result_eq_Inr dest!: validate_relations_sound validate_dependencies_sound row_get_SomeD)

end
