(* ===== verification/Data_Targets.thy ===== *)
theory Data_Targets
  imports Data_Catalog
begin

text \<open>
  The databases that hold the business data of tenants, as \<open>ryframe-tenant-db/src/router\<close> works on
  them. A target has one fence per tenant (\<open>biz_tenant_fence\<close>), which is active while the tenant
  may write there and frozen while a migration owns it, one slot (\<open>biz_tenant_target_slot\<close>) that
  says which tenant occupies a dedicated target, and the tables of the catalog. Every operation is
  one transaction of the target: an error leaves the target as it was.
\<close>

section \<open>Errors\<close>

text \<open>\<open>ryframe-tenant-db/src/error.rs\<close>\<close>

datatype TenantDataError =
    TD_InvalidConfiguration string
  | TD_InvalidTenantId string
  | TD_UnknownTarget string
  | TD_PlacementUnavailable string
  | TD_InvalidPlacement string string
  | TD_StalePlacementGeneration string int int
  | TD_TenantDataMaintenance string int
  | TD_TargetUnavailable string
  | TD_PoolCapacityExhausted nat nat
  | TD_ConnectionBudgetExhausted nat nat nat
  | TD_FenceRejected string string string
  | TD_DedicatedTargetOccupied string

type_synonym 'a td_result = "TenantDataError + 'a"

fun map_td_error :: "TenantDataError \<Rightarrow> app_error" where
  "map_td_error (TD_InvalidConfiguration m) = Config m"
| "map_td_error (TD_InvalidTenantId m) = Validation m"
| "map_td_error (TD_StalePlacementGeneration t s c) =
     StalePlacementGeneration (''tenant='' @ t @ '', session='' @ show_int s @ '', current='' @ show_int c)"
| "map_td_error (TD_TenantDataMaintenance t g) =
     TenantDataMaintenance (''tenant='' @ t @ '', generation='' @ show_int g) 5"
| "map_td_error (TD_FenceRejected t k _) = TenantDataMaintenance (''tenant='' @ t @ '', target='' @ k) 5"
| "map_td_error (TD_DedicatedTargetOccupied k) = TenantOperationConflict (msg_td_occupied @ k)"
| "map_td_error (TD_UnknownTarget k) = TenantDataTargetUnavailable (msg_td_unavailable @ k) 5"
| "map_td_error (TD_TargetUnavailable k) = TenantDataTargetUnavailable (msg_td_unavailable @ k) 5"
| "map_td_error (TD_PlacementUnavailable t) =
     TenantDataTargetUnavailable (msg_td_placement_unavailable @ t) 5"
| "map_td_error (TD_InvalidPlacement t _) =
     TenantDataTargetUnavailable (msg_td_placement_unavailable @ t) 5"
| "map_td_error (TD_PoolCapacityExhausted _ _) = TenantDataTargetUnavailable msg_td_pool 5"
| "map_td_error (TD_ConnectionBudgetExhausted _ _ _) = TenantDataTargetUnavailable msg_td_pool 5"

definition app_of_td :: "'a td_result \<Rightarrow> 'a app_result" where
  "app_of_td r = (case r of Inl e \<Rightarrow> Inl (map_td_error e) | Inr x \<Rightarrow> Inr x)"

section \<open>Targets\<close>

record FenceRow =
  fe_tenant_id :: string
  fe_target_key :: string
  fe_placement_generation :: int
  fe_state :: string
  fe_switch_token :: string

record TargetSlotRow =
  sl_tenant_id :: "string option"
  sl_placement_generation :: "int option"
  sl_switch_token :: "string option"

record FenceProvision =
  fp_tenant_id :: string
  fp_target_key :: string
  fp_placement_generation :: int
  fp_switch_token :: string

type_synonym data_row = "string option list" \<comment> \<open>the bytes of the checksum columns, in their order\<close>

record target_db =
  tg_fences :: "FenceRow list"
  tg_slot :: "TargetSlotRow option"
  tg_rows :: "string \<Rightarrow> data_row list"

datatype TenantDatabaseTargetMode = Shared | Dedicated
datatype TenantDatabaseTargetKind = KindControl | KindMysql

text \<open>The configured targets.\<close>

type_synonym target_registry = "string \<Rightarrow> (TenantDatabaseTargetMode \<times> TenantDatabaseTargetKind) option"

definition target_mode :: "target_registry \<Rightarrow> string \<Rightarrow> TenantDatabaseTargetMode option" where
  "target_mode reg key = map_option fst (reg key)"

definition target_mode_code :: "target_registry \<Rightarrow> string \<Rightarrow> string option" where
  "target_mode_code reg key =
     map_option (\<lambda>m. case m of Shared \<Rightarrow> ''shared'' | Dedicated \<Rightarrow> ''dedicated'') (target_mode reg key)"

definition target_kind_code :: "target_registry \<Rightarrow> string \<Rightarrow> string option" where
  "target_kind_code reg key =
     map_option (\<lambda>s. case snd s of KindControl \<Rightarrow> ''control'' | KindMysql \<Rightarrow> ''mysql'') (reg key)"

text \<open>The value a row has in a column; a column the catalog does not copy has none.\<close>

definition row_cell :: "TenantDataTableDescriptor \<Rightarrow> data_row \<Rightarrow> string \<Rightarrow> string option" where
  "row_cell d r column =
     (case position_of column (de_checksum_columns d) of
        Some i \<Rightarrow> if i < length r then r ! i else None
      | None \<Rightarrow> None)"

definition row_of_tenant :: "TenantDataTableDescriptor \<Rightarrow> string \<Rightarrow> data_row \<Rightarrow> bool" where
  "row_of_tenant d tenant_id r \<longleftrightarrow> row_cell d r (de_tenant_column d) = Some tenant_id"

definition tenant_rows :: "TenantDataTableDescriptor \<Rightarrow> string \<Rightarrow> target_db \<Rightarrow> data_row list" where
  "tenant_rows d tenant_id db = filter (row_of_tenant d tenant_id) (tg_rows db (de_table d))"

definition tenant_catalog_rows_exist :: "catalog \<Rightarrow> string \<Rightarrow> target_db \<Rightarrow> bool" where
  "tenant_catalog_rows_exist c tenant_id db \<longleftrightarrow> list_ex (\<lambda>d. tenant_rows d tenant_id db \<noteq> []) c"

section \<open>Locking the slot and the fence\<close>

definition lock_target_slot :: "string \<Rightarrow> target_db \<Rightarrow> TargetSlotRow td_result" where
  "lock_target_slot target_key db =
     (case tg_slot db of Some s \<Rightarrow> Inr s | None \<Rightarrow> Inl (TD_TargetUnavailable target_key))"

definition lock_dedicated_slot ::
  "TenantDatabaseTargetMode \<Rightarrow> string \<Rightarrow> target_db \<Rightarrow> TargetSlotRow option td_result" where
  "lock_dedicated_slot mode target_key db =
     (if mode = Dedicated then bind_result (lock_target_slot target_key db) (\<lambda>s. Inr (Some s)) else Inr None)"

definition lock_fence :: "FenceProvision \<Rightarrow> target_db \<Rightarrow> FenceRow option" where
  "lock_fence p db = row_get fe_tenant_id (fp_tenant_id p) (tg_fences db)"

definition fence_matches :: "FenceRow \<Rightarrow> FenceProvision \<Rightarrow> bool" where
  "fence_matches f p \<longleftrightarrow> fe_tenant_id f = fp_tenant_id p \<and> fe_target_key f = fp_target_key p \<and>
     0 < fe_placement_generation f \<and> fe_placement_generation f = fp_placement_generation p \<and>
     fe_switch_token f = fp_switch_token p"

definition slot_exact :: "TargetSlotRow \<Rightarrow> FenceProvision \<Rightarrow> bool" where
  "slot_exact s p \<longleftrightarrow> sl_tenant_id s = Some (fp_tenant_id p) \<and>
     sl_placement_generation s = Some (fp_placement_generation p) \<and>
     sl_switch_token s = Some (fp_switch_token p)"

definition slot_taken :: "TargetSlotRow option \<Rightarrow> bool" where
  "slot_taken slot \<longleftrightarrow> (case slot of Some s \<Rightarrow> sl_tenant_id s \<noteq> None | None \<Rightarrow> False)"

definition stale_generation :: "FenceRow \<Rightarrow> FenceProvision \<Rightarrow> TenantDataError" where
  "stale_generation f p =
     TD_StalePlacementGeneration (fp_tenant_id p) (fp_placement_generation p) (fe_placement_generation f)"

definition fence_rejected :: "FenceProvision \<Rightarrow> string \<Rightarrow> TenantDataError" where
  "fence_rejected p reason = TD_FenceRejected (fp_tenant_id p) (fp_target_key p) reason"

definition require_owned_frozen_fence :: "FenceRow \<Rightarrow> FenceProvision \<Rightarrow> unit td_result" where
  "require_owned_frozen_fence f p =
     (if \<not> fence_matches f p then Inl (stale_generation f p)
      else if fe_state f \<noteq> ''frozen'' then Inl (fence_rejected p msg_td_fence_owned)
      else Inr ())"

definition require_exact_dedicated_slot :: "TargetSlotRow option \<Rightarrow> FenceProvision \<Rightarrow> unit td_result" where
  "require_exact_dedicated_slot slot p =
     (case slot of
        None \<Rightarrow> Inr ()
      | Some s \<Rightarrow> if slot_exact s p then Inr () else Inl (TD_DedicatedTargetOccupied (fp_target_key p)))"

text \<open>
  The update of the slot names the only row there can be; when it is missing nothing is changed and
  the check that follows fails.
\<close>

definition claim_dedicated_slot ::
  "FenceProvision \<Rightarrow> TenantDatabaseTargetMode \<Rightarrow> target_db \<Rightarrow> target_db td_result" where
  "claim_dedicated_slot p mode db =
     (if mode \<noteq> Dedicated then Inr db
      else case tg_slot db of
        None \<Rightarrow> Inl (TD_TargetUnavailable (fp_target_key p))
      | Some s \<Rightarrow> Inr (db\<lparr>tg_slot := Some \<lparr>sl_tenant_id = Some (fp_tenant_id p),
          sl_placement_generation = Some (fp_placement_generation p),
          sl_switch_token = Some (fp_switch_token p)\<rparr>\<rparr>))"

definition insert_fence :: "FenceProvision \<Rightarrow> string \<Rightarrow> target_db \<Rightarrow> target_db" where
  "insert_fence p state db = db\<lparr>tg_fences :=
     \<lparr>fe_tenant_id = fp_tenant_id p, fe_target_key = fp_target_key p,
      fe_placement_generation = fp_placement_generation p, fe_state = state,
      fe_switch_token = fp_switch_token p\<rparr> # tg_fences db\<rparr>"

definition release_slot :: "target_db \<Rightarrow> target_db" where
  "release_slot db = db\<lparr>tg_slot := map_option
     (\<lambda>_. \<lparr>sl_tenant_id = None, sl_placement_generation = None, sl_switch_token = None\<rparr>) (tg_slot db)\<rparr>"

definition delete_frozen_fence :: "FenceProvision \<Rightarrow> target_db \<Rightarrow> target_db" where
  "delete_frozen_fence p db = db\<lparr>tg_fences := filter (\<lambda>f. \<not> (fe_tenant_id f = fp_tenant_id p \<and>
     fe_target_key f = fp_target_key p \<and> fe_placement_generation f = fp_placement_generation p \<and>
     fe_switch_token f = fp_switch_token p \<and> fe_state f = ''frozen'')) (tg_fences db)\<rparr>"

section \<open>Fences\<close>

definition provision_fence_in_transaction ::
  "FenceProvision \<Rightarrow> TenantDatabaseTargetMode \<Rightarrow> target_db \<Rightarrow> target_db td_result" where
  "provision_fence_in_transaction p mode db =
     bind_result (lock_dedicated_slot mode (fp_target_key p) db) (\<lambda>slot.
     if (case slot of Some s \<Rightarrow> sl_tenant_id s \<noteq> None \<and> sl_tenant_id s \<noteq> Some (fp_tenant_id p) | None \<Rightarrow> False)
     then Inl (TD_DedicatedTargetOccupied (fp_target_key p))
     else case lock_fence p db of
        Some f \<Rightarrow>
          if fence_matches f p \<and> fe_state f = ''active'' then claim_dedicated_slot p mode db
          else if fence_matches f p \<and> fe_state f = ''frozen'' then
            claim_dedicated_slot p mode (db\<lparr>tg_fences := update_where
              (\<lambda>f. fe_tenant_id f = fp_tenant_id p \<and>
                 fe_placement_generation f = fp_placement_generation p \<and>
                 fe_switch_token f = fp_switch_token p)
              (\<lambda>f. f\<lparr>fe_state := ''active''\<rparr>) (tg_fences db)\<rparr>)
          else Inl (stale_generation f p)
      | None \<Rightarrow> claim_dedicated_slot p mode (insert_fence p ''active'' db))"

definition set_fence_state_in_transaction ::
  "string \<Rightarrow> string \<Rightarrow> FenceProvision \<Rightarrow> TenantDatabaseTargetMode \<Rightarrow> target_db \<Rightarrow> target_db td_result" where
  "set_fence_state_in_transaction expected_state target_state p mode db =
     bind_result (lock_dedicated_slot mode (fp_target_key p) db) (\<lambda>slot.
     if (case slot of Some s \<Rightarrow> \<not> slot_exact s p | None \<Rightarrow> False)
     then Inl (TD_DedicatedTargetOccupied (fp_target_key p))
     else case lock_fence p db of
        None \<Rightarrow> Inl (fence_rejected p msg_td_fence_missing)
      | Some f \<Rightarrow>
          if \<not> fence_matches f p then Inl (stale_generation f p)
          else if fe_state f = target_state then Inr db
          else if fe_state f \<noteq> expected_state then Inl (fence_rejected p msg_td_fence_state)
          else Inr (db\<lparr>tg_fences := update_where
            (\<lambda>f. fe_tenant_id f = fp_tenant_id p \<and> fe_target_key f = fp_target_key p \<and>
               fe_placement_generation f = fp_placement_generation p \<and>
               fe_switch_token f = fp_switch_token p \<and> fe_state f = expected_state)
            (\<lambda>f. f\<lparr>fe_state := target_state\<rparr>) (tg_fences db)\<rparr>))"

definition assert_frozen_fence_on ::
  "FenceProvision \<Rightarrow> TenantDatabaseTargetMode \<Rightarrow> target_db \<Rightarrow> unit td_result" where
  "assert_frozen_fence_on p mode db =
     (case lock_fence p db of
        None \<Rightarrow> Inl (fence_rejected p msg_td_fence_missing)
      | Some f \<Rightarrow>
          bind_result (require_owned_frozen_fence f p) (\<lambda>_.
          bind_result (lock_dedicated_slot mode (fp_target_key p) db) (\<lambda>slot.
          require_exact_dedicated_slot slot p)))"

definition prepare_frozen_fence_in_transaction ::
  "catalog \<Rightarrow> FenceProvision \<Rightarrow> TenantDatabaseTargetMode \<Rightarrow> target_db \<Rightarrow> target_db td_result" where
  "prepare_frozen_fence_in_transaction c p mode db =
     bind_result (lock_dedicated_slot mode (fp_target_key p) db) (\<lambda>slot.
     case lock_fence p db of
        Some f \<Rightarrow>
          if fence_matches f p \<and> fe_state f = ''frozen''
          then bind_result (require_exact_dedicated_slot slot p) (\<lambda>_. Inr db)
          else Inl (stale_generation f p)
      | None \<Rightarrow>
          if slot_taken slot then Inl (TD_DedicatedTargetOccupied (fp_target_key p))
          else if tenant_catalog_rows_exist c (fp_tenant_id p) db
          then Inl (fence_rejected p msg_td_foreign_rows)
          else claim_dedicated_slot p mode (insert_fence p ''frozen'' db))"

section \<open>Cleaning\<close>

definition delete_tenant_rows :: "catalog \<Rightarrow> string \<Rightarrow> target_db \<Rightarrow> target_db" where
  "delete_tenant_rows c tenant_id db = db\<lparr>tg_rows := (\<lambda>t.
     case row_get de_table t c of
       Some d \<Rightarrow> filter (\<lambda>r. \<not> row_of_tenant d tenant_id r) (tg_rows db t)
     | None \<Rightarrow> tg_rows db t)\<rparr>"

definition clear_tenant_data_in_transaction ::
  "bool \<Rightarrow> catalog \<Rightarrow> FenceProvision \<Rightarrow> TenantDatabaseTargetMode \<Rightarrow> target_db \<Rightarrow> target_db td_result" where
  "clear_tenant_data_in_transaction require_frozen c p mode db =
     bind_result (lock_dedicated_slot mode (fp_target_key p) db) (\<lambda>slot.
     case lock_fence p db of
        None \<Rightarrow>
          if slot_taken slot then Inl (TD_TargetUnavailable (fp_target_key p))
          else if tenant_catalog_rows_exist c (fp_tenant_id p) db
          then Inl (fence_rejected p msg_td_no_owner)
          else Inr db
      | Some f \<Rightarrow>
          if \<not> fence_matches f p then Inl (stale_generation f p)
          else if require_frozen \<and> fe_state f \<noteq> ''frozen'' then Inl (fence_rejected p msg_td_fence_frozen)
          else
            let db1 = delete_frozen_fence p (delete_tenant_rows c (fp_tenant_id p) db) in
            case slot of
              None \<Rightarrow> Inr db1
            | Some s \<Rightarrow>
                if slot_exact s p then Inr (release_slot db1)
                else if sl_tenant_id s \<noteq> None then Inl (TD_DedicatedTargetOccupied (fp_target_key p))
                else Inr db1)"

datatype TenantDataCleanupOwnership = OwnedFrozen | AlreadyClean | NotOwned

definition cleanup_ownership_in_transaction ::
  "catalog \<Rightarrow> FenceProvision \<Rightarrow> TenantDatabaseTargetMode \<Rightarrow> target_db \<Rightarrow> TenantDataCleanupOwnership td_result" where
  "cleanup_ownership_in_transaction c p mode db =
     bind_result (lock_dedicated_slot mode (fp_target_key p) db) (\<lambda>slot.
     case lock_fence p db of
        Some f \<Rightarrow>
          if \<not> is_ok (require_owned_frozen_fence f p) \<or> \<not> is_ok (require_exact_dedicated_slot slot p)
          then Inr NotOwned else Inr OwnedFrozen
      | None \<Rightarrow>
          if slot_taken slot then Inr NotOwned
          else if tenant_catalog_rows_exist c (fp_tenant_id p) db then Inr NotOwned
          else Inr AlreadyClean)"

text \<open>
  Of a table at most a batch of rows is deleted, in the order of the primary key as the columns
  compare; \<open>pk_order\<close> puts the rows of the tenant in that order.
\<close>

definition delete_tenant_rows_batch_in_transaction ::
  "(data_row list \<Rightarrow> data_row list) \<Rightarrow> TenantDataTableDescriptor \<Rightarrow> nat \<Rightarrow> FenceProvision \<Rightarrow>
   TenantDatabaseTargetMode \<Rightarrow> target_db \<Rightarrow> (nat \<times> target_db) td_result" where
  "delete_tenant_rows_batch_in_transaction pk_order d batch_size p mode db =
     bind_result (lock_dedicated_slot mode (fp_target_key p) db) (\<lambda>slot.
     case lock_fence p db of
        None \<Rightarrow>
          if slot_taken slot then Inl (TD_TargetUnavailable (fp_target_key p))
          else if tenant_rows d (fp_tenant_id p) db \<noteq> [] then Inl (fence_rejected p msg_td_no_owner)
          else Inr (0, db)
      | Some f \<Rightarrow>
          bind_result (require_owned_frozen_fence f p) (\<lambda>_.
          bind_result (require_exact_dedicated_slot slot p) (\<lambda>_.
          let gone = take batch_size (pk_order (tenant_rows d (fp_tenant_id p) db)) in
          Inr (length gone, db\<lparr>tg_rows := (tg_rows db)(de_table d :=
            filter (\<lambda>r. r \<notin> set gone) (tg_rows db (de_table d)))\<rparr>))))"

definition finish_tenant_cleanup_in_transaction ::
  "catalog \<Rightarrow> FenceProvision \<Rightarrow> TenantDatabaseTargetMode \<Rightarrow> target_db \<Rightarrow> target_db td_result" where
  "finish_tenant_cleanup_in_transaction c p mode db =
     bind_result (lock_dedicated_slot mode (fp_target_key p) db) (\<lambda>slot.
     bind_result
       (case lock_fence p db of
          Some f \<Rightarrow> bind_result (require_owned_frozen_fence f p) (\<lambda>_. require_exact_dedicated_slot slot p)
        | None \<Rightarrow> if slot_taken slot then Inl (TD_TargetUnavailable (fp_target_key p)) else Inr ()) (\<lambda>_.
     if tenant_catalog_rows_exist c (fp_tenant_id p) db then Inl (fence_rejected p msg_td_not_empty)
     else
       let db1 = (if lock_fence p db \<noteq> None then delete_frozen_fence p db else db) in
       Inr (if slot \<noteq> None then release_slot db1 else db1)))"

section \<open>Occupancy and sessions\<close>

record TenantDataTargetOccupancy =
  oc_tenant_id :: string
  oc_placement_generation :: int
  oc_switch_token :: string

definition target_occupancy ::
  "string \<Rightarrow> TenantDatabaseTargetMode \<Rightarrow> target_db \<Rightarrow> TenantDataTargetOccupancy option td_result" where
  "target_occupancy key mode db =
     (if mode \<noteq> Dedicated then Inr None
      else bind_result (lock_target_slot key db) (\<lambda>s.
        case (sl_tenant_id s, sl_placement_generation s, sl_switch_token s) of
          (None, None, None) \<Rightarrow> Inr None
        | (Some t, Some g, Some k) \<Rightarrow>
            if 0 < g then Inr (Some \<lparr>oc_tenant_id = t, oc_placement_generation = g, oc_switch_token = k\<rparr>)
            else Inl (TD_TargetUnavailable key)
        | _ \<Rightarrow> Inl (TD_TargetUnavailable key)))"

definition tenant_is_empty_on_target ::
  "catalog \<Rightarrow> string \<Rightarrow> string \<Rightarrow> TenantDatabaseTargetMode \<Rightarrow> target_db \<Rightarrow> bool td_result" where
  "tenant_is_empty_on_target c key tenant_id mode db =
     (if row_get fe_tenant_id tenant_id (tg_fences db) \<noteq> None then Inr False
      else bind_result (lock_dedicated_slot mode key db) (\<lambda>slot.
        Inr (\<not> slot_taken slot \<and> \<not> tenant_catalog_rows_exist c tenant_id db)))"

text \<open>A session keeps the placement it was opened with; \<open>verify_fence_on\<close> compares it with the fence.\<close>

definition verify_fence_on ::
  "FenceProvision \<Rightarrow> TenantDatabaseTargetMode \<Rightarrow> target_db \<Rightarrow> unit td_result" where
  "verify_fence_on s mode db =
     bind_result (lock_dedicated_slot mode (fp_target_key s) db) (\<lambda>slot.
     case row_get fe_tenant_id (fp_tenant_id s) (tg_fences db) of
        None \<Rightarrow> Inl (fence_rejected s msg_td_fence_missing)
      | Some f \<Rightarrow>
          if \<not> fence_matches f s then Inl (stale_generation f s)
          else if fe_state f \<noteq> ''active'' \<or> trim (fe_switch_token f) = []
          then Inl (TD_TenantDataMaintenance (fp_tenant_id s) (fp_placement_generation s))
          else require_exact_dedicated_slot slot s)"

text \<open>\<open>verify_target_mode_invariants\<close>, which every verification of a target ends with.\<close>

definition fence_valid :: "string \<Rightarrow> FenceRow \<Rightarrow> bool" where
  "fence_valid key f \<longleftrightarrow> fe_target_key f = key \<and> 0 < fe_placement_generation f \<and>
     fe_switch_token f \<noteq> [] \<and> fe_state f \<in> {''active'', ''frozen''}"

definition verify_target_mode_invariants ::
  "string \<Rightarrow> TenantDatabaseTargetMode \<Rightarrow> target_db \<Rightarrow> unit td_result" where
  "verify_target_mode_invariants key mode db =
     bind_result (lock_target_slot key db) (\<lambda>s.
     let slot_empty = (sl_tenant_id s = None \<and> sl_placement_generation s = None \<and> sl_switch_token s = None);
         valid =
          (case mode of
             Shared \<Rightarrow> slot_empty \<and> list_all (fence_valid key) (tg_fences db)
           | Dedicated \<Rightarrow>
               if slot_empty then tg_fences db = []
               else case (sl_tenant_id s, sl_placement_generation s, sl_switch_token s) of
                 (Some t, Some g, Some k) \<Rightarrow>
                   0 < g \<and> k \<noteq> [] \<and> length (tg_fences db) = 1 \<and>
                   rows_matched (\<lambda>f. fe_tenant_id f = t \<and> fe_target_key f = key \<and>
                     fe_placement_generation f = g \<and> fe_switch_token f = k \<and>
                     fe_state f \<in> {''active'', ''frozen''}) (tg_fences db) = 1
               | _ \<Rightarrow> False)
     in if valid then Inr () else Inl (TD_TargetUnavailable key))"

section \<open>Calls on a target by its key\<close>

definition prepare_fence_provision ::
  "target_registry \<Rightarrow> string \<Rightarrow> string \<Rightarrow> int \<Rightarrow> string \<Rightarrow> FenceProvision td_result" where
  "prepare_fence_provision reg tenant_id target_key placement_generation switch_token =
     (case TenantId_parse tenant_id of
        Inl e \<Rightarrow> Inl (TD_InvalidTenantId (message e))
      | Inr _ \<Rightarrow>
          if trim target_key = [] \<or> placement_generation \<le> 0 \<or> trim switch_token = [] \<or>
             64 < length switch_token
          then Inl (TD_InvalidPlacement tenant_id msg_td_provision)
          else if reg target_key = None then Inl (TD_UnknownTarget target_key)
          else Inr \<lparr>fp_tenant_id = tenant_id, fp_target_key = target_key,
                    fp_placement_generation = placement_generation, fp_switch_token = switch_token\<rparr>)"

text \<open>\<open>TenantDataFence\<close>: what the application passes to every call.\<close>

record TenantDataFence =
  tf_tenant_id :: string
  tf_target_key :: string
  tf_generation :: int
  tf_switch_token :: string

text \<open>
  Every call opens the target, checks its arguments and runs its transaction; a target that cannot
  be reached is an error of the call and modelled with the calls.
\<close>

definition open_target :: "target_registry \<Rightarrow> string \<Rightarrow> TenantDatabaseTargetMode td_result" where
  "open_target reg key = (case target_mode reg key of Some m \<Rightarrow> Inr m | None \<Rightarrow> Inl (TD_UnknownTarget key))"

definition on_target ::
  "target_registry \<Rightarrow> (FenceProvision \<Rightarrow> TenantDatabaseTargetMode \<Rightarrow> target_db \<Rightarrow> ('a \<times> target_db) td_result) \<Rightarrow>
   TenantDataFence \<Rightarrow> (string \<Rightarrow> target_db) \<Rightarrow> ('a \<times> (string \<Rightarrow> target_db)) app_result" where
  "on_target reg f fence targets =
     app_of_td
      (bind_result (open_target reg (tf_target_key fence)) (\<lambda>mode.
       bind_result (prepare_fence_provision reg (tf_tenant_id fence) (tf_target_key fence)
                      (tf_generation fence) (tf_switch_token fence)) (\<lambda>p.
       bind_result (f p mode (targets (tf_target_key fence))) (\<lambda>(x, db).
       Inr (x, targets(tf_target_key fence := db))))))"

definition unit_txn :: "('p \<Rightarrow> 'm \<Rightarrow> 'd \<Rightarrow> 'd td_result) \<Rightarrow> 'p \<Rightarrow> 'm \<Rightarrow> 'd \<Rightarrow> (unit \<times> 'd) td_result" where
  "unit_txn f p m d = bind_result (f p m d) (\<lambda>d'. Inr ((), d'))"

definition read_txn :: "('p \<Rightarrow> 'm \<Rightarrow> 'd \<Rightarrow> 'a td_result) \<Rightarrow> 'p \<Rightarrow> 'm \<Rightarrow> 'd \<Rightarrow> ('a \<times> 'd) td_result" where
  "read_txn f p m d = bind_result (f p m d) (\<lambda>x. Inr (x, d))"

definition prepare_target where
  "prepare_target reg c = on_target reg (unit_txn (prepare_frozen_fence_in_transaction c))"

definition clear_prepared_target where
  "clear_prepared_target reg c = on_target reg (unit_txn (clear_tenant_data_in_transaction True c))"

definition freeze_fence where
  "freeze_fence reg = on_target reg (unit_txn (set_fence_state_in_transaction ''active'' ''frozen''))"

definition activate_fence where
  "activate_fence reg = on_target reg (unit_txn (set_fence_state_in_transaction ''frozen'' ''active''))"

definition assert_frozen_fence where
  "assert_frozen_fence reg = on_target reg (read_txn assert_frozen_fence_on)"

definition cleanup_ownership where
  "cleanup_ownership reg c = on_target reg (read_txn (cleanup_ownership_in_transaction c))"

definition finish_cleanup where
  "finish_cleanup reg c = on_target reg (unit_txn (finish_tenant_cleanup_in_transaction c))"

definition provision_tenant_fence where
  "provision_tenant_fence reg = on_target reg (unit_txn provision_fence_in_transaction)"

text \<open>\<open>catalog_table\<close> finds the descriptor of a table.\<close>

definition catalog_table :: "catalog \<Rightarrow> string \<Rightarrow> TenantDataTableDescriptor app_result" where
  "catalog_table c name =
     (case row_get de_table name c of Some d \<Rightarrow> Inr d | None \<Rightarrow> Inl (Validation (msg_td_unknown_table @ name)))"

definition delete_rows_batch ::
  "target_registry \<Rightarrow> catalog \<Rightarrow> (string \<Rightarrow> data_row list \<Rightarrow> data_row list) \<Rightarrow> TenantDataFence \<Rightarrow> string \<Rightarrow> nat \<Rightarrow>
   (string \<Rightarrow> target_db) \<Rightarrow> (nat \<times> (string \<Rightarrow> target_db)) app_result" where
  "delete_rows_batch reg c pk_order fence table batch_size targets =
     bind_result (catalog_table c table) (\<lambda>d.
     if batch_size = 0 \<or> 10000 < batch_size
     then app_of_td (Inl (TD_InvalidConfiguration msg_td_batch_cleanup))
     else on_target reg (delete_tenant_rows_batch_in_transaction (pk_order table) d batch_size) fence targets)"

end
