(* ===== verification/Data_Rows.thy ===== *)
theory Data_Rows
  imports Data_Targets "HOL-Library.List_Lexorder"
begin

text \<open>
  Reading and writing the rows of a tenant in batches, and the digest over them:
  \<open>ryframe-tenant-db/src/application_ports/tenant_data/migration.rs\<close> and \<open>rolling_digest\<close> in
  \<open>system/tenant/data_migration/copy.rs\<close>. MySQL's base64 functions and SHA-256 are code outside the
  repository and parameters of the model; what is used of them are the hypotheses of \<open>codec_ok\<close>.
\<close>

record data_codec =
  to_base64 :: "string \<Rightarrow> string"
  from_base64 :: "string \<Rightarrow> string option"
  sha256 :: "string \<Rightarrow> string"

definition codec_ok :: "data_codec \<Rightarrow> bool" where
  "codec_ok k \<longleftrightarrow> (\<forall>b. from_base64 k (to_base64 k b) = Some b) \<and> (\<forall>b. length (sha256 k b) = 32)"

type_synonym TenantDataRow = "string option list" \<comment> \<open>base64 texts\<close>

record TenantDataRowBatch =
  rb_rows :: "TenantDataRow list"
  rb_next_cursor :: "string list option"

section \<open>Reading a page\<close>

definition validate_batch_size :: "nat \<Rightarrow> unit app_result" where
  "validate_batch_size n = (if 1 \<le> n \<and> n \<le> 10000 then Inr () else Inl (Validation msg_td_batch_size))"

definition business_cursor_columns :: "TenantDataTableDescriptor \<Rightarrow> string list" where
  "business_cursor_columns d = filter (\<lambda>c. c \<noteq> de_tenant_column d) (de_primary_key_cursor_columns d)"

text \<open>A comparison of rows in SQL is true when it is decided before a null value is met.\<close>

fun row_greater :: "string option list \<Rightarrow> string option list \<Rightarrow> bool" where
  "row_greater (a # as) (b # bs) =
     (case (a, b) of
        (Some x, Some y) \<Rightarrow> if y < x then True else if x = y then row_greater as bs else False
      | _ \<Rightarrow> False)"
| "row_greater _ _ = False"

definition cursor_cells :: "TenantDataTableDescriptor \<Rightarrow> data_row \<Rightarrow> string option list" where
  "cursor_cells d r = map (row_cell d r) (business_cursor_columns d)"

text \<open>The order of the rows; a column of the primary key has no null values.\<close>

definition cursor_key :: "TenantDataTableDescriptor \<Rightarrow> data_row \<Rightarrow> string list" where
  "cursor_key d r = map (\<lambda>c. case row_cell d r c of Some v \<Rightarrow> v | None \<Rightarrow> []) (business_cursor_columns d)"

definition encode_row :: "data_codec \<Rightarrow> data_row \<Rightarrow> TenantDataRow" where
  "encode_row k r = map (map_option (to_base64 k)) r"

fun cursor_values :: "TenantDataTableDescriptor \<Rightarrow> TenantDataRow \<Rightarrow> string list \<Rightarrow> string list app_result" where
  "cursor_values d r [] = Inr []"
| "cursor_values d r (c # cs) =
     (case position_of c (de_checksum_columns d) of
        None \<Rightarrow> Inl (Conflict msg_td_cursor_column)
      | Some i \<Rightarrow>
          (case r ! i of
             None \<Rightarrow> Inl (Conflict msg_td_cursor_null)
           | Some v \<Rightarrow> bind_result (cursor_values d r cs) (\<lambda>vs. Inr (v # vs))))"

definition cursor_from_last_row ::
  "TenantDataRow list \<Rightarrow> TenantDataTableDescriptor \<Rightarrow> string list \<Rightarrow> string list app_result" where
  "cursor_from_last_row rows d columns =
     (if rows = [] then Inl (Internal msg_td_empty_batch) else cursor_values d (last rows) columns)"

definition select_page ::
  "data_codec \<Rightarrow> TenantDataTableDescriptor \<Rightarrow> string \<Rightarrow> string list option \<Rightarrow> nat \<Rightarrow> target_db \<Rightarrow> data_row list" where
  "select_page k d tenant_id cursor n db =
     take n (sort_key (cursor_key d)
       (filter (\<lambda>r. case cursor of
            None \<Rightarrow> True
          | Some vs \<Rightarrow> row_greater (cursor_cells d r) (map (from_base64 k) vs))
        (tenant_rows d tenant_id db)))"

definition read_rows_batch ::
  "target_registry \<Rightarrow> catalog \<Rightarrow> data_codec \<Rightarrow> string \<Rightarrow> string \<Rightarrow> string \<Rightarrow> string list option \<Rightarrow> nat \<Rightarrow>
   (string \<Rightarrow> target_db) \<Rightarrow> TenantDataRowBatch app_result" where
  "read_rows_batch reg c k target_key tenant_id table cursor batch_size targets =
     bind_result (validate_batch_size batch_size) (\<lambda>_.
     bind_result (catalog_table c table) (\<lambda>d.
     bind_result (app_of_td (open_target reg target_key)) (\<lambda>_.
     if (case cursor of Some vs \<Rightarrow> length vs \<noteq> length (business_cursor_columns d) | None \<Rightarrow> False)
     then Inl (Conflict msg_td_cursor)
     else
       let rows = map (encode_row k) (select_page k d tenant_id cursor batch_size (targets target_key)) in
       if rows = [] then Inr \<lparr>rb_rows = [], rb_next_cursor = None\<rparr>
       else bind_result (cursor_from_last_row rows d (business_cursor_columns d)) (\<lambda>vs.
            Inr \<lparr>rb_rows = rows, rb_next_cursor = Some vs\<rparr>))))"

section \<open>Writing a batch\<close>

definition lock_target_fence :: "TenantDataFence \<Rightarrow> TenantDatabaseTargetMode \<Rightarrow> target_db \<Rightarrow> unit app_result" where
  "lock_target_fence fence mode db =
     (case row_get fe_tenant_id (tf_tenant_id fence) (tg_fences db) of
        None \<Rightarrow> Inl (TenantDataMaintenance msg_td_copy_fence_missing 5)
      | Some f \<Rightarrow>
          if fe_target_key f \<noteq> tf_target_key fence \<or> fe_placement_generation f \<noteq> tf_generation fence \<or>
             fe_state f \<noteq> ''frozen'' \<or> fe_switch_token f \<noteq> tf_switch_token fence
          then Inl (StalePlacementGeneration msg_td_copy_fence_changed)
          else if mode \<noteq> Dedicated then Inr ()
          else case tg_slot db of
            None \<Rightarrow> Inl (TenantDataTargetUnavailable msg_td_copy_slot_missing 5)
          | Some s \<Rightarrow>
              if sl_tenant_id s \<noteq> Some (tf_tenant_id fence) \<or>
                 sl_placement_generation s \<noteq> Some (tf_generation fence) \<or>
                 sl_switch_token s \<noteq> Some (tf_switch_token fence)
              then Inl (TenantOperationConflict msg_td_copy_slot_changed) else Inr ())"

text \<open>
  A row is inserted; a row with the same primary key keeps its values but for the tenant. The
  primary key is the only unique key that is modelled.
\<close>

definition primary_key :: "TenantDataTableDescriptor \<Rightarrow> data_row \<Rightarrow> string option list" where
  "primary_key d r = map (row_cell d r) (de_primary_key_cursor_columns d)"

definition set_tenant_of :: "TenantDataTableDescriptor \<Rightarrow> data_row \<Rightarrow> data_row \<Rightarrow> data_row" where
  "set_tenant_of d new old =
     (case position_of (de_tenant_column d) (de_checksum_columns d) of
        Some i \<Rightarrow> old[i := new ! i]
      | None \<Rightarrow> old)"

definition upsert_row :: "TenantDataTableDescriptor \<Rightarrow> data_row \<Rightarrow> data_row list \<Rightarrow> data_row list" where
  "upsert_row d r rows =
     (if primary_key d r \<in> primary_key d ` set rows
      then update_where (\<lambda>r'. primary_key d r' = primary_key d r) (set_tenant_of d r) rows
      else r # rows)"

definition decode_row :: "data_codec \<Rightarrow> TenantDataRow \<Rightarrow> data_row" where
  "decode_row k r = map (\<lambda>v. Option.bind v (from_base64 k)) r"

definition write_rows_batch ::
  "target_registry \<Rightarrow> catalog \<Rightarrow> data_codec \<Rightarrow> TenantDataFence \<Rightarrow> string \<Rightarrow> TenantDataRow list \<Rightarrow>
   (string \<Rightarrow> target_db) \<Rightarrow> (string \<Rightarrow> target_db) app_result" where
  "write_rows_batch reg c k fence table rows targets =
     bind_result (catalog_table c table) (\<lambda>d.
     bind_result (app_of_td (open_target reg (tf_target_key fence))) (\<lambda>mode.
     let db = targets (tf_target_key fence) in
     bind_result (lock_target_fence fence mode db) (\<lambda>_.
     Inr (targets(tf_target_key fence :=
       db\<lparr>tg_rows := (tg_rows db)(de_table d :=
         fold (upsert_row d) (map (decode_row k) rows) (tg_rows db (de_table d)))\<rparr>)))))"

section \<open>Foreign keys\<close>

definition cells_match ::
  "TenantDataTableDescriptor \<Rightarrow> data_row \<Rightarrow> TenantDataTableDescriptor \<Rightarrow> data_row \<Rightarrow> TenantDataForeignKeyDescriptor \<Rightarrow> bool"
where
  "cells_match d child pd parent key \<longleftrightarrow>
     list_all (\<lambda>(a, b). row_cell d child a \<noteq> None \<and> row_cell d child a = row_cell pd parent b)
       (zip (fk_columns key) (fk_referenced_columns key))"

definition orphans ::
  "catalog \<Rightarrow> TenantDataTableDescriptor \<Rightarrow> string \<Rightarrow> TenantDataForeignKeyDescriptor \<Rightarrow> target_db \<Rightarrow> data_row list" where
  "orphans c d tenant_id key db =
     filter (\<lambda>r. list_all (\<lambda>a. row_cell d r a \<noteq> None) (fk_columns key) \<and>
         (case row_get de_table (fk_referenced_table key) c of
            Some pd \<Rightarrow> \<not> list_ex (\<lambda>p. cells_match d r pd p key) (tg_rows db (de_table pd))
          | None \<Rightarrow> True))
       (tenant_rows d tenant_id db)"

fun verify_keys ::
  "catalog \<Rightarrow> TenantDataTableDescriptor \<Rightarrow> string \<Rightarrow> target_db \<Rightarrow> TenantDataForeignKeyDescriptor list \<Rightarrow> unit app_result"
where
  "verify_keys c d tenant_id db [] = Inr ()"
| "verify_keys c d tenant_id db (key # keys) =
     (if ''tenant_id'' \<notin> set (fk_referenced_columns key) then Inl (Config msg_td_fk_tenant)
      else if orphans c d tenant_id key db \<noteq> []
      then Inl (Conflict (msg_td_fk_failed @ de_table d @ ''.'' @ fk_name key))
      else verify_keys c d tenant_id db keys)"

definition verify_foreign_keys ::
  "target_registry \<Rightarrow> catalog \<Rightarrow> string \<Rightarrow> string \<Rightarrow> string \<Rightarrow> (string \<Rightarrow> target_db) \<Rightarrow> unit app_result" where
  "verify_foreign_keys reg c target_key tenant_id table targets =
     bind_result (catalog_table c table) (\<lambda>d.
     bind_result (app_of_td (open_target reg target_key)) (\<lambda>_.
     verify_keys c d tenant_id (targets target_key) (de_foreign_keys d)))"

section \<open>The rolling digest\<close>

text \<open>Hexadecimal texts of bytes; both cases of a letter are read.\<close>

definition hex_digits :: string where "hex_digits = ''0123456789abcdef''"

definition hex_char :: "char \<Rightarrow> string" where
  "hex_char c = [hex_digits ! (of_char c div 16), hex_digits ! (of_char c mod 16)]"

definition hex_encode :: "string \<Rightarrow> string" where
  "hex_encode bytes = concat (map hex_char bytes)"

definition hex_value :: "char \<Rightarrow> nat option" where
  "hex_value c = position_of (hd (to_ascii_lowercase [c])) hex_digits"

fun hex_decode :: "string \<Rightarrow> string option" where
  "hex_decode [] = Some []"
| "hex_decode [_] = None"
| "hex_decode (a # b # rest) =
     (case (hex_value a, hex_value b, hex_decode rest) of
        (Some x, Some y, Some bs) \<Rightarrow> Some (char_of (16 * x + y) # bs)
      | _ \<Rightarrow> None)"

text \<open>\<open>u64::to_be_bytes\<close>\<close>

definition be_bytes :: "nat \<Rightarrow> string" where
  "be_bytes n = map (\<lambda>i. char_of (n div 256 ^ i)) [7, 6, 5, 4, 3, 2, 1, 0]"

fun digest_cells :: "TenantDataRow \<Rightarrow> string app_result" where
  "digest_cells [] = Inr []"
| "digest_cells (None # cells) = bind_result (digest_cells cells) (\<lambda>s. Inr (char_of (0::nat) # s))"
| "digest_cells (Some v # cells) =
     (if 2 ^ 64 \<le> length v then Inl (Internal msg_td_cell_length)
      else bind_result (digest_cells cells) (\<lambda>s. Inr (char_of (1::nat) # be_bytes (length v) @ v @ s)))"

fun digest_rows :: "data_codec \<Rightarrow> string \<Rightarrow> TenantDataRow list \<Rightarrow> string app_result" where
  "digest_rows k state [] = Inr state"
| "digest_rows k state (r # rows) =
     bind_result (digest_cells r) (\<lambda>s. digest_rows k (sha256 k (state @ s)) rows)"

definition zero_state :: string where "zero_state = replicate 32 (char_of (0::nat))"

definition rolling_digest :: "data_codec \<Rightarrow> string option \<Rightarrow> TenantDataRow list \<Rightarrow> string app_result" where
  "rolling_digest k previous rows =
     bind_result
       (case previous of
          None \<Rightarrow> Inr zero_state
        | Some text \<Rightarrow>
            (case hex_decode text of
               None \<Rightarrow> Inl (Conflict msg_td_digest_format)
             | Some bytes \<Rightarrow> if length bytes \<noteq> 32 then Inl (Conflict msg_td_digest_length) else Inr bytes))
       (\<lambda>state. bind_result (digest_rows k state rows) (\<lambda>s. Inr (hex_encode s)))"

definition empty_rolling_digest :: string where
  "empty_rolling_digest = hex_encode zero_state"

end
