(* ===== verification/Migration_Records.thy ===== *)
theory Migration_Records
  imports Data_Rows Tenant_Mutations Job_Queue
begin

text \<open>
  The control side of a tenant data migration: the rows of placements, migrations, their checkpoints
  per table and the backup points, with the repositories \<open>ryframe-db/src/repositories/tenant_data_repo.rs\<close>
  and \<open>tenant_operation_lease_repo.rs\<close>. The records of \<open>ports/tenant_data/tracking.rs\<close> have the same
  fields as the rows.
\<close>

section \<open>Rows\<close>

record data_migration =
  mg_id :: int
  mg_tenant_id :: string
  mg_source_target_key :: string
  mg_target_key :: string
  mg_source_target_mode :: string
  mg_source_target_kind :: string
  mg_target_target_mode :: string
  mg_target_target_kind :: string
  mg_source_generation :: int
  mg_source_switch_token :: string
  mg_target_generation :: int
  mg_source_schema_fingerprint :: string
  mg_target_schema_fingerprint :: string
  mg_plan_hash :: string
  mg_create_idempotency_key_hash :: string
  mg_cancel_idempotency_key_hash :: "string option"
  mg_finalize_idempotency_key_hash :: "string option"
  mg_state :: string
  mg_switch_token :: string
  mg_operator_id :: int
  mg_cancelled_by :: "int option"
  mg_finalized_by :: "int option"
  mg_background_job_id :: "int option"
  mg_retention_hours :: int
  mg_error_code :: "string option"
  mg_error_detail :: "string option"
  mg_prechecked_at :: "timestamp option"
  mg_queued_at :: "timestamp option"
  mg_quiesced_at :: "timestamp option"
  mg_frozen_at :: "timestamp option"
  mg_copy_started_at :: "timestamp option"
  mg_copy_completed_at :: "timestamp option"
  mg_verified_at :: "timestamp option"
  mg_cut_over_at :: "timestamp option"
  mg_activated_at :: "timestamp option"
  mg_succeeded_at :: "timestamp option"
  mg_retention_until :: "timestamp option"
  mg_cancel_requested_at :: "timestamp option"
  mg_finalize_requested_at :: "timestamp option"
  mg_cleanup_ready_at :: "timestamp option"
  mg_finalized_at :: "timestamp option"
  mg_failed_at :: "timestamp option"
  mg_cancelled_at :: "timestamp option"
  mg_created_at :: timestamp
  mg_updated_at :: timestamp

abbreviation mg_PRECHECKING :: string where "mg_PRECHECKING \<equiv> ''prechecking''"
abbreviation mg_QUEUED :: string where "mg_QUEUED \<equiv> ''queued''"
abbreviation mg_QUIESCING :: string where "mg_QUIESCING \<equiv> ''quiescing''"
abbreviation mg_FROZEN :: string where "mg_FROZEN \<equiv> ''frozen''"
abbreviation mg_COPYING :: string where "mg_COPYING \<equiv> ''copying''"
abbreviation mg_VERIFYING :: string where "mg_VERIFYING \<equiv> ''verifying''"
abbreviation mg_CUTTING_OVER :: string where "mg_CUTTING_OVER \<equiv> ''cutting_over''"
abbreviation mg_ACTIVATING :: string where "mg_ACTIVATING \<equiv> ''activating''"
abbreviation mg_SUCCEEDED :: string where "mg_SUCCEEDED \<equiv> ''succeeded''"
abbreviation mg_RETENTION_PENDING :: string where "mg_RETENTION_PENDING \<equiv> ''retention_pending''"
abbreviation mg_FINALIZED :: string where "mg_FINALIZED \<equiv> ''finalized''"
abbreviation mg_FAILED :: string where "mg_FAILED \<equiv> ''failed''"
abbreviation mg_CANCELLED :: string where "mg_CANCELLED \<equiv> ''cancelled''"

definition can_cancel :: "data_migration \<Rightarrow> bool" where
  "can_cancel m \<longleftrightarrow> mg_state m \<in>
     {mg_PRECHECKING, mg_QUEUED, mg_QUIESCING, mg_FROZEN, mg_COPYING, mg_VERIFYING}"

definition can_finalize :: "data_migration \<Rightarrow> bool" where
  "can_finalize m \<longleftrightarrow> mg_state m = mg_RETENTION_PENDING"

record data_migration_item =
  mi_id :: int
  mi_migration_id :: int
  mi_table_name :: string
  mi_copy_order :: int
  mi_state :: string
  mi_cursor_json :: "json option"
  mi_source_row_count :: "int option"
  mi_target_row_count :: "int option"
  mi_source_digest :: "string option"
  mi_target_digest :: "string option"
  mi_error_code :: "string option"
  mi_error_detail :: "string option"
  mi_copy_started_at :: "timestamp option"
  mi_copied_at :: "timestamp option"
  mi_verified_at :: "timestamp option"
  mi_cleanup_state :: string
  mi_cleanup_row_count :: int
  mi_created_at :: timestamp
  mi_updated_at :: timestamp

abbreviation mi_PENDING :: string where "mi_PENDING \<equiv> ''pending''"
abbreviation mi_COPYING :: string where "mi_COPYING \<equiv> ''copying''"
abbreviation mi_COPIED :: string where "mi_COPIED \<equiv> ''copied''"
abbreviation mi_VERIFYING :: string where "mi_VERIFYING \<equiv> ''verifying''"
abbreviation mi_VERIFIED :: string where "mi_VERIFIED \<equiv> ''verified''"
abbreviation mi_CLEANUP_PENDING :: string where "mi_CLEANUP_PENDING \<equiv> ''pending''"
abbreviation mi_CLEANUP_CLEANING :: string where "mi_CLEANUP_CLEANING \<equiv> ''cleaning''"
abbreviation mi_CLEANUP_CLEANED :: string where "mi_CLEANUP_CLEANED \<equiv> ''cleaned''"

record data_placement =
  pl_tenant_id :: string
  pl_current_target_key :: string
  pl_placement_generation :: int
  pl_state :: string
  pl_switch_token :: string
  pl_created_at :: timestamp
  pl_updated_at :: timestamp

abbreviation pl_PROVISIONING :: string where "pl_PROVISIONING \<equiv> ''provisioning''"
abbreviation pl_ACTIVE :: string where "pl_ACTIVE \<equiv> ''active''"
abbreviation pl_MAINTENANCE :: string where "pl_MAINTENANCE \<equiv> ''maintenance''"
abbreviation pl_STATE_FAILED :: string where "pl_STATE_FAILED \<equiv> ''failed''"

record data_backup_point =
  bp_id :: int
  bp_scope :: string
  bp_tenant_id :: "string option"
  bp_target_key :: string
  bp_placement_generation :: "int option"
  bp_schema_fingerprint :: string
  bp_provider_ref :: string
  bp_captured_at :: timestamp
  bp_checksum :: "string option"
  bp_validation_status :: string
  bp_validation_detail :: "string option"
  bp_retention_until :: timestamp
  bp_expires_at :: "timestamp option"
  bp_last_restore_drill_at :: "timestamp option"
  bp_created_by :: "int option"
  bp_created_at :: timestamp
  bp_updated_at :: timestamp

text \<open>The control database as far as a migration works on it.\<close>

record migration_db =
  md_org :: org_db
  md_jobs :: control_db
  md_placements :: "data_placement list"
  md_migrations :: "data_migration list"
  md_items :: "data_migration_item list"
  md_backups :: "data_backup_point list"

section \<open>The operation lease of a tenant\<close>

definition active_states :: "string list" where
  "active_states = [mg_PRECHECKING, mg_QUEUED, mg_QUIESCING, mg_FROZEN, mg_COPYING, mg_VERIFYING,
     mg_CUTTING_OVER, mg_ACTIVATING, mg_SUCCEEDED]"

definition holds_tenant :: "data_migration \<Rightarrow> bool" where
  "holds_tenant m \<longleftrightarrow> mg_state m \<in> set active_states \<or>
     mg_state m = mg_RETENTION_PENDING \<and> mg_finalize_requested_at m \<noteq> None"

definition config_in_progress :: "config_transfer \<Rightarrow> bool" where
  "config_in_progress t \<longleftrightarrow> ct_status t \<in>
     {ct_STATUS_APPLY_PENDING, ct_STATUS_APPLYING, ct_STATUS_ROLLBACK_PENDING, ct_STATUS_ROLLING_BACK}"

text \<open>
  \<open>now\<close> is the clock of the database inside the transaction. A migration or configuration operation
  that is not finished keeps the tenant even when its lease has run out.
\<close>

definition acquire_lease :: "operation_lease \<Rightarrow> timestamp \<Rightarrow> migration_db \<Rightarrow> migration_db app_result" where
  "acquire_lease lease now db =
     bind_result (lock_tenant_in_txn (ol_tenant_id lease) (md_org db)) (\<lambda>_.
     let existing = row_get ol_tenant_id (ol_tenant_id lease) (org_leases (md_org db)) in
     if (case find (\<lambda>m. mg_tenant_id m = ol_tenant_id lease \<and> holds_tenant m) (md_migrations db) of
           Some m \<Rightarrow> mg_switch_token m \<noteq> ol_owner_token lease | None \<Rightarrow> False)
     then Inl (TenantOperationConflict msg_td_lease_migration)
     else if (case find (\<lambda>t. ct_tenant_id t = ol_tenant_id lease \<and> config_in_progress t) (db_transfers (md_jobs db)) of
           Some t \<Rightarrow> ol_resource_type lease \<noteq> ''tenant_config_transfer'' \<or>
                     parse_i64 (ol_resource_id lease) \<noteq> Some (ct_id t)
         | None \<Rightarrow> False)
     then Inl (TenantOperationConflict msg_td_lease_config)
     else case existing of
        Some l \<Rightarrow>
          if now < ol_expires_at l \<and> ol_owner_token l \<noteq> ol_owner_token lease
          then Inl (TenantOperationConflict msg_lease_busy)
          else Inr (db\<lparr>md_org := (md_org db)\<lparr>org_leases := update_where
                 (\<lambda>r. ol_tenant_id r = ol_tenant_id lease)
                 (\<lambda>r. r\<lparr>ol_owner_token := ol_owner_token lease, ol_operation := ol_operation lease,
                        ol_resource_type := ol_resource_type lease, ol_resource_id := ol_resource_id lease,
                        ol_expires_at := ol_expires_at lease, ol_updated_at := ol_updated_at lease\<rparr>)
                 (org_leases (md_org db))\<rparr>\<rparr>)
      | None \<Rightarrow> Inr (db\<lparr>md_org := (md_org db)\<lparr>org_leases := lease # org_leases (md_org db)\<rparr>\<rparr>))"

definition lock_tenant_of :: "string \<Rightarrow> string option \<Rightarrow> timestamp \<Rightarrow> migration_db \<Rightarrow> (tenant \<times> migration_db) app_result" where
  "lock_tenant_of tenant_id owner_token now db =
     bind_result (lock_tenant_and_validate_in_txn tenant_id owner_token now (md_org db)) (\<lambda>(t, org).
     Inr (t, db\<lparr>md_org := org\<rparr>))"

text \<open>\<open>renew_in_txn\<close> and \<open>release_in_txn\<close>: the lock makes sure that the row they name is there.\<close>

definition renew_lease_of ::
  "string \<Rightarrow> string \<Rightarrow> timestamp \<Rightarrow> timestamp \<Rightarrow> migration_db \<Rightarrow> (bool \<times> migration_db) app_result" where
  "renew_lease_of tenant_id owner_token expires_at now db =
     bind_result (lock_tenant_of tenant_id (Some owner_token) now db) (\<lambda>(_, db1).
     let P = (\<lambda>l. ol_tenant_id l = tenant_id \<and> ol_owner_token l = owner_token) in
     Inr (rows_matched P (org_leases (md_org db1)) = 1,
          db1\<lparr>md_org := (md_org db1)\<lparr>org_leases := update_where P
            (\<lambda>l. l\<lparr>ol_expires_at := expires_at, ol_updated_at := now\<rparr>) (org_leases (md_org db1))\<rparr>\<rparr>))"

definition release_lease_of :: "string \<Rightarrow> string \<Rightarrow> timestamp \<Rightarrow> migration_db \<Rightarrow> (bool \<times> migration_db) app_result" where
  "release_lease_of tenant_id owner_token now db =
     bind_result (lock_tenant_of tenant_id (Some owner_token) now db) (\<lambda>(_, db1).
     let P = (\<lambda>l. ol_tenant_id l = tenant_id \<and> ol_owner_token l = owner_token) in
     Inr (rows_matched P (org_leases (md_org db1)) = 1,
          db1\<lparr>md_org := (md_org db1)\<lparr>org_leases := filter (\<lambda>l. \<not> P l) (org_leases (md_org db1))\<rparr>\<rparr>))"

text \<open>\<open>clock\<close> is the clock of the instance, which stamps the row.\<close>

definition increment_runtime_epoch :: "string \<Rightarrow> timestamp \<Rightarrow> migration_db \<Rightarrow> migration_db app_result" where
  "increment_runtime_epoch tenant_id clock db =
     bind_result (lock_tenant_in_txn tenant_id (md_org db)) (\<lambda>t.
     case checked_add_i64 (tn_runtime_epoch t) 1 of
       None \<Rightarrow> Inl out_of_range
     | Some e \<Rightarrow> Inr (db\<lparr>md_org := put_tenant (t\<lparr>tn_runtime_epoch := e, tn_updated_at := clock\<rparr>) (md_org db)\<rparr>))"

section \<open>Placements, migrations and checkpoints\<close>

definition placement_of :: "string \<Rightarrow> migration_db \<Rightarrow> data_placement option" where
  "placement_of tenant_id db = row_get pl_tenant_id tenant_id (md_placements db)"

definition lock_placement :: "string \<Rightarrow> migration_db \<Rightarrow> data_placement app_result" where
  "lock_placement tenant_id db =
     (case placement_of tenant_id db of Some p \<Rightarrow> Inr p | None \<Rightarrow> Inl (NotFound msg_td_placement_missing))"

definition save_placement :: "data_placement \<Rightarrow> migration_db \<Rightarrow> migration_db" where
  "save_placement p db = db\<lparr>md_placements := row_put pl_tenant_id p (md_placements db)\<rparr>"

definition migration_by_id :: "int \<Rightarrow> migration_db \<Rightarrow> data_migration option" where
  "migration_by_id i db = row_get mg_id i (md_migrations db)"

definition lock_migration :: "int \<Rightarrow> migration_db \<Rightarrow> data_migration app_result" where
  "lock_migration i db =
     (case migration_by_id i db of Some m \<Rightarrow> Inr m | None \<Rightarrow> Inl (NotFound msg_td_migration_missing))"

definition save_migration :: "data_migration \<Rightarrow> migration_db \<Rightarrow> migration_db" where
  "save_migration m db = db\<lparr>md_migrations := row_put mg_id m (md_migrations db)\<rparr>"

definition migration_by_create_key :: "string \<Rightarrow> migration_db \<Rightarrow> data_migration option" where
  "migration_by_create_key h db = find (\<lambda>m. mg_create_idempotency_key_hash m = h) (md_migrations db)"

definition terminal_migration :: "data_migration \<Rightarrow> bool" where
  "terminal_migration m \<longleftrightarrow> mg_state m \<in> {mg_FINALIZED, mg_FAILED, mg_CANCELLED}"

text \<open>Newest first; one migration of a tenant at most is not finished.\<close>

definition active_migration_for_tenant :: "string \<Rightarrow> migration_db \<Rightarrow> data_migration option" where
  "active_migration_for_tenant tenant_id db =
     find (\<lambda>_. True) (rev (sort_key mg_created_at
       (filter (\<lambda>m. mg_tenant_id m = tenant_id \<and> \<not> terminal_migration m) (md_migrations db))))"

definition recoverable_migrations :: "int option \<Rightarrow> nat \<Rightarrow> migration_db \<Rightarrow> data_migration list" where
  "recoverable_migrations after_id limit db =
     take limit (sort_key mg_id (filter (\<lambda>m.
        (mg_state m \<notin> {mg_FINALIZED, mg_FAILED, mg_CANCELLED, mg_RETENTION_PENDING} \<or>
         mg_state m = mg_RETENTION_PENDING \<and> mg_finalize_requested_at m \<noteq> None) \<and>
        (case after_id of Some a \<Rightarrow> a < mg_id m | None \<Rightarrow> True)) (md_migrations db)))"

record CreateTenantDataMigration =
  cm_id :: int
  cm_tenant_id :: string
  cm_source_target_key :: string
  cm_target_key :: string
  cm_source_target_mode :: string
  cm_source_target_kind :: string
  cm_target_target_mode :: string
  cm_target_target_kind :: string
  cm_source_generation :: int
  cm_source_switch_token :: string
  cm_target_generation :: int
  cm_source_schema_fingerprint :: string
  cm_target_schema_fingerprint :: string
  cm_plan_hash :: string
  cm_create_idempotency_key_hash :: string
  cm_switch_token :: string
  cm_operator_id :: int
  cm_retention_hours :: int
  cm_now :: timestamp

definition new_migration :: "CreateTenantDataMigration \<Rightarrow> data_migration" where
  "new_migration c =
     \<lparr>mg_id = cm_id c, mg_tenant_id = cm_tenant_id c, mg_source_target_key = cm_source_target_key c,
      mg_target_key = cm_target_key c, mg_source_target_mode = cm_source_target_mode c,
      mg_source_target_kind = cm_source_target_kind c, mg_target_target_mode = cm_target_target_mode c,
      mg_target_target_kind = cm_target_target_kind c, mg_source_generation = cm_source_generation c,
      mg_source_switch_token = cm_source_switch_token c, mg_target_generation = cm_target_generation c,
      mg_source_schema_fingerprint = cm_source_schema_fingerprint c,
      mg_target_schema_fingerprint = cm_target_schema_fingerprint c, mg_plan_hash = cm_plan_hash c,
      mg_create_idempotency_key_hash = cm_create_idempotency_key_hash c,
      mg_cancel_idempotency_key_hash = None, mg_finalize_idempotency_key_hash = None,
      mg_state = mg_PRECHECKING, mg_switch_token = cm_switch_token c, mg_operator_id = cm_operator_id c,
      mg_cancelled_by = None, mg_finalized_by = None, mg_background_job_id = None,
      mg_retention_hours = cm_retention_hours c, mg_error_code = None, mg_error_detail = None,
      mg_prechecked_at = Some (cm_now c), mg_queued_at = None, mg_quiesced_at = None, mg_frozen_at = None,
      mg_copy_started_at = None, mg_copy_completed_at = None, mg_verified_at = None, mg_cut_over_at = None,
      mg_activated_at = None, mg_succeeded_at = None, mg_retention_until = None,
      mg_cancel_requested_at = None, mg_finalize_requested_at = None, mg_cleanup_ready_at = None,
      mg_finalized_at = None, mg_failed_at = None, mg_cancelled_at = None, mg_created_at = cm_now c,
      mg_updated_at = cm_now c\<rparr>"

text \<open>The unique keys of the table; the texts of the driver's errors are not modelled.\<close>

definition insert_migration :: "CreateTenantDataMigration \<Rightarrow> migration_db \<Rightarrow> (data_migration \<times> migration_db) app_result" where
  "insert_migration c db =
     (let m = new_migration c in
      if list_ex (\<lambda>x. mg_id x = mg_id m \<or> mg_switch_token x = mg_switch_token m \<or>
           mg_create_idempotency_key_hash x = mg_create_idempotency_key_hash m) (md_migrations db)
      then Inl (Database ''Duplicate entry'')
      else Inr (m, db\<lparr>md_migrations := m # md_migrations db\<rparr>))"

definition items_of :: "int \<Rightarrow> migration_db \<Rightarrow> data_migration_item list" where
  "items_of i db = sort_key mi_copy_order (filter (\<lambda>x. mi_migration_id x = i) (md_items db))"

definition insert_item :: "data_migration_item \<Rightarrow> migration_db \<Rightarrow> (data_migration_item \<times> migration_db) app_result" where
  "insert_item x db =
     (if list_ex (\<lambda>y. mi_id y = mi_id x \<or> mi_migration_id y = mi_migration_id x \<and> mi_table_name y = mi_table_name x)
           (md_items db)
      then Inl (Database ''Duplicate entry'')
      else Inr (x, db\<lparr>md_items := x # md_items db\<rparr>))"

text \<open>Saving a row that is gone is an error of the driver.\<close>

definition save_item :: "data_migration_item \<Rightarrow> migration_db \<Rightarrow> (data_migration_item \<times> migration_db) app_result" where
  "save_item x db =
     (if row_get mi_id (mi_id x) (md_items db) = None then Inl (Database ''None of the records are updated'')
      else Inr (x, db\<lparr>md_items := row_put mi_id x (md_items db)\<rparr>))"

definition lock_item :: "int \<Rightarrow> migration_db \<Rightarrow> data_migration_item app_result" where
  "lock_item i db =
     (case row_get mi_id i (md_items db) of Some x \<Rightarrow> Inr x | None \<Rightarrow> Inl (NotFound msg_td_item_missing))"

text \<open>
  \<open>validated_backup_for_destination\<close>, the existence of a row: on a shared target a backup of the whole
  shard counts, on a dedicated one a backup of the tenant at the generation of the migration.
\<close>

definition backup_qualifies :: "data_migration \<Rightarrow> timestamp \<Rightarrow> timestamp \<Rightarrow> data_backup_point \<Rightarrow> bool" where
  "backup_qualifies m not_before now b \<longleftrightarrow>
     bp_target_key b = mg_target_key m \<and> bp_schema_fingerprint b = mg_target_schema_fingerprint m \<and>
     bp_validation_status b = ''valid'' \<and> bp_checksum b \<noteq> None \<and> bp_checksum b \<noteq> Some [] \<and>
     not_before \<le> bp_captured_at b \<and> now \<le> bp_retention_until b \<and>
     (case bp_expires_at b of None \<Rightarrow> True | Some e \<Rightarrow> now < e) \<and>
     (if mg_target_target_mode m = ''shared''
      then bp_scope b = ''shard'' \<and> bp_tenant_id b = None \<and> bp_placement_generation b = None
      else bp_scope b = ''tenant'' \<and> bp_tenant_id b = Some (mg_tenant_id m) \<and>
           bp_placement_generation b = Some (mg_target_generation m))"

definition has_validated_backup :: "data_migration \<Rightarrow> timestamp \<Rightarrow> timestamp \<Rightarrow> migration_db \<Rightarrow> bool" where
  "has_validated_backup m not_before now db \<longleftrightarrow> list_ex (backup_qualifies m not_before now) (md_backups db)"

definition occupied_target_keys :: "string list \<Rightarrow> migration_db \<Rightarrow> string list app_result" where
  "occupied_target_keys keys db =
     (if remdups keys = [] then Inr []
      else if 200 < length (remdups keys)
      then Inl (Config ''tenant-data target occupancy snapshot exceeds the configured 200-target limit'')
      else Inr (remdups
        (map pl_current_target_key (filter (\<lambda>p. pl_current_target_key p \<in> set keys \<and>
            pl_state p \<in> {pl_ACTIVE, pl_MAINTENANCE, pl_PROVISIONING}) (md_placements db)) @
         map mg_target_key (filter (\<lambda>m. mg_target_key m \<in> set keys \<and> \<not> terminal_migration m) (md_migrations db)) @
         map mg_source_target_key
           (filter (\<lambda>m. mg_source_target_key m \<in> set keys \<and> \<not> terminal_migration m) (md_migrations db)))))"

end
