(* ===== verification/Migration_Io.thy ===== *)
theory Migration_Io
  imports Migration_Records
begin

text \<open>
  How a migration talks to its surroundings. A worker is a sequence of calls: transactions of the
  control database and calls on the targets. Before every call anything else may happen (other
  requests, other tenants, the clock), and every call can be refused, can take effect while its
  answer is lost, or can be the last thing the process does. A \<open>turn\<close> is what the surroundings do
  at one call; a run is a function of the list of turns and the world.
\<close>

section \<open>The world\<close>

text \<open>
  \<open>wd_accepted\<close> is a history variable that no definition of the code reads: for every tenant and
  table the rows its business transactions have left behind, in the order of their key.
\<close>

record world =
  wd_db :: migration_db
  wd_targets :: "string \<Rightarrow> target_db"
  wd_now :: timestamp
  wd_accepted :: "string \<Rightarrow> string \<Rightarrow> data_row list"

datatype reply = Completes | Refuses app_error | Loses app_error | Breaks

text \<open>\<open>tu_clock\<close> is the clock of the instance and \<open>tu_id\<close> what its generator of identifiers hands out.\<close>

record turn =
  tu_others :: "world \<Rightarrow> world"
  tu_reply :: reply
  tu_clock :: timestamp
  tu_id :: "int app_result"

datatype 'a outcome = Value 'a | Failed app_error | Stopped

type_synonym 'a io = "turn list \<Rightarrow> world \<Rightarrow> 'a outcome \<times> turn list \<times> world"

section \<open>Programs\<close>

definition io_return :: "'a \<Rightarrow> 'a io" where
  "io_return x ts w = (Value x, ts, w)"

definition io_fail :: "app_error \<Rightarrow> 'a io" where
  "io_fail e ts w = (Failed e, ts, w)"

definition io_lift :: "'a app_result \<Rightarrow> 'a io" where
  "io_lift r = (case r of Inl e \<Rightarrow> io_fail e | Inr x \<Rightarrow> io_return x)"

definition io_bind :: "'a io \<Rightarrow> ('a \<Rightarrow> 'b io) \<Rightarrow> 'b io" where
  "io_bind m f ts w =
     (case m ts w of
        (Value x, ts', w') \<Rightarrow> f x ts' w'
      | (Failed e, ts', w') \<Rightarrow> (Failed e, ts', w')
      | (Stopped, ts', w') \<Rightarrow> (Stopped, ts', w'))"

definition io_catch :: "'a io \<Rightarrow> (app_error \<Rightarrow> 'a io) \<Rightarrow> 'a io" where
  "io_catch m h ts w =
     (case m ts w of
        (Failed e, ts', w') \<Rightarrow> h e ts' w'
      | (Value x, ts', w') \<Rightarrow> (Value x, ts', w')
      | (Stopped, ts', w') \<Rightarrow> (Stopped, ts', w'))"

text \<open>\<open>let _ = m.await\<close>: the answer of a call is ignored.\<close>

definition io_ignore :: "'a io \<Rightarrow> unit io" where
  "io_ignore m = io_catch (io_bind m (\<lambda>_. io_return ())) (\<lambda>_. io_return ())"

text \<open>One call. Without a turn the process has ended.\<close>

definition io_call :: "(turn \<Rightarrow> world \<Rightarrow> ('a \<times> world) app_result) \<Rightarrow> 'a io" where
  "io_call f ts w =
     (case ts of
        [] \<Rightarrow> (Stopped, [], w)
      | t # ts' \<Rightarrow>
          let w1 = tu_others t w in
          case tu_reply t of
            Completes \<Rightarrow> (case f t w1 of Inl e \<Rightarrow> (Failed e, ts', w1) | Inr (x, w2) \<Rightarrow> (Value x, ts', w2))
          | Refuses e \<Rightarrow> (Failed e, ts', w1)
          | Loses e \<Rightarrow> (Failed e, ts', (case f t w1 of Inl _ \<Rightarrow> w1 | Inr (_, w2) \<Rightarrow> w2))
          | Breaks \<Rightarrow> (Stopped, ts', w1))"

text \<open>
  A loop runs its body until it returns \<open>Inr\<close>. Every body used below makes at least one call, so
  with one unit of fuel more than there are turns the fuel never runs out (\<open>loop_fuel_enough\<close>).
\<close>

fun loop_fuel :: "nat \<Rightarrow> ('s \<Rightarrow> ('s + 'r) io) \<Rightarrow> 's \<Rightarrow> 'r io" where
  "loop_fuel 0 body s ts w = (Stopped, ts, w)"
| "loop_fuel (Suc n) body s ts w =
     (case body s ts w of
        (Value (Inl s'), ts', w') \<Rightarrow> loop_fuel n body s' ts' w'
      | (Value (Inr r), ts', w') \<Rightarrow> (Value r, ts', w')
      | (Failed e, ts', w') \<Rightarrow> (Failed e, ts', w')
      | (Stopped, ts', w') \<Rightarrow> (Stopped, ts', w'))"

definition io_loop :: "('s \<Rightarrow> ('s + 'r) io) \<Rightarrow> 's \<Rightarrow> 'r io" where
  "io_loop body s ts w = loop_fuel (Suc (length ts)) body s ts w"

fun io_each :: "('a \<Rightarrow> unit io) \<Rightarrow> 'a list \<Rightarrow> unit io" where
  "io_each f [] = io_return ()"
| "io_each f (x # xs) = io_bind (f x) (\<lambda>_. io_each f xs)"

section \<open>Fuel\<close>

definition consumes :: "'a io \<Rightarrow> bool" where
  "consumes m \<longleftrightarrow> (\<forall>ts w x ts' w'. m ts w = (Value x, ts', w') \<longrightarrow> length ts' < length ts)"

definition passes :: "'a io \<Rightarrow> bool" where
  "passes m \<longleftrightarrow> (\<forall>ts w. length (fst (snd (m ts w))) \<le> length ts)"

lemma passesD: "passes m \<Longrightarrow> m ts w = (r, ts', w') \<Longrightarrow> length ts' \<le> length ts"
  unfolding passes_def by (metis fst_conv snd_conv)

lemma consumesD: "consumes m \<Longrightarrow> m ts w = (Value x, ts', w') \<Longrightarrow> length ts' < length ts"
  unfolding consumes_def by blast

lemma passes_call [intro, simp]: "passes (io_call f)"
  by (auto simp: passes_def io_call_def Let_def split: list.split reply.split sum.split)

lemma consumes_call [intro, simp]: "consumes (io_call f)"
  by (auto simp: consumes_def io_call_def Let_def split: list.splits reply.splits sum.splits)

lemma passes_return [intro, simp]: "passes (io_return x)" "passes (io_fail e)" "passes (io_lift r)"
  by (auto simp: passes_def io_return_def io_fail_def io_lift_def split: sum.split)

lemma passes_bind [intro]:
  assumes "passes m" "\<And>x. passes (f x)"
  shows "passes (io_bind m f)"
  unfolding passes_def
proof (intro allI)
  fix ts w
  obtain r ts' w' where m: "m ts w = (r, ts', w')" by (cases "m ts w")
  have "length ts' \<le> length ts" by (rule passesD [OF assms(1) m])
  moreover have "length (fst (snd (f x ts' w'))) \<le> length ts'" for x
    using assms(2) by (simp add: passes_def)
  ultimately show "length (fst (snd (io_bind m f ts w))) \<le> length ts"
    using m by (auto simp: io_bind_def intro: le_trans split: outcome.split)
qed

lemma passes_catch [intro]:
  assumes "passes m" "\<And>e. passes (h e)"
  shows "passes (io_catch m h)"
  unfolding passes_def
proof (intro allI)
  fix ts w
  obtain r ts' w' where m: "m ts w = (r, ts', w')" by (cases "m ts w")
  have "length ts' \<le> length ts" by (rule passesD [OF assms(1) m])
  moreover have "length (fst (snd (h e ts' w'))) \<le> length ts'" for e
    using assms(2) by (simp add: passes_def)
  ultimately show "length (fst (snd (io_catch m h ts w))) \<le> length ts"
    using m by (auto simp: io_catch_def intro: le_trans split: outcome.split)
qed

lemma consumes_bind [intro]:
  assumes "consumes m" "\<And>x. passes (f x)"
  shows "consumes (io_bind m f)"
  unfolding consumes_def
proof (intro allI impI)
  fix ts w y ts2 w2
  assume run: "io_bind m f ts w = (Value y, ts2, w2)"
  then obtain x ts' w' where m: "m ts w = (Value x, ts', w')" "f x ts' w' = (Value y, ts2, w2)"
    by (auto simp: io_bind_def split: prod.splits outcome.splits)
  have "length ts2 \<le> length ts'" using assms(2) m(2) by (rule passesD)
  moreover have "length ts' < length ts" using assms(1) m(1) by (rule consumesD)
  ultimately show "length ts2 < length ts" by simp
qed

text \<open>A loop whose body makes a call does not depend on the fuel once there is enough of it.\<close>

lemma loop_fuel_enough:
  assumes "\<And>s. consumes (body s)" "length ts < n" "n \<le> n'"
  shows "loop_fuel n' body s ts w = loop_fuel n body s ts w"
  using assms(2,3)
proof (induction n arbitrary: n' s ts w)
  case (Suc n)
  then obtain k where k: "n' = Suc k" "n \<le> k" by (cases n') auto
  obtain r ts' w' where b: "body s ts w = (r, ts', w')" by (cases "body s ts w")
  show ?case
  proof (cases r)
    case (Value x)
    then have "length ts' < length ts" using consumesD [OF assms(1)] b by simp
    then have "length ts' < n" using Suc.prems(1) by simp
    then have "loop_fuel k body s' ts' w' = loop_fuel n body s' ts' w'" for s' using k(2) by (rule Suc.IH)
    then show ?thesis using b Value k(1) by (simp split: sum.split)
  qed (use b k in simp_all)
qed simp

section \<open>Calls on the databases\<close>

text \<open>
  A transaction of the control database locks the row of the tenant before it works and commits at
  its end, so it is one call; it sees the clock of the database.
\<close>

definition control_txn :: "(turn \<Rightarrow> timestamp \<Rightarrow> migration_db \<Rightarrow> ('a \<times> migration_db) app_result) \<Rightarrow> 'a io" where
  "control_txn f = io_call (\<lambda>t w. bind_result (f t (wd_now w) (wd_db w)) (\<lambda>(x, db). Inr (x, w\<lparr>wd_db := db\<rparr>)))"

definition control_read :: "(migration_db \<Rightarrow> 'a app_result) \<Rightarrow> 'a io" where
  "control_read f = io_call (\<lambda>t w. bind_result (f (wd_db w)) (\<lambda>x. Inr (x, w)))"

definition database_now :: "timestamp io" where
  "database_now = io_call (\<lambda>t w. Inr (wd_now w, w))"

definition target_call :: "((string \<Rightarrow> target_db) \<Rightarrow> ('a \<times> (string \<Rightarrow> target_db)) app_result) \<Rightarrow> 'a io" where
  "target_call f = io_call (\<lambda>t w. bind_result (f (wd_targets w)) (\<lambda>(x, ts). Inr (x, w\<lparr>wd_targets := ts\<rparr>)))"

definition target_read :: "((string \<Rightarrow> target_db) \<Rightarrow> 'a app_result) \<Rightarrow> 'a io" where
  "target_read f = io_call (\<lambda>t w. bind_result (f (wd_targets w)) (\<lambda>x. Inr (x, w)))"

text \<open>The clock of the instance and the generator of identifiers are local.\<close>

definition local_clock :: "timestamp io" where
  "local_clock ts w = (Value (case ts of [] \<Rightarrow> 0 | t # _ \<Rightarrow> tu_clock t), ts, w)"

definition fresh_id :: "int io" where
  "fresh_id ts w = (case ts of [] \<Rightarrow> (Stopped, [], w) | t # _ \<Rightarrow> io_lift (tu_id t) ts w)"

lemma passes_calls [intro, simp]:
  "passes (control_txn f)" "passes (control_read g)" "passes database_now" "passes (target_call h)"
  "passes (target_read i)" "passes local_clock" "passes fresh_id"
  by (simp_all add: control_txn_def control_read_def database_now_def target_call_def target_read_def)
     (auto simp: passes_def local_clock_def fresh_id_def io_lift_def io_return_def io_fail_def split: list.split sum.split)

lemma consumes_calls [intro, simp]:
  "consumes (control_txn f)" "consumes (control_read g)" "consumes database_now" "consumes (target_call h)"
  "consumes (target_read i)"
  by (simp_all add: control_txn_def control_read_def database_now_def target_call_def target_read_def)

end
