(* ===== verification/Migration_Steps.thy ===== *)
theory Migration_Steps
  imports Migration_Io
begin

text \<open>
  The transactions of the control database a migration is made of
  (\<open>ryframe-application/src/system/tenant/data_migration\<close>: \<open>workflow.rs\<close>, \<open>workflow/lifecycle.rs\<close>,
  \<open>recovery.rs\<close>, \<open>copy.rs\<close>). In all of them \<open>now\<close> is the time the caller asked the database for before
  it opened the transaction, \<open>tnow\<close> the clock of the database during it, and \<open>clock\<close> the clock of the
  instance. An error rolls everything back.
\<close>

section \<open>The surroundings of a migration\<close>

record migration_env =
  me_registry :: target_registry
  me_catalog :: catalog
  me_codec :: data_codec
  me_fingerprint :: string \<comment> \<open>of the catalog this build was compiled with\<close>
  me_pk_order :: "string \<Rightarrow> data_row list \<Rightarrow> data_row list" \<comment> \<open>how a table orders its primary keys\<close>

definition OPERATION_LEASE_HOURS :: int where "OPERATION_LEASE_HOURS = 24"
definition RETENTION_HOURS :: int where "RETENTION_HOURS = 168"

definition hours :: "int \<Rightarrow> timestamp" where "hours n = n * 3600000000"

definition checked_generation :: "int \<Rightarrow> string \<Rightarrow> int app_result" where
  "checked_generation v field = (if 0 < v then Inr v else Inl (Conflict (field @ msg_td_generation)))"

text \<open>\<open>ensure_migration_contract\<close>\<close>

definition ensure_migration_contract :: "migration_env \<Rightarrow> data_migration \<Rightarrow> unit app_result" where
  "ensure_migration_contract env m =
     (let f = me_fingerprint env; reg = me_registry env in
      if mg_source_schema_fingerprint m \<noteq> f \<or> mg_target_schema_fingerprint m \<noteq> f
      then Inl (TenantOperationConflict msg_td_contract)
      else case (target_mode_code reg (mg_source_target_key m), target_kind_code reg (mg_source_target_key m)) of
        (Some sm, Some sk) \<Rightarrow>
          (case (target_mode_code reg (mg_target_key m), target_kind_code reg (mg_target_key m)) of
             (Some tm, Some tk) \<Rightarrow>
               if mg_source_target_mode m \<noteq> sm \<or> mg_source_target_kind m \<noteq> sk \<or>
                  mg_target_target_mode m \<noteq> tm \<or> mg_target_target_kind m \<noteq> tk
               then Inl (TenantOperationConflict msg_td_drift) else Inr ()
           | _ \<Rightarrow> Inl (TenantDataTargetUnavailable msg_td_target_unregistered 5))
      | _ \<Rightarrow> Inl (TenantDataTargetUnavailable msg_td_source_unregistered 5))"

definition ensure_not_cancel_requested :: "data_migration \<Rightarrow> unit app_result" where
  "ensure_not_cancel_requested m =
     (if mg_cancel_idempotency_key_hash m \<noteq> None \<or> mg_cancel_requested_at m \<noteq> None
      then Inl (TenantOperationConflict msg_td_cancelling)
      else if mg_error_code m \<noteq> None then Inl (TenantOperationConflict msg_td_compensating)
      else Inr ())"

datatype RecoveryIntent = Cancel | Failure | Finalize

definition validate_recovery_intent :: "data_migration \<Rightarrow> RecoveryIntent \<Rightarrow> unit app_result" where
  "validate_recovery_intent m intent =
     (if (case intent of
            Cancel \<Rightarrow> can_cancel m \<and> mg_cancel_idempotency_key_hash m \<noteq> None \<and>
              mg_cancel_requested_at m \<noteq> None \<and> mg_error_code m = None
          | Failure \<Rightarrow> can_cancel m \<and> mg_error_code m \<noteq> None \<and> mg_cancel_idempotency_key_hash m = None
          | Finalize \<Rightarrow> mg_state m = mg_RETENTION_PENDING \<and> mg_finalize_idempotency_key_hash m \<noteq> None \<and>
              mg_finalize_requested_at m \<noteq> None)
      then Inr () else Inl (TenantOperationConflict msg_td_intent))"

definition migration_requires_worker :: "data_migration \<Rightarrow> bool" where
  "migration_requires_worker m \<longleftrightarrow>
     mg_state m \<notin> {mg_FINALIZED, mg_FAILED, mg_CANCELLED, mg_RETENTION_PENDING} \<or>
     mg_state m = mg_RETENTION_PENDING \<and> mg_finalize_requested_at m \<noteq> None"

section \<open>The lease\<close>

definition acquire_or_renew_operation_lease ::
  "data_migration \<Rightarrow> timestamp \<Rightarrow> timestamp \<Rightarrow> migration_db \<Rightarrow> migration_db app_result" where
  "acquire_or_renew_operation_lease m now tnow db =
     acquire_lease \<lparr>ol_tenant_id = mg_tenant_id m, ol_owner_token = mg_switch_token m,
       ol_operation = ''tenant_data.migration'', ol_resource_type = ''tenant_data_migration'',
       ol_resource_id = show_int (mg_id m), ol_expires_at = now + hours OPERATION_LEASE_HOURS,
       ol_created_at = now, ol_updated_at = now\<rparr> tnow db"

definition renew_operation_lease ::
  "data_migration \<Rightarrow> timestamp \<Rightarrow> timestamp \<Rightarrow> migration_db \<Rightarrow> migration_db app_result" where
  "renew_operation_lease m now tnow db =
     bind_result (renew_lease_of (mg_tenant_id m) (mg_switch_token m) (now + hours OPERATION_LEASE_HOURS) tnow db)
       (\<lambda>(renewed, db1). if renewed then Inr db1 else Inl (TenantOperationConflict msg_td_lease_own))"

definition release_operation_lease :: "data_migration \<Rightarrow> timestamp \<Rightarrow> migration_db \<Rightarrow> migration_db app_result" where
  "release_operation_lease m tnow db =
     bind_result (release_lease_of (mg_tenant_id m) (mg_switch_token m) tnow db) (\<lambda>(_, db1). Inr db1)"

section \<open>Transactions of the worker\<close>

definition reacquire_execution_lease_txn ::
  "migration_env \<Rightarrow> data_migration \<Rightarrow> timestamp \<Rightarrow> timestamp \<Rightarrow> migration_db \<Rightarrow> (data_migration \<times> migration_db) app_result"
where
  "reacquire_execution_lease_txn env m now tnow db =
     bind_result (acquire_or_renew_operation_lease m now tnow db) (\<lambda>db1.
     bind_result (lock_migration (mg_id m) db1) (\<lambda>current.
     bind_result (ensure_migration_contract env current) (\<lambda>_. Inr (current, db1))))"

definition assert_worker_can_run_txn ::
  "data_migration \<Rightarrow> string \<Rightarrow> timestamp \<Rightarrow> timestamp \<Rightarrow> migration_db \<Rightarrow> (unit \<times> migration_db) app_result" where
  "assert_worker_can_run_txn m expected now tnow db =
     bind_result (acquire_or_renew_operation_lease m now tnow db) (\<lambda>db1.
     bind_result (lock_migration (mg_id m) db1) (\<lambda>current.
     bind_result (ensure_not_cancel_requested current) (\<lambda>_.
     if mg_state current \<noteq> expected
     then Inl (TenantOperationConflict (msg_td_state_changed @ expected @ msg_td_state_actual @ mg_state current))
     else Inr ((), db1))))"

definition same_source :: "data_placement \<Rightarrow> data_migration \<Rightarrow> bool" where
  "same_source p m \<longleftrightarrow> pl_current_target_key p = mg_source_target_key m \<and>
     pl_placement_generation p = mg_source_generation m \<and> pl_switch_token p = mg_source_switch_token m"

definition same_target :: "data_placement \<Rightarrow> data_migration \<Rightarrow> bool" where
  "same_target p m \<longleftrightarrow> pl_current_target_key p = mg_target_key m \<and>
     pl_placement_generation p = mg_target_generation m \<and> pl_switch_token p = mg_switch_token m"

text \<open>\<open>get_or_insert\<close>\<close>

definition or_now :: "timestamp option \<Rightarrow> timestamp \<Rightarrow> timestamp option" where
  "or_now t now = (case t of None \<Rightarrow> Some now | Some _ \<Rightarrow> t)"

definition enter_maintenance_txn ::
  "data_migration \<Rightarrow> timestamp \<Rightarrow> timestamp \<Rightarrow> timestamp \<Rightarrow> migration_db \<Rightarrow> (data_migration \<times> migration_db) app_result"
where
  "enter_maintenance_txn snapshot now tnow clock db =
     bind_result (acquire_or_renew_operation_lease snapshot now tnow db) (\<lambda>db1.
     bind_result (lock_tenant_of (mg_tenant_id snapshot) (Some (mg_switch_token snapshot)) tnow db1) (\<lambda>(_, db2).
     bind_result (lock_placement (mg_tenant_id snapshot) db2) (\<lambda>p.
     bind_result (lock_migration (mg_id snapshot) db2) (\<lambda>m.
     bind_result (ensure_not_cancel_requested m) (\<lambda>_.
     if mg_state m = mg_QUIESCING then Inr (m, db2)
     else if mg_state m \<noteq> mg_QUEUED then Inl (TenantOperationConflict msg_td_no_quiesce)
     else if \<not> same_source p m then Inl (StalePlacementGeneration msg_td_plan_placement)
     else bind_result
       (if pl_state p = pl_ACTIVE
        then increment_runtime_epoch (mg_tenant_id m) clock
               (save_placement (p\<lparr>pl_state := pl_MAINTENANCE, pl_updated_at := now\<rparr>) db2)
        else if pl_state p \<noteq> pl_MAINTENANCE then Inl (TenantOperationConflict msg_td_no_maintenance)
        else Inr db2) (\<lambda>db3.
       let m' = m\<lparr>mg_state := mg_QUIESCING, mg_quiesced_at := or_now (mg_quiesced_at m) now, mg_updated_at := now\<rparr>
       in Inr (m', save_migration m' db3)))))))"

definition cut_over_txn ::
  "data_migration \<Rightarrow> timestamp \<Rightarrow> timestamp \<Rightarrow> timestamp \<Rightarrow> migration_db \<Rightarrow> (data_migration \<times> migration_db) app_result"
where
  "cut_over_txn snapshot now tnow clock db =
     bind_result (renew_operation_lease snapshot now tnow db) (\<lambda>db1.
     bind_result (lock_tenant_of (mg_tenant_id snapshot) (Some (mg_switch_token snapshot)) tnow db1) (\<lambda>(_, db2).
     bind_result (lock_placement (mg_tenant_id snapshot) db2) (\<lambda>p.
     bind_result (lock_migration (mg_id snapshot) db2) (\<lambda>m.
     bind_result (ensure_not_cancel_requested m) (\<lambda>_.
     if mg_state m = mg_ACTIVATING then Inr (m, db2)
     else if mg_state m \<noteq> mg_CUTTING_OVER then Inl (TenantOperationConflict msg_td_no_cutover)
     else if pl_state p \<noteq> pl_MAINTENANCE \<or> pl_current_target_key p \<noteq> mg_source_target_key m \<or>
             pl_placement_generation p \<noteq> mg_source_generation m
     then Inl (StalePlacementGeneration msg_td_cutover_placement)
     else
       let p' = p\<lparr>pl_current_target_key := mg_target_key m, pl_placement_generation := mg_target_generation m,
                  pl_switch_token := mg_switch_token m, pl_updated_at := now\<rparr>
       in bind_result (increment_runtime_epoch (mg_tenant_id m) clock (save_placement p' db2)) (\<lambda>db3.
       let m' = m\<lparr>mg_state := mg_ACTIVATING, mg_cut_over_at := or_now (mg_cut_over_at m) now, mg_updated_at := now\<rparr>
       in Inr (m', save_migration m' db3)))))))"

definition activate_control_txn ::
  "data_migration \<Rightarrow> timestamp \<Rightarrow> timestamp \<Rightarrow> timestamp \<Rightarrow> migration_db \<Rightarrow> (data_migration \<times> migration_db) app_result"
where
  "activate_control_txn snapshot now tnow clock db =
     bind_result (renew_operation_lease snapshot now tnow db) (\<lambda>db1.
     bind_result (lock_tenant_of (mg_tenant_id snapshot) (Some (mg_switch_token snapshot)) tnow db1) (\<lambda>(_, db2).
     bind_result (lock_placement (mg_tenant_id snapshot) db2) (\<lambda>p.
     bind_result (lock_migration (mg_id snapshot) db2) (\<lambda>m.
     bind_result (ensure_not_cancel_requested m) (\<lambda>_.
     if mg_state m = mg_SUCCEEDED then Inr (m, db2)
     else if mg_state m \<noteq> mg_ACTIVATING then Inl (TenantOperationConflict msg_td_no_activate)
     else if \<not> same_target p m then Inl (StalePlacementGeneration msg_td_activate_placement)
     else
       let db3 = save_placement (p\<lparr>pl_state := pl_ACTIVE, pl_updated_at := now\<rparr>) db2 in
       bind_result (if pl_state p \<noteq> pl_ACTIVE then increment_runtime_epoch (mg_tenant_id m) clock db3 else Inr db3)
         (\<lambda>db4.
       let m' = m\<lparr>mg_state := mg_SUCCEEDED, mg_activated_at := or_now (mg_activated_at m) now,
                  mg_succeeded_at := or_now (mg_succeeded_at m) now, mg_updated_at := now\<rparr>
       in Inr (m', save_migration m' db4)))))))"

definition enter_retention_txn ::
  "data_migration \<Rightarrow> timestamp \<Rightarrow> timestamp \<Rightarrow> migration_db \<Rightarrow> (data_migration \<times> migration_db) app_result"
where
  "enter_retention_txn snapshot now tnow db =
     bind_result (renew_operation_lease snapshot now tnow db) (\<lambda>db1.
     bind_result (lock_migration (mg_id snapshot) db1) (\<lambda>m.
     if mg_state m = mg_RETENTION_PENDING then Inr (m, db1)
     else if mg_state m \<noteq> mg_SUCCEEDED then Inl (TenantOperationConflict msg_td_no_retention)
     else
       let m' = m\<lparr>mg_state := mg_RETENTION_PENDING,
                  mg_retention_until := Some ((case mg_succeeded_at m of Some t \<Rightarrow> t | None \<Rightarrow> now) +
                    hours (mg_retention_hours m)),
                  mg_updated_at := now\<rparr>
       in bind_result (release_operation_lease m' tnow (save_migration m' db1)) (\<lambda>db2. Inr (m', db2))))"

text \<open>\<open>set_state\<close>; \<open>update\<close> stamps the time of the stage that was reached.\<close>

definition set_state_txn ::
  "data_migration \<Rightarrow> string \<Rightarrow> (data_migration \<Rightarrow> timestamp \<Rightarrow> data_migration) \<Rightarrow> timestamp \<Rightarrow> timestamp \<Rightarrow>
   migration_db \<Rightarrow> (data_migration \<times> migration_db) app_result" where
  "set_state_txn snapshot state update now tnow db =
     bind_result (renew_operation_lease snapshot now tnow db) (\<lambda>db1.
     bind_result (lock_migration (mg_id snapshot) db1) (\<lambda>m.
     bind_result (ensure_not_cancel_requested m) (\<lambda>_.
     if mg_state m = state then Inr (m, db1)
     else if mg_state m \<noteq> mg_state snapshot
     then Inl (TenantOperationConflict (msg_td_state_changed @ mg_state snapshot @ msg_td_state_actual @ mg_state m))
     else let m' = update (m\<lparr>mg_state := state, mg_updated_at := now\<rparr>) now in Inr (m', save_migration m' db1))))"

section \<open>Transactions of the recovery\<close>

definition assert_recovery_can_run_txn ::
  "data_migration \<Rightarrow> RecoveryIntent \<Rightarrow> timestamp \<Rightarrow> timestamp \<Rightarrow> migration_db \<Rightarrow> (data_migration \<times> migration_db) app_result"
where
  "assert_recovery_can_run_txn snapshot intent now tnow db =
     bind_result (acquire_or_renew_operation_lease snapshot now tnow db) (\<lambda>db1.
     bind_result (lock_migration (mg_id snapshot) db1) (\<lambda>current.
     bind_result (validate_recovery_intent current intent) (\<lambda>_. Inr (current, db1))))"

definition restore_source_placement_txn ::
  "data_migration \<Rightarrow> RecoveryIntent \<Rightarrow> timestamp \<Rightarrow> timestamp \<Rightarrow> timestamp \<Rightarrow> migration_db \<Rightarrow>
   (data_migration \<times> migration_db) app_result" where
  "restore_source_placement_txn snapshot intent now tnow clock db =
     bind_result (acquire_or_renew_operation_lease snapshot now tnow db) (\<lambda>db1.
     bind_result (lock_tenant_of (mg_tenant_id snapshot) (Some (mg_switch_token snapshot)) tnow db1) (\<lambda>(_, db2).
     bind_result (lock_placement (mg_tenant_id snapshot) db2) (\<lambda>p.
     bind_result (lock_migration (mg_id snapshot) db2) (\<lambda>m.
     bind_result (validate_recovery_intent m intent) (\<lambda>_.
     if \<not> same_source p m \<or> pl_state p \<notin> {pl_ACTIVE, pl_MAINTENANCE}
     then Inl (StalePlacementGeneration msg_td_restore_placement)
     else if pl_state p \<noteq> pl_ACTIVE
     then bind_result (increment_runtime_epoch (mg_tenant_id m) clock
            (save_placement (p\<lparr>pl_state := pl_ACTIVE, pl_updated_at := now\<rparr>) db2)) (\<lambda>db3. Inr (m, db3))
     else Inr (m, db2))))))"

text \<open>What a batch of the cleanup records of itself.\<close>

definition cleanup_batch_txn ::
  "data_migration \<Rightarrow> RecoveryIntent \<Rightarrow> int \<Rightarrow> nat \<Rightarrow> timestamp \<Rightarrow> timestamp \<Rightarrow> migration_db \<Rightarrow>
   (data_migration_item \<times> migration_db) app_result" where
  "cleanup_batch_txn snapshot intent item_id deleted now tnow db =
     bind_result (acquire_or_renew_operation_lease snapshot now tnow db) (\<lambda>db1.
     bind_result (lock_migration (mg_id snapshot) db1) (\<lambda>current.
     bind_result (validate_recovery_intent current intent) (\<lambda>_.
     bind_result (lock_item item_id db1) (\<lambda>item.
     case (if is_i64 (int deleted) then checked_add_i64 (mi_cleanup_row_count item) (int deleted) else None) of
       None \<Rightarrow> Inl (Internal ''cleanup row count overflow'')
     | Some n \<Rightarrow>
         save_item (item\<lparr>mi_cleanup_state := (if deleted < 500 then mi_CLEANUP_CLEANED else mi_CLEANUP_CLEANING),
                         mi_cleanup_row_count := n, mi_updated_at := now\<rparr>) db1))))"

definition cleanup_checkpoint_txn ::
  "data_migration \<Rightarrow> RecoveryIntent \<Rightarrow> timestamp \<Rightarrow> timestamp \<Rightarrow> migration_db \<Rightarrow> (unit \<times> migration_db) app_result"
where
  "cleanup_checkpoint_txn snapshot intent now tnow db =
     bind_result (acquire_or_renew_operation_lease snapshot now tnow db) (\<lambda>db1.
     bind_result (lock_migration (mg_id snapshot) db1) (\<lambda>m.
     bind_result (validate_recovery_intent m intent) (\<lambda>_.
     Inr ((), if mg_cleanup_ready_at m = None
       then save_migration (m\<lparr>mg_cleanup_ready_at := Some now, mg_updated_at := now\<rparr>) db1 else db1))))"

text \<open>
  The three transactions that end a recovery differ in the state they check the placement against,
  the state they end in and the time they stamp: \<open>reconcile_cancel_intent\<close>, \<open>compensate_before_cutover\<close>
  and \<open>reconcile_finalize_intent\<close>.
\<close>

definition close_recovery ::
  "RecoveryIntent \<Rightarrow> (data_placement \<Rightarrow> data_migration \<Rightarrow> bool) \<Rightarrow> string \<Rightarrow>
   (data_migration \<Rightarrow> timestamp \<Rightarrow> data_migration) \<Rightarrow> data_migration \<Rightarrow> timestamp \<Rightarrow> timestamp \<Rightarrow> migration_db \<Rightarrow>
   (data_migration \<times> migration_db) app_result" where
  "close_recovery intent fits stale stamp snapshot now tnow db =
     bind_result (acquire_or_renew_operation_lease snapshot now tnow db) (\<lambda>db1.
     bind_result (lock_placement (mg_tenant_id snapshot) db1) (\<lambda>p.
     bind_result (lock_migration (mg_id snapshot) db1) (\<lambda>m.
     bind_result (validate_recovery_intent m intent) (\<lambda>_.
     if \<not> fits p m \<or> pl_state p \<noteq> pl_ACTIVE then Inl (StalePlacementGeneration stale)
     else
       let m' = stamp m now in
       bind_result (release_operation_lease m' tnow (save_migration m' db1)) (\<lambda>db2. Inr (m', db2))))))"

definition close_cancel_txn where
  "close_cancel_txn = close_recovery Cancel same_source msg_td_cancel_placement
     (\<lambda>m now. m\<lparr>mg_state := mg_CANCELLED, mg_cancelled_at := Some now, mg_updated_at := now\<rparr>)"

definition close_failure_txn where
  "close_failure_txn = close_recovery Failure same_source msg_td_fail_placement
     (\<lambda>m now. m\<lparr>mg_state := mg_FAILED, mg_failed_at := Some now, mg_updated_at := now\<rparr>)"

definition close_finalize_txn where
  "close_finalize_txn = close_recovery Finalize same_target msg_td_finalize_placement
     (\<lambda>m now. m\<lparr>mg_state := mg_FINALIZED, mg_finalized_at := Some now, mg_updated_at := now\<rparr>)"

text \<open>
  The intent of a compensation: the error code, at most 64 characters of it, keeps every other
  transition out. \<open>None\<close>: nothing to do any more; the transaction ends without a commit.
\<close>

definition compensation_intent_txn ::
  "data_migration \<Rightarrow> string \<Rightarrow> timestamp \<Rightarrow> timestamp \<Rightarrow> migration_db \<Rightarrow> (data_migration option \<times> migration_db) app_result"
where
  "compensation_intent_txn snapshot code now tnow db =
     bind_result (acquire_or_renew_operation_lease snapshot now tnow db) (\<lambda>db1.
     bind_result (lock_migration (mg_id snapshot) db1) (\<lambda>m.
     if mg_cancel_idempotency_key_hash m \<noteq> None then Inl (TenantOperationConflict msg_td_user_cancel)
     else if \<not> can_cancel m then Inr (None, db)
     else
       let m' = (if mg_error_code m = None
                 then m\<lparr>mg_error_code := Some (take 64 code), mg_error_detail := None, mg_updated_at := now\<rparr>
                 else m)
       in Inr (Some m', if mg_error_code m = None then save_migration m' db1 else db1)))"

section \<open>The progress of the copy\<close>

definition copy_progress_txn ::
  "data_migration \<Rightarrow> int \<Rightarrow> string list option \<Rightarrow> int \<Rightarrow> string \<Rightarrow> timestamp \<Rightarrow> timestamp \<Rightarrow> migration_db \<Rightarrow>
   (data_migration_item \<times> migration_db) app_result" where
  "copy_progress_txn m item_id cursor count digest now tnow db =
     bind_result (renew_operation_lease m now tnow db) (\<lambda>db1.
     bind_result (lock_migration (mg_id m) db1) (\<lambda>current.
     bind_result (ensure_not_cancel_requested current) (\<lambda>_.
     if mg_state current \<noteq> mg_COPYING then Inl (TenantOperationConflict msg_td_copy_state)
     else bind_result (lock_item item_id db1) (\<lambda>item.
       save_item (item\<lparr>mi_cursor_json := map_option (\<lambda>vs. JArray (map JString vs)) cursor,
                       mi_source_row_count := Some count, mi_target_row_count := Some count,
                       mi_source_digest := Some digest, mi_target_digest := Some digest,
                       mi_updated_at := now\<rparr>) db1))))"

text \<open>A checkpoint before anything of its table was copied or cleaned.\<close>

definition new_item :: "int \<Rightarrow> int \<Rightarrow> TenantDataTableDescriptor \<Rightarrow> timestamp \<Rightarrow> data_migration_item" where
  "new_item item_id migration_id d now =
     \<lparr>mi_id = item_id, mi_migration_id = migration_id, mi_table_name = de_table d,
      mi_copy_order = int (de_copy_order d), mi_state = mi_PENDING, mi_cursor_json = None,
      mi_source_row_count = Some 0, mi_target_row_count = Some 0, mi_source_digest = None,
      mi_target_digest = None, mi_error_code = None, mi_error_detail = None, mi_copy_started_at = None,
      mi_copied_at = None, mi_verified_at = None, mi_cleanup_state = mi_CLEANUP_PENDING,
      mi_cleanup_row_count = 0, mi_created_at = now, mi_updated_at = now\<rparr>"

definition checked_copy_order :: "TenantDataTableDescriptor \<Rightarrow> unit app_result" where
  "checked_copy_order d =
     (if is_i32 (int (de_copy_order d)) then Inr () else Inl (Validation msg_td_copy_order))"

end
