(* ===== verification/Migration_Worker.thy ===== *)
theory Migration_Worker
  imports Migration_Steps
begin

text \<open>
  The worker of a tenant data migration, call by call: \<open>workflow.rs\<close>, \<open>workflow/preflight.rs\<close>,
  \<open>workflow/lifecycle.rs\<close>, \<open>copy.rs\<close> and \<open>recovery.rs\<close> in
  \<open>ryframe-application/src/system/tenant/data_migration\<close>. Notices to caches and logs are left out:
  nothing of a run depends on them.
\<close>

section \<open>Calls\<close>

definition timed_txn ::
  "(timestamp \<Rightarrow> timestamp \<Rightarrow> timestamp \<Rightarrow> migration_db \<Rightarrow> ('a \<times> migration_db) app_result) \<Rightarrow> 'a io" where
  "timed_txn f = io_bind database_now (\<lambda>now. control_txn (\<lambda>t tnow db. f now tnow (tu_clock t) db))"

definition source_fence :: "data_migration \<Rightarrow> TenantDataFence app_result" where
  "source_fence m =
     bind_result (checked_generation (mg_source_generation m) msg_td_source) (\<lambda>g.
     Inr \<lparr>tf_tenant_id = mg_tenant_id m, tf_target_key = mg_source_target_key m, tf_generation = g,
          tf_switch_token = mg_source_switch_token m\<rparr>)"

definition target_fence :: "data_migration \<Rightarrow> TenantDataFence app_result" where
  "target_fence m =
     bind_result (checked_generation (mg_target_generation m) msg_td_target) (\<lambda>g.
     Inr \<lparr>tf_tenant_id = mg_tenant_id m, tf_target_key = mg_target_key m, tf_generation = g,
          tf_switch_token = mg_switch_token m\<rparr>)"

text \<open>
  \<open>verify_now\<close> probes a target and checks that its fences and its slot agree; \<open>validate_catalog\<close> may
  use an earlier probe.
\<close>

definition verify_now :: "migration_env \<Rightarrow> string \<Rightarrow> unit io" where
  "verify_now env key = target_read (\<lambda>ts. app_of_td
     (bind_result (open_target (me_registry env) key) (\<lambda>mode. verify_target_mode_invariants key mode (ts key))))"

definition validate_catalog :: "migration_env \<Rightarrow> string \<Rightarrow> bool io" where
  "validate_catalog env key = target_read (\<lambda>ts. app_of_td
     (bind_result (open_target (me_registry env) key) (\<lambda>mode. Inr (mode = Dedicated))))"

definition assert_migration_frozen_fence :: "migration_env \<Rightarrow> data_migration \<Rightarrow> string \<Rightarrow> unit io" where
  "assert_migration_frozen_fence env m target_key =
     io_bind (io_lift
       (bind_result
         (if target_key = mg_source_target_key m then Inr (mg_source_generation m, mg_source_switch_token m)
          else if target_key = mg_target_key m then Inr (mg_target_generation m, mg_switch_token m)
          else Inl (TenantOperationConflict msg_td_fence_foreign)) (\<lambda>(generation, token).
        bind_result (checked_generation generation ''fence'') (\<lambda>g.
        Inr \<lparr>tf_tenant_id = mg_tenant_id m, tf_target_key = target_key, tf_generation = g,
             tf_switch_token = token\<rparr>)))) (\<lambda>f.
     target_call (assert_frozen_fence (me_registry env) f))"

definition reacquire_execution_lease :: "migration_env \<Rightarrow> data_migration \<Rightarrow> data_migration io" where
  "reacquire_execution_lease env m = timed_txn (\<lambda>now tnow _. reacquire_execution_lease_txn env m now tnow)"

definition assert_worker_can_run :: "data_migration \<Rightarrow> string \<Rightarrow> unit io" where
  "assert_worker_can_run m expected = timed_txn (\<lambda>now tnow _. assert_worker_can_run_txn m expected now tnow)"

definition set_state ::
  "data_migration \<Rightarrow> string \<Rightarrow> (data_migration \<Rightarrow> timestamp \<Rightarrow> data_migration) \<Rightarrow> data_migration io" where
  "set_state m state update = timed_txn (\<lambda>now tnow _. set_state_txn m state update now tnow)"

definition save_item_call :: "data_migration_item \<Rightarrow> data_migration_item io" where
  "save_item_call x = control_txn (\<lambda>_ _ db. save_item x db)"

definition insert_item_call :: "data_migration_item \<Rightarrow> data_migration_item io" where
  "insert_item_call x = control_txn (\<lambda>_ _ db. insert_item x db)"

section \<open>Copying and verifying\<close>

definition json_cursor :: "json option \<Rightarrow> string list option" where
  "json_cursor j = (case j of Some (JArray vs) \<Rightarrow> those (map json_as_str vs) | _ \<Rightarrow> None)"

definition COPY_BATCH_SIZE :: nat where "COPY_BATCH_SIZE = 500"

definition add_rows :: "string \<Rightarrow> string \<Rightarrow> int \<Rightarrow> nat \<Rightarrow> int app_result" where
  "add_rows too_long overflow count n =
     (if \<not> is_i64 (int n) then Inl (Internal too_long)
      else case checked_add_i64 count (int n) of Some v \<Rightarrow> Inr v | None \<Rightarrow> Inl (Internal overflow))"

definition copy_batch ::
  "migration_env \<Rightarrow> data_migration \<Rightarrow> TenantDataTableDescriptor \<Rightarrow> string list option \<times> data_migration_item \<Rightarrow>
   (string list option \<times> data_migration_item + data_migration_item) io" where
  "copy_batch env m d = (\<lambda>(cursor, item).
     io_bind (assert_migration_frozen_fence env m (mg_source_target_key m)) (\<lambda>_.
     io_bind (target_read (read_rows_batch (me_registry env) (me_catalog env) (me_codec env)
       (mg_source_target_key m) (mg_tenant_id m) (de_table d) cursor COPY_BATCH_SIZE)) (\<lambda>b.
     if rb_rows b = [] then io_return (Inr item)
     else
       io_bind (io_lift (target_fence m)) (\<lambda>f.
       io_bind (target_call (\<lambda>ts. bind_result (write_rows_batch (me_registry env) (me_catalog env) (me_codec env) f
         (de_table d) (rb_rows b) ts) (\<lambda>ts'. Inr ((), ts')))) (\<lambda>_.
       io_bind (io_lift (add_rows msg_td_batch_rows msg_td_rows
         (case mi_source_row_count item of Some n \<Rightarrow> n | None \<Rightarrow> 0) (length (rb_rows b)))) (\<lambda>count.
       io_bind (io_lift (rolling_digest (me_codec env) (mi_source_digest item) (rb_rows b))) (\<lambda>digest.
       io_bind (timed_txn (\<lambda>now tnow _. copy_progress_txn m (mi_id item) (rb_next_cursor b) count digest now tnow))
         (\<lambda>item'.
       io_return (if length (rb_rows b) < COPY_BATCH_SIZE then Inr item' else Inl (rb_next_cursor b, item'))))))))))"

definition copy_table_in_batches ::
  "migration_env \<Rightarrow> data_migration \<Rightarrow> TenantDataTableDescriptor \<Rightarrow> data_migration_item \<Rightarrow> data_migration_item io" where
  "copy_table_in_batches env m d item =
     (let cursor = json_cursor (mi_cursor_json item) in
      if cursor \<noteq> None \<and> mi_source_digest item = None then io_fail (Conflict msg_td_cursor_digest)
      else io_loop (copy_batch env m d) (cursor, item))"

definition item_or_new ::
  "timestamp io \<Rightarrow> data_migration_item list \<Rightarrow> int \<Rightarrow> TenantDataTableDescriptor \<Rightarrow> data_migration_item io" where
  "item_or_new clock items migration_id d =
     (case row_get mi_table_name (de_table d) items of
        Some item \<Rightarrow> io_return item
      | None \<Rightarrow>
          io_bind clock (\<lambda>now.
          io_bind fresh_id (\<lambda>i.
          io_bind (io_lift (checked_copy_order d)) (\<lambda>_.
          insert_item_call (new_item i migration_id d now)))))"

definition copy_table ::
  "migration_env \<Rightarrow> data_migration \<Rightarrow> data_migration_item list \<Rightarrow> TenantDataTableDescriptor \<Rightarrow> unit io" where
  "copy_table env m items d =
     io_bind (item_or_new local_clock items (mg_id m) d) (\<lambda>item.
     if mi_state item = mi_VERIFIED then io_return ()
     else
       io_bind local_clock (\<lambda>now.
       io_bind (save_item_call (item\<lparr>mi_state := mi_COPYING,
         mi_copy_started_at := or_now (mi_copy_started_at item) now, mi_updated_at := now\<rparr>)) (\<lambda>item1.
       io_bind (copy_table_in_batches env m d item1) (\<lambda>item2.
       io_bind local_clock (\<lambda>end.
       io_bind (save_item_call (item2\<lparr>mi_state := mi_COPIED, mi_copied_at := Some end, mi_updated_at := end\<rparr>))
         (\<lambda>_. io_return ()))))))"

definition copy_catalog :: "migration_env \<Rightarrow> data_migration \<Rightarrow> unit io" where
  "copy_catalog env m =
     io_bind (validate_catalog env (mg_source_target_key m)) (\<lambda>_.
     io_bind (validate_catalog env (mg_target_key m)) (\<lambda>_.
     io_bind (control_read (\<lambda>db. Inr (items_of (mg_id m) db))) (\<lambda>items.
     io_each (copy_table env m items) (me_catalog env))))"

text \<open>\<open>table_digest\<close>\<close>

definition digest_batch ::
  "migration_env \<Rightarrow> data_migration \<Rightarrow> string \<Rightarrow> TenantDataTableDescriptor \<Rightarrow>
   string list option \<times> int \<times> string option \<Rightarrow> (string list option \<times> int \<times> string option + int \<times> string option) io"
where
  "digest_batch env m target_key d = (\<lambda>(cursor, count, digest).
     io_bind (assert_migration_frozen_fence env m target_key) (\<lambda>_.
     io_bind (target_read (read_rows_batch (me_registry env) (me_catalog env) (me_codec env) target_key
       (mg_tenant_id m) (de_table d) cursor COPY_BATCH_SIZE)) (\<lambda>b.
     if rb_rows b = [] then io_return (Inr (count, digest))
     else
       io_bind (io_lift (rolling_digest (me_codec env) digest (rb_rows b))) (\<lambda>digest'.
       io_bind (io_lift (add_rows msg_td_verify_rows msg_td_verify_rows count (length (rb_rows b)))) (\<lambda>count'.
       io_bind (assert_worker_can_run m mg_VERIFYING) (\<lambda>_.
       io_return (if length (rb_rows b) < COPY_BATCH_SIZE then Inr (count', Some digest')
                  else Inl (rb_next_cursor b, count', Some digest'))))))))"

definition table_digest ::
  "migration_env \<Rightarrow> data_migration \<Rightarrow> string \<Rightarrow> TenantDataTableDescriptor \<Rightarrow> (int \<times> string) io" where
  "table_digest env m target_key d =
     io_bind (io_loop (digest_batch env m target_key d) (None, 0, None)) (\<lambda>(count, digest).
     io_return (count, case digest of Some x \<Rightarrow> x | None \<Rightarrow> empty_rolling_digest))"

definition verify_keys_call :: "migration_env \<Rightarrow> data_migration \<Rightarrow> string \<Rightarrow> TenantDataTableDescriptor \<Rightarrow> unit io" where
  "verify_keys_call env m key d =
     target_read (verify_foreign_keys (me_registry env) (me_catalog env) key (mg_tenant_id m) (de_table d))"

definition verify_table ::
  "migration_env \<Rightarrow> data_migration \<Rightarrow> data_migration_item list \<Rightarrow> TenantDataTableDescriptor \<Rightarrow> unit io" where
  "verify_table env m items d =
     (case row_get mi_table_name (de_table d) items of
        None \<Rightarrow> io_fail (Conflict msg_td_checkpoint_missing)
      | Some item \<Rightarrow>
          io_bind local_clock (\<lambda>now.
          io_bind (save_item_call (item\<lparr>mi_state := mi_VERIFYING, mi_updated_at := now\<rparr>)) (\<lambda>item1.
          io_bind (table_digest env m (mg_source_target_key m) d) (\<lambda>(source_count, source_digest).
          io_bind (table_digest env m (mg_target_key m) d) (\<lambda>(target_count, target_digest).
          if source_count \<noteq> target_count \<or> source_digest \<noteq> target_digest
          then io_fail (Conflict (msg_td_verify_failed @ de_table d))
          else
            io_bind (verify_keys_call env m (mg_source_target_key m) d) (\<lambda>_.
            io_bind (verify_keys_call env m (mg_target_key m) d) (\<lambda>_.
            io_bind local_clock (\<lambda>end.
            io_bind (save_item_call (item1\<lparr>mi_source_row_count := Some source_count,
              mi_target_row_count := Some target_count, mi_source_digest := Some source_digest,
              mi_target_digest := Some target_digest, mi_state := mi_VERIFIED, mi_verified_at := Some end,
              mi_updated_at := end\<rparr>)) (\<lambda>_. io_return ())))))))))"

definition verify_catalog :: "migration_env \<Rightarrow> data_migration \<Rightarrow> unit io" where
  "verify_catalog env m =
     io_bind (validate_catalog env (mg_source_target_key m)) (\<lambda>_.
     io_bind (validate_catalog env (mg_target_key m)) (\<lambda>_.
     io_bind (control_read (\<lambda>db. Inr (items_of (mg_id m) db))) (\<lambda>items.
     io_bind (io_each (verify_table env m items) (me_catalog env)) (\<lambda>_.
     io_bind (verify_now env (mg_source_target_key m)) (\<lambda>_.
     io_bind (verify_now env (mg_target_key m)) (\<lambda>_.
     io_bind (assert_migration_frozen_fence env m (mg_source_target_key m)) (\<lambda>_.
     assert_migration_frozen_fence env m (mg_target_key m))))))))"

section \<open>Cleaning up\<close>

definition owns_cleanup ::
  "migration_env \<Rightarrow> data_migration \<Rightarrow> RecoveryIntent \<Rightarrow> TenantDataFence \<Rightarrow> bool io" where
  "owns_cleanup env snapshot intent f =
     io_bind (target_call (cleanup_ownership (me_registry env) (me_catalog env) f)) (\<lambda>ownership.
     case ownership of
       OwnedFrozen \<Rightarrow> io_return True
     | AlreadyClean \<Rightarrow> io_return False
     | NotOwned \<Rightarrow>
         if mg_state snapshot = mg_PRECHECKING \<and> (intent = Cancel \<or> intent = Failure) then io_return False
         else io_bind (control_read (\<lambda>db. Inr (migration_by_id (mg_id snapshot) db))) (\<lambda>m.
           if (case m of Some x \<Rightarrow> mg_cleanup_ready_at x \<noteq> None | None \<Rightarrow> False) then io_return False
           else io_fail (StalePlacementGeneration msg_td_not_owned)))"

definition clean_batch ::
  "migration_env \<Rightarrow> data_migration \<Rightarrow> RecoveryIntent \<Rightarrow> TenantDataFence \<Rightarrow> TenantDataTableDescriptor \<Rightarrow>
   data_migration_item \<Rightarrow> (data_migration_item + unit) io" where
  "clean_batch env snapshot intent f d item =
     io_bind (timed_txn (\<lambda>now tnow _. assert_recovery_can_run_txn snapshot intent now tnow)) (\<lambda>_.
     io_bind (target_call (delete_rows_batch (me_registry env) (me_catalog env) (me_pk_order env) f (de_table d) 500))
       (\<lambda>deleted.
     io_bind (timed_txn (\<lambda>now tnow _. cleanup_batch_txn snapshot intent (mi_id item) deleted now tnow)) (\<lambda>item'.
     io_return (if deleted < 500 then Inr () else Inl item'))))"

definition clean_table ::
  "migration_env \<Rightarrow> data_migration \<Rightarrow> RecoveryIntent \<Rightarrow> TenantDataFence \<Rightarrow> TenantDataTableDescriptor \<Rightarrow> unit io" where
  "clean_table env snapshot intent f d =
     io_bind (control_read (\<lambda>db. Inr (items_of (mg_id snapshot) db))) (\<lambda>items.
     io_bind (item_or_new database_now items (mg_id snapshot) d) (\<lambda>item.
     if mi_cleanup_state item = mi_CLEANUP_CLEANED then io_return ()
     else io_loop (clean_batch env snapshot intent f d) item))"

definition cleanup_catalog_rows ::
  "migration_env \<Rightarrow> data_migration \<Rightarrow> RecoveryIntent \<Rightarrow> string \<Rightarrow> int \<Rightarrow> string \<Rightarrow> unit io" where
  "cleanup_catalog_rows env snapshot intent target_key generation switch_token =
     io_bind (io_lift (checked_generation generation msg_td_clean)) (\<lambda>g.
     let f = \<lparr>tf_tenant_id = mg_tenant_id snapshot, tf_target_key = target_key, tf_generation = g,
              tf_switch_token = switch_token\<rparr> in
     io_bind (owns_cleanup env snapshot intent f) (\<lambda>owned.
     if \<not> owned then io_return ()
     else
       io_bind (io_each (clean_table env snapshot intent f) (rev (me_catalog env))) (\<lambda>_.
       io_bind (timed_txn (\<lambda>now tnow _. assert_recovery_can_run_txn snapshot intent now tnow)) (\<lambda>_.
       io_bind (timed_txn (\<lambda>now tnow _. cleanup_checkpoint_txn snapshot intent now tnow)) (\<lambda>_.
       target_call (finish_cleanup (me_registry env) (me_catalog env) f))))))"

section \<open>Recovery\<close>

definition restore_source_placement :: "data_migration \<Rightarrow> RecoveryIntent \<Rightarrow> data_migration io" where
  "restore_source_placement snapshot intent =
     timed_txn (\<lambda>now tnow clock. restore_source_placement_txn snapshot intent now tnow clock)"

text \<open>
  What a cancellation and a compensation have in common: the source is opened again, the placement
  restored, the target cleaned; then the migration is closed.
\<close>

definition back_to_source ::
  "migration_env \<Rightarrow> RecoveryIntent \<Rightarrow>
   (data_migration \<Rightarrow> timestamp \<Rightarrow> timestamp \<Rightarrow> migration_db \<Rightarrow> (data_migration \<times> migration_db) app_result) \<Rightarrow>
   data_migration \<Rightarrow> data_migration io" where
  "back_to_source env intent close snapshot =
     io_bind (io_lift (source_fence snapshot)) (\<lambda>f.
     io_bind (target_call (activate_fence (me_registry env) f)) (\<lambda>_.
     io_bind (restore_source_placement snapshot intent) (\<lambda>current.
     io_bind (cleanup_catalog_rows env current intent (mg_target_key current) (mg_target_generation current)
       (mg_switch_token current)) (\<lambda>_.
     timed_txn (\<lambda>now tnow _. close current now tnow)))))"

definition reconcile_cancel_intent :: "migration_env \<Rightarrow> data_migration \<Rightarrow> data_migration io" where
  "reconcile_cancel_intent env snapshot =
     io_bind (io_lift (validate_recovery_intent snapshot Cancel)) (\<lambda>_.
     back_to_source env Cancel close_cancel_txn snapshot)"

definition compensate_before_cutover :: "migration_env \<Rightarrow> int \<Rightarrow> string \<Rightarrow> unit io" where
  "compensate_before_cutover env migration_id code =
     io_bind (control_read (\<lambda>db. Inr (migration_by_id migration_id db))) (\<lambda>row.
     case row of
       None \<Rightarrow> io_return ()
     | Some snapshot \<Rightarrow>
         if \<not> can_cancel snapshot then io_return ()
         else
           io_bind (timed_txn (\<lambda>now tnow _. compensation_intent_txn snapshot code now tnow)) (\<lambda>intent.
           case intent of
             None \<Rightarrow> io_return ()
           | Some m \<Rightarrow> io_bind (back_to_source env Failure close_failure_txn m) (\<lambda>_. io_return ())))"

definition activation_time :: "data_migration \<Rightarrow> timestamp option" where
  "activation_time m = (case mg_activated_at m of Some t \<Rightarrow> Some t | None \<Rightarrow> mg_succeeded_at m)"

definition retention_left :: "data_migration \<Rightarrow> timestamp \<Rightarrow> bool" where
  "retention_left m now \<longleftrightarrow> (case mg_retention_until m of None \<Rightarrow> True | Some t \<Rightarrow> now < t)"

definition reconcile_finalize_intent :: "migration_env \<Rightarrow> data_migration \<Rightarrow> data_migration io" where
  "reconcile_finalize_intent env snapshot =
     io_bind (io_lift (validate_recovery_intent snapshot Finalize)) (\<lambda>_.
     io_bind database_now (\<lambda>now.
     if retention_left snapshot now then io_fail (TenantOperationConflict msg_td_retention_left)
     else case activation_time snapshot of
       None \<Rightarrow> io_fail (Conflict msg_td_activation_missing)
     | Some not_before \<Rightarrow>
         io_bind (control_read (\<lambda>db. Inr (has_validated_backup snapshot not_before now db))) (\<lambda>backed.
         if \<not> backed then io_fail (TenantOperationConflict msg_td_backup_gone)
         else
           io_bind (cleanup_catalog_rows env snapshot Finalize (mg_source_target_key snapshot)
             (mg_source_generation snapshot) (mg_source_switch_token snapshot)) (\<lambda>_.
           timed_txn (\<lambda>now tnow _. close_finalize_txn snapshot now tnow)))))"

text \<open>\<open>None\<close>: a recovery was asked for and is done.\<close>

definition resume_requested_recovery :: "migration_env \<Rightarrow> data_migration \<Rightarrow> data_migration option io" where
  "resume_requested_recovery env m =
     (let finalize =
       (if mg_finalize_idempotency_key_hash m \<noteq> None \<or> mg_finalize_requested_at m \<noteq> None then
          if mg_state m = mg_RETENTION_PENDING then
            io_catch (io_bind (reconcile_finalize_intent env m) (\<lambda>_. io_return None))
              (\<lambda>_. io_fail (RetryableConflict ''tenant-data finalize recovery pending'' 5))
          else if mg_state m \<noteq> mg_FINALIZED then io_fail (TenantOperationConflict msg_td_finalize_state)
          else io_return (Some m)
        else io_return (Some m)) in
      if mg_cancel_idempotency_key_hash m \<noteq> None \<or> mg_cancel_requested_at m \<noteq> None then
        if can_cancel m then
          io_catch (io_bind (reconcile_cancel_intent env m) (\<lambda>_. io_return None))
            (\<lambda>_. io_fail (RetryableConflict ''tenant-data cancel recovery pending'' 5))
        else if mg_state m \<noteq> mg_CANCELLED then io_fail (TenantOperationConflict msg_td_cancel_state)
        else finalize
      else finalize)"

section \<open>The stages\<close>

definition prepare_migration_target :: "migration_env \<Rightarrow> data_migration \<Rightarrow> data_migration io" where
  "prepare_migration_target env m =
     io_bind (assert_worker_can_run m mg_PRECHECKING) (\<lambda>_.
     io_bind (verify_now env (mg_target_key m)) (\<lambda>_.
     io_bind (io_lift (target_fence m)) (\<lambda>f.
     io_bind (target_call (prepare_target (me_registry env) (me_catalog env) f)) (\<lambda>_.
     io_catch (set_state m mg_QUEUED (\<lambda>x now. x\<lparr>mg_queued_at := Some now\<rparr>))
       (\<lambda>e. io_bind (io_ignore (target_call (clear_prepared_target (me_registry env) (me_catalog env) f)))
          (\<lambda>_. io_fail e))))))"

definition enter_maintenance :: "data_migration \<Rightarrow> data_migration io" where
  "enter_maintenance m = timed_txn (enter_maintenance_txn m)"

definition freeze_source :: "migration_env \<Rightarrow> data_migration \<Rightarrow> data_migration io" where
  "freeze_source env m =
     io_bind (assert_worker_can_run m mg_QUIESCING) (\<lambda>_.
     io_bind (io_lift (source_fence m)) (\<lambda>f.
     io_bind (target_call (freeze_fence (me_registry env) f)) (\<lambda>_.
     io_catch (set_state m mg_FROZEN (\<lambda>x now. x\<lparr>mg_frozen_at := Some now\<rparr>))
       (\<lambda>e. io_bind (io_ignore (target_call (activate_fence (me_registry env) f))) (\<lambda>_. io_fail e)))))"

definition copy_stage :: "migration_env \<Rightarrow> data_migration \<Rightarrow> data_migration io" where
  "copy_stage env m =
     io_bind (assert_worker_can_run m mg_COPYING) (\<lambda>_.
     io_bind (copy_catalog env m) (\<lambda>_.
     set_state m mg_VERIFYING (\<lambda>x now. x\<lparr>mg_copy_completed_at := Some now\<rparr>)))"

definition verify_stage :: "migration_env \<Rightarrow> data_migration \<Rightarrow> data_migration io" where
  "verify_stage env m =
     io_bind (assert_worker_can_run m mg_VERIFYING) (\<lambda>_.
     io_bind (verify_catalog env m) (\<lambda>_.
     set_state m mg_CUTTING_OVER (\<lambda>x now. x\<lparr>mg_verified_at := Some now\<rparr>)))"

definition cut_over :: "migration_env \<Rightarrow> data_migration \<Rightarrow> data_migration io" where
  "cut_over env m =
     io_bind (verify_now env (mg_source_target_key m)) (\<lambda>_.
     io_bind (verify_now env (mg_target_key m)) (\<lambda>_.
     io_bind (assert_migration_frozen_fence env m (mg_source_target_key m)) (\<lambda>_.
     io_bind (assert_migration_frozen_fence env m (mg_target_key m)) (\<lambda>_.
     timed_txn (cut_over_txn m)))))"

definition activate_target :: "migration_env \<Rightarrow> data_migration \<Rightarrow> data_migration io" where
  "activate_target env m =
     io_bind (assert_worker_can_run m mg_ACTIVATING) (\<lambda>_.
     io_bind (io_lift (target_fence m)) (\<lambda>f.
     io_bind (target_call (activate_fence (me_registry env) f)) (\<lambda>_.
     timed_txn (activate_control_txn m))))"

definition enter_retention :: "data_migration \<Rightarrow> data_migration io" where
  "enter_retention m = timed_txn (\<lambda>now tnow _. enter_retention_txn m now tnow)"

definition stage :: "string \<Rightarrow> (data_migration \<Rightarrow> data_migration io) \<Rightarrow> data_migration \<Rightarrow> data_migration io" where
  "stage state run m = (if mg_state m = state then run m else io_return m)"

definition run_stages :: "migration_env \<Rightarrow> data_migration \<Rightarrow> unit io" where
  "run_stages env m0 =
     io_bind (stage mg_PRECHECKING (prepare_migration_target env) m0) (\<lambda>m1.
     io_bind (stage mg_QUEUED enter_maintenance m1) (\<lambda>m2.
     io_bind (stage mg_QUIESCING (freeze_source env) m2) (\<lambda>m3.
     io_bind (stage mg_FROZEN (\<lambda>m. set_state m mg_COPYING (\<lambda>x now. x\<lparr>mg_copy_started_at := Some now\<rparr>)) m3) (\<lambda>m4.
     io_bind (stage mg_COPYING (copy_stage env) m4) (\<lambda>m5.
     io_bind (stage mg_VERIFYING (verify_stage env) m5) (\<lambda>m6.
     io_bind (stage mg_CUTTING_OVER (cut_over env) m6) (\<lambda>m7.
     io_bind (stage mg_ACTIVATING (activate_target env) m7) (\<lambda>m8.
     if mg_state m8 = mg_SUCCEEDED then io_bind (enter_retention m8) (\<lambda>_. io_return ())
     else io_fail (TenantOperationConflict (msg_td_unhandled @ mg_state m8))))))))))"

definition needs_execution_lease :: "data_migration \<Rightarrow> bool" where
  "needs_execution_lease m \<longleftrightarrow> mg_state m \<notin> {mg_FINALIZED, mg_FAILED, mg_CANCELLED} \<and>
     (mg_state m \<noteq> mg_RETENTION_PENDING \<or> mg_finalize_requested_at m \<noteq> None)"

definition execute_migration :: "migration_env \<Rightarrow> int \<Rightarrow> unit io" where
  "execute_migration env migration_id =
     io_bind (control_read (\<lambda>db. case migration_by_id migration_id db of
         None \<Rightarrow> Inl (NotFound msg_td_migration_missing) | Some m \<Rightarrow> Inr m)) (\<lambda>snapshot.
     io_bind (io_lift (ensure_migration_contract env snapshot)) (\<lambda>_.
     io_bind (if needs_execution_lease snapshot then reacquire_execution_lease env snapshot else io_return snapshot)
       (\<lambda>m.
     io_bind (resume_requested_recovery env m) (\<lambda>resumed.
     case resumed of
       None \<Rightarrow> io_return ()
     | Some m \<Rightarrow>
         if mg_state m \<in> {mg_FINALIZED, mg_FAILED, mg_CANCELLED, mg_RETENTION_PENDING} then io_return ()
         else case (mg_error_code m, can_cancel m) of
           (Some code, True) \<Rightarrow>
             io_catch (compensate_before_cutover env migration_id code)
               (\<lambda>_. io_fail (RetryableConflict ''tenant-data compensation recovery pending'' 5))
         | _ \<Rightarrow> run_stages env m))))"

section \<open>The handler of the job\<close>

definition permanent_error :: "app_error \<Rightarrow> bool" where
  "permanent_error e = (case e of
     Validation _ \<Rightarrow> True | Conflict _ \<Rightarrow> True | NotFound _ \<Rightarrow> True | CapabilityUnavailable _ \<Rightarrow> True | _ \<Rightarrow> False)"

definition payload_migration_id :: "json \<Rightarrow> int app_result" where
  "payload_migration_id payload =
     (case Option.bind (json_get ''migration_id'' payload) json_as_str of
        None \<Rightarrow> Inl (Validation msg_td_payload)
      | Some s \<Rightarrow> (case parse_i64 s of None \<Rightarrow> Inl (Validation msg_td_id) | Some i \<Rightarrow> Inr i))"

definition handle_migration_job :: "migration_env \<Rightarrow> background_job \<Rightarrow> unit io" where
  "handle_migration_job env job =
     io_bind (io_lift (payload_migration_id (bj_payload job))) (\<lambda>migration_id.
     io_catch (execute_migration env migration_id) (\<lambda>e.
       if permanent_error e \<or> bj_max_attempts job \<le> bj_attempts job then
         io_bind (control_read (\<lambda>db. Inr (migration_by_id migration_id db))) (\<lambda>row.
         case row of
           None \<Rightarrow> io_fail e
         | Some m \<Rightarrow>
             if can_cancel m then
               io_bind (io_catch (compensate_before_cutover env migration_id (as_str (error_code e)))
                 (\<lambda>_. io_fail (RetryableConflict ''tenant-data compensation pending'' 5))) (\<lambda>_. io_fail e)
             else if mg_state m \<in> {mg_CUTTING_OVER, mg_ACTIVATING, mg_SUCCEEDED}
             then io_fail (RetryableConflict ''tenant-data forward recovery pending'' 5)
             else io_fail e)
       else io_fail e))"

end
