(* ===== verification/Migration_Service.thy ===== *)
theory Migration_Service
  imports Migration_Worker Principals
begin

text \<open>
  What the platform operators ask of tenant data migrations: the preview of a plan, the creation, the
  cancellation and the finalization, and the reconciliation that keeps a job behind every unfinished
  migration. \<open>data_migration/mod.rs\<close>, \<open>actions.rs\<close>, \<open>queries.rs\<close>, \<open>support.rs\<close> and the first part of
  \<open>recovery.rs\<close>. The lists of targets with their health and pools are not modelled.
\<close>

section \<open>Checks\<close>

definition ensure_platform_actor :: "ActorContext \<Rightarrow> unit app_result" where
  "ensure_platform_actor a =
     (if ax_tenant_id a \<noteq> ''system'' then Inl (Authorization msg_td_platform) else Inr ())"

definition validate_migration_tenant :: "string \<Rightarrow> unit app_result" where
  "validate_migration_tenant tenant_id =
     bind_result (TenantId_parse tenant_id) (\<lambda>_.
     if tenant_id = ''system'' then Inl (Validation msg_td_system) else Inr ())"

text \<open>\<open>char::is_control\<close>: the codes below 32, 127, and 128 to 159, which take two bytes.\<close>

fun has_control :: "string \<Rightarrow> bool" where
  "has_control [] = False"
| "has_control [c] = (byte c < 32 \<or> byte c = 127)"
| "has_control (c # d # cs) =
     (byte c < 32 \<or> byte c = 127 \<or> byte c = 194 \<and> 128 \<le> byte d \<and> byte d \<le> 159 \<or> has_control (d # cs))"

definition validate_idempotency_key :: "string \<Rightarrow> unit app_result" where
  "validate_idempotency_key key =
     (if key \<noteq> trim key \<or> key = [] \<or> 128 < length key \<or> has_control key
      then Inl (Validation msg_td_key) else Inr ())"

definition sha256_hex :: "data_codec \<Rightarrow> string \<Rightarrow> string" where
  "sha256_hex k s = hex_encode (sha256 k s)"

record CreateMigrationCommand =
  cc_target_key :: string
  cc_expected_placement_generation :: int
  cc_plan_hash :: string
  cc_idempotency_key :: string

definition ensure_same_create_request :: "data_migration \<Rightarrow> CreateMigrationCommand \<Rightarrow> unit app_result" where
  "ensure_same_create_request m c =
     (if mg_target_key m = cc_target_key c \<and> mg_plan_hash m = cc_plan_hash c \<and>
         mg_source_generation m = cc_expected_placement_generation c
      then Inr () else Inl (Conflict msg_td_key_reused))"

definition create_blocker_error :: "string list \<Rightarrow> app_error" where
  "create_blocker_error blockers =
     (if ''placement_not_active'' \<in> set blockers then TenantDataMaintenance msg_td_maintenance 5
      else if list_ex (\<lambda>b. b \<in> {''tenant_operation_in_progress'', ''dedicated_target_occupied''}) blockers
      then TenantOperationConflict msg_td_busy
      else if list_ex (\<lambda>b. b \<in> {''source_target_not_registered'', ''source_target_unavailable'',
             ''target_unavailable'', ''target_occupancy_unavailable'', ''target_empty_check_unavailable''}) blockers
      then TenantDataTargetUnavailable msg_td_target_down 5
      else Validation (msg_td_blocked @ join_with '','' blockers))"

definition or_unknown :: "string option \<Rightarrow> string" where
  "or_unknown s = (case s of Some x \<Rightarrow> x | None \<Rightarrow> ''unknown'')"

definition migration_plan_hash ::
  "migration_env \<Rightarrow> string \<Rightarrow> string \<Rightarrow> string \<Rightarrow> int \<Rightarrow> int \<Rightarrow> string" where
  "migration_plan_hash env tenant_id source target source_generation target_generation =
     (let reg = me_registry env in
      sha256_hex (me_codec env)
       (''ryframe:tenant-data:plan:v1|tenant='' @ tenant_id @ ''|source='' @ source @ ''|target='' @ target @
        ''|source_generation='' @ show_int source_generation @ ''|target_generation='' @ show_int target_generation @
        ''|schema='' @ me_fingerprint env @
        ''|source_mode='' @ or_unknown (target_mode_code reg source) @
        ''|source_kind='' @ or_unknown (target_kind_code reg source) @
        ''|target_mode='' @ or_unknown (target_mode_code reg target) @
        ''|target_kind='' @ or_unknown (target_kind_code reg target) @
        ''|migration_mode=stop_write|retention_hours='' @ show_int RETENTION_HOURS))"

section \<open>The preview\<close>

definition io_try :: "'a io \<Rightarrow> (app_error + 'a) io" where
  "io_try m = io_catch (io_bind m (\<lambda>x. io_return (Inr x))) (\<lambda>e. io_return (Inl e))"

definition is_occupied :: "migration_env \<Rightarrow> string \<Rightarrow> bool io" where
  "is_occupied env key = target_read (\<lambda>ts. app_of_td
     (bind_result (open_target (me_registry env) key) (\<lambda>mode.
      bind_result (target_occupancy key mode (ts key)) (\<lambda>o'. Inr (o' \<noteq> None)))))"

definition tenant_is_empty :: "migration_env \<Rightarrow> string \<Rightarrow> string \<Rightarrow> bool io" where
  "tenant_is_empty env key tenant_id = target_read (\<lambda>ts. app_of_td
     (bind_result (open_target (me_registry env) key) (\<lambda>mode.
      tenant_is_empty_on_target (me_catalog env) key tenant_id mode (ts key))))"

record MigrationPreview =
  pv_tenant_id :: string
  pv_source_target_key :: string
  pv_target_target_key :: string
  pv_expected_placement_generation :: int
  pv_target_generation :: int
  pv_plan_hash :: string
  pv_eligible :: bool
  pv_blockers :: "string list"

definition source_blockers :: "migration_env \<Rightarrow> string \<Rightarrow> string list io" where
  "source_blockers env key =
     (if me_registry env key = None then io_return [''source_target_not_registered'']
      else io_bind (io_try (validate_catalog env key)) (\<lambda>r.
        io_return (if is_ok r then [] else [''source_target_unavailable''])))"

definition target_blockers :: "migration_env \<Rightarrow> string \<Rightarrow> string \<Rightarrow> string list io" where
  "target_blockers env key tenant_id =
     (if me_registry env key = None then io_return []
      else io_bind (io_try (validate_catalog env key)) (\<lambda>r.
        case r of
          Inl _ \<Rightarrow> io_return [''target_unavailable'']
        | Inr dedicated \<Rightarrow>
            io_bind
              (if dedicated then io_bind (io_try (is_occupied env key)) (\<lambda>o'. io_return
                 (case o' of Inl _ \<Rightarrow> [''target_occupancy_unavailable'']
                  | Inr taken \<Rightarrow> if taken then [''dedicated_target_occupied''] else []))
               else io_return []) (\<lambda>b1.
            io_bind (io_try (tenant_is_empty env key tenant_id)) (\<lambda>empty. io_return (b1 @
              (case empty of Inl _ \<Rightarrow> [''target_empty_check_unavailable'']
               | Inr e \<Rightarrow> if e then [] else [''target_tenant_data_not_empty'']))))))"

definition preview_migration :: "migration_env \<Rightarrow> ActorContext \<Rightarrow> string \<Rightarrow> string \<Rightarrow> int \<Rightarrow> MigrationPreview io" where
  "preview_migration env actor tenant_id target_key expected =
     io_bind (io_lift (ensure_platform_actor actor)) (\<lambda>_.
     io_bind (io_lift (validate_migration_tenant tenant_id)) (\<lambda>_.
     io_bind (io_lift (checked_generation expected ''placement'')) (\<lambda>_.
     io_bind (control_read (lock_placement tenant_id)) (\<lambda>p.
     if pl_placement_generation p \<noteq> expected then io_fail (StalePlacementGeneration msg_td_generation_changed)
     else
       io_bind (io_lift (case checked_add_i64 expected 1 of Some g \<Rightarrow> Inr g | None \<Rightarrow> Inl (Validation msg_td_generation_limit)))
         (\<lambda>target_generation.
       io_bind (control_read (\<lambda>db. Inr (active_migration_for_tenant tenant_id db))) (\<lambda>active.
       io_bind (source_blockers env (pl_current_target_key p)) (\<lambda>b2.
       io_bind (target_blockers env target_key tenant_id) (\<lambda>b3.
       let blockers = remdups_adj (sort
         ((if pl_state p \<noteq> pl_ACTIVE then [''placement_not_active''] else []) @
          (if pl_current_target_key p = target_key then [''source_equals_target''] else []) @
          (if me_registry env target_key = None then [''target_not_registered''] else []) @
          (if active \<noteq> None then [''tenant_operation_in_progress''] else []) @ b2 @ b3))
       in io_return \<lparr>pv_tenant_id = tenant_id, pv_source_target_key = pl_current_target_key p,
            pv_target_target_key = target_key, pv_expected_placement_generation = expected,
            pv_target_generation = target_generation,
            pv_plan_hash = migration_plan_hash env tenant_id (pl_current_target_key p) target_key expected target_generation,
            pv_eligible = (blockers = []), pv_blockers = blockers\<rparr>))))))))"

section \<open>Views\<close>

record MigrationView =
  mv_migration :: data_migration
  mv_items :: "data_migration_item list"
  mv_can_cancel :: bool
  mv_can_finalize :: bool
  mv_action_reasons :: "string list"

definition migration_view :: "data_migration \<Rightarrow> MigrationView io" where
  "migration_view m =
     io_bind (control_read (\<lambda>db. Inr (items_of (mg_id m) db))) (\<lambda>items.
     io_bind database_now (\<lambda>now.
     io_bind
       (if \<not> can_finalize m then io_return (False, [''migration_not_retention_pending''])
        else if retention_left m now then io_return (False, [''retention_period_not_elapsed''])
        else case activation_time m of
          None \<Rightarrow> io_return (False, [''activation_timestamp_missing''])
        | Some not_before \<Rightarrow>
            io_bind (control_read (\<lambda>db. Inr (has_validated_backup m not_before now db))) (\<lambda>backed.
            io_return (backed, if backed then [] else [''validated_backup_required'']))) (\<lambda>(fin, reasons).
     let cancellable = can_cancel m \<and> mg_cancel_requested_at m = None \<and> mg_error_code m = None;
         asked = mg_finalize_requested_at m \<noteq> None \<and> mg_state m = mg_RETENTION_PENDING
     in io_return \<lparr>mv_migration = m, mv_items = items, mv_can_cancel = cancellable,
          mv_can_finalize = (fin \<and> \<not> asked),
          mv_action_reasons = reasons @
            (if cancellable then []
             else [if mg_cancel_requested_at m \<noteq> None then ''cancel_requested'' else ''migration_past_cancel_boundary'']) @
            (if asked then [''finalize_requested''] else [])\<rparr>)))"

section \<open>Creation\<close>

definition migration_job :: "string \<Rightarrow> int \<Rightarrow> int \<Rightarrow> timestamp \<Rightarrow> string \<Rightarrow> EnqueueBackgroundJob" where
  "migration_job tenant_id migration_id priority now dedupe =
     \<lparr>eq_tenant_id = Some tenant_id, eq_schedule_id = None, eq_scheduled_for = None,
      eq_max_runtime_seconds = Some 86400, eq_job_type = ''tenant_data_migration'',
      eq_payload = JObject [(''migration_id'', JString (show_int migration_id))], eq_priority = priority,
      eq_available_at = now, eq_max_attempts = 8, eq_dedupe_key = Some dedupe, eq_traceparent = None,
      eq_tracestate = None\<rparr>"

definition enqueue_migration_job ::
  "int app_result \<Rightarrow> EnqueueBackgroundJob \<Rightarrow> timestamp \<Rightarrow> migration_db \<Rightarrow> (int \<times> migration_db) app_result" where
  "enqueue_migration_job next_id c tnow db =
     bind_result (enqueue next_id c tnow (md_jobs db)) (\<lambda>(r, jobs).
     Inr (bj_id (er_job r), db\<lparr>md_jobs := jobs\<rparr>))"

definition validate_create_placement ::
  "data_placement \<Rightarrow> MigrationPreview \<Rightarrow> CreateMigrationCommand \<Rightarrow> unit app_result" where
  "validate_create_placement p v c =
     bind_result (if pl_state p \<noteq> pl_ACTIVE \<or> pl_current_target_key p \<noteq> pv_source_target_key v then Inr 0
       else checked_generation (cc_expected_placement_generation c) ''placement'') (\<lambda>g.
     if pl_state p \<noteq> pl_ACTIVE \<or> pl_current_target_key p \<noteq> pv_source_target_key v \<or> pl_placement_generation p \<noteq> g
     then Inl (StalePlacementGeneration msg_td_placement_changed) else Inr ())"

record create_plan =
  cp_id :: int
  cp_key_hash :: string
  cp_token :: string
  cp_target_generation :: int
  cp_source_mode :: string
  cp_source_kind :: string
  cp_target_mode :: string
  cp_target_kind :: string

definition create_lease :: "string \<Rightarrow> create_plan \<Rightarrow> timestamp \<Rightarrow> operation_lease" where
  "create_lease tenant_id pl now =
     \<lparr>ol_tenant_id = tenant_id, ol_owner_token = cp_token pl, ol_operation = ''tenant_data.migration'',
      ol_resource_type = ''tenant_data_migration'', ol_resource_id = show_int (cp_id pl),
      ol_expires_at = now + hours OPERATION_LEASE_HOURS, ol_created_at = now, ol_updated_at = now\<rparr>"

definition create_row ::
  "migration_env \<Rightarrow> ActorContext \<Rightarrow> string \<Rightarrow> CreateMigrationCommand \<Rightarrow> create_plan \<Rightarrow> data_placement \<Rightarrow>
   timestamp \<Rightarrow> CreateTenantDataMigration" where
  "create_row env actor tenant_id c pl p now =
     \<lparr>cm_id = cp_id pl, cm_tenant_id = tenant_id, cm_source_target_key = pl_current_target_key p,
      cm_target_key = cc_target_key c, cm_source_target_mode = cp_source_mode pl,
      cm_source_target_kind = cp_source_kind pl, cm_target_target_mode = cp_target_mode pl,
      cm_target_target_kind = cp_target_kind pl, cm_source_generation = pl_placement_generation p,
      cm_source_switch_token = pl_switch_token p, cm_target_generation = cp_target_generation pl,
      cm_source_schema_fingerprint = me_fingerprint env, cm_target_schema_fingerprint = me_fingerprint env,
      cm_plan_hash = cc_plan_hash c, cm_create_idempotency_key_hash = cp_key_hash pl,
      cm_switch_token = cp_token pl, cm_operator_id = ax_user_id actor, cm_retention_hours = RETENTION_HOURS,
      cm_now = now\<rparr>"

text \<open>
  The transaction. A refused lease and a refused row (\<open>Inl\<close> inside) roll it back and let the caller
  look for a migration created under the same key; every other error is final.
\<close>

definition create_migration_txn ::
  "migration_env \<Rightarrow> ActorContext \<Rightarrow> string \<Rightarrow> CreateMigrationCommand \<Rightarrow> MigrationPreview \<Rightarrow> create_plan \<Rightarrow>
   timestamp \<Rightarrow> timestamp \<Rightarrow> int app_result \<Rightarrow> migration_db \<Rightarrow>
   ((app_error + data_migration) \<times> migration_db) app_result" where
  "create_migration_txn env actor tenant_id c v pl now tnow next_id db =
     (case acquire_lease (create_lease tenant_id pl now) tnow db of
        Inl e \<Rightarrow> Inr (Inl e, db)
      | Inr db1 \<Rightarrow>
          bind_result (lock_placement tenant_id db1) (\<lambda>p.
          bind_result (validate_create_placement p v c) (\<lambda>_.
          if active_migration_for_tenant tenant_id db1 \<noteq> None
          then Inl (TenantOperationConflict msg_td_active_migration)
          else
            case insert_migration (create_row env actor tenant_id c pl p now) db1 of
              Inl e \<Rightarrow> Inr (Inl e, db)
            | Inr (m, db2) \<Rightarrow>
                bind_result (enqueue_migration_job next_id
                  (migration_job tenant_id (cp_id pl) 10 now (show_int (cp_id pl))) tnow db2) (\<lambda>(job, db3).
                let m' = m\<lparr>mg_background_job_id := Some job, mg_updated_at := now\<rparr>
                in Inr (Inr m', save_migration m' db3)))))"

definition create_migration ::
  "migration_env \<Rightarrow> ActorContext \<Rightarrow> string \<Rightarrow> CreateMigrationCommand \<Rightarrow> MigrationView io" where
  "create_migration env actor tenant_id c =
     (let key_hash = sha256_hex (me_codec env)
            (''ryframe:tenant-data:create:v1:'' @ tenant_id @ '':'' @ cc_idempotency_key c);
          reg = me_registry env;
          again = (\<lambda>otherwise. io_bind (control_read (\<lambda>db. Inr (migration_by_create_key key_hash db))) (\<lambda>row.
            case row of
              Some existing \<Rightarrow>
                io_bind (io_lift (ensure_same_create_request existing c)) (\<lambda>_. migration_view existing)
            | None \<Rightarrow> otherwise));
          code = (\<lambda>r m. case r of Some x \<Rightarrow> Inr x | None \<Rightarrow> Inl (TenantDataTargetUnavailable m 5)) in
      io_bind (io_lift (ensure_platform_actor actor)) (\<lambda>_.
      io_bind (io_lift (validate_idempotency_key (cc_idempotency_key c))) (\<lambda>_.
      again
       (io_bind (preview_migration env actor tenant_id (cc_target_key c) (cc_expected_placement_generation c)) (\<lambda>v.
        if \<not> pv_eligible v then io_fail (create_blocker_error (pv_blockers v))
        else if pv_plan_hash v \<noteq> cc_plan_hash c then io_fail (Conflict msg_td_plan_changed)
        else
          io_bind fresh_id (\<lambda>i.
          io_bind database_now (\<lambda>now.
          io_bind (io_lift (case checked_add_i64 (cc_expected_placement_generation c) 1 of
            Some g \<Rightarrow> Inr g | None \<Rightarrow> Inl (Validation msg_td_generation_limit))) (\<lambda>g.
          io_bind (io_lift (code (target_mode_code reg (pv_source_target_key v)) msg_td_source_unregistered)) (\<lambda>sm.
          io_bind (io_lift (code (target_kind_code reg (pv_source_target_key v)) msg_td_source_unregistered)) (\<lambda>sk.
          io_bind (io_lift (code (target_mode_code reg (cc_target_key c)) msg_td_target_unregistered)) (\<lambda>tm.
          io_bind (io_lift (code (target_kind_code reg (cc_target_key c)) msg_td_target_unregistered)) (\<lambda>tk.
          let plan = \<lparr>cp_id = i, cp_key_hash = key_hash,
                cp_token = sha256_hex (me_codec env) (''ryframe:tenant-data:migration:v1:'' @ tenant_id @ '':'' @
                  show_int i @ '':'' @ cc_target_key c @ '':'' @ show_int g),
                cp_target_generation = g, cp_source_mode = sm, cp_source_kind = sk, cp_target_mode = tm,
                cp_target_kind = tk\<rparr> in
          io_bind (control_txn (\<lambda>t tnow. create_migration_txn env actor tenant_id c v plan now tnow (tu_id t))) (\<lambda>r.
          case r of
            Inl e \<Rightarrow> again (io_fail e)
          | Inr m \<Rightarrow> migration_view m)))))))))))))"

section \<open>Cancellation and finalization\<close>

text \<open>The job behind a migration runs again; without one, or with a wrong one, the request fails.\<close>

definition reactivate_job :: "data_migration \<Rightarrow> timestamp \<Rightarrow> migration_db \<Rightarrow> migration_db app_result" where
  "reactivate_job m now db =
     (case mg_background_job_id m of
        None \<Rightarrow> Inl (Conflict msg_td_no_job)
      | Some job_id \<Rightarrow>
          bind_result (reactivate_linked_in_txn job_id ''tenant_data_migration'' ''migration_id'' (mg_id m) now (md_jobs db))
            (\<lambda>(found, jobs).
          if found then Inr (db\<lparr>md_jobs := jobs\<rparr>) else Inl (Conflict msg_td_job_link)))"

text \<open>\<open>Inl same\<close>: already cancelled, the lease is given back; \<open>same\<close> says whether by this very request.\<close>

definition cancel_intent_txn ::
  "ActorContext \<Rightarrow> string \<Rightarrow> data_migration \<Rightarrow> timestamp \<Rightarrow> timestamp \<Rightarrow> migration_db \<Rightarrow>
   ((bool \<times> data_migration) \<times> migration_db) app_result" where
  "cancel_intent_txn actor key_hash snapshot now tnow db =
     bind_result (acquire_or_renew_operation_lease snapshot now tnow db) (\<lambda>db1.
     bind_result (lock_migration (mg_id snapshot) db1) (\<lambda>m.
     if mg_state m = mg_CANCELLED then
       bind_result (release_operation_lease m tnow db1) (\<lambda>db2.
       Inr ((mg_cancel_idempotency_key_hash m = Some key_hash, m), db2))
     else if mg_error_code m \<noteq> None then Inl (TenantOperationConflict msg_td_failure_first)
     else if \<not> can_cancel m then Inl (Conflict msg_td_cancel_boundary)
     else
       bind_result
         (case mg_cancel_idempotency_key_hash m of
            Some h \<Rightarrow> if h \<noteq> key_hash then Inl (Conflict msg_td_cancel_other) else Inr (m, db1)
          | None \<Rightarrow>
              let m' = m\<lparr>mg_cancel_idempotency_key_hash := Some key_hash, mg_cancelled_by := Some (ax_user_id actor),
                         mg_cancel_requested_at := Some now, mg_updated_at := now\<rparr>
              in Inr (m', save_migration m' db1)) (\<lambda>(m', db2).
       bind_result (reactivate_job m' now db2) (\<lambda>db3. Inr ((True, m'), db3)))))"

definition action_key :: "migration_env \<Rightarrow> string \<Rightarrow> int \<Rightarrow> string \<Rightarrow> string" where
  "action_key env action migration_id key =
     sha256_hex (me_codec env) (''ryframe:tenant-data:'' @ action @ '':v1:'' @ show_int migration_id @ '':'' @ key)"

definition read_migration :: "int \<Rightarrow> data_migration io" where
  "read_migration i = control_read (\<lambda>db. lock_migration i db)"

definition cancel_migration :: "migration_env \<Rightarrow> ActorContext \<Rightarrow> int \<Rightarrow> string \<Rightarrow> MigrationView io" where
  "cancel_migration env actor migration_id key =
     (let key_hash = action_key env ''cancel'' migration_id key in
      io_bind (io_lift (ensure_platform_actor actor)) (\<lambda>_.
      io_bind (io_lift (validate_idempotency_key key)) (\<lambda>_.
      io_bind (read_migration migration_id) (\<lambda>snapshot.
      if mg_state snapshot = mg_CANCELLED then
        if mg_cancel_idempotency_key_hash snapshot = Some key_hash then migration_view snapshot
        else io_fail (Conflict msg_td_cancelled)
      else if \<not> can_cancel snapshot then io_fail (Conflict msg_td_past_cancel)
      else
        io_bind (timed_txn (\<lambda>now tnow _. cancel_intent_txn actor key_hash snapshot now tnow)) (\<lambda>(same, m).
        if same then migration_view m else io_fail (Conflict msg_td_cancelled))))))"

definition finalize_intent_txn ::
  "ActorContext \<Rightarrow> string \<Rightarrow> data_migration \<Rightarrow> timestamp \<Rightarrow> timestamp \<Rightarrow> migration_db \<Rightarrow>
   ((bool \<times> data_migration) \<times> migration_db) app_result" where
  "finalize_intent_txn actor key_hash snapshot now tnow db =
     bind_result (acquire_or_renew_operation_lease snapshot now tnow db) (\<lambda>db1.
     bind_result (lock_migration (mg_id snapshot) db1) (\<lambda>m.
     if mg_state m = mg_FINALIZED then
       bind_result (release_operation_lease m tnow db1) (\<lambda>db2.
       Inr ((mg_finalize_idempotency_key_hash m = Some key_hash, m), db2))
     else if mg_state m \<noteq> mg_RETENTION_PENDING then Inl (Conflict msg_td_no_finalize)
     else if mg_finalize_idempotency_key_hash m \<noteq> None \<and> mg_finalize_idempotency_key_hash m \<noteq> Some key_hash
     then Inl (Conflict msg_td_finalize_other)
     else if retention_left m now then Inl (Conflict msg_td_retention_left)
     else case activation_time m of
       None \<Rightarrow> Inl (Conflict msg_td_activation_missing)
     | Some not_before \<Rightarrow>
         if \<not> has_validated_backup m not_before now db1 then Inl (Conflict msg_td_backup_gone)
         else
           let m' = (if mg_finalize_idempotency_key_hash m = None
                     then m\<lparr>mg_finalize_idempotency_key_hash := Some key_hash,
                            mg_finalized_by := Some (ax_user_id actor), mg_finalize_requested_at := Some now,
                            mg_updated_at := now\<rparr>
                     else m);
               db2 = (if mg_finalize_idempotency_key_hash m = None then save_migration m' db1 else db1)
           in bind_result (reactivate_job m' now db2) (\<lambda>db3. Inr ((True, m'), db3))))"

definition finalize_migration :: "migration_env \<Rightarrow> ActorContext \<Rightarrow> int \<Rightarrow> string \<Rightarrow> MigrationView io" where
  "finalize_migration env actor migration_id key =
     (let key_hash = action_key env ''finalize'' migration_id key in
      io_bind (io_lift (ensure_platform_actor actor)) (\<lambda>_.
      io_bind (io_lift (validate_idempotency_key key)) (\<lambda>_.
      io_bind (read_migration migration_id) (\<lambda>snapshot.
      if mg_state snapshot = mg_FINALIZED then
        if mg_finalize_idempotency_key_hash snapshot = Some key_hash then migration_view snapshot
        else io_fail (Conflict msg_td_finalized)
      else if mg_state snapshot \<noteq> mg_RETENTION_PENDING then io_fail (Conflict msg_td_not_retained)
      else
        io_bind database_now (\<lambda>now.
        if retention_left snapshot now then io_fail (Conflict msg_td_retention_left)
        else case activation_time snapshot of
          None \<Rightarrow> io_fail (Conflict msg_td_activation_missing)
        | Some not_before \<Rightarrow>
            io_bind (control_read (\<lambda>db. Inr (has_validated_backup snapshot not_before now db))) (\<lambda>backed.
            if \<not> backed then io_fail (Conflict msg_td_backup_missing)
            else
              io_bind (control_txn (\<lambda>t tnow. finalize_intent_txn actor key_hash snapshot now tnow)) (\<lambda>(same, m).
              if same then migration_view m else io_fail (Conflict msg_td_finalized))))))))"

section \<open>Reconciliation of the jobs\<close>

text \<open>\<open>repair_authoritative_job\<close>: the result says whether a new job was enqueued.\<close>

definition repair_job_txn ::
  "data_migration \<Rightarrow> timestamp \<Rightarrow> timestamp \<Rightarrow> int app_result \<Rightarrow> migration_db \<Rightarrow> (bool \<times> migration_db) app_result" where
  "repair_job_txn snapshot now tnow next_id db =
     bind_result (acquire_or_renew_operation_lease snapshot now tnow db) (\<lambda>db1.
     bind_result (lock_migration (mg_id snapshot) db1) (\<lambda>m.
     if \<not> migration_requires_worker m then
       bind_result (release_operation_lease m tnow db1) (\<lambda>db2. Inr (False, db2))
     else
       bind_result
         (case mg_background_job_id m of
            None \<Rightarrow> Inr (False, md_jobs db1)
          | Some job_id \<Rightarrow>
              reactivate_linked_in_txn job_id ''tenant_data_migration'' ''migration_id'' (mg_id m) now (md_jobs db1))
         (\<lambda>(found, jobs).
       if found then Inr (False, db1\<lparr>md_jobs := jobs\<rparr>)
       else
         bind_result (enqueue_migration_job next_id
           (migration_job (mg_tenant_id m) (mg_id m) 20 now
             (''migration-recovery:'' @ show_int (mg_id m) @ '':'' @
              (case mg_background_job_id m of None \<Rightarrow> ''missing'' | Some j \<Rightarrow> show_int j) @ '':'' @
              show_int (mg_updated_at m))) tnow (db1\<lparr>md_jobs := jobs\<rparr>)) (\<lambda>(job, db2).
         Inr (True, save_migration (m\<lparr>mg_background_job_id := Some job, mg_updated_at := now\<rparr>) db2)))))"

definition repair_authoritative_job :: "data_migration \<Rightarrow> bool io" where
  "repair_authoritative_job snapshot =
     io_bind database_now (\<lambda>now. control_txn (\<lambda>t tnow. repair_job_txn snapshot now tnow (tu_id t)))"

text \<open>One page of the reconciliation; a migration that cannot be repaired does not stop the others.\<close>

definition reconcile_page :: "int option \<Rightarrow> (int option + unit) io" where
  "reconcile_page after_id =
     io_bind (control_read (\<lambda>db. Inr (recoverable_migrations after_id 100 db))) (\<lambda>page.
     if page = [] then io_return (Inr ())
     else
       io_bind (io_each (\<lambda>m. io_ignore (repair_authoritative_job m)) page) (\<lambda>_.
       io_return (if length page < 100 then Inr () else Inl (Some (mg_id (last page))))))"

definition reconcile_authoritative_jobs :: "unit io" where
  "reconcile_authoritative_jobs = io_loop reconcile_page None"

end
