(* ===== verification/Migration_Logic.thy ===== *)
theory Migration_Logic
  imports Migration_Service
begin

text \<open>
  Reasoning about programs that share the world: what holds before and after a program, whatever the
  others do between its calls, whichever calls fail and wherever the process ends.
\<close>

section \<open>Triples\<close>

text \<open>
  The others may do what \<open>R\<close> allows; \<open>I\<close> is what everybody keeps. A predicate is stable when the
  others keep it.
\<close>

locale surroundings =
  fixes R :: "world \<Rightarrow> world \<Rightarrow> bool" and I :: "world \<Rightarrow> bool"
  assumes keeps: "I w \<Longrightarrow> R w w' \<Longrightarrow> I w'"
begin

definition turns_ok :: "turn list \<Rightarrow> bool" where
  "turns_ok ts \<longleftrightarrow> list_all (\<lambda>t. \<forall>w. I w \<longrightarrow> R w (tu_others t w)) ts"

definition stable :: "(world \<Rightarrow> bool) \<Rightarrow> bool" where
  "stable P \<longleftrightarrow> (\<forall>w w'. I w \<longrightarrow> P w \<longrightarrow> R w w' \<longrightarrow> P w')"

definition triple :: "(world \<Rightarrow> bool) \<Rightarrow> 'a io \<Rightarrow> ('a \<Rightarrow> world \<Rightarrow> bool) \<Rightarrow> (world \<Rightarrow> bool) \<Rightarrow> bool" where
  "triple P m Q F \<longleftrightarrow> (\<forall>ts w. turns_ok ts \<longrightarrow> I w \<longrightarrow> P w \<longrightarrow>
     (case m ts w of (r, ts', w') \<Rightarrow> turns_ok ts' \<and> I w' \<and>
        (case r of Value x \<Rightarrow> Q x w' | Failed _ \<Rightarrow> F w' | Stopped \<Rightarrow> True)))"

lemma tripleD:
  assumes "triple P m Q F" "turns_ok ts" "I w" "P w" "m ts w = (r, ts', w')"
  shows "turns_ok ts' \<and> I w' \<and> (case r of Value x \<Rightarrow> Q x w' | Failed _ \<Rightarrow> F w' | Stopped \<Rightarrow> True)"
  using assms(1) [unfolded triple_def, THEN spec, THEN spec, THEN mp, THEN mp, THEN mp, OF assms(2-4)]
  unfolding assms(5) prod.case .

lemma tripleI:
  assumes "\<And>ts w r ts' w'. turns_ok ts \<Longrightarrow> I w \<Longrightarrow> P w \<Longrightarrow> m ts w = (r, ts', w') \<Longrightarrow>
    turns_ok ts' \<and> I w' \<and> (case r of Value x \<Rightarrow> Q x w' | Failed _ \<Rightarrow> F w' | Stopped \<Rightarrow> True)"
  shows "triple P m Q F"
  unfolding triple_def
proof (intro allI impI)
  fix ts w
  assume a: "turns_ok ts" "I w" "P w"
  obtain r ts' w' where m: "m ts w = (r, ts', w')" by (cases "m ts w")
  show "case m ts w of (r, ts', w') \<Rightarrow> turns_ok ts' \<and> I w' \<and>
      (case r of Value x \<Rightarrow> Q x w' | Failed _ \<Rightarrow> F w' | Stopped \<Rightarrow> True)"
    unfolding m prod.case by (rule assms [OF a m])
qed

lemma triple_conseq:
  assumes "triple P' m Q' F'" "\<And>w. I w \<Longrightarrow> P w \<Longrightarrow> P' w" "\<And>x w. I w \<Longrightarrow> Q' x w \<Longrightarrow> Q x w"
    "\<And>w. I w \<Longrightarrow> F' w \<Longrightarrow> F w"
  shows "triple P m Q F"
proof (rule tripleI)
  fix ts w r ts' w'
  assume a: "turns_ok ts" "I w" "P w" "m ts w = (r, ts', w')"
  from tripleD [OF assms(1) a(1,2) assms(2) [OF a(2,3)] a(4)] assms(3,4)
  show "turns_ok ts' \<and> I w' \<and> (case r of Value x \<Rightarrow> Q x w' | Failed _ \<Rightarrow> F w' | Stopped \<Rightarrow> True)"
    by (auto split: outcome.splits)
qed

lemma triple_pre: "triple P' m Q F \<Longrightarrow> (\<And>w. I w \<Longrightarrow> P w \<Longrightarrow> P' w) \<Longrightarrow> triple P m Q F"
  by (rule triple_conseq)

lemma triple_post: "triple P m Q' F \<Longrightarrow> (\<And>x w. I w \<Longrightarrow> Q' x w \<Longrightarrow> Q x w) \<Longrightarrow> triple P m Q F"
  by (rule triple_conseq)

lemma triple_return: "(\<And>w. P w \<Longrightarrow> Q x w) \<Longrightarrow> triple P (io_return x) Q F"
  by (rule tripleI) (auto simp: io_return_def)

lemma triple_fail: "(\<And>w. P w \<Longrightarrow> F w) \<Longrightarrow> triple P (io_fail e) Q F"
  by (rule tripleI) (auto simp: io_fail_def)

lemma triple_lift: "(\<And>x w. r = Inr x \<Longrightarrow> P w \<Longrightarrow> Q x w) \<Longrightarrow> (\<And>w. P w \<Longrightarrow> F w) \<Longrightarrow> triple P (io_lift r) Q F"
  unfolding io_lift_def by (auto intro: triple_return triple_fail split: sum.split)

lemma triple_bind:
  assumes "triple P m Q F" "\<And>x. triple (Q x) (f x) S F"
  shows "triple P (io_bind m f) S F"
proof (rule tripleI)
  fix ts w r ts' w'
  assume a: "turns_ok ts" "I w" "P w" "io_bind m f ts w = (r, ts', w')"
  obtain r1 ts1 w1 where m: "m ts w = (r1, ts1, w1)" by (cases "m ts w")
  note 1 = tripleD [OF assms(1) a(1,2,3) m]
  show "turns_ok ts' \<and> I w' \<and> (case r of Value x \<Rightarrow> S x w' | Failed _ \<Rightarrow> F w' | Stopped \<Rightarrow> True)"
  proof (cases r1)
    case (Value x)
    with 1 a m show ?thesis using tripleD [OF assms(2), of ts1 w1 x r ts' w'] by (simp add: io_bind_def)
  qed (use 1 a m in \<open>auto simp: io_bind_def\<close>)
qed

lemma triple_catch:
  assumes "triple P m Q F" "\<And>e. triple F (h e) Q F'"
  shows "triple P (io_catch m h) Q F'"
proof (rule tripleI)
  fix ts w r ts' w'
  assume a: "turns_ok ts" "I w" "P w" "io_catch m h ts w = (r, ts', w')"
  obtain r1 ts1 w1 where m: "m ts w = (r1, ts1, w1)" by (cases "m ts w")
  note 1 = tripleD [OF assms(1) a(1,2,3) m]
  show "turns_ok ts' \<and> I w' \<and> (case r of Value x \<Rightarrow> Q x w' | Failed _ \<Rightarrow> F' w' | Stopped \<Rightarrow> True)"
  proof (cases r1)
    case (Failed e)
    with 1 a m show ?thesis using tripleD [OF assms(2), of ts1 w1 e r ts' w'] by (simp add: io_catch_def)
  qed (use 1 a m in \<open>auto simp: io_catch_def\<close>)
qed

lemma triple_ignore:
  assumes "triple P m (\<lambda>_. Q) Q"
  shows "triple P (io_ignore m) (\<lambda>_. Q) F"
  unfolding io_ignore_def
  by (rule triple_catch [where F = Q], rule triple_bind [OF assms]) (auto intro: triple_return)

text \<open>
  A call: its precondition has to survive the others; a refused call leaves it, a call whose answer is
  lost leaves what the call leaves.
\<close>

lemma triple_call:
  assumes "stable P" "\<And>t w x w'. I w \<Longrightarrow> P w \<Longrightarrow> f t w = Inr (x, w') \<Longrightarrow> I w' \<and> Q x w'"
    "\<And>w. I w \<Longrightarrow> P w \<Longrightarrow> F w" "\<And>x w. I w \<Longrightarrow> Q x w \<Longrightarrow> F w"
  shows "triple P (io_call f) Q F"
proof (rule tripleI)
  fix ts w r ts' w'
  assume a: "turns_ok ts" "I w" "P w" "io_call f ts w = (r, ts', w')"
  show "turns_ok ts' \<and> I w' \<and> (case r of Value x \<Rightarrow> Q x w' | Failed _ \<Rightarrow> F w' | Stopped \<Rightarrow> True)"
  proof (cases ts)
    case Nil
    then show ?thesis using a by (auto simp: io_call_def)
  next
    case (Cons t ts1)
    obtain v where v: "v = tu_others t w" by simp
    have ok: "turns_ok ts1" using a(1) by (simp add: turns_ok_def Cons)
    have "R w v" using a(1,2) by (simp add: turns_ok_def Cons v)
    then have Iv: "I v" and Pv: "P v" using keeps a(2,3) assms(1) unfolding stable_def by blast+
    have run: "(case tu_reply t of
            Completes \<Rightarrow> (case f t v of Inl e \<Rightarrow> (Failed e, ts1, v) | Inr (x, w2) \<Rightarrow> (Value x, ts1, w2))
          | Refuses e \<Rightarrow> (Failed e, ts1, v)
          | Loses e \<Rightarrow> (Failed e, ts1, (case f t v of Inl _ \<Rightarrow> v | Inr (_, w2) \<Rightarrow> w2))
          | Breaks \<Rightarrow> (Stopped, ts1, v)) = (r, ts', w')"
      using a(4) unfolding io_call_def Cons v Let_def list.case .
    have F: "F v" by (rule assms(3) [OF Iv Pv])
    show ?thesis
    proof (cases "f t v")
      case (Inl e)
      then show ?thesis using run ok Iv F by (simp split: reply.splits) (metis outcome.case)+
    next
      case (Inr p)
      obtain x u where p: "p = (x, u)" by (cases p)
      have Iu: "I u" and Qu: "Q x u" using assms(2) [OF Iv Pv] Inr p by blast+
      have "F u" by (rule assms(4) [OF Iu Qu])
      then show ?thesis using run Inr p ok Iv F Iu Qu by (simp split: reply.splits) (metis outcome.case)+
    qed
  qed
qed

lemma triple_loop:
  assumes "\<And>s. triple (P s) (body s) (\<lambda>r. case r of Inl s' \<Rightarrow> P s' | Inr x \<Rightarrow> Q x) F"
  shows "triple (P s) (io_loop body s) Q F"
proof -
  have "triple (P s) (loop_fuel n body s) Q F" for n s
  proof (induction n arbitrary: s)
    case 0
    show ?case by (rule tripleI) auto
  next
    case (Suc n)
    show ?case
    proof (rule tripleI)
      fix ts w r ts' w'
      assume a: "turns_ok ts" "I w" "P s w" "loop_fuel (Suc n) body s ts w = (r, ts', w')"
      obtain r1 ts1 w1 where m: "body s ts w = (r1, ts1, w1)" by (cases "body s ts w")
      note 1 = tripleD [OF assms a(1,2,3) m]
      show "turns_ok ts' \<and> I w' \<and> (case r of Value x \<Rightarrow> Q x w' | Failed _ \<Rightarrow> F w' | Stopped \<Rightarrow> True)"
      proof (cases r1)
        case (Value x)
        show ?thesis
        proof (cases x)
          case (Inl s')
          with 1 a m Value show ?thesis using tripleD [OF Suc.IH, of ts1 w1 s' r ts' w'] by simp
        qed (use 1 a m Value in auto)
      qed (use 1 a m in auto)
    qed
  qed
  from tripleD [OF this] show ?thesis unfolding io_loop_def by (intro tripleI) blast
qed

lemma triple_each:
  assumes "\<And>xs x ys. zs = xs @ x # ys \<Longrightarrow> triple (P xs) (f x) (\<lambda>_. P (xs @ [x])) F"
  shows "triple (P []) (io_each f zs) (\<lambda>_. P zs) F"
proof -
  have "triple (P xs) (io_each f ys) (\<lambda>_. P (xs @ ys)) F" if "zs = xs @ ys" for xs ys
    using that
  proof (induction ys arbitrary: xs)
    case Nil
    show ?case by (auto intro: triple_return)
  next
    case (Cons y ys)
    show ?case using assms [OF Cons.prems] Cons.IH [of "xs @ [y]"] Cons.prems
      by (auto intro: triple_bind)
  qed
  from this [of "[]" zs] show ?thesis by simp
qed

lemma triple_clock: "triple P local_clock (\<lambda>_. P) F"
  by (rule tripleI) (auto simp: local_clock_def)

lemma triple_fresh: "(\<And>w. P w \<Longrightarrow> F w) \<Longrightarrow> triple P fresh_id (\<lambda>_. P) F"
  by (rule tripleI) (auto simp: fresh_id_def io_lift_def io_return_def io_fail_def split: list.splits sum.splits)

section \<open>Calls on the databases\<close>

lemma triple_control:
  assumes "stable P" "\<And>t w x db. I w \<Longrightarrow> P w \<Longrightarrow> f t (wd_now w) (wd_db w) = Inr (x, db) \<Longrightarrow>
      I (w\<lparr>wd_db := db\<rparr>) \<and> Q x (w\<lparr>wd_db := db\<rparr>)"
    "\<And>w. I w \<Longrightarrow> P w \<Longrightarrow> F w" "\<And>x w. I w \<Longrightarrow> Q x w \<Longrightarrow> F w"
  shows "triple P (control_txn f) Q F"
  unfolding control_txn_def by (rule triple_call) (use assms in \<open>auto simp: bind_result_eq_Inr\<close>)

lemma triple_control_read:
  assumes "stable P" "\<And>w x. I w \<Longrightarrow> P w \<Longrightarrow> f (wd_db w) = Inr x \<Longrightarrow> Q x w"
    "\<And>w. I w \<Longrightarrow> P w \<Longrightarrow> F w" "\<And>x w. I w \<Longrightarrow> Q x w \<Longrightarrow> F w"
  shows "triple P (control_read f) Q F"
  unfolding control_read_def by (rule triple_call) (use assms in \<open>auto simp: bind_result_eq_Inr\<close>)

lemma triple_target:
  assumes "stable P" "\<And>w x ts. I w \<Longrightarrow> P w \<Longrightarrow> f (wd_targets w) = Inr (x, ts) \<Longrightarrow>
      I (w\<lparr>wd_targets := ts\<rparr>) \<and> Q x (w\<lparr>wd_targets := ts\<rparr>)"
    "\<And>w. I w \<Longrightarrow> P w \<Longrightarrow> F w" "\<And>x w. I w \<Longrightarrow> Q x w \<Longrightarrow> F w"
  shows "triple P (target_call f) Q F"
  unfolding target_call_def by (rule triple_call) (use assms in \<open>auto simp: bind_result_eq_Inr\<close>)

lemma triple_target_read:
  assumes "stable P" "\<And>w x. I w \<Longrightarrow> P w \<Longrightarrow> f (wd_targets w) = Inr x \<Longrightarrow> Q x w"
    "\<And>w. I w \<Longrightarrow> P w \<Longrightarrow> F w" "\<And>x w. I w \<Longrightarrow> Q x w \<Longrightarrow> F w"
  shows "triple P (target_read f) Q F"
  unfolding target_read_def by (rule triple_call) (use assms in \<open>auto simp: bind_result_eq_Inr\<close>)

lemma triple_now: "stable P \<Longrightarrow> (\<And>w. I w \<Longrightarrow> P w \<Longrightarrow> F w) \<Longrightarrow> triple P database_now (\<lambda>_. P) F"
  unfolding database_now_def by (rule triple_call) auto

lemma triple_timed:
  assumes "stable P" "\<And>now tnow clock w x db. I w \<Longrightarrow> P w \<Longrightarrow> f now tnow clock (wd_db w) = Inr (x, db) \<Longrightarrow>
      I (w\<lparr>wd_db := db\<rparr>) \<and> Q x (w\<lparr>wd_db := db\<rparr>)"
    "\<And>w. I w \<Longrightarrow> P w \<Longrightarrow> F w" "\<And>x w. I w \<Longrightarrow> Q x w \<Longrightarrow> F w"
  shows "triple P (timed_txn f) Q F"
  unfolding timed_txn_def
  by (rule triple_bind [OF triple_now [OF assms(1,3)]], assumption, assumption, rule triple_control) (use assms in auto)

lemma stable_conj: "stable P \<Longrightarrow> stable Q \<Longrightarrow> stable (\<lambda>w. P w \<and> Q w)"
  unfolding stable_def by blast

end

end
