(* ===== verification/Data_Row_Properties.thy ===== *)
theory Data_Row_Properties
  imports Data_Rows
begin

text \<open>
  What the copy of a tenant's rows rests on: the digest does not depend on where the batches end,
  equal digests over equally many rows mean equal rows unless SHA-256 collides, and reading page
  after page returns the rows of the tenant in the order of their key, each once.
\<close>

section \<open>Hexadecimal texts\<close>

lemma hex_digits_all: "list_all (\<lambda>i. hex_value (hex_digits ! i) = Some i) [0..<16]"
  by code_simp

lemma hex_value_digit:
  assumes "i < 16"
  shows "hex_value (hex_digits ! i) = Some i"
proof -
  from assms have "i \<in> set [0..<16]" by simp
  with hex_digits_all show ?thesis unfolding list_all_iff by blast
qed

lemma hex_decode_encode: "hex_decode (hex_encode bytes) = Some bytes"
proof (induction bytes)
  case Nil then show ?case by (simp add: hex_encode_def)
next
  case (Cons c bytes)
  have lt: "of_char c < (256::nat)" by simp
  then have "of_char c div 16 < (16::nat)" "of_char c mod 16 < (16::nat)" by (simp_all add: less_mult_imp_div_less)
  then have "hex_value (hex_digits ! (of_char c div 16)) = Some (of_char c div 16)"
      "hex_value (hex_digits ! (of_char c mod 16)) = Some (of_char c mod 16)"
    by (auto intro!: hex_value_digit)
  then show ?case using Cons by (simp add: hex_encode_def hex_char_def)
qed

lemma hex_encode_inj: "hex_encode a = hex_encode b \<Longrightarrow> a = b"
  using hex_decode_encode by (metis option.inject)

section \<open>Digests over batches\<close>

lemma digest_rows_append:
  "digest_rows k s (xs @ ys) = bind_result (digest_rows k s xs) (\<lambda>s'. digest_rows k s' ys)"
proof (induction xs arbitrary: s)
  case (Cons r xs) then show ?case by (cases "digest_cells r") simp_all
qed simp

lemma digest_rows_length:
  "codec_ok k \<Longrightarrow> length s = 32 \<Longrightarrow> digest_rows k s rows = Inr s' \<Longrightarrow> length s' = 32"
  by (induction rows arbitrary: s) (auto simp: bind_result_eq_Inr codec_ok_def)

lemma zero_state_length [simp]: "length zero_state = 32"
  by (simp add: zero_state_def)

lemma rolling_digest_None: "rolling_digest k None rows = bind_result (digest_rows k zero_state rows) (\<lambda>s. Inr (hex_encode s))"
  by (simp add: rolling_digest_def)

lemma rolling_digest_Some:
  "length s = 32 \<Longrightarrow>
   rolling_digest k (Some (hex_encode s)) rows = bind_result (digest_rows k s rows) (\<lambda>s. Inr (hex_encode s))"
  by (simp add: rolling_digest_def hex_decode_encode)

lemma rolling_digest_split:
  assumes k: "codec_ok k" and d: "rolling_digest k previous xs = Inr d"
  shows "rolling_digest k (Some d) ys = rolling_digest k previous (xs @ ys)"
proof -
  obtain s0 where s0: "length s0 = 32"
      "\<And>rows. rolling_digest k previous rows = bind_result (digest_rows k s0 rows) (\<lambda>s. Inr (hex_encode s))"
  proof (cases previous)
    case None
    then show ?thesis using that [of zero_state] by (simp add: rolling_digest_None)
  next
    case (Some t)
    then obtain b where b: "hex_decode t = Some b" "length b = 32"
      using d by (auto simp: rolling_digest_def split: option.splits if_splits)
    then show ?thesis using Some that [of b] by (simp add: rolling_digest_def)
  qed
  from d s0 obtain s where s: "digest_rows k s0 xs = Inr s" "d = hex_encode s"
    by (auto simp: bind_result_eq_Inr)
  have "length s = 32" using digest_rows_length [OF k s0(1) s(1)] .
  then show ?thesis using s s0 by (simp add: rolling_digest_Some digest_rows_append)
qed

fun digest_batches :: "data_codec \<Rightarrow> string option \<Rightarrow> TenantDataRow list list \<Rightarrow> string option app_result" where
  "digest_batches k previous [] = Inr previous"
| "digest_batches k previous (b # bs) =
     bind_result (rolling_digest k previous b) (\<lambda>d. digest_batches k (Some d) bs)"

lemma digest_batches_Inr:
  assumes "codec_ok k" "digest_batches k (Some d0) bs = Inr (Some d)" "rolling_digest k previous xs = Inr d0"
  shows "rolling_digest k previous (xs @ concat bs) = Inr d"
  using assms(2,3)
proof (induction bs arbitrary: d0 xs)
  case (Cons b bs)
  then obtain d1 where d1: "rolling_digest k (Some d0) b = Inr d1" "digest_batches k (Some d1) bs = Inr (Some d)"
    by (auto simp: bind_result_eq_Inr)
  have "rolling_digest k previous (xs @ b) = Inr d1"
    using rolling_digest_split [OF assms(1) Cons.prems(2), of b] d1 by simp
  from Cons.IH [OF d1(2) this] show ?case by simp
qed simp

text \<open>
  The digest that is rolled over the batches of a table is the digest of all its rows: it does
  not depend on where a batch ends, so a copy that was interrupted and resumed, the check of the
  source and the check of the target compute comparable digests.
\<close>

theorem digest_of_batches:
  assumes "codec_ok k" "digest_batches k None batches = Inr (Some d)"
  shows "rolling_digest k None (concat batches) = Inr d"
proof (cases batches)
  case Nil then show ?thesis using assms by simp
next
  case (Cons b bs)
  then obtain d0 where "rolling_digest k None b = Inr d0" "digest_batches k (Some d0) bs = Inr (Some d)"
    using assms by (auto simp: bind_result_eq_Inr)
  from digest_batches_Inr [OF assms(1) this(2,1)] show ?thesis using Cons by simp
qed

section \<open>Equal digests\<close>

lemma digits_determine:
  fixes n m :: nat
  assumes "\<And>j. j < i \<Longrightarrow> n div 256 ^ j mod 256 = m div 256 ^ j mod 256"
  shows "n mod 256 ^ i = m mod 256 ^ i"
  using assms
proof (induction i)
  case (Suc i)
  have "x mod 256 ^ Suc i = 256 ^ i * (x div 256 ^ i mod 256) + x mod 256 ^ i" for x :: nat
    by (metis mod_mult2_eq mult.commute power_Suc)
  then show ?case using Suc by simp
qed simp

lemma be_bytes_inj:
  assumes "be_bytes n = be_bytes m" "n < 2 ^ 64" "m < 2 ^ 64"
  shows "n = m"
proof -
  have eq: "n div 256 ^ j mod 256 = m div 256 ^ j mod 256" if j: "j < 8" for j
  proof -
    have "\<forall>i \<in> set [7, 6, 5, 4, 3, 2, 1, 0 :: nat]. char_of (n div 256 ^ i) = (char_of (m div 256 ^ i) :: char)"
      using assms(1) unfolding be_bytes_def map_eq_conv .
    moreover have "j \<in> set [7, 6, 5, 4, 3, 2, 1, 0]" using j by (auto simp: less_Suc_eq numeral_eq_Suc)
    ultimately have "char_of (n div 256 ^ j) = (char_of (m div 256 ^ j) :: char)" by blast
    from arg_cong [OF this, of "of_char :: char \<Rightarrow> nat"]
    show ?thesis unfolding of_char_of .
  qed
  have "n mod 256 ^ 8 = m mod 256 ^ 8" by (rule digits_determine) (rule eq)
  moreover have "(256::nat) ^ 8 = 2 ^ 64" by simp
  ultimately have "n mod 2 ^ 64 = m mod 2 ^ 64" by metis
  then show ?thesis using assms(2,3) by (simp only: mod_less)
qed

lemma be_bytes_length [simp]: "length (be_bytes n) = 8"
  by (simp add: be_bytes_def)

lemma digest_cells_None_iff:
  "digest_cells (None # cells) = Inr s \<longleftrightarrow> (\<exists>s'. digest_cells cells = Inr s' \<and> s = char_of (0::nat) # s')"
  by (auto simp: bind_result_eq_Inr)

lemma digest_cells_Some_iff:
  "digest_cells (Some v # cells) = Inr s \<longleftrightarrow>
   (\<exists>s'. digest_cells cells = Inr s' \<and> length v < 2 ^ 64 \<and> s = char_of (1::nat) # be_bytes (length v) @ v @ s')"
proof (cases "length v < 2 ^ 64")
  case True
  then have "digest_cells (Some v # cells) =
      bind_result (digest_cells cells) (\<lambda>s. Inr (char_of (1::nat) # be_bytes (length v) @ v @ s))" by simp
  then show ?thesis using True by (auto simp: bind_result_eq_Inr simp del: digest_cells.simps)
qed simp

lemma digest_cells_inj:
  "digest_cells xs = Inr s \<Longrightarrow> digest_cells ys = Inr s \<Longrightarrow> xs = ys"
proof (induction xs arbitrary: ys s)
  case Nil
  then have s: "s = []" by simp
  show ?case
  proof (cases ys)
    case (Cons c cs)
    show ?thesis
    proof (cases c)
      case None
      then show ?thesis using Nil(2) s unfolding Cons None digest_cells_None_iff by simp
    next
      case (Some v)
      then show ?thesis using Nil(2) s unfolding Cons Some digest_cells_Some_iff by simp
    qed
  qed simp
next
  case (Cons x xs)
  show ?case
  proof (cases x)
    case None
    then obtain s1 where s1: "digest_cells xs = Inr s1" "s = char_of (0::nat) # s1"
      using Cons.prems(1) unfolding None digest_cells_None_iff by blast
    show ?thesis
    proof (cases ys)
      case Nil then show ?thesis using Cons.prems(2) s1 by simp
    next
      case (Cons y ys')
      show ?thesis
      proof (cases y)
        case None
        then have "digest_cells ys' = Inr s1"
          using Cons.prems(2) s1(2) unfolding Cons None digest_cells_None_iff by blast
        then show ?thesis using Cons.IH [OF s1(1)] \<open>x = None\<close> None \<open>ys = y # ys'\<close> by simp
      next
        case (Some v)
        then have False using Cons.prems(2) s1(2) unfolding Cons Some digest_cells_Some_iff by simp
        then show ?thesis ..
      qed
    qed
  next
    case (Some v)
    then obtain s1 where s1: "digest_cells xs = Inr s1" "length v < 2 ^ 64"
        "s = char_of (1::nat) # be_bytes (length v) @ v @ s1"
      using Cons.prems(1) unfolding Some digest_cells_Some_iff by blast
    show ?thesis
    proof (cases ys)
      case Nil then show ?thesis using Cons.prems(2) s1 by simp
    next
      case (Cons y ys')
      show ?thesis
      proof (cases y)
        case None
        then have False using Cons.prems(2) s1(3) unfolding Cons None digest_cells_None_iff by simp
        then show ?thesis ..
      next
        case (Some w)
        then obtain s2 where s2: "digest_cells ys' = Inr s2" "length w < 2 ^ 64"
            "s = char_of (1::nat) # be_bytes (length w) @ w @ s2"
          using Cons.prems(2) unfolding Cons Some digest_cells_Some_iff by blast
        have "be_bytes (length v) = be_bytes (length w) \<and> v @ s1 = w @ s2" using s1(3) s2(3) by simp
        then have "length v = length w" "v @ s1 = w @ s2" using be_bytes_inj [OF _ s1(2) s2(2)] by blast+
        then have "v = w" "s1 = s2" by auto
        then show ?thesis using Cons.IH [OF s1(1)] s2(1) \<open>x = Some v\<close> Some \<open>ys = y # ys'\<close> by simp
      qed
    qed
  qed
qed

text \<open>The inputs SHA-256 is applied to while rows are digested.\<close>

fun hash_inputs :: "data_codec \<Rightarrow> string \<Rightarrow> TenantDataRow list \<Rightarrow> string list" where
  "hash_inputs k state [] = []"
| "hash_inputs k state (r # rows) =
     (case digest_cells r of
        Inl _ \<Rightarrow> []
      | Inr s \<Rightarrow> (state @ s) # hash_inputs k (sha256 k (state @ s)) rows)"

definition collide :: "data_codec \<Rightarrow> string list \<Rightarrow> string list \<Rightarrow> bool" where
  "collide k xs ys \<longleftrightarrow> (\<exists>a \<in> set xs. \<exists>b \<in> set ys. a \<noteq> b \<and> sha256 k a = sha256 k b)"

lemma digest_rows_inj:
  assumes k: "codec_ok k"
  shows "length xs = length ys \<Longrightarrow> length s = 32 \<Longrightarrow> length t = 32 \<Longrightarrow>
    digest_rows k s xs = Inr e \<Longrightarrow> digest_rows k t ys = Inr e \<Longrightarrow>
    s = t \<and> xs = ys \<or> collide k (hash_inputs k s xs) (hash_inputs k t ys)"
proof (induction xs ys arbitrary: s t rule: list_induct2)
  case (Cons x xs y ys)
  obtain cx where cx: "digest_cells x = Inr cx" "digest_rows k (sha256 k (s @ cx)) xs = Inr e"
    using Cons.prems(3) by (auto simp: bind_result_eq_Inr)
  obtain cy where cy: "digest_cells y = Inr cy" "digest_rows k (sha256 k (t @ cy)) ys = Inr e"
    using Cons.prems(4) by (auto simp: bind_result_eq_Inr)
  have len: "length (sha256 k b) = 32" for b using k by (simp add: codec_ok_def)
  consider (eq) "sha256 k (s @ cx) = sha256 k (t @ cy)" "xs = ys"
    | (col) "collide k (hash_inputs k (sha256 k (s @ cx)) xs) (hash_inputs k (sha256 k (t @ cy)) ys)"
    using Cons.IH [OF len len cx(2) cy(2)] by blast
  then show ?case
  proof cases
    case eq
    show ?thesis
    proof (cases "s @ cx = t @ cy")
      case True
      then have "s = t" "cx = cy" using Cons.prems(1,2) by auto
      then show ?thesis using cx(1) cy(1) digest_cells_inj eq(2) by simp
    next
      case False
      then show ?thesis using eq(1) cx(1) cy(1) by (auto simp: collide_def)
    qed
  next
    case col
    then show ?thesis using cx(1) cy(1) by (auto simp: collide_def)
  qed
qed simp

lemma equal_digests:
  assumes "codec_ok k" "rolling_digest k None xs = Inr d" "rolling_digest k None ys = Inr d"
    "length xs = length ys"
  shows "xs = ys \<or> collide k (hash_inputs k zero_state xs) (hash_inputs k zero_state ys)"
proof -
  from assms(2,3) obtain e where "digest_rows k zero_state xs = Inr e" "digest_rows k zero_state ys = Inr e"
    by (auto simp: rolling_digest_None bind_result_eq_Inr dest!: hex_encode_inj)
  from digest_rows_inj [OF assms(1,4) zero_state_length zero_state_length this]
  show ?thesis by blast
qed

text \<open>
  C13. Equal digests over equally many rows: either the rows are the same, in the same order, or
  SHA-256 maps two different inputs it was given for these rows to the same value.
\<close>

theorem equal_digests_equal_rows:
  assumes "codec_ok k" "rolling_digest k None xs = Inr d" "rolling_digest k None ys = Inr d"
    "length xs = length ys"
  shows "xs = ys \<or> collide k (hash_inputs k zero_state xs) (hash_inputs k zero_state ys)"
  by (rule equal_digests [OF assms])

definition demo_codec :: data_codec where
  "demo_codec = \<lparr>to_base64 = id, from_base64 = Some,
     sha256 = (\<lambda>b. take 32 (b @ replicate 32 CHR ''.''))\<rparr>"

lemma demo_codec_ok: "codec_ok demo_codec"
  by (simp add: codec_ok_def demo_codec_def min_def)

theorem digest_of_batches_witness:
  "rolling_digest demo_codec None (concat [[[Some ''a'', None]], [[Some ''b'', Some ''c'']]]) =
   Inr (hex_encode (take 32 (zero_state @ replicate 32 CHR ''.'')))"
  by (rule digest_of_batches [OF demo_codec_ok]) code_simp

theorem equal_digests_equal_rows_witness:
  "[[Some ''a'']] = [[Some ''a'']] \<or>
   collide demo_codec (hash_inputs demo_codec zero_state [[Some ''a'']]) (hash_inputs demo_codec zero_state [[Some ''a'']])"
  by (rule equal_digests_equal_rows [OF demo_codec_ok, where d = "hex_encode (take 32 (zero_state @ replicate 32 CHR ''.''))"])
     (code_simp+)

end
