(* ===== verification/Data_Paging.thy ===== *)
theory Data_Paging
  imports Data_Row_Properties "HOL-Library.Multiset"
begin

text \<open>
  Reading a table page by page: every page continues behind the last row of the page before, so the
  pages together are the rows of the tenant in the order of their key, each once. Writing what was
  read puts exactly these rows into a target that holds none of them under another content.
\<close>

section \<open>Rows that fit their table\<close>

definition row_wf :: "TenantDataTableDescriptor \<Rightarrow> data_row \<Rightarrow> bool" where
  "row_wf d r \<longleftrightarrow> length r = length (de_checksum_columns d) \<and>
     (\<forall>c \<in> set (de_primary_key_cursor_columns d). row_cell d r c \<noteq> None)"

definition table_ok :: "TenantDataTableDescriptor \<Rightarrow> data_row list \<Rightarrow> bool" where
  "table_ok d rows \<longleftrightarrow> (\<forall>r \<in> set rows. row_wf d r) \<and> distinct (map (primary_key d) rows)"

definition ordered_rows :: "TenantDataTableDescriptor \<Rightarrow> string \<Rightarrow> target_db \<Rightarrow> data_row list" where
  "ordered_rows d tenant_id db = sort_key (cursor_key d) (tenant_rows d tenant_id db)"

lemma set_ordered_rows [simp]: "set (ordered_rows d t db) = set (tenant_rows d t db)"
  by (simp add: ordered_rows_def)

lemma row_wf_cell:
  assumes "table_wf d" "row_wf d r" "c \<in> set (business_cursor_columns d)"
  obtains v where "row_cell d r c = Some v"
  using assms unfolding business_cursor_columns_def row_wf_def by fastforce

lemma cursor_cells_key:
  assumes "row_wf d r"
  shows "cursor_cells d r = map Some (cursor_key d r)"
  using assms unfolding cursor_cells_def cursor_key_def row_wf_def business_cursor_columns_def
  by (auto split: option.splits)

lemma primary_key_by_cursor:
  assumes "row_wf d r" "row_wf d r'" "row_of_tenant d t r" "row_of_tenant d t r'"
    "cursor_key d r = cursor_key d r'"
  shows "primary_key d r = primary_key d r'"
proof -
  have eq: "cursor_cells d r = cursor_cells d r'"
    using assms by (simp add: cursor_cells_key)
  have "row_cell d r c = row_cell d r' c" if c: "c \<in> set (de_primary_key_cursor_columns d)" for c
  proof (cases "c = de_tenant_column d")
    case True
    then show ?thesis using assms(3,4) by (simp add: row_of_tenant_def)
  next
    case False
    then have "c \<in> set (business_cursor_columns d)" using c by (simp add: business_cursor_columns_def)
    with eq show ?thesis unfolding cursor_cells_def map_eq_conv by blast
  qed
  then show ?thesis by (simp add: primary_key_def)
qed

lemma table_ok_tenant: "table_ok d (tg_rows db (de_table d)) \<Longrightarrow> table_ok d (tenant_rows d t db)"
  by (auto simp: table_ok_def tenant_rows_def distinct_map_filter)

lemma distinct_cursor_keys:
  assumes "table_ok d (tenant_rows d t db)"
  shows "distinct (map (cursor_key d) (tenant_rows d t db))"
proof -
  let ?R = "tenant_rows d t db"
  have d: "distinct ?R" "inj_on (primary_key d) (set ?R)" "\<And>r. r \<in> set ?R \<Longrightarrow> row_wf d r"
    using assms by (auto simp: table_ok_def distinct_map)
  have "inj_on (cursor_key d) (set ?R)"
  proof (rule inj_onI)
    fix x y
    assume xy: "x \<in> set ?R" "y \<in> set ?R" "cursor_key d x = cursor_key d y"
    then have "row_of_tenant d t x" "row_of_tenant d t y" by (auto simp: tenant_rows_def)
    then show "x = y"
      using primary_key_by_cursor [of d x y t] xy d inj_onD [OF d(2)] by blast
  qed
  then show ?thesis using d by (simp add: distinct_map)
qed

lemma ordered_rows_strict:
  assumes "table_ok d (tenant_rows d t db)"
  shows "sorted_wrt (<) (map (cursor_key d) (ordered_rows d t db))"
proof -
  have "mset (map (cursor_key d) (ordered_rows d t db)) = mset (map (cursor_key d) (tenant_rows d t db))"
    by (simp add: ordered_rows_def)
  then have "distinct (map (cursor_key d) (ordered_rows d t db))"
    using distinct_cursor_keys [OF assms] mset_eq_imp_distinct_iff by blast
  then show ?thesis
    by (simp add: ordered_rows_def strict_sorted_iff)
qed

section \<open>One page\<close>

lemma cursor_values_encoded:
  assumes d: "table_wf d" and r: "row_wf d r"
  shows "cursor_values d (encode_row k r) (business_cursor_columns d) = Inr (map (to_base64 k) (cursor_key d r))"
proof -
  have "cursor_values d (encode_row k r) cs =
      Inr (map (to_base64 k) (map (\<lambda>c. case row_cell d r c of Some v \<Rightarrow> v | None \<Rightarrow> []) cs))"
    if cs: "set cs \<subseteq> set (business_cursor_columns d)" for cs
    using cs
  proof (induction cs)
    case (Cons c cs)
    then have c: "c \<in> set (business_cursor_columns d)" by simp
    obtain v where v: "row_cell d r c = Some v" using row_wf_cell [OF d r c] .
    then obtain i where i: "position_of c (de_checksum_columns d) = Some i" "i < length r" "r ! i = Some v"
      by (auto simp: row_cell_def split: option.splits if_splits)
    then show ?case using Cons v by (simp add: encode_row_def)
  qed simp
  then show ?thesis by (simp add: cursor_key_def)
qed

lemma row_greater_Some:
  "length xs = length ys \<Longrightarrow> row_greater (map Some xs) (map Some ys) \<longleftrightarrow> ys < xs"
  by (induction xs ys rule: list_induct2) auto

lemma select_page_first:
  "select_page k d t None n db = take n (ordered_rows d t db)"
  by (simp add: select_page_def ordered_rows_def)

lemma filter_greater_drop:
  assumes s: "sorted_wrt (<) (map f xs)" and j: "0 < j" "j \<le> length xs"
  shows "filter (\<lambda>r. (f (xs ! (j - 1)) :: 'k::linorder) < f r) xs = drop j xs"
proof -
  have less: "f (xs ! a) < f (xs ! b)" if "a < b" "b < length xs" for a b
    using s that by (simp add: sorted_wrt_iff_nth_less)
  have "filter (\<lambda>r. f (xs ! (j - 1)) < f r) (take j xs) = []"
  proof (rule filter_False, rule ballI)
    fix r assume "r \<in> set (take j xs)"
    then obtain a where a: "a < j" "a < length xs" "r = xs ! a" by (auto simp: in_set_conv_nth)
    show "\<not> f (xs ! (j - 1)) < f r"
    proof (cases "a = j - 1")
      case False
      then have "f (xs ! a) < f (xs ! (j - 1))" using a j by (intro less) auto
      then show ?thesis using a by simp
    qed (use a in simp)
  qed
  moreover have "filter (\<lambda>r. f (xs ! (j - 1)) < f r) (drop j xs) = drop j xs"
  proof (rule filter_True, rule ballI)
    fix r assume "r \<in> set (drop j xs)"
    then obtain a where a: "a < length xs - j" "r = xs ! (j + a)" by (auto simp: in_set_conv_nth)
    have "f (xs ! (j - 1)) < f (xs ! (j + a))" using a j by (intro less) auto
    then show "f (xs ! (j - 1)) < f r" using a by simp
  qed
  moreover have "filter P xs = filter P (take j xs) @ filter P (drop j xs)" for P
    using filter_append [of P "take j xs" "drop j xs"] by simp
  ultimately show ?thesis by simp
qed

lemma select_page_next:
  assumes k: "codec_ok k" and ok: "table_ok d (tenant_rows d t db)"
    and j: "0 < j" "j \<le> length (ordered_rows d t db)"
  shows "select_page k d t (Some (map (to_base64 k) (cursor_key d (ordered_rows d t db ! (j - 1))))) n db =
    take n (drop j (ordered_rows d t db))"
proof -
  let ?S = "ordered_rows d t db" and ?c = "cursor_key d (ordered_rows d t db ! (j - 1))"
  have wf: "row_wf d r" if "r \<in> set (tenant_rows d t db)" for r
    using that ok by (simp add: table_ok_def)
  have dec: "map (from_base64 k) (map (to_base64 k) ?c) = map Some ?c"
    using k by (simp add: codec_ok_def)
  have "row_greater (cursor_cells d r) (map Some ?c) \<longleftrightarrow> ?c < cursor_key d r"
    if "r \<in> set (tenant_rows d t db)" for r
  proof -
    have "length (cursor_key d r) = length ?c" by (simp add: cursor_key_def)
    then show ?thesis
      by (simp only: cursor_cells_key [OF wf [OF that]] row_greater_Some)
  qed
  then have "filter (\<lambda>r. row_greater (cursor_cells d r) (map Some ?c)) (tenant_rows d t db) =
      filter (\<lambda>r. ?c < cursor_key d r) (tenant_rows d t db)"
    by (auto intro: filter_cong)
  then have "select_page k d t (Some (map (to_base64 k) ?c)) n db =
      take n (sort_key (cursor_key d) (filter (\<lambda>r. ?c < cursor_key d r) (tenant_rows d t db)))"
    unfolding select_page_def option.case dec by (rule arg_cong)
  also have "sort_key (cursor_key d) (filter (\<lambda>r. ?c < cursor_key d r) (tenant_rows d t db)) =
      filter (\<lambda>r. ?c < cursor_key d r) ?S"
    by (simp add: ordered_rows_def filter_sort)
  also have "\<dots> = drop j ?S"
    by (rule filter_greater_drop [OF ordered_rows_strict [OF ok] j])
  finally show ?thesis .
qed

text \<open>
  Where a reader stands: at the beginning, or behind the first \<open>j\<close> rows.
\<close>

definition cursor_at ::
  "data_codec \<Rightarrow> TenantDataTableDescriptor \<Rightarrow> data_row list \<Rightarrow> nat \<Rightarrow> string list option \<Rightarrow> bool" where
  "cursor_at k d rows j cursor \<longleftrightarrow>
     (case cursor of
        None \<Rightarrow> j = 0
      | Some vs \<Rightarrow> 0 < j \<and> j \<le> length rows \<and> vs = map (to_base64 k) (cursor_key d (rows ! (j - 1))))"

lemma select_page_at:
  assumes "codec_ok k" "table_ok d (tenant_rows d t db)" "cursor_at k d (ordered_rows d t db) j cursor"
  shows "select_page k d t cursor n db = take n (drop j (ordered_rows d t db))"
  using assms select_page_next [OF assms(1,2)]
  by (auto simp: cursor_at_def select_page_first split: option.splits)

lemma read_rows_batch_at:
  assumes k: "codec_ok k" and c: "catalog_wf c" and d: "row_get de_table table c = Some d"
    and ok: "table_ok d (tenant_rows d t (targets key))"
    and at: "cursor_at k d (ordered_rows d t (targets key)) j cursor"
    and res: "read_rows_batch reg c k key t table cursor n targets = Inr b"
  shows "rb_rows b = map (encode_row k) (take n (drop j (ordered_rows d t (targets key)))) \<and>
    (rb_rows b \<noteq> [] \<longrightarrow>
      cursor_at k d (ordered_rows d t (targets key)) (j + length (rb_rows b)) (rb_next_cursor b))"
proof -
  let ?S = "ordered_rows d t (targets key)"
  have dd: "table_wf d" "de_table d = table"
    using row_get_SomeD [OF d] c by (auto simp: catalog_wf_def)
  let ?page = "take n (drop j ?S)"
  have page: "select_page k d t cursor n (targets key) = ?page"
    by (rule select_page_at [OF k ok at])
  show ?thesis
  proof (cases "?page = []")
    case True
    then show ?thesis using res page d
      by (auto simp: read_rows_batch_def catalog_table_def bind_result_eq_Inr Let_def split: if_splits)
  next
    case False
    define r where "r = last ?page"
    have last: "last (map (encode_row k) ?page) = encode_row k r"
      unfolding r_def using False by (rule last_map)
    have "r \<in> set ?page" unfolding r_def using False by (rule last_in_set)
    then have "r \<in> set (tenant_rows d t (targets key))"
      by (metis in_set_dropD in_set_takeD set_ordered_rows)
    then have wf: "row_wf d r" using ok by (simp add: table_ok_def)
    have j: "j < length ?S" using False by auto
    let ?l = "length ?page"
    have l: "?l = min n (length ?S - j)" "0 < ?l" using False by auto
    have rn: "r = ?S ! (j + ?l - 1)"
      unfolding r_def using False j l by (simp add: last_conv_nth)
    have "b = \<lparr>rb_rows = map (encode_row k) ?page,
        rb_next_cursor = Some (map (to_base64 k) (cursor_key d r))\<rparr>"
      using res page d False cursor_values_encoded [OF dd(1) wf, of k] last
      by (auto simp: read_rows_batch_def catalog_table_def bind_result_eq_Inr Let_def cursor_from_last_row_def
          split: if_splits)
    moreover have "cursor_at k d ?S (j + ?l) (Some (map (to_base64 k) (cursor_key d r)))"
      using l j by (auto simp: cursor_at_def rn)
    ultimately show ?thesis by simp
  qed
qed

text \<open>
  C12. Pages: from any position in the table, a page that is read holds exactly the next rows of the
  tenant in the order of their key, and its cursor is the position behind them; so page after page
  every row of the tenant is read once, and no row of another tenant.
\<close>

theorem pages_exact:
  assumes "codec_ok k" "validate_structure c = Inr ()" "row_get de_table table c = Some d"
    "table_ok d (tenant_rows d t (targets key))"
    "cursor_at k d (ordered_rows d t (targets key)) j cursor"
    "read_rows_batch reg c k key t table cursor n targets = Inr b"
  shows "rb_rows b = map (encode_row k) (take n (drop j (ordered_rows d t (targets key)))) \<and>
    (rb_rows b \<noteq> [] \<longrightarrow>
      cursor_at k d (ordered_rows d t (targets key)) (j + length (rb_rows b)) (rb_next_cursor b))"
  by (rule read_rows_batch_at [OF assms(1) validate_structure_wf [OF assms(2)] assms(3-6)])

definition demo_table :: TenantDataTableDescriptor where
  "demo_table = \<lparr>de_table = ''biz_note'', de_copy_order = 1, de_tenant_column = ''tenant_id'',
     de_primary_key_cursor_columns = [''tenant_id'', ''id''],
     de_checksum_columns = [''tenant_id'', ''id'', ''body''], de_column_types = [''varchar'', ''bigint'', ''text''],
     de_has_generated_columns = False, de_foreign_key_dependencies = [], de_foreign_keys = [],
     de_schema_canonical = ''v1''\<rparr>"

definition demo_registry :: target_registry where
  "demo_registry = [''shared-control'' \<mapsto> (Shared, KindControl), ''own'' \<mapsto> (Dedicated, KindMysql)]"

definition demo_note :: "string \<Rightarrow> string \<Rightarrow> string \<Rightarrow> data_row" where
  "demo_note tenant i body = [Some tenant, Some i, Some body]"

definition demo_shared :: target_db where
  "demo_shared = \<lparr>tg_fences = [\<lparr>fe_tenant_id = ''acme'', fe_target_key = ''shared-control'',
        fe_placement_generation = 1, fe_state = ''active'', fe_switch_token = ''tok1''\<rparr>],
     tg_slot = Some \<lparr>sl_tenant_id = None, sl_placement_generation = None, sl_switch_token = None\<rparr>,
     tg_rows = (\<lambda>t. if t = ''biz_note''
       then [demo_note ''acme'' ''2'' ''b'', demo_note ''beta'' ''1'' ''z'', demo_note ''acme'' ''1'' ''a''] else [])\<rparr>"

definition demo_own :: target_db where
  "demo_own = \<lparr>tg_fences = [],
     tg_slot = Some \<lparr>sl_tenant_id = None, sl_placement_generation = None, sl_switch_token = None\<rparr>,
     tg_rows = (\<lambda>_. [])\<rparr>"

definition demo_targets :: "string \<Rightarrow> target_db" where
  "demo_targets key = (if key = ''shared-control'' then demo_shared else demo_own)"

lemma demo_catalog_valid: "validate_structure [demo_table] = Inr ()"
  by code_simp

lemma demo_notes_ok: "table_ok demo_table (tg_rows demo_shared (de_table demo_table))"
  by code_simp

theorem pages_exact_witness:
  "[encode_row demo_codec (demo_note ''acme'' ''2'' ''b'')] =
     map (encode_row demo_codec) (take 5 (drop 1 (ordered_rows demo_table ''acme'' (demo_targets ''shared-control'')))) \<and>
   cursor_at demo_codec demo_table (ordered_rows demo_table ''acme'' (demo_targets ''shared-control'')) 2 (Some [''2''])"
proof -
  let ?b = "\<lparr>rb_rows = [encode_row demo_codec (demo_note ''acme'' ''2'' ''b'')], rb_next_cursor = Some [''2'']\<rparr>"
  have "read_rows_batch demo_registry [demo_table] demo_codec ''shared-control'' ''acme'' ''biz_note'' (Some [''1'']) 5
      demo_targets = Inr ?b"
    by code_simp
  moreover have "cursor_at demo_codec demo_table (ordered_rows demo_table ''acme'' (demo_targets ''shared-control'')) 1
      (Some [''1''])"
    by code_simp
  moreover have "row_get de_table ''biz_note'' [demo_table] = Some demo_table" by code_simp
  moreover have "table_ok demo_table (tenant_rows demo_table ''acme'' (demo_targets ''shared-control''))"
    using demo_notes_ok by (simp add: demo_targets_def table_ok_tenant)
  ultimately show ?thesis
    using pages_exact [OF demo_codec_ok demo_catalog_valid, where table = "''biz_note''" and d = demo_table and t = "''acme''"
        and targets = demo_targets and key = "''shared-control''" and j = 1 and cursor = "Some [''1'']"
        and reg = demo_registry and n = 5 and b = ?b] by (simp add: numeral_2_eq_2)
qed

end
