(* ===== verification/Data_Target_Properties.thy ===== *)
theory Data_Target_Properties
  imports Data_Paging
begin

text \<open>
  What the operations on targets keep: the agreement of fences, slot and mode that every
  verification of a target asks for, and the fences and rows of all other tenants.
\<close>

section \<open>Agreement of fences, slot and mode\<close>

definition target_ok :: "string \<Rightarrow> TenantDatabaseTargetMode \<Rightarrow> target_db \<Rightarrow> bool" where
  "target_ok key mode db \<longleftrightarrow>
     verify_target_mode_invariants key mode db = Inr () \<and> unique_key fe_tenant_id (tg_fences db)"

abbreviation empty_slot :: TargetSlotRow where
  "empty_slot \<equiv> \<lparr>sl_tenant_id = None, sl_placement_generation = None, sl_switch_token = None\<rparr>"

abbreviation slot_for :: "string \<Rightarrow> int \<Rightarrow> string \<Rightarrow> TargetSlotRow" where
  "slot_for t g k \<equiv> \<lparr>sl_tenant_id = Some t, sl_placement_generation = Some g, sl_switch_token = Some k\<rparr>"

abbreviation fence_for :: "string \<Rightarrow> string \<Rightarrow> int \<Rightarrow> string \<Rightarrow> string \<Rightarrow> FenceRow" where
  "fence_for t key g st k \<equiv> \<lparr>fe_tenant_id = t, fe_target_key = key, fe_placement_generation = g,
     fe_state = st, fe_switch_token = k\<rparr>"

lemma target_ok_Shared:
  "target_ok key Shared db \<longleftrightarrow> tg_slot db = Some empty_slot \<and> list_all (fence_valid key) (tg_fences db) \<and>
     unique_key fe_tenant_id (tg_fences db)"
  unfolding target_ok_def verify_target_mode_invariants_def lock_target_slot_def Let_def
  by (auto split: option.splits)

lemma one_fence_exact:
  assumes "length fs = 1"
    "rows_matched (\<lambda>f. fe_tenant_id f = t \<and> fe_target_key f = key \<and> fe_placement_generation f = g \<and>
      fe_switch_token f = k \<and> fe_state f \<in> {''active'', ''frozen''}) fs = 1"
  shows "\<exists>st \<in> {''active'', ''frozen''}. fs = [fence_for t key g st k]"
proof -
  obtain f where f: "fs = [f]" using assms(1) by (auto simp: length_Suc_conv)
  then show ?thesis using assms(2) by (cases f) (auto simp: rows_matched_def split: if_splits)
qed

lemma target_ok_Dedicated:
  "target_ok key Dedicated db \<longleftrightarrow>
     tg_slot db = Some empty_slot \<and> tg_fences db = [] \<or>
     (\<exists>t g k. \<exists>st \<in> {''active'', ''frozen''}. 0 < g \<and> k \<noteq> [] \<and> tg_slot db = Some (slot_for t g k) \<and>
        tg_fences db = [fence_for t key g st k])"
  (is "?L \<longleftrightarrow> ?R")
proof
  assume L: ?L
  then obtain s where s: "tg_slot db = Some s"
    by (auto simp: target_ok_def verify_target_mode_invariants_def lock_target_slot_def split: option.splits)
  show ?R
  proof (cases "sl_tenant_id s = None \<and> sl_placement_generation s = None \<and> sl_switch_token s = None")
    case True
    then have "s = empty_slot" by (cases s) simp
    then show ?thesis using L s
      by (auto simp: target_ok_def verify_target_mode_invariants_def lock_target_slot_def Let_def split: if_splits)
  next
    case False
    then obtain t g k where tgk: "sl_tenant_id s = Some t" "sl_placement_generation s = Some g"
        "sl_switch_token s = Some k" and v: "0 < g" "k \<noteq> []" "length (tg_fences db) = 1"
        "rows_matched (\<lambda>f. fe_tenant_id f = t \<and> fe_target_key f = key \<and> fe_placement_generation f = g \<and>
          fe_switch_token f = k \<and> fe_state f \<in> {''active'', ''frozen''}) (tg_fences db) = 1"
      using L s unfolding target_ok_def verify_target_mode_invariants_def lock_target_slot_def Let_def
      by (auto split: if_splits option.splits)
    have "s = slot_for t g k" using tgk by (cases s) simp
    then show ?thesis using one_fence_exact [OF v(3,4)] v s by blast
  qed
next
  assume ?R
  then show ?L
    by (auto simp: target_ok_def verify_target_mode_invariants_def lock_target_slot_def Let_def rows_matched_def
        unique_key_def)
qed

definition provision_ok :: "FenceProvision \<Rightarrow> bool" where
  "provision_ok p \<longleftrightarrow> 0 < fp_placement_generation p \<and> fp_switch_token p \<noteq> []"

lemma prepare_fence_provision_ok:
  assumes "prepare_fence_provision reg t key g k = Inr p"
  shows "p = \<lparr>fp_tenant_id = t, fp_target_key = key, fp_placement_generation = g, fp_switch_token = k\<rparr> \<and>
    provision_ok p"
proof -
  have "trim [] = []" by code_simp
  then have "k \<noteq> []" if "trim k \<noteq> []" using that by auto
  with assms show ?thesis
    by (auto simp: prepare_fence_provision_def provision_ok_def split: sum.splits if_splits)
qed

named_theorems fence_ops \<open>definitions of the operations on fences and slots\<close>

lemmas fence_op_defs [fence_ops] = lock_dedicated_slot_def lock_target_slot_def lock_fence_def
  fence_matches_def slot_exact_def slot_taken_def require_owned_frozen_fence_def
  require_exact_dedicated_slot_def claim_dedicated_slot_def insert_fence_def release_slot_def
  delete_frozen_fence_def bind_result_eq_Inr

lemma valid_update [simp]:
  "list_all (fence_valid key) fs \<Longrightarrow> st = ''active'' \<or> st = ''frozen'' \<Longrightarrow>
   list_all (fence_valid key) (update_where P (fe_state_update (\<lambda>_. st)) fs)"
  by (auto simp: list_all_iff set_update_where fence_valid_def)

lemma valid_filter [simp]: "list_all (fence_valid key) fs \<Longrightarrow> list_all (fence_valid key) (filter P fs)"
  by (auto simp: list_all_iff)

lemma fence_valid_for [simp]:
  "fence_valid key (fence_for t key' g st k) \<longleftrightarrow> key' = key \<and> 0 < g \<and> k \<noteq> [] \<and> st \<in> {''active'', ''frozen''}"
  by (simp add: fence_valid_def)

lemma unique_state_update:
  "unique_key fe_tenant_id (update_where P (\<lambda>f. f\<lparr>fe_state := st\<rparr>) fs) = unique_key fe_tenant_id fs"
  by (simp add: unique_key_def map_update_where)

lemma fences_rows [simp]: "tg_fences (delete_tenant_rows c t db) = tg_fences db"
  "tg_slot (delete_tenant_rows c t db) = tg_slot db"
  by (simp_all add: delete_tenant_rows_def)

lemma provision_ok_step:
  assumes "provision_fence_in_transaction p mode db = Inr db'" "target_ok (fp_target_key p) mode db" "provision_ok p"
  shows "target_ok (fp_target_key p) mode db'"
proof (cases mode)
  case Shared
  from assms show ?thesis unfolding Shared target_ok_Shared provision_fence_in_transaction_def
    by (auto simp: fence_ops provision_ok_def unique_state_update unique_key_Cons
        split: option.splits if_splits)
next
  case Dedicated
  from assms show ?thesis unfolding Dedicated target_ok_Dedicated provision_fence_in_transaction_def
    by (auto simp: fence_ops provision_ok_def row_get_def update_where_def split: option.splits if_splits)
qed

lemma set_state_ok_step:
  assumes "set_fence_state_in_transaction e st p mode db = Inr db'" "target_ok (fp_target_key p) mode db"
    "st \<in> {''active'', ''frozen''}"
  shows "target_ok (fp_target_key p) mode db'"
proof (cases mode)
  case Shared
  from assms show ?thesis unfolding Shared target_ok_Shared set_fence_state_in_transaction_def
    by (auto simp: fence_ops unique_state_update split: option.splits if_splits)
next
  case Dedicated
  from assms show ?thesis unfolding Dedicated target_ok_Dedicated set_fence_state_in_transaction_def
    by (auto simp: fence_ops row_get_def update_where_def split: option.splits if_splits)
qed

lemma prepare_ok_step:
  assumes "prepare_frozen_fence_in_transaction c p mode db = Inr db'" "target_ok (fp_target_key p) mode db"
    "provision_ok p"
  shows "target_ok (fp_target_key p) mode db'"
proof (cases mode)
  case Shared
  from assms show ?thesis unfolding Shared target_ok_Shared prepare_frozen_fence_in_transaction_def
    by (auto simp: fence_ops unique_key_Cons provision_ok_def split: option.splits if_splits)
next
  case Dedicated
  from assms show ?thesis unfolding Dedicated target_ok_Dedicated prepare_frozen_fence_in_transaction_def
    by (auto simp: fence_ops row_get_def provision_ok_def split: option.splits if_splits)
qed

lemma delete_frozen_ok: "unique_key fe_tenant_id fs \<Longrightarrow> unique_key fe_tenant_id (filter P fs)"
  by (rule unique_key_filter)

lemma clear_ok_step:
  assumes "clear_tenant_data_in_transaction True c p mode db = Inr db'" "target_ok (fp_target_key p) mode db"
  shows "target_ok (fp_target_key p) mode db'"
proof (cases mode)
  case Shared
  from assms show ?thesis unfolding Shared target_ok_Shared clear_tenant_data_in_transaction_def
    by (auto simp: fence_ops unique_key_filter Let_def split: option.splits if_splits)
next
  case Dedicated
  from assms show ?thesis unfolding Dedicated target_ok_Dedicated clear_tenant_data_in_transaction_def
    by (auto simp: fence_ops row_get_def Let_def split: option.splits if_splits)
qed

lemma finish_ok_step:
  assumes "finish_tenant_cleanup_in_transaction c p mode db = Inr db'" "target_ok (fp_target_key p) mode db"
  shows "target_ok (fp_target_key p) mode db'"
proof (cases mode)
  case Shared
  from assms show ?thesis unfolding Shared target_ok_Shared finish_tenant_cleanup_in_transaction_def
    by (auto simp: fence_ops unique_key_filter Let_def split: option.splits if_splits)
next
  case Dedicated
  from assms show ?thesis unfolding Dedicated target_ok_Dedicated finish_tenant_cleanup_in_transaction_def
    by (auto simp: fence_ops row_get_def Let_def split: option.splits if_splits)
qed

lemma target_ok_rows [simp]: "target_ok key mode (db\<lparr>tg_rows := r\<rparr>) = target_ok key mode db"
  by (cases mode) (simp_all add: target_ok_Shared target_ok_Dedicated)

lemma delete_batch_ok_step:
  assumes "delete_tenant_rows_batch_in_transaction ord d n p mode db = Inr (x, db')" "target_ok key mode db"
  shows "target_ok key mode db'"
  using assms unfolding delete_tenant_rows_batch_in_transaction_def
  by (auto simp: bind_result_eq_Inr Let_def split: option.splits if_splits)

section \<open>Every operation of the router\<close>

text \<open>
  A call of one of the operations on behalf of a tenant, with the targets before and after. The rows a
  batch writes are rows of the tenant, as those the copy reads for it are; the call itself trusts that.
\<close>

inductive target_step ::
  "target_registry \<Rightarrow> catalog \<Rightarrow> data_codec \<Rightarrow> string \<Rightarrow> (string \<Rightarrow> target_db) \<Rightarrow> (string \<Rightarrow> target_db) \<Rightarrow> bool"
  for reg c k t where
  provisioned: "provision_tenant_fence reg fence w = Inr ((), w') \<Longrightarrow> tf_tenant_id fence = t \<Longrightarrow> target_step reg c k t w w'"
| prepared: "prepare_target reg c fence w = Inr ((), w') \<Longrightarrow> tf_tenant_id fence = t \<Longrightarrow> target_step reg c k t w w'"
| cleared: "clear_prepared_target reg c fence w = Inr ((), w') \<Longrightarrow> tf_tenant_id fence = t \<Longrightarrow> target_step reg c k t w w'"
| frozen: "freeze_fence reg fence w = Inr ((), w') \<Longrightarrow> tf_tenant_id fence = t \<Longrightarrow> target_step reg c k t w w'"
| activated: "activate_fence reg fence w = Inr ((), w') \<Longrightarrow> tf_tenant_id fence = t \<Longrightarrow> target_step reg c k t w w'"
| deleted: "delete_rows_batch reg c pk_order fence table n w = Inr (x, w') \<Longrightarrow> tf_tenant_id fence = t \<Longrightarrow>
    (\<And>rows. set (pk_order table rows) = set rows) \<Longrightarrow> target_step reg c k t w w'"
| finished: "finish_cleanup reg c fence w = Inr ((), w') \<Longrightarrow> tf_tenant_id fence = t \<Longrightarrow> target_step reg c k t w w'"
| written: "write_rows_batch reg c k fence table rows w = Inr w' \<Longrightarrow> tf_tenant_id fence = t \<Longrightarrow>
    row_get de_table table c = Some d \<Longrightarrow> (\<And>r. r \<in> set rows \<Longrightarrow> row_of_tenant d t (decode_row k r)) \<Longrightarrow>
    target_step reg c k t w w'"

lemma app_of_td_Inr [simp]: "app_of_td r = Inr x \<longleftrightarrow> r = Inr x"
  by (cases r) (simp_all add: app_of_td_def)

lemma open_target_Inr [simp]: "open_target reg key = Inr mode \<longleftrightarrow> target_mode reg key = Some mode"
  by (simp add: open_target_def split: option.split)

lemma on_target_Inr:
  assumes "on_target reg f fence w = Inr (x, w')"
  obtains mode p db' where "target_mode reg (tf_target_key fence) = Some mode"
    "p = \<lparr>fp_tenant_id = tf_tenant_id fence, fp_target_key = tf_target_key fence,
      fp_placement_generation = tf_generation fence, fp_switch_token = tf_switch_token fence\<rparr>"
    "provision_ok p" "f p mode (w (tf_target_key fence)) = Inr (x, db')" "w' = w(tf_target_key fence := db')"
proof -
  obtain mode p db' where h: "target_mode reg (tf_target_key fence) = Some mode"
      "prepare_fence_provision reg (tf_tenant_id fence) (tf_target_key fence) (tf_generation fence) (tf_switch_token fence) = Inr p"
      "f p mode (w (tf_target_key fence)) = Inr (x, db')" "w' = w(tf_target_key fence := db')"
    using assms unfolding on_target_def by (auto simp: bind_result_eq_Inr)
  show thesis
    by (rule that [OF h(1) _ _ h(3,4)]) (use prepare_fence_provision_ok [OF h(2)] in auto)
qed

lemma unit_txn_Inr [simp]: "unit_txn f p m d = Inr (u, d') \<longleftrightarrow> f p m d = Inr d'"
  by (auto simp: unit_txn_def bind_result_eq_Inr)

lemma read_txn_Inr [simp]: "read_txn f p m d = Inr (x, d') \<longleftrightarrow> f p m d = Inr x \<and> d' = d"
  by (auto simp: read_txn_def bind_result_eq_Inr)

definition targets_ok :: "target_registry \<Rightarrow> (string \<Rightarrow> target_db) \<Rightarrow> bool" where
  "targets_ok reg w \<longleftrightarrow> (\<forall>key mode. target_mode reg key = Some mode \<longrightarrow> target_ok key mode (w key))"

lemma targets_okI:
  "targets_ok reg w \<Longrightarrow> (\<And>mode. target_mode reg key = Some mode \<Longrightarrow> target_ok key mode (w key) \<Longrightarrow> target_ok key mode db) \<Longrightarrow>
   targets_ok reg (w(key := db))"
  by (auto simp: targets_ok_def)

lemma on_target_ok:
  assumes step: "on_target reg f fence w = Inr (x, w')" and w: "targets_ok reg w"
    and f: "\<And>p mode db db'. f p mode db = Inr (x, db') \<Longrightarrow> provision_ok p \<Longrightarrow> target_ok (fp_target_key p) mode db \<Longrightarrow>
      target_ok (fp_target_key p) mode db'"
  shows "targets_ok reg w'"
proof -
  obtain mode p db' where h: "target_mode reg (tf_target_key fence) = Some mode"
      "p = \<lparr>fp_tenant_id = tf_tenant_id fence, fp_target_key = tf_target_key fence,
        fp_placement_generation = tf_generation fence, fp_switch_token = tf_switch_token fence\<rparr>"
      "provision_ok p" "f p mode (w (tf_target_key fence)) = Inr (x, db')" "w' = w(tf_target_key fence := db')"
    using step by (rule on_target_Inr)
  have "target_ok (tf_target_key fence) mode db'"
    using f [OF h(4,3)] w h(1,2) by (simp add: targets_ok_def)
  then show ?thesis using w h by (auto simp: targets_ok_def)
qed

lemma write_rows_shape:
  assumes "write_rows_batch reg c k fence table rows w = Inr w'"
  obtains d mode where "row_get de_table table c = Some d" "target_mode reg (tf_target_key fence) = Some mode"
    "lock_target_fence fence mode (w (tf_target_key fence)) = Inr ()"
    "w' = w(tf_target_key fence := (w (tf_target_key fence))\<lparr>tg_rows := (tg_rows (w (tf_target_key fence)))
       (de_table d := fold (upsert_row d) (map (decode_row k) rows) (tg_rows (w (tf_target_key fence)) (de_table d)))\<rparr>)"
  using assms that
  by (auto simp: write_rows_batch_def catalog_table_def open_target_def app_of_td_def bind_result_eq_Inr Let_def
      split: option.splits sum.splits)

lemma target_step_ok:
  assumes "target_step reg c k t w w'" "targets_ok reg w"
  shows "targets_ok reg w'"
  using assms
proof (cases rule: target_step.cases)
  case (provisioned fence)
  show ?thesis
    by (rule on_target_ok [OF provisioned(1) [unfolded provision_tenant_fence_def] assms(2)])
       (auto intro: provision_ok_step)
next
  case (prepared fence)
  show ?thesis
    by (rule on_target_ok [OF prepared(1) [unfolded prepare_target_def] assms(2)]) (auto intro: prepare_ok_step)
next
  case (cleared fence)
  show ?thesis
    by (rule on_target_ok [OF cleared(1) [unfolded clear_prepared_target_def] assms(2)]) (auto intro: clear_ok_step)
next
  case (frozen fence)
  show ?thesis
    by (rule on_target_ok [OF frozen(1) [unfolded freeze_fence_def] assms(2)]) (auto intro: set_state_ok_step)
next
  case (activated fence)
  show ?thesis
    by (rule on_target_ok [OF activated(1) [unfolded activate_fence_def] assms(2)]) (auto intro: set_state_ok_step)
next
  case (deleted pk_order fence table n x)
  then obtain d where "on_target reg (delete_tenant_rows_batch_in_transaction (pk_order table) d n) fence w = Inr (x, w')"
    by (auto simp: delete_rows_batch_def app_of_td_def bind_result_eq_Inr split: if_splits)
  from on_target_ok [OF this assms(2)] show ?thesis by (blast intro: delete_batch_ok_step)
next
  case (finished fence)
  show ?thesis
    by (rule on_target_ok [OF finished(1) [unfolded finish_cleanup_def] assms(2)]) (auto intro: finish_ok_step)
next
  case (written fence table rows d)
  from written(1) show ?thesis
    by (rule write_rows_shape) (use assms(2) in \<open>auto intro!: targets_okI\<close>)
qed

text \<open>
  C10. Whatever sequence of calls runs, by whichever tenants and migrations, the fences, the slot and
  the mode of every configured target keep agreeing the way its verification asks for: a shared
  target has a free slot and valid fences of its own, a dedicated target has no fence or exactly
  one, that of the tenant, generation and token in its slot. So a dedicated target never serves two
  tenants, and the verification that precedes every later call cannot fail because of earlier calls.
\<close>

theorem targets_stay_consistent:
  assumes "(\<lambda>a b. \<exists>t. target_step reg c k t a b)\<^sup>*\<^sup>* w w'"
    "\<And>key mode. target_mode reg key = Some mode \<Longrightarrow> target_ok key mode (w key)"
    "target_mode reg key = Some mode"
  shows "verify_target_mode_invariants key mode (w' key) = Inr ()"
proof -
  have "targets_ok reg w" using assms(2) by (auto simp: targets_ok_def)
  with assms(1) have "targets_ok reg w'"
    by (induction rule: rtranclp_induct) (auto intro: target_step_ok)
  then show ?thesis using assms(3) by (auto simp: targets_ok_def target_ok_def)
qed

section \<open>Other tenants\<close>

text \<open>What a tenant has on a target: its fence, and its rows in every table.\<close>

definition tenant_part :: "catalog \<Rightarrow> string \<Rightarrow> target_db \<Rightarrow> FenceRow option \<times> (string \<times> data_row list) list" where
  "tenant_part c t db =
     (row_get fe_tenant_id t (tg_fences db), map (\<lambda>d. (de_table d, tenant_rows d t db)) c)"

lemma row_get_update_state:
  "row_get fe_tenant_id t (update_where P (fe_state_update (\<lambda>_. st)) fs) =
   map_option (\<lambda>f. if P f then f\<lparr>fe_state := st\<rparr> else f) (row_get fe_tenant_id t fs)"
  unfolding row_get_def by (subst find_update_where) auto

lemma find_filter_other: "(\<And>r. \<not> P r \<Longrightarrow> \<not> Q r) \<Longrightarrow> find Q (filter P rows) = find Q rows"
  by (induction rows) auto

lemma fence_deleted_other: "t \<noteq> fp_tenant_id p \<Longrightarrow>
  row_get fe_tenant_id t (tg_fences (delete_frozen_fence p db)) = row_get fe_tenant_id t (tg_fences db)"
  unfolding row_get_def delete_frozen_fence_def by simp (rule find_filter_other, auto)

lemma row_get_other_state: "t \<noteq> t' \<Longrightarrow> (\<And>f. P f \<Longrightarrow> fe_tenant_id f = t') \<Longrightarrow>
  row_get fe_tenant_id t (update_where P (fe_state_update (\<lambda>_. st)) fs) = row_get fe_tenant_id t fs"
  unfolding row_get_update_state
  by (cases "row_get fe_tenant_id t fs") (auto dest: row_get_SomeD)

lemma tenant_rows_rest [simp]:
  "tenant_rows d t (release_slot db) = tenant_rows d t db"
  "tenant_rows d t (delete_frozen_fence p db) = tenant_rows d t db"
  "tenant_rows d t (insert_fence p st db) = tenant_rows d t db"
  "tenant_rows d t (db\<lparr>tg_fences := fs\<rparr>) = tenant_rows d t db"
  "tenant_rows d t (db\<lparr>tg_slot := sl\<rparr>) = tenant_rows d t db"
  "tg_fences (release_slot db) = tg_fences db"
  by (simp_all add: tenant_rows_def release_slot_def delete_frozen_fence_def insert_fence_def)

lemma claim_frame:
  "claim_dedicated_slot p mode db = Inr db' \<Longrightarrow> tg_fences db' = tg_fences db \<and> tg_rows db' = tg_rows db"
  by (auto simp: claim_dedicated_slot_def split: if_splits option.splits)

lemma tenant_part_eqI:
  "row_get fe_tenant_id t (tg_fences db') = row_get fe_tenant_id t (tg_fences db) \<Longrightarrow> tg_rows db' = tg_rows db \<Longrightarrow>
   tenant_part c t db' = tenant_part c t db"
  by (simp add: tenant_part_def tenant_rows_def)

lemma fence_inserted_other:
  "t \<noteq> fp_tenant_id p \<Longrightarrow> row_get fe_tenant_id t (tg_fences (insert_fence p st db)) = row_get fe_tenant_id t (tg_fences db)"
  by (simp add: insert_fence_def row_get_def)

lemma insert_fence_rows [simp]: "tg_rows (insert_fence p st db) = tg_rows db"
  by (simp add: insert_fence_def)

lemma tenant_rows_deleted:
  assumes "catalog_wf c" "d \<in> set c"
  shows "tenant_rows d t (delete_tenant_rows c t' db) = (if t = t' then [] else tenant_rows d t db)"
proof -
  have "row_get de_table (de_table d) c = Some d"
    using assms by (intro unique_row_get) (auto simp: catalog_wf_def unique_key_def)
  then show ?thesis
    by (auto simp: delete_tenant_rows_def tenant_rows_def row_of_tenant_def intro!: filter_cong)
qed

lemma provision_other:
  assumes step: "provision_fence_in_transaction p mode db = Inr db'" and t: "t \<noteq> fp_tenant_id p"
  shows "tenant_part c t db' = tenant_part c t db"
proof (cases "lock_fence p db")
  case None
  then have "claim_dedicated_slot p mode (insert_fence p ''active'' db) = Inr db'"
    using step by (auto simp: provision_fence_in_transaction_def bind_result_eq_Inr split: if_splits)
  from claim_frame [OF this] show ?thesis
    by (intro tenant_part_eqI) (simp_all add: fence_inserted_other [OF t])
next
  case (Some f)
  then consider "claim_dedicated_slot p mode db = Inr db'"
    | "claim_dedicated_slot p mode (db\<lparr>tg_fences := update_where
              (\<lambda>f. fe_tenant_id f = fp_tenant_id p \<and> fe_placement_generation f = fp_placement_generation p \<and>
                 fe_switch_token f = fp_switch_token p)
              (\<lambda>f. f\<lparr>fe_state := ''active''\<rparr>) (tg_fences db)\<rparr>) = Inr db'"
    using step by (auto simp: provision_fence_in_transaction_def bind_result_eq_Inr split: if_splits)
  then show ?thesis
  proof cases
    case 1
    from claim_frame [OF this] show ?thesis by (intro tenant_part_eqI) simp_all
  next
    case 2
    from claim_frame [OF this] show ?thesis
      by (intro tenant_part_eqI) (auto intro!: row_get_other_state [OF t])
  qed
qed

lemma set_state_other:
  assumes step: "set_fence_state_in_transaction e st p mode db = Inr db'" and t: "t \<noteq> fp_tenant_id p"
  shows "tenant_part c t db' = tenant_part c t db"
proof -
  obtain f where f: "lock_fence p db = Some f"
    using step by (cases "lock_fence p db") (simp_all add: set_fence_state_in_transaction_def bind_result_eq_Inr split: if_splits)
  consider "db' = db" | "db' = db\<lparr>tg_fences := update_where
            (\<lambda>f. fe_tenant_id f = fp_tenant_id p \<and> fe_target_key f = fp_target_key p \<and>
               fe_placement_generation f = fp_placement_generation p \<and>
               fe_switch_token f = fp_switch_token p \<and> fe_state f = e)
            (\<lambda>f. f\<lparr>fe_state := st\<rparr>) (tg_fences db)\<rparr>"
    using step f by (auto simp: set_fence_state_in_transaction_def bind_result_eq_Inr split: if_splits)
  then show ?thesis
    by cases (auto intro!: tenant_part_eqI row_get_other_state [OF t])
qed

lemma prepare_other:
  assumes step: "prepare_frozen_fence_in_transaction c' p mode db = Inr db'" and t: "t \<noteq> fp_tenant_id p"
  shows "tenant_part c t db' = tenant_part c t db"
proof (cases "lock_fence p db")
  case None
  then have "claim_dedicated_slot p mode (insert_fence p ''frozen'' db) = Inr db'"
    using step by (auto simp: prepare_frozen_fence_in_transaction_def bind_result_eq_Inr split: if_splits)
  from claim_frame [OF this] show ?thesis
    by (intro tenant_part_eqI) (simp_all add: fence_inserted_other [OF t])
next
  case (Some f)
  then have "db' = db"
    using step by (auto simp: prepare_frozen_fence_in_transaction_def bind_result_eq_Inr split: if_splits)
  then show ?thesis by simp
qed

lemma clear_other:
  assumes "clear_tenant_data_in_transaction b c p mode db = Inr db'" "t \<noteq> fp_tenant_id p" "catalog_wf c"
  shows "tenant_part c t db' = tenant_part c t db"
proof -
  have "tenant_part c t (delete_frozen_fence p (delete_tenant_rows c (fp_tenant_id p) db)) = tenant_part c t db"
    using assms(2,3) by (auto simp: tenant_part_def fence_deleted_other tenant_rows_deleted)
  moreover have "tenant_part c t (release_slot x) = tenant_part c t x" for x by (simp add: tenant_part_def)
  ultimately show ?thesis
    using assms(1) unfolding clear_tenant_data_in_transaction_def
    by (auto simp: bind_result_eq_Inr Let_def split: option.splits if_splits)
qed

lemma finish_other:
  assumes "finish_tenant_cleanup_in_transaction c' p mode db = Inr db'" "t \<noteq> fp_tenant_id p"
  shows "tenant_part c t db' = tenant_part c t db"
  using assms unfolding finish_tenant_cleanup_in_transaction_def tenant_part_def
  by (auto simp: bind_result_eq_Inr Let_def fence_deleted_other split: option.splits if_splits)

lemma delete_batch_other:
  assumes "delete_tenant_rows_batch_in_transaction ord d n p mode db = Inr (x, db')" "t \<noteq> fp_tenant_id p"
    "catalog_wf c" "d \<in> set c" "\<And>rows. set (ord rows) = set rows"
  shows "tenant_part c t db' = tenant_part c t db"
proof -
  have same: "tenant_rows d' t (db\<lparr>tg_rows := (tg_rows db)(de_table d := filter (\<lambda>r. r \<notin> set gone) (tg_rows db (de_table d)))\<rparr>)
      = tenant_rows d' t db"
    if d': "d' \<in> set c" and gone: "gone = take n (ord (tenant_rows d (fp_tenant_id p) db))" for d' gone
  proof (cases "de_table d' = de_table d")
    case True
    then have "d' = d" using assms(3,4) d' by (auto simp: catalog_wf_def distinct_map dest: inj_onD)
    moreover have "row_of_tenant d (fp_tenant_id p) r" if "r \<in> set gone" for r
      using that assms(5) unfolding gone by (auto dest!: in_set_takeD simp: tenant_rows_def)
    ultimately show ?thesis using assms(2)
      by (auto simp: tenant_rows_def row_of_tenant_def intro!: filter_cong)
  qed (simp add: tenant_rows_def)
  show ?thesis
    using assms(1) unfolding delete_tenant_rows_batch_in_transaction_def tenant_part_def
    by (auto simp: bind_result_eq_Inr Let_def same split: option.splits if_splits)
qed

lemma filter_upsert_other:
  assumes d: "table_wf d" and r: "row_of_tenant d t' r" and t: "t \<noteq> t'"
  shows "filter (row_of_tenant d t) (upsert_row d r rows) = filter (row_of_tenant d t) rows"
proof -
  obtain ks where pk: "de_primary_key_cursor_columns d = de_tenant_column d # ks"
    using d by (cases "de_primary_key_cursor_columns d") (auto simp: table_wf_def)
  have same: "row_cell d r' (de_tenant_column d) = Some t'" if "primary_key d r' = primary_key d r" for r'
    using that r by (simp add: primary_key_def pk row_of_tenant_def)
  have upd: "\<not> row_of_tenant d t r' \<and> \<not> row_of_tenant d t (set_tenant_of d r r')"
    if "primary_key d r' = primary_key d r" for r'
  proof -
    obtain i where i: "position_of (de_tenant_column d) (de_checksum_columns d) = Some i"
        "i < length r" "r ! i = Some t'"
      using r by (auto simp: row_of_tenant_def row_cell_def split: option.splits if_splits)
    then show ?thesis using same [OF that] t
      by (auto simp: row_of_tenant_def set_tenant_of_def row_cell_def split: if_splits)
  qed
  show ?thesis
    using r t by (auto simp: upsert_row_def row_of_tenant_def intro!: filter_update_where_other
        dest: upd [unfolded row_of_tenant_def])
qed

lemma filter_upserts_other:
  assumes "table_wf d" "\<And>r. r \<in> set rs \<Longrightarrow> row_of_tenant d t' r" "t \<noteq> t'"
  shows "filter (row_of_tenant d t) (fold (upsert_row d) rs rows) = filter (row_of_tenant d t) rows"
  using assms(2) by (induction rs arbitrary: rows) (simp_all add: filter_upsert_other [OF assms(1) _ assms(3)])

lemma on_target_other:
  assumes step: "on_target reg f fence w = Inr (x, w')" and t: "tf_tenant_id fence \<noteq> t"
    and f: "\<And>p mode db db'. f p mode db = Inr (x, db') \<Longrightarrow> t \<noteq> fp_tenant_id p \<Longrightarrow> tenant_part c t db' = tenant_part c t db"
  shows "tenant_part c t (w' key) = tenant_part c t (w key)"
proof -
  obtain mode p db' where "target_mode reg (tf_target_key fence) = Some mode" and
      p: "p = \<lparr>fp_tenant_id = tf_tenant_id fence, fp_target_key = tf_target_key fence,
        fp_placement_generation = tf_generation fence, fp_switch_token = tf_switch_token fence\<rparr>" and
      "provision_ok p" and h: "f p mode (w (tf_target_key fence)) = Inr (x, db')" "w' = w(tf_target_key fence := db')"
    using step by (rule on_target_Inr)
  have "tenant_part c t db' = tenant_part c t (w (tf_target_key fence))"
    by (rule f [OF h(1)]) (use t p in simp)
  then show ?thesis using h(2) by simp
qed

text \<open>
  C11. A call on behalf of one tenant changes neither the fence nor a row of another tenant, in any
  table of any target: not when a whole target is cleared, not when batches are deleted or copied. Of a
  batch that is written it is assumed that its rows belong to the tenant: \<open>write_rows_batch\<close> does not
  check this, the copy hands it the rows it has read for the tenant (\<open>read_rows_batch\<close>).
\<close>

theorem target_calls_isolated:
  assumes "target_step reg c k t w w'" "validate_structure c = Inr ()" "t' \<noteq> t"
  shows "tenant_part c t' (w' key) = tenant_part c t' (w key)"
  using assms(1)
proof (cases rule: target_step.cases)
  case (provisioned fence)
  with assms(3) show ?thesis unfolding provision_tenant_fence_def by (auto elim!: on_target_other intro: provision_other)
next
  case (prepared fence)
  with assms(3) show ?thesis unfolding prepare_target_def by (auto elim!: on_target_other intro: prepare_other)
next
  case (cleared fence)
  with assms(3) show ?thesis unfolding clear_prepared_target_def
    by (auto elim!: on_target_other intro: clear_other validate_structure_wf [OF assms(2)])
next
  case (frozen fence)
  with assms(3) show ?thesis unfolding freeze_fence_def by (auto elim!: on_target_other intro: set_state_other)
next
  case (activated fence)
  with assms(3) show ?thesis unfolding activate_fence_def by (auto elim!: on_target_other intro: set_state_other)
next
  case (deleted pk_order fence table n x)
  then obtain d where d: "row_get de_table table c = Some d"
      "on_target reg (delete_tenant_rows_batch_in_transaction (pk_order table) d n) fence w = Inr (x, w')"
    by (auto simp: delete_rows_batch_def catalog_table_def app_of_td_def bind_result_eq_Inr split: if_splits option.splits)
  show ?thesis
    by (rule on_target_other [OF d(2)])
       (use deleted assms d in \<open>auto intro: delete_batch_other validate_structure_wf dest: row_get_SomeD\<close>)
next
  case (finished fence)
  with assms(3) show ?thesis unfolding finish_cleanup_def by (auto elim!: on_target_other intro: finish_other)
next
  case (written fence table rows d)
  from written(1) obtain d' where d': "row_get de_table table c = Some d'"
      "w' = w(tf_target_key fence := (w (tf_target_key fence))\<lparr>tg_rows := (tg_rows (w (tf_target_key fence)))
         (de_table d' := fold (upsert_row d') (map (decode_row k) rows) (tg_rows (w (tf_target_key fence)) (de_table d')))\<rparr>)"
    by (rule write_rows_shape)
  have dd: "d' = d" "d \<in> set c" using d'(1) written(3) by (auto dest: row_get_SomeD)
  have c: "catalog_wf c" by (rule validate_structure_wf [OF assms(2)])
  then have wf: "table_wf d" using dd by (auto simp: catalog_wf_def)
  have up: "filter (row_of_tenant d t') (fold (upsert_row d) (map (decode_row k) rows) rs) = filter (row_of_tenant d t') rs" for rs
    by (rule filter_upserts_other [OF wf _ assms(3)]) (use written(4) in auto)
  have "x = d" if "x \<in> set c" "de_table x = de_table d" for x
    using c that dd by (auto simp: catalog_wf_def distinct_map dest: inj_onD)
  then show ?thesis using d'(2) dd up by (auto simp: tenant_part_def tenant_rows_def)
qed

definition own_fence :: TenantDataFence where
  "own_fence = \<lparr>tf_tenant_id = ''acme'', tf_target_key = ''own'', tf_generation = 2, tf_switch_token = ''tok2''\<rparr>"

definition demo_prepared :: "string \<Rightarrow> target_db" where
  "demo_prepared = demo_targets(''own'' := demo_own\<lparr>
     tg_fences := [fence_for ''acme'' ''own'' 2 ''frozen'' ''tok2''], tg_slot := Some (slot_for ''acme'' 2 ''tok2'')\<rparr>)"

lemma demo_prepare: "prepare_target demo_registry [demo_table] own_fence demo_targets = Inr ((), demo_prepared)"
proof -
  have "open_target demo_registry (tf_target_key own_fence) = Inr Dedicated" by code_simp
  moreover have "prepare_fence_provision demo_registry (tf_tenant_id own_fence) (tf_target_key own_fence)
      (tf_generation own_fence) (tf_switch_token own_fence) =
      Inr \<lparr>fp_tenant_id = ''acme'', fp_target_key = ''own'', fp_placement_generation = 2, fp_switch_token = ''tok2''\<rparr>"
    by code_simp
  ultimately show ?thesis
    by (simp add: prepare_target_def on_target_def unit_txn_def app_of_td_def own_fence_def demo_targets_def demo_own_def
        demo_prepared_def prepare_frozen_fence_in_transaction_def tenant_catalog_rows_exist_def tenant_rows_def
        fence_op_defs row_get_def del: open_target_Inr)
qed

lemma demo_step: "target_step demo_registry [demo_table] demo_codec ''acme'' demo_targets demo_prepared"
  by (rule target_step.prepared [OF demo_prepare]) (simp add: own_fence_def)

theorem targets_stay_consistent_witness:
  "verify_target_mode_invariants ''own'' Dedicated (demo_prepared ''own'') = Inr ()"
proof (rule targets_stay_consistent [where reg = demo_registry and c = "[demo_table]" and k = demo_codec and w = demo_targets])
  show "(\<lambda>a b. \<exists>t. target_step demo_registry [demo_table] demo_codec t a b)\<^sup>*\<^sup>* demo_targets demo_prepared"
    using demo_step by blast
  show "target_ok key mode (demo_targets key)" if "target_mode demo_registry key = Some mode" for key mode
  proof -
    have "key = ''shared-control'' \<and> mode = Shared \<or> key = ''own'' \<and> mode = Dedicated"
      using that by (auto simp: target_mode_def demo_registry_def split: if_splits)
    then show ?thesis
      by (auto simp: target_ok_Shared target_ok_Dedicated demo_targets_def demo_shared_def demo_own_def
          unique_key_def fence_valid_def)
  qed
  show "target_mode demo_registry ''own'' = Some Dedicated" by code_simp
qed

theorem target_calls_isolated_witness:
  "tenant_part [demo_table] ''beta'' (demo_prepared ''shared-control'') =
   tenant_part [demo_table] ''beta'' (demo_targets ''shared-control'')"
  by (rule target_calls_isolated [OF demo_step demo_catalog_valid]) simp

end
