(* ===== verification/Migration_Invariant.thy ===== *)
theory Migration_Invariant
  imports Migration_Logic Data_Target_Properties
begin

text \<open>
  What has to hold of one tenant at every moment of its migrations: at most one copy of its data can
  be written, that copy is the one its placement names, and it holds exactly what the tenant has
  written. With it the steps others may take at any time, and that all of them keep it.
\<close>

section \<open>The invariant\<close>

definition open_fence :: "string \<Rightarrow> target_db \<Rightarrow> FenceRow option" where
  "open_fence t db =
     (case row_get fe_tenant_id t (tg_fences db) of
        Some f \<Rightarrow> if fe_state f = ''active'' then Some f else None
      | None \<Rightarrow> None)"

text \<open>An open fence lets a session in exactly if it carries the placement the session resolved.\<close>

definition fits :: "FenceRow \<Rightarrow> string \<Rightarrow> data_placement \<Rightarrow> bool" where
  "fits f key p \<longleftrightarrow> key = pl_current_target_key p \<and> fe_placement_generation f = pl_placement_generation p \<and>
     fe_switch_token f = pl_switch_token p"

definition before_cutover :: "data_migration \<Rightarrow> bool" where
  "before_cutover m \<longleftrightarrow> can_cancel m \<or> mg_state m = mg_CUTTING_OVER"

definition after_cutover :: "data_migration \<Rightarrow> bool" where
  "after_cutover m \<longleftrightarrow> mg_state m \<in> {mg_ACTIVATING, mg_SUCCEEDED, mg_RETENTION_PENDING}"

text \<open>Ready for the cut-over: nobody can write, and both copies are the same.\<close>

definition ready :: "catalog \<Rightarrow> string \<Rightarrow> (string \<Rightarrow> target_db) \<Rightarrow> data_migration \<Rightarrow> bool" where
  "ready c t ts m \<longleftrightarrow> (\<forall>key. open_fence t (ts key) = None) \<and>
     (\<forall>d \<in> set c. ordered_rows d t (ts (mg_source_target_key m)) = ordered_rows d t (ts (mg_target_key m)))"

definition stage_ok :: "catalog \<Rightarrow> string \<Rightarrow> (string \<Rightarrow> target_db) \<Rightarrow> data_placement \<Rightarrow> data_migration \<Rightarrow> bool" where
  "stage_ok c t ts p m \<longleftrightarrow> mg_source_target_key m \<noteq> mg_target_key m \<and>
     (before_cutover m \<and> same_source p m \<or> after_cutover m \<and> same_target p m) \<and>
     (mg_state m = mg_CUTTING_OVER \<longrightarrow> ready c t ts m)"

definition working :: "string \<Rightarrow> migration_db \<Rightarrow> data_migration set" where
  "working t db = {m \<in> set (md_migrations db). mg_tenant_id m = t \<and> \<not> terminal_migration m}"

definition rows_ok :: "catalog \<Rightarrow> data_row set \<Rightarrow> string \<Rightarrow> target_db \<Rightarrow> bool" where
  "rows_ok c \<rho> t db \<longleftrightarrow> unique_key fe_tenant_id (tg_fences db) \<and>
     (\<forall>d \<in> set c. table_ok d (tenant_rows d t db) \<and> set (tenant_rows d t db) \<subseteq> \<rho>)"

definition holds_data :: "catalog \<Rightarrow> string \<Rightarrow> (string \<Rightarrow> data_row list) \<Rightarrow> target_db \<Rightarrow> bool" where
  "holds_data c t accepted db \<longleftrightarrow> (\<forall>d \<in> set c. ordered_rows d t db = accepted (de_table d))"

definition one_copy :: "string \<Rightarrow> (string \<Rightarrow> target_db) \<Rightarrow> data_placement \<Rightarrow> bool" where
  "one_copy t ts p \<longleftrightarrow> (\<forall>key f. open_fence t (ts key) = Some f \<longrightarrow> fits f key p)"

definition safe :: "catalog \<Rightarrow> data_row set \<Rightarrow> string \<Rightarrow> world \<Rightarrow> bool" where
  "safe c \<rho> t w \<longleftrightarrow> unique_key mg_id (md_migrations (wd_db w)) \<and>
     (\<exists>p. placement_of t (wd_db w) = Some p \<and> one_copy t (wd_targets w) p \<and>
        holds_data c t (wd_accepted w t) (wd_targets w (pl_current_target_key p)) \<and>
        (\<forall>m \<in> working t (wd_db w). stage_ok c t (wd_targets w) p m)) \<and>
     (\<forall>key. rows_ok c \<rho> t (wd_targets w key)) \<and>
     (\<forall>m \<in> working t (wd_db w). \<forall>m' \<in> working t (wd_db w). mg_id m = mg_id m')"

lemma safeE:
  assumes "safe c \<rho> t w"
  obtains p where "placement_of t (wd_db w) = Some p" "one_copy t (wd_targets w) p"
    "holds_data c t (wd_accepted w t) (wd_targets w (pl_current_target_key p))"
    "\<And>m. m \<in> working t (wd_db w) \<Longrightarrow> stage_ok c t (wd_targets w) p m"
  using assms unfolding safe_def by blast

lemma safeI:
  assumes "unique_key mg_id (md_migrations (wd_db w))" "placement_of t (wd_db w) = Some p" "one_copy t (wd_targets w) p"
    "holds_data c t (wd_accepted w t) (wd_targets w (pl_current_target_key p))"
    "\<And>m. m \<in> working t (wd_db w) \<Longrightarrow> stage_ok c t (wd_targets w) p m"
    "\<And>key. rows_ok c \<rho> t (wd_targets w key)"
    "\<And>m m'. m \<in> working t (wd_db w) \<Longrightarrow> m' \<in> working t (wd_db w) \<Longrightarrow> mg_id m = mg_id m'"
  shows "safe c \<rho> t w"
  using assms unfolding safe_def by blast

lemma safe_unique: "safe c \<rho> t w \<Longrightarrow> unique_key mg_id (md_migrations (wd_db w))"
  unfolding safe_def by blast

lemma safe_alone: "safe c \<rho> t w \<Longrightarrow> m \<in> working t (wd_db w) \<Longrightarrow> m' \<in> working t (wd_db w) \<Longrightarrow> mg_id m = mg_id m'"
  unfolding safe_def by blast

lemma safe_rows: "safe c \<rho> t w \<Longrightarrow> rows_ok c \<rho> t (wd_targets w key)"
  unfolding safe_def by blast

lemma safe_has_placement: "safe c \<rho> t w \<Longrightarrow> \<exists>p. placement_of t (wd_db w) = Some p"
  unfolding safe_def by blast

lemma safe_placed:
  assumes "safe c \<rho> t w" "placement_of t (wd_db w) = Some p"
  shows "one_copy t (wd_targets w) p" "holds_data c t (wd_accepted w t) (wd_targets w (pl_current_target_key p))"
    "m \<in> working t (wd_db w) \<Longrightarrow> stage_ok c t (wd_targets w) p m"
  using assms by (auto elim!: safeE)

section \<open>Changes of the control database\<close>

text \<open>The plan of a migration never changes.\<close>

definition plan_of :: "data_migration \<Rightarrow> string \<times> string \<times> string \<times> int \<times> string \<times> int \<times> string" where
  "plan_of m = (mg_tenant_id m, mg_source_target_key m, mg_target_key m, mg_source_generation m,
     mg_source_switch_token m, mg_target_generation m, mg_switch_token m)"

lemma plan_of_eq: "plan_of m' = plan_of m \<longleftrightarrow> mg_tenant_id m' = mg_tenant_id m \<and>
    mg_source_target_key m' = mg_source_target_key m \<and> mg_target_key m' = mg_target_key m \<and>
    mg_source_generation m' = mg_source_generation m \<and> mg_source_switch_token m' = mg_source_switch_token m \<and>
    mg_target_generation m' = mg_target_generation m \<and> mg_switch_token m' = mg_switch_token m"
  by (auto simp: plan_of_def)

definition same_spot :: "data_placement \<Rightarrow> data_placement \<Rightarrow> bool" where
  "same_spot p p' \<longleftrightarrow> pl_current_target_key p' = pl_current_target_key p \<and>
     pl_placement_generation p' = pl_placement_generation p \<and> pl_switch_token p' = pl_switch_token p"

lemma same_spot_refl [simp]: "same_spot p p" by (simp add: same_spot_def)

lemma same_spot_cong:
  assumes "same_spot p p'"
  shows "one_copy t ts p' = one_copy t ts p" "stage_ok c t ts p' m = stage_ok c t ts p m"
    "pl_current_target_key p' = pl_current_target_key p"
  using assms by (simp_all add: same_spot_def one_copy_def fits_def stage_ok_def same_source_def same_target_def)

lemma stage_ok_plan:
  assumes "plan_of m' = plan_of m" "mg_state m' = mg_state m"
  shows "stage_ok c t ts p m' = stage_ok c t ts p m"
  using assms by (simp add: plan_of_eq stage_ok_def before_cutover_def after_cutover_def can_cancel_def same_source_def
      same_target_def ready_def)

definition same_control :: "migration_db \<Rightarrow> migration_db \<Rightarrow> bool" where
  "same_control db db' \<longleftrightarrow> md_placements db' = md_placements db \<and> md_migrations db' = md_migrations db"

lemma same_control_trans: "same_control a b \<Longrightarrow> same_control b c \<Longrightarrow> same_control a c"
  by (simp add: same_control_def)

lemma same_control_org [simp]: "same_control db (db\<lparr>md_org := x\<rparr>)" "same_control db (db\<lparr>md_jobs := y\<rparr>)"
  "same_control db (db\<lparr>md_items := z\<rparr>)"
  by (simp_all add: same_control_def)

lemma same_control_lookup:
  assumes "same_control db db'"
  shows "placement_of t db' = placement_of t db" "migration_by_id i db' = migration_by_id i db"
    "working t db' = working t db" "lock_placement t db' = lock_placement t db" "lock_migration i db' = lock_migration i db"
    "active_migration_for_tenant t db' = active_migration_for_tenant t db"
  using assms by (simp_all add: same_control_def placement_of_def migration_by_id_def working_def lock_placement_def
      lock_migration_def active_migration_for_tenant_def)

lemma safe_same_control:
  assumes "same_control (wd_db w) db'"
  shows "safe c \<rho> t (w\<lparr>wd_db := db'\<rparr>) = safe c \<rho> t w"
  unfolding safe_def using assms by (simp add: same_control_lookup [OF assms] same_control_def)

lemma lease_same_control:
  "acquire_lease l tnow db = Inr db' \<Longrightarrow> same_control db db'"
  "acquire_or_renew_operation_lease m now tnow db = Inr db' \<Longrightarrow> same_control db db'"
  "renew_operation_lease m now tnow db = Inr db' \<Longrightarrow> same_control db db'"
  "release_operation_lease m tnow db = Inr db' \<Longrightarrow> same_control db db'"
  "lock_tenant_of tn tok tnow db = Inr (x, db') \<Longrightarrow> same_control db db'"
  "increment_runtime_epoch tn clock db = Inr db' \<Longrightarrow> same_control db db'"
proof -
  show a: "acquire_lease l tnow db = Inr db' \<Longrightarrow> same_control db db'" for l db db'
    by (auto simp: acquire_lease_def bind_result_eq_Inr Let_def same_control_def split: option.splits if_splits)
  then show "acquire_or_renew_operation_lease m now tnow db = Inr db' \<Longrightarrow> same_control db db'"
    by (simp add: acquire_or_renew_operation_lease_def)
  show "lock_tenant_of tn tok tnow db = Inr (x, db') \<Longrightarrow> same_control db db'" for db db' x
    by (auto simp: lock_tenant_of_def bind_result_eq_Inr)
  show "renew_operation_lease m now tnow db = Inr db' \<Longrightarrow> same_control db db'"
    by (auto simp: renew_operation_lease_def renew_lease_of_def lock_tenant_of_def bind_result_eq_Inr Let_def same_control_def
        split: if_splits)
  show "release_operation_lease m tnow db = Inr db' \<Longrightarrow> same_control db db'"
    by (auto simp: release_operation_lease_def release_lease_of_def lock_tenant_of_def bind_result_eq_Inr Let_def same_control_def)
  show "increment_runtime_epoch tn clock db = Inr db' \<Longrightarrow> same_control db db'"
    by (auto simp: increment_runtime_epoch_def bind_result_eq_Inr split: option.splits)
qed

lemma item_same_control:
  "save_item x db = Inr (y, db') \<Longrightarrow> same_control db db'" "insert_item x db = Inr (y, db') \<Longrightarrow> same_control db db'"
  by (auto simp: save_item_def insert_item_def split: if_splits)

lemma save_migration_lookup [simp]:
  "md_migrations (save_migration m db) = row_put mg_id m (md_migrations db)"
  "md_placements (save_migration m db) = md_placements db"
  "md_placements (save_placement p db) = row_put pl_tenant_id p (md_placements db)"
  "md_migrations (save_placement p db) = md_migrations db"
  by (simp_all add: save_migration_def save_placement_def)

text \<open>
  A change of one migration of the tenant, with a change of its placement that either stays where it
  was or moves to a target that is ready to take over.
\<close>

lemma in_working_put:
  assumes "x \<in> working t db'" "md_migrations db' = row_put mg_id m' (md_migrations db)"
  shows "x = m' \<or> x \<in> working t db \<and> mg_id x \<noteq> mg_id m'"
  using assms in_row_put [of x mg_id m' "md_migrations db"] by (auto simp: working_def)

lemma safe_row_put:
  assumes w: "safe c \<rho> t w" and m: "migration_by_id (mg_id m') (wd_db w) = Some m" "mg_tenant_id m = t"
    and ms: "md_migrations db' = row_put mg_id m' (md_migrations (wd_db w))"
    and p: "placement_of t (wd_db w) = Some p" "placement_of t db' = Some p'"
    and m': "\<not> terminal_migration m' \<Longrightarrow> \<not> terminal_migration m \<and> stage_ok c t (wd_targets w) p' m'"
    and moved: "same_spot p p' \<or> \<not> terminal_migration m \<and> one_copy t (wd_targets w) p' \<and>
      holds_data c t (wd_accepted w t) (wd_targets w (pl_current_target_key p'))"
  shows "safe c \<rho> t (w\<lparr>wd_db := db'\<rparr>)"
proof -
  have mm: "m \<in> set (md_migrations (wd_db w))" "mg_id m = mg_id m'"
    using m(1) by (auto simp: migration_by_id_def dest: row_get_SomeD)
  have p0: "one_copy t (wd_targets w) p" "holds_data c t (wd_accepted w t) (wd_targets w (pl_current_target_key p))"
    "\<And>x. x \<in> working t (wd_db w) \<Longrightarrow> stage_ok c t (wd_targets w) p x"
    by (rule safe_placed [OF w p(1)])+
  have alone: "mg_id x = mg_id y" if "x \<in> working t (wd_db w)" "y \<in> working t (wd_db w)" for x y
    by (rule safe_alone [OF w that])
  have new: "x = m' \<or> x \<in> working t (wd_db w) \<and> mg_id x \<noteq> mg_id m'" if "x \<in> working t db'" for x
    by (rule in_working_put [OF that ms])
  have mw: "m \<in> working t (wd_db w)" if "\<not> terminal_migration m" using mm m(2) that by (simp add: working_def)
  show ?thesis
  proof (rule safeI)
    show "unique_key mg_id (md_migrations (wd_db (w\<lparr>wd_db := db'\<rparr>)))" using safe_unique [OF w] ms by simp
    show "placement_of t (wd_db (w\<lparr>wd_db := db'\<rparr>)) = Some p'" using p(2) by simp
    show "one_copy t (wd_targets (w\<lparr>wd_db := db'\<rparr>)) p'"
      using moved p0(1) by (auto simp: same_spot_cong(1))
    show "holds_data c t (wd_accepted (w\<lparr>wd_db := db'\<rparr>) t) (wd_targets (w\<lparr>wd_db := db'\<rparr>) (pl_current_target_key p'))"
      using moved p0(2) by (auto simp: same_spot_cong(3))
    show "rows_ok c \<rho> t (wd_targets (w\<lparr>wd_db := db'\<rparr>) key)" for key using safe_rows [OF w] by simp
    show "stage_ok c t (wd_targets (w\<lparr>wd_db := db'\<rparr>)) p' x" if x: "x \<in> working t (wd_db (w\<lparr>wd_db := db'\<rparr>))" for x
    proof (cases "x = m'")
      case True
      with x m' show ?thesis by (simp add: working_def)
    next
      case False
      then have old: "x \<in> working t (wd_db w)" "mg_id x \<noteq> mg_id m'" using new x by auto
      then have "terminal_migration m" using alone mw mm(2) by metis
      with moved p0(3) [OF old(1)] show ?thesis by (auto simp: same_spot_cong(2))
    qed
    show "mg_id x = mg_id y" if "x \<in> working t (wd_db (w\<lparr>wd_db := db'\<rparr>))" "y \<in> working t (wd_db (w\<lparr>wd_db := db'\<rparr>))" for x y
    proof -
      have 1: "z = m' \<or> z \<in> working t (wd_db w) \<and> mg_id z \<noteq> mg_id m'" "z = m' \<Longrightarrow> \<not> terminal_migration m'"
        if "z \<in> working t db'" for z using new [OF that] that by (auto simp: working_def)
      have "\<not> terminal_migration m' \<Longrightarrow> m \<in> working t (wd_db w)" using m' mw by blast
      with 1 [of x] 1 [of y] that alone mm(2) show ?thesis by (simp) metis
    qed
  qed
qed

text \<open>A change of flags only: the row keeps its key, plan and state.\<close>

definition flags_only :: "migration_db \<Rightarrow> migration_db \<Rightarrow> bool" where
  "flags_only db db' \<longleftrightarrow> md_placements db' = md_placements db \<and>
     (md_migrations db' = md_migrations db \<or>
      (\<exists>m m'. migration_by_id (mg_id m') db = Some m \<and> plan_of m' = plan_of m \<and> mg_state m' = mg_state m \<and>
         md_migrations db' = row_put mg_id m' (md_migrations db)))"

lemma same_control_flags: "same_control db db' \<Longrightarrow> flags_only db db'"
  by (simp add: same_control_def flags_only_def)

lemma flags_same_control: "flags_only db db1 \<Longrightarrow> same_control db1 db2 \<Longrightarrow> flags_only db db2"
  by (auto simp: same_control_def flags_only_def)

lemma same_control_flags_only: "same_control db db1 \<Longrightarrow> flags_only db1 db2 \<Longrightarrow> flags_only db db2"
  by (auto simp: same_control_def flags_only_def migration_by_id_def)

text \<open>What a row of the tenant is after a step of somebody else.\<close>

definition row_kept :: "string \<Rightarrow> migration_db \<Rightarrow> migration_db \<Rightarrow> bool" where
  "row_kept t db db' \<longleftrightarrow> (\<forall>i m. migration_by_id i db = Some m \<longrightarrow> mg_tenant_id m = t \<longrightarrow>
     (\<exists>m'. migration_by_id i db' = Some m' \<and> plan_of m' = plan_of m \<and> mg_state m' = mg_state m))"

lemma row_kept_trans: "row_kept t a b \<Longrightarrow> row_kept t b c \<Longrightarrow> row_kept t a c"
  unfolding row_kept_def
proof (intro allI impI)
  fix i m
  assume h: "\<forall>i m. migration_by_id i a = Some m \<longrightarrow> mg_tenant_id m = t \<longrightarrow>
      (\<exists>m'. migration_by_id i b = Some m' \<and> plan_of m' = plan_of m \<and> mg_state m' = mg_state m)"
    "\<forall>i m. migration_by_id i b = Some m \<longrightarrow> mg_tenant_id m = t \<longrightarrow>
      (\<exists>m'. migration_by_id i c = Some m' \<and> plan_of m' = plan_of m \<and> mg_state m' = mg_state m)"
    "migration_by_id i a = Some m" "mg_tenant_id m = t"
  then obtain m1 where m1: "migration_by_id i b = Some m1" "plan_of m1 = plan_of m" "mg_state m1 = mg_state m" by blast
  then have "mg_tenant_id m1 = t" using h(4) by (simp add: plan_of_eq)
  with h(2) m1 show "\<exists>m'. migration_by_id i c = Some m' \<and> plan_of m' = plan_of m \<and> mg_state m' = mg_state m" by metis
qed

lemma flags_row_kept:
  assumes "flags_only db db'" "unique_key mg_id (md_migrations db)"
  shows "row_kept t db db'"
proof -
  have "\<exists>m'. migration_by_id i db' = Some m' \<and> plan_of m' = plan_of m \<and> mg_state m' = mg_state m"
    if i: "migration_by_id i db = Some m" for i m
  proof (cases "md_migrations db' = md_migrations db")
    case True
    then show ?thesis using i by (simp add: migration_by_id_def)
  next
    case False
    then obtain x x' where x: "migration_by_id (mg_id x') db = Some x" "plan_of x' = plan_of x" "mg_state x' = mg_state x"
        "md_migrations db' = row_put mg_id x' (md_migrations db)"
      using assms(1) by (auto simp: flags_only_def)
    have "migration_by_id i db' = (if i = mg_id x' then Some x' else Some m)"
      using i x(1,4) by (simp add: migration_by_id_def row_get_row_put)
    then show ?thesis using x i by (cases "i = mg_id x'") auto
  qed
  then show ?thesis by (auto simp: row_kept_def)
qed

lemma safe_flags_only:
  assumes w: "safe c \<rho> t w" and f: "flags_only (wd_db w) db'"
  shows "safe c \<rho> t (w\<lparr>wd_db := db'\<rparr>)"
proof -
  have pl: "placement_of t db' = placement_of t (wd_db w)" using f by (auto simp: flags_only_def placement_of_def)
  show ?thesis
  proof (cases "md_migrations db' = md_migrations (wd_db w)")
    case True
    then have "same_control (wd_db w) db'" using f by (simp add: same_control_def flags_only_def)
    then show ?thesis using w by (simp add: safe_same_control)
  next
    case False
    then obtain m m' where m: "migration_by_id (mg_id m') (wd_db w) = Some m" "plan_of m' = plan_of m"
        "mg_state m' = mg_state m" "md_migrations db' = row_put mg_id m' (md_migrations (wd_db w))"
      using f by (auto simp: flags_only_def)
    have trm: "terminal_migration m' = terminal_migration m" using m(3) by (simp add: terminal_migration_def)
    obtain p where p0: "placement_of t (wd_db w) = Some p" using safe_has_placement [OF w] by blast
    note p = p0 safe_placed [OF w p0]
    show ?thesis
    proof (cases "mg_tenant_id m = t")
      case True
      have mm: "m \<in> set (md_migrations (wd_db w))" using m(1) by (auto simp: migration_by_id_def dest: row_get_SomeD)
      show ?thesis
      proof (rule safe_row_put [OF w m(1) True m(4) p(1)])
        show "placement_of t db' = Some p" using pl p(1) by simp
        show "\<not> terminal_migration m \<and> stage_ok c t (wd_targets w) p m'" if "\<not> terminal_migration m'"
        proof -
          have "m \<in> working t (wd_db w)" using mm True that trm by (simp add: working_def)
          then show ?thesis using p(4) that trm by (simp add: stage_ok_plan [OF m(2,3)])
        qed
      qed simp
    next
      case False
      then have "mg_tenant_id m' \<noteq> t" using m(2) by (simp add: plan_of_eq)
      have id: "mg_id m = mg_id m'" using m(1) by (auto simp: migration_by_id_def dest: row_get_SomeD)
      have "working t db' \<subseteq> working t (wd_db w)"
        using in_working_put [OF _ m(4), of _ t] \<open>mg_tenant_id m' \<noteq> t\<close> by (auto simp: working_def)
      then have sub: "x \<in> working t (wd_db w)" if "x \<in> working t (wd_db (w\<lparr>wd_db := db'\<rparr>))" for x
        using that by auto
      show ?thesis
      proof (rule safeI [where p = p])
        show "mg_id x = mg_id y" if "x \<in> working t (wd_db (w\<lparr>wd_db := db'\<rparr>))" "y \<in> working t (wd_db (w\<lparr>wd_db := db'\<rparr>))" for x y
          by (rule safe_alone [OF w sub [OF that(1)] sub [OF that(2)]])
        show "stage_ok c t (wd_targets (w\<lparr>wd_db := db'\<rparr>)) p x" if "x \<in> working t (wd_db (w\<lparr>wd_db := db'\<rparr>))" for x
          using p(4) [OF sub [OF that]] by simp
      qed (use p pl m(4) safe_unique [OF w] safe_rows [OF w] in simp_all)
    qed
  qed
qed

end
