(* ===== verification/Migration_Others.thy ===== *)
theory Migration_Others
  imports Migration_Invariant
begin

text \<open>
  What may happen to a tenant between two calls of its worker: business transactions of its own,
  requests of the operators, the reconciliation of its job, and anything that concerns other tenants
  or other parts of the system. All of it keeps the invariant and leaves the worker what it relies on.
\<close>

section \<open>Changes of one target\<close>

lemma tenant_partD:
  assumes "tenant_part c t a = tenant_part c t b"
  shows "row_get fe_tenant_id t (tg_fences a) = row_get fe_tenant_id t (tg_fences b)"
    "d \<in> set c \<Longrightarrow> tenant_rows d t a = tenant_rows d t b"
  using assms by (auto simp: tenant_part_def)

lemma open_fence_cong:
  "row_get fe_tenant_id t (tg_fences a) = row_get fe_tenant_id t (tg_fences b) \<Longrightarrow> open_fence t a = open_fence t b"
  by (simp add: open_fence_def)

lemma ordered_rows_cong: "tenant_rows d t a = tenant_rows d t b \<Longrightarrow> ordered_rows d t a = ordered_rows d t b"
  by (simp add: ordered_rows_def)

lemma ready_cong:
  assumes "\<And>key. open_fence t (ts' key) = open_fence t (ts key)"
    "\<And>key d. d \<in> set c \<Longrightarrow> ordered_rows d t (ts' key) = ordered_rows d t (ts key)"
  shows "ready c t ts' m = ready c t ts m"
  using assms by (simp add: ready_def)

lemma safe_target_update:
  assumes w: "safe c \<rho> t w" and p: "placement_of t (wd_db w) = Some p"
    and fence: "\<And>f. open_fence t db' = Some f \<Longrightarrow> open_fence t (wd_targets w key) = Some f \<or>
      fits f key p \<and> (\<forall>m \<in> working t (wd_db w). mg_state m \<noteq> mg_CUTTING_OVER)"
    and uniq: "unique_key fe_tenant_id (tg_fences db')"
    and rows: "(\<forall>d \<in> set c. tenant_rows d t db' = tenant_rows d t (wd_targets w key)) \<or>
      key \<noteq> pl_current_target_key p \<and> (\<forall>m \<in> working t (wd_db w). mg_state m \<noteq> mg_CUTTING_OVER) \<and> rows_ok c \<rho> t db'"
  shows "safe c \<rho> t (w\<lparr>wd_targets := (wd_targets w)(key := db')\<rparr>)"
proof (rule safeI [where p = p])
  note old = safe_placed [OF w p]
  let ?ts = "(wd_targets w)(key := db')"
  show "one_copy t (wd_targets (w\<lparr>wd_targets := ?ts\<rparr>)) p"
    using old(1) fence by (auto simp: one_copy_def)
  show "holds_data c t (wd_accepted (w\<lparr>wd_targets := ?ts\<rparr>) t)
      (wd_targets (w\<lparr>wd_targets := ?ts\<rparr>) (pl_current_target_key p))"
  proof (cases "key = pl_current_target_key p")
    case True
    then have "ordered_rows d t db' = ordered_rows d t (wd_targets w key)" if "d \<in> set c" for d
      using rows that by (intro ordered_rows_cong) simp
    then show ?thesis using old(2) True by (simp add: holds_data_def)
  qed (use old(2) in simp)
  show "rows_ok c \<rho> t (wd_targets (w\<lparr>wd_targets := ?ts\<rparr>) k)" for k
  proof (cases "k = key")
    case True
    from rows show ?thesis
    proof
      assume "\<forall>d \<in> set c. tenant_rows d t db' = tenant_rows d t (wd_targets w key)"
      then show ?thesis using safe_rows [OF w, of key] uniq True by (simp add: rows_ok_def)
    qed (simp add: True)
  qed (use safe_rows [OF w, of k] in simp)
  show "stage_ok c t (wd_targets (w\<lparr>wd_targets := ?ts\<rparr>)) p m" if m: "m \<in> working t (wd_db (w\<lparr>wd_targets := ?ts\<rparr>))" for m
  proof -
    have st: "stage_ok c t (wd_targets w) p m" using old(3) m by simp
    have "ready c t ?ts m" if cut: "mg_state m = mg_CUTTING_OVER"
    proof -
      have r: "ready c t (wd_targets w) m" using st cut by (simp add: stage_ok_def)
      have "open_fence t db' = None"
        using fence r m cut by (cases "open_fence t db'") (auto simp: ready_def)
      moreover have "ordered_rows d t db' = ordered_rows d t (wd_targets w key)" if "d \<in> set c" for d
        using rows m cut that by (auto intro: ordered_rows_cong)
      ultimately show ?thesis using r by (auto simp: ready_def)
    qed
    then show ?thesis using st by (auto simp: stage_ok_def)
  qed
  show "mg_id m = mg_id m'" if "m \<in> working t (wd_db (w\<lparr>wd_targets := ?ts\<rparr>))"
    "m' \<in> working t (wd_db (w\<lparr>wd_targets := ?ts\<rparr>))" for m m'
    by (rule safe_alone [OF w]) (use that in simp_all)
qed (use p safe_unique [OF w] in simp_all)

section \<open>The steps of others\<close>

inductive other_step :: "migration_env \<Rightarrow> data_row set \<Rightarrow> string \<Rightarrow> world \<Rightarrow> world \<Rightarrow> bool"
  for env \<rho> t where
  elsewhere: "placement_of t (wd_db w') = placement_of t (wd_db w) \<Longrightarrow>
    filter (\<lambda>m. mg_tenant_id m = t) (md_migrations (wd_db w')) = filter (\<lambda>m. mg_tenant_id m = t) (md_migrations (wd_db w)) \<Longrightarrow>
    unique_key mg_id (md_migrations (wd_db w')) \<Longrightarrow>
    (\<And>key. tenant_part (me_catalog env) t (wd_targets w' key) = tenant_part (me_catalog env) t (wd_targets w key)) \<Longrightarrow>
    (\<And>key. unique_key fe_tenant_id (tg_fences (wd_targets w' key))) \<Longrightarrow>
    wd_accepted w' t = wd_accepted w t \<Longrightarrow> other_step env \<rho> t w w'"
| business: "fp_tenant_id p = t \<Longrightarrow> verify_fence_on p mode (wd_targets w (fp_target_key p)) = Inr () \<Longrightarrow>
    d \<in> set (me_catalog env) \<Longrightarrow>
    db' = (wd_targets w (fp_target_key p))\<lparr>tg_rows := (tg_rows (wd_targets w (fp_target_key p)))(de_table d := rows)\<rparr> \<Longrightarrow>
    table_ok d (tenant_rows d t db') \<Longrightarrow> set (tenant_rows d t db') \<subseteq> \<rho> \<Longrightarrow>
    w' = w\<lparr>wd_targets := (wd_targets w)(fp_target_key p := db'),
           wd_accepted := (wd_accepted w)(t := (wd_accepted w t)(de_table d := ordered_rows d t db'))\<rparr> \<Longrightarrow>
    other_step env \<rho> t w w'"
| created: "create_migration_txn env actor t c v plan now tnow next_id (wd_db w) = Inr (r, db') \<Longrightarrow>
    pv_source_target_key v \<noteq> cc_target_key c \<Longrightarrow> other_step env \<rho> t w (w\<lparr>wd_db := db'\<rparr>)"
| cancelled: "cancel_intent_txn actor key snapshot now tnow (wd_db w) = Inr (r', db') \<Longrightarrow>
    other_step env \<rho> t w (w\<lparr>wd_db := db'\<rparr>)"
| finalized: "finalize_intent_txn actor key snapshot now tnow (wd_db w) = Inr (r', db') \<Longrightarrow>
    other_step env \<rho> t w (w\<lparr>wd_db := db'\<rparr>)"
| repaired: "repair_job_txn snapshot now tnow next_id (wd_db w) = Inr (b, db') \<Longrightarrow>
    other_step env \<rho> t w (w\<lparr>wd_db := db'\<rparr>)"

text \<open>What the worker relies on.\<close>

definition kept :: "catalog \<Rightarrow> string \<Rightarrow> world \<Rightarrow> world \<Rightarrow> bool" where
  "kept c t w w' \<longleftrightarrow> row_kept t (wd_db w) (wd_db w') \<and>
     (\<forall>key. row_get fe_tenant_id t (tg_fences (wd_targets w' key)) = row_get fe_tenant_id t (tg_fences (wd_targets w key))) \<and>
     (\<forall>key. open_fence t (wd_targets w key) = None \<longrightarrow>
        (\<forall>d \<in> set c. tenant_rows d t (wd_targets w' key) = tenant_rows d t (wd_targets w key)))"

lemma row_kept_refl [simp]: "row_kept t db db" by (simp add: row_kept_def)

lemma kept_refl [simp]: "kept c t w w" by (simp add: kept_def)

lemma kept_trans:
  assumes "kept c t w1 w2" "kept c t w2 w3"
  shows "kept c t w1 w3"
  using assms row_kept_trans by (fastforce simp: kept_def open_fence_def)

lemma kept_control: "row_kept t (wd_db w) db' \<Longrightarrow> kept c t w (w\<lparr>wd_db := db'\<rparr>)"
  by (simp add: kept_def)

subsection \<open>Operators\<close>

lemma jobs_same_control: "reactivate_job m now db = Inr db' \<Longrightarrow> same_control db db'"
  "enqueue_migration_job nid cmd tnow db = Inr (j, db') \<Longrightarrow> same_control db db'"
  by (auto simp: reactivate_job_def enqueue_migration_job_def bind_result_eq_Inr split: option.splits if_splits)

lemma flags_put:
  assumes "lock_migration i db = Inr m" "mg_id m' = mg_id m" "plan_of m' = plan_of m" "mg_state m' = mg_state m"
  shows "flags_only db (save_migration m' db)"
proof -
  have "migration_by_id i db = Some m" using assms(1) by (simp add: lock_migration_def split: option.splits)
  moreover have "mg_id m = i" using calculation by (auto simp: migration_by_id_def dest: row_get_SomeD)
  ultimately have "migration_by_id (mg_id m') db = Some m" using assms(2) by simp
  then show ?thesis unfolding flags_only_def using assms(3,4) by (intro conjI disjI2 exI [of _ m] exI [of _ m']) simp_all
qed

lemma lock_same_control: "same_control db db1 \<Longrightarrow> lock_migration i db1 = Inr m \<Longrightarrow> lock_migration i db = Inr m"
  by (simp add: same_control_lookup)

lemma cancel_flags:
  assumes "cancel_intent_txn actor key snapshot now tnow db = Inr (r, db')"
  shows "flags_only db db'"
proof -
  obtain db1 m where 1: "acquire_or_renew_operation_lease snapshot now tnow db = Inr db1"
      "lock_migration (mg_id snapshot) db1 = Inr m"
    using assms by (auto simp: cancel_intent_txn_def bind_result_eq_Inr)
  note s1 = lease_same_control(2) [OF 1(1)]
  show ?thesis
  proof (cases "mg_state m = mg_CANCELLED")
    case True
    then obtain db2 where "release_operation_lease m tnow db1 = Inr db2" "db' = db2"
      using assms 1 by (auto simp: cancel_intent_txn_def bind_result_eq_Inr)
    then show ?thesis using same_control_trans [OF s1 lease_same_control(4)] same_control_flags by blast
  next
    case False
    define m' where "m' = m\<lparr>mg_cancel_idempotency_key_hash := Some key, mg_cancelled_by := Some (ax_user_id actor),
        mg_cancel_requested_at := Some now, mg_updated_at := now\<rparr>"
    obtain db2 x where 2: "db2 = db1 \<or> db2 = save_migration m' db1" "reactivate_job x now db2 = Inr db'"
      using assms 1 False
      by (auto simp: cancel_intent_txn_def bind_result_eq_Inr m'_def Let_def split: if_splits option.splits)
    have "flags_only db1 db2"
      using 2(1) flags_put [OF 1(2), of m'] same_control_flags [of db1 db1]
      by (auto simp: m'_def plan_of_eq same_control_def)
    then show ?thesis
      using flags_same_control jobs_same_control(1) [OF 2(2)] same_control_flags_only [OF s1] by blast
  qed
qed

lemma finalize_flags:
  assumes "finalize_intent_txn actor key snapshot now tnow db = Inr (r, db')"
  shows "flags_only db db'"
proof -
  obtain db1 m where 1: "acquire_or_renew_operation_lease snapshot now tnow db = Inr db1"
      "lock_migration (mg_id snapshot) db1 = Inr m"
    using assms by (auto simp: finalize_intent_txn_def bind_result_eq_Inr)
  note s1 = lease_same_control(2) [OF 1(1)]
  show ?thesis
  proof (cases "mg_state m = mg_FINALIZED")
    case True
    then obtain db2 where "release_operation_lease m tnow db1 = Inr db2" "db' = db2"
      using assms 1 by (auto simp: finalize_intent_txn_def bind_result_eq_Inr)
    then show ?thesis using same_control_trans [OF s1 lease_same_control(4)] same_control_flags by blast
  next
    case False
    define m' where "m' = m\<lparr>mg_finalize_idempotency_key_hash := Some key, mg_finalized_by := Some (ax_user_id actor),
        mg_finalize_requested_at := Some now, mg_updated_at := now\<rparr>"
    obtain db2 x where 2: "db2 = db1 \<or> db2 = save_migration m' db1" "reactivate_job x now db2 = Inr db'"
      using assms 1 False
      by (auto simp: finalize_intent_txn_def bind_result_eq_Inr m'_def Let_def split: if_splits option.splits)
    have "flags_only db1 db2"
      using 2(1) flags_put [OF 1(2), of m'] same_control_flags [of db1 db1]
      by (auto simp: m'_def plan_of_eq same_control_def)
    then show ?thesis
      using flags_same_control jobs_same_control(1) [OF 2(2)] same_control_flags_only [OF s1] by blast
  qed
qed

lemma repair_flags:
  assumes "repair_job_txn snapshot now tnow nid db = Inr (b, db')"
  shows "flags_only db db'"
proof -
  obtain db1 m where 1: "acquire_or_renew_operation_lease snapshot now tnow db = Inr db1"
      "lock_migration (mg_id snapshot) db1 = Inr m"
    using assms by (auto simp: repair_job_txn_def bind_result_eq_Inr)
  note s1 = lease_same_control(2) [OF 1(1)]
  consider (rel) "release_operation_lease m tnow db1 = Inr db'"
    | (found) jobs where "db' = db1\<lparr>md_jobs := jobs\<rparr>"
    | (new) jobs job db2 where "enqueue_migration_job nid (migration_job (mg_tenant_id m) (mg_id m) 20 now
             (''migration-recovery:'' @ show_int (mg_id m) @ '':'' @
              (case mg_background_job_id m of None \<Rightarrow> ''missing'' | Some j \<Rightarrow> show_int j) @ '':'' @
              show_int (mg_updated_at m))) tnow (db1\<lparr>md_jobs := jobs\<rparr>) = Inr (job, db2)"
        "db' = save_migration (m\<lparr>mg_background_job_id := Some job, mg_updated_at := now\<rparr>) db2"
    using assms 1 by (auto simp: repair_job_txn_def bind_result_eq_Inr split: if_splits)
  then show ?thesis
  proof cases
    case rel
    then show ?thesis using same_control_trans [OF s1 lease_same_control(4)] same_control_flags by blast
  next
    case found
    then show ?thesis using s1 by (auto intro!: same_control_flags simp: same_control_def)
  next
    case new
    have s2: "same_control db db2"
      using same_control_trans [OF s1] jobs_same_control(2) [OF new(1)] by (simp add: same_control_def)
    have "lock_migration (mg_id snapshot) db2 = Inr m"
      using 1(2) same_control_lookup(5) [OF s1] same_control_lookup(5) [OF s2] by simp
    from flags_put [OF this, of "m\<lparr>mg_background_job_id := Some job, mg_updated_at := now\<rparr>"]
    have "flags_only db2 db'" by (simp add: new(2) plan_of_eq)
    then show ?thesis by (rule same_control_flags_only [OF s2])
  qed
qed

subsection \<open>A new migration\<close>

lemma active_None: "active_migration_for_tenant t db = None \<longleftrightarrow> working t db = {}"
  by (auto simp: active_migration_for_tenant_def working_def find_None_iff)

lemma row_put_Cons_new:
  assumes "key m' = key m" "key m \<notin> key ` set rows"
  shows "row_put key m' (m # rows) = m' # rows"
proof -
  have "key x \<noteq> key m'" if "x \<in> set rows" for x using assms that by (metis imageI)
  then have "update_where (\<lambda>r'. key r' = key m') (\<lambda>_. m') rows = rows" by (intro update_where_cong_none) simp
  then show ?thesis using assms(1) by (simp add: row_put_def update_where_def)
qed

lemma create_cases:
  assumes "create_migration_txn env actor t c v plan now tnow nid db = Inr (r, db')"
  obtains "db' = db"
  | db1 p m db2 job db3 where "acquire_lease (create_lease t plan now) tnow db = Inr db1" "lock_placement t db1 = Inr p"
      "validate_create_placement p v c = Inr ()" "active_migration_for_tenant t db1 = None"
      "insert_migration (create_row env actor t c plan p now) db1 = Inr (m, db2)"
      "enqueue_migration_job nid (migration_job t (cp_id plan) 10 now (show_int (cp_id plan))) tnow db2 = Inr (job, db3)"
      "db' = save_migration (m\<lparr>mg_background_job_id := Some job, mg_updated_at := now\<rparr>) db3"
proof (cases "acquire_lease (create_lease t plan now) tnow db")
  case (Inl e)
  then show ?thesis using assms that(1) by (simp add: create_migration_txn_def)
next
  case (Inr db1)
  then obtain p where p: "lock_placement t db1 = Inr p" "validate_create_placement p v c = Inr ()"
      "active_migration_for_tenant t db1 = None"
      "(case insert_migration (create_row env actor t c plan p now) db1 of
              Inl e \<Rightarrow> Inr (Inl e, db)
            | Inr (m, db2) \<Rightarrow>
                bind_result (enqueue_migration_job nid
                  (migration_job t (cp_id plan) 10 now (show_int (cp_id plan))) tnow db2) (\<lambda>(job, db3).
                let m' = m\<lparr>mg_background_job_id := Some job, mg_updated_at := now\<rparr>
                in Inr (Inr m', save_migration m' db3))) = Inr (r, db')"
    using assms by (auto simp: create_migration_txn_def bind_result_eq_Inr split: if_splits)
  show ?thesis
  proof (cases "insert_migration (create_row env actor t c plan p now) db1")
    case (Inl e)
    then show ?thesis using p(4) that(1) by simp
  next
    case ins: (Inr x)
    obtain m db2 where x: "x = (m, db2)" by (cases x)
    obtain job db3 where "enqueue_migration_job nid (migration_job t (cp_id plan) 10 now (show_int (cp_id plan))) tnow db2 =
        Inr (job, db3)" "db' = save_migration (m\<lparr>mg_background_job_id := Some job, mg_updated_at := now\<rparr>) db3"
      using p(4) ins x by (auto simp: bind_result_eq_Inr Let_def)
    then show ?thesis using that(2) [OF Inr p(1-3)] ins x by simp
  qed
qed

lemma create_shape:
  assumes "create_migration_txn env actor t c v plan now tnow nid db = Inr (r, db')"
    "pv_source_target_key v \<noteq> cc_target_key c"
  shows "same_control db db' \<or> (\<exists>m' p. md_placements db' = md_placements db \<and> md_migrations db' = m' # md_migrations db \<and>
    mg_id m' \<notin> mg_id ` set (md_migrations db) \<and> working t db = {} \<and> placement_of t db = Some p \<and>
    same_source p m' \<and> mg_source_target_key m' \<noteq> mg_target_key m' \<and> mg_state m' = mg_PRECHECKING)"
  using assms(1)
proof (cases rule: create_cases)
  case 1
  then show ?thesis by (simp add: same_control_def)
next
  case (2 db1 p m db2 job db3)
  note s1 = lease_same_control(1) [OF 2(1)] and s3 = jobs_same_control(2) [OF 2(6)]
  have p: "placement_of t db = Some p" "pl_current_target_key p = pv_source_target_key v"
    using 2(2,3) same_control_lookup(1) [OF s1]
    by (auto simp: lock_placement_def validate_create_placement_def bind_result_eq_Inr split: option.splits if_splits)
  have m: "m = new_migration (create_row env actor t c plan p now)"
      "\<not> list_ex (\<lambda>x. mg_id x = mg_id m \<or> mg_switch_token x = mg_switch_token m \<or>
         mg_create_idempotency_key_hash x = mg_create_idempotency_key_hash m) (md_migrations db1)"
      "db2 = db1\<lparr>md_migrations := m # md_migrations db1\<rparr>"
    using 2(5) by (auto simp: insert_migration_def Let_def split: if_splits)
  let ?m' = "m\<lparr>mg_background_job_id := Some job, mg_updated_at := now\<rparr>"
  have new: "mg_id m \<notin> mg_id ` set (md_migrations db)"
    using m(2) s1 by (auto simp: list_ex_iff same_control_def)
  have "md_migrations db3 = m # md_migrations db" "md_placements db3 = md_placements db"
    using m(3) s1 s3 by (simp_all add: same_control_def)
  then have "md_migrations db' = ?m' # md_migrations db" "md_placements db' = md_placements db"
    using row_put_Cons_new [of mg_id ?m' m "md_migrations db"] new by (simp_all add: 2(7))
  moreover have "working t db = {}" using 2(4) same_control_lookup(6) [OF s1] by (simp add: active_None)
  moreover have "same_source p ?m'" "mg_source_target_key ?m' \<noteq> mg_target_key ?m'" "mg_state ?m' = mg_PRECHECKING"
    using p(2) assms(2) by (simp_all add: m(1) new_migration_def create_row_def same_source_def)
  ultimately show ?thesis using p(1) new by (intro disjI2 exI [of _ ?m'] exI [of _ p]) simp
qed

lemma created_ok:
  assumes w: "safe c \<rho> t w" and db: "create_migration_txn env actor t cmd v plan now tnow nid (wd_db w) = Inr (r, db')"
    and v: "pv_source_target_key v \<noteq> cc_target_key cmd"
  shows "safe c \<rho> t (w\<lparr>wd_db := db'\<rparr>) \<and> row_kept t (wd_db w) db'"
  using create_shape [OF db v]
proof
  assume s: "same_control (wd_db w) db'"
  then show ?thesis using w flags_row_kept [OF same_control_flags safe_unique] by (simp add: safe_same_control)
next
  assume "\<exists>m' p. md_placements db' = md_placements (wd_db w) \<and> md_migrations db' = m' # md_migrations (wd_db w) \<and>
    mg_id m' \<notin> mg_id ` set (md_migrations (wd_db w)) \<and> working t (wd_db w) = {} \<and> placement_of t (wd_db w) = Some p \<and>
    same_source p m' \<and> mg_source_target_key m' \<noteq> mg_target_key m' \<and> mg_state m' = mg_PRECHECKING"
  then obtain m' p where n: "md_placements db' = md_placements (wd_db w)" "md_migrations db' = m' # md_migrations (wd_db w)"
      "mg_id m' \<notin> mg_id ` set (md_migrations (wd_db w))" "working t (wd_db w) = {}" "placement_of t (wd_db w) = Some p"
      "same_source p m'" "mg_source_target_key m' \<noteq> mg_target_key m'" "mg_state m' = mg_PRECHECKING" by blast
  have only: "m = m'" if "m \<in> working t db'" for m using that n(2,4) by (auto simp: working_def)
  have "safe c \<rho> t (w\<lparr>wd_db := db'\<rparr>)"
  proof (rule safeI [where p = p])
    show "unique_key mg_id (md_migrations (wd_db (w\<lparr>wd_db := db'\<rparr>)))"
      using safe_unique [OF w] n(2,3) by (simp add: unique_key_Cons row_get_None_iff)
    show "placement_of t (wd_db (w\<lparr>wd_db := db'\<rparr>)) = Some p" using n(1,5) by (simp add: placement_of_def)
    show "stage_ok c t (wd_targets (w\<lparr>wd_db := db'\<rparr>)) p m" if "m \<in> working t (wd_db (w\<lparr>wd_db := db'\<rparr>))" for m
      using only [of m] that n(6-8) by (simp add: stage_ok_def before_cutover_def can_cancel_def)
    show "mg_id m = mg_id x" if "m \<in> working t (wd_db (w\<lparr>wd_db := db'\<rparr>))" "x \<in> working t (wd_db (w\<lparr>wd_db := db'\<rparr>))" for m x
      using only [of m] only [of x] that by simp
  qed (use safe_placed [OF w n(5)] safe_rows [OF w] in simp_all)
  moreover have "migration_by_id i db' = Some m" if i: "migration_by_id i (wd_db w) = Some m" for i m
  proof -
    have "m \<in> set (md_migrations (wd_db w)) \<and> mg_id m = i" using i unfolding migration_by_id_def by (rule row_get_SomeD)
    then have "mg_id m' \<noteq> i" using n(3) by (metis imageI)
    then show ?thesis using i n(2) by (simp add: migration_by_id_def row_get_def)
  qed
  ultimately show ?thesis by (auto simp: row_kept_def)
qed

subsection \<open>Everything else\<close>

lemma flags_ok: "safe c \<rho> t w \<Longrightarrow> flags_only (wd_db w) db' \<Longrightarrow> safe c \<rho> t (w\<lparr>wd_db := db'\<rparr>) \<and> row_kept t (wd_db w) db'"
  using safe_flags_only flags_row_kept safe_unique by blast

lemma verified_open:
  assumes "verify_fence_on p mode db = Inr ()"
  obtains f where "open_fence (fp_tenant_id p) db = Some f" "fence_matches f p"
  using assms that by (auto simp: verify_fence_on_def open_fence_def bind_result_eq_Inr split: option.splits if_splits)

lemma business_ok:
  assumes w: "safe c \<rho> t w" and c: "catalog_wf c" and p: "fp_tenant_id p = t" "verify_fence_on p mode (wd_targets w (fp_target_key p)) = Inr ()"
    and d: "d \<in> set c"
    and db': "db' = (wd_targets w (fp_target_key p))\<lparr>tg_rows := (tg_rows (wd_targets w (fp_target_key p)))(de_table d := rows)\<rparr>"
    and rows: "table_ok d (tenant_rows d t db')" "set (tenant_rows d t db') \<subseteq> \<rho>"
    and w': "w' = w\<lparr>wd_targets := (wd_targets w)(fp_target_key p := db'),
           wd_accepted := (wd_accepted w)(t := (wd_accepted w t)(de_table d := ordered_rows d t db'))\<rparr>"
  shows "safe c \<rho> t w' \<and> kept c t w w'"
proof -
  let ?key = "fp_target_key p"
  obtain f where f: "open_fence t (wd_targets w ?key) = Some f" using verified_open [OF p(2)] p(1) by blast
  obtain q where q: "placement_of t (wd_db w) = Some q" using safe_has_placement [OF w] by blast
  note old = safe_placed [OF w q]
  have key: "?key = pl_current_target_key q" using old(1) f by (auto simp: one_copy_def fits_def)
  have nocut: "mg_state m \<noteq> mg_CUTTING_OVER" if "m \<in> working t (wd_db w)" for m
    using old(3) [OF that] f by (auto simp: stage_ok_def ready_def)
  have tables: "x = d" if "x \<in> set c" "de_table x = de_table d" for x
    using c d that by (auto simp: catalog_wf_def distinct_map dest: inj_onD)
  have other: "tenant_rows x t db' = tenant_rows x t (wd_targets w ?key)" if "x \<in> set c" "x \<noteq> d" for x
    using tables [OF that(1)] that(2) by (auto simp: tenant_rows_def db')
  have fences: "tg_fences db' = tg_fences (wd_targets w ?key)" by (simp add: db')
  then have opens: "open_fence t db' = open_fence t (wd_targets w ?key)" by (simp add: open_fence_def)
  have tables_ok: "table_ok x (tenant_rows x t db') \<and> set (tenant_rows x t db') \<subseteq> \<rho>" if "x \<in> set c" for x
    using rows other [OF that] safe_rows [OF w, of ?key] that by (cases "x = d") (simp_all add: rows_ok_def)
  have "safe c \<rho> t w'"
  proof (rule safeI [where p = q])
    show "one_copy t (wd_targets w') q" using old(1) opens by (auto simp: one_copy_def w')
    show "holds_data c t (wd_accepted w' t) (wd_targets w' (pl_current_target_key q))"
      unfolding holds_data_def
    proof
      fix x assume x: "x \<in> set c"
      show "ordered_rows x t (wd_targets w' (pl_current_target_key q)) = wd_accepted w' t (de_table x)"
      proof (cases "x = d")
        case False
        then have "de_table x \<noteq> de_table d" using tables [OF x] by blast
        moreover have "ordered_rows x t db' = ordered_rows x t (wd_targets w ?key)"
          by (rule ordered_rows_cong [OF other [OF x False]])
        ultimately show ?thesis using old(2) x key by (simp add: w' holds_data_def)
      qed (simp add: w' key [symmetric])
    qed
    show "stage_ok c t (wd_targets w') q m" if "m \<in> working t (wd_db w')" for m
      using old(3) [of m] nocut [of m] that by (simp add: w' stage_ok_def)
    show "rows_ok c \<rho> t (wd_targets w' key)" for key
      using safe_rows [OF w, of key] tables_ok fences by (auto simp: w' rows_ok_def)
    show "mg_id m = mg_id m'" if "m \<in> working t (wd_db w')" "m' \<in> working t (wd_db w')" for m m'
      by (rule safe_alone [OF w]) (use that in \<open>simp_all add: w'\<close>)
  qed (use q safe_unique [OF w] in \<open>simp_all add: w'\<close>)
  moreover have "kept c t w w'"
    using f fences by (auto simp: kept_def w')
  ultimately show ?thesis ..
qed

lemma elsewhere_ok:
  assumes w: "safe c \<rho> t w" and pl: "placement_of t (wd_db w') = placement_of t (wd_db w)"
    and ms: "filter (\<lambda>m. mg_tenant_id m = t) (md_migrations (wd_db w')) = filter (\<lambda>m. mg_tenant_id m = t) (md_migrations (wd_db w))"
    and u: "unique_key mg_id (md_migrations (wd_db w'))"
    and part: "\<And>key. tenant_part c t (wd_targets w' key) = tenant_part c t (wd_targets w key)"
    and fences: "\<And>key. unique_key fe_tenant_id (tg_fences (wd_targets w' key))"
    and acc: "wd_accepted w' t = wd_accepted w t"
  shows "safe c \<rho> t w' \<and> kept c t w w'"
proof -
  obtain p where p: "placement_of t (wd_db w) = Some p" using safe_has_placement [OF w] by blast
  note old = safe_placed [OF w p]
  have member: "m \<in> set (md_migrations (wd_db w')) \<longleftrightarrow> m \<in> set (md_migrations (wd_db w))" if "mg_tenant_id m = t" for m
    using arg_cong [OF ms, of set] that by auto
  then have work: "working t (wd_db w') = working t (wd_db w)" by (auto simp: working_def)
  have fence: "row_get fe_tenant_id t (tg_fences (wd_targets w' key)) = row_get fe_tenant_id t (tg_fences (wd_targets w key))" for key
    by (rule tenant_partD(1) [OF part])
  then have opens: "open_fence t (wd_targets w' key) = open_fence t (wd_targets w key)" for key by (rule open_fence_cong)
  have rows: "tenant_rows d t (wd_targets w' key) = tenant_rows d t (wd_targets w key)" if "d \<in> set c" for d key
    by (rule tenant_partD(2) [OF part that])
  have orders: "ordered_rows d t (wd_targets w' key) = ordered_rows d t (wd_targets w key)" if "d \<in> set c" for d key
    by (rule ordered_rows_cong [OF rows [OF that]])
  have "safe c \<rho> t w'"
  proof (rule safeI [where p = p])
    show "one_copy t (wd_targets w') p" using old(1) by (simp add: one_copy_def opens)
    show "holds_data c t (wd_accepted w' t) (wd_targets w' (pl_current_target_key p))"
      using old(2) orders acc by (simp add: holds_data_def)
    show "stage_ok c t (wd_targets w') p m" if "m \<in> working t (wd_db w')" for m
      using old(3) that work ready_cong [of t "wd_targets w'" "wd_targets w" c m, OF opens orders] by (simp add: stage_ok_def)
    show "rows_ok c \<rho> t (wd_targets w' key)" for key using safe_rows [OF w, of key] rows fences by (simp add: rows_ok_def)
    show "mg_id m = mg_id m'" if "m \<in> working t (wd_db w')" "m' \<in> working t (wd_db w')" for m m'
      by (rule safe_alone [OF w]) (use that work in simp_all)
  qed (use p pl u in simp_all)
  moreover have "row_kept t (wd_db w) (wd_db w')"
    using safe_unique [OF w] u member by (auto simp: row_kept_def migration_by_id_def row_get_iff)
  ultimately show ?thesis using fence rows by (simp add: kept_def)
qed

lemma other_step_ok:
  assumes "other_step env \<rho> t w w'" "safe (me_catalog env) \<rho> t w" "catalog_wf (me_catalog env)"
  shows "safe (me_catalog env) \<rho> t w' \<and> kept (me_catalog env) t w w'"
  using assms(1)
proof (cases rule: other_step.cases)
  case elsewhere
  then show ?thesis by (intro elsewhere_ok [OF assms(2)])
next
  case (business p mode d db' rows)
  then show ?thesis by (intro business_ok [OF assms(2,3)])
next
  case (created actor c v plan now tnow nid r db')
  then show ?thesis using created_ok [OF assms(2)] kept_control by metis
next
  case (cancelled actor key snapshot now tnow r db')
  then show ?thesis using flags_ok [OF assms(2) cancel_flags] kept_control by metis
next
  case (finalized actor key snapshot now tnow r db')
  then show ?thesis using flags_ok [OF assms(2) finalize_flags] kept_control by metis
next
  case (repaired snapshot now tnow nid b db')
  then show ?thesis using flags_ok [OF assms(2) repair_flags] kept_control by metis
qed

lemma other_steps_ok:
  assumes "(other_step env \<rho> t)\<^sup>*\<^sup>* w w'" "safe (me_catalog env) \<rho> t w" "catalog_wf (me_catalog env)"
  shows "safe (me_catalog env) \<rho> t w' \<and> kept (me_catalog env) t w w'"
  using assms(1)
proof (induction rule: rtranclp_induct)
  case (step v v')
  then show ?case using other_step_ok [OF step.hyps(2) _ assms(3)] kept_trans by blast
qed (use assms(2) in simp)

end
