(* ===== verification/Migration_Transitions.thy ===== *)
theory Migration_Transitions
  imports Migration_Others
begin

text \<open>
  The transactions of the worker on the control database: each moves the migration it is about one
  state on, or changes flags only, and keeps the invariant.
\<close>

section \<open>The row a worker is at work on\<close>

definition same_migration :: "data_migration \<Rightarrow> data_migration \<Rightarrow> bool" where
  "same_migration m m' \<longleftrightarrow> mg_id m' = mg_id m \<and> plan_of m' = plan_of m"

lemma same_migration_refl [simp]: "same_migration m m" by (simp add: same_migration_def)

lemma same_migration_trans: "same_migration a b \<Longrightarrow> same_migration b c \<Longrightarrow> same_migration a c"
  by (simp add: same_migration_def)

lemma same_migration_tenant: "same_migration m m' \<Longrightarrow> mg_tenant_id m' = mg_tenant_id m"
  by (simp add: same_migration_def plan_of_eq)

text \<open>The row of the snapshot \<open>s\<close> has its plan and one of the states \<open>S\<close>.\<close>

definition row_at :: "data_migration \<Rightarrow> string set \<Rightarrow> world \<Rightarrow> bool" where
  "row_at s S w \<longleftrightarrow> (\<exists>m. migration_by_id (mg_id s) (wd_db w) = Some m \<and> plan_of m = plan_of s \<and> mg_state m \<in> S)"

lemma row_at_mono: "row_at s S w \<Longrightarrow> S \<subseteq> S' \<Longrightarrow> row_at s S' w"
  by (auto simp: row_at_def)

lemma row_at_same: "same_migration s s' \<Longrightarrow> row_at s' S w = row_at s S w"
  by (simp add: row_at_def same_migration_def)

lemma row_at_targets [simp]: "row_at s S (w\<lparr>wd_targets := ts\<rparr>) = row_at s S w"
  by (simp add: row_at_def)

lemma row_at_kept: "row_at s S w \<Longrightarrow> kept c (mg_tenant_id s) w w' \<Longrightarrow> row_at s S w'"
  unfolding row_at_def kept_def row_kept_def plan_of_eq by metis

lemma row_at_flags:
  assumes "row_at s S w" "flags_only (wd_db w) db'" "unique_key mg_id (md_migrations (wd_db w))"
  shows "row_at s S (w\<lparr>wd_db := db'\<rparr>)"
  using flags_row_kept [OF assms(2,3), of "mg_tenant_id s"] assms(1) unfolding row_at_def row_kept_def plan_of_eq by fastforce

lemma row_at_lock:
  assumes "row_at s S w" "same_control (wd_db w) db1" "lock_migration (mg_id s) db1 = Inr m"
  shows "migration_by_id (mg_id s) (wd_db w) = Some m" "mg_id m = mg_id s" "plan_of m = plan_of s" "mg_state m \<in> S"
    "same_migration s m"
proof -
  show a: "migration_by_id (mg_id s) (wd_db w) = Some m"
    using assms(2,3) by (simp add: same_control_lookup lock_migration_def split: option.splits)
  show b: "plan_of m = plan_of s" "mg_state m \<in> S" using assms(1) a by (auto simp: row_at_def)
  show c: "mg_id m = mg_id s" using a by (auto simp: migration_by_id_def dest: row_get_SomeD)
  show "same_migration s m" using b(1) c by (simp add: same_migration_def)
qed

lemma placement_lock:
  "same_control db db1 \<Longrightarrow> lock_placement t db1 = Inr p \<Longrightarrow> placement_of t db = Some p"
  by (simp add: same_control_lookup lock_placement_def split: option.splits)

lemma placement_put:
  assumes "placement_of t db = Some p" "pl_tenant_id p' = pl_tenant_id p"
  shows "placement_of t (save_placement p' db) = Some p'"
  using assms row_get_SomeD [OF assms(1) [unfolded placement_of_def]] by (simp add: placement_of_def row_get_row_put)

text \<open>One change of the row, with or without a change of the placement.\<close>

lemma put_ok:
  assumes w: "safe c \<rho> t w" and s: "mg_tenant_id s = t"
    and m: "migration_by_id (mg_id s) (wd_db w) = Some m" "same_migration s m" "same_migration s m'"
    and db': "md_migrations db' = row_put mg_id m' (md_migrations (wd_db w))"
    and p: "placement_of t (wd_db w) = Some p" "placement_of t db' = Some p'"
    and m': "\<not> terminal_migration m' \<Longrightarrow> \<not> terminal_migration m \<and> stage_ok c t (wd_targets w) p' m'"
    and moved: "same_spot p p' \<or> \<not> terminal_migration m \<and> one_copy t (wd_targets w) p' \<and>
      holds_data c t (wd_accepted w t) (wd_targets w (pl_current_target_key p'))"
  shows "safe c \<rho> t (w\<lparr>wd_db := db'\<rparr>) \<and> row_at s {mg_state m'} (w\<lparr>wd_db := db'\<rparr>)"
proof
  have id: "mg_id m' = mg_id s" "mg_tenant_id m = t" "plan_of m' = plan_of s"
    using m(2,3) s same_migration_tenant [OF m(2)] by (auto simp: same_migration_def)
  show "safe c \<rho> t (w\<lparr>wd_db := db'\<rparr>)"
    by (rule safe_row_put [OF w _ id(2) db' p m' moved]) (use m(1) id(1) in simp)
  show "row_at s {mg_state m'} (w\<lparr>wd_db := db'\<rparr>)"
    using m(1) db' id by (simp add: row_at_def migration_by_id_def row_get_row_put)
qed

text \<open>A working row is the row of the placement.\<close>

lemma current_stage:
  assumes "safe c \<rho> t w" "migration_by_id i (wd_db w) = Some m" "mg_tenant_id m = t" "\<not> terminal_migration m"
    "placement_of t (wd_db w) = Some p"
  shows "m \<in> working t (wd_db w)" "stage_ok c t (wd_targets w) p m"
proof -
  show "m \<in> working t (wd_db w)"
    using assms(2-4) by (auto simp: working_def migration_by_id_def dest: row_get_SomeD)
  then show "stage_ok c t (wd_targets w) p m" by (rule safe_placed(3) [OF assms(1,5)])
qed

lemmas state_defs = terminal_migration_def can_cancel_def before_cutover_def after_cutover_def

lemma stage_move:
  assumes "stage_ok c t ts p m" "plan_of m' = plan_of m" "same_spot p p'"
    "before_cutover m \<and> before_cutover m' \<and> mg_state m' \<noteq> mg_CUTTING_OVER \<or> after_cutover m \<and> after_cutover m'"
  shows "stage_ok c t ts p' m'"
proof -
  have st: "stage_ok c t ts p' m" using assms(1,3) by (simp add: same_spot_cong)
  have "same_source p' m' = same_source p' m" "same_target p' m' = same_target p' m"
      "mg_source_target_key m' = mg_source_target_key m" "mg_target_key m' = mg_target_key m"
    using assms(2) by (simp_all add: plan_of_eq same_source_def same_target_def)
  then show ?thesis using st assms(4) by (auto simp: stage_ok_def state_defs)
qed

section \<open>Transactions that change flags only\<close>

lemma save_flags:
  assumes "same_control db db1" "lock_migration i db1 = Inr m" "mg_id m' = mg_id m" "plan_of m' = plan_of m"
    "mg_state m' = mg_state m"
  shows "flags_only db (save_migration m' db1)"
  by (rule same_control_flags_only [OF assms(1)]) (rule flags_put [OF assms(2-5)])

lemma assert_worker_flags:
  assumes "assert_worker_can_run_txn s st now tnow db = Inr (u, db')"
  shows "same_control db db'"
  using assms lease_same_control(2) by (auto simp: assert_worker_can_run_txn_def bind_result_eq_Inr split: if_splits)

lemma reacquire_flags:
  assumes "reacquire_execution_lease_txn env s now tnow db = Inr (m, db')"
  shows "same_control db db' \<and> lock_migration (mg_id s) db' = Inr m"
  using assms lease_same_control(2) by (auto simp: reacquire_execution_lease_txn_def bind_result_eq_Inr split: if_splits)

lemma assert_recovery_flags:
  assumes "assert_recovery_can_run_txn s intent now tnow db = Inr (m, db')"
  shows "same_control db db'"
  using assms lease_same_control(2) by (auto simp: assert_recovery_can_run_txn_def bind_result_eq_Inr)

lemma copy_progress_flags:
  assumes "copy_progress_txn m i cursor n dig now tnow db = Inr (x, db')"
  shows "same_control db db'"
proof -
  obtain db1 where "renew_operation_lease m now tnow db = Inr db1" "same_control db1 db'"
    using assms item_same_control(1)
    by (auto simp: copy_progress_txn_def bind_result_eq_Inr split: if_splits)
  then show ?thesis using lease_same_control(3) same_control_trans by blast
qed

lemma cleanup_batch_flags:
  assumes "cleanup_batch_txn s intent i n now tnow db = Inr (x, db')"
  shows "same_control db db'"
proof -
  obtain db1 where "acquire_or_renew_operation_lease s now tnow db = Inr db1" "same_control db1 db'"
    using assms item_same_control(1)
    by (auto simp: cleanup_batch_txn_def bind_result_eq_Inr split: if_splits option.splits)
  then show ?thesis using lease_same_control(2) same_control_trans by blast
qed

lemma checkpoint_flags:
  assumes "cleanup_checkpoint_txn s intent now tnow db = Inr (u, db')"
  shows "flags_only db db'"
proof -
  obtain db1 m where 1: "acquire_or_renew_operation_lease s now tnow db = Inr db1" "lock_migration (mg_id s) db1 = Inr m"
      "db' = (if mg_cleanup_ready_at m = None
       then save_migration (m\<lparr>mg_cleanup_ready_at := Some now, mg_updated_at := now\<rparr>) db1 else db1)"
    using assms by (auto simp: cleanup_checkpoint_txn_def bind_result_eq_Inr)
  note s1 = lease_same_control(2) [OF 1(1)]
  show ?thesis
    using same_control_flags [OF s1] save_flags [OF s1 1(2), of "m\<lparr>mg_cleanup_ready_at := Some now, mg_updated_at := now\<rparr>"]
    by (simp add: 1(3) plan_of_eq)
qed

lemma compensation_cases:
  assumes "compensation_intent_txn s code now tnow db = Inr (r, db')"
  obtains "r = None" "db' = db"
  | db1 m where "acquire_or_renew_operation_lease s now tnow db = Inr db1" "lock_migration (mg_id s) db1 = Inr m"
      "can_cancel m" "r = Some (m\<lparr>mg_error_code := Some (take 64 code), mg_error_detail := None, mg_updated_at := now\<rparr>)"
      "db' = save_migration (m\<lparr>mg_error_code := Some (take 64 code), mg_error_detail := None, mg_updated_at := now\<rparr>) db1"
  | db1 m where "acquire_or_renew_operation_lease s now tnow db = Inr db1" "lock_migration (mg_id s) db1 = Inr m"
      "can_cancel m" "r = Some m" "db' = db1"
proof -
  obtain db1 m where 1: "acquire_or_renew_operation_lease s now tnow db = Inr db1" "lock_migration (mg_id s) db1 = Inr m"
      "(if mg_cancel_idempotency_key_hash m \<noteq> None then Inl (TenantOperationConflict msg_td_user_cancel)
        else if \<not> can_cancel m then Inr (None, db)
        else let m' = (if mg_error_code m = None
                 then m\<lparr>mg_error_code := Some (take 64 code), mg_error_detail := None, mg_updated_at := now\<rparr>
                 else m)
             in Inr (Some m', if mg_error_code m = None then save_migration m' db1 else db1)) = Inr (r, db')"
    using assms unfolding compensation_intent_txn_def bind_result_eq_Inr by blast
  show ?thesis
  proof (cases "can_cancel m")
    case False
    then show ?thesis using 1(3) that(1) by (simp split: if_splits)
  next
    case can: True
    show ?thesis
    proof (cases "mg_error_code m = None")
      case True
      then show ?thesis using 1(3) can that(2) [OF 1(1,2) can] by (simp add: Let_def split: if_splits)
    next
      case False
      then show ?thesis using 1(3) can that(3) [OF 1(1,2) can] by (simp split: if_splits)
    qed
  qed
qed

lemma compensation_ok:
  assumes "compensation_intent_txn s code now tnow db = Inr (r, db')"
  shows "flags_only db db' \<and>
    (\<forall>m'. r = Some m' \<longrightarrow> (\<exists>m. lock_migration (mg_id s) db = Inr m \<and> same_migration m m' \<and> mg_state m' = mg_state m \<and>
      can_cancel m))"
  using assms
proof (cases rule: compensation_cases)
  case 1
  then show ?thesis by (simp add: flags_only_def)
next
  case (2 db1 m)
  note s1 = lease_same_control(2) [OF 2(1)]
  show ?thesis
    using save_flags [OF s1 2(2), of "m\<lparr>mg_error_code := Some (take 64 code), mg_error_detail := None, mg_updated_at := now\<rparr>"]
      lock_same_control [OF s1 2(2)] 2(3-5)
    by (simp add: plan_of_eq same_migration_def)
next
  case (3 db1 m)
  note s1 = lease_same_control(2) [OF 3(1)]
  show ?thesis using same_control_flags [OF s1] lock_same_control [OF s1 3(2)] 3(3-5) by simp
qed

section \<open>Transactions that move the migration\<close>

lemma set_state_ok:
  assumes w: "safe c \<rho> t w" and s: "mg_tenant_id s = t" "row_at s {mg_state s} w"
    and db': "set_state_txn s st upd now tnow (wd_db w) = Inr (m', db')"
    and upd: "\<And>x now. mg_id (upd x now) = mg_id x \<and> plan_of (upd x now) = plan_of x \<and> mg_state (upd x now) = mg_state x"
    and st: "can_cancel s" "s' = s\<lparr>mg_state := st\<rparr>"
      "can_cancel s' \<or> st = mg_CUTTING_OVER \<and> ready c t (wd_targets w) s"
  shows "safe c \<rho> t (w\<lparr>wd_db := db'\<rparr>) \<and> row_at s {st} (w\<lparr>wd_db := db'\<rparr>) \<and> same_migration s m' \<and> mg_state m' = st"
proof -
  obtain db1 m where 1: "renew_operation_lease s now tnow (wd_db w) = Inr db1" "lock_migration (mg_id s) db1 = Inr m"
    using db' by (auto simp: set_state_txn_def bind_result_eq_Inr)
  note s1 = lease_same_control(3) [OF 1(1)]
  note m = row_at_lock [OF s(2) s1 1(2)]
  have state: "mg_state m = mg_state s" using m(4) by simp
  show ?thesis
  proof (cases "mg_state m = st")
    case True
    then have "m' = m" "db' = db1" using db' 1 by (auto simp: set_state_txn_def bind_result_eq_Inr split: if_splits)
    then show ?thesis
      using w s(2) s1 True m(5) state row_at_flags [OF s(2) same_control_flags [OF s1] safe_unique [OF w]]
      by (simp add: safe_same_control)
  next
    case False
    let ?n = "upd (m\<lparr>mg_state := st, mg_updated_at := now\<rparr>) now"
    have n: "m' = ?n" "db' = save_migration ?n db1"
      using db' 1 False by (auto simp: set_state_txn_def bind_result_eq_Inr Let_def split: if_splits)
    have nn: "mg_id ?n = mg_id m" "plan_of ?n = plan_of m" "mg_state ?n = st" using upd by (simp_all add: plan_of_eq)
    have same: "same_migration s ?n" using nn m(2,3) by (simp add: same_migration_def)
    obtain p where p: "placement_of t (wd_db w) = Some p" using safe_has_placement [OF w] by blast
    have live: "\<not> terminal_migration m" using st(1) state by (auto simp: state_defs)
    have mt: "mg_tenant_id m = t" using m(3) s(1) by (simp add: plan_of_eq)
    note stg = current_stage [OF w m(1) mt live p]
    have stage: "stage_ok c t (wd_targets w) p ?n"
    proof (cases "st = mg_CUTTING_OVER")
      case False
      then have "can_cancel s'" using st(3) by simp
      then show ?thesis
        by (intro stage_move [OF stg(2) nn(2)]) (use st(1,2) state nn(3) False in \<open>simp_all add: state_defs\<close>)
    next
      case True
      then have "ready c t (wd_targets w) s" using st(2,3) by (auto simp: state_defs)
      then have "ready c t (wd_targets w) ?n" using nn(2) m(3) by (simp add: ready_def plan_of_eq)
      moreover have "same_source p ?n" "mg_source_target_key ?n \<noteq> mg_target_key ?n"
        using stg(2) st(1) state nn(2) by (auto simp: stage_ok_def state_defs same_source_def plan_of_eq)
      ultimately show ?thesis using True nn(3) by (simp add: stage_ok_def before_cutover_def)
    qed
    have "safe c \<rho> t (w\<lparr>wd_db := db'\<rparr>) \<and> row_at s {mg_state ?n} (w\<lparr>wd_db := db'\<rparr>)"
    proof (rule put_ok [OF w s(1) m(1,5) same _ p])
      show "md_migrations db' = row_put mg_id ?n (md_migrations (wd_db w))" using s1 by (simp add: n(2) same_control_def)
      show "placement_of t db' = Some p" using p s1 by (simp add: n(2) placement_of_def same_control_def)
    qed (use live stage in simp_all)
    then show ?thesis using same nn(3) n(1) by simp
  qed
qed

text \<open>What a transaction finds once it has its locks.\<close>

lemma move_ok:
  assumes w: "safe c \<rho> t w" and s: "mg_tenant_id s = t" "row_at s S w"
    and sc: "same_control (wd_db w) db2" and m: "lock_migration (mg_id s) db2 = Inr m"
    and m': "mg_id m' = mg_id m" "plan_of m' = plan_of m"
    and ms: "md_migrations db' = row_put mg_id m' (md_migrations db2)"
    and p: "placement_of t (wd_db w) = Some p" "placement_of t db' = Some p'"
    and live: "\<not> terminal_migration m"
    and stage: "\<not> terminal_migration m' \<Longrightarrow> stage_ok c t (wd_targets w) p' m'"
    and moved: "same_spot p p' \<or> one_copy t (wd_targets w) p' \<and>
      holds_data c t (wd_accepted w t) (wd_targets w (pl_current_target_key p'))"
  shows "safe c \<rho> t (w\<lparr>wd_db := db'\<rparr>) \<and> row_at s {mg_state m'} (w\<lparr>wd_db := db'\<rparr>) \<and> same_migration s m'"
proof -
  note r = row_at_lock [OF s(2) sc m]
  have same: "same_migration s m'" using r(2,3) m' by (simp add: same_migration_def)
  show ?thesis
    using put_ok [OF w s(1) r(1,5) same _ p] ms sc live stage moved same by (simp add: same_control_def)
qed

lemma restore_row:
  assumes "lock_migration i db = Inr m" "unique_key mg_id (md_migrations db)"
  shows "row_put mg_id m (md_migrations db) = md_migrations db"
proof -
  have "row_get mg_id (mg_id m) (md_migrations db) = Some m"
    using assms(1) by (auto simp: lock_migration_def migration_by_id_def dest: row_get_SomeD split: option.splits)
  then have "(if mg_id x = mg_id m then m else x) = x" if "x \<in> set (md_migrations db)" for x
    using that row_get_iff [OF assms(2), of "mg_id m" x] by auto
  then show ?thesis by (simp add: row_put_def update_where_def map_idI)
qed

lemma enter_maintenance_ok:
  assumes w: "safe c \<rho> t w" and s: "mg_tenant_id s = t" "row_at s {mg_QUEUED} w"
    and db': "enter_maintenance_txn s now tnow clock (wd_db w) = Inr (m', db')"
  shows "safe c \<rho> t (w\<lparr>wd_db := db'\<rparr>) \<and> row_at s {mg_state m'} (w\<lparr>wd_db := db'\<rparr>) \<and> same_migration s m'"
proof -
  obtain db1 x db2 p m where 1: "acquire_or_renew_operation_lease s now tnow (wd_db w) = Inr db1"
      "lock_tenant_of (mg_tenant_id s) (Some (mg_switch_token s)) tnow db1 = Inr (x, db2)"
      "lock_placement (mg_tenant_id s) db2 = Inr p" "lock_migration (mg_id s) db2 = Inr m"
    using db' by (auto simp: enter_maintenance_txn_def bind_result_eq_Inr)
  have s2: "same_control (wd_db w) db2" using lease_same_control(2) [OF 1(1)] lease_same_control(5) [OF 1(2)] same_control_trans by blast
  note m = row_at_lock [OF s(2) s2 1(4)]
  have queued: "mg_state m = mg_QUEUED" using m(4) by simp
  let ?n = "m\<lparr>mg_state := mg_QUIESCING, mg_quiesced_at := or_now (mg_quiesced_at m) now, mg_updated_at := now\<rparr>"
  obtain db3 where 3: "(if pl_state p = pl_ACTIVE
        then increment_runtime_epoch (mg_tenant_id m) clock
               (save_placement (p\<lparr>pl_state := pl_MAINTENANCE, pl_updated_at := now\<rparr>) db2)
        else if pl_state p \<noteq> pl_MAINTENANCE then Inl (TenantOperationConflict msg_td_no_maintenance)
        else Inr db2) = Inr db3" "m' = ?n" "db' = save_migration ?n db3"
    using db' 1 queued by (auto simp: enter_maintenance_txn_def bind_result_eq_Inr Let_def split: if_splits)
  have p: "placement_of t (wd_db w) = Some p" "placement_of t db2 = Some p"
    using placement_lock [OF s2] 1(3) s(1) same_control_lookup(1) [OF s2] by auto
  have d3: "md_migrations db3 = md_migrations db2 \<and> (\<exists>p'. same_spot p p' \<and> placement_of t db3 = Some p')"
  proof (cases "pl_state p = pl_ACTIVE")
    case True
    let ?p = "p\<lparr>pl_state := pl_MAINTENANCE, pl_updated_at := now\<rparr>"
    have "same_control (save_placement ?p db2) db3" using 3(1) True lease_same_control(6) by simp
    then show ?thesis
      using placement_put [OF p(2), of ?p] same_control_lookup(1)
      by (intro conjI exI [of _ ?p]) (simp_all add: same_control_def same_spot_def placement_of_def)
  next
    case False
    then have "db3 = db2" using 3(1) by (simp split: if_splits)
    then show ?thesis using p(2) by (intro conjI exI [of _ p]) simp_all
  qed
  then obtain p' where p': "same_spot p p'" "placement_of t db3 = Some p'" by blast
  have live: "\<not> terminal_migration m" using queued by (simp add: state_defs)
  have mt: "mg_tenant_id m = t" using m(3) s(1) by (simp add: plan_of_eq)
  have pn: "plan_of ?n = plan_of m" by (simp add: plan_of_eq)
  have "stage_ok c t (wd_targets w) p' ?n"
    by (rule stage_move [OF current_stage(2) [OF w m(1) mt live p(1)] pn p'(1)]) (use queued in \<open>simp add: state_defs\<close>)
  then show ?thesis unfolding 3(2)
    by (intro move_ok [where p' = p', OF w s s2 1(4) _ pn _ p(1) _ live])
      (use d3 p' in \<open>simp_all add: 3(3) placement_of_def\<close>)
qed

text \<open>The stages after the copy: none of them looks at a placement other than the one of the plan.\<close>

lemma locked_row:
  assumes w: "safe c \<rho> t w" and s: "mg_tenant_id s = t" "row_at s S w"
    and sc: "same_control (wd_db w) db2" and l: "lock_placement t db2 = Inr p" "lock_migration (mg_id s) db2 = Inr m"
  shows "placement_of t (wd_db w) = Some p" "placement_of t db2 = Some p" "mg_tenant_id m = t" "mg_state m \<in> S"
    "\<not> terminal_migration m \<Longrightarrow> stage_ok c t (wd_targets w) p m"
proof -
  note m = row_at_lock [OF s(2) sc l(2)]
  show p: "placement_of t (wd_db w) = Some p" by (rule placement_lock [OF sc l(1)])
  then show "placement_of t db2 = Some p" using same_control_lookup(1) [OF sc] by simp
  show mt: "mg_tenant_id m = t" using m(3) s(1) by (simp add: plan_of_eq)
  show "mg_state m \<in> S" by (rule m(4))
  show "stage_ok c t (wd_targets w) p m" if "\<not> terminal_migration m" by (rule current_stage(2) [OF w m(1) mt that p])
qed

text \<open>The row and the placement move together, with the epoch in between.\<close>

lemma moved_db:
  assumes "placement_of t db2 = Some p" "pl_tenant_id p' = pl_tenant_id p"
    "increment_runtime_epoch tn clock (save_placement p' db2) = Inr db3 \<or> db3 = save_placement p' db2"
  shows "md_migrations (save_migration n db3) = row_put mg_id n (md_migrations db2)"
    "placement_of t (save_migration n db3) = Some p'"
proof -
  have s: "same_control (save_placement p' db2) db3"
    using assms(3) lease_same_control(6) by (auto simp: same_control_def)
  show "md_migrations (save_migration n db3) = row_put mg_id n (md_migrations db2)" using s by (simp add: same_control_def)
  show "placement_of t (save_migration n db3) = Some p'"
    using placement_put [OF assms(1,2)] s by (simp add: same_control_def placement_of_def)
qed

lemma cut_over_ok:
  assumes w: "safe c \<rho> t w" and s: "mg_tenant_id s = t" "row_at s {mg_CUTTING_OVER} w"
    and db': "cut_over_txn s now tnow clock (wd_db w) = Inr (m', db')"
  shows "safe c \<rho> t (w\<lparr>wd_db := db'\<rparr>) \<and> row_at s {mg_state m'} (w\<lparr>wd_db := db'\<rparr>) \<and> same_migration s m'"
proof -
  obtain db1 x db2 p m where 1: "renew_operation_lease s now tnow (wd_db w) = Inr db1"
      "lock_tenant_of (mg_tenant_id s) (Some (mg_switch_token s)) tnow db1 = Inr (x, db2)"
      "lock_placement t db2 = Inr p" "lock_migration (mg_id s) db2 = Inr m"
    using db' s(1) by (auto simp: cut_over_txn_def bind_result_eq_Inr)
  have s2: "same_control (wd_db w) db2" using lease_same_control(3) [OF 1(1)] lease_same_control(5) [OF 1(2)] same_control_trans by blast
  note m = locked_row [OF w s s2 1(3,4)]
  have state: "mg_state m = mg_CUTTING_OVER" using m(4) by simp
  let ?p = "p\<lparr>pl_current_target_key := mg_target_key m, pl_placement_generation := mg_target_generation m,
                  pl_switch_token := mg_switch_token m, pl_updated_at := now\<rparr>"
  let ?n = "m\<lparr>mg_state := mg_ACTIVATING, mg_cut_over_at := or_now (mg_cut_over_at m) now, mg_updated_at := now\<rparr>"
  obtain db3 where 3: "increment_runtime_epoch (mg_tenant_id m) clock (save_placement ?p db2) = Inr db3"
      "m' = ?n" "db' = save_migration ?n db3"
    using db' 1 state s(1) by (auto simp: cut_over_txn_def bind_result_eq_Inr Let_def split: if_splits)
  have new: "md_migrations db' = row_put mg_id ?n (md_migrations db2)" "placement_of t db' = Some ?p"
    using moved_db [OF m(2) _ disjI1 [OF 3(1)], of ?n] by (simp_all add: 3(3))
  have live: "\<not> terminal_migration m" using state by (simp add: state_defs)
  have st: "ready c t (wd_targets w) m" "same_source p m" "mg_source_target_key m \<noteq> mg_target_key m"
    using m(5) [OF live] state by (auto simp: stage_ok_def state_defs)
  have "one_copy t (wd_targets w) ?p" using st(1) by (simp add: one_copy_def ready_def)
  moreover have "holds_data c t (wd_accepted w t) (wd_targets w (mg_target_key m))"
    using st(1,2) safe_placed(2) [OF w m(1)] by (auto simp: holds_data_def ready_def same_source_def)
  moreover have "stage_ok c t (wd_targets w) ?p ?n" using st(3) by (simp add: stage_ok_def state_defs same_target_def)
  ultimately show ?thesis unfolding 3(2)
    by (intro move_ok [where p' = ?p, OF w s s2 1(4) _ _ new(1) m(1) new(2) live]) (simp_all add: plan_of_eq)
qed

lemma activate_control_ok:
  assumes w: "safe c \<rho> t w" and s: "mg_tenant_id s = t" "row_at s {mg_ACTIVATING} w"
    and db': "activate_control_txn s now tnow clock (wd_db w) = Inr (m', db')"
  shows "safe c \<rho> t (w\<lparr>wd_db := db'\<rparr>) \<and> row_at s {mg_state m'} (w\<lparr>wd_db := db'\<rparr>) \<and> same_migration s m'"
proof -
  obtain db1 x db2 p m where 1: "renew_operation_lease s now tnow (wd_db w) = Inr db1"
      "lock_tenant_of (mg_tenant_id s) (Some (mg_switch_token s)) tnow db1 = Inr (x, db2)"
      "lock_placement t db2 = Inr p" "lock_migration (mg_id s) db2 = Inr m"
    using db' s(1) by (auto simp: activate_control_txn_def bind_result_eq_Inr)
  have s2: "same_control (wd_db w) db2" using lease_same_control(3) [OF 1(1)] lease_same_control(5) [OF 1(2)] same_control_trans by blast
  note m = locked_row [OF w s s2 1(3,4)]
  have state: "mg_state m = mg_ACTIVATING" using m(4) by simp
  let ?p = "p\<lparr>pl_state := pl_ACTIVE, pl_updated_at := now\<rparr>"
  let ?n = "m\<lparr>mg_state := mg_SUCCEEDED, mg_activated_at := or_now (mg_activated_at m) now,
                  mg_succeeded_at := or_now (mg_succeeded_at m) now, mg_updated_at := now\<rparr>"
  obtain db3 where 3: "(if pl_state p \<noteq> pl_ACTIVE then increment_runtime_epoch (mg_tenant_id m) clock (save_placement ?p db2)
         else Inr (save_placement ?p db2)) = Inr db3" "m' = ?n" "db' = save_migration ?n db3"
    using db' 1 state s(1) by (auto simp: activate_control_txn_def bind_result_eq_Inr Let_def split: if_splits)
  have db3: "increment_runtime_epoch (mg_tenant_id m) clock (save_placement ?p db2) = Inr db3 \<or> db3 = save_placement ?p db2"
    using 3(1) by (simp split: if_splits)
  have new: "md_migrations db' = row_put mg_id ?n (md_migrations db2)" "placement_of t db' = Some ?p"
    using moved_db [OF m(2) _ db3, of ?n] by (simp_all add: 3(3))
  have live: "\<not> terminal_migration m" using state by (simp add: state_defs)
  have spot: "same_spot p ?p" and pn: "plan_of ?n = plan_of m" by (simp_all add: same_spot_def plan_of_eq)
  have "stage_ok c t (wd_targets w) ?p ?n"
    by (rule stage_move [OF m(5) [OF live] pn spot]) (use state in \<open>simp add: state_defs\<close>)
  then show ?thesis unfolding 3(2)
    by (intro move_ok [where p' = ?p, OF w s s2 1(4) _ pn new(1) m(1) new(2) live]) (simp_all add: spot)
qed

lemma enter_retention_ok:
  assumes w: "safe c \<rho> t w" and s: "mg_tenant_id s = t" "row_at s {mg_SUCCEEDED} w"
    and db': "enter_retention_txn s now tnow (wd_db w) = Inr (m', db')"
  shows "safe c \<rho> t (w\<lparr>wd_db := db'\<rparr>) \<and> row_at s {mg_state m'} (w\<lparr>wd_db := db'\<rparr>) \<and> same_migration s m'"
proof -
  obtain db1 m where 1: "renew_operation_lease s now tnow (wd_db w) = Inr db1" "lock_migration (mg_id s) db1 = Inr m"
    using db' by (auto simp: enter_retention_txn_def bind_result_eq_Inr)
  note s1 = lease_same_control(3) [OF 1(1)]
  obtain p where p0: "placement_of t (wd_db w) = Some p" using safe_has_placement [OF w] by blast
  then have "lock_placement t db1 = Inr p" using same_control_lookup(4) [OF s1] by (simp add: lock_placement_def)
  note m = locked_row [OF w s s1 this 1(2)]
  have state: "mg_state m = mg_SUCCEEDED" using m(4) by simp
  let ?n = "m\<lparr>mg_state := mg_RETENTION_PENDING,
                  mg_retention_until := Some ((case mg_succeeded_at m of Some t \<Rightarrow> t | None \<Rightarrow> now) +
                    hours (mg_retention_hours m)), mg_updated_at := now\<rparr>"
  have 3: "release_operation_lease ?n tnow (save_migration ?n db1) = Inr db'" "m' = ?n"
    using db' 1 state by (auto simp: enter_retention_txn_def bind_result_eq_Inr Let_def)
  note s3 = lease_same_control(4) [OF 3(1)]
  have new: "md_migrations db' = row_put mg_id ?n (md_migrations db1)" "placement_of t db' = Some p"
    using s3 m(2) by (simp_all add: same_control_def placement_of_def)
  have live: "\<not> terminal_migration m" using state by (simp add: state_defs)
  have pn: "plan_of ?n = plan_of m" by (simp add: plan_of_eq)
  have "stage_ok c t (wd_targets w) p ?n"
    by (rule stage_move [OF m(5) [OF live] pn same_spot_refl]) (use state in \<open>simp add: state_defs\<close>)
  then show ?thesis unfolding 3(2)
    by (intro move_ok [where p' = p, OF w s s1 1(2) _ pn new(1) m(1) new(2) live]) simp_all
qed

section \<open>Transactions of the recovery\<close>

lemma intent_states:
  "validate_recovery_intent m intent = Inr () \<Longrightarrow> \<not> terminal_migration m \<and> (intent \<noteq> Finalize \<longrightarrow> can_cancel m)"
  by (cases intent) (auto simp: validate_recovery_intent_def state_defs split: if_splits)

lemma restore_source_ok:
  assumes w: "safe c \<rho> t w" and s: "mg_tenant_id s = t" "row_at s S w"
    and db': "restore_source_placement_txn s intent now tnow clock (wd_db w) = Inr (m', db')"
  shows "safe c \<rho> t (w\<lparr>wd_db := db'\<rparr>) \<and> row_at s {mg_state m'} (w\<lparr>wd_db := db'\<rparr>) \<and> same_migration s m' \<and>
    (intent \<noteq> Finalize \<longrightarrow> can_cancel m')"
proof -
  obtain db1 x db2 p m where 1: "acquire_or_renew_operation_lease s now tnow (wd_db w) = Inr db1"
      "lock_tenant_of (mg_tenant_id s) (Some (mg_switch_token s)) tnow db1 = Inr (x, db2)"
      "lock_placement t db2 = Inr p" "lock_migration (mg_id s) db2 = Inr m"
      "validate_recovery_intent m intent = Inr ()"
    using db' s(1) by (auto simp: restore_source_placement_txn_def bind_result_eq_Inr)
  have s2: "same_control (wd_db w) db2" using lease_same_control(2) [OF 1(1)] lease_same_control(5) [OF 1(2)] same_control_trans by blast
  note m = locked_row [OF w s s2 1(3,4)]
  let ?p = "p\<lparr>pl_state := pl_ACTIVE, pl_updated_at := now\<rparr>"
  have live: "\<not> terminal_migration m" "intent \<noteq> Finalize \<longrightarrow> can_cancel m" using intent_states [OF 1(5)] by auto
  have uniq: "unique_key mg_id (md_migrations db2)" using safe_unique [OF w] s2 by (simp add: same_control_def)
  have 3: "m' = m" "increment_runtime_epoch (mg_tenant_id m) clock (save_placement ?p db2) = Inr db' \<or> db' = db2"
    using db' 1 s(1) by (auto simp: restore_source_placement_txn_def bind_result_eq_Inr split: if_splits)
  obtain p' where p': "same_spot p p'" "placement_of t db' = Some p'" "md_migrations db' = md_migrations db2"
    using 3(2)
  proof
    assume e: "increment_runtime_epoch (mg_tenant_id m) clock (save_placement ?p db2) = Inr db'"
    have "placement_of t (save_placement ?p db2) = Some ?p" by (rule placement_put [OF m(2)]) simp
    then show ?thesis using lease_same_control(6) [OF e] that [of ?p]
      by (simp add: same_control_def same_spot_def placement_of_def)
  qed (use m(2) that [of p] in simp)
  have new: "md_migrations db' = row_put mg_id m (md_migrations db2)" using p'(3) restore_row [OF 1(4) uniq] by simp
  have "stage_ok c t (wd_targets w) p' m" using m(5) [OF live(1)] p'(1) by (simp add: same_spot_cong)
  then show ?thesis unfolding 3(1)
    using move_ok [where p' = p' and m' = m, OF w s s2 1(4) refl refl new m(1) p'(2) live(1)] p'(1) live(2) by simp
qed

lemma close_recovery_ok:
  assumes w: "safe c \<rho> t w" and s: "mg_tenant_id s = t" "row_at s S w"
    and db': "close_recovery intent placed stale stamp s now tnow (wd_db w) = Inr (m', db')"
    and stamp: "\<And>m. mg_id (stamp m now) = mg_id m" "\<And>m. plan_of (stamp m now) = plan_of m"
      "\<And>m. terminal_migration (stamp m now)"
  shows "safe c \<rho> t (w\<lparr>wd_db := db'\<rparr>) \<and> row_at s {mg_state m'} (w\<lparr>wd_db := db'\<rparr>) \<and> same_migration s m'"
proof -
  obtain db1 p m where 1: "acquire_or_renew_operation_lease s now tnow (wd_db w) = Inr db1"
      "lock_placement t db1 = Inr p" "lock_migration (mg_id s) db1 = Inr m"
      "validate_recovery_intent m intent = Inr ()" "m' = stamp m now"
      "release_operation_lease m' tnow (save_migration m' db1) = Inr db'"
    using db' s(1) by (auto simp: close_recovery_def bind_result_eq_Inr Let_def split: if_splits)
  note s1 = lease_same_control(2) [OF 1(1)] and s3 = lease_same_control(4) [OF 1(6)]
  note m = locked_row [OF w s s1 1(2,3)]
  have live: "\<not> terminal_migration m" using intent_states [OF 1(4)] by blast
  have new: "md_migrations db' = row_put mg_id m' (md_migrations db1)" "placement_of t db' = Some p"
    using s3 m(2) by (simp_all add: same_control_def placement_of_def)
  show ?thesis
    by (rule move_ok [where p' = p, OF w s s1 1(3) _ _ new(1) m(1) new(2) live]) (simp_all add: 1(5) stamp)
qed

lemma close_ok:
  assumes "safe c \<rho> t w" "mg_tenant_id s = t" "row_at s S w"
    "close_cancel_txn s now tnow (wd_db w) = Inr (m', db') \<or> close_failure_txn s now tnow (wd_db w) = Inr (m', db') \<or>
     close_finalize_txn s now tnow (wd_db w) = Inr (m', db')"
  shows "safe c \<rho> t (w\<lparr>wd_db := db'\<rparr>) \<and> row_at s {mg_state m'} (w\<lparr>wd_db := db'\<rparr>) \<and> same_migration s m'"
  using assms(4)
proof (elim disjE)
  assume "close_cancel_txn s now tnow (wd_db w) = Inr (m', db')"
  then show ?thesis unfolding close_cancel_txn_def
    by (rule close_recovery_ok [OF assms(1-3)]) (simp_all add: plan_of_eq state_defs)
next
  assume "close_failure_txn s now tnow (wd_db w) = Inr (m', db')"
  then show ?thesis unfolding close_failure_txn_def
    by (rule close_recovery_ok [OF assms(1-3)]) (simp_all add: plan_of_eq state_defs)
next
  assume "close_finalize_txn s now tnow (wd_db w) = Inr (m', db')"
  then show ?thesis unfolding close_finalize_txn_def
    by (rule close_recovery_ok [OF assms(1-3)]) (simp_all add: plan_of_eq state_defs)
qed

end
