(* ===== verification/Migration_Targets.thy ===== *)
theory Migration_Targets
  imports Migration_Transitions
begin

text \<open>
  The calls of a worker on the targets: which of them can open a copy, which can change rows, and
  that at the stage where the worker makes them all keep the invariant.
\<close>

section \<open>What a call does to the tenant on one target\<close>

definition only_closes :: "string \<Rightarrow> target_db \<Rightarrow> target_db \<Rightarrow> bool" where
  "only_closes t db db' \<longleftrightarrow> (unique_key fe_tenant_id (tg_fences db) \<longrightarrow> unique_key fe_tenant_id (tg_fences db') \<and>
     (\<forall>f. open_fence t db' = Some f \<longrightarrow> open_fence t db = Some f))"

definition same_rows :: "target_db \<Rightarrow> target_db \<Rightarrow> bool" where
  "same_rows db db' \<longleftrightarrow> tg_rows db' = tg_rows db"

lemma only_closes_refl [simp]: "only_closes t db db" by (simp add: only_closes_def)

lemma only_closes_fences: "tg_fences db' = tg_fences db \<Longrightarrow> only_closes t db db'"
  by (simp add: only_closes_def open_fence_def)

lemma same_rows_tenant: "same_rows db db' \<Longrightarrow> tenant_rows d t db' = tenant_rows d t db"
  by (simp add: same_rows_def tenant_rows_def)

lemma unique_filter_get:
  "unique_key key rows \<Longrightarrow> row_get key k (filter P rows) = Some r \<Longrightarrow> row_get key k rows = Some r"
  by (simp add: row_get_iff unique_key_filter)

lemma filtered_fences:
  assumes "tg_fences db' = filter P (tg_fences db)"
  shows "only_closes t db db'"
  using unique_filter_get [of fe_tenant_id "tg_fences db" t P]
  by (auto simp: only_closes_def open_fence_def assms unique_key_filter split: option.splits if_splits)

lemma frozen_deleted:
  assumes "tg_fences db0 = tg_fences db"
  shows "only_closes t db (delete_frozen_fence p db0)" "only_closes t db (release_slot (delete_frozen_fence p db0))"
  by (rule filtered_fences, simp add: delete_frozen_fence_def assms)+

lemma freeze_closes:
  assumes "set_fence_state_in_transaction ''active'' ''frozen'' p mode db = Inr db'"
  shows "only_closes t db db' \<and> same_rows db db'"
proof -
  have "db' = db \<or> (\<exists>P. db' = db\<lparr>tg_fences := update_where P (\<lambda>f. f\<lparr>fe_state := ''frozen''\<rparr>) (tg_fences db)\<rparr>)"
    using assms unfolding set_fence_state_in_transaction_def
    by (auto simp: bind_result_eq_Inr split: option.splits if_splits)
  then show ?thesis
    by (auto simp: only_closes_def open_fence_def same_rows_def unique_state_update row_get_update_state
        split: option.splits if_splits)
qed

lemma activate_opens:
  assumes "set_fence_state_in_transaction ''frozen'' ''active'' p mode db = Inr db'" "open_fence t db' = Some f"
    "fp_tenant_id p = t"
  shows "fe_placement_generation f = fp_placement_generation p \<and> fe_switch_token f = fp_switch_token p"
proof -
  obtain f0 where f0: "row_get fe_tenant_id t (tg_fences db) = Some f0" "fence_matches f0 p"
    using assms(1,3) unfolding set_fence_state_in_transaction_def
    by (auto simp: bind_result_eq_Inr lock_fence_def split: option.splits if_splits)
  have "db' = db \<or> (\<exists>P. db' = db\<lparr>tg_fences := update_where P (\<lambda>f. f\<lparr>fe_state := ''active''\<rparr>) (tg_fences db)\<rparr>)"
    using assms(1) unfolding set_fence_state_in_transaction_def
    by (auto simp: bind_result_eq_Inr split: option.splits if_splits)
  then have "fe_placement_generation f = fe_placement_generation f0 \<and> fe_switch_token f = fe_switch_token f0"
    using f0(1) assms(2) by (auto simp: open_fence_def row_get_update_state split: if_splits)
  then show ?thesis using f0(2) by (simp add: fence_matches_def)
qed

lemma activate_frame:
  assumes "set_fence_state_in_transaction ''frozen'' ''active'' p mode db = Inr db'"
  shows "same_rows db db' \<and> (unique_key fe_tenant_id (tg_fences db) \<longrightarrow> unique_key fe_tenant_id (tg_fences db'))"
  using assms unfolding set_fence_state_in_transaction_def same_rows_def
  by (auto simp: bind_result_eq_Inr unique_state_update split: option.splits if_splits)

lemma prepare_closes:
  assumes "prepare_frozen_fence_in_transaction c p mode db = Inr db'" "fp_tenant_id p = t"
  shows "only_closes t db db' \<and> same_rows db db'"
proof -
  consider "db' = db" | "row_get fe_tenant_id t (tg_fences db) = None"
      "claim_dedicated_slot p mode (insert_fence p ''frozen'' db) = Inr db'"
    using assms unfolding prepare_frozen_fence_in_transaction_def
    by (auto simp: bind_result_eq_Inr lock_fence_def split: option.splits if_splits)
  then show ?thesis
  proof cases
    case 2
    from claim_frame [OF 2(2)] show ?thesis
      using 2(1) assms(2)
      by (auto simp: only_closes_def same_rows_def open_fence_def insert_fence_def unique_key_Cons row_get_def)
  qed (simp add: same_rows_def)
qed

lemma clear_closes:
  assumes "clear_tenant_data_in_transaction b c p mode db = Inr db'"
  shows "only_closes t db db' \<and> (db' = db \<or> tg_rows db' = tg_rows (delete_tenant_rows c (fp_tenant_id p) db))"
proof -
  have "db' = db \<or> (\<exists>x. x = delete_frozen_fence p (delete_tenant_rows c (fp_tenant_id p) db) \<and> (db' = x \<or> db' = release_slot x))"
    using assms unfolding clear_tenant_data_in_transaction_def
    by (auto simp: bind_result_eq_Inr Let_def split: option.splits if_splits)
  then show ?thesis using frozen_deleted [of "delete_tenant_rows c (fp_tenant_id p) db" db t p]
    by (auto simp: delete_frozen_fence_def release_slot_def)
qed

lemma finish_closes:
  assumes "finish_tenant_cleanup_in_transaction c p mode db = Inr db'"
  shows "only_closes t db db' \<and> same_rows db db'"
proof -
  have "\<exists>x. (x = db \<or> x = delete_frozen_fence p db) \<and> (db' = x \<or> db' = release_slot x)"
    using assms unfolding finish_tenant_cleanup_in_transaction_def
    by (auto simp: bind_result_eq_Inr Let_def split: option.splits if_splits)
  then show ?thesis using frozen_deleted [of db db t p] only_closes_fences [of "release_slot db" db t]
    by (auto simp: same_rows_def delete_frozen_fence_def release_slot_def)
qed

lemma delete_batch_closes:
  assumes "delete_tenant_rows_batch_in_transaction ord d n p mode db = Inr (x, db')"
  shows "tg_fences db' = tg_fences db \<and> (\<exists>P. tg_rows db' = (tg_rows db)(de_table d := filter P (tg_rows db (de_table d))))"
proof -
  have "db' = db \<or> (\<exists>P. db' = db\<lparr>tg_rows := (tg_rows db)(de_table d := filter P (tg_rows db (de_table d)))\<rparr>)"
    using assms unfolding delete_tenant_rows_batch_in_transaction_def
    by (auto simp: bind_result_eq_Inr Let_def split: option.splits if_splits)
  then show ?thesis using exI [of "\<lambda>P. tg_rows db = (tg_rows db)(de_table d := filter P (tg_rows db (de_table d)))" "\<lambda>_. True"]
    by auto
qed

subsection \<open>Rows stay well-formed\<close>

lemma rows_ok_part:
  assumes "rows_ok c \<rho> t db" "unique_key fe_tenant_id (tg_fences db')"
    "\<And>d. d \<in> set c \<Longrightarrow> \<exists>P. tenant_rows d t db' = filter P (tenant_rows d t db)"
  shows "rows_ok c \<rho> t db'"
  unfolding rows_ok_def
proof (intro conjI ballI)
  fix d assume d: "d \<in> set c"
  obtain P where P: "tenant_rows d t db' = filter P (tenant_rows d t db)" using assms(3) [OF d] by blast
  have ok: "table_ok d (tenant_rows d t db)" "set (tenant_rows d t db) \<subseteq> \<rho>" using assms(1) d by (simp_all add: rows_ok_def)
  show "table_ok d (tenant_rows d t db')" using ok(1) by (auto simp: P table_ok_def distinct_map_filter)
  show "set (tenant_rows d t db') \<subseteq> \<rho>" using ok(2) by (auto simp: P)
qed (rule assms(2))

lemma rows_ok_deleted:
  assumes "rows_ok c \<rho> t db" "only_closes t db db'" "catalog_wf c" "tg_rows db' = tg_rows (delete_tenant_rows c t db)"
  shows "rows_ok c \<rho> t db'"
proof (rule rows_ok_part [OF assms(1)])
  show "unique_key fe_tenant_id (tg_fences db')" using assms(1,2) by (simp add: only_closes_def rows_ok_def)
  fix d assume d: "d \<in> set c"
  have "tenant_rows d t db' = []"
    using tenant_rows_deleted [OF assms(3) d, of t t db] assms(4) by (simp add: tenant_rows_def)
  then show "\<exists>P. tenant_rows d t db' = filter P (tenant_rows d t db)" by (intro exI [of _ "\<lambda>_. False"]) simp
qed

lemma rows_ok_filtered:
  assumes "rows_ok c \<rho> t db" "tg_fences db' = tg_fences db" "catalog_wf c" "d \<in> set c"
    "tg_rows db' = (tg_rows db)(de_table d := filter P (tg_rows db (de_table d)))"
  shows "rows_ok c \<rho> t db'"
proof (rule rows_ok_part [OF assms(1)])
  show "unique_key fe_tenant_id (tg_fences db')" using assms(1,2) by (simp add: rows_ok_def)
  fix x assume x: "x \<in> set c"
  show "\<exists>P. tenant_rows x t db' = filter P (tenant_rows x t db)"
  proof (cases "de_table x = de_table d")
    case True
    then show ?thesis by (intro exI [of _ P]) (auto simp: tenant_rows_def assms(5) intro: filter_cong)
  next
    case False
    then show ?thesis by (intro exI [of _ "\<lambda>_. True"]) (simp add: tenant_rows_def assms(5))
  qed
qed

text \<open>A row of the tenant that is written over one of its own changes nothing.\<close>

lemma upsert_own:
  assumes d: "table_wf d" and r: "row_of_tenant d t r" "row_wf d r"
    and ok: "table_ok d (filter (row_of_tenant d t) rows)"
  shows "table_ok d (filter (row_of_tenant d t) (upsert_row d r rows)) \<and>
    set (filter (row_of_tenant d t) (upsert_row d r rows)) \<subseteq> insert r (set (filter (row_of_tenant d t) rows))"
proof (cases "primary_key d r \<in> primary_key d ` set rows")
  case True
  obtain ks where pk: "de_primary_key_cursor_columns d = de_tenant_column d # ks"
    using d by (cases "de_primary_key_cursor_columns d") (auto simp: table_wf_def)
  obtain i where i: "position_of (de_tenant_column d) (de_checksum_columns d) = Some i" "i < length r" "r ! i = Some t"
    using r(1) by (auto simp: row_of_tenant_def row_cell_def split: option.splits if_splits)
  have same: "set_tenant_of d r r' = r'" if "primary_key d r' = primary_key d r" for r'
  proof -
    have "row_cell d r' (de_tenant_column d) = Some t" using that r(1) by (simp add: primary_key_def pk row_of_tenant_def)
    then have "r' ! i = Some t" using i(1) by (auto simp: row_cell_def split: if_splits)
    then show ?thesis using i by (simp add: set_tenant_of_def list_update_same_conv) (metis list_update_id)
  qed
  have "(if primary_key d x = primary_key d r then set_tenant_of d r x else x) = x" for x using same by simp
  then have "upsert_row d r rows = rows" using True by (simp add: upsert_row_def update_where_def map_idI)
  then show ?thesis using ok by auto
next
  case False
  then have "upsert_row d r rows = r # rows" by (simp add: upsert_row_def)
  then show ?thesis using ok r False by (auto simp: table_ok_def)
qed

lemma upserts_own:
  assumes d: "table_wf d" and rs: "\<And>r. r \<in> set rs \<Longrightarrow> row_of_tenant d t r \<and> row_wf d r"
    and ok: "table_ok d (filter (row_of_tenant d t) rows)"
  shows "table_ok d (filter (row_of_tenant d t) (fold (upsert_row d) rs rows)) \<and>
    set (filter (row_of_tenant d t) (fold (upsert_row d) rs rows)) \<subseteq> set rs \<union> set (filter (row_of_tenant d t) rows)"
  using rs ok
proof (induction rs arbitrary: rows)
  case (Cons r rs)
  have r: "row_of_tenant d t r" "row_wf d r" using Cons.prems(1) by simp_all
  note step = upsert_own [OF d r Cons.prems(2)]
  have "table_ok d (filter (row_of_tenant d t) (fold (upsert_row d) rs (upsert_row d r rows))) \<and>
      set (filter (row_of_tenant d t) (fold (upsert_row d) rs (upsert_row d r rows))) \<subseteq>
      set rs \<union> set (filter (row_of_tenant d t) (upsert_row d r rows))"
    by (rule Cons.IH) (use Cons.prems(1) step in auto)
  then show ?case using step by auto
qed simp

section \<open>The calls at their stage\<close>

definition cancellable :: "string set" where
  "cancellable = {mg_PRECHECKING, mg_QUEUED, mg_QUIESCING, mg_FROZEN, mg_COPYING, mg_VERIFYING}"

definition activated :: "string set" where
  "activated = {mg_ACTIVATING, mg_SUCCEEDED, mg_RETENTION_PENDING}"

lemma can_cancel_iff: "can_cancel m \<longleftrightarrow> mg_state m \<in> cancellable"
  by (simp add: can_cancel_def cancellable_def)

text \<open>The one migration at work, seen from the snapshot of its worker.\<close>

lemma at_work:
  assumes w: "safe c \<rho> t w" and s: "mg_tenant_id s = t" "row_at s S w"
    and S: "S \<subseteq> cancellable \<union> {mg_CUTTING_OVER} \<union> activated"
  obtains m p where "placement_of t (wd_db w) = Some p" "plan_of m = plan_of s" "mg_state m \<in> S"
    "stage_ok c t (wd_targets w) p m" "\<And>x. x \<in> working t (wd_db w) \<Longrightarrow> x = m"
proof -
  obtain m where m: "migration_by_id (mg_id s) (wd_db w) = Some m" "plan_of m = plan_of s" "mg_state m \<in> S"
    using s(2) by (auto simp: row_at_def)
  obtain p where p: "placement_of t (wd_db w) = Some p" using safe_has_placement [OF w] by blast
  have live: "\<not> terminal_migration m" using m(3) S by (auto simp: terminal_migration_def cancellable_def activated_def)
  have mt: "mg_tenant_id m = t" using m(2) s(1) by (simp add: plan_of_eq)
  note st = current_stage [OF w m(1) mt live p]
  have only: "x = m" if x: "x \<in> working t (wd_db w)" for x
  proof -
    have "row_get mg_id (mg_id y) (md_migrations (wd_db w)) = Some y" if "y \<in> working t (wd_db w)" for y
      using that row_get_iff [OF safe_unique [OF w]] by (simp add: working_def)
    from this [OF x] this [OF st(1)] safe_alone [OF w x st(1)] show ?thesis by (metis option.inject)
  qed
  show ?thesis by (rule that [OF p m(2,3) st(2) only])
qed

lemma stage_placed:
  assumes "stage_ok c t ts p m"
  shows "mg_state m \<in> cancellable \<Longrightarrow> same_source p m" "mg_state m \<in> activated \<Longrightarrow> same_target p m"
proof -
  have "mg_state m \<in> cancellable \<Longrightarrow> \<not> after_cutover m" "mg_state m \<in> activated \<Longrightarrow> \<not> before_cutover m"
    by (auto simp: cancellable_def activated_def after_cutover_def before_cutover_def can_cancel_def)
  then show "mg_state m \<in> cancellable \<Longrightarrow> same_source p m" "mg_state m \<in> activated \<Longrightarrow> same_target p m"
    using assms by (auto simp: stage_ok_def)
qed

text \<open>Where the rows of a target may be touched: it is not the one the placement names.\<close>

definition spare :: "data_migration \<Rightarrow> string \<Rightarrow> string set \<Rightarrow> bool" where
  "spare s key S \<longleftrightarrow> key = mg_target_key s \<and> S \<subseteq> cancellable \<or>
     key = mg_source_target_key s \<and> S \<subseteq> {mg_RETENTION_PENDING}"

lemma spare_target:
  assumes w: "safe c \<rho> t w" and s: "mg_tenant_id s = t" "row_at s S w" and k: "spare s key S"
  obtains p where "placement_of t (wd_db w) = Some p" "key \<noteq> pl_current_target_key p"
    "\<forall>m \<in> working t (wd_db w). mg_state m \<noteq> mg_CUTTING_OVER"
proof -
  have S: "S \<subseteq> cancellable \<union> {mg_CUTTING_OVER} \<union> activated" using k by (auto simp: spare_def activated_def)
  obtain m p where m: "placement_of t (wd_db w) = Some p" "plan_of m = plan_of s" "mg_state m \<in> S"
    "stage_ok c t (wd_targets w) p m" "\<And>x. x \<in> working t (wd_db w) \<Longrightarrow> x = m"
    using at_work [OF w s S] by blast
  have keys: "mg_source_target_key s \<noteq> mg_target_key s" "mg_source_target_key m = mg_source_target_key s"
      "mg_target_key m = mg_target_key s"
    using m(2,4) by (simp_all add: stage_ok_def plan_of_eq)
  have "key \<noteq> pl_current_target_key p \<and> mg_state m \<noteq> mg_CUTTING_OVER"
    using k unfolding spare_def
  proof
    assume a: "key = mg_target_key s \<and> S \<subseteq> cancellable"
    then have "mg_state m \<in> cancellable" using m(3) by blast
    then show ?thesis using stage_placed(1) [OF m(4)] a keys by (simp add: same_source_def) (auto simp: cancellable_def)
  next
    assume a: "key = mg_source_target_key s \<and> S \<subseteq> {mg_RETENTION_PENDING}"
    then have st: "mg_state m = mg_RETENTION_PENDING" using m(3) by blast
    then have "mg_state m \<in> activated" by (simp add: activated_def)
    then show ?thesis using stage_placed(2) [OF m(4)] a keys st by (simp add: same_target_def)
  qed
  then show ?thesis using that [OF m(1)] m(5) by blast
qed

lemma on_target_txn:
  assumes "on_target reg f fence w = Inr (x, w')"
  shows "\<exists>q mode db'. q = \<lparr>fp_tenant_id = tf_tenant_id fence, fp_target_key = tf_target_key fence,
      fp_placement_generation = tf_generation fence, fp_switch_token = tf_switch_token fence\<rparr> \<and>
    f q mode (w (tf_target_key fence)) = Inr (x, db') \<and> w' = w(tf_target_key fence := db')"
  using assms by (rule on_target_Inr) blast

lemma closing_safe:
  assumes w: "safe c \<rho> t w" and cl: "only_closes t (wd_targets w key) db'" and rows: "same_rows (wd_targets w key) db'"
  shows "safe c \<rho> t (w\<lparr>wd_targets := (wd_targets w)(key := db')\<rparr>)"
proof -
  obtain p where p: "placement_of t (wd_db w) = Some p" using safe_has_placement [OF w] by blast
  have u: "unique_key fe_tenant_id (tg_fences (wd_targets w key))" using safe_rows [OF w, of key] by (simp add: rows_ok_def)
  show ?thesis
    by (rule safe_target_update [OF w p]) (use cl rows u same_rows_tenant in \<open>auto simp: only_closes_def\<close>)
qed

lemma changing_safe:
  assumes w: "safe c \<rho> t w" and s: "mg_tenant_id s = t" "row_at s S w" "spare s key S"
    and cl: "only_closes t (wd_targets w key) db'" and rows: "rows_ok c \<rho> t db'"
  shows "safe c \<rho> t (w\<lparr>wd_targets := (wd_targets w)(key := db')\<rparr>)"
proof -
  obtain p where p: "placement_of t (wd_db w) = Some p" "key \<noteq> pl_current_target_key p"
    "\<forall>m \<in> working t (wd_db w). mg_state m \<noteq> mg_CUTTING_OVER"
    by (rule spare_target [OF w s])
  have u: "unique_key fe_tenant_id (tg_fences (wd_targets w key))" using safe_rows [OF w, of key] by (simp add: rows_ok_def)
  show ?thesis
    by (rule safe_target_update [OF w p(1)]) (use cl rows u p(2,3) in \<open>auto simp: only_closes_def\<close>)
qed

subsection \<open>Fences\<close>

lemma freeze_fence_safe:
  assumes "safe c \<rho> t w" "freeze_fence reg f (wd_targets w) = Inr (u, ts)"
  shows "safe c \<rho> t (w\<lparr>wd_targets := ts\<rparr>)"
  using assms(2) unfolding freeze_fence_def
  by (rule on_target_Inr) (use closing_safe [OF assms(1)] freeze_closes in auto)

lemma prepare_target_safe:
  assumes "safe c \<rho> t w" "prepare_target reg c f (wd_targets w) = Inr (u, ts)" "tf_tenant_id f = t"
  shows "safe c \<rho> t (w\<lparr>wd_targets := ts\<rparr>)"
  using assms(2) unfolding prepare_target_def
  by (rule on_target_Inr) (use closing_safe [OF assms(1)] prepare_closes assms(3) in fastforce)

lemma finish_cleanup_safe:
  assumes "safe c \<rho> t w" "finish_cleanup reg c f (wd_targets w) = Inr (u, ts)"
  shows "safe c \<rho> t (w\<lparr>wd_targets := ts\<rparr>)"
  using assms(2) unfolding finish_cleanup_def
  by (rule on_target_Inr) (use closing_safe [OF assms(1)] finish_closes in fastforce)

text \<open>A fence is opened only for the placement there is.\<close>

definition opens_placed :: "data_migration \<Rightarrow> TenantDataFence \<Rightarrow> string set \<Rightarrow> bool" where
  "opens_placed s f S \<longleftrightarrow> tf_tenant_id f = mg_tenant_id s \<and>
     (tf_target_key f = mg_source_target_key s \<and> tf_generation f = mg_source_generation s \<and>
      tf_switch_token f = mg_source_switch_token s \<and> S \<subseteq> cancellable \<or>
      tf_target_key f = mg_target_key s \<and> tf_generation f = mg_target_generation s \<and>
      tf_switch_token f = mg_switch_token s \<and> S \<subseteq> activated)"

lemma activate_fence_safe:
  assumes w: "safe c \<rho> t w" and s: "mg_tenant_id s = t" "row_at s S w" and f: "opens_placed s f S"
    and run: "activate_fence reg f (wd_targets w) = Inr (u, ts)"
  shows "safe c \<rho> t (w\<lparr>wd_targets := ts\<rparr>)"
proof -
  obtain mode q db' where q: "q = \<lparr>fp_tenant_id = tf_tenant_id f, fp_target_key = tf_target_key f,
      fp_placement_generation = tf_generation f, fp_switch_token = tf_switch_token f\<rparr>"
    "set_fence_state_in_transaction ''frozen'' ''active'' q mode (wd_targets w (tf_target_key f)) = Inr db'"
    "ts = (wd_targets w)(tf_target_key f := db')"
    using on_target_txn [OF run [unfolded activate_fence_def]] by auto
  have S: "S \<subseteq> cancellable \<union> {mg_CUTTING_OVER} \<union> activated" using f by (auto simp: opens_placed_def)
  obtain m p where m: "placement_of t (wd_db w) = Some p" "plan_of m = plan_of s" "mg_state m \<in> S"
    "stage_ok c t (wd_targets w) p m" "\<And>x. x \<in> working t (wd_db w) \<Longrightarrow> x = m"
    using at_work [OF w s S] by blast
  have nocut: "mg_state m \<noteq> mg_CUTTING_OVER"
    using f m(3) by (auto simp: opens_placed_def cancellable_def activated_def)
  have "mg_state m \<in> S" by (rule m(3))
  then have placed: "tf_target_key f = pl_current_target_key p \<and> tf_generation f = pl_placement_generation p \<and>
      tf_switch_token f = pl_switch_token p"
    using f stage_placed [OF m(4)] m(2)
    unfolding opens_placed_def plan_of_eq same_source_def same_target_def by auto
  have u: "unique_key fe_tenant_id (tg_fences (wd_targets w (tf_target_key f)))"
    using safe_rows [OF w] by (simp add: rows_ok_def)
  note fr = activate_frame [OF q(2)]
  have "fits g (tf_target_key f) p" if "open_fence t db' = Some g" for g
    using activate_opens [OF q(2) that] f s(1) placed by (simp add: q(1) fits_def opens_placed_def)
  then show ?thesis unfolding q(3)
    by (intro safe_target_update [OF w m(1)]) (use fr u nocut m(5) same_rows_tenant in auto)
qed

subsection \<open>Rows\<close>

lemma clear_prepared_safe:
  assumes w: "safe c \<rho> t w" and s: "mg_tenant_id s = t" "row_at s S w" "spare s (tf_target_key f) S"
    and f: "tf_tenant_id f = t" and c: "catalog_wf c"
    and run: "clear_prepared_target reg c f (wd_targets w) = Inr (u, ts)"
  shows "safe c \<rho> t (w\<lparr>wd_targets := ts\<rparr>)"
proof -
  obtain mode q db' where q: "q = \<lparr>fp_tenant_id = tf_tenant_id f, fp_target_key = tf_target_key f,
      fp_placement_generation = tf_generation f, fp_switch_token = tf_switch_token f\<rparr>"
    "clear_tenant_data_in_transaction True c q mode (wd_targets w (tf_target_key f)) = Inr db'"
    "ts = (wd_targets w)(tf_target_key f := db')"
    using on_target_txn [OF run [unfolded clear_prepared_target_def]] by auto
  note cl = clear_closes [OF q(2), of t]
  have rows: "rows_ok c \<rho> t (wd_targets w (tf_target_key f))" by (rule safe_rows [OF w])
  have "fp_tenant_id q = t" using f by (simp add: q(1))
  then have "rows_ok c \<rho> t db'" using cl rows rows_ok_deleted [OF rows _ c] by auto
  then show ?thesis unfolding q(3) using changing_safe [OF w s] cl by blast
qed

lemma delete_batch_safe:
  assumes w: "safe c \<rho> t w" and s: "mg_tenant_id s = t" "row_at s S w" "spare s (tf_target_key f) S"
    and c: "catalog_wf c"
    and run: "delete_rows_batch reg c ord f table n (wd_targets w) = Inr (x, ts)"
  shows "safe c \<rho> t (w\<lparr>wd_targets := ts\<rparr>)"
proof -
  obtain d where d: "row_get de_table table c = Some d"
      "on_target reg (delete_tenant_rows_batch_in_transaction (ord table) d n) f (wd_targets w) = Inr (x, ts)"
    using run by (auto simp: delete_rows_batch_def catalog_table_def bind_result_eq_Inr app_of_td_def
        split: if_splits option.splits sum.splits)
  obtain mode q db' where q:
    "delete_tenant_rows_batch_in_transaction (ord table) d n q mode (wd_targets w (tf_target_key f)) = Inr (x, db')"
    "ts = (wd_targets w)(tf_target_key f := db')"
    using on_target_txn [OF d(2)] by blast
  have dc: "d \<in> set c" using row_get_SomeD [OF d(1)] by simp
  from delete_batch_closes [OF q(1)] obtain P where P: "tg_fences db' = tg_fences (wd_targets w (tf_target_key f))"
      "tg_rows db' = (tg_rows (wd_targets w (tf_target_key f)))
         (de_table d := filter P (tg_rows (wd_targets w (tf_target_key f)) (de_table d)))" by blast
  have "rows_ok c \<rho> t db'" by (rule rows_ok_filtered [OF safe_rows [OF w] P(1) c dc P(2)])
  then show ?thesis unfolding q(2) using changing_safe [OF w s] only_closes_fences [OF P(1)] by blast
qed

lemma write_rows_safe:
  assumes w: "safe c \<rho> t w" and s: "mg_tenant_id s = t" "row_at s S w" "spare s (tf_target_key f) S"
    and c: "catalog_wf c" and d: "row_get de_table table c = Some d"
    and rows: "\<And>r. r \<in> set rows \<Longrightarrow> row_of_tenant d t (decode_row k r) \<and> row_wf d (decode_row k r) \<and> decode_row k r \<in> \<rho>"
    and run: "write_rows_batch reg c k f table rows (wd_targets w) = Inr ts"
  shows "safe c \<rho> t (w\<lparr>wd_targets := ts\<rparr>)"
proof -
  let ?db = "wd_targets w (tf_target_key f)"
  let ?db' = "?db\<lparr>tg_rows := (tg_rows ?db)(de_table d := fold (upsert_row d) (map (decode_row k) rows) (tg_rows ?db (de_table d)))\<rparr>"
  have ts: "ts = (wd_targets w)(tf_target_key f := ?db')" using run by (rule write_rows_shape) (use d in simp)
  have dd: "d \<in> set c" "table_wf d" using row_get_SomeD [OF d] c by (auto simp: catalog_wf_def)
  note old = safe_rows [OF w, of "tf_target_key f", unfolded rows_ok_def]
  have new: "table_ok d (tenant_rows d t ?db') \<and> set (tenant_rows d t ?db') \<subseteq> \<rho>"
    using upserts_own [OF dd(2), of "map (decode_row k) rows" t "tg_rows ?db (de_table d)"] rows old dd(1)
    by (auto simp: tenant_rows_def)
  have "rows_ok c \<rho> t ?db'"
    unfolding rows_ok_def
  proof (intro conjI ballI)
    show "unique_key fe_tenant_id (tg_fences ?db')" using old by simp
    fix x assume x: "x \<in> set c"
    have "table_ok x (tenant_rows x t ?db') \<and> set (tenant_rows x t ?db') \<subseteq> \<rho>"
    proof (cases "x = d")
      case False
      then have "de_table x \<noteq> de_table d" using c dd(1) x by (auto simp: catalog_wf_def distinct_map dest: inj_onD)
      then have "tenant_rows x t ?db' = tenant_rows x t ?db" by (simp add: tenant_rows_def)
      then show ?thesis using old x by simp
    qed (use new in simp)
    then show "table_ok x (tenant_rows x t ?db')" "set (tenant_rows x t ?db') \<subseteq> \<rho>" by blast+
  qed
  then show ?thesis unfolding ts using changing_safe [OF w s] only_closes_fences [of ?db' ?db] by simp
qed

end
