(* ===== verification/Migration_Safety.thy ===== *)
theory Migration_Safety
  imports Migration_Targets
begin

text \<open>
  The worker among the others: every program of a migration, run with any refused, lost or broken
  calls and any steps of others between them, keeps the invariant of its tenant.
\<close>

section \<open>The surroundings of a worker\<close>

text \<open>
  What is relied on: an accepted catalog, and that SHA-256 does not collide on the rows there can be.
  A table has every row once, so only finitely many lists of rows matter.
\<close>

definition collision_free :: "data_codec \<Rightarrow> data_row set \<Rightarrow> bool" where
  "collision_free k \<rho> \<longleftrightarrow> (\<forall>xs ys. set xs \<subseteq> \<rho> \<longrightarrow> set ys \<subseteq> \<rho> \<longrightarrow> distinct xs \<longrightarrow> distinct ys \<longrightarrow> length xs = length ys \<longrightarrow>
     \<not> collide k (hash_inputs k zero_state (map (encode_row k) xs)) (hash_inputs k zero_state (map (encode_row k) ys)))"

definition env_ok :: "migration_env \<Rightarrow> data_row set \<Rightarrow> bool" where
  "env_ok env \<rho> \<longleftrightarrow> catalog_wf (me_catalog env) \<and> codec_ok (me_codec env) \<and> collision_free (me_codec env) \<rho>"

definition sound :: "migration_env \<Rightarrow> data_row set \<Rightarrow> string \<Rightarrow> world \<Rightarrow> bool" where
  "sound env \<rho> t w \<longleftrightarrow> env_ok env \<rho> \<and> safe (me_catalog env) \<rho> t w"

lemma soundD:
  assumes "sound env \<rho> t w"
  shows "safe (me_catalog env) \<rho> t w" "catalog_wf (me_catalog env)" "codec_ok (me_codec env)"
    "collision_free (me_codec env) \<rho>" "env_ok env \<rho>"
  using assms by (simp_all add: sound_def env_ok_def)

interpretation worker: surroundings "(other_step env \<rho> t)\<^sup>*\<^sup>*" "sound env \<rho> t" for env \<rho> t
proof
  show "sound env \<rho> t w \<Longrightarrow> (other_step env \<rho> t)\<^sup>*\<^sup>* w w' \<Longrightarrow> sound env \<rho> t w'" for w w'
    using other_steps_ok by (simp add: sound_def env_ok_def)
qed

text \<open>A predicate that survives what \<open>kept\<close> allows is stable and survives changes of flags.\<close>

definition robust :: "catalog \<Rightarrow> string \<Rightarrow> (world \<Rightarrow> bool) \<Rightarrow> bool" where
  "robust c t P \<longleftrightarrow> (\<forall>w w'. kept c t w w' \<longrightarrow> P w \<longrightarrow> P w')"

lemma robust_conj [intro]: "robust c t P \<Longrightarrow> robust c t Q \<Longrightarrow> robust c t (\<lambda>w. P w \<and> Q w)"
  by (simp add: robust_def)

lemma robust_stable: "robust (me_catalog env) t P \<Longrightarrow> worker.stable env \<rho> t P"
  unfolding worker.stable_def robust_def using other_steps_ok soundD by blast

lemma robust_flags:
  assumes "robust c t P" "P w" "flags_only (wd_db w) db'" "unique_key mg_id (md_migrations (wd_db w))"
  shows "P (w\<lparr>wd_db := db'\<rparr>)"
  using assms(1) [unfolded robust_def, rule_format, OF kept_control [OF flags_row_kept [OF assms(3,4)]] assms(2)] .

definition mine :: "int \<Rightarrow> string \<Rightarrow> world \<Rightarrow> bool" where
  "mine i t w \<longleftrightarrow> (\<exists>m. migration_by_id i (wd_db w) = Some m \<and> mg_tenant_id m = t)"

text \<open>What a worker knows of its migration while it holds the snapshot \<open>m\<close>.\<close>

definition held :: "int \<Rightarrow> string \<Rightarrow> string set \<Rightarrow> data_migration \<Rightarrow> world \<Rightarrow> bool" where
  "held i t S m w \<longleftrightarrow> mg_id m = i \<and> mg_tenant_id m = t \<and> row_at m S w"

abbreviation current :: "int \<Rightarrow> string \<Rightarrow> data_migration \<Rightarrow> world \<Rightarrow> bool" where
  "current i t m \<equiv> held i t {mg_state m} m"

lemma held_mine: "held i t S m w \<Longrightarrow> mine i t w"
  by (auto simp: held_def mine_def row_at_def plan_of_eq)

lemma held_mono: "held i t S m w \<Longrightarrow> S \<subseteq> S' \<Longrightarrow> held i t S' m w"
  using row_at_mono by (simp add: held_def) blast

lemma held_same: "held i t S m' w \<Longrightarrow> same_migration m m' \<Longrightarrow> held i t S m w"
  using same_migration_tenant [of m m'] row_at_same [of m m'] by (simp add: held_def same_migration_def)

lemma robust_held [intro, simp]: "robust c t (held i t S m)"
  using row_at_kept by (auto simp: robust_def held_def)

lemma robust_mine [intro, simp]: "robust c t (mine i t)"
  unfolding robust_def kept_def row_kept_def mine_def plan_of_eq by metis

lemma robust_closed [intro, simp]: "robust c t (\<lambda>w. open_fence t (wd_targets w key) = None)"
  by (simp add: robust_def kept_def open_fence_def)

section \<open>Single calls\<close>

lemma timed_flags:
  assumes P: "robust (me_catalog env) t P" "\<And>w. P w \<Longrightarrow> F w"
    and f: "\<And>now tnow clock w x db. sound env \<rho> t w \<Longrightarrow> P w \<Longrightarrow> f now tnow clock (wd_db w) = Inr (x, db) \<Longrightarrow>
      flags_only (wd_db w) db \<and> R x (w\<lparr>wd_db := db\<rparr>)"
  shows "worker.triple env \<rho> t P (timed_txn f) (\<lambda>x w. P w \<and> R x w) F"
proof (rule worker.triple_timed [OF robust_stable [OF P(1)]])
  fix now tnow clock w x db
  assume a: "sound env \<rho> t w" "P w" "f now tnow clock (wd_db w) = Inr (x, db)"
  note 1 = f [OF a]
  have "safe (me_catalog env) \<rho> t (w\<lparr>wd_db := db\<rparr>)" using safe_flags_only [OF soundD(1) [OF a(1)]] 1 by blast
  then show "sound env \<rho> t (w\<lparr>wd_db := db\<rparr>) \<and> P (w\<lparr>wd_db := db\<rparr>) \<and> R x (w\<lparr>wd_db := db\<rparr>)"
    using robust_flags [OF P(1) a(2) conjunct1 [OF 1] safe_unique [OF soundD(1) [OF a(1)]]] 1 a(1) by (simp add: sound_def)
qed (use P(2) in auto)

lemma timed_quiet:
  assumes "robust (me_catalog env) t P" "\<And>w. P w \<Longrightarrow> F w"
    "\<And>now tnow clock db x db'. f now tnow clock db = Inr (x, db') \<Longrightarrow> flags_only db db'"
  shows "worker.triple env \<rho> t P (timed_txn f) (\<lambda>_. P) F"
  by (rule worker.triple_post [OF timed_flags [where R = "\<lambda>_ _. True", OF assms(1,2)]]) (use assms(3) in auto)

lemma control_quiet:
  assumes P: "robust (me_catalog env) t P" "\<And>w. P w \<Longrightarrow> F w"
    and f: "\<And>turn tnow db x db'. f turn tnow db = Inr (x, db') \<Longrightarrow> same_control db db'"
  shows "worker.triple env \<rho> t P (control_txn f) (\<lambda>_. P) F"
proof (rule worker.triple_control [OF robust_stable [OF P(1)]])
  fix turn w x db
  assume a: "sound env \<rho> t w" "P w" "f turn (wd_now w) (wd_db w) = Inr (x, db)"
  have fl: "flags_only (wd_db w) db" by (rule same_control_flags [OF f [OF a(3)]])
  show "sound env \<rho> t (w\<lparr>wd_db := db\<rparr>) \<and> P (w\<lparr>wd_db := db\<rparr>)"
    using safe_flags_only [OF soundD(1) [OF a(1)] fl] robust_flags [OF P(1) a(2) fl safe_unique [OF soundD(1) [OF a(1)]]] a(1)
    by (simp add: sound_def)
qed (use P(2) in auto)

lemma target_quiet:
  assumes "robust (me_catalog env) t P" "\<And>w. P w \<Longrightarrow> F w"
  shows "worker.triple env \<rho> t P (target_read f) (\<lambda>_. P) F"
  by (rule worker.triple_target_read [OF robust_stable [OF assms(1)]]) (use assms(2) in auto)

lemma control_reads:
  assumes "robust (me_catalog env) t P" "\<And>w. P w \<Longrightarrow> F w"
  shows "worker.triple env \<rho> t P (control_read f) (\<lambda>_. P) F"
  by (rule worker.triple_control_read [OF robust_stable [OF assms(1)]]) (use assms(2) in auto)

lemma clock_reads:
  assumes "robust (me_catalog env) t P" "\<And>w. P w \<Longrightarrow> F w"
  shows "worker.triple env \<rho> t P database_now (\<lambda>_. P) F"
  by (rule worker.triple_now [OF robust_stable [OF assms(1)]]) (use assms(2) in auto)

lemma items_quiet:
  assumes "robust (me_catalog env) t P" "\<And>w. P w \<Longrightarrow> F w"
  shows "worker.triple env \<rho> t P (save_item_call x) (\<lambda>_. P) F" "worker.triple env \<rho> t P (insert_item_call x) (\<lambda>_. P) F"
  unfolding save_item_call_def insert_item_call_def
  by (rule control_quiet [OF assms]; auto dest: item_same_control)+

lemma assert_worker_quiet:
  assumes "robust (me_catalog env) t P" "\<And>w. P w \<Longrightarrow> F w"
  shows "worker.triple env \<rho> t P (assert_worker_can_run m st) (\<lambda>_. P) F"
  unfolding assert_worker_can_run_def
  by (rule timed_quiet [OF assms]) (auto dest: assert_worker_flags intro: same_control_flags)

lemma lift_quiet:
  assumes "\<And>w. P w \<Longrightarrow> F w"
  shows "worker.triple env \<rho> t P (io_lift r) (\<lambda>x w. r = Inr x \<and> P w) F"
  by (rule worker.triple_lift) (use assms in auto)

lemma target_moves:
  assumes P: "robust (me_catalog env) t P" "\<And>w. P w \<Longrightarrow> F w"
    and f: "\<And>w x ts. sound env \<rho> t w \<Longrightarrow> P w \<Longrightarrow> f (wd_targets w) = Inr (x, ts) \<Longrightarrow>
      safe (me_catalog env) \<rho> t (w\<lparr>wd_targets := ts\<rparr>) \<and> P (w\<lparr>wd_targets := ts\<rparr>)"
  shows "worker.triple env \<rho> t P (target_call f) (\<lambda>_. P) F"
proof (rule worker.triple_target [OF robust_stable [OF P(1)]])
  fix w x ts
  assume a: "sound env \<rho> t w" "P w" "f (wd_targets w) = Inr (x, ts)"
  show "sound env \<rho> t (w\<lparr>wd_targets := ts\<rparr>) \<and> P (w\<lparr>wd_targets := ts\<rparr>)"
    using f [OF a] a(1) by (simp add: sound_def)
qed (use P(2) in auto)

lemma held_targets [simp]: "held i t S m (w\<lparr>wd_targets := ts\<rparr>) = held i t S m w"
  by (simp add: held_def)

text \<open>A fence that is asserted frozen is closed, and stays so while the worker alone works on it.\<close>

lemma assert_frozen_closed:
  assumes "assert_frozen_fence reg f ts = Inr (u, ts')"
  shows "ts' = ts \<and> open_fence (tf_tenant_id f) (ts (tf_target_key f)) = None"
proof -
  obtain q mode where q: "q = \<lparr>fp_tenant_id = tf_tenant_id f, fp_target_key = tf_target_key f,
      fp_placement_generation = tf_generation f, fp_switch_token = tf_switch_token f\<rparr>"
    "assert_frozen_fence_on q mode (ts (tf_target_key f)) = Inr ()" "ts' = ts"
    using on_target_txn [OF assms [unfolded assert_frozen_fence_def]] by auto
  then show ?thesis
    by (auto simp: assert_frozen_fence_on_def lock_fence_def open_fence_def require_owned_frozen_fence_def bind_result_eq_Inr
        split: option.splits if_splits)
qed

lemma frozen_asserted:
  assumes P: "robust (me_catalog env) t P" "\<And>w. P w \<Longrightarrow> F w" and m: "mg_tenant_id m = t"
  shows "worker.triple env \<rho> t P (assert_migration_frozen_fence env m key)
    (\<lambda>_ w. P w \<and> open_fence t (wd_targets w key) = None) F"
  unfolding assert_migration_frozen_fence_def
proof (rule worker.triple_bind)
  let ?Q = "\<lambda>f w. P w \<and> tf_tenant_id f = t \<and> tf_target_key f = key"
  show "worker.triple env \<rho> t P (io_lift (bind_result
         (if key = mg_source_target_key m then Inr (mg_source_generation m, mg_source_switch_token m)
          else if key = mg_target_key m then Inr (mg_target_generation m, mg_switch_token m)
          else Inl (TenantOperationConflict msg_td_fence_foreign)) (\<lambda>(generation, token).
        bind_result (checked_generation generation ''fence'') (\<lambda>g.
        Inr \<lparr>tf_tenant_id = mg_tenant_id m, tf_target_key = key, tf_generation = g, tf_switch_token = token\<rparr>)))) ?Q F"
    by (rule worker.triple_post [OF lift_quiet]) (use P(2) m in \<open>auto simp: bind_result_eq_Inr\<close>)
  show "worker.triple env \<rho> t (?Q f) (target_call (assert_frozen_fence (me_registry env) f))
      (\<lambda>_ w. P w \<and> open_fence t (wd_targets w key) = None) F" for f
  proof (rule worker.triple_target)
    show "worker.stable env \<rho> t (?Q f)" by (rule robust_stable) (use P(1) in \<open>auto simp: robust_def\<close>)
    fix w x ts
    assume a: "sound env \<rho> t w" "?Q f w" "assert_frozen_fence (me_registry env) f (wd_targets w) = Inr (x, ts)"
    have "w\<lparr>wd_targets := wd_targets w\<rparr> = w" by simp
    then show "sound env \<rho> t (w\<lparr>wd_targets := ts\<rparr>) \<and> P (w\<lparr>wd_targets := ts\<rparr>) \<and>
        open_fence t (wd_targets (w\<lparr>wd_targets := ts\<rparr>) key) = None"
      using a assert_frozen_closed [OF a(3)] by simp
  qed (use P(2) in auto)
qed

end
