(* ===== verification/Migration_Stages.thy ===== *)
theory Migration_Stages
  imports Migration_Safety
begin

text \<open>
  The stages before and after the verification. Each takes the snapshot its worker holds to the next
  one; whatever fails on the way, the migration is still there and its tenant is safe.
\<close>

section \<open>Moving on\<close>

lemma timed_moves:
  assumes "\<And>now tnow clock w x db. safe (me_catalog env) \<rho> t w \<Longrightarrow> held i t S m w \<Longrightarrow>
      f now tnow clock (wd_db w) = Inr (x, db) \<Longrightarrow>
      safe (me_catalog env) \<rho> t (w\<lparr>wd_db := db\<rparr>) \<and> row_at m {mg_state x} (w\<lparr>wd_db := db\<rparr>) \<and> same_migration m x"
  shows "worker.triple env \<rho> t (held i t S m) (timed_txn f) (current i t) (mine i t)"
proof (rule worker.triple_timed)
  show "worker.stable env \<rho> t (held i t S m)" by (rule robust_stable) simp
  fix now tnow clock w x db
  assume a: "sound env \<rho> t w" "held i t S m w" "f now tnow clock (wd_db w) = Inr (x, db)"
  note 1 = assms [OF soundD(1) [OF a(1)] a(2,3)]
  then have same: "same_migration m x" by blast
  have "held i t {mg_state x} x (w\<lparr>wd_db := db\<rparr>)"
    using a(2) 1 same_migration_tenant [OF same] row_at_same [OF same] same by (simp add: held_def same_migration_def)
  then show "sound env \<rho> t (w\<lparr>wd_db := db\<rparr>) \<and> current i t x (w\<lparr>wd_db := db\<rparr>)" using a(1) 1 by (simp add: sound_def)
qed (auto intro: held_mine)

lemma heldD:
  assumes "held i t S m w"
  shows "mg_tenant_id m = t" "row_at m S w" "mg_id m = i"
  using assms by (simp_all add: held_def)

text \<open>\<open>set_state\<close>; where its answer is lost the row may have either state.\<close>

lemma set_state_triple:
  assumes st: "can_cancel m" "can_cancel (m\<lparr>mg_state := st\<rparr>) \<or> st = mg_CUTTING_OVER"
    and upd: "\<And>x now. mg_id (upd x now) = mg_id x \<and> plan_of (upd x now) = plan_of x \<and> mg_state (upd x now) = mg_state x"
    and X: "robust (me_catalog env) t X"
      "\<And>w. sound env \<rho> t w \<Longrightarrow> current i t m w \<Longrightarrow> X w \<Longrightarrow> st = mg_CUTTING_OVER \<Longrightarrow> ready (me_catalog env) t (wd_targets w) m"
  shows "worker.triple env \<rho> t (\<lambda>w. current i t m w \<and> X w) (set_state m st upd)
    (\<lambda>m' w. current i t m' w \<and> mg_state m' = st \<and> same_migration m m') (held i t {mg_state m, st} m)"
  unfolding set_state_def
proof (rule worker.triple_timed)
  show "worker.stable env \<rho> t (\<lambda>w. current i t m w \<and> X w)" by (rule robust_stable) (use X(1) in auto)
  fix now tnow clock w m' db
  assume a: "sound env \<rho> t w" "current i t m w \<and> X w" "set_state_txn m st upd now tnow (wd_db w) = Inr (m', db)"
  note h = heldD [OF conjunct1 [OF a(2)]]
  have "safe (me_catalog env) \<rho> t (w\<lparr>wd_db := db\<rparr>) \<and> row_at m {st} (w\<lparr>wd_db := db\<rparr>) \<and> same_migration m m' \<and> mg_state m' = st"
    by (rule set_state_ok [OF soundD(1) [OF a(1)] h(1,2) a(3) upd st(1) refl]) (use st(2) X(2) a in auto)
  then have 1: "safe (me_catalog env) \<rho> t (w\<lparr>wd_db := db\<rparr>)" "row_at m {st} (w\<lparr>wd_db := db\<rparr>)" "same_migration m m'"
      "mg_state m' = st" by blast+
  have "held i t {mg_state m'} m' (w\<lparr>wd_db := db\<rparr>)"
    using h 1 same_migration_tenant [OF 1(3)] row_at_same [OF 1(3)] by (simp add: held_def same_migration_def)
  then show "sound env \<rho> t (w\<lparr>wd_db := db\<rparr>) \<and> current i t m' (w\<lparr>wd_db := db\<rparr>) \<and> mg_state m' = st \<and> same_migration m m'"
    using a(1) 1 by (simp add: sound_def)
next
  fix m' w
  assume "current i t m' w \<and> mg_state m' = st \<and> same_migration m m'"
  then show "held i t {mg_state m, st} m w" using held_same [of i t "{st}" m' w m] held_mono by blast
qed (auto intro: held_mono)

lemma set_state_plain:
  assumes "can_cancel m" "can_cancel (m\<lparr>mg_state := st\<rparr>)"
    "\<And>x now. mg_id (upd x now) = mg_id x \<and> plan_of (upd x now) = plan_of x \<and> mg_state (upd x now) = mg_state x"
  shows "worker.triple env \<rho> t (current i t m) (set_state m st upd) (current i t) (held i t {mg_state m, st} m)"
proof (rule worker.triple_conseq)
  show "worker.triple env \<rho> t (\<lambda>w. current i t m w \<and> True) (set_state m st upd)
      (\<lambda>m' w. current i t m' w \<and> mg_state m' = st \<and> same_migration m m') (held i t {mg_state m, st} m)"
    by (rule set_state_triple [OF assms(1) disjI1 [OF assms(2)] assms(3)])
      (use assms(2) in \<open>auto simp: robust_def can_cancel_def\<close>)
qed auto

lemma fail_mine: "worker.triple env \<rho> t (mine i t) (io_fail e) Q (mine i t)"
  by (rule worker.triple_fail)

text \<open>What is tried after a failed transition, its own failure ignored.\<close>

lemma undo_triple:
  assumes "worker.triple env \<rho> t (held i t S m) (target_call f) (\<lambda>_. held i t S m) (held i t S m)"
  shows "worker.triple env \<rho> t (held i t S m) (io_bind (io_ignore (target_call f)) (\<lambda>_. io_fail e)) Q (mine i t)"
  by (rule worker.triple_bind [OF worker.triple_ignore [OF assms]]) (auto intro: worker.triple_fail held_mine)

lemma source_fence_is:
  assumes "source_fence m = Inr f"
  shows "tf_tenant_id f = mg_tenant_id m" "tf_target_key f = mg_source_target_key m"
    "tf_generation f = mg_source_generation m" "tf_switch_token f = mg_source_switch_token m"
  using assms by (auto simp: source_fence_def checked_generation_def bind_result_eq_Inr split: if_splits)

lemma target_fence_is:
  assumes "target_fence m = Inr f"
  shows "tf_tenant_id f = mg_tenant_id m" "tf_target_key f = mg_target_key m"
    "tf_generation f = mg_target_generation m" "tf_switch_token f = mg_switch_token m"
  using assms by (auto simp: target_fence_def checked_generation_def bind_result_eq_Inr split: if_splits)

lemma held_target:
  assumes "\<And>w x ts. safe (me_catalog env) \<rho> t w \<Longrightarrow> catalog_wf (me_catalog env) \<Longrightarrow> mg_tenant_id m = t \<Longrightarrow> row_at m S w \<Longrightarrow>
      f (wd_targets w) = Inr (x, ts) \<Longrightarrow> safe (me_catalog env) \<rho> t (w\<lparr>wd_targets := ts\<rparr>)"
    "\<And>w. held i t S m w \<Longrightarrow> F w"
  shows "worker.triple env \<rho> t (held i t S m) (target_call f) (\<lambda>_. held i t S m) F"
proof (rule target_moves)
  fix w x ts
  assume a: "sound env \<rho> t w" "held i t S m w" "f (wd_targets w) = Inr (x, ts)"
  show "safe (me_catalog env) \<rho> t (w\<lparr>wd_targets := ts\<rparr>) \<and> held i t S m (w\<lparr>wd_targets := ts\<rparr>)"
    using assms(1) [OF soundD(1,2) [OF a(1)] heldD(1,2) [OF a(2)] a(3)] a(2) by simp
qed (use assms(2) in auto)

lemma activate_triple:
  assumes "opens_placed m f S"
  shows "worker.triple env \<rho> t (held i t S m) (target_call (activate_fence (me_registry env) f))
    (\<lambda>_. held i t S m) (held i t S m)"
  by (rule held_target) (rule activate_fence_safe [OF _ _ _ assms], assumption+)

section \<open>Steps that leave the worker where it is\<close>

lemma held_steps:
  fixes S i t
  defines "F \<equiv> mine i t"
  shows "worker.triple env \<rho> t (held i t S m) (assert_worker_can_run n st) (\<lambda>_. held i t S m) F"
    "worker.triple env \<rho> t (held i t S m) (verify_now env' key) (\<lambda>_. held i t S m) F"
    "worker.triple env \<rho> t (held i t S m) (validate_catalog env' key) (\<lambda>_. held i t S m) F"
    "worker.triple env \<rho> t (held i t S m) (target_read g) (\<lambda>_. held i t S m) F"
    "worker.triple env \<rho> t (held i t S m) (control_read g') (\<lambda>_. held i t S m) F"
    "worker.triple env \<rho> t (held i t S m) database_now (\<lambda>_. held i t S m) F"
    "worker.triple env \<rho> t (held i t S m) (save_item_call x) (\<lambda>_. held i t S m) F"
    "worker.triple env \<rho> t (held i t S m) (insert_item_call x) (\<lambda>_. held i t S m) F"
    "worker.triple env \<rho> t (held i t S m) local_clock (\<lambda>_. held i t S m) F"
    "worker.triple env \<rho> t (held i t S m) fresh_id (\<lambda>_. held i t S m) F"
  unfolding F_def verify_now_def validate_catalog_def
  by (rule assert_worker_quiet target_quiet control_reads clock_reads items_quiet worker.triple_clock worker.triple_fresh;
      (rule robust_held | erule held_mine))+

lemma held_lift:
  "worker.triple env \<rho> t (held i t S m) (io_lift r) (\<lambda>x w. r = Inr x \<and> held i t S m w) (mine i t)"
  by (rule lift_quiet) (rule held_mine)

lemma pure_pre:
  assumes "A \<Longrightarrow> worker.triple env \<rho> t P m Q F"
  shows "worker.triple env \<rho> t (\<lambda>w. A \<and> P w) m Q F"
  by (rule worker.tripleI) (use worker.tripleD [OF assms] in blast)

lemma held_frozen:
  "mg_tenant_id n = t \<Longrightarrow> worker.triple env \<rho> t (held i t S m) (assert_migration_frozen_fence env n key) (\<lambda>_. held i t S m) (mine i t)"
  by (rule worker.triple_post [OF frozen_asserted]) (auto intro: held_mine)

lemma held_timed:
  assumes "\<And>now tnow clock db x db'. f now tnow clock db = Inr (x, db') \<Longrightarrow> flags_only db db'"
  shows "worker.triple env \<rho> t (held i t S m) (timed_txn f) (\<lambda>_. held i t S m) (mine i t)"
  by (rule timed_quiet) (use assms in \<open>auto intro: held_mine\<close>)

section \<open>Up to the copy\<close>

lemma prepare_triple:
  assumes "mg_state m = mg_PRECHECKING"
  shows "worker.triple env \<rho> t (current i t m) (prepare_migration_target env m) (current i t) (mine i t)"
  unfolding prepare_migration_target_def
proof (rule worker.triple_bind [OF held_steps(1)], rule worker.triple_bind [OF held_steps(2)],
    rule worker.triple_bind [OF held_lift], rule pure_pre, rule worker.triple_bind)
  fix f assume "target_fence m = Inr f"
  note f = target_fence_is [OF this]
  let ?S = "{mg_PRECHECKING, mg_QUEUED}"
  show "worker.triple env \<rho> t (current i t m) (target_call (prepare_target (me_registry env) (me_catalog env) f))
      (\<lambda>_. current i t m) (mine i t)"
    by (rule held_target [OF _ held_mine]) (rule prepare_target_safe, assumption+, simp add: f)
  have "worker.triple env \<rho> t (current i t m) (set_state m mg_QUEUED (\<lambda>x now. x\<lparr>mg_queued_at := Some now\<rparr>))
      (current i t) (held i t ?S m)"
    using set_state_plain [of m mg_QUEUED "\<lambda>x now. x\<lparr>mg_queued_at := Some now\<rparr>" env \<rho> t i] assms
    by (simp add: can_cancel_def plan_of_eq)
  moreover have "spare m (mg_target_key m) ?S" by (simp add: spare_def cancellable_def)
  then have "worker.triple env \<rho> t (held i t ?S m) (target_call (clear_prepared_target (me_registry env) (me_catalog env) f))
      (\<lambda>_. held i t ?S m) (held i t ?S m)"
    by (intro held_target, intro clear_prepared_safe) (simp_all add: f)
  ultimately show "worker.triple env \<rho> t (current i t m) (io_catch (set_state m mg_QUEUED (\<lambda>x now. x\<lparr>mg_queued_at := Some now\<rparr>))
       (\<lambda>e. io_bind (io_ignore (target_call (clear_prepared_target (me_registry env) (me_catalog env) f)))
          (\<lambda>_. io_fail e))) (current i t) (mine i t)"
    by (rule worker.triple_catch [OF _ undo_triple])
qed

lemma maintenance_triple:
  assumes "mg_state m = mg_QUEUED"
  shows "worker.triple env \<rho> t (current i t m) (enter_maintenance m) (current i t) (mine i t)"
  unfolding enter_maintenance_def
  by (rule timed_moves) (use assms enter_maintenance_ok heldD in metis)

lemma freeze_triple:
  assumes "mg_state m = mg_QUIESCING"
  shows "worker.triple env \<rho> t (current i t m) (freeze_source env m) (current i t) (mine i t)"
  unfolding freeze_source_def
proof (rule worker.triple_bind [OF held_steps(1)], rule worker.triple_bind [OF held_lift], rule pure_pre, rule worker.triple_bind)
  fix f assume "source_fence m = Inr f"
  note f = source_fence_is [OF this]
  let ?S = "{mg_QUIESCING, mg_FROZEN}"
  show "worker.triple env \<rho> t (current i t m) (target_call (freeze_fence (me_registry env) f)) (\<lambda>_. current i t m) (mine i t)"
    by (rule held_target [OF _ held_mine]) (rule freeze_fence_safe)
  have "worker.triple env \<rho> t (current i t m) (set_state m mg_FROZEN (\<lambda>x now. x\<lparr>mg_frozen_at := Some now\<rparr>))
      (current i t) (held i t ?S m)"
    using set_state_plain [of m mg_FROZEN "\<lambda>x now. x\<lparr>mg_frozen_at := Some now\<rparr>" env \<rho> t i] assms
    by (simp add: can_cancel_def plan_of_eq)
  moreover have "opens_placed m f ?S" using f by (simp add: opens_placed_def cancellable_def)
  ultimately show "worker.triple env \<rho> t (current i t m) (io_catch (set_state m mg_FROZEN (\<lambda>x now. x\<lparr>mg_frozen_at := Some now\<rparr>))
       (\<lambda>e. io_bind (io_ignore (target_call (activate_fence (me_registry env) f))) (\<lambda>_. io_fail e))) (current i t) (mine i t)"
    by (rule worker.triple_catch [OF _ undo_triple [OF activate_triple]])
qed

section \<open>The copy\<close>

text \<open>The rows of a batch are rows of the tenant as they stood in the source when it was read.\<close>

definition rows_fit :: "data_codec \<Rightarrow> TenantDataTableDescriptor \<Rightarrow> data_row set \<Rightarrow> string \<Rightarrow> TenantDataRow list \<Rightarrow> bool" where
  "rows_fit k d \<rho> t rows \<longleftrightarrow> (\<forall>r \<in> set rows. row_of_tenant d t (decode_row k r) \<and> row_wf d (decode_row k r) \<and> decode_row k r \<in> \<rho>)"

lemma decode_encode [simp]: "codec_ok k \<Longrightarrow> decode_row k (encode_row k r) = r"
  unfolding decode_row_def encode_row_def codec_ok_def by (intro nth_equalityI) (auto split: option.split simp: option.map_comp bind_map_option comp_def intro: option.exhaust)

lemma batch_fits:
  assumes "sound env \<rho> t w" "row_get de_table table (me_catalog env) = Some d"
    "read_rows_batch reg (me_catalog env) (me_codec env) key t table cursor n (wd_targets w) = Inr b"
  shows "rows_fit (me_codec env) d \<rho> t (rb_rows b)"
proof -
  have "set (rb_rows b) \<subseteq> encode_row (me_codec env) ` set (select_page (me_codec env) d t cursor n (wd_targets w key))"
    using assms(2,3) by (auto simp: read_rows_batch_def catalog_table_def bind_result_eq_Inr Let_def split: if_splits)
  moreover have "set (select_page (me_codec env) d t cursor n (wd_targets w key)) \<subseteq> set (tenant_rows d t (wd_targets w key))"
    unfolding select_page_def by (rule order_trans [OF set_take_subset]) auto
  moreover have "d \<in> set (me_catalog env)" using row_get_SomeD [OF assms(2)] by simp
  then have "set (tenant_rows d t (wd_targets w key)) \<subseteq> \<rho>" "table_ok d (tenant_rows d t (wd_targets w key))"
    using safe_rows [OF soundD(1) [OF assms(1)], of key] by (auto simp: rows_ok_def)
  moreover have "row_of_tenant d t r" if "r \<in> set (tenant_rows d t (wd_targets w key))" for r
    using that by (simp add: tenant_rows_def)
  ultimately show ?thesis using soundD(3) [OF assms(1)] by (fastforce simp: rows_fit_def table_ok_def)
qed

lemma copy_batch_triple:
  assumes m: "mg_tenant_id m = t" "S \<subseteq> cancellable" and d: "row_get de_table (de_table d) (me_catalog env) = Some d"
  shows "worker.triple env \<rho> t (held i t S m) (copy_batch env m d s) (\<lambda>_. held i t S m) (mine i t)"
proof -
  obtain cursor item where s: "s = (cursor, item)" by (cases s)
  let ?P = "held i t S m"
  have reads: "worker.triple env \<rho> t ?P (target_read (read_rows_batch (me_registry env) (me_catalog env) (me_codec env)
       (mg_source_target_key m) (mg_tenant_id m) (de_table d) cursor COPY_BATCH_SIZE))
      (\<lambda>b w. rows_fit (me_codec env) d \<rho> t (rb_rows b) \<and> ?P w) (mine i t)"
    by (rule worker.triple_target_read [OF robust_stable]) (use m batch_fits [OF _ d] in \<open>auto intro: held_mine\<close>)
  have writes: "worker.triple env \<rho> t ?P (target_call (\<lambda>ts. bind_result (write_rows_batch (me_registry env) (me_catalog env) (me_codec env) f
         (de_table d) rows ts) (\<lambda>ts'. Inr ((), ts')))) (\<lambda>_. ?P) (mine i t)"
    if f: "target_fence m = Inr f" and rows: "rows_fit (me_codec env) d \<rho> t rows" for f rows
  proof (rule held_target [OF _ held_mine])
    fix w x ts
    assume a: "safe (me_catalog env) \<rho> t w" "catalog_wf (me_catalog env)" "mg_tenant_id m = t" "row_at m S w"
      "bind_result (write_rows_batch (me_registry env) (me_catalog env) (me_codec env) f (de_table d) rows (wd_targets w))
         (\<lambda>ts'. Inr ((), ts')) = Inr (x, ts)"
    have run: "write_rows_batch (me_registry env) (me_catalog env) (me_codec env) f (de_table d) rows (wd_targets w) = Inr ts"
      using a(5) by (auto simp: bind_result_eq_Inr)
    have "spare m (tf_target_key f) S" using target_fence_is [OF f] m(2) by (simp add: spare_def)
    then show "safe (me_catalog env) \<rho> t (w\<lparr>wd_targets := ts\<rparr>)"
      by (rule write_rows_safe [OF a(1,3,4) _ a(2) d _ run]) (use rows in \<open>auto simp: rows_fit_def\<close>)
  qed
  show ?thesis
    unfolding copy_batch_def s prod.case
  proof (rule worker.triple_bind [OF held_frozen [OF m(1)]], rule worker.triple_bind [OF reads], rule pure_pre)
    fix b assume fit: "rows_fit (me_codec env) d \<rho> t (rb_rows b)"
    show "worker.triple env \<rho> t ?P (if rb_rows b = [] then io_return (Inr item)
     else
       io_bind (io_lift (target_fence m)) (\<lambda>f.
       io_bind (target_call (\<lambda>ts. bind_result (write_rows_batch (me_registry env) (me_catalog env) (me_codec env) f
         (de_table d) (rb_rows b) ts) (\<lambda>ts'. Inr ((), ts')))) (\<lambda>_.
       io_bind (io_lift (add_rows msg_td_batch_rows msg_td_rows
         (case mi_source_row_count item of Some n \<Rightarrow> n | None \<Rightarrow> 0) (length (rb_rows b)))) (\<lambda>count.
       io_bind (io_lift (rolling_digest (me_codec env) (mi_source_digest item) (rb_rows b))) (\<lambda>digest.
       io_bind (timed_txn (\<lambda>now tnow _. copy_progress_txn m (mi_id item) (rb_next_cursor b) count digest now tnow))
         (\<lambda>item'.
       io_return (if length (rb_rows b) < COPY_BATCH_SIZE then Inr item' else Inl (rb_next_cursor b, item'))))))))
      (\<lambda>_. ?P) (mine i t)"
    proof (cases "rb_rows b = []")
      case False
      show ?thesis
        by (simp only: False if_False) (rule worker.triple_bind [OF held_lift] pure_pre worker.triple_bind [OF writes [OF _ fit]]
          worker.triple_bind [OF held_timed [of "\<lambda>now tnow _. copy_progress_txn m (mi_id item) (rb_next_cursor b) count digest now tnow" for count digest]]
          worker.triple_return same_control_flags copy_progress_flags | assumption)+
    qed (auto intro: worker.triple_return)
  qed
qed

lemma item_or_new_triple:
  assumes "worker.triple env \<rho> t (held i t S m) clock (\<lambda>_. held i t S m) (mine i t)"
  shows "worker.triple env \<rho> t (held i t S m) (item_or_new clock items n d) (\<lambda>_. held i t S m) (mine i t)"
  unfolding item_or_new_def
  by (auto split: option.split intro!: worker.triple_return worker.triple_bind [OF assms]
      worker.triple_bind [OF held_steps(10)] worker.triple_bind [OF held_lift] pure_pre held_steps(8))

lemma copy_table_triple:
  assumes m: "mg_tenant_id m = t" "S \<subseteq> cancellable" and d: "row_get de_table (de_table d) (me_catalog env) = Some d"
  shows "worker.triple env \<rho> t (held i t S m) (copy_table env m items d) (\<lambda>_. held i t S m) (mine i t)"
proof -
  let ?P = "held i t S m"
  have batches: "worker.triple env \<rho> t ?P (copy_table_in_batches env m d item) (\<lambda>_. ?P) (mine i t)" for item
  proof -
    have "worker.triple env \<rho> t ?P (io_loop (copy_batch env m d) s) (\<lambda>_. ?P) (mine i t)" for s
      by (rule worker.triple_loop [where P = "\<lambda>_. ?P", OF worker.triple_post [OF copy_batch_triple [OF assms]]])
        (auto split: sum.split)
    then show ?thesis
      unfolding copy_table_in_batches_def Let_def by (auto intro: worker.triple_fail held_mine)
  qed
  have rest: "worker.triple env \<rho> t ?P (io_bind local_clock (\<lambda>now.
       io_bind (save_item_call (item\<lparr>mi_state := mi_COPYING,
         mi_copy_started_at := or_now (mi_copy_started_at item) now, mi_updated_at := now\<rparr>)) (\<lambda>item1.
       io_bind (copy_table_in_batches env m d item1) (\<lambda>item2.
       io_bind local_clock (\<lambda>end.
       io_bind (save_item_call (item2\<lparr>mi_state := mi_COPIED, mi_copied_at := Some end, mi_updated_at := end\<rparr>))
         (\<lambda>_. io_return ())))))) (\<lambda>_. ?P) (mine i t)" for item
    by (rule worker.triple_bind [OF held_steps(9)], rule worker.triple_bind [OF held_steps(7)],
        rule worker.triple_bind [OF batches], rule worker.triple_bind [OF held_steps(9)],
        rule worker.triple_bind [OF held_steps(7)]) (rule worker.triple_return)
  show ?thesis
    unfolding copy_table_def
    by (rule worker.triple_bind [OF item_or_new_triple [OF held_steps(9)]]) (use rest in \<open>auto intro: worker.triple_return\<close>)
qed

text \<open>A table of the catalog is found under its name.\<close>

lemma catalog_found: "catalog_wf c \<Longrightarrow> d \<in> set c \<Longrightarrow> row_get de_table (de_table d) c = Some d"
  by (intro unique_row_get) (auto simp: catalog_wf_def unique_key_def)

lemma catalog_pre:
  assumes "catalog_wf (me_catalog env) \<Longrightarrow> worker.triple env \<rho> t P m Q F"
  shows "worker.triple env \<rho> t P m Q F"
  by (rule worker.tripleI) (use worker.tripleD [OF assms] soundD(2) in blast)

lemma each_table:
  assumes "\<And>d. row_get de_table (de_table d) (me_catalog env) = Some d \<Longrightarrow> worker.triple env \<rho> t P (f d) (\<lambda>_. P) F"
  shows "worker.triple env \<rho> t P (io_each f (me_catalog env)) (\<lambda>_. P) F"
    "worker.triple env \<rho> t P (io_each f (rev (me_catalog env))) (\<lambda>_. P) F"
proof -
  have "worker.triple env \<rho> t P (io_each f ds) (\<lambda>_. P) F" if ds: "set ds \<subseteq> set (me_catalog env)" for ds
  proof (rule catalog_pre)
    assume "catalog_wf (me_catalog env)"
    then have "worker.triple env \<rho> t P (f d) (\<lambda>_. P) F" if "d \<in> set ds" for d
      using assms catalog_found that ds by blast
    then show "worker.triple env \<rho> t P (io_each f ds) (\<lambda>_. P) F" by (intro worker.triple_each [where P = "\<lambda>_. P"]) simp
  qed
  then show "worker.triple env \<rho> t P (io_each f (me_catalog env)) (\<lambda>_. P) F"
    "worker.triple env \<rho> t P (io_each f (rev (me_catalog env))) (\<lambda>_. P) F" by simp_all
qed

lemma copy_stage_triple:
  assumes st: "mg_state m = mg_COPYING"
  shows "worker.triple env \<rho> t (current i t m) (copy_stage env m) (current i t) (mine i t)"
proof -
  let ?P = "current i t m"
  have S: "{mg_state m} \<subseteq> cancellable" using st by (simp add: cancellable_def)
  have catalog: "worker.triple env \<rho> t ?P (copy_catalog env m) (\<lambda>_. ?P) (mine i t)"
  proof (rule worker.triple_pre [of _ _ _ "\<lambda>w. mg_tenant_id m = t \<and> ?P w"], rule pure_pre)
    assume mt: "mg_tenant_id m = t"
    show "worker.triple env \<rho> t ?P (copy_catalog env m) (\<lambda>_. ?P) (mine i t)"
      unfolding copy_catalog_def
      by (rule worker.triple_bind [OF held_steps(3)], rule worker.triple_bind [OF held_steps(3)],
          rule worker.triple_bind [OF held_steps(5)]) (rule each_table(1) [OF copy_table_triple [OF mt S]])
  qed (simp add: held_def)
  have move: "worker.triple env \<rho> t ?P (set_state m mg_VERIFYING (\<lambda>x now. x\<lparr>mg_copy_completed_at := Some now\<rparr>))
      (current i t) (mine i t)"
    by (rule worker.triple_conseq [OF set_state_plain]) (use st in \<open>auto simp: can_cancel_def plan_of_eq intro: held_mine\<close>)
  show ?thesis
    unfolding copy_stage_def
    by (rule worker.triple_bind [OF held_steps(1)], rule worker.triple_bind [OF catalog]) (rule move)
qed

lemma frozen_stage_triple:
  assumes "mg_state m = mg_FROZEN"
  shows "worker.triple env \<rho> t (current i t m) (set_state m mg_COPYING (\<lambda>x now. x\<lparr>mg_copy_started_at := Some now\<rparr>))
    (current i t) (mine i t)"
  by (rule worker.triple_conseq [OF set_state_plain]) (use assms in \<open>auto simp: can_cancel_def plan_of_eq intro: held_mine\<close>)

section \<open>The cut-over and what follows it\<close>

lemma tenant_pre:
  assumes "mg_tenant_id m = t \<Longrightarrow> worker.triple env \<rho> t (held i t S m) f Q F"
  shows "worker.triple env \<rho> t (held i t S m) f Q F"
  by (rule worker.triple_pre [of _ _ _ "\<lambda>w. mg_tenant_id m = t \<and> held i t S m w"], rule pure_pre [OF assms])
    (simp_all add: held_def)

lemma cut_over_triple:
  assumes "mg_state m = mg_CUTTING_OVER"
  shows "worker.triple env \<rho> t (current i t m) (cut_over env m) (current i t) (mine i t)"
proof (rule tenant_pre)
  assume mt: "mg_tenant_id m = t"
  have "worker.triple env \<rho> t (current i t m) (timed_txn (cut_over_txn m)) (current i t) (mine i t)"
    by (rule timed_moves) (use assms cut_over_ok heldD in metis)
  then show "worker.triple env \<rho> t (current i t m) (cut_over env m) (current i t) (mine i t)"
    unfolding cut_over_def
    by (intro worker.triple_bind [OF held_steps(2)] worker.triple_bind [OF held_frozen [OF mt]])
qed

lemma activate_target_triple:
  assumes "mg_state m = mg_ACTIVATING"
  shows "worker.triple env \<rho> t (current i t m) (activate_target env m) (current i t) (mine i t)"
  unfolding activate_target_def
proof (rule worker.triple_bind [OF held_steps(1)], rule worker.triple_bind [OF held_lift], rule pure_pre, rule worker.triple_bind)
  fix f assume "target_fence m = Inr f"
  note f = target_fence_is [OF this]
  have "opens_placed m f {mg_state m}" using f assms by (simp add: opens_placed_def activated_def)
  then show "worker.triple env \<rho> t (current i t m) (target_call (activate_fence (me_registry env) f))
      (\<lambda>_. current i t m) (mine i t)"
    by (rule worker.triple_conseq [OF activate_triple]) (auto intro: held_mine)
  show "worker.triple env \<rho> t (current i t m) (timed_txn (activate_control_txn m)) (current i t) (mine i t)"
    by (rule timed_moves) (use assms activate_control_ok heldD in metis)
qed

lemma retention_triple:
  assumes "mg_state m = mg_SUCCEEDED"
  shows "worker.triple env \<rho> t (current i t m) (enter_retention m) (current i t) (mine i t)"
  unfolding enter_retention_def
  by (rule timed_moves) (use assms enter_retention_ok heldD in metis)

end
