(* ===== verification/Migration_Verification.thy ===== *)
theory Migration_Verification
  imports Migration_Stages
begin

text \<open>
  The verification of a copy. While the fence of a target is closed its rows do not change, so the
  pages of a table add up to its digest, and equal digests on both sides mean equal rows. After it
  the migration is ready for the cut-over.
\<close>

section \<open>The rows behind a closed fence\<close>

definition closed_rows ::
  "string \<Rightarrow> string \<Rightarrow> TenantDataTableDescriptor \<Rightarrow> (data_row list \<Rightarrow> bool) \<Rightarrow> world \<Rightarrow> bool" where
  "closed_rows t key d X w \<longleftrightarrow> open_fence t (wd_targets w key) = None \<and> X (ordered_rows d t (wd_targets w key))"

lemma kept_closed:
  assumes "kept c t w w'" "open_fence t (wd_targets w key) = None" "d \<in> set c"
  shows "open_fence t (wd_targets w' key) = None" "ordered_rows d t (wd_targets w' key) = ordered_rows d t (wd_targets w key)"
  using assms ordered_rows_cong [of d t "wd_targets w' key" "wd_targets w key"] by (auto simp: kept_def open_fence_def)

lemma robust_closed_rows: "d \<in> set c \<Longrightarrow> robust c t (closed_rows t key d X)"
  using kept_closed by (auto simp: robust_def closed_rows_def)

definition same_table :: "string \<Rightarrow> string \<Rightarrow> string \<Rightarrow> TenantDataTableDescriptor \<Rightarrow> world \<Rightarrow> bool" where
  "same_table t a b d w \<longleftrightarrow> open_fence t (wd_targets w a) = None \<and> open_fence t (wd_targets w b) = None \<and>
     ordered_rows d t (wd_targets w a) = ordered_rows d t (wd_targets w b)"

lemma robust_same_table: "d \<in> set c \<Longrightarrow> robust c t (same_table t a b d)"
  using kept_closed by (auto simp: robust_def same_table_def)

lemma robust_all: "(\<And>x. x \<in> A \<Longrightarrow> robust c t (P x)) \<Longrightarrow> robust c t (\<lambda>w. \<forall>x \<in> A. P x w)"
  unfolding robust_def by blast

section \<open>Adding up the pages\<close>

fun stands ::
  "data_codec \<Rightarrow> TenantDataTableDescriptor \<Rightarrow> data_row list \<Rightarrow> nat \<Rightarrow> string list option \<times> int \<times> string option \<Rightarrow> bool" where
  "stands k d rows j (cursor, sofar, digest) \<longleftrightarrow> cursor_at k d rows j cursor \<and> sofar = int j \<and>
     (case digest of
        None \<Rightarrow> j = 0
      | Some x \<Rightarrow> 0 < j \<and> rolling_digest k None (map (encode_row k) (take j rows)) = Inr x)"

definition digested :: "data_codec \<Rightarrow> int \<times> string option \<Rightarrow> data_row list \<Rightarrow> bool" where
  "digested k = (\<lambda>(sofar, digest) rows. sofar = int (length rows) \<and>
     (case digest of None \<Rightarrow> rows = [] | Some x \<Rightarrow> rows \<noteq> [] \<and> rolling_digest k None (map (encode_row k) rows) = Inr x))"

lemma stands_start: "stands k d rows 0 (None, 0, None)"
  by (simp add: cursor_at_def)

lemma stands_le: "stands k d rows j (cursor, sofar, digest) \<Longrightarrow> j \<le> length rows"
  by (auto simp: cursor_at_def split: option.splits)

lemma page_added:
  assumes k: "codec_ok k" and s: "stands k d rows j (cursor, sofar, digest)"
    and page: "page = map (encode_row k) (take n (drop j rows))" "page \<noteq> []"
    and d': "rolling_digest k digest page = Inr digest'"
  shows "rolling_digest k None (map (encode_row k) (take (j + length page) rows)) = Inr digest'"
proof -
  have "take (length page) (drop j rows) = take n (drop j rows)" by (simp add: page(1) min_def)
  then have split: "map (encode_row k) (take (j + length page) rows) = map (encode_row k) (take j rows) @ page"
    by (simp add: take_add page(1))
  show ?thesis
  proof (cases digest)
    case None
    then have "j = 0" using s by simp
    then show ?thesis using split d' None by simp
  next
    case (Some x)
    then have "rolling_digest k None (map (encode_row k) (take j rows)) = Inr x" using s by simp
    from rolling_digest_split [OF k this, of page] show ?thesis using split d' Some by simp
  qed
qed

lemma stands_next:
  assumes k: "codec_ok k" and s: "stands k d rows j (cursor, sofar, digest)"
    and page: "page = map (encode_row k) (take n (drop j rows))" "page \<noteq> []"
    and d': "rolling_digest k digest page = Inr digest'"
    and c': "sofar' = sofar + int (length page)" and cur: "cursor_at k d rows (j + length page) cursor'"
  shows "stands k d rows (j + length page) (cursor', sofar', Some digest')"
    "length page < n \<Longrightarrow> digested k (sofar', Some digest') rows"
proof -
  have sofar: "sofar = int j" using s by simp
  note dg = page_added [OF k s page d']
  show "stands k d rows (j + length page) (cursor', sofar', Some digest')"
    using dg cur c' sofar page(2) by simp
  show "digested k (sofar', Some digest') rows" if "length page < n"
  proof -
    have "j + length page = length rows" using that page stands_le [OF s] by auto
    then show ?thesis using dg c' sofar page(2) by (auto simp: digested_def)
  qed
qed

lemma add_rows_Inr: "add_rows a b sofar n = Inr v \<Longrightarrow> v = sofar + int n"
  by (auto simp: add_rows_def checked_add_i64_def Let_def split: if_splits option.splits)

definition at_page ::
  "migration_env \<Rightarrow> string \<Rightarrow> string \<Rightarrow> TenantDataTableDescriptor \<Rightarrow> string list option \<times> int \<times> string option \<Rightarrow> world \<Rightarrow> bool"
where
  "at_page env t key d s w \<longleftrightarrow> s = (None, 0, None) \<or>
     closed_rows t key d (\<lambda>rows. \<exists>j. stands (me_codec env) d rows j s) w"

lemma robust_or: "robust c t P \<Longrightarrow> robust c t (\<lambda>w. A \<or> P w)"
  by (auto simp: robust_def)

lemma robust_at_page: "d \<in> set (me_catalog env) \<Longrightarrow> robust (me_catalog env) t (at_page env t key d s)"
  unfolding at_page_def by (intro robust_or robust_closed_rows)

lemma digest_batch_triple:
  assumes P: "robust (me_catalog env) t P" "\<And>w. P w \<Longrightarrow> F w" and m: "mg_tenant_id m = t"
    and d: "row_get de_table (de_table d) (me_catalog env) = Some d"
  shows "worker.triple env \<rho> t (\<lambda>w. P w \<and> at_page env t key d s w) (digest_batch env m key d s)
    (\<lambda>r. case r of Inl s' \<Rightarrow> (\<lambda>w. P w \<and> at_page env t key d s' w)
       | Inr x \<Rightarrow> (\<lambda>w. P w \<and> closed_rows t key d (digested (me_codec env) x) w)) F"
proof -
  obtain cursor sofar digest where s: "s = (cursor, sofar, digest)" by (cases s) auto
  let ?k = "me_codec env"
  have dc: "d \<in> set (me_catalog env)" using row_get_SomeD [OF d] by simp
  define T :: "TenantDataRowBatch \<Rightarrow> data_row list \<Rightarrow> bool" where "T b rows \<longleftrightarrow> (\<exists>j. stands ?k d rows j s \<and> rb_rows b = map (encode_row ?k) (take COPY_BATCH_SIZE (drop j rows)) \<and>
    (rb_rows b \<noteq> [] \<longrightarrow> cursor_at ?k d rows (j + length (rb_rows b)) (rb_next_cursor b)))" for b rows
  have frozen: "worker.triple env \<rho> t (\<lambda>w. P w \<and> at_page env t key d s w) (assert_migration_frozen_fence env m key)
      (\<lambda>_ w. P w \<and> closed_rows t key d (\<lambda>rows. \<exists>j. stands ?k d rows j s) w) F"
  proof (rule worker.triple_post [OF frozen_asserted [OF _ _ m]])
    show "robust (me_catalog env) t (\<lambda>w. P w \<and> at_page env t key d s w)" using P(1) robust_at_page [OF dc] by blast
  qed (use P(2) stands_start in \<open>auto simp: at_page_def closed_rows_def\<close>)
  have reads: "worker.triple env \<rho> t (\<lambda>w. P w \<and> closed_rows t key d (\<lambda>rows. \<exists>j. stands ?k d rows j s) w)
      (target_read (read_rows_batch (me_registry env) (me_catalog env) ?k key (mg_tenant_id m) (de_table d) cursor COPY_BATCH_SIZE))
      (\<lambda>b w. P w \<and> closed_rows t key d (T b) w) F"
  proof (rule worker.triple_target_read [OF robust_stable])
    show "robust (me_catalog env) t (\<lambda>w. P w \<and> closed_rows t key d (\<lambda>rows. \<exists>j. stands ?k d rows j s) w)"
      using P(1) robust_closed_rows [OF dc] by blast
    fix w b
    assume a: "sound env \<rho> t w" "P w \<and> closed_rows t key d (\<lambda>rows. \<exists>j. stands ?k d rows j s) w"
      "read_rows_batch (me_registry env) (me_catalog env) ?k key (mg_tenant_id m) (de_table d) cursor COPY_BATCH_SIZE (wd_targets w) = Inr b"
    obtain j where j: "stands ?k d (ordered_rows d t (wd_targets w key)) j s" using a(2) by (auto simp: closed_rows_def)
    have ok: "table_ok d (tenant_rows d t (wd_targets w key))"
      using safe_rows [OF soundD(1) [OF a(1)], of key] dc by (simp add: rows_ok_def)
    have at: "cursor_at ?k d (ordered_rows d t (wd_targets w key)) j cursor" using j by (simp add: s)
    have "T b (ordered_rows d t (wd_targets w key))"
      unfolding T_def using j read_rows_batch_at [OF soundD(3,2) [OF a(1)] d ok at a(3) [unfolded m]] by blast
    then show "P w \<and> closed_rows t key d (T b) w" using a(2) unfolding closed_rows_def by blast
  qed (use P(2) in auto)
  show ?thesis
    unfolding digest_batch_def s prod.case
  proof (rule worker.triple_bind [OF frozen [unfolded s]], rule worker.triple_bind [OF reads [unfolded s]])
    fix b
    let ?Q = "\<lambda>r. case r of Inl s' \<Rightarrow> (\<lambda>w. P w \<and> at_page env t key d s' w)
       | Inr x \<Rightarrow> (\<lambda>w. P w \<and> closed_rows t key d (digested ?k x) w)"
    show "worker.triple env \<rho> t (\<lambda>w. P w \<and> closed_rows t key d (T b) w) (if rb_rows b = [] then io_return (Inr (sofar, digest))
     else
       io_bind (io_lift (rolling_digest (me_codec env) digest (rb_rows b))) (\<lambda>digest'.
       io_bind (io_lift (add_rows msg_td_verify_rows msg_td_verify_rows sofar (length (rb_rows b)))) (\<lambda>sofar'.
       io_bind (assert_worker_can_run m mg_VERIFYING) (\<lambda>_.
       io_return (if length (rb_rows b) < COPY_BATCH_SIZE then Inr (sofar', Some digest')
                  else Inl (rb_next_cursor b, sofar', Some digest')))))) ?Q F"
    proof (cases "rb_rows b = []")
      case True
      have "digested ?k (sofar, digest) rows" if "T b rows" for rows
        using that stands_le [of ?k d rows _ cursor sofar digest] True
        by (auto simp: T_def s digested_def COPY_BATCH_SIZE_def split: option.splits)
      then show ?thesis using True by (auto intro!: worker.triple_return simp: closed_rows_def)
    next
      case False
      show ?thesis
        unfolding if_not_P [OF False]
      proof (rule worker.triple_bind [OF lift_quiet], use P(2) in blast, rule pure_pre,
          rule worker.triple_bind [OF lift_quiet], use P(2) in blast, rule pure_pre,
          rule worker.triple_bind [OF assert_worker_quiet], use P(1) robust_closed_rows [OF dc] in blast, use P(2) in blast)
        fix digest' sofar' u
        assume dg: "rolling_digest ?k digest (rb_rows b) = Inr digest'"
          and cnt: "add_rows msg_td_verify_rows msg_td_verify_rows sofar (length (rb_rows b)) = Inr sofar'"
        show "worker.triple env \<rho> t (\<lambda>w. P w \<and> closed_rows t key d (T b) w)
          (io_return (if length (rb_rows b) < COPY_BATCH_SIZE then Inr (sofar', Some digest')
             else Inl (rb_next_cursor b, sofar', Some digest'))) ?Q F"
          unfolding worker.triple_def
        proof (intro allI impI, goal_cases)
          case (1 ts w)
          let ?R = "ordered_rows d t (wd_targets w key)"
          obtain j where j: "stands ?k d ?R j (cursor, sofar, digest)"
              "rb_rows b = map (encode_row ?k) (take COPY_BATCH_SIZE (drop j ?R))"
              "cursor_at ?k d ?R (j + length (rb_rows b)) (rb_next_cursor b)"
            using 1(3) False by (auto simp: closed_rows_def T_def s)
          note nxt = stands_next [OF soundD(3) [OF 1(2)] j(1,2) False dg add_rows_Inr [OF cnt] j(3)]
          show ?case
            using nxt 1 by (auto simp: io_return_def closed_rows_def at_page_def)
        qed
      qed
    qed
  qed
qed

lemma table_digest_triple:
  assumes P: "robust (me_catalog env) t P" "\<And>w. P w \<Longrightarrow> F w" and m: "mg_tenant_id m = t"
    and d: "row_get de_table (de_table d) (me_catalog env) = Some d"
  shows "worker.triple env \<rho> t P (table_digest env m key d)
    (\<lambda>r w. P w \<and> closed_rows t key d (\<lambda>rows. fst r = int (length rows) \<and>
       (rows \<noteq> [] \<longrightarrow> rolling_digest (me_codec env) None (map (encode_row (me_codec env)) rows) = Inr (snd r))) w) F"
  unfolding table_digest_def
proof (rule worker.triple_bind)
  have "worker.triple env \<rho> t (\<lambda>w. P w \<and> at_page env t key d (None, 0, None) w)
      (io_loop (digest_batch env m key d) (None, 0, None))
      (\<lambda>x w. P w \<and> closed_rows t key d (digested (me_codec env) x) w) F"
    by (rule worker.triple_loop [where P = "\<lambda>s w. P w \<and> at_page env t key d s w"], rule digest_batch_triple [OF assms])
  then show "worker.triple env \<rho> t P (io_loop (digest_batch env m key d) (None, 0, None))
      (\<lambda>x w. P w \<and> closed_rows t key d (digested (me_codec env) x) w) F"
    by (rule worker.triple_pre) (simp add: at_page_def)
qed (auto intro!: worker.triple_return simp: closed_rows_def digested_def split: option.splits)

section \<open>Comparing both copies\<close>

lemma encode_inj: "codec_ok k \<Longrightarrow> map (encode_row k) xs = map (encode_row k) ys \<Longrightarrow> xs = ys"
  by (metis decode_encode list.inj_map_strong)

lemma ordered_rows_distinct: "table_ok d (tenant_rows d t db) \<Longrightarrow> distinct (ordered_rows d t db)"
  using ordered_rows_strict [of d t db] by (simp add: strict_sorted_iff distinct_map)

lemma digests_agree:
  assumes w: "sound env \<rho> t w" and d: "d \<in> set (me_catalog env)"
    and a: "closed_rows t a d (\<lambda>rows. fst r = int (length rows) \<and>
       (rows \<noteq> [] \<longrightarrow> rolling_digest (me_codec env) None (map (encode_row (me_codec env)) rows) = Inr (snd r))) w"
    and b: "closed_rows t b d (\<lambda>rows. fst r = int (length rows) \<and>
       (rows \<noteq> [] \<longrightarrow> rolling_digest (me_codec env) None (map (encode_row (me_codec env)) rows) = Inr (snd r))) w"
  shows "same_table t a b d w"
proof -
  let ?k = "me_codec env" and ?A = "ordered_rows d t (wd_targets w a)" and ?B = "ordered_rows d t (wd_targets w b)"
  have len: "length ?A = length ?B" using a b by (simp add: closed_rows_def)
  have "?A = ?B"
  proof (cases "?A = []")
    case False
    then have ne: "?B \<noteq> []" using len by auto
    have ok: "table_ok d (tenant_rows d t (wd_targets w key))" "set (tenant_rows d t (wd_targets w key)) \<subseteq> \<rho>" for key
      using safe_rows [OF soundD(1) [OF w], of key] d by (auto simp: rows_ok_def)
    have no: "\<not> collide ?k (hash_inputs ?k zero_state (map (encode_row ?k) ?A)) (hash_inputs ?k zero_state (map (encode_row ?k) ?B))"
      using soundD(4) [OF w] ok ordered_rows_distinct [OF ok(1)] len unfolding collision_free_def by (metis set_ordered_rows)
    have "map (encode_row ?k) ?A = map (encode_row ?k) ?B"
      using equal_digests [OF soundD(3) [OF w], of "map (encode_row ?k) ?A" "snd r" "map (encode_row ?k) ?B"] a b False ne len no
      by (simp add: closed_rows_def)
    then show ?thesis by (rule encode_inj [OF soundD(3) [OF w]])
  qed (use len in simp)
  then show ?thesis using a b by (simp add: same_table_def closed_rows_def)
qed

lemma verify_table_triple:
  assumes P: "robust (me_catalog env) t P" "\<And>w. P w \<Longrightarrow> F w" and m: "mg_tenant_id m = t"
    and d: "row_get de_table (de_table d) (me_catalog env) = Some d"
  shows "worker.triple env \<rho> t P (verify_table env m items d)
    (\<lambda>_ w. P w \<and> same_table t (mg_source_target_key m) (mg_target_key m) d w) F"
proof (cases "row_get mi_table_name (de_table d) items")
  case None
  then show ?thesis using P(2) by (auto simp: verify_table_def intro: worker.triple_fail)
next
  case (Some item)
  let ?a = "mg_source_target_key m" and ?b = "mg_target_key m"
  have dc: "d \<in> set (me_catalog env)" using row_get_SomeD [OF d] by simp
  let ?D = "\<lambda>key r. closed_rows t key d (\<lambda>rows. fst r = int (length rows) \<and>
     (rows \<noteq> [] \<longrightarrow> rolling_digest (me_codec env) None (map (encode_row (me_codec env)) rows) = Inr (snd r)))"
  let ?S = "same_table t ?a ?b d"
  have P1: "robust (me_catalog env) t (\<lambda>w. P w \<and> ?D ?a r w)" for r using P(1) robust_closed_rows [OF dc] by blast
  have PS: "robust (me_catalog env) t (\<lambda>w. P w \<and> ?S w)" using P(1) robust_same_table [OF dc] by blast
  have rest: "worker.triple env \<rho> t (\<lambda>w. P w \<and> ?S w)
     (io_bind (verify_keys_call env m ?a d) (\<lambda>_. io_bind (verify_keys_call env m ?b d) (\<lambda>_.
      io_bind local_clock (\<lambda>end. io_bind (save_item_call (g end)) (\<lambda>_. io_return ()))))) (\<lambda>_ w. P w \<and> ?S w) F" for g
    unfolding verify_keys_call_def
    by (rule worker.triple_bind [OF target_quiet [OF PS]], use P(2) in blast,
        rule worker.triple_bind [OF target_quiet [OF PS]], use P(2) in blast,
        rule worker.triple_bind [OF worker.triple_clock],
        rule worker.triple_bind [OF items_quiet(1) [OF PS]], use P(2) in blast) (rule worker.triple_return)
  have compare: "worker.triple env \<rho> t (\<lambda>w. (P w \<and> ?D ?a r w) \<and> ?D ?b r' w)
     (if fst r \<noteq> fst r' \<or> snd r \<noteq> snd r' then io_fail e
      else io_bind (verify_keys_call env m ?a d) (\<lambda>_. io_bind (verify_keys_call env m ?b d) (\<lambda>_.
        io_bind local_clock (\<lambda>end. io_bind (save_item_call (g end)) (\<lambda>_. io_return ()))))) (\<lambda>_ w. P w \<and> ?S w) F" for r r' e g
  proof (cases "r = r'")
    case True
    then show ?thesis
      by simp (rule worker.triple_pre [OF rest], use digests_agree [OF _ dc] in blast)
  next
    case False
    then show ?thesis using P(2) by (auto simp: prod_eq_iff intro: worker.triple_fail)
  qed
  have second: "worker.triple env \<rho> t (\<lambda>w. P w \<and> ?D ?a r w) (io_bind (table_digest env m ?b d) (\<lambda>(n', x').
      if fst r \<noteq> n' \<or> snd r \<noteq> x' then io_fail e
      else io_bind (verify_keys_call env m ?a d) (\<lambda>_. io_bind (verify_keys_call env m ?b d) (\<lambda>_.
        io_bind local_clock (\<lambda>end. io_bind (save_item_call (g n' x' end)) (\<lambda>_. io_return ())))))) (\<lambda>_ w. P w \<and> ?S w) F" for r e g
    by (rule worker.triple_bind [OF table_digest_triple [OF P1 _ m d]], use P(2) in blast)
      (simp only: case_prod_beta, rule compare)
  show ?thesis
    unfolding verify_table_def Some option.case
    apply (rule worker.triple_bind [OF worker.triple_clock])
    apply (rule worker.triple_bind [OF items_quiet(1) [OF P]])
    apply assumption
    apply (rule worker.triple_bind [OF table_digest_triple [OF P m d]])
    apply assumption
    subgoal for now item1 r
      by (cases r) (simp only: prod.case fst_conv snd_conv, rule second [where r = "(n, x)" for n x, unfolded fst_conv snd_conv])
    done
qed

section \<open>The stage\<close>

lemma verify_catalog_triple:
  assumes P: "robust (me_catalog env) t P" "\<And>w. P w \<Longrightarrow> F w" and m: "mg_tenant_id m = t"
  shows "worker.triple env \<rho> t P (verify_catalog env m)
    (\<lambda>_ w. P w \<and> (\<forall>d \<in> set (me_catalog env). same_table t (mg_source_target_key m) (mg_target_key m) d w) \<and>
       open_fence t (wd_targets w (mg_source_target_key m)) = None) F"
proof (rule catalog_pre)
  assume c: "catalog_wf (me_catalog env)"
  let ?a = "mg_source_target_key m" and ?b = "mg_target_key m"
  define A where "A ds w \<longleftrightarrow> P w \<and> (\<forall>d \<in> set ds. same_table t ?a ?b d w)" for ds w
  have A: "robust (me_catalog env) t (A ds)" if "set ds \<subseteq> set (me_catalog env)" for ds
    unfolding A_def using that by (intro robust_conj P(1) robust_all robust_same_table) blast
  have AF: "A ds w \<Longrightarrow> F w" for ds w using P(2) by (simp add: A_def)
  have step: "worker.triple env \<rho> t (A xs) (verify_table env m items x) (\<lambda>_. A (xs @ [x])) F"
    if split: "me_catalog env = xs @ x # ys" for xs x ys items
  proof (rule worker.triple_post [OF verify_table_triple [OF A AF m]])
    show "set xs \<subseteq> set (me_catalog env)" using split by auto
    show "row_get de_table (de_table x) (me_catalog env) = Some x" by (rule catalog_found [OF c]) (simp add: split)
  qed (auto simp: A_def)
  have tables: "worker.triple env \<rho> t P (io_each (verify_table env m items) (me_catalog env)) (\<lambda>_. A (me_catalog env)) F" for items
  proof -
    have "worker.triple env \<rho> t (A []) (io_each (verify_table env m items) (me_catalog env)) (\<lambda>_. A (me_catalog env)) F"
      by (rule worker.triple_each) (rule step)
    then show ?thesis by (rule worker.triple_pre) (simp add: A_def)
  qed
  have AC: "robust (me_catalog env) t (A (me_catalog env))" by (rule A) simp
  have AC': "robust (me_catalog env) t (\<lambda>w. A (me_catalog env) w \<and> open_fence t (wd_targets w ?a) = None)" by (rule robust_conj [OF AC robust_closed])
  show "worker.triple env \<rho> t P (verify_catalog env m)
    (\<lambda>_ w. P w \<and> (\<forall>d \<in> set (me_catalog env). same_table t ?a ?b d w) \<and> open_fence t (wd_targets w ?a) = None) F"
    unfolding verify_catalog_def validate_catalog_def verify_now_def
    apply (rule worker.triple_bind [OF target_quiet [OF P]], assumption)
    apply (rule worker.triple_bind [OF target_quiet [OF P]], assumption)
    apply (rule worker.triple_bind [OF control_reads [OF P]], assumption)
    apply (rule worker.triple_bind [OF tables])
    apply (rule worker.triple_bind [OF target_quiet [OF AC AF]], assumption)
    apply (rule worker.triple_bind [OF target_quiet [OF AC AF]], assumption)
    apply (rule worker.triple_bind [OF frozen_asserted [OF AC AF m]], assumption)
    apply (rule worker.triple_post [OF frozen_asserted [OF AC' _ m]])
    using AF by (auto simp: A_def)
qed

text \<open>
  Closed at the source, and the same rows in every table: no copy can be written, since an open fence
  elsewhere would have to be that of the placement, which is still the source.
\<close>

lemma verified_ready:
  assumes w: "safe (me_catalog env) \<rho> t w" and m: "mg_tenant_id m = t" "row_at m {mg_VERIFYING} w"
    and same: "\<forall>d \<in> set (me_catalog env). same_table t (mg_source_target_key m) (mg_target_key m) d w"
    and src: "open_fence t (wd_targets w (mg_source_target_key m)) = None"
  shows "ready (me_catalog env) t (wd_targets w) m"
  unfolding ready_def
proof (intro conjI allI ballI)
  obtain x p where x: "placement_of t (wd_db w) = Some p" "plan_of x = plan_of m" "mg_state x \<in> {mg_VERIFYING}"
      "stage_ok (me_catalog env) t (wd_targets w) p x"
    by (rule at_work [OF w m]) (simp add: cancellable_def)
  have "mg_state x \<in> cancellable" using x(3) by (simp add: cancellable_def)
  then have "pl_current_target_key p = mg_source_target_key m"
    using stage_placed(1) [OF x(4)] x(2) by (simp add: same_source_def plan_of_eq)
  then show "open_fence t (wd_targets w key) = None" for key
    using safe_placed(1) [OF w x(1)] src by (cases "open_fence t (wd_targets w key)") (auto simp: one_copy_def fits_def)
  show "d \<in> set (me_catalog env) \<Longrightarrow> ordered_rows d t (wd_targets w (mg_source_target_key m)) =
      ordered_rows d t (wd_targets w (mg_target_key m))" for d
    using same by (simp add: same_table_def)
qed

lemma verify_stage_triple:
  assumes st: "mg_state m = mg_VERIFYING"
  shows "worker.triple env \<rho> t (current i t m) (verify_stage env m) (current i t) (mine i t)"
proof (rule tenant_pre)
  assume mt: "mg_tenant_id m = t"
  let ?a = "mg_source_target_key m" and ?b = "mg_target_key m"
  let ?X = "\<lambda>w. (\<forall>d \<in> set (me_catalog env). same_table t ?a ?b d w) \<and> open_fence t (wd_targets w ?a) = None"
  have X: "robust (me_catalog env) t ?X" by (intro robust_conj robust_all robust_same_table robust_closed)
  have move: "worker.triple env \<rho> t (\<lambda>w. current i t m w \<and> ?X w)
      (set_state m mg_CUTTING_OVER (\<lambda>x now. x\<lparr>mg_verified_at := Some now\<rparr>)) (current i t) (mine i t)"
  proof (rule worker.triple_conseq [OF set_state_triple [OF _ _ _ X]])
    show "can_cancel m" using st by (simp add: can_cancel_def)
    fix w assume a: "sound env \<rho> t w" "current i t m w" "?X w"
    show "ready (me_catalog env) t (wd_targets w) m"
      using verified_ready [OF soundD(1) [OF a(1)] mt] a(2,3) st by (simp add: held_def)
  qed (auto simp: plan_of_eq intro: held_mine)
  show "worker.triple env \<rho> t (current i t m) (verify_stage env m) (current i t) (mine i t)"
    unfolding verify_stage_def
    by (rule worker.triple_bind [OF held_steps(1)], rule worker.triple_bind [OF verify_catalog_triple [OF robust_held held_mine mt]],
        assumption) (rule move)
qed

end
