(* ===== verification/Migration_Recovery.thy ===== *)
theory Migration_Recovery
  imports Migration_Verification
begin

text \<open>
  The recovery of a migration, its stages in their order and the handler of its job: all of them keep
  the invariant, from wherever the migration is.
\<close>

section \<open>Cleaning a target\<close>

lemma held_read:
  assumes "\<And>ts x ts'. f ts = Inr (x, ts') \<Longrightarrow> ts' = ts"
  shows "worker.triple env \<rho> t (held i t S m) (target_call f) (\<lambda>_. held i t S m) (mine i t)"
proof (rule held_target [OF _ held_mine])
  fix w x ts
  assume a: "safe (me_catalog env) \<rho> t w" "f (wd_targets w) = Inr (x, ts)"
  have "w\<lparr>wd_targets := wd_targets w\<rparr> = w" by simp
  then show "safe (me_catalog env) \<rho> t (w\<lparr>wd_targets := ts\<rparr>)" using a(1) assms [OF a(2)] by simp
qed

lemma ownership_reads: "cleanup_ownership reg c f ts = Inr (x, ts') \<Longrightarrow> ts' = ts"
  unfolding cleanup_ownership_def by (auto dest!: on_target_txn)

lemma owns_cleanup_triple:
  "worker.triple env \<rho> t (held i t S m) (owns_cleanup env m intent f) (\<lambda>_. held i t S m) (mine i t)"
proof -
  let ?P = "held i t S m"
  have asked: "worker.triple env \<rho> t ?P (io_bind (control_read (\<lambda>db. Inr (migration_by_id (mg_id m) db))) (\<lambda>row.
      if (case row of Some x \<Rightarrow> mg_cleanup_ready_at x \<noteq> None | None \<Rightarrow> False) then io_return False
      else io_fail (StalePlacementGeneration msg_td_not_owned))) (\<lambda>_. ?P) (mine i t)"
    by (rule worker.triple_bind [OF held_steps(5)])
      (auto intro: worker.triple_return worker.triple_fail held_mine split: option.split)
  show ?thesis
    unfolding owns_cleanup_def
  proof (rule worker.triple_bind [OF held_read [OF ownership_reads]], assumption)
    fix ownership
    show "worker.triple env \<rho> t ?P (case ownership of
       OwnedFrozen \<Rightarrow> io_return True
     | AlreadyClean \<Rightarrow> io_return False
     | NotOwned \<Rightarrow>
         if mg_state m = mg_PRECHECKING \<and> (intent = Cancel \<or> intent = Failure) then io_return False
         else io_bind (control_read (\<lambda>db. Inr (migration_by_id (mg_id m) db))) (\<lambda>m.
           if (case m of Some x \<Rightarrow> mg_cleanup_ready_at x \<noteq> None | None \<Rightarrow> False) then io_return False
           else io_fail (StalePlacementGeneration msg_td_not_owned))) (\<lambda>_. ?P) (mine i t)"
      by (cases ownership) (use asked in \<open>auto intro: worker.triple_return\<close>)
  qed
qed

lemma clean_table_triple:
  assumes k: "spare m (tf_target_key f) S"
  shows "worker.triple env \<rho> t (held i t S m) (clean_table env m intent f d) (\<lambda>_. held i t S m) (mine i t)"
proof -
  let ?P = "held i t S m"
  have batch: "worker.triple env \<rho> t ?P (clean_batch env m intent f d item) (\<lambda>_. ?P) (mine i t)" for item
    unfolding clean_batch_def
    apply (rule worker.triple_bind [OF held_timed])
     apply (drule assert_recovery_flags, erule same_control_flags)
    apply (rule worker.triple_bind [OF held_target [OF _ held_mine]])
      apply (rule delete_batch_safe [OF _ _ _ k], assumption+)
    apply (rule worker.triple_bind [OF held_timed])
     apply (drule cleanup_batch_flags, erule same_control_flags)
    by (rule worker.triple_return)
  have batches: "worker.triple env \<rho> t ?P (io_loop (clean_batch env m intent f d) item) (\<lambda>_. ?P) (mine i t)" for item
    by (rule worker.triple_loop [where P = "\<lambda>_. ?P", OF worker.triple_post [OF batch]]) (auto split: sum.split)
  show ?thesis
    unfolding clean_table_def
    by (rule worker.triple_bind [OF held_steps(5)], rule worker.triple_bind [OF item_or_new_triple [OF held_steps(6)]])
      (use batches in \<open>auto intro: worker.triple_return\<close>)
qed

lemma cleanup_triple:
  assumes k: "spare m key S"
  shows "worker.triple env \<rho> t (held i t S m) (cleanup_catalog_rows env m intent key g token) (\<lambda>_. held i t S m) (mine i t)"
  unfolding cleanup_catalog_rows_def Let_def
proof (rule worker.triple_bind [OF held_lift], rule pure_pre, rule worker.triple_bind [OF owns_cleanup_triple])
  fix g' owned
  let ?P = "held i t S m"
  let ?f = "\<lparr>tf_tenant_id = mg_tenant_id m, tf_target_key = key, tf_generation = g', tf_switch_token = token\<rparr>"
  have table: "worker.triple env \<rho> t ?P (clean_table env m intent ?f d) (\<lambda>_. ?P) (mine i t)" for d
    by (rule clean_table_triple) (use k in simp)
  have tables: "worker.triple env \<rho> t ?P (io_each (clean_table env m intent ?f) (rev (me_catalog env))) (\<lambda>_. ?P) (mine i t)"
    by (rule each_table(2)) (rule table)
  have rest: "worker.triple env \<rho> t ?P (io_bind (io_each (clean_table env m intent ?f) (rev (me_catalog env))) (\<lambda>_.
       io_bind (timed_txn (\<lambda>now tnow _. assert_recovery_can_run_txn m intent now tnow)) (\<lambda>_.
       io_bind (timed_txn (\<lambda>now tnow _. cleanup_checkpoint_txn m intent now tnow)) (\<lambda>_.
       target_call (finish_cleanup (me_registry env) (me_catalog env) ?f))))) (\<lambda>_. ?P) (mine i t)"
    apply (rule worker.triple_bind [OF tables])
    apply (rule worker.triple_bind [OF held_timed])
     apply (drule assert_recovery_flags, erule same_control_flags)
    apply (rule worker.triple_bind [OF held_timed])
     apply (erule checkpoint_flags)
    apply (rule held_target [OF _ held_mine])
     apply (rule finish_cleanup_safe, assumption+)
    done
  show "worker.triple env \<rho> t ?P (if \<not> owned then io_return ()
     else io_bind (io_each (clean_table env m intent ?f) (rev (me_catalog env))) (\<lambda>_.
       io_bind (timed_txn (\<lambda>now tnow _. assert_recovery_can_run_txn m intent now tnow)) (\<lambda>_.
       io_bind (timed_txn (\<lambda>now tnow _. cleanup_checkpoint_txn m intent now tnow)) (\<lambda>_.
       target_call (finish_cleanup (me_registry env) (me_catalog env) ?f))))) (\<lambda>_. ?P) (mine i t)"
    using rest by (auto intro: worker.triple_return)
qed

section \<open>Back to the source, or on to the end\<close>

lemma restore_triple:
  assumes "intent \<noteq> Finalize"
  shows "worker.triple env \<rho> t (held i t S m) (restore_source_placement m intent)
    (\<lambda>m' w. can_cancel m' \<and> current i t m' w) (mine i t)"
  unfolding restore_source_placement_def
proof (rule worker.triple_timed)
  show "worker.stable env \<rho> t (held i t S m)" by (rule robust_stable) simp
  fix now tnow clock w m' db
  assume a: "sound env \<rho> t w" "held i t S m w"
    "restore_source_placement_txn m intent now tnow clock (wd_db w) = Inr (m', db)"
  note h = heldD [OF a(2)]
  note 1 = restore_source_ok [OF soundD(1) [OF a(1)] h(1,2) a(3)]
  then have same: "same_migration m m'" by blast
  have "held i t {mg_state m'} m' (w\<lparr>wd_db := db\<rparr>)"
    using h 1 same_migration_tenant [OF same] row_at_same [OF same] same by (simp add: held_def same_migration_def)
  then show "sound env \<rho> t (w\<lparr>wd_db := db\<rparr>) \<and> can_cancel m' \<and> current i t m' (w\<lparr>wd_db := db\<rparr>)"
    using a(1) 1 assms by (simp add: sound_def)
qed (auto intro: held_mine)

lemma close_triple:
  "worker.triple env \<rho> t (held i t S m) (timed_txn (\<lambda>now tnow _. close_cancel_txn m now tnow)) (current i t) (mine i t)"
  "worker.triple env \<rho> t (held i t S m) (timed_txn (\<lambda>now tnow _. close_failure_txn m now tnow)) (current i t) (mine i t)"
  "worker.triple env \<rho> t (held i t S m) (timed_txn (\<lambda>now tnow _. close_finalize_txn m now tnow)) (current i t) (mine i t)"
  by (rule timed_moves; use close_ok heldD in metis)+

lemma back_to_source_triple:
  assumes can: "can_cancel m" and intent: "intent \<noteq> Finalize"
    and close: "\<And>m S. worker.triple env \<rho> t (held i t S m) (timed_txn (\<lambda>now tnow _. close m now tnow)) (current i t) (mine i t)"
  shows "worker.triple env \<rho> t (current i t m) (back_to_source env intent close m) (current i t) (mine i t)"
  unfolding back_to_source_def
proof (rule worker.triple_bind [OF held_lift], rule pure_pre, rule worker.triple_bind,
    rule_tac [2] worker.triple_bind [OF restore_triple [OF intent]])
  fix f assume "source_fence m = Inr f"
  note f = source_fence_is [OF this]
  have "opens_placed m f {mg_state m}" using f can by (simp add: opens_placed_def can_cancel_iff)
  then show "worker.triple env \<rho> t (current i t m) (target_call (activate_fence (me_registry env) f))
      (\<lambda>_. current i t m) (mine i t)"
    by (rule worker.triple_conseq [OF activate_triple]) (auto intro: held_mine)
next
  fix m'
  show "worker.triple env \<rho> t (\<lambda>w. can_cancel m' \<and> current i t m' w)
     (io_bind (cleanup_catalog_rows env m' intent (mg_target_key m') (mg_target_generation m') (mg_switch_token m')) (\<lambda>_.
      timed_txn (\<lambda>now tnow _. close m' now tnow))) (current i t) (mine i t)"
  proof (rule pure_pre)
    assume "can_cancel m'"
    then have "spare m' (mg_target_key m') {mg_state m'}" by (simp add: spare_def can_cancel_iff)
    then show "worker.triple env \<rho> t (current i t m')
       (io_bind (cleanup_catalog_rows env m' intent (mg_target_key m') (mg_target_generation m') (mg_switch_token m')) (\<lambda>_.
        timed_txn (\<lambda>now tnow _. close m' now tnow))) (current i t) (mine i t)"
      by (rule worker.triple_bind [OF cleanup_triple close])
  qed
qed

lemma cancel_triple:
  "worker.triple env \<rho> t (current i t m) (reconcile_cancel_intent env m) (current i t) (mine i t)"
  unfolding reconcile_cancel_intent_def
proof (rule worker.triple_bind [OF held_lift], rule pure_pre)
  fix u assume "validate_recovery_intent m Cancel = Inr u"
  then have "can_cancel m" using intent_states [of m Cancel] by simp
  then show "worker.triple env \<rho> t (current i t m) (back_to_source env Cancel close_cancel_txn m) (current i t) (mine i t)"
    by (rule back_to_source_triple) (simp, rule close_triple)
qed

lemma finalize_triple:
  "worker.triple env \<rho> t (current i t m) (reconcile_finalize_intent env m) (current i t) (mine i t)"
  unfolding reconcile_finalize_intent_def
proof (rule worker.triple_bind [OF held_lift], rule pure_pre, rule worker.triple_bind [OF held_steps(6)])
  fix u now assume "validate_recovery_intent m Finalize = Inr u"
  then have "mg_state m = mg_RETENTION_PENDING" by (simp add: validate_recovery_intent_def split: if_splits)
  then have spare: "spare m (mg_source_target_key m) {mg_state m}" by (simp add: spare_def)
  have rest: "worker.triple env \<rho> t (current i t m)
      (io_bind (control_read (\<lambda>db. Inr (has_validated_backup m not_before now db))) (\<lambda>backed.
         if \<not> backed then io_fail (TenantOperationConflict msg_td_backup_gone)
         else
           io_bind (cleanup_catalog_rows env m Finalize (mg_source_target_key m)
             (mg_source_generation m) (mg_source_switch_token m)) (\<lambda>_.
           timed_txn (\<lambda>now tnow _. close_finalize_txn m now tnow)))) (current i t) (mine i t)" for not_before
  proof (rule worker.triple_bind [OF held_steps(5)])
    fix backed
    have "worker.triple env \<rho> t (current i t m) (io_bind (cleanup_catalog_rows env m Finalize (mg_source_target_key m)
         (mg_source_generation m) (mg_source_switch_token m)) (\<lambda>_. timed_txn (\<lambda>now tnow _. close_finalize_txn m now tnow)))
        (current i t) (mine i t)"
      by (rule worker.triple_bind [OF cleanup_triple [OF spare] close_triple(3)])
    then show "worker.triple env \<rho> t (current i t m) (if \<not> backed then io_fail (TenantOperationConflict msg_td_backup_gone)
         else io_bind (cleanup_catalog_rows env m Finalize (mg_source_target_key m)
             (mg_source_generation m) (mg_source_switch_token m)) (\<lambda>_.
           timed_txn (\<lambda>now tnow _. close_finalize_txn m now tnow))) (current i t) (mine i t)"
      by (auto intro: worker.triple_fail held_mine)
  qed
  show "worker.triple env \<rho> t (current i t m)
     (if retention_left m now then io_fail (TenantOperationConflict msg_td_retention_left)
     else case activation_time m of
       None \<Rightarrow> io_fail (Conflict msg_td_activation_missing)
     | Some not_before \<Rightarrow>
         io_bind (control_read (\<lambda>db. Inr (has_validated_backup m not_before now db))) (\<lambda>backed.
         if \<not> backed then io_fail (TenantOperationConflict msg_td_backup_gone)
         else
           io_bind (cleanup_catalog_rows env m Finalize (mg_source_target_key m)
             (mg_source_generation m) (mg_source_switch_token m)) (\<lambda>_.
           timed_txn (\<lambda>now tnow _. close_finalize_txn m now tnow)))) (current i t) (mine i t)"
    using rest by (cases "activation_time m") (auto intro: worker.triple_fail held_mine)
qed

section \<open>From a failed stage\<close>

text \<open>What reading the row tells: if there is one it is the snapshot of whoever goes on.\<close>

lemma lookup_triple:
  "worker.triple env \<rho> t (mine i t) (control_read (\<lambda>db. Inr (migration_by_id i db)))
    (\<lambda>row w. mine i t w \<and> (\<forall>m. row = Some m \<longrightarrow> current i t m w)) (mine i t)"
proof (rule worker.triple_control_read [OF robust_stable [OF robust_mine]])
  fix w row
  assume a: "mine i t w" "Inr (migration_by_id i (wd_db w)) = Inr row"
  have "current i t m w" if "row = Some m" for m
  proof -
    have l: "migration_by_id i (wd_db w) = Some m" using a(2) that by simp
    then have "mg_id m = i" by (auto simp: migration_by_id_def dest: row_get_SomeD)
    then show ?thesis using a(1) l by (auto simp: held_def row_at_def mine_def)
  qed
  then show "mine i t w \<and> (\<forall>m. row = Some m \<longrightarrow> current i t m w)" using a(1) by blast
qed auto

lemma intent_triple:
  "worker.triple env \<rho> t (current i t m) (timed_txn (\<lambda>now tnow _. compensation_intent_txn m code now tnow))
    (\<lambda>r w. mine i t w \<and> (\<forall>m'. r = Some m' \<longrightarrow> can_cancel m' \<and> current i t m' w)) (mine i t)"
proof (rule worker.triple_post [OF timed_flags [where R = "\<lambda>r w. \<forall>m'. r = Some m' \<longrightarrow> can_cancel m' \<and> current i t m' w"]])
  fix now tnow clock w r db
  assume a: "sound env \<rho> t w" "current i t m w" "compensation_intent_txn m code now tnow (wd_db w) = Inr (r, db)"
  note h = heldD [OF a(2)]
  note c = compensation_ok [OF a(3)]
  have "can_cancel m' \<and> current i t m' (w\<lparr>wd_db := db\<rparr>)" if r: "r = Some m'" for m'
  proof -
    obtain m0 where m0: "lock_migration (mg_id m) (wd_db w) = Inr m0" "same_migration m0 m'" "mg_state m' = mg_state m0" "can_cancel m0"
      using c r by blast
    have row: "same_migration m m0" "mg_state m0 = mg_state m"
      using row_at_lock [OF h(2) _ m0(1)] by (simp_all add: same_control_def)
    have same: "same_migration m m'" using same_migration_trans [OF row(1) m0(2)] .
    have "row_at m {mg_state m} (w\<lparr>wd_db := db\<rparr>)"
      using row_at_flags [OF h(2) conjunct1 [OF c] safe_unique [OF soundD(1) [OF a(1)]]] .
    then show ?thesis
      using m0(3,4) row(2) h same same_migration_tenant [OF same] row_at_same [OF same]
      by (simp add: held_def can_cancel_def same_migration_def)
  qed
  then show "flags_only (wd_db w) db \<and> (\<forall>m'. r = Some m' \<longrightarrow> can_cancel m' \<and> current i t m' (w\<lparr>wd_db := db\<rparr>))"
    using c by blast
qed (auto intro: held_mine)

lemma compensate_triple:
  "worker.triple env \<rho> t (mine i t) (compensate_before_cutover env i code) (\<lambda>_. mine i t) (mine i t)"
  unfolding compensate_before_cutover_def
proof (rule worker.triple_bind [OF lookup_triple])
  fix row
  let ?P = "\<lambda>w. mine i t w \<and> (\<forall>m. row = Some m \<longrightarrow> current i t m w)"
  show "worker.triple env \<rho> t ?P (case row of
       None \<Rightarrow> io_return ()
     | Some snapshot \<Rightarrow>
         if \<not> can_cancel snapshot then io_return ()
         else
           io_bind (timed_txn (\<lambda>now tnow _. compensation_intent_txn snapshot code now tnow)) (\<lambda>intent.
           case intent of
             None \<Rightarrow> io_return ()
           | Some m \<Rightarrow> io_bind (back_to_source env Failure close_failure_txn m) (\<lambda>_. io_return ()))) (\<lambda>_. mine i t) (mine i t)"
  proof (cases row)
    case None
    then show ?thesis by (auto intro: worker.triple_return)
  next
    case (Some snapshot)
    have "worker.triple env \<rho> t (\<lambda>w. mine i t w \<and> (\<forall>m. r = Some m \<longrightarrow> can_cancel m \<and> current i t m w)) (case r of
             None \<Rightarrow> io_return ()
           | Some m \<Rightarrow> io_bind (back_to_source env Failure close_failure_txn m) (\<lambda>_. io_return ())) (\<lambda>_. mine i t) (mine i t)" for r
    proof (cases r)
      case None
      then show ?thesis by (auto intro: worker.triple_return)
    next
      case r: (Some m)
      have "worker.triple env \<rho> t (\<lambda>w. can_cancel m \<and> current i t m w)
          (io_bind (back_to_source env Failure close_failure_txn m) (\<lambda>_. io_return ())) (\<lambda>_. mine i t) (mine i t)"
        by (rule pure_pre, rule worker.triple_bind [OF back_to_source_triple [OF _ _ close_triple(2)]])
          (auto intro: worker.triple_return held_mine)
      then show ?thesis unfolding r option.case by (rule worker.triple_pre) simp
    qed
    from worker.triple_bind [OF intent_triple this]
    have "worker.triple env \<rho> t (current i t snapshot) (io_bind (timed_txn (\<lambda>now tnow _. compensation_intent_txn snapshot code now tnow))
        (\<lambda>intent. case intent of
             None \<Rightarrow> io_return ()
           | Some m \<Rightarrow> io_bind (back_to_source env Failure close_failure_txn m) (\<lambda>_. io_return ()))) (\<lambda>_. mine i t) (mine i t)" .
    then have "worker.triple env \<rho> t ?P (io_bind (timed_txn (\<lambda>now tnow _. compensation_intent_txn snapshot code now tnow))
        (\<lambda>intent. case intent of
             None \<Rightarrow> io_return ()
           | Some m \<Rightarrow> io_bind (back_to_source env Failure close_failure_txn m) (\<lambda>_. io_return ()))) (\<lambda>_. mine i t) (mine i t)"
      by (rule worker.triple_pre) (simp add: Some)
    then show ?thesis unfolding Some option.case by (auto intro: worker.triple_return)
  qed
qed

section \<open>The stages in their order\<close>

lemma stage_triple:
  assumes "\<And>m. mg_state m = st \<Longrightarrow> worker.triple env \<rho> t (current i t m) (run m) (current i t) (mine i t)"
  shows "worker.triple env \<rho> t (current i t m) (stage st run m) (current i t) (mine i t)"
  unfolding stage_def using assms by (auto intro: worker.triple_return)

lemma run_stages_triple:
  "worker.triple env \<rho> t (current i t m) (run_stages env m) (\<lambda>_. mine i t) (mine i t)"
  unfolding run_stages_def
proof (rule worker.triple_bind [OF stage_triple [OF prepare_triple]], assumption,
    rule worker.triple_bind [OF stage_triple [OF maintenance_triple]], assumption,
    rule worker.triple_bind [OF stage_triple [OF freeze_triple]], assumption,
    rule worker.triple_bind [OF stage_triple [OF frozen_stage_triple]], assumption,
    rule worker.triple_bind [OF stage_triple [OF copy_stage_triple]], assumption,
    rule worker.triple_bind [OF stage_triple [OF verify_stage_triple]], assumption,
    rule worker.triple_bind [OF stage_triple [OF cut_over_triple]], assumption,
    rule worker.triple_bind [OF stage_triple [OF activate_target_triple]], assumption)
  fix m8
  have "worker.triple env \<rho> t (current i t m8) (io_bind (enter_retention m8) (\<lambda>_. io_return ())) (\<lambda>_. mine i t) (mine i t)"
    if "mg_state m8 = mg_SUCCEEDED"
    by (rule worker.triple_bind [OF retention_triple [OF that]]) (auto intro: worker.triple_return held_mine)
  then show "worker.triple env \<rho> t (current i t m8) (if mg_state m8 = mg_SUCCEEDED then io_bind (enter_retention m8) (\<lambda>_. io_return ())
     else io_fail (TenantOperationConflict (msg_td_unhandled @ mg_state m8))) (\<lambda>_. mine i t) (mine i t)"
    by (auto intro: worker.triple_fail held_mine)
qed

end
