(* ===== verification/Migration_Runs.thy ===== *)
theory Migration_Runs
  imports Migration_Recovery
begin

text \<open>
  Whole runs: the handler of the migration job, and the system of a tenant in which its migrations are
  carried out, one worker at a time, among everything else that goes on.
\<close>

section \<open>The handler\<close>

lemma caught:
  assumes "worker.triple env \<rho> t P m Q (mine i t)"
  shows "worker.triple env \<rho> t P (io_catch m (\<lambda>_. io_fail e)) Q (mine i t)"
  by (rule worker.triple_catch [OF assms]) (rule fail_mine)

definition resumed :: "int \<Rightarrow> string \<Rightarrow> data_migration option \<Rightarrow> world \<Rightarrow> bool" where
  "resumed i t r w \<longleftrightarrow> mine i t w \<and> (\<forall>m. r = Some m \<longrightarrow> current i t m w)"

lemma resume_triple:
  "worker.triple env \<rho> t (current i t m) (resume_requested_recovery env m) (resumed i t) (mine i t)"
proof -
  have stay: "worker.triple env \<rho> t (current i t m) (io_return (Some m)) (resumed i t) (mine i t)"
    by (rule worker.triple_return) (auto simp: resumed_def intro: held_mine)
  have fails: "worker.triple env \<rho> t (current i t m) (io_fail e) (resumed i t) (mine i t)" for e
    by (rule worker.triple_fail) (rule held_mine)
  have finalize: "worker.triple env \<rho> t (current i t m)
      (io_catch (io_bind (reconcile_finalize_intent env m) (\<lambda>_. io_return None)) (\<lambda>_. io_fail e)) (resumed i t) (mine i t)" for e
    by (rule caught, rule worker.triple_bind [OF finalize_triple])
      (rule worker.triple_return, simp add: resumed_def, erule held_mine)
  have cancel: "worker.triple env \<rho> t (current i t m)
      (io_catch (io_bind (reconcile_cancel_intent env m) (\<lambda>_. io_return None)) (\<lambda>_. io_fail e)) (resumed i t) (mine i t)" for e
    by (rule caught, rule worker.triple_bind [OF cancel_triple])
      (rule worker.triple_return, simp add: resumed_def, erule held_mine)
  show ?thesis
    unfolding resume_requested_recovery_def Let_def
    using stay fails finalize cancel by (auto split: if_split)
qed

lemma reacquire_triple:
  "worker.triple env \<rho> t (current i t s) (reacquire_execution_lease env s) (current i t) (mine i t)"
  unfolding reacquire_execution_lease_def
proof (rule worker.triple_post [OF timed_flags [where R = "\<lambda>m w. current i t m w"]])
  fix now tnow clock w m db
  assume a: "sound env \<rho> t w" "current i t s w" "reacquire_execution_lease_txn env s now tnow (wd_db w) = Inr (m, db)"
  note h = heldD [OF a(2)]
  note c = reacquire_flags [OF a(3)]
  have l: "migration_by_id (mg_id s) db = Some m" using c by (auto simp: lock_migration_def split: option.splits)
  note r = row_at_lock [OF h(2) conjunct1 [OF c] conjunct2 [OF c]]
  have "current i t m (w\<lparr>wd_db := db\<rparr>)"
    using l r(2) h(3) h(1) same_migration_tenant [OF r(5)] by (simp add: held_def row_at_def)
  then show "flags_only (wd_db w) db \<and> current i t m (w\<lparr>wd_db := db\<rparr>)" using same_control_flags [OF conjunct1 [OF c]] by blast
qed (auto intro: held_mine)

lemma execute_triple:
  "worker.triple env \<rho> t (mine i t) (execute_migration env i) (\<lambda>_. mine i t) (mine i t)"
proof -
  have found: "worker.triple env \<rho> t (mine i t) (control_read (\<lambda>db. case migration_by_id i db of
         None \<Rightarrow> Inl (NotFound msg_td_migration_missing) | Some m \<Rightarrow> Inr m)) (current i t) (mine i t)"
  proof (rule worker.triple_control_read [OF robust_stable [OF robust_mine]])
    fix w m
    assume a: "mine i t w" "(case migration_by_id i (wd_db w) of
         None \<Rightarrow> Inl (NotFound msg_td_migration_missing) | Some m \<Rightarrow> Inr m) = Inr m"
    then have l: "migration_by_id i (wd_db w) = Some m" by (simp split: option.splits)
    then have "mg_id m = i" by (auto simp: migration_by_id_def dest: row_get_SomeD)
    then show "current i t m w" using a(1) l by (auto simp: held_def row_at_def mine_def)
  qed (auto intro: held_mine)
  have lease: "worker.triple env \<rho> t (current i t s)
      (if needs_execution_lease s then reacquire_execution_lease env s else io_return s) (current i t) (mine i t)" for s
    using reacquire_triple by (auto intro: worker.triple_return)
  have go: "worker.triple env \<rho> t (current i t m) (
         if mg_state m \<in> {mg_FINALIZED, mg_FAILED, mg_CANCELLED, mg_RETENTION_PENDING} then io_return ()
         else case (mg_error_code m, can_cancel m) of
           (Some code, True) \<Rightarrow>
             io_catch (compensate_before_cutover env i code)
               (\<lambda>_. io_fail (RetryableConflict ''tenant-data compensation recovery pending'' 5))
         | _ \<Rightarrow> run_stages env m) (\<lambda>_. mine i t) (mine i t)" for m
  proof -
    have comp: "worker.triple env \<rho> t (current i t m) (io_catch (compensate_before_cutover env i code)
               (\<lambda>_. io_fail (RetryableConflict ''tenant-data compensation recovery pending'' 5))) (\<lambda>_. mine i t) (mine i t)" for code
      by (rule caught, rule worker.triple_pre [OF compensate_triple]) (rule held_mine)
    show ?thesis
      using comp run_stages_triple
      by (auto intro: worker.triple_return held_mine split: option.split bool.split)
  qed
  have resumed: "worker.triple env \<rho> t (resumed i t r) (case r of
       None \<Rightarrow> io_return ()
     | Some m \<Rightarrow>
         if mg_state m \<in> {mg_FINALIZED, mg_FAILED, mg_CANCELLED, mg_RETENTION_PENDING} then io_return ()
         else case (mg_error_code m, can_cancel m) of
           (Some code, True) \<Rightarrow>
             io_catch (compensate_before_cutover env i code)
               (\<lambda>_. io_fail (RetryableConflict ''tenant-data compensation recovery pending'' 5))
         | _ \<Rightarrow> run_stages env m) (\<lambda>_. mine i t) (mine i t)" for r
  proof (cases r)
    case None
    then show ?thesis by (auto intro: worker.triple_return simp: resumed_def)
  next
    case (Some m)
    show ?thesis unfolding Some option.case by (rule worker.triple_pre [OF go]) (simp add: resumed_def)
  qed
  show ?thesis
    unfolding execute_migration_def
    by (rule worker.triple_bind [OF found], rule worker.triple_bind [OF held_lift], rule pure_pre,
        rule worker.triple_bind [OF lease], rule worker.triple_bind [OF resume_triple], rule resumed)
qed

lemma handle_triple:
  assumes "payload_migration_id (bj_payload job) = Inr i"
  shows "worker.triple env \<rho> t (mine i t) (handle_migration_job env job) (\<lambda>_. mine i t) (mine i t)"
proof -
  let ?M = "mine i t"
  let ?rescue = "\<lambda>e row. case row of
      None \<Rightarrow> io_fail e
    | Some m \<Rightarrow>
        if can_cancel m then
          io_bind (io_catch (compensate_before_cutover env i (as_str (error_code e)))
            (\<lambda>_. io_fail (RetryableConflict ''tenant-data compensation pending'' 5))) (\<lambda>_. io_fail e)
        else if mg_state m \<in> {mg_CUTTING_OVER, mg_ACTIVATING, mg_SUCCEEDED}
        then io_fail (RetryableConflict ''tenant-data forward recovery pending'' 5)
        else io_fail e"
  have failed: "worker.triple env \<rho> t ?M (io_fail e) (\<lambda>_. ?M) ?M" for e by (rule worker.triple_fail)
  have undone: "worker.triple env \<rho> t ?M (io_bind (io_catch (compensate_before_cutover env i code)
                 (\<lambda>_. io_fail (RetryableConflict ''tenant-data compensation pending'' 5))) (\<lambda>_. io_fail e)) (\<lambda>_. ?M) ?M" for code e
    by (rule worker.triple_bind [OF caught [OF compensate_triple]]) (rule failed)
  have looked: "worker.triple env \<rho> t (\<lambda>w. ?M w \<and> (\<forall>m. row = Some m \<longrightarrow> current i t m w)) (?rescue e row) (\<lambda>_. ?M) ?M" for row e
    by (rule worker.triple_pre [where P' = ?M]) (use failed undone in \<open>auto split: option.split\<close>)
  have recover: "worker.triple env \<rho> t ?M (if permanent_error e \<or> bj_max_attempts job \<le> bj_attempts job then
         io_bind (control_read (\<lambda>db. Inr (migration_by_id i db))) (?rescue e)
       else io_fail e) (\<lambda>_. ?M) ?M" for e
    using worker.triple_bind [OF lookup_triple looked] failed by auto
  have "worker.triple env \<rho> t ?M (io_lift (payload_migration_id (bj_payload job))) (\<lambda>j w. j = i \<and> ?M w) ?M"
    by (rule worker.triple_lift) (use assms in auto)
  then show ?thesis
    unfolding handle_migration_job_def
    by (rule worker.triple_bind, intro pure_pre) (hypsubst, rule worker.triple_catch [OF execute_triple recover])
qed

end
