(* ===== verification/Migration_System.thy ===== *)
theory Migration_System
  imports Migration_Runs Job_Properties
begin

text \<open>
  The system of a tenant: its migrations are carried out by workers, one at a time, that can be
  interrupted anywhere, among business transactions, operators and everything that concerns others.
\<close>

section \<open>The system\<close>

inductive system_step :: "migration_env \<Rightarrow> data_row set \<Rightarrow> string \<Rightarrow> world \<Rightarrow> world \<Rightarrow> bool" for env \<rho> t where
  others: "other_step env \<rho> t w w' \<Longrightarrow> system_step env \<rho> t w w'"
| working_on: "payload_migration_id (bj_payload job) = Inr i \<Longrightarrow> mine i t w \<Longrightarrow>
    \<forall>turn \<in> set ts. \<forall>v. (other_step env \<rho> t)\<^sup>*\<^sup>* v (tu_others turn v) \<Longrightarrow>
    handle_migration_job env job ts w = (r, ts', w') \<Longrightarrow> system_step env \<rho> t w w'"

lemma system_step_sound:
  assumes "system_step env \<rho> t w w'" "sound env \<rho> t w"
  shows "sound env \<rho> t w'"
  using assms(1)
proof (cases rule: system_step.cases)
  case others
  then show ?thesis using other_step_ok assms(2) by (auto simp: sound_def env_ok_def)
next
  case (working_on job i ts r ts')
  have "worker.turns_ok env \<rho> t ts" using working_on(3) by (simp add: worker.turns_ok_def list_all_iff)
  from worker.tripleD [OF handle_triple [OF working_on(1)] this assms(2) working_on(2,4)] show ?thesis by blast
qed

lemma system_sound:
  assumes "(system_step env \<rho> t)\<^sup>*\<^sup>* w w'" "sound env \<rho> t w"
  shows "sound env \<rho> t w'"
  using assms by (induction rule: rtranclp_induct) (auto intro: system_step_sound)

lemma sound_start:
  assumes "validate_structure (me_catalog env) = Inr ()" "codec_ok (me_codec env)" "collision_free (me_codec env) \<rho>"
    "safe (me_catalog env) \<rho> t w"
  shows "sound env \<rho> t w"
  using assms validate_structure_wf by (simp add: sound_def env_ok_def)

text \<open>
  C1. One writable copy: whatever has happened, a business transaction that is let in by the fence of
  a target works on the copy the placement of its tenant names, with its generation and its token.
  Refused calls, lost answers, crashed workers, cancellations and compensations make no difference.
\<close>

theorem single_writable_copy:
  assumes "validate_structure (me_catalog env) = Inr ()" "codec_ok (me_codec env)" "collision_free (me_codec env) \<rho>"
    "safe (me_catalog env) \<rho> t w" "(system_step env \<rho> t)\<^sup>*\<^sup>* w w'"
    "fp_tenant_id p = t" "verify_fence_on p mode (wd_targets w' (fp_target_key p)) = Inr ()"
  shows "\<exists>q. placement_of t (wd_db w') = Some q \<and> pl_current_target_key q = fp_target_key p \<and>
    pl_placement_generation q = fp_placement_generation p \<and> pl_switch_token q = fp_switch_token p"
proof -
  have w': "safe (me_catalog env) \<rho> t w'"
    by (rule soundD(1) [OF system_sound [OF assms(5) sound_start [OF assms(1-4)]]])
  obtain q where q: "placement_of t (wd_db w') = Some q" using safe_has_placement [OF w'] by blast
  obtain f where f: "open_fence t (wd_targets w' (fp_target_key p)) = Some f" "fence_matches f p"
    using verified_open [OF assms(7)] assms(6) by blast
  then have "fits f (fp_target_key p) q" using safe_placed(1) [OF w' q] by (simp add: one_copy_def)
  then show ?thesis using q f(2) by (simp add: fits_def fence_matches_def)
qed

text \<open>
  C2. Nothing is lost or made up: at any time, in every table, the copy the placement of the tenant
  names holds exactly the rows its business transactions have left, however far its migration is and
  however it went.
\<close>

theorem tenant_data_preserved:
  assumes "validate_structure (me_catalog env) = Inr ()" "codec_ok (me_codec env)" "collision_free (me_codec env) \<rho>"
    "safe (me_catalog env) \<rho> t w" "(system_step env \<rho> t)\<^sup>*\<^sup>* w w'" "d \<in> set (me_catalog env)"
  shows "\<exists>q. placement_of t (wd_db w') = Some q \<and>
    ordered_rows d t (wd_targets w' (pl_current_target_key q)) = wd_accepted w' t (de_table d)"
proof -
  have w': "safe (me_catalog env) \<rho> t w'"
    by (rule soundD(1) [OF system_sound [OF assms(5) sound_start [OF assms(1-4)]]])
  obtain q where q: "placement_of t (wd_db w') = Some q" using safe_has_placement [OF w'] by blast
  then show ?thesis using safe_placed(2) [OF w' q] assms(6) by (auto simp: holds_data_def)
qed

section \<open>A run\<close>

definition mix_codec :: data_codec where
  "mix_codec = \<lparr>to_base64 = id, from_base64 = Some,
     sha256 = (\<lambda>b. take 20 (rev b @ replicate 20 CHR ''.'') @ take 12 (b @ replicate 12 CHR ''.''))\<rparr>"

definition demo_env :: migration_env where
  "demo_env = \<lparr>me_registry = demo_registry, me_catalog = [demo_table], me_codec = mix_codec,
     me_fingerprint = ''v1'', me_pk_order = (\<lambda>_ rows. rows)\<rparr>"

definition demo_acme :: tenant where
  "demo_acme = \<lparr>tn_id = 1, tn_tenant_id = ''acme'', tn_name = ''Acme'', tn_domain = None, tn_status = ''enabled'', tn_expire_at = None,
     tn_max_users = 0, tn_max_roles = 0, tn_max_storage_mb = 0, tn_max_requests_per_min = 0, tn_session_version = 1,
     tn_authorization_epoch = 1, tn_runtime_epoch = 1, tn_configuration_version = 1, tn_created_at = 0, tn_updated_at = 0\<rparr>"

definition acme_org :: org_db where
  "acme_org = \<lparr>org_tenants = [demo_acme], org_leases = [], org_depts = [], org_users = [], org_roles = [], org_role_depts = [],
     org_user_roles = [], org_permissions = [], org_role_permissions = [], org_outbox = []\<rparr>"

definition demo_plan :: CreateTenantDataMigration where
  "demo_plan = \<lparr>cm_id = 7, cm_tenant_id = ''acme'', cm_source_target_key = ''shared-control'', cm_target_key = ''own'',
     cm_source_target_mode = ''shared'', cm_source_target_kind = ''control'', cm_target_target_mode = ''dedicated'',
     cm_target_target_kind = ''mysql'', cm_source_generation = 1, cm_source_switch_token = ''tok1'', cm_target_generation = 2,
     cm_source_schema_fingerprint = ''v1'', cm_target_schema_fingerprint = ''v1'', cm_plan_hash = ''h'',
     cm_create_idempotency_key_hash = ''c'', cm_switch_token = ''tok2'', cm_operator_id = 1, cm_retention_hours = 168, cm_now = 1\<rparr>"

definition calm :: turn where
  "calm = \<lparr>tu_others = id, tu_reply = Completes, tu_clock = 9, tu_id = Inr 100\<rparr>"

definition acme_rows :: "data_row set" where
  "acme_rows = {demo_note ''acme'' ''1'' ''a'', demo_note ''acme'' ''2'' ''b''}"

lemma mix_codec_ok: "codec_ok mix_codec"
  by (simp add: codec_ok_def mix_codec_def min_def)

lemma distinct_pairs:
  assumes "set xs \<subseteq> {a, b}" "distinct xs" "a \<noteq> b"
  shows "xs \<in> {[], [a], [b], [a, b], [b, a]}"
proof (cases xs rule: list.exhaust)
  case (Cons x ys)
  show ?thesis
  proof (cases ys rule: list.exhaust)
    case ys: (Cons y zs)
    have "zs = []" using assms Cons ys by (cases zs) auto
    then show ?thesis using assms Cons ys by auto
  qed (use assms Cons in auto)
qed simp

lemma demo_collision_free: "collision_free mix_codec acme_rows"
proof -
  let ?a = "demo_note ''acme'' ''1'' ''a''" and ?b = "demo_note ''acme'' ''2'' ''b''"
  let ?i = "\<lambda>xs. hash_inputs mix_codec zero_state (map (encode_row mix_codec) xs)"
  have checked: "list_all (\<lambda>xs. list_all (\<lambda>ys. length xs = length ys \<longrightarrow> \<not> collide mix_codec (?i xs) (?i ys))
      [[], [?a], [?b], [?a, ?b], [?b, ?a]]) [[], [?a], [?b], [?a, ?b], [?b, ?a]]"
    by code_simp
  have ne: "?a \<noteq> ?b" by (simp add: demo_note_def)
  show ?thesis
    unfolding collision_free_def acme_rows_def
  proof (intro allI impI)
    fix xs ys
    assume "set xs \<subseteq> {?a, ?b}" "set ys \<subseteq> {?a, ?b}" "distinct xs" "distinct ys" "length xs = length ys"
    then show "\<not> collide mix_codec (?i xs) (?i ys)"
      using distinct_pairs [OF _ _ ne, of xs] distinct_pairs [OF _ _ ne, of ys] checked by (simp only: list_all_iff) auto
  qed
qed

definition demo_job :: background_job where
  "demo_job = \<lparr>bj_id = 1, bj_tenant_id = Some ''acme'', bj_schedule_id = None, bj_scheduled_for = None,
     bj_max_runtime_seconds = Some 86400, bj_job_type = ''tenant_data_migration'',
     bj_payload = JObject [(''migration_id'', JString ''7'')], bj_status = bj_STATUS_RUNNING, bj_priority = 10,
     bj_available_at = 0, bj_attempts = 1, bj_claim_sequence = 1, bj_max_attempts = 8, bj_lease_owner = Some ''worker'',
     bj_lease_until = Some 60, bj_dedupe_key = None, bj_traceparent = None, bj_tracestate = None, bj_last_error = None,
     bj_created_at = 0, bj_updated_at = 0, bj_completed_at = None\<rparr>"

lemma demo_payload: "payload_migration_id (bj_payload demo_job) = Inr 7"
  by code_simp

lemma run_step:
  assumes "payload_migration_id (bj_payload job) = Inr i" "mine i t w"
    "\<forall>turn \<in> set ts. \<forall>v. (other_step env \<rho> t)\<^sup>*\<^sup>* v (tu_others turn v)"
  shows "system_step env \<rho> t w (snd (snd (handle_migration_job env job ts w)))"
proof -
  obtain r ts' w' where h: "handle_migration_job env job ts w = (r, ts', w')" by (cases "handle_migration_job env job ts w")
  show ?thesis using working_on [OF assms h] h by simp
qed

text \<open>
  A migration whose copy is verified: both fences are frozen, the placement is in maintenance; and
  what a worker makes of it.
\<close>

definition frozen_shared :: target_db where
  "frozen_shared = demo_shared\<lparr>tg_fences := [fence_for ''acme'' ''shared-control'' 1 ''frozen'' ''tok1'']\<rparr>"

definition copied_own :: target_db where
  "copied_own = \<lparr>tg_fences = [fence_for ''acme'' ''own'' 2 ''frozen'' ''tok2''], tg_slot = Some (slot_for ''acme'' 2 ''tok2''),
     tg_rows = (\<lambda>t. if t = ''biz_note'' then [demo_note ''acme'' ''2'' ''b'', demo_note ''acme'' ''1'' ''a''] else [])\<rparr>"

definition verified_migration :: data_migration where
  "verified_migration = (new_migration demo_plan)\<lparr>mg_state := mg_CUTTING_OVER\<rparr>"

definition demo_place :: data_placement where
  "demo_place = \<lparr>pl_tenant_id = ''acme'', pl_current_target_key = ''shared-control'', pl_placement_generation = 1,
     pl_state = pl_MAINTENANCE, pl_switch_token = ''tok1'', pl_created_at = 0, pl_updated_at = 0\<rparr>"

definition demo_world :: world where
  "demo_world = \<lparr>wd_db = \<lparr>md_org = acme_org, md_jobs = empty_db, md_placements = [demo_place],
       md_migrations = [verified_migration], md_items = [], md_backups = []\<rparr>,
     wd_targets = (\<lambda>key. if key = ''shared-control'' then frozen_shared else if key = ''own'' then copied_own else demo_own),
     wd_now = 5, wd_accepted = (\<lambda>t table. if table = ''biz_note'' then ordered_rows demo_table t demo_shared else [])\<rparr>"

definition demo_run :: world where
  "demo_run = snd (snd (handle_migration_job demo_env demo_job (replicate 40 calm) demo_world))"

lemma demo_state:
  "map_option mg_state (migration_by_id 7 (wd_db demo_run)) = Some mg_RETENTION_PENDING"
  by code_simp

lemma demo_placed: "map_option pl_current_target_key (placement_of ''acme'' (wd_db demo_run)) = Some ''own''"
  by code_simp

lemma demo_system: "(system_step demo_env acme_rows ''acme'')\<^sup>*\<^sup>* demo_world demo_run"
proof -
  have "mine 7 ''acme'' demo_world"
    by (simp add: mine_def demo_world_def migration_by_id_def row_get_def verified_migration_def new_migration_def demo_plan_def)
  then have "system_step demo_env acme_rows ''acme'' demo_world demo_run"
    unfolding demo_run_def by (intro run_step [OF demo_payload]) (simp_all add: calm_def)
  then show ?thesis by blast
qed

lemma demo_rows:
  "tenant_rows demo_table ''acme'' frozen_shared = [demo_note ''acme'' ''2'' ''b'', demo_note ''acme'' ''1'' ''a'']"
  "tenant_rows demo_table ''acme'' copied_own = [demo_note ''acme'' ''2'' ''b'', demo_note ''acme'' ''1'' ''a'']"
  "tenant_rows demo_table ''acme'' demo_own = []"
  "tenant_rows demo_table ''acme'' demo_shared = [demo_note ''acme'' ''2'' ''b'', demo_note ''acme'' ''1'' ''a'']"
  by code_simp+

lemma demo_safe: "safe (me_catalog demo_env) acme_rows ''acme'' demo_world"
proof (rule safeI [where p = demo_place])
  have closed: "open_fence ''acme'' (wd_targets demo_world key) = None" for key
    by (simp add: demo_world_def frozen_shared_def copied_own_def demo_own_def open_fence_def row_get_def)
  have orders: "ordered_rows demo_table ''acme'' frozen_shared = ordered_rows demo_table ''acme'' copied_own"
    "ordered_rows demo_table ''acme'' demo_shared = ordered_rows demo_table ''acme'' frozen_shared"
    by (simp_all only: ordered_rows_def demo_rows)
  show "unique_key mg_id (md_migrations (wd_db demo_world))" by (simp add: unique_key_def demo_world_def)
  show "placement_of ''acme'' (wd_db demo_world) = Some demo_place"
    by (simp add: placement_of_def demo_world_def row_get_def demo_place_def)
  show "one_copy ''acme'' (wd_targets demo_world) demo_place" by (simp add: one_copy_def closed)
  show "holds_data (me_catalog demo_env) ''acme'' (wd_accepted demo_world ''acme'') (wd_targets demo_world (pl_current_target_key demo_place))"
    using orders(2) by (simp add: holds_data_def demo_env_def demo_world_def demo_place_def) (simp add: demo_table_def)
  show "stage_ok (me_catalog demo_env) ''acme'' (wd_targets demo_world) demo_place m" if "m \<in> working ''acme'' (wd_db demo_world)" for m
  proof -
    have m: "m = verified_migration" using that by (simp add: working_def demo_world_def)
    have "ready (me_catalog demo_env) ''acme'' (wd_targets demo_world) m"
      using closed orders(1) by (simp add: ready_def m demo_env_def verified_migration_def new_migration_def demo_plan_def)
        (simp add: demo_world_def)
    then show ?thesis
      by (simp add: m stage_ok_def before_cutover_def same_source_def demo_place_def verified_migration_def new_migration_def demo_plan_def)
  qed
  show "mg_id m = mg_id m'" if "m \<in> working ''acme'' (wd_db demo_world)" "m' \<in> working ''acme'' (wd_db demo_world)" for m m'
    using that by (simp add: working_def demo_world_def)
  have ok: "table_ok demo_table [demo_note ''acme'' ''2'' ''b'', demo_note ''acme'' ''1'' ''a'']" by code_simp
  show "rows_ok (me_catalog demo_env) acme_rows ''acme'' (wd_targets demo_world key)" for key
    using ok demo_rows by (simp add: rows_ok_def demo_env_def demo_world_def acme_rows_def table_ok_def)
      (simp add: unique_key_def frozen_shared_def copied_own_def demo_own_def)
qed

lemma demo_env_valid: "validate_structure (me_catalog demo_env) = Inr ()" "codec_ok (me_codec demo_env)"
  "collision_free (me_codec demo_env) acme_rows"
  using demo_catalog_valid mix_codec_ok demo_collision_free by (simp_all add: demo_env_def)

definition own_session :: FenceProvision where
  "own_session = \<lparr>fp_tenant_id = ''acme'', fp_target_key = ''own'', fp_placement_generation = 2, fp_switch_token = ''tok2''\<rparr>"

theorem single_writable_copy_witness:
  "verify_fence_on own_session Dedicated (wd_targets demo_run ''own'') = Inr () \<and>
   (\<exists>q. placement_of ''acme'' (wd_db demo_run) = Some q \<and> pl_current_target_key q = ''own'' \<and>
      pl_placement_generation q = 2 \<and> pl_switch_token q = ''tok2'')"
proof
  show v: "verify_fence_on own_session Dedicated (wd_targets demo_run ''own'') = Inr ()" by code_simp
  show "\<exists>q. placement_of ''acme'' (wd_db demo_run) = Some q \<and> pl_current_target_key q = ''own'' \<and>
      pl_placement_generation q = 2 \<and> pl_switch_token q = ''tok2''"
    using single_writable_copy [OF demo_env_valid demo_safe demo_system, of own_session Dedicated] v
    by (simp add: own_session_def)
qed

theorem tenant_data_preserved_witness:
  "ordered_rows demo_table ''acme'' (wd_targets demo_run ''own'') = ordered_rows demo_table ''acme'' demo_shared \<and>
   ordered_rows demo_table ''acme'' demo_shared \<noteq> []"
proof
  have d: "demo_table \<in> set (me_catalog demo_env)" by (simp add: demo_env_def)
  obtain q where q: "placement_of ''acme'' (wd_db demo_run) = Some q"
      "ordered_rows demo_table ''acme'' (wd_targets demo_run (pl_current_target_key q)) = wd_accepted demo_run ''acme'' (de_table demo_table)"
    using tenant_data_preserved [OF demo_env_valid demo_safe demo_system d] by blast
  moreover have "pl_current_target_key q = ''own''" using demo_placed q(1) by simp
  moreover have "wd_accepted demo_run ''acme'' (de_table demo_table) = ordered_rows demo_table ''acme'' demo_shared" by code_simp
  ultimately show "ordered_rows demo_table ''acme'' (wd_targets demo_run ''own'') = ordered_rows demo_table ''acme'' demo_shared" by simp
  show "ordered_rows demo_table ''acme'' demo_shared \<noteq> []" by code_simp
qed

end
