(* ===== verification/Migration_Withdrawal.thy ===== *)
theory Migration_Withdrawal
  imports Migration_System
begin

text \<open>
  A cancellation that was accepted is never lost: whatever workers, operators and other tenants do
  afterwards, the migration never gets past its cut-over and can only end as cancelled.
\<close>

section \<open>The row of a cancelled migration\<close>

text \<open>The row \<open>i\<close> of the tenant \<open>t\<close> carries the request \<open>key\<close> and is before its cut-over or closed.\<close>

definition given_up :: "string \<Rightarrow> string \<Rightarrow> data_migration \<Rightarrow> bool" where
  "given_up key t m \<longleftrightarrow> mg_tenant_id m = t \<and> mg_cancel_idempotency_key_hash m = Some key \<and>
     (can_cancel m \<or> mg_state m = mg_CANCELLED)"

definition withdrawn :: "int \<Rightarrow> string \<Rightarrow> string \<Rightarrow> migration_db \<Rightarrow> bool" where
  "withdrawn i key t db \<longleftrightarrow> (\<exists>m. migration_by_id i db = Some m \<and> given_up key t m)"

lemma withdrawn_same: "same_control db db' \<Longrightarrow> withdrawn i key t db \<Longrightarrow> withdrawn i key t db'"
  by (simp add: withdrawn_def same_control_lookup)

lemma withdrawn_place [simp]: "withdrawn i key t (save_placement p db) = withdrawn i key t db"
  by (simp add: withdrawn_def save_placement_def migration_by_id_def)

lemma withdrawn_save:
  assumes "withdrawn i key t db" "mg_id m = i \<Longrightarrow> given_up key t m"
  shows "withdrawn i key t (save_migration m db)"
  using assms by (auto simp: withdrawn_def migration_by_id_def row_get_row_put save_migration_def)

lemma withdrawn_row:
  assumes "withdrawn i key t db" "lock_migration j db = Inr m" "mg_id m = i"
  shows "given_up key t m"
  using assms row_get_SomeD [of mg_id j "md_migrations db" m]
  by (auto simp: withdrawn_def lock_migration_def migration_by_id_def split: option.splits)

text \<open>What no forward transition survives, and which intents a row that was given up has.\<close>

lemma given_up_guards:
  assumes "given_up key t m"
  shows "ensure_not_cancel_requested m \<noteq> Inr u" "validate_recovery_intent m intent = Inr () \<Longrightarrow> intent = Cancel"
    "mg_state m \<noteq> mg_SUCCEEDED" "mg_state m \<noteq> mg_RETENTION_PENDING" "mg_state m \<noteq> mg_FINALIZED"
    "mg_cancel_idempotency_key_hash m = Some key"
  using assms by (auto simp: given_up_def ensure_not_cancel_requested_def can_cancel_def)
    (cases intent; simp add: validate_recovery_intent_def)+

section \<open>Transactions\<close>

text \<open>What a transaction leaves, if it commits, satisfies \<open>P\<close>.\<close>

definition steady :: "(migration_db \<Rightarrow> bool) \<Rightarrow> ('a \<times> migration_db) app_result \<Rightarrow> bool" where
  "steady P r \<longleftrightarrow> (case r of Inl _ \<Rightarrow> True | Inr (_, db) \<Rightarrow> P db)"

lemma steadyD: "steady P r \<Longrightarrow> r = Inr (x, db) \<Longrightarrow> P db"
  by (simp add: steady_def)

lemma steady_simps [simp]: "steady P (Inl e)" "steady P (Inr (x, db)) = P db"
  by (simp_all add: steady_def)

lemma steady_bind:
  assumes "\<And>x. r = Inr x \<Longrightarrow> steady P (f x)"
  shows "steady P (bind_result r f)"
  using assms by (cases r) (simp_all add: steady_def)

lemma steady_if:
  assumes "b \<Longrightarrow> steady P x" "\<not> b \<Longrightarrow> steady P y"
  shows "steady P (if b then x else y)"
  using assms by simp

lemma steady_same:
  assumes "withdrawn i key t db" "\<And>db1. r = Inr db1 \<Longrightarrow> same_control db db1"
    "\<And>db1. withdrawn i key t db1 \<Longrightarrow> steady (withdrawn i key t) (f db1)"
  shows "steady (withdrawn i key t) (bind_result r f)"
  by (rule steady_bind, rule assms(3), rule withdrawn_same [OF assms(2,1)])

lemma steady_leases:
  "withdrawn i key t db \<Longrightarrow> (\<And>db1. withdrawn i key t db1 \<Longrightarrow> steady (withdrawn i key t) (f db1)) \<Longrightarrow>
     steady (withdrawn i key t) (bind_result (acquire_or_renew_operation_lease s now tnow db) f)"
  "withdrawn i key t db \<Longrightarrow> (\<And>db1. withdrawn i key t db1 \<Longrightarrow> steady (withdrawn i key t) (f db1)) \<Longrightarrow>
     steady (withdrawn i key t) (bind_result (renew_operation_lease s now tnow db) f)"
  "withdrawn i key t db \<Longrightarrow> (\<And>db1. withdrawn i key t db1 \<Longrightarrow> steady (withdrawn i key t) (f db1)) \<Longrightarrow>
     steady (withdrawn i key t) (bind_result (release_operation_lease s tnow db) f)"
  "withdrawn i key t db \<Longrightarrow> (\<And>db1. withdrawn i key t db1 \<Longrightarrow> steady (withdrawn i key t) (f db1)) \<Longrightarrow>
     steady (withdrawn i key t) (bind_result (increment_runtime_epoch tn clock db) f)"
  "withdrawn i key t db \<Longrightarrow> (\<And>db1. withdrawn i key t db1 \<Longrightarrow> steady (withdrawn i key t) (f db1)) \<Longrightarrow>
     steady (withdrawn i key t) (bind_result (reactivate_job m now db) f)"
  by (erule steady_same, (erule lease_same_control jobs_same_control), blast)+

lemma steady_locks:
  assumes "withdrawn i key t db" "\<And>x db1. withdrawn i key t db1 \<Longrightarrow> steady (withdrawn i key t) (g x db1)"
  shows "steady (withdrawn i key t) (bind_result (lock_tenant_of tn tok tnow db) (\<lambda>(x, db1). g x db1))"
proof (rule steady_bind)
  fix r
  assume r: "lock_tenant_of tn tok tnow db = Inr r"
  obtain x db1 where p: "r = (x, db1)" by (cases r)
  show "steady (withdrawn i key t) (case r of (x, db1) \<Rightarrow> g x db1)"
    unfolding p prod.case by (rule assms(2)) (rule withdrawn_same [OF lease_same_control(5) [OF r [unfolded p]] assms(1)])
qed

lemma steady_enqueue:
  assumes "withdrawn i key t db" "\<And>x db1. withdrawn i key t db1 \<Longrightarrow> steady (withdrawn i key t) (g x db1)"
  shows "steady (withdrawn i key t) (bind_result (enqueue_migration_job nid c tnow db) (\<lambda>(x, db1). g x db1))"
proof (rule steady_bind)
  fix r
  assume r: "enqueue_migration_job nid c tnow db = Inr r"
  obtain x db1 where p: "r = (x, db1)" by (cases r)
  show "steady (withdrawn i key t) (case r of (x, db1) \<Rightarrow> g x db1)"
    unfolding p prod.case by (rule assms(2)) (rule withdrawn_same [OF jobs_same_control(2) [OF r [unfolded p]] assms(1)])
qed

lemma withdrawn_jobs [simp]: "withdrawn i key t (db\<lparr>md_jobs := js\<rparr>) = withdrawn i key t db"
  by (simp add: withdrawn_def migration_by_id_def)

lemma steady_row:
  assumes "withdrawn i key t db"
    "\<And>m. lock_migration j db = Inr m \<Longrightarrow> (mg_id m = i \<Longrightarrow> given_up key t m) \<Longrightarrow> steady (withdrawn i key t) (f m)"
  shows "steady (withdrawn i key t) (bind_result (lock_migration j db) f)"
  using withdrawn_row [OF assms(1)] assms(2) by (intro steady_bind) blast

lemma steady_guard:
  assumes "mg_id m = i \<Longrightarrow> given_up key t m" "\<And>u. mg_id m \<noteq> i \<Longrightarrow> steady (withdrawn i key t) (f u)"
  shows "steady (withdrawn i key t) (bind_result (ensure_not_cancel_requested m) f)"
  using given_up_guards(1) assms by (intro steady_bind) blast

lemma steady_intent:
  assumes "mg_id m = i \<Longrightarrow> given_up key t m" "\<And>u. (mg_id m = i \<Longrightarrow> intent = Cancel) \<Longrightarrow> steady (withdrawn i key t) (f u)"
  shows "steady (withdrawn i key t) (bind_result (validate_recovery_intent m intent) f)"
  using given_up_guards(2) assms by (intro steady_bind) (metis (full_types) old.unit.exhaust)

lemma steady_save:
  assumes "withdrawn i key t db" "mg_id m = i \<Longrightarrow> given_up key t m"
  shows "steady (withdrawn i key t) (Inr (x, save_migration m db))"
  using withdrawn_save assms by simp

lemma steady_bind_if:
  assumes "b \<Longrightarrow> steady P (bind_result x f)" "\<not> b \<Longrightarrow> steady P (bind_result y f)"
  shows "steady P (bind_result (if b then x else y) f)"
  using assms by simp

lemma steady_bind_simps:
  "steady P (f x) \<Longrightarrow> steady P (bind_result (Inr x) f)" "steady P (bind_result (Inl e) f)"
  by simp_all

lemma steady_cases:
  "steady P (g a b) \<Longrightarrow> steady P (case (a, b) of (a, b) \<Rightarrow> g a b)"
  "(\<And>a b. x = (a, b) \<Longrightarrow> steady P (g a b)) \<Longrightarrow> steady P (case x of (a, b) \<Rightarrow> g a b)"
  "(y = None \<Longrightarrow> steady P r) \<Longrightarrow> (\<And>v. y = Some v \<Longrightarrow> steady P (f v)) \<Longrightarrow> steady P (case y of None \<Rightarrow> r | Some v \<Rightarrow> f v)"
  "(y = None \<Longrightarrow> steady P (bind_result q k)) \<Longrightarrow> (\<And>v. y = Some v \<Longrightarrow> steady P (bind_result (h v) k)) \<Longrightarrow>
     steady P (bind_result (case y of None \<Rightarrow> q | Some v \<Rightarrow> h v) k)"
  "(c \<Longrightarrow> steady P (Inr (z, d1))) \<Longrightarrow> (\<not> c \<Longrightarrow> steady P (Inr (z, d2))) \<Longrightarrow> steady P (Inr (z, if c then d1 else d2))"
  by (simp_all split: prod.split option.split)

lemmas steady_changes = steady_leases steady_locks steady_enqueue steady_row
lemmas steady_checks = steady_guard steady_intent
lemmas steady_rest = steady_if steady_cases steady_bind_if steady_bind_simps steady_bind

lemma steady_sameI:
  assumes "\<And>x db'. r = Inr (x, db') \<Longrightarrow> same_control db db'" "withdrawn i key t db"
  shows "steady (withdrawn i key t) r"
  using assms withdrawn_same by (fastforce simp: steady_def split: sum.split)

lemma quiet_steady:
  "withdrawn i key t db \<Longrightarrow> steady (withdrawn i key t) (assert_worker_can_run_txn s st now tnow db)"
  "withdrawn i key t db \<Longrightarrow> steady (withdrawn i key t) (reacquire_execution_lease_txn env s now tnow db)"
  "withdrawn i key t db \<Longrightarrow> steady (withdrawn i key t) (assert_recovery_can_run_txn s intent now tnow db)"
  "withdrawn i key t db \<Longrightarrow> steady (withdrawn i key t) (copy_progress_txn m x cursor n dig now tnow db)"
  "withdrawn i key t db \<Longrightarrow> steady (withdrawn i key t) (cleanup_batch_txn s intent x k now tnow db)"
  by (rule steady_sameI, (erule assert_worker_flags reacquire_flags [THEN conjunct1] assert_recovery_flags copy_progress_flags
      cleanup_batch_flags), assumption)+

text \<open>A row that is given up stays so under the flags of its recovery.\<close>

lemma given_up_keeps:
  assumes "given_up key t m"
  shows "given_up key t (m\<lparr>mg_cleanup_ready_at := a, mg_updated_at := b\<rparr>)"
    "given_up key t (m\<lparr>mg_background_job_id := j, mg_updated_at := b\<rparr>)"
    "given_up key t (m\<lparr>mg_state := mg_CANCELLED, mg_cancelled_at := a, mg_updated_at := b\<rparr>)"
  using assms by (simp_all add: given_up_def can_cancel_def)

lemma transitions_steady:
  "withdrawn i key t db \<Longrightarrow> steady (withdrawn i key t) (enter_maintenance_txn s now tnow clock db)"
  "withdrawn i key t db \<Longrightarrow> steady (withdrawn i key t) (cut_over_txn s now tnow clock db)"
  "withdrawn i key t db \<Longrightarrow> steady (withdrawn i key t) (activate_control_txn s now tnow clock db)"
  "withdrawn i key t db \<Longrightarrow> steady (withdrawn i key t) (enter_retention_txn s now tnow db)"
  "withdrawn i key t db \<Longrightarrow> steady (withdrawn i key t) (restore_source_placement_txn s intent now tnow clock db)"
  "withdrawn i key t db \<Longrightarrow> steady (withdrawn i key t) (cleanup_checkpoint_txn s intent now tnow db)"
  "withdrawn i key t db \<Longrightarrow> steady (withdrawn i key t) (close_cancel_txn s now tnow db)"
  "withdrawn i key t db \<Longrightarrow> steady (withdrawn i key t) (close_failure_txn s now tnow db)"
  "withdrawn i key t db \<Longrightarrow> steady (withdrawn i key t) (close_finalize_txn s now tnow db)"
  "withdrawn i key t db \<Longrightarrow> steady (withdrawn i key t) (compensation_intent_txn s code now tnow db)"
  "withdrawn i key t db \<Longrightarrow> steady (withdrawn i key t) (cancel_intent_txn actor h s now tnow db)"
  "withdrawn i key t db \<Longrightarrow> steady (withdrawn i key t) (finalize_intent_txn actor h s now tnow db)"
  "withdrawn i key t db \<Longrightarrow> steady (withdrawn i key t) (repair_job_txn s now tnow nid db)"
  "withdrawn i key t db \<Longrightarrow> (\<And>x now. mg_id (upd x now) = mg_id x) \<Longrightarrow>
    steady (withdrawn i key t) (set_state_txn s st upd now tnow db)"
  unfolding activate_control_txn_def cancel_intent_txn_def cleanup_checkpoint_txn_def close_cancel_txn_def
    close_failure_txn_def close_finalize_txn_def close_recovery_def compensation_intent_txn_def cut_over_txn_def
    enter_maintenance_txn_def enter_retention_txn_def finalize_intent_txn_def repair_job_txn_def
    restore_source_placement_txn_def set_state_txn_def Let_def
  by ((rule steady_changes, (assumption | (rule withdrawn_save, assumption, (auto dest: given_up_guards given_up_keeps; fail)) |
       (auto intro!: withdrawn_save dest: given_up_guards; fail)))
     | (rule steady_checks, (simp; fail))
     | (rule steady_save, (assumption | (simp; fail)), (auto dest: given_up_guards given_up_keeps; fail))
     | rule steady_rest | (simp; fail))+

lemma item_steady: "withdrawn i key t db \<Longrightarrow> steady (withdrawn i key t) (save_item y db)"
  "withdrawn i key t db \<Longrightarrow> steady (withdrawn i key t) (insert_item y db)"
  by (rule steady_sameI, (erule item_same_control), assumption)+

lemma cancel_withdraws:
  assumes "cancel_intent_txn actor key s now tnow db = Inr ((True, m), db')"
  shows "withdrawn (mg_id m) key (mg_tenant_id m) db'"
proof -
  obtain db1 x where 1: "acquire_or_renew_operation_lease s now tnow db = Inr db1" "lock_migration (mg_id s) db1 = Inr x"
    using assms by (auto simp: cancel_intent_txn_def bind_result_eq_Inr)
  have id: "migration_by_id (mg_id x) db1 = Some x"
    using 1(2) row_get_SomeD [of mg_id "mg_id s" "md_migrations db1" x]
    by (auto simp: lock_migration_def migration_by_id_def split: option.splits)
  show ?thesis
  proof (cases "mg_state x = mg_CANCELLED")
    case True
    have r: "bind_result (release_operation_lease x tnow db1) (\<lambda>db2. Inr ((mg_cancel_idempotency_key_hash x = Some key, x), db2)) =
        Inr ((True, m), db')"
      using assms 1 True by (simp add: cancel_intent_txn_def)
    then have 2: "release_operation_lease x tnow db1 = Inr db'" "x = m" "mg_cancel_idempotency_key_hash x = Some key"
      by (cases "release_operation_lease x tnow db1"; simp)+
    have "withdrawn (mg_id m) key (mg_tenant_id m) db1"
      using id True 2(3) unfolding 2(2) withdrawn_def given_up_def by blast
    then show ?thesis by (rule withdrawn_same [OF lease_same_control(4) [OF 2(1)]])
  next
    case False
    define x' where "x' = x\<lparr>mg_cancel_idempotency_key_hash := Some key, mg_cancelled_by := Some (ax_user_id actor),
        mg_cancel_requested_at := Some now, mg_updated_at := now\<rparr>"
    obtain db2 where 2: "mg_cancel_idempotency_key_hash x = Some key \<and> m = x \<and> db2 = db1 \<or> m = x' \<and> db2 = save_migration x' db1"
        "can_cancel x" "reactivate_job m now db2 = Inr db'"
      using assms 1 False by (auto simp: cancel_intent_txn_def bind_result_eq_Inr x'_def Let_def split: if_splits option.splits)
    have "withdrawn (mg_id m) key (mg_tenant_id m) db2"
      using 2(1)
    proof
      assume "mg_cancel_idempotency_key_hash x = Some key \<and> m = x \<and> db2 = db1"
      then show ?thesis using id 2(2) by (simp add: withdrawn_def given_up_def)
    next
      assume m: "m = x' \<and> db2 = save_migration x' db1"
      have "mg_id x' = mg_id x" "given_up key (mg_tenant_id x') x'" using 2(2) by (simp_all add: x'_def given_up_def can_cancel_def)
      then show ?thesis using m id by (simp add: withdrawn_def migration_by_id_def save_migration_def row_get_row_put)
    qed
    then show ?thesis by (rule withdrawn_same [OF jobs_same_control(1) [OF 2(3)]])
  qed
qed

section \<open>Others\<close>

lemma elsewhere_keeps:
  assumes "filter (\<lambda>m. mg_tenant_id m = t) (md_migrations db') = filter (\<lambda>m. mg_tenant_id m = t) (md_migrations db)"
    "unique_key mg_id (md_migrations db')" "withdrawn i key t db"
  shows "withdrawn i key t db'"
proof -
  obtain m where m: "migration_by_id i db = Some m" "given_up key t m" using assms(3) by (auto simp: withdrawn_def)
  have "m \<in> set (filter (\<lambda>m. mg_tenant_id m = t) (md_migrations db))" "mg_id m = i"
    using m row_get_SomeD [of mg_id i "md_migrations db" m] by (auto simp: migration_by_id_def given_up_def)
  then have "m \<in> set (md_migrations db')" "mg_id m = i" unfolding assms(1) [symmetric] by auto
  then have "migration_by_id i db' = Some m" using row_get_iff [OF assms(2)] by (simp add: migration_by_id_def)
  then show ?thesis using m(2) by (auto simp: withdrawn_def)
qed

lemma other_keeps:
  assumes "other_step env \<rho> t w w'" "withdrawn i key t (wd_db w)"
  shows "withdrawn i key t (wd_db w')"
  using assms(1)
proof (cases rule: other_step.cases)
  case elsewhere
  then show ?thesis using elsewhere_keeps assms(2) by blast
next
  case (created actor c v plan now tnow next_id r db')
  from create_shape [OF created(2,3)] show ?thesis
  proof
    assume "same_control (wd_db w) db'"
    then show ?thesis using withdrawn_same assms(2) created(1) by simp
  next
    assume "\<exists>m' p. md_placements db' = md_placements (wd_db w) \<and> md_migrations db' = m' # md_migrations (wd_db w) \<and>
      mg_id m' \<notin> mg_id ` set (md_migrations (wd_db w)) \<and> working t (wd_db w) = {} \<and> placement_of t (wd_db w) = Some p \<and>
      same_source p m' \<and> mg_source_target_key m' \<noteq> mg_target_key m' \<and> mg_state m' = mg_PRECHECKING"
    then obtain m' where m': "md_migrations db' = m' # md_migrations (wd_db w)" "mg_id m' \<notin> mg_id ` set (md_migrations (wd_db w))"
      by blast
    obtain m where m: "migration_by_id i (wd_db w) = Some m" "given_up key t m" using assms(2) by (auto simp: withdrawn_def)
    have "mg_id m' \<noteq> i" using m(1) m'(2) row_get_SomeD [of mg_id i "md_migrations (wd_db w)" m] by (auto simp: migration_by_id_def)
    then have "migration_by_id i db' = Some m" using m(1) m'(1) by (simp add: migration_by_id_def row_get_def)
    then show ?thesis using m(2) created(1) by (simp add: withdrawn_def)
  qed
next
  case (cancelled actor h snapshot now tnow r' db')
  then show ?thesis using steadyD [OF transitions_steady(11) [OF assms(2)]] by simp
next
  case (finalized actor h snapshot now tnow r' db')
  then show ?thesis using steadyD [OF transitions_steady(12) [OF assms(2)]] by simp
next
  case (repaired snapshot now tnow next_id b db')
  then show ?thesis using steadyD [OF transitions_steady(13) [OF assms(2)]] by simp
qed (use assms(2) in simp)

section \<open>Programs\<close>

text \<open>A program that keeps the invariant, whatever it is given and however it ends.\<close>

context surroundings begin

definition harmless :: "'a io \<Rightarrow> bool" where
  "harmless m \<longleftrightarrow> triple (\<lambda>_. True) m (\<lambda>_ _. True) (\<lambda>_. True)"

lemma stable_True: "stable (\<lambda>_. True)"
  by (simp add: stable_def)

lemma harmless_basic: "harmless (io_return x)" "harmless (io_fail e)" "harmless (io_lift r)" "harmless local_clock" "harmless fresh_id"
  "harmless database_now" "harmless (control_read f)" "harmless (target_read h)"
  unfolding harmless_def
  by (auto intro: triple_return triple_fail triple_lift triple_clock triple_fresh triple_now triple_control_read triple_target_read
      stable_True)

lemma harmless_bind: "harmless m \<Longrightarrow> (\<And>x. harmless (f x)) \<Longrightarrow> harmless (io_bind m f)"
  unfolding harmless_def by (rule triple_bind)

lemma harmless_catch: "harmless m \<Longrightarrow> (\<And>e. harmless (h e)) \<Longrightarrow> harmless (io_catch m h)"
  unfolding harmless_def by (rule triple_catch)

lemma harmless_ignore: "harmless m \<Longrightarrow> harmless (io_ignore m)"
  unfolding harmless_def by (rule triple_ignore)

lemma harmless_loop: "(\<And>s. harmless (body s)) \<Longrightarrow> harmless (io_loop body s)"
  unfolding harmless_def by (rule triple_loop [where P = "\<lambda>_ _. True"], rule triple_post) auto

lemma harmless_each: "(\<And>x. harmless (f x)) \<Longrightarrow> harmless (io_each f zs)"
  unfolding harmless_def by (rule triple_each [where P = "\<lambda>_ _. True"])

lemma harmless_control:
  "(\<And>turn now w x db. I w \<Longrightarrow> f turn now (wd_db w) = Inr (x, db) \<Longrightarrow> I (w\<lparr>wd_db := db\<rparr>)) \<Longrightarrow> harmless (control_txn f)"
  unfolding harmless_def by (rule triple_control [OF stable_True]) auto

lemma harmless_timed:
  "(\<And>now tnow clock w x db. I w \<Longrightarrow> f now tnow clock (wd_db w) = Inr (x, db) \<Longrightarrow> I (w\<lparr>wd_db := db\<rparr>)) \<Longrightarrow> harmless (timed_txn f)"
  unfolding harmless_def by (rule triple_timed [OF stable_True]) auto

lemma harmless_target:
  "(\<And>w ts. I w \<Longrightarrow> I (w\<lparr>wd_targets := ts\<rparr>)) \<Longrightarrow> harmless (target_call f)"
  unfolding harmless_def by (rule triple_target [OF stable_True]) auto

lemma harmless_cases:
  "(b \<Longrightarrow> harmless m) \<Longrightarrow> (\<not> b \<Longrightarrow> harmless m') \<Longrightarrow> harmless (if b then m else m')"
  "harmless m \<Longrightarrow> (\<And>v. harmless (f v)) \<Longrightarrow> harmless (case y of None \<Rightarrow> m | Some v \<Rightarrow> f v)"
  "(\<And>a c. harmless (g a c)) \<Longrightarrow> harmless (case z of (a, c) \<Rightarrow> g a c)"
  by (auto split: option.split prod.split)

lemmas harmless_rules = harmless_cases harmless_basic harmless_bind harmless_catch harmless_ignore harmless_loop harmless_each

end

interpretation withdrawal: surroundings "\<lambda>w w'. withdrawn i key t (wd_db w) \<longrightarrow> withdrawn i key t (wd_db w')"
  "\<lambda>w. withdrawn i key t (wd_db w)" for i key t
  by unfold_locales blast

lemma timed_harmless:
  assumes "\<And>now tnow clock db. withdrawn i key t db \<Longrightarrow> steady (withdrawn i key t) (f now tnow clock db)"
  shows "withdrawal.harmless i key t (timed_txn f)"
  by (rule withdrawal.harmless_timed) (use assms steadyD in fastforce)

lemma control_harmless:
  assumes "\<And>turn now db. withdrawn i key t db \<Longrightarrow> steady (withdrawn i key t) (f turn now db)"
  shows "withdrawal.harmless i key t (control_txn f)"
  by (rule withdrawal.harmless_control) (use assms steadyD in fastforce)

lemma target_harmless: "withdrawal.harmless i key t (target_call f)"
  by (rule withdrawal.harmless_target) simp

lemmas harmless_calls = timed_harmless control_harmless target_harmless
lemmas kept_calls = quiet_steady transitions_steady item_steady

lemma basic_programs:
  "withdrawal.harmless i key t (assert_migration_frozen_fence env m k)" "withdrawal.harmless i key t (verify_now env k)"
  "withdrawal.harmless i key t (validate_catalog env k)" "withdrawal.harmless i key t (assert_worker_can_run m st)"
  "withdrawal.harmless i key t (save_item_call y)" "withdrawal.harmless i key t (insert_item_call y)"
  "withdrawal.harmless i key t (reacquire_execution_lease env m)" "withdrawal.harmless i key t (restore_source_placement m intent)"
  "withdrawal.harmless i key t (verify_keys_call env m k d)" "withdrawal.harmless i key t (enter_maintenance m)"
  "withdrawal.harmless i key t (enter_retention m)"
  unfolding assert_migration_frozen_fence_def verify_now_def validate_catalog_def assert_worker_can_run_def save_item_call_def
    insert_item_call_def reacquire_execution_lease_def restore_source_placement_def verify_keys_call_def enter_maintenance_def
    enter_retention_def
  by (rule withdrawal.harmless_rules harmless_calls kept_calls | assumption)+

lemma set_state_harmless:
  "(\<And>x now. mg_id (upd x now) = mg_id x) \<Longrightarrow> withdrawal.harmless i key t (set_state m st upd)"
  unfolding set_state_def by (rule timed_harmless) (rule transitions_steady)

lemma copy_programs:
  "withdrawal.harmless i key t (copy_catalog env m)" "withdrawal.harmless i key t (verify_catalog env m)"
  unfolding copy_catalog_def copy_table_def item_or_new_def copy_table_in_batches_def copy_batch_def Let_def
    verify_catalog_def verify_table_def table_digest_def digest_batch_def
  by (rule withdrawal.harmless_rules basic_programs harmless_calls kept_calls | assumption)+

lemma cleanup_program: "withdrawal.harmless i key t (cleanup_catalog_rows env m intent k g tok)"
proof -
  have "withdrawal.harmless i key t (owns_cleanup env m intent fence)" for fence
    unfolding owns_cleanup_def
    by (rule withdrawal.harmless_bind [OF target_harmless])
      (auto split: TenantDataCleanupOwnership.split intro!: withdrawal.harmless_rules)
  then show ?thesis
    unfolding cleanup_catalog_rows_def clean_table_def clean_batch_def item_or_new_def Let_def
    by - (rule withdrawal.harmless_rules basic_programs harmless_calls kept_calls | assumption)+
qed

lemma recovery_programs:
  "withdrawal.harmless i key t (reconcile_cancel_intent env m)" "withdrawal.harmless i key t (reconcile_finalize_intent env m)"
  "withdrawal.harmless i key t (compensate_before_cutover env j code)"
  unfolding reconcile_cancel_intent_def reconcile_finalize_intent_def compensate_before_cutover_def back_to_source_def
  by (rule withdrawal.harmless_rules basic_programs cleanup_program harmless_calls kept_calls | assumption)+

lemma resume_program: "withdrawal.harmless i key t (resume_requested_recovery env m)"
  unfolding resume_requested_recovery_def Let_def
  by (rule withdrawal.harmless_rules recovery_programs)+

lemma stage_programs:
  "withdrawal.harmless i key t (prepare_migration_target env m)" "withdrawal.harmless i key t (freeze_source env m)"
  "withdrawal.harmless i key t (copy_stage env m)" "withdrawal.harmless i key t (verify_stage env m)"
  "withdrawal.harmless i key t (cut_over env m)" "withdrawal.harmless i key t (activate_target env m)"
  unfolding prepare_migration_target_def freeze_source_def copy_stage_def verify_stage_def cut_over_def activate_target_def
  by (rule withdrawal.harmless_rules basic_programs copy_programs harmless_calls kept_calls set_state_harmless | assumption | simp)+

lemma stages_program: "withdrawal.harmless i key t (run_stages env m)"
  unfolding run_stages_def stage_def
  by (rule withdrawal.harmless_rules basic_programs stage_programs set_state_harmless | simp)+

lemma execute_program: "withdrawal.harmless i key t (execute_migration env j)"
  unfolding execute_migration_def
  by (rule withdrawal.harmless_rules basic_programs resume_program recovery_programs stages_program
      | (simp split: option.split bool.split, intro conjI impI allI))+

lemma handle_program: "withdrawal.harmless i key t (handle_migration_job env job)"
  unfolding handle_migration_job_def
  by (rule withdrawal.harmless_rules execute_program recovery_programs)+

section \<open>Any number of workers\<close>

text \<open>Workers of the same migration may run inside each other's gaps, stop anywhere and start again.\<close>

inductive crowd_step :: "migration_env \<Rightarrow> data_row set \<Rightarrow> string \<Rightarrow> world \<Rightarrow> world \<Rightarrow> bool" for env \<rho> t where
  others: "other_step env \<rho> t w w' \<Longrightarrow> crowd_step env \<rho> t w w'"
| working: "\<forall>turn \<in> set ts. \<forall>v. (crowd_step env \<rho> t)\<^sup>*\<^sup>* v (tu_others turn v) \<Longrightarrow>
    handle_migration_job env job ts w = (r, ts', w') \<Longrightarrow> crowd_step env \<rho> t w w'"

lemma preserved_many:
  assumes "(\<lambda>v v'. R v v' \<and> (P v \<longrightarrow> P v'))\<^sup>*\<^sup>* v v'" "P v"
  shows "P v'"
  using assms by (induction rule: rtranclp_induct) auto

lemma crowd_keeps:
  assumes "crowd_step env \<rho> t w w'"
  shows "withdrawn i key t (wd_db w) \<longrightarrow> withdrawn i key t (wd_db w')"
  using assms
proof (induction rule: crowd_step.induct)
  case (others w w')
  then show ?case using other_keeps by blast
next
  case (working ts job w r ts' w')
  have "withdrawn i key t (wd_db v) \<longrightarrow> withdrawn i key t (wd_db (tu_others turn v))" if "turn \<in> set ts" for turn v
    using preserved_many [where P = "\<lambda>w. withdrawn i key t (wd_db w)"] working(1) that by blast
  then have turns: "withdrawal.turns_ok i key t ts" by (simp add: withdrawal.turns_ok_def list_all_iff)
  show ?case
    using withdrawal.tripleD [OF handle_program [unfolded withdrawal.harmless_def] turns _ _ working(2)] by blast
qed

lemma crowd_withdrawn:
  assumes "(crowd_step env \<rho> t)\<^sup>*\<^sup>* w w'" "withdrawn i key t (wd_db w)"
  shows "withdrawn i key t (wd_db w')"
  using assms by (induction rule: rtranclp_induct) (auto dest: crowd_keeps)

text \<open>
  C3. An accepted cancellation wins: once \<open>cancel\<close> has committed its request, whatever any number of
  workers, operators, sessions and other tenants do, with calls refused, unanswered or broken off, the
  migration keeps that request, is never taken to its cut-over and can only end as cancelled.
\<close>

theorem cancellation_wins:
  assumes "cancel_intent_txn actor key s now tnow (wd_db w) = Inr ((True, m), db)"
    "(crowd_step env \<rho> (mg_tenant_id m))\<^sup>*\<^sup>* (w\<lparr>wd_db := db\<rparr>) w'"
  shows "\<exists>m'. migration_by_id (mg_id m) (wd_db w') = Some m' \<and> mg_cancel_idempotency_key_hash m' = Some key \<and>
    (can_cancel m' \<or> mg_state m' = mg_CANCELLED)"
proof -
  have "withdrawn (mg_id m) key (mg_tenant_id m) (wd_db w')"
    by (rule crowd_withdrawn [OF assms(2)]) (simp add: cancel_withdraws [OF assms(1)])
  then show ?thesis unfolding withdrawn_def given_up_def by blast
qed

text \<open>A migration that is cancelled while its copy is verified, and what its worker makes of it.\<close>

definition verifying_migration :: data_migration where
  "verifying_migration = verified_migration\<lparr>mg_state := mg_VERIFYING, mg_background_job_id := Some 1\<rparr>"

definition verifying_world :: world where
  "verifying_world = demo_world\<lparr>wd_db := (wd_db demo_world)\<lparr>md_migrations := [verifying_migration],
     md_jobs := empty_db\<lparr>db_jobs := [demo_job]\<rparr>\<rparr>\<rparr>"

definition demo_operator :: ActorContext where
  "demo_operator = \<lparr>ax_user_id = 1, ax_tenant_id = ''system'', ax_username = ''root'', ax_dept_id = None, ax_dept_path = None,
     ax_data_scope = DS_All, ax_custom_dept_ids = [], ax_include_self = True, ax_is_super_admin = True\<rparr>"

definition cancelled_row :: data_migration where
  "cancelled_row = verifying_migration\<lparr>mg_cancel_idempotency_key_hash := Some ''k'', mg_cancelled_by := Some 1,
     mg_cancel_requested_at := Some 5, mg_updated_at := 5\<rparr>"

definition cancelling_world :: world where
  "cancelling_world = verifying_world\<lparr>wd_db :=
     (case cancel_intent_txn demo_operator ''k'' verifying_migration 5 5 (wd_db verifying_world) of
        Inr (_, db) \<Rightarrow> db | Inl _ \<Rightarrow> wd_db verifying_world)\<rparr>"

definition cancelled_world :: world where
  "cancelled_world = snd (snd (handle_migration_job demo_env demo_job (replicate 40 calm) cancelling_world))"

lemma demo_cancel: "cancel_intent_txn demo_operator ''k'' verifying_migration 5 5 (wd_db verifying_world) =
    Inr ((True, cancelled_row), wd_db cancelling_world)"
  by code_simp

lemma demo_crowd: "crowd_step demo_env acme_rows ''acme'' cancelling_world cancelled_world"
proof -
  obtain r ts' w' where h: "handle_migration_job demo_env demo_job (replicate 40 calm) cancelling_world = (r, ts', w')"
    by (cases "handle_migration_job demo_env demo_job (replicate 40 calm) cancelling_world")
  have "crowd_step demo_env acme_rows ''acme'' cancelling_world w'" by (rule working [OF _ h]) (simp add: calm_def)
  then show ?thesis using h by (simp add: cancelled_world_def)
qed

theorem cancellation_wins_witness:
  "map_option mg_state (migration_by_id 7 (wd_db cancelled_world)) = Some mg_CANCELLED \<and>
   map_option mg_cancel_idempotency_key_hash (migration_by_id 7 (wd_db cancelled_world)) = Some (Some ''k'')"
proof
  show "map_option mg_state (migration_by_id 7 (wd_db cancelled_world)) = Some mg_CANCELLED" by code_simp
  have "mg_id cancelled_row = 7" "mg_tenant_id cancelled_row = ''acme''" by code_simp+
  then show "map_option mg_cancel_idempotency_key_hash (migration_by_id 7 (wd_db cancelled_world)) = Some (Some ''k'')"
    using cancellation_wins [OF demo_cancel, of demo_env acme_rows cancelled_world] demo_crowd
    by (auto simp: cancelling_world_def)
qed

end
