(* ===== verification/Migration_Two_Workers.thy ===== *)
theory Migration_Two_Workers
  imports Migration_System
begin

text \<open>
  What a worker does that goes on after its job was given to another one.
\<close>

section \<open>Two workers\<close>

text \<open>
  The safety of a migration needs one worker at a time. A migration is about to freeze its source; the
  worker stalls before it records that, its job is handed to another worker, which brings the migration
  to its end; then the first goes on. It takes the refusal of its transition for a failure of the
  migration and opens the source again: two copies take writes.
\<close>

definition quiescing_world :: world where
  "quiescing_world = demo_world\<lparr>wd_db := (wd_db demo_world)\<lparr>md_migrations := [verified_migration\<lparr>mg_state := mg_QUIESCING\<rparr>]\<rparr>,
     wd_targets := (wd_targets demo_world)(''shared-control'' := demo_shared\<lparr>tg_rows := (\<lambda>_. [])\<rparr>, ''own'' := copied_own\<lparr>tg_rows := (\<lambda>_. [])\<rparr>)\<rparr>"

definition second_worker :: "world \<Rightarrow> world" where
  "second_worker w = snd (snd (handle_migration_job demo_env demo_job (replicate 90 calm) w))"

definition stalled_worker :: world where
  "stalled_worker = snd (snd (handle_migration_job demo_env demo_job
     (replicate 7 calm @ [calm\<lparr>tu_others := second_worker\<rparr>] @ replicate 5 calm) quiescing_world))"

definition shared_session :: FenceProvision where
  "shared_session = \<lparr>fp_tenant_id = ''acme'', fp_target_key = ''shared-control'', fp_placement_generation = 1, fp_switch_token = ''tok1''\<rparr>"

definition finished_with_two_copies :: "world \<Rightarrow> bool" where
  "finished_with_two_copies w \<longleftrightarrow>
     map_option mg_state (migration_by_id 7 (wd_db w)) = Some mg_RETENTION_PENDING \<and>
     is_ok (verify_fence_on shared_session Shared (wd_targets w ''shared-control'')) \<and>
     is_ok (verify_fence_on own_session Dedicated (wd_targets w ''own''))"

lemma stalled_worker_finished: "finished_with_two_copies stalled_worker"
  by code_simp

text \<open>
  A worker that stalls in the middle of freezing and goes on after a second worker has finished the
  migration leaves two copies open, in this run: sessions with the old placement are let in on the source, sessions
  with the new one on the target.
\<close>

lemma stalled_worker_opens_source:
  "map_option mg_state (migration_by_id 7 (wd_db stalled_worker)) = Some mg_RETENTION_PENDING \<and>
   verify_fence_on shared_session Shared (wd_targets stalled_worker ''shared-control'') = Inr () \<and>
   verify_fence_on own_session Dedicated (wd_targets stalled_worker ''own'') = Inr ()"
  using stalled_worker_finished by (auto simp: finished_with_two_copies_def is_ok_def split: sum.splits)

end
