(* ===== verification/Spec2Isabelle.thy ===== *)
theory Spec2Isabelle
  imports Snowflake Refresh_Session Redis_Equivalence Resilience Rate_Limit Job_Guarantees Worker_Properties Job_Service
    Delivery_Properties Effective_Scope Principal_Freshness Idempotency_Properties
    Administrators Migration_Withdrawal Migration_Two_Workers
begin

text \<open>
  \<^bold>\<open>ryframe, verified core.\<close> ryframe is the backend of a multi-tenant administration system, a Rust
  workspace of the crates \<open>ryframe-kernel\<close> (errors, identifiers, tenants), \<open>ryframe-auth\<close> (tokens,
  principals), \<open>ryframe-application\<close> (services and background work), \<open>ryframe-db\<close> (repositories on a
  control database), \<open>ryframe-tenant-db\<close> (the databases that hold the business rows of tenants),
  \<open>ryframe-adapters\<close> (Redis, sessions, limits), \<open>ryframe-api\<close> and the binary
  \<open>ryframe\<close>. All paths below are under \<open>src/crates\<close>.

  \<^bold>\<open>How the parts work together.\<close> A request carries an access token. Its principal (roles, permission
  codes, data scope) is taken from a snapshot in Redis or rebuilt from the database; the data scope
  filters every listing. A change of roles, users or departments runs in a transaction that locks the
  tenant, raises its authorisation epoch and writes two outbox events: the new epoch for the mirror in
  Redis, and the audit record. The outbox worker claims events under a lease and turns each into its
  effect: a mirrored counter, a log row, or a job. Job workers claim jobs under a lease, keep it
  alive while the handler runs and settle the job; expired leases are recovered. A write request that
  carries an idempotency key is admitted, run and replayed by the idempotency middleware. Sessions,
  request limits, retries and identifiers serve all of them. The business rows of a tenant lie on a
  target database that its placement names; a session is admitted there by a fence. A data migration
  moves the rows to another target: an operator plans it, a job drives it through its states under an
  operation lease, freezing the source, copying, comparing digests, moving the placement and opening
  the target, or going back and cleaning up.

  \<^bold>\<open>Theories, in the order of their imports.\<close>
  \<^item> \<open>Prelude\<close>, \<open>Rust_Strings\<close>, \<open>Messages\<close>, \<open>Tables\<close>, \<open>Stores\<close>, \<open>Leases\<close>: results as sums, machine
    integers, UTF-8 texts and number parsing, the message texts, tables as lists of rows, and two
    interfaces as locales: \<open>keyed_store\<close> and \<open>leased_items\<close>, the contract of work handed out under
    leases with fencing (\<open>claim_sequence\<close>).
  \<^item> \<open>Kernel_Errors\<close>, \<open>Access_Control\<close>, \<open>Snowflake\<close>: \<open>ryframe-kernel/src/error.rs\<close>, \<open>tenant_id.rs\<close> with the
    permission wildcards of \<open>ryframe-auth\<close>, \<open>snowflake.rs\<close> (locale \<open>id_generator\<close>).
  \<^item> \<open>Refresh_Session\<close>, \<open>Resilience\<close>, \<open>Rate_Limit\<close>: \<open>ryframe-adapters/src/refresh_session\<close>, \<open>resilience.rs\<close>
    and the rate limiter. Sessions are an association list of families behind \<open>keyed_store\<close>.
  \<^item> \<open>Redis_Sessions\<close>, \<open>Redis_Refinement\<close>, \<open>Redis_Equivalence\<close>, \<open>Redis_Link\<close>: the same sessions in Redis
    (\<open>refresh_session/redis_store\<close>) as transactions on hashes, sets and expiries, and the simulation that
    makes them answer like the store in memory.
  \<^item> \<open>Idempotency\<close>, \<open>Idempotency_Properties\<close>: \<open>ryframe-api/src/middleware/idempotency.rs\<close> with its Redis
    and its local store, as a step relation of concurrent requests.
  \<^item> \<open>Job_Types\<close>, \<open>Job_Linked\<close>, \<open>Job_Queue\<close>: the rows and transactions of
    \<open>ryframe-db/src/repositories/background_job_repo\<close>. \<open>Job_Invariants\<close>, \<open>Job_Properties\<close> and
    \<open>Job_Guarantees\<close> hold their invariant, the refinement of \<open>leased_items\<close> and what each call does.
  \<^item> \<open>Workers\<close>, \<open>Worker_Properties\<close>, \<open>Job_Service\<close>: \<open>ryframe-application/src/jobs/worker\<close> and
    \<open>jobs/queue.rs\<close> on top of the queue.
  \<^item> \<open>Outbox\<close>: \<open>outbox_repo\<close>, a second interpretation of \<open>leased_items\<close>.
  \<^item> \<open>Org_Types\<close>, \<open>Operation_Audit\<close>, \<open>Tenant_Mutations\<close>: the rows of the organisation, the audit event
    and the way a mutation is completed (\<open>ryframe-db/src/application_ports/tenant_mutation.rs\<close>).
  \<^item> \<open>Departments\<close>, \<open>Department_Trees\<close>: the department service and the tree it keeps.
  \<^item> \<open>Org_Messages\<close>, \<open>Capabilities\<close>, \<open>Roles\<close>, \<open>Users\<close>: the plan of a tenant and what it permits
    (\<open>ryframe-application/src/system/product_capability_catalog.rs\<close>, \<open>system/product\<close>), and the services of
    \<open>system/role.rs\<close> and \<open>system/user\<close> with their repositories.
  \<^item> \<open>Org_Changes\<close>, \<open>Org_Effects\<close>, \<open>Administrators\<close>: what each of their commands may change, runs of
    commands of all three services, and what holds after every run.
  \<^item> \<open>Delivery\<close>, \<open>Delivery_Properties\<close>: \<open>jobs/outbox.rs\<close> with its port, from event to effect;
    \<open>Log_Cleaning\<close>: the two deletions of operation log rows (\<open>system/oper_log.rs\<close>, \<open>data_retention_repo.rs\<close>).
  \<^item> \<open>Data_Scope\<close>, \<open>Effective_Scope\<close>: scopes of roles, their merging, and the filters of the queries.
  \<^item> \<open>Principals\<close>, \<open>Authorization_Mirror\<close>, \<open>Principal_Freshness\<close>: \<open>auth/identity.rs\<close>,
    \<open>authorization_resolver.rs\<close>, \<open>auth/principal_resolution.rs\<close> and the cache in Redis
    (\<open>ryframe/src/boot/authorization_cache.rs\<close>).
  \<^item> \<open>Data_Messages\<close>, \<open>Data_Catalog\<close>, \<open>Data_Rows\<close>, \<open>Data_Paging\<close>, \<open>Data_Row_Properties\<close>: the tables of a
    tenant, their validation, reading by cursor and the rolling digest (\<open>ryframe-tenant-db/src/migration\<close>,
    \<open>application_ports/tenant_data\<close> and \<open>data_migration/copy.rs\<close>).
  \<^item> \<open>Data_Targets\<close>, \<open>Data_Target_Properties\<close>: fences, the slot of a dedicated target and the transactions on
    them (\<open>ryframe-tenant-db/src/router\<close>).
  \<^item> \<open>Migration_Records\<close>, \<open>Migration_Steps\<close>, \<open>Migration_Worker\<close>, \<open>Migration_Service\<close>: the rows of a migration,
    its transactions, the worker and the requests of operators
    (\<open>ryframe-application/src/system/tenant/data_migration\<close>). \<open>Migration_Io\<close> holds the programs they are:
    sequences of calls, each of which other processes may come before and may be refused, answered or
    left without an answer.
  \<^item> \<open>Migration_Logic\<close>: triples for these programs, in the locale \<open>surroundings\<close> of what others may do and
    what they keep. \<open>Migration_Invariant\<close> and \<open>Migration_Others\<close>: the invariant \<open>safe\<close> and the steps of
    others, \<open>Migration_Transitions\<close> and \<open>Migration_Targets\<close>: what each transaction does to it,
    \<open>Migration_Safety\<close>: the interpretation of the locale, and a triple of each call. \<open>Migration_Stages\<close>,
    \<open>Migration_Verification\<close>, \<open>Migration_Recovery\<close>, \<open>Migration_Runs\<close> compose them up to the handler of the job,
    \<open>Migration_System\<close> states what holds after every run with one worker at a time.
  \<^item> \<open>Migration_Withdrawal\<close>: what becomes of an accepted cancellation among any number of workers, a second
    use of \<open>surroundings\<close>; \<open>Migration_Two_Workers\<close>: a run of two workers that ends with two open copies.

  \<^bold>\<open>State and operations.\<close> A row is a record with the columns of its entity, a table is a list of
  rows, a transaction is a function of the tables to an error or a result with new tables: an error
  leaves the tables as they were. A service is a composition of such functions in the order of its
  calls; between two transactions other instances may act, which is a function argument restricted by
  the step relation of the component. Clock readings, fresh identifiers, lock contention, the answers
  of handlers and of the network are arguments, so every statement holds for all of them.

  \<^bold>\<open>What is shown.\<close> For the queue and the outbox: their constraints are invariant, each implements the
  lease contract, an old claim is fenced, recovery is exact and its loop ends while no job is claimed. For
  the workers: a round is a run of queue steps and reports what it wrote, and what a failed handling
  costs a job (a retry, its last attempt, or nothing for a retryable conflict) is exact. Across components: an
  authorisation change commits only with its epoch and its event; an event is published exactly with
  its effect; for an audited operation exactly one log row is ever written, and a row leaves the log only
  by the cleaning of its tenant or by its age; once the epoch is mirrored no request is
  given a principal that rests on an older read. For the organisation: departments stay trees, the
  subtree queries are exact, a user sees exactly what the roles grant; an administrator always
  remains, nobody becomes a super administrator through a caller who is none, quotas of the plan hold
  and no command touches another tenant. For sessions: single use of tokens, revocation for good, the
  device limit, and the store in Redis answers like the one in memory as long as session lifetimes do
  not shrink and a session identifier has one owner. For idempotent requests with Redis, in timely
  runs: one run of the handler per key and lifetime, and replays of its answer only. For the data of tenants: fences, slots
  and modes stay consistent, a call touches no other tenant, reading by cursor is exact, equal digests
  mean equal rows; through every migration at most one copy accepts writes, the one the placement
  names, and it holds every row that was accepted before; an accepted cancellation wins. For limits, retries and identifiers:
  exact windows, quotas and delays, and uniqueness.

  \<^bold>\<open>Bounds.\<close> Identifiers, versions and times of the database are \<open>int\<close> with the width (\<open>i32\<close>, \<open>i64\<close>)
  written out wherever the code checks, parses or saturates; the generator, sizes and delays use words
  or \<open>nat\<close>. The loops of a migration run as long as there are turns: a turn is one call, every pass of a
  loop makes one, so one pass more than the turns is never needed and running out of turns is a crash
  of the process. No other definition runs on fuel. Loops over a finite list of moments, such as the recovery
  loop, are \<open>None\<close> when the list is exhausted, and the property says how many moments suffice; the
  retry loop and the half-open probes recurse on a bounded counter.

  \<^bold>\<open>Assumptions.\<close> Transactions are atomic and serialised by their locks; a row that matches an update
  counts as affected; texts are compared byte by byte and not by a collation; column widths of texts
  are not enforced; one query reads one state of the database. A commit whose answer is lost is
  modelled in the delivery of events and in migrations. A Redis transaction is retried until nothing
  interfered, and its version keys are never evicted. The hash function is a parameter; equal digests
  mean equal rows only while no two of the texts in question collide (\<open>collision_free\<close>). The safety of
  migrations is stated for one worker on a migration at a time, which the lease of its job is to
  ensure (two workers can break it, as \<open>Migration_Two_Workers\<close> shows); requests of operators, sessions
  of the tenant and other migrations come between any two calls. A run of idempotent requests is timely
  when every call is made before the reservation, guard or record it rests on has ended; the code does
  not enforce this, and \<open>Idempotency_Properties\<close> shows the runs in which it fails. An audited operation
  is taken to bring an event identifier for which no log row was written before. A batch of rows
  written to a data target holds rows of its tenant. The stored form of outbox events is the one the
  derived serialisation of their types gives.

  \<^bold>\<open>Not modelled.\<close> HTTP handlers, middleware, web sockets and the configuration, which only translate;
  signing, hashing and encoding of tokens and passwords, and stored documents other than those of the
  outbox; storage, mail, spreadsheets, metrics and telemetry; listings with their filters and paging;
  connection pools and the probing of targets; the migrations of the schema and the code generator.
  The services for menus, messages, files, configuration packages, provisioning and backup are not
  modelled; the rows of theirs that jobs or migrations change are.
\<close>

end
